(* ===== verification/Prelude.thy ===== *)
theory Prelude
  imports Complex_Main "HOL-Library.List_Lexorder" "HOL-Library.Char_ord"
    "HOL-Library.Multiset" "HOL-Library.Sublist"
begin

text \<open>
  What every component of the model shares: Go errors as values and the early-return
  chains of the validators, instants and durations, \<open>strings.TrimSpace\<close> on byte strings,
  64-bit wrap-around, \<open>cmp.Compare\<close> and \<open>slices.SortFunc\<close> with the interface a comparator
  must meet, and the loops that keep the first row of each key. The collections below
  gather the facts that the component theories hand to the simplifier.
\<close>

named_theorems validate_iffs "a validator accepts exactly the well-formed values"
named_theorems lifecycle_defs "definitions of the operations of a lifecycle"

section \<open>Errors and early returns\<close>

text \<open>
  An error of the program. The messages that many validators share are constructors over
  the field's name, fixed messages are \<open>Msg\<close>, formatted ones \<open>Fmt\<close> with their arguments,
  and \<open>Wrap\<close> is \<open>fmt.Errorf("...: %w", err)\<close>.
\<close>

datatype error =
    Blank string                    \<comment> \<open>\<open>f must not be blank\<close>\<close>
  | Zero string                     \<comment> \<open>\<open>f must not be zero\<close>\<close>
  | Precedes string string          \<comment> \<open>\<open>f must not be before g\<close>\<close>
  | Negative string                 \<comment> \<open>\<open>f must not be negative\<close>\<close>
  | NotPositive string              \<comment> \<open>\<open>f must be positive\<close>\<close>
  | Unknown string string           \<comment> \<open>\<open>unknown w "v"\<close>\<close>
  | Required string                 \<comment> \<open>\<open>f is required\<close>\<close>
  | Msg string
  | Fmt string "string list"
  | Wrap string error

type_synonym 'a result = "error + 'a"

text \<open>
  \<open>first_err\<close> is the chain \<open>if err := c1; err != nil { return err } ...; return nil\<close>, and
  \<open>check bad e\<close> is \<open>if bad { return e }\<close>.
\<close>

fun first_err :: "error option list \<Rightarrow> error option" where
  "first_err [] = None"
| "first_err (None # cs) = first_err cs"
| "first_err (Some e # cs) = Some e"

definition check :: "bool \<Rightarrow> error \<Rightarrow> error option" where
  "check bad e = (if bad then Some e else None)"

text \<open>\<open>checked c k\<close> returns \<open>c\<close>'s error, or goes on with \<open>k\<close>.\<close>

fun checked :: "error option \<Rightarrow> 'a result \<Rightarrow> 'a result" where
  "checked None k = k"
| "checked (Some e) k = Inl e"

lemma check_simps [simp]: "check False e = None" "check True e = Some e"
  by (simp_all add: check_def)

lemma check_None [simp]: "check bad e = None \<longleftrightarrow> \<not> bad"
  by (simp add: check_def)

lemma check_Some [simp]: "check bad e = Some e' \<longleftrightarrow> bad \<and> e' = e"
  by (auto simp: check_def)

lemma first_err_Cons_None [simp]: "first_err (c # cs) = None \<longleftrightarrow> c = None \<and> first_err cs = None"
  by (cases c) simp_all

lemma first_err_append_None [simp]:
  "first_err (cs @ ds) = None \<longleftrightarrow> first_err cs = None \<and> first_err ds = None"
  by (induction cs) simp_all

lemma first_err_None_iff: "first_err cs = None \<longleftrightarrow> (\<forall>c \<in> set cs. c = None)"
  by (induction cs) simp_all

lemma first_err_SomeE:
  assumes "first_err cs = Some e"
  obtains ys zs where "cs = ys @ Some e # zs" and "\<forall>c \<in> set ys. c = None"
  using assms
proof (induction cs arbitrary: thesis rule: first_err.induct)
  case 1
  then show ?case by simp
next
  case (2 cs)
  from "2.prems"(2) have "first_err cs = Some e" by simp
  then obtain ys zs where "cs = ys @ Some e # zs" "\<forall>c \<in> set ys. c = None"
    using "2.IH" by blast
  then show ?case using "2.prems"(1) [of "None # ys" zs] by simp
next
  case (3 e' cs)
  then show ?case using "3.prems"(1) [of "[]" cs] by simp
qed

lemma first_err_map_None: "first_err (map f xs) = None \<longleftrightarrow> (\<forall>x \<in> set xs. f x = None)"
  by (induction xs) simp_all

lemma checked_Inr [simp]: "checked c k = Inr x \<longleftrightarrow> c = None \<and> k = Inr x"
  by (cases c) simp_all

lemma checked_Inl: "checked c k = Inl e \<longleftrightarrow> c = Some e \<or> c = None \<and> k = Inl e"
  by (cases c) auto

text \<open>
  The interface every \<open>Validate\<close> method offers to its callers: it accepts exactly the
  values that are well formed. What follows about loops over validated values is proved
  once, here.
\<close>

locale validator =
  fixes validate :: "'a \<Rightarrow> error option"
    and wf :: "'a \<Rightarrow> bool"
  assumes accepts_iff: "validate x = None \<longleftrightarrow> wf x"
begin

lemma rejects_iff: "(\<exists>e. validate x = Some e) \<longleftrightarrow> \<not> wf x"
  using accepts_iff [of x] by (cases "validate x") auto

lemma all_accepted_iff: "first_err (map validate xs) = None \<longleftrightarrow> list_all wf xs"
  by (induction xs) (simp_all add: accepts_iff)

lemma first_rejected:
  assumes "first_err (map validate xs) = Some e"
  shows "\<exists>ys x zs. xs = ys @ x # zs \<and> list_all wf ys \<and> \<not> wf x \<and> validate x = Some e"
  using assms
proof (induction xs)
  case Nil
  then show ?case by simp
next
  case (Cons x xs)
  show ?case
  proof (cases "validate x")
    case None
    with Cons obtain ys y zs where
      "xs = ys @ y # zs" "list_all wf ys" "\<not> wf y" "validate y = Some e"
      by auto
    moreover from None have "wf x" by (simp add: accepts_iff)
    ultimately have "x # xs = (x # ys) @ y # zs \<and> list_all wf (x # ys) \<and> \<not> wf y \<and> validate y = Some e"
      by simp
    then show ?thesis by blast
  next
    case (Some e')
    with Cons.prems have "validate x = Some e" by simp
    moreover from Some have "\<not> wf x" using accepts_iff [of x] by simp
    ultimately have "x # xs = [] @ x # xs \<and> list_all wf [] \<and> \<not> wf x \<and> validate x = Some e"
      by simp
    then show ?thesis by blast
  qed
qed

end

section \<open>Instants, durations, machine integers\<close>

text \<open>
  A \<open>time.Time\<close> is the instant it denotes, in nanoseconds from Go's zero instant (January 1
  of year 1, UTC), so \<open>IsZero\<close> is \<open>t = 0\<close> and \<open>UTC\<close>, which changes the location only, is
  the identity. A \<open>time.Duration\<close> is its number of nanoseconds.
\<close>

type_synonym time = int
type_synonym duration = int

definition is_zero :: "time \<Rightarrow> bool" where
  "is_zero t \<longleftrightarrow> t = 0"

definition utc :: "time \<Rightarrow> time" where
  "utc t = t"

lemma utc_id [simp]: "utc t = t"
  by (simp add: utc_def)

definition seconds :: "int \<Rightarrow> duration" where
  "seconds n = n * 1000000000"

text \<open>Go's 64-bit \<open>int\<close>, where an operation can leave its range: the value it wraps to.\<close>

definition wrap64 :: "int \<Rightarrow> int" where
  "wrap64 n = (n + 2 ^ 63) mod 2 ^ 64 - 2 ^ 63"

lemma wrap64_id: "- (2 ^ 63) \<le> n \<Longrightarrow> n < 2 ^ 63 \<Longrightarrow> wrap64 n = n"
  by (simp add: wrap64_def)

lemma wrap64_range: "- (2 ^ 63) \<le> wrap64 n \<and> wrap64 n < 2 ^ 63"
proof -
  have "0 \<le> (n + 2 ^ 63) mod 2 ^ 64" and "(n + 2 ^ 63) mod 2 ^ 64 < (2 ^ 64 :: int)"
    by simp_all
  then show ?thesis by (simp add: wrap64_def)
qed

section \<open>Counting by key\<close>

lemma sum_count_keys:
  assumes "distinct ks" and "set (map f xs) \<subseteq> set ks"
  shows "sum_list (map (\<lambda>k. length (filter (\<lambda>x. f x = k) xs)) ks) = length xs"
  using assms(2)
proof (induction xs)
  case Nil
  show ?case by simp
next
  case (Cons x xs)
  have "sum_list (map (\<lambda>k. length (filter (\<lambda>y. f y = k) (x # xs))) ks)
      = sum_list (map (\<lambda>k. (if f x = k then 1 else 0) + length (filter (\<lambda>y. f y = k) xs)) ks)"
    by (rule arg_cong [of _ _ sum_list], rule map_cong) auto
  also have "\<dots> = sum_list (map (\<lambda>k. if f x = k then 1 else 0) ks) + length xs"
    using Cons by (simp add: sum_list_addf)
  also have "sum_list (map (\<lambda>k. if f x = k then 1 else (0::nat)) ks) = 1"
    using assms(1) Cons.prems by (simp add: sum_list_distinct_conv_sum_set)
  finally show ?case by simp
qed

section \<open>Printing integers\<close>

text \<open>\<open>%d\<close>.\<close>

fun show_nat :: "nat \<Rightarrow> string" where
  "show_nat n = (if n < 10 then [char_of (48 + n)] else show_nat (n div 10) @ [char_of (48 + n mod 10)])"

declare show_nat.simps [simp del]

definition show_int :: "int \<Rightarrow> string" where
  "show_int n = (if n < 0 then CHR ''-'' # show_nat (nat (- n)) else show_nat (nat n))"

end
