(* ===== verification/Strings.thy ===== *)
theory Strings
  imports Prelude
begin

text \<open>
  Go strings are byte sequences, here \<open>string\<close> (a list of 8-bit \<open>char\<close>s). This theory
  holds \<open>strings.TrimSpace\<close>, which every validator and key builder of the program uses:
  it removes the UTF-8 encodings of the runes that \<open>unicode.IsSpace\<close> accepts from both
  ends. The lemmas show that it is idempotent and that nothing it keeps at either end is
  white space, which is what the callers that trim twice rely on.
\<close>

section \<open>White space\<close>

text \<open>
  The UTF-8 encodings of U+0009 to U+000D, U+0020, U+0085, U+00A0, U+1680, U+2000 to
  U+200A, U+2028, U+2029, U+202F, U+205F and U+3000, the runes \<open>unicode.IsSpace\<close> accepts.
\<close>

definition byte :: "nat \<Rightarrow> char" where
  "byte n = char_of n"

definition space_runes :: "string list" where
  "space_runes =
     map (\<lambda>b. [byte b]) [9, 10, 11, 12, 13, 32]
     @ map (\<lambda>b. [byte 194, byte b]) [133, 160]
     @ [[byte 225, byte 154, byte 128]]
     @ map (\<lambda>b. [byte 226, byte 128, byte b])
         [128, 129, 130, 131, 132, 133, 134, 135, 136, 137, 138, 168, 169, 175]
     @ [[byte 226, byte 129, byte 159], [byte 227, byte 128, byte 128]]"

text \<open>
  \<open>strip rs s\<close> removes members of \<open>rs\<close> from the front of \<open>s\<close> while one is there. An
  empty member is skipped (there is none in \<open>space_runes\<close>): each round shortens \<open>s\<close>.
\<close>

definition leading :: "string list \<Rightarrow> string \<Rightarrow> string option" where
  "leading rs s = find (\<lambda>r. r \<noteq> [] \<and> prefix r s) rs"

lemma leading_SomeD:
  "leading rs s = Some r \<Longrightarrow> r \<in> set rs \<and> r \<noteq> [] \<and> prefix r s"
  by (auto simp: leading_def find_Some_iff)

lemma leading_None_iff: "leading rs s = None \<longleftrightarrow> (\<forall>r \<in> set rs. r \<noteq> [] \<longrightarrow> \<not> prefix r s)"
  by (auto simp: leading_def find_None_iff)

function strip :: "string list \<Rightarrow> string \<Rightarrow> string" where
  "strip rs s = (case leading rs s of None \<Rightarrow> s | Some r \<Rightarrow> strip rs (drop (length r) s))"
  by pat_completeness auto
termination
proof (relation "measure (\<lambda>(rs, s). length s)")
  show "wf (measure (\<lambda>(rs, s). length s))" by simp
next
  fix rs s r
  assume "leading rs s = Some r"
  then have "r \<noteq> []" and "prefix r s" by (auto dest: leading_SomeD)
  then have "0 < length r" and "length r \<le> length s" by (auto dest: prefix_length_le)
  then have "length s - length r < length s" by linarith
  then show "((rs, drop (length r) s), (rs, s)) \<in> measure (\<lambda>(rs, s). length s)" by simp
qed

declare strip.simps [simp del]

text \<open>\<open>strings.TrimSpace\<close>: the front first, then the back.\<close>

definition trim_space :: "string \<Rightarrow> string" where
  "trim_space s = rev (strip (map rev space_runes) (rev (strip space_runes s)))"

definition blank :: "string \<Rightarrow> bool" where
  "blank s \<longleftrightarrow> trim_space s = []"

section \<open>Trimming twice is trimming once\<close>

lemma strip_leading_None: "leading rs (strip rs s) = None"
proof (induction rs s rule: strip.induct)
  case (1 rs s)
  then show ?case by (subst strip.simps) (auto split: option.split)
qed

lemma strip_id: "leading rs s = None \<Longrightarrow> strip rs s = s"
  by (subst strip.simps) simp

lemma strip_suffix: "suffix (strip rs s) s"
proof (induction rs s rule: strip.induct)
  case (1 rs s)
  show ?case
  proof (cases "leading rs s")
    case None
    then show ?thesis by (simp add: strip_id)
  next
    case (Some r)
    with "1.IH" have "suffix (strip rs (drop (length r) s)) (drop (length r) s)" by simp
    also have "suffix (drop (length r) s) s" by (rule suffix_drop)
    finally show ?thesis using Some by (subst strip.simps) simp
  qed
qed

lemma leading_prefix: "prefix t s \<Longrightarrow> leading rs s = None \<Longrightarrow> leading rs t = None"
  by (auto simp: leading_None_iff dest: prefix_order.trans)

lemma trim_space_prefix: "prefix (trim_space s) (strip space_runes s)"
  using strip_suffix [of "map rev space_runes" "rev (strip space_runes s)"]
  by (simp add: trim_space_def suffix_to_prefix)

lemma trim_space_idem [simp]: "trim_space (trim_space s) = trim_space s"
proof -
  have "leading space_runes (trim_space s) = None"
    by (rule leading_prefix [OF trim_space_prefix strip_leading_None])
  moreover have "leading (map rev space_runes) (rev (trim_space s)) = None"
    by (simp add: trim_space_def strip_leading_None)
  ultimately show ?thesis
    using strip_id [of space_runes "trim_space s"]
      strip_id [of "map rev space_runes" "rev (trim_space s)"]
    by (simp add: trim_space_def [of "trim_space s"])
qed

lemma blank_trim_space [simp]: "blank (trim_space s) = blank s"
  by (simp add: blank_def)

lemma trim_space_Nil [simp]: "trim_space [] = []"
  using strip_suffix [of _ "[]"] by (simp add: trim_space_def)

lemma blank_Nil [simp]: "blank []"
  by (simp add: blank_def)

lemma not_blank_imp_nonempty: "\<not> blank s \<Longrightarrow> s \<noteq> []"
  by auto

text \<open>
  A string that starts and ends with a printable ASCII byte other than the blank is trimmed
  to itself: the test the closed examples of the development use.
\<close>

definition printable :: "char \<Rightarrow> bool" where
  "printable c \<longleftrightarrow> 32 < (of_char c :: nat) \<and> (of_char c :: nat) < 128"

definition solid :: "string \<Rightarrow> bool" where
  "solid s \<longleftrightarrow> s \<noteq> [] \<and> printable (hd s) \<and> printable (last s)"

lemma of_char_byte: "n < 256 \<Longrightarrow> of_char (byte n) = (n :: nat)"
  by (simp add: byte_def)

lemma space_runes_ends:
  "\<forall>r \<in> set space_runes. r \<noteq> [] \<and> \<not> printable (hd r) \<and> \<not> printable (last r)"
  by (simp add: space_runes_def printable_def of_char_byte)

lemma leading_None_hd:
  assumes "s \<noteq> []" and "hd s \<notin> set (map hd rs)"
  shows "leading rs s = None"
  using assms by (cases s) (force simp: leading_None_iff prefix_Cons)+

lemma trim_space_solid: "solid s \<Longrightarrow> trim_space s = s"
proof -
  assume s: "solid s"
  have "hd s \<notin> set (map hd space_runes)"
    using s space_runes_ends by (auto simp: solid_def)
  with s have front: "strip space_runes s = s"
    by (intro strip_id leading_None_hd) (simp_all add: solid_def)
  have "hd (rev s) \<notin> set (map hd (map rev space_runes))"
    using s space_runes_ends by (fastforce simp: solid_def hd_rev)
  with s have "strip (map rev space_runes) (rev s) = rev s"
    by (intro strip_id leading_None_hd) (simp_all add: solid_def)
  with front show ?thesis by (simp add: trim_space_def)
qed

lemma solid_not_blank [simp]: "solid s \<Longrightarrow> \<not> blank s"
  by (simp add: blank_def trim_space_solid) (simp add: solid_def)

lemmas solid_simps = solid_def printable_def

section \<open>Case and joining\<close>

text \<open>\<open>strings.ToLower\<close> on ASCII text (kinds, types and paths), and \<open>strings.Join\<close>.\<close>

definition to_lower :: "string \<Rightarrow> string" where
  "to_lower s = map (\<lambda>c. let n = of_char c in if 65 \<le> n \<and> n \<le> (90 :: nat) then char_of (n + 32) else c) s"

fun join_with :: "string \<Rightarrow> string list \<Rightarrow> string" where
  "join_with sep [] = []"
| "join_with sep [s] = s"
| "join_with sep (s # ss) = s @ sep @ join_with sep ss"

section \<open>Field validators\<close>

text \<open>\<open>validateIdentifier\<close> and \<open>validateTime\<close>, which the packages \<open>workflow\<close> and
  \<open>scope\<close> each define with the same text.\<close>

definition validateIdentifier :: "string \<Rightarrow> string \<Rightarrow> error option" where
  "validateIdentifier field v = check (blank v) (Blank field)"

definition validateTime :: "string \<Rightarrow> time \<Rightarrow> error option" where
  "validateTime field v = check (is_zero v) (Zero field)"

lemma validateIdentifier_None [validate_iffs, simp]:
  "validateIdentifier f v = None \<longleftrightarrow> \<not> blank v"
  by (simp add: validateIdentifier_def)

lemma validateTime_None [validate_iffs, simp]: "validateTime f v = None \<longleftrightarrow> v \<noteq> 0"
  by (simp add: validateTime_def is_zero_def)

interpretation ident_field: validator "validateIdentifier f" "\<lambda>v. \<not> blank v"
  by unfold_locales simp

end
