(* ===== verification/Truth.thy ===== *)
theory Truth
  imports Strings
begin

text \<open>
  \<open>go/internal/truth/model.go\<close>: the truth layers and the contract a reducer-owned canonical
  kind declares (the source layers it reconciles). The lemmas give the exact contracts
  \<open>Validate\<close> accepts: a named kind with one to three distinct source layers, none of them the
  canonical layer itself.
\<close>

datatype Layer =
    LayerSourceDeclaration
  | LayerAppliedDeclaration
  | LayerObservedResource
  | LayerCanonicalAsset
  | OtherLayer string

record Contract =
  ct_CanonicalKind :: string
  ct_SourceLayers :: "Layer list"

text \<open>The conversion \<open>Layer(s)\<close> from a string.\<close>

definition layer_of_string :: "string \<Rightarrow> Layer" where
  "layer_of_string s =
     (if s = ''source_declaration'' then LayerSourceDeclaration
      else if s = ''applied_declaration'' then LayerAppliedDeclaration
      else if s = ''observed_resource'' then LayerObservedResource
      else if s = ''canonical_asset'' then LayerCanonicalAsset
      else OtherLayer s)"

fun Layer_Validate :: "Layer \<Rightarrow> error option" where
  "Layer_Validate (OtherLayer v) = Some (Unknown ''truth layer'' v)"
| "Layer_Validate _ = None"

definition ParseLayer :: "string \<Rightarrow> Layer result" where
  "ParseLayer raw =
     (let layer = layer_of_string (trim_space raw)
      in checked (Layer_Validate layer) (Inr layer))"

text \<open>The loop of \<open>Contract.Validate\<close>, with the layers seen so far.\<close>

fun validate_layers :: "Layer list \<Rightarrow> Layer list \<Rightarrow> error option" where
  "validate_layers seen [] = None"
| "validate_layers seen (l # ls) =
     (case Layer_Validate l of
        Some e \<Rightarrow> Some e
      | None \<Rightarrow>
          if l = LayerCanonicalAsset then Some (Msg ''source layers must not include canonical_asset'')
          else if l \<in> set seen then Some (Msg ''source layers must not contain duplicates'')
          else validate_layers (l # seen) ls)"

definition Contract_Validate :: "Contract \<Rightarrow> error option" where
  "Contract_Validate c = first_err
     [check (blank (ct_CanonicalKind c)) (Blank ''canonical kind''),
      check (ct_SourceLayers c = []) (Msg ''source layers must not be empty''),
      validate_layers [] (ct_SourceLayers c)]"

fun supports_layer :: "Layer list \<Rightarrow> Layer \<Rightarrow> bool" where
  "supports_layer [] layer = False"
| "supports_layer (c # cs) layer = (if c = layer then True else supports_layer cs layer)"

definition Contract_Supports :: "Contract \<Rightarrow> Layer \<Rightarrow> bool" where
  "Contract_Supports c layer = supports_layer (ct_SourceLayers c) layer"

section \<open>What a valid contract is\<close>

definition source_layers :: "Layer list" where
  "source_layers = [LayerSourceDeclaration, LayerAppliedDeclaration, LayerObservedResource]"

definition contract_ok :: "Contract \<Rightarrow> bool" where
  "contract_ok c \<longleftrightarrow> \<not> blank (ct_CanonicalKind c) \<and> ct_SourceLayers c \<noteq> []
     \<and> distinct (ct_SourceLayers c) \<and> set (ct_SourceLayers c) \<subseteq> set source_layers"

lemma Layer_Validate_source:
  "Layer_Validate l = None \<and> l \<noteq> LayerCanonicalAsset \<longleftrightarrow> l \<in> set source_layers"
  by (cases l) (simp_all add: source_layers_def)

lemma validate_layers_None:
  "validate_layers seen ls = None \<longleftrightarrow>
     distinct ls \<and> set ls \<inter> set seen = {} \<and> set ls \<subseteq> set source_layers"
proof (induction ls arbitrary: seen)
  case Nil
  show ?case by simp
next
  case (Cons l ls)
  have "validate_layers seen (l # ls) = None \<longleftrightarrow>
    l \<in> set source_layers \<and> l \<notin> set seen \<and> validate_layers (l # seen) ls = None"
    by (cases l) (simp_all add: source_layers_def)
  with Cons.IH [of "l # seen"] show ?case by auto
qed

interpretation contracts: validator Contract_Validate contract_ok
  by unfold_locales (simp add: Contract_Validate_def contract_ok_def validate_layers_None)

lemma supports_layer_iff: "supports_layer ls l \<longleftrightarrow> l \<in> set ls"
  by (induction ls) auto

lemma Contract_Supports_iff: "Contract_Supports c l \<longleftrightarrow> l \<in> set (ct_SourceLayers c)"
  by (simp add: Contract_Supports_def supports_layer_iff)

lemma card_source_layers: "card (set source_layers) = 3"
  by (simp add: source_layers_def)

text \<open>
  A contract that \<open>Contract.Validate\<close> accepts names a canonical kind, supports between
  one and three source layers, each declared once, and never supports the canonical layer nor
  an unknown one, so no reducer can take canonical truth as its own evidence.
\<close>

theorem valid_contract_layers:
  assumes "Contract_Validate c = None"
  shows "\<not> Contract_Supports c LayerCanonicalAsset \<and> \<not> Contract_Supports c (OtherLayer v)
     \<and> distinct (ct_SourceLayers c)
     \<and> 1 \<le> length (ct_SourceLayers c) \<and> length (ct_SourceLayers c) \<le> 3"
proof -
  have c: "ct_SourceLayers c \<noteq> []" "distinct (ct_SourceLayers c)"
    "set (ct_SourceLayers c) \<subseteq> set source_layers"
    using assms contracts.accepts_iff [of c] by (simp_all add: contract_ok_def)
  have "length (ct_SourceLayers c) \<le> 3"
    using card_mono [OF finite_set c(3)] c(2) by (simp add: distinct_card card_source_layers)
  moreover have "1 \<le> length (ct_SourceLayers c)"
    using c(1) by (simp add: Suc_le_eq)
  ultimately show ?thesis
    using c(2,3) by (auto simp: Contract_Supports_iff source_layers_def)
qed

lemma valid_contract_layers_witness:
  "\<exists>c. Contract_Validate c = None \<and> \<not> Contract_Supports c LayerCanonicalAsset"
proof -
  let ?c = "\<lparr>ct_CanonicalKind = ''repository'', ct_SourceLayers = [LayerSourceDeclaration]\<rparr>"
  have "Contract_Validate ?c = None"
    by (simp add: Contract_Validate_def solid_simps)
  with valid_contract_layers [OF this] show ?thesis by blast
qed

end
