(* ===== verification/Machines.thy ===== *)
theory Machines
  imports Prelude
begin

text \<open>
  Reachable states and invariants. A component whose operations change a state is a step
  relation; \<open>reach\<close> is the set of states its steps lead to, and the locale \<open>invariant\<close> is
  what a component proves of its steps to know a fact of every reachable state.
\<close>

inductive reach :: "('s \<Rightarrow> bool) \<Rightarrow> ('s \<Rightarrow> 's \<Rightarrow> bool) \<Rightarrow> 's \<Rightarrow> bool"
  for init :: "'s \<Rightarrow> bool" and step :: "'s \<Rightarrow> 's \<Rightarrow> bool" where
  reach_init: "init s \<Longrightarrow> reach init step s"
| reach_step: "reach init step s \<Longrightarrow> step s t \<Longrightarrow> reach init step t"

text \<open>A run from a given state: any number of steps.\<close>

inductive run :: "('s \<Rightarrow> 's \<Rightarrow> bool) \<Rightarrow> 's \<Rightarrow> 's \<Rightarrow> bool" for step :: "'s \<Rightarrow> 's \<Rightarrow> bool" where
  run_refl: "run step s s"
| run_step: "run step s t \<Longrightarrow> step t u \<Longrightarrow> run step s u"

locale preserved =
  fixes step :: "'s \<Rightarrow> 's \<Rightarrow> bool" and I :: "'s \<Rightarrow> bool"
  assumes step_preserves: "step s t \<Longrightarrow> I s \<Longrightarrow> I t"
begin

lemma run_preserves: "run step s t \<Longrightarrow> I s \<Longrightarrow> I t"
  by (induction rule: run.induct) (auto intro: step_preserves)

end

locale invariant = preserved step I for step :: "'s \<Rightarrow> 's \<Rightarrow> bool" and I :: "'s \<Rightarrow> bool" +
  fixes init :: "'s \<Rightarrow> bool"
  assumes init_holds: "init s \<Longrightarrow> I s"
begin

lemma reach_holds: "reach init step s \<Longrightarrow> I s"
  by (induction rule: reach.induct) (auto intro: init_holds step_preserves)

end

text \<open>A quantity no step lowers (a counter, a version, a fencing token).\<close>

locale monotone_step =
  fixes step :: "'s \<Rightarrow> 's \<Rightarrow> bool" and measure_of :: "'s \<Rightarrow> 'a::preorder"
  assumes step_le: "step s t \<Longrightarrow> measure_of s \<le> measure_of t"
begin

lemma run_le: "run step s t \<Longrightarrow> measure_of s \<le> measure_of t"
  by (induction rule: run.induct) (auto intro: order_trans step_le)

end

end
