(* ===== verification/WorkQueue.thy ===== *)
theory WorkQueue
  imports Strings Machines
begin

text \<open>
  \<open>go/internal/queue/models.go\<close>: the durable work item of the projection queues and its
  lifecycle operations. Each operation returns an updated copy or an error, as the Go
  methods on the value receiver do (\<open>clone\<close> copies what the pointers point at, so no
  operation changes its receiver; on HOL values that copy is the value itself).
  The lemmas show the shape each status implies (\<open>item_inv\<close>), that every operation keeps it,
  which operations each status allows, and that \<open>AttemptCount\<close> counts the claims since the
  last replay.
\<close>

section \<open>Data\<close>

datatype QueueStatus =
    StatusPending
  | StatusClaimed
  | StatusRunning
  | StatusRetrying
  | StatusSucceeded
  | StatusDeadLetter
  | StatusFailed
  | OtherStatus string

record RetryState =
  rs_AttemptCount :: int
  rs_LastAttemptAt :: time
  rs_NextAttemptAt :: time

record FailureRecord =
  fr_FailureClass :: string
  fr_Message :: string
  fr_Details :: string

record QueueItem =
  qi_WorkItemID :: string
  qi_ScopeID :: string
  qi_GenerationID :: string
  qi_Stage :: string
  qi_Domain :: string
  qi_AttemptCount :: int
  qi_Status :: QueueStatus
  qi_ClaimUntil :: "time option"
  qi_VisibleAt :: "time option"
  qi_RetryState :: "RetryState option"
  qi_FailureRecord :: "FailureRecord option"

section \<open>Operations\<close>

definition QueueItem_ScopeGenerationKey :: "QueueItem \<Rightarrow> string" where
  "QueueItem_ScopeGenerationKey w = qi_ScopeID w @ '':'' @ qi_GenerationID w"

definition clone :: "QueueItem \<Rightarrow> QueueItem" where
  "clone w = w\<lparr>qi_ClaimUntil := map_option (\<lambda>t. t) (qi_ClaimUntil w),
     qi_VisibleAt := map_option (\<lambda>t. t) (qi_VisibleAt w),
     qi_RetryState := map_option (\<lambda>r. r) (qi_RetryState w),
     qi_FailureRecord := map_option (\<lambda>f. f) (qi_FailureRecord w)\<rparr>"

fun canTransitionFromClaimable :: "QueueStatus \<Rightarrow> bool" where
  "canTransitionFromClaimable StatusPending = True"
| "canTransitionFromClaimable StatusRetrying = True"
| "canTransitionFromClaimable _ = False"

definition Claim :: "QueueItem \<Rightarrow> time \<Rightarrow> duration \<Rightarrow> QueueItem result" where
  "Claim w now leaseFor =
     checked (check (leaseFor \<le> 0) (Msg ''lease duration must be positive''))
       (checked (check (\<not> canTransitionFromClaimable (qi_Status w))
                  (Msg ''cannot claim work item in status''))
          (let leaseUntil = now + leaseFor; cloned = clone w; n = qi_AttemptCount cloned + 1
           in Inr (cloned\<lparr>qi_AttemptCount := n, qi_Status := StatusClaimed,
                qi_ClaimUntil := Some leaseUntil, qi_VisibleAt := Some leaseUntil,
                qi_RetryState := Some \<lparr>rs_AttemptCount = n, rs_LastAttemptAt = now,
                                       rs_NextAttemptAt = leaseUntil\<rparr>\<rparr>)))"

definition StartRunning :: "QueueItem \<Rightarrow> time \<Rightarrow> QueueItem result" where
  "StartRunning w now =
     checked (check (qi_Status w \<noteq> StatusClaimed) (Msg ''cannot start work item in status''))
       (let cloned = clone w
        in Inr (cloned\<lparr>qi_Status := StatusRunning, qi_ClaimUntil := None, qi_VisibleAt := None,
             qi_RetryState := map_option (\<lambda>r. r\<lparr>rs_LastAttemptAt := now\<rparr>) (qi_RetryState cloned)\<rparr>))"

definition Retry :: "QueueItem \<Rightarrow> time \<Rightarrow> time \<Rightarrow> FailureRecord \<Rightarrow> QueueItem result" where
  "Retry w now nextAttempt failure =
     checked (check (qi_Status w \<noteq> StatusRunning \<and> qi_Status w \<noteq> StatusClaimed)
                (Msg ''cannot retry work item in status''))
       (checked (check (nextAttempt < now) (Msg ''next attempt cannot be before now''))
          (let cloned = clone w;
               retryCount = (if qi_AttemptCount cloned = 0 then 1 else qi_AttemptCount cloned)
           in Inr (cloned\<lparr>qi_Status := StatusRetrying, qi_FailureRecord := Some failure,
                qi_ClaimUntil := None, qi_VisibleAt := Some nextAttempt,
                qi_RetryState := Some \<lparr>rs_AttemptCount = retryCount, rs_LastAttemptAt = now,
                                       rs_NextAttemptAt = nextAttempt\<rparr>\<rparr>)))"

definition Fail :: "QueueItem \<Rightarrow> time \<Rightarrow> QueueItem result" where
  "Fail w now =
     checked (check (qi_Status w \<noteq> StatusRunning \<and> qi_Status w \<noteq> StatusClaimed
                       \<and> qi_Status w \<noteq> StatusRetrying)
                (Msg ''cannot fail work item in status''))
       (let cloned = clone w
        in Inr (cloned\<lparr>qi_Status := StatusDeadLetter, qi_ClaimUntil := None, qi_VisibleAt := None,
             qi_RetryState := map_option (\<lambda>r. r\<lparr>rs_LastAttemptAt := now\<rparr>) (qi_RetryState cloned)\<rparr>))"

definition Succeed :: "QueueItem \<Rightarrow> QueueItem result" where
  "Succeed w =
     checked (check (qi_Status w \<noteq> StatusRunning \<and> qi_Status w \<noteq> StatusClaimed)
                (Msg ''cannot succeed work item in status''))
       (Inr ((clone w)\<lparr>qi_Status := StatusSucceeded, qi_ClaimUntil := None, qi_VisibleAt := None,
             qi_RetryState := None, qi_FailureRecord := None\<rparr>))"

definition Replay :: "QueueItem \<Rightarrow> time \<Rightarrow> QueueItem result" where
  "Replay w now =
     checked (check (qi_Status w \<noteq> StatusDeadLetter \<and> qi_Status w \<noteq> StatusFailed)
                (Msg ''cannot replay work item in status''))
       (Inr ((clone w)\<lparr>qi_Status := StatusPending, qi_AttemptCount := 0, qi_ClaimUntil := None,
             qi_VisibleAt := None, qi_RetryState := None, qi_FailureRecord := None\<rparr>))"

lemma clone_id [simp]: "clone w = w"
  by (simp add: clone_def option.map_id [unfolded id_def])

lemmas queue_op_defs [lifecycle_defs] =
  Claim_def StartRunning_def Retry_def Fail_def Succeed_def Replay_def

text \<open>A caller's history: operations applied in order, a refused one leaving the item alone.\<close>

datatype queue_op =
    OpClaim time duration
  | OpStart time
  | OpRetry time time FailureRecord
  | OpFail time
  | OpSucceed
  | OpReplay time

fun apply_op :: "QueueItem \<Rightarrow> queue_op \<Rightarrow> QueueItem result" where
  "apply_op w (OpClaim now d) = Claim w now d"
| "apply_op w (OpStart now) = StartRunning w now"
| "apply_op w (OpRetry now n f) = Retry w now n f"
| "apply_op w (OpFail now) = Fail w now"
| "apply_op w OpSucceed = Succeed w"
| "apply_op w (OpReplay now) = Replay w now"

fun accepted_ops :: "QueueItem \<Rightarrow> queue_op list \<Rightarrow> queue_op list" where
  "accepted_ops w [] = []"
| "accepted_ops w (x # xs) =
     (case apply_op w x of Inl e \<Rightarrow> accepted_ops w xs | Inr w' \<Rightarrow> x # accepted_ops w' xs)"

fun apply_ops :: "QueueItem \<Rightarrow> queue_op list \<Rightarrow> QueueItem" where
  "apply_ops w [] = w"
| "apply_ops w (x # xs) =
     (case apply_op w x of Inl e \<Rightarrow> apply_ops w xs | Inr w' \<Rightarrow> apply_ops w' xs)"

section \<open>What each status implies\<close>

fun item_inv :: "QueueItem \<Rightarrow> bool" where
  "item_inv w =
     (0 \<le> qi_AttemptCount w \<and>
      (case qi_Status w of
         StatusPending \<Rightarrow> qi_AttemptCount w = 0 \<and> qi_ClaimUntil w = None \<and> qi_VisibleAt w = None
           \<and> qi_RetryState w = None \<and> qi_FailureRecord w = None
       | StatusClaimed \<Rightarrow> (\<exists>t r. qi_ClaimUntil w = Some t \<and> qi_VisibleAt w = Some t
           \<and> qi_RetryState w = Some r \<and> rs_NextAttemptAt r = t \<and> rs_LastAttemptAt r < t
           \<and> rs_AttemptCount r = qi_AttemptCount w \<and> 1 \<le> qi_AttemptCount w)
       | StatusRunning \<Rightarrow> qi_ClaimUntil w = None \<and> qi_VisibleAt w = None
           \<and> (\<exists>r. qi_RetryState w = Some r \<and> rs_AttemptCount r = qi_AttemptCount w)
           \<and> 1 \<le> qi_AttemptCount w
       | StatusRetrying \<Rightarrow> qi_ClaimUntil w = None \<and> qi_FailureRecord w \<noteq> None
           \<and> (\<exists>r. qi_RetryState w = Some r \<and> qi_VisibleAt w = Some (rs_NextAttemptAt r)
                \<and> rs_LastAttemptAt r \<le> rs_NextAttemptAt r
                \<and> rs_AttemptCount r = qi_AttemptCount w)
           \<and> 1 \<le> qi_AttemptCount w
       | StatusSucceeded \<Rightarrow> qi_ClaimUntil w = None \<and> qi_VisibleAt w = None
           \<and> qi_RetryState w = None \<and> qi_FailureRecord w = None \<and> 1 \<le> qi_AttemptCount w
       | StatusDeadLetter \<Rightarrow> qi_ClaimUntil w = None \<and> qi_VisibleAt w = None \<and> 1 \<le> qi_AttemptCount w
       | StatusFailed \<Rightarrow> False
       | OtherStatus s \<Rightarrow> False))"

declare item_inv.simps [simp del]

text \<open>The statuses each operation starts from.\<close>

fun op_from :: "queue_op \<Rightarrow> QueueStatus list" where
  "op_from (OpClaim now d) = [StatusPending, StatusRetrying]"
| "op_from (OpStart now) = [StatusClaimed]"
| "op_from (OpRetry now n f) = [StatusRunning, StatusClaimed]"
| "op_from (OpFail now) = [StatusRunning, StatusClaimed, StatusRetrying]"
| "op_from OpSucceed = [StatusRunning, StatusClaimed]"
| "op_from (OpReplay now) = [StatusDeadLetter, StatusFailed]"

lemma apply_op_from: "apply_op w x = Inr w' \<Longrightarrow> qi_Status w \<in> set (op_from x)"
  by (cases x; cases "qi_Status w") (auto simp: lifecycle_defs check_def Let_def)

lemma apply_op_inv: "apply_op w x = Inr w' \<Longrightarrow> item_inv w \<Longrightarrow> item_inv w'"
  by (frule apply_op_from, cases x)
    (auto simp: lifecycle_defs Let_def item_inv.simps)

definition op_step :: "QueueItem \<Rightarrow> QueueItem \<Rightarrow> bool" where
  "op_step w w' \<longleftrightarrow> (\<exists>x. apply_op w x = Inr w')"

interpretation queue_item: preserved op_step item_inv
  by unfold_locales (auto simp: op_step_def intro: apply_op_inv)

lemma apply_ops_run: "run op_step w (apply_ops w xs)"
proof (induction xs rule: rev_induct)
  case Nil
  show ?case by (simp add: run_refl)
next
  case (snoc x xs)
  have "apply_ops w (ys @ [x]) = (case apply_op (apply_ops w ys) x of Inl e \<Rightarrow> apply_ops w ys | Inr v \<Rightarrow> v)"
    for ys
    by (induction ys arbitrary: w) (auto split: sum.split)
  with snoc show ?case
    by (auto simp: op_step_def split: sum.split intro: run_step)
qed

text \<open>The claims since the last replay, over the accepted operations.\<close>

fun claims_since_replay :: "int \<Rightarrow> queue_op list \<Rightarrow> int" where
  "claims_since_replay n [] = n"
| "claims_since_replay n (OpClaim now d # xs) = claims_since_replay (n + 1) xs"
| "claims_since_replay n (OpReplay now # xs) = claims_since_replay 0 xs"
| "claims_since_replay n (x # xs) = claims_since_replay n xs"

lemma apply_op_attempts:
  "apply_op w x = Inr w' \<Longrightarrow> qi_AttemptCount w' = claims_since_replay (qi_AttemptCount w) [x]"
  by (cases x) (auto simp: lifecycle_defs Let_def)

lemma claims_since_replay_Cons:
  "claims_since_replay n (x # xs) = claims_since_replay (claims_since_replay n [x]) xs"
  by (cases x) simp_all

lemma attempts_count_claims:
  "qi_AttemptCount (apply_ops w xs) = claims_since_replay (qi_AttemptCount w) (accepted_ops w xs)"
proof (induction xs arbitrary: w)
  case Nil
  show ?case by simp
next
  case (Cons x xs)
  show ?case
  proof (cases "apply_op w x")
    case (Inl e)
    with Cons show ?thesis by simp
  next
    case (Inr w')
    then have "qi_AttemptCount w' = claims_since_replay (qi_AttemptCount w) [x]"
      by (rule apply_op_attempts)
    moreover have "claims_since_replay (qi_AttemptCount w) (x # accepted_ops w' xs)
        = claims_since_replay (claims_since_replay (qi_AttemptCount w) [x]) (accepted_ops w' xs)"
      by (rule claims_since_replay_Cons)
    ultimately show ?thesis using Inr Cons.IH [of w'] by simp
  qed
qed

text \<open>
  Whatever operations are tried on a fresh pending item, in any order and with any
  arguments, the item keeps the shape of its status (a lease exactly while claimed, a visible
  retry time and a recorded failure while retrying, nothing left over once succeeded), and its
  attempt count is the number of claims accepted since the last accepted replay.
\<close>

theorem queue_item_lifecycle:
  assumes "item_inv w" and "qi_Status w = StatusPending"
  shows "item_inv (apply_ops w xs) \<and> qi_AttemptCount (apply_ops w xs) = claims_since_replay 0 (accepted_ops w xs)"
proof
  show "item_inv (apply_ops w xs)"
    by (rule queue_item.run_preserves [OF apply_ops_run assms(1)])
  from assms have "qi_AttemptCount w = 0" by (simp add: item_inv.simps)
  then show "qi_AttemptCount (apply_ops w xs) = claims_since_replay 0 (accepted_ops w xs)"
    by (simp add: attempts_count_claims)
qed

lemma queue_item_lifecycle_witness:
  "\<exists>w. item_inv w \<and> qi_Status w = StatusPending
     \<and> qi_AttemptCount (apply_ops w [OpClaim 5 10, OpClaim 6 10, OpFail 7, OpReplay 8, OpClaim 9 1]) = 1"
proof -
  let ?w = "\<lparr>qi_WorkItemID = ''w'', qi_ScopeID = ''s'', qi_GenerationID = ''g'', qi_Stage = ''projector'',
    qi_Domain = '''', qi_AttemptCount = 0, qi_Status = StatusPending, qi_ClaimUntil = None,
    qi_VisibleAt = None, qi_RetryState = None, qi_FailureRecord = None\<rparr>"
  let ?xs = "[OpClaim 5 10, OpClaim 6 10, OpFail 7, OpReplay 8, OpClaim 9 1]"
  have inv: "item_inv ?w" by (simp add: item_inv.simps)
  have "accepted_ops ?w ?xs = [OpClaim 5 10, OpFail 7, OpReplay 8, OpClaim 9 1]"
    by (simp add: lifecycle_defs check_def Let_def)
  with queue_item_lifecycle [OF inv, of ?xs] inv show ?thesis by (intro exI [of _ ?w]) simp
qed

end
