(* ===== verification/Scope.thy ===== *)
theory Scope
  imports Strings Machines
begin

text \<open>
  \<open>go/internal/scope/scope.go\<close>: ingestion scopes and the lifecycle of a scope's generations.
  The Go types \<open>ScopeKind\<close>, \<open>CollectorKind\<close> and \<open>TriggerKind\<close> are compared and checked for
  blanks only, so they stay strings; \<open>GenerationStatus\<close>, on which the code switches, is a
  datatype whose last constructor stands for every string that is no known status.
  The lemmas give the exact acceptance condition of each validator, the agreement of
  \<open>IsTerminal\<close> with the transition table, and the shape of every successful run of transitions.
\<close>

section \<open>Data\<close>

type_synonym ScopeKind = string
type_synonym CollectorKind = string

definition CollectorGit :: CollectorKind where "CollectorGit = ''git''"
definition CollectorAWS :: CollectorKind where "CollectorAWS = ''aws''"
definition CollectorTerraformState :: CollectorKind where
  "CollectorTerraformState = ''terraform_state''"
definition CollectorWebhook :: CollectorKind where "CollectorWebhook = ''webhook''"

lemmas collector_kind_defs =
  CollectorGit_def CollectorAWS_def CollectorTerraformState_def CollectorWebhook_def

datatype GenerationStatus =
    GenerationStatusPending
  | GenerationStatusActive
  | GenerationStatusSuperseded
  | GenerationStatusCompleted
  | GenerationStatusFailed
  | OtherGenerationStatus string

record IngestionScope =
  sc_ScopeID :: string
  sc_SourceSystem :: string
  sc_ScopeKind :: ScopeKind
  sc_ParentScopeID :: string
  sc_CollectorKind :: CollectorKind
  sc_PartitionKey :: string
  sc_ActiveGenerationID :: string
  sc_PreviousGenerationExists :: bool
  sc_Metadata :: "(string \<times> string) list option"

record ScopeGeneration =
  gen_GenerationID :: string
  gen_ScopeID :: string
  gen_ObservedAt :: time
  gen_IngestedAt :: time
  gen_Status :: GenerationStatus
  gen_TriggerKind :: string
  gen_FreshnessHint :: string

section \<open>Operations\<close>

definition HasPriorGeneration :: "IngestionScope \<Rightarrow> bool" where
  "HasPriorGeneration s = sc_PreviousGenerationExists s"

definition IngestionScope_Validate :: "IngestionScope \<Rightarrow> error option" where
  "IngestionScope_Validate s = first_err
     [validateIdentifier ''scope_id'' (sc_ScopeID s),
      validateIdentifier ''source_system'' (sc_SourceSystem s),
      validateIdentifier ''scope_kind'' (sc_ScopeKind s),
      validateIdentifier ''collector_kind'' (sc_CollectorKind s),
      validateIdentifier ''partition_key'' (sc_PartitionKey s),
      check (sc_ParentScopeID s \<noteq> [] \<and> sc_ParentScopeID s = sc_ScopeID s)
        (Msg ''parent_scope_id must differ from scope_id'')]"

text \<open>A Go map is nil (\<open>None\<close>) or its entries; \<open>MetadataCopy\<close> returns nil for an empty one.\<close>

definition MetadataCopy :: "IngestionScope \<Rightarrow> (string \<times> string) list option" where
  "MetadataCopy s =
     (case sc_Metadata s of
        None \<Rightarrow> None
      | Some m \<Rightarrow> if m = [] then None else Some (map (\<lambda>(k, v). (k, v)) m))"

fun GenerationStatus_Validate :: "GenerationStatus \<Rightarrow> error option" where
  "GenerationStatus_Validate (OtherGenerationStatus v) = Some (Unknown ''generation status'' v)"
| "GenerationStatus_Validate _ = None"

fun GenerationStatus_IsTerminal :: "GenerationStatus \<Rightarrow> bool" where
  "GenerationStatus_IsTerminal GenerationStatusSuperseded = True"
| "GenerationStatus_IsTerminal GenerationStatusCompleted = True"
| "GenerationStatus_IsTerminal GenerationStatusFailed = True"
| "GenerationStatus_IsTerminal _ = False"

text \<open>The table of allowed transitions; a status that is no key has a nil row.\<close>

fun allowedGenerationTransitions :: "GenerationStatus \<Rightarrow> GenerationStatus list" where
  "allowedGenerationTransitions GenerationStatusPending =
     [GenerationStatusActive, GenerationStatusFailed]"
| "allowedGenerationTransitions GenerationStatusActive =
     [GenerationStatusSuperseded, GenerationStatusCompleted, GenerationStatusFailed]"
| "allowedGenerationTransitions GenerationStatusSuperseded = []"
| "allowedGenerationTransitions GenerationStatusCompleted = []"
| "allowedGenerationTransitions GenerationStatusFailed = []"
| "allowedGenerationTransitions (OtherGenerationStatus v) = []"

definition ScopeGeneration_Validate :: "ScopeGeneration \<Rightarrow> error option" where
  "ScopeGeneration_Validate g = first_err
     [validateIdentifier ''generation_id'' (gen_GenerationID g),
      validateIdentifier ''scope_id'' (gen_ScopeID g),
      validateTime ''observed_at'' (gen_ObservedAt g),
      validateTime ''ingested_at'' (gen_IngestedAt g),
      check (gen_IngestedAt g < gen_ObservedAt g) (Precedes ''ingested_at'' ''observed_at''),
      GenerationStatus_Validate (gen_Status g),
      validateIdentifier ''trigger_kind'' (gen_TriggerKind g)]"

definition ValidateForScope :: "ScopeGeneration \<Rightarrow> IngestionScope \<Rightarrow> error option" where
  "ValidateForScope g s = first_err
     [IngestionScope_Validate s,
      ScopeGeneration_Validate g,
      check (gen_ScopeID g \<noteq> sc_ScopeID s)
        (Fmt ''generation scope_id does not match scope scope_id'' [gen_ScopeID g, sc_ScopeID s])]"

definition IsTerminal :: "ScopeGeneration \<Rightarrow> bool" where
  "IsTerminal g = GenerationStatus_IsTerminal (gen_Status g)"

definition CanTransitionTo :: "ScopeGeneration \<Rightarrow> GenerationStatus \<Rightarrow> bool" where
  "CanTransitionTo g nxt \<longleftrightarrow> nxt \<in> set (allowedGenerationTransitions (gen_Status g))"

definition TransitionTo :: "ScopeGeneration \<Rightarrow> GenerationStatus \<Rightarrow> ScopeGeneration result" where
  "TransitionTo g nxt =
     checked (ScopeGeneration_Validate g)
       (checked (check (\<not> CanTransitionTo g nxt) (Msg ''cannot transition generation status''))
          (Inr (g\<lparr>gen_Status := nxt\<rparr>)))"

definition MarkActive :: "ScopeGeneration \<Rightarrow> ScopeGeneration result" where
  "MarkActive g = TransitionTo g GenerationStatusActive"
definition MarkCompleted :: "ScopeGeneration \<Rightarrow> ScopeGeneration result" where
  "MarkCompleted g = TransitionTo g GenerationStatusCompleted"
definition MarkSuperseded :: "ScopeGeneration \<Rightarrow> ScopeGeneration result" where
  "MarkSuperseded g = TransitionTo g GenerationStatusSuperseded"
definition MarkFailed :: "ScopeGeneration \<Rightarrow> ScopeGeneration result" where
  "MarkFailed g = TransitionTo g GenerationStatusFailed"

lemmas mark_defs [lifecycle_defs] =
  MarkActive_def MarkCompleted_def MarkSuperseded_def MarkFailed_def

text \<open>A caller's sequence of requested statuses, stopping at the first refusal.\<close>

fun transition_all :: "ScopeGeneration \<Rightarrow> GenerationStatus list \<Rightarrow> ScopeGeneration result" where
  "transition_all g [] = Inr g"
| "transition_all g (n # ns) =
     (case TransitionTo g n of Inl e \<Rightarrow> Inl e | Inr g' \<Rightarrow> transition_all g' ns)"

section \<open>Validators\<close>

definition scope_ok :: "IngestionScope \<Rightarrow> bool" where
  "scope_ok s \<longleftrightarrow> \<not> blank (sc_ScopeID s) \<and> \<not> blank (sc_SourceSystem s) \<and> \<not> blank (sc_ScopeKind s)
     \<and> \<not> blank (sc_CollectorKind s) \<and> \<not> blank (sc_PartitionKey s)
     \<and> sc_ParentScopeID s \<noteq> sc_ScopeID s"

fun status_known :: "GenerationStatus \<Rightarrow> bool" where
  "status_known (OtherGenerationStatus v) = False"
| "status_known _ = True"

definition generation_ok :: "ScopeGeneration \<Rightarrow> bool" where
  "generation_ok g \<longleftrightarrow> \<not> blank (gen_GenerationID g) \<and> \<not> blank (gen_ScopeID g)
     \<and> gen_ObservedAt g \<noteq> 0 \<and> gen_IngestedAt g \<noteq> 0 \<and> gen_ObservedAt g \<le> gen_IngestedAt g
     \<and> status_known (gen_Status g) \<and> \<not> blank (gen_TriggerKind g)"

lemma GenerationStatus_Validate_None [validate_iffs, simp]:
  "GenerationStatus_Validate s = None \<longleftrightarrow> status_known s"
  by (cases s) simp_all

interpretation scopes: validator IngestionScope_Validate scope_ok
  by unfold_locales
    (auto simp: IngestionScope_Validate_def scope_ok_def)

interpretation generations: validator ScopeGeneration_Validate generation_ok
  by unfold_locales (auto simp: ScopeGeneration_Validate_def generation_ok_def)

lemmas [validate_iffs] = scopes.accepts_iff generations.accepts_iff

lemma ValidateForScope_None [validate_iffs]:
  "ValidateForScope g s = None \<longleftrightarrow> scope_ok s \<and> generation_ok g \<and> gen_ScopeID g = sc_ScopeID s"
  by (simp add: ValidateForScope_def validate_iffs)

section \<open>The lifecycle\<close>

lemma TransitionTo_Inr:
  "TransitionTo g n = Inr g' \<longleftrightarrow> generation_ok g \<and> CanTransitionTo g n \<and> g' = g\<lparr>gen_Status := n\<rparr>"
  by (auto simp: TransitionTo_def validate_iffs)

lemma TransitionTo_accepted:
  "generation_ok g \<Longrightarrow> CanTransitionTo g n \<Longrightarrow> TransitionTo g n = Inr (g\<lparr>gen_Status := n\<rparr>)"
  by (simp add: TransitionTo_Inr)

lemma transition_target_known: "CanTransitionTo g n \<Longrightarrow> status_known n"
  by (cases "gen_Status g") (auto simp: CanTransitionTo_def)

lemma TransitionTo_ok: "TransitionTo g n = Inr g' \<Longrightarrow> generation_ok g'"
  by (auto simp: TransitionTo_Inr generation_ok_def dest: transition_target_known)

text \<open>How many transitions a status still allows.\<close>

fun moves_left :: "GenerationStatus \<Rightarrow> nat" where
  "moves_left GenerationStatusPending = 2"
| "moves_left GenerationStatusActive = 1"
| "moves_left _ = 0"

lemma TransitionTo_moves: "TransitionTo g n = Inr g' \<Longrightarrow> moves_left (gen_Status g') < moves_left (gen_Status g)"
  by (cases "gen_Status g") (auto simp: TransitionTo_Inr CanTransitionTo_def)

lemma transition_all_facts:
  assumes "transition_all g ns = Inr g'"
  shows "length ns + moves_left (gen_Status g') \<le> moves_left (gen_Status g)"
    and "ns \<noteq> [] \<Longrightarrow> generation_ok g' \<and> gen_Status g' = last ns"
    and "g' = g\<lparr>gen_Status := gen_Status g'\<rparr>"
  using assms
proof (induction ns arbitrary: g)
  case (Cons n ns)
  {
    case 1
    then obtain h where h: "TransitionTo g n = Inr h" "transition_all h ns = Inr g'"
      by (auto split: sum.splits)
    from Cons.IH(1) [OF h(2)] TransitionTo_moves [OF h(1)] show ?case by simp
  next
    case 2
    then obtain h where h: "TransitionTo g n = Inr h" "transition_all h ns = Inr g'"
      by (auto split: sum.splits)
    from Cons.IH(2) [OF _ h(2)] TransitionTo_ok [OF h(1)] h show ?case
      by (cases "ns = []") (auto simp: TransitionTo_Inr)
  next
    case 3
    then obtain h where h: "TransitionTo g n = Inr h" "transition_all h ns = Inr g'"
      by (auto split: sum.splits)
    then have "h = g\<lparr>gen_Status := n\<rparr>" by (simp add: TransitionTo_Inr)
    with Cons.IH(3) [OF h(2)] show ?case by simp
  }
qed simp_all

text \<open>
  A run of successful transitions from a pending generation has at most two steps,
  leaves every field but the status alone, ends in the status requested last, and keeps the
  generation valid; after two steps, and after any step to a status \<open>IsTerminal\<close> accepts, the
  next transition is refused whatever status it asks for.
\<close>

theorem generation_lifecycle:
  assumes "transition_all g ns = Inr g'" and "ns \<noteq> []"
  shows "length ns \<le> 2 \<and> g' = g\<lparr>gen_Status := last ns\<rparr> \<and> ScopeGeneration_Validate g' = None
     \<and> (length ns = 2 \<or> IsTerminal g' \<longrightarrow> (\<forall>n. \<exists>e. TransitionTo g' n = Inl e))"
proof -
  note facts = transition_all_facts [OF assms(1)]
  have bound: "length ns + moves_left (gen_Status g') \<le> 2"
    using facts(1) by (cases "gen_Status g") auto
  have stuck: "\<exists>e. TransitionTo g' n = Inl e" if "moves_left (gen_Status g') = 0" for n
    using TransitionTo_moves [of g' n] that by (cases "TransitionTo g' n") auto
  have final: "moves_left (gen_Status g') = 0" if "IsTerminal g'"
    using that by (cases "gen_Status g'") (auto simp: IsTerminal_def)
  from facts(2) [OF assms(2)] facts(3) bound stuck final show ?thesis
    by (auto simp: generations.accepts_iff)
qed

lemma generation_lifecycle_witness:
  "\<exists>g g'. transition_all g [GenerationStatusActive, GenerationStatusCompleted] = Inr g'
     \<and> length [GenerationStatusActive, GenerationStatusCompleted] \<le> 2
     \<and> (\<exists>e. TransitionTo g' GenerationStatusFailed = Inl e)"
proof -
  let ?g = "\<lparr>gen_GenerationID = ''g1'', gen_ScopeID = ''s1'', gen_ObservedAt = 1, gen_IngestedAt = 2,
    gen_Status = GenerationStatusPending, gen_TriggerKind = ''snapshot'', gen_FreshnessHint = ''''\<rparr>"
  let ?h = "?g\<lparr>gen_Status := GenerationStatusCompleted\<rparr>"
  let ?ns = "[GenerationStatusActive, GenerationStatusCompleted]"
  have run: "transition_all ?g ?ns = Inr ?h"
    by (simp add: TransitionTo_accepted CanTransitionTo_def generation_ok_def solid_simps)
  have stuck: "\<forall>n. \<exists>e. TransitionTo ?h n = Inl e"
    using generation_lifecycle [OF run] by simp
  show ?thesis
    by (rule exI [of _ ?g], rule exI [of _ ?h], intro conjI, rule run, simp, rule stuck [THEN spec])
qed

text \<open>
  \<open>IsTerminal\<close>, which is a switch of its own, agrees with the transition table on every
  known status: a valid generation is terminal exactly when no transition from it succeeds.
\<close>

theorem terminal_iff_stuck:
  assumes "ScopeGeneration_Validate g = None"
  shows "IsTerminal g \<longleftrightarrow> (\<forall>n g'. TransitionTo g n \<noteq> Inr g')"
  using assms
  by (cases "gen_Status g")
    (auto simp: TransitionTo_Inr CanTransitionTo_def IsTerminal_def generations.accepts_iff
      generation_ok_def)

lemma terminal_iff_stuck_witness:
  "\<exists>g. ScopeGeneration_Validate g = None \<and> IsTerminal g \<and> (\<forall>n g'. TransitionTo g n \<noteq> Inr g')"
proof -
  let ?g = "\<lparr>gen_GenerationID = ''g1'', gen_ScopeID = ''s1'', gen_ObservedAt = 1, gen_IngestedAt = 2,
    gen_Status = GenerationStatusFailed, gen_TriggerKind = ''snapshot'', gen_FreshnessHint = ''''\<rparr>"
  have ok: "ScopeGeneration_Validate ?g = None"
    by (simp add: generations.accepts_iff generation_ok_def solid_simps)
  moreover have "IsTerminal ?g" by (simp add: IsTerminal_def)
  ultimately show ?thesis using terminal_iff_stuck [OF ok] by blast
qed

end
