(* ===== verification/Json.thy ===== *)
theory Json
  imports Strings
begin

text \<open>
  The part of Go's \<open>encoding/json\<close> the program uses: the syntax \<open>json.Valid\<close> and
  \<open>json.Unmarshal\<close> accept (RFC 8259, with at most 10000 nested containers), read into a
  value tree. Numbers keep their literal text. String contents are unescaped; bytes that are
  not UTF-8, which the library replaces by U+FFFD while decoding, are kept as they are.
  The reader recurses on fuel. A value takes at least one byte of the text and at most two
  nested calls (its own and its container's), so twice the length of the text is enough.
\<close>

datatype json =
    JNull
  | JBool bool
  | JNum string
  | JStr string
  | JArr "json list"
  | JObj "(string \<times> json) list"

section \<open>Lexing\<close>

definition is_ws :: "char \<Rightarrow> bool" where
  "is_ws c \<longleftrightarrow> c = byte 32 \<or> c = byte 9 \<or> c = byte 10 \<or> c = byte 13"

definition skip_ws :: "string \<Rightarrow> string" where
  "skip_ws s = dropWhile is_ws s"

definition is_digit :: "char \<Rightarrow> bool" where
  "is_digit c \<longleftrightarrow> CHR ''0'' \<le> c \<and> c \<le> CHR ''9''"

definition hex_value :: "char \<Rightarrow> nat option" where
  "hex_value c =
     (let n = of_char c :: nat in
      if 48 \<le> n \<and> n \<le> 57 then Some (n - 48)
      else if 97 \<le> n \<and> n \<le> 102 then Some (n - 87)
      else if 65 \<le> n \<and> n \<le> 70 then Some (n - 55)
      else None)"

text \<open>\<open>-?(0|[1-9][0-9]*)([.][0-9]+)?([eE][+-]?[0-9]+)?\<close>: the literal and what follows it.\<close>

definition lex_int :: "string \<Rightarrow> (string \<times> string) option" where
  "lex_int s =
     (case s of
        [] \<Rightarrow> None
      | c # t \<Rightarrow>
          if c = CHR ''0'' then Some ([c], t)
          else if is_digit c then Some (takeWhile is_digit s, dropWhile is_digit s)
          else None)"

definition lex_frac :: "string \<Rightarrow> (string \<times> string) option" where
  "lex_frac s =
     (case s of
        [] \<Rightarrow> Some ([], [])
      | c # t \<Rightarrow>
          if c = CHR ''.'' then
            (if takeWhile is_digit t = [] then None
             else Some (c # takeWhile is_digit t, dropWhile is_digit t))
          else Some ([], s))"

definition lex_exp :: "string \<Rightarrow> (string \<times> string) option" where
  "lex_exp s =
     (case s of
        [] \<Rightarrow> Some ([], [])
      | c # t \<Rightarrow>
          if c = CHR ''e'' \<or> c = CHR ''E'' then
            (let sign = (case t of [] \<Rightarrow> [] | d # _ \<Rightarrow> if d = CHR ''+'' \<or> d = CHR ''-'' then [d] else []);
                 u = drop (length sign) t
             in if takeWhile is_digit u = [] then None
                else Some (c # sign @ takeWhile is_digit u, dropWhile is_digit u))
          else Some ([], s))"

definition lex_number :: "string \<Rightarrow> (string \<times> string) option" where
  "lex_number s =
     (let sign = (case s of [] \<Rightarrow> [] | c # _ \<Rightarrow> if c = CHR ''-'' then [c] else []) in
      case lex_int (drop (length sign) s) of
        None \<Rightarrow> None
      | Some (i, s1) \<Rightarrow>
          (case lex_frac s1 of
             None \<Rightarrow> None
           | Some (f, s2) \<Rightarrow>
               (case lex_exp s2 of
                  None \<Rightarrow> None
                | Some (e, s3) \<Rightarrow> Some (sign @ i @ f @ e, s3))))"

text \<open>UTF-8 of a code point; lone surrogates become U+FFFD, as \<open>unquote\<close> makes them.\<close>

definition utf8 :: "nat \<Rightarrow> string" where
  "utf8 n =
     (let n = (if 55296 \<le> n \<and> n \<le> 57343 then 65533 else n) in
      if n < 128 then [byte n]
      else if n < 2048 then [byte (192 + n div 64), byte (128 + n mod 64)]
      else if n < 65536 then
        [byte (224 + n div 4096), byte (128 + n div 64 mod 64), byte (128 + n mod 64)]
      else [byte (240 + n div 262144), byte (128 + n div 4096 mod 64),
            byte (128 + n div 64 mod 64), byte (128 + n mod 64)])"

fun hex4 :: "string \<Rightarrow> (nat \<times> string) option" where
  "hex4 (a # b # c # d # t) =
     (case (hex_value a, hex_value b, hex_value c, hex_value d) of
        (Some w, Some x, Some y, Some z) \<Rightarrow> Some (w * 4096 + x * 256 + y * 16 + z, t)
      | _ \<Rightarrow> None)"
| "hex4 _ = None"

definition escape :: "char \<Rightarrow> char option" where
  "escape c =
     (if c = byte 34 \<or> c = byte 92 \<or> c = CHR ''/'' then Some c
      else if c = CHR ''b'' then Some (byte 8)
      else if c = CHR ''f'' then Some (byte 12)
      else if c = CHR ''n'' then Some (byte 10)
      else if c = CHR ''r'' then Some (byte 13)
      else if c = CHR ''t'' then Some (byte 9)
      else None)"

text \<open>The low half of a surrogate pair, when \<open>\uXXXX\<close> with one follows.\<close>

definition low_surrogate :: "string \<Rightarrow> (nat \<times> string) option" where
  "low_surrogate s =
     (case s of
        b # u # t \<Rightarrow>
          (if b = byte 92 \<and> u = CHR ''u'' then
             (case hex4 t of
                Some (n, r) \<Rightarrow> if 56320 \<le> n \<and> n \<le> 57343 then Some (n, r) else None
              | None \<Rightarrow> None)
           else None)
      | _ \<Rightarrow> None)"

text \<open>The rest of a string after its opening quote: its content and what follows it.\<close>

fun lex_string :: "nat \<Rightarrow> string \<Rightarrow> (string \<times> string) option" where
  "lex_string 0 s = None"
| "lex_string (Suc fuel) s =
     (case s of
        [] \<Rightarrow> None
      | c # t \<Rightarrow>
          if c = byte 34 then Some ([], t)
          else if (of_char c :: nat) < 32 then None
          else if c = byte 92 then
            (case t of
               [] \<Rightarrow> None
             | d # u \<Rightarrow>
                 if d = CHR ''u'' then
                   (case hex4 u of
                      None \<Rightarrow> None
                    | Some (n, r) \<Rightarrow>
                        (case (if 55296 \<le> n \<and> n \<le> 56319 then low_surrogate r else None) of
                           Some (m, r') \<Rightarrow>
                             map_option (apfst ((@) (utf8 (65536 + (n - 55296) * 1024 + (m - 56320)))))
                               (lex_string fuel r')
                         | None \<Rightarrow> map_option (apfst ((@) (utf8 n))) (lex_string fuel r)))
                 else
                   (case escape d of
                      None \<Rightarrow> None
                    | Some e \<Rightarrow> map_option (apfst ((#) e)) (lex_string fuel u)))
          else map_option (apfst ((#) c)) (lex_string fuel t))"

definition read_string :: "string \<Rightarrow> (string \<times> string) option" where
  "read_string s = lex_string (Suc (length s)) s"

section \<open>Parsing\<close>

definition max_nesting :: nat where
  "max_nesting = 10000"

text \<open>\<open>f\<close> is the fuel, \<open>d\<close> the number of containers that are open.\<close>

fun parse_value :: "nat \<Rightarrow> nat \<Rightarrow> string \<Rightarrow> (json \<times> string) option"
  and parse_elems :: "nat \<Rightarrow> nat \<Rightarrow> string \<Rightarrow> (json list \<times> string) option"
  and parse_members :: "nat \<Rightarrow> nat \<Rightarrow> string \<Rightarrow> ((string \<times> json) list \<times> string) option"
where
  "parse_value 0 d s = None"
| "parse_value (Suc f) d s =
     (case skip_ws s of
        [] \<Rightarrow> None
      | c # t \<Rightarrow>
          if c = byte 123 then
            (if max_nesting \<le> d then None
             else case skip_ws t of
                    [] \<Rightarrow> None
                  | e # u \<Rightarrow>
                      if e = byte 125 then Some (JObj [], u)
                      else map_option (apfst JObj) (parse_members f (Suc d) t))
          else if c = byte 91 then
            (if max_nesting \<le> d then None
             else case skip_ws t of
                    [] \<Rightarrow> None
                  | e # u \<Rightarrow>
                      if e = byte 93 then Some (JArr [], u)
                      else map_option (apfst JArr) (parse_elems f (Suc d) t))
          else if c = byte 34 then map_option (apfst JStr) (read_string t)
          else if prefix ''true'' (c # t) then Some (JBool True, drop 3 t)
          else if prefix ''false'' (c # t) then Some (JBool False, drop 4 t)
          else if prefix ''null'' (c # t) then Some (JNull, drop 3 t)
          else map_option (apfst JNum) (lex_number (c # t)))"
| "parse_elems 0 d s = None"
| "parse_elems (Suc f) d s =
     (case parse_value f d s of
        None \<Rightarrow> None
      | Some (v, r) \<Rightarrow>
          (case skip_ws r of
             [] \<Rightarrow> None
           | e # u \<Rightarrow>
               if e = byte 93 then Some ([v], u)
               else if e = byte 44 then map_option (apfst ((#) v)) (parse_elems f d u)
               else None))"
| "parse_members 0 d s = None"
| "parse_members (Suc f) d s =
     (case skip_ws s of
        [] \<Rightarrow> None
      | q # t \<Rightarrow>
          if q \<noteq> byte 34 then None
          else case read_string t of
                 None \<Rightarrow> None
               | Some (k, r) \<Rightarrow>
                   (case skip_ws r of
                      [] \<Rightarrow> None
                    | col # r1 \<Rightarrow>
                        if col \<noteq> byte 58 then None
                        else case parse_value f d r1 of
                               None \<Rightarrow> None
                             | Some (v, r2) \<Rightarrow>
                                 (case skip_ws r2 of
                                    [] \<Rightarrow> None
                                  | e # u \<Rightarrow>
                                      if e = byte 125 then Some ([(k, v)], u)
                                      else if e = byte 44 then
                                        map_option (apfst ((#) (k, v))) (parse_members f d u)
                                      else None)))"

definition parse_document :: "string \<Rightarrow> json option" where
  "parse_document s =
     (case parse_value (2 * length s + 2) 0 s of
        None \<Rightarrow> None
      | Some (v, r) \<Rightarrow> if skip_ws r = [] then Some v else None)"

definition json_Valid :: "string \<Rightarrow> bool" where
  "json_Valid s \<longleftrightarrow> parse_document s \<noteq> None"

end
