(* ===== verification/Workflow.thy ===== *)
theory Workflow
  imports Scope Json
begin

text \<open>
  The data model of the workflow coordinator: \<open>go/internal/workflow/types.go\<close>,
  \<open>collector_instance.go\<close>, \<open>completeness.go\<close>, \<open>defaults.go\<close> and the argument types of
  \<open>store.go\<close>. A run is the root record of one workflow execution, a work item the unit one
  collector claims, a claim one ownership epoch of a work item, a completeness state one
  checkpoint of a run. Every \<open>Validate\<close> method is an interpretation of \<open>validator\<close> with the
  exact condition it accepts.
\<close>

section \<open>Statuses\<close>

datatype CollectorMode =
    CollectorModeContinuous | CollectorModeScheduled | CollectorModeManual
  | OtherCollectorMode string

fun CollectorMode_Validate :: "CollectorMode \<Rightarrow> error option" where
  "CollectorMode_Validate (OtherCollectorMode v) = Some (Unknown ''collector mode'' v)"
| "CollectorMode_Validate _ = None"

datatype WorkflowTriggerKind =
    TriggerKindBootstrap | TriggerKindSchedule | TriggerKindWebhook | TriggerKindReplay
  | TriggerKindOperatorRecovery
  | OtherTriggerKind string

fun TriggerKind_Validate :: "WorkflowTriggerKind \<Rightarrow> error option" where
  "TriggerKind_Validate (OtherTriggerKind v) = Some (Unknown ''workflow trigger kind'' v)"
| "TriggerKind_Validate _ = None"

datatype RunStatus =
    RunStatusCollectionPending | RunStatusCollectionActive | RunStatusCollectionComplete
  | RunStatusReducerConverging | RunStatusComplete | RunStatusFailed
  | OtherRunStatus string

fun RunStatus_Validate :: "RunStatus \<Rightarrow> error option" where
  "RunStatus_Validate (OtherRunStatus v) = Some (Unknown ''workflow run status'' v)"
| "RunStatus_Validate _ = None"

datatype WorkItemStatus =
    WorkItemStatusPending | WorkItemStatusClaimed | WorkItemStatusCompleted
  | WorkItemStatusFailedRetryable | WorkItemStatusFailedTerminal | WorkItemStatusExpired
  | OtherWorkItemStatus string

fun WorkItemStatus_Validate :: "WorkItemStatus \<Rightarrow> error option" where
  "WorkItemStatus_Validate (OtherWorkItemStatus v) = Some (Unknown ''workflow work-item status'' v)"
| "WorkItemStatus_Validate _ = None"

datatype ClaimStatus =
    ClaimStatusActive | ClaimStatusCompleted | ClaimStatusFailedRetryable
  | ClaimStatusFailedTerminal | ClaimStatusExpired | ClaimStatusReleased
  | OtherClaimStatus string

fun ClaimStatus_Validate :: "ClaimStatus \<Rightarrow> error option" where
  "ClaimStatus_Validate (OtherClaimStatus v) = Some (Unknown ''workflow claim status'' v)"
| "ClaimStatus_Validate _ = None"

section \<open>Records\<close>

record Run =
  run_RunID :: string
  run_TriggerKind :: WorkflowTriggerKind
  run_Status :: RunStatus
  run_RequestedScopeSet :: string
  run_RequestedCollector :: string
  run_CreatedAt :: time
  run_UpdatedAt :: time
  run_FinishedAt :: time

record WorkItem =
  wi_WorkItemID :: string
  wi_RunID :: string
  wi_CollectorKind :: CollectorKind
  wi_CollectorInstanceID :: string
  wi_SourceSystem :: string
  wi_ScopeID :: string
  wi_AcceptanceUnitID :: string
  wi_SourceRunID :: string
  wi_GenerationID :: string
  wi_FairnessKey :: string
  wi_Status :: WorkItemStatus
  wi_AttemptCount :: int
  wi_CurrentClaimID :: string
  wi_CurrentFencingToken :: int
  wi_CurrentOwnerID :: string
  wi_LeaseExpiresAt :: time
  wi_VisibleAt :: time
  wi_LastClaimedAt :: time
  wi_LastCompletedAt :: time
  wi_LastFailureClass :: string
  wi_LastFailureMessage :: string
  wi_CreatedAt :: time
  wi_UpdatedAt :: time

record Claim =
  cl_ClaimID :: string
  cl_WorkItemID :: string
  cl_FencingToken :: int
  cl_OwnerID :: string
  cl_Status :: ClaimStatus
  cl_ClaimedAt :: time
  cl_HeartbeatAt :: time
  cl_LeaseExpiresAt :: time
  cl_FinishedAt :: time
  cl_FailureClass :: string
  cl_FailureMessage :: string
  cl_CreatedAt :: time
  cl_UpdatedAt :: time

record DesiredCollectorInstance =
  dci_InstanceID :: string
  dci_CollectorKind :: CollectorKind
  dci_Mode :: CollectorMode
  dci_Enabled :: bool
  dci_Bootstrap :: bool
  dci_ClaimsEnabled :: bool
  dci_DisplayName :: string
  dci_Configuration :: string

record CollectorInstance =
  ci_InstanceID :: string
  ci_CollectorKind :: CollectorKind
  ci_Mode :: CollectorMode
  ci_Enabled :: bool
  ci_Bootstrap :: bool
  ci_ClaimsEnabled :: bool
  ci_DisplayName :: string
  ci_Configuration :: string
  ci_LastObservedAt :: time
  ci_DeactivatedAt :: time
  ci_CreatedAt :: time
  ci_UpdatedAt :: time

record ClaimSelector =
  sel_CollectorKind :: CollectorKind
  sel_CollectorInstanceID :: string
  sel_OwnerID :: string
  sel_ClaimID :: string

record ClaimMutation =
  mut_WorkItemID :: string
  mut_ClaimID :: string
  mut_FencingToken :: int
  mut_OwnerID :: string
  mut_ObservedAt :: time
  mut_LeaseDuration :: duration
  mut_FailureClass :: string
  mut_FailureMessage :: string
  mut_VisibleAt :: time

record CompletenessState =
  cs_RunID :: string
  cs_CollectorKind :: CollectorKind
  cs_Keyspace :: string
  cs_PhaseName :: string
  cs_Required :: bool
  cs_Status :: string
  cs_Detail :: string
  cs_ObservedAt :: time
  cs_UpdatedAt :: time

section \<open>Defaults\<close>

definition DefaultClaimLeaseTTL :: duration where
  "DefaultClaimLeaseTTL = seconds 60"
definition DefaultHeartbeatInterval :: duration where
  "DefaultHeartbeatInterval = seconds 20"
definition DefaultReapInterval :: duration where
  "DefaultReapInterval = seconds 20"
definition DefaultExpiredClaimLimit :: int where
  "DefaultExpiredClaimLimit = 100"
definition DefaultExpiredClaimRequeueDelay :: duration where
  "DefaultExpiredClaimRequeueDelay = seconds 5"

section \<open>Validators\<close>

definition Run_Validate :: "Run \<Rightarrow> error option" where
  "Run_Validate r = first_err
     [validateIdentifier ''run_id'' (run_RunID r),
      TriggerKind_Validate (run_TriggerKind r),
      RunStatus_Validate (run_Status r),
      validateTime ''created_at'' (run_CreatedAt r),
      validateTime ''updated_at'' (run_UpdatedAt r),
      check (run_UpdatedAt r < run_CreatedAt r) (Precedes ''updated_at'' ''created_at''),
      check (\<not> is_zero (run_FinishedAt r) \<and> run_FinishedAt r < run_CreatedAt r)
        (Precedes ''finished_at'' ''created_at'')]"

definition WorkItem_Validate :: "WorkItem \<Rightarrow> error option" where
  "WorkItem_Validate w = first_err
     [validateIdentifier ''work_item_id'' (wi_WorkItemID w),
      validateIdentifier ''run_id'' (wi_RunID w),
      validateIdentifier ''collector_kind'' (wi_CollectorKind w),
      validateIdentifier ''collector_instance_id'' (wi_CollectorInstanceID w),
      validateIdentifier ''source_system'' (wi_SourceSystem w),
      validateIdentifier ''scope_id'' (wi_ScopeID w),
      validateIdentifier ''acceptance_unit_id'' (wi_AcceptanceUnitID w),
      validateIdentifier ''source_run_id'' (wi_SourceRunID w),
      validateIdentifier ''generation_id'' (wi_GenerationID w),
      WorkItemStatus_Validate (wi_Status w),
      check (wi_AttemptCount w < 0) (Negative ''attempt_count''),
      check (wi_CurrentFencingToken w < 0) (Negative ''current_fencing_token''),
      validateTime ''created_at'' (wi_CreatedAt w),
      validateTime ''updated_at'' (wi_UpdatedAt w),
      check (wi_UpdatedAt w < wi_CreatedAt w) (Precedes ''updated_at'' ''created_at'')]"

definition Claim_Validate :: "Claim \<Rightarrow> error option" where
  "Claim_Validate c = first_err
     [validateIdentifier ''claim_id'' (cl_ClaimID c),
      validateIdentifier ''work_item_id'' (cl_WorkItemID c),
      check (cl_FencingToken c \<le> 0) (NotPositive ''fencing_token''),
      validateIdentifier ''owner_id'' (cl_OwnerID c),
      ClaimStatus_Validate (cl_Status c),
      validateTime ''claimed_at'' (cl_ClaimedAt c),
      validateTime ''heartbeat_at'' (cl_HeartbeatAt c),
      validateTime ''lease_expires_at'' (cl_LeaseExpiresAt c),
      validateTime ''created_at'' (cl_CreatedAt c),
      validateTime ''updated_at'' (cl_UpdatedAt c),
      check (cl_HeartbeatAt c < cl_ClaimedAt c) (Precedes ''heartbeat_at'' ''claimed_at''),
      check (cl_LeaseExpiresAt c < cl_HeartbeatAt c) (Precedes ''lease_expires_at'' ''heartbeat_at''),
      check (cl_UpdatedAt c < cl_CreatedAt c) (Precedes ''updated_at'' ''created_at''),
      check (\<not> is_zero (cl_FinishedAt c) \<and> cl_FinishedAt c < cl_ClaimedAt c)
        (Precedes ''finished_at'' ''claimed_at'')]"

definition normalizeJSONDocument :: "string \<Rightarrow> string" where
  "normalizeJSONDocument raw = (let trimmed = trim_space raw in if trimmed = [] then ''{}'' else trimmed)"

definition validateJSONDocument :: "string \<Rightarrow> string \<Rightarrow> error option" where
  "validateJSONDocument field raw =
     check (\<not> json_Valid (normalizeJSONDocument raw)) (Fmt ''must be valid JSON'' [field])"

definition DesiredCollectorInstance_Validate :: "DesiredCollectorInstance \<Rightarrow> error option" where
  "DesiredCollectorInstance_Validate d = first_err
     [validateIdentifier ''instance_id'' (dci_InstanceID d),
      validateIdentifier ''collector_kind'' (dci_CollectorKind d),
      CollectorMode_Validate (dci_Mode d),
      validateJSONDocument ''configuration'' (dci_Configuration d)]"

definition CollectorInstance_Validate :: "CollectorInstance \<Rightarrow> error option" where
  "CollectorInstance_Validate i = first_err
     [validateIdentifier ''instance_id'' (ci_InstanceID i),
      validateIdentifier ''collector_kind'' (ci_CollectorKind i),
      CollectorMode_Validate (ci_Mode i),
      validateJSONDocument ''configuration'' (ci_Configuration i),
      validateTime ''last_observed_at'' (ci_LastObservedAt i),
      validateTime ''created_at'' (ci_CreatedAt i),
      validateTime ''updated_at'' (ci_UpdatedAt i),
      check (ci_UpdatedAt i < ci_CreatedAt i) (Precedes ''updated_at'' ''created_at''),
      check (ci_LastObservedAt i < ci_CreatedAt i) (Precedes ''last_observed_at'' ''created_at''),
      check (\<not> is_zero (ci_DeactivatedAt i) \<and> ci_DeactivatedAt i < ci_CreatedAt i)
        (Precedes ''deactivated_at'' ''created_at'')]"

definition CompletenessState_Validate :: "CompletenessState \<Rightarrow> error option" where
  "CompletenessState_Validate c = first_err
     [validateIdentifier ''run_id'' (cs_RunID c),
      validateIdentifier ''collector_kind'' (cs_CollectorKind c),
      validateIdentifier ''keyspace'' (cs_Keyspace c),
      validateIdentifier ''phase_name'' (cs_PhaseName c),
      check (blank (cs_Status c)) (Blank ''status''),
      validateTime ''observed_at'' (cs_ObservedAt c),
      validateTime ''updated_at'' (cs_UpdatedAt c),
      check (cs_UpdatedAt c < cs_ObservedAt c) (Precedes ''updated_at'' ''observed_at'')]"

section \<open>Materialising a desired instance\<close>

definition Materialize :: "DesiredCollectorInstance \<Rightarrow> time \<Rightarrow> CollectorInstance" where
  "Materialize d observedAt =
     (let now = utc observedAt
      in \<lparr>ci_InstanceID = trim_space (dci_InstanceID d),
          ci_CollectorKind = dci_CollectorKind d,
          ci_Mode = dci_Mode d,
          ci_Enabled = dci_Enabled d,
          ci_Bootstrap = dci_Bootstrap d,
          ci_ClaimsEnabled = dci_ClaimsEnabled d,
          ci_DisplayName = trim_space (dci_DisplayName d),
          ci_Configuration = normalizeJSONDocument (dci_Configuration d),
          ci_LastObservedAt = now,
          ci_DeactivatedAt = 0,
          ci_CreatedAt = now,
          ci_UpdatedAt = now\<rparr>)"

section \<open>What the validators accept\<close>

fun mode_known :: "CollectorMode \<Rightarrow> bool" where
  "mode_known (OtherCollectorMode v) = False"
| "mode_known _ = True"

fun trigger_known :: "WorkflowTriggerKind \<Rightarrow> bool" where
  "trigger_known (OtherTriggerKind v) = False"
| "trigger_known _ = True"

fun run_status_known :: "RunStatus \<Rightarrow> bool" where
  "run_status_known (OtherRunStatus v) = False"
| "run_status_known _ = True"

fun work_item_status_known :: "WorkItemStatus \<Rightarrow> bool" where
  "work_item_status_known (OtherWorkItemStatus v) = False"
| "work_item_status_known _ = True"

fun claim_status_known :: "ClaimStatus \<Rightarrow> bool" where
  "claim_status_known (OtherClaimStatus v) = False"
| "claim_status_known _ = True"

lemma CollectorMode_Validate_None [validate_iffs, simp]:
  "CollectorMode_Validate m = None \<longleftrightarrow> mode_known m"
  by (cases m) simp_all

lemma TriggerKind_Validate_None [validate_iffs, simp]:
  "TriggerKind_Validate k = None \<longleftrightarrow> trigger_known k"
  by (cases k) simp_all

lemma RunStatus_Validate_None [validate_iffs, simp]:
  "RunStatus_Validate s = None \<longleftrightarrow> run_status_known s"
  by (cases s) simp_all

lemma WorkItemStatus_Validate_None [validate_iffs, simp]:
  "WorkItemStatus_Validate s = None \<longleftrightarrow> work_item_status_known s"
  by (cases s) simp_all

lemma ClaimStatus_Validate_None [validate_iffs, simp]:
  "ClaimStatus_Validate s = None \<longleftrightarrow> claim_status_known s"
  by (cases s) simp_all

definition run_ok :: "Run \<Rightarrow> bool" where
  "run_ok r \<longleftrightarrow> \<not> blank (run_RunID r) \<and> trigger_known (run_TriggerKind r)
     \<and> run_status_known (run_Status r) \<and> run_CreatedAt r \<noteq> 0 \<and> run_UpdatedAt r \<noteq> 0
     \<and> run_CreatedAt r \<le> run_UpdatedAt r
     \<and> (run_FinishedAt r = 0 \<or> run_CreatedAt r \<le> run_FinishedAt r)"

definition work_item_ok :: "WorkItem \<Rightarrow> bool" where
  "work_item_ok w \<longleftrightarrow>
     list_all (\<lambda>s. \<not> blank s)
       [wi_WorkItemID w, wi_RunID w, wi_CollectorKind w, wi_CollectorInstanceID w,
        wi_SourceSystem w, wi_ScopeID w, wi_AcceptanceUnitID w, wi_SourceRunID w, wi_GenerationID w]
     \<and> work_item_status_known (wi_Status w) \<and> 0 \<le> wi_AttemptCount w
     \<and> 0 \<le> wi_CurrentFencingToken w \<and> wi_CreatedAt w \<noteq> 0 \<and> wi_UpdatedAt w \<noteq> 0
     \<and> wi_CreatedAt w \<le> wi_UpdatedAt w"

definition claim_ok :: "Claim \<Rightarrow> bool" where
  "claim_ok c \<longleftrightarrow>
     list_all (\<lambda>s. \<not> blank s) [cl_ClaimID c, cl_WorkItemID c, cl_OwnerID c]
     \<and> 0 < cl_FencingToken c \<and> claim_status_known (cl_Status c)
     \<and> list_all (\<lambda>t. t \<noteq> 0)
         [cl_ClaimedAt c, cl_HeartbeatAt c, cl_LeaseExpiresAt c, cl_CreatedAt c, cl_UpdatedAt c]
     \<and> cl_ClaimedAt c \<le> cl_HeartbeatAt c \<and> cl_HeartbeatAt c \<le> cl_LeaseExpiresAt c
     \<and> cl_CreatedAt c \<le> cl_UpdatedAt c
     \<and> (cl_FinishedAt c = 0 \<or> cl_ClaimedAt c \<le> cl_FinishedAt c)"

definition desired_ok :: "DesiredCollectorInstance \<Rightarrow> bool" where
  "desired_ok d \<longleftrightarrow> \<not> blank (dci_InstanceID d) \<and> \<not> blank (dci_CollectorKind d)
     \<and> mode_known (dci_Mode d) \<and> json_Valid (normalizeJSONDocument (dci_Configuration d))"

definition instance_ok :: "CollectorInstance \<Rightarrow> bool" where
  "instance_ok i \<longleftrightarrow> \<not> blank (ci_InstanceID i) \<and> \<not> blank (ci_CollectorKind i)
     \<and> mode_known (ci_Mode i) \<and> json_Valid (normalizeJSONDocument (ci_Configuration i))
     \<and> list_all (\<lambda>t. t \<noteq> 0) [ci_LastObservedAt i, ci_CreatedAt i, ci_UpdatedAt i]
     \<and> ci_CreatedAt i \<le> ci_UpdatedAt i \<and> ci_CreatedAt i \<le> ci_LastObservedAt i
     \<and> (ci_DeactivatedAt i = 0 \<or> ci_CreatedAt i \<le> ci_DeactivatedAt i)"

definition completeness_ok :: "CompletenessState \<Rightarrow> bool" where
  "completeness_ok c \<longleftrightarrow>
     list_all (\<lambda>s. \<not> blank s)
       [cs_RunID c, cs_CollectorKind c, cs_Keyspace c, cs_PhaseName c, cs_Status c]
     \<and> cs_ObservedAt c \<noteq> 0 \<and> cs_UpdatedAt c \<noteq> 0 \<and> cs_ObservedAt c \<le> cs_UpdatedAt c"

lemma validateJSONDocument_None [validate_iffs, simp]:
  "validateJSONDocument f raw = None \<longleftrightarrow> json_Valid (normalizeJSONDocument raw)"
  by (simp add: validateJSONDocument_def)

interpretation runs: validator Run_Validate run_ok
  by unfold_locales (auto simp: Run_Validate_def run_ok_def is_zero_def)

interpretation work_items: validator WorkItem_Validate work_item_ok
  by unfold_locales (auto simp: WorkItem_Validate_def work_item_ok_def)

interpretation claims: validator Claim_Validate claim_ok
  by unfold_locales (auto simp: Claim_Validate_def claim_ok_def is_zero_def)

interpretation desired_instances: validator DesiredCollectorInstance_Validate desired_ok
  by unfold_locales (auto simp: DesiredCollectorInstance_Validate_def desired_ok_def)

interpretation instances: validator CollectorInstance_Validate instance_ok
  by unfold_locales (auto simp: CollectorInstance_Validate_def instance_ok_def is_zero_def)

interpretation completeness: validator CompletenessState_Validate completeness_ok
  by unfold_locales (auto simp: CompletenessState_Validate_def completeness_ok_def)

lemmas [validate_iffs] =
  runs.accepts_iff work_items.accepts_iff claims.accepts_iff desired_instances.accepts_iff
  instances.accepts_iff completeness.accepts_iff

lemma normalizeJSONDocument_idem [simp]:
  "normalizeJSONDocument (normalizeJSONDocument raw) = normalizeJSONDocument raw"
proof -
  have "trim_space ''{}'' = ''{}''"
    by (rule trim_space_solid) (simp add: solid_simps)
  then show ?thesis by (simp add: normalizeJSONDocument_def Let_def)
qed

text \<open>
  A desired collector instance that validates materialises, at any non-zero observation
  time, into a durable row that validates too, with its configuration already normalised, so
  reconciliation never rejects what the configuration loader accepted.
\<close>

theorem materialize_validates:
  assumes "DesiredCollectorInstance_Validate d = None" and "t \<noteq> 0"
  shows "CollectorInstance_Validate (Materialize d t) = None
     \<and> normalizeJSONDocument (ci_Configuration (Materialize d t)) = ci_Configuration (Materialize d t)
     \<and> ci_DeactivatedAt (Materialize d t) = 0"
  using assms
  by (simp add: validate_iffs desired_ok_def instance_ok_def Materialize_def Let_def)

lemma json_Valid_empty_object: "json_Valid ''{}''"
  by code_simp

lemma materialize_validates_witness:
  "\<exists>d. DesiredCollectorInstance_Validate d = None \<and> CollectorInstance_Validate (Materialize d 1) = None"
proof -
  let ?d = "\<lparr>dci_InstanceID = ''git-1'', dci_CollectorKind = ''git'', dci_Mode = CollectorModeContinuous,
    dci_Enabled = True, dci_Bootstrap = False, dci_ClaimsEnabled = True, dci_DisplayName = [],
    dci_Configuration = []\<rparr>"
  have "DesiredCollectorInstance_Validate ?d = None"
    using json_Valid_empty_object
    by (simp add: validate_iffs desired_ok_def solid_simps normalizeJSONDocument_def)
  moreover from this have "CollectorInstance_Validate (Materialize ?d 1) = None"
    using materialize_validates [of ?d 1] by simp
  ultimately show ?thesis by (intro exI [of _ ?d]) simp
qed

end
