(* ===== verification/Ordering.thy ===== *)
theory Ordering
  imports Prelude
begin

text \<open>
  The three-way comparisons of Go's \<open>cmp\<close> and \<open>strings\<close> packages, sorting by such a
  comparison, and the loops that keep the first row of each key. The locale \<open>comparator\<close>
  is the contract \<open>slices.SortFunc\<close> states for its argument (a strict weak ordering); every
  comparison function of the program is an interpretation of it.
\<close>

section \<open>Comparisons\<close>

text \<open>\<open>cmp.Compare\<close> on integers and \<open>strings.Compare\<close> on strings (bytewise).\<close>

definition compare :: "'a::linorder \<Rightarrow> 'a \<Rightarrow> int" where
  "compare a b = (if a < b then -1 else if b < a then 1 else 0)"

text \<open>\<open>if c := first; c != 0 { return c }; return second\<close>.\<close>

definition or_else :: "int \<Rightarrow> int \<Rightarrow> int" where
  "or_else c d = (if c \<noteq> 0 then c else d)"

locale comparator =
  fixes cmp :: "'a \<Rightarrow> 'a \<Rightarrow> int"
  assumes cmp_swap: "sgn (cmp y x) = - sgn (cmp x y)"
    and cmp_trans: "cmp x y \<le> 0 \<Longrightarrow> cmp y z \<le> 0 \<Longrightarrow> cmp x z \<le> 0"
begin

lemma cmp_refl: "cmp x x = 0"
  using cmp_swap [of x x] by (simp add: sgn_if split: if_splits)

lemma cmp_total: "cmp x y \<le> 0 \<or> cmp y x \<le> 0"
  using cmp_swap [of x y] by (auto simp: sgn_if split: if_splits)

lemma cmp_less_iff: "cmp x y < 0 \<longleftrightarrow> 0 < cmp y x"
  using cmp_swap [of x y] by (auto simp: sgn_if split: if_splits)

lemma cmp_zero_sym: "cmp x y = 0 \<longleftrightarrow> cmp y x = 0"
  using cmp_swap [of x y] by (auto simp: sgn_if split: if_splits)

lemma cmp_zeroI: "cmp x y \<le> 0 \<Longrightarrow> cmp y x \<le> 0 \<Longrightarrow> cmp x y = 0"
  using cmp_swap [of x y] by (auto simp: sgn_if split: if_splits)

end

lemma comparator_key: "comparator (\<lambda>x y. compare (f x) (f y))"
  by unfold_locales (auto simp: compare_def split: if_splits)

lemma comparator_via: "comparator cmp \<Longrightarrow> comparator (\<lambda>x y. cmp (f x) (f y))"
  by (rule comparator.intro) (erule comparator.cmp_swap, erule (2) comparator.cmp_trans)

lemma comparator_lex:
  assumes "comparator c" and "comparator d"
  shows "comparator (\<lambda>x y. or_else (c x y) (d x y))"
proof
  fix x y z
  show "sgn (or_else (c y x) (d y x)) = - sgn (or_else (c x y) (d x y))"
    using comparator.cmp_swap [OF assms(1), of x y] comparator.cmp_swap [OF assms(2), of x y]
      comparator.cmp_zero_sym [OF assms(1), of x y]
    by (simp add: or_else_def)
  assume xy: "or_else (c x y) (d x y) \<le> 0" and yz: "or_else (c y z) (d y z) \<le> 0"
  have "c x y \<le> 0" and "c y z \<le> 0"
    using xy yz by (auto simp: or_else_def split: if_splits)
  then have xz: "c x z \<le> 0" by (rule comparator.cmp_trans [OF assms(1)])
  show "or_else (c x z) (d x z) \<le> 0"
  proof (cases "c x z = 0")
    case True
    then have "c z x \<le> 0" using comparator.cmp_zero_sym [OF assms(1), of x z] by simp
    with \<open>c x y \<le> 0\<close> \<open>c y z \<le> 0\<close> have "c y x \<le> 0" and "c z y \<le> 0"
      by (blast intro: comparator.cmp_trans [OF assms(1)])+
    with \<open>c x y \<le> 0\<close> \<open>c y z \<le> 0\<close> have "c x y = 0" and "c y z = 0"
      by (auto intro: comparator.cmp_zeroI [OF assms(1)])
    with xy yz have "d x y \<le> 0" and "d y z \<le> 0" by (auto simp: or_else_def)
    then have "d x z \<le> 0" by (rule comparator.cmp_trans [OF assms(2)])
    with True show ?thesis by (simp add: or_else_def)
  next
    case False
    with xz show ?thesis by (simp add: or_else_def)
  qed
qed

lemma comparator_flip:
  assumes "comparator c"
  shows "comparator (\<lambda>x y. c y x)"
proof
  fix x y z
  show "sgn (c x y) = - sgn (c y x)" by (rule comparator.cmp_swap [OF assms])
  show "c y x \<le> 0 \<Longrightarrow> c z y \<le> 0 \<Longrightarrow> c z x \<le> 0"
    using comparator.cmp_trans [OF assms, of z y x] by blast
qed

lemma compare_zero_iff [simp]: "compare a b = 0 \<longleftrightarrow> a = b"
  by (auto simp: compare_def)

lemma compare_le_iff [simp]: "compare a b \<le> 0 \<longleftrightarrow> a \<le> b"
  by (auto simp: compare_def)

lemma compare_less_iff [simp]: "compare a b < 0 \<longleftrightarrow> a < b"
  by (auto simp: compare_def)

lemma or_else_zero_iff [simp]: "or_else c d = 0 \<longleftrightarrow> c = 0 \<and> d = 0"
  by (auto simp: or_else_def)

lemma or_else_less_iff: "or_else c d < 0 \<longleftrightarrow> c < 0 \<or> c = 0 \<and> d < 0"
  by (auto simp: or_else_def)

lemma or_else_le_iff: "or_else c d \<le> 0 \<longleftrightarrow> c < 0 \<or> c = 0 \<and> d \<le> 0"
  by (auto simp: or_else_def)

section \<open>Sorting\<close>

text \<open>
  \<open>slices.SortFunc\<close> and \<open>sort.SliceStable\<close>, as the insertion sort Go runs on short slices
  (each element moves left past the strictly greater ones, so equal elements keep their
  order). \<open>slices.SortFunc\<close> leaves the order of equal elements open; \<open>sort_unique\<close> shows
  that nothing depends on it where the comparison separates the elements.
\<close>

fun insert_by :: "('a \<Rightarrow> 'a \<Rightarrow> int) \<Rightarrow> 'a \<Rightarrow> 'a list \<Rightarrow> 'a list" where
  "insert_by cmp x [] = [x]"
| "insert_by cmp x (y # ys) = (if cmp x y < 0 then x # y # ys else y # insert_by cmp x ys)"

definition sort_by :: "('a \<Rightarrow> 'a \<Rightarrow> int) \<Rightarrow> 'a list \<Rightarrow> 'a list" where
  "sort_by cmp xs = fold (insert_by cmp) xs []"

definition ordered :: "('a \<Rightarrow> 'a \<Rightarrow> int) \<Rightarrow> 'a list \<Rightarrow> bool" where
  "ordered cmp xs \<longleftrightarrow> sorted_wrt (\<lambda>x y. cmp x y \<le> 0) xs"

lemma mset_insert_by [simp]: "mset (insert_by cmp x ys) = add_mset x (mset ys)"
  by (induction ys) auto

lemma mset_fold_insert_by: "mset (fold (insert_by cmp) xs ys) = mset xs + mset ys"
  by (induction xs arbitrary: ys) auto

lemma mset_sort_by [simp]: "mset (sort_by cmp xs) = mset xs"
  by (simp add: sort_by_def mset_fold_insert_by)

lemma set_sort_by [simp]: "set (sort_by cmp xs) = set xs"
  by (metis mset_sort_by set_mset_mset)

lemma length_sort_by [simp]: "length (sort_by cmp xs) = length xs"
  by (metis mset_sort_by size_mset)

lemma distinct_sort_by [simp]: "distinct (sort_by cmp xs) = distinct xs"
  by (metis mset_sort_by mset_eq_imp_distinct_iff)

lemma distinct_map_sort_by [simp]: "distinct (map f (sort_by cmp xs)) = distinct (map f xs)"
  by (rule mset_eq_imp_distinct_iff) (metis mset_map mset_sort_by)

lemma sort_by_Nil [simp]: "sort_by cmp [] = []"
  by (simp add: sort_by_def)

lemma sort_by_eq_Nil_iff [simp]: "sort_by cmp xs = [] \<longleftrightarrow> xs = []"
  by (metis length_0_conv length_sort_by)

lemma sum_list_map_sort_by [simp]:
  fixes f :: "'a \<Rightarrow> 'b::comm_monoid_add"
  shows "sum_list (map f (sort_by cmp xs)) = sum_list (map f xs)"
  by (metis mset_map mset_sort_by sum_mset_sum_list)

context comparator
begin

lemma ordered_insert_by: "ordered cmp ys \<Longrightarrow> ordered cmp (insert_by cmp x ys)"
proof (induction ys)
  case Nil
  then show ?case by (simp add: ordered_def)
next
  case (Cons y ys)
  then have y: "\<forall>z \<in> set ys. cmp y z \<le> 0" and ys: "ordered cmp ys"
    by (simp_all add: ordered_def)
  show ?case
  proof (cases "cmp x y < 0")
    case True
    then have "\<forall>z \<in> set (y # ys). cmp x z \<le> 0"
      using y cmp_trans [of x y] by auto
    with True Cons.prems show ?thesis by (simp add: ordered_def)
  next
    case False
    then have "cmp y x \<le> 0" using cmp_less_iff [of x y] by simp
    moreover have "set (insert_by cmp x ys) = insert x (set ys)"
      by (metis mset_insert_by set_mset_add_mset_insert set_mset_mset)
    ultimately show ?thesis using False y Cons.IH [OF ys] by (simp add: ordered_def)
  qed
qed

lemma ordered_sort_by: "ordered cmp (sort_by cmp xs)"
proof -
  have "ordered cmp ys \<Longrightarrow> ordered cmp (fold (insert_by cmp) xs ys)" for ys
    by (induction xs arbitrary: ys) (simp_all add: ordered_insert_by)
  then show ?thesis by (simp add: sort_by_def ordered_def)
qed

lemma sort_unique:
  assumes "ordered cmp xs" and "ordered cmp ys" and "mset xs = mset ys"
    and sep: "\<And>x y. x \<in> set xs \<Longrightarrow> y \<in> set xs \<Longrightarrow> cmp x y = 0 \<Longrightarrow> x = y"
  shows "xs = ys"
  using assms
proof (induction xs arbitrary: ys)
  case Nil
  then show ?case by simp
next
  case (Cons x xs)
  then obtain y ys' where ys: "ys = y # ys'" by (cases ys) auto
  from Cons.prems(3) have sets: "set (x # xs) = set ys" by (metis set_mset_mset)
  have "cmp x y \<le> 0"
  proof -
    from sets ys have "y \<in> set (x # xs)" by simp
    with Cons.prems(1) show ?thesis by (auto simp: ordered_def cmp_refl)
  qed
  moreover have "cmp y x \<le> 0"
  proof -
    from sets ys have "x \<in> set (y # ys')" by auto
    with Cons.prems(2) ys show ?thesis by (auto simp: ordered_def cmp_refl)
  qed
  ultimately have "x = y"
    using sets ys by (intro Cons.prems(4) cmp_zeroI) auto
  moreover have "xs = ys'"
    using Cons.prems ys \<open>x = y\<close> by (intro Cons.IH) (auto simp: ordered_def)
  ultimately show ?case using ys by simp
qed

lemma ordered_hd_least: "ordered cmp (x # xs) \<Longrightarrow> y \<in> set (x # xs) \<Longrightarrow> cmp x y \<le> 0"
  by (auto simp: ordered_def cmp_refl)

lemma ordered_take: "ordered cmp xs \<Longrightarrow> ordered cmp (take n xs)"
  by (simp add: ordered_def sorted_wrt_take)

lemma ordered_take_drop:
  "ordered cmp xs \<Longrightarrow> x \<in> set (take n xs) \<Longrightarrow> y \<in> set (drop n xs) \<Longrightarrow> cmp x y \<le> 0"
  by (metis append_take_drop_id ordered_def sorted_wrt_append)

end

section \<open>First row of each key\<close>

text \<open>
  The loop \<open>if _, ok := seen[key(x)]; ok { continue }; seen[key(x)] = ...; out = append(out, x)\<close>,
  with the keys seen so far as a list.
\<close>

fun first_of_each :: "('a \<Rightarrow> 'k) \<Rightarrow> 'k list \<Rightarrow> 'a list \<Rightarrow> 'a list" where
  "first_of_each key seen [] = []"
| "first_of_each key seen (x # xs) =
     (if key x \<in> set seen then first_of_each key seen xs
      else x # first_of_each key (key x # seen) xs)"

lemma set_map_first_of_each:
  "key ` set (first_of_each key seen xs) = key ` set xs - set seen"
  by (induction key seen xs rule: first_of_each.induct) auto

lemma distinct_map_first_of_each: "distinct (map key (first_of_each key seen xs))"
proof (induction key seen xs rule: first_of_each.induct)
  case (2 key seen x xs)
  then show ?case using set_map_first_of_each [of key "key x # seen" xs] by auto
qed simp

lemma set_first_of_each: "set (first_of_each key seen xs) \<subseteq> set xs"
  by (induction key seen xs rule: first_of_each.induct) auto

text \<open>The duplicate check: \<open>if _, ok := seen[x]; ok { return err }; seen[x] = ...\<close>.\<close>

fun has_duplicate :: "'a list \<Rightarrow> bool" where
  "has_duplicate [] = False"
| "has_duplicate (x # xs) = (x \<in> set xs \<or> has_duplicate xs)"

lemma has_duplicate_iff [simp]: "has_duplicate xs \<longleftrightarrow> \<not> distinct xs"
  by (induction xs) auto

end
