(* ===== verification/Fairness.thy ===== *)
theory Fairness
  imports Workflow Ordering "HOL-Library.AList"
begin

text \<open>
  \<open>go/internal/workflow/fairness.go\<close>: the scheduler that decides which collector instance
  gets the next claim attempt, by smooth weighted round-robin over collector families and
  rotation inside the chosen family. Weights are Go's 64-bit \<open>int\<close>, so every addition is
  written with \<open>wrap64\<close>. The scheduler changes in place: \<open>Next\<close> returns it updated, and a nil
  receiver is \<open>None\<close>.
  The lemmas show that the weights balance (their current values sum to 0 and stay above
  minus the total), and from that the share of every family over any window of calls.
\<close>

section \<open>Data\<close>

record FairnessCandidate =
  fc_CollectorKind :: CollectorKind
  fc_CollectorInstanceID :: string
  fc_Weight :: int

record ClaimTarget =
  tgt_CollectorKind :: CollectorKind
  tgt_CollectorInstanceID :: string

record fairnessFamily =
  ff_collectorKind :: CollectorKind
  ff_weight :: int
  ff_currentWeight :: int
  ff_instanceIDs :: "string list"
  ff_nextInstance :: nat

record FamilyFairnessScheduler =
  fs_families :: "fairnessFamily list"
  fs_totalWeight :: int

definition defaultFairnessWeight :: int where
  "defaultFairnessWeight = 1"

section \<open>Construction\<close>

text \<open>The body of the loop over the candidates; \<open>grouped\<close> is the map from kinds to families.\<close>

definition group_candidate ::
  "(CollectorKind \<times> fairnessFamily) list \<Rightarrow> FairnessCandidate \<Rightarrow> (CollectorKind \<times> fairnessFamily) list result"
where
  "group_candidate grouped c =
     (let kind = trim_space (fc_CollectorKind c); instanceID = trim_space (fc_CollectorInstanceID c) in
      checked (check (kind = []) (Required ''collector kind''))
       (checked (check (instanceID = []) (Required ''collector instance id''))
        (let weight = (if fc_Weight c = 0 then defaultFairnessWeight else fc_Weight c) in
         checked (check (weight < 0) (Fmt ''fairness weight must be positive'' [kind]))
          (let family = (case map_of grouped kind of
                 Some f \<Rightarrow> f
               | None \<Rightarrow> \<lparr>ff_collectorKind = kind, ff_weight = weight, ff_currentWeight = 0,
                          ff_instanceIDs = [], ff_nextInstance = 0\<rparr>);
               family = (if ff_weight family < weight then family\<lparr>ff_weight := weight\<rparr> else family);
               family = family\<lparr>ff_instanceIDs := ff_instanceIDs family @ [instanceID]\<rparr>
           in Inr (AList.update kind family grouped)))))"

fun group_candidates ::
  "(CollectorKind \<times> fairnessFamily) list \<Rightarrow> FairnessCandidate list \<Rightarrow> (CollectorKind \<times> fairnessFamily) list result"
where
  "group_candidates grouped [] = Inr grouped"
| "group_candidates grouped (c # cs) =
     (case group_candidate grouped c of Inl e \<Rightarrow> Inl e | Inr g \<Rightarrow> group_candidates g cs)"

definition cmp_families :: "fairnessFamily \<Rightarrow> fairnessFamily \<Rightarrow> int" where
  "cmp_families f g = compare (ff_collectorKind f) (ff_collectorKind g)"

definition sort_instances :: "fairnessFamily \<Rightarrow> fairnessFamily" where
  "sort_instances f = f\<lparr>ff_instanceIDs := sort_by compare (ff_instanceIDs f)\<rparr>"

fun total_weight :: "int \<Rightarrow> fairnessFamily list \<Rightarrow> int" where
  "total_weight t [] = t"
| "total_weight t (f # fs) = total_weight (wrap64 (t + ff_weight f)) fs"

text \<open>The families are read off the map in no fixed order; the sort by kind fixes it.\<close>

definition NewFamilyFairnessScheduler :: "FairnessCandidate list \<Rightarrow> FamilyFairnessScheduler result" where
  "NewFamilyFairnessScheduler candidates =
     (case group_candidates [] candidates of
        Inl e \<Rightarrow> Inl e
      | Inr grouped \<Rightarrow>
          (let families = sort_by cmp_families (map (sort_instances \<circ> snd) grouped)
           in Inr \<lparr>fs_families = families, fs_totalWeight = total_weight 0 families\<rparr>))"

section \<open>The next claim attempt\<close>

definition bump :: "fairnessFamily \<Rightarrow> fairnessFamily" where
  "bump f = f\<lparr>ff_currentWeight := wrap64 (ff_currentWeight f + ff_weight f)\<rparr>"

text \<open>The loop of \<open>Next\<close> from index \<open>i\<close> on, with the index selected so far.\<close>

function select_loop :: "nat \<Rightarrow> nat \<Rightarrow> fairnessFamily list \<Rightarrow> nat \<times> fairnessFamily list" where
  "select_loop i selected fs =
     (if i < length fs then
        let fs' = fs[i := bump (fs ! i)]
        in select_loop (Suc i)
             (if ff_currentWeight (fs' ! selected) < ff_currentWeight (fs' ! i) then i else selected) fs'
      else (selected, fs))"
  by pat_completeness auto
termination
  by (relation "measure (\<lambda>(i, _, fs). length fs - i)") (auto simp: Let_def)

declare select_loop.simps [simp del]

definition advance :: "FamilyFairnessScheduler \<Rightarrow> (ClaimTarget \<times> FamilyFairnessScheduler) option" where
  "advance s =
     (if fs_families s = [] \<or> fs_totalWeight s \<le> 0 then None
      else
        let (selected, fs) = select_loop 0 0 (fs_families s);
            family = fs ! selected;
            instanceID = ff_instanceIDs family ! ff_nextInstance family;
            family' = family\<lparr>ff_currentWeight := wrap64 (ff_currentWeight family - fs_totalWeight s),
                             ff_nextInstance := (ff_nextInstance family + 1) mod length (ff_instanceIDs family)\<rparr>
        in Some (\<lparr>tgt_CollectorKind = ff_collectorKind family, tgt_CollectorInstanceID = instanceID\<rparr>,
                 s\<lparr>fs_families := fs[selected := family']\<rparr>))"

definition Next ::
  "FamilyFairnessScheduler option \<Rightarrow> ClaimTarget option \<times> FamilyFairnessScheduler option" where
  "Next receiver =
     (case receiver of
        None \<Rightarrow> (None, None)
      | Some s \<Rightarrow>
          (case advance s of
             None \<Rightarrow> (None, Some s)
           | Some (target, s') \<Rightarrow> (Some target, Some s')))"

text \<open>The targets of \<open>n\<close> successive calls (fewer when a call finds nothing to select), and the
  scheduler they leave.\<close>

fun next_targets :: "nat \<Rightarrow> FamilyFairnessScheduler option \<Rightarrow> ClaimTarget list \<times> FamilyFairnessScheduler option"
where
  "next_targets 0 r = ([], r)"
| "next_targets (Suc n) r =
     (case Next r of
        (None, r') \<Rightarrow> ([], r')
      | (Some t, r') \<Rightarrow> (case next_targets n r' of (ts, r'') \<Rightarrow> (t # ts, r'')))"

section \<open>Candidates from collector instances\<close>

text \<open>
  \<open>json.Unmarshal\<close> into a struct with the one field \<open>FairnessWeight *int\<close>. A key names the
  field when it equals \<open>fairness_weight\<close> after case folding (the letters, the long s and the
  Kelvin sign fold to ASCII); each occurrence overwrites the field, \<open>null\<close> resets it, and a
  value that is no integer of 64 bits is an error that decoding reports at its end. A document
  \<open>null\<close> leaves the struct alone, any other document than an object is an error.
\<close>

fun fold_name :: "string \<Rightarrow> string" where
  "fold_name (a # b # c # t) =
     (if a = byte 226 \<and> b = byte 132 \<and> c = byte 170 then CHR ''K'' # fold_name t
      else if a = byte 197 \<and> b = byte 191 then CHR ''S'' # fold_name (c # t)
      else (if CHR ''a'' \<le> a \<and> a \<le> CHR ''z'' then byte (of_char a - 32) else a) # fold_name (b # c # t))"
| "fold_name (a # b # []) =
     (if a = byte 197 \<and> b = byte 191 then [CHR ''S'']
      else (if CHR ''a'' \<le> a \<and> a \<le> CHR ''z'' then byte (of_char a - 32) else a) # fold_name [b])"
| "fold_name (a # []) = [if CHR ''a'' \<le> a \<and> a \<le> CHR ''z'' then byte (of_char a - 32) else a]"
| "fold_name [] = []"

fun parse_digits :: "int \<Rightarrow> string \<Rightarrow> int option" where
  "parse_digits n [] = Some n"
| "parse_digits n (c # t) = (if is_digit c then parse_digits (10 * n + (of_char c - 48)) t else None)"

definition parse_int64 :: "string \<Rightarrow> int option" where
  "parse_int64 s =
     (case (case s of c # t \<Rightarrow> if c = CHR ''-'' then map_option uminus (parse_digits 0 t) else parse_digits 0 s
                    | [] \<Rightarrow> None) of
        None \<Rightarrow> None
      | Some n \<Rightarrow> if - (2 ^ 63) \<le> n \<and> n < 2 ^ 63 then Some n else None)"

fun decode_weight :: "int option \<Rightarrow> bool \<Rightarrow> (string \<times> json) list \<Rightarrow> int option result" where
  "decode_weight w failed [] = (if failed then Inl (Msg ''json: cannot unmarshal'') else Inr w)"
| "decode_weight w failed ((k, v) # ms) =
     (if fold_name k = fold_name ''fairness_weight'' then
        (case v of
           JNull \<Rightarrow> decode_weight None failed ms
         | JNum lit \<Rightarrow>
             (case parse_int64 lit of
                Some n \<Rightarrow> decode_weight (Some n) failed ms
              | None \<Rightarrow> decode_weight w True ms)
         | _ \<Rightarrow> decode_weight w True ms)
      else decode_weight w failed ms)"

definition unmarshal_fairness :: "string \<Rightarrow> int option result" where
  "unmarshal_fairness raw =
     (case parse_document raw of
        None \<Rightarrow> Inl (Msg ''json: syntax error'')
      | Some JNull \<Rightarrow> Inr None
      | Some (JObj ms) \<Rightarrow> decode_weight None False ms
      | Some _ \<Rightarrow> Inl (Msg ''json: cannot unmarshal''))"

definition fairnessWeightFromConfiguration :: "string \<Rightarrow> int result" where
  "fairnessWeightFromConfiguration raw =
     (case unmarshal_fairness (normalizeJSONDocument raw) of
        Inl e \<Rightarrow> Inl (Wrap ''parse fairness configuration'' e)
      | Inr None \<Rightarrow> Inr defaultFairnessWeight
      | Inr (Some w) \<Rightarrow> if w \<le> 0 then Inl (NotPositive ''fairness_weight'') else Inr w)"

fun FairnessCandidatesFromCollectorInstances :: "CollectorInstance list \<Rightarrow> FairnessCandidate list result" where
  "FairnessCandidatesFromCollectorInstances [] = Inr []"
| "FairnessCandidatesFromCollectorInstances (i # is) =
     (if \<not> ci_Enabled i \<or> \<not> ci_ClaimsEnabled i then FairnessCandidatesFromCollectorInstances is
      else
        (case fairnessWeightFromConfiguration (ci_Configuration i) of
           Inl e \<Rightarrow> Inl (Wrap (''collector instance '' @ ci_InstanceID i) e)
         | Inr w \<Rightarrow>
             (case FairnessCandidatesFromCollectorInstances is of
                Inl e \<Rightarrow> Inl e
              | Inr cs \<Rightarrow>
                  Inr (\<lparr>fc_CollectorKind = ci_CollectorKind i,
                        fc_CollectorInstanceID = ci_InstanceID i, fc_Weight = w\<rparr> # cs))))"


section \<open>Which family is selected\<close>

definition first_max :: "int list \<Rightarrow> nat \<Rightarrow> bool" where
  "first_max xs i \<longleftrightarrow> i < length xs \<and> (\<forall>j < length xs. xs ! j \<le> xs ! i) \<and> (\<forall>j < i. xs ! j < xs ! i)"

lemma first_max_unique: "first_max xs i \<Longrightarrow> first_max xs j \<Longrightarrow> i = j"
  unfolding first_max_def by (metis linorder_neqE_nat not_less)

lemma first_max_snoc:
  assumes "first_max xs s"
  shows "first_max (xs @ [x]) (if xs ! s < x then length xs else s)"
  using assms by (auto simp: first_max_def nth_append less_Suc_eq intro: le_less_trans)

lemma select_loop_spec:
  assumes "i = 0 \<and> selected = 0 \<or> first_max (map ff_currentWeight (take i fs)) selected"
    and "i \<le> length fs" and "fs \<noteq> []"
  shows "\<exists>s. select_loop i selected fs = (s, take i fs @ map bump (drop i fs))
     \<and> first_max (map ff_currentWeight (take i fs @ map bump (drop i fs))) s"
  using assms
proof (induction i selected fs rule: select_loop.induct)
  case (1 i selected fs)
  show ?case
  proof (cases "i < length fs")
    case False
    with "1.prems" have i: "i = length fs" and fm: "first_max (map ff_currentWeight fs) selected"
      by auto
    then have "select_loop i selected fs = (selected, fs)"
      by (subst select_loop.simps) simp
    with i fm show ?thesis by simp
  next
    case True
    let ?fs = "fs[i := bump (fs ! i)]"
    let ?sel = "if ff_currentWeight (?fs ! selected) < ff_currentWeight (?fs ! i) then i else selected"
    have take: "take (Suc i) ?fs = take i fs @ [bump (fs ! i)]"
      using True by (simp add: take_Suc_conv_app_nth)
    have drop: "map bump (drop i fs) = bump (fs ! i) # map bump (drop (Suc i) fs)"
      using True by (simp add: Cons_nth_drop_Suc [symmetric])
    have res: "take (Suc i) ?fs @ map bump (drop (Suc i) ?fs) = take i fs @ map bump (drop i fs)"
      using take drop by simp
    have "first_max (map ff_currentWeight (take (Suc i) ?fs)) ?sel"
    proof (cases "i = 0")
      case True
      with "1.prems" have "selected = 0 \<or> first_max [] selected" by auto
      with True take show ?thesis by (auto simp: first_max_def)
    next
      case False
      with "1.prems" have fm: "first_max (map ff_currentWeight (take i fs)) selected" by simp
      then have sel: "selected < i" using True by (simp add: first_max_def)
      with first_max_snoc [OF fm, of "ff_currentWeight (bump (fs ! i))"] take True
      show ?thesis by (simp split: if_splits)
    qed
    then have "\<exists>s. select_loop (Suc i) ?sel ?fs = (s, take (Suc i) ?fs @ map bump (drop (Suc i) ?fs))
      \<and> first_max (map ff_currentWeight (take (Suc i) ?fs @ map bump (drop (Suc i) ?fs))) s"
      using True "1.prems" by (intro "1.IH" [OF True refl]) auto
    moreover have "select_loop i selected fs = select_loop (Suc i) ?sel ?fs"
      using True by (subst select_loop.simps) (simp add: Let_def)
    ultimately show ?thesis unfolding res by simp
  qed
qed

section \<open>Balance\<close>

definition balanced :: "FamilyFairnessScheduler \<Rightarrow> bool" where
  "balanced s \<longleftrightarrow> fs_families s \<noteq> []
     \<and> fs_totalWeight s = sum_list (map ff_weight (fs_families s))
     \<and> sum_list (map ff_currentWeight (fs_families s)) = 0
     \<and> distinct (map ff_collectorKind (fs_families s))
     \<and> int (length (fs_families s)) * fs_totalWeight s < 2 ^ 63
     \<and> (\<forall>f \<in> set (fs_families s). 0 < ff_weight f \<and> - fs_totalWeight s < ff_currentWeight f
          \<and> ff_nextInstance f < length (ff_instanceIDs f))"

lemma sum_list_lower:
  "\<forall>y \<in> set ys. - T \<le> y \<Longrightarrow> - (int (length ys) * T) \<le> sum_list (ys :: int list)"
  by (induction ys) (auto simp: algebra_simps)

lemma member_upper:
  fixes xs :: "int list"
  assumes "x \<in> set xs" and "\<forall>y \<in> set xs. - T \<le> y"
  shows "x \<le> sum_list xs + (int (length xs) - 1) * T"
proof -
  from assms(1) obtain ys zs where xs: "xs = ys @ x # zs" by (meson split_list)
  with assms(2) sum_list_lower [of ys T] sum_list_lower [of zs T] show ?thesis
    by (simp add: algebra_simps)
qed

lemma member_le_sum:
  fixes xs :: "int list"
  assumes "x \<in> set xs" and "\<forall>y \<in> set xs. 0 \<le> y"
  shows "x \<le> sum_list xs"
  using member_upper [OF assms(1), of 0] assms(2) by simp

definition plus_weight :: "fairnessFamily \<Rightarrow> fairnessFamily" where
  "plus_weight f = f\<lparr>ff_currentWeight := ff_currentWeight f + ff_weight f\<rparr>"

lemma balanced_total_pos: "balanced s \<Longrightarrow> 0 < fs_totalWeight s"
proof -
  assume b: "balanced s"
  then obtain f fs where fs: "fs_families s = f # fs" by (cases "fs_families s") (auto simp: balanced_def)
  have "0 < ff_weight f" using b fs by (simp add: balanced_def)
  moreover have "ff_weight f \<le> sum_list (map ff_weight (fs_families s))"
    using b fs by (intro member_le_sum) (auto simp: balanced_def)
  ultimately show ?thesis using b by (simp add: balanced_def)
qed

lemma balanced_bounds:
  assumes "balanced s" and "f \<in> set (fs_families s)"
  shows "- fs_totalWeight s < ff_currentWeight f + ff_weight f"
    and "ff_currentWeight f + ff_weight f \<le> int (length (fs_families s)) * fs_totalWeight s"
proof -
  have "ff_currentWeight f \<in> set (map ff_currentWeight (fs_families s))" using assms(2) by simp
  moreover have "\<forall>y \<in> set (map ff_currentWeight (fs_families s)). - fs_totalWeight s \<le> y"
    using assms(1) by (auto simp: balanced_def intro: less_imp_le)
  ultimately have "ff_currentWeight f \<le> (int (length (fs_families s)) - 1) * fs_totalWeight s"
    using member_upper [of "ff_currentWeight f" "map ff_currentWeight (fs_families s)" "fs_totalWeight s"]
      assms(1) by (simp add: balanced_def)
  moreover have "ff_weight f \<le> fs_totalWeight s"
    using member_le_sum [of "ff_weight f" "map ff_weight (fs_families s)"] assms
    by (auto simp: balanced_def intro: less_imp_le)
  ultimately show "ff_currentWeight f + ff_weight f \<le> int (length (fs_families s)) * fs_totalWeight s"
    by (simp add: algebra_simps)
  show "- fs_totalWeight s < ff_currentWeight f + ff_weight f"
    using assms by (fastforce simp: balanced_def)
qed

lemma bump_plus:
  assumes "balanced s" and "f \<in> set (fs_families s)"
  shows "bump f = plus_weight f"
proof -
  let ?n = "int (length (fs_families s))"
  have "1 \<le> ?n" using assms(2) by (cases "fs_families s") auto
  then have "fs_totalWeight s \<le> ?n * fs_totalWeight s"
    using balanced_total_pos [OF assms(1)] by (simp add: mult_le_cancel_right1)
  moreover have "?n * fs_totalWeight s < 2 ^ 63" using assms(1) unfolding balanced_def by blast
  ultimately have "wrap64 (ff_currentWeight f + ff_weight f) = ff_currentWeight f + ff_weight f"
    using balanced_bounds [OF assms] by (intro wrap64_id) linarith+
  then show ?thesis by (simp add: bump_def plus_weight_def)
qed

lemma sum_plus_weight:
  "sum_list (map ff_currentWeight (map plus_weight fs)) =
     sum_list (map ff_currentWeight fs) + sum_list (map ff_weight fs)"
  by (induction fs) (simp_all add: plus_weight_def)

lemma sum_list_list_update:
  fixes xs :: "int list"
  shows "i < length xs \<Longrightarrow> sum_list (xs[i := y]) = sum_list xs - xs ! i + y"
  by (induction xs arbitrary: i) (auto split: nat.split)

text \<open>The family a step selects, and what it makes of each family.\<close>

definition chosen :: "FamilyFairnessScheduler \<Rightarrow> nat \<Rightarrow> bool" where
  "chosen s i \<longleftrightarrow> first_max (map (\<lambda>f. ff_currentWeight f + ff_weight f) (fs_families s)) i"

definition stepped :: "int \<Rightarrow> fairnessFamily \<Rightarrow> fairnessFamily" where
  "stepped T f = f\<lparr>ff_currentWeight := ff_currentWeight f + ff_weight f - T,
     ff_nextInstance := (ff_nextInstance f + 1) mod length (ff_instanceIDs f)\<rparr>"

lemma chosen_positive:
  assumes "balanced s" and "chosen s i"
  shows "0 < ff_currentWeight (fs_families s ! i) + ff_weight (fs_families s ! i)"
proof (rule ccontr)
  let ?ws = "map ff_currentWeight (map plus_weight (fs_families s))"
  assume "\<not> ?thesis"
  then have "\<forall>y \<in> set ?ws. y \<le> 0"
    using assms(2) by (auto simp: chosen_def first_max_def in_set_conv_nth plus_weight_def) (smt (verit) nth_map)
  then have "sum_list ?ws \<le> 0" by (intro sum_list_nonpos) blast
  with assms(1) balanced_total_pos [OF assms(1)] show False
    by (simp add: sum_plus_weight balanced_def del: map_map)
qed

lemma advance_balanced:
  assumes b: "balanced s"
  shows "\<exists>i. chosen s i \<and> i < length (fs_families s)
     \<and> advance s = Some
         (\<lparr>tgt_CollectorKind = ff_collectorKind (fs_families s ! i),
           tgt_CollectorInstanceID =
             ff_instanceIDs (fs_families s ! i) ! ff_nextInstance (fs_families s ! i)\<rparr>,
          s\<lparr>fs_families :=
            (map plus_weight (fs_families s))[i := stepped (fs_totalWeight s) (fs_families s ! i)]\<rparr>)"
proof -
  let ?fs = "fs_families s" and ?T = "fs_totalWeight s"
  have ne: "?fs \<noteq> []" using b by (simp add: balanced_def)
  have bumps: "map bump ?fs = map plus_weight ?fs"
    using bump_plus [OF b] by simp
  from select_loop_spec [of 0 0 ?fs] ne bumps obtain i where
    sel: "select_loop 0 0 ?fs = (i, map plus_weight ?fs)"
    and fm: "first_max (map ff_currentWeight (map plus_weight ?fs)) i"
    by auto
  then have ch: "chosen s i" and i: "i < length ?fs"
    by (auto simp: chosen_def first_max_def plus_weight_def)
  have "?fs ! i \<in> set ?fs" using i by simp
  note bnd = balanced_bounds [OF b this]
  have "0 < ?T" by (rule balanced_total_pos [OF b])
  moreover have "int (length ?fs) * ?T < 2 ^ 63" using b unfolding balanced_def by blast
  moreover have "?T \<le> int (length ?fs) * ?T"
    using i \<open>0 < ?T\<close> by (cases ?fs) (simp_all add: mult_le_cancel_right1)
  ultimately have "wrap64 (ff_currentWeight (?fs ! i) + ff_weight (?fs ! i) - ?T)
      = ff_currentWeight (?fs ! i) + ff_weight (?fs ! i) - ?T"
    using bnd chosen_positive [OF b ch] by (intro wrap64_id) linarith+
  with sel i ne ch \<open>0 < ?T\<close> show ?thesis
    by (intro exI [of _ i]) (simp add: advance_def stepped_def plus_weight_def)
qed

lemma map_plus_update:
  assumes "i < length fs"
  shows "map ff_collectorKind ((map plus_weight fs)[i := stepped T (fs ! i)]) = map ff_collectorKind fs"
    and "map ff_weight ((map plus_weight fs)[i := stepped T (fs ! i)]) = map ff_weight fs"
  using assms
  by (auto intro!: nth_equalityI simp: nth_list_update stepped_def plus_weight_def)

lemma balanced_step:
  assumes b: "balanced s" and ch: "chosen s i"
  shows "balanced (s\<lparr>fs_families :=
     (map plus_weight (fs_families s))[i := stepped (fs_totalWeight s) (fs_families s ! i)]\<rparr>)"
proof -
  let ?fs = "fs_families s" and ?T = "fs_totalWeight s"
  let ?fs' = "(map plus_weight ?fs)[i := stepped ?T (?fs ! i)]"
  have i: "i < length ?fs" using ch by (auto simp: chosen_def first_max_def)
  have sum: "sum_list (map ff_currentWeight ?fs') = 0"
  proof -
    have "map ff_currentWeight ?fs' = (map ff_currentWeight (map plus_weight ?fs))
        [i := ff_currentWeight (map plus_weight ?fs ! i) - ?T]"
      using i by (simp add: map_update stepped_def plus_weight_def)
    then have "sum_list (map ff_currentWeight ?fs') = sum_list (map ff_currentWeight (map plus_weight ?fs)) - ?T"
      using i by (simp add: sum_list_list_update del: map_map)
    then show ?thesis using b by (simp add: sum_plus_weight balanced_def del: map_map)
  qed
  have each: "0 < ff_weight f \<and> - ?T < ff_currentWeight f \<and> ff_nextInstance f < length (ff_instanceIDs f)"
    if "f \<in> set ?fs'" for f
  proof -
    from that have "f \<in> insert (stepped ?T (?fs ! i)) (set (map plus_weight ?fs))"
      using set_update_subset_insert by fastforce
    then consider (sel) "f = stepped ?T (?fs ! i)" | (rest) g where "g \<in> set ?fs" "f = plus_weight g"
      by auto
    then show ?thesis
    proof cases
      case sel
      have "?fs ! i \<in> set ?fs" using i by simp
      with b have "0 < ff_weight (?fs ! i)" "ff_instanceIDs (?fs ! i) \<noteq> []"
        by (auto simp: balanced_def)
      with sel chosen_positive [OF b ch] show ?thesis by (simp add: stepped_def)
    next
      case rest
      then have "0 < ff_weight g" "- ?T < ff_currentWeight g" "ff_nextInstance g < length (ff_instanceIDs g)"
        using b unfolding balanced_def by blast+
      with rest show ?thesis by (simp add: plus_weight_def)
    qed
  qed
  have "?T = sum_list (map ff_weight ?fs)" and "distinct (map ff_collectorKind ?fs)"
    and "int (length ?fs) * ?T < 2 ^ 63" and "?fs \<noteq> []"
    using b unfolding balanced_def by blast+
  note this(1) [symmetric] this(2-)
  then show ?thesis
    using sum each map_plus_update [OF i, of ?T] by (simp add: balanced_def del: map_map)
qed


section \<open>Shares\<close>

text \<open>The calls that chose a kind, and what \<open>n\<close> calls with targets \<open>ts\<close> make of a family.\<close>

definition of_kind :: "CollectorKind \<Rightarrow> ClaimTarget list \<Rightarrow> ClaimTarget list" where
  "of_kind k ts = filter (\<lambda>t. tgt_CollectorKind t = k) ts"

definition rotation :: "fairnessFamily \<Rightarrow> nat \<Rightarrow> ClaimTarget list" where
  "rotation f c = map (\<lambda>m. \<lparr>tgt_CollectorKind = ff_collectorKind f,
     tgt_CollectorInstanceID =
       ff_instanceIDs f ! ((ff_nextInstance f + m) mod length (ff_instanceIDs f))\<rparr>) [0..<c]"

definition served :: "int \<Rightarrow> nat \<Rightarrow> ClaimTarget list \<Rightarrow> fairnessFamily \<Rightarrow> fairnessFamily \<Rightarrow> bool" where
  "served T n ts f g \<longleftrightarrow>
     (let c = length (of_kind (ff_collectorKind f) ts) in
      ff_collectorKind g = ff_collectorKind f \<and> ff_weight g = ff_weight f
      \<and> ff_instanceIDs g = ff_instanceIDs f
      \<and> ff_currentWeight g = ff_currentWeight f + int n * ff_weight f - T * int c
      \<and> ff_nextInstance g = (ff_nextInstance f + c) mod length (ff_instanceIDs f)
      \<and> of_kind (ff_collectorKind f) ts = rotation f c)"

lemma rotation_Suc:
  "rotation f (Suc c) = \<lparr>tgt_CollectorKind = ff_collectorKind f, tgt_CollectorInstanceID =
       ff_instanceIDs f ! (ff_nextInstance f mod length (ff_instanceIDs f))\<rparr>
     # map (\<lambda>m. \<lparr>tgt_CollectorKind = ff_collectorKind f, tgt_CollectorInstanceID =
         ff_instanceIDs f ! ((ff_nextInstance f + Suc m) mod length (ff_instanceIDs f))\<rparr>) [0..<c]"
proof -
  have "[0..<Suc c] = 0 # map Suc [0..<c]"
    by (simp add: map_Suc_upt upt_conv_Cons del: upt_Suc)
  then show ?thesis by (simp add: rotation_def comp_def del: upt_Suc)
qed

lemma served_skip:
  assumes "served T n ts (plus_weight f) g" and "tgt_CollectorKind t \<noteq> ff_collectorKind f"
  shows "served T (Suc n) (t # ts) f g"
  using assms
  by (simp add: served_def Let_def of_kind_def plus_weight_def rotation_def algebra_simps)

lemma served_pick:
  assumes "served T n ts (stepped T f) g" and "ff_nextInstance f < length (ff_instanceIDs f)"
    and "t = \<lparr>tgt_CollectorKind = ff_collectorKind f,
              tgt_CollectorInstanceID = ff_instanceIDs f ! ff_nextInstance f\<rparr>"
  shows "served T (Suc n) (t # ts) f g"
proof -
  let ?c = "length (of_kind (ff_collectorKind f) ts)"
  from assms(1) have sel: "of_kind (ff_collectorKind f) ts = rotation (stepped T f) ?c"
    by (simp add: served_def stepped_def Let_def)
  have "of_kind (ff_collectorKind f) (t # ts) = rotation f (Suc ?c)"
    using sel assms(2,3)
    by (simp add: of_kind_def rotation_Suc) (simp add: rotation_def stepped_def mod_simps)
  moreover have "length (of_kind (ff_collectorKind f) (t # ts)) = Suc ?c"
    using assms(3) by (simp add: of_kind_def)
  ultimately show ?thesis
    using assms(1) by (simp add: served_def Let_def stepped_def algebra_simps mod_simps)
qed

lemma next_targets_served:
  assumes "balanced s"
  shows "\<exists>ts s'. next_targets n (Some s) = (ts, Some s') \<and> length ts = n \<and> balanced s'
     \<and> fs_totalWeight s' = fs_totalWeight s
     \<and> set (map tgt_CollectorKind ts) \<subseteq> set (map ff_collectorKind (fs_families s))
     \<and> list_all2 (served (fs_totalWeight s) n ts) (fs_families s) (fs_families s')"
  using assms
proof (induction n arbitrary: s)
  case 0
  have "list_all2 (served (fs_totalWeight s) 0 []) (fs_families s) (fs_families s)"
    using "0.prems" by (auto simp: list_all2_same served_def of_kind_def rotation_def balanced_def)
  with 0 show ?case by auto
next
  case (Suc n)
  let ?fs = "fs_families s" and ?T = "fs_totalWeight s"
  from advance_balanced [OF Suc.prems] obtain i where
    ch: "chosen s i" and i: "i < length ?fs" and adv: "advance s = Some
         (\<lparr>tgt_CollectorKind = ff_collectorKind (?fs ! i),
           tgt_CollectorInstanceID = ff_instanceIDs (?fs ! i) ! ff_nextInstance (?fs ! i)\<rparr>,
          s\<lparr>fs_families := (map plus_weight ?fs)[i := stepped ?T (?fs ! i)]\<rparr>)"
      (is "_ = Some (?t, ?s)") by blast
  have bal: "balanced ?s" by (rule balanced_step [OF Suc.prems ch])
  from Suc.IH [OF bal] obtain ts s' where
    ts: "next_targets n (Some ?s) = (ts, Some s')" "length ts = n" "balanced s'"
    and T: "fs_totalWeight s' = ?T"
    and ks: "set (map tgt_CollectorKind ts) \<subseteq> set (map ff_collectorKind (fs_families ?s))"
    and sv: "list_all2 (served ?T n ts) (fs_families ?s) (fs_families s')"
    by auto
  have "set (map tgt_CollectorKind (?t # ts)) \<subseteq> set (map ff_collectorKind ?fs)"
    using ks i map_plus_update(1) [OF i, of ?T] by (simp del: map_map set_map) simp
  have "next_targets (Suc n) (Some s) = (?t # ts, Some s')"
    using adv ts(1) by (simp add: Next_def)
  moreover note \<open>set (map tgt_CollectorKind (?t # ts)) \<subseteq> set (map ff_collectorKind ?fs)\<close>
  moreover have "list_all2 (served ?T (Suc n) (?t # ts)) ?fs (fs_families s')"
  proof (rule list_all2_all_nthI)
    show "length ?fs = length (fs_families s')" using list_all2_lengthD [OF sv] by simp
    fix j assume j: "j < length ?fs"
    from list_all2_nthD [OF sv, of j] j
    have svj: "served ?T n ts (((map plus_weight ?fs)[i := stepped ?T (?fs ! i)]) ! j) (fs_families s' ! j)"
      by simp
    show "served ?T (Suc n) (?t # ts) (?fs ! j) (fs_families s' ! j)"
    proof (cases "j = i")
      case True
      have "?fs ! i \<in> set ?fs" using i by simp
      then have "ff_nextInstance (?fs ! i) < length (ff_instanceIDs (?fs ! i))"
        using Suc.prems unfolding balanced_def by blast
      with True svj i show ?thesis by (auto intro: served_pick)
    next
      case False
      have "distinct (map ff_collectorKind ?fs)" using Suc.prems by (simp add: balanced_def)
      then have "ff_collectorKind (?fs ! i) \<noteq> ff_collectorKind (?fs ! j)"
        using False i j by (metis length_map nth_eq_iff_index_eq nth_map)
      with False svj i j show ?thesis by (auto intro: served_skip)
    qed
  qed
  ultimately show ?case using ts T by (intro exI [of _ "?t # ts"] exI [of _ s']) simp
qed


section \<open>One round\<close>

definition fresh :: "FamilyFairnessScheduler \<Rightarrow> bool" where
  "fresh s \<longleftrightarrow> (\<forall>f \<in> set (fs_families s). ff_currentWeight f = 0)"

lemma sum_list_ge_eq:
  fixes as bs :: "int list"
  assumes "list_all2 (\<le>) as bs" and "sum_list as = sum_list bs"
  shows "as = bs"
  using assms
proof (induction as bs rule: list_all2_induct)
  case Nil
  show ?case by simp
next
  case (Cons a as b bs)
  have "sum_list as \<le> sum_list bs" using Cons.hyps(2) by (induction rule: list_all2_induct) auto
  with Cons.hyps(1) Cons.prems have "a = b" and "sum_list as = sum_list bs" by auto
  with Cons.IH show ?case by simp
qed

lemma sum_of_kinds:
  assumes "distinct ks" and "set (map tgt_CollectorKind ts) \<subseteq> set ks"
  shows "sum_list (map (\<lambda>k. length (of_kind k ts)) ks) = length ts"
  using sum_count_keys [OF assms] by (simp add: of_kind_def)

lemma round_exact:
  assumes b: "balanced s" and fr: "fresh s"
    and nt: "next_targets (nat (fs_totalWeight s)) (Some s) = (ts, Some s')"
  shows "fresh s'" and "f \<in> set (fs_families s) \<Longrightarrow> int (length (of_kind (ff_collectorKind f) ts)) = ff_weight f"
proof -
  let ?T = "fs_totalWeight s" and ?fs = "fs_families s"
  have T: "0 < ?T" by (rule balanced_total_pos [OF b])
  from next_targets_served [OF b, of "nat ?T"] nt T have
    len: "length ts = nat ?T" and b': "balanced s'" and T': "fs_totalWeight s' = ?T"
    and kinds: "set (map tgt_CollectorKind ts) \<subseteq> set (map ff_collectorKind ?fs)"
    and sv: "list_all2 (served ?T (nat ?T) ts) ?fs (fs_families s')"
    by auto
  have le: "int (length (of_kind (ff_collectorKind f) ts)) \<le> ff_weight f"
    if fg: "served ?T (nat ?T) ts f g" "f \<in> set ?fs" "g \<in> set (fs_families s')" for f g
  proof -
    have "- ?T < ff_currentWeight g" using b' fg(3) T' unfolding balanced_def by metis
    moreover have "ff_currentWeight g = ?T * (ff_weight f - int (length (of_kind (ff_collectorKind f) ts)))"
      using fg(1,2) fr T by (simp add: served_def Let_def fresh_def algebra_simps)
    ultimately have "?T * (- 1) < ?T * (ff_weight f - int (length (of_kind (ff_collectorKind f) ts)))"
      by simp
    with T show ?thesis by (simp only: mult_less_cancel_left_pos)
  qed
  let ?cs = "map (\<lambda>f. int (length (of_kind (ff_collectorKind f) ts))) ?fs"
  have "list_all2 (\<le>) ?cs (map ff_weight ?fs)"
    using le sv by (auto simp: list_all2_conv_all_nth)
  moreover have "sum_list ?cs = sum_list (map ff_weight ?fs)"
  proof -
    have int_sum: "sum_list (map (\<lambda>f. int (h f)) fs) = int (sum_list (map h fs))"
      for fs and h :: "fairnessFamily \<Rightarrow> nat"
      by (induction fs) simp_all
    have "sum_list ?cs = int (sum_list (map (\<lambda>k. length (of_kind k ts)) (map ff_collectorKind ?fs)))"
      by (simp add: int_sum comp_def)
    also have "\<dots> = int (length ts)"
      using sum_of_kinds [OF _ kinds] b by (simp add: balanced_def del: map_map)
    finally show ?thesis using len T b by (simp add: balanced_def)
  qed
  ultimately have eq: "?cs = map ff_weight ?fs" by (rule sum_list_ge_eq)
  then show "f \<in> set ?fs \<Longrightarrow> int (length (of_kind (ff_collectorKind f) ts)) = ff_weight f" for f
    by (simp add: map_eq_conv)
  then have share: "f \<in> set ?fs \<Longrightarrow> ff_weight f = int (length (of_kind (ff_collectorKind f) ts))" for f
    by simp
  show "fresh s'"
    unfolding fresh_def
  proof
    fix g assume "g \<in> set (fs_families s')"
    then obtain j where j: "j < length (fs_families s')" "g = fs_families s' ! j"
      by (auto simp: in_set_conv_nth)
    with sv have len: "j < length ?fs" and sj: "served ?T (nat ?T) ts (?fs ! j) g"
      by (auto simp: list_all2_conv_all_nth)
    then have "ff_currentWeight (?fs ! j) = 0" using fr by (simp add: fresh_def)
    with sj share [of "?fs ! j"] len T show "ff_currentWeight g = 0"
      by (simp add: served_def Let_def)
  qed
qed


section \<open>The order of choices depends on the weights only\<close>

definition alike :: "FamilyFairnessScheduler \<Rightarrow> FamilyFairnessScheduler \<Rightarrow> bool" where
  "alike s t \<longleftrightarrow> fs_totalWeight s = fs_totalWeight t
     \<and> map (\<lambda>f. (ff_collectorKind f, ff_weight f, ff_currentWeight f)) (fs_families s)
       = map (\<lambda>f. (ff_collectorKind f, ff_weight f, ff_currentWeight f)) (fs_families t)"

lemma alike_nth:
  "alike s t \<longleftrightarrow> fs_totalWeight s = fs_totalWeight t \<and> length (fs_families s) = length (fs_families t)
     \<and> (\<forall>j < length (fs_families s).
          ff_collectorKind (fs_families s ! j) = ff_collectorKind (fs_families t ! j)
        \<and> ff_weight (fs_families s ! j) = ff_weight (fs_families t ! j)
        \<and> ff_currentWeight (fs_families s ! j) = ff_currentWeight (fs_families t ! j))"
  by (auto simp: alike_def list_eq_iff_nth_eq)

lemma stepped_nth:
  "j < length fs \<Longrightarrow> (map plus_weight fs)[i := stepped T (fs ! i)] ! j =
     (if i = j then stepped T (fs ! j) else plus_weight (fs ! j))"
  by (simp add: nth_list_update)

lemma alike_targets:
  assumes "balanced s" and "balanced t" and "alike s t"
    and "next_targets n (Some s) = (xs, r)" and "next_targets n (Some t) = (ys, q)"
  shows "map tgt_CollectorKind xs = map tgt_CollectorKind ys"
  using assms
proof (induction n arbitrary: s t xs ys r q)
  case 0
  then show ?case by simp
next
  case (Suc n)
  from advance_balanced [OF Suc.prems(1)] obtain i a s' where
    i: "chosen s i" "i < length (fs_families s)" and a: "advance s = Some (a, s')"
    and ak: "tgt_CollectorKind a = ff_collectorKind (fs_families s ! i)"
    and s': "s' = s\<lparr>fs_families := (map plus_weight (fs_families s))
                [i := stepped (fs_totalWeight s) (fs_families s ! i)]\<rparr>"
    by auto
  from advance_balanced [OF Suc.prems(2)] obtain j b t' where
    j: "chosen t j" and b: "advance t = Some (b, t')"
    and bk: "tgt_CollectorKind b = ff_collectorKind (fs_families t ! j)"
    and t': "t' = t\<lparr>fs_families := (map plus_weight (fs_families t))
                [j := stepped (fs_totalWeight t) (fs_families t ! j)]\<rparr>"
    by auto
  have "map (\<lambda>f. ff_currentWeight f + ff_weight f) (fs_families s)
      = map (\<lambda>f. ff_currentWeight f + ff_weight f) (fs_families t)"
    using Suc.prems(3) by (auto simp: alike_nth intro: nth_equalityI)
  with i j have ij: "j = i" by (simp add: chosen_def first_max_unique)
  have "alike s' t'"
    using Suc.prems(3) ij unfolding s' t'
    by (auto simp: alike_nth stepped_nth) (auto simp: stepped_def plus_weight_def)
  moreover have "balanced s'" and "balanced t'"
    using balanced_step Suc.prems(1,2) i j s' t' by auto
  moreover obtain xs' ys' r' q' where
    nt: "next_targets n (Some s') = (xs', r')" "next_targets n (Some t') = (ys', q')"
    by (metis surj_pair)
  ultimately have "map tgt_CollectorKind xs' = map tgt_CollectorKind ys'"
    using Suc.IH [of s' t'] by blast
  moreover have "xs = a # xs'" and "ys = b # ys'"
    using Suc.prems(4,5) a b nt by (simp_all add: Next_def)
  ultimately show ?case using ak bk ij i Suc.prems(3) by (simp add: alike_nth)
qed


lemma next_targets_add:
  assumes "next_targets m (Some s) = (xs, Some s')" and "length xs = m"
    and "next_targets n (Some s') = (ys, r)"
  shows "next_targets (m + n) (Some s) = (xs @ ys, r)"
  using assms
proof (induction m arbitrary: s xs)
  case 0
  then show ?case by simp
next
  case (Suc m)
  from Suc.prems(1,2) obtain a s1 zs where
    a: "Next (Some s) = (Some a, s1)" and zs: "next_targets m s1 = (zs, Some s')" "xs = a # zs"
    by (auto split: prod.splits option.splits)
  from a obtain s2 where "s1 = Some s2" by (auto simp: Next_def split: option.splits)
  with a zs Suc show ?case by simp
qed

lemma length_of_kind: "length (of_kind c ts) = length (filter (\<lambda>k. k = c) (map tgt_CollectorKind ts))"
  by (simp add: of_kind_def filter_map comp_def)

text \<open>Any window as long as the total weight has every family its weight of times.\<close>

lemma window_exact:
  assumes b: "balanced s" and fr: "fresh s" and f: "f \<in> set (fs_families s)"
    and nt: "next_targets (k + nat (fs_totalWeight s)) (Some s) = (ts, r)"
  shows "int (length (of_kind (ff_collectorKind f) (drop k ts))) = ff_weight f"
proof -
  let ?n = "nat (fs_totalWeight s)"
  from next_targets_served [OF b, of ?n] obtain xs s1 where
    xs: "next_targets ?n (Some s) = (xs, Some s1)" "length xs = ?n" "balanced s1"
      "fs_totalWeight s1 = fs_totalWeight s"
    and sv1: "list_all2 (served (fs_totalWeight s) ?n xs) (fs_families s) (fs_families s1)"
    by auto
  from next_targets_served [OF b, of k] obtain ys s2 where
    ys: "next_targets k (Some s) = (ys, Some s2)" "length ys = k" "balanced s2"
    by auto
  from next_targets_served [OF xs(3), of k] obtain zs s3 where
    zs: "next_targets k (Some s1) = (zs, Some s3)" by auto
  from next_targets_served [OF ys(3), of ?n] obtain ws s4 where
    ws: "next_targets ?n (Some s2) = (ws, Some s4)" by auto
  have ts1: "ts = xs @ zs" using next_targets_add [OF xs(1,2) zs] nt by (simp add: add.commute)
  have ts2: "ts = ys @ ws" using next_targets_add [OF ys(1,2) ws] nt by simp
  have "alike s1 s"
    using sv1 xs(4) round_exact(1) [OF b fr xs(1)] fr
    by (auto simp: alike_nth list_all2_conv_all_nth served_def Let_def fresh_def)
  from alike_targets [OF xs(3) b this zs ys(1)]
  have "length (of_kind c zs) = length (of_kind c ys)" for c
    by (simp add: length_of_kind)
  moreover have "length (of_kind c xs) + length (of_kind c zs) = length (of_kind c ys) + length (of_kind c ws)" for c
    using ts1 ts2 unfolding of_kind_def by (metis filter_append length_append)
  moreover have "drop k ts = ws" using ts2 ys(2) by simp
  ultimately have "length (of_kind c (drop k ts)) = length (of_kind c xs)" for c
    by (metis add.commute add_left_imp_eq)
  with round_exact(2) [OF b fr xs(1) f] show ?thesis by simp
qed

section \<open>What construction builds\<close>

definition kind_of :: "FairnessCandidate \<Rightarrow> CollectorKind" where
  "kind_of c = trim_space (fc_CollectorKind c)"

definition effective_weight :: "FairnessCandidate \<Rightarrow> int" where
  "effective_weight c = (if fc_Weight c = 0 then defaultFairnessWeight else fc_Weight c)"

definition family_of :: "FairnessCandidate list \<Rightarrow> CollectorKind \<Rightarrow> fairnessFamily" where
  "family_of cs k = (let mine = filter (\<lambda>c. kind_of c = k) cs in
     \<lparr>ff_collectorKind = k, ff_weight = Max (set (map effective_weight mine)), ff_currentWeight = 0,
      ff_instanceIDs = map (trim_space \<circ> fc_CollectorInstanceID) mine, ff_nextInstance = 0\<rparr>)"

definition candidate_ok :: "FairnessCandidate \<Rightarrow> bool" where
  "candidate_ok c \<longleftrightarrow> \<not> blank (fc_CollectorKind c) \<and> \<not> blank (fc_CollectorInstanceID c) \<and> 0 \<le> fc_Weight c"

text \<open>What the map holds after the candidates \<open>cs\<close>.\<close>

definition groups :: "FairnessCandidate list \<Rightarrow> (CollectorKind \<times> fairnessFamily) list \<Rightarrow> bool" where
  "groups cs g \<longleftrightarrow> distinct (map fst g)
     \<and> map_of g = (\<lambda>k. if k \<in> set (map kind_of cs) then Some (family_of cs k) else None)"

lemma family_of_snoc_other: "kind_of c \<noteq> k \<Longrightarrow> family_of (cs @ [c]) k = family_of cs k"
  by (simp add: family_of_def)

lemma family_of_snoc_first:
  "kind_of c \<notin> set (map kind_of cs) \<Longrightarrow> family_of (cs @ [c]) (kind_of c) =
     \<lparr>ff_collectorKind = kind_of c, ff_weight = effective_weight c, ff_currentWeight = 0,
      ff_instanceIDs = [trim_space (fc_CollectorInstanceID c)], ff_nextInstance = 0\<rparr>"
proof -
  assume "kind_of c \<notin> set (map kind_of cs)"
  then have "filter (\<lambda>d. kind_of d = kind_of c) cs = []"
    by (metis (mono_tags, lifting) filter_empty_conv imageI set_map)
  then show ?thesis by (simp add: family_of_def Let_def)
qed

lemma family_of_snoc_again:
  assumes "kind_of c \<in> set (map kind_of cs)"
  shows "family_of (cs @ [c]) (kind_of c) = (family_of cs (kind_of c))
     \<lparr>ff_weight := max (ff_weight (family_of cs (kind_of c))) (effective_weight c),
      ff_instanceIDs := ff_instanceIDs (family_of cs (kind_of c)) @ [trim_space (fc_CollectorInstanceID c)]\<rparr>"
proof -
  let ?mine = "filter (\<lambda>d. kind_of d = kind_of c) cs"
  have "set (map effective_weight ?mine) \<noteq> {}" using assms by (auto simp: filter_empty_conv)
  then have "Max (insert (effective_weight c) (set (map effective_weight ?mine)))
      = max (effective_weight c) (Max (set (map effective_weight ?mine)))"
    by (intro Max_insert) simp_all
  then have "Max (set (map effective_weight (?mine @ [c]))) = max (Max (set (map effective_weight ?mine))) (effective_weight c)"
    by (simp add: max.commute)
  then show ?thesis by (simp add: family_of_def Let_def)
qed

lemma group_candidate_groups:
  assumes "groups cs g" and "group_candidate g c = Inr g'"
  shows "groups (cs @ [c]) g' \<and> candidate_ok c"
proof -
  let ?k = "kind_of c" and ?id = "trim_space (fc_CollectorInstanceID c)" and ?w = "effective_weight c"
  let ?f = "case map_of g ?k of Some f \<Rightarrow> f | None \<Rightarrow> \<lparr>ff_collectorKind = ?k, ff_weight = ?w,
      ff_currentWeight = 0, ff_instanceIDs = [], ff_nextInstance = 0\<rparr>"
  let ?f1 = "if ff_weight ?f < ?w then ?f\<lparr>ff_weight := ?w\<rparr> else ?f"
  have ok: "\<not> blank (fc_CollectorKind c)" "\<not> blank (fc_CollectorInstanceID c)" "0 \<le> ?w"
    and g': "g' = AList.update ?k (?f1\<lparr>ff_instanceIDs := ff_instanceIDs ?f1 @ [?id]\<rparr>) g"
    using assms(2)
    unfolding group_candidate_def Let_def checked_Inr check_None sum.inject
      kind_of_def [symmetric] effective_weight_def [symmetric]
    by (auto simp: blank_def not_less kind_of_def split del: if_split)
  have "?f1\<lparr>ff_instanceIDs := ff_instanceIDs ?f1 @ [?id]\<rparr> = family_of (cs @ [c]) ?k"
  proof (cases "?k \<in> set (map kind_of cs)")
    case True
    with assms(1) family_of_snoc_again [OF True] show ?thesis by (simp add: groups_def max_def)
  next
    case False
    with assms(1) family_of_snoc_first [OF False] show ?thesis by (simp add: groups_def)
  qed
  with g' assms(1) have "groups (cs @ [c]) g'"
    by (auto simp: groups_def update_conv' distinct_update family_of_snoc_other fun_eq_iff)
  with ok show ?thesis
    by (auto simp: candidate_ok_def effective_weight_def defaultFairnessWeight_def split: if_splits)
qed

lemma group_candidates_groups:
  "group_candidates g cs = Inr g' \<Longrightarrow> groups ds g \<Longrightarrow> groups (ds @ cs) g' \<and> list_all candidate_ok cs"
proof (induction cs arbitrary: g ds)
  case Nil
  then show ?case by simp
next
  case (Cons c cs)
  from Cons.prems(1) obtain g1 where g1: "group_candidate g c = Inr g1" "group_candidates g1 cs = Inr g'"
    by (auto split: sum.splits)
  from group_candidate_groups [OF Cons.prems(2) g1(1)] have "groups (ds @ [c]) g1" "candidate_ok c" by auto
  with Cons.IH [OF g1(2), of "ds @ [c]"] show ?case by simp
qed

interpretation families_order: comparator cmp_families
  unfolding cmp_families_def [abs_def] by (rule comparator_key)

interpretation ids_order: comparator "compare :: string \<Rightarrow> string \<Rightarrow> int"
  using comparator_key [of "\<lambda>s. s"] by simp


lemma groups_members:
  assumes "groups cs g"
  shows "snd ` set g = family_of cs ` kind_of ` set cs" and "map (ff_collectorKind \<circ> snd) g = map fst g"
proof -
  have "distinct (map fst g)" using assms by (simp add: groups_def)
  then have "snd ` set g = ran (map_of g)" by (rule ran_distinct [symmetric])
  also have "\<dots> = family_of cs ` kind_of ` set cs"
    using assms by (auto simp: groups_def ran_def split: if_splits)
  finally show "snd ` set g = family_of cs ` kind_of ` set cs" .
  have "ff_collectorKind f = k" if "(k, f) \<in> set g" for k f
  proof -
    have "distinct (map fst g)" using assms by (simp add: groups_def)
    then have "map_of g k = Some f" using that by simp
    with assms show ?thesis by (auto simp: groups_def family_of_def Let_def split: if_splits)
  qed
  then show "map (ff_collectorKind \<circ> snd) g = map fst g" by auto
qed

lemma new_scheduler:
  assumes "NewFamilyFairnessScheduler cs = Inr s"
  shows "set (fs_families s) = (\<lambda>k. sort_instances (family_of cs k)) ` kind_of ` set cs"
    and "distinct (map ff_collectorKind (fs_families s))"
    and "ordered cmp_families (fs_families s)"
    and "list_all candidate_ok cs"
    and "fs_totalWeight s = total_weight 0 (fs_families s)"
proof -
  from assms obtain g where g: "group_candidates [] cs = Inr g"
    and s: "fs_families s = sort_by cmp_families (map (sort_instances \<circ> snd) g)"
      "fs_totalWeight s = total_weight 0 (fs_families s)"
    by (auto simp: NewFamilyFairnessScheduler_def Let_def split: sum.splits)
  have "groups [] []" by (simp add: groups_def)
  from group_candidates_groups [OF g this] have gr: "groups cs g" and ok: "list_all candidate_ok cs" by auto
  note mem = groups_members [OF gr]
  show "set (fs_families s) = (\<lambda>k. sort_instances (family_of cs k)) ` kind_of ` set cs"
    using arg_cong [OF mem(1), of "image sort_instances"] by (simp add: s(1) image_image)
  have "map ff_collectorKind (map (sort_instances \<circ> snd) g) = map fst g"
    using mem(2) by (simp add: sort_instances_def comp_def)
  with gr show "distinct (map ff_collectorKind (fs_families s))"
    by (simp add: s(1) groups_def del: map_map)
  show "ordered cmp_families (fs_families s)" by (simp add: s(1) families_order.ordered_sort_by)
  show "list_all candidate_ok cs" by (rule ok)
  show "fs_totalWeight s = total_weight 0 (fs_families s)" by (rule s(2))
qed

lemma total_weight_sum:
  assumes "\<forall>f \<in> set fs. 0 \<le> ff_weight f" and "0 \<le> t" and "t + sum_list (map ff_weight fs) < 2 ^ 63"
  shows "total_weight t fs = t + sum_list (map ff_weight fs)"
  using assms
proof (induction fs arbitrary: t)
  case Nil
  then show ?case by simp
next
  case (Cons f fs)
  have "0 \<le> sum_list (map ff_weight fs)" using Cons.prems(1) by (intro sum_list_nonneg) auto
  with Cons.prems have "wrap64 (t + ff_weight f) = t + ff_weight f" by (intro wrap64_id) auto
  with Cons show ?case by (simp add: add.assoc)
qed

lemma family_of_positive:
  assumes "list_all candidate_ok cs" and "k \<in> kind_of ` set cs"
  shows "0 < ff_weight (family_of cs k)" and "ff_instanceIDs (family_of cs k) \<noteq> []"
proof -
  let ?ws = "set (map effective_weight (filter (\<lambda>c. kind_of c = k) cs))"
  have ne: "?ws \<noteq> {}" using assms(2) by (auto simp: filter_empty_conv)
  then have "Max ?ws \<in> ?ws" by (intro Max_in) simp_all
  then obtain c where "c \<in> set cs" "Max ?ws = effective_weight c" by auto
  moreover have "candidate_ok c" using assms(1) \<open>c \<in> set cs\<close> by (simp add: list_all_iff)
  ultimately show "0 < ff_weight (family_of cs k)"
    by (auto simp: family_of_def Let_def candidate_ok_def effective_weight_def defaultFairnessWeight_def)
  show "ff_instanceIDs (family_of cs k) \<noteq> []" using ne by (auto simp: family_of_def Let_def filter_empty_conv)
qed

definition within_int64 :: "FamilyFairnessScheduler \<Rightarrow> bool" where
  "within_int64 s \<longleftrightarrow>
     int (length (fs_families s)) * sum_list (map ff_weight (fs_families s)) < 2 ^ 63"

lemma new_balanced:
  assumes "NewFamilyFairnessScheduler cs = Inr s" and "cs \<noteq> []" and "within_int64 s"
  shows "balanced s" and "fresh s" and "\<forall>f \<in> set (fs_families s). ff_nextInstance f = 0"
proof -
  let ?fs = "fs_families s"
  note new = new_scheduler [OF assms(1)]
  have fam: "\<exists>k \<in> kind_of ` set cs. f = sort_instances (family_of cs k)" if "f \<in> set ?fs" for f
    using that new(1) by auto
  have zero: "ff_currentWeight f = 0 \<and> ff_nextInstance f = 0" if "f \<in> set ?fs" for f
    using fam [OF that] by (auto simp: sort_instances_def family_of_def Let_def)
  then show "fresh s" and "\<forall>f \<in> set ?fs. ff_nextInstance f = 0" by (simp_all add: fresh_def)
  have pos: "0 < ff_weight f \<and> ff_instanceIDs f \<noteq> []" if "f \<in> set ?fs" for f
    using fam [OF that] family_of_positive [OF new(4)] by (auto simp: sort_instances_def)
  have ne: "?fs \<noteq> []" using new(1) assms(2) by auto
  have nonneg: "0 \<le> sum_list (map ff_weight ?fs)"
    using pos by (intro sum_list_nonneg) (auto intro: less_imp_le)
  moreover from ne have "1 \<le> int (length ?fs)" by (cases ?fs) auto
  ultimately have "sum_list (map ff_weight ?fs) \<le> int (length ?fs) * sum_list (map ff_weight ?fs)"
    by (simp add: mult_le_cancel_right1)
  with assms(3) have "sum_list (map ff_weight ?fs) < 2 ^ 63" by (simp add: within_int64_def)
  with total_weight_sum [of ?fs 0] pos new(5) have T: "fs_totalWeight s = sum_list (map ff_weight ?fs)"
    by (auto intro: less_imp_le)
  have "0 < sum_list (map ff_weight ?fs)"
  proof (cases ?fs)
    case (Cons f fs)
    with pos have "0 < ff_weight f" and "\<forall>f \<in> set fs. 0 \<le> ff_weight f"
      by (auto intro: less_imp_le)
    moreover from this have "0 \<le> sum_list (map ff_weight fs)" by (intro sum_list_nonneg) auto
    ultimately have "0 < ff_weight f + sum_list (map ff_weight fs)" by simp
    with Cons show ?thesis by simp
  qed (use ne in simp)
  moreover have "map ff_currentWeight ?fs = map (\<lambda>_. 0) ?fs" using zero by simp
  then have "sum_list (map ff_currentWeight ?fs) = 0" by (simp only: sum_list_0)
  ultimately show "balanced s"
    using T ne zero pos new(2) assms(3) by (simp add: balanced_def within_int64_def)
qed


section \<open>Properties\<close>

text \<open>
  The scheduler built from a list of candidates has exactly one family per collector
  kind, in strictly increasing order of the kinds; a family's weight is the largest weight any
  of its candidates asks for (a weight of 0 counting as 1) and its instances are the trimmed
  ids of its candidates in sorted order. Only candidates with a kind, an id and no negative
  weight are accepted.
\<close>

theorem scheduler_families:
  assumes "NewFamilyFairnessScheduler cs = Inr s"
  shows "set (fs_families s) = (\<lambda>k. sort_instances (family_of cs k)) ` kind_of ` set cs
     \<and> sorted_wrt (<) (map ff_collectorKind (fs_families s)) \<and> list_all candidate_ok cs"
proof -
  note new = new_scheduler [OF assms]
  have "sorted_wrt (\<le>) (map ff_collectorKind (fs_families s))"
    using new(3) by (simp add: ordered_def cmp_families_def sorted_wrt_map)
  with new(2) have "sorted_wrt (<) (map ff_collectorKind (fs_families s))"
    by (simp add: strict_sorted_iff)
  with new show ?thesis by blast
qed

text \<open>
  C39: Fair share. As long as the number of families times the total weight fits in 64 bits,
  every call of \<open>Next\<close> finds a target, and in any window of as many consecutive calls as the
  total weight, starting anywhere, each family is chosen exactly as often as its weight says;
  a family's successive turns go through its instances in order, cyclically.
\<close>

theorem fair_share:
  assumes "NewFamilyFairnessScheduler cs = Inr s" and "cs \<noteq> []" and "within_int64 s"
    and "f \<in> set (fs_families s)"
  shows "\<exists>ts s'. next_targets (k + nat (fs_totalWeight s)) (Some s) = (ts, Some s')
     \<and> length ts = k + nat (fs_totalWeight s)
     \<and> int (length (of_kind (ff_collectorKind f) (drop k ts))) = ff_weight f
     \<and> of_kind (ff_collectorKind f) ts = rotation f (length (of_kind (ff_collectorKind f) ts))"
proof -
  note b = new_balanced [OF assms(1-3)]
  let ?n = "k + nat (fs_totalWeight s)"
  from next_targets_served [OF b(1), of ?n] obtain ts s' where
    ts: "next_targets ?n (Some s) = (ts, Some s')" "length ts = ?n"
    and sv: "list_all2 (served (fs_totalWeight s) ?n ts) (fs_families s) (fs_families s')"
    by auto
  from sv assms(4) have "of_kind (ff_collectorKind f) ts = rotation f (length (of_kind (ff_collectorKind f) ts))"
    by (auto simp: list_all2_conv_all_nth in_set_conv_nth served_def Let_def)
  with ts window_exact [OF b(1,2) assms(4) ts(1)] show ?thesis by blast
qed

definition example_candidates :: "FairnessCandidate list" where
  "example_candidates =
     [\<lparr>fc_CollectorKind = ''git'', fc_CollectorInstanceID = ''b'', fc_Weight = 2\<rparr>,
      \<lparr>fc_CollectorKind = ''aws'', fc_CollectorInstanceID = ''x'', fc_Weight = 0\<rparr>,
      \<lparr>fc_CollectorKind = ''git'', fc_CollectorInstanceID = ''a'', fc_Weight = 3\<rparr>]"

definition example_scheduler :: FamilyFairnessScheduler where
  "example_scheduler = \<lparr>fs_families =
     [\<lparr>ff_collectorKind = ''aws'', ff_weight = 1, ff_currentWeight = 0,
       ff_instanceIDs = [''x''], ff_nextInstance = 0\<rparr>,
      \<lparr>ff_collectorKind = ''git'', ff_weight = 3, ff_currentWeight = 0,
       ff_instanceIDs = [''a'', ''b''], ff_nextInstance = 0\<rparr>],
     fs_totalWeight = 4\<rparr>"

lemma example_built: "NewFamilyFairnessScheduler example_candidates = Inr example_scheduler"
proof -
  have trims: "trim_space ''git'' = ''git''" "trim_space ''aws'' = ''aws''" "trim_space ''a'' = ''a''"
    "trim_space ''b'' = ''b''" "trim_space ''x'' = ''x''"
    by (rule trim_space_solid, simp add: solid_simps)+
  show ?thesis
    by (simp add: example_candidates_def example_scheduler_def NewFamilyFairnessScheduler_def
        group_candidate_def trims Let_def check_def defaultFairnessWeight_def sort_by_def
        sort_instances_def cmp_families_def compare_def wrap64_def)
qed

lemma scheduler_families_witness:
  "\<exists>s. NewFamilyFairnessScheduler example_candidates = Inr s
     \<and> sorted_wrt (<) (map ff_collectorKind (fs_families s))"
  using scheduler_families [OF example_built] example_built by blast

lemma fair_share_witness:
  "\<exists>ts s'. next_targets 9 (Some example_scheduler) = (ts, Some s')
     \<and> length (of_kind ''git'' (drop 5 ts)) = 3"
proof -
  let ?f = "fs_families example_scheduler ! 1"
  have "example_candidates \<noteq> []" and "within_int64 example_scheduler"
    and "?f \<in> set (fs_families example_scheduler)"
    by (simp_all add: example_candidates_def within_int64_def example_scheduler_def)
  from fair_share [OF example_built this, of 5] show ?thesis
    by (auto simp: example_scheduler_def)
qed


end
