(* ===== verification/ReducerIntent.thy ===== *)
theory ReducerIntent
  imports Strings
begin

text \<open>
  \<open>go/internal/reducer/domain.go\<close> and \<open>intent.go\<close>: the reducer domains and the durable intent
  that asks a domain to do follow-up work for one scope generation. The class and message of
  a failure are kept as error values, since the code fills either from \<open>err.Error()\<close>. The lemmas give the exact intents \<open>Validate\<close> accepts.
\<close>

section \<open>Domains\<close>

type_synonym Domain = string

definition DomainWorkloadIdentity :: Domain where
  "DomainWorkloadIdentity = ''workload_identity''"
definition DomainDeployableUnitCorrelation :: Domain where
  "DomainDeployableUnitCorrelation = ''deployable_unit_correlation''"
definition DomainCloudAssetResolution :: Domain where
  "DomainCloudAssetResolution = ''cloud_asset_resolution''"
definition DomainDeploymentMapping :: Domain where
  "DomainDeploymentMapping = ''deployment_mapping''"
definition DomainDataLineage :: Domain where
  "DomainDataLineage = ''data_lineage''"
definition DomainOwnership :: Domain where
  "DomainOwnership = ''ownership''"
definition DomainGovernance :: Domain where
  "DomainGovernance = ''governance''"
definition DomainWorkloadMaterialization :: Domain where
  "DomainWorkloadMaterialization = ''workload_materialization''"
definition DomainCodeCallMaterialization :: Domain where
  "DomainCodeCallMaterialization = ''code_call_materialization''"
definition DomainSemanticEntityMaterialization :: Domain where
  "DomainSemanticEntityMaterialization = ''semantic_entity_materialization''"
definition DomainSQLRelationshipMaterialization :: Domain where
  "DomainSQLRelationshipMaterialization = ''sql_relationship_materialization''"
definition DomainInheritanceMaterialization :: Domain where
  "DomainInheritanceMaterialization = ''inheritance_materialization''"

lemmas domain_defs =
  DomainWorkloadIdentity_def DomainDeployableUnitCorrelation_def DomainCloudAssetResolution_def
  DomainDeploymentMapping_def DomainDataLineage_def DomainOwnership_def DomainGovernance_def
  DomainWorkloadMaterialization_def DomainCodeCallMaterialization_def
  DomainSemanticEntityMaterialization_def DomainSQLRelationshipMaterialization_def
  DomainInheritanceMaterialization_def

definition knownDomains :: "Domain list" where
  "knownDomains =
     [DomainWorkloadIdentity, DomainDeployableUnitCorrelation, DomainCloudAssetResolution,
      DomainDeploymentMapping, DomainDataLineage, DomainOwnership, DomainGovernance,
      DomainWorkloadMaterialization, DomainCodeCallMaterialization,
      DomainSemanticEntityMaterialization, DomainSQLRelationshipMaterialization,
      DomainInheritanceMaterialization]"

definition Domain_Validate :: "Domain \<Rightarrow> error option" where
  "Domain_Validate d = first_err
     [check (blank d) (Blank ''domain''),
      check (d \<notin> set knownDomains) (Unknown ''reducer domain'' d)]"

definition ParseDomain :: "string \<Rightarrow> Domain result" where
  "ParseDomain raw = (let d = trim_space raw in checked (Domain_Validate d) (Inr d))"

lemma known_solid: "d \<in> set knownDomains \<Longrightarrow> solid d"
  by (auto simp: knownDomains_def domain_defs solid_simps)

lemma Domain_Validate_None [validate_iffs, simp]:
  "Domain_Validate d = None \<longleftrightarrow> d \<in> set knownDomains"
  by (auto simp: Domain_Validate_def dest: known_solid solid_not_blank)

interpretation domains: validator Domain_Validate "\<lambda>d. d \<in> set knownDomains"
  by unfold_locales simp

section \<open>Intents\<close>

datatype IntentStatus =
    IntentStatusPending | IntentStatusClaimed | IntentStatusRunning | IntentStatusSucceeded
  | IntentStatusFailed
  | OtherIntentStatus string

datatype ResultStatus =
    ResultStatusSucceeded | ResultStatusFailed | ResultStatusSuperseded
  | OtherResultStatus string

record IntentFailure =
  if_FailureClass :: error
  if_Message :: error
  if_Details :: string

record Intent =
  in_IntentID :: string
  in_ScopeID :: string
  in_GenerationID :: string
  in_SourceSystem :: string
  in_Domain :: Domain
  in_Cause :: string
  in_Priority :: int
  in_AttemptCount :: int
  in_EntityKeys :: "string list"
  in_RelatedScopeIDs :: "string list"
  in_Status :: IntentStatus
  in_EnqueuedAt :: time
  in_AvailableAt :: time
  in_ClaimedAt :: "time option"
  in_CompletedAt :: "time option"
  in_Failure :: "IntentFailure option"

definition Intent_ScopeGenerationKey :: "Intent \<Rightarrow> string" where
  "Intent_ScopeGenerationKey i = in_ScopeID i @ '':'' @ in_GenerationID i"

fun IntentStatus_Validate :: "IntentStatus \<Rightarrow> error option" where
  "IntentStatus_Validate (OtherIntentStatus v) = Some (Unknown ''intent status'' v)"
| "IntentStatus_Validate _ = None"

fun Terminal :: "IntentStatus \<Rightarrow> bool" where
  "Terminal IntentStatusSucceeded = True"
| "Terminal IntentStatusFailed = True"
| "Terminal _ = False"

text \<open>The two loops at the end of \<open>Intent.Validate\<close>.\<close>

fun validate_entity_keys :: "string list \<Rightarrow> error option" where
  "validate_entity_keys [] = None"
| "validate_entity_keys (k # ks) =
     (if blank k then Some (Msg ''entity_keys must not contain blank values'')
      else validate_entity_keys ks)"

fun validate_related_scopes :: "string list \<Rightarrow> string list \<Rightarrow> error option" where
  "validate_related_scopes seen [] = None"
| "validate_related_scopes seen (s # ss) =
     (let n = trim_space s in
      if n = [] then Some (Msg ''related_scope_ids must not contain blank values'')
      else if n \<in> set seen then Some (Msg ''related_scope_ids must not contain duplicate values'')
      else validate_related_scopes (n # seen) ss)"

definition Intent_Validate :: "Intent \<Rightarrow> error option" where
  "Intent_Validate i = first_err
     [check (blank (in_IntentID i)) (Blank ''intent_id''),
      check (blank (in_ScopeID i)) (Blank ''scope_id''),
      check (blank (in_GenerationID i)) (Blank ''generation_id''),
      check (blank (in_SourceSystem i)) (Blank ''source_system''),
      Domain_Validate (in_Domain i),
      check (blank (in_Cause i)) (Blank ''cause''),
      check (is_zero (in_EnqueuedAt i)) (Zero ''enqueued_at''),
      check (is_zero (in_AvailableAt i)) (Zero ''available_at''),
      check (in_RelatedScopeIDs i = []) (Msg ''related_scope_ids must not be empty''),
      IntentStatus_Validate (in_Status i),
      validate_entity_keys (in_EntityKeys i),
      validate_related_scopes [] (in_RelatedScopeIDs i)]"

text \<open>\<open>Clone\<close> copies what the pointers and slices of the intent refer to; a HOL value is its own copy.\<close>

definition Intent_Clone :: "Intent \<Rightarrow> Intent" where
  "Intent_Clone i = i\<lparr>in_EntityKeys := map (\<lambda>k. k) (in_EntityKeys i),
     in_RelatedScopeIDs := map (\<lambda>k. k) (in_RelatedScopeIDs i),
     in_ClaimedAt := map_option (\<lambda>t. t) (in_ClaimedAt i),
     in_CompletedAt := map_option (\<lambda>t. t) (in_CompletedAt i),
     in_Failure := map_option (\<lambda>f. f) (in_Failure i)\<rparr>"

definition WithStatus :: "Intent \<Rightarrow> IntentStatus \<Rightarrow> time \<Rightarrow> Intent" where
  "WithStatus i status when =
     (let cloned = (Intent_Clone i)\<lparr>in_Status := status\<rparr> in
      case status of
        IntentStatusClaimed \<Rightarrow> cloned\<lparr>in_ClaimedAt := Some when\<rparr>
      | IntentStatusRunning \<Rightarrow> cloned\<lparr>in_ClaimedAt := Some when\<rparr>
      | IntentStatusSucceeded \<Rightarrow> cloned\<lparr>in_CompletedAt := Some when\<rparr>
      | IntentStatusFailed \<Rightarrow> cloned\<lparr>in_CompletedAt := Some when\<rparr>
      | _ \<Rightarrow> cloned)"

section \<open>Valid intents\<close>

lemma Intent_Clone_id [simp]: "Intent_Clone i = i"
  by (simp add: Intent_Clone_def option.map_id [unfolded id_def])

fun intent_status_known :: "IntentStatus \<Rightarrow> bool" where
  "intent_status_known (OtherIntentStatus v) = False"
| "intent_status_known _ = True"

lemma IntentStatus_Validate_None [validate_iffs, simp]:
  "IntentStatus_Validate s = None \<longleftrightarrow> intent_status_known s"
  by (cases s) simp_all

lemma validate_entity_keys_None: "validate_entity_keys ks = None \<longleftrightarrow> (\<forall>k \<in> set ks. \<not> blank k)"
  by (induction ks) auto

lemma validate_related_scopes_None:
  "validate_related_scopes seen ss = None \<longleftrightarrow>
     (\<forall>s \<in> set ss. \<not> blank s) \<and> distinct (map trim_space ss) \<and> set (map trim_space ss) \<inter> set seen = {}"
proof (induction ss arbitrary: seen)
  case Nil
  show ?case by simp
next
  case (Cons s ss)
  show ?case
    by (auto simp: Let_def Cons.IH blank_def)
qed

definition intent_ok :: "Intent \<Rightarrow> bool" where
  "intent_ok i \<longleftrightarrow>
     list_all (\<lambda>s. \<not> blank s)
       [in_IntentID i, in_ScopeID i, in_GenerationID i, in_SourceSystem i, in_Cause i]
     \<and> in_Domain i \<in> set knownDomains \<and> in_EnqueuedAt i \<noteq> 0 \<and> in_AvailableAt i \<noteq> 0
     \<and> intent_status_known (in_Status i) \<and> (\<forall>k \<in> set (in_EntityKeys i). \<not> blank k)
     \<and> in_RelatedScopeIDs i \<noteq> [] \<and> (\<forall>s \<in> set (in_RelatedScopeIDs i). \<not> blank s)
     \<and> distinct (map trim_space (in_RelatedScopeIDs i))"

interpretation intents: validator Intent_Validate intent_ok
  by unfold_locales
    (auto simp: Intent_Validate_def intent_ok_def is_zero_def validate_entity_keys_None
      validate_related_scopes_None)

lemmas [validate_iffs] = intents.accepts_iff

end
