(* ===== verification/Phases.thy ===== *)
theory Phases
  imports ReducerIntent
begin

text \<open>
  \<open>go/internal/reducer/graph_projection_phase.go\<close>, \<open>graph_projection_phase_publish.go\<close> and
  \<open>graph_projection_phase_repair.go\<close>: the readiness milestones of the graph projection, the
  publication a reducer domain makes after its graph writes, and the repair rows that retry a
  publication that failed. A publisher is any code that acts on a world of type \<open>'w\<close>.
\<close>

section \<open>Keyspaces and phases\<close>

type_synonym GraphProjectionKeyspace = string
type_synonym GraphProjectionPhase = string

definition KeyspaceCodeEntitiesUID :: GraphProjectionKeyspace where
  "KeyspaceCodeEntitiesUID = ''code_entities_uid''"
definition KeyspaceServiceUID :: GraphProjectionKeyspace where
  "KeyspaceServiceUID = ''service_uid''"
definition KeyspaceDeployableUnitUID :: GraphProjectionKeyspace where
  "KeyspaceDeployableUnitUID = ''deployable_unit_uid''"
definition KeyspaceTerraformResourceUID :: GraphProjectionKeyspace where
  "KeyspaceTerraformResourceUID = ''terraform_resource_uid''"
definition KeyspaceTerraformModuleUID :: GraphProjectionKeyspace where
  "KeyspaceTerraformModuleUID = ''terraform_module_uid''"
definition KeyspaceCloudResourceUID :: GraphProjectionKeyspace where
  "KeyspaceCloudResourceUID = ''cloud_resource_uid''"
definition KeyspaceWebhookEventUID :: GraphProjectionKeyspace where
  "KeyspaceWebhookEventUID = ''webhook_event_uid''"
definition KeyspaceCrossRepoEvidence :: GraphProjectionKeyspace where
  "KeyspaceCrossRepoEvidence = ''cross_repo_evidence''"

definition PhaseCanonicalNodesCommitted :: GraphProjectionPhase where
  "PhaseCanonicalNodesCommitted = ''canonical_nodes_committed''"
definition PhaseDeployableUnitCorrelation :: GraphProjectionPhase where
  "PhaseDeployableUnitCorrelation = ''deployable_unit_correlation''"
definition PhaseSemanticNodesCommitted :: GraphProjectionPhase where
  "PhaseSemanticNodesCommitted = ''semantic_nodes_committed''"
definition PhaseBackwardEvidenceCommitted :: GraphProjectionPhase where
  "PhaseBackwardEvidenceCommitted = ''backward_evidence_committed''"
definition PhaseDeploymentMapping :: GraphProjectionPhase where
  "PhaseDeploymentMapping = ''deployment_mapping''"
definition PhaseWorkloadMaterialization :: GraphProjectionPhase where
  "PhaseWorkloadMaterialization = ''workload_materialization''"
definition PhaseCrossSourceAnchorReady :: GraphProjectionPhase where
  "PhaseCrossSourceAnchorReady = ''cross_source_anchor_ready''"

lemmas keyspace_defs =
  KeyspaceCodeEntitiesUID_def KeyspaceServiceUID_def KeyspaceDeployableUnitUID_def
  KeyspaceTerraformResourceUID_def KeyspaceTerraformModuleUID_def KeyspaceCloudResourceUID_def
  KeyspaceWebhookEventUID_def KeyspaceCrossRepoEvidence_def

lemmas phase_defs =
  PhaseCanonicalNodesCommitted_def PhaseDeployableUnitCorrelation_def
  PhaseSemanticNodesCommitted_def PhaseBackwardEvidenceCommitted_def PhaseDeploymentMapping_def
  PhaseWorkloadMaterialization_def PhaseCrossSourceAnchorReady_def

section \<open>Keys, publications, repairs\<close>

record PhaseKey =
  pk_ScopeID :: string
  pk_AcceptanceUnitID :: string
  pk_SourceRunID :: string
  pk_GenerationID :: string
  pk_Keyspace :: GraphProjectionKeyspace

record PhaseState =
  ps_Key :: PhaseKey
  ps_Phase :: GraphProjectionPhase
  ps_CommittedAt :: time
  ps_UpdatedAt :: time

record PhaseRepair =
  pr_Key :: PhaseKey
  pr_Phase :: GraphProjectionPhase
  pr_CommittedAt :: time
  pr_EnqueuedAt :: time
  pr_NextAttemptAt :: time
  pr_UpdatedAt :: time
  pr_Attempts :: int
  pr_LastError :: error

text \<open>\<open>SharedProjectionAcceptanceKey\<close> of \<open>shared_projection.go\<close>: one freshness slice.\<close>

record AcceptanceKey =
  ak_ScopeID :: string
  ak_AcceptanceUnitID :: string
  ak_SourceRunID :: string

definition PhaseKey_Validate :: "PhaseKey \<Rightarrow> error option" where
  "PhaseKey_Validate k = first_err
     [check (blank (pk_ScopeID k)) (Blank ''scope_id''),
      check (blank (pk_AcceptanceUnitID k)) (Blank ''acceptance_unit_id''),
      check (blank (pk_SourceRunID k)) (Blank ''source_run_id''),
      check (blank (pk_GenerationID k)) (Blank ''generation_id''),
      check (blank (pk_Keyspace k)) (Blank ''keyspace'')]"

definition PhaseRepair_Validate :: "PhaseRepair \<Rightarrow> error option" where
  "PhaseRepair_Validate r = first_err
     [map_option (Wrap ''validate repair key'') (PhaseKey_Validate (pr_Key r)),
      check (blank (pr_Phase r)) (Blank ''phase'')]"

text \<open>\<open>now\<close> is what \<open>time.Now().UTC()\<close> returns, where the code falls back on it.\<close>

definition repairs_from_states :: "time \<Rightarrow> PhaseState list \<Rightarrow> error \<Rightarrow> time \<Rightarrow> PhaseRepair list" where
  "repairs_from_states now states lastError enqueuedAt =
     (let queuedAt = utc enqueuedAt; queuedAt = (if is_zero queuedAt then now else queuedAt)
      in map (\<lambda>s. \<lparr>pr_Key = ps_Key s, pr_Phase = ps_Phase s, pr_CommittedAt = ps_CommittedAt s,
           pr_EnqueuedAt = queuedAt, pr_NextAttemptAt = queuedAt, pr_UpdatedAt = queuedAt,
           pr_Attempts = 0, pr_LastError = lastError\<rparr>) states)"

section \<open>Publishing\<close>

fun first_entity_key :: "string list \<Rightarrow> string option" where
  "first_entity_key [] = None"
| "first_entity_key (k # ks) =
     (let trimmed = trim_space k in if trimmed \<noteq> [] then Some trimmed else first_entity_key ks)"

definition graphPhaseAcceptanceUnitID :: "Intent \<Rightarrow> string" where
  "graphPhaseAcceptanceUnitID i =
     (case first_entity_key (in_EntityKeys i) of Some k \<Rightarrow> k | None \<Rightarrow> trim_space (in_ScopeID i))"

definition phaseStateForIntent ::
  "time \<Rightarrow> Intent \<Rightarrow> GraphProjectionKeyspace \<Rightarrow> GraphProjectionPhase \<Rightarrow> time \<Rightarrow> PhaseState option" where
  "phaseStateForIntent now intent keyspace phase observedAt =
     (let scopeID = trim_space (in_ScopeID intent); generationID = trim_space (in_GenerationID intent) in
      if scopeID = [] \<or> generationID = [] then None
      else
        (let acceptanceUnitID = graphPhaseAcceptanceUnitID intent in
         if acceptanceUnitID = [] then None
         else
           (let observedAt = (if is_zero observedAt then now else observedAt); observedAt = utc observedAt
            in Some \<lparr>ps_Key = \<lparr>pk_ScopeID = scopeID, pk_AcceptanceUnitID = acceptanceUnitID,
                  pk_SourceRunID = generationID, pk_GenerationID = generationID, pk_Keyspace = keyspace\<rparr>,
                  ps_Phase = phase, ps_CommittedAt = observedAt, ps_UpdatedAt = observedAt\<rparr>)))"

type_synonym 'w Publisher = "'w \<Rightarrow> PhaseState list \<Rightarrow> error option \<times> 'w"

definition publishIntentGraphPhase ::
  "time \<Rightarrow> 'w Publisher option \<Rightarrow> Intent \<Rightarrow> GraphProjectionKeyspace \<Rightarrow> GraphProjectionPhase \<Rightarrow> time
     \<Rightarrow> 'w \<Rightarrow> error option \<times> 'w" where
  "publishIntentGraphPhase now publisher intent keyspace phase observedAt w =
     (case publisher of
        None \<Rightarrow> (None, w)
      | Some publish \<Rightarrow>
          (case phaseStateForIntent now intent keyspace phase observedAt of
             None \<Rightarrow> (None, w)
           | Some state \<Rightarrow>
               (case publish w [state] of
                  (Some e, w') \<Rightarrow> (Some (Wrap (''publish '' @ phase @ '' phase'') e), w')
                | (None, w') \<Rightarrow> (None, w'))))"

section \<open>Valid keys\<close>

definition phase_key_ok :: "PhaseKey \<Rightarrow> bool" where
  "phase_key_ok k \<longleftrightarrow> list_all (\<lambda>s. \<not> blank s)
     [pk_ScopeID k, pk_AcceptanceUnitID k, pk_SourceRunID k, pk_GenerationID k, pk_Keyspace k]"

interpretation phase_keys: validator PhaseKey_Validate phase_key_ok
  by unfold_locales (auto simp: PhaseKey_Validate_def phase_key_ok_def)

interpretation phase_repairs: validator PhaseRepair_Validate "\<lambda>r. phase_key_ok (pr_Key r) \<and> \<not> blank (pr_Phase r)"
  by unfold_locales (auto simp: PhaseRepair_Validate_def phase_keys.accepts_iff)

lemmas [validate_iffs] = phase_keys.accepts_iff phase_repairs.accepts_iff

lemma first_entity_key_Some: "first_entity_key ks = Some k \<Longrightarrow> k \<noteq> [] \<and> k \<in> set (map trim_space ks)"
  by (induction ks) (auto simp: Let_def split: if_splits)

lemma first_entity_key_not_blank: "first_entity_key ks = Some k \<Longrightarrow> \<not> blank k"
proof -
  assume k: "first_entity_key ks = Some k"
  from first_entity_key_Some [OF k] obtain s where "k = trim_space s" "k \<noteq> []" by auto
  then show ?thesis by (simp add: blank_def)
qed

text \<open>
  A valid intent always has a publication: its key is the intent's trimmed scope and
  generation with the first entity key (or the scope), the source run is the generation, and
  the key validates for every named keyspace, so publishing for a valid intent is never skipped
  silently nor refused by the key's validation.
\<close>

theorem valid_intent_publishes:
  assumes "Intent_Validate i = None" and "\<not> blank keyspace"
  shows "\<exists>s. phaseStateForIntent now i keyspace phase t = Some s
     \<and> PhaseKey_Validate (ps_Key s) = None
     \<and> pk_GenerationID (ps_Key s) = trim_space (in_GenerationID i)
     \<and> pk_SourceRunID (ps_Key s) = pk_GenerationID (ps_Key s)
     \<and> pk_AcceptanceUnitID (ps_Key s) \<in> set (map trim_space (in_ScopeID i # in_EntityKeys i))"
proof -
  from assms(1) have nb: "\<not> blank (in_ScopeID i)" "\<not> blank (in_GenerationID i)"
    by (simp_all add: validate_iffs intent_ok_def)
  then have ne: "trim_space (in_ScopeID i) \<noteq> []" "trim_space (in_GenerationID i) \<noteq> []"
    by (simp_all add: blank_def)
  have unit: "graphPhaseAcceptanceUnitID i \<in> set (map trim_space (in_ScopeID i # in_EntityKeys i))
      \<and> \<not> blank (graphPhaseAcceptanceUnitID i)"
    using nb first_entity_key_Some first_entity_key_not_blank
    by (cases "first_entity_key (in_EntityKeys i)") (auto simp: graphPhaseAcceptanceUnitID_def)
  then have "graphPhaseAcceptanceUnitID i \<noteq> []" by auto
  with ne nb unit assms(2) show ?thesis
    by (simp add: phaseStateForIntent_def Let_def validate_iffs phase_key_ok_def)
qed

lemma valid_intent_publishes_witness:
  "\<exists>i s. Intent_Validate i = None \<and> phaseStateForIntent 7 i KeyspaceServiceUID PhaseDeploymentMapping 0 = Some s
     \<and> PhaseKey_Validate (ps_Key s) = None"
proof -
  let ?i = "\<lparr>in_IntentID = ''i1'', in_ScopeID = ''s1'', in_GenerationID = ''g1'',
     in_SourceSystem = ''git'', in_Domain = DomainOwnership, in_Cause = ''test'', in_Priority = 0,
     in_AttemptCount = 0, in_EntityKeys = [''e1''], in_RelatedScopeIDs = [''s1''],
     in_Status = IntentStatusPending, in_EnqueuedAt = 1, in_AvailableAt = 1, in_ClaimedAt = None,
     in_CompletedAt = None, in_Failure = None\<rparr>"
  have "Intent_Validate ?i = None"
    by (simp add: validate_iffs intent_ok_def solid_simps knownDomains_def)
  moreover have "\<not> blank KeyspaceServiceUID" by (simp add: keyspace_defs solid_simps)
  ultimately show ?thesis using valid_intent_publishes [of ?i KeyspaceServiceUID 7 PhaseDeploymentMapping 0]
    by blast
qed

end
