(* ===== verification/Sql.thy ===== *)
theory Sql
  imports Ordering
begin

text \<open>
  What the stores use of PostgreSQL. A table is the list of its rows, a statement is atomic and
  either fails without effect or returns the new table; a batch of rows is written by one
  statement, batch after batch without a transaction around them, so the batches before a
  failing one stay.
\<close>

section \<open>Batches\<close>

text \<open>\<open>for i := 0; i < len(rows); i += n { exec(rows[i:i+n]) }\<close> with an early return.\<close>

function exec_batches :: "nat \<Rightarrow> ('r list \<Rightarrow> 'd \<Rightarrow> error option \<times> 'd) \<Rightarrow> 'r list \<Rightarrow> 'd \<Rightarrow> error option \<times> 'd"
where
  "exec_batches n exec rows db =
     (if rows = [] \<or> n = 0 then (None, db)
      else
        (case exec (take n rows) db of
           (Some e, db') \<Rightarrow> (Some e, db')
         | (None, db') \<Rightarrow> exec_batches n exec (drop n rows) db'))"
  by pat_completeness auto
termination
  by (relation "measure (\<lambda>(_, _, rows, _). length rows)") auto

declare exec_batches.simps [simp del]

lemma exec_batches_Nil [simp]: "exec_batches n exec [] db = (None, db)"
  by (simp add: exec_batches.simps)

lemma exec_batches_one:
  assumes "0 < n"
  shows "exec_batches n exec [r] db = exec [r] db"
  using assms by (auto simp: exec_batches.simps [of n exec "[r]"] split: prod.split option.split)

text \<open>A relation every statement keeps holds over the whole loop, failed or not.\<close>

lemma exec_batches_invariant:
  assumes "\<And>rs d e d'. exec rs d = (e, d') \<Longrightarrow> P d \<Longrightarrow> P d'" and "exec_batches n exec rows db = (e, db')" and "P db"
  shows "P db'"
  using assms
proof (induction n exec rows db rule: exec_batches.induct)
  case (1 n exec rows db)
  obtain f d where fd: "exec (take n rows) db = (f, d)" by (cases "exec (take n rows) db")
  have "P d" by (rule "1.prems"(1) [OF fd "1.prems"(3)])
  moreover have "P db'" if "rows \<noteq> []" "n \<noteq> 0" "f = None" "exec_batches n exec (drop n rows) d = (e, db')"
    using that fd \<open>P d\<close> by (intro "1.IH") (auto intro: "1.prems"(1))
  ultimately show ?case
    using "1.prems"(2,3) fd by (subst (asm) exec_batches.simps) (auto split: if_splits option.splits)
qed

text \<open>When the loop succeeds, what each statement achieves for its rows holds for all rows.\<close>

lemma exec_batches_achieves:
  assumes "\<And>rs d d' r. exec rs d = (None, d') \<Longrightarrow> r \<in> set rs \<Longrightarrow> Q r d'"
    and "\<And>rs d e d' r. exec rs d = (e, d') \<Longrightarrow> Q r d \<Longrightarrow> Q r d'"
    and "exec_batches n exec rows db = (None, db')" and "0 < n" and "r \<in> set rows"
  shows "Q r db'"
  using assms
proof (induction n exec rows db rule: exec_batches.induct)
  case (1 n exec rows db)
  have ne: "rows \<noteq> []" using "1.prems"(5) by auto
  obtain d where d: "exec (take n rows) db = (None, d)" and rest: "exec_batches n exec (drop n rows) d = (None, db')"
    using "1.prems"(3,4) ne by (subst (asm) exec_batches.simps) (auto split: prod.splits option.splits)
  show ?case
  proof (cases "r \<in> set (drop n rows)")
    case True
    show ?thesis
      using ne "1.prems"(4) d rest True
      by (intro "1.IH") (auto intro: "1.prems"(1,2))
  next
    case False
    then have "r \<in> set (take n rows)"
      using "1.prems"(5) by (metis Un_iff append_take_drop_id set_append)
    then have "Q r d" by (rule "1.prems"(1) [OF d])
    with rest show ?thesis
      by (rule exec_batches_invariant [rotated]) (rule "1.prems"(2))
  qed
qed

lemma exec_batches_cong:
  assumes "\<And>rs d. set rs \<subseteq> set rows \<Longrightarrow> exec rs d = exec' rs d"
  shows "exec_batches n exec rows db = exec_batches n exec' rows db"
  using assms
proof (induction n exec rows db rule: exec_batches.induct)
  case (1 n exec rows db)
  have t: "exec (take n rows) db = exec' (take n rows) db"
    by (rule "1.prems") (rule set_take_subset)
  show ?case
  proof (cases "rows = [] \<or> n = 0")
    case True
    then show ?thesis by (simp add: exec_batches.simps)
  next
    case False
    obtain e d where ed: "exec (take n rows) db = (e, d)" by (cases "exec (take n rows) db")
    have "exec_batches n exec (drop n rows) d = exec_batches n exec' (drop n rows) d" if "e = None"
      using False ed that by (intro "1.IH") (auto intro: "1.prems" dest: in_set_dropD)
    with False ed t show ?thesis
      by (subst (1 2) exec_batches.simps) (auto split: option.splits)
  qed
qed

text \<open>The same when a statement keeps the relation only for the rows of the call.\<close>

lemma exec_batches_invariant_on:
  assumes keeps: "\<And>rs d e d'. set rs \<subseteq> set rows \<Longrightarrow> exec rs d = (e, d') \<Longrightarrow> P d \<Longrightarrow> P d'"
    and "exec_batches n exec rows db = (e, db')" and "P db"
  shows "P db'"
proof -
  let ?exec = "\<lambda>rs d. if set rs \<subseteq> set rows then exec rs d else (None, d)"
  have "exec_batches n exec rows db = exec_batches n ?exec rows db"
    by (rule exec_batches_cong) simp
  moreover have "?exec rs d = (e, d') \<Longrightarrow> P d \<Longrightarrow> P d'" for rs d e d'
    using keeps [of rs d e d'] by (auto split: if_splits)
  ultimately show ?thesis
    using exec_batches_invariant [of ?exec P n rows db e db'] assms(2,3) by simp
qed

lemma exec_batches_achieves_on:
  assumes one: "\<And>rs d d' r. set rs \<subseteq> set rows \<Longrightarrow> exec rs d = (None, d') \<Longrightarrow> r \<in> set rs \<Longrightarrow> Q r d'"
    and keeps: "\<And>rs d e d' r. set rs \<subseteq> set rows \<Longrightarrow> r \<in> set rows \<Longrightarrow> exec rs d = (e, d') \<Longrightarrow> Q r d \<Longrightarrow> Q r d'"
    and all: "exec_batches n exec rows db = (None, db')" and "0 < n" and "r \<in> set rows"
  shows "Q r db'"
proof -
  let ?exec = "\<lambda>rs d. if set rs \<subseteq> set rows then exec rs d else (Some (Msg []), d)"
  let ?Q = "\<lambda>r d. r \<in> set rows \<longrightarrow> Q r d"
  have eq: "exec_batches n exec rows db = exec_batches n ?exec rows db"
    by (rule exec_batches_cong) simp
  have "?Q r db'"
  proof (rule exec_batches_achieves [where exec = ?exec and n = n and rows = rows and db = db])
    show "?Q r d'" if "?exec rs d = (None, d')" "r \<in> set rs" for rs d d' r
      using that one [of rs d d' r] by (auto split: if_splits)
    show "?Q r d'" if "?exec rs d = (e, d')" "?Q r d" for rs d e d' r
      using that keeps [of rs r d e d'] by (auto split: if_splits)
  qed (use all eq assms(4,5) in simp_all)
  with assms(5) show ?thesis by simp
qed

section \<open>Columns\<close>

text \<open>\<open>NULLIF(s, '')\<close>, \<open>COALESCE(s, '')\<close> and what the types INTEGER and BIGINT hold.\<close>

definition nullif :: "string \<Rightarrow> string option" where
  "nullif s = (if s = [] then None else Some s)"

definition coalesce :: "string option \<Rightarrow> string" where
  "coalesce v = (case v of Some s \<Rightarrow> s | None \<Rightarrow> [])"

definition integer_fits :: "int \<Rightarrow> bool" where
  "integer_fits n \<longleftrightarrow> - (2 ^ 31) \<le> n \<and> n < 2 ^ 31"

definition bigint_fits :: "int \<Rightarrow> bool" where
  "bigint_fits n \<longleftrightarrow> - (2 ^ 63) \<le> n \<and> n < 2 ^ 63"

lemma coalesce_nullif [simp]: "coalesce (nullif s) = s"
  by (simp add: coalesce_def nullif_def)

section \<open>INSERT ... ON CONFLICT\<close>

text \<open>
  \<open>ON CONFLICT (key) DO UPDATE SET ...\<close>: \<open>merge old excluded\<close> is the updated row. One
  statement must not touch a row twice: rows with the same key in one batch make it fail.
\<close>

definition upsert_row :: "('r \<Rightarrow> 'k) \<Rightarrow> ('r \<Rightarrow> 'r \<Rightarrow> 'r) \<Rightarrow> 'r \<Rightarrow> 'r list \<Rightarrow> 'r list" where
  "upsert_row key merge r tab =
     (if key r \<in> set (map key tab) then map (\<lambda>t. if key t = key r then merge t r else t) tab
      else tab @ [r])"

definition upsert_batch :: "('r \<Rightarrow> 'k) \<Rightarrow> ('r \<Rightarrow> 'r \<Rightarrow> 'r) \<Rightarrow> 'r list \<Rightarrow> 'r list \<Rightarrow> 'r list result" where
  "upsert_batch key merge rows tab =
     (if \<not> distinct (map key rows)
      then Inl (Msg ''ON CONFLICT DO UPDATE command cannot affect row a second time'')
      else Inr (fold (upsert_row key merge) rows tab))"

text \<open>\<open>ON CONFLICT (key) DO NOTHING\<close>.\<close>

definition insert_row :: "('r \<Rightarrow> 'k) \<Rightarrow> 'r \<Rightarrow> 'r list \<Rightarrow> 'r list" where
  "insert_row key r tab = (if key r \<in> set (map key tab) then tab else tab @ [r])"

lemma upsert_row_keys:
  assumes "\<And>t r. key t = key r \<Longrightarrow> key (merge t r) = key r"
  shows "map key (upsert_row key merge r tab) =
     (if key r \<in> set (map key tab) then map key tab else map key tab @ [key r])"
  using assms by (auto simp: upsert_row_def)

lemma upsert_row_distinct:
  assumes "\<And>t r. key t = key r \<Longrightarrow> key (merge t r) = key r" and "distinct (map key tab)"
  shows "distinct (map key (upsert_row key merge r tab))"
proof -
  have "map key (upsert_row key merge r tab) =
     (if key r \<in> set (map key tab) then map key tab else map key tab @ [key r])"
    by (rule upsert_row_keys) (rule assms(1))
  with assms(2) show ?thesis by simp
qed

lemma upsert_rows_distinct:
  assumes "\<And>t r. key t = key r \<Longrightarrow> key (merge t r) = key r"
  shows "distinct (map key tab) \<Longrightarrow> distinct (map key (fold (upsert_row key merge) rows tab))"
proof (induction rows arbitrary: tab)
  case Nil
  then show ?case by simp
next
  case (Cons r rows)
  then show ?case
    using upsert_row_distinct [of key merge tab r, OF assms] by simp
qed

lemma upsert_rows_keys:
  assumes "\<And>t r. key t = key r \<Longrightarrow> key (merge t r) = key r"
  shows "set (map key (fold (upsert_row key merge) rows tab)) = set (map key tab) \<union> set (map key rows)"
proof (induction rows arbitrary: tab)
  case Nil
  show ?case by simp
next
  case (Cons r rows)
  have "map key (upsert_row key merge r tab) =
     (if key r \<in> set (map key tab) then map key tab else map key tab @ [key r])"
    by (rule upsert_row_keys) (rule assms)
  then have "set (map key (upsert_row key merge r tab)) = insert (key r) (set (map key tab))"
    by (metis insert_absorb list.set(1) list.set(2) set_append Un_insert_right Un_empty_right)
  with Cons.IH [of "upsert_row key merge r tab"] show ?case by simp
qed

lemma upsert_rows_all:
  assumes "\<And>t r. P t \<Longrightarrow> P r \<Longrightarrow> P (merge t r)" and "\<forall>r \<in> set rows. P r"
  shows "\<forall>t \<in> set tab. P t \<Longrightarrow> \<forall>t \<in> set (fold (upsert_row key merge) rows tab). P t"
  using assms(2)
proof (induction rows arbitrary: tab)
  case Nil
  then show ?case by simp
next
  case (Cons r rows)
  have "\<forall>t \<in> set (upsert_row key merge r tab). P t"
    using Cons.prems assms(1) by (auto simp: upsert_row_def)
  with Cons show ?case by simp
qed

lemma upsert_rows_keeps:
  "t \<in> set tab \<Longrightarrow> key t \<notin> set (map key rows) \<Longrightarrow> t \<in> set (fold (upsert_row key merge) rows tab)"
proof (induction rows arbitrary: tab)
  case Nil
  then show ?case by simp
next
  case (Cons r rows)
  then have "t \<in> set (upsert_row key merge r tab)" by (auto simp: upsert_row_def)
  with Cons show ?case by simp
qed

lemma insert_row_distinct: "distinct (map key tab) \<Longrightarrow> distinct (map key (insert_row key r tab))"
  by (auto simp: insert_row_def)

lemma insert_rows_distinct: "distinct (map key tab) \<Longrightarrow> distinct (map key (fold (insert_row key) rows tab))"
  by (induction rows arbitrary: tab) (simp_all add: insert_row_distinct)

lemma insert_row_mem: "t \<in> set (insert_row key r tab) \<Longrightarrow> t \<in> set tab \<or> t = r \<and> key r \<notin> set (map key tab)"
  by (auto simp: insert_row_def split: if_splits)

lemma insert_row_keeps: "t \<in> set tab \<Longrightarrow> t \<in> set (insert_row key r tab)"
  by (simp add: insert_row_def)

lemma find_map_if:
  assumes "\<And>t. key t = k \<Longrightarrow> key (f t) = k"
  shows "find (\<lambda>t. key t = k) (map (\<lambda>t. if key t = k then f t else t) tab) = map_option f (find (\<lambda>t. key t = k) tab)"
  using assms by (induction tab) auto

lemma find_append: "find P (xs @ ys) = (case find P xs of Some x \<Rightarrow> Some x | None \<Rightarrow> find P ys)"
  by (induction xs) auto

lemma find_upsert_row:
  assumes "\<And>t r. key t = key r \<Longrightarrow> key (merge t r) = key r"
  shows "find (\<lambda>t. key t = k) (upsert_row key merge r tab) =
    (if k = key r then Some (case find (\<lambda>t. key t = k) tab of None \<Rightarrow> r | Some old \<Rightarrow> merge old r)
     else find (\<lambda>t. key t = k) tab)"
proof (cases "key r \<in> set (map key tab)")
  case True
  then have some: "find (\<lambda>t. key t = key r) tab \<noteq> None" by (auto simp: find_None_iff)
  have same: "find (\<lambda>t. key t = key r) (map (\<lambda>t. if key t = key r then merge t r else t) tab)
      = map_option (\<lambda>t. merge t r) (find (\<lambda>t. key t = key r) tab)"
    by (rule find_map_if) (rule assms)
  have other: "find (\<lambda>t. key t = k) (map (\<lambda>t. if key t = key r then merge t r else t) tab) = find (\<lambda>t. key t = k) tab"
    if "k \<noteq> key r" using that assms by (induction tab) auto
  from True some same other show ?thesis by (auto simp: upsert_row_def split: option.split)
next
  case False
  then have "find (\<lambda>t. key t = key r) tab = None" by (force simp: find_None_iff image_iff)
  with False show ?thesis by (auto simp: upsert_row_def find_append split: option.split)
qed

lemma find_upsert_rows:
  assumes "\<And>t r. key t = key r \<Longrightarrow> key (merge t r) = key r" and "distinct (map key rows)"
  shows "find (\<lambda>t. key t = k) (fold (upsert_row key merge) rows tab) =
    (case find (\<lambda>r. key r = k) rows of
       None \<Rightarrow> find (\<lambda>t. key t = k) tab
     | Some r \<Rightarrow> Some (case find (\<lambda>t. key t = k) tab of None \<Rightarrow> r | Some old \<Rightarrow> merge old r))"
  using assms(2)
proof (induction rows arbitrary: tab)
  case Nil
  show ?case by simp
next
  case (Cons r rows)
  have "find (\<lambda>s. key s = key r) rows = None" using Cons.prems by (force simp: find_None_iff image_iff)
  with Cons show ?case
    by (cases "find (\<lambda>s. key s = k) rows") (auto simp: find_upsert_row [where key = key and merge = merge, OF assms(1)])
qed

section \<open>Reading rows\<close>

text \<open>The loop that scans a result: the first row that cannot be read ends it.\<close>

fun scan_all :: "('r \<Rightarrow> 'a result) \<Rightarrow> 'r list \<Rightarrow> 'a list result" where
  "scan_all scan [] = Inr []"
| "scan_all scan (r # rs) =
     (case scan r of Inl e \<Rightarrow> Inl e | Inr x \<Rightarrow> (case scan_all scan rs of Inl e \<Rightarrow> Inl e | Inr xs \<Rightarrow> Inr (x # xs)))"

lemma scan_all_map: "(\<And>r. r \<in> set rows \<Longrightarrow> scan r = Inr (h r)) \<Longrightarrow> scan_all scan rows = Inr (map h rows)"
  by (induction rows) simp_all

lemma find_mem: "find P xs = Some x \<Longrightarrow> x \<in> set xs \<and> P x"
  by (induction xs) (auto split: if_splits)

end
