(* ===== verification/PhaseStore.thy ===== *)
theory PhaseStore
  imports Phases Sql Machines
begin

text \<open>
  \<open>go/internal/storage/postgres/graph_projection_phase_state.go\<close> and
  \<open>graph_projection_phase_repair_queue.go\<close>: the two tables behind the readiness publications.
  The rows of \<open>graph_projection_phase_state\<close> are \<open>PhaseState\<close> values, those of
  \<open>graph_projection_phase_repair_queue\<close> are \<open>PhaseRepair\<close> values (\<open>ListDue\<close> does not select
  the column \<open>updated_at\<close> and leaves the field zero). Both tables are keyed by the six text
  columns and reference \<open>ingestion_scopes\<close> and \<open>scope_generations\<close>, whose keys are the first
  two fields of the database. \<open>clock\<close> is what \<open>time.Now()\<close> or \<open>NOW()\<close> returns.
  A lost connection is not modelled: every statement reaches the database.
\<close>

section \<open>Tables\<close>

type_synonym row_key = "string \<times> string \<times> string \<times> string \<times> string \<times> string"

record PhaseDb =
  db_Scopes :: "string list"
  db_Generations :: "string list"
  db_States :: "PhaseState list"
  db_Repairs :: "PhaseRepair list"

definition columns :: "PhaseKey \<Rightarrow> GraphProjectionPhase \<Rightarrow> row_key" where
  "columns k p = (pk_ScopeID k, pk_AcceptanceUnitID k, pk_SourceRunID k, pk_GenerationID k, pk_Keyspace k, p)"

definition state_key :: "PhaseState \<Rightarrow> row_key" where
  "state_key s = columns (ps_Key s) (ps_Phase s)"

definition repair_key :: "PhaseRepair \<Rightarrow> row_key" where
  "repair_key r = columns (pr_Key r) (pr_Phase r)"

definition trim_key :: "PhaseKey \<Rightarrow> PhaseKey" where
  "trim_key k = \<lparr>pk_ScopeID = trim_space (pk_ScopeID k),
     pk_AcceptanceUnitID = trim_space (pk_AcceptanceUnitID k),
     pk_SourceRunID = trim_space (pk_SourceRunID k),
     pk_GenerationID = trim_space (pk_GenerationID k), pk_Keyspace = trim_space (pk_Keyspace k)\<rparr>"

definition references_ok :: "PhaseDb \<Rightarrow> PhaseKey \<Rightarrow> bool" where
  "references_ok db k \<longleftrightarrow>
     pk_ScopeID k \<in> set (db_Scopes db) \<and> pk_GenerationID k \<in> set (db_Generations db)"

definition fk_error :: error where
  "fk_error = Msg ''violates foreign key constraint''"

section \<open>Readiness states\<close>

definition graphProjectionPhaseStateBatchSize :: nat where
  "graphProjectionPhaseStateBatchSize = 250"

definition state_row :: "time \<Rightarrow> PhaseState \<Rightarrow> PhaseState" where
  "state_row clock s =
     (let committedAt = utc (ps_CommittedAt s);
          committedAt = (if is_zero committedAt then clock else committedAt);
          updatedAt = utc (ps_UpdatedAt s);
          updatedAt = (if is_zero updatedAt then committedAt else updatedAt)
      in \<lparr>ps_Key = trim_key (ps_Key s), ps_Phase = trim_space (ps_Phase s),
          ps_CommittedAt = committedAt, ps_UpdatedAt = updatedAt\<rparr>)"

definition merge_state :: "PhaseState \<Rightarrow> PhaseState \<Rightarrow> PhaseState" where
  "merge_state old excluded =
     old\<lparr>ps_CommittedAt := ps_CommittedAt excluded, ps_UpdatedAt := ps_UpdatedAt excluded\<rparr>"

definition upsert_state_batch :: "time \<Rightarrow> PhaseState list \<Rightarrow> PhaseDb \<Rightarrow> error option \<times> PhaseDb" where
  "upsert_state_batch clock batch db =
     (case first_err (map (\<lambda>s. PhaseKey_Validate (ps_Key s)) batch) of
        Some e \<Rightarrow> (Some (Wrap ''validate graph projection phase key'' e), db)
      | None \<Rightarrow>
          (let rows = map (state_row clock) batch in
           if \<not> list_all (\<lambda>s. references_ok db (ps_Key s)) rows
           then (Some (Wrap ''upsert graph projection phase state batch'' fk_error), db)
           else
             (case upsert_batch state_key merge_state rows (db_States db) of
                Inl e \<Rightarrow> (Some (Wrap ''upsert graph projection phase state batch'' e), db)
              | Inr tab \<Rightarrow> (None, db\<lparr>db_States := tab\<rparr>))))"

definition StateStore_Upsert :: "time \<Rightarrow> PhaseState list \<Rightarrow> PhaseDb \<Rightarrow> error option \<times> PhaseDb" where
  "StateStore_Upsert clock rows db =
     exec_batches graphProjectionPhaseStateBatchSize (upsert_state_batch clock) rows db"

definition StateStore_Publish :: "time \<Rightarrow> PhaseDb \<Rightarrow> PhaseState list \<Rightarrow> error option \<times> PhaseDb" where
  "StateStore_Publish clock db rows = StateStore_Upsert clock rows db"

text \<open>\<open>Lookup\<close> returns (ready, found); the key is compared as given.\<close>

definition StateStore_Lookup :: "PhaseDb \<Rightarrow> PhaseKey \<Rightarrow> GraphProjectionPhase \<Rightarrow> bool \<times> bool" where
  "StateStore_Lookup db key phase =
     (if columns key phase \<in> set (map state_key (db_States db)) then (True, True) else (False, False))"

definition ReadinessLookup :: "PhaseDb \<Rightarrow> PhaseKey \<Rightarrow> GraphProjectionPhase \<Rightarrow> bool \<times> bool" where
  "ReadinessLookup db key phase = StateStore_Lookup db key phase"

fun join_bar :: "string list \<Rightarrow> string" where
  "join_bar [] = []"
| "join_bar [s] = s"
| "join_bar (s # t # ss) = s @ ''|'' @ join_bar (t # ss)"

definition compositeKey :: "PhaseKey \<Rightarrow> GraphProjectionPhase \<Rightarrow> string" where
  "compositeKey key phase = join_bar
     [trim_space (pk_ScopeID key), trim_space (pk_AcceptanceUnitID key),
      trim_space (pk_SourceRunID key), trim_space (pk_GenerationID key),
      trim_space (pk_Keyspace key), trim_space phase]"

text \<open>The map the prefetch builds, and the closure over it.\<close>

fun prefetch :: "PhaseDb \<Rightarrow> PhaseKey list \<Rightarrow> GraphProjectionPhase \<Rightarrow> (string \<times> bool) list \<Rightarrow> (string \<times> bool) list"
where
  "prefetch db [] phase m = m"
| "prefetch db (key # keys) phase m =
     (if PhaseKey_Validate key \<noteq> None then prefetch db keys phase m
      else if map_of m (compositeKey key phase) \<noteq> None then prefetch db keys phase m
      else
        (case StateStore_Lookup db key phase of
           (ready, found) \<Rightarrow>
             if \<not> found then prefetch db keys phase m
             else prefetch db keys phase ((compositeKey key phase, ready) # m)))"

definition ReadinessPrefetch ::
  "PhaseDb \<Rightarrow> PhaseKey list \<Rightarrow> GraphProjectionPhase \<Rightarrow> PhaseKey \<Rightarrow> GraphProjectionPhase \<Rightarrow> bool \<times> bool" where
  "ReadinessPrefetch db keys phase =
     (let readyByKey = prefetch db keys phase [] in
      (\<lambda>key phase. case map_of readyByKey (compositeKey key phase) of
         Some ready \<Rightarrow> (ready, True) | None \<Rightarrow> (False, False)))"

section \<open>Repair queue\<close>

definition graphProjectionPhaseRepairQueueBatchSize :: nat where
  "graphProjectionPhaseRepairQueueBatchSize = 250"

definition repair_row :: "time \<Rightarrow> PhaseRepair \<Rightarrow> PhaseRepair" where
  "repair_row clock r =
     (let committedAt = utc (pr_CommittedAt r);
          committedAt = (if is_zero committedAt then clock else committedAt);
          enqueuedAt = utc (pr_EnqueuedAt r);
          enqueuedAt = (if is_zero enqueuedAt then committedAt else enqueuedAt);
          nextAttemptAt = utc (pr_NextAttemptAt r);
          nextAttemptAt = (if is_zero nextAttemptAt then enqueuedAt else nextAttemptAt)
      in \<lparr>pr_Key = trim_key (pr_Key r), pr_Phase = trim_space (pr_Phase r),
          pr_CommittedAt = committedAt, pr_EnqueuedAt = enqueuedAt, pr_NextAttemptAt = nextAttemptAt,
          pr_UpdatedAt = clock, pr_Attempts = pr_Attempts r, pr_LastError = pr_LastError r\<rparr>)"

definition merge_repair :: "PhaseRepair \<Rightarrow> PhaseRepair \<Rightarrow> PhaseRepair" where
  "merge_repair old excluded = old\<lparr>pr_CommittedAt := pr_CommittedAt excluded,
     pr_EnqueuedAt := pr_EnqueuedAt excluded, pr_NextAttemptAt := pr_NextAttemptAt excluded,
     pr_LastError := pr_LastError excluded, pr_UpdatedAt := pr_UpdatedAt excluded\<rparr>"

definition enqueue_batch :: "time \<Rightarrow> PhaseRepair list \<Rightarrow> PhaseDb \<Rightarrow> error option \<times> PhaseDb" where
  "enqueue_batch clock batch db =
     (case first_err (map PhaseRepair_Validate batch) of
        Some e \<Rightarrow> (Some (Wrap ''validate graph projection repair'' e), db)
      | None \<Rightarrow>
          (let rows = map (repair_row clock) batch in
           if \<not> list_all (\<lambda>r. references_ok db (pr_Key r)) rows
           then (Some (Wrap ''enqueue graph projection phase repair batch'' fk_error), db)
           else if \<not> list_all (\<lambda>r. integer_fits (pr_Attempts r)) rows
           then (Some (Wrap ''enqueue graph projection phase repair batch'' (Msg ''integer out of range'')), db)
           else
             (case upsert_batch repair_key merge_repair rows (db_Repairs db) of
                Inl e \<Rightarrow> (Some (Wrap ''enqueue graph projection phase repair batch'' e), db)
              | Inr tab \<Rightarrow> (None, db\<lparr>db_Repairs := tab\<rparr>))))"

definition RepairQueue_Enqueue :: "time \<Rightarrow> PhaseRepair list \<Rightarrow> PhaseDb \<Rightarrow> error option \<times> PhaseDb" where
  "RepairQueue_Enqueue clock repairs db =
     exec_batches graphProjectionPhaseRepairQueueBatchSize (enqueue_batch clock) repairs db"

definition cmp_due :: "PhaseRepair \<Rightarrow> PhaseRepair \<Rightarrow> int" where
  "cmp_due x y = or_else (compare (pr_NextAttemptAt x) (pr_NextAttemptAt y))
     (compare (pr_EnqueuedAt x) (pr_EnqueuedAt y))"

definition RepairQueue_ListDue :: "PhaseDb \<Rightarrow> time \<Rightarrow> int \<Rightarrow> PhaseRepair list" where
  "RepairQueue_ListDue db now limit =
     (if limit \<le> 0 then []
      else map (\<lambda>r. r\<lparr>pr_UpdatedAt := 0\<rparr>)
        (take (nat limit)
           (sort_by cmp_due (filter (\<lambda>r. pr_NextAttemptAt r \<le> utc now) (db_Repairs db)))))"

definition repair_columns :: "PhaseRepair \<Rightarrow> row_key" where
  "repair_columns r = columns (trim_key (pr_Key r)) (trim_space (pr_Phase r))"

definition delete_batch :: "PhaseRepair list \<Rightarrow> PhaseDb \<Rightarrow> error option \<times> PhaseDb" where
  "delete_batch batch db =
     (case first_err (map PhaseRepair_Validate batch) of
        Some e \<Rightarrow> (Some (Wrap ''validate graph projection repair'' e), db)
      | None \<Rightarrow>
          (None, db\<lparr>db_Repairs := filter (\<lambda>t. repair_key t \<notin> set (map repair_columns batch)) (db_Repairs db)\<rparr>))"

definition RepairQueue_Delete :: "PhaseRepair list \<Rightarrow> PhaseDb \<Rightarrow> error option \<times> PhaseDb" where
  "RepairQueue_Delete repairs db =
     exec_batches graphProjectionPhaseRepairQueueBatchSize delete_batch repairs db"

definition RepairQueue_MarkFailed ::
  "time \<Rightarrow> PhaseRepair \<Rightarrow> time \<Rightarrow> error \<Rightarrow> PhaseDb \<Rightarrow> error option \<times> PhaseDb" where
  "RepairQueue_MarkFailed clock repair nextAttemptAt lastError db =
     (case PhaseRepair_Validate repair of
        Some e \<Rightarrow> (Some (Wrap ''validate graph projection repair'' e), db)
      | None \<Rightarrow>
          (let hit = (\<lambda>t. repair_key t = repair_columns repair) in
           if \<exists>t \<in> set (db_Repairs db). hit t \<and> \<not> integer_fits (pr_Attempts t + 1)
           then (Some (Wrap ''mark graph projection repair failed'' (Msg ''integer out of range'')), db)
           else (None, db\<lparr>db_Repairs := map (\<lambda>t. if hit t
                  then t\<lparr>pr_NextAttemptAt := utc nextAttemptAt, pr_LastError := lastError,
                         pr_UpdatedAt := clock, pr_Attempts := pr_Attempts t + 1\<rparr>
                  else t) (db_Repairs db)\<rparr>)))"

section \<open>What every statement keeps\<close>

definition trimmed_key :: "PhaseKey \<Rightarrow> bool" where
  "trimmed_key k \<longleftrightarrow> trim_key k = k"

definition row_ok :: "PhaseDb \<Rightarrow> PhaseKey \<Rightarrow> GraphProjectionPhase \<Rightarrow> bool" where
  "row_ok db k p \<longleftrightarrow> trimmed_key k \<and> trim_space p = p \<and> phase_key_ok k \<and> references_ok db k"

definition phase_db_ok :: "PhaseDb \<Rightarrow> bool" where
  "phase_db_ok db \<longleftrightarrow> distinct (map state_key (db_States db)) \<and> distinct (map repair_key (db_Repairs db))
     \<and> (\<forall>s \<in> set (db_States db). row_ok db (ps_Key s) (ps_Phase s))
     \<and> (\<forall>r \<in> set (db_Repairs db). row_ok db (pr_Key r) (pr_Phase r) \<and> pr_Phase r \<noteq> [])"

lemma columns_inj: "columns k p = columns l q \<longleftrightarrow> k = l \<and> p = q"
  by (cases k; cases l) (auto simp: columns_def)

lemma trim_key_idem [simp]: "trim_key (trim_key k) = trim_key k"
  by (simp add: trim_key_def)

lemma phase_key_ok_trim [simp]: "phase_key_ok (trim_key k) = phase_key_ok k"
  by (simp add: phase_key_ok_def trim_key_def)

lemma state_row_simps [simp]:
  "ps_Key (state_row c s) = trim_key (ps_Key s)" "ps_Phase (state_row c s) = trim_space (ps_Phase s)"
  by (simp_all add: state_row_def Let_def)

lemma repair_row_simps [simp]:
  "pr_Key (repair_row c r) = trim_key (pr_Key r)" "pr_Phase (repair_row c r) = trim_space (pr_Phase r)"
  "pr_Attempts (repair_row c r) = pr_Attempts r"
  by (simp_all add: repair_row_def Let_def)

lemma merge_state_simps [simp]:
  "state_key (merge_state t r) = state_key t" "ps_Key (merge_state t r) = ps_Key t"
  "ps_Phase (merge_state t r) = ps_Phase t"
  by (simp_all add: merge_state_def state_key_def)

lemma merge_repair_simps [simp]:
  "repair_key (merge_repair t r) = repair_key t" "pr_Key (merge_repair t r) = pr_Key t"
  "pr_Phase (merge_repair t r) = pr_Phase t"
  by (simp_all add: merge_repair_def repair_key_def)

text \<open>The two outcomes of a batch.\<close>

lemma upsert_state_batch_cases:
  assumes "upsert_state_batch clock batch db = (e, db')"
  obtains (failed) f where "e = Some f" and "db' = db"
  | (written) tab where "e = None" and "db' = db\<lparr>db_States := tab\<rparr>"
      and "tab = fold (upsert_row state_key merge_state) (map (state_row clock) batch) (db_States db)"
      and "\<forall>s \<in> set batch. phase_key_ok (ps_Key s) \<and> references_ok db (trim_key (ps_Key s))"
      and "distinct (map (state_key \<circ> state_row clock) batch)"
  using assms
  by (auto simp: upsert_state_batch_def Let_def upsert_batch_def first_err_map_None validate_iffs
      list_all_iff split: option.splits if_splits sum.splits)

lemma enqueue_batch_cases:
  assumes "enqueue_batch clock batch db = (e, db')"
  obtains (failed) f where "e = Some f" and "db' = db"
  | (written) tab where "e = None" and "db' = db\<lparr>db_Repairs := tab\<rparr>"
      and "tab = fold (upsert_row repair_key merge_repair) (map (repair_row clock) batch) (db_Repairs db)"
      and "\<forall>r \<in> set batch. phase_key_ok (pr_Key r) \<and> \<not> blank (pr_Phase r) \<and> references_ok db (trim_key (pr_Key r))"
  using assms
  by (auto simp: enqueue_batch_def Let_def upsert_batch_def first_err_map_None validate_iffs
      list_all_iff split: option.splits if_splits sum.splits)

lemma upsert_state_batch_ok:
  "upsert_state_batch clock batch db = (e, db') \<Longrightarrow> phase_db_ok db \<Longrightarrow> phase_db_ok db'"
proof (erule upsert_state_batch_cases)
  fix tab
  assume ok: "phase_db_ok db" and db': "db' = db\<lparr>db_States := tab\<rparr>"
    and tab: "tab = fold (upsert_row state_key merge_state) (map (state_row clock) batch) (db_States db)"
    and batch: "\<forall>s \<in> set batch. phase_key_ok (ps_Key s) \<and> references_ok db (trim_key (ps_Key s))"
  have "distinct (map state_key tab)"
    unfolding tab using ok by (intro upsert_rows_distinct) (simp_all add: phase_db_ok_def)
  moreover have "\<forall>s \<in> set tab. row_ok db (ps_Key s) (ps_Phase s)"
    unfolding tab using ok batch
    by (intro upsert_rows_all) (auto simp: phase_db_ok_def row_ok_def trimmed_key_def)
  ultimately show "phase_db_ok db'"
    using ok by (simp add: db' phase_db_ok_def row_ok_def references_ok_def)
qed simp

lemma enqueue_batch_ok:
  "enqueue_batch clock batch db = (e, db') \<Longrightarrow> phase_db_ok db \<Longrightarrow> phase_db_ok db'"
proof (erule enqueue_batch_cases)
  fix tab
  assume ok: "phase_db_ok db" and db': "db' = db\<lparr>db_Repairs := tab\<rparr>"
    and tab: "tab = fold (upsert_row repair_key merge_repair) (map (repair_row clock) batch) (db_Repairs db)"
    and batch: "\<forall>r \<in> set batch. phase_key_ok (pr_Key r) \<and> \<not> blank (pr_Phase r) \<and> references_ok db (trim_key (pr_Key r))"
  have "distinct (map repair_key tab)"
    unfolding tab using ok by (intro upsert_rows_distinct) (simp_all add: phase_db_ok_def)
  moreover have "\<forall>r \<in> set tab. row_ok db (pr_Key r) (pr_Phase r) \<and> pr_Phase r \<noteq> []"
    unfolding tab using ok batch
    by (intro upsert_rows_all) (auto simp: phase_db_ok_def row_ok_def trimmed_key_def blank_def)
  ultimately show "phase_db_ok db'"
    using ok by (simp add: db' phase_db_ok_def row_ok_def references_ok_def)
qed simp

lemma delete_batch_ok: "delete_batch batch db = (e, db') \<Longrightarrow> phase_db_ok db \<Longrightarrow> phase_db_ok db'"
  by (auto simp: delete_batch_def phase_db_ok_def row_ok_def references_ok_def
      split: option.splits intro: distinct_map_filter)

lemma mark_failed_ok:
  assumes "RepairQueue_MarkFailed clock r t err db = (e, db')" and "phase_db_ok db"
  shows "phase_db_ok db'"
proof -
  have keys: "repair_key (s\<lparr>pr_NextAttemptAt := a, pr_LastError := b, pr_UpdatedAt := c, pr_Attempts := d\<rparr>) = repair_key s"
    for s a b c d by (simp add: repair_key_def)
  have "map repair_key (map (\<lambda>s. if P s then s\<lparr>pr_NextAttemptAt := a, pr_LastError := b,
      pr_UpdatedAt := c, pr_Attempts := pr_Attempts s + 1\<rparr> else s) rs) = map repair_key rs" for P a b c rs
    by (simp add: keys)
  with assms show ?thesis
    by (auto simp: RepairQueue_MarkFailed_def Let_def phase_db_ok_def row_ok_def references_ok_def
        simp del: map_map split: option.splits if_splits)
qed

text \<open>What clients may do to the tables, in any order.\<close>

inductive phase_step :: "PhaseDb \<Rightarrow> PhaseDb \<Rightarrow> bool" where
  "StateStore_Upsert clock rows db = (e, db') \<Longrightarrow> phase_step db db'"
| "RepairQueue_Enqueue clock repairs db = (e, db') \<Longrightarrow> phase_step db db'"
| "RepairQueue_Delete repairs db = (e, db') \<Longrightarrow> phase_step db db'"
| "RepairQueue_MarkFailed clock r t err db = (e, db') \<Longrightarrow> phase_step db db'"

lemma phase_step_ok: "phase_step db db' \<Longrightarrow> phase_db_ok db \<Longrightarrow> phase_db_ok db'"
proof (induction rule: phase_step.induct)
  case (1 clock rows db e db')
  then show ?case
    using exec_batches_invariant [of "upsert_state_batch clock" phase_db_ok] upsert_state_batch_ok
    by (metis StateStore_Upsert_def)
next
  case (2 clock repairs db e db')
  then show ?case
    using exec_batches_invariant [of "enqueue_batch clock" phase_db_ok] enqueue_batch_ok
    by (metis RepairQueue_Enqueue_def)
next
  case (3 repairs db e db')
  then show ?case
    using exec_batches_invariant [of delete_batch phase_db_ok] delete_batch_ok
    by (metis RepairQueue_Delete_def)
next
  case (4 clock r t err db e db')
  then show ?case by (rule mark_failed_ok)
qed

interpretation phase_db: preserved phase_step phase_db_ok
  by unfold_locales (rule phase_step_ok)

section \<open>Publishing and looking up\<close>

definition phase_found :: "PhaseDb \<Rightarrow> row_key \<Rightarrow> bool" where
  "phase_found db k \<longleftrightarrow> k \<in> set (map state_key (db_States db))"

lemma Lookup_found: "StateStore_Lookup db k p = (phase_found db (columns k p), phase_found db (columns k p))"
  by (simp add: StateStore_Lookup_def phase_found_def)

lemma upsert_state_batch_found:
  assumes "upsert_state_batch clock batch db = (e, db')"
  shows "phase_found db k \<Longrightarrow> phase_found db' k"
    and "e = None \<Longrightarrow> s \<in> set batch \<Longrightarrow> phase_found db' (columns (trim_key (ps_Key s)) (trim_space (ps_Phase s)))"
proof -
  have keys: "set (map state_key (fold (upsert_row state_key merge_state) rows tab))
      = set (map state_key tab) \<union> set (map state_key rows)" for rows tab
    by (rule upsert_rows_keys) simp
  show "phase_found db k \<Longrightarrow> phase_found db' k"
    using assms by (cases rule: upsert_state_batch_cases) (auto simp: phase_found_def keys simp del: set_map)
  assume "e = None" and s: "s \<in> set batch"
  with assms have "set (map state_key (db_States db')) =
      set (map state_key (db_States db)) \<union> set (map state_key (map (state_row clock) batch))"
    by (cases rule: upsert_state_batch_cases) (simp_all add: keys del: set_map)
  with s show "phase_found db' (columns (trim_key (ps_Key s)) (trim_space (ps_Phase s)))"
    by (auto simp: phase_found_def state_key_def)
qed

text \<open>
  A publication that returns no error is found by every later lookup of its trimmed key
  and phase, however many batches it took, and no publication, failed or not, hides a phase that
  was found before.
\<close>

theorem published_phase_found:
  assumes "StateStore_Upsert clock rows db = (e, db')"
  shows "(e = None \<and> s \<in> set rows \<longrightarrow>
       StateStore_Lookup db' (trim_key (ps_Key s)) (trim_space (ps_Phase s)) = (True, True))
     \<and> (StateStore_Lookup db k p = (True, True) \<longrightarrow> StateStore_Lookup db' k p = (True, True))"
proof -
  let ?Q = "\<lambda>s db. phase_found db (columns (trim_key (ps_Key s)) (trim_space (ps_Phase s)))"
  have run: "exec_batches 250 (upsert_state_batch clock) rows db = (e, db')"
    using assms by (simp add: StateStore_Upsert_def graphProjectionPhaseStateBatchSize_def)
  have "?Q s db'" if "e = None" "s \<in> set rows"
    using exec_batches_achieves [where Q = ?Q and exec = "upsert_state_batch clock" and n = 250]
      upsert_state_batch_found run that by (metis zero_less_numeral)
  moreover have "phase_found db' (columns k p)" if "phase_found db (columns k p)"
    using exec_batches_invariant [where P = "\<lambda>d. phase_found d (columns k p)", OF _ run that]
      upsert_state_batch_found(1) by blast
  ultimately show ?thesis by (auto simp: Lookup_found)
qed

definition example_key :: PhaseKey where
  "example_key = \<lparr>pk_ScopeID = ''a'', pk_AcceptanceUnitID = ''b|c'', pk_SourceRunID = ''g'',
     pk_GenerationID = ''g'', pk_Keyspace = ''service_uid''\<rparr>"

definition example_state :: PhaseState where
  "example_state = \<lparr>ps_Key = example_key, ps_Phase = ''deployment_mapping'', ps_CommittedAt = 1, ps_UpdatedAt = 1\<rparr>"

definition example_db :: PhaseDb where
  "example_db = \<lparr>db_Scopes = [''a''], db_Generations = [''g''], db_States = [], db_Repairs = []\<rparr>"

lemma trim_ascii: "solid s \<Longrightarrow> trim_space s = s" by (rule trim_space_solid)

lemma example_key_trim: "trim_key example_key = example_key" "phase_key_ok example_key"
  "trim_space ''deployment_mapping'' = ''deployment_mapping''"
  by (simp_all add: trim_key_def example_key_def phase_key_ok_def trim_ascii solid_simps)

lemma example_key_valid: "PhaseKey_Validate example_key = None"
  using example_key_trim(2) by (simp add: validate_iffs)

lemma example_published:
  "StateStore_Upsert 5 [example_state] example_db = (None, example_db\<lparr>db_States := [example_state]\<rparr>)"
proof -
  have refs: "references_ok example_db example_key" "example_db\<lparr>db_States := []\<rparr> = example_db"
    by (simp_all add: references_ok_def example_db_def example_key_def)
  have "upsert_state_batch 5 [example_state] example_db = (None, example_db\<lparr>db_States := [example_state]\<rparr>)"
    using example_key_trim example_key_valid refs
    by (simp add: upsert_state_batch_def example_state_def state_row_def Let_def is_zero_def
        upsert_batch_def upsert_row_def)
      (simp add: example_db_def)
  then show ?thesis
    by (simp add: StateStore_Upsert_def graphProjectionPhaseStateBatchSize_def exec_batches.simps [of 250 _ "[example_state]"])
qed

lemma published_phase_found_witness:
  "\<exists>db'. StateStore_Upsert 5 [example_state] example_db = (None, db')
     \<and> StateStore_Lookup db' example_key ''deployment_mapping'' = (True, True)"
  using published_phase_found [OF example_published, of example_state] example_published example_key_trim
  by (simp add: example_state_def)

text \<open>
  Publication trims the key's fields but the lookup compares them as given: a key with a
  padded scope is published without error and the lookup of that same key still finds nothing.
\<close>

theorem padded_key_never_found:
  "\<exists>db s db'. StateStore_Publish 5 db [s] = (None, db')
     \<and> StateStore_Lookup db' (ps_Key s) (ps_Phase s) = (False, False)"
proof -
  let ?s = "example_state\<lparr>ps_Key := example_key\<lparr>pk_ScopeID := '' a''\<rparr>\<rparr>"
  have a: "trim_space '' a'' = ''a''" by code_simp
  then have nb: "\<not> blank '' a''" by (simp add: blank_def)
  have "trim_key (example_key\<lparr>pk_ScopeID := '' a''\<rparr>) = example_key"
    using example_key_trim(1) a by (simp add: trim_key_def example_key_def)
  moreover have "PhaseKey_Validate (example_key\<lparr>pk_ScopeID := '' a''\<rparr>) = None"
    using example_key_trim(2) nb by (simp add: validate_iffs phase_key_ok_def example_key_def)
  moreover have "references_ok example_db example_key"
    by (simp add: references_ok_def example_db_def example_key_def)
  ultimately have "upsert_state_batch 5 [?s] example_db = (None, example_db\<lparr>db_States := [example_state]\<rparr>)"
    using example_key_trim(3)
    by (simp add: upsert_state_batch_def example_state_def state_row_def Let_def is_zero_def
        upsert_batch_def upsert_row_def)
      (simp add: example_db_def)
  then have "StateStore_Publish 5 example_db [?s] = (None, example_db\<lparr>db_States := [example_state]\<rparr>)"
    by (simp add: StateStore_Publish_def StateStore_Upsert_def graphProjectionPhaseStateBatchSize_def
        exec_batches.simps [of 250 _ "[_]"])
  moreover have "StateStore_Lookup (example_db\<lparr>db_States := [example_state]\<rparr>) (ps_Key ?s) (ps_Phase ?s) = (False, False)"
    by (simp add: StateStore_Lookup_def state_key_def columns_def example_state_def example_key_def)
  ultimately show ?thesis by blast
qed

section \<open>Prefetching\<close>

definition bar_free :: "PhaseKey \<Rightarrow> GraphProjectionPhase \<Rightarrow> bool" where
  "bar_free k p \<longleftrightarrow> list_all (\<lambda>s. CHR ''|'' \<notin> set s)
     [pk_ScopeID k, pk_AcceptanceUnitID k, pk_SourceRunID k, pk_GenerationID k, pk_Keyspace k, p]"

lemma bar_split:
  "CHR ''|'' \<notin> set a \<Longrightarrow> CHR ''|'' \<notin> set b \<Longrightarrow> a @ CHR ''|'' # s = b @ CHR ''|'' # t \<longleftrightarrow> a = b \<and> s = t"
proof (induction a arbitrary: b)
  case Nil
  then show ?case by (cases b) auto
next
  case (Cons x a)
  then show ?case by (cases b) auto
qed

lemma compositeKey_inj:
  assumes "bar_free k p" and "bar_free l q" and "trimmed_key k" and "trimmed_key l"
    and "trim_space p = p" and "trim_space q = q"
  shows "compositeKey k p = compositeKey l q \<longleftrightarrow> k = l \<and> p = q"
  using assms
  by (cases k; cases l)
    (auto simp: compositeKey_def bar_free_def trimmed_key_def trim_key_def bar_split)

lemma prefetch_spec:
  assumes "trim_space p = p" and "\<forall>k \<in> set keys. trimmed_key k \<and> bar_free k p"
    and "trimmed_key k" and "bar_free k p"
    and "\<forall>c v. map_of m c = Some v \<longrightarrow> v"
  shows "map_of (prefetch db keys p m) (compositeKey k p) =
     (if k \<in> set keys \<and> phase_key_ok k \<and> phase_found db (columns k p) then Some True
      else map_of m (compositeKey k p))"
  using assms(2,5)
proof (induction keys arbitrary: m)
  case Nil
  then show ?case by simp
next
  case (Cons l keys)
  have same: "compositeKey l p = compositeKey k p \<longleftrightarrow> l = k"
    using Cons.prems(1) assms(1,3,4) compositeKey_inj [of l p k p] by simp
  have seen: "map_of m (compositeKey k p) = Some True" if "map_of m (compositeKey k p) \<noteq> None"
    using that Cons.prems(2) by (cases "map_of m (compositeKey k p)") auto
  have m': "\<forall>c v. map_of ((compositeKey l p, True) # m) c = Some v \<longrightarrow> v"
    using Cons.prems(2) by auto
  have keys: "\<forall>k \<in> set keys. trimmed_key k \<and> bar_free k p" using Cons.prems(1) by simp
  show ?case
    using Cons.IH [OF keys Cons.prems(2)] Cons.IH [OF keys m'] same seen
    by (auto simp: Lookup_found validate_iffs)
qed

text \<open>
  For trimmed keys and phases whose fields contain no \<open>|\<close>, the closure built by one
  prefetch answers exactly as a direct lookup would for every valid prefetched key, and
  not-found for every other key.
\<close>

theorem prefetch_agrees:
  assumes "trim_space p = p" and "\<forall>k \<in> set keys. trimmed_key k \<and> bar_free k p"
    and "trimmed_key k" and "bar_free k p"
  shows "ReadinessPrefetch db keys p k p =
     (if k \<in> set keys \<and> PhaseKey_Validate k = None then StateStore_Lookup db k p else (False, False))"
  using prefetch_spec [OF assms, of "[]" db]
  by (simp add: ReadinessPrefetch_def Lookup_found validate_iffs)

lemma prefetch_agrees_witness:
  "\<exists>k p db. ReadinessPrefetch db [k] p k p = StateStore_Lookup db k p \<and> StateStore_Lookup db k p = (True, True)"
proof -
  let ?k = "example_key\<lparr>pk_AcceptanceUnitID := ''b''\<rparr>" and ?p = "''deployment_mapping''"
  let ?db = "example_db\<lparr>db_States := [example_state\<lparr>ps_Key := ?k\<rparr>]\<rparr>"
  have k: "trimmed_key ?k" "bar_free ?k ?p" "PhaseKey_Validate ?k = None"
    by (simp_all add: trimmed_key_def trim_key_def example_key_def trim_ascii solid_simps bar_free_def
        validate_iffs phase_key_ok_def)
  have "ReadinessPrefetch ?db [?k] ?p ?k ?p = StateStore_Lookup ?db ?k ?p"
    using prefetch_agrees [of ?p "[?k]" ?k ?db] k example_key_trim(3) by simp
  moreover have "StateStore_Lookup ?db ?k ?p = (True, True)"
    by (simp add: StateStore_Lookup_def state_key_def example_state_def)
  ultimately show ?thesis by blast
qed

text \<open>
  Without that restriction the prefetch is unsound: the joined keys of two distinct valid
  keys collide, so a key for which nothing was ever published is reported ready because another
  key was prefetched.
\<close>

theorem prefetch_collision:
  "\<exists>db k l p. PhaseKey_Validate k = None \<and> PhaseKey_Validate l = None
     \<and> StateStore_Lookup db l p = (False, False)
     \<and> ReadinessPrefetch db [k, l] p l p = (True, True)"
proof -
  let ?l = "example_key\<lparr>pk_ScopeID := ''a|b'', pk_AcceptanceUnitID := ''c''\<rparr>"
  let ?p = "''deployment_mapping''"
  let ?db = "example_db\<lparr>db_States := [example_state]\<rparr>"
  have valid: "PhaseKey_Validate example_key = None" "PhaseKey_Validate ?l = None"
    by (simp_all add: validate_iffs phase_key_ok_def example_key_def solid_simps)
  have same: "compositeKey ?l ?p = compositeKey example_key ?p"
    by (simp add: compositeKey_def example_key_def trim_ascii solid_simps)
  have look: "StateStore_Lookup ?db ?l ?p = (False, False)" "StateStore_Lookup ?db example_key ?p = (True, True)"
    by (simp_all add: StateStore_Lookup_def state_key_def columns_def example_state_def example_key_def)
  have "ReadinessPrefetch ?db [example_key, ?l] ?p ?l ?p = (True, True)"
    using valid same look by (simp add: ReadinessPrefetch_def Let_def)
  with valid look show ?thesis by blast
qed

end
