(* ===== verification/RepairRunner.thy ===== *)
theory RepairRunner
  imports PhaseStore
begin

text \<open>
  \<open>go/internal/reducer/graph_projection_phase_repair_runner.go\<close>: the loop that drains the repair
  queue and republishes the readiness rows whose generation is still the accepted one.
  The runner only sees four interfaces. They are functions on a world of type \<open>'w\<close> (a nil
  interface is \<open>None\<close>); the locale \<open>repair_world\<close> states the laws their providers promise, the
  runner's guarantees are proved in it, and the tables of \<open>PhaseStore\<close> interpret it. Logging and
  metrics are left out.
\<close>

section \<open>Configuration\<close>

record RepairerConfig =
  rc_PollInterval :: duration
  rc_BatchLimit :: int
  rc_RetryDelay :: duration

definition pollInterval :: "RepairerConfig \<Rightarrow> duration" where
  "pollInterval c = (if rc_PollInterval c \<le> 0 then seconds 1 else rc_PollInterval c)"

definition batchLimit :: "RepairerConfig \<Rightarrow> int" where
  "batchLimit c = (if rc_BatchLimit c \<le> 0 then 100 else rc_BatchLimit c)"

definition retryDelay :: "RepairerConfig \<Rightarrow> duration" where
  "retryDelay c = (if rc_RetryDelay c \<le> 0 then seconds 60 else rc_RetryDelay c)"

definition maxRepairPollInterval :: duration where
  "maxRepairPollInterval = seconds 5"

text \<open>\<open>backoff *= 2\<close> is a 64-bit multiplication.\<close>

fun double_backoff :: "nat \<Rightarrow> duration \<Rightarrow> duration" where
  "double_backoff 0 b = b"
| "double_backoff (Suc n) b = double_backoff n (wrap64 (b * 2))"

definition repairBackoff :: "duration \<Rightarrow> int \<Rightarrow> duration" where
  "repairBackoff base consecutiveEmpty =
     (let backoff = double_backoff (nat (min consecutiveEmpty 4 - 1)) base
      in if maxRepairPollInterval < backoff then maxRepairPollInterval else backoff)"

section \<open>The runner\<close>

record 'w RepairQueue =
  q_ListDue :: "'w \<Rightarrow> time \<Rightarrow> int \<Rightarrow> PhaseRepair list result"
  q_Delete :: "'w \<Rightarrow> PhaseRepair list \<Rightarrow> error option \<times> 'w"
  q_MarkFailed :: "'w \<Rightarrow> PhaseRepair \<Rightarrow> time \<Rightarrow> error \<Rightarrow> error option \<times> 'w"

record 'w Repairer =
  rp_Queue :: "'w RepairQueue option"
  rp_AcceptedGen :: "('w \<Rightarrow> AcceptanceKey \<Rightarrow> string option) option"
  rp_StateLookup :: "('w \<Rightarrow> PhaseKey \<Rightarrow> GraphProjectionPhase \<Rightarrow> (bool \<times> bool) result) option"
  rp_Publisher :: "'w Publisher option"
  rp_Config :: RepairerConfig

definition Repairer_validate :: "'w Repairer \<Rightarrow> error option" where
  "Repairer_validate r = first_err
     [check (rp_Queue r = None) (Msg ''graph projection repairer: queue is required''),
      check (rp_AcceptedGen r = None)
        (Msg ''graph projection repairer: accepted generation lookup is required''),
      check (rp_StateLookup r = None) (Msg ''graph projection repairer: state lookup is required''),
      check (rp_Publisher r = None) (Msg ''graph projection repairer: publisher is required'')]"

definition acceptance_key :: "PhaseRepair \<Rightarrow> AcceptanceKey" where
  "acceptance_key r = \<lparr>ak_ScopeID = pk_ScopeID (pr_Key r),
     ak_AcceptanceUnitID = pk_AcceptanceUnitID (pr_Key r), ak_SourceRunID = pk_SourceRunID (pr_Key r)\<rparr>"

text \<open>One repair: the error that ends the cycle, whether a row was republished, the world.\<close>

definition repair_one ::
  "'w RepairQueue \<Rightarrow> ('w \<Rightarrow> AcceptanceKey \<Rightarrow> string option)
     \<Rightarrow> ('w \<Rightarrow> PhaseKey \<Rightarrow> GraphProjectionPhase \<Rightarrow> (bool \<times> bool) result) \<Rightarrow> 'w Publisher
     \<Rightarrow> duration \<Rightarrow> time \<Rightarrow> PhaseRepair \<Rightarrow> 'w \<Rightarrow> error option \<times> bool \<times> 'w" where
  "repair_one q accepted look publish delay now r w =
     (case PhaseRepair_Validate r of
        Some e \<Rightarrow> (Some (Wrap ''validate graph projection repair'' e), False, w)
      | None \<Rightarrow>
     (case look w (pr_Key r) (pr_Phase r) of
        Inl e \<Rightarrow> (Some (Wrap ''lookup graph projection phase state'' e), False, w)
      | Inr (ready, found) \<Rightarrow>
          if found \<and> ready then
            (case q_Delete q w [r] of
               (Some e, w') \<Rightarrow> (Some (Wrap ''delete already-repaired graph projection row'' e), False, w')
             | (None, w') \<Rightarrow> (None, False, w'))
          else if accepted w (acceptance_key r) \<noteq> Some (pk_GenerationID (pr_Key r)) then
            (case q_Delete q w [r] of
               (Some e, w') \<Rightarrow> (Some (Wrap ''delete stale graph projection repair row'' e), False, w')
             | (None, w') \<Rightarrow> (None, False, w'))
          else
            (let state = \<lparr>ps_Key = pr_Key r, ps_Phase = pr_Phase r, ps_CommittedAt = pr_CommittedAt r,
                          ps_UpdatedAt = utc now\<rparr>
             in case publish w [state] of
                  (Some err, w') \<Rightarrow>
                    (case q_MarkFailed q w' r (utc (now + delay)) err of
                       (Some e, w'') \<Rightarrow> (Some (Wrap ''mark graph projection repair failed'' e), False, w'')
                     | (None, w'') \<Rightarrow> (None, False, w''))
                | (None, w') \<Rightarrow>
                    (case q_Delete q w' [r] of
                       (Some e, w'') \<Rightarrow> (Some (Wrap ''delete repaired graph projection row'' e), False, w'')
                     | (None, w'') \<Rightarrow> (None, True, w'')))))"

fun repair_each ::
  "'w RepairQueue \<Rightarrow> ('w \<Rightarrow> AcceptanceKey \<Rightarrow> string option)
     \<Rightarrow> ('w \<Rightarrow> PhaseKey \<Rightarrow> GraphProjectionPhase \<Rightarrow> (bool \<times> bool) result) \<Rightarrow> 'w Publisher
     \<Rightarrow> duration \<Rightarrow> time \<Rightarrow> PhaseRepair list \<Rightarrow> nat \<Rightarrow> 'w \<Rightarrow> nat \<times> error option \<times> 'w" where
  "repair_each q accepted look publish delay now [] n w = (n, None, w)"
| "repair_each q accepted look publish delay now (r # rs) n w =
     (case repair_one q accepted look publish delay now r w of
        (Some e, _, w') \<Rightarrow> (n, Some e, w')
      | (None, repaired, w') \<Rightarrow>
          repair_each q accepted look publish delay now rs (if repaired then n + 1 else n) w')"

definition Repairer_RunOnce :: "'w Repairer \<Rightarrow> 'w \<Rightarrow> time \<Rightarrow> nat \<times> error option \<times> 'w" where
  "Repairer_RunOnce r w now =
     (case Repairer_validate r of
        Some e \<Rightarrow> (0, Some e, w)
      | None \<Rightarrow>
          (let q = the (rp_Queue r) in
           case q_ListDue q w now (batchLimit (rp_Config r)) of
             Inl e \<Rightarrow> (0, Some (Wrap ''list due graph projection repairs'' e), w)
           | Inr repairs \<Rightarrow>
               repair_each q (the (rp_AcceptedGen r)) (the (rp_StateLookup r)) (the (rp_Publisher r))
                 (retryDelay (rp_Config r)) now repairs 0 w))"

text \<open>
  \<open>Run\<close>: the context, the clock and the wait are arguments. The loop ends only when the context
  is cancelled or the wait fails, so it recurses on fuel; \<open>None\<close> says the fuel was too little.
\<close>

record 'w RunEnv =
  re_cancelled :: "'w \<Rightarrow> bool"
  re_now :: "'w \<Rightarrow> time \<times> 'w"
  re_wait :: "'w \<Rightarrow> duration \<Rightarrow> error option \<times> 'w"
  re_isContextError :: "error \<Rightarrow> bool"

fun run_cycles :: "nat \<Rightarrow> 'w RunEnv \<Rightarrow> 'w Repairer \<Rightarrow> int \<Rightarrow> 'w \<Rightarrow> (error option \<times> 'w) option" where
  "run_cycles 0 env r consecutiveEmpty w = None"
| "run_cycles (Suc fuel) env r consecutiveEmpty w =
     (if re_cancelled env w then Some (None, w)
      else
        (case re_now env w of (startedAt, w) \<Rightarrow>
         case Repairer_RunOnce r w (utc startedAt) of (repaired, err, w) \<Rightarrow>
           if err = None \<and> 0 < repaired then run_cycles fuel env r 0 w
           else
             (case re_wait env w (repairBackoff (pollInterval (rp_Config r)) (consecutiveEmpty + 1)) of
                (Some e, w) \<Rightarrow>
                  if re_isContextError env e \<or> re_cancelled env w then Some (None, w)
                  else Some (Some (Wrap ''wait for graph projection repair work'' e), w)
              | (None, w) \<Rightarrow> run_cycles fuel env r (consecutiveEmpty + 1) w)))"

definition Repairer_Run :: "nat \<Rightarrow> 'w RunEnv \<Rightarrow> 'w Repairer \<Rightarrow> 'w \<Rightarrow> (error option \<times> 'w) option" where
  "Repairer_Run fuel env r w =
     (case Repairer_validate r of
        Some e \<Rightarrow> Some (Some e, w)
      | None \<Rightarrow> run_cycles fuel env r 0 w)"

section \<open>What the providers promise\<close>

definition published_key :: "PhaseState \<Rightarrow> row_key" where
  "published_key s = columns (trim_key (ps_Key s)) (trim_space (ps_Phase s))"

locale repair_world =
  fixes q :: "'w RepairQueue"
    and accepted :: "'w \<Rightarrow> AcceptanceKey \<Rightarrow> string option"
    and look :: "'w \<Rightarrow> PhaseKey \<Rightarrow> GraphProjectionPhase \<Rightarrow> (bool \<times> bool) result"
    and publish :: "'w Publisher"
    and inv :: "'w \<Rightarrow> bool"
    and queued :: "'w \<Rightarrow> row_key set"
    and published :: "'w \<Rightarrow> row_key set"
  assumes listed: "inv w \<Longrightarrow> q_ListDue q w now n = Inr rs \<Longrightarrow> r \<in> set rs \<Longrightarrow> repair_columns r \<in> queued w"
    and delete: "inv w \<Longrightarrow> q_Delete q w [r] = (e, w') \<Longrightarrow>
      inv w' \<and> published w' = published w \<and> accepted w' = accepted w
      \<and> queued w' = (if e = None then queued w - {repair_columns r} else queued w)"
    and mark: "inv w \<Longrightarrow> q_MarkFailed q w r t err = (e, w') \<Longrightarrow>
      inv w' \<and> published w' = published w \<and> accepted w' = accepted w \<and> queued w' = queued w"
    and publish: "inv w \<Longrightarrow> publish w [s] = (e, w') \<Longrightarrow>
      inv w' \<and> accepted w' = accepted w \<and> queued w' = queued w
      \<and> published w' = (if e = None then insert (published_key s) (published w) else published w)"
    and look: "inv w \<Longrightarrow> look w (pr_Key r) (pr_Phase r) = Inr (True, True) \<Longrightarrow> repair_columns r \<in> published w"
begin

definition current :: "'w \<Rightarrow> PhaseRepair \<Rightarrow> bool" where
  "current w r \<longleftrightarrow> accepted w (acceptance_key r) = Some (pk_GenerationID (pr_Key r))"

text \<open>
  What a cycle over the repairs \<open>rs\<close> may change: it publishes only current repairs, and drops
  a repair only when its phase is published or its generation is no longer accepted.
\<close>

definition safe_change :: "PhaseRepair set \<Rightarrow> 'w \<Rightarrow> 'w \<Rightarrow> bool" where
  "safe_change rs w w' \<longleftrightarrow> inv w' \<and> accepted w' = accepted w
     \<and> published w \<subseteq> published w' \<and> queued w' \<subseteq> queued w
     \<and> published w' - published w \<subseteq> repair_columns ` {r \<in> rs. current w r}
     \<and> queued w - queued w' \<subseteq> published w' \<union> repair_columns ` {r \<in> rs. \<not> current w r}"

lemma safe_refl: "inv w \<Longrightarrow> safe_change rs w w"
  by (simp add: safe_change_def)

lemma safe_trans: "safe_change rs w w' \<Longrightarrow> safe_change rs w' w'' \<Longrightarrow> safe_change rs w w''"
  unfolding safe_change_def current_def by auto

lemma safe_mono: "safe_change rs w w' \<Longrightarrow> rs \<subseteq> ss \<Longrightarrow> safe_change ss w w'"
  unfolding safe_change_def by blast

lemma repair_one_safe:
  assumes "inv w" and "repair_one q accepted look publish d now r w = (e, b, w')"
  shows "safe_change {r} w w'"
proof -
  let ?s = "\<lparr>ps_Key = pr_Key r, ps_Phase = pr_Phase r, ps_CommittedAt = pr_CommittedAt r,
    ps_UpdatedAt = utc now\<rparr>"
  consider (unchanged) "w' = w"
    | (ready) f where "look w (pr_Key r) (pr_Phase r) = Inr (True, True)" and "q_Delete q w [r] = (f, w')"
    | (stale) f where "\<not> current w r" and "q_Delete q w [r] = (f, w')"
    | (refused) f g w1 where "publish w [?s] = (Some f, w1)" and "q_MarkFailed q w1 r (utc (now + d)) f = (g, w')"
    | (republished) f w1 where "current w r" and "publish w [?s] = (None, w1)" and "q_Delete q w1 [r] = (f, w')"
    using assms(2) unfolding repair_one_def current_def Let_def
    by (auto split: option.splits sum.splits prod.splits if_splits)
  then show ?thesis
  proof cases
    case unchanged
    with assms(1) show ?thesis by (simp add: safe_refl)
  next
    case ready
    from delete [OF assms(1) ready(2)] look [OF assms(1) ready(1)] show ?thesis
      by (auto simp: safe_change_def split: if_splits)
  next
    case stale
    from delete [OF assms(1) stale(2)] stale(1) show ?thesis
      by (auto simp: safe_change_def split: if_splits)
  next
    case refused
    from publish [OF assms(1) refused(1)] mark [OF _ refused(2)] show ?thesis
      by (auto simp: safe_change_def)
  next
    case republished
    from publish [OF assms(1) republished(2)] delete [OF _ republished(3)] republished(1) show ?thesis
      by (auto simp: safe_change_def published_key_def repair_columns_def split: if_splits)
  qed
qed

lemma repair_each_safe:
  assumes "inv w" and "repair_each q accepted look publish d now rs n w = (m, e, w')"
  shows "safe_change (set rs) w w' \<and> n \<le> m \<and> m \<le> n + length rs"
  using assms
proof (induction rs arbitrary: n w)
  case Nil
  then show ?case by (simp add: safe_refl)
next
  case (Cons r rs)
  obtain e1 b w1 where one: "repair_one q accepted look publish d now r w = (e1, b, w1)"
    by (metis prod_cases3)
  have s1: "safe_change (set (r # rs)) w w1"
    by (rule safe_mono [OF repair_one_safe [OF Cons.prems(1) one]]) simp
  then have "inv w1" by (simp add: safe_change_def)
  show ?case
  proof (cases e1)
    case None
    with Cons.prems(2) one
    have "repair_each q accepted look publish d now rs (if b then n + 1 else n) w1 = (m, e, w')" by simp
    from Cons.IH [OF \<open>inv w1\<close> this] safe_mono [of "set rs" w1 w' "set (r # rs)"] safe_trans [OF s1, of w']
    show ?thesis by (auto split: if_splits)
  next
    case (Some f)
    with Cons.prems(2) one s1 show ?thesis by simp
  qed
qed

lemma run_once_safe:
  assumes "inv w" and "Repairer_RunOnce \<lparr>rp_Queue = Some q, rp_AcceptedGen = Some accepted,
      rp_StateLookup = Some look, rp_Publisher = Some publish, rp_Config = c\<rparr> w now = (m, e, w')"
  shows "\<exists>rs. (rs = [] \<or> q_ListDue q w now (batchLimit c) = Inr rs)
    \<and> repair_columns ` set rs \<subseteq> queued w \<and> safe_change (set rs) w w' \<and> m \<le> length rs"
proof (cases "q_ListDue q w now (batchLimit c)")
  case (Inl f)
  with assms have "w' = w" "m = 0" by (auto simp: Repairer_RunOnce_def Repairer_validate_def Let_def)
  with assms(1) show ?thesis by (intro exI [of _ "[]"]) (simp add: safe_refl)
next
  case (Inr rs)
  with assms(2) have "repair_each q accepted look publish (retryDelay c) now rs 0 w = (m, e, w')"
    by (auto simp: Repairer_RunOnce_def Repairer_validate_def Let_def)
  from repair_each_safe [OF assms(1) this] listed [OF assms(1) Inr] Inr
  show ?thesis by (intro exI [of _ rs]) auto
qed

end

section \<open>The tables as providers\<close>

definition store_queue :: "time \<Rightarrow> PhaseDb RepairQueue" where
  "store_queue clock = \<lparr>q_ListDue = (\<lambda>db now n. Inr (RepairQueue_ListDue db now n)),
     q_Delete = (\<lambda>db rs. RepairQueue_Delete rs db),
     q_MarkFailed = (\<lambda>db r t err. RepairQueue_MarkFailed clock r t err db)\<rparr>"

definition store_look :: "PhaseDb \<Rightarrow> PhaseKey \<Rightarrow> GraphProjectionPhase \<Rightarrow> (bool \<times> bool) result" where
  "store_look db k p = Inr (StateStore_Lookup db k p)"

definition store_repairer :: "time \<Rightarrow> (AcceptanceKey \<Rightarrow> string option) \<Rightarrow> RepairerConfig \<Rightarrow> PhaseDb Repairer" where
  "store_repairer clock acc c = \<lparr>rp_Queue = Some (store_queue clock), rp_AcceptedGen = Some (\<lambda>db. acc),
     rp_StateLookup = Some store_look, rp_Publisher = Some (StateStore_Publish clock), rp_Config = c\<rparr>"

definition queued_keys :: "PhaseDb \<Rightarrow> row_key set" where
  "queued_keys db = set (map repair_key (db_Repairs db))"

definition published_keys :: "PhaseDb \<Rightarrow> row_key set" where
  "published_keys db = set (map state_key (db_States db))"

lemma delete_one:
  "RepairQueue_Delete [r] db =
     (case PhaseRepair_Validate r of
        Some e \<Rightarrow> (Some (Wrap ''validate graph projection repair'' e), db)
      | None \<Rightarrow> (None, db\<lparr>db_Repairs := filter (\<lambda>t. repair_key t \<noteq> repair_columns r) (db_Repairs db)\<rparr>))"
  by (auto simp: RepairQueue_Delete_def graphProjectionPhaseRepairQueueBatchSize_def exec_batches_one
      delete_batch_def split: option.split)

lemma publish_one: "StateStore_Publish clock db [s] = upsert_state_batch clock [s] db"
  by (simp add: StateStore_Publish_def StateStore_Upsert_def graphProjectionPhaseStateBatchSize_def exec_batches_one)

lemma publish_one_keys:
  assumes "upsert_state_batch clock [s] db = (e, db')"
  shows "published_keys db' = (if e = None then insert (published_key s) (published_keys db) else published_keys db)"
    and "db_Repairs db' = db_Repairs db" and "db_Scopes db' = db_Scopes db" and "db_Generations db' = db_Generations db"
proof -
  have keys: "set (map state_key (upsert_row state_key merge_state r tab)) = insert (state_key r) (set (map state_key tab))"
    for r tab using upsert_rows_keys [of state_key merge_state "[r]" tab] by simp
  have "state_key (state_row clock s) = published_key s" by (simp add: state_key_def published_key_def)
  with assms show "published_keys db' = (if e = None then insert (published_key s) (published_keys db) else published_keys db)"
    by (cases rule: upsert_state_batch_cases) (simp_all add: published_keys_def keys del: set_map)
  show "db_Repairs db' = db_Repairs db" "db_Scopes db' = db_Scopes db" "db_Generations db' = db_Generations db"
    using assms by (cases rule: upsert_state_batch_cases; simp)+
qed

lemma trimmed_columns: "trimmed_key (pr_Key (r :: PhaseRepair)) \<Longrightarrow> trim_space (pr_Phase r) = pr_Phase r \<Longrightarrow> repair_columns r = repair_key r"
  by (simp add: repair_columns_def repair_key_def trimmed_key_def)

lemma listed_rows:
  assumes "r \<in> set (RepairQueue_ListDue db now n)"
  shows "\<exists>t \<in> set (db_Repairs db). r = t\<lparr>pr_UpdatedAt := 0\<rparr> \<and> pr_NextAttemptAt t \<le> now"
  using assms by (auto simp: RepairQueue_ListDue_def dest!: in_set_takeD split: if_splits)

lemma mark_failed_keys:
  assumes "RepairQueue_MarkFailed clock r t err db = (e, db')"
  shows "queued_keys db' = queued_keys db" and "db_States db' = db_States db"
proof -
  have "map repair_key (map (\<lambda>s. if P s then s\<lparr>pr_NextAttemptAt := a, pr_LastError := b,
      pr_UpdatedAt := c, pr_Attempts := pr_Attempts s + 1\<rparr> else s) rs) = map repair_key rs" for P a b c rs
    by (simp add: repair_key_def)
  with assms show "queued_keys db' = queued_keys db" and "db_States db' = db_States db"
    by (auto simp: RepairQueue_MarkFailed_def Let_def queued_keys_def simp del: map_map set_map
        split: option.splits if_splits)
qed

interpretation store_repair: repair_world "store_queue clock" "\<lambda>db. acc" store_look "StateStore_Publish clock"
  phase_db_ok queued_keys published_keys
proof
  fix w now n rs r
  assume "phase_db_ok w" and "q_ListDue (store_queue clock) w now n = Inr rs" and "r \<in> set rs"
  then obtain t where "t \<in> set (db_Repairs w)" "r = t\<lparr>pr_UpdatedAt := 0\<rparr>" "row_ok w (pr_Key t) (pr_Phase t)"
    by (auto simp: store_queue_def phase_db_ok_def dest!: listed_rows)
  then show "repair_columns r \<in> queued_keys w"
    by (auto simp: queued_keys_def row_ok_def repair_columns_def repair_key_def trimmed_key_def)
next
  fix w and r :: PhaseRepair and e w'
  assume ok: "phase_db_ok w" and "q_Delete (store_queue clock) w [r] = (e, w')"
  then have d: "RepairQueue_Delete [r] w = (e, w')" by (simp add: store_queue_def)
  from phase_step_ok [OF phase_step.intros(3) [OF d] ok] d
  show "phase_db_ok w' \<and> published_keys w' = published_keys w \<and> acc = acc
      \<and> queued_keys w' = (if e = None then queued_keys w - {repair_columns r} else queued_keys w)"
    by (auto simp: delete_one published_keys_def queued_keys_def split: option.splits)
next
  fix w r t err e w'
  assume ok: "phase_db_ok w" and "q_MarkFailed (store_queue clock) w r t err = (e, w')"
  then have m: "RepairQueue_MarkFailed clock r t err w = (e, w')" by (simp add: store_queue_def)
  from mark_failed_ok [OF m ok] mark_failed_keys [OF m]
  show "phase_db_ok w' \<and> published_keys w' = published_keys w \<and> acc = acc \<and> queued_keys w' = queued_keys w"
    by (simp add: published_keys_def)
next
  fix w s e w'
  assume ok: "phase_db_ok w" and "StateStore_Publish clock w [s] = (e, w')"
  then have p: "upsert_state_batch clock [s] w = (e, w')" by (simp add: publish_one)
  from upsert_state_batch_ok [OF p ok] publish_one_keys [OF p]
  show "phase_db_ok w' \<and> acc = acc \<and> queued_keys w' = queued_keys w
      \<and> published_keys w' = (if e = None then insert (published_key s) (published_keys w) else published_keys w)"
    by (simp add: queued_keys_def)
next
  fix w and r :: PhaseRepair
  assume ok: "phase_db_ok w" and "store_look w (pr_Key r) (pr_Phase r) = Inr (True, True)"
  then obtain s where "s \<in> set (db_States w)" "state_key s = columns (pr_Key r) (pr_Phase r)"
    by (auto simp: store_look_def StateStore_Lookup_def split: if_splits)
  with ok show "repair_columns r \<in> published_keys w"
    by (force simp: published_keys_def phase_db_ok_def row_ok_def state_key_def columns_inj
        repair_columns_def trimmed_key_def)
qed

section \<open>Properties\<close>

text \<open>
  A repair cycle never loses a readiness row: whatever it returns, every key that leaves
  the queue is published or belongs to a repair whose generation is no longer the accepted one,
  every key it publishes comes from a queued repair of the accepted generation, nothing published
  disappears and nothing is queued anew, and the tables stay well formed.
\<close>

theorem repair_never_lost:
  assumes "phase_db_ok db" and "Repairer_RunOnce (store_repairer clock acc c) db now = (m, e, db')"
  shows "phase_db_ok db' \<and> published_keys db \<subseteq> published_keys db' \<and> queued_keys db' \<subseteq> queued_keys db
     \<and> published_keys db' - published_keys db \<subseteq>
         repair_key ` {r \<in> set (db_Repairs db). acc (acceptance_key r) = Some (pk_GenerationID (pr_Key r))}
     \<and> queued_keys db - queued_keys db' \<subseteq> published_keys db' \<union>
         repair_key ` {r \<in> set (db_Repairs db). acc (acceptance_key r) \<noteq> Some (pk_GenerationID (pr_Key r))}"
proof -
  from store_repair.run_once_safe [OF assms(1) assms(2) [unfolded store_repairer_def]] obtain rs where
    rs: "rs = [] \<or> q_ListDue (store_queue clock) db now (batchLimit c) = Inr rs"
    and safe: "store_repair.safe_change acc (set rs) db db'"
    by auto
  have row: "\<exists>t \<in> set (db_Repairs db). repair_columns r = repair_key t \<and> acceptance_key r = acceptance_key t
      \<and> pr_Key r = pr_Key t" if "r \<in> set rs" for r
  proof -
    from that rs have "r \<in> set (RepairQueue_ListDue db now (batchLimit c))" by (auto simp: store_queue_def)
    then obtain t where t: "t \<in> set (db_Repairs db)" "r = t\<lparr>pr_UpdatedAt := 0\<rparr>" using listed_rows by blast
    with assms(1) have "row_ok db (pr_Key t) (pr_Phase t)" by (simp add: phase_db_ok_def)
    with t show ?thesis
      by (intro bexI [of _ t]) (simp_all add: row_ok_def repair_columns_def repair_key_def trimmed_key_def acceptance_key_def)
  qed
  have img: "repair_columns ` {r \<in> set rs. f (acceptance_key r) (pr_Key r)}
      \<subseteq> repair_key ` {t \<in> set (db_Repairs db). f (acceptance_key t) (pr_Key t)}" for f
  proof (rule subsetI)
    fix x assume "x \<in> repair_columns ` {r \<in> set rs. f (acceptance_key r) (pr_Key r)}"
    then obtain r where x: "x = repair_columns r" and "r \<in> set rs" and f: "f (acceptance_key r) (pr_Key r)"
      by auto
    with row obtain t where t: "t \<in> set (db_Repairs db)" "repair_columns r = repair_key t"
      "acceptance_key r = acceptance_key t" "pr_Key r = pr_Key t" by blast
    with f x show "x \<in> repair_key ` {t \<in> set (db_Repairs db). f (acceptance_key t) (pr_Key t)}"
      by (intro image_eqI [of _ _ t]) simp_all
  qed
  note safe' = safe [unfolded store_repair.safe_change_def store_repair.current_def]
  show ?thesis
    using safe' img [of "\<lambda>a k. acc a = Some (pk_GenerationID k)"]
      img [of "\<lambda>a k. acc a \<noteq> Some (pk_GenerationID k)"] by blast
qed

lemma repair_one_store:
  assumes ok: "phase_db_ok db" and r: "row_ok db (pr_Key r) (pr_Phase r)" "pr_Phase r \<noteq> []"
    and one: "repair_one (store_queue clock) (\<lambda>db. acc) store_look (StateStore_Publish clock) d now r db = (e, b, db')"
  shows "e = None" and "db_Repairs db' = filter (\<lambda>t. repair_key t \<noteq> repair_key r) (db_Repairs db)"
    and "db_Scopes db' = db_Scopes db" and "db_Generations db' = db_Generations db" and "phase_db_ok db'"
proof -
  let ?s = "\<lparr>ps_Key = pr_Key r, ps_Phase = pr_Phase r, ps_CommittedAt = pr_CommittedAt r, ps_UpdatedAt = utc now\<rparr>"
  have "\<not> blank (pr_Phase r)" using r by (simp add: row_ok_def blank_def)
  then have valid: "PhaseRepair_Validate r = None" using r(1) by (simp add: validate_iffs row_ok_def)
  have cols: "repair_columns r = repair_key r" using r(1) by (simp add: row_ok_def trimmed_columns)
  have del: "q_Delete (store_queue clock) w [r] =
      (None, w\<lparr>db_Repairs := filter (\<lambda>t. repair_key t \<noteq> repair_key r) (db_Repairs w)\<rparr>)" for w
    by (simp add: store_queue_def delete_one valid cols)
  have pub: "\<exists>w. StateStore_Publish clock db [?s] = (None, w)"
    using r(1)
    by (simp add: publish_one upsert_state_batch_def validate_iffs row_ok_def Let_def
        state_row_def trimmed_key_def upsert_batch_def check_None phase_keys.accepts_iff [THEN iffD2])
  then obtain w where w: "StateStore_Publish clock db [?s] = (None, w)" by blast
  note pw = publish_one_keys [OF w [unfolded publish_one]]
  have cases: "e = None \<and> (db' = db\<lparr>db_Repairs := filter (\<lambda>t. repair_key t \<noteq> repair_key r) (db_Repairs db)\<rparr>
      \<or> db' = w\<lparr>db_Repairs := filter (\<lambda>t. repair_key t \<noteq> repair_key r) (db_Repairs w)\<rparr>)"
    using one valid w unfolding repair_one_def
    by (auto simp: del store_look_def Let_def split: prod.splits if_splits)
  then show "e = None" "db_Repairs db' = filter (\<lambda>t. repair_key t \<noteq> repair_key r) (db_Repairs db)"
    "db_Scopes db' = db_Scopes db" "db_Generations db' = db_Generations db"
    using pw by auto
  show "phase_db_ok db'"
    using store_repair.repair_one_safe [OF ok one] by (simp add: store_repair.safe_change_def)
qed

lemma repair_each_store:
  assumes "phase_db_ok db" and "\<forall>r \<in> set rs. row_ok db (pr_Key r) (pr_Phase r) \<and> pr_Phase r \<noteq> []"
    and "repair_each (store_queue clock) (\<lambda>db. acc) store_look (StateStore_Publish clock) d now rs n db = (m, e, db')"
  shows "e = None \<and> db_Repairs db' = filter (\<lambda>t. repair_key t \<notin> set (map repair_key rs)) (db_Repairs db)"
  using assms
proof (induction rs arbitrary: n db)
  case Nil
  then show ?case by simp
next
  case (Cons r rs)
  obtain e1 b db1 where one: "repair_one (store_queue clock) (\<lambda>db. acc) store_look (StateStore_Publish clock)
      d now r db = (e1, b, db1)"
    by (metis prod_cases3)
  have r: "row_ok db (pr_Key r) (pr_Phase r)" "pr_Phase r \<noteq> []" using Cons.prems(2) by auto
  note s = repair_one_store [OF Cons.prems(1) r one]
  have "repair_each (store_queue clock) (\<lambda>db. acc) store_look (StateStore_Publish clock) d now rs
      (if b then n + 1 else n) db1 = (m, e, db')"
    using Cons.prems(3) one s(1) by simp
  moreover have "\<forall>r \<in> set rs. row_ok db1 (pr_Key r) (pr_Phase r) \<and> pr_Phase r \<noteq> []"
    using Cons.prems(2) s(3,4) by (simp add: row_ok_def references_ok_def)
  ultimately show ?case using Cons.IH [OF s(5)] s(2) by (auto intro: filter_cong)
qed

lemma filter_not_taken:
  assumes "distinct (map f xs)"
  shows "filter (\<lambda>x. f x \<notin> set (map f (take n xs))) xs = drop n xs"
proof -
  have "set (map f (take n xs)) \<inter> set (map f (drop n xs)) = {}"
    using assms by (metis append_take_drop_id distinct_append map_append)
  then have "filter (\<lambda>x. f x \<notin> set (map f (take n xs))) (drop n xs) = drop n xs"
    by (intro filter_True) auto
  moreover have "filter (\<lambda>x. f x \<notin> set (map f (take n xs))) (take n xs) = []"
    by (simp add: filter_empty_conv)
  ultimately show ?thesis by (metis append_Nil append_take_drop_id filter_append)
qed

definition due :: "time \<Rightarrow> PhaseDb \<Rightarrow> PhaseRepair list" where
  "due now db = filter (\<lambda>r. pr_NextAttemptAt r \<le> now) (db_Repairs db)"

text \<open>
  On well-formed tables a repair cycle never stops on an error and makes progress: it
  settles exactly the repairs that were listed, so the number of due repairs drops by the batch
  limit at every cycle until none is left.
\<close>

theorem repair_cycle_drains:
  assumes "phase_db_ok db" and "Repairer_RunOnce (store_repairer clock acc c) db now = (m, e, db')"
  shows "e = None \<and> length (due now db') = length (due now db) - nat (batchLimit c)"
proof -
  let ?n = "nat (batchLimit c)" and ?s = "sort_by cmp_due (due now db)"
  let ?l = "RepairQueue_ListDue db now (batchLimit c)"
  have pos: "0 < batchLimit c" by (simp add: batchLimit_def)
  then have l: "?l = map (\<lambda>r. r\<lparr>pr_UpdatedAt := 0\<rparr>) (take ?n ?s)"
    by (simp add: RepairQueue_ListDue_def due_def)
  have keys: "map repair_key ?l = map repair_key (take ?n ?s)" by (simp add: l repair_key_def comp_def)
  have "row_ok db (pr_Key r) (pr_Phase r) \<and> pr_Phase r \<noteq> []" if "r \<in> set ?l" for r
    using listed_rows [OF that] assms(1) by (auto simp: phase_db_ok_def)
  moreover have "repair_each (store_queue clock) (\<lambda>db. acc) store_look (StateStore_Publish clock)
      (retryDelay c) now ?l 0 db = (m, e, db')"
    using assms(2) by (simp add: Repairer_RunOnce_def Repairer_validate_def store_repairer_def store_queue_def)
  ultimately have "e = None \<and> db_Repairs db' = filter (\<lambda>t. repair_key t \<notin> set (map repair_key ?l)) (db_Repairs db)"
    using repair_each_store [OF assms(1), of ?l] by blast
  then have r: "e = None" "db_Repairs db' = filter (\<lambda>t. repair_key t \<notin> set (map repair_key (take ?n ?s))) (db_Repairs db)"
    unfolding keys by blast+
  have dist: "distinct (map repair_key ?s)"
    using assms(1) by (simp add: phase_db_ok_def due_def distinct_map_filter)
  have "due now db' = filter (\<lambda>t. repair_key t \<notin> set (map repair_key (take ?n ?s))) (due now db)"
    by (simp add: due_def r(2) conj_commute)
  then have "mset (due now db') = mset (filter (\<lambda>t. repair_key t \<notin> set (map repair_key (take ?n ?s))) ?s)"
    by simp
  also have "\<dots> = mset (drop ?n ?s)" by (simp only: filter_not_taken [OF dist])
  finally have "length (due now db') = length (drop ?n ?s)" by (metis size_mset)
  with r(1) show ?thesis by simp
qed

definition example_repair_db :: PhaseDb where
  "example_repair_db = example_db\<lparr>db_Repairs :=
     [\<lparr>pr_Key = example_key, pr_Phase = ''deployment_mapping'', pr_CommittedAt = 1, pr_EnqueuedAt = 1,
       pr_NextAttemptAt = 1, pr_UpdatedAt = 1, pr_Attempts = 0, pr_LastError = Msg []\<rparr>]\<rparr>"

definition example_config :: RepairerConfig where
  "example_config = \<lparr>rc_PollInterval = 0, rc_BatchLimit = 10, rc_RetryDelay = 0\<rparr>"

lemma example_repair_db_ok: "phase_db_ok example_repair_db"
  using example_key_trim
  by (simp add: phase_db_ok_def example_repair_db_def row_ok_def trimmed_key_def)
    (simp add: example_db_def references_ok_def example_key_def)

lemma repair_never_lost_witness:
  "\<exists>m e db'. Repairer_RunOnce (store_repairer 9 (\<lambda>k. Some ''g'') example_config) example_repair_db 5 = (m, e, db')
     \<and> phase_db_ok db' \<and> queued_keys db' \<subseteq> queued_keys example_repair_db"
proof -
  obtain m e db' where
    r: "Repairer_RunOnce (store_repairer 9 (\<lambda>k. Some ''g'') example_config) example_repair_db 5 = (m, e, db')"
    by (metis prod_cases3)
  from repair_never_lost [OF example_repair_db_ok r] r show ?thesis by blast
qed

lemma repair_cycle_drains_witness:
  "\<exists>m db'. Repairer_RunOnce (store_repairer 9 (\<lambda>k. Some ''g'') example_config) example_repair_db 5 = (m, None, db')
     \<and> length (due 5 example_repair_db) = 1 \<and> due 5 db' = []"
proof -
  obtain m e db' where
    r: "Repairer_RunOnce (store_repairer 9 (\<lambda>k. Some ''g'') example_config) example_repair_db 5 = (m, e, db')"
    by (metis prod_cases3)
  have "length (due 5 example_repair_db) = 1" by (simp add: due_def example_repair_db_def)
  with repair_cycle_drains [OF example_repair_db_ok r] r show ?thesis
    by (simp add: batchLimit_def example_config_def)
qed

text \<open>
  The pause between empty cycles doubles with each of the first three, never exceeds five
  seconds and is always positive, for every configured interval below 2 to the 60 nanoseconds.
\<close>

theorem repair_backoff:
  assumes "pollInterval c < 2 ^ 60" and "1 \<le> n"
  shows "repairBackoff (pollInterval c) n = min (seconds 5) (pollInterval c * 2 ^ nat (min n 4 - 1))
     \<and> 0 < repairBackoff (pollInterval c) n \<and> repairBackoff (pollInterval c) n \<le> seconds 5"
proof -
  let ?b = "pollInterval c"
  have pos: "0 < ?b" by (simp add: pollInterval_def seconds_def)
  have dbl: "double_backoff k b = b * 2 ^ k" if "0 < b" "b * 2 ^ k < 2 ^ 63" for k b
    using that
  proof (induction k arbitrary: b)
    case 0
    then show ?case by simp
  next
    case (Suc k)
    have "b * 2 \<le> b * 2 ^ Suc k" using Suc.prems(1) by simp
    with Suc.prems have "wrap64 (b * 2) = b * 2" by (intro wrap64_id) linarith+
    with Suc.IH [of "b * 2"] Suc.prems show ?case by (simp add: mult.assoc)
  qed
  let ?k = "nat (min n 4 - 1)"
  have "(2 :: int) ^ ?k \<le> 2 ^ 3" by (rule power_increasing) auto
  then have "?b * 2 ^ ?k \<le> ?b * 2 ^ 3" using pos by (intro mult_left_mono) auto
  with assms(1) have "?b * 2 ^ ?k < 2 ^ 63" by simp
  from dbl [OF pos this] have "double_backoff ?k ?b = ?b * 2 ^ ?k" .
  moreover have "0 < ?b * 2 ^ ?k" using pos by simp
  ultimately show ?thesis
    by (simp add: repairBackoff_def Let_def maxRepairPollInterval_def seconds_def min_def)
qed

lemma repair_backoff_witness:
  "repairBackoff (pollInterval example_config) 3 = seconds 4"
proof -
  have "pollInterval example_config = seconds 1" by (simp add: pollInterval_def example_config_def)
  then show ?thesis using repair_backoff [of example_config 3] by (simp add: seconds_def)
qed

end
