(* ===== verification/ReducerRuntime.thy ===== *)
theory ReducerRuntime
  imports ReducerIntent Truth Ordering Machines "HOL-Library.AList"
begin

text \<open>
  \<open>go/internal/reducer/registry.go\<close> and \<open>runtime.go\<close>: the catalogue of reducer domains and the
  in-process runtime that queues intents, claims a bounded batch in priority order and runs each
  through its domain's handler.
  Handlers, the generation check, the context and the clock are code the runtime is given: they
  act on a world of type \<open>'w\<close> and are arguments here, unconstrained. The mutex makes each access
  to the queue atomic; a nil map of definitions behaves as an empty one and is not told apart.
\<close>

section \<open>Registry\<close>

record OwnershipShape =
  os_CrossSource :: bool
  os_CrossScope :: bool
  os_CanonicalWrite :: bool

record Result =
  res_IntentID :: string
  res_Domain :: Domain
  res_Status :: ResultStatus
  res_EvidenceSummary :: string
  res_CanonicalWrites :: int
  res_CompletedAt :: time

type_synonym 'w Handler = "'w \<Rightarrow> Intent \<Rightarrow> Result result \<times> 'w"

record 'w DomainDefinition =
  dd_Domain :: Domain
  dd_Summary :: string
  dd_Ownership :: OwnershipShape
  dd_TruthContract :: Contract
  dd_Handler :: "'w Handler option"

record 'w Registry =
  reg_ordered :: "Domain list"
  reg_defs :: "(Domain \<times> 'w DomainDefinition) list"

definition OwnershipShape_Validate :: "OwnershipShape \<Rightarrow> error option" where
  "OwnershipShape_Validate s = first_err
     [check (\<not> os_CrossSource s) (Msg ''reducers must be cross-source''),
      check (\<not> os_CrossScope s) (Msg ''reducers must be cross-scope''),
      check (\<not> os_CanonicalWrite s) (Msg ''reducers must target canonical shared truth'')]"

definition DomainDefinition_Validate :: "'w DomainDefinition \<Rightarrow> error option" where
  "DomainDefinition_Validate d = first_err
     [Domain_Validate (dd_Domain d),
      check (blank (dd_Summary d)) (Blank ''summary''),
      OwnershipShape_Validate (dd_Ownership d),
      Contract_Validate (dd_TruthContract d)]"

definition NewRegistry :: "'w Registry" where
  "NewRegistry = \<lparr>reg_ordered = [], reg_defs = []\<rparr>"

definition Definition_of :: "'w Registry \<Rightarrow> Domain \<Rightarrow> 'w DomainDefinition option" where
  "Definition_of r domain = map_of (reg_defs r) domain"

definition Register :: "'w Registry \<Rightarrow> 'w DomainDefinition \<Rightarrow> 'w Registry result" where
  "Register r d =
     checked (DomainDefinition_Validate d)
       (checked (check (map_of (reg_defs r) (dd_Domain d) \<noteq> None)
                  (Fmt ''domain already registered'' [dd_Domain d]))
          (Inr \<lparr>reg_ordered = reg_ordered r @ [dd_Domain d],
                reg_defs = AList.update (dd_Domain d) d (reg_defs r)\<rparr>))"

text \<open>A missing key of \<open>defs\<close> yields the zero definition.\<close>

definition zero_definition :: "'w DomainDefinition" where
  "zero_definition = \<lparr>dd_Domain = [], dd_Summary = [],
     dd_Ownership = \<lparr>os_CrossSource = False, os_CrossScope = False, os_CanonicalWrite = False\<rparr>,
     dd_TruthContract = \<lparr>ct_CanonicalKind = [], ct_SourceLayers = []\<rparr>, dd_Handler = None\<rparr>"

definition Definitions :: "'w Registry \<Rightarrow> 'w DomainDefinition list" where
  "Definitions r =
     map (\<lambda>d. case map_of (reg_defs r) d of Some def \<Rightarrow> def | None \<Rightarrow> zero_definition) (reg_ordered r)"

definition SortedDomains :: "'w Registry \<Rightarrow> Domain list" where
  "SortedDomains r = sort_by compare (reg_ordered r)"

section \<open>Default catalogue\<close>

definition reducer_ownership :: OwnershipShape where
  "reducer_ownership = \<lparr>os_CrossSource = True, os_CrossScope = True, os_CanonicalWrite = True\<rparr>"

definition default_definition :: "Domain \<Rightarrow> string \<Rightarrow> string \<Rightarrow> Layer list \<Rightarrow> 'w DomainDefinition" where
  "default_definition d summary kind layers =
     \<lparr>dd_Domain = d, dd_Summary = summary, dd_Ownership = reducer_ownership,
      dd_TruthContract = \<lparr>ct_CanonicalKind = kind, ct_SourceLayers = layers\<rparr>, dd_Handler = None\<rparr>"

definition DefaultDomainDefinitions :: "'w DomainDefinition list" where
  "DefaultDomainDefinitions =
     [default_definition DomainWorkloadIdentity
        ''resolve canonical workload identity across sources''
        ''workload_identity'' [LayerSourceDeclaration],
      default_definition DomainCloudAssetResolution
        ''resolve canonical cloud asset identity across sources''
        ''cloud_asset'' [LayerSourceDeclaration, LayerAppliedDeclaration, LayerObservedResource],
      default_definition DomainDeploymentMapping
        ''materialize platform bindings across sources''
        ''deployment_mapping'' [LayerSourceDeclaration, LayerAppliedDeclaration],
      default_definition DomainCodeCallMaterialization
        ''materialize canonical code call edges from parser facts''
        ''code_call_materialization'' [LayerSourceDeclaration],
      default_definition DomainWorkloadMaterialization
        ''materialize canonical workload graph from content store facts''
        ''workload_materialization'' [LayerSourceDeclaration],
      default_definition DomainSemanticEntityMaterialization
        ''materialize annotation, typedef, type alias, and component semantic nodes from parser facts''
        ''semantic_entity_materialization'' [LayerSourceDeclaration],
      default_definition DomainSQLRelationshipMaterialization
        ''materialize canonical SQL relationship edges from parser SQL entity metadata''
        ''sql_relationship_materialization'' [LayerSourceDeclaration],
      default_definition DomainInheritanceMaterialization
        ''materialize canonical inheritance, override, and alias edges from parser entity bases and trait adaptation metadata''
        ''inheritance_materialization'' [LayerSourceDeclaration]]"

section \<open>Runtime\<close>

record RunReport =
  rep_StartedAt :: time
  rep_FinishedAt :: time
  rep_Claimed :: nat
  rep_Processed :: nat
  rep_Succeeded :: nat
  rep_Failed :: nat

record DomainStats =
  ds_Domain :: Domain
  ds_Summary :: string
  ds_Ownership :: OwnershipShape
  ds_Pending :: nat
  ds_Claimed :: nat
  ds_Running :: nat
  ds_Succeeded :: nat
  ds_Failed :: nat

record Stats =
  st_Queued :: nat
  st_Pending :: nat
  st_Claimed :: nat
  st_Running :: nat
  st_Succeeded :: nat
  st_Failed :: nat
  st_Domains :: "DomainStats list"

record 'w Runtime =
  rt_registry :: "'w Registry"
  rt_intents :: "Intent list"
  rt_GenerationCheck :: "('w \<Rightarrow> string \<Rightarrow> string \<Rightarrow> bool result \<times> 'w) option"

text \<open>What the runtime observes of the world besides its handlers: \<open>ctx.Err()\<close> and \<open>time.Now()\<close>.\<close>

record 'w Env =
  env_ctxErr :: "'w \<Rightarrow> error option"
  env_now :: "'w \<Rightarrow> time"

definition NewRuntime :: "'w Registry \<Rightarrow> 'w Runtime" where
  "NewRuntime reg = \<lparr>rt_registry = reg, rt_intents = [], rt_GenerationCheck = None\<rparr>"

definition enqueue_defaults :: "time \<Rightarrow> Intent \<Rightarrow> Intent" where
  "enqueue_defaults now intent =
     (let q = Intent_Clone intent;
          q = (if is_zero (in_EnqueuedAt q) then q\<lparr>in_EnqueuedAt := now\<rparr> else q);
          q = (if is_zero (in_AvailableAt q) then q\<lparr>in_AvailableAt := in_EnqueuedAt q\<rparr> else q)
      in if in_Status q = OtherIntentStatus [] then q\<lparr>in_Status := IntentStatusPending\<rparr> else q)"

definition Enqueue :: "'w Runtime \<Rightarrow> time \<Rightarrow> Intent \<Rightarrow> (Intent \<times> 'w Runtime) result" where
  "Enqueue r now intent =
     checked (check (is_zero now) (Zero ''now''))
       (let queued = enqueue_defaults now intent in
        checked (Intent_Validate queued)
         (checked (check (Definition_of (rt_registry r) (in_Domain queued) = None)
                    (Fmt ''domain is not registered'' [in_Domain queued]))
           (checked (check (in_Status queued \<noteq> IntentStatusPending)
                      (Msg ''intent must enqueue as pending''))
              (Inr (Intent_Clone queued, r\<lparr>rt_intents := rt_intents r @ [queued]\<rparr>)))))"

definition cmp_candidates :: "nat \<times> Intent \<Rightarrow> nat \<times> Intent \<Rightarrow> int" where
  "cmp_candidates x y =
     or_else (compare (in_Priority (snd y)) (in_Priority (snd x)))
      (or_else (compare (in_AvailableAt (snd x)) (in_AvailableAt (snd y)))
       (or_else (compare (in_EnqueuedAt (snd x)) (in_EnqueuedAt (snd y)))
        (or_else (compare (in_IntentID (snd x)) (in_IntentID (snd y)))
          (compare (fst x) (fst y)))))"

definition claim_candidates :: "Intent list \<Rightarrow> time \<Rightarrow> (nat \<times> Intent) list" where
  "claim_candidates is now =
     filter (\<lambda>(idx, i). in_Status i = IntentStatusPending \<and> \<not> now < in_AvailableAt i)
       (enumerate 0 is)"

fun claim_each :: "time \<Rightarrow> (nat \<times> Intent) list \<Rightarrow> Intent list \<Rightarrow> (nat \<times> Intent) list \<times> Intent list" where
  "claim_each now [] is = ([], is)"
| "claim_each now ((idx, _) # cs) is =
     (let claimed = (Intent_Clone (is ! idx))\<lparr>in_Status := IntentStatusClaimed, in_ClaimedAt := Some now\<rparr>;
          (rest, is') = claim_each now cs (is[idx := claimed])
      in ((idx, claimed) # rest, is'))"

definition claimBatch :: "'w Runtime \<Rightarrow> time \<Rightarrow> nat \<Rightarrow> (nat \<times> Intent) list \<times> 'w Runtime" where
  "claimBatch r now maxn =
     (let candidates = take maxn (sort_by cmp_candidates (claim_candidates (rt_intents r) now));
          (batch, is') = claim_each now candidates (rt_intents r)
      in (batch, r\<lparr>rt_intents := is'\<rparr>))"

definition update_intent :: "'w Runtime \<Rightarrow> nat \<Rightarrow> (Intent \<Rightarrow> Intent) \<Rightarrow> 'w Runtime" where
  "update_intent r position f =
     (if length (rt_intents r) \<le> position then r
      else r\<lparr>rt_intents := (rt_intents r)[position := f (Intent_Clone (rt_intents r ! position))]\<rparr>)"

definition markRunning :: "'w Runtime \<Rightarrow> nat \<Rightarrow> 'w Runtime" where
  "markRunning r position = update_intent r position (\<lambda>i. i\<lparr>in_Status := IntentStatusRunning\<rparr>)"

definition markSucceeded :: "'w Runtime \<Rightarrow> nat \<Rightarrow> time \<Rightarrow> 'w Runtime" where
  "markSucceeded r position completedAt = update_intent r position
     (\<lambda>i. i\<lparr>in_Status := IntentStatusSucceeded, in_CompletedAt := Some completedAt, in_Failure := None\<rparr>)"

definition markFailed :: "'w Runtime \<Rightarrow> nat \<Rightarrow> time \<Rightarrow> error \<Rightarrow> error \<Rightarrow> 'w Runtime" where
  "markFailed r position completedAt failureClass message = update_intent r position
     (\<lambda>i. i\<lparr>in_Status := IntentStatusFailed, in_CompletedAt := Some completedAt,
           in_Failure := Some \<lparr>if_FailureClass = failureClass, if_Message = message, if_Details = []\<rparr>\<rparr>)"

definition run_handler :: "'w Runtime \<Rightarrow> 'w \<Rightarrow> Intent \<Rightarrow> Result result \<times> 'w" where
  "run_handler r w intent =
     (case Definition_of (rt_registry r) (in_Domain intent) of
        None \<Rightarrow> (Inl (Fmt ''domain is not registered'' [in_Domain intent]), w)
      | Some d \<Rightarrow>
          (case dd_Handler d of
             None \<Rightarrow> (Inl (Fmt ''domain has no handler'' [in_Domain intent]), w)
           | Some h \<Rightarrow> h w intent))"

definition execute :: "'w Env \<Rightarrow> 'w Runtime \<Rightarrow> 'w \<Rightarrow> Intent \<Rightarrow> Result result \<times> 'w" where
  "execute env r w intent =
     (case rt_GenerationCheck r of
        None \<Rightarrow> run_handler r w intent
      | Some fresh \<Rightarrow>
          (case fresh w (in_ScopeID intent) (in_GenerationID intent) of
             (Inl e, w') \<Rightarrow> (Inl (Wrap ''generation freshness check'' e), w')
           | (Inr current, w') \<Rightarrow>
               if \<not> current then
                 (Inr \<lparr>res_IntentID = in_IntentID intent, res_Domain = in_Domain intent,
                       res_Status = ResultStatusSuperseded,
                       res_EvidenceSummary = ''generation '' @ in_GenerationID intent
                         @ '' superseded for scope '' @ in_ScopeID intent,
                       res_CanonicalWrites = 0, res_CompletedAt = env_now env w'\<rparr>, w')
               else run_handler r w' intent))"

definition result_defaults :: "time \<Rightarrow> Intent \<Rightarrow> Result \<Rightarrow> Result" where
  "result_defaults now intent res =
     (let res = (if res_Status res = OtherResultStatus [] then res\<lparr>res_Status := ResultStatusSucceeded\<rparr> else res);
          res = (if is_zero (res_CompletedAt res) then res\<lparr>res_CompletedAt := now\<rparr> else res);
          res = (if res_IntentID res = [] then res\<lparr>res_IntentID := in_IntentID intent\<rparr> else res)
      in if res_Domain res = [] then res\<lparr>res_Domain := in_Domain intent\<rparr> else res)"

text \<open>The body of \<open>RunOnce\<close>'s loop for one claimed intent.\<close>

definition run_intent ::
  "'w Env \<Rightarrow> time \<Rightarrow> nat \<Rightarrow> Intent \<Rightarrow> RunReport \<Rightarrow> 'w Runtime \<Rightarrow> 'w \<Rightarrow> RunReport \<times> 'w Runtime \<times> 'w" where
  "run_intent env now position intent report r w =
     (let failed = report\<lparr>rep_Failed := rep_Failed report + 1, rep_Processed := rep_Processed report + 1\<rparr>;
          succeeded = report\<lparr>rep_Succeeded := rep_Succeeded report + 1, rep_Processed := rep_Processed report + 1\<rparr>
      in case env_ctxErr env w of
           Some err \<Rightarrow> (failed, markFailed r position now err (Msg ''context canceled''), w)
         | None \<Rightarrow>
             (let r = markRunning r position in
              case execute env r w intent of
                (Inl e, w') \<Rightarrow> (failed, markFailed r position now (Msg ''execution failed'') e, w')
              | (Inr res, w') \<Rightarrow>
                  (let res = result_defaults now intent res in
                   if res_Status res = ResultStatusFailed
                   then (failed, markFailed r position (res_CompletedAt res) (Msg ''execution reported failure'')
                                  (Msg (res_EvidenceSummary res)), w')
                   else (succeeded, markSucceeded r position (res_CompletedAt res), w'))))"

fun run_batch ::
  "'w Env \<Rightarrow> time \<Rightarrow> (nat \<times> Intent) list \<Rightarrow> RunReport \<Rightarrow> 'w Runtime \<Rightarrow> 'w \<Rightarrow> RunReport \<times> 'w Runtime \<times> 'w" where
  "run_batch env now [] report r w = (report, r, w)"
| "run_batch env now ((position, intent) # rest) report r w =
     (case run_intent env now position intent report r w of
        (report', r', w') \<Rightarrow> run_batch env now rest report' r' w')"

definition RunOnce ::
  "'w Env \<Rightarrow> 'w Runtime \<Rightarrow> 'w \<Rightarrow> time \<Rightarrow> int \<Rightarrow> RunReport result \<times> 'w Runtime \<times> 'w" where
  "RunOnce env r w now maxn =
     (if is_zero now then (Inl (Zero ''now''), r, w)
      else if maxn \<le> 0 then (Inl (NotPositive ''max''), r, w)
      else
        (let (batch, r) = claimBatch r now (nat maxn);
             report = \<lparr>rep_StartedAt = now, rep_FinishedAt = now, rep_Claimed = 0, rep_Processed = 0,
                       rep_Succeeded = 0, rep_Failed = 0\<rparr>
         in if batch = [] then (Inr report, r, w)
            else (case run_batch env now batch (report\<lparr>rep_Claimed := length batch\<rparr>) r w of
                    (report', r', w') \<Rightarrow> (Inr (report'\<lparr>rep_FinishedAt := now\<rparr>), r', w'))))"

definition stats_add :: "Stats \<Rightarrow> Intent \<Rightarrow> Stats" where
  "stats_add s i =
     (case in_Status i of
        IntentStatusPending \<Rightarrow> s\<lparr>st_Pending := st_Pending s + 1, st_Queued := st_Queued s + 1\<rparr>
      | IntentStatusClaimed \<Rightarrow> s\<lparr>st_Claimed := st_Claimed s + 1, st_Queued := st_Queued s + 1\<rparr>
      | IntentStatusRunning \<Rightarrow> s\<lparr>st_Running := st_Running s + 1, st_Queued := st_Queued s + 1\<rparr>
      | IntentStatusSucceeded \<Rightarrow> s\<lparr>st_Succeeded := st_Succeeded s + 1\<rparr>
      | IntentStatusFailed \<Rightarrow> s\<lparr>st_Failed := st_Failed s + 1\<rparr>
      | OtherIntentStatus v \<Rightarrow> s)"

definition domain_stats_add :: "DomainStats \<Rightarrow> Intent \<Rightarrow> DomainStats" where
  "domain_stats_add s i =
     (if in_Domain i \<noteq> ds_Domain s then s
      else case in_Status i of
        IntentStatusPending \<Rightarrow> s\<lparr>ds_Pending := ds_Pending s + 1\<rparr>
      | IntentStatusClaimed \<Rightarrow> s\<lparr>ds_Claimed := ds_Claimed s + 1\<rparr>
      | IntentStatusRunning \<Rightarrow> s\<lparr>ds_Running := ds_Running s + 1\<rparr>
      | IntentStatusSucceeded \<Rightarrow> s\<lparr>ds_Succeeded := ds_Succeeded s + 1\<rparr>
      | IntentStatusFailed \<Rightarrow> s\<lparr>ds_Failed := ds_Failed s + 1\<rparr>
      | OtherIntentStatus v \<Rightarrow> s)"

definition domain_stats :: "Intent list \<Rightarrow> 'w DomainDefinition \<Rightarrow> DomainStats" where
  "domain_stats is d = fold (\<lambda>i s. domain_stats_add s i) is
     \<lparr>ds_Domain = dd_Domain d, ds_Summary = dd_Summary d, ds_Ownership = dd_Ownership d,
      ds_Pending = 0, ds_Claimed = 0, ds_Running = 0, ds_Succeeded = 0, ds_Failed = 0\<rparr>"

definition Stats_of :: "'w Runtime \<Rightarrow> Stats" where
  "Stats_of r =
     (let stats = fold (\<lambda>i s. stats_add s i) (rt_intents r)
            \<lparr>st_Queued = 0, st_Pending = 0, st_Claimed = 0, st_Running = 0, st_Succeeded = 0,
             st_Failed = 0, st_Domains = []\<rparr>
      in stats\<lparr>st_Domains := sort_by (\<lambda>x y. compare (ds_Domain x) (ds_Domain y))
           (map (domain_stats (rt_intents r)) (Definitions (rt_registry r)))\<rparr>)"

section \<open>The registry\<close>

definition definition_ok :: "'w DomainDefinition \<Rightarrow> bool" where
  "definition_ok d \<longleftrightarrow> dd_Domain d \<in> set knownDomains \<and> \<not> blank (dd_Summary d)
     \<and> dd_Ownership d = reducer_ownership \<and> contract_ok (dd_TruthContract d)"

interpretation definitions: validator DomainDefinition_Validate definition_ok
  by unfold_locales
    (auto simp: DomainDefinition_Validate_def definition_ok_def OwnershipShape_Validate_def
      reducer_ownership_def contracts.accepts_iff)

definition registry_inv :: "'w Registry \<Rightarrow> bool" where
  "registry_inv r \<longleftrightarrow> map fst (reg_defs r) = reg_ordered r \<and> distinct (reg_ordered r)
     \<and> (\<forall>(k, d) \<in> set (reg_defs r). dd_Domain d = k \<and> definition_ok d)"

fun register_all :: "'w Registry \<Rightarrow> 'w DomainDefinition list \<Rightarrow> 'w Registry result" where
  "register_all r [] = Inr r"
| "register_all r (d # ds) = (case Register r d of Inl e \<Rightarrow> Inl e | Inr r' \<Rightarrow> register_all r' ds)"

lemma update_fresh: "map_of al k = None \<Longrightarrow> AList.update k v al = al @ [(k, v)]"
  by (induction al) (auto split: if_splits)

lemma Register_Inr:
  assumes "Register r d = Inr r'"
  shows "definition_ok d" and "map_of (reg_defs r) (dd_Domain d) = None"
    and "r' = \<lparr>reg_ordered = reg_ordered r @ [dd_Domain d], reg_defs = reg_defs r @ [(dd_Domain d, d)]\<rparr>"
  using assms by (auto simp: Register_def definitions.accepts_iff update_fresh)

lemma Register_inv: "Register r d = Inr r' \<Longrightarrow> registry_inv r \<Longrightarrow> registry_inv r'"
proof -
  assume reg: "Register r d = Inr r'" and inv: "registry_inv r"
  from inv have "set (reg_ordered r) = fst ` set (reg_defs r)"
    by (metis registry_inv_def set_map)
  with Register_Inr [OF reg] inv show "registry_inv r'"
    by (auto simp: registry_inv_def map_of_eq_None_iff)
qed

lemma register_all_inv:
  "register_all r ds = Inr r' \<Longrightarrow> registry_inv r \<Longrightarrow>
     registry_inv r' \<and> reg_defs r' = reg_defs r @ map (\<lambda>d. (dd_Domain d, d)) ds"
proof (induction ds arbitrary: r)
  case Nil
  then show ?case by simp
next
  case (Cons d ds)
  from Cons.prems(1) obtain r1 where r1: "Register r d = Inr r1" "register_all r1 ds = Inr r'"
    by (auto split: sum.splits)
  from Cons.IH [OF r1(2) Register_inv [OF r1(1) Cons.prems(2)]] Register_Inr(3) [OF r1(1)]
  show ?case by simp
qed

interpretation domain_order: comparator "compare :: string \<Rightarrow> string \<Rightarrow> int"
  using comparator_key [of "\<lambda>s. s"] by simp

text \<open>
  Registering definitions one after another into an empty registry either fails or
  yields a registry that returns exactly those definitions, in registration order, each one
  valid and each under its own domain; the sorted view lists every domain once in strictly
  increasing order, and no domain is found that was not registered.
\<close>

theorem registered_definitions:
  assumes "register_all NewRegistry ds = Inr r"
  shows "Definitions r = ds \<and> list_all definition_ok ds
     \<and> sorted_wrt (<) (SortedDomains r) \<and> set (SortedDomains r) = dd_Domain ` set ds
     \<and> (\<forall>d. Definition_of r (dd_Domain d) = Some d \<longleftrightarrow> d \<in> set ds)"
proof -
  have "registry_inv (NewRegistry :: 'a Registry)" by (simp add: registry_inv_def NewRegistry_def)
  from register_all_inv [OF assms this] have inv: "registry_inv r"
    and defs: "reg_defs r = map (\<lambda>d. (dd_Domain d, d)) ds"
    by (simp_all add: NewRegistry_def)
  then have ord: "reg_ordered r = map dd_Domain ds" and dist: "distinct (map dd_Domain ds)"
    by (auto simp: registry_inv_def comp_def)
  have found: "map_of (reg_defs r) (dd_Domain d) = Some d \<longleftrightarrow> d \<in> set ds" for d
    using dist defs by (auto simp: map_of_eq_Some_iff comp_def)
  have "Definitions r = ds"
    unfolding Definitions_def ord map_map by (rule map_idI) (simp add: found [THEN iffD2])
  moreover have "list_all definition_ok ds"
    using inv defs by (auto simp: registry_inv_def list_all_iff)
  moreover have "sorted_wrt (<) (SortedDomains r)"
    using domain_order.ordered_sort_by [of "reg_ordered r"] dist
    by (simp add: SortedDomains_def ordered_def strict_sorted_iff ord)
  moreover have "set (SortedDomains r) = dd_Domain ` set ds" by (simp add: SortedDomains_def ord)
  ultimately show ?thesis using found by (simp add: Definition_of_def)
qed


section \<open>One drain\<close>

text \<open>An intent without what the runtime writes to it.\<close>

definition identity :: "Intent \<Rightarrow> Intent" where
  "identity i = i\<lparr>in_Status := IntentStatusPending, in_ClaimedAt := None, in_CompletedAt := None,
     in_Failure := None\<rparr>"

definition ready :: "time \<Rightarrow> Intent \<Rightarrow> bool" where
  "ready now i \<longleftrightarrow> in_Status i = IntentStatusPending \<and> in_AvailableAt i \<le> now"

definition claimed_positions :: "'w Runtime \<Rightarrow> time \<Rightarrow> nat \<Rightarrow> nat list" where
  "claimed_positions r now n =
     map fst (take n (sort_by cmp_candidates (claim_candidates (rt_intents r) now)))"

interpretation candidates_order: comparator cmp_candidates
  unfolding cmp_candidates_def [abs_def]
  by (intro comparator_lex comparator_flip [where c = "\<lambda>x y. compare (in_Priority (snd x)) (in_Priority (snd y))"]
      comparator_key)

lemma cmp_candidates_zero: "cmp_candidates x y = 0 \<Longrightarrow> fst x = fst y"
  by (simp add: cmp_candidates_def)

lemma claim_candidates_mem:
  "(p, i) \<in> set (claim_candidates is now) \<longleftrightarrow> p < length is \<and> i = is ! p \<and> ready now i"
  by (auto simp: claim_candidates_def in_set_enumerate_eq ready_def)

lemma claim_candidates_distinct: "distinct (map fst (claim_candidates is now))"
  unfolding claim_candidates_def by (rule distinct_map_filter) simp

lemma claimed_positions_ready:
  "p \<in> set (claimed_positions r now n) \<Longrightarrow> p < length (rt_intents r) \<and> ready now (rt_intents r ! p)"
  by (auto simp: claimed_positions_def claim_candidates_mem dest!: in_set_takeD)

lemma claimed_positions_distinct: "distinct (claimed_positions r now n)"
  using distinct_take [of "map fst (sort_by cmp_candidates (claim_candidates (rt_intents r) now))" n]
    claim_candidates_distinct [of "rt_intents r" now]
  by (simp add: claimed_positions_def take_map)

lemma claimed_first:
  assumes "p \<in> set (claimed_positions r now n)" and "q \<notin> set (claimed_positions r now n)"
    and "q < length (rt_intents r)" and "ready now (rt_intents r ! q)"
  shows "cmp_candidates (p, rt_intents r ! p) (q, rt_intents r ! q) < 0"
proof -
  let ?s = "sort_by cmp_candidates (claim_candidates (rt_intents r) now)"
  from assms(1) obtain i where pi: "(p, i) \<in> set (take n ?s)" by (auto simp: claimed_positions_def)
  then have i: "i = rt_intents r ! p" by (auto simp: claim_candidates_mem dest!: in_set_takeD)
  have "(q, rt_intents r ! q) \<in> set ?s" using assms(3,4) by (simp add: claim_candidates_mem)
  moreover have "(q, rt_intents r ! q) \<notin> set (take n ?s)" using assms(2) by (force simp: claimed_positions_def)
  ultimately have "(q, rt_intents r ! q) \<in> set (drop n ?s)"
    by (metis Un_iff append_take_drop_id set_append)
  with pi i have "cmp_candidates (p, rt_intents r ! p) (q, rt_intents r ! q) \<le> 0"
    using candidates_order.ordered_take_drop [OF candidates_order.ordered_sort_by] by blast
  moreover have "cmp_candidates (p, rt_intents r ! p) (q, rt_intents r ! q) \<noteq> 0"
    using assms(1,2) cmp_candidates_zero by fastforce
  ultimately show ?thesis by simp
qed

text \<open>What the queue's owner may see of a step that touches the positions \<open>ps\<close> only.\<close>

definition touched :: "nat set \<Rightarrow> (Intent \<Rightarrow> bool) \<Rightarrow> Intent list \<Rightarrow> Intent list \<Rightarrow> bool" where
  "touched ps P is js \<longleftrightarrow> length js = length is \<and> (\<forall>j < length is.
     if j \<in> ps then P (js ! j) \<and> identity (js ! j) = identity (is ! j) else js ! j = is ! j)"

lemma touched_single:
  "p < length is \<Longrightarrow> P x \<Longrightarrow> identity x = identity (is ! p) \<Longrightarrow> touched {p} P is (is[p := x])"
  by (auto simp: touched_def nth_list_update)

lemma touched_trans:
  "touched ps P is js \<Longrightarrow> touched qs P js ks \<Longrightarrow> touched (ps \<union> qs) P is ks"
  unfolding touched_def by (auto split: if_splits)

lemma touched_over:
  "touched ps P is js \<Longrightarrow> touched ps Q js ks \<Longrightarrow> touched ps Q is ks"
  unfolding touched_def by (auto split: if_splits)

lemma claim_each_spec:
  assumes "claim_each now cs is = (batch, js)" and "distinct (map fst cs)"
    and "\<forall>p \<in> set (map fst cs). p < length is"
  shows "map fst batch = map fst cs
     \<and> touched (set (map fst cs)) (\<lambda>i. in_Status i = IntentStatusClaimed) is js"
  using assms
proof (induction cs arbitrary: "is" batch js)
  case Nil
  then show ?case by (simp add: touched_def)
next
  case (Cons c cs)
  obtain p i where c: "c = (p, i)" by (cases c)
  let ?x = "(is ! p)\<lparr>in_Status := IntentStatusClaimed, in_ClaimedAt := Some now\<rparr>"
  obtain rest where batch: "batch = (p, ?x) # rest" and rest: "claim_each now cs (is[p := ?x]) = (rest, js)"
    using Cons.prems(1) c by (auto simp: Let_def split: prod.splits)
  have p: "p < length is" using Cons.prems c by simp
  have "touched {p} (\<lambda>i. in_Status i = IntentStatusClaimed) is (is[p := ?x])"
    using p by (intro touched_single) (simp_all add: identity_def)
  moreover have "map fst rest = map fst cs
      \<and> touched (set (map fst cs)) (\<lambda>i. in_Status i = IntentStatusClaimed) (is[p := ?x]) js"
    using Cons.prems(2,3) by (intro Cons.IH [OF rest]) simp_all
  ultimately show ?case
    using touched_trans [of "{p}" _ "is" "is[p := ?x]" "set (map fst cs)" js] batch c by simp
qed

lemma update_intent_in_range:
  "p < length (rt_intents r) \<Longrightarrow>
     rt_intents (update_intent r p f) = (rt_intents r)[p := f (rt_intents r ! p)]"
  by (simp add: update_intent_def)

lemmas mark_simps = markRunning_def markSucceeded_def markFailed_def update_intent_in_range

lemma run_intent_cases:
  assumes "p < length (rt_intents r)" and "run_intent env now p i rep r w = (rep', r', w')"
  shows "touched {p} (\<lambda>x. Terminal (in_Status x)) (rt_intents r) (rt_intents r')"
    and "rep_Processed rep' = rep_Processed rep + 1"
    and "in_Status (rt_intents r' ! p) = IntentStatusSucceeded \<and>
           rep_Succeeded rep' = rep_Succeeded rep + 1 \<and> rep_Failed rep' = rep_Failed rep
       \<or> in_Status (rt_intents r' ! p) = IntentStatusFailed \<and>
           rep_Succeeded rep' = rep_Succeeded rep \<and> rep_Failed rep' = rep_Failed rep + 1"
    and "rep_Claimed rep' = rep_Claimed rep"
  using assms
  by (auto simp: run_intent_def mark_simps Let_def identity_def touched_def nth_list_update
      split: option.splits prod.splits sum.splits if_splits)

lemma run_batch_spec:
  assumes "run_batch env now batch rep r w = (rep', r', w')" and "distinct (map fst batch)"
    and "\<forall>p \<in> set (map fst batch). p < length (rt_intents r)"
  shows "touched (set (map fst batch)) (\<lambda>x. Terminal (in_Status x)) (rt_intents r) (rt_intents r')
     \<and> rep_Processed rep' = rep_Processed rep + length batch
     \<and> rep_Succeeded rep' = rep_Succeeded rep
         + length (filter (\<lambda>p. in_Status (rt_intents r' ! p) = IntentStatusSucceeded) (map fst batch))
     \<and> rep_Failed rep' = rep_Failed rep
         + length (filter (\<lambda>p. in_Status (rt_intents r' ! p) = IntentStatusFailed) (map fst batch))
     \<and> rep_Claimed rep' = rep_Claimed rep"
  using assms
proof (induction batch arbitrary: rep r w)
  case Nil
  then show ?case by (simp add: touched_def)
next
  case (Cons b batch)
  obtain p i where b: "b = (p, i)" by (cases b)
  obtain rep1 r1 w1 where one: "run_intent env now p i rep r w = (rep1, r1, w1)"
    by (metis prod_cases3)
  have p: "p < length (rt_intents r)" and pn: "p \<notin> set (map fst batch)" using Cons.prems b by auto
  note step = run_intent_cases [OF p one]
  have "length (rt_intents r1) = length (rt_intents r)" using step(1) by (simp add: touched_def)
  moreover have "run_batch env now batch rep1 r1 w1 = (rep', r', w')"
    using Cons.prems(1) one b by simp
  ultimately have IH: "touched (set (map fst batch)) (\<lambda>x. Terminal (in_Status x)) (rt_intents r1) (rt_intents r')
     \<and> rep_Processed rep' = rep_Processed rep1 + length batch
     \<and> rep_Succeeded rep' = rep_Succeeded rep1
         + length (filter (\<lambda>p. in_Status (rt_intents r' ! p) = IntentStatusSucceeded) (map fst batch))
     \<and> rep_Failed rep' = rep_Failed rep1
         + length (filter (\<lambda>p. in_Status (rt_intents r' ! p) = IntentStatusFailed) (map fst batch))
     \<and> rep_Claimed rep' = rep_Claimed rep1"
    using Cons.prems(2,3) by (intro Cons.IH) auto
  then have "rt_intents r' ! p = rt_intents r1 ! p"
    using pn p \<open>length (rt_intents r1) = length (rt_intents r)\<close> by (auto simp: touched_def)
  moreover have "touched (set (map fst (b # batch))) (\<lambda>x. Terminal (in_Status x)) (rt_intents r) (rt_intents r')"
    using touched_trans [OF step(1)] IH b by simp
  ultimately show ?case using IH step(2-4) b by auto
qed

lemma claimBatch_spec:
  assumes "claimBatch r now n = (batch, r')"
  shows "map fst batch = claimed_positions r now n"
    and "touched (set (claimed_positions r now n)) (\<lambda>i. in_Status i = IntentStatusClaimed)
           (rt_intents r) (rt_intents r')"
    and "r' = r\<lparr>rt_intents := rt_intents r'\<rparr>"
proof -
  let ?cs = "take n (sort_by cmp_candidates (claim_candidates (rt_intents r) now))"
  obtain js where each: "claim_each now ?cs (rt_intents r) = (batch, js)" and r': "r' = r\<lparr>rt_intents := js\<rparr>"
    using assms by (auto simp: claimBatch_def Let_def split: prod.splits)
  have pos: "map fst ?cs = claimed_positions r now n" by (simp add: claimed_positions_def)
  have "distinct (map fst ?cs)" "\<forall>p \<in> set (map fst ?cs). p < length (rt_intents r)"
    unfolding pos using claimed_positions_distinct claimed_positions_ready by blast+
  from claim_each_spec [OF each this] pos r'
  show "map fst batch = claimed_positions r now n"
    "touched (set (claimed_positions r now n)) (\<lambda>i. in_Status i = IntentStatusClaimed)
           (rt_intents r) (rt_intents r')" "r' = r\<lparr>rt_intents := rt_intents r'\<rparr>"
    by simp_all
qed

lemma drain_batch:
  assumes "RunOnce env r w now n = (Inr rep, r', w')"
  defines "ps \<equiv> claimed_positions r now (nat n)"
  shows "touched (set ps) (\<lambda>i. Terminal (in_Status i)) (rt_intents r) (rt_intents r')
     \<and> rep_Claimed rep = length ps \<and> rep_Processed rep = length ps
     \<and> rep_Succeeded rep =
         length (filter (\<lambda>p. in_Status (rt_intents r' ! p) = IntentStatusSucceeded) ps)
     \<and> rep_Failed rep =
         length (filter (\<lambda>p. in_Status (rt_intents r' ! p) = IntentStatusFailed) ps)"
proof -
  have now: "\<not> is_zero now" and n: "0 < n"
    using assms(1) by (auto simp: RunOnce_def split: if_splits)
  obtain batch r1 where b: "claimBatch r now (nat n) = (batch, r1)" by (metis surj_pair)
  note cb = claimBatch_spec [OF b, folded ps_def]
  have dist: "distinct ps" unfolding ps_def by (rule claimed_positions_distinct)
  let ?rep = "\<lparr>rep_StartedAt = now, rep_FinishedAt = now, rep_Claimed = 0, rep_Processed = 0,
                rep_Succeeded = 0, rep_Failed = 0\<rparr>"
  show ?thesis
  proof (cases "batch = []")
    case True
    then have "ps = []" using cb(1) by simp
    moreover have "rep = ?rep" and "r' = r1"
      using assms(1) b now n True by (auto simp: RunOnce_def)
    ultimately show ?thesis using cb(2) by (simp add: touched_def)
  next
    case False
    obtain rep1 where rb: "run_batch env now batch (?rep\<lparr>rep_Claimed := length batch\<rparr>) r1 w = (rep1, r', w')"
      and rep: "rep = rep1\<lparr>rep_FinishedAt := now\<rparr>"
      using assms(1) b now n False by (auto simp: RunOnce_def split: prod.splits)
    have "\<forall>p \<in> set (map fst batch). p < length (rt_intents r1)"
      using cb(1,2) claimed_positions_ready [of _ r now "nat n"] by (auto simp: ps_def touched_def)
    moreover have "length batch = length ps" using cb(1) by (metis length_map)
    ultimately show ?thesis
      using run_batch_spec [OF rb] touched_over [OF cb(2)] dist cb(1) rep by simp
  qed
qed

text \<open>
  A drain claims the ready intents that come first in the priority order, at most
  \<open>max\<close> of them, and leaves every one of them succeeded or failed, whatever the handlers, the
  generation check and the context do; every other intent is untouched and no intent loses its
  identity. The report counts exactly the claimed intents, and splits them into as many
  successes and failures as the queue shows.
\<close>

theorem drain_outcome:
  assumes "RunOnce env r w now n = (Inr rep, r', w')"
  defines "ps \<equiv> claimed_positions r now (nat n)"
  shows "touched (set ps) (\<lambda>i. Terminal (in_Status i)) (rt_intents r) (rt_intents r')
     \<and> (\<forall>p \<in> set ps. \<forall>q < length (rt_intents r). ready now (rt_intents r ! p) \<and>
          (ready now (rt_intents r ! q) \<and> q \<notin> set ps \<longrightarrow>
             cmp_candidates (p, rt_intents r ! p) (q, rt_intents r ! q) < 0))
     \<and> rep_Claimed rep = length ps \<and> rep_Processed rep = length ps \<and> int (length ps) \<le> n
     \<and> rep_Succeeded rep + rep_Failed rep = length ps
     \<and> rep_Succeeded rep =
         length (filter (\<lambda>p. in_Status (rt_intents r' ! p) = IntentStatusSucceeded) ps)"
proof -
  note batch = drain_batch [OF assms(1), folded ps_def]
  have "in_Status (rt_intents r' ! p) = IntentStatusFailed \<longleftrightarrow>
      \<not> in_Status (rt_intents r' ! p) = IntentStatusSucceeded" if "p \<in> set ps" for p
  proof -
    have "p < length (rt_intents r)" using that claimed_positions_ready by (auto simp: ps_def)
    with that batch have "Terminal (in_Status (rt_intents r' ! p))" by (simp add: touched_def)
    then show ?thesis by (cases "in_Status (rt_intents r' ! p)") simp_all
  qed
  then have "filter (\<lambda>p. in_Status (rt_intents r' ! p) = IntentStatusFailed) ps
      = filter (\<lambda>p. \<not> in_Status (rt_intents r' ! p) = IntentStatusSucceeded) ps"
    by (intro filter_cong) auto
  then have "rep_Succeeded rep + rep_Failed rep = length ps"
    using batch sum_length_filter_compl
      [of "\<lambda>p. in_Status (rt_intents r' ! p) = IntentStatusSucceeded" ps] by simp
  moreover have "int (length ps) \<le> n"
    using assms(1) by (auto simp: ps_def claimed_positions_def RunOnce_def split: if_splits)
  moreover have "\<forall>p \<in> set ps. \<forall>q < length (rt_intents r). ready now (rt_intents r ! p) \<and>
          (ready now (rt_intents r ! q) \<and> q \<notin> set ps \<longrightarrow>
             cmp_candidates (p, rt_intents r ! p) (q, rt_intents r ! q) < 0)"
    unfolding ps_def using claimed_first claimed_positions_ready by blast
  ultimately show ?thesis using batch by simp
qed

section \<open>Reachable queues\<close>

definition runtime_inv :: "'w Runtime \<Rightarrow> bool" where
  "runtime_inv r \<longleftrightarrow> registry_inv (rt_registry r)
     \<and> (\<forall>i \<in> set (rt_intents r). intent_ok i \<and> in_Domain i \<in> set (reg_ordered (rt_registry r)))"

inductive runtime_step :: "'w Runtime \<Rightarrow> 'w Runtime \<Rightarrow> bool" where
  step_enqueue: "Enqueue r now i = Inr (q, r') \<Longrightarrow> runtime_step r r'"
| step_drain: "RunOnce env r w now n = (res, r', w') \<Longrightarrow> runtime_step r r'"
| step_check: "runtime_step r (r\<lparr>rt_GenerationCheck := c\<rparr>)"

inductive_cases runtime_stepE: "runtime_step r r'"

lemma run_intent_registry: "run_intent env now p i rep r w = (rep', r', w') \<Longrightarrow> rt_registry r' = rt_registry r"
  by (auto simp: run_intent_def markRunning_def markSucceeded_def markFailed_def update_intent_def Let_def
      split: option.splits prod.splits sum.splits if_splits)

lemma run_batch_registry: "run_batch env now b rep r w = (rep', r', w') \<Longrightarrow> rt_registry r' = rt_registry r"
proof (induction b arbitrary: rep r w)
  case Nil
  then show ?case by simp
next
  case (Cons x b)
  obtain p i where x: "x = (p, i)" by (cases x)
  obtain rep1 r1 w1 where one: "run_intent env now p i rep r w = (rep1, r1, w1)" by (metis prod_cases3)
  with Cons x run_intent_registry [OF one] show ?case by simp
qed

lemma RunOnce_registry:
  assumes "RunOnce env r w now n = (res, r', w')"
  shows "rt_registry r' = rt_registry r"
proof -
  obtain batch r1 where b: "claimBatch r now (nat n) = (batch, r1)" by (metis surj_pair)
  from claimBatch_spec(3) [OF b] have "rt_registry r1 = rt_registry r"
    by (metis Runtime.select_convs(1) Runtime.surjective Runtime.update_convs(2))
  with assms b show ?thesis
    by (auto simp: RunOnce_def Let_def split: if_splits prod.splits dest: run_batch_registry)
qed

lemma RunOnce_rejected: "RunOnce env r w now n = (Inl e, r', w') \<Longrightarrow> r' = r"
  by (auto simp: RunOnce_def Let_def split: if_splits prod.splits)

lemma identity_ok:
  "identity i = identity j \<Longrightarrow> intent_status_known (in_Status i) \<Longrightarrow> intent_ok j \<Longrightarrow>
     intent_ok i \<and> in_Domain i = in_Domain j"
  by (cases i; cases j) (simp add: identity_def intent_ok_def)

lemma Terminal_known: "Terminal s \<Longrightarrow> intent_status_known s"
  by (cases s) simp_all

lemma touched_ok:
  assumes "touched ps (\<lambda>i. Terminal (in_Status i)) is js" and "j \<in> set js"
    and "\<forall>i \<in> set is. intent_ok i \<and> in_Domain i \<in> D"
  shows "intent_ok j \<and> in_Domain j \<in> D"
proof -
  from assms(1,2) obtain k where k: "k < length is" "j = js ! k" by (auto simp: touched_def in_set_conv_nth)
  then have "intent_ok (is ! k) \<and> in_Domain (is ! k) \<in> D" using assms(3) by simp
  with assms(1) k identity_ok [of j "is ! k"] Terminal_known show ?thesis
    by (auto simp: touched_def split: if_splits)
qed

lemma Enqueue_Inr:
  assumes "Enqueue r now i = Inr (q, r')"
  shows "r' = r\<lparr>rt_intents := rt_intents r @ [q]\<rparr>" and "intent_ok q" and "in_Status q = IntentStatusPending"
    and "Definition_of (rt_registry r) (in_Domain q) \<noteq> None" and "q = enqueue_defaults now i"
  using assms by (auto simp: Enqueue_def Let_def intents.accepts_iff)

lemma runtime_step_inv: "runtime_step r r' \<Longrightarrow> runtime_inv r \<Longrightarrow> runtime_inv r'"
proof (induction rule: runtime_step.induct)
  case (step_enqueue r now i q r')
  note e = Enqueue_Inr [OF step_enqueue.hyps]
  have "in_Domain q \<in> fst ` set (reg_defs (rt_registry r))"
    using e(4) by (metis Definition_of_def map_of_eq_None_iff)
  moreover have "map fst (reg_defs (rt_registry r)) = reg_ordered (rt_registry r)"
    using step_enqueue.prems by (simp add: runtime_inv_def registry_inv_def)
  ultimately have "in_Domain q \<in> set (reg_ordered (rt_registry r))" by (metis set_map)
  with e step_enqueue.prems show ?case by (auto simp: runtime_inv_def)
next
  case (step_drain env r w now n res r' w')
  show ?case
  proof (cases res)
    case (Inl e)
    with step_drain RunOnce_rejected show ?thesis by metis
  next
    case (Inr rep)
    with step_drain.hyps have ok: "RunOnce env r w now n = (Inr rep, r', w')" by simp
    have "touched (set (claimed_positions r now (nat n))) (\<lambda>i. Terminal (in_Status i)) (rt_intents r) (rt_intents r')"
      using drain_batch [OF ok] by simp
    from touched_ok [OF this, of _ "set (reg_ordered (rt_registry r))"] step_drain.prems
      RunOnce_registry [OF step_drain.hyps] show ?thesis
      by (auto simp: runtime_inv_def)
  qed
next
  case (step_check r c)
  then show ?case by (simp add: runtime_inv_def)
qed

interpretation queue: preserved runtime_step runtime_inv
  by unfold_locales (rule runtime_step_inv)

section \<open>Accounting\<close>

definition in_state :: "IntentStatus \<Rightarrow> Intent list \<Rightarrow> nat" where
  "in_state s is = length (filter (\<lambda>i. in_Status i = s) is)"

definition of_domain :: "Domain \<Rightarrow> Intent list \<Rightarrow> Intent list" where
  "of_domain d is = filter (\<lambda>i. in_Domain i = d) is"

lemma fold_stats_add:
  "fold (\<lambda>i s. stats_add s i) is s =
     s\<lparr>st_Pending := st_Pending s + in_state IntentStatusPending is,
       st_Claimed := st_Claimed s + in_state IntentStatusClaimed is,
       st_Running := st_Running s + in_state IntentStatusRunning is,
       st_Succeeded := st_Succeeded s + in_state IntentStatusSucceeded is,
       st_Failed := st_Failed s + in_state IntentStatusFailed is,
       st_Queued := st_Queued s + in_state IntentStatusPending is + in_state IntentStatusClaimed is
         + in_state IntentStatusRunning is\<rparr>"
proof (induction "is" arbitrary: s)
  case Nil
  show ?case by (simp add: in_state_def)
next
  case (Cons i "is")
  then show ?case
    by (cases "in_Status i") (simp_all add: stats_add_def in_state_def)
qed

lemma fold_domain_stats_add:
  "fold (\<lambda>i s. domain_stats_add s i) is s =
     s\<lparr>ds_Pending := ds_Pending s + in_state IntentStatusPending (of_domain (ds_Domain s) is),
       ds_Claimed := ds_Claimed s + in_state IntentStatusClaimed (of_domain (ds_Domain s) is),
       ds_Running := ds_Running s + in_state IntentStatusRunning (of_domain (ds_Domain s) is),
       ds_Succeeded := ds_Succeeded s + in_state IntentStatusSucceeded (of_domain (ds_Domain s) is),
       ds_Failed := ds_Failed s + in_state IntentStatusFailed (of_domain (ds_Domain s) is)\<rparr>"
proof (induction "is" arbitrary: s)
  case Nil
  show ?case by (simp add: in_state_def of_domain_def)
next
  case (Cons i "is")
  then show ?case
    by (cases "in_Status i") (simp_all add: domain_stats_add_def in_state_def of_domain_def)
qed

lemma in_state_total:
  "\<forall>i \<in> set is. intent_status_known (in_Status i) \<Longrightarrow>
     in_state IntentStatusPending is + in_state IntentStatusClaimed is + in_state IntentStatusRunning is
       + in_state IntentStatusSucceeded is + in_state IntentStatusFailed is = length is"
proof (induction "is")
  case Nil
  show ?case by (simp add: in_state_def)
next
  case (Cons i "is")
  then show ?case by (cases "in_Status i") (simp_all add: in_state_def)
qed

lemma in_state_by_domain:
  assumes "distinct ds" and "\<forall>i \<in> set is. in_Domain i \<in> set ds"
  shows "sum_list (map (\<lambda>d. in_state s (of_domain d is)) ds) = in_state s is"
proof -
  have "set (map in_Domain (filter (\<lambda>i. in_Status i = s) is)) \<subseteq> set ds" using assms(2) by auto
  from sum_count_keys [OF assms(1) this] show ?thesis
    by (simp add: in_state_def of_domain_def filter_filter conj_commute)
qed

text \<open>
  Whatever is enqueued, drained or reconfigured, the statistics account for every
  intent: queued is pending plus claimed plus running, queued plus succeeded plus failed is the
  number of intents, and each total is the sum of the rows of the domains, listed once each in
  increasing order.
\<close>

theorem stats_account:
  assumes "registry_inv reg" and "run runtime_step (NewRuntime reg) r"
  defines "s \<equiv> Stats_of r"
  shows "st_Queued s = st_Pending s + st_Claimed s + st_Running s
     \<and> st_Queued s + st_Succeeded s + st_Failed s = length (rt_intents r)
     \<and> st_Pending s = sum_list (map ds_Pending (st_Domains s))
     \<and> st_Succeeded s = sum_list (map ds_Succeeded (st_Domains s))
     \<and> st_Failed s = sum_list (map ds_Failed (st_Domains s))
     \<and> sorted_wrt (<) (map ds_Domain (st_Domains s))"
proof -
  have "runtime_inv (NewRuntime reg)" using assms(1) by (simp add: runtime_inv_def NewRuntime_def)
  from queue.run_preserves [OF assms(2) this] have inv: "runtime_inv r" .
  let ?is = "rt_intents r" and ?ds = "reg_ordered (rt_registry r)"
  let ?rows = "map (domain_stats ?is) (Definitions (rt_registry r))"
  have reg: "registry_inv (rt_registry r)" and dist: "distinct ?ds"
    and dom: "\<forall>i \<in> set ?is. in_Domain i \<in> set ?ds"
    and known: "\<forall>i \<in> set ?is. intent_status_known (in_Status i)"
    using inv by (auto simp: runtime_inv_def registry_inv_def intent_ok_def)
  have names: "map dd_Domain (Definitions (rt_registry r)) = ?ds"
  proof -
    have "dd_Domain (case map_of (reg_defs (rt_registry r)) d of Some e \<Rightarrow> e | None \<Rightarrow> zero_definition) = d"
      if "d \<in> set ?ds" for d
    proof -
      from that reg have "map_of (reg_defs (rt_registry r)) d \<noteq> None"
        by (metis map_of_eq_None_iff registry_inv_def set_map)
      with reg show ?thesis by (auto simp: registry_inv_def dest: map_of_SomeD)
    qed
    then show ?thesis by (simp add: Definitions_def map_idI)
  qed
  have row: "domain_stats ?is d = \<lparr>ds_Domain = dd_Domain d, ds_Summary = dd_Summary d,
      ds_Ownership = dd_Ownership d,
      ds_Pending = in_state IntentStatusPending (of_domain (dd_Domain d) ?is),
      ds_Claimed = in_state IntentStatusClaimed (of_domain (dd_Domain d) ?is),
      ds_Running = in_state IntentStatusRunning (of_domain (dd_Domain d) ?is),
      ds_Succeeded = in_state IntentStatusSucceeded (of_domain (dd_Domain d) ?is),
      ds_Failed = in_state IntentStatusFailed (of_domain (dd_Domain d) ?is)\<rparr>" for d :: "'a DomainDefinition"
    by (simp add: domain_stats_def fold_domain_stats_add)
  have cols: "map f ?rows = map (\<lambda>d. in_state st (of_domain d ?is)) ?ds"
    if "\<And>d :: 'a DomainDefinition. f (domain_stats ?is d) = in_state st (of_domain (dd_Domain d) ?is)" for f st
    using names that by (simp flip: names add: comp_def)
  have doms: "map ds_Domain ?rows = ?ds" using names by (simp add: row comp_def)
  have "sorted_wrt (<) (map ds_Domain (st_Domains s))"
  proof -
    have "ordered (\<lambda>x y. compare (ds_Domain x) (ds_Domain y)) (st_Domains s)"
      by (simp add: s_def Stats_of_def Let_def comparator.ordered_sort_by [OF comparator_key])
    then have "sorted (map ds_Domain (st_Domains s))" by (simp add: ordered_def sorted_wrt_map)
    moreover have "distinct (map ds_Domain (st_Domains s))"
      using dist doms by (simp add: s_def Stats_of_def Let_def del: map_map)
    ultimately show ?thesis by (simp add: strict_sorted_iff)
  qed
  moreover have "sum_list (map f (st_Domains s)) = sum_list (map f ?rows)" for f :: "DomainStats \<Rightarrow> nat"
    by (simp add: s_def Stats_of_def Let_def del: map_map)
  moreover note in_state_by_domain [OF dist dom] in_state_total [OF known]
  ultimately show ?thesis
    using cols [of ds_Pending] cols [of ds_Succeeded] cols [of ds_Failed]
    by (simp add: s_def Stats_of_def Let_def fold_stats_add row del: map_map)
qed

section \<open>Concrete runs\<close>

definition example_definition :: "unit DomainDefinition" where
  "example_definition = (default_definition DomainOwnership ''owners'' ''ownership'' [LayerSourceDeclaration])
     \<lparr>dd_Handler := Some (\<lambda>w i. (Inr \<lparr>res_IntentID = [], res_Domain = [],
        res_Status = OtherResultStatus [], res_EvidenceSummary = [], res_CanonicalWrites = 1,
        res_CompletedAt = 0\<rparr>, w))\<rparr>"

definition example_registry :: "unit Registry" where
  "example_registry = \<lparr>reg_ordered = [DomainOwnership], reg_defs = [(DomainOwnership, example_definition)]\<rparr>"

definition example_intent :: Intent where
  "example_intent = \<lparr>in_IntentID = ''i1'', in_ScopeID = ''s1'', in_GenerationID = ''g1'',
     in_SourceSystem = ''git'', in_Domain = DomainOwnership, in_Cause = ''test'', in_Priority = 0,
     in_AttemptCount = 0, in_EntityKeys = [], in_RelatedScopeIDs = [''s1''],
     in_Status = IntentStatusPending, in_EnqueuedAt = 1, in_AvailableAt = 1, in_ClaimedAt = None,
     in_CompletedAt = None, in_Failure = None\<rparr>"

definition example_env :: "unit Env" where
  "example_env = \<lparr>env_ctxErr = (\<lambda>w. None), env_now = (\<lambda>w. 9)\<rparr>"

lemma example_definition_ok: "definition_ok example_definition"
  by (simp add: example_definition_def default_definition_def definition_ok_def reducer_ownership_def
      contract_ok_def source_layers_def solid_simps knownDomains_def)

lemma example_registered: "register_all NewRegistry [example_definition] = Inr example_registry"
proof -
  have "dd_Domain example_definition = DomainOwnership"
    by (simp add: example_definition_def default_definition_def)
  then show ?thesis
    using example_definition_ok definitions.accepts_iff [of example_definition]
    by (simp add: Register_def NewRegistry_def example_registry_def)
qed

lemma example_enqueued:
  "Enqueue (NewRuntime example_registry) 1 example_intent =
     Inr (example_intent, (NewRuntime example_registry)\<lparr>rt_intents := [example_intent]\<rparr>)"
proof -
  have "intent_ok example_intent"
    by (simp add: intent_ok_def example_intent_def solid_simps knownDomains_def)
  moreover have "enqueue_defaults 1 example_intent = example_intent"
    by (simp add: enqueue_defaults_def example_intent_def is_zero_def)
  moreover have "in_Domain example_intent = DomainOwnership" "in_Status example_intent = IntentStatusPending"
    by (simp_all add: example_intent_def)
  ultimately show ?thesis
    by (simp add: Enqueue_def Let_def intents.accepts_iff is_zero_def Definition_of_def NewRuntime_def
        example_registry_def)
qed

lemma RunOnce_accepts: "now \<noteq> 0 \<Longrightarrow> 0 < n \<Longrightarrow> \<exists>rep r' w'. RunOnce env r w now n = (Inr rep, r', w')"
  by (auto simp: RunOnce_def is_zero_def Let_def split: prod.splits)

lemma registered_definitions_witness:
  "Definitions example_registry = [example_definition]"
  using registered_definitions [OF example_registered] by simp

lemma drain_outcome_witness:
  "\<exists>rep r'. RunOnce example_env ((NewRuntime example_registry)\<lparr>rt_intents := [example_intent]\<rparr>) () 5 3
     = (Inr rep, r', ()) \<and> rep_Claimed rep = rep_Processed rep \<and> length (rt_intents r') = 1"
proof -
  from RunOnce_accepts [of 5 3 example_env "(NewRuntime example_registry)\<lparr>rt_intents := [example_intent]\<rparr>" "()"]
  obtain rep r' where
    r: "RunOnce example_env ((NewRuntime example_registry)\<lparr>rt_intents := [example_intent]\<rparr>) () 5 3
      = (Inr rep, r', ())" by auto
  from drain_outcome [OF r] r show ?thesis by (simp add: touched_def)
qed

lemma stats_account_witness:
  "\<exists>r :: unit Runtime. rt_intents r = [example_intent] \<and> st_Queued (Stats_of r) + st_Succeeded (Stats_of r) + st_Failed (Stats_of r) = 1"
proof -
  let ?r = "(NewRuntime example_registry)\<lparr>rt_intents := [example_intent]\<rparr>"
  have "registry_inv example_registry"
    using example_definition_ok
    by (simp add: registry_inv_def example_registry_def) (simp add: example_definition_def default_definition_def)
  moreover have "run runtime_step (NewRuntime example_registry) ?r"
    by (rule run_step [OF run_refl]) (rule step_enqueue [OF example_enqueued])
  ultimately show ?thesis using stats_account [of example_registry ?r] by (intro exI [of _ ?r]) simp
qed

end
