(* ===== verification/Progress.thy ===== *)
theory Progress
  imports Workflow Phases Ordering
begin

text \<open>
  \<open>go/internal/workflow/collector_contract.go\<close> and \<open>progress.go\<close>: which reducer phases each
  collector family must publish, and how the counts of a run's work items and publications
  become the run's status and its completeness rows.
  Counts are Go \<open>int\<close>s kept as \<open>int\<close>: they count rows of one run, so their sum stays far inside
  64 bits. \<open>PublishedPhaseCounts\<close> is an association list, a missing key counting 0; where two of
  its entries are invalid Go reports whichever the map yields first, the model the first listed.
\<close>

section \<open>Contracts\<close>

record PhaseRequirement =
  req_Keyspace :: GraphProjectionKeyspace
  req_PhaseName :: GraphProjectionPhase
  req_Required :: bool

record PhasePublicationKey =
  pub_Keyspace :: GraphProjectionKeyspace
  pub_PhaseName :: GraphProjectionPhase

record CollectorContract =
  cc_CollectorKind :: CollectorKind
  cc_CanonicalKeyspaces :: "GraphProjectionKeyspace list"
  cc_RequiredPhases :: "PhaseRequirement list"

definition required :: "GraphProjectionKeyspace \<Rightarrow> GraphProjectionPhase \<Rightarrow> PhaseRequirement" where
  "required k p = \<lparr>req_Keyspace = k, req_PhaseName = p, req_Required = True\<rparr>"

definition collectorContracts :: "(CollectorKind \<times> CollectorContract) list" where
  "collectorContracts =
     [(CollectorGit,
       \<lparr>cc_CollectorKind = CollectorGit,
        cc_CanonicalKeyspaces = [KeyspaceCodeEntitiesUID, KeyspaceDeployableUnitUID, KeyspaceServiceUID],
        cc_RequiredPhases =
          [required KeyspaceCodeEntitiesUID PhaseCanonicalNodesCommitted,
           required KeyspaceCodeEntitiesUID PhaseSemanticNodesCommitted,
           required KeyspaceDeployableUnitUID PhaseDeployableUnitCorrelation,
           required KeyspaceServiceUID PhaseCanonicalNodesCommitted,
           required KeyspaceServiceUID PhaseDeploymentMapping,
           required KeyspaceServiceUID PhaseWorkloadMaterialization]\<rparr>),
      (CollectorTerraformState,
       \<lparr>cc_CollectorKind = CollectorTerraformState,
        cc_CanonicalKeyspaces = [KeyspaceTerraformResourceUID, KeyspaceTerraformModuleUID],
        cc_RequiredPhases =
          [required KeyspaceTerraformResourceUID PhaseCanonicalNodesCommitted,
           required KeyspaceTerraformModuleUID PhaseCanonicalNodesCommitted,
           required KeyspaceTerraformResourceUID PhaseCrossSourceAnchorReady]\<rparr>),
      (CollectorAWS,
       \<lparr>cc_CollectorKind = CollectorAWS,
        cc_CanonicalKeyspaces = [KeyspaceCloudResourceUID],
        cc_RequiredPhases =
          [required KeyspaceCloudResourceUID PhaseCanonicalNodesCommitted,
           required KeyspaceCloudResourceUID PhaseCrossSourceAnchorReady]\<rparr>),
      (CollectorWebhook,
       \<lparr>cc_CollectorKind = CollectorWebhook,
        cc_CanonicalKeyspaces = [KeyspaceWebhookEventUID],
        cc_RequiredPhases =
          [required KeyspaceWebhookEventUID PhaseCanonicalNodesCommitted,
           required KeyspaceWebhookEventUID PhaseCrossSourceAnchorReady]\<rparr>)]"

definition CollectorContractFor :: "CollectorKind \<Rightarrow> CollectorContract option" where
  "CollectorContractFor kind =
     (case map_of collectorContracts kind of
        None \<Rightarrow> None
      | Some c \<Rightarrow> Some (c\<lparr>cc_CanonicalKeyspaces := map (\<lambda>k. k) (cc_CanonicalKeyspaces c),
                         cc_RequiredPhases := map (\<lambda>p. p) (cc_RequiredPhases c)\<rparr>))"

definition CanonicalKeyspacesForCollector :: "CollectorKind \<Rightarrow> GraphProjectionKeyspace list" where
  "CanonicalKeyspacesForCollector kind =
     (case CollectorContractFor kind of None \<Rightarrow> [] | Some c \<Rightarrow> cc_CanonicalKeyspaces c)"

definition RequiredPhasesForCollector :: "CollectorKind \<Rightarrow> PhaseRequirement list" where
  "RequiredPhasesForCollector kind =
     (case CollectorContractFor kind of None \<Rightarrow> [] | Some c \<Rightarrow> cc_RequiredPhases c)"

section \<open>Progress\<close>

definition CompletenessStatusPending :: string where "CompletenessStatusPending = ''pending''"
definition CompletenessStatusReady :: string where "CompletenessStatusReady = ''ready''"
definition CompletenessStatusBlocked :: string where "CompletenessStatusBlocked = ''blocked''"

lemmas completeness_status_defs =
  CompletenessStatusPending_def CompletenessStatusReady_def CompletenessStatusBlocked_def

record CollectorRunProgress =
  cp_CollectorKind :: CollectorKind
  cp_TotalWorkItems :: int
  cp_PendingWorkItems :: int
  cp_ClaimedWorkItems :: int
  cp_CompletedWorkItems :: int
  cp_FailedTerminalItems :: int
  cp_PublishedPhaseCounts :: "(PhasePublicationKey \<times> int) list"

record RunProgressSnapshot =
  rps_Run :: Run
  rps_Collectors :: "CollectorRunProgress list"

definition PhaseRequirement_Validate :: "PhaseRequirement \<Rightarrow> error option" where
  "PhaseRequirement_Validate r = first_err
     [validateIdentifier ''keyspace'' (req_Keyspace r),
      validateIdentifier ''phase_name'' (req_PhaseName r)]"

definition PhasePublicationKey_Validate :: "PhasePublicationKey \<Rightarrow> error option" where
  "PhasePublicationKey_Validate k = first_err
     [validateIdentifier ''keyspace'' (pub_Keyspace k),
      validateIdentifier ''phase_name'' (pub_PhaseName k)]"

definition CollectorRunProgress_Validate :: "CollectorRunProgress \<Rightarrow> error option" where
  "CollectorRunProgress_Validate p = first_err
     ([validateIdentifier ''collector_kind'' (cp_CollectorKind p)]
      @ map (\<lambda>(f, n). check (n < 0) (Negative f))
          [(''total_work_items'', cp_TotalWorkItems p),
           (''pending_work_items'', cp_PendingWorkItems p),
           (''claimed_work_items'', cp_ClaimedWorkItems p),
           (''completed_work_items'', cp_CompletedWorkItems p),
           (''failed_terminal_items'', cp_FailedTerminalItems p)]
      @ [check (cp_TotalWorkItems p < cp_PendingWorkItems p + cp_ClaimedWorkItems p
                  + cp_CompletedWorkItems p + cp_FailedTerminalItems p)
           (Msg ''collector progress counts exceed total work items'')]
      @ map (\<lambda>(k, n). first_err [PhasePublicationKey_Validate k,
               check (n < 0) (Negative ''published phase count'')])
          (cp_PublishedPhaseCounts p))"

definition published_count :: "CollectorRunProgress \<Rightarrow> PhaseRequirement \<Rightarrow> int" where
  "published_count c r =
     (case map_of (cp_PublishedPhaseCounts c) \<lparr>pub_Keyspace = req_Keyspace r, pub_PhaseName = req_PhaseName r\<rparr> of
        Some n \<Rightarrow> n | None \<Rightarrow> 0)"

text \<open>The variables the loop of \<open>ReconcileRunProgress\<close> updates.\<close>

record progress =
  pg_rows :: "CompletenessState list"
  pg_anyPending :: bool
  pg_anyClaimed :: bool
  pg_anyCompleted :: bool
  pg_anyFailedTerminal :: bool
  pg_allCollectionComplete :: bool
  pg_allRequiredPhasesReady :: bool

definition requirement_step ::
  "string \<Rightarrow> time \<Rightarrow> CollectorRunProgress \<Rightarrow> PhaseRequirement \<Rightarrow> progress \<Rightarrow> progress" where
  "requirement_step runID at_time c r g =
     (let count = published_count c r;
          failed = 0 < cp_FailedTerminalItems c;
          complete = 0 < cp_TotalWorkItems c \<and> cp_TotalWorkItems c \<le> count;
          (status, detail) =
            (if failed then (CompletenessStatusBlocked,
               ''terminal collector failure prevents downstream completion'')
             else if complete then (CompletenessStatusReady,
               ''published for all '' @ show_int (cp_TotalWorkItems c) @ '' work items'')
             else (CompletenessStatusPending,
               ''published for '' @ show_int count @ '' of '' @ show_int (cp_TotalWorkItems c) @ '' work items''))
      in g\<lparr>pg_allRequiredPhasesReady := (if failed \<or> complete then pg_allRequiredPhasesReady g else False),
           pg_rows := pg_rows g @ [\<lparr>cs_RunID = runID, cs_CollectorKind = cp_CollectorKind c,
             cs_Keyspace = req_Keyspace r, cs_PhaseName = req_PhaseName r, cs_Required = req_Required r,
             cs_Status = status, cs_Detail = detail, cs_ObservedAt = at_time, cs_UpdatedAt = at_time\<rparr>]\<rparr>)"

fun requirement_steps ::
  "string \<Rightarrow> time \<Rightarrow> CollectorRunProgress \<Rightarrow> PhaseRequirement list \<Rightarrow> progress \<Rightarrow> progress result" where
  "requirement_steps runID t c [] g = Inr g"
| "requirement_steps runID t c (r # rs) g =
     checked (PhaseRequirement_Validate r) (requirement_steps runID t c rs (requirement_step runID t c r g))"

definition collector_flags :: "CollectorRunProgress \<Rightarrow> progress \<Rightarrow> progress" where
  "collector_flags c g =
     (let g = (if 0 < cp_PendingWorkItems c
               then g\<lparr>pg_anyPending := True, pg_allCollectionComplete := False\<rparr> else g);
          g = (if 0 < cp_ClaimedWorkItems c
               then g\<lparr>pg_anyClaimed := True, pg_allCollectionComplete := False\<rparr> else g);
          g = (if 0 < cp_CompletedWorkItems c then g\<lparr>pg_anyCompleted := True\<rparr> else g);
          g = (if 0 < cp_FailedTerminalItems c
               then g\<lparr>pg_anyFailedTerminal := True, pg_allCollectionComplete := False,
                      pg_allRequiredPhasesReady := False\<rparr> else g)
      in if cp_CompletedWorkItems c < cp_TotalWorkItems c \<and> cp_FailedTerminalItems c = 0
         then g\<lparr>pg_allCollectionComplete := False\<rparr> else g)"

fun collector_steps :: "string \<Rightarrow> time \<Rightarrow> CollectorRunProgress list \<Rightarrow> progress \<Rightarrow> progress result" where
  "collector_steps runID t [] g = Inr g"
| "collector_steps runID t (c # cs) g =
     checked (CollectorRunProgress_Validate c)
       (case requirement_steps runID t c (RequiredPhasesForCollector (cp_CollectorKind c)) g of
          Inl e \<Rightarrow> Inl e
        | Inr g' \<Rightarrow> collector_steps runID t cs (collector_flags c g'))"

definition cmp_rows :: "CompletenessState \<Rightarrow> CompletenessState \<Rightarrow> int" where
  "cmp_rows x y = or_else (compare (cs_CollectorKind x) (cs_CollectorKind y))
     (or_else (compare (cs_Keyspace x) (cs_Keyspace y)) (compare (cs_PhaseName x) (cs_PhaseName y)))"

definition derived_run :: "Run \<Rightarrow> progress \<Rightarrow> Run" where
  "derived_run rn g =
     (if pg_anyFailedTerminal g then rn\<lparr>run_Status := RunStatusFailed, run_FinishedAt := run_UpdatedAt rn\<rparr>
      else if pg_allCollectionComplete g \<and> pg_allRequiredPhasesReady g
      then rn\<lparr>run_Status := RunStatusComplete, run_FinishedAt := run_UpdatedAt rn\<rparr>
      else if pg_allCollectionComplete g then rn\<lparr>run_Status := RunStatusReducerConverging\<rparr>
      else if pg_anyClaimed g \<or> pg_anyPending g \<and> pg_anyCompleted g
      then rn\<lparr>run_Status := RunStatusCollectionActive\<rparr>
      else rn\<lparr>run_Status := RunStatusCollectionPending\<rparr>)"

definition ReconcileRunProgress :: "RunProgressSnapshot \<Rightarrow> time \<Rightarrow> (Run \<times> CompletenessState list) result" where
  "ReconcileRunProgress snapshot observedAt =
     checked (Run_Validate (rps_Run snapshot))
      (checked (check (is_zero observedAt) (Zero ''observed_at''))
       (let rn = (rps_Run snapshot)\<lparr>run_UpdatedAt := utc observedAt, run_FinishedAt := 0\<rparr> in
        if rps_Collectors snapshot = []
        then Inr (rn\<lparr>run_Status := RunStatusCollectionPending\<rparr>, [])
        else
          (case collector_steps (run_RunID rn) (run_UpdatedAt rn) (rps_Collectors snapshot)
                  \<lparr>pg_rows = [], pg_anyPending = False, pg_anyClaimed = False, pg_anyCompleted = False,
                   pg_anyFailedTerminal = False, pg_allCollectionComplete = True,
                   pg_allRequiredPhasesReady = True\<rparr> of
             Inl e \<Rightarrow> Inl e
           | Inr g \<Rightarrow> Inr (derived_run rn g, sort_by cmp_rows (pg_rows g)))))"

section \<open>What one reconciliation decides\<close>

definition failed_terminally :: "CollectorRunProgress \<Rightarrow> bool" where
  "failed_terminally c \<longleftrightarrow> 0 < cp_FailedTerminalItems c"

definition collection_complete :: "CollectorRunProgress \<Rightarrow> bool" where
  "collection_complete c \<longleftrightarrow> cp_PendingWorkItems c = 0 \<and> cp_ClaimedWorkItems c = 0
     \<and> cp_FailedTerminalItems c = 0 \<and> cp_CompletedWorkItems c = cp_TotalWorkItems c"

definition phase_ready :: "CollectorRunProgress \<Rightarrow> PhaseRequirement \<Rightarrow> bool" where
  "phase_ready c r \<longleftrightarrow> 0 < cp_TotalWorkItems c \<and> cp_TotalWorkItems c \<le> published_count c r"

definition phases_ready :: "CollectorRunProgress \<Rightarrow> bool" where
  "phases_ready c \<longleftrightarrow> \<not> failed_terminally c
     \<and> (\<forall>r \<in> set (RequiredPhasesForCollector (cp_CollectorKind c)). phase_ready c r)"

definition progress_ok :: "CollectorRunProgress \<Rightarrow> bool" where
  "progress_ok c \<longleftrightarrow> \<not> blank (cp_CollectorKind c)
     \<and> list_all (\<lambda>n. 0 \<le> n) [cp_TotalWorkItems c, cp_PendingWorkItems c, cp_ClaimedWorkItems c,
         cp_CompletedWorkItems c, cp_FailedTerminalItems c]
     \<and> cp_PendingWorkItems c + cp_ClaimedWorkItems c + cp_CompletedWorkItems c
         + cp_FailedTerminalItems c \<le> cp_TotalWorkItems c
     \<and> (\<forall>(k, n) \<in> set (cp_PublishedPhaseCounts c).
          \<not> blank (pub_Keyspace k) \<and> \<not> blank (pub_PhaseName k) \<and> 0 \<le> n)"

interpretation progress_rows: validator CollectorRunProgress_Validate progress_ok
  by unfold_locales
    (auto simp: CollectorRunProgress_Validate_def progress_ok_def first_err_map_None
      PhasePublicationKey_Validate_def split: prod.splits)

lemma required_phases_valid:
  "r \<in> set (RequiredPhasesForCollector k) \<Longrightarrow> PhaseRequirement_Validate r = None \<and> req_Required r"
  by (auto simp: RequiredPhasesForCollector_def CollectorContractFor_def collectorContracts_def
      PhaseRequirement_Validate_def required_def keyspace_defs phase_defs solid_simps
      split: option.splits if_splits)

definition row_of :: "string \<Rightarrow> time \<Rightarrow> CollectorRunProgress \<Rightarrow> PhaseRequirement \<Rightarrow> CompletenessState" where
  "row_of runID t c r = last (pg_rows (requirement_step runID t c r
     \<lparr>pg_rows = [], pg_anyPending = False, pg_anyClaimed = False, pg_anyCompleted = False,
      pg_anyFailedTerminal = False, pg_allCollectionComplete = True, pg_allRequiredPhasesReady = True\<rparr>))"

lemma requirement_step_eq:
  "requirement_step runID t c r g =
     g\<lparr>pg_allRequiredPhasesReady := pg_allRequiredPhasesReady g \<and> (failed_terminally c \<or> phase_ready c r),
       pg_rows := pg_rows g @ [row_of runID t c r]\<rparr>"
  by (auto simp: requirement_step_def row_of_def Let_def failed_terminally_def phase_ready_def split: prod.split)

lemma requirement_steps_eq:
  assumes "\<forall>r \<in> set rs. PhaseRequirement_Validate r = None"
  shows "requirement_steps runID t c rs g = Inr
     (g\<lparr>pg_allRequiredPhasesReady := pg_allRequiredPhasesReady g
          \<and> (\<forall>r \<in> set rs. failed_terminally c \<or> phase_ready c r),
        pg_rows := pg_rows g @ map (row_of runID t c) rs\<rparr>)"
  using assms
proof (induction rs arbitrary: g)
  case Nil
  show ?case by simp
next
  case (Cons r rs)
  then show ?case by (cases g) (auto simp: requirement_step_eq)
qed

text \<open>The rows of one collector, and the whole loop.\<close>

definition rows_of :: "string \<Rightarrow> time \<Rightarrow> CollectorRunProgress \<Rightarrow> CompletenessState list" where
  "rows_of runID t c = map (row_of runID t c) (RequiredPhasesForCollector (cp_CollectorKind c))"

lemma collector_flags_eq:
  assumes "progress_ok c"
  shows "collector_flags c g = g\<lparr>pg_anyPending := pg_anyPending g \<or> 0 < cp_PendingWorkItems c,
     pg_anyClaimed := pg_anyClaimed g \<or> 0 < cp_ClaimedWorkItems c,
     pg_anyCompleted := pg_anyCompleted g \<or> 0 < cp_CompletedWorkItems c,
     pg_anyFailedTerminal := pg_anyFailedTerminal g \<or> failed_terminally c,
     pg_allCollectionComplete := pg_allCollectionComplete g \<and> collection_complete c,
     pg_allRequiredPhasesReady := pg_allRequiredPhasesReady g \<and> \<not> failed_terminally c\<rparr>"
  using assms
  by (cases g) (auto simp: collector_flags_def Let_def failed_terminally_def collection_complete_def progress_ok_def)

lemma collector_steps_eq:
  assumes "list_all progress_ok cs"
  shows "collector_steps runID t cs g = Inr
     (g\<lparr>pg_rows := pg_rows g @ concat (map (rows_of runID t) cs),
        pg_anyPending := pg_anyPending g \<or> (\<exists>c \<in> set cs. 0 < cp_PendingWorkItems c),
        pg_anyClaimed := pg_anyClaimed g \<or> (\<exists>c \<in> set cs. 0 < cp_ClaimedWorkItems c),
        pg_anyCompleted := pg_anyCompleted g \<or> (\<exists>c \<in> set cs. 0 < cp_CompletedWorkItems c),
        pg_anyFailedTerminal := pg_anyFailedTerminal g \<or> (\<exists>c \<in> set cs. failed_terminally c),
        pg_allCollectionComplete := pg_allCollectionComplete g \<and> (\<forall>c \<in> set cs. collection_complete c),
        pg_allRequiredPhasesReady := pg_allRequiredPhasesReady g \<and> (\<forall>c \<in> set cs. phases_ready c)\<rparr>)"
  using assms
proof (induction cs arbitrary: g)
  case Nil
  show ?case by simp
next
  case (Cons c cs)
  have "requirement_steps runID t c (RequiredPhasesForCollector (cp_CollectorKind c)) g = Inr
     (g\<lparr>pg_allRequiredPhasesReady := pg_allRequiredPhasesReady g
          \<and> (\<forall>r \<in> set (RequiredPhasesForCollector (cp_CollectorKind c)). failed_terminally c \<or> phase_ready c r),
        pg_rows := pg_rows g @ rows_of runID t c\<rparr>)"
    unfolding rows_of_def using required_phases_valid by (intro requirement_steps_eq) blast
  moreover have "CollectorRunProgress_Validate c = None" "progress_ok c"
    using Cons.prems progress_rows.accepts_iff [of c] by simp_all
  ultimately show ?case
    using Cons by (cases g) (auto simp: collector_flags_eq phases_ready_def)
qed

lemma collector_steps_Inr: "collector_steps runID t cs g = Inr g' \<Longrightarrow> list_all progress_ok cs"
proof (induction cs arbitrary: g)
  case Nil
  show ?case by simp
next
  case (Cons c cs)
  then show ?case by (auto simp: progress_rows.accepts_iff split: sum.splits)
qed

interpretation rows_order: comparator cmp_rows
  unfolding cmp_rows_def [abs_def] by (intro comparator_lex comparator_key)

text \<open>
  Reconciliation succeeds exactly when the run and every progress row validate and the
  time is not zero. The status it derives: failed exactly when some collector has a terminal
  failure, complete exactly when every collector's items are completed and all its required
  phases are published for all of them, converging when only the phases are missing; the run
  has a finish time exactly when it failed or completed.
\<close>

theorem reconciled_status:
  assumes "rps_Collectors s \<noteq> []"
  shows "((\<exists>x. ReconcileRunProgress s t = Inr x) \<longleftrightarrow>
            Run_Validate (rps_Run s) = None \<and> t \<noteq> 0 \<and> list_all progress_ok (rps_Collectors s))
     \<and> (\<forall>r rows. ReconcileRunProgress s t = Inr (r, rows) \<longrightarrow>
          (run_Status r = RunStatusFailed \<longleftrightarrow> (\<exists>c \<in> set (rps_Collectors s). failed_terminally c))
        \<and> (run_Status r = RunStatusComplete \<longleftrightarrow>
             (\<forall>c \<in> set (rps_Collectors s). collection_complete c \<and> phases_ready c))
        \<and> (run_Status r = RunStatusReducerConverging \<longleftrightarrow>
             (\<forall>c \<in> set (rps_Collectors s). collection_complete c)
             \<and> (\<exists>c \<in> set (rps_Collectors s). \<not> phases_ready c))
        \<and> (run_FinishedAt r \<noteq> 0 \<longleftrightarrow> run_Status r \<in> {RunStatusFailed, RunStatusComplete})
        \<and> run_UpdatedAt r = t \<and> run_RunID r = run_RunID (rps_Run s))"
proof -
  have nf: "\<not> failed_terminally c" if "collection_complete c" for c
    using that by (simp add: collection_complete_def failed_terminally_def)
  let ?cs = "rps_Collectors s"
  show ?thesis
  proof (cases "Run_Validate (rps_Run s) = None \<and> t \<noteq> 0 \<and> list_all progress_ok ?cs")
    case True
    with assms nf show ?thesis
      by (auto simp: ReconcileRunProgress_def Let_def is_zero_def collector_steps_eq derived_run_def)
  next
    case False
    then have "\<nexists>x. ReconcileRunProgress s t = Inr x"
      using assms by (auto simp: ReconcileRunProgress_def Let_def is_zero_def
          split: sum.splits if_splits dest: collector_steps_Inr)
    with False show ?thesis by blast
  qed
qed

text \<open>
  The completeness rows of a successful reconciliation are exactly one row per collector
  and required phase, sorted by collector kind, keyspace and phase, each of them valid to store
  and required; a row is ready exactly when the phase is published for all items of a collector
  without terminal failure, and blocked exactly when its collector failed.
\<close>

theorem reconciled_rows:
  assumes "ReconcileRunProgress s t = Inr (r, rows)"
  shows "mset rows = mset (concat (map (rows_of (run_RunID r) t) (rps_Collectors s)))
     \<and> ordered cmp_rows rows
     \<and> (\<forall>row \<in> set rows. CompletenessState_Validate row = None \<and> cs_Required row)
     \<and> (\<forall>row \<in> set rows. \<exists>c \<in> set (rps_Collectors s).
          \<exists>q \<in> set (RequiredPhasesForCollector (cp_CollectorKind c)).
            row = row_of (run_RunID r) t c q
          \<and> (cs_Status row = CompletenessStatusReady \<longleftrightarrow> \<not> failed_terminally c \<and> phase_ready c q)
          \<and> (cs_Status row = CompletenessStatusBlocked \<longleftrightarrow> failed_terminally c))"
proof (cases "rps_Collectors s = []")
  case True
  with assms have "rows = []" by (auto simp: ReconcileRunProgress_def Let_def)
  with True show ?thesis by (simp add: ordered_def)
next
  case False
  have v: "Run_Validate (rps_Run s) = None" "t \<noteq> 0"
    using assms by (auto simp: ReconcileRunProgress_def is_zero_def)
  have ok: "list_all progress_ok (rps_Collectors s)"
    using assms False by (auto simp: ReconcileRunProgress_def Let_def split: sum.splits dest: collector_steps_Inr)
  have id: "run_RunID r = run_RunID (rps_Run s)" and rows: "rows = sort_by cmp_rows
      (concat (map (rows_of (run_RunID (rps_Run s)) t) (rps_Collectors s)))"
    using assms v ok False
    by (auto simp: ReconcileRunProgress_def Let_def is_zero_def collector_steps_eq derived_run_def)
  have run: "\<not> blank (run_RunID r)" using v(1) id by (simp add: validate_iffs run_ok_def)
  have fields: "cs_RunID (row_of i t c q) = i \<and> cs_CollectorKind (row_of i t c q) = cp_CollectorKind c
      \<and> cs_Keyspace (row_of i t c q) = req_Keyspace q \<and> cs_PhaseName (row_of i t c q) = req_PhaseName q
      \<and> cs_Required (row_of i t c q) = req_Required q \<and> cs_ObservedAt (row_of i t c q) = t
      \<and> cs_UpdatedAt (row_of i t c q) = t
      \<and> cs_Status (row_of i t c q) = (if failed_terminally c then CompletenessStatusBlocked
          else if phase_ready c q then CompletenessStatusReady else CompletenessStatusPending)" for i c q
    by (simp add: row_of_def requirement_step_def Let_def failed_terminally_def phase_ready_def split: prod.split)
  have names: "CompletenessStatusBlocked \<noteq> CompletenessStatusReady"
    "CompletenessStatusPending \<noteq> CompletenessStatusReady" "CompletenessStatusPending \<noteq> CompletenessStatusBlocked"
    "\<not> blank CompletenessStatusBlocked" "\<not> blank CompletenessStatusReady" "\<not> blank CompletenessStatusPending"
    by (simp_all add: completeness_status_defs solid_simps)
  have each: "\<exists>c \<in> set (rps_Collectors s). \<exists>q \<in> set (RequiredPhasesForCollector (cp_CollectorKind c)).
      progress_ok c \<and> row = row_of (run_RunID r) t c q" if "row \<in> set rows" for row
    using that ok unfolding rows id by (auto simp: rows_of_def list_all_iff)
  have valid: "CompletenessState_Validate (row_of (run_RunID r) t c q) = None"
    if "progress_ok c" "q \<in> set (RequiredPhasesForCollector (cp_CollectorKind c))" for c q
    using that required_phases_valid [OF that(2)] run v(2) names
    by (simp add: validate_iffs completeness_ok_def fields progress_ok_def PhaseRequirement_Validate_def)
  show ?thesis
  proof (intro conjI ballI)
    show "mset rows = mset (concat (map (rows_of (run_RunID r) t) (rps_Collectors s)))"
      by (simp add: rows id)
    show "ordered cmp_rows rows" unfolding rows by (rule rows_order.ordered_sort_by)
    fix row assume "row \<in> set rows"
    from each [OF this] obtain c q where c: "c \<in> set (rps_Collectors s)" "progress_ok c"
      and q: "q \<in> set (RequiredPhasesForCollector (cp_CollectorKind c))" and row: "row = row_of (run_RunID r) t c q"
      by blast
    show "CompletenessState_Validate row = None" unfolding row by (rule valid [OF c(2) q])
    show "cs_Required row" unfolding row using fields required_phases_valid [OF q] by simp
    show "\<exists>c \<in> set (rps_Collectors s). \<exists>q \<in> set (RequiredPhasesForCollector (cp_CollectorKind c)).
        row = row_of (run_RunID r) t c q
      \<and> (cs_Status row = CompletenessStatusReady \<longleftrightarrow> \<not> failed_terminally c \<and> phase_ready c q)
      \<and> (cs_Status row = CompletenessStatusBlocked \<longleftrightarrow> failed_terminally c)"
      using c q row fields names by (intro bexI [of _ c] bexI [of _ q]) auto
  qed
qed

definition example_snapshot :: RunProgressSnapshot where
  "example_snapshot = \<lparr>rps_Run = \<lparr>run_RunID = ''r1'', run_TriggerKind = TriggerKindSchedule,
       run_Status = RunStatusCollectionActive, run_RequestedScopeSet = [], run_RequestedCollector = [],
       run_CreatedAt = 1, run_UpdatedAt = 2, run_FinishedAt = 0\<rparr>,
     rps_Collectors = [\<lparr>cp_CollectorKind = CollectorWebhook, cp_TotalWorkItems = 1,
       cp_PendingWorkItems = 0, cp_ClaimedWorkItems = 0, cp_CompletedWorkItems = 1,
       cp_FailedTerminalItems = 0, cp_PublishedPhaseCounts = []\<rparr>]\<rparr>"

lemma example_snapshot_facts:
  "rps_Collectors example_snapshot \<noteq> []" "Run_Validate (rps_Run example_snapshot) = None"
  "list_all progress_ok (rps_Collectors example_snapshot)"
  "\<forall>c \<in> set (rps_Collectors example_snapshot). collection_complete c \<and> \<not> phases_ready c"
  by (simp_all add: example_snapshot_def validate_iffs run_ok_def solid_simps progress_ok_def
      collector_kind_defs collection_complete_def phases_ready_def failed_terminally_def phase_ready_def
      published_count_def RequiredPhasesForCollector_def CollectorContractFor_def collectorContracts_def)
    blast

lemma reconciled_status_witness:
  "\<exists>r rows. ReconcileRunProgress example_snapshot 5 = Inr (r, rows) \<and> run_Status r = RunStatusReducerConverging
     \<and> run_FinishedAt r = 0"
proof -
  note st = reconciled_status [OF example_snapshot_facts(1), of 5]
  from st example_snapshot_facts obtain r rows where r: "ReconcileRunProgress example_snapshot 5 = Inr (r, rows)"
    by auto
  with st example_snapshot_facts(1,4) have "run_Status r = RunStatusReducerConverging"
    and "run_FinishedAt r = 0"
    by (auto dest: hd_in_set)
  with r show ?thesis by blast
qed

lemma reconciled_rows_witness:
  "\<exists>r rows. ReconcileRunProgress example_snapshot 5 = Inr (r, rows) \<and> length rows = 2 \<and> ordered cmp_rows rows"
proof -
  from example_snapshot_facts obtain r rows where r: "ReconcileRunProgress example_snapshot 5 = Inr (r, rows)"
    by (simp add: ReconcileRunProgress_def Let_def is_zero_def collector_steps_eq)
  from reconciled_rows [OF r] have "length rows = size (mset (concat (map (rows_of (run_RunID r) 5) (rps_Collectors example_snapshot))))"
    by (metis size_mset)
  also have "\<dots> = 2"
    by (simp add: example_snapshot_def rows_of_def RequiredPhasesForCollector_def CollectorContractFor_def
        collectorContracts_def collector_kind_defs)
  finally show ?thesis using reconciled_rows [OF r] r by blast
qed

end
