(* ===== verification/Leases.thy ===== *)
theory Leases
  imports Machines
begin

text \<open>
  The contract of a store that leases work items under fencing tokens. A ticket is what the
  holder of a claim presents with every mutation; \<open>issued\<close> are the tickets ever handed out,
  \<open>active\<close> those a mutation is still accepted with. A provider promises that a step keeps its
  well-formedness, never takes a ticket back into circulation, issues a ticket only with a
  token above the item's earlier ones, and has at most one active ticket per item. What a
  client may rely on over any number of steps is proved here once.
\<close>

lemma run_one: "step s t \<Longrightarrow> run step s t"
  by (rule run_step [OF run_refl])

locale leases = preserved step ok
  for step :: "'s \<Rightarrow> 's \<Rightarrow> bool" and ok :: "'s \<Rightarrow> bool" +
  fixes issued :: "'s \<Rightarrow> 't set" and active :: "'s \<Rightarrow> 't set"
    and item_of :: "'t \<Rightarrow> 'k" and token_of :: "'t \<Rightarrow> int"
  assumes active_issued: "active s \<subseteq> issued s"
    and one_active: "ok s \<Longrightarrow> x \<in> active s \<Longrightarrow> y \<in> active s \<Longrightarrow> item_of x = item_of y \<Longrightarrow> x = y"
    and step_issued: "step s t \<Longrightarrow> ok s \<Longrightarrow> issued s \<subseteq> issued t"
    and step_ended: "step s t \<Longrightarrow> ok s \<Longrightarrow> active t \<inter> issued s \<subseteq> active s"
    and step_fresh: "step s t \<Longrightarrow> ok s \<Longrightarrow> x \<in> issued t \<Longrightarrow> x \<notin> issued s \<Longrightarrow> y \<in> issued s
       \<Longrightarrow> item_of x = item_of y \<Longrightarrow> token_of y < token_of x"
begin

lemma run_issued: "run step s t \<Longrightarrow> ok s \<Longrightarrow> issued s \<subseteq> issued t"
proof (induction rule: run.induct)
  case (run_step s t u)
  from run_preserves [OF run_step.hyps(1) run_step.prems] have "ok t" .
  from step_issued [OF run_step.hyps(2) this] run_step.IH [OF run_step.prems] show ?case by blast
qed simp

text \<open>An ended ticket stays ended.\<close>

lemma ended_stays:
  assumes "run step s t" and "ok s" and "x \<in> issued s" and "x \<notin> active s"
  shows "x \<notin> active t"
  using assms
proof (induction rule: run.induct)
  case (run_step s t u)
  have "x \<in> issued t" using run_issued [OF run_step.hyps(1) run_step.prems(1)] run_step.prems(2) by blast
  moreover have "ok t" by (rule run_preserves [OF run_step.hyps(1) run_step.prems(1)])
  ultimately show ?case
    using step_ended [OF run_step.hyps(2)] run_step.IH [OF run_step.prems] by blast
qed simp

text \<open>Tokens grow along the tickets of an item.\<close>

lemma later_token:
  assumes "run step s t" and "ok s" and "x \<in> issued t" and "x \<notin> issued s" and "y \<in> issued s"
    and "item_of x = item_of y"
  shows "token_of y < token_of x"
  using assms
proof (induction rule: run.induct)
  case (run_step s t u)
  have ok: "ok t" by (rule run_preserves [OF run_step.hyps(1) run_step.prems(1)])
  have y: "y \<in> issued t" using run_issued [OF run_step.hyps(1) run_step.prems(1)] run_step.prems(4) by blast
  show ?case
  proof (cases "x \<in> issued t")
    case True
    then show ?thesis using run_step.IH run_step.prems by blast
  next
    case False
    then show ?thesis using step_fresh [OF run_step.hyps(2) ok run_step.prems(2) False y] run_step.prems(5) by blast
  qed
qed simp

text \<open>A ticket issued since has taken the item over from every earlier one.\<close>

lemma superseded:
  assumes "run step s t" and "ok s" and "y \<in> active t" and "y \<notin> issued s" and "x \<in> issued s"
    and "item_of x = item_of y"
  shows "x \<notin> active t"
proof
  assume "x \<in> active t"
  with assms have "x = y" using run_preserves one_active by blast
  with assms show False by blast
qed

end

end
