(* ===== verification/ClaimStore.thy ===== *)
theory ClaimStore
  imports Workflow Sql Leases
begin

text \<open>
  \<open>go/internal/storage/postgres/workflow_control*.go\<close>: the tables of the workflow control
  plane and every statement on them. Nullable columns are options. A statement is atomic;
  \<open>locked\<close> names the work items whose rows (or whose claims' rows) other transactions hold,
  which \<open>SKIP LOCKED\<close> passes over, \<open>collate\<close> is the collation that orders text, \<open>jsonb\<close> is the
  cast of text to JSONB (the canonical text, or a failure), and \<open>untyped\<close> says whether the
  server accepts a parameter that a statement does not use (PostgreSQL's extended protocol
  does not). TIMESTAMPTZ keeps the whole instant here.
\<close>

section \<open>Tables\<close>

record RunRow =
  rr_RunID :: string
  rr_TriggerKind :: WorkflowTriggerKind
  rr_Status :: RunStatus
  rr_RequestedScopeSet :: string
  rr_RequestedCollector :: "string option"
  rr_CreatedAt :: time
  rr_UpdatedAt :: time
  rr_FinishedAt :: "time option"

record ItemRow =
  ir_WorkItemID :: string
  ir_RunID :: string
  ir_CollectorKind :: string
  ir_CollectorInstanceID :: string
  ir_SourceSystem :: string
  ir_ScopeID :: string
  ir_AcceptanceUnitID :: string
  ir_SourceRunID :: string
  ir_GenerationID :: string
  ir_FairnessKey :: "string option"
  ir_Status :: WorkItemStatus
  ir_AttemptCount :: int
  ir_CurrentClaimID :: "string option"
  ir_CurrentFencingToken :: int
  ir_CurrentOwnerID :: "string option"
  ir_LeaseExpiresAt :: "time option"
  ir_VisibleAt :: "time option"
  ir_LastClaimedAt :: "time option"
  ir_LastCompletedAt :: "time option"
  ir_LastFailureClass :: "string option"
  ir_LastFailureMessage :: "string option"
  ir_CreatedAt :: time
  ir_UpdatedAt :: time

record ClaimRow =
  cr_ClaimID :: string
  cr_WorkItemID :: string
  cr_FencingToken :: int
  cr_OwnerID :: string
  cr_Status :: ClaimStatus
  cr_ClaimedAt :: time
  cr_HeartbeatAt :: time
  cr_LeaseExpiresAt :: time
  cr_FinishedAt :: "time option"
  cr_FailureClass :: "string option"
  cr_FailureMessage :: "string option"
  cr_CreatedAt :: time
  cr_UpdatedAt :: time

record ControlDb =
  db_Runs :: "RunRow list"
  db_Items :: "ItemRow list"
  db_Claims :: "ClaimRow list"

record ControlStore =
  ws_HasDatabase :: bool
  ws_HasBeginner :: bool
  ws_DefaultClaimLeaseTTL :: duration
  ws_DefaultHeartbeatInterval :: duration
  ws_DefaultExpiredRequeueDelay :: duration

text \<open>A statement fails without effect, or answers and leaves the new tables.\<close>

type_synonym 'a statement = "ControlDb \<Rightarrow> error + 'a \<times> ControlDb"

section \<open>The store and its arguments\<close>

definition workflowEnqueueBatchSize :: nat where
  "workflowEnqueueBatchSize = 250"
definition DefaultWorkflowClaimLeaseTTL :: duration where
  "DefaultWorkflowClaimLeaseTTL = seconds 60"
definition DefaultWorkflowClaimHeartbeatInterval :: duration where
  "DefaultWorkflowClaimHeartbeatInterval = seconds 20"
definition DefaultWorkflowExpiredClaimRequeueDelay :: duration where
  "DefaultWorkflowExpiredClaimRequeueDelay = seconds 5"

definition ErrWorkflowClaimRejected :: error where
  "ErrWorkflowClaimRejected = Msg ''workflow claim rejected''"

text \<open>\<open>beginner, _ := db.(Beginner)\<close>: whether the database starts transactions.\<close>

definition NewWorkflowControlStore :: "bool \<Rightarrow> ControlStore" where
  "NewWorkflowControlStore beginner = \<lparr>ws_HasDatabase = True, ws_HasBeginner = beginner,
     ws_DefaultClaimLeaseTTL = DefaultWorkflowClaimLeaseTTL,
     ws_DefaultHeartbeatInterval = DefaultWorkflowClaimHeartbeatInterval,
     ws_DefaultExpiredRequeueDelay = DefaultWorkflowExpiredClaimRequeueDelay\<rparr>"

definition requires_database :: "ControlStore \<Rightarrow> error option" where
  "requires_database s = check (\<not> ws_HasDatabase s) (Required ''workflow control store database'')"

definition validateClaimSelector :: "ClaimSelector \<Rightarrow> error option" where
  "validateClaimSelector sel = first_err
     [check (blank (sel_CollectorKind sel)) (Required ''collector kind''),
      check (blank (sel_CollectorInstanceID sel)) (Required ''collector instance id''),
      check (blank (sel_OwnerID sel)) (Required ''owner id''),
      check (blank (sel_ClaimID sel)) (Required ''claim id'')]"

definition validateClaimMutation :: "ClaimMutation \<Rightarrow> error option" where
  "validateClaimMutation m = first_err
     [check (blank (mut_WorkItemID m)) (Required ''work item id''),
      check (blank (mut_ClaimID m)) (Required ''claim id''),
      check (mut_FencingToken m \<le> 0) (NotPositive ''fencing token''),
      check (blank (mut_OwnerID m)) (Required ''owner id''),
      check (is_zero (mut_ObservedAt m)) (Required ''observed at'')]"

definition normalizeRequestedScopeSet :: "string \<Rightarrow> string" where
  "normalizeRequestedScopeSet raw = (if blank raw then ''[]'' else raw)"

definition effectiveClaimLeaseTTL :: "ControlStore \<Rightarrow> duration \<Rightarrow> duration result" where
  "effectiveClaimLeaseTTL s provided =
     (let ttl = (if provided \<le> 0 then ws_DefaultClaimLeaseTTL s else provided) in
      checked (first_err
        [check (ttl \<le> 0) (NotPositive ''claim lease duration''),
         check (ws_DefaultHeartbeatInterval s \<le> 0) (NotPositive ''heartbeat interval''),
         check (ttl \<le> ws_DefaultHeartbeatInterval s)
           (Msg ''heartbeat interval must be less than claim lease duration'')])
        (Inr ttl))"

definition effectiveExpiredRequeueDelay :: "ControlStore \<Rightarrow> duration \<Rightarrow> duration" where
  "effectiveExpiredRequeueDelay s provided =
     (if 0 < provided then provided
      else if 0 < ws_DefaultExpiredRequeueDelay s then ws_DefaultExpiredRequeueDelay s
      else DefaultWorkflowExpiredClaimRequeueDelay)"

definition validateMutationResult :: "nat \<Rightarrow> error option" where
  "validateMutationResult rowsAffected = check (rowsAffected = 0) ErrWorkflowClaimRejected"

text \<open>
  \<open>nullableRFC3339\<close> prints whole seconds, and the statements turn the empty string into NULL:
  the instant that reaches the column.
\<close>

definition nullableRFC3339 :: "time \<Rightarrow> time option" where
  "nullableRFC3339 t = (if is_zero t then None else Some (t - t mod seconds 1))"

definition nullableTime :: "time \<Rightarrow> time option" where
  "nullableTime t = (if is_zero t then None else Some (utc t))"

section \<open>Runs and work items\<close>

definition run_row :: "string \<Rightarrow> Run \<Rightarrow> RunRow" where
  "run_row scopes r = \<lparr>rr_RunID = run_RunID r, rr_TriggerKind = run_TriggerKind r,
     rr_Status = run_Status r, rr_RequestedScopeSet = scopes,
     rr_RequestedCollector = nullif (run_RequestedCollector r),
     rr_CreatedAt = utc (run_CreatedAt r), rr_UpdatedAt = utc (run_UpdatedAt r),
     rr_FinishedAt = nullableRFC3339 (run_FinishedAt r)\<rparr>"

definition merge_run :: "RunRow \<Rightarrow> RunRow \<Rightarrow> RunRow" where
  "merge_run old excluded = excluded\<lparr>rr_RunID := rr_RunID old, rr_CreatedAt := rr_CreatedAt old\<rparr>"

definition CreateRun :: "(string \<Rightarrow> string option) \<Rightarrow> ControlStore \<Rightarrow> Run \<Rightarrow> ControlDb \<Rightarrow> error option \<times> ControlDb" where
  "CreateRun jsonb s r db =
     (case requires_database s of Some e \<Rightarrow> (Some e, db)
      | None \<Rightarrow>
        (case Run_Validate r of
           Some e \<Rightarrow> (Some (Wrap ''create workflow run'' e), db)
         | None \<Rightarrow>
             (case jsonb (normalizeRequestedScopeSet (run_RequestedScopeSet r)) of
                None \<Rightarrow> (Some (Wrap ''create workflow run'' (Msg ''invalid input syntax for type json'')), db)
              | Some doc \<Rightarrow>
                  (None, db\<lparr>db_Runs := upsert_row rr_RunID merge_run (run_row doc r) (db_Runs db)\<rparr>))))"

definition item_row :: "WorkItem \<Rightarrow> ItemRow" where
  "item_row w = \<lparr>ir_WorkItemID = wi_WorkItemID w, ir_RunID = wi_RunID w,
     ir_CollectorKind = wi_CollectorKind w, ir_CollectorInstanceID = wi_CollectorInstanceID w,
     ir_SourceSystem = wi_SourceSystem w, ir_ScopeID = wi_ScopeID w,
     ir_AcceptanceUnitID = wi_AcceptanceUnitID w, ir_SourceRunID = wi_SourceRunID w,
     ir_GenerationID = wi_GenerationID w, ir_FairnessKey = nullif (wi_FairnessKey w),
     ir_Status = wi_Status w, ir_AttemptCount = wi_AttemptCount w,
     ir_CurrentClaimID = nullif (wi_CurrentClaimID w),
     ir_CurrentFencingToken = wi_CurrentFencingToken w,
     ir_CurrentOwnerID = nullif (wi_CurrentOwnerID w),
     ir_LeaseExpiresAt = nullableRFC3339 (wi_LeaseExpiresAt w),
     ir_VisibleAt = nullableRFC3339 (wi_VisibleAt w),
     ir_LastClaimedAt = nullableRFC3339 (wi_LastClaimedAt w),
     ir_LastCompletedAt = nullableRFC3339 (wi_LastCompletedAt w),
     ir_LastFailureClass = nullif (wi_LastFailureClass w),
     ir_LastFailureMessage = nullif (wi_LastFailureMessage w),
     ir_CreatedAt = utc (wi_CreatedAt w), ir_UpdatedAt = utc (wi_UpdatedAt w)\<rparr>"

text \<open>
  One multi-row INSERT with \<open>ON CONFLICT (work_item_id) DO NOTHING\<close>; the rows it inserts must
  name runs that exist.
\<close>

definition enqueueWorkItemBatch :: "WorkItem list \<Rightarrow> ControlDb \<Rightarrow> error option \<times> ControlDb" where
  "enqueueWorkItemBatch items db =
     (let rows = map item_row items;
          tab = fold (insert_row ir_WorkItemID) rows (db_Items db);
          failed = (\<lambda>e. (Some (Wrap ''enqueue workflow work item batch'' e), db)) in
      if \<not> list_all (\<lambda>i. integer_fits (ir_AttemptCount i) \<and> bigint_fits (ir_CurrentFencingToken i)) rows
      then failed (Msg ''integer out of range'')
      else if \<not> list_all (\<lambda>i. ir_RunID i \<in> set (map rr_RunID (db_Runs db))) (drop (length (db_Items db)) tab)
      then failed (Msg ''violates foreign key constraint'')
      else (None, db\<lparr>db_Items := tab\<rparr>))"

definition EnqueueWorkItems :: "ControlStore \<Rightarrow> WorkItem list \<Rightarrow> ControlDb \<Rightarrow> error option \<times> ControlDb" where
  "EnqueueWorkItems s items db =
     (case requires_database s of Some e \<Rightarrow> (Some e, db)
      | None \<Rightarrow>
        (case first_err (map WorkItem_Validate items) of
           Some e \<Rightarrow> (Some (Wrap ''enqueue workflow work items'' e), db)
         | None \<Rightarrow> exec_batches workflowEnqueueBatchSize enqueueWorkItemBatch items db))"

section \<open>Claiming\<close>

definition eligible :: "ClaimSelector \<Rightarrow> time \<Rightarrow> ItemRow \<Rightarrow> bool" where
  "eligible sel now i \<longleftrightarrow>
     ir_CollectorKind i = sel_CollectorKind sel
     \<and> ir_CollectorInstanceID i = sel_CollectorInstanceID sel
     \<and> ir_Status i = WorkItemStatusPending
     \<and> ir_SourceSystem i \<noteq> [] \<and> ir_AcceptanceUnitID i \<noteq> []
     \<and> ir_SourceRunID i \<noteq> [] \<and> ir_GenerationID i \<noteq> []
     \<and> (case ir_VisibleAt i of None \<Rightarrow> True | Some t \<Rightarrow> t \<le> now)"

definition claim_time :: "ItemRow \<Rightarrow> time" where
  "claim_time i = (case ir_VisibleAt i of Some t \<Rightarrow> t | None \<Rightarrow> ir_CreatedAt i)"

definition cmp_claimable :: "(string \<Rightarrow> string \<Rightarrow> int) \<Rightarrow> ItemRow \<Rightarrow> ItemRow \<Rightarrow> int" where
  "cmp_claimable collate x y =
     or_else (compare (claim_time x) (claim_time y))
       (or_else (compare (ir_CreatedAt x) (ir_CreatedAt y))
          (collate (ir_WorkItemID x) (ir_WorkItemID y)))"

definition claimed_row :: "ClaimSelector \<Rightarrow> time \<Rightarrow> time \<Rightarrow> ItemRow \<Rightarrow> ItemRow" where
  "claimed_row sel now lease i = i\<lparr>ir_Status := WorkItemStatusClaimed,
     ir_AttemptCount := ir_AttemptCount i + 1, ir_CurrentClaimID := Some (sel_ClaimID sel),
     ir_CurrentFencingToken := ir_CurrentFencingToken i + 1,
     ir_CurrentOwnerID := Some (sel_OwnerID sel), ir_LeaseExpiresAt := Some lease,
     ir_LastClaimedAt := Some now, ir_UpdatedAt := now\<rparr>"

definition claim_row :: "ClaimSelector \<Rightarrow> time \<Rightarrow> time \<Rightarrow> ItemRow \<Rightarrow> ClaimRow" where
  "claim_row sel now lease i = \<lparr>cr_ClaimID = sel_ClaimID sel, cr_WorkItemID = ir_WorkItemID i,
     cr_FencingToken = ir_CurrentFencingToken i, cr_OwnerID = sel_OwnerID sel,
     cr_Status = ClaimStatusActive, cr_ClaimedAt = now, cr_HeartbeatAt = now,
     cr_LeaseExpiresAt = lease, cr_FinishedAt = None, cr_FailureClass = None,
     cr_FailureMessage = None, cr_CreatedAt = now, cr_UpdatedAt = now\<rparr>"

text \<open>\<open>claimNextWorkflowWorkItemQuery\<close>: the claimed item's row and the inserted claim's row.\<close>

definition claimNextWorkflowWorkItemQuery ::
  "(string \<Rightarrow> string \<Rightarrow> int) \<Rightarrow> string set \<Rightarrow> ClaimSelector \<Rightarrow> time \<Rightarrow> time \<Rightarrow> (ItemRow \<times> ClaimRow) option statement"
where
  "claimNextWorkflowWorkItemQuery collate locked sel now lease db =
     (case sort_by (cmp_claimable collate)
         (filter (\<lambda>i. eligible sel now i \<and> ir_WorkItemID i \<notin> locked) (db_Items db)) of
        [] \<Rightarrow> Inr (None, db)
      | candidate # _ \<Rightarrow>
          (let item = claimed_row sel now lease candidate;
               claim = claim_row sel now lease item in
           if \<not> integer_fits (ir_AttemptCount item) \<or> \<not> bigint_fits (ir_CurrentFencingToken item)
           then Inl (Msg ''integer out of range'')
           else if \<exists>c \<in> set (db_Claims db). cr_ClaimID c = cr_ClaimID claim
             \<or> (cr_WorkItemID c = cr_WorkItemID claim \<and> cr_FencingToken c = cr_FencingToken claim)
           then Inl (Msg ''duplicate key value violates unique constraint'')
           else Inr (Some (item, claim),
             db\<lparr>db_Items := map (\<lambda>i. if ir_WorkItemID i = ir_WorkItemID candidate
                  then claimed_row sel now lease i else i) (db_Items db),
                db_Claims := db_Claims db @ [claim]\<rparr>)))"

text \<open>The columns \<open>scanClaimedWorkflowWorkItem\<close> reads; the fields it does not read stay zero.\<close>

definition scanClaimedWorkflowWorkItem :: "ItemRow \<times> ClaimRow \<Rightarrow> WorkItem \<times> Claim" where
  "scanClaimedWorkflowWorkItem row = (case row of (i, c) \<Rightarrow>
     (\<lparr>wi_WorkItemID = ir_WorkItemID i, wi_RunID = ir_RunID i,
       wi_CollectorKind = trim_space (ir_CollectorKind i),
       wi_CollectorInstanceID = ir_CollectorInstanceID i,
       wi_SourceSystem = trim_space (ir_SourceSystem i), wi_ScopeID = ir_ScopeID i,
       wi_AcceptanceUnitID = trim_space (ir_AcceptanceUnitID i),
       wi_SourceRunID = trim_space (ir_SourceRunID i),
       wi_GenerationID = trim_space (ir_GenerationID i),
       wi_FairnessKey = trim_space (coalesce (ir_FairnessKey i)),
       wi_Status = ir_Status i, wi_AttemptCount = ir_AttemptCount i,
       wi_CurrentClaimID = trim_space (coalesce (ir_CurrentClaimID i)),
       wi_CurrentFencingToken = ir_CurrentFencingToken i,
       wi_CurrentOwnerID = trim_space (coalesce (ir_CurrentOwnerID i)),
       wi_LeaseExpiresAt = (case ir_LeaseExpiresAt i of Some t \<Rightarrow> t | None \<Rightarrow> 0),
       wi_VisibleAt = 0, wi_LastClaimedAt = cr_ClaimedAt c, wi_LastCompletedAt = 0,
       wi_LastFailureClass = [], wi_LastFailureMessage = [],
       wi_CreatedAt = ir_CreatedAt i, wi_UpdatedAt = ir_UpdatedAt i\<rparr>,
      \<lparr>cl_ClaimID = cr_ClaimID c, cl_WorkItemID = ir_WorkItemID i,
       cl_FencingToken = cr_FencingToken c, cl_OwnerID = cr_OwnerID c, cl_Status = cr_Status c,
       cl_ClaimedAt = cr_ClaimedAt c, cl_HeartbeatAt = cr_HeartbeatAt c,
       cl_LeaseExpiresAt = cr_LeaseExpiresAt c, cl_FinishedAt = 0, cl_FailureClass = [],
       cl_FailureMessage = [], cl_CreatedAt = cr_CreatedAt c, cl_UpdatedAt = cr_UpdatedAt c\<rparr>))"

definition ClaimNextEligible ::
  "(string \<Rightarrow> string \<Rightarrow> int) \<Rightarrow> string set \<Rightarrow> ControlStore \<Rightarrow> ClaimSelector \<Rightarrow> time \<Rightarrow> duration
   \<Rightarrow> (WorkItem \<times> Claim) option statement" where
  "ClaimNextEligible collate locked s sel now leaseDuration db =
     checked (first_err [requires_database s, validateClaimSelector sel])
       (case effectiveClaimLeaseTTL s leaseDuration of
          Inl e \<Rightarrow> Inl e
        | Inr ttl \<Rightarrow>
            (case claimNextWorkflowWorkItemQuery collate locked sel (utc now) (utc now + ttl) db of
               Inl e \<Rightarrow> Inl (Wrap ''claim workflow work item'' e)
             | Inr (row, db') \<Rightarrow> Inr (map_option scanClaimedWorkflowWorkItem row, db')))"

section \<open>Fenced mutations\<close>

text \<open>
  The \<open>candidate\<close> of the mutation queries: the work item and the claim the mutation names,
  the claim active, and claim, token and owner the ones the item carries.
\<close>

definition fence_matches :: "ClaimMutation \<Rightarrow> ItemRow \<Rightarrow> ClaimRow \<Rightarrow> bool" where
  "fence_matches m i c \<longleftrightarrow>
     cr_ClaimID c = mut_ClaimID m \<and> cr_WorkItemID c = ir_WorkItemID i
     \<and> ir_WorkItemID i = mut_WorkItemID m
     \<and> ir_CurrentClaimID i = Some (mut_ClaimID m)
     \<and> ir_CurrentFencingToken i = mut_FencingToken m
     \<and> ir_CurrentOwnerID i = Some (mut_OwnerID m)
     \<and> ir_Status i = WorkItemStatusClaimed
     \<and> cr_FencingToken c = mut_FencingToken m \<and> cr_OwnerID c = mut_OwnerID m
     \<and> cr_Status c = ClaimStatusActive"

definition fence_holds :: "ClaimMutation \<Rightarrow> ControlDb \<Rightarrow> bool" where
  "fence_holds m db \<longleftrightarrow> (\<exists>i \<in> set (db_Items db). \<exists>c \<in> set (db_Claims db). fence_matches m i c)"

text \<open>The rows the two UPDATEs touch; the answer is the number of work items updated.\<close>

definition fenced_update :: "ClaimMutation \<Rightarrow> (ClaimRow \<Rightarrow> ClaimRow) \<Rightarrow> (ItemRow \<Rightarrow> ItemRow) \<Rightarrow> nat statement" where
  "fenced_update m claim item db =
     (if fence_holds m db
      then Inr (length (filter (\<lambda>i. ir_WorkItemID i = mut_WorkItemID m) (db_Items db)),
        db\<lparr>db_Claims := map (\<lambda>c. if cr_ClaimID c = mut_ClaimID m \<and> cr_WorkItemID c = mut_WorkItemID m
             then claim c else c) (db_Claims db),
           db_Items := map (\<lambda>i. if ir_WorkItemID i = mut_WorkItemID m then item i else i) (db_Items db)\<rparr>)
      else Inr (0, db))"

definition heartbeatWorkflowClaimQuery :: "ClaimMutation \<Rightarrow> time option \<Rightarrow> nat statement" where
  "heartbeatWorkflowClaimQuery m lease db =
     (case lease of
        None \<Rightarrow> if fence_holds m db then Inl (Msg ''null value violates not-null constraint'') else Inr (0, db)
      | Some t \<Rightarrow> fenced_update m
          (\<lambda>c. c\<lparr>cr_HeartbeatAt := utc (mut_ObservedAt m), cr_LeaseExpiresAt := t,
                 cr_UpdatedAt := utc (mut_ObservedAt m)\<rparr>)
          (\<lambda>i. i\<lparr>ir_LeaseExpiresAt := Some t, ir_UpdatedAt := utc (mut_ObservedAt m)\<rparr>) db)"

definition completeWorkflowClaimQuery :: "ClaimMutation \<Rightarrow> time option \<Rightarrow> nat statement" where
  "completeWorkflowClaimQuery m lease = fenced_update m
     (\<lambda>c. c\<lparr>cr_Status := ClaimStatusCompleted, cr_FinishedAt := Some (utc (mut_ObservedAt m)),
            cr_UpdatedAt := utc (mut_ObservedAt m)\<rparr>)
     (\<lambda>i. i\<lparr>ir_Status := WorkItemStatusCompleted, ir_CurrentClaimID := None, ir_CurrentOwnerID := None,
            ir_LeaseExpiresAt := lease, ir_LastCompletedAt := Some (utc (mut_ObservedAt m)),
            ir_UpdatedAt := utc (mut_ObservedAt m), ir_LastFailureClass := None,
            ir_LastFailureMessage := None\<rparr>)"

definition releaseWorkflowClaimQuery :: "ClaimMutation \<Rightarrow> time option \<Rightarrow> nat statement" where
  "releaseWorkflowClaimQuery m lease = fenced_update m
     (\<lambda>c. c\<lparr>cr_Status := ClaimStatusReleased, cr_FinishedAt := Some (utc (mut_ObservedAt m)),
            cr_UpdatedAt := utc (mut_ObservedAt m)\<rparr>)
     (\<lambda>i. i\<lparr>ir_Status := WorkItemStatusPending, ir_CurrentClaimID := None, ir_CurrentOwnerID := None,
            ir_LeaseExpiresAt := lease, ir_VisibleAt := Some (utc (mut_ObservedAt m)),
            ir_UpdatedAt := utc (mut_ObservedAt m), ir_LastFailureClass := None,
            ir_LastFailureMessage := None\<rparr>)"

definition failed_claim :: "ClaimMutation \<Rightarrow> ClaimStatus \<Rightarrow> ClaimRow \<Rightarrow> ClaimRow" where
  "failed_claim m status c = c\<lparr>cr_Status := status, cr_FinishedAt := Some (utc (mut_ObservedAt m)),
     cr_FailureClass := nullif (mut_FailureClass m), cr_FailureMessage := nullif (mut_FailureMessage m),
     cr_UpdatedAt := utc (mut_ObservedAt m)\<rparr>"

definition failed_item :: "ClaimMutation \<Rightarrow> WorkItemStatus \<Rightarrow> time option \<Rightarrow> ItemRow \<Rightarrow> ItemRow" where
  "failed_item m status visible i = i\<lparr>ir_Status := status, ir_CurrentClaimID := None,
     ir_CurrentOwnerID := None, ir_LeaseExpiresAt := None, ir_VisibleAt := visible,
     ir_UpdatedAt := utc (mut_ObservedAt m), ir_LastFailureClass := nullif (mut_FailureClass m),
     ir_LastFailureMessage := nullif (mut_FailureMessage m)\<rparr>"

definition failWorkflowClaimRetryableQuery :: "ClaimMutation \<Rightarrow> nat statement" where
  "failWorkflowClaimRetryableQuery m = fenced_update m
     (failed_claim m ClaimStatusFailedRetryable)
     (failed_item m WorkItemStatusPending (Some (utc (mut_VisibleAt m))))"

text \<open>This statement is sent with eight parameters and never uses the second one.\<close>

definition failWorkflowClaimTerminalQuery :: "bool \<Rightarrow> ClaimMutation \<Rightarrow> nat statement" where
  "failWorkflowClaimTerminalQuery untyped m db =
     (if \<not> untyped then Inl (Msg ''could not determine data type of parameter $2'')
      else fenced_update m (failed_claim m ClaimStatusFailedTerminal)
        (\<lambda>i. failed_item m WorkItemStatusFailedTerminal (ir_VisibleAt i) i) db)"

definition execClaimMutation ::
  "ControlStore \<Rightarrow> ClaimMutation \<Rightarrow> (ClaimMutation \<Rightarrow> time option \<Rightarrow> nat statement) \<Rightarrow> time
   \<Rightarrow> ControlDb \<Rightarrow> error option \<times> ControlDb" where
  "execClaimMutation s m query lease db =
     (case first_err [requires_database s, validateClaimMutation m] of
        Some e \<Rightarrow> (Some e, db)
      | None \<Rightarrow>
          (case query m (nullableTime lease) db of
             Inl e \<Rightarrow> (Some (Wrap ''mutate workflow claim'' e), db)
           | Inr (rows, db') \<Rightarrow> (validateMutationResult rows, db')))"

definition default_visible_at :: "ClaimMutation \<Rightarrow> ClaimMutation" where
  "default_visible_at m = (if is_zero (mut_VisibleAt m) then m\<lparr>mut_VisibleAt := mut_ObservedAt m\<rparr> else m)"

definition execTerminalClaimMutation ::
  "ControlStore \<Rightarrow> ClaimMutation \<Rightarrow> (ClaimMutation \<Rightarrow> nat statement) \<Rightarrow> ControlDb \<Rightarrow> error option \<times> ControlDb"
where
  "execTerminalClaimMutation s m0 query db =
     (let m = default_visible_at m0 in
      case first_err [requires_database s, validateClaimMutation m] of
        Some e \<Rightarrow> (Some e, db)
      | None \<Rightarrow>
          (case query m db of
             Inl e \<Rightarrow> (Some (Wrap ''mutate terminal workflow claim'' e), db)
           | Inr (rows, db') \<Rightarrow> (validateMutationResult rows, db')))"

definition HeartbeatClaim :: "ControlStore \<Rightarrow> ClaimMutation \<Rightarrow> ControlDb \<Rightarrow> error option \<times> ControlDb" where
  "HeartbeatClaim s m db =
     (case effectiveClaimLeaseTTL s (mut_LeaseDuration m) of
        Inl e \<Rightarrow> (Some e, db)
      | Inr ttl \<Rightarrow> execClaimMutation s m heartbeatWorkflowClaimQuery (utc (mut_ObservedAt m) + ttl) db)"

definition CompleteClaim :: "ControlStore \<Rightarrow> ClaimMutation \<Rightarrow> ControlDb \<Rightarrow> error option \<times> ControlDb" where
  "CompleteClaim s m db = execClaimMutation s m completeWorkflowClaimQuery 0 db"

definition ReleaseClaim :: "ControlStore \<Rightarrow> ClaimMutation \<Rightarrow> ControlDb \<Rightarrow> error option \<times> ControlDb" where
  "ReleaseClaim s m db = execClaimMutation s m releaseWorkflowClaimQuery 0 db"

definition FailClaimRetryable :: "ControlStore \<Rightarrow> ClaimMutation \<Rightarrow> ControlDb \<Rightarrow> error option \<times> ControlDb" where
  "FailClaimRetryable s m db =
     execTerminalClaimMutation s (default_visible_at m) failWorkflowClaimRetryableQuery db"

definition FailClaimTerminal :: "bool \<Rightarrow> ControlStore \<Rightarrow> ClaimMutation \<Rightarrow> ControlDb \<Rightarrow> error option \<times> ControlDb" where
  "FailClaimTerminal untyped s m db =
     execTerminalClaimMutation s m (failWorkflowClaimTerminalQuery untyped) db"

section \<open>Reaping\<close>

definition expired :: "time \<Rightarrow> ClaimRow \<Rightarrow> ItemRow \<Rightarrow> bool" where
  "expired asOf c i \<longleftrightarrow>
     ir_WorkItemID i = cr_WorkItemID c \<and> cr_Status c = ClaimStatusActive
     \<and> cr_LeaseExpiresAt c < asOf
     \<and> ir_CurrentClaimID i = Some (cr_ClaimID c)
     \<and> ir_CurrentFencingToken i = cr_FencingToken c
     \<and> ir_CurrentOwnerID i = Some (cr_OwnerID c)
     \<and> ir_Status i = WorkItemStatusClaimed"

definition cmp_expired :: "(string \<Rightarrow> string \<Rightarrow> int) \<Rightarrow> ClaimRow \<times> ItemRow \<Rightarrow> ClaimRow \<times> ItemRow \<Rightarrow> int" where
  "cmp_expired collate x y =
     or_else (compare (cr_LeaseExpiresAt (fst x)) (cr_LeaseExpiresAt (fst y)))
       (collate (cr_ClaimID (fst x)) (cr_ClaimID (fst y)))"

definition expired_candidates ::
  "(string \<Rightarrow> string \<Rightarrow> int) \<Rightarrow> string set \<Rightarrow> time \<Rightarrow> nat \<Rightarrow> ControlDb \<Rightarrow> (ClaimRow \<times> ItemRow) list" where
  "expired_candidates collate locked asOf limit db =
     take limit (sort_by (cmp_expired collate)
       (filter (\<lambda>(c, i). expired asOf c i \<and> ir_WorkItemID i \<notin> locked)
         (List.product (db_Claims db) (db_Items db))))"

definition expired_claim :: "time \<Rightarrow> ClaimRow \<Rightarrow> ClaimRow" where
  "expired_claim asOf c = c\<lparr>cr_Status := ClaimStatusExpired, cr_FinishedAt := Some asOf, cr_UpdatedAt := asOf\<rparr>"

definition requeued_item :: "time \<Rightarrow> time \<Rightarrow> ItemRow \<Rightarrow> ItemRow" where
  "requeued_item asOf visible i = i\<lparr>ir_Status := WorkItemStatusPending, ir_CurrentClaimID := None,
     ir_CurrentOwnerID := None, ir_LeaseExpiresAt := None, ir_VisibleAt := Some visible, ir_UpdatedAt := asOf\<rparr>"

text \<open>The final SELECT has no ORDER BY; the model answers in the candidates' order.\<close>

definition reapExpiredWorkflowClaimsQuery ::
  "(string \<Rightarrow> string \<Rightarrow> int) \<Rightarrow> string set \<Rightarrow> time \<Rightarrow> nat \<Rightarrow> time \<Rightarrow> ControlDb \<Rightarrow> ClaimRow list \<times> ControlDb" where
  "reapExpiredWorkflowClaimsQuery collate locked asOf limit visible db =
     (let candidates = expired_candidates collate locked asOf limit db in
      (map (\<lambda>(c, i). expired_claim asOf c) candidates,
       db\<lparr>db_Claims := map (\<lambda>c. if cr_ClaimID c \<in> set (map (\<lambda>(c, i). cr_ClaimID c) candidates)
            then expired_claim asOf c else c) (db_Claims db),
          db_Items := map (\<lambda>i. if list_ex (\<lambda>(c, j). ir_WorkItemID i = cr_WorkItemID c \<and> expired asOf c i) candidates
            then requeued_item asOf visible i else i) (db_Items db)\<rparr>))"

definition scanWorkflowClaim :: "ClaimRow \<Rightarrow> Claim" where
  "scanWorkflowClaim c = \<lparr>cl_ClaimID = cr_ClaimID c, cl_WorkItemID = cr_WorkItemID c,
     cl_FencingToken = cr_FencingToken c, cl_OwnerID = cr_OwnerID c, cl_Status = cr_Status c,
     cl_ClaimedAt = cr_ClaimedAt c, cl_HeartbeatAt = cr_HeartbeatAt c,
     cl_LeaseExpiresAt = cr_LeaseExpiresAt c, cl_FinishedAt = 0, cl_FailureClass = [],
     cl_FailureMessage = [], cl_CreatedAt = cr_CreatedAt c, cl_UpdatedAt = cr_UpdatedAt c\<rparr>"

definition ReapExpiredClaims ::
  "(string \<Rightarrow> string \<Rightarrow> int) \<Rightarrow> string set \<Rightarrow> ControlStore \<Rightarrow> time \<Rightarrow> int \<Rightarrow> duration \<Rightarrow> Claim list statement" where
  "ReapExpiredClaims collate locked s asOf limit requeueDelay db =
     checked (first_err [requires_database s, check (limit \<le> 0) (NotPositive ''expired claim limit'')])
       (case reapExpiredWorkflowClaimsQuery collate locked (utc asOf) (nat limit)
           (utc asOf + effectiveExpiredRequeueDelay s requeueDelay) db of
          (rows, db') \<Rightarrow> Inr (map scanWorkflowClaim rows, db'))"

section \<open>What every statement keeps\<close>

text \<open>The item still carries the claim: the state an active claim's item must be in.\<close>

definition held_by :: "ItemRow \<Rightarrow> ClaimRow \<Rightarrow> bool" where
  "held_by i c \<longleftrightarrow> ir_Status i = WorkItemStatusClaimed \<and> ir_CurrentClaimID i = Some (cr_ClaimID c)
     \<and> ir_CurrentFencingToken i = cr_FencingToken c \<and> ir_CurrentOwnerID i = Some (cr_OwnerID c)
     \<and> ir_LeaseExpiresAt i = Some (cr_LeaseExpiresAt c)"

definition owned_claim :: "ItemRow \<Rightarrow> ClaimRow \<Rightarrow> bool" where
  "owned_claim i c \<longleftrightarrow> ir_WorkItemID i = cr_WorkItemID c \<and> 0 < cr_FencingToken c
     \<and> cr_FencingToken c \<le> ir_CurrentFencingToken i \<and> (cr_Status c = ClaimStatusActive \<longrightarrow> held_by i c)"

definition token_key :: "ClaimRow \<Rightarrow> string \<times> int" where
  "token_key c = (cr_WorkItemID c, cr_FencingToken c)"

definition control_ok :: "ControlDb \<Rightarrow> bool" where
  "control_ok db \<longleftrightarrow> distinct (map ir_WorkItemID (db_Items db))
     \<and> distinct (map cr_ClaimID (db_Claims db)) \<and> distinct (map token_key (db_Claims db))
     \<and> (\<forall>i \<in> set (db_Items db). 0 \<le> ir_CurrentFencingToken i)
     \<and> (\<forall>c \<in> set (db_Claims db). \<exists>i \<in> set (db_Items db). owned_claim i c)"

text \<open>A claim as its holder knows it: claim, work item, token and owner.\<close>

definition claim_ticket :: "ClaimRow \<Rightarrow> string \<times> string \<times> int \<times> string" where
  "claim_ticket c = (cr_ClaimID c, cr_WorkItemID c, cr_FencingToken c, cr_OwnerID c)"

definition mutation_ticket :: "ClaimMutation \<Rightarrow> string \<times> string \<times> int \<times> string" where
  "mutation_ticket m = (mut_ClaimID m, mut_WorkItemID m, mut_FencingToken m, mut_OwnerID m)"

definition issued :: "ControlDb \<Rightarrow> (string \<times> string \<times> int \<times> string) set" where
  "issued db = claim_ticket ` set (db_Claims db)"

definition active :: "ControlDb \<Rightarrow> (string \<times> string \<times> int \<times> string) set" where
  "active db = claim_ticket ` {c \<in> set (db_Claims db). cr_Status c = ClaimStatusActive}"

definition ticket_item :: "string \<times> string \<times> int \<times> string \<Rightarrow> string" where
  "ticket_item t = fst (snd t)"
definition ticket_token :: "string \<times> string \<times> int \<times> string \<Rightarrow> int" where
  "ticket_token t = fst (snd (snd t))"

lemma item_unique:
  assumes "control_ok db" and "i \<in> set (db_Items db)" and "j \<in> set (db_Items db)"
    and "ir_WorkItemID i = ir_WorkItemID j"
  shows "i = j"
  using assms by (auto simp: control_ok_def distinct_map dest: inj_onD)

lemma claim_unique:
  assumes "control_ok db" and "c \<in> set (db_Claims db)" and "d \<in> set (db_Claims db)"
    and "cr_ClaimID c = cr_ClaimID d"
  shows "c = d"
  using assms by (auto simp: control_ok_def distinct_map dest: inj_onD)

lemma claim_item:
  assumes "control_ok db" and "c \<in> set (db_Claims db)"
  obtains i where "i \<in> set (db_Items db)" and "owned_claim i c"
  using assms by (auto simp: control_ok_def)

text \<open>Updating rows in place: the shape of every statement but the INSERTs.\<close>

definition update_rows :: "(ClaimRow \<Rightarrow> ClaimRow) \<Rightarrow> (ItemRow \<Rightarrow> ItemRow) \<Rightarrow> ControlDb \<Rightarrow> ControlDb" where
  "update_rows fc fi db = db\<lparr>db_Claims := map fc (db_Claims db), db_Items := map fi (db_Items db)\<rparr>"

lemma update_rows_ok:
  assumes ok: "control_ok db"
    and fc: "\<And>c. claim_ticket (fc c) = claim_ticket c"
    and fi: "\<And>i. ir_WorkItemID (fi i) = ir_WorkItemID i" "\<And>i. ir_CurrentFencingToken (fi i) = ir_CurrentFencingToken i"
    and held: "\<And>i c. i \<in> set (db_Items db) \<Longrightarrow> c \<in> set (db_Claims db) \<Longrightarrow> owned_claim i c
       \<Longrightarrow> cr_Status (fc c) = ClaimStatusActive \<Longrightarrow> held_by (fi i) (fc c)"
  shows "control_ok (update_rows fc fi db)"
proof -
  have fields: "cr_ClaimID (fc c) = cr_ClaimID c" "token_key (fc c) = token_key c"
    "cr_WorkItemID (fc c) = cr_WorkItemID c" "cr_FencingToken (fc c) = cr_FencingToken c" for c
    using fc [of c] by (simp_all add: claim_ticket_def token_key_def)
  have "\<exists>i \<in> fi ` set (db_Items db). owned_claim i (fc c)" if c: "c \<in> set (db_Claims db)" for c
  proof -
    obtain i where i: "i \<in> set (db_Items db)" "owned_claim i c" using ok c by (rule claim_item)
    with held [OF i(1) c i(2)] have "owned_claim (fi i) (fc c)"
      by (simp add: owned_claim_def fields fi)
    with i(1) show ?thesis by blast
  qed
  with ok show ?thesis
    by (auto simp: update_rows_def control_ok_def fields fi o_def)
qed

lemma update_rows_tickets:
  assumes "\<And>c. claim_ticket (fc c) = claim_ticket c"
  shows "issued (update_rows fc fi db) = issued db"
  using assms by (auto simp: issued_def update_rows_def image_image)

lemma update_rows_active:
  assumes "\<And>c. claim_ticket (fc c) = claim_ticket c"
    and "\<And>c. cr_Status (fc c) = ClaimStatusActive \<Longrightarrow> cr_Status c = ClaimStatusActive"
  shows "active (update_rows fc fi db) \<subseteq> active db"
  using assms by (auto simp: active_def update_rows_def)

text \<open>The fenced statements.\<close>

lemma fenced_update_cases:
  assumes "fenced_update m claim item db = Inr (n, db')"
  obtains (rejected) "\<not> fence_holds m db" and "n = 0" and "db' = db"
  | (applied) "fence_holds m db"
      and "n = length (filter (\<lambda>i. ir_WorkItemID i = mut_WorkItemID m) (db_Items db))"
      and "db' = update_rows
         (\<lambda>c. if cr_ClaimID c = mut_ClaimID m \<and> cr_WorkItemID c = mut_WorkItemID m then claim c else c)
         (\<lambda>i. if ir_WorkItemID i = mut_WorkItemID m then item i else i) db"
  using assms by (auto simp: fenced_update_def update_rows_def split: if_splits)

lemma fence_holds_active:
  assumes "fence_holds m db"
  shows "mutation_ticket m \<in> active db"
proof -
  from assms obtain i c where "c \<in> set (db_Claims db)" and "fence_matches m i c"
    by (auto simp: fence_holds_def)
  then show ?thesis
    by (auto simp: fence_matches_def active_def mutation_ticket_def claim_ticket_def image_iff intro!: exI [of _ c])
qed

lemma active_fence_holds:
  assumes "control_ok db" and "mutation_ticket m \<in> active db"
  shows "fence_holds m db"
proof -
  from assms(2) obtain c where c: "c \<in> set (db_Claims db)" "cr_Status c = ClaimStatusActive"
    "claim_ticket c = mutation_ticket m" by (auto simp: active_def)
  from assms(1) c(1) obtain i where i: "i \<in> set (db_Items db)" "owned_claim i c" by (rule claim_item)
  with c have "fence_matches m i c"
    by (auto simp: fence_matches_def owned_claim_def held_by_def claim_ticket_def mutation_ticket_def)
  with i(1) c(1) show ?thesis by (auto simp: fence_holds_def)
qed

definition advances :: "ControlDb \<Rightarrow> ControlDb \<Rightarrow> bool" where
  "advances db db' \<longleftrightarrow> control_ok db' \<and> issued db \<subseteq> issued db' \<and> active db' \<inter> issued db \<subseteq> active db
     \<and> (\<forall>x \<in> issued db' - issued db. \<forall>y \<in> issued db.
          ticket_item x = ticket_item y \<longrightarrow> ticket_token y < ticket_token x)"

lemma advances_refl: "control_ok db \<Longrightarrow> advances db db"
  by (simp add: advances_def)

lemma advances_update:
  assumes "control_ok (update_rows fc fi db)" and "\<And>c. claim_ticket (fc c) = claim_ticket c"
    and "\<And>c. cr_Status (fc c) = ClaimStatusActive \<Longrightarrow> cr_Status c = ClaimStatusActive"
  shows "advances db (update_rows fc fi db)"
  using assms update_rows_tickets [of fc fi db] update_rows_active [of fc fi db]
  by (auto simp: advances_def)

lemma fenced_update_advances:
  assumes ok: "control_ok db" and upd: "fenced_update m claim item db = Inr (n, db')"
    and claim: "\<And>c. claim_ticket (claim c) = claim_ticket c"
    and item: "\<And>i. ir_WorkItemID (item i) = ir_WorkItemID i" "\<And>i. ir_CurrentFencingToken (item i) = ir_CurrentFencingToken i"
    and status: "\<And>c. cr_Status (claim c) = ClaimStatusActive \<Longrightarrow> cr_Status c = ClaimStatusActive"
    and held: "\<And>i c. held_by i c \<Longrightarrow> cr_Status (claim c) = ClaimStatusActive \<Longrightarrow> held_by (item i) (claim c)"
  shows "advances db db'"
  using upd
proof (cases rule: fenced_update_cases)
  case rejected
  with ok show ?thesis by (simp add: advances_refl)
next
  case applied
  let ?fc = "\<lambda>c. if cr_ClaimID c = mut_ClaimID m \<and> cr_WorkItemID c = mut_WorkItemID m then claim c else c"
  let ?fi = "\<lambda>i. if ir_WorkItemID i = mut_WorkItemID m then item i else i"
  obtain j d where j: "j \<in> set (db_Items db)" and d: "d \<in> set (db_Claims db)" and m: "fence_matches m j d"
    using applied(1) by (auto simp: fence_holds_def)
  have "held_by (?fi i) (?fc c)"
    if i: "i \<in> set (db_Items db)" and c: "c \<in> set (db_Claims db)" and own: "owned_claim i c"
      and act: "cr_Status (?fc c) = ClaimStatusActive" for i c
  proof -
    have h: "held_by i c" using own act status by (auto simp: owned_claim_def split: if_splits)
    show ?thesis
    proof (cases "ir_WorkItemID i = mut_WorkItemID m")
      case True
      with m item_unique [OF ok i j] have "i = j" by (simp add: fence_matches_def)
      with h m have "cr_ClaimID c = mut_ClaimID m" by (simp add: held_by_def fence_matches_def)
      with own True h act held show ?thesis by (auto simp: owned_claim_def)
    next
      case False
      with own h show ?thesis by (auto simp: owned_claim_def)
    qed
  qed
  then have "control_ok (update_rows ?fc ?fi db)"
    by (intro update_rows_ok [OF ok]) (auto simp: claim item)
  then show ?thesis
    unfolding applied(3) by (rule advances_update) (auto simp: claim status split: if_splits)
qed

text \<open>The claim and the inserts.\<close>

lemma claimed_row_simps [simp]:
  "ir_WorkItemID (claimed_row sel now lease i) = ir_WorkItemID i"
  "ir_CurrentFencingToken (claimed_row sel now lease i) = ir_CurrentFencingToken i + 1"
  by (simp_all add: claimed_row_def)

lemma claimNext_cases:
  assumes "claimNextWorkflowWorkItemQuery collate locked sel now lease db = Inr (row, db')"
  obtains (unclaimed) "row = None" and "db' = db"
      and "\<forall>i \<in> set (db_Items db). eligible sel now i \<longrightarrow> ir_WorkItemID i \<in> locked"
  | (claimed) k rest where "row = Some (claimed_row sel now lease k, claim_row sel now lease (claimed_row sel now lease k))"
      and "sort_by (cmp_claimable collate)
             (filter (\<lambda>i. eligible sel now i \<and> ir_WorkItemID i \<notin> locked) (db_Items db)) = k # rest"
      and "k \<in> set (db_Items db)" and "eligible sel now k" and "ir_WorkItemID k \<notin> locked"
      and "integer_fits (ir_AttemptCount k + 1)" and "bigint_fits (ir_CurrentFencingToken k + 1)"
      and "\<forall>c \<in> set (db_Claims db). cr_ClaimID c \<noteq> sel_ClaimID sel
        \<and> (cr_WorkItemID c \<noteq> ir_WorkItemID k \<or> cr_FencingToken c \<noteq> ir_CurrentFencingToken k + 1)"
      and "db' = db\<lparr>db_Items := map (\<lambda>i. if ir_WorkItemID i = ir_WorkItemID k
             then claimed_row sel now lease i else i) (db_Items db),
           db_Claims := db_Claims db @ [claim_row sel now lease (claimed_row sel now lease k)]\<rparr>"
proof -
  let ?eligible = "filter (\<lambda>i. eligible sel now i \<and> ir_WorkItemID i \<notin> locked) (db_Items db)"
  show thesis
  proof (cases "sort_by (cmp_claimable collate) ?eligible")
    case Nil
    then have none: "?eligible = []" by simp
    then have free: "\<forall>i \<in> set (db_Items db). eligible sel now i \<longrightarrow> ir_WorkItemID i \<in> locked"
      by (simp add: filter_empty_conv)
    have "row = None" "db' = db"
      using assms none by (simp_all add: claimNextWorkflowWorkItemQuery_def)
    with free show thesis using unclaimed by blast
  next
    case (Cons k rest)
    have "k \<in> set (sort_by (cmp_claimable collate) ?eligible)" by (simp only: Cons list.set_intros)
    then have k: "k \<in> set ?eligible" by (simp only: set_sort_by)
    have "ir_AttemptCount (claimed_row sel now lease k) = ir_AttemptCount k + 1"
      by (simp add: claimed_row_def)
    with assms Cons k show thesis
      by (intro claimed [of k rest])
        (auto simp: claimNextWorkflowWorkItemQuery_def Let_def claim_row_def simp del: not_Some_eq split: if_splits)
  qed
qed

lemma claimNext_advances:
  assumes ok: "control_ok db"
    and claim: "claimNextWorkflowWorkItemQuery collate locked sel now lease db = Inr (row, db')"
  shows "advances db db'"
  using claim
proof (cases rule: claimNext_cases)
  case unclaimed
  with ok show ?thesis by (simp add: advances_refl)
next
  case (claimed k rest)
  let ?fi = "\<lambda>i. if ir_WorkItemID i = ir_WorkItemID k then claimed_row sel now lease i else i"
  let ?new = "claim_row sel now lease (claimed_row sel now lease k)"
  have new: "owned_claim (?fi k) ?new"
    using claimed(3) ok by (auto simp: owned_claim_def held_by_def claim_row_def claimed_row_def control_ok_def)
  have old: "owned_claim (?fi i) c" if "i \<in> set (db_Items db)" "owned_claim i c" for i c
    using that item_unique [OF ok that(1) claimed(3)] claimed(4)
    by (auto simp: owned_claim_def held_by_def eligible_def)
  have "\<exists>i \<in> ?fi ` set (db_Items db). owned_claim i c" if c: "c \<in> set (db_Claims db)" for c
  proof -
    obtain i where "i \<in> set (db_Items db)" "owned_claim i c" using ok c by (rule claim_item)
    with old [of i c] show ?thesis by blast
  qed
  moreover have "\<exists>i \<in> ?fi ` set (db_Items db). owned_claim i ?new"
    using new claimed(3) by blast
  moreover have "map ir_WorkItemID (map ?fi (db_Items db)) = map ir_WorkItemID (db_Items db)"
    by simp
  moreover have "0 \<le> ir_CurrentFencingToken (?fi i)" if "i \<in> set (db_Items db)" for i
    using that ok by (auto simp: control_ok_def)
  moreover have "token_key ?new \<notin> token_key ` set (db_Claims db)" "cr_ClaimID ?new \<notin> cr_ClaimID ` set (db_Claims db)"
    using claimed(8) by (auto simp: token_key_def claim_row_def)
  ultimately have "control_ok db'"
    using ok by (auto simp: claimed(9) control_ok_def simp del: map_map)
  moreover have "ticket_token y < ticket_token (claim_ticket ?new)"
    if y: "y \<in> issued db" "ticket_item (claim_ticket ?new) = ticket_item y" for y
  proof -
    obtain c where c: "c \<in> set (db_Claims db)" "y = claim_ticket c" using y(1) by (auto simp: issued_def)
    obtain i where i: "i \<in> set (db_Items db)" "owned_claim i c" using ok c(1) by (rule claim_item)
    have "ir_WorkItemID i = ir_WorkItemID k"
      using y(2) c(2) i(2) by (simp add: claim_ticket_def ticket_item_def claim_row_def owned_claim_def)
    with item_unique [OF ok i(1) claimed(3)] i(2) c(2) show ?thesis
      by (simp add: owned_claim_def claim_ticket_def ticket_token_def claim_row_def)
  qed
  moreover have "claim_ticket ?new \<notin> issued db"
    using claimed(8) by (auto simp: issued_def claim_ticket_def claim_row_def)
  moreover have "issued db' = insert (claim_ticket ?new) (issued db)"
    by (simp add: issued_def claimed(9))
  moreover have "active db' = insert (claim_ticket ?new) (active db)"
    by (auto simp: active_def claimed(9) claim_row_def)
  ultimately show ?thesis
    by (auto simp only: advances_def)
qed

lemma insert_rows_append:
  "\<exists>new. fold (insert_row key) rows tab = tab @ new \<and> set new \<subseteq> set rows"
proof (induction rows arbitrary: tab)
  case Nil
  show ?case by simp
next
  case (Cons r rows)
  obtain new where "fold (insert_row key) rows (insert_row key r tab) = insert_row key r tab @ new" "set new \<subseteq> set rows"
    using Cons.IH [of "insert_row key r tab"] by blast
  moreover have "insert_row key r tab = tab \<or> insert_row key r tab = tab @ [r]" by (simp add: insert_row_def)
  ultimately show ?case by (auto intro: exI [of _ new] exI [of _ "r # new"])
qed

lemma enqueue_batch_advances:
  assumes "enqueueWorkItemBatch items db = (e, db')" and ok: "control_ok db"
    and items: "\<forall>w \<in> set items. 0 \<le> wi_CurrentFencingToken w"
  shows "control_ok db' \<and> db_Claims db' = db_Claims db"
proof -
  let ?tab = "fold (insert_row ir_WorkItemID) (map item_row items) (db_Items db)"
  have cases: "db' = db \<or> db' = db\<lparr>db_Items := ?tab\<rparr>"
    using assms(1) by (auto simp: enqueueWorkItemBatch_def Let_def split: if_splits)
  obtain new where tab: "?tab = db_Items db @ new" and new: "set new \<subseteq> set (map item_row items)"
    using insert_rows_append [of ir_WorkItemID "map item_row items" "db_Items db"] by blast
  have "0 \<le> ir_CurrentFencingToken i" if "i \<in> set new" for i
    using new items that by (auto simp: item_row_def)
  moreover have "distinct (map ir_WorkItemID ?tab)"
    using ok by (intro insert_rows_distinct) (simp add: control_ok_def)
  ultimately have "control_ok (db\<lparr>db_Items := ?tab\<rparr>)"
    using ok unfolding tab control_ok_def by auto
  with cases ok show ?thesis by auto
qed

lemma advances_same_claims: "control_ok db' \<Longrightarrow> db_Claims db' = db_Claims db \<Longrightarrow> advances db db'"
  by (auto simp: advances_def issued_def active_def)

text \<open>Reaping.\<close>

lemma expired_claim_simps [simp]:
  "claim_ticket (expired_claim t c) = claim_ticket c" "cr_Status (expired_claim t c) = ClaimStatusExpired"
  by (simp_all add: expired_claim_def claim_ticket_def)

lemma requeued_item_simps [simp]:
  "ir_WorkItemID (requeued_item t v i) = ir_WorkItemID i"
  "ir_CurrentFencingToken (requeued_item t v i) = ir_CurrentFencingToken i"
  by (simp_all add: requeued_item_def)

definition reaped_claims :: "(ClaimRow \<times> ItemRow) list \<Rightarrow> string set" where
  "reaped_claims cands = cr_ClaimID ` fst ` set cands"

lemma reap_eq:
  fixes collate locked asOf limit visible db
  defines "cands \<equiv> expired_candidates collate locked asOf limit db"
  shows "reapExpiredWorkflowClaimsQuery collate locked asOf limit visible db =
    (map (expired_claim asOf \<circ> fst) cands,
     update_rows (\<lambda>c. if cr_ClaimID c \<in> reaped_claims cands then expired_claim asOf c else c)
       (\<lambda>i. if \<exists>c \<in> fst ` set cands. ir_WorkItemID i = cr_WorkItemID c \<and> expired asOf c i
          then requeued_item asOf visible i else i) db)"
  by (force simp: reapExpiredWorkflowClaimsQuery_def Let_def update_rows_def cands_def
      reaped_claims_def list_ex_iff image_iff case_prod_beta o_def intro!: map_cong)

lemma reap_advances:
  assumes ok: "control_ok db"
    and reap: "reapExpiredWorkflowClaimsQuery collate locked asOf limit visible db = (rows, db')"
  shows "advances db db'"
proof -
  let ?cands = "expired_candidates collate locked asOf limit db"
  let ?fc = "\<lambda>c. if cr_ClaimID c \<in> reaped_claims ?cands then expired_claim asOf c else c"
  let ?fi = "\<lambda>i. if \<exists>c \<in> fst ` set ?cands. ir_WorkItemID i = cr_WorkItemID c \<and> expired asOf c i
    then requeued_item asOf visible i else i"
  have held: "held_by (?fi i) (?fc c)" if own: "owned_claim i c" and act: "cr_Status (?fc c) = ClaimStatusActive" for i c
  proof -
    have out: "cr_ClaimID c \<notin> reaped_claims ?cands" using act by (auto split: if_splits)
    then have h: "held_by i c" using own act by (simp add: owned_claim_def)
    have "\<not> (\<exists>d \<in> fst ` set ?cands. ir_WorkItemID i = cr_WorkItemID d \<and> expired asOf d i)"
    proof
      assume "\<exists>d \<in> fst ` set ?cands. ir_WorkItemID i = cr_WorkItemID d \<and> expired asOf d i"
      then obtain d where "d \<in> fst ` set ?cands" "expired asOf d i" by blast
      with h have "cr_ClaimID c = cr_ClaimID d" by (simp add: expired_def held_by_def)
      with \<open>d \<in> fst ` set ?cands\<close> out show False by (auto simp: reaped_claims_def)
    qed
    then have "?fi i = i" by (rule if_not_P)
    moreover have "?fc c = c" using out by (rule if_not_P)
    ultimately show ?thesis using h by (simp only:)
  qed
  have "control_ok (update_rows ?fc ?fi db)"
  proof (rule update_rows_ok [OF ok])
    fix i c
    assume "owned_claim i c" and "cr_Status (?fc c) = ClaimStatusActive"
    then show "held_by (?fi i) (?fc c)" by (rule held)
  qed simp_all
  then have "advances db (update_rows ?fc ?fi db)"
    by (rule advances_update) (simp_all split: if_splits)
  with reap show ?thesis by (simp add: reap_eq)
qed

section \<open>Runs of the store\<close>

text \<open>What clients may do, in any order and with any arguments; a rejected call is a step too.\<close>

inductive claim_mutation :: "ClaimMutation \<Rightarrow> ControlDb \<Rightarrow> error option \<Rightarrow> ControlDb \<Rightarrow> bool" where
  mutation_heartbeat: "HeartbeatClaim s m db = (e, db') \<Longrightarrow> claim_mutation m db e db'"
| mutation_complete: "CompleteClaim s m db = (e, db') \<Longrightarrow> claim_mutation m db e db'"
| mutation_release: "ReleaseClaim s m db = (e, db') \<Longrightarrow> claim_mutation m db e db'"
| mutation_retryable: "FailClaimRetryable s m db = (e, db') \<Longrightarrow> claim_mutation m db e db'"
| mutation_terminal: "FailClaimTerminal untyped s m db = (e, db') \<Longrightarrow> claim_mutation m db e db'"

inductive control_step :: "ControlDb \<Rightarrow> ControlDb \<Rightarrow> bool" where
  step_create: "CreateRun jsonb s r db = (e, db') \<Longrightarrow> control_step db db'"
| step_enqueue: "EnqueueWorkItems s items db = (e, db') \<Longrightarrow> control_step db db'"
| step_claim: "ClaimNextEligible collate locked s sel now lease db = Inr (row, db') \<Longrightarrow> control_step db db'"
| step_mutation: "claim_mutation m db e db' \<Longrightarrow> control_step db db'"
| step_reap: "ReapExpiredClaims collate locked s asOf limit delay db = Inr (rows, db') \<Longrightarrow> control_step db db'"

lemma CreateRun_tables:
  assumes "CreateRun jsonb s r db = (e, db')"
  shows "db_Items db' = db_Items db \<and> db_Claims db' = db_Claims db"
  using assms by (auto simp: CreateRun_def split: option.splits)

lemma EnqueueWorkItems_ok:
  assumes "EnqueueWorkItems s items db = (e, db')" and ok: "control_ok db"
  shows "control_ok db' \<and> db_Claims db' = db_Claims db"
proof (cases "requires_database s = None \<and> first_err (map WorkItem_Validate items) = None")
  case True
  then have "\<forall>w \<in> set items. 0 \<le> wi_CurrentFencingToken w"
    by (auto simp: first_err_map_None validate_iffs work_item_ok_def)
  moreover have "exec_batches workflowEnqueueBatchSize enqueueWorkItemBatch items db = (e, db')"
    using True assms(1) by (simp add: EnqueueWorkItems_def)
  moreover have "control_ok d' \<and> db_Claims d' = db_Claims db"
    if "set rs \<subseteq> set items" "enqueueWorkItemBatch rs d = (f, d')" "control_ok d \<and> db_Claims d = db_Claims db"
    for rs d f d'
    using enqueue_batch_advances [OF that(2)] that(1,3) \<open>\<forall>w \<in> set items. 0 \<le> wi_CurrentFencingToken w\<close> by auto
  ultimately show ?thesis
    using ok exec_batches_invariant_on [where P = "\<lambda>d. control_ok d \<and> db_Claims d = db_Claims db"] by blast
next
  case False
  with assms show ?thesis by (auto simp: EnqueueWorkItems_def split: option.splits)
qed

lemma execClaimMutation_cases:
  assumes "execClaimMutation s m query lease db = (e, db')"
  obtains (stopped) f where "e = Some f" and "db' = db"
  | (executed) n where "validateClaimMutation m = None" and "query m (nullableTime lease) db = Inr (n, db')"
      and "e = validateMutationResult n"
proof (cases "first_err [requires_database s, validateClaimMutation m]")
  case None
  with assms stopped executed show thesis
    by (auto simp: execClaimMutation_def split: sum.splits)
next
  case (Some f)
  with assms have "e = Some f" and "db' = db" by (simp_all add: execClaimMutation_def)
  then show thesis by (rule stopped)
qed

lemma execTerminalClaimMutation_cases:
  assumes "execTerminalClaimMutation s m query db = (e, db')"
  obtains (stopped) f where "e = Some f" and "db' = db"
  | (executed) n where "validateClaimMutation m = None" and "query (default_visible_at m) db = Inr (n, db')"
      and "e = validateMutationResult n"
proof -
  have "validateClaimMutation (default_visible_at m) = validateClaimMutation m"
    by (simp add: validateClaimMutation_def default_visible_at_def)
  note visible = this
  show thesis
  proof (cases "first_err [requires_database s, validateClaimMutation m]")
    case None
    with assms visible stopped executed show thesis
      by (auto simp: execTerminalClaimMutation_def Let_def split: sum.splits)
  next
    case (Some f)
    with assms visible have "e = Some f" and "db' = db"
      by (simp_all add: execTerminalClaimMutation_def Let_def)
    then show thesis by (rule stopped)
  qed
qed

text \<open>
  The outcome of a mutation: it is accepted with an active ticket only, and a refused one
  leaves the tables alone.
\<close>

definition fenced_outcome :: "ClaimMutation \<Rightarrow> ControlDb \<Rightarrow> error option \<Rightarrow> ControlDb \<Rightarrow> bool" where
  "fenced_outcome m db e db' \<longleftrightarrow> advances db db' \<and> (e = None \<longrightarrow> mutation_ticket m \<in> active db)
     \<and> (e \<noteq> None \<longrightarrow> db' = db)"

lemma fenced_outcome_refused: "control_ok db \<Longrightarrow> fenced_outcome m db (Some f) db"
  by (simp add: fenced_outcome_def advances_refl)

lemma fenced_update_outcome:
  assumes ok: "control_ok db" and upd: "fenced_update m claim item db = Inr (n, db')"
    and adv: "advances db db'"
  shows "fenced_outcome m db (validateMutationResult n) db'"
  using upd
proof (cases rule: fenced_update_cases)
  case rejected
  with ok show ?thesis by (simp add: validateMutationResult_def fenced_outcome_refused)
next
  case applied
  then have "n \<noteq> 0" by (auto simp: fence_holds_def fence_matches_def filter_empty_conv)
  with applied(1) adv show ?thesis
    by (simp add: validateMutationResult_def fenced_outcome_def fence_holds_active)
qed

lemmas mutation_rows =
  claim_ticket_def held_by_def failed_claim_def failed_item_def

lemma default_visible_at_ticket [simp]: "mutation_ticket (default_visible_at m) = mutation_ticket m"
  by (simp add: default_visible_at_def mutation_ticket_def)

lemma default_visible_at_idem [simp]: "default_visible_at (default_visible_at m) = default_visible_at m"
  by (simp add: default_visible_at_def is_zero_def)

lemma heartbeat_outcome:
  assumes "control_ok db" and "heartbeatWorkflowClaimQuery m lease db = Inr (n, db')"
  shows "fenced_outcome m db (validateMutationResult n) db'"
proof (cases lease)
  case None
  with assms show ?thesis
    by (auto simp: heartbeatWorkflowClaimQuery_def validateMutationResult_def fenced_outcome_refused split: if_splits)
next
  case (Some t)
  have upd: "fenced_update m
     (\<lambda>c. c\<lparr>cr_HeartbeatAt := utc (mut_ObservedAt m), cr_LeaseExpiresAt := t, cr_UpdatedAt := utc (mut_ObservedAt m)\<rparr>)
     (\<lambda>i. i\<lparr>ir_LeaseExpiresAt := Some t, ir_UpdatedAt := utc (mut_ObservedAt m)\<rparr>) db = Inr (n, db')"
    using assms(2) Some by (simp add: heartbeatWorkflowClaimQuery_def)
  show ?thesis
    by (rule fenced_update_outcome [OF assms(1) upd], rule fenced_update_advances [OF assms(1) upd])
      (simp_all add: mutation_rows)
qed

lemma complete_outcome:
  assumes "control_ok db" and "completeWorkflowClaimQuery m lease db = Inr (n, db')"
  shows "fenced_outcome m db (validateMutationResult n) db'"
proof -
  note upd = assms(2) [unfolded completeWorkflowClaimQuery_def]
  show ?thesis
    by (rule fenced_update_outcome [OF assms(1) upd], rule fenced_update_advances [OF assms(1) upd])
      (simp_all add: mutation_rows)
qed

lemma release_outcome:
  assumes "control_ok db" and "releaseWorkflowClaimQuery m lease db = Inr (n, db')"
  shows "fenced_outcome m db (validateMutationResult n) db'"
proof -
  note upd = assms(2) [unfolded releaseWorkflowClaimQuery_def]
  show ?thesis
    by (rule fenced_update_outcome [OF assms(1) upd], rule fenced_update_advances [OF assms(1) upd])
      (simp_all add: mutation_rows)
qed

lemma retryable_outcome:
  assumes "control_ok db" and "failWorkflowClaimRetryableQuery m db = Inr (n, db')"
  shows "fenced_outcome m db (validateMutationResult n) db'"
proof -
  note upd = assms(2) [unfolded failWorkflowClaimRetryableQuery_def]
  show ?thesis
    by (rule fenced_update_outcome [OF assms(1) upd], rule fenced_update_advances [OF assms(1) upd])
      (simp_all add: mutation_rows)
qed

lemma terminal_outcome:
  assumes "control_ok db" and "failWorkflowClaimTerminalQuery untyped m db = Inr (n, db')"
  shows "fenced_outcome m db (validateMutationResult n) db'"
proof -
  have upd: "fenced_update m (failed_claim m ClaimStatusFailedTerminal)
      (\<lambda>i. failed_item m WorkItemStatusFailedTerminal (ir_VisibleAt i) i) db = Inr (n, db')"
    using assms(2) by (simp add: failWorkflowClaimTerminalQuery_def split: if_splits)
  show ?thesis
    by (rule fenced_update_outcome [OF assms(1) upd], rule fenced_update_advances [OF assms(1) upd])
      (simp_all add: mutation_rows)
qed

lemma exec_outcome:
  assumes "execClaimMutation s m query lease db = (e, db')" and ok: "control_ok db"
    and query: "\<And>n. query m (nullableTime lease) db = Inr (n, db') \<Longrightarrow> fenced_outcome m db (validateMutationResult n) db'"
  shows "fenced_outcome m db e db'"
  using assms(1)
  by (cases rule: execClaimMutation_cases) (auto simp: fenced_outcome_refused [OF ok] dest: query)

lemma exec_terminal_outcome:
  assumes "execTerminalClaimMutation s m query db = (e, db')" and ok: "control_ok db"
    and query: "\<And>n. query (default_visible_at m) db = Inr (n, db')
      \<Longrightarrow> fenced_outcome (default_visible_at m) db (validateMutationResult n) db'"
  shows "fenced_outcome m db e db'"
  using assms(1)
proof (cases rule: execTerminalClaimMutation_cases)
  case stopped
  then show ?thesis by (simp add: fenced_outcome_refused [OF ok])
next
  case (executed n)
  then show ?thesis using query [OF executed(2)] by (simp add: fenced_outcome_def)
qed

lemma claim_mutation_outcome:
  assumes "claim_mutation m db e db'" and ok: "control_ok db"
  shows "fenced_outcome m db e db'"
  using assms(1)
proof cases
  case (mutation_heartbeat s)
  show ?thesis
  proof (cases "effectiveClaimLeaseTTL s (mut_LeaseDuration m)")
    case (Inl f)
    with mutation_heartbeat ok show ?thesis by (auto simp: HeartbeatClaim_def fenced_outcome_refused)
  next
    case (Inr ttl)
    with mutation_heartbeat have "execClaimMutation s m heartbeatWorkflowClaimQuery (utc (mut_ObservedAt m) + ttl) db = (e, db')"
      by (simp add: HeartbeatClaim_def)
    then show ?thesis by (rule exec_outcome [OF _ ok]) (rule heartbeat_outcome [OF ok])
  qed
next
  case (mutation_complete s)
  then show ?thesis
    unfolding CompleteClaim_def by (rule exec_outcome [OF _ ok]) (rule complete_outcome [OF ok])
next
  case (mutation_release s)
  then show ?thesis
    unfolding ReleaseClaim_def by (rule exec_outcome [OF _ ok]) (rule release_outcome [OF ok])
next
  case (mutation_retryable s)
  then have "fenced_outcome (default_visible_at m) db e db'"
    unfolding FailClaimRetryable_def by (rule exec_terminal_outcome [OF _ ok]) (rule retryable_outcome [OF ok])
  then show ?thesis by (simp add: fenced_outcome_def)
next
  case (mutation_terminal untyped s)
  then show ?thesis
    unfolding FailClaimTerminal_def by (rule exec_terminal_outcome [OF _ ok]) (rule terminal_outcome [OF ok])
qed

lemma ClaimNextEligible_cases:
  assumes "ClaimNextEligible collate locked s sel now lease db = Inr (row, db')"
  obtains ttl r where "effectiveClaimLeaseTTL s lease = Inr ttl" and "validateClaimSelector sel = None"
    and "claimNextWorkflowWorkItemQuery collate locked sel now (now + ttl) db = Inr (r, db')"
    and "row = map_option scanClaimedWorkflowWorkItem r"
  using assms by (auto simp: ClaimNextEligible_def split: sum.splits)

lemma ClaimNextEligible_Some:
  assumes "ClaimNextEligible collate locked s sel now lease db = Inr (Some (w, k), db')"
  obtains ttl i rest item claim where "effectiveClaimLeaseTTL s lease = Inr ttl" and "validateClaimSelector sel = None"
    and "item = claimed_row sel now (now + ttl) i" and "claim = claim_row sel now (now + ttl) item"
    and "(w, k) = scanClaimedWorkflowWorkItem (item, claim)"
    and "sort_by (cmp_claimable collate)
           (filter (\<lambda>i. eligible sel now i \<and> ir_WorkItemID i \<notin> locked) (db_Items db)) = i # rest"
    and "i \<in> set (db_Items db)" and "eligible sel now i" and "ir_WorkItemID i \<notin> locked"
    and "\<forall>c \<in> set (db_Claims db). cr_ClaimID c \<noteq> sel_ClaimID sel"
    and "db' = db\<lparr>db_Items := map (\<lambda>j. if ir_WorkItemID j = ir_WorkItemID i
           then claimed_row sel now (now + ttl) j else j) (db_Items db),
         db_Claims := db_Claims db @ [claim]\<rparr>"
proof -
  obtain ttl r where q: "effectiveClaimLeaseTTL s lease = Inr ttl" "validateClaimSelector sel = None"
      "claimNextWorkflowWorkItemQuery collate locked sel now (now + ttl) db = Inr (r, db')"
      "Some (w, k) = map_option scanClaimedWorkflowWorkItem r"
    using assms by (rule ClaimNextEligible_cases)
  show thesis
    using q(3)
  proof (cases rule: claimNext_cases)
    case unclaimed
    with q(4) show thesis by simp
  next
    case (claimed i rest)
    have fresh: "\<forall>c \<in> set (db_Claims db). cr_ClaimID c \<noteq> sel_ClaimID sel" using claimed(8) by blast
    have "(w, k) = scanClaimedWorkflowWorkItem (claimed_row sel now (now + ttl) i,
        claim_row sel now (now + ttl) (claimed_row sel now (now + ttl) i))"
      using q(4) claimed(1) by simp
    with that [OF q(1,2) refl refl _ claimed(2-5) fresh claimed(9)] show thesis by blast
  qed
qed

lemma control_step_advances:
  assumes "control_step db db'" and ok: "control_ok db"
  shows "advances db db'"
  using assms(1)
proof cases
  case (step_create jsonb s r e)
  with ok CreateRun_tables [OF this] show ?thesis
    by (intro advances_same_claims) (simp_all add: control_ok_def)
next
  case (step_enqueue s items e)
  with ok EnqueueWorkItems_ok [OF this ok] show ?thesis by (intro advances_same_claims) simp_all
next
  case (step_claim collate locked s sel now lease row)
  then show ?thesis by (elim ClaimNextEligible_cases) (rule claimNext_advances [OF ok])
next
  case (step_mutation m e)
  then show ?thesis using claim_mutation_outcome [OF _ ok] by (simp add: fenced_outcome_def)
next
  case (step_reap collate locked s asOf limit delay rows)
  then obtain out where "reapExpiredWorkflowClaimsQuery collate locked asOf (nat limit)
      (asOf + effectiveExpiredRequeueDelay s delay) db = (out, db')"
    by (auto simp: ReapExpiredClaims_def split: prod.splits)
  then show ?thesis by (rule reap_advances [OF ok])
qed

lemma active_claims_one:
  assumes ok: "control_ok db" and "c \<in> set (db_Claims db)" and "d \<in> set (db_Claims db)"
    and "cr_Status c = ClaimStatusActive" and "cr_Status d = ClaimStatusActive"
    and "cr_WorkItemID c = cr_WorkItemID d"
  shows "c = d"
proof -
  obtain i where i: "i \<in> set (db_Items db)" "owned_claim i c" using ok assms(2) by (rule claim_item)
  obtain j where j: "j \<in> set (db_Items db)" "owned_claim j d" using ok assms(3) by (rule claim_item)
  have "i = j" using item_unique [OF ok i(1) j(1)] i(2) j(2) assms(6) by (simp add: owned_claim_def)
  with i(2) j(2) assms(4,5) have "cr_ClaimID c = cr_ClaimID d" by (simp add: owned_claim_def held_by_def)
  with claim_unique [OF ok assms(2,3)] show ?thesis by simp
qed

interpretation control: leases control_step control_ok issued active ticket_item ticket_token
proof unfold_locales
  fix s t :: ControlDb
  show "control_step s t \<Longrightarrow> control_ok s \<Longrightarrow> control_ok t"
    using control_step_advances by (simp add: advances_def)
  show "control_step s t \<Longrightarrow> control_ok s \<Longrightarrow> issued s \<subseteq> issued t"
    using control_step_advances by (simp add: advances_def)
  show "control_step s t \<Longrightarrow> control_ok s \<Longrightarrow> active t \<inter> issued s \<subseteq> active s"
    using control_step_advances by (simp add: advances_def)
  show "active s \<subseteq> issued s" by (auto simp: active_def issued_def)
  fix x y :: "string \<times> string \<times> int \<times> string"
  show "x = y" if "control_ok s" "x \<in> active s" "y \<in> active s" "ticket_item x = ticket_item y"
  proof -
    obtain c d where "c \<in> set (db_Claims s)" "cr_Status c = ClaimStatusActive" "x = claim_ticket c"
      and "d \<in> set (db_Claims s)" "cr_Status d = ClaimStatusActive" "y = claim_ticket d"
      using \<open>x \<in> active s\<close> \<open>y \<in> active s\<close> by (auto simp: active_def)
    moreover from this \<open>ticket_item x = ticket_item y\<close> have "cr_WorkItemID c = cr_WorkItemID d"
      by (simp add: ticket_item_def claim_ticket_def)
    ultimately show ?thesis using active_claims_one [OF \<open>control_ok s\<close>] by metis
  qed
  show "ticket_token y < ticket_token x"
    if "control_step s t" "control_ok s" "x \<in> issued t" "x \<notin> issued s" "y \<in> issued s" "ticket_item x = ticket_item y"
    using control_step_advances [OF that(1,2)] that by (simp add: advances_def)
qed

section \<open>Properties\<close>

text \<open>
  C1: Whatever clients enqueue, claim, mutate or reap, in any order and from any number of
  coordinators, a work item never has two active claims, and its active claim is the one the
  item's row names, with the same fencing token, owner and lease.
\<close>

theorem one_active_claim:
  assumes "control_ok db" and "run control_step db db'"
    and "c \<in> set (db_Claims db')" and "cr_Status c = ClaimStatusActive"
  shows "(\<forall>d \<in> set (db_Claims db'). cr_Status d = ClaimStatusActive \<longrightarrow> cr_WorkItemID d = cr_WorkItemID c \<longrightarrow> d = c)
    \<and> (\<exists>i \<in> set (db_Items db'). ir_WorkItemID i = cr_WorkItemID c \<and> ir_Status i = WorkItemStatusClaimed
        \<and> ir_CurrentClaimID i = Some (cr_ClaimID c) \<and> ir_CurrentFencingToken i = cr_FencingToken c
        \<and> ir_CurrentOwnerID i = Some (cr_OwnerID c) \<and> ir_LeaseExpiresAt i = Some (cr_LeaseExpiresAt c))"
proof -
  have ok: "control_ok db'" by (rule control.run_preserves [OF assms(2,1)])
  then obtain i where "i \<in> set (db_Items db')" "owned_claim i c" using assms(3) by (rule claim_item)
  with assms(4) active_claims_one [OF ok _ assms(3) _ assms(4)] show ?thesis
    by (auto simp: owned_claim_def held_by_def)
qed

text \<open>
  C2: Once a claim has ended (completed, released, failed or expired by the reaper), every later
  heartbeat, completion, release or failure that presents its claim id is refused and changes no
  row, whatever happened in between: a collector that lost its lease cannot complete the work.
\<close>

theorem ended_claim_fenced:
  assumes ok: "control_ok db" and c: "c \<in> set (db_Claims db)" "cr_Status c \<noteq> ClaimStatusActive"
    and later: "run control_step db db'"
    and m: "claim_mutation m db' e db''" "mut_ClaimID m = cr_ClaimID c"
  shows "e \<noteq> None \<and> db'' = db'"
proof -
  have ok': "control_ok db'" by (rule control.run_preserves [OF later ok])
  have out: "fenced_outcome m db' e db''" by (rule claim_mutation_outcome [OF m(1) ok'])
  have issued: "claim_ticket c \<in> issued db" using c(1) by (simp add: issued_def)
  have "claim_ticket c \<notin> active db"
    using c claim_unique [OF ok c(1)] by (auto simp: active_def claim_ticket_def)
  then have ended: "claim_ticket c \<notin> active db'" by (rule control.ended_stays [OF later ok issued])
  have "mutation_ticket m \<notin> active db'"
  proof
    assume "mutation_ticket m \<in> active db'"
    then obtain d where d: "d \<in> set (db_Claims db')" "cr_Status d = ClaimStatusActive" "claim_ticket d = mutation_ticket m"
      by (auto simp: active_def)
    obtain f where f: "f \<in> set (db_Claims db')" "claim_ticket f = claim_ticket c"
      using control.run_issued [OF later ok] issued by (auto simp: issued_def)
    have "d = f" using claim_unique [OF ok' d(1) f(1)] d(3) f(2) m(2) by (simp add: claim_ticket_def mutation_ticket_def)
    with d(1,2) f(2) have "claim_ticket c \<in> active db'" by (auto simp: active_def intro!: rev_image_eqI [of d])
    with ended show False by simp
  qed
  with out show ?thesis by (auto simp: fenced_outcome_def)
qed


lemma cmp_claimable_comparator: "comparator collate \<Longrightarrow> comparator (cmp_claimable collate)"
  unfolding cmp_claimable_def [abs_def]
  by (rule comparator_lex [OF comparator_key comparator_lex [OF comparator_key]]) (rule comparator_via)

lemma cmp_expired_comparator: "comparator collate \<Longrightarrow> comparator (cmp_expired collate)"
  unfolding cmp_expired_def [abs_def] by (rule comparator_lex [OF comparator_key]) (rule comparator_via)

text \<open>
  A claim request answers nothing exactly when no unlocked work item of that collector
  instance is pending, visible and complete in its identity columns; otherwise it hands out the
  first such item by visibility time (creation time when none is set), then creation time, then
  id, with the lease the request or the store's default asks for.
\<close>

theorem claim_selects_first:
  assumes order: "comparator collate" and claim: "ClaimNextEligible collate locked s sel now lease db = Inr (row, db')"
  shows "case row of
      None \<Rightarrow> db' = db \<and> (\<forall>i \<in> set (db_Items db). eligible sel now i \<longrightarrow> ir_WorkItemID i \<in> locked)
    | Some (w, k) \<Rightarrow> \<exists>i \<in> set (db_Items db). wi_WorkItemID w = ir_WorkItemID i \<and> eligible sel now i
        \<and> ir_WorkItemID i \<notin> locked
        \<and> (\<forall>j \<in> set (db_Items db). eligible sel now j \<longrightarrow> ir_WorkItemID j \<notin> locked \<longrightarrow> cmp_claimable collate i j \<le> 0)
        \<and> cl_LeaseExpiresAt k = now + (if 0 < lease then lease else ws_DefaultClaimLeaseTTL s)
        \<and> wi_AttemptCount w = ir_AttemptCount i + 1 \<and> cl_FencingToken k = ir_CurrentFencingToken i + 1"
proof (cases row)
  case None
  from claim obtain ttl r where "claimNextWorkflowWorkItemQuery collate locked sel now (now + ttl) db = Inr (r, db')"
    and "row = map_option scanClaimedWorkflowWorkItem r" by (rule ClaimNextEligible_cases)
  with None show ?thesis by (auto elim: claimNext_cases)
next
  case (Some wk)
  obtain w k where wk: "wk = (w, k)" by (cases wk)
  let ?pool = "filter (\<lambda>i. eligible sel now i \<and> ir_WorkItemID i \<notin> locked) (db_Items db)"
  obtain ttl i rest item c where ttl: "effectiveClaimLeaseTTL s lease = Inr ttl"
    and rows: "item = claimed_row sel now (now + ttl) i" "c = claim_row sel now (now + ttl) item"
      "(w, k) = scanClaimedWorkflowWorkItem (item, c)"
    and first: "sort_by (cmp_claimable collate) ?pool = i # rest"
    and i: "i \<in> set (db_Items db)" "eligible sel now i" "ir_WorkItemID i \<notin> locked"
    using claim unfolding Some wk by (rule ClaimNextEligible_Some)
  note cmp = cmp_claimable_comparator [OF order]
  have "cmp_claimable collate i j \<le> 0" if "j \<in> set ?pool" for j
  proof (rule comparator.ordered_hd_least [OF cmp])
    show "ordered (cmp_claimable collate) (i # rest)"
      using comparator.ordered_sort_by [OF cmp, of ?pool] first by simp
    have "set (i # rest) = set ?pool" by (simp only: first [symmetric] set_sort_by)
    with that show "j \<in> set (i # rest)" by simp
  qed
  moreover have "ttl = (if 0 < lease then lease else ws_DefaultClaimLeaseTTL s)"
    using ttl by (auto simp: effectiveClaimLeaseTTL_def Let_def split: if_splits)
  ultimately show ?thesis
    using rows i unfolding Some wk
    by (intro bexI [of _ i] option.case case_prodI | simp add: scanClaimedWorkflowWorkItem_def claim_row_def claimed_row_def)+
qed

lemma FailClaimTerminal_refused:
  "\<exists>e. FailClaimTerminal False s m db = (Some e, db)"
proof (cases "first_err [requires_database s, validateClaimMutation (default_visible_at m)]")
  case None
  then show ?thesis
    by (simp add: FailClaimTerminal_def execTerminalClaimMutation_def Let_def failWorkflowClaimTerminalQuery_def)
next
  case (Some e)
  then show ?thesis by (simp add: FailClaimTerminal_def execTerminalClaimMutation_def Let_def)
qed

text \<open>
  The terminal-failure statement is sent with eight parameters but never mentions the second,
  whose type PostgreSQL then cannot determine when it prepares the statement: against a server
  that rejects such a statement, a terminal failure is never recorded and the claim stays active
  until the reaper requeues the work.
\<close>

theorem terminal_failure_never_recorded:
  "\<exists>e. FailClaimTerminal False s m db = (Some e, db)"
  by (rule FailClaimTerminal_refused)

definition item_of :: "ControlDb \<Rightarrow> string \<Rightarrow> ItemRow option" where
  "item_of db w = find (\<lambda>i. ir_WorkItemID i = w) (db_Items db)"

lemma find_map_row:
  assumes "\<And>i. ir_WorkItemID (fi i) = ir_WorkItemID i"
  shows "item_of (update_rows fc fi db) w = map_option fi (item_of db w)"
proof -
  have "find (\<lambda>i. ir_WorkItemID i = w) (map fi is) = map_option fi (find (\<lambda>i. ir_WorkItemID i = w) is)" for "is"
    by (induction "is") (simp_all add: assms)
  then show ?thesis by (simp add: item_of_def update_rows_def)
qed

lemma item_of_mem: "i \<in> set (db_Items db) \<Longrightarrow> control_ok db \<Longrightarrow> item_of db (ir_WorkItemID i) = Some i"
  using item_unique by (cases "item_of db (ir_WorkItemID i)") (auto simp: item_of_def find_None_iff find_Some_iff)

text \<open>With an active ticket the fenced statements update the item and the claim.\<close>

lemma fenced_update_applies:
  assumes ok: "control_ok db" and active: "mutation_ticket m \<in> active db"
    and item: "\<And>i. ir_WorkItemID (item i) = ir_WorkItemID i"
  obtains n db' i where "fenced_update m claim item db = Inr (n, db')" and "validateMutationResult n = None"
    and "item_of db (mut_WorkItemID m) = Some i" and "item_of db' (mut_WorkItemID m) = Some (item i)"
proof -
  have fence: "fence_holds m db" by (rule active_fence_holds [OF ok active])
  then obtain i where i: "i \<in> set (db_Items db)" "ir_WorkItemID i = mut_WorkItemID m"
    by (auto simp: fence_holds_def fence_matches_def)
  let ?fc = "\<lambda>c. if cr_ClaimID c = mut_ClaimID m \<and> cr_WorkItemID c = mut_WorkItemID m then claim c else c"
  let ?fi = "\<lambda>i. if ir_WorkItemID i = mut_WorkItemID m then item i else i"
  let ?n = "length (filter (\<lambda>i. ir_WorkItemID i = mut_WorkItemID m) (db_Items db))"
  have found: "item_of db (mut_WorkItemID m) = Some i" using item_of_mem [OF i(1) ok] i(2) by simp
  have "item_of (update_rows ?fc ?fi db) (mut_WorkItemID m) = Some (item i)"
    using found i(2) by (subst find_map_row) (simp_all add: item)
  moreover have "fenced_update m claim item db = Inr (?n, update_rows ?fc ?fi db)"
    using fence by (simp add: fenced_update_def update_rows_def)
  moreover have "validateMutationResult ?n = None"
    using i by (auto simp: validateMutationResult_def filter_empty_conv)
  ultimately show thesis using that found by blast
qed

lemma fenced_exec:
  assumes ok: "control_ok db" and active: "mutation_ticket m \<in> active db"
    and item: "\<And>i. ir_WorkItemID (item i) = ir_WorkItemID i" and Q: "\<And>i. Q (item i)"
  shows "\<exists>d i. (case fenced_update m claim item db of
        Inl e \<Rightarrow> (Some (Wrap msg e), db) | Inr (rows, db') \<Rightarrow> (validateMutationResult rows, db')) = (None, d)
      \<and> item_of d (mut_WorkItemID m) = Some i \<and> Q i"
proof -
  obtain n db' i where "fenced_update m claim item db = Inr (n, db')" "validateMutationResult n = None"
    "item_of db' (mut_WorkItemID m) = Some (item i)"
    using fenced_update_applies [OF ok active item] by metis
  with Q [of i] show ?thesis by (intro exI [of _ db'] exI [of _ "item i"]) simp
qed

text \<open>The ways an active claim ends.\<close>

lemma mutation_guards:
  assumes "requires_database s = None" and "validateClaimMutation m = None"
  shows "first_err [requires_database s, validateClaimMutation m] = None"
    and "first_err [requires_database s, validateClaimMutation (default_visible_at m)] = None"
  using assms by (simp_all add: validateClaimMutation_def default_visible_at_def)

lemma default_visible_at_simps [simp]:
  "mut_WorkItemID (default_visible_at m) = mut_WorkItemID m"
  "mut_ObservedAt (default_visible_at m) = mut_ObservedAt m"
  "mut_FailureClass (default_visible_at m) = mut_FailureClass m"
  "mut_FailureMessage (default_visible_at m) = mut_FailureMessage m"
  "mut_VisibleAt (default_visible_at m) = (if mut_VisibleAt m = 0 then mut_ObservedAt m else mut_VisibleAt m)"
  by (simp_all add: default_visible_at_def is_zero_def)

lemma active_completes:
  assumes "control_ok db" and "mutation_ticket m \<in> active db"
    and "requires_database s = None" and "validateClaimMutation m = None"
  shows "\<exists>d i. CompleteClaim s m db = (None, d) \<and> item_of d (mut_WorkItemID m) = Some i
    \<and> (ir_Status i = WorkItemStatusCompleted \<and> ir_LastCompletedAt i = Some (mut_ObservedAt m))"
  unfolding CompleteClaim_def execClaimMutation_def mutation_guards [OF assms(3,4)] completeWorkflowClaimQuery_def
    option.case
  by (rule fenced_exec [OF assms(1,2)]) simp_all

lemma active_releases:
  assumes "control_ok db" and "mutation_ticket m \<in> active db"
    and "requires_database s = None" and "validateClaimMutation m = None"
  shows "\<exists>d i. ReleaseClaim s m db = (None, d) \<and> item_of d (mut_WorkItemID m) = Some i
    \<and> (ir_Status i = WorkItemStatusPending \<and> ir_VisibleAt i = Some (mut_ObservedAt m))"
  unfolding ReleaseClaim_def execClaimMutation_def mutation_guards [OF assms(3,4)] releaseWorkflowClaimQuery_def
    option.case
  by (rule fenced_exec [OF assms(1,2)]) simp_all

lemma active_fails_retryably:
  assumes "control_ok db" and "mutation_ticket m \<in> active db"
    and "requires_database s = None" and "validateClaimMutation m = None"
  shows "\<exists>d i. FailClaimRetryable s m db = (None, d) \<and> item_of d (mut_WorkItemID m) = Some i
    \<and> (ir_Status i = WorkItemStatusPending \<and> ir_LastFailureClass i = nullif (mut_FailureClass m)
      \<and> ir_VisibleAt i = Some (if mut_VisibleAt m = 0 then mut_ObservedAt m else mut_VisibleAt m))"
proof -
  have act: "mutation_ticket (default_visible_at m) \<in> active db" using assms(2) by simp
  show ?thesis
    unfolding FailClaimRetryable_def execTerminalClaimMutation_def default_visible_at_idem Let_def
      mutation_guards [OF assms(3,4)] failWorkflowClaimRetryableQuery_def default_visible_at_simps(1) [of m, symmetric]
      option.case
    by (rule fenced_exec [OF assms(1) act]) (simp_all add: failed_item_def)
qed

lemma active_fails_terminally:
  assumes "control_ok db" and "mutation_ticket m \<in> active db"
    and "requires_database s = None" and "validateClaimMutation m = None"
  shows "\<exists>d i. FailClaimTerminal True s m db = (None, d) \<and> item_of d (mut_WorkItemID m) = Some i
    \<and> ir_Status i = WorkItemStatusFailedTerminal"
proof -
  have act: "mutation_ticket (default_visible_at m) \<in> active db" using assms(2) by simp
  show ?thesis
    unfolding FailClaimTerminal_def execTerminalClaimMutation_def Let_def mutation_guards [OF assms(3,4)]
      failWorkflowClaimTerminalQuery_def default_visible_at_simps(1) [of m, symmetric]
      option.case not_True_eq_False if_False
    by (rule fenced_exec [OF assms(1) act]) (simp_all add: failed_item_def)
qed

lemma handed_out_active:
  assumes "ClaimNextEligible collate locked s sel now lease db = Inr (Some (w, k), db')"
  shows "requires_database s = None \<and> cl_WorkItemID k = wi_WorkItemID w
    \<and> (cl_ClaimID k, cl_WorkItemID k, cl_FencingToken k, cl_OwnerID k) \<in> active db'"
proof -
  obtain ttl i rest item claim where rows: "item = claimed_row sel now (now + ttl) i"
      "claim = claim_row sel now (now + ttl) item" "(w, k) = scanClaimedWorkflowWorkItem (item, claim)"
    and db': "db' = db\<lparr>db_Items := map (\<lambda>j. if ir_WorkItemID j = ir_WorkItemID i
           then claimed_row sel now (now + ttl) j else j) (db_Items db), db_Claims := db_Claims db @ [claim]\<rparr>"
    using assms by (rule ClaimNextEligible_Some)
  have "requires_database s = None" using assms by (simp add: ClaimNextEligible_def)
  moreover have "claim_ticket claim \<in> active db'"
    using db' rows(2) by (simp add: active_def claim_row_def)
  ultimately show ?thesis
    using rows by (simp add: scanClaimedWorkflowWorkItem_def claim_ticket_def claim_row_def)
qed

text \<open>
  The holder of a claim just handed out can end it in each way the protocol offers: completing
  marks the work item completed, releasing and failing retryably put it back as pending, visible
  at once or at the requested time (the observation time when none is given), and, where the
  server accepts the statement, failing terminally ends the item.
\<close>

theorem handed_out_claim_ends:
  assumes ok: "control_ok db"
    and claim: "ClaimNextEligible collate locked s sel now lease db = Inr (Some (w, k), db1)"
    and m: "validateClaimMutation m = None" "mutation_ticket m = (cl_ClaimID k, cl_WorkItemID k, cl_FencingToken k, cl_OwnerID k)"
  shows "(\<exists>d i. CompleteClaim s m db1 = (None, d) \<and> item_of d (wi_WorkItemID w) = Some i
        \<and> ir_Status i = WorkItemStatusCompleted \<and> ir_LastCompletedAt i = Some (mut_ObservedAt m))
    \<and> (\<exists>d i. ReleaseClaim s m db1 = (None, d) \<and> item_of d (wi_WorkItemID w) = Some i
        \<and> ir_Status i = WorkItemStatusPending \<and> ir_VisibleAt i = Some (mut_ObservedAt m))
    \<and> (\<exists>d i. FailClaimRetryable s m db1 = (None, d) \<and> item_of d (wi_WorkItemID w) = Some i
        \<and> ir_Status i = WorkItemStatusPending
        \<and> ir_VisibleAt i = Some (if mut_VisibleAt m = 0 then mut_ObservedAt m else mut_VisibleAt m))
    \<and> (\<exists>d i. FailClaimTerminal True s m db1 = (None, d) \<and> item_of d (wi_WorkItemID w) = Some i
        \<and> ir_Status i = WorkItemStatusFailedTerminal)"
proof -
  have ok1: "control_ok db1"
    by (rule control.step_preserves [OF step_claim [OF claim] ok])
  note out = handed_out_active [OF claim]
  have w: "wi_WorkItemID w = mut_WorkItemID m" using out m(2) by (simp add: mutation_ticket_def)
  have act: "mutation_ticket m \<in> active db1" using out unfolding m(2) by blast
  have db: "requires_database s = None" using out by blast
  show ?thesis
    unfolding w
    using active_completes [OF ok1 act db m(1)] active_releases [OF ok1 act db m(1)]
      active_fails_retryably [OF ok1 act db m(1)] active_fails_terminally [OF ok1 act db m(1)]
    by blast
qed

section \<open>What a reap requeues\<close>

definition lapsed :: "time \<Rightarrow> ControlDb \<Rightarrow> ClaimRow list" where
  "lapsed asOf db = filter (\<lambda>c. cr_Status c = ClaimStatusActive \<and> cr_LeaseExpiresAt c < asOf) (db_Claims db)"

lemma length_filter_product:
  "length (filter P (List.product xs ys)) = (\<Sum>x\<leftarrow>xs. length (filter (\<lambda>y. P (x, y)) ys))"
  by (induction xs) (simp_all add: filter_map o_def)

lemma sum_list_indicator: "(\<Sum>x\<leftarrow>xs. if P x then 1 else 0) = length (filter P xs)"
  by (induction xs) simp_all

lemma expired_iff:
  assumes ok: "control_ok db" and c: "c \<in> set (db_Claims db)" and i: "i \<in> set (db_Items db)" "owned_claim i c"
    and j: "j \<in> set (db_Items db)"
  shows "expired asOf c j \<longleftrightarrow> j = i \<and> cr_Status c = ClaimStatusActive \<and> cr_LeaseExpiresAt c < asOf"
proof
  assume x: "expired asOf c j"
  with item_unique [OF ok j i(1)] i(2) show "j = i \<and> cr_Status c = ClaimStatusActive \<and> cr_LeaseExpiresAt c < asOf"
    by (simp add: expired_def owned_claim_def)
next
  assume "j = i \<and> cr_Status c = ClaimStatusActive \<and> cr_LeaseExpiresAt c < asOf"
  with i(2) show "expired asOf c j" by (simp add: expired_def owned_claim_def held_by_def)
qed

lemma expired_count:
  assumes ok: "control_ok db"
  shows "length (filter (\<lambda>(c, i). expired asOf c i \<and> ir_WorkItemID i \<notin> {})
      (List.product (db_Claims db) (db_Items db))) = length (lapsed asOf db)"
proof -
  have "length (filter (\<lambda>i. expired asOf c i) (db_Items db))
      = (if cr_Status c = ClaimStatusActive \<and> cr_LeaseExpiresAt c < asOf then 1 else 0)"
    if c: "c \<in> set (db_Claims db)" for c
  proof -
    obtain i where i: "i \<in> set (db_Items db)" "owned_claim i c" using ok c by (rule claim_item)
    have "distinct (db_Items db)" using ok by (auto simp: control_ok_def distinct_map)
    then have "length (filter (\<lambda>j. expired asOf c j) (db_Items db)) = card ({j. expired asOf c j} \<inter> set (db_Items db))"
      by (rule distinct_length_filter)
    also have "{j. expired asOf c j} \<inter> set (db_Items db)
        = (if cr_Status c = ClaimStatusActive \<and> cr_LeaseExpiresAt c < asOf then {i} else {})"
      using expired_iff [OF ok c i] i(1) by auto
    finally show ?thesis by simp
  qed
  then have "(\<Sum>c\<leftarrow>db_Claims db. length (filter (\<lambda>i. expired asOf c i) (db_Items db)))
      = (\<Sum>c\<leftarrow>db_Claims db. if cr_Status c = ClaimStatusActive \<and> cr_LeaseExpiresAt c < asOf then 1 else 0)"
    by (intro arg_cong [of _ _ sum_list] map_cong) simp_all
  then show ?thesis
    by (simp add: length_filter_product sum_list_indicator lapsed_def)
qed

lemma candidates_expired:
  assumes "(c, i) \<in> set (expired_candidates collate locked asOf limit db)"
  shows "c \<in> set (db_Claims db) \<and> i \<in> set (db_Items db) \<and> expired asOf c i"
proof -
  have "(c, i) \<in> set (sort_by (cmp_expired collate) (filter (\<lambda>(c, i). expired asOf c i \<and> ir_WorkItemID i \<notin> locked)
         (List.product (db_Claims db) (db_Items db))))"
    using assms unfolding expired_candidates_def by (rule in_set_takeD)
  then show ?thesis by auto
qed

definition reaped_db :: "(ClaimRow \<times> ItemRow) list \<Rightarrow> time \<Rightarrow> time \<Rightarrow> ControlDb \<Rightarrow> ControlDb" where
  "reaped_db cands asOf visible = update_rows
     (\<lambda>c. if cr_ClaimID c \<in> reaped_claims cands then expired_claim asOf c else c)
     (\<lambda>i. if \<exists>c \<in> fst ` set cands. ir_WorkItemID i = cr_WorkItemID c \<and> expired asOf c i
        then requeued_item asOf visible i else i)"

lemma reaped_item:
  assumes ok: "control_ok db" and k: "k \<in> set (map scanWorkflowClaim (map (expired_claim asOf \<circ> fst) cands))"
    and cands: "cands = expired_candidates collate locked asOf limit db"
  shows "(\<exists>c \<in> set (lapsed asOf db). cl_ClaimID k = cr_ClaimID c \<and> cl_WorkItemID k = cr_WorkItemID c)
    \<and> (\<exists>i. item_of (reaped_db cands asOf visible db) (cl_WorkItemID k) = Some i
        \<and> ir_Status i = WorkItemStatusPending \<and> ir_VisibleAt i = Some visible)"
proof -
  let ?fi = "\<lambda>i. if \<exists>c \<in> fst ` set cands. ir_WorkItemID i = cr_WorkItemID c \<and> expired asOf c i
    then requeued_item asOf visible i else i"
  obtain c i where ci: "(c, i) \<in> set cands" and k: "k = scanWorkflowClaim (expired_claim asOf c)"
    using k by auto
  from ci have facts: "c \<in> set (db_Claims db)" "i \<in> set (db_Items db)" "expired asOf c i"
    using candidates_expired [of c i] by (auto simp: cands)
  then have "item_of db (cr_WorkItemID c) = Some i" using item_of_mem [OF facts(2) ok] by (simp add: expired_def)
  moreover have "?fi i = requeued_item asOf visible i"
    using ci facts(3) by (intro if_P bexI [of _ c]) (auto simp: expired_def intro: rev_image_eqI)
  moreover have "item_of (reaped_db cands asOf visible db) (cr_WorkItemID c) = map_option ?fi (item_of db (cr_WorkItemID c))"
    unfolding reaped_db_def by (rule find_map_row) simp
  ultimately have "item_of (reaped_db cands asOf visible db) (cr_WorkItemID c) = Some (requeued_item asOf visible i)"
    by (simp only: option.map)
  moreover have "cl_ClaimID k = cr_ClaimID c" "cl_WorkItemID k = cr_WorkItemID c"
    by (simp_all add: k scanWorkflowClaim_def expired_claim_def)
  moreover have "c \<in> set (lapsed asOf db)" using facts by (simp add: lapsed_def expired_def)
  ultimately show ?thesis by (auto simp: requeued_item_def)
qed

lemma reaped_all:
  assumes ok: "control_ok db" and cands: "cands = expired_candidates collate {} asOf limit db"
    and enough: "length (lapsed asOf db) \<le> limit"
  shows "lapsed asOf (reaped_db cands asOf visible db) = []"
proof -
  have all: "set cands = set (filter (\<lambda>(c, i). expired asOf c i) (List.product (db_Claims db) (db_Items db)))"
    using enough expired_count [OF ok, of asOf] by (simp add: expired_candidates_def cands)
  have "cr_ClaimID c \<in> reaped_claims cands" if c: "c \<in> set (lapsed asOf db)" for c
  proof -
    have c': "c \<in> set (db_Claims db)" using c by (simp add: lapsed_def)
    obtain i where i: "i \<in> set (db_Items db)" "owned_claim i c" using ok c' by (rule claim_item)
    then have "(c, i) \<in> set cands" using c c' expired_iff [OF ok c' i i(1)] by (simp add: all lapsed_def)
    then show ?thesis by (force simp: reaped_claims_def)
  qed
  then show ?thesis by (auto simp: reaped_db_def lapsed_def update_rows_def filter_empty_conv)
qed

lemma unlapsed_kept:
  assumes ok: "control_ok db" and cands: "cands = expired_candidates collate locked asOf limit db"
    and c: "c \<in> set (db_Claims db)" "c \<notin> set (lapsed asOf db)"
  shows "c \<in> set (db_Claims (reaped_db cands asOf visible db))"
proof -
  have "cr_ClaimID c \<notin> reaped_claims cands"
  proof
    assume "cr_ClaimID c \<in> reaped_claims cands"
    then obtain d j where "(d, j) \<in> set cands" "cr_ClaimID c = cr_ClaimID d" by (auto simp: reaped_claims_def)
    with candidates_expired [of d j] claim_unique [OF ok c(1), of d] c(2) show False
      by (auto simp: lapsed_def expired_def cands)
  qed
  with c(1) show ?thesis by (force simp: reaped_db_def update_rows_def)
qed

text \<open>
  With no rows locked by others, a reap ends min(limit, n) of the n active claims whose lease
  lies strictly before its instant and requeues their work items, visible after the requeue delay;
  with a sufficient limit no lapsed claim stays active, and claims that have not lapsed (a
  heartbeat moved their lease) are untouched.
\<close>

theorem reap_requeues:
  assumes ok: "control_ok db" and limit: "0 < limit" and store: "ws_HasDatabase s"
  shows "\<exists>rows db'. ReapExpiredClaims collate {} s asOf limit delay db = Inr (rows, db')
    \<and> length rows = min (nat limit) (length (lapsed asOf db))
    \<and> (\<forall>k \<in> set rows. (\<exists>c \<in> set (lapsed asOf db). cl_ClaimID k = cr_ClaimID c \<and> cl_WorkItemID k = cr_WorkItemID c)
       \<and> (\<exists>i. item_of db' (cl_WorkItemID k) = Some i \<and> ir_Status i = WorkItemStatusPending
            \<and> ir_VisibleAt i = Some (asOf + effectiveExpiredRequeueDelay s delay)))
    \<and> (length (lapsed asOf db) \<le> nat limit \<longrightarrow> lapsed asOf db' = [])
    \<and> (\<forall>c \<in> set (db_Claims db). c \<notin> set (lapsed asOf db) \<longrightarrow> c \<in> set (db_Claims db'))"
proof -
  let ?visible = "asOf + effectiveExpiredRequeueDelay s delay"
  define cands where cands: "cands = expired_candidates collate {} asOf (nat limit) db"
  let ?rows = "map scanWorkflowClaim (map (expired_claim asOf \<circ> fst) cands)"
  have reap: "ReapExpiredClaims collate {} s asOf limit delay db = Inr (?rows, reaped_db cands asOf ?visible db)"
    using limit store by (simp add: ReapExpiredClaims_def requires_database_def reap_eq reaped_db_def cands)
  have count: "length ?rows = min (nat limit) (length (lapsed asOf db))"
    using expired_count [OF ok] by (simp add: expired_candidates_def min.commute cands)
  show ?thesis
  proof (rule exI [of _ ?rows], rule exI [of _ "reaped_db cands asOf ?visible db"], rule conjI [OF reap], rule conjI [OF count],
      rule conjI [OF ballI], erule reaped_item [OF ok _ cands], rule conjI [OF impI ballI])
    show "lapsed asOf (reaped_db cands asOf ?visible db) = []" if "length (lapsed asOf db) \<le> nat limit"
      by (rule reaped_all [OF ok cands that])
    show "c \<notin> set (lapsed asOf db) \<longrightarrow> c \<in> set (db_Claims (reaped_db cands asOf ?visible db))"
      if "c \<in> set (db_Claims db)" for c
      using unlapsed_kept [OF ok cands that] by blast
  qed
qed

section \<open>Witnesses\<close>

definition example_selector :: "string \<Rightarrow> ClaimSelector" where
  "example_selector claim = \<lparr>sel_CollectorKind = ''git'', sel_CollectorInstanceID = ''git-1'',
     sel_OwnerID = ''host-1'', sel_ClaimID = claim\<rparr>"

definition example_item :: ItemRow where
  "example_item = \<lparr>ir_WorkItemID = ''item-1'', ir_RunID = ''run-1'', ir_CollectorKind = ''git'',
     ir_CollectorInstanceID = ''git-1'', ir_SourceSystem = ''git'', ir_ScopeID = ''scope-1'',
     ir_AcceptanceUnitID = ''unit-1'', ir_SourceRunID = ''gen-1'', ir_GenerationID = ''gen-1'',
     ir_FairnessKey = None, ir_Status = WorkItemStatusPending, ir_AttemptCount = 0,
     ir_CurrentClaimID = None, ir_CurrentFencingToken = 0, ir_CurrentOwnerID = None,
     ir_LeaseExpiresAt = None, ir_VisibleAt = None, ir_LastClaimedAt = None, ir_LastCompletedAt = None,
     ir_LastFailureClass = None, ir_LastFailureMessage = None, ir_CreatedAt = 1, ir_UpdatedAt = 1\<rparr>"

definition pending_db :: ControlDb where
  "pending_db = \<lparr>db_Runs = [], db_Items = [example_item], db_Claims = []\<rparr>"

text \<open>After the first claim, after its lease lapsed and was reaped, and after the second claim.\<close>

definition claimed_db :: ControlDb where
  "claimed_db = snd (case ClaimNextEligible compare {} (NewWorkflowControlStore True) (example_selector ''claim-1'') 2 0 pending_db of
     Inr r \<Rightarrow> r | Inl e \<Rightarrow> (None, pending_db))"

definition reaped_example_db :: ControlDb where
  "reaped_example_db = snd (case ReapExpiredClaims compare {} (NewWorkflowControlStore True) (seconds 100) 10 0 claimed_db of
     Inr r \<Rightarrow> r | Inl e \<Rightarrow> ([], claimed_db))"

definition example_mutation :: ClaimMutation where
  "example_mutation = \<lparr>mut_WorkItemID = ''item-1'', mut_ClaimID = ''claim-1'', mut_FencingToken = 1,
     mut_OwnerID = ''host-1'', mut_ObservedAt = seconds 200, mut_LeaseDuration = 0,
     mut_FailureClass = [], mut_FailureMessage = [], mut_VisibleAt = 0\<rparr>"

lemma selector_ok: "validateClaimSelector (example_selector ''claim-1'') = None"
  "validateClaimSelector (example_selector ''claim-2'') = None"
  by (simp_all add: validateClaimSelector_def example_selector_def solid_not_blank solid_simps)

lemmas example_eval = ClaimNextEligible_def claimNextWorkflowWorkItemQuery_def NewWorkflowControlStore_def
  requires_database_def effectiveClaimLeaseTTL_def effectiveExpiredRequeueDelay_def pending_db_def example_item_def
  example_selector_def eligible_def claimed_row_def claim_row_def sort_by_def integer_fits_def bigint_fits_def
  DefaultWorkflowClaimLeaseTTL_def DefaultWorkflowClaimHeartbeatInterval_def DefaultWorkflowExpiredClaimRequeueDelay_def
  seconds_def

lemma first_claim: "\<exists>w k. ClaimNextEligible compare {} (NewWorkflowControlStore True) (example_selector ''claim-1'') 2 0 pending_db
    = Inr (Some (w, k), claimed_db) \<and> cl_ClaimID k = ''claim-1''"
  using selector_ok(1) unfolding claimed_db_def
  by (simp add: example_eval Let_def scanClaimedWorkflowWorkItem_def)

lemma pending_db_ok: "control_ok pending_db"
  by (simp add: control_ok_def pending_db_def example_item_def)

lemma claimed_db_run: "run control_step pending_db claimed_db"
  using first_claim run_one [of control_step pending_db claimed_db] step_claim by blast

lemma claimed_db_ok: "control_ok claimed_db"
  by (rule control.run_preserves [OF claimed_db_run pending_db_ok])

lemma claimed_db_claims: "map (\<lambda>c. (claim_ticket c, cr_Status c, cr_LeaseExpiresAt c)) (db_Claims claimed_db) =
    [((''claim-1'', ''item-1'', 1, ''host-1''), ClaimStatusActive, 2 + seconds 60)]"
  using selector_ok(1) unfolding claimed_db_def
  by (simp add: example_eval Let_def scanClaimedWorkflowWorkItem_def claim_ticket_def)

lemma first_reap: "\<exists>ks. ReapExpiredClaims compare {} (NewWorkflowControlStore True) (seconds 100) 10 0 claimed_db
    = Inr (ks, reaped_example_db)"
  by (simp add: ReapExpiredClaims_def requires_database_def NewWorkflowControlStore_def reaped_example_db_def
      split: prod.split)

lemma reaped_db_run: "run control_step pending_db reaped_example_db"
  using first_reap run_step [OF claimed_db_run] step_reap by blast

lemma reaped_db_ok: "control_ok reaped_example_db"
  by (rule control.run_preserves [OF reaped_db_run pending_db_ok])

lemma reaped_db_claims: "map (\<lambda>c. (cr_ClaimID c, cr_WorkItemID c, cr_FencingToken c, cr_OwnerID c, cr_Status c)) (db_Claims reaped_example_db) =
    [(''claim-1'', ''item-1'', 1, ''host-1'', ClaimStatusExpired)]"
  using selector_ok(1) unfolding reaped_example_db_def claimed_db_def
  by (simp add: example_eval ReapExpiredClaims_def reapExpiredWorkflowClaimsQuery_def expired_candidates_def
      expired_def expired_claim_def Let_def)

lemma second_claim: "\<exists>w k db'. ClaimNextEligible compare {} (NewWorkflowControlStore True) (example_selector ''claim-2'') (seconds 150) 0 reaped_example_db
    = Inr (Some (w, k), db') \<and> cl_WorkItemID k = ''item-1''"
  using selector_ok unfolding reaped_example_db_def claimed_db_def
  by (simp add: example_eval ReapExpiredClaims_def reapExpiredWorkflowClaimsQuery_def expired_candidates_def
      expired_def expired_claim_def requeued_item_def Let_def scanClaimedWorkflowWorkItem_def)

lemma one_active_claim_witness:
  "\<exists>i \<in> set (db_Items claimed_db). ir_Status i = WorkItemStatusClaimed \<and> ir_CurrentClaimID i = Some ''claim-1''"
proof -
  obtain c where "db_Claims claimed_db = [c]" "cr_ClaimID c = ''claim-1''" "cr_Status c = ClaimStatusActive"
    using claimed_db_claims by (auto simp: claim_ticket_def)
  then show ?thesis
    using one_active_claim [OF pending_db_ok claimed_db_run, of c] by auto
qed

lemma ended_claim_fenced_witness:
  "\<exists>e. CompleteClaim (NewWorkflowControlStore True) example_mutation reaped_example_db = (Some e, reaped_example_db)"
proof -
  obtain c where c: "c \<in> set (db_Claims reaped_example_db)" "cr_ClaimID c = ''claim-1''" "cr_Status c \<noteq> ClaimStatusActive"
    using reaped_db_claims by auto
  obtain e d where q: "CompleteClaim (NewWorkflowControlStore True) example_mutation reaped_example_db = (e, d)" by fastforce
  then have "claim_mutation example_mutation reaped_example_db e d" by (rule mutation_complete)
  from ended_claim_fenced [OF reaped_db_ok c(1,3) run_refl this] c(2) q show ?thesis
    by (auto simp: example_mutation_def)
qed


lemma claim_selects_first_witness:
  "\<exists>i \<in> set (db_Items pending_db). eligible (example_selector ''claim-1'') 2 i
     \<and> (\<forall>j \<in> set (db_Items pending_db). eligible (example_selector ''claim-1'') 2 j \<longrightarrow> cmp_claimable compare i j \<le> 0)"
proof -
  have "comparator (compare :: string \<Rightarrow> string \<Rightarrow> int)" using comparator_key [of "\<lambda>s. s"] by simp
  moreover obtain w k where "ClaimNextEligible compare {} (NewWorkflowControlStore True) (example_selector ''claim-1'') 2 0 pending_db
      = Inr (Some (w, k), claimed_db)" using first_claim by blast
  ultimately show ?thesis using claim_selects_first [of compare "{}"] by fastforce
qed

lemma handed_out_claim_ends_witness:
  "\<exists>d i. CompleteClaim (NewWorkflowControlStore True) example_mutation claimed_db = (None, d)
     \<and> item_of d ''item-1'' = Some i \<and> ir_Status i = WorkItemStatusCompleted"
proof -
  obtain w k where claim: "ClaimNextEligible compare {} (NewWorkflowControlStore True) (example_selector ''claim-1'') 2 0 pending_db
      = Inr (Some (w, k), claimed_db)" using first_claim by blast
  have "(cl_ClaimID k, cl_WorkItemID k, cl_FencingToken k, cl_OwnerID k) \<in> active claimed_db"
    using handed_out_active [OF claim] by blast
  then have ticket: "mutation_ticket example_mutation = (cl_ClaimID k, cl_WorkItemID k, cl_FencingToken k, cl_OwnerID k)"
    using claimed_db_claims by (auto simp: active_def claim_ticket_def mutation_ticket_def example_mutation_def)
  have "validateClaimMutation example_mutation = None"
    by (simp add: validateClaimMutation_def example_mutation_def solid_not_blank solid_simps is_zero_def seconds_def)
  moreover have "wi_WorkItemID w = ''item-1''"
    using handed_out_active [OF claim] ticket by (simp add: mutation_ticket_def example_mutation_def)
  ultimately show ?thesis
    using handed_out_claim_ends [OF pending_db_ok claim _ ticket] by auto
qed

lemma reap_requeues_witness:
  "\<exists>rows d. ReapExpiredClaims compare {} (NewWorkflowControlStore True) (seconds 100) 10 0 claimed_db = Inr (rows, d)
     \<and> length rows = 1 \<and> lapsed (seconds 100) d = []"
proof -
  have "length (lapsed (seconds 100) claimed_db) = 1"
    using claimed_db_claims by (auto simp: lapsed_def seconds_def)
  then show ?thesis
    using reap_requeues [OF claimed_db_ok, of 10 "NewWorkflowControlStore True" compare "seconds 100" 0]
    by (auto simp: NewWorkflowControlStore_def)
qed

end
