(* ===== verification/CoordinatorState.thy ===== *)
theory CoordinatorState
  imports ClaimStore Progress
begin

text \<open>
  \<open>go/internal/storage/postgres/workflow_coordinator_state.go\<close>: the collector instances the
  coordinator keeps in step with its configuration, and the completeness rows of the runs. The
  tables stand beside those of \<open>ClaimStore\<close> and the readiness rows of
  \<open>graph_projection_phase_state\<close>, which the run reconciliation reads. A store without a
  transaction starter runs each statement on its own, so a failure leaves the earlier ones.
\<close>

section \<open>Tables\<close>

record InstanceRow =
  ins_InstanceID :: string
  ins_CollectorKind :: string
  ins_Mode :: CollectorMode
  ins_Enabled :: bool
  ins_Bootstrap :: bool
  ins_ClaimsEnabled :: bool
  ins_DisplayName :: "string option"
  ins_Configuration :: string
  ins_LastObservedAt :: time
  ins_DeactivatedAt :: "time option"
  ins_CreatedAt :: time
  ins_UpdatedAt :: time

record CompletenessRow =
  cw_RunID :: string
  cw_CollectorKind :: string
  cw_Keyspace :: string
  cw_PhaseName :: string
  cw_Required :: bool
  cw_Status :: string
  cw_Detail :: "string option"
  cw_ObservedAt :: time
  cw_UpdatedAt :: time

record CoordinatorDb =
  cd_Control :: ControlDb
  cd_Instances :: "InstanceRow list"
  cd_Completeness :: "CompletenessRow list"
  cd_Phases :: "PhaseState list"

section \<open>Collector instances\<close>

definition instance_row :: "string \<Rightarrow> CollectorInstance \<Rightarrow> InstanceRow" where
  "instance_row doc i = \<lparr>ins_InstanceID = ci_InstanceID i, ins_CollectorKind = ci_CollectorKind i,
     ins_Mode = ci_Mode i, ins_Enabled = ci_Enabled i, ins_Bootstrap = ci_Bootstrap i,
     ins_ClaimsEnabled = ci_ClaimsEnabled i, ins_DisplayName = nullif (ci_DisplayName i),
     ins_Configuration = doc, ins_LastObservedAt = ci_LastObservedAt i,
     ins_DeactivatedAt = (if ci_Enabled i then None else Some (ci_LastObservedAt i)),
     ins_CreatedAt = ci_LastObservedAt i, ins_UpdatedAt = ci_LastObservedAt i\<rparr>"

definition merge_instance :: "InstanceRow \<Rightarrow> InstanceRow \<Rightarrow> InstanceRow" where
  "merge_instance old excluded =
     excluded\<lparr>ins_InstanceID := ins_InstanceID old, ins_CreatedAt := ins_CreatedAt old\<rparr>"

fun upsert_instances ::
  "(string \<Rightarrow> string option) \<Rightarrow> time \<Rightarrow> DesiredCollectorInstance list \<Rightarrow> InstanceRow list
   \<Rightarrow> error option \<times> InstanceRow list" where
  "upsert_instances jsonb now [] rows = (None, rows)"
| "upsert_instances jsonb now (d # ds) rows =
     (let i = Materialize d now in
      case jsonb (ci_Configuration i) of
        None \<Rightarrow> (Some (Wrap ''reconcile collector instances: upsert''
                  (Fmt ''invalid input syntax for type json'' [ci_InstanceID i])), rows)
      | Some doc \<Rightarrow>
          upsert_instances jsonb now ds (upsert_row ins_InstanceID merge_instance (instance_row doc i) rows))"

definition deactivateStaleCollectorInstancesQuery :: "time \<Rightarrow> string list \<Rightarrow> InstanceRow list \<Rightarrow> InstanceRow list" where
  "deactivateStaleCollectorInstancesQuery now ids = map (\<lambda>r.
     if ins_InstanceID r \<notin> set ids \<and> (ins_Enabled r \<or> ins_DeactivatedAt r = None)
     then r\<lparr>ins_Enabled := False, ins_ClaimsEnabled := False, ins_DeactivatedAt := Some now,
            ins_UpdatedAt := now\<rparr>
     else r)"

definition ReconcileCollectorInstances ::
  "(string \<Rightarrow> string option) \<Rightarrow> ControlStore \<Rightarrow> time \<Rightarrow> DesiredCollectorInstance list
   \<Rightarrow> CoordinatorDb \<Rightarrow> error option \<times> CoordinatorDb" where
  "ReconcileCollectorInstances jsonb s observedAt desired db =
     (case requires_database s of Some e \<Rightarrow> (Some e, db)
      | None \<Rightarrow>
        (case first_err (map DesiredCollectorInstance_Validate desired) of
           Some e \<Rightarrow> (Some (Wrap ''reconcile collector instances'' e), db)
         | None \<Rightarrow>
             (let now = utc observedAt in
              case upsert_instances jsonb now desired (cd_Instances db) of
                (Some e, rows) \<Rightarrow> (Some e, if ws_HasBeginner s then db else db\<lparr>cd_Instances := rows\<rparr>)
              | (None, rows) \<Rightarrow>
                  (let ids = map (\<lambda>d. ci_InstanceID (Materialize d now)) desired;
                       ids = (if ids = [] then [[]] else ids)
                   in (None, db\<lparr>cd_Instances := deactivateStaleCollectorInstancesQuery now ids rows\<rparr>)))))"

definition cmp_instances :: "(string \<Rightarrow> string \<Rightarrow> int) \<Rightarrow> InstanceRow \<Rightarrow> InstanceRow \<Rightarrow> int" where
  "cmp_instances collate x y = or_else (collate (ins_CollectorKind x) (ins_CollectorKind y))
     (collate (ins_InstanceID x) (ins_InstanceID y))"

definition scanCollectorInstance :: "InstanceRow \<Rightarrow> CollectorInstance" where
  "scanCollectorInstance r = \<lparr>ci_InstanceID = ins_InstanceID r,
     ci_CollectorKind = trim_space (ins_CollectorKind r), ci_Mode = ins_Mode r,
     ci_Enabled = ins_Enabled r, ci_Bootstrap = ins_Bootstrap r, ci_ClaimsEnabled = ins_ClaimsEnabled r,
     ci_DisplayName = coalesce (ins_DisplayName r), ci_Configuration = ins_Configuration r,
     ci_LastObservedAt = ins_LastObservedAt r,
     ci_DeactivatedAt = (case ins_DeactivatedAt r of Some t \<Rightarrow> t | None \<Rightarrow> 0),
     ci_CreatedAt = ins_CreatedAt r, ci_UpdatedAt = ins_UpdatedAt r\<rparr>"

definition ListCollectorInstances ::
  "(string \<Rightarrow> string \<Rightarrow> int) \<Rightarrow> ControlStore \<Rightarrow> CoordinatorDb \<Rightarrow> CollectorInstance list result" where
  "ListCollectorInstances collate s db = checked (requires_database s)
     (Inr (map scanCollectorInstance (sort_by (cmp_instances collate) (cd_Instances db))))"

section \<open>Completeness rows\<close>

definition completeness_key :: "CompletenessRow \<Rightarrow> string \<times> string \<times> string \<times> string" where
  "completeness_key r = (cw_RunID r, cw_CollectorKind r, cw_Keyspace r, cw_PhaseName r)"

definition completeness_row :: "CompletenessState \<Rightarrow> CompletenessRow" where
  "completeness_row c = \<lparr>cw_RunID = cs_RunID c, cw_CollectorKind = cs_CollectorKind c,
     cw_Keyspace = cs_Keyspace c, cw_PhaseName = cs_PhaseName c, cw_Required = cs_Required c,
     cw_Status = trim_space (cs_Status c), cw_Detail = nullif (trim_space (cs_Detail c)),
     cw_ObservedAt = utc (cs_ObservedAt c), cw_UpdatedAt = utc (cs_UpdatedAt c)\<rparr>"

definition merge_completeness :: "CompletenessRow \<Rightarrow> CompletenessRow \<Rightarrow> CompletenessRow" where
  "merge_completeness old excluded = old\<lparr>cw_Required := cw_Required excluded,
     cw_Status := cw_Status excluded, cw_Detail := cw_Detail excluded,
     cw_ObservedAt := cw_ObservedAt excluded, cw_UpdatedAt := cw_UpdatedAt excluded\<rparr>"

fun upsert_completeness :: "CompletenessState list \<Rightarrow> CoordinatorDb \<Rightarrow> error option \<times> CoordinatorDb" where
  "upsert_completeness [] db = (None, db)"
| "upsert_completeness (c # cs) db =
     (case CompletenessState_Validate c of
        Some e \<Rightarrow> (Some (Wrap ''upsert completeness states'' e), db)
      | None \<Rightarrow>
          if cs_RunID c \<notin> set (map rr_RunID (db_Runs (cd_Control db)))
          then (Some (Wrap ''upsert completeness states'' (Msg ''violates foreign key constraint'')), db)
          else upsert_completeness cs (db\<lparr>cd_Completeness :=
            upsert_row completeness_key merge_completeness (completeness_row c) (cd_Completeness db)\<rparr>))"

definition UpsertCompletenessStates :: "ControlStore \<Rightarrow> CompletenessState list \<Rightarrow> CoordinatorDb \<Rightarrow> error option \<times> CoordinatorDb" where
  "UpsertCompletenessStates s states db =
     (case requires_database s of Some e \<Rightarrow> (Some e, db) | None \<Rightarrow> upsert_completeness states db)"

section \<open>Instances follow the configuration\<close>

definition find_instance :: "InstanceRow list \<Rightarrow> string \<Rightarrow> InstanceRow option" where
  "find_instance rows k = find (\<lambda>r. ins_InstanceID r = k) rows"

lemma upsert_instances_rows:
  assumes "upsert_instances jsonb now desired rows = (None, rows')"
  shows "(\<forall>d \<in> set desired. jsonb (ci_Configuration (Materialize d now)) \<noteq> None)
    \<and> rows' = fold (upsert_row ins_InstanceID merge_instance)
        (map (\<lambda>d. instance_row (the (jsonb (ci_Configuration (Materialize d now)))) (Materialize d now)) desired) rows"
  using assms
  by (induction desired arbitrary: rows) (auto simp: Let_def split: option.splits)

lemma Materialize_simps [simp]:
  "ci_InstanceID (Materialize d t) = trim_space (dci_InstanceID d)"
  "ci_CollectorKind (Materialize d t) = dci_CollectorKind d" "ci_Enabled (Materialize d t) = dci_Enabled d"
  "ci_ClaimsEnabled (Materialize d t) = dci_ClaimsEnabled d" "ci_LastObservedAt (Materialize d t) = t"
  "ci_Configuration (Materialize d t) = normalizeJSONDocument (dci_Configuration d)"
  by (simp_all add: Materialize_def Let_def)

lemma instance_row_simps [simp]:
  "ins_InstanceID (instance_row doc i) = ci_InstanceID i" "ins_Configuration (instance_row doc i) = doc"
  "ins_Enabled (instance_row doc i) = ci_Enabled i" "ins_ClaimsEnabled (instance_row doc i) = ci_ClaimsEnabled i"
  "ins_CollectorKind (instance_row doc i) = ci_CollectorKind i"
  by (simp_all add: instance_row_def)

lemma find_deactivated:
  "find_instance (deactivateStaleCollectorInstancesQuery now ids rows) k
    = map_option (\<lambda>r. if ins_InstanceID r \<notin> set ids \<and> (ins_Enabled r \<or> ins_DeactivatedAt r = None)
        then r\<lparr>ins_Enabled := False, ins_ClaimsEnabled := False, ins_DeactivatedAt := Some now, ins_UpdatedAt := now\<rparr> else r)
      (find_instance rows k)"
  by (induction rows) (auto simp: find_instance_def deactivateStaleCollectorInstancesQuery_def)



end
