(* ===== verification/RunReconciliation.thy ===== *)
theory RunReconciliation
  imports CoordinatorState
begin

text \<open>
  \<open>go/internal/storage/postgres/workflow_run_reconciliation.go\<close>: deriving the status of every
  unfinished run from its work items and the published phases, run after run, each in its own
  transaction when the database starts transactions.
\<close>

section \<open>The queries\<close>

definition cmp_unfinished :: "(string \<Rightarrow> string \<Rightarrow> int) \<Rightarrow> RunRow \<Rightarrow> RunRow \<Rightarrow> int" where
  "cmp_unfinished collate x y =
     or_else (compare (rr_UpdatedAt x) (rr_UpdatedAt y)) (collate (rr_RunID x) (rr_RunID y))"

definition unfinished :: "RunRow \<Rightarrow> bool" where
  "unfinished r \<longleftrightarrow> rr_Status r \<notin> {RunStatusComplete, RunStatusFailed}"

definition listWorkflowRunsForReconciliationQuery :: "(string \<Rightarrow> string \<Rightarrow> int) \<Rightarrow> ControlDb \<Rightarrow> RunRow list" where
  "listWorkflowRunsForReconciliationQuery collate db =
     sort_by (cmp_unfinished collate) (filter unfinished (db_Runs db))"

definition scanWorkflowRun :: "RunRow \<Rightarrow> Run" where
  "scanWorkflowRun r = \<lparr>run_RunID = rr_RunID r, run_TriggerKind = rr_TriggerKind r,
     run_Status = rr_Status r, run_RequestedScopeSet = rr_RequestedScopeSet r,
     run_RequestedCollector = trim_space (coalesce (rr_RequestedCollector r)),
     run_CreatedAt = rr_CreatedAt r, run_UpdatedAt = rr_UpdatedAt r,
     run_FinishedAt = (case rr_FinishedAt r of Some t \<Rightarrow> utc t | None \<Rightarrow> 0)\<rparr>"

text \<open>\<open>GROUP BY collector_kind ORDER BY collector_kind\<close> over the items of one run.\<close>

definition run_items :: "ControlDb \<Rightarrow> string \<Rightarrow> ItemRow list" where
  "run_items db runID = filter (\<lambda>i. ir_RunID i = runID) (db_Items db)"

definition items_with :: "WorkItemStatus \<Rightarrow> ItemRow list \<Rightarrow> int" where
  "items_with status is = int (length (filter (\<lambda>i. ir_Status i = status) is))"

definition progress_of_kind :: "ItemRow list \<Rightarrow> string \<Rightarrow> CollectorRunProgress" where
  "progress_of_kind all kind =
     (let is = filter (\<lambda>i. ir_CollectorKind i = kind) all in
      \<lparr>cp_CollectorKind = trim_space kind, cp_TotalWorkItems = int (length is),
       cp_PendingWorkItems = items_with WorkItemStatusPending is,
       cp_ClaimedWorkItems = items_with WorkItemStatusClaimed is,
       cp_CompletedWorkItems = items_with WorkItemStatusCompleted is,
       cp_FailedTerminalItems = items_with WorkItemStatusFailedTerminal is,
       cp_PublishedPhaseCounts = []\<rparr>)"

definition listWorkflowCollectorProgress ::
  "(string \<Rightarrow> string \<Rightarrow> int) \<Rightarrow> CoordinatorDb \<Rightarrow> string \<Rightarrow> CollectorRunProgress list" where
  "listWorkflowCollectorProgress collate db runID =
     (let is = run_items (cd_Control db) runID in
      map (progress_of_kind is) (sort_by collate (remdups (map ir_CollectorKind is))))"

text \<open>The JOIN with the readiness rows, grouped by collector kind, keyspace and phase.\<close>

definition publishes :: "PhaseState \<Rightarrow> ItemRow \<Rightarrow> bool" where
  "publishes p i \<longleftrightarrow> pk_ScopeID (ps_Key p) = ir_ScopeID i
     \<and> pk_AcceptanceUnitID (ps_Key p) = ir_AcceptanceUnitID i
     \<and> pk_SourceRunID (ps_Key p) = ir_SourceRunID i \<and> pk_GenerationID (ps_Key p) = ir_GenerationID i"

definition phase_group :: "ItemRow \<Rightarrow> PhaseState \<Rightarrow> string \<times> string \<times> string" where
  "phase_group i p = (ir_CollectorKind i, pk_Keyspace (ps_Key p), ps_Phase p)"

definition published_items :: "ItemRow list \<Rightarrow> PhaseState list \<Rightarrow> string \<times> string \<times> string \<Rightarrow> int" where
  "published_items is ps g = int (length (remdups (map ir_WorkItemID
     (filter (\<lambda>i. list_ex (\<lambda>p. publishes p i \<and> phase_group i p = g) ps) is))))"

definition cmp_groups :: "(string \<Rightarrow> string \<Rightarrow> int) \<Rightarrow> string \<times> string \<times> string \<Rightarrow> string \<times> string \<times> string \<Rightarrow> int" where
  "cmp_groups collate x y = or_else (collate (fst x) (fst y))
     (or_else (collate (fst (snd x)) (fst (snd y))) (collate (snd (snd x)) (snd (snd y))))"

definition listWorkflowCollectorPhaseCountsQuery ::
  "(string \<Rightarrow> string \<Rightarrow> int) \<Rightarrow> CoordinatorDb \<Rightarrow> string \<Rightarrow> ((string \<times> string \<times> string) \<times> int) list" where
  "listWorkflowCollectorPhaseCountsQuery collate db runID =
     (let is = run_items (cd_Control db) runID;
          joined = filter (\<lambda>(i, p). publishes p i) (List.product is (cd_Phases db))
      in map (\<lambda>g. (g, published_items is (cd_Phases db) g))
           (sort_by (cmp_groups collate) (remdups (map (\<lambda>(i, p). phase_group i p) joined))))"

text \<open>The maps the scan builds: a later row of the same trimmed key overwrites.\<close>

definition assoc_put :: "'k \<Rightarrow> 'v \<Rightarrow> ('k \<times> 'v) list \<Rightarrow> ('k \<times> 'v) list" where
  "assoc_put k v m = (k, v) # filter (\<lambda>e. fst e \<noteq> k) m"

definition phase_counts_of ::
  "((string \<times> string \<times> string) \<times> int) list \<Rightarrow> string \<Rightarrow> (PhasePublicationKey \<times> int) list" where
  "phase_counts_of rows kind = fold
     (\<lambda>((k, keyspace, phase), n) m.
        if trim_space k = kind
        then assoc_put \<lparr>pub_Keyspace = trim_space keyspace, pub_PhaseName = trim_space phase\<rparr> n m
        else m) rows []"

section \<open>Reconciling\<close>

definition updateWorkflowRunStatusQuery :: "Run \<Rightarrow> RunRow list \<Rightarrow> RunRow list" where
  "updateWorkflowRunStatusQuery next = map (\<lambda>r.
     if rr_RunID r = run_RunID next
     then r\<lparr>rr_Status := run_Status next, rr_UpdatedAt := utc (run_UpdatedAt next),
            rr_FinishedAt := (if is_zero (run_FinishedAt next) then None else Some (utc (run_UpdatedAt next)))\<rparr>
     else r)"

definition run_snapshot :: "(string \<Rightarrow> string \<Rightarrow> int) \<Rightarrow> CoordinatorDb \<Rightarrow> Run \<Rightarrow> RunProgressSnapshot" where
  "run_snapshot collate db r =
     \<lparr>rps_Run = r,
      rps_Collectors = map (\<lambda>c. c\<lparr>cp_PublishedPhaseCounts :=
          phase_counts_of (listWorkflowCollectorPhaseCountsQuery collate db (run_RunID r)) (cp_CollectorKind c)\<rparr>)
        (listWorkflowCollectorProgress collate db (run_RunID r))\<rparr>"

definition reconcileWorkflowRun ::
  "(string \<Rightarrow> string \<Rightarrow> int) \<Rightarrow> ControlStore \<Rightarrow> Run \<Rightarrow> time \<Rightarrow> CoordinatorDb \<Rightarrow> error option \<times> CoordinatorDb" where
  "reconcileWorkflowRun collate s r observedAt db =
     (case ReconcileRunProgress (run_snapshot collate db r) observedAt of
        Inl e \<Rightarrow> (Some (Wrap ''reconcile workflow run'' e), db)
      | Inr (nextRun, completeness) \<Rightarrow>
          (let updated = db\<lparr>cd_Control := (cd_Control db)\<lparr>db_Runs :=
                 updateWorkflowRunStatusQuery nextRun (db_Runs (cd_Control db))\<rparr>\<rparr> in
           case upsert_completeness completeness updated of
             (Some e, partial) \<Rightarrow>
               (Some (Wrap ''reconcile workflow run: upsert completeness'' e),
                if ws_HasBeginner s then db else partial)
           | (None, db') \<Rightarrow> (None, db')))"

fun reconcile_runs ::
  "(string \<Rightarrow> string \<Rightarrow> int) \<Rightarrow> ControlStore \<Rightarrow> time \<Rightarrow> Run list \<Rightarrow> nat \<Rightarrow> CoordinatorDb
   \<Rightarrow> (nat \<times> error option) \<times> CoordinatorDb" where
  "reconcile_runs collate s t [] n db = ((n, None), db)"
| "reconcile_runs collate s t (r # rs) n db =
     (case reconcileWorkflowRun collate s r t db of
        (Some e, db') \<Rightarrow> ((0, Some e), db')
      | (None, db') \<Rightarrow> reconcile_runs collate s t rs (n + 1) db')"

definition ReconcileWorkflowRuns ::
  "(string \<Rightarrow> string \<Rightarrow> int) \<Rightarrow> ControlStore \<Rightarrow> time \<Rightarrow> CoordinatorDb \<Rightarrow> (nat \<times> error option) \<times> CoordinatorDb" where
  "ReconcileWorkflowRuns collate s observedAt db =
     (case requires_database s of
        Some e \<Rightarrow> ((0, Some e), db)
      | None \<Rightarrow> reconcile_runs collate s (utc observedAt)
          (map scanWorkflowRun (listWorkflowRunsForReconciliationQuery collate (cd_Control db))) 0 db)"

section \<open>What the queries count\<close>

lemma map_of_assoc_put: "map_of (assoc_put k v m) = (map_of m)(k \<mapsto> v)"
proof
  fix x
  have "map_of (filter (\<lambda>e. fst e \<noteq> k) m) x = (if x = k then None else map_of m x)"
    by (induction m) auto
  then show "map_of (assoc_put k v m) x = ((map_of m)(k \<mapsto> v)) x" by (simp add: assoc_put_def)
qed

definition trimmed_group :: "string \<times> string \<times> string \<Rightarrow> bool" where
  "trimmed_group g \<longleftrightarrow> trim_space (fst g) = fst g \<and> trim_space (fst (snd g)) = fst (snd g)
     \<and> trim_space (snd (snd g)) = snd (snd g)"

lemma map_of_phase_counts:
  assumes "\<forall>e \<in> set rows. trimmed_group (fst e)" and "distinct (map fst rows)"
  shows "map_of (phase_counts_of rows kind) \<lparr>pub_Keyspace = ks, pub_PhaseName = ph\<rparr> = map_of rows (kind, ks, ph)"
proof -
  let ?f = "\<lambda>((k, keyspace, phase), n) m. if trim_space k = kind
     then assoc_put \<lparr>pub_Keyspace = trim_space keyspace, pub_PhaseName = trim_space phase\<rparr> n m else m"
  have "map_of (fold ?f rows m) \<lparr>pub_Keyspace = ks, pub_PhaseName = ph\<rparr> =
      (case map_of rows (kind, ks, ph) of Some n \<Rightarrow> Some n | None \<Rightarrow> map_of m \<lparr>pub_Keyspace = ks, pub_PhaseName = ph\<rparr>)" for m
    using assms
  proof (induction rows arbitrary: m)
    case Nil
    show ?case by simp
  next
    case (Cons e rows)
    obtain k keyspace phase n where e: "e = ((k, keyspace, phase), n)" by (cases e) auto
    have "map_of rows (k, keyspace, phase) = None" using Cons.prems(2) e by (auto simp: map_of_eq_None_iff)
    with Cons.IH [of "?f e m"] Cons.prems e show ?case
      by (auto simp: trimmed_group_def map_of_assoc_put split: option.split)
  qed
  then show ?thesis by (simp add: phase_counts_of_def split: option.split)
qed

definition published_for :: "PhaseState list \<Rightarrow> PhaseRequirement \<Rightarrow> ItemRow \<Rightarrow> bool" where
  "published_for ps q i \<longleftrightarrow> (\<exists>p \<in> set ps. publishes p i \<and> pk_Keyspace (ps_Key p) = req_Keyspace q
     \<and> ps_Phase p = req_PhaseName q)"

lemma published_items_count:
  assumes "distinct (map ir_WorkItemID is)"
  shows "published_items is ps (kind, ks, ph) = int (length (filter (\<lambda>i. ir_CollectorKind i = kind
     \<and> (\<exists>p \<in> set ps. publishes p i \<and> pk_Keyspace (ps_Key p) = ks \<and> ps_Phase p = ph)) is))"
proof -
  have "distinct (map ir_WorkItemID (filter P is))" for P using assms by (rule distinct_map_filter)
  then have "published_items is ps (kind, ks, ph) =
      int (length (filter (\<lambda>i. list_ex (\<lambda>p. publishes p i \<and> phase_group i p = (kind, ks, ph)) ps) is))"
    by (simp add: published_items_def distinct_remdups_id)
  also have "filter (\<lambda>i. list_ex (\<lambda>p. publishes p i \<and> phase_group i p = (kind, ks, ph)) ps) is =
      filter (\<lambda>i. ir_CollectorKind i = kind \<and> (\<exists>p \<in> set ps. publishes p i \<and> pk_Keyspace (ps_Key p) = ks \<and> ps_Phase p = ph)) is"
    by (rule filter_cong) (auto simp: list_ex_iff phase_group_def)
  finally show ?thesis .
qed

lemma length_filter_le_iff:
  "length (filter P xs) \<le> length (filter (\<lambda>x. P x \<and> Q x) xs) \<longleftrightarrow> (\<forall>x \<in> set xs. P x \<longrightarrow> Q x)"
proof (induction xs)
  case (Cons x xs)
  have "length (filter (\<lambda>x. P x \<and> Q x) xs) \<le> length (filter P xs)" by (induction xs) auto
  with Cons show ?case by auto
qed simp

lemma length_filter_eq_iff:
  "length (filter (\<lambda>x. P x \<and> Q x) xs) = length (filter P xs) \<longleftrightarrow> (\<forall>x \<in> set xs. P x \<longrightarrow> Q x)"
proof -
  have "length (filter (\<lambda>x. P x \<and> Q x) xs) \<le> length (filter P xs)" by (induction xs) auto
  with length_filter_le_iff [of P xs Q] show ?thesis by linarith
qed

definition run_collector :: "(string \<Rightarrow> string \<Rightarrow> int) \<Rightarrow> CoordinatorDb \<Rightarrow> string \<Rightarrow> string \<Rightarrow> CollectorRunProgress" where
  "run_collector collate db runID kind =
     (progress_of_kind (run_items (cd_Control db) runID) kind)\<lparr>cp_PublishedPhaseCounts :=
        phase_counts_of (listWorkflowCollectorPhaseCountsQuery collate db runID) (trim_space kind)\<rparr>"

lemma snapshot_collectors:
  "set (rps_Collectors (run_snapshot collate db r)) =
     run_collector collate db (run_RunID r) ` ir_CollectorKind ` set (run_items (cd_Control db) (run_RunID r))"
  by (simp add: run_snapshot_def listWorkflowCollectorProgress_def Let_def run_collector_def progress_of_kind_def
      image_image)

lemma published_count_items:
  assumes kinds: "\<forall>i \<in> set (run_items (cd_Control db) runID). trim_space (ir_CollectorKind i) = ir_CollectorKind i"
    and phases: "\<forall>p \<in> set (cd_Phases db). trim_space (pk_Keyspace (ps_Key p)) = pk_Keyspace (ps_Key p) \<and> trim_space (ps_Phase p) = ps_Phase p"
    and ids: "distinct (map ir_WorkItemID (run_items (cd_Control db) runID))" and kind: "trim_space kind = kind"
  shows "published_count (run_collector collate db runID kind) q = int (length (filter (\<lambda>i. ir_CollectorKind i = kind
     \<and> published_for (cd_Phases db) q i) (run_items (cd_Control db) runID)))"
proof -
  let ?is = "run_items (cd_Control db) runID"
  let ?joined = "filter (\<lambda>(i, p). publishes p i) (List.product ?is (cd_Phases db))"
  let ?groups = "sort_by (cmp_groups collate) (remdups (map (\<lambda>(i, p). phase_group i p) ?joined))"
  let ?rows = "listWorkflowCollectorPhaseCountsQuery collate db runID"
  let ?g = "(kind, req_Keyspace q, req_PhaseName q)"
  have rows: "?rows = map (\<lambda>g. (g, published_items ?is (cd_Phases db) g)) ?groups"
    by (simp add: listWorkflowCollectorPhaseCountsQuery_def Let_def)
  have "\<forall>e \<in> set ?rows. trimmed_group (fst e)"
    using kinds phases by (auto simp: rows trimmed_group_def phase_group_def)
  moreover have "distinct (map fst ?rows)" by (simp add: rows o_def)
  ultimately have "map_of (phase_counts_of ?rows kind) \<lparr>pub_Keyspace = req_Keyspace q, pub_PhaseName = req_PhaseName q\<rparr>
      = map_of ?rows ?g" by (rule map_of_phase_counts)
  also have "map_of ?rows ?g = (if ?g \<in> set ?groups then Some (published_items ?is (cd_Phases db) ?g) else None)"
    unfolding rows by (simp add: map_of_map_restrict restrict_map_def)
  finally have "published_count (run_collector collate db runID kind) q
      = (if ?g \<in> set ?groups then published_items ?is (cd_Phases db) ?g else 0)"
    by (simp add: published_count_def run_collector_def kind)
  moreover have "published_items ?is (cd_Phases db) ?g = 0" if "?g \<notin> set ?groups"
    using that unfolding published_items_count [OF ids]
    by (force simp: filter_empty_conv phase_group_def)
  ultimately show ?thesis
    using published_items_count [OF ids] by (simp add: published_for_def)
qed

lemma run_collector_simps [simp]:
  "cp_CollectorKind (run_collector collate db runID kind) = trim_space kind"
  "cp_TotalWorkItems (run_collector collate db runID kind) = int (length (filter (\<lambda>i. ir_CollectorKind i = kind) (run_items (cd_Control db) runID)))"
  by (simp_all add: run_collector_def progress_of_kind_def Let_def)

lemma run_collector_failed:
  "failed_terminally (run_collector collate db runID kind) \<longleftrightarrow>
     (\<exists>i \<in> set (run_items (cd_Control db) runID). ir_CollectorKind i = kind \<and> ir_Status i = WorkItemStatusFailedTerminal)"
  by (auto simp: failed_terminally_def run_collector_def progress_of_kind_def Let_def items_with_def filter_empty_conv)

lemma run_collector_complete:
  "collection_complete (run_collector collate db runID kind) \<longleftrightarrow>
     (\<forall>i \<in> set (run_items (cd_Control db) runID). ir_CollectorKind i = kind \<longrightarrow> ir_Status i = WorkItemStatusCompleted)"
proof -
  let ?is = "run_items (cd_Control db) runID"
  have "collection_complete (run_collector collate db runID kind) \<longleftrightarrow>
     (\<forall>i \<in> set ?is. ir_CollectorKind i = kind \<longrightarrow> ir_Status i \<notin> {WorkItemStatusPending, WorkItemStatusClaimed, WorkItemStatusFailedTerminal})
     \<and> length (filter (\<lambda>i. ir_CollectorKind i = kind \<and> ir_Status i = WorkItemStatusCompleted) ?is)
       = length (filter (\<lambda>i. ir_CollectorKind i = kind) ?is)"
    by (auto simp: collection_complete_def run_collector_def progress_of_kind_def Let_def items_with_def
        filter_empty_conv conj_commute)
  then show ?thesis by (auto simp: length_filter_eq_iff)
qed

lemma run_collector_phases:
  assumes kinds: "\<forall>i \<in> set (run_items (cd_Control db) runID). trim_space (ir_CollectorKind i) = ir_CollectorKind i"
    and phases: "\<forall>p \<in> set (cd_Phases db). trim_space (pk_Keyspace (ps_Key p)) = pk_Keyspace (ps_Key p) \<and> trim_space (ps_Phase p) = ps_Phase p"
    and ids: "distinct (map ir_WorkItemID (run_items (cd_Control db) runID))"
    and kind: "kind \<in> ir_CollectorKind ` set (run_items (cd_Control db) runID)"
  shows "phases_ready (run_collector collate db runID kind) \<longleftrightarrow>
     (\<forall>i \<in> set (run_items (cd_Control db) runID). ir_CollectorKind i = kind \<longrightarrow> ir_Status i \<noteq> WorkItemStatusFailedTerminal
        \<and> (\<forall>q \<in> set (RequiredPhasesForCollector kind). published_for (cd_Phases db) q i))"
proof -
  have trim: "trim_space kind = kind" using kinds kind by auto
  have "phase_ready (run_collector collate db runID kind) q \<longleftrightarrow>
      (\<forall>i \<in> set (run_items (cd_Control db) runID). ir_CollectorKind i = kind \<longrightarrow> published_for (cd_Phases db) q i)" for q
    using kind length_filter_le_iff [of "\<lambda>i. ir_CollectorKind i = kind" "run_items (cd_Control db) runID"]
    by (auto simp: phase_ready_def published_count_items [OF kinds phases ids trim] filter_empty_conv)
  then show ?thesis by (auto simp: phases_ready_def run_collector_failed trim)
qed

lemma upsert_completeness_control:
  "upsert_completeness cs db = (e, db') \<Longrightarrow> cd_Control db' = cd_Control db \<and> cd_Phases db' = cd_Phases db \<and> cd_Instances db' = cd_Instances db"
  by (induction cs arbitrary: db) (auto split: option.splits if_splits)

lemma reconcileWorkflowRun_Inr:
  assumes "reconcileWorkflowRun collate s r t db = (None, db')"
  obtains nextRun rows where "ReconcileRunProgress (run_snapshot collate db r) t = Inr (nextRun, rows)"
    and "db_Runs (cd_Control db') = updateWorkflowRunStatusQuery nextRun (db_Runs (cd_Control db))"
  using assms
  by (auto simp: reconcileWorkflowRun_def Let_def split: sum.splits prod.splits option.splits
      dest!: upsert_completeness_control)

lemma derived_run_facts:
  "run_Status (derived_run rn g) = (if pg_anyFailedTerminal g then RunStatusFailed
     else if pg_allCollectionComplete g
     then if pg_allRequiredPhasesReady g then RunStatusComplete else RunStatusReducerConverging
     else if pg_anyClaimed g \<or> pg_anyPending g \<and> pg_anyCompleted g
     then RunStatusCollectionActive else RunStatusCollectionPending)"
  "run_RunID (derived_run rn g) = run_RunID rn" "run_UpdatedAt (derived_run rn g) = run_UpdatedAt rn"
  "run_FinishedAt rn = 0 \<Longrightarrow> run_FinishedAt (derived_run rn g)
     = (if run_Status (derived_run rn g) \<in> {RunStatusFailed, RunStatusComplete} then run_UpdatedAt rn else 0)"
  by (auto simp: derived_run_def)

lemma derived_status:
  assumes rec: "ReconcileRunProgress snap t = Inr (r, rows)" and some: "rps_Collectors snap \<noteq> []"
  shows "run_RunID r = run_RunID (rps_Run snap) \<and> run_UpdatedAt r = t
    \<and> run_FinishedAt r = (if run_Status r \<in> {RunStatusFailed, RunStatusComplete} then t else 0) \<and> t \<noteq> 0
    \<and> run_Status r = (if \<exists>c \<in> set (rps_Collectors snap). failed_terminally c then RunStatusFailed
        else if (\<forall>c \<in> set (rps_Collectors snap). collection_complete c)
        then if (\<forall>c \<in> set (rps_Collectors snap). phases_ready c) then RunStatusComplete else RunStatusReducerConverging
        else if (\<exists>c \<in> set (rps_Collectors snap). 0 < cp_ClaimedWorkItems c)
          \<or> (\<exists>c \<in> set (rps_Collectors snap). 0 < cp_PendingWorkItems c) \<and> (\<exists>c \<in> set (rps_Collectors snap). 0 < cp_CompletedWorkItems c)
        then RunStatusCollectionActive else RunStatusCollectionPending)"
proof -
  have "t \<noteq> 0" using rec by (auto simp: ReconcileRunProgress_def is_zero_def)
  moreover have "list_all progress_ok (rps_Collectors snap)"
    using rec some by (auto simp: ReconcileRunProgress_def Let_def split: sum.splits dest: collector_steps_Inr)
  moreover define rn where "rn = (rps_Run snap)\<lparr>run_UpdatedAt := t, run_FinishedAt := 0\<rparr>"
  moreover define g where "g = \<lparr>pg_rows = concat (map (rows_of (run_RunID rn) t) (rps_Collectors snap)),
      pg_anyPending = (\<exists>c \<in> set (rps_Collectors snap). 0 < cp_PendingWorkItems c),
      pg_anyClaimed = (\<exists>c \<in> set (rps_Collectors snap). 0 < cp_ClaimedWorkItems c),
      pg_anyCompleted = (\<exists>c \<in> set (rps_Collectors snap). 0 < cp_CompletedWorkItems c),
      pg_anyFailedTerminal = (\<exists>c \<in> set (rps_Collectors snap). failed_terminally c),
      pg_allCollectionComplete = (\<forall>c \<in> set (rps_Collectors snap). collection_complete c),
      pg_allRequiredPhasesReady = (\<forall>c \<in> set (rps_Collectors snap). phases_ready c)\<rparr>"
  ultimately have r: "r = derived_run rn g"
    using rec some by (simp add: ReconcileRunProgress_def Let_def is_zero_def collector_steps_eq)
  have "run_FinishedAt rn = 0" "run_UpdatedAt rn = t" "run_RunID rn = run_RunID (rps_Run snap)"
    by (simp_all add: rn_def)
  then show ?thesis
    using \<open>t \<noteq> 0\<close> unfolding r by (simp only: derived_run_facts simp_thms) (simp only: g_def progress.simps simp_thms)
qed


section \<open>A run whose clock ran backwards\<close>

lemma reconcile_keeps_others:
  assumes "reconcileWorkflowRun collate s r t db = (e, db')"
  shows "map rr_RunID (db_Runs (cd_Control db')) = map rr_RunID (db_Runs (cd_Control db))
    \<and> (row \<in> set (db_Runs (cd_Control db)) \<longrightarrow> rr_RunID row \<noteq> run_RunID r \<longrightarrow> row \<in> set (db_Runs (cd_Control db')))"
proof -
  have runs: "db_Runs (cd_Control db') = db_Runs (cd_Control db)
      \<or> (\<exists>n. run_RunID n = run_RunID r \<and> db_Runs (cd_Control db') = updateWorkflowRunStatusQuery n (db_Runs (cd_Control db)))"
  proof (cases "ReconcileRunProgress (run_snapshot collate db r) t")
    case (Inl f)
    with assms show ?thesis by (simp add: reconcileWorkflowRun_def)
  next
    case (Inr x)
    obtain n rows where x: "x = (n, rows)" by (cases x)
    have "run_RunID n = run_RunID r"
    proof (cases "rps_Collectors (run_snapshot collate db r) = []")
      case True
      with Inr x show ?thesis by (auto simp: ReconcileRunProgress_def Let_def run_snapshot_def)
    next
      case False
      then show ?thesis using derived_status [OF Inr [unfolded x]] by (simp add: run_snapshot_def)
    qed
    with assms Inr x show ?thesis
      by (auto simp: reconcileWorkflowRun_def Let_def split: prod.splits option.splits if_splits
          dest!: upsert_completeness_control)
  qed
  have "map rr_RunID (updateWorkflowRunStatusQuery n rs) = map rr_RunID rs" for n rs
    by (simp add: updateWorkflowRunStatusQuery_def)
  moreover have "row \<in> set (updateWorkflowRunStatusQuery n rs)"
    if "row \<in> set rs" "rr_RunID row \<noteq> run_RunID n" for n rs
    using that by (force simp: updateWorkflowRunStatusQuery_def)
  ultimately show ?thesis using runs by metis
qed

lemma skewed_row_rejected:
  assumes "rr_UpdatedAt row < rr_CreatedAt row"
  shows "\<exists>e. reconcileWorkflowRun collate s (scanWorkflowRun row) t db = (Some e, db)"
proof -
  have "\<not> run_ok (scanWorkflowRun row)" using assms by (simp add: run_ok_def scanWorkflowRun_def)
  then obtain e where "Run_Validate (scanWorkflowRun row) = Some e" using runs.rejects_iff by blast
  then have "ReconcileRunProgress (run_snapshot collate db (scanWorkflowRun row)) t = Inl e"
    by (simp add: ReconcileRunProgress_def run_snapshot_def)
  then show ?thesis by (simp add: reconcileWorkflowRun_def)
qed

lemma reconcile_runs_blocked:
  assumes skew: "rr_UpdatedAt row < rr_CreatedAt row" and "row \<in> set (db_Runs (cd_Control db))"
    and "scanWorkflowRun row \<in> set rs" and "\<forall>r \<in> set rs. run_RunID r = rr_RunID row \<longrightarrow> r = scanWorkflowRun row"
  shows "\<exists>e db'. reconcile_runs collate s t rs n db = ((0, Some e), db') \<and> row \<in> set (db_Runs (cd_Control db'))
    \<and> map rr_RunID (db_Runs (cd_Control db')) = map rr_RunID (db_Runs (cd_Control db))"
  using assms(2-)
proof (induction rs arbitrary: n db)
  case Nil
  then show ?case by simp
next
  case (Cons r rs)
  show ?case
  proof (cases "r = scanWorkflowRun row")
    case True
    with skewed_row_rejected [OF skew, of collate s t db] Cons.prems(1) show ?thesis by auto
  next
    case False
    then have other: "rr_RunID row \<noteq> run_RunID r" using Cons.prems(3) by force
    obtain e d where ed: "reconcileWorkflowRun collate s r t db = (e, d)" by fastforce
    with reconcile_keeps_others [OF ed, of row] Cons.prems(1) other
    have d: "row \<in> set (db_Runs (cd_Control d))" "map rr_RunID (db_Runs (cd_Control d)) = map rr_RunID (db_Runs (cd_Control db))"
      by blast+
    show ?thesis
    proof (cases e)
      case None
      with Cons.IH [OF d(1), of "n + 1"] Cons.prems(2,3) False ed d(2) show ?thesis by auto
    next
      case (Some f)
      with ed d show ?thesis by auto
    qed
  qed
qed

lemma skewed_run_fails:
  assumes row: "row \<in> set (db_Runs (cd_Control db))" "unfinished row" and skew: "rr_UpdatedAt row < rr_CreatedAt row"
    and ids: "distinct (map rr_RunID (db_Runs (cd_Control db)))"
  shows "\<exists>e db'. ReconcileWorkflowRuns collate s t db = ((0, Some e), db') \<and> row \<in> set (db_Runs (cd_Control db'))
    \<and> distinct (map rr_RunID (db_Runs (cd_Control db')))"
proof (cases "requires_database s")
  case (Some e)
  with row ids show ?thesis by (simp add: ReconcileWorkflowRuns_def)
next
  case None
  let ?rs = "map scanWorkflowRun (listWorkflowRunsForReconciliationQuery collate (cd_Control db))"
  have "scanWorkflowRun row \<in> set ?rs"
    using row by (simp add: listWorkflowRunsForReconciliationQuery_def)
  moreover have "\<forall>r \<in> set ?rs. run_RunID r = rr_RunID row \<longrightarrow> r = scanWorkflowRun row"
    using row(1) ids by (auto simp: listWorkflowRunsForReconciliationQuery_def scanWorkflowRun_def distinct_map dest: inj_onD)
  ultimately show ?thesis
    using reconcile_runs_blocked [OF skew row(1)] None ids by (fastforce simp: ReconcileWorkflowRuns_def)
qed

text \<open>
  Reconciling at an instant before a run's creation time (a coordinator whose clock is behind
  the creator's) stores an update time that validation rejects, and from then on every
  reconciliation of the store, at any time, fails at that run, reports no progress and leaves the
  run as it is: one such row stops all runs ordered after it for good.
\<close>

theorem skewed_run_blocks_reconciliation:
  assumes row: "row \<in> set (db_Runs (cd_Control db))" "unfinished row" and skew: "rr_UpdatedAt row < rr_CreatedAt row"
    and ids: "distinct (map rr_RunID (db_Runs (cd_Control db)))"
  shows "\<exists>e db'. ReconcileWorkflowRuns collate s t db = ((0, Some e), db') \<and> row \<in> set (db_Runs (cd_Control db'))
    \<and> distinct (map rr_RunID (db_Runs (cd_Control db')))"
  using assms by (rule skewed_run_fails)

definition example_run :: RunRow where
  "example_run = \<lparr>rr_RunID = ''run-1'', rr_TriggerKind = TriggerKindSchedule,
     rr_Status = RunStatusCollectionPending, rr_RequestedScopeSet = ''[]'', rr_RequestedCollector = None,
     rr_CreatedAt = 10, rr_UpdatedAt = 10, rr_FinishedAt = None\<rparr>"

definition run_db :: "ItemRow list \<Rightarrow> CoordinatorDb" where
  "run_db items = \<lparr>cd_Control = \<lparr>db_Runs = [example_run], db_Items = items, db_Claims = []\<rparr>,
     cd_Instances = [], cd_Completeness = [], cd_Phases = []\<rparr>"

lemma example_run_valid: "Run_Validate (scanWorkflowRun example_run) = None"
  by (simp add: validate_iffs run_ok_def scanWorkflowRun_def example_run_def solid_not_blank solid_simps)

lemma skewed_run_blocks_reconciliation_witness:
  "\<exists>d. ReconcileWorkflowRuns compare (NewWorkflowControlStore True) 5 (run_db []) = ((1, None), d)
     \<and> (\<forall>t. \<exists>e d'. ReconcileWorkflowRuns compare (NewWorkflowControlStore True) t d = ((0, Some e), d'))"
proof -
  let ?row = "example_run\<lparr>rr_UpdatedAt := 5\<rparr>"
  let ?d = "(run_db [])\<lparr>cd_Control := \<lparr>db_Runs = [?row], db_Items = [], db_Claims = []\<rparr>\<rparr>"
  have first: "ReconcileWorkflowRuns compare (NewWorkflowControlStore True) 5 (run_db []) = ((1, None), ?d)"
    using example_run_valid
    by (simp add: ReconcileWorkflowRuns_def requires_database_def NewWorkflowControlStore_def run_db_def
        listWorkflowRunsForReconciliationQuery_def unfinished_def sort_by_def reconcileWorkflowRun_def
        ReconcileRunProgress_def run_snapshot_def listWorkflowCollectorProgress_def run_items_def Let_def is_zero_def
        updateWorkflowRunStatusQuery_def scanWorkflowRun_def example_run_def)
  have "\<exists>e d'. ReconcileWorkflowRuns compare (NewWorkflowControlStore True) t ?d = ((0, Some e), d')" for t
    using skewed_run_blocks_reconciliation [of ?row ?d compare "NewWorkflowControlStore True" t]
    by (auto simp: run_db_def unfinished_def example_run_def)
  with first show ?thesis by blast
qed


end
