(* ===== verification/Sha256.thy ===== *)
theory Sha256
  imports Strings "HOL-Library.Word"
begin

unbundle bit_operations_syntax

text \<open>
  \<open>crypto/sha256.Sum256\<close> (FIPS 180-4) on byte strings, and the hexadecimal printing \<open>%x\<close> of
  its result. Words are 32 bits wide, additions wrap.
\<close>

text \<open>
  The constants are the first 32 bits of the fractional parts of the cube roots (of the rounds)
  and of the square roots (of the initial state) of the first primes: \<open>iroot k b n r\<close> adds to \<open>r\<close>
  the bits below \<open>b\<close> that keep its \<open>k\<close>-th power within \<open>n\<close>.
\<close>

fun iroot :: "nat \<Rightarrow> nat \<Rightarrow> nat \<Rightarrow> nat \<Rightarrow> nat" where
  "iroot k 0 n r = r"
| "iroot k (Suc b) n r = (let s = r + 2 ^ b in iroot k b n (if s ^ k \<le> n then s else r))"

definition fraction_bits :: "nat \<Rightarrow> nat \<Rightarrow> 32 word" where
  "fraction_bits k p = of_nat (iroot k 36 (p * 2 ^ (32 * k)) 0)"

definition primes_below :: "nat \<Rightarrow> nat list" where
  "primes_below n = filter (\<lambda>p. list_all (\<lambda>d. p mod d \<noteq> 0) [2..<p]) [2..<n]"

definition sha256_constants :: "32 word list" where
  "sha256_constants = map (fraction_bits 3) (primes_below 312)"

definition sha256_initial :: "32 word list" where
  "sha256_initial = map (fraction_bits 2) (primes_below 20)"

lemma iroot_below: "r ^ k \<le> n \<Longrightarrow> iroot k b n r ^ k \<le> n"
  by (induction b arbitrary: r) (simp_all add: Let_def)

lemma iroot_above: "n < (r + 2 ^ b) ^ k \<Longrightarrow> n < (iroot k b n r + 1) ^ k"
  by (induction b arbitrary: r) (simp_all add: Let_def mult_2 add.assoc)

definition rotr :: "nat \<Rightarrow> 32 word \<Rightarrow> 32 word" where
  "rotr n w = drop_bit n w OR push_bit (32 - n) w"

definition big_sigma0 :: "32 word \<Rightarrow> 32 word" where "big_sigma0 x = rotr 2 x XOR rotr 13 x XOR rotr 22 x"
definition big_sigma1 :: "32 word \<Rightarrow> 32 word" where "big_sigma1 x = rotr 6 x XOR rotr 11 x XOR rotr 25 x"
definition small_sigma0 :: "32 word \<Rightarrow> 32 word" where "small_sigma0 x = rotr 7 x XOR rotr 18 x XOR drop_bit 3 x"
definition small_sigma1 :: "32 word \<Rightarrow> 32 word" where "small_sigma1 x = rotr 17 x XOR rotr 19 x XOR drop_bit 10 x"

definition be_bytes :: "nat \<Rightarrow> nat \<Rightarrow> nat list" where
  "be_bytes n v = map (\<lambda>i. v div 256 ^ (n - 1 - i) mod 256) [0..<n]"

definition sha256_pad :: "nat list \<Rightarrow> nat list" where
  "sha256_pad bs = (let l = length bs in
     bs @ [128] @ replicate ((119 - l mod 64) mod 64) 0 @ be_bytes 8 (8 * l))"

text \<open>The big-endian value of a byte list.\<close>

definition be_value :: "nat list \<Rightarrow> nat" where
  "be_value bs = foldl (\<lambda>v b. v * 256 + b) 0 bs"

fun block_words :: "nat list \<Rightarrow> 32 word list" where
  "block_words (a # b # c # d # bs) = of_nat (be_value [a, b, c, d]) # block_words bs"
| "block_words _ = []"

fun schedule :: "nat \<Rightarrow> 32 word list \<Rightarrow> 32 word list" where
  "schedule 0 ws = ws"
| "schedule (Suc n) ws = (let t = length ws in
     schedule n (ws @ [small_sigma1 (ws ! (t - 2)) + ws ! (t - 7) + small_sigma0 (ws ! (t - 15)) + ws ! (t - 16)]))"

fun sha256_round :: "32 word \<times> 32 word \<Rightarrow> 32 word list \<Rightarrow> 32 word list" where
  "sha256_round (k, w) [a, b, c, d, e, f, g, h] =
     (let t1 = h + big_sigma1 e + ((e AND f) XOR (NOT e AND g)) + k + w;
          t2 = big_sigma0 a + ((a AND b) XOR (a AND c) XOR (b AND c))
      in [t1 + t2, a, b, c, d + t1, e, f, g])"
| "sha256_round _ hs = hs"

definition sha256_block :: "nat list \<Rightarrow> 32 word list \<Rightarrow> 32 word list" where
  "sha256_block block hs =
     map2 (+) hs (fold sha256_round (zip sha256_constants (schedule 48 (block_words block))) hs)"

function sha256_blocks :: "nat list \<Rightarrow> 32 word list \<Rightarrow> 32 word list" where
  "sha256_blocks bs hs =
     (if bs = [] then hs else sha256_blocks (drop 64 bs) (sha256_block (take 64 bs) hs))"
  by pat_completeness auto
termination
  by (relation "measure (\<lambda>(bs, _). length bs)") auto

declare sha256_blocks.simps [simp del]

definition sha256 :: "string \<Rightarrow> nat list" where
  "sha256 s = concat (map (\<lambda>w. be_bytes 4 (unat w))
     (sha256_blocks (sha256_pad (map of_char s))
       sha256_initial))"

definition hex_digit :: "nat \<Rightarrow> char" where
  "hex_digit n = char_of (if n < 10 then 48 + n else 87 + n)"

definition hex_bytes :: "nat list \<Rightarrow> string" where
  "hex_bytes bs = concat (map (\<lambda>b. [hex_digit (b div 16), hex_digit (b mod 16)]) bs)"

lemma length_be_bytes [simp]: "length (be_bytes n v) = n"
  by (simp add: be_bytes_def)

lemma length_sha256_round [simp]: "length (sha256_round kw hs) = length hs"
  by (induction kw hs rule: sha256_round.induct) (simp_all add: Let_def)

lemma length_fold_round: "length (fold sha256_round ks hs) = length hs"
  by (induction ks arbitrary: hs) simp_all

lemma length_sha256_blocks [simp]: "length (sha256_blocks bs hs) = length hs"
proof (induction bs hs rule: sha256_blocks.induct)
  case (1 bs hs)
  then show ?case by (subst sha256_blocks.simps) (simp add: sha256_block_def length_fold_round)
qed

lemma length_sha256 [simp]: "length (sha256 s) = 32"
proof -
  have "length (concat (map (\<lambda>w. be_bytes 4 (unat w)) ws)) = 4 * length ws" for ws :: "32 word list"
    by (induction ws) simp_all
  moreover have "length sha256_initial = 8"
  proof -
    have "length (primes_below 20) = 8" by code_simp
    then show ?thesis by (simp add: sha256_initial_def)
  qed
  ultimately show ?thesis by (simp add: sha256_def)
qed

end
