(* ===== verification/JsonEncode.thy ===== *)
theory JsonEncode
  imports Sha256
begin

text \<open>
  \<open>encoding/json.Marshal\<close> of strings and of maps from strings to strings: what the stable
  identifiers hash. Go escapes quotes, backslashes and control characters, the HTML characters
  \<open><\<close>, \<open>>\<close> and \<open>&\<close>, and the two line separators; bytes that are not UTF-8 become the
  replacement character, and map keys are sorted.
\<close>

text \<open>\<open>utf8.DecodeRuneInString\<close>: the length of the valid rune a byte string starts with.\<close>

definition continuation :: "nat \<Rightarrow> bool" where
  "continuation b \<longleftrightarrow> 128 \<le> b \<and> b < 192"

fun rune_length :: "nat list \<Rightarrow> nat option" where
  "rune_length [] = None"
| "rune_length (a # bs) =
     (if a < 128 then Some 1
      else if 194 \<le> a \<and> a < 224 then
        (case bs of b # _ \<Rightarrow> if continuation b then Some 2 else None | _ \<Rightarrow> None)
      else if 224 \<le> a \<and> a < 240 then
        (case bs of
           b # c # _ \<Rightarrow>
             if continuation b \<and> continuation c \<and> (a = 224 \<longrightarrow> 160 \<le> b) \<and> (a = 237 \<longrightarrow> b < 160)
             then Some 3 else None
         | _ \<Rightarrow> None)
      else if 240 \<le> a \<and> a < 245 then
        (case bs of
           b # c # d # _ \<Rightarrow>
             if continuation b \<and> continuation c \<and> continuation d \<and> (a = 240 \<longrightarrow> 144 \<le> b) \<and> (a = 244 \<longrightarrow> b < 144)
             then Some 4 else None
         | _ \<Rightarrow> None)
      else None)"

definition escape_byte :: "nat \<Rightarrow> string" where
  "escape_byte b =
     (if b = 34 \<or> b = 92 then [CHR 0x5C, char_of b]
      else if b = 8 then [CHR 0x5C, CHR ''b''] else if b = 12 then [CHR 0x5C, CHR ''f'']
      else if b = 10 then [CHR 0x5C, CHR ''n''] else if b = 13 then [CHR 0x5C, CHR ''r'']
      else if b = 9 then [CHR 0x5C, CHR ''t'']
      else if b < 32 \<or> b = 60 \<or> b = 62 \<or> b = 38
      then [CHR 0x5C] @ ''u00'' @ [hex_digit (b div 16), hex_digit (b mod 16)]
      else [char_of b])"

function escape_string :: "string \<Rightarrow> string" where
  "escape_string [] = []"
| "escape_string (c # cs) =
     (let s = c # cs in
      case rune_length (map of_char s) of
        None \<Rightarrow> [CHR 0x5C] @ ''ufffd'' @ escape_string cs
      | Some n \<Rightarrow>
          if n \<le> 1 then escape_byte (of_char c) @ escape_string cs
          else if map of_char (take 3 s) = [226 :: nat, 128, 168] then [CHR 0x5C] @ ''u2028'' @ escape_string (drop n s)
          else if map of_char (take 3 s) = [226 :: nat, 128, 169] then [CHR 0x5C] @ ''u2029'' @ escape_string (drop n s)
          else take n s @ escape_string (drop n s))"
  by pat_completeness auto
termination
  by (relation "measure length") auto

definition encode_string :: "string \<Rightarrow> string" where
  "encode_string s = [CHR 0x22] @ escape_string s @ [CHR 0x22]"

fun join_comma :: "string list \<Rightarrow> string" where
  "join_comma [] = []"
| "join_comma [s] = s"
| "join_comma (s # t # ss) = s @ '','' @ join_comma (t # ss)"

text \<open>A \<open>map[string]string\<close>, with its keys in sorted order.\<close>

definition encode_string_map :: "(string \<times> string) list \<Rightarrow> string" where
  "encode_string_map m = ''{'' @ join_comma (map (\<lambda>(k, v). encode_string k @ '':'' @ encode_string v) m) @ ''}''"

end
