(* ===== verification/SharedProjection.thy ===== *)
theory SharedProjection
  imports Phases JsonEncode Ordering
begin

text \<open>
  \<open>go/internal/reducer/shared_projection.go\<close>, \<open>partitioning.go\<close> and
  \<open>shared_projection_worker.go\<close>: the shared projection intents, and one cycle of the worker that
  turns the pending intents of a partition into graph edges. What the worker calls (the intent
  store, the leases, the edge writer, the lookups) acts on a world \<open>'w\<close> and is a parameter; the
  measured durations of the telemetry are left out, waits are nanoseconds.
\<close>

section \<open>Intents\<close>

definition DomainPlatformInfra :: string where "DomainPlatformInfra = ''platform_infra''"
definition DomainRepoDependency :: string where "DomainRepoDependency = ''repo_dependency''"
definition DomainWorkloadDependency :: string where "DomainWorkloadDependency = ''workload_dependency''"
definition DomainCodeCalls :: string where "DomainCodeCalls = ''code_calls''"
definition DomainSQLRelationships :: string where "DomainSQLRelationships = ''sql_relationships''"
definition DomainInheritanceEdges :: string where "DomainInheritanceEdges = ''inheritance_edges''"

text \<open>A payload value: nil, a string, or another value with the text \<open>%v\<close> prints for it.\<close>

datatype any = NilValue | StrValue string | OtherValue string

type_synonym payload = "(string \<times> any) list option"

record IntentRow =
  si_IntentID :: string
  si_ProjectionDomain :: string
  si_PartitionKey :: string
  si_ScopeID :: string
  si_AcceptanceUnitID :: string
  si_RepositoryID :: string
  si_SourceRunID :: string
  si_GenerationID :: string
  si_Payload :: payload
  si_CreatedAt :: time
  si_CompletedAt :: "time option"

record IntentInput =
  ii_ProjectionDomain :: string
  ii_PartitionKey :: string
  ii_ScopeID :: string
  ii_AcceptanceUnitID :: string
  ii_RepositoryID :: string
  ii_SourceRunID :: string
  ii_GenerationID :: string
  ii_Payload :: payload
  ii_CreatedAt :: time

fun anyToString :: "any \<Rightarrow> string" where
  "anyToString NilValue = []"
| "anyToString (StrValue s) = s"
| "anyToString (OtherValue s) = s"

text \<open>\<open>row.Payload[key]\<close>, the zero value when there is no payload or no such key.\<close>

definition payload_value :: "payload \<Rightarrow> string \<Rightarrow> any" where
  "payload_value p key =
     (case p of None \<Rightarrow> NilValue
      | Some m \<Rightarrow> (case map_of m key of Some v \<Rightarrow> v | None \<Rightarrow> NilValue))"

definition stableIntentID :: "(string \<times> string) list \<Rightarrow> string" where
  "stableIntentID identity =
     hex_bytes (sha256 (''{'' @ encode_string ''identity'' @ '':'' @ encode_string_map identity @ ''}''))"

definition BuildSharedProjectionIntent :: "IntentInput \<Rightarrow> IntentRow" where
  "BuildSharedProjectionIntent i =
     (let unit = trim_space (ii_AcceptanceUnitID i);
          unit = (if unit = [] then trim_space (ii_RepositoryID i) else unit);
          intentID = stableIntentID
            [(''acceptance_unit_id'', unit), (''generation_id'', ii_GenerationID i),
             (''partition_key'', ii_PartitionKey i), (''projection_domain'', ii_ProjectionDomain i),
             (''repository_id'', ii_RepositoryID i), (''scope_id'', trim_space (ii_ScopeID i)),
             (''source_run_id'', ii_SourceRunID i)]
      in \<lparr>si_IntentID = intentID, si_ProjectionDomain = ii_ProjectionDomain i,
          si_PartitionKey = ii_PartitionKey i, si_ScopeID = trim_space (ii_ScopeID i),
          si_AcceptanceUnitID = unit, si_RepositoryID = ii_RepositoryID i,
          si_SourceRunID = ii_SourceRunID i, si_GenerationID = ii_GenerationID i,
          si_Payload = ii_Payload i, si_CreatedAt = ii_CreatedAt i, si_CompletedAt = None\<rparr>)"

definition acceptance_of :: "IntentRow \<Rightarrow> AcceptanceKey option" where
  "acceptance_of row =
     (let scopeID = trim_space (si_ScopeID row);
          scopeID = (if scopeID = [] then trim_space (anyToString (payload_value (si_Payload row) ''scope_id''))
                     else scopeID);
          unit = trim_space (si_AcceptanceUnitID row);
          unit = (if unit = [] then trim_space (anyToString (payload_value (si_Payload row) ''acceptance_unit_id''))
                  else unit);
          unit = (if unit = [] then trim_space (si_RepositoryID row) else unit);
          sourceRunID = trim_space (si_SourceRunID row)
      in if scopeID = [] \<or> unit = [] \<or> sourceRunID = [] then None
         else Some \<lparr>ak_ScopeID = scopeID, ak_AcceptanceUnitID = unit, ak_SourceRunID = sourceRunID\<rparr>)"

definition sharedProjectionReadinessPhase :: "string \<Rightarrow> GraphProjectionPhase option" where
  "sharedProjectionReadinessPhase domain =
     (if domain = DomainCodeCalls then Some PhaseCanonicalNodesCommitted
      else if domain = DomainSQLRelationships \<or> domain = DomainInheritanceEdges
      then Some PhaseSemanticNodesCommitted
      else None)"

definition phaseKeyForAcceptance :: "AcceptanceKey \<Rightarrow> string \<Rightarrow> GraphProjectionKeyspace \<Rightarrow> PhaseKey option" where
  "phaseKeyForAcceptance key generationID keyspace =
     (let k = \<lparr>pk_ScopeID = trim_space (ak_ScopeID key),
               pk_AcceptanceUnitID = trim_space (ak_AcceptanceUnitID key),
               pk_SourceRunID = trim_space (ak_SourceRunID key),
               pk_GenerationID = trim_space generationID, pk_Keyspace = keyspace\<rparr>
      in if PhaseKey_Validate k \<noteq> None then None else Some k)"

definition phaseKeyForIntent :: "IntentRow \<Rightarrow> string \<Rightarrow> GraphProjectionKeyspace \<Rightarrow> PhaseKey option" where
  "phaseKeyForIntent row generationID keyspace =
     (case acceptance_of row of
        None \<Rightarrow> None
      | Some key \<Rightarrow> phaseKeyForAcceptance key generationID keyspace)"

section \<open>Partitions\<close>

definition PartitionForKey :: "string \<Rightarrow> int \<Rightarrow> int result" where
  "PartitionForKey key parts =
     (if parts \<le> 0 then Inl (NotPositive ''partitionCount'')
      else Inr (int (be_value (take 8 (sha256 key))) mod parts))"

definition RowsForPartition :: "IntentRow list \<Rightarrow> int \<Rightarrow> int \<Rightarrow> IntentRow list" where
  "RowsForPartition rows partitionID parts =
     filter (\<lambda>r. PartitionForKey (si_PartitionKey r) parts = Inr partitionID) rows"

section \<open>Selecting a batch\<close>

definition cmp_intents :: "IntentRow \<Rightarrow> IntentRow \<Rightarrow> int" where
  "cmp_intents x y = or_else (compare (si_CreatedAt x) (si_CreatedAt y)) (compare (si_IntentID x) (si_IntentID y))"

type_synonym slice = "string \<times> string \<times> string \<times> string \<times> string"

definition slice_of :: "IntentRow \<Rightarrow> slice" where
  "slice_of r =
     (case acceptance_of r of
        Some k \<Rightarrow> (ak_ScopeID k, ak_AcceptanceUnitID k, ak_SourceRunID k, si_RepositoryID r, si_PartitionKey r)
      | None \<Rightarrow> (si_ScopeID r, [], si_SourceRunID r, si_RepositoryID r, si_PartitionKey r))"

text \<open>
  \<open>latestByKey\<close> and \<open>order\<close>: the slices in the order they were first seen, each with its latest
  row; a row that takes a slice over supersedes the one before it.
\<close>

fun put_latest :: "IntentRow \<Rightarrow> IntentRow list \<Rightarrow> IntentRow list \<times> string option" where
  "put_latest r [] = ([r], None)"
| "put_latest r (l # ls) =
     (if slice_of l = slice_of r then (r # ls, Some (si_IntentID l))
      else (case put_latest r ls of (ls', old) \<Rightarrow> (l # ls', old)))"

fun latest_rows :: "IntentRow list \<Rightarrow> IntentRow list \<Rightarrow> string list \<Rightarrow> IntentRow list \<times> string list" where
  "latest_rows [] latest superseded = (latest, superseded)"
| "latest_rows (r # rs) latest superseded =
     (case put_latest r latest of
        (latest', None) \<Rightarrow> latest_rows rs latest' superseded
      | (latest', Some old) \<Rightarrow> latest_rows rs latest' (superseded @ [old]))"

definition LatestIntentsByRepoAndPartition :: "IntentRow list \<Rightarrow> IntentRow list \<times> string list" where
  "LatestIntentsByRepoAndPartition intents = latest_rows (sort_by cmp_intents intents) [] []"

type_synonym GenerationLookup = "AcceptanceKey \<Rightarrow> string option"

fun FilterAuthoritativeIntents :: "IntentRow list \<Rightarrow> GenerationLookup \<Rightarrow> IntentRow list \<times> string list" where
  "FilterAuthoritativeIntents [] acceptedGen = ([], [])"
| "FilterAuthoritativeIntents (i # is) acceptedGen =
     (case FilterAuthoritativeIntents is acceptedGen of (active, stale) \<Rightarrow>
        (case acceptance_of i of
           None \<Rightarrow> (active, stale)
         | Some key \<Rightarrow>
             (case acceptedGen key of
                None \<Rightarrow> (active, stale)
              | Some accepted \<Rightarrow>
                  if si_GenerationID i \<noteq> accepted then (active, si_IntentID i # stale)
                  else (i # active, stale))))"

text \<open>The readiness closure returns (ready, found); a nil closure or prefetch is \<open>None\<close>.\<close>

type_synonym ReadyLookup = "PhaseKey \<Rightarrow> GraphProjectionPhase \<Rightarrow> bool \<times> bool"

definition readiness_keys :: "IntentRow list \<Rightarrow> PhaseKey list" where
  "readiness_keys rows = first_of_each (\<lambda>k. k) []
     (List.map_filter (\<lambda>r. phaseKeyForIntent r (si_GenerationID r) KeyspaceCodeEntitiesUID) rows)"

fun split_ready :: "GraphProjectionPhase \<Rightarrow> ReadyLookup \<Rightarrow> IntentRow list \<Rightarrow> IntentRow list \<times> IntentRow list" where
  "split_ready phase lookup [] = ([], [])"
| "split_ready phase lookup (r # rs) =
     (case split_ready phase lookup rs of (readyRows, blockedRows) \<Rightarrow>
        (case phaseKeyForIntent r (si_GenerationID r) KeyspaceCodeEntitiesUID of
           None \<Rightarrow> (readyRows, blockedRows)
         | Some key \<Rightarrow>
             (case lookup key phase of
                (ready, found) \<Rightarrow>
                  if \<not> found \<or> \<not> ready then (readyRows, r # blockedRows) else (r # readyRows, blockedRows))))"

definition filterRowsByReadiness ::
  "string \<Rightarrow> IntentRow list \<Rightarrow> ReadyLookup option
   \<Rightarrow> (PhaseKey list \<Rightarrow> GraphProjectionPhase \<Rightarrow> ReadyLookup option result) option
   \<Rightarrow> (IntentRow list \<times> IntentRow list) result" where
  "filterRowsByReadiness domain rows readinessLookup readinessPrefetch =
     (case sharedProjectionReadinessPhase domain of
        None \<Rightarrow> Inr (rows, [])
      | Some phase \<Rightarrow>
          if rows = [] then Inr (rows, [])
          else
            (case (case readinessPrefetch of
                     None \<Rightarrow> Inr readinessLookup
                   | Some prefetch \<Rightarrow> prefetch (readiness_keys rows) phase) of
               Inl e \<Rightarrow> Inl (Wrap ''prefetch graph projection readiness'' e)
             | Inr None \<Rightarrow> Inr (rows, [])
             | Inr (Some lookup) \<Rightarrow> Inr (split_ready phase lookup rows)))"

record PartitionBatchResult =
  pb_LatestRows :: "IntentRow list"
  pb_BlockedRows :: "IntentRow list"
  pb_StaleIDs :: "string list"
  pb_SupersededIDs :: "string list"

text \<open>What the worker reads: the intent store and the lookups, as functions of the world.\<close>

record 'w Sources =
  src_ListPending :: "'w \<Rightarrow> string \<Rightarrow> int \<Rightarrow> IntentRow list result"
  src_AcceptedGen :: "'w \<Rightarrow> GenerationLookup"
  src_AcceptedPrefetch :: "('w \<Rightarrow> IntentRow list \<Rightarrow> GenerationLookup result) option"
  src_Readiness :: "('w \<Rightarrow> ReadyLookup) option"
  src_ReadinessPrefetch :: "('w \<Rightarrow> PhaseKey list \<Rightarrow> GraphProjectionPhase \<Rightarrow> ReadyLookup option result) option"

definition maxSharedSelectionScanLimit :: int where
  "maxSharedSelectionScanLimit = 10000"

definition empty_batch :: PartitionBatchResult where
  "empty_batch = \<lparr>pb_LatestRows = [], pb_BlockedRows = [], pb_StaleIDs = [], pb_SupersededIDs = []\<rparr>"

definition scan_cap_error :: "string \<Rightarrow> error" where
  "scan_cap_error domain = Fmt ''shared partition selection reached scan cap'' [domain]"

definition next_limit :: "int \<Rightarrow> int" where
  "next_limit n =
     (let m = wrap64 (n * 2) in if maxSharedSelectionScanLimit < m then maxSharedSelectionScanLimit else m)"

text \<open>
  One pass over the pending intents: a batch, or \<open>None\<close> when the scan must be widened.
  \<open>canceled\<close> is what \<open>ctx.Err()\<close> returns.
\<close>

definition select_rows ::
  "'w Sources \<Rightarrow> 'w \<Rightarrow> string \<Rightarrow> int \<Rightarrow> IntentRow list \<Rightarrow> bool \<Rightarrow> PartitionBatchResult option result" where
  "select_rows src w domain batchLimit partitionRows exhausted =
     (case (case src_AcceptedPrefetch src of
              None \<Rightarrow> Inr (src_AcceptedGen src w)
            | Some prefetch \<Rightarrow> prefetch w partitionRows) of
        Inl e \<Rightarrow> Inl (Wrap ''prefetch accepted generations'' e)
      | Inr lookup \<Rightarrow>
          (case FilterAuthoritativeIntents partitionRows lookup of (active, staleIDs) \<Rightarrow>
             (case LatestIntentsByRepoAndPartition active of (latest, supersededIDs) \<Rightarrow>
                (case filterRowsByReadiness domain latest (map_option (\<lambda>f. f w) (src_Readiness src))
                        (map_option (\<lambda>f. f w) (src_ReadinessPrefetch src)) of
                   Inl e \<Rightarrow> Inl e
                 | Inr (readyRows, blockedRows) \<Rightarrow>
                     if batchLimit \<le> int (length readyRows) \<or> exhausted
                     then Inr (Some \<lparr>pb_LatestRows = take (nat batchLimit) readyRows,
                       pb_BlockedRows = blockedRows, pb_StaleIDs = staleIDs, pb_SupersededIDs = supersededIDs\<rparr>)
                     else Inr None))))"

fun select_loop ::
  "nat \<Rightarrow> 'w Sources \<Rightarrow> (int \<Rightarrow> error option) \<Rightarrow> 'w \<Rightarrow> string \<Rightarrow> int \<Rightarrow> int \<Rightarrow> int \<Rightarrow> int
   \<Rightarrow> PartitionBatchResult result option" where
  "select_loop 0 src canceled w domain partitionID parts batchLimit scanLimit = None"
| "select_loop (Suc fuel) src canceled w domain partitionID parts batchLimit scanLimit =
     (case canceled scanLimit of
        Some e \<Rightarrow> Some (Inl e)
      | None \<Rightarrow>
        (case src_ListPending src w domain scanLimit of
           Inl e \<Rightarrow> Some (Inl (Wrap ''list pending intents'' e))
         | Inr pending \<Rightarrow>
             (let partitionRows = RowsForPartition pending partitionID parts;
                  exhausted = int (length pending) < scanLimit;
                  widen = (if maxSharedSelectionScanLimit \<le> scanLimit then Some (Inl (scan_cap_error domain))
                           else select_loop fuel src canceled w domain partitionID parts batchLimit (next_limit scanLimit))
              in if partitionRows = [] then (if exhausted then Some (Inr empty_batch) else widen)
                 else
                   (case select_rows src w domain batchLimit partitionRows exhausted of
                      Inl e \<Rightarrow> Some (Inl e)
                    | Inr (Some batch) \<Rightarrow> Some (Inr batch)
                    | Inr None \<Rightarrow> widen))))"

definition first_scan_limit :: "int \<Rightarrow> int \<Rightarrow> int" where
  "first_scan_limit batchLimit parts =
     (let n = wrap64 (wrap64 (batchLimit * max parts 1) * 2)
      in if maxSharedSelectionScanLimit < n then maxSharedSelectionScanLimit else n)"

definition SelectPartitionBatch ::
  "nat \<Rightarrow> 'w Sources \<Rightarrow> (int \<Rightarrow> error option) \<Rightarrow> 'w \<Rightarrow> string \<Rightarrow> int \<Rightarrow> int \<Rightarrow> int
   \<Rightarrow> PartitionBatchResult result option" where
  "SelectPartitionBatch fuel src canceled w domain partitionID parts limit =
     (let batchLimit = (if limit < 1 then 1 else limit)
      in select_loop fuel src canceled w domain partitionID parts batchLimit (first_scan_limit batchLimit parts))"

section \<open>One cycle of the worker\<close>

record 'w LeaseManager =
  lm_Claim :: "string \<Rightarrow> int \<Rightarrow> int \<Rightarrow> string \<Rightarrow> duration \<Rightarrow> 'w \<Rightarrow> bool result \<times> 'w"
  lm_Release :: "string \<Rightarrow> int \<Rightarrow> int \<Rightarrow> string \<Rightarrow> 'w \<Rightarrow> error option \<times> 'w"

record 'w EdgeWriter =
  ew_Retract :: "string \<Rightarrow> IntentRow list \<Rightarrow> string \<Rightarrow> 'w \<Rightarrow> error option \<times> 'w"
  ew_Write :: "string \<Rightarrow> IntentRow list \<Rightarrow> string \<Rightarrow> 'w \<Rightarrow> error option \<times> 'w"

record PartitionProcessorConfig =
  ppc_Domain :: string
  ppc_PartitionID :: int
  ppc_PartitionCount :: int
  ppc_LeaseOwner :: string
  ppc_LeaseTTL :: duration
  ppc_BatchLimit :: int
  ppc_EvidenceSource :: string

record PartitionProcessResult =
  ppr_LeaseAcquired :: bool
  ppr_ProcessedIntents :: nat
  ppr_UpsertedRows :: nat
  ppr_RetractedRows :: nat
  ppr_StaleIntents :: nat
  ppr_BlockedReadiness :: nat
  ppr_MaxIntentWait :: duration
  ppr_MaxBlockedIntentWait :: duration

definition no_work :: "bool \<Rightarrow> PartitionProcessResult" where
  "no_work acquired = \<lparr>ppr_LeaseAcquired = acquired, ppr_ProcessedIntents = 0, ppr_UpsertedRows = 0,
     ppr_RetractedRows = 0, ppr_StaleIntents = 0, ppr_BlockedReadiness = 0, ppr_MaxIntentWait = 0,
     ppr_MaxBlockedIntentWait = 0\<rparr>"

text \<open>\<open>time.Sub\<close> saturates at the ends of the 64-bit range.\<close>

definition since :: "time \<Rightarrow> time \<Rightarrow> duration" where
  "since now t = max (- (2 ^ 63)) (min (2 ^ 63 - 1) (now - t))"

fun max_wait :: "time \<Rightarrow> IntentRow list \<Rightarrow> duration \<Rightarrow> duration" where
  "max_wait now [] w = w"
| "max_wait now (r # rs) w =
     (if is_zero (si_CreatedAt r) then max_wait now rs w
      else
        (let d = since now (si_CreatedAt r); d = (if d < 0 then 0 else d)
         in max_wait now rs (if w < d then d else w)))"

definition maxSharedIntentWait :: "time \<Rightarrow> IntentRow list \<Rightarrow> duration" where
  "maxSharedIntentWait now rows = max_wait now rows 0"

definition is_upsert :: "IntentRow \<Rightarrow> bool" where
  "is_upsert r =
     (case si_Payload r of
        None \<Rightarrow> True
      | Some m \<Rightarrow>
          (case map_of m ''action'' of
             Some (StrValue s) \<Rightarrow> s = ''upsert''
           | _ \<Rightarrow> True))"

definition filterUpsertRows :: "IntentRow list \<Rightarrow> IntentRow list" where
  "filterUpsertRows rows = filter is_upsert rows"

text \<open>
  What follows the claim, up to the deferred release. \<open>mark\<close> is \<open>MarkIntentsCompleted\<close>.
\<close>

definition processed_ids :: "PartitionBatchResult \<Rightarrow> string list" where
  "processed_ids b = pb_StaleIDs b @ pb_SupersededIDs b @ map si_IntentID (pb_LatestRows b)"

definition process_batch ::
  "time \<Rightarrow> PartitionProcessorConfig \<Rightarrow> 'w EdgeWriter \<Rightarrow> (string list \<Rightarrow> time \<Rightarrow> 'w \<Rightarrow> error option \<times> 'w)
   \<Rightarrow> PartitionBatchResult \<Rightarrow> 'w \<Rightarrow> (PartitionProcessResult \<times> error option) \<times> 'w" where
  "process_batch now cfg writer mark batch w =
     (if pb_LatestRows batch = [] \<and> pb_StaleIDs batch = [] \<and> pb_SupersededIDs batch = []
      then (((no_work True)\<lparr>ppr_BlockedReadiness := length (pb_BlockedRows batch),
              ppr_MaxBlockedIntentWait := maxSharedIntentWait now (pb_BlockedRows batch)\<rparr>, None), w)
      else
        (let source = (if ppc_EvidenceSource cfg = [] then ''finalization/workloads'' else ppc_EvidenceSource cfg) in
         case ew_Retract writer (ppc_Domain cfg) (pb_LatestRows batch) source w of
           (Some e, w1) \<Rightarrow> ((no_work True, Some (Wrap ''retract edges'' e)), w1)
         | (None, w1) \<Rightarrow>
             (let upserts = filterUpsertRows (pb_LatestRows batch) in
              case ew_Write writer (ppc_Domain cfg) upserts source w1 of
                (Some e, w2) \<Rightarrow> ((no_work True, Some (Wrap ''write edges'' e)), w2)
              | (None, w2) \<Rightarrow>
                  (case (if processed_ids batch = [] then (None, w2) else mark (processed_ids batch) now w2) of
                     (Some e, w3) \<Rightarrow> ((no_work True, Some (Wrap ''mark completed'' e)), w3)
                   | (None, w3) \<Rightarrow>
                       ((\<lparr>ppr_LeaseAcquired = True, ppr_ProcessedIntents = length (processed_ids batch),
                          ppr_UpsertedRows = length upserts, ppr_RetractedRows = length (pb_LatestRows batch),
                          ppr_StaleIntents = length (pb_StaleIDs batch),
                          ppr_BlockedReadiness = length (pb_BlockedRows batch),
                          ppr_MaxIntentWait = maxSharedIntentWait now (pb_LatestRows batch),
                          ppr_MaxBlockedIntentWait = maxSharedIntentWait now (pb_BlockedRows batch)\<rparr>, None), w3)))))"

definition ProcessPartitionOnce ::
  "nat \<Rightarrow> time \<Rightarrow> PartitionProcessorConfig \<Rightarrow> 'w LeaseManager \<Rightarrow> 'w Sources
   \<Rightarrow> (string list \<Rightarrow> time \<Rightarrow> 'w \<Rightarrow> error option \<times> 'w) \<Rightarrow> 'w EdgeWriter \<Rightarrow> (int \<Rightarrow> error option) \<Rightarrow> 'w
   \<Rightarrow> ((PartitionProcessResult \<times> error option) \<times> 'w) option" where
  "ProcessPartitionOnce fuel now cfg leases src mark writer canceled w =
     (case lm_Claim leases (ppc_Domain cfg) (ppc_PartitionID cfg) (ppc_PartitionCount cfg)
             (ppc_LeaseOwner cfg) (ppc_LeaseTTL cfg) w of
        (Inl e, w1) \<Rightarrow> Some ((no_work False, Some (Wrap ''claim lease'' e)), w1)
      | (Inr False, w1) \<Rightarrow> Some ((no_work False, None), w1)
      | (Inr True, w1) \<Rightarrow>
          (let batchLimit = (if ppc_BatchLimit cfg < 1 then 100 else ppc_BatchLimit cfg);
               release = (\<lambda>(out, w'). (out, snd (lm_Release leases (ppc_Domain cfg) (ppc_PartitionID cfg)
                  (ppc_PartitionCount cfg) (ppc_LeaseOwner cfg) w')))
           in case SelectPartitionBatch fuel src canceled w1 (ppc_Domain cfg) (ppc_PartitionID cfg)
                     (ppc_PartitionCount cfg) batchLimit of
                None \<Rightarrow> None
              | Some (Inl e) \<Rightarrow> Some (release ((no_work True, Some (Wrap ''select batch'' e)), w1))
              | Some (Inr batch) \<Rightarrow> Some (release (process_batch now cfg writer mark batch w1))))"

section \<open>Latest rows\<close>

interpretation intents: comparator cmp_intents
  unfolding cmp_intents_def by (rule comparator_lex) (rule comparator_key)+

text \<open>
  What the loop keeps: every slice seen has one row, its latest, and each row seen is either kept
  or superseded.
\<close>

definition latest_of :: "IntentRow list \<Rightarrow> IntentRow list \<Rightarrow> string list \<Rightarrow> bool" where
  "latest_of seen latest superseded \<longleftrightarrow>
     distinct (map slice_of latest) \<and> slice_of ` set latest = slice_of ` set seen
     \<and> set latest \<subseteq> set seen
     \<and> mset (map si_IntentID seen) = mset (map si_IntentID latest) + mset superseded
     \<and> (\<forall>l \<in> set latest. \<forall>i \<in> set seen. slice_of i = slice_of l \<longrightarrow> cmp_intents i l \<le> 0)"

lemma put_latest_None:
  assumes "put_latest r ls = (ls', None)"
  shows "ls' = ls @ [r]" and "slice_of r \<notin> slice_of ` set ls"
proof -
  from assms have "ls' = ls @ [r] \<and> slice_of r \<notin> slice_of ` set ls"
  proof (induction ls arbitrary: ls')
    case (Cons l ls)
    show ?case
    proof (cases "slice_of l = slice_of r")
      case False
      with Cons.prems obtain ls'' where "put_latest r ls = (ls'', None)" and "ls' = l # ls''"
        by (auto split: prod.splits)
      with Cons.IH False show ?thesis by auto
    qed (use Cons.prems in simp)
  qed simp
  then show "ls' = ls @ [r]" and "slice_of r \<notin> slice_of ` set ls" by auto
qed

lemma put_latest_Some:
  assumes "put_latest r ls = (ls', Some old)"
  obtains xs l ys where "ls = xs @ l # ys" and "ls' = xs @ r # ys" and "slice_of l = slice_of r"
    and "old = si_IntentID l"
proof -
  from assms have "\<exists>xs l ys. ls = xs @ l # ys \<and> ls' = xs @ r # ys \<and> slice_of l = slice_of r \<and> old = si_IntentID l"
  proof (induction ls arbitrary: ls')
    case (Cons l ls)
    show ?case
    proof (cases "slice_of l = slice_of r")
      case True
      with Cons.prems have "ls' = [] @ r # ls" and "old = si_IntentID l" by auto
      with True show ?thesis by (intro exI [of _ "[]"]) auto
    next
      case False
      with Cons.prems obtain ls'' where "put_latest r ls = (ls'', Some old)" and ls': "ls' = l # ls''"
        by (auto split: prod.splits)
      with Cons.IH obtain xs m ys where "ls = xs @ m # ys" "ls'' = xs @ r # ys" "slice_of m = slice_of r" "old = si_IntentID m"
        by blast
      with ls' show ?thesis by (intro exI [of _ "l # xs"]) auto
    qed
  qed simp
  then show ?thesis using that by blast
qed

lemma latest_step:
  assumes "latest_of seen latest superseded" and later: "\<forall>i \<in> set seen. cmp_intents i r \<le> 0"
    and put: "put_latest r latest = (latest', old)"
  shows "latest_of (seen @ [r]) latest' (superseded @ (case old of None \<Rightarrow> [] | Some x \<Rightarrow> [x]))"
proof (cases old)
  case None
  with put_latest_None [of r latest latest'] put
  have l': "latest' = latest @ [r]" and new: "slice_of r \<notin> slice_of ` set latest" by simp_all
  with assms(1) have "slice_of r \<notin> slice_of ` set seen" by (simp add: latest_of_def)
  then have "slice_of i \<noteq> slice_of r" if "i \<in> set seen" for i using that by (metis imageI)
  with assms(1) new l' None show ?thesis
    by (force simp: latest_of_def intents.cmp_refl)
next
  case (Some x)
  with put obtain xs l ys where ls: "latest = xs @ l # ys" and l': "latest' = xs @ r # ys"
    and sl: "slice_of l = slice_of r" and x: "x = si_IntentID l"
    by (auto elim: put_latest_Some)
  from assms(1) ls have in_seen: "l \<in> set seen" and d: "distinct (map slice_of (xs @ l # ys))"
    by (auto simp: latest_of_def)
  have "slice_of ` set latest' = slice_of ` set latest" using ls l' sl by auto
  moreover have "slice_of ` set (seen @ [r]) = slice_of ` set seen" using in_seen sl by (auto simp: sl [symmetric])
  moreover have "slice_of m \<noteq> slice_of r" if "m \<in> set xs \<union> set ys" for m
    using d sl that by (auto simp: image_iff)
  ultimately show ?thesis
    using assms(1) later ls l' Some x sl
    by (auto simp: latest_of_def intents.cmp_refl)
qed

lemma latest_rows_keep:
  assumes "latest_of seen latest superseded" and "ordered cmp_intents rs"
    and "\<forall>i \<in> set seen. \<forall>r \<in> set rs. cmp_intents i r \<le> 0"
    and "latest_rows rs latest superseded = (latest', superseded')"
  shows "latest_of (seen @ rs) latest' superseded'"
  using assms
proof (induction rs arbitrary: seen latest superseded)
  case Nil
  then show ?case by simp
next
  case (Cons r rs)
  obtain l old where put: "put_latest r latest = (l, old)" by (cases "put_latest r latest")
  have "latest_of (seen @ [r]) l (superseded @ (case old of None \<Rightarrow> [] | Some x \<Rightarrow> [x]))"
    by (rule latest_step [OF Cons.prems(1) _ put]) (use Cons.prems(3) in simp)
  moreover have "ordered cmp_intents rs" and "\<forall>i \<in> set (seen @ [r]). \<forall>r \<in> set rs. cmp_intents i r \<le> 0"
    using Cons.prems(2,3) by (auto simp: ordered_def)
  moreover have "latest_rows rs l (superseded @ (case old of None \<Rightarrow> [] | Some x \<Rightarrow> [x])) = (latest', superseded')"
    using Cons.prems(4) put by (simp split: option.splits)
  ultimately have "latest_of ((seen @ [r]) @ rs) latest' superseded'" by (rule Cons.IH)
  then show ?case by simp
qed

lemma latest_of_sorted:
  assumes "LatestIntentsByRepoAndPartition intents = (latest, superseded)"
  shows "latest_of (sort_by cmp_intents intents) latest superseded"
proof -
  have "latest_of ([] @ sort_by cmp_intents intents) latest superseded"
    by (rule latest_rows_keep [of "[]" "[]" "[]"])
      (use assms in \<open>simp_all add: latest_of_def intents.ordered_sort_by LatestIntentsByRepoAndPartition_def\<close>)
  then show ?thesis by simp
qed

text \<open>
  Of the active intents of a partition one row per slice (acceptance unit, run, repository
  and partition key) is kept, and it is the latest of its slice by creation time and identifier;
  every other row is superseded, and no row is lost or named twice.
\<close>

theorem latest_intent_per_slice:
  assumes "LatestIntentsByRepoAndPartition intents = (latest, superseded)"
  shows "distinct (map slice_of latest) \<and> slice_of ` set latest = slice_of ` set intents
    \<and> set latest \<subseteq> set intents
    \<and> mset (map si_IntentID intents) = mset (map si_IntentID latest) + mset superseded
    \<and> (\<forall>l \<in> set latest. \<forall>i \<in> set intents. slice_of i = slice_of l
         \<longrightarrow> si_CreatedAt i < si_CreatedAt l \<or> si_CreatedAt i = si_CreatedAt l \<and> si_IntentID i \<le> si_IntentID l)"
proof -
  have "mset (map si_IntentID (sort_by cmp_intents intents)) = mset (map si_IntentID intents)"
    by (metis mset_map mset_sort_by)
  moreover have "cmp_intents i l \<le> 0 \<longleftrightarrow> si_CreatedAt i < si_CreatedAt l
      \<or> si_CreatedAt i = si_CreatedAt l \<and> si_IntentID i \<le> si_IntentID l" for i l
    by (simp add: cmp_intents_def or_else_le_iff)
  ultimately show ?thesis
    using latest_of_sorted [OF assms] by (simp add: latest_of_def)
qed

section \<open>The selected batch\<close>

text \<open>\<open>acceptedGen(key)\<close> for the key of an intent.\<close>

definition accepted_generation :: "GenerationLookup \<Rightarrow> IntentRow \<Rightarrow> string option" where
  "accepted_generation lookup r =
     (case acceptance_of r of None \<Rightarrow> None | Some key \<Rightarrow> lookup key)"

definition is_current :: "GenerationLookup \<Rightarrow> IntentRow \<Rightarrow> bool" where
  "is_current lookup r \<longleftrightarrow> accepted_generation lookup r = Some (si_GenerationID r)"

definition is_stale :: "GenerationLookup \<Rightarrow> IntentRow \<Rightarrow> bool" where
  "is_stale lookup r \<longleftrightarrow>
     accepted_generation lookup r \<noteq> None \<and> accepted_generation lookup r \<noteq> Some (si_GenerationID r)"

lemma filter_authoritative:
  "FilterAuthoritativeIntents rows lookup =
     (filter (is_current lookup) rows, map si_IntentID (filter (is_stale lookup) rows))"
  by (induction rows) (auto simp: is_current_def is_stale_def accepted_generation_def split: option.split)

text \<open>Whether the graph has reached the phase an intent waits for.\<close>

definition has_phase :: "GraphProjectionPhase \<Rightarrow> ReadyLookup \<Rightarrow> IntentRow \<Rightarrow> bool" where
  "has_phase phase lookup r \<longleftrightarrow>
     (\<exists>key. phaseKeyForIntent r (si_GenerationID r) KeyspaceCodeEntitiesUID = Some key
        \<and> lookup key phase = (True, True))"

definition waits :: "GraphProjectionPhase \<Rightarrow> ReadyLookup \<Rightarrow> IntentRow \<Rightarrow> bool" where
  "waits phase lookup r \<longleftrightarrow>
     phaseKeyForIntent r (si_GenerationID r) KeyspaceCodeEntitiesUID \<noteq> None \<and> \<not> has_phase phase lookup r"

lemma split_ready_eq:
  "split_ready phase lookup rows = (filter (has_phase phase lookup) rows, filter (waits phase lookup) rows)"
proof (induction rows)
  case (Cons r rs)
  show ?case
  proof (cases "phaseKeyForIntent r (si_GenerationID r) KeyspaceCodeEntitiesUID")
    case None
    with Cons.IH show ?thesis by (simp add: has_phase_def waits_def)
  next
    case (Some key)
    then have "has_phase phase lookup r \<longleftrightarrow> lookup key phase = (True, True)" by (simp add: has_phase_def)
    moreover obtain a c where "lookup key phase = (a, c)" by (cases "lookup key phase")
    ultimately show ?thesis using Cons.IH Some by (simp add: waits_def)
  qed
qed simp

text \<open>The readiness lookup a pass uses, and the generation lookup it uses for its rows.\<close>

definition readiness_used ::
  "'w Sources \<Rightarrow> 'w \<Rightarrow> GraphProjectionPhase \<Rightarrow> IntentRow list \<Rightarrow> ReadyLookup option result" where
  "readiness_used src w phase rows =
     (case src_ReadinessPrefetch src of
        None \<Rightarrow> Inr (map_option (\<lambda>f. f w) (src_Readiness src))
      | Some prefetch \<Rightarrow> prefetch w (readiness_keys rows) phase)"

definition generations_used :: "'w Sources \<Rightarrow> 'w \<Rightarrow> IntentRow list \<Rightarrow> GenerationLookup result" where
  "generations_used src w rows =
     (case src_AcceptedPrefetch src of
        None \<Rightarrow> Inr (src_AcceptedGen src w)
      | Some prefetch \<Rightarrow> prefetch w rows)"

lemma filterRowsByReadiness_used:
  "filterRowsByReadiness domain rows (map_option (\<lambda>f. f w) (src_Readiness src))
      (map_option (\<lambda>f. f w) (src_ReadinessPrefetch src)) =
     (case sharedProjectionReadinessPhase domain of
        None \<Rightarrow> Inr (rows, [])
      | Some phase \<Rightarrow>
          if rows = [] then Inr (rows, [])
          else
            (case readiness_used src w phase rows of
               Inl e \<Rightarrow> Inl (Wrap ''prefetch graph projection readiness'' e)
             | Inr None \<Rightarrow> Inr (rows, [])
             | Inr (Some lookup) \<Rightarrow> Inr (split_ready phase lookup rows)))"
  by (auto simp: filterRowsByReadiness_def readiness_used_def split: option.split)

text \<open>
  A sound batch for the rows of a partition: its intents are current, ready and the latest of their
  slices, at most \<open>limit\<close> of them; the other identifiers are of stale rows or of superseded ones.
\<close>

definition sound_batch :: "'w Sources \<Rightarrow> 'w \<Rightarrow> string \<Rightarrow> int \<Rightarrow> IntentRow list \<Rightarrow> PartitionBatchResult \<Rightarrow> bool" where
  "sound_batch src w domain limit rows b \<longleftrightarrow>
     (\<exists>lookup latest. generations_used src w rows = Inr lookup
        \<and> LatestIntentsByRepoAndPartition (filter (is_current lookup) rows) = (latest, pb_SupersededIDs b)
        \<and> pb_StaleIDs b = map si_IntentID (filter (is_stale lookup) rows)
        \<and> int (length (pb_LatestRows b)) \<le> limit
        \<and> set (pb_LatestRows b) \<union> set (pb_BlockedRows b) \<subseteq> set latest
        \<and> set (pb_LatestRows b) \<inter> set (pb_BlockedRows b) = {}
        \<and> (\<forall>phase used. sharedProjectionReadinessPhase domain = Some phase \<and> latest \<noteq> []
             \<and> readiness_used src w phase latest = Inr (Some used)
             \<longrightarrow> (\<forall>r \<in> set (pb_LatestRows b). has_phase phase used r)))"

lemma readiness_split:
  assumes "filterRowsByReadiness domain latest (map_option (\<lambda>f. f w) (src_Readiness src))
      (map_option (\<lambda>f. f w) (src_ReadinessPrefetch src)) = Inr (readyRows, blockedRows)"
  shows "set readyRows \<union> set blockedRows \<subseteq> set latest" and "set readyRows \<inter> set blockedRows = {}"
    and "sharedProjectionReadinessPhase domain = Some phase \<Longrightarrow> latest \<noteq> []
      \<Longrightarrow> readiness_used src w phase latest = Inr (Some used) \<Longrightarrow> r \<in> set readyRows \<Longrightarrow> has_phase phase used r"
  using assms
  by (auto simp: filterRowsByReadiness_used split_ready_eq waits_def split: option.splits sum.splits if_splits)

lemma select_rows_sound:
  assumes "select_rows src w domain limit rows exhausted = Inr (Some b)" and "1 \<le> limit"
  shows "sound_batch src w domain limit rows b"
proof -
  from assms(1) obtain lookup where g: "generations_used src w rows = Inr lookup"
    by (auto simp: select_rows_def generations_used_def split: option.splits sum.splits)
  obtain latest sup where l: "LatestIntentsByRepoAndPartition (filter (is_current lookup) rows) = (latest, sup)"
    by (cases "LatestIntentsByRepoAndPartition (filter (is_current lookup) rows)")
  from assms(1) g l obtain readyRows blockedRows where
    f: "filterRowsByReadiness domain latest (map_option (\<lambda>f. f w) (src_Readiness src))
      (map_option (\<lambda>f. f w) (src_ReadinessPrefetch src)) = Inr (readyRows, blockedRows)"
    and b: "b = \<lparr>pb_LatestRows = take (nat limit) readyRows, pb_BlockedRows = blockedRows,
      pb_StaleIDs = map si_IntentID (filter (is_stale lookup) rows), pb_SupersededIDs = sup\<rparr>"
    by (auto simp: select_rows_def generations_used_def filter_authoritative split: option.splits sum.splits
        prod.splits if_splits)
  have "set (take (nat limit) readyRows) \<subseteq> set readyRows" by (rule set_take_subset)
  with readiness_split(1,2) [OF f]
  have "set (take (nat limit) readyRows) \<union> set blockedRows \<subseteq> set latest"
    and "set (take (nat limit) readyRows) \<inter> set blockedRows = {}" by blast+
  moreover have "has_phase phase used r" if "sharedProjectionReadinessPhase domain = Some phase" "latest \<noteq> []"
      "readiness_used src w phase latest = Inr (Some used)" "r \<in> set (take (nat limit) readyRows)" for phase used r
    using readiness_split(3) [OF f] that in_set_takeD by fast
  moreover have "int (length (take (nat limit) readyRows)) \<le> limit" using assms(2) by simp
  ultimately show ?thesis
    unfolding sound_batch_def using g l b by simp
qed

lemma select_loop_sound:
  assumes "select_loop fuel src canceled w domain partitionID parts limit scan = Some (Inr b)" and "1 \<le> limit"
  shows "\<exists>n pending. src_ListPending src w domain n = Inr pending
    \<and> (b = empty_batch \<or> sound_batch src w domain limit (RowsForPartition pending partitionID parts) b)"
  using assms
proof (induction fuel arbitrary: scan)
  case (Suc fuel)
  show ?case
  proof (cases "select_loop fuel src canceled w domain partitionID parts limit (next_limit scan) = Some (Inr b)")
    case True
    then show ?thesis using Suc.IH Suc.prems(2) by blast
  next
    case False
    with Suc.prems(1) obtain pending where p: "src_ListPending src w domain scan = Inr pending"
      and "b = empty_batch \<or> select_rows src w domain limit (RowsForPartition pending partitionID parts)
        (int (length pending) < scan) = Inr (Some b)"
      by (auto simp: Let_def split: option.splits sum.splits if_splits)
    then have "b = empty_batch \<or> sound_batch src w domain limit (RowsForPartition pending partitionID parts) b"
      using select_rows_sound Suc.prems(2) by metis
    with p show ?thesis by blast
  qed
qed simp

section \<open>The scan ends\<close>

lemma next_limit_doubles:
  assumes "1 \<le> n" and "n \<le> maxSharedSelectionScanLimit"
  shows "next_limit n = min maxSharedSelectionScanLimit (n * 2)"
  using assms by (simp add: next_limit_def maxSharedSelectionScanLimit_def wrap64_id Let_def)

lemma select_loop_ends:
  assumes "1 \<le> scan" and "scan \<le> maxSharedSelectionScanLimit" and "maxSharedSelectionScanLimit \<le> scan * 2 ^ k"
    and "k < fuel"
  shows "select_loop fuel src canceled w domain partitionID parts limit scan \<noteq> None"
  using assms
proof (induction k arbitrary: scan fuel)
  case 0
  then obtain f where "fuel = Suc f" by (cases fuel) auto
  with 0 show ?case by (simp add: Let_def split: option.split sum.split)
next
  case (Suc k)
  then obtain f where f: "fuel = Suc f" and "k < f" by (cases fuel) auto
  have n: "next_limit scan = min maxSharedSelectionScanLimit (scan * 2)"
    by (rule next_limit_doubles [OF Suc.prems(1,2)])
  have "select_loop f src canceled w domain partitionID parts limit (next_limit scan) \<noteq> None"
  proof (rule Suc.IH [OF _ _ _ \<open>k < f\<close>])
    show "1 \<le> next_limit scan" and "next_limit scan \<le> maxSharedSelectionScanLimit"
      using n Suc.prems(1) by (simp_all add: maxSharedSelectionScanLimit_def)
    have "maxSharedSelectionScanLimit * 1 \<le> maxSharedSelectionScanLimit * 2 ^ k"
      by (rule mult_left_mono) (simp_all add: maxSharedSelectionScanLimit_def)
    then show "maxSharedSelectionScanLimit \<le> next_limit scan * 2 ^ k"
      using n Suc.prems(3) by (simp add: min_def mult.assoc)
  qed
  then show ?case using f by (simp add: Let_def split: option.split sum.split)
qed

lemma first_scan_limit_range: "first_scan_limit limit parts \<le> maxSharedSelectionScanLimit"
  by (simp add: first_scan_limit_def Let_def)

definition scan_fuel :: nat where "scan_fuel = 15"

lemma selection_returns:
  assumes "1 \<le> first_scan_limit (if limit < 1 then 1 else limit) parts" and "scan_fuel \<le> fuel"
  shows "SelectPartitionBatch fuel src canceled w domain partitionID parts limit \<noteq> None"
  unfolding SelectPartitionBatch_def Let_def
proof (rule select_loop_ends [where k = 14, OF assms(1) first_scan_limit_range])
  show "maxSharedSelectionScanLimit \<le> first_scan_limit (if limit < 1 then 1 else limit) parts * 2 ^ 14"
    using assms(1) by (simp add: maxSharedSelectionScanLimit_def)
qed (use assms(2) in \<open>simp add: scan_fuel_def\<close>)

text \<open>The limits in use, far below the 64-bit range, give a positive first limit.\<close>

lemma first_scan_limit_positive:
  assumes "1 \<le> limit" and "limit < 2 ^ 31" and "parts < 2 ^ 31"
  shows "1 \<le> first_scan_limit limit parts"
proof -
  have m: "1 \<le> max parts 1" and "max parts 1 \<le> 2 ^ 31 - 1" using assms(3) by auto
  have "limit * max parts 1 \<le> (2 ^ 31 - 1) * (2 ^ 31 - 1)"
    by (rule mult_mono) (use assms \<open>max parts 1 \<le> 2 ^ 31 - 1\<close> m in auto)
  moreover have "1 * 1 \<le> limit * max parts 1" by (rule mult_mono) (use assms(1) m in auto)
  ultimately show ?thesis
    by (simp add: first_scan_limit_def Let_def wrap64_id maxSharedSelectionScanLimit_def)
qed


definition example_row :: "string \<Rightarrow> time \<Rightarrow> IntentRow" where
  "example_row i t = \<lparr>si_IntentID = i, si_ProjectionDomain = ''d'', si_PartitionKey = ''p'', si_ScopeID = ''s'',
     si_AcceptanceUnitID = ''u'', si_RepositoryID = ''r'', si_SourceRunID = ''run'', si_GenerationID = ''g'',
     si_Payload = None, si_CreatedAt = t, si_CompletedAt = None\<rparr>"

lemma example_row_simps [simp]:
  "si_IntentID (example_row i t) = i" "si_ScopeID (example_row i t) = ''s''" "si_SourceRunID (example_row i t) = ''run''"
  "si_RepositoryID (example_row i t) = ''r''" "si_PartitionKey (example_row i t) = ''p''" "si_CreatedAt (example_row i t) = t"
  by (simp_all add: example_row_def)

theorem latest_intent_per_slice_witness:
  "LatestIntentsByRepoAndPartition [example_row ''b'' 2, example_row ''a'' 1] = ([example_row ''b'' 2], [''a''])
    \<and> mset (map si_IntentID [example_row ''b'' 2, example_row ''a'' 1]) = mset [''b''] + mset [''a'']"
proof -
  have "acceptance_of (example_row ''b'' 2) = acceptance_of (example_row ''a'' 1)"
    by (simp add: acceptance_of_def example_row_def Let_def)
  then have "slice_of (example_row ''b'' 2) = slice_of (example_row ''a'' 1)"
    by (cases "acceptance_of (example_row ''a'' 1)") (simp_all add: slice_of_def)
  moreover have "sort_by cmp_intents [example_row ''b'' 2, example_row ''a'' 1] = [example_row ''a'' 1, example_row ''b'' 2]"
    by (simp add: sort_by_def cmp_intents_def compare_def or_else_def)
  ultimately have l: "LatestIntentsByRepoAndPartition [example_row ''b'' 2, example_row ''a'' 1] = ([example_row ''b'' 2], [''a''])"
    by (simp add: LatestIntentsByRepoAndPartition_def)
  from latest_intent_per_slice [OF l] l show ?thesis by simp
qed


end
