(* ===== verification/SharedStore.thy ===== *)
theory SharedStore
  imports SharedProjection Sql Leases
begin

text \<open>
  \<open>shared_intents.go\<close>, \<open>shared_projection_acceptance.go\<close>, \<open>accepted_generation.go\<close> and
  \<open>shared_intent_acceptance_writer.go\<close> of \<open>go/internal/storage/postgres\<close>: the tables behind the
  shared projection worker. \<open>codec\<close> is what a payload becomes on its way through
  \<open>json.Marshal\<close>, JSONB and \<open>json.Unmarshal\<close> (or a failure), \<open>collate\<close> the collation of text.
\<close>

section \<open>Tables\<close>

record LeaseRow =
  lr_Domain :: string
  lr_PartitionID :: int
  lr_PartitionCount :: int
  lr_Owner :: "string option"
  lr_ExpiresAt :: "time option"
  lr_UpdatedAt :: time

record AcceptanceRow =
  ar_ScopeID :: string
  ar_AcceptanceUnitID :: string
  ar_SourceRunID :: string
  ar_GenerationID :: string
  ar_AcceptedAt :: time
  ar_UpdatedAt :: time

record SharedDb =
  sd_Scopes :: "string list"
  sd_Generations :: "string list"
  sd_Intents :: "IntentRow list"
  sd_Leases :: "LeaseRow list"
  sd_Acceptance :: "AcceptanceRow list"

section \<open>Intents\<close>

definition sharedIntentBatchSize :: nat where
  "sharedIntentBatchSize = 500"

definition sharedIntentPayloadString :: "payload \<Rightarrow> string \<Rightarrow> string" where
  "sharedIntentPayloadString p key = anyToString (payload_value p key)"

definition sharedIntentScopeID :: "IntentRow \<Rightarrow> string" where
  "sharedIntentScopeID r =
     (let value = trim_space (si_ScopeID r)
      in if value \<noteq> [] then value else sharedIntentPayloadString (si_Payload r) ''scope_id'')"

definition sharedIntentAcceptanceUnitID :: "IntentRow \<Rightarrow> string" where
  "sharedIntentAcceptanceUnitID r =
     (let value = trim_space (si_AcceptanceUnitID r) in
      if value \<noteq> [] then value
      else
        (let value = sharedIntentPayloadString (si_Payload r) ''acceptance_unit_id''
         in if value \<noteq> [] then value else si_RepositoryID r))"

definition deduplicateSharedIntentRows :: "IntentRow list \<Rightarrow> IntentRow list" where
  "deduplicateSharedIntentRows rows =
     (if length rows < 2 then rows else first_of_each si_IntentID [] rows)"

definition prepared_row :: "payload \<Rightarrow> IntentRow \<Rightarrow> IntentRow" where
  "prepared_row p r = r\<lparr>si_ScopeID := sharedIntentScopeID r,
     si_AcceptanceUnitID := sharedIntentAcceptanceUnitID r, si_Payload := p\<rparr>"

definition merge_intent :: "IntentRow \<Rightarrow> IntentRow \<Rightarrow> IntentRow" where
  "merge_intent old excluded = excluded\<lparr>si_IntentID := si_IntentID old,
     si_CompletedAt := (case si_CompletedAt old of Some t \<Rightarrow> Some t | None \<Rightarrow> si_CompletedAt excluded)\<rparr>"

definition upsertSharedIntentBatch :: "IntentRow list \<Rightarrow> SharedDb \<Rightarrow> error option \<times> SharedDb" where
  "upsertSharedIntentBatch batch db =
     (case upsert_batch si_IntentID merge_intent batch (sd_Intents db) of
        Inl e \<Rightarrow> (Some (Wrap ''upsert shared intent batch'' e), db)
      | Inr tab \<Rightarrow> (None, db\<lparr>sd_Intents := tab\<rparr>))"

fun prepare_rows :: "(payload \<Rightarrow> payload option) \<Rightarrow> IntentRow list \<Rightarrow> IntentRow list option" where
  "prepare_rows codec [] = Some []"
| "prepare_rows codec (r # rs) =
     (case codec (si_Payload r) of
        None \<Rightarrow> None
      | Some p \<Rightarrow> map_option ((#) (prepared_row p r)) (prepare_rows codec rs))"

definition UpsertIntents :: "(payload \<Rightarrow> payload option) \<Rightarrow> IntentRow list \<Rightarrow> SharedDb \<Rightarrow> error option \<times> SharedDb" where
  "UpsertIntents codec rows db =
     (case prepare_rows codec (deduplicateSharedIntentRows rows) of
        None \<Rightarrow> (Some (Msg ''marshal payload''), db)
      | Some prepared \<Rightarrow> exec_batches sharedIntentBatchSize upsertSharedIntentBatch prepared db)"

definition cmp_listed :: "(string \<Rightarrow> string \<Rightarrow> int) \<Rightarrow> IntentRow \<Rightarrow> IntentRow \<Rightarrow> int" where
  "cmp_listed collate x y =
     or_else (compare (si_CreatedAt x) (si_CreatedAt y)) (collate (si_IntentID x) (si_IntentID y))"

definition list_rows :: "(string \<Rightarrow> string \<Rightarrow> int) \<Rightarrow> (IntentRow \<Rightarrow> bool) \<Rightarrow> int \<Rightarrow> SharedDb \<Rightarrow> IntentRow list" where
  "list_rows collate wanted limit db =
     take (nat (max limit 1)) (sort_by (cmp_listed collate) (filter wanted (sd_Intents db)))"

definition ListIntents ::
  "(string \<Rightarrow> string \<Rightarrow> int) \<Rightarrow> string \<Rightarrow> string \<Rightarrow> string option \<Rightarrow> int \<Rightarrow> SharedDb \<Rightarrow> IntentRow list" where
  "ListIntents collate repositoryID sourceRunID domain limit =
     list_rows collate (\<lambda>r. si_RepositoryID r = repositoryID \<and> si_SourceRunID r = sourceRunID
       \<and> (coalesce domain = [] \<or> si_ProjectionDomain r = coalesce domain)) limit"

definition ListPendingDomainIntents ::
  "(string \<Rightarrow> string \<Rightarrow> int) \<Rightarrow> string \<Rightarrow> int \<Rightarrow> SharedDb \<Rightarrow> IntentRow list" where
  "ListPendingDomainIntents collate domain =
     list_rows collate (\<lambda>r. si_ProjectionDomain r = domain \<and> si_CompletedAt r = None)"

definition ListPendingAcceptanceUnitIntents ::
  "(string \<Rightarrow> string \<Rightarrow> int) \<Rightarrow> AcceptanceKey \<Rightarrow> string \<Rightarrow> int \<Rightarrow> SharedDb \<Rightarrow> IntentRow list" where
  "ListPendingAcceptanceUnitIntents collate key domain =
     list_rows collate (\<lambda>r. si_ScopeID r = ak_ScopeID key \<and> si_AcceptanceUnitID r = ak_AcceptanceUnitID key
       \<and> si_SourceRunID r = ak_SourceRunID key \<and> si_ProjectionDomain r = domain \<and> si_CompletedAt r = None)"

definition ListAcceptanceUnitDomainIntents ::
  "(string \<Rightarrow> string \<Rightarrow> int) \<Rightarrow> string \<Rightarrow> string \<Rightarrow> int \<Rightarrow> SharedDb \<Rightarrow> IntentRow list" where
  "ListAcceptanceUnitDomainIntents collate unit domain =
     list_rows collate (\<lambda>r. si_AcceptanceUnitID r = unit \<and> si_ProjectionDomain r = domain)"

definition MarkIntentsCompleted :: "string list \<Rightarrow> time \<Rightarrow> SharedDb \<Rightarrow> error option \<times> SharedDb" where
  "MarkIntentsCompleted ids completedAt db =
     (if ids = [] then (None, db)
      else (None, db\<lparr>sd_Intents := map (\<lambda>r. if si_IntentID r \<in> set ids
        then r\<lparr>si_CompletedAt := Some completedAt\<rparr> else r) (sd_Intents db)\<rparr>))"

section \<open>Partition leases\<close>

definition lease_key :: "LeaseRow \<Rightarrow> string \<times> int \<times> int" where
  "lease_key r = (lr_Domain r, lr_PartitionID r, lr_PartitionCount r)"

text \<open>\<open>now\<close> is what \<open>time.Now().UTC()\<close> returns.\<close>

definition lease_free :: "time \<Rightarrow> string \<Rightarrow> LeaseRow \<Rightarrow> bool" where
  "lease_free now owner r \<longleftrightarrow>
     (case lr_ExpiresAt r of None \<Rightarrow> True | Some t \<Rightarrow> t \<le> now) \<or> lr_Owner r = Some owner"

definition ClaimPartitionLease ::
  "time \<Rightarrow> string \<Rightarrow> int \<Rightarrow> int \<Rightarrow> string \<Rightarrow> duration \<Rightarrow> SharedDb \<Rightarrow> bool result \<times> SharedDb" where
  "ClaimPartitionLease now domain partitionID parts owner ttl db =
     (let key = (domain, partitionID, parts);
          row = \<lparr>lr_Domain = domain, lr_PartitionID = partitionID, lr_PartitionCount = parts,
                 lr_Owner = Some owner, lr_ExpiresAt = Some (now + ttl), lr_UpdatedAt = now\<rparr> in
      if \<not> integer_fits partitionID \<or> \<not> integer_fits parts
      then (Inl (Wrap ''claim partition lease'' (Msg ''integer out of range'')), db)
      else
        (case find (\<lambda>r. lease_key r = key) (sd_Leases db) of
           None \<Rightarrow> (Inr True, db\<lparr>sd_Leases := sd_Leases db @ [row]\<rparr>)
         | Some old \<Rightarrow>
             if lease_free now owner old
             then (Inr True, db\<lparr>sd_Leases := map (\<lambda>r. if lease_key r = key then row else r) (sd_Leases db)\<rparr>)
             else (Inr False, db)))"

definition ReleasePartitionLease ::
  "time \<Rightarrow> string \<Rightarrow> int \<Rightarrow> int \<Rightarrow> string \<Rightarrow> SharedDb \<Rightarrow> error option \<times> SharedDb" where
  "ReleasePartitionLease now domain partitionID parts owner db =
     (if \<not> integer_fits partitionID \<or> \<not> integer_fits parts
      then (Some (Wrap ''release partition lease'' (Msg ''integer out of range'')), db)
      else (None, db\<lparr>sd_Leases := map (\<lambda>r.
        if lease_key r = (domain, partitionID, parts) \<and> lr_Owner r = Some owner
        then r\<lparr>lr_Owner := None, lr_ExpiresAt := None, lr_UpdatedAt := now\<rparr> else r) (sd_Leases db)\<rparr>))"

section \<open>Acceptance\<close>

definition sharedProjectionAcceptanceBatchSize :: nat where
  "sharedProjectionAcceptanceBatchSize = 500"

definition acceptance_row_key :: "AcceptanceRow \<Rightarrow> AcceptanceKey" where
  "acceptance_row_key r = \<lparr>ak_ScopeID = ar_ScopeID r, ak_AcceptanceUnitID = ar_AcceptanceUnitID r,
     ak_SourceRunID = ar_SourceRunID r\<rparr>"

definition merge_acceptance :: "AcceptanceRow \<Rightarrow> AcceptanceRow \<Rightarrow> AcceptanceRow" where
  "merge_acceptance old excluded = old\<lparr>ar_GenerationID := ar_GenerationID excluded,
     ar_AcceptedAt := ar_AcceptedAt excluded, ar_UpdatedAt := ar_UpdatedAt excluded\<rparr>"

definition upsertSharedProjectionAcceptanceBatch :: "AcceptanceRow list \<Rightarrow> SharedDb \<Rightarrow> error option \<times> SharedDb" where
  "upsertSharedProjectionAcceptanceBatch batch db =
     (if \<not> list_all (\<lambda>r. ar_ScopeID r \<in> set (sd_Scopes db) \<and> ar_GenerationID r \<in> set (sd_Generations db)) batch
      then (Some (Wrap ''upsert shared projection acceptance batch'' (Msg ''violates foreign key constraint'')), db)
      else
        (case upsert_batch acceptance_row_key merge_acceptance batch (sd_Acceptance db) of
           Inl e \<Rightarrow> (Some (Wrap ''upsert shared projection acceptance batch'' e), db)
         | Inr tab \<Rightarrow> (None, db\<lparr>sd_Acceptance := tab\<rparr>)))"

definition Acceptance_Upsert :: "AcceptanceRow list \<Rightarrow> SharedDb \<Rightarrow> error option \<times> SharedDb" where
  "Acceptance_Upsert rows db =
     exec_batches sharedProjectionAcceptanceBatchSize upsertSharedProjectionAcceptanceBatch rows db"

definition Acceptance_Lookup :: "SharedDb \<Rightarrow> AcceptanceKey \<Rightarrow> string option" where
  "Acceptance_Lookup db key =
     map_option ar_GenerationID (find (\<lambda>r. acceptance_row_key r = key) (sd_Acceptance db))"

definition cmp_by_unit :: "(string \<Rightarrow> string \<Rightarrow> int) \<Rightarrow> AcceptanceRow \<Rightarrow> AcceptanceRow \<Rightarrow> int" where
  "cmp_by_unit collate x y =
     or_else (compare (ar_UpdatedAt y) (ar_UpdatedAt x)) (collate (ar_ScopeID y) (ar_ScopeID x))"

definition LookupByAcceptanceUnit ::
  "(string \<Rightarrow> string \<Rightarrow> int) \<Rightarrow> SharedDb \<Rightarrow> string \<Rightarrow> string \<Rightarrow> string option" where
  "LookupByAcceptanceUnit collate db unit sourceRunID =
     (case sort_by (cmp_by_unit collate)
         (filter (\<lambda>r. ar_AcceptanceUnitID r = unit \<and> ar_SourceRunID r = sourceRunID) (sd_Acceptance db)) of
        [] \<Rightarrow> None
      | r # _ \<Rightarrow> Some (ar_GenerationID r))"

definition NewAcceptedGenerationLookup :: "SharedDb \<Rightarrow> GenerationLookup" where
  "NewAcceptedGenerationLookup db key = Acceptance_Lookup db key"

fun accepted_by_key :: "SharedDb \<Rightarrow> IntentRow list \<Rightarrow> (AcceptanceKey \<times> string) list \<Rightarrow> (AcceptanceKey \<times> string) list" where
  "accepted_by_key db [] m = m"
| "accepted_by_key db (i # is) m =
     (case acceptance_of i of
        None \<Rightarrow> accepted_by_key db is m
      | Some key \<Rightarrow>
          if map_of m key \<noteq> None then accepted_by_key db is m
          else
            (case Acceptance_Lookup db key of
               None \<Rightarrow> accepted_by_key db is m
             | Some g \<Rightarrow> accepted_by_key db is ((key, g) # m)))"

definition NewAcceptedGenerationPrefetch :: "SharedDb \<Rightarrow> IntentRow list \<Rightarrow> GenerationLookup result" where
  "NewAcceptedGenerationPrefetch db intents =
     (let m = accepted_by_key db intents [] in
      Inr (\<lambda>key. map_of m \<lparr>ak_ScopeID = trim_space (ak_ScopeID key),
             ak_AcceptanceUnitID = trim_space (ak_AcceptanceUnitID key),
             ak_SourceRunID = trim_space (ak_SourceRunID key)\<rparr>))"

section \<open>Writing intents with their acceptance\<close>

definition sharedProjectionAcceptanceKey :: "IntentRow \<Rightarrow> AcceptanceKey option" where
  "sharedProjectionAcceptanceKey r =
     (case acceptance_of r of
        Some key \<Rightarrow> Some key
      | None \<Rightarrow>
          (let scopeID = sharedIntentScopeID r; unit = sharedIntentAcceptanceUnitID r in
           if blank scopeID \<or> blank unit \<or> blank (si_SourceRunID r) then None
           else Some \<lparr>ak_ScopeID = scopeID, ak_AcceptanceUnitID = unit, ak_SourceRunID = si_SourceRunID r\<rparr>))"

text \<open>
  \<open>byKey\<close>, with its keys in the order they were inserted (Go's map leaves the order open; the
  rows have different keys). \<open>clock\<close> is \<open>time.Now().UTC()\<close>.
\<close>

fun put_acceptance :: "AcceptanceRow \<Rightarrow> AcceptanceRow list \<Rightarrow> AcceptanceRow list result" where
  "put_acceptance a [] = Inr [a]"
| "put_acceptance a (b # bs) =
     (if acceptance_row_key b \<noteq> acceptance_row_key a
      then (case put_acceptance a bs of Inl e \<Rightarrow> Inl e | Inr bs' \<Rightarrow> Inr (b # bs'))
      else if ar_GenerationID b \<noteq> ar_GenerationID a
      then Inl (Fmt ''acceptance key has mixed generations'' [ar_GenerationID b, ar_GenerationID a])
      else if ar_UpdatedAt b < ar_UpdatedAt a
      then Inr (b\<lparr>ar_AcceptedAt := ar_AcceptedAt a, ar_UpdatedAt := ar_UpdatedAt a\<rparr> # bs)
      else Inr (b # bs))"

definition acceptance_row :: "time \<Rightarrow> AcceptanceKey \<Rightarrow> IntentRow \<Rightarrow> AcceptanceRow" where
  "acceptance_row clock key r =
     (let acceptedAt = utc (si_CreatedAt r); acceptedAt = (if is_zero acceptedAt then clock else acceptedAt)
      in \<lparr>ar_ScopeID = ak_ScopeID key, ar_AcceptanceUnitID = ak_AcceptanceUnitID key,
          ar_SourceRunID = ak_SourceRunID key, ar_GenerationID = trim_space (si_GenerationID r),
          ar_AcceptedAt = acceptedAt, ar_UpdatedAt = acceptedAt\<rparr>)"

fun build_acceptance :: "time \<Rightarrow> IntentRow list \<Rightarrow> AcceptanceRow list \<Rightarrow> AcceptanceRow list result" where
  "build_acceptance clock [] acc = Inr acc"
| "build_acceptance clock (r # rs) acc =
     (case sharedProjectionAcceptanceKey r of
        None \<Rightarrow> Inl (Fmt ''shared intent is missing acceptance identity'' [si_IntentID r])
      | Some key \<Rightarrow>
          if blank (si_GenerationID r) then Inl (Fmt ''shared intent is missing generation_id'' [si_IntentID r])
          else
            (case put_acceptance (acceptance_row clock key r) acc of
               Inl e \<Rightarrow> Inl e
             | Inr acc' \<Rightarrow> build_acceptance clock rs acc'))"

definition buildSharedProjectionAcceptanceRows :: "time \<Rightarrow> IntentRow list \<Rightarrow> AcceptanceRow list result" where
  "buildSharedProjectionAcceptanceRows clock rows = build_acceptance clock rows []"

definition upsertSharedIntentArtifacts ::
  "(payload \<Rightarrow> payload option) \<Rightarrow> IntentRow list \<Rightarrow> AcceptanceRow list \<Rightarrow> SharedDb \<Rightarrow> error option \<times> SharedDb" where
  "upsertSharedIntentArtifacts codec rows acceptance db =
     (case UpsertIntents codec rows db of
        (Some e, db') \<Rightarrow> (Some (Wrap ''upsert shared intents'' e), db')
      | (None, db') \<Rightarrow>
          (case Acceptance_Upsert acceptance db' of
             (Some e, db'') \<Rightarrow> (Some (Wrap ''upsert shared projection acceptance'' e), db'')
           | (None, db'') \<Rightarrow> (None, db'')))"

definition Writer_UpsertIntents ::
  "(payload \<Rightarrow> payload option) \<Rightarrow> time \<Rightarrow> bool \<Rightarrow> IntentRow list \<Rightarrow> SharedDb \<Rightarrow> error option \<times> SharedDb" where
  "Writer_UpsertIntents codec clock beginner rows db =
     (if rows = [] then (None, db)
      else
        (case buildSharedProjectionAcceptanceRows clock rows of
           Inl e \<Rightarrow> (Some e, db)
         | Inr acceptance \<Rightarrow>
             (case upsertSharedIntentArtifacts codec rows acceptance db of
                (Some e, db') \<Rightarrow> (Some e, if beginner then db else db')
              | (None, db') \<Rightarrow> (None, db'))))"

section \<open>What a lease promises\<close>

text \<open>
  The contract the workers rely on: a claim hands out a free lease, never one another owner holds
  and that has not expired; neither a refused claim nor an operation on another key nor the
  release by another owner changes who holds a lease.
\<close>

datatype ('k, 'o) lease_op = ClaimOp time 'k 'o duration | ReleaseOp time 'k 'o

fun op_time :: "('k, 'o) lease_op \<Rightarrow> time" where
  "op_time (ClaimOp now k p ttl) = now"
| "op_time (ReleaseOp now k p) = now"

fun op_owner :: "('k, 'o) lease_op \<Rightarrow> 'o" where
  "op_owner (ClaimOp now k p ttl) = p"
| "op_owner (ReleaseOp now k p) = p"

locale exclusive_leases =
  fixes holder :: "'s \<Rightarrow> 'k \<Rightarrow> ('o \<times> time) option"
    and claim :: "time \<Rightarrow> 'k \<Rightarrow> 'o \<Rightarrow> duration \<Rightarrow> 's \<Rightarrow> bool result \<times> 's"
    and release :: "time \<Rightarrow> 'k \<Rightarrow> 'o \<Rightarrow> 's \<Rightarrow> error option \<times> 's"
  assumes claimed: "fst (claim now k p ttl s) = Inr True
       \<Longrightarrow> holder (snd (claim now k p ttl s)) k = Some (p, now + ttl)"
    and claim_held: "holder s k = Some (q, t) \<Longrightarrow> now < t \<Longrightarrow> p \<noteq> q
       \<Longrightarrow> fst (claim now k p ttl s) \<noteq> Inr True"
    and claim_keeps: "k' \<noteq> k \<or> fst (claim now k p ttl s) \<noteq> Inr True
       \<Longrightarrow> holder (snd (claim now k p ttl s)) k' = holder s k'"
    and release_keeps: "holder s k' = Some (q, t) \<Longrightarrow> k' \<noteq> k \<or> p \<noteq> q
       \<Longrightarrow> holder (snd (release now k p s)) k' = Some (q, t)"
begin

fun apply_op :: "('k, 'o) lease_op \<Rightarrow> 's \<Rightarrow> 's" where
  "apply_op (ClaimOp now k p ttl) s = snd (claim now k p ttl s)"
| "apply_op (ReleaseOp now k p) s = snd (release now k p s)"

fun op_claims :: "('k, 'o) lease_op \<Rightarrow> 'k \<Rightarrow> 's \<Rightarrow> bool" where
  "op_claims (ClaimOp now k' p ttl) k s \<longleftrightarrow> k' = k \<and> fst (claim now k p ttl s) = Inr True"
| "op_claims (ReleaseOp now k' p) k s \<longleftrightarrow> False"

lemma op_by_other:
  assumes "holder s k = Some (q, t)" and "op_owner x \<noteq> q" and "op_time x < t"
  shows "holder (apply_op x s) k = Some (q, t)" and "\<not> op_claims x k s"
  using assms claim_held [of s k q t] claim_keeps [of k _ _ _ _ s] release_keeps [of s k q t]
  by (cases x; force)+

lemma exclusive:
  assumes "holder s k = Some (q, t)" and "\<forall>x \<in> set (ops @ [y]). op_owner x \<noteq> q \<and> op_time x < t"
  shows "holder (fold apply_op ops s) k = Some (q, t) \<and> \<not> op_claims y k (fold apply_op ops s)"
  using assms
proof (induction ops arbitrary: s)
  case Nil
  then show ?case using op_by_other [of s k q t y] by simp
next
  case (Cons x ops)
  then show ?case using op_by_other [of s k q t x] by simp
qed

lemma exclusive_after_claim:
  assumes "fst (claim now k q ttl s) = Inr True"
    and "\<forall>x \<in> set (ops @ [y]). op_owner x \<noteq> q \<and> op_time x < now + ttl"
  shows "holder (fold apply_op ops (snd (claim now k q ttl s))) k = Some (q, now + ttl)
    \<and> \<not> op_claims y k (fold apply_op ops (snd (claim now k q ttl s)))"
  by (rule exclusive [OF claimed [OF assms(1)] assms(2)])

end

definition lease_holder :: "SharedDb \<Rightarrow> string \<times> int \<times> int \<Rightarrow> (string \<times> time) option" where
  "lease_holder db key =
     (case find (\<lambda>r. lease_key r = key) (sd_Leases db) of
        Some r \<Rightarrow>
          (case (lr_Owner r, lr_ExpiresAt r) of (Some p, Some t) \<Rightarrow> Some (p, t) | _ \<Rightarrow> None)
      | None \<Rightarrow> None)"

definition claim_op :: "time \<Rightarrow> string \<times> int \<times> int \<Rightarrow> string \<Rightarrow> duration \<Rightarrow> SharedDb \<Rightarrow> bool result \<times> SharedDb" where
  "claim_op now key owner ttl = (case key of (domain, i, n) \<Rightarrow> ClaimPartitionLease now domain i n owner ttl)"

definition release_op :: "time \<Rightarrow> string \<times> int \<times> int \<Rightarrow> string \<Rightarrow> SharedDb \<Rightarrow> error option \<times> SharedDb" where
  "release_op now key owner = (case key of (domain, i, n) \<Rightarrow> ReleasePartitionLease now domain i n owner)"

lemma find_map_key:
  assumes "\<And>r. key (f r) = key r"
  shows "find (\<lambda>r. key r = k) (map f rs) = map_option f (find (\<lambda>r. key r = k) rs)"
  using assms by (induction rs) auto

lemma find_key: "find (\<lambda>r. key r = k) rs = Some r \<Longrightarrow> key r = k"
  by (induction rs) (auto split: if_splits)

lemma claim_op_cases:
  obtains (failed) e where "claim_op now key p ttl db = (Inl e, db)"
  | (refused) "claim_op now key p ttl db = (Inr False, db)"
      "\<exists>r. find (\<lambda>r. lease_key r = key) (sd_Leases db) = Some r \<and> \<not> lease_free now p r"
  | (granted) db' where "claim_op now key p ttl db = (Inr True, db')" "lease_holder db' key = Some (p, now + ttl)"
      "\<And>k. k \<noteq> key \<Longrightarrow> lease_holder db' k = lease_holder db k"
      "case find (\<lambda>r. lease_key r = key) (sd_Leases db) of Some r \<Rightarrow> lease_free now p r | None \<Rightarrow> True"
proof -
  obtain domain i n where key: "key = (domain, i, n)" by (cases key)
  let ?row = "\<lparr>lr_Domain = domain, lr_PartitionID = i, lr_PartitionCount = n, lr_Owner = Some p,
    lr_ExpiresAt = Some (now + ttl), lr_UpdatedAt = now\<rparr>"
  have row: "lease_key ?row = key" by (simp add: lease_key_def key)
  let ?f = "\<lambda>r. if lease_key r = key then ?row else r"
  have f: "lease_key (?f r) = lease_key r" for r using row by simp
  show ?thesis
  proof (cases "integer_fits i \<and> integer_fits n")
    case False
    then show ?thesis by (intro failed) (simp add: claim_op_def key ClaimPartitionLease_def Let_def)
  next
    case True
    show ?thesis
    proof (cases "find (\<lambda>r. lease_key r = key) (sd_Leases db)")
      case None
      let ?db = "db\<lparr>sd_Leases := sd_Leases db @ [?row]\<rparr>"
      have app: "find P (xs @ [x]) = (case find P xs of None \<Rightarrow> if P x then Some x else None | y \<Rightarrow> y)"
        for P and xs :: "LeaseRow list" and x by (induction xs) auto
      show ?thesis
      proof (rule granted [of ?db])
        show "claim_op now key p ttl db = (Inr True, ?db)"
          using True None by (simp add: claim_op_def key ClaimPartitionLease_def Let_def)
      qed (use None row in \<open>auto simp: lease_holder_def app split: option.split\<close>)
    next
      case (Some old)
      then have old: "lease_key old = key" by (rule find_key)
      let ?db = "db\<lparr>sd_Leases := map ?f (sd_Leases db)\<rparr>"
      show ?thesis
      proof (cases "lease_free now p old")
        case True
        have fk: "find (\<lambda>r. lease_key r = k) (map ?f (sd_Leases db)) = map_option ?f (find (\<lambda>r. lease_key r = k) (sd_Leases db))" for k
          by (rule find_map_key) (rule f)
        show ?thesis
        proof (rule granted [of ?db])
          show "claim_op now key p ttl db = (Inr True, ?db)"
            using \<open>integer_fits i \<and> integer_fits n\<close> Some True
            by (simp add: claim_op_def key ClaimPartitionLease_def Let_def)
          show "lease_holder ?db key = Some (p, now + ttl)"
            using Some old by (simp add: lease_holder_def fk)
          show "lease_holder ?db k = lease_holder db k" if "k \<noteq> key" for k
          proof (cases "find (\<lambda>r. lease_key r = k) (sd_Leases db)")
            case (Some r)
            then have "lease_key r = k" by (rule find_key)
            with Some that show ?thesis by (simp add: lease_holder_def fk)
          qed (simp add: lease_holder_def fk)
        qed (use Some True in simp)
      next
        case False
        then show ?thesis using True Some
          by (intro refused) (auto simp: claim_op_def key ClaimPartitionLease_def Let_def)
      qed
    qed
  qed
qed

lemma release_op_keeps:
  assumes "lease_holder db k = Some (q, t)" and "k \<noteq> key \<or> p \<noteq> q"
  shows "lease_holder (snd (release_op now key p db)) k = Some (q, t)"
proof -
  obtain domain i n where key: "key = (domain, i, n)" by (cases key)
  let ?f = "\<lambda>r. if lease_key r = key \<and> lr_Owner r = Some p
    then r\<lparr>lr_Owner := None, lr_ExpiresAt := None, lr_UpdatedAt := now\<rparr> else r"
  have keep: "lease_key (?f r) = lease_key r" for r by (simp add: lease_key_def)
  from assms(1) obtain r where r: "find (\<lambda>r. lease_key r = k) (sd_Leases db) = Some r"
    and q: "lr_Owner r = Some q" "lr_ExpiresAt r = Some t"
    by (auto simp: lease_holder_def split: option.splits)
  from r have "lease_key r = k" by (rule find_key)
  with q assms(2) have "?f r = r" by auto
  moreover have "find (\<lambda>r. lease_key r = k) (map ?f (sd_Leases db)) = Some (?f r)"
    using find_map_key [of lease_key ?f k "sd_Leases db", OF keep] r by simp
  ultimately show ?thesis
    using assms(1) q
    by (simp add: release_op_def key ReleasePartitionLease_def) (simp add: lease_holder_def r)
qed

lemma release_op_frees:
  assumes "lease_holder db key = Some (p, t)" and "fst (release_op now key p db) = None"
  shows "lease_holder (snd (release_op now key p db)) key = None"
proof -
  obtain domain i n where key: "key = (domain, i, n)" by (cases key)
  let ?f = "\<lambda>r. if lease_key r = key \<and> lr_Owner r = Some p
    then r\<lparr>lr_Owner := None, lr_ExpiresAt := None, lr_UpdatedAt := now\<rparr> else r"
  have keep: "lease_key (?f r) = lease_key r" for r by (simp add: lease_key_def)
  from assms(1) obtain r where r: "find (\<lambda>r. lease_key r = key) (sd_Leases db) = Some r" and q: "lr_Owner r = Some p"
    by (auto simp: lease_holder_def split: option.splits)
  have "find (\<lambda>r. lease_key r = key) (map ?f (sd_Leases db)) = Some (?f r)"
    using find_map_key [of lease_key ?f key "sd_Leases db", OF keep] r by simp
  moreover have "lr_Owner (?f r) = None" using q find_key [OF r] by simp
  ultimately show ?thesis
    using assms(2) by (auto simp: release_op_def key ReleasePartitionLease_def lease_holder_def split: if_splits)
qed

interpretation partition_leases: exclusive_leases lease_holder claim_op release_op
proof
  fix s :: SharedDb and now k p ttl
  show "lease_holder (snd (claim_op now k p ttl s)) k = Some (p, now + ttl)" if "fst (claim_op now k p ttl s) = Inr True"
    using that by (rule_tac claim_op_cases [of now k p ttl s]) auto
  show "fst (claim_op now k p ttl s) \<noteq> Inr True" if "lease_holder s k = Some (q, t)" "now < t" "p \<noteq> q" for q t
    using that by (rule_tac claim_op_cases [of now k p ttl s])
      (auto simp: lease_holder_def lease_free_def split: option.splits)
  show "lease_holder (snd (claim_op now k p ttl s)) k' = lease_holder s k'"
    if "k' \<noteq> k \<or> fst (claim_op now k p ttl s) \<noteq> Inr True" for k'
    using that by (rule_tac claim_op_cases [of now k p ttl s]) auto
qed (auto intro: release_op_keeps)

section \<open>The prefetched generations\<close>

lemma acceptance_of_trimmed:
  assumes "acceptance_of r = Some k"
  shows "\<lparr>ak_ScopeID = trim_space (ak_ScopeID k), ak_AcceptanceUnitID = trim_space (ak_AcceptanceUnitID k),
    ak_SourceRunID = trim_space (ak_SourceRunID k)\<rparr> = k"
  using assms by (auto simp: acceptance_of_def Let_def split: if_splits)

text \<open>The map holds what the table says of its keys.\<close>

definition mirrors :: "SharedDb \<Rightarrow> (AcceptanceKey \<times> string) list \<Rightarrow> bool" where
  "mirrors db m \<longleftrightarrow> (\<forall>k g. map_of m k = Some g \<longrightarrow> Acceptance_Lookup db k = Some g)"

lemma mirrors_Nil [simp]: "mirrors db []"
  by (simp add: mirrors_def)

lemma mirrors_Cons: "mirrors db m \<Longrightarrow> Acceptance_Lookup db k = Some g \<Longrightarrow> mirrors db ((k, g) # m)"
  by (auto simp: mirrors_def)

lemma accepted_by_key_mirrors: "mirrors db m \<Longrightarrow> mirrors db (accepted_by_key db rows m)"
  by (induction rows arbitrary: m) (auto intro: mirrors_Cons split: option.split)

lemma accepted_by_key_keeps:
  "map_of m k = Some g \<Longrightarrow> map_of (accepted_by_key db rows m) k = Some g"
proof (induction rows arbitrary: m)
  case (Cons i rows)
  have "map_of ((key, h) # m) k = Some g" if "map_of m key = None" for key h
    using Cons.prems that by auto
  then show ?case using Cons by (simp split: option.split)
qed simp

lemma accepted_by_key_finds:
  assumes "r \<in> set rows" and "acceptance_of r = Some k" and "Acceptance_Lookup db k = Some g" and "mirrors db m"
  shows "map_of (accepted_by_key db rows m) k = Some g"
  using assms
proof (induction rows arbitrary: m)
  case (Cons i rows)
  show ?case
  proof (cases "map_of m k")
    case (Some g')
    then have "g' = g" using Cons.prems(3,4) by (simp add: mirrors_def)
    with Some show ?thesis using accepted_by_key_keeps [of m k g db "i # rows"] by simp
  next
    case None
    show ?thesis
    proof (cases "acceptance_of i = Some k")
      case True
      with None Cons.prems(3) show ?thesis by (simp add: accepted_by_key_keeps)
    next
      case False
      then have "r \<in> set rows" using Cons.prems(1,2) by auto
      from Cons.IH [OF this Cons.prems(2,3)] Cons.prems(4) show ?thesis
        by (simp add: mirrors_Cons split: option.split)
    qed
  qed
qed simp

lemma accepted_prefetch:
  assumes "NewAcceptedGenerationPrefetch db rows = Inr lookup" and "r \<in> set rows"
  shows "accepted_generation lookup r = accepted_generation (NewAcceptedGenerationLookup db) r"
proof (cases "acceptance_of r")
  case (Some k)
  have l: "lookup k = map_of (accepted_by_key db rows []) k"
    using assms(1) acceptance_of_trimmed [OF Some] by (auto simp: NewAcceptedGenerationPrefetch_def Let_def)
  have "map_of (accepted_by_key db rows []) k = Acceptance_Lookup db k"
  proof (cases "Acceptance_Lookup db k")
    case None
    then have "map_of (accepted_by_key db rows []) k = None"
      using accepted_by_key_mirrors [OF mirrors_Nil, of db rows] unfolding mirrors_def by (metis not_None_eq)
    with None show ?thesis by simp
  next
    case (Some g)
    with accepted_by_key_finds [OF assms(2) \<open>acceptance_of r = Some k\<close>] show ?thesis by simp
  qed
  with Some l show ?thesis by (simp add: accepted_generation_def NewAcceptedGenerationLookup_def)
qed (simp add: accepted_generation_def)

lemma current_prefetch:
  assumes "NewAcceptedGenerationPrefetch db rows = Inr lookup"
  shows "filter (is_current lookup) rows = filter (is_current (NewAcceptedGenerationLookup db)) rows"
    and "filter (is_stale lookup) rows = filter (is_stale (NewAcceptedGenerationLookup db)) rows"
  using accepted_prefetch [OF assms] by (auto simp: is_current_def is_stale_def intro!: filter_cong)

section \<open>Listed and completed rows\<close>

lemma list_rows_mem: "r \<in> set (list_rows collate wanted limit db) \<Longrightarrow> r \<in> set (sd_Intents db) \<and> wanted r"
  by (auto simp: list_rows_def dest!: in_set_takeD)

lemma list_rows_distinct:
  assumes "distinct (map si_IntentID (sd_Intents db))"
  shows "distinct (map si_IntentID (list_rows collate wanted limit db))"
proof -
  have "distinct (map si_IntentID (sort_by (cmp_listed collate) (filter wanted (sd_Intents db))))"
    using assms by (simp add: distinct_map_filter)
  then show ?thesis by (simp add: list_rows_def take_map [symmetric] distinct_take)
qed

lemma RowsForPartition_mem:
  "r \<in> set (RowsForPartition rows i n) \<longleftrightarrow> r \<in> set rows \<and> PartitionForKey (si_PartitionKey r) n = Inr i"
  by (auto simp: RowsForPartition_def)

definition complete :: "string set \<Rightarrow> time \<Rightarrow> IntentRow list \<Rightarrow> IntentRow list" where
  "complete ids now rows =
     map (\<lambda>r. if si_IntentID r \<in> ids then r\<lparr>si_CompletedAt := Some now\<rparr> else r) rows"

lemma complete_none [simp]: "complete {} now rows = rows"
  by (simp add: complete_def)

lemma MarkIntentsCompleted_eq:
  "MarkIntentsCompleted ids now db = (None, db\<lparr>sd_Intents := complete (set ids) now (sd_Intents db)\<rparr>)"
  by (simp add: MarkIntentsCompleted_def complete_def)

text \<open>
  C25: while an owner holds a partition's lease and it has not expired, no sequence of claims and
  releases by other owners, on this or on other partitions, changes the holder, and no claim of
  the partition by another owner succeeds.
\<close>

theorem held_lease_excludes:
  assumes "fst (claim_op now key q ttl db) = Inr True"
    and "\<forall>x \<in> set (ops @ [y]). op_owner x \<noteq> q \<and> op_time x < now + ttl"
  shows "lease_holder (fold partition_leases.apply_op ops (snd (claim_op now key q ttl db))) key = Some (q, now + ttl)
    \<and> \<not> partition_leases.op_claims y key (fold partition_leases.apply_op ops (snd (claim_op now key q ttl db)))"
  by (rule partition_leases.exclusive_after_claim [OF assms])

definition example_shared :: SharedDb where
  "example_shared = \<lparr>sd_Scopes = [''s''], sd_Generations = [''g''], sd_Intents = [], sd_Leases = [], sd_Acceptance = []\<rparr>"

theorem held_lease_excludes_witness:
  "let key = (''platform_infra'', 0, 8); db = snd (claim_op 10 key ''a'' 60 example_shared);
     ops = [ClaimOp 20 key ''b'' 60, ReleaseOp 30 key ''b'']
   in lease_holder (fold partition_leases.apply_op ops db) key = Some (''a'', 70)
      \<and> fst (claim_op 40 key ''b'' 60 (fold partition_leases.apply_op ops db)) \<noteq> Inr True"
  using held_lease_excludes [of 10 "(''platform_infra'', 0, 8)" "''a''" 60 example_shared
      "[ClaimOp 20 (''platform_infra'', 0, 8) ''b'' 60, ReleaseOp 30 (''platform_infra'', 0, 8) ''b'']"
      "ClaimOp 40 (''platform_infra'', 0, 8) ''b'' 60"]
  by (simp add: Let_def claim_op_def ClaimPartitionLease_def example_shared_def integer_fits_def)

section \<open>Written intents are accepted\<close>

definition has_generation :: "AcceptanceRow list \<Rightarrow> AcceptanceKey \<Rightarrow> string \<Rightarrow> bool" where
  "has_generation tab k g \<longleftrightarrow>
     k \<in> set (map acceptance_row_key tab) \<and> (\<forall>t \<in> set tab. acceptance_row_key t = k \<longrightarrow> ar_GenerationID t = g)"

lemma has_generation_lookup:
  assumes "has_generation (sd_Acceptance db) k g"
  shows "Acceptance_Lookup db k = Some g"
proof -
  have "find (\<lambda>r. acceptance_row_key r = k) (sd_Acceptance db) \<noteq> None"
    using assms by (auto simp: has_generation_def find_None_iff)
  then obtain t where t: "find (\<lambda>r. acceptance_row_key r = k) (sd_Acceptance db) = Some t" by auto
  then have "t \<in> set (sd_Acceptance db)" and "acceptance_row_key t = k"
    by (auto simp: find_Some_iff)
  with assms t show ?thesis by (simp add: Acceptance_Lookup_def has_generation_def)
qed

lemma merge_acceptance_simps [simp]:
  "acceptance_row_key (merge_acceptance t r) = acceptance_row_key t"
  "ar_GenerationID (merge_acceptance t r) = ar_GenerationID r"
  by (simp_all add: merge_acceptance_def acceptance_row_key_def)

lemma upsert_acceptance_keys:
  "map acceptance_row_key (upsert_row acceptance_row_key merge_acceptance r tab) =
     (if acceptance_row_key r \<in> set (map acceptance_row_key tab) then map acceptance_row_key tab
      else map acceptance_row_key tab @ [acceptance_row_key r])"
  by (rule upsert_row_keys) simp

lemma upsert_acceptance_generation:
  "t \<in> set (upsert_row acceptance_row_key merge_acceptance r tab) \<Longrightarrow>
     acceptance_row_key t = acceptance_row_key r \<and> ar_GenerationID t = ar_GenerationID r
     \<or> acceptance_row_key t \<noteq> acceptance_row_key r \<and> t \<in> set tab"
  by (auto simp: upsert_row_def image_iff split: if_splits)

lemma upsert_acceptance_row:
  "has_generation (upsert_row acceptance_row_key merge_acceptance r tab) (acceptance_row_key r) (ar_GenerationID r)"
  unfolding has_generation_def upsert_acceptance_keys by (auto dest: upsert_acceptance_generation)

lemma upsert_acceptance_keeps:
  assumes "has_generation tab k g" and "\<forall>r \<in> set rows. acceptance_row_key r = k \<longrightarrow> ar_GenerationID r = g"
  shows "has_generation (fold (upsert_row acceptance_row_key merge_acceptance) rows tab) k g"
  using assms
proof (induction rows arbitrary: tab)
  case (Cons r rows)
  have "has_generation (upsert_row acceptance_row_key merge_acceptance r tab) k g"
    using Cons.prems unfolding has_generation_def upsert_acceptance_keys
    by (auto dest: upsert_acceptance_generation)
  with Cons show ?case by simp
qed simp

lemma upsert_acceptance_all:
  assumes "r \<in> set rows" and "\<forall>x \<in> set rows. acceptance_row_key x = acceptance_row_key r \<longrightarrow> ar_GenerationID x = ar_GenerationID r"
  shows "has_generation (fold (upsert_row acceptance_row_key merge_acceptance) rows tab) (acceptance_row_key r) (ar_GenerationID r)"
  using assms
proof (induction rows arbitrary: tab)
  case (Cons x rows)
  show ?case
  proof (cases "r = x")
    case True
    have "has_generation (fold (upsert_row acceptance_row_key merge_acceptance) rows
        (upsert_row acceptance_row_key merge_acceptance r tab)) (acceptance_row_key r) (ar_GenerationID r)"
      by (rule upsert_acceptance_keeps [OF upsert_acceptance_row]) (meson Cons.prems(2) list.set_intros(2))
    with True show ?thesis by simp
  next
    case False
    have "has_generation (fold (upsert_row acceptance_row_key merge_acceptance) rows
        (upsert_row acceptance_row_key merge_acceptance x tab)) (acceptance_row_key r) (ar_GenerationID r)"
    proof (rule Cons.IH)
      show "r \<in> set rows" using Cons.prems(1) False by simp
    qed (meson Cons.prems(2) list.set_intros(2))
    then show ?thesis by simp
  qed
qed simp

lemma acceptance_written:
  assumes "Acceptance_Upsert rows db = (None, db')" and "distinct (map acceptance_row_key rows)" and "r \<in> set rows"
  shows "Acceptance_Lookup db' (acceptance_row_key r) = Some (ar_GenerationID r)"
proof -
  have same: "x = y" if "x \<in> set rows" "y \<in> set rows" "acceptance_row_key x = acceptance_row_key y" for x y
    using assms(2) that by (metis distinct_map inj_onD)
  have batch: "sd_Acceptance d' = fold (upsert_row acceptance_row_key merge_acceptance) rs (sd_Acceptance d)
      \<or> sd_Acceptance d' = sd_Acceptance d \<and> e \<noteq> None"
    if "upsertSharedProjectionAcceptanceBatch rs d = (e, d')" for rs d e d'
    using that by (auto simp: upsertSharedProjectionAcceptanceBatch_def upsert_batch_def split: if_splits)
  have one: "\<forall>y \<in> set rs. acceptance_row_key y = acceptance_row_key x \<longrightarrow> ar_GenerationID y = ar_GenerationID x"
    if "set rs \<subseteq> set rows" "x \<in> set rows" for rs x
  proof (intro ballI impI)
    fix y assume "y \<in> set rs" "acceptance_row_key y = acceptance_row_key x"
    then have "y = x" using that by (intro same) auto
    then show "ar_GenerationID y = ar_GenerationID x" by simp
  qed
  have exec: "has_generation (sd_Acceptance d') (acceptance_row_key x) (ar_GenerationID x)"
    if "set rs \<subseteq> set rows" "upsertSharedProjectionAcceptanceBatch rs d = (None, d')" "x \<in> set rs" for rs d d' x
    using batch [OF that(2)] upsert_acceptance_all [OF that(3) one [OF that(1)], of "sd_Acceptance d"] that(1,3) by auto
  have keep: "has_generation (sd_Acceptance d') (acceptance_row_key x) (ar_GenerationID x)"
    if "set rs \<subseteq> set rows" "x \<in> set rows" "upsertSharedProjectionAcceptanceBatch rs d = (e, d')"
      "has_generation (sd_Acceptance d) (acceptance_row_key x) (ar_GenerationID x)" for rs x d e d'
    using batch [OF that(3)] upsert_acceptance_keeps [OF that(4) one [OF that(1,2)]] that(4) by auto
  have "has_generation (sd_Acceptance db') (acceptance_row_key r) (ar_GenerationID r)"
    by (rule exec_batches_achieves_on [where Q = "\<lambda>r d. has_generation (sd_Acceptance d) (acceptance_row_key r) (ar_GenerationID r)",
        OF exec keep assms(1) [unfolded Acceptance_Upsert_def] _ assms(3)])
      (auto simp: sharedProjectionAcceptanceBatchSize_def)
  then show ?thesis by (rule has_generation_lookup)
qed

text \<open>The keys of the rows built so far, each with its generation.\<close>

definition entries :: "AcceptanceRow list \<Rightarrow> (AcceptanceKey \<times> string) list" where
  "entries rows = map (\<lambda>b. (acceptance_row_key b, ar_GenerationID b)) rows"

lemma keys_of_entries: "map fst (entries rows) = map acceptance_row_key rows"
  by (simp add: entries_def)

lemma put_acceptance_entries:
  assumes "put_acceptance a acc = Inr acc'"
  shows "entries acc' = entries acc \<and> (acceptance_row_key a, ar_GenerationID a) \<in> set (entries acc)
    \<or> entries acc' = entries acc @ [(acceptance_row_key a, ar_GenerationID a)]
      \<and> acceptance_row_key a \<notin> fst ` set (entries acc)"
  using assms
proof (induction acc arbitrary: acc')
  case Nil
  then show ?case by (auto simp: entries_def)
next
  case (Cons b bs)
  show ?case
  proof (cases "acceptance_row_key b = acceptance_row_key a")
    case True
    with Cons.prems have g: "ar_GenerationID b = ar_GenerationID a" by (simp split: if_splits)
    with True Cons.prems have "acc' = b # bs \<or> acc' = b\<lparr>ar_AcceptedAt := ar_AcceptedAt a, ar_UpdatedAt := ar_UpdatedAt a\<rparr> # bs"
      by (simp split: if_splits)
    then have "entries acc' = entries (b # bs)"
      by (elim disjE) (simp_all add: entries_def acceptance_row_key_def)
    moreover have "(acceptance_row_key a, ar_GenerationID a) \<in> set (entries (b # bs))"
      by (simp add: entries_def True g)
    ultimately show ?thesis by blast
  next
    case False
    with Cons.prems obtain bs' where bs': "put_acceptance a bs = Inr bs'" and acc': "acc' = b # bs'"
      by (auto split: sum.splits)
    from Cons.IH [OF bs'] acc' False show ?thesis
      by (elim disjE) (simp_all add: entries_def)
  qed
qed

lemma acceptance_row_entry:
  "(acceptance_row_key (acceptance_row clock k x), ar_GenerationID (acceptance_row clock k x)) = (k, trim_space (si_GenerationID x))"
  by (simp add: acceptance_row_def acceptance_row_key_def Let_def)

lemma build_acceptance_rows:
  assumes "build_acceptance clock rows acc = Inr acc'" and "distinct (map fst (entries acc))"
  shows "distinct (map fst (entries acc')) \<and> set (entries acc) \<subseteq> set (entries acc')
    \<and> (\<forall>r \<in> set rows. \<exists>k. sharedProjectionAcceptanceKey r = Some k
         \<and> (k, trim_space (si_GenerationID r)) \<in> set (entries acc'))"
  using assms
proof (induction rows arbitrary: acc)
  case (Cons x rows)
  from Cons.prems(1) obtain k acc1 where k: "sharedProjectionAcceptanceKey x = Some k"
    and p: "put_acceptance (acceptance_row clock k x) acc = Inr acc1" and b: "build_acceptance clock rows acc1 = Inr acc'"
    by (auto split: option.splits if_splits sum.splits)
  from put_acceptance_entries [OF p, unfolded acceptance_row_entry]
  have keep: "set (entries acc) \<subseteq> set (entries acc1)"
    and x: "(k, trim_space (si_GenerationID x)) \<in> set (entries acc1)"
    and d: "distinct (map fst (entries acc1))"
    using Cons.prems(2) acceptance_row_entry [of clock k x] by auto
  from Cons.IH [OF b d] keep k x show ?case by auto
qed simp

lemma merge_intent_id [simp]: "si_IntentID (merge_intent t r) = si_IntentID t"
  by (simp add: merge_intent_def)

lemma prepare_rows_ids: "prepare_rows codec rows = Some prepared \<Longrightarrow> map si_IntentID prepared = map si_IntentID rows"
  by (induction rows arbitrary: prepared) (auto simp: prepared_row_def split: option.splits)

lemma upsert_intent_batch_ids:
  assumes "upsertSharedIntentBatch rs d = (e, d')"
  shows "set (map si_IntentID (sd_Intents d)) \<subseteq> set (map si_IntentID (sd_Intents d'))"
    and "e = None \<Longrightarrow> set (map si_IntentID rs) \<subseteq> set (map si_IntentID (sd_Intents d'))"
    and "sd_Acceptance d' = sd_Acceptance d" and "sd_Scopes d' = sd_Scopes d" and "sd_Generations d' = sd_Generations d"
proof -
  have keys: "set (map si_IntentID (fold (upsert_row si_IntentID merge_intent) rs (sd_Intents d)))
      = set (map si_IntentID (sd_Intents d)) \<union> set (map si_IntentID rs)"
    by (rule upsert_rows_keys) simp
  have "e \<noteq> None \<and> d' = d \<or> e = None \<and> d' = d\<lparr>sd_Intents := fold (upsert_row si_IntentID merge_intent) rs (sd_Intents d)\<rparr>"
    using assms by (auto simp: upsertSharedIntentBatch_def upsert_batch_def split: if_splits)
  with keys show "set (map si_IntentID (sd_Intents d)) \<subseteq> set (map si_IntentID (sd_Intents d'))"
    and "e = None \<Longrightarrow> set (map si_IntentID rs) \<subseteq> set (map si_IntentID (sd_Intents d'))"
    and "sd_Acceptance d' = sd_Acceptance d" and "sd_Scopes d' = sd_Scopes d" and "sd_Generations d' = sd_Generations d"
    by (elim disjE; simp)+
qed

lemma intents_written:
  assumes "UpsertIntents codec rows db = (None, db')" and "r \<in> set rows"
  shows "si_IntentID r \<in> set (map si_IntentID (sd_Intents db'))"
proof -
  from assms(1) obtain prepared where p: "prepare_rows codec (deduplicateSharedIntentRows rows) = Some prepared"
    and x: "exec_batches sharedIntentBatchSize upsertSharedIntentBatch prepared db = (None, db')"
    by (auto simp: UpsertIntents_def split: option.splits)
  have "si_IntentID ` set (deduplicateSharedIntentRows rows) = si_IntentID ` set rows"
    by (simp add: deduplicateSharedIntentRows_def set_map_first_of_each)
  then have "si_IntentID r \<in> set (map si_IntentID prepared)"
    using assms(2) prepare_rows_ids [OF p] by auto
  then obtain s where s: "s \<in> set prepared" "si_IntentID s = si_IntentID r" by auto
  have one: "si_IntentID x \<in> set (map si_IntentID (sd_Intents d'))"
    if "upsertSharedIntentBatch rs d = (None, d')" "x \<in> set rs" for rs d d' x
    using upsert_intent_batch_ids(2) [OF that(1) refl] that(2) by auto
  have keep: "si_IntentID x \<in> set (map si_IntentID (sd_Intents d'))"
    if "upsertSharedIntentBatch rs d = (e, d')" "si_IntentID x \<in> set (map si_IntentID (sd_Intents d))" for rs d e d' x
    using upsert_intent_batch_ids(1) [OF that(1)] that(2) by blast
  have "si_IntentID s \<in> set (map si_IntentID (sd_Intents db'))"
    by (rule exec_batches_achieves [where Q = "\<lambda>x d. si_IntentID x \<in> set (map si_IntentID (sd_Intents d))",
        OF one keep x _ s(1)]) (auto simp: sharedIntentBatchSize_def)
  with s(2) show ?thesis by simp
qed

lemma acceptance_keeps_intents:
  assumes "Acceptance_Upsert rows db = (e, db')"
  shows "sd_Intents db' = sd_Intents db"
  using assms unfolding Acceptance_Upsert_def
  by (rule exec_batches_invariant [where P = "\<lambda>d. sd_Intents d = sd_Intents db", rotated])
    (auto simp: upsertSharedProjectionAcceptanceBatch_def split: if_splits sum.splits)

lemma writer_accepts:
  assumes "Writer_UpsertIntents codec clock beginner rows db = (e, db')"
  shows "(e = None \<longrightarrow>
      (\<forall>r \<in> set rows. \<exists>k. sharedProjectionAcceptanceKey r = Some k
         \<and> Acceptance_Lookup db' k = Some (trim_space (si_GenerationID r))
         \<and> si_IntentID r \<in> si_IntentID ` set (sd_Intents db')))
    \<and> (e \<noteq> None \<and> beginner \<longrightarrow> db' = db)"
proof (intro conjI impI)
  assume none: "e = None"
  show "\<forall>r \<in> set rows. \<exists>k. sharedProjectionAcceptanceKey r = Some k
      \<and> Acceptance_Lookup db' k = Some (trim_space (si_GenerationID r))
      \<and> si_IntentID r \<in> si_IntentID ` set (sd_Intents db')"
  proof (cases "rows = []")
    case False
    with assms none obtain acc db1 where b: "build_acceptance clock rows [] = Inr acc"
      and i: "UpsertIntents codec rows db = (None, db1)" and a: "Acceptance_Upsert acc db1 = (None, db')"
      by (auto simp: Writer_UpsertIntents_def upsertSharedIntentArtifacts_def buildSharedProjectionAcceptanceRows_def
          split: sum.splits prod.splits option.splits)
    have "distinct (map fst (entries []))" by (simp add: entries_def)
    note built = build_acceptance_rows [OF b this]
    then have "distinct (map fst (entries acc))" by (rule conjunct1)
    then have d: "distinct (map acceptance_row_key acc)" by (simp only: keys_of_entries)
    from built have rows: "\<forall>r \<in> set rows. \<exists>k. sharedProjectionAcceptanceKey r = Some k
         \<and> (k, trim_space (si_GenerationID r)) \<in> set (entries acc)"
      by (intro built [THEN conjunct2, THEN conjunct2])
    have "Acceptance_Lookup db' k = Some g" if "(k, g) \<in> set (entries acc)" for k g
      using acceptance_written [OF a d] that by (auto simp: entries_def)
    moreover have "si_IntentID r \<in> si_IntentID ` set (sd_Intents db')" if "r \<in> set rows" for r
      using intents_written [OF i that] acceptance_keeps_intents [OF a] by simp
    ultimately show ?thesis using rows by blast
  qed simp
next
  assume "e \<noteq> None \<and> beginner"
  with assms show "db' = db"
    by (auto simp: Writer_UpsertIntents_def split: if_splits sum.splits prod.splits option.splits)
qed

text \<open>
  When the writer stores intents, every intent written is accepted: its acceptance key is
  well formed, the acceptance table maps the key to the intent's generation, and the intent is in
  the table; when it fails inside a transaction nothing has changed.
\<close>

theorem written_intents_accepted:
  assumes "Writer_UpsertIntents codec clock beginner rows db = (e, db')"
  shows "(e = None \<longrightarrow>
      (\<forall>r \<in> set rows. \<exists>k. sharedProjectionAcceptanceKey r = Some k
         \<and> Acceptance_Lookup db' k = Some (trim_space (si_GenerationID r))
         \<and> si_IntentID r \<in> si_IntentID ` set (sd_Intents db')))
    \<and> (e \<noteq> None \<and> beginner \<longrightarrow> db' = db)"
  by (rule writer_accepts) (rule assms)

definition example_intent :: "string \<Rightarrow> IntentRow" where
  "example_intent gen = \<lparr>si_IntentID = ''i'', si_ProjectionDomain = ''platform_infra'', si_PartitionKey = ''p'',
     si_ScopeID = ''s'', si_AcceptanceUnitID = ''u'', si_RepositoryID = ''r'', si_SourceRunID = ''run'',
     si_GenerationID = gen, si_Payload = None, si_CreatedAt = 5, si_CompletedAt = None\<rparr>"

theorem written_intents_accepted_witness:
  "\<exists>db'. Writer_UpsertIntents Some 9 True [example_intent ''g''] example_shared = (None, db')
    \<and> Acceptance_Lookup db' \<lparr>ak_ScopeID = ''s'', ak_AcceptanceUnitID = ''u'', ak_SourceRunID = ''run''\<rparr> = Some ''g''"
proof -
  obtain e db' where w: "Writer_UpsertIntents Some 9 True [example_intent ''g''] example_shared = (e, db')"
    by (cases "Writer_UpsertIntents Some 9 True [example_intent ''g''] example_shared")
  have trims: "trim_space ''s'' = ''s''" "trim_space ''u'' = ''u''" "trim_space ''run'' = ''run''" "trim_space ''g'' = ''g''"
    by (rule trim_space_solid, simp add: solid_simps)+
  have "fst (Writer_UpsertIntents Some 9 True [example_intent ''g''] example_shared) = None"
    by (simp add: Writer_UpsertIntents_def buildSharedProjectionAcceptanceRows_def sharedProjectionAcceptanceKey_def
        acceptance_of_def Let_def example_intent_def example_shared_def trims blank_def is_zero_def
        acceptance_row_def upsertSharedIntentArtifacts_def UpsertIntents_def deduplicateSharedIntentRows_def
        exec_batches_one sharedIntentBatchSize_def upsertSharedIntentBatch_def upsert_batch_def
        Acceptance_Upsert_def sharedProjectionAcceptanceBatchSize_def upsertSharedProjectionAcceptanceBatch_def)
  with w have "e = None" by simp
  moreover have "sharedProjectionAcceptanceKey (example_intent ''g'')
      = Some \<lparr>ak_ScopeID = ''s'', ak_AcceptanceUnitID = ''u'', ak_SourceRunID = ''run''\<rparr>"
    by (simp add: sharedProjectionAcceptanceKey_def acceptance_of_def Let_def example_intent_def trims)
  moreover have "trim_space (si_GenerationID (example_intent ''g'')) = ''g''" by (simp add: example_intent_def trims)
  ultimately show ?thesis using written_intents_accepted [OF w] w by auto
qed

end
