(* ===== verification/GoParse.thy ===== *)
theory GoParse
  imports Strings
begin

text \<open>
  What the configuration loaders use of \<open>strconv\<close> and \<open>time\<close>: \<open>Atoi\<close>, \<open>ParseBool\<close> and
  \<open>ParseDuration\<close>. \<open>None\<close> is a parse error. The fraction of a duration is truncated exactly; the
  rounding of its \<open>float64\<close> product is not modelled.
\<close>

definition digit :: "char \<Rightarrow> bool" where
  "digit c \<longleftrightarrow> 48 \<le> (of_char c :: int) \<and> (of_char c :: int) \<le> 57"

definition digit_value :: "char \<Rightarrow> int" where
  "digit_value c = of_char c - 48"

fun digits_value :: "int \<Rightarrow> string \<Rightarrow> int" where
  "digits_value n [] = n"
| "digits_value n (c # cs) = digits_value (10 * n + digit_value c) cs"

section \<open>Integers\<close>

definition parse_nat :: "string \<Rightarrow> int option" where
  "parse_nat s = (if s \<noteq> [] \<and> list_all digit s then Some (digits_value 0 s) else None)"

definition fits64 :: "int \<Rightarrow> int option" where
  "fits64 n = (if - (2 ^ 63) \<le> n \<and> n < 2 ^ 63 then Some n else None)"

definition Atoi :: "string \<Rightarrow> int option" where
  "Atoi s =
     (case s of
        [] \<Rightarrow> None
      | c # cs \<Rightarrow>
          if c = CHR ''-'' then Option.bind (parse_nat cs) (\<lambda>n. fits64 (- n))
          else if c = CHR ''+'' then Option.bind (parse_nat cs) fits64
          else Option.bind (parse_nat s) fits64)"

definition ParseBool :: "string \<Rightarrow> bool option" where
  "ParseBool s =
     (if s \<in> set [''1'', ''t'', ''T'', ''true'', ''TRUE'', ''True''] then Some True
      else if s \<in> set [''0'', ''f'', ''F'', ''false'', ''FALSE'', ''False''] then Some False
      else None)"

section \<open>Durations\<close>

definition micro_sign :: "nat list \<Rightarrow> string" where
  "micro_sign bytes = map char_of bytes @ ''s''"

definition unit_nanos :: "string \<Rightarrow> int option" where
  "unit_nanos u = map_of
     [(''ns'', 1), (''us'', 1000), (micro_sign [194, 181], 1000), (micro_sign [206, 188], 1000),
      (''ms'', 1000000), (''s'', 1000000000), (''m'', 60 * 1000000000), (''h'', 3600 * 1000000000)] u"

definition duration_unit_char :: "char \<Rightarrow> bool" where
  "duration_unit_char c \<longleftrightarrow> c \<noteq> CHR ''.'' \<and> \<not> digit c"

text \<open>One \<open>number unit\<close> group: its value in nanoseconds and the rest.\<close>

definition duration_group :: "string \<Rightarrow> (int \<times> string) option" where
  "duration_group s =
     (let whole = takeWhile digit s; s1 = dropWhile digit s;
          (frac, s2) = (case s1 of
             c # cs \<Rightarrow> if c = CHR ''.'' then (takeWhile digit cs, dropWhile digit cs) else ([], s1)
           | [] \<Rightarrow> ([], []));
          u = takeWhile duration_unit_char s2
      in if whole = [] \<and> frac = [] then None
         else if u = [] then None
         else
           (case unit_nanos u of
              None \<Rightarrow> None
            | Some n \<Rightarrow>
                let v = digits_value 0 whole * n + digits_value 0 frac * n div 10 ^ length frac
                in if digits_value 0 whole > 2 ^ 63 \<or> v > 2 ^ 63 then None
                   else Some (v, dropWhile duration_unit_char s2)))"

lemma duration_group_shrinks:
  assumes "duration_group s = Some (v, rest)"
  shows "length rest < length s"
proof -
  obtain frac s2 where fs: "(case dropWhile digit s of
        c # cs \<Rightarrow> if c = CHR ''.'' then (takeWhile digit cs, dropWhile digit cs) else ([], dropWhile digit s)
      | [] \<Rightarrow> ([], [])) = (frac, s2)" by fastforce
  have "length s2 \<le> length s"
    using fs length_dropWhile_le [of digit s] length_dropWhile_le [of digit "tl (dropWhile digit s)"]
    by (cases "dropWhile digit s") (auto simp del: length_dropWhile_le simp: length_dropWhile_le [of digit s] split: if_splits)
  moreover from assms fs have u: "takeWhile duration_unit_char s2 \<noteq> []"
    and rest: "rest = dropWhile duration_unit_char s2"
    by (auto simp: duration_group_def Let_def split: option.splits if_splits)
  have "length (takeWhile duration_unit_char s2) + length rest = length s2"
    unfolding rest by (metis length_append takeWhile_dropWhile_id)
  ultimately show ?thesis using u by (cases "takeWhile duration_unit_char s2") auto
qed

function duration_groups :: "int \<Rightarrow> string \<Rightarrow> int option" where
  "duration_groups d s =
     (if s = [] then Some d
      else
        (case duration_group s of
           None \<Rightarrow> None
         | Some (v, rest) \<Rightarrow> if d + v > 2 ^ 63 then None else duration_groups (d + v) rest))"
  by pat_completeness auto
termination
  by (relation "measure (\<lambda>(_, s). length s)") (auto dest: duration_group_shrinks)

declare duration_groups.simps [simp del]

definition ParseDuration :: "string \<Rightarrow> int option" where
  "ParseDuration s =
     (let neg = (case s of c # _ \<Rightarrow> c = CHR ''-'' | [] \<Rightarrow> False);
          s1 = (case s of c # cs \<Rightarrow> if c = CHR ''-'' \<or> c = CHR ''+'' then cs else s | [] \<Rightarrow> [])
      in if s1 = ''0'' then Some 0
         else if s1 = [] then None
         else
           (case duration_groups 0 s1 of
              None \<Rightarrow> None
            | Some d \<Rightarrow>
                if neg then Some (- d) else if d > 2 ^ 63 - 1 then None else Some d))"

end
