(* ===== verification/SharedRunner.thy ===== *)
theory SharedRunner
  imports SharedStore PhaseStore GoParse
begin

text \<open>
  \<open>go/internal/reducer/shared_projection_runner.go\<close> over the stores it is wired to in
  \<open>go/cmd/reducer/main.go\<close>: the shared intent store is the intent reader and the lease manager,
  acceptance and readiness are read from PostgreSQL, and the edge writer acts on a graph \<open>'g\<close>.
\<close>

section \<open>Configuration\<close>

definition defaultPartitionCount :: int where "defaultPartitionCount = 8"
definition defaultSharedPollInterval :: duration where "defaultSharedPollInterval = 500000000"
definition defaultLeaseTTL :: duration where "defaultLeaseTTL = seconds 60"
definition defaultBatchLimit :: int where "defaultBatchLimit = 100"
definition defaultEvidenceSource :: string where "defaultEvidenceSource = ''finalization/workloads''"
definition maxSharedPollInterval :: duration where "maxSharedPollInterval = seconds 5"

definition sharedProjectionDomains :: "string list" where
  "sharedProjectionDomains =
     [DomainPlatformInfra, DomainWorkloadDependency, DomainInheritanceEdges, DomainSQLRelationships]"

record SharedProjectionRunnerConfig =
  sp_PartitionCount :: int
  sp_PollInterval :: duration
  sp_LeaseTTL :: duration
  sp_LeaseOwner :: string
  sp_BatchLimit :: int
  sp_EvidenceSource :: string
  sp_Workers :: int

definition partitionCount :: "SharedProjectionRunnerConfig \<Rightarrow> int" where
  "partitionCount c = (if sp_PartitionCount c \<le> 0 then defaultPartitionCount else sp_PartitionCount c)"

definition pollInterval :: "SharedProjectionRunnerConfig \<Rightarrow> duration" where
  "pollInterval c = (if sp_PollInterval c \<le> 0 then defaultSharedPollInterval else sp_PollInterval c)"

definition leaseTTL :: "SharedProjectionRunnerConfig \<Rightarrow> duration" where
  "leaseTTL c = (if sp_LeaseTTL c \<le> 0 then defaultLeaseTTL else sp_LeaseTTL c)"

definition batchLimit :: "SharedProjectionRunnerConfig \<Rightarrow> int" where
  "batchLimit c = (if sp_BatchLimit c \<le> 0 then defaultBatchLimit else sp_BatchLimit c)"

definition evidenceSource :: "SharedProjectionRunnerConfig \<Rightarrow> string" where
  "evidenceSource c = (if sp_EvidenceSource c = [] then defaultEvidenceSource else sp_EvidenceSource c)"

definition leaseOwner :: "SharedProjectionRunnerConfig \<Rightarrow> string" where
  "leaseOwner c = (if sp_LeaseOwner c = [] then ''shared-projection-runner'' else sp_LeaseOwner c)"

definition positive_or :: "int \<Rightarrow> int option \<Rightarrow> int" where
  "positive_or fallback v = (case v of Some n \<Rightarrow> if n \<le> 0 then fallback else n | None \<Rightarrow> fallback)"

definition intFromEnvDefault :: "(string \<Rightarrow> string) \<Rightarrow> string \<Rightarrow> int \<Rightarrow> int" where
  "intFromEnvDefault getenv key fallback =
     (let raw = trim_space (getenv key) in if raw = [] then fallback else positive_or fallback (Atoi raw))"

definition durationFromEnv :: "(string \<Rightarrow> string) \<Rightarrow> string \<Rightarrow> duration \<Rightarrow> duration" where
  "durationFromEnv getenv key fallback =
     (let raw = trim_space (getenv key) in if raw = [] then fallback else positive_or fallback (ParseDuration raw))"

text \<open>\<open>cpus\<close> is \<open>runtime.NumCPU()\<close>.\<close>

definition defaultSharedProjectionWorkers :: "int \<Rightarrow> int" where
  "defaultSharedProjectionWorkers cpus = (let n = (if cpus > 4 then 4 else cpus) in if n < 1 then 1 else n)"

definition LoadSharedProjectionConfig :: "int \<Rightarrow> (string \<Rightarrow> string) \<Rightarrow> SharedProjectionRunnerConfig" where
  "LoadSharedProjectionConfig cpus getenv =
     \<lparr>sp_PartitionCount = intFromEnvDefault getenv ''PCG_SHARED_PROJECTION_PARTITION_COUNT'' defaultPartitionCount,
      sp_PollInterval = durationFromEnv getenv ''PCG_SHARED_PROJECTION_POLL_INTERVAL'' defaultSharedPollInterval,
      sp_LeaseTTL = durationFromEnv getenv ''PCG_SHARED_PROJECTION_LEASE_TTL'' defaultLeaseTTL,
      sp_LeaseOwner = [],
      sp_BatchLimit = intFromEnvDefault getenv ''PCG_SHARED_PROJECTION_BATCH_LIMIT'' defaultBatchLimit,
      sp_EvidenceSource = [],
      sp_Workers = intFromEnvDefault getenv ''PCG_SHARED_PROJECTION_WORKERS'' (defaultSharedProjectionWorkers cpus)\<rparr>"

section \<open>The stores behind the worker\<close>

record 'g Stores =
  st_Shared :: SharedDb
  st_Phases :: PhaseDb
  st_Graph :: 'g

definition on_shared :: "(SharedDb \<Rightarrow> 'a \<times> SharedDb) \<Rightarrow> 'g Stores \<Rightarrow> 'a \<times> 'g Stores" where
  "on_shared f w = (case f (st_Shared w) of (x, db) \<Rightarrow> (x, w\<lparr>st_Shared := db\<rparr>))"

definition on_graph :: "('g \<Rightarrow> 'a \<times> 'g) \<Rightarrow> 'g Stores \<Rightarrow> 'a \<times> 'g Stores" where
  "on_graph f w = (case f (st_Graph w) of (x, g) \<Rightarrow> (x, w\<lparr>st_Graph := g\<rparr>))"

definition store_leases :: "time \<Rightarrow> ('g Stores) LeaseManager" where
  "store_leases clock =
     \<lparr>lm_Claim = (\<lambda>d i n owner ttl. on_shared (ClaimPartitionLease clock d i n owner ttl)),
      lm_Release = (\<lambda>d i n owner. on_shared (ReleasePartitionLease clock d i n owner))\<rparr>"

definition store_sources :: "(string \<Rightarrow> string \<Rightarrow> int) \<Rightarrow> ('g Stores) Sources" where
  "store_sources collate =
     \<lparr>src_ListPending = (\<lambda>w d n. Inr (ListPendingDomainIntents collate d n (st_Shared w))),
      src_AcceptedGen = (\<lambda>w. NewAcceptedGenerationLookup (st_Shared w)),
      src_AcceptedPrefetch = Some (\<lambda>w. NewAcceptedGenerationPrefetch (st_Shared w)),
      src_Readiness = Some (\<lambda>w. ReadinessLookup (st_Phases w)),
      src_ReadinessPrefetch = Some (\<lambda>w keys phase. Inr (Some (ReadinessPrefetch (st_Phases w) keys phase)))\<rparr>"

definition store_mark :: "string list \<Rightarrow> time \<Rightarrow> 'g Stores \<Rightarrow> error option \<times> 'g Stores" where
  "store_mark ids now = on_shared (MarkIntentsCompleted ids now)"

definition graph_writer :: "'g EdgeWriter \<Rightarrow> ('g Stores) EdgeWriter" where
  "graph_writer ew =
     \<lparr>ew_Retract = (\<lambda>d rows source. on_graph (ew_Retract ew d rows source)),
      ew_Write = (\<lambda>d rows source. on_graph (ew_Write ew d rows source))\<rparr>"

text \<open>
  \<open>clock\<close> is what the lease statements read as the current time; \<open>canceled\<close> the state of the
  context at each scan limit of the selection.
\<close>

definition processPartition ::
  "nat \<Rightarrow> (string \<Rightarrow> string \<Rightarrow> int) \<Rightarrow> SharedProjectionRunnerConfig \<Rightarrow> 'g EdgeWriter \<Rightarrow> (int \<Rightarrow> error option)
   \<Rightarrow> time \<Rightarrow> time \<Rightarrow> string \<Rightarrow> int \<Rightarrow> int \<Rightarrow> 'g Stores
   \<Rightarrow> ((PartitionProcessResult \<times> error option) \<times> 'g Stores) option" where
  "processPartition fuel collate cfg ew canceled clock now domain partitionID parts w =
     ProcessPartitionOnce fuel now
       \<lparr>ppc_Domain = domain, ppc_PartitionID = partitionID, ppc_PartitionCount = parts,
        ppc_LeaseOwner = leaseOwner cfg, ppc_LeaseTTL = leaseTTL cfg, ppc_BatchLimit = batchLimit cfg,
        ppc_EvidenceSource = evidenceSource cfg\<rparr>
       (store_leases clock) (store_sources collate) store_mark (graph_writer ew) canceled w"

section \<open>Cycles\<close>

definition mergePartitionProcessResult :: "PartitionProcessResult \<Rightarrow> PartitionProcessResult \<Rightarrow> PartitionProcessResult" where
  "mergePartitionProcessResult acc result =
     acc\<lparr>ppr_ProcessedIntents := ppr_ProcessedIntents acc + ppr_ProcessedIntents result,
       ppr_BlockedReadiness := ppr_BlockedReadiness acc + ppr_BlockedReadiness result,
       ppr_MaxBlockedIntentWait := max (ppr_MaxBlockedIntentWait acc) (ppr_MaxBlockedIntentWait result)\<rparr>"

definition cycle_work :: "int \<Rightarrow> (string \<times> int) list" where
  "cycle_work parts = concat (map (\<lambda>d. map (\<lambda>i. (d, int i)) [0..<nat parts]) sharedProjectionDomains)"

text \<open>\<open>stop\<close> is \<open>ctx.Err() != nil\<close> before the partition of that number; a failed partition is skipped.\<close>

fun cycle_partitions ::
  "('w \<Rightarrow> string \<Rightarrow> int \<Rightarrow> ((PartitionProcessResult \<times> error option) \<times> 'w) option) \<Rightarrow> (nat \<Rightarrow> bool) \<Rightarrow> nat
   \<Rightarrow> (string \<times> int) list \<Rightarrow> PartitionProcessResult \<Rightarrow> 'w \<Rightarrow> (PartitionProcessResult \<times> 'w) option" where
  "cycle_partitions process stop k [] acc w = Some (acc, w)"
| "cycle_partitions process stop k ((d, i) # work) acc w =
     (if stop k then Some (acc, w)
      else
        (case process w d i of
           None \<Rightarrow> None
         | Some ((result, Some e), w') \<Rightarrow> cycle_partitions process stop (Suc k) work acc w'
         | Some ((result, None), w') \<Rightarrow>
             cycle_partitions process stop (Suc k) work (mergePartitionProcessResult acc result) w'))"

definition runOneCycleSequential ::
  "nat \<Rightarrow> (string \<Rightarrow> string \<Rightarrow> int) \<Rightarrow> SharedProjectionRunnerConfig \<Rightarrow> 'g EdgeWriter \<Rightarrow> (int \<Rightarrow> error option)
   \<Rightarrow> (nat \<Rightarrow> bool) \<Rightarrow> time \<Rightarrow> time \<Rightarrow> 'g Stores \<Rightarrow> (PartitionProcessResult \<times> 'g Stores) option" where
  "runOneCycleSequential fuel collate cfg ew canceled stop clock now w =
     cycle_partitions
       (\<lambda>w d i. processPartition fuel collate cfg ew canceled clock now d i (partitionCount cfg) w)
       stop 0 (cycle_work (partitionCount cfg)) (no_work False) w"

text \<open>
  What the loop of \<open>Run\<close> does after a cycle: how long it waits (\<open>None\<close>: not at all) and its
  count of consecutive empty cycles.
\<close>

definition empty_backoff :: "duration \<Rightarrow> nat \<Rightarrow> duration" where
  "empty_backoff interval empties =
     (let b = ((\<lambda>d. wrap64 (d * 2)) ^^ (min empties 4 - 1)) interval
      in if b > maxSharedPollInterval then maxSharedPollInterval else b)"

definition after_cycle ::
  "SharedProjectionRunnerConfig \<Rightarrow> PartitionProcessResult \<Rightarrow> nat \<Rightarrow> duration option \<times> nat" where
  "after_cycle cfg result empties =
     (if 0 < ppr_ProcessedIntents result then (None, 0)
      else if 0 < ppr_BlockedReadiness result then (Some (pollInterval cfg), 0)
      else (Some (empty_backoff (pollInterval cfg) (Suc empties)), Suc empties))"

definition Runner_validate :: "bool \<Rightarrow> bool \<Rightarrow> bool \<Rightarrow> error option" where
  "Runner_validate has_reader has_leases has_writer = first_err
     [check (\<not> has_reader) (Required ''shared projection runner: intent reader''),
      check (\<not> has_leases) (Required ''shared projection runner: lease manager''),
      check (\<not> has_writer) (Required ''shared projection runner: edge writer'')]"

section \<open>What a cycle completes\<close>

text \<open>
  Why a cycle may complete a pending intent: the accepted generation has moved on, or a later
  intent of the same slice replaces it, or it is one of the \<open>rows\<close> the writer was given, ready.
\<close>

definition settled :: "'g Stores \<Rightarrow> string \<Rightarrow> IntentRow list \<Rightarrow> IntentRow \<Rightarrow> bool" where
  "settled w domain rows r \<longleftrightarrow>
     (let accepted = NewAcceptedGenerationLookup (st_Shared w) in
      is_stale accepted r
      \<or> is_current accepted r
        \<and> ((\<exists>l \<in> set (sd_Intents (st_Shared w)). l \<noteq> r \<and> is_current accepted l \<and> slice_of l = slice_of r
              \<and> cmp_intents r l \<le> 0)
           \<or> r \<in> set rows
             \<and> (\<forall>phase. sharedProjectionReadinessPhase domain = Some phase
                  \<longrightarrow> (\<exists>keys. has_phase phase (ReadinessPrefetch (st_Phases w) keys phase) r))))"

definition pending_in :: "string \<Rightarrow> int \<Rightarrow> int \<Rightarrow> IntentRow \<Rightarrow> bool" where
  "pending_in domain i n r \<longleftrightarrow>
     si_ProjectionDomain r = domain \<and> si_CompletedAt r = None \<and> PartitionForKey (si_PartitionKey r) n = Inr i"

definition intents_ok :: "SharedDb \<Rightarrow> bool" where
  "intents_ok db \<longleftrightarrow> distinct (map si_IntentID (sd_Intents db))"

lemma same_id:
  "distinct (map si_IntentID rows) \<Longrightarrow> x \<in> set rows \<Longrightarrow> y \<in> set rows \<Longrightarrow> si_IntentID x = si_IntentID y \<Longrightarrow> x = y"
  by (metis (no_types) distinct_map inj_onD)

lemma superseded_newer:
  assumes "LatestIntentsByRepoAndPartition rows = (latest, superseded)" and "distinct (map si_IntentID rows)"
    and "r \<in> set rows" and "si_IntentID r \<in> set superseded"
  shows "\<exists>l \<in> set latest. l \<noteq> r \<and> slice_of l = slice_of r \<and> cmp_intents r l \<le> 0"
proof -
  note l = latest_of_sorted [OF assms(1), unfolded latest_of_def]
  have sorted: "mset (map si_IntentID (sort_by cmp_intents rows)) = mset (map si_IntentID rows)"
    by (metis mset_map mset_sort_by)
  have split: "mset (map si_IntentID rows) = mset (map si_IntentID latest) + mset superseded"
    using l sorted by simp
  have "distinct (map si_IntentID latest @ superseded)"
    using assms(2) split by (metis mset_append mset_eq_imp_distinct_iff)
  with assms(4) have "r \<notin> set latest" by auto
  moreover have "slice_of r \<in> slice_of ` set latest" using l assms(3) by auto
  ultimately obtain x where "x \<in> set latest" "slice_of x = slice_of r" "x \<noteq> r" by (metis imageE)
  moreover from this l assms(3) have "cmp_intents r x \<le> 0" by auto
  ultimately show ?thesis by auto
qed

lemma sound_batch_settles:
  assumes b: "sound_batch (store_sources collate) w domain limit rows b" and ok: "intents_ok (st_Shared w)"
    and listed: "set rows \<subseteq> set (sd_Intents (st_Shared w))" and dist: "distinct (map si_IntentID rows)"
    and r: "r \<in> set (sd_Intents (st_Shared w))" "si_IntentID r \<in> set (processed_ids b)"
  shows "r \<in> set rows \<and> settled w domain (pb_LatestRows b) r"
proof -
  let ?acc = "NewAcceptedGenerationLookup (st_Shared w)"
  from b obtain lookup latest where g: "NewAcceptedGenerationPrefetch (st_Shared w) rows = Inr lookup"
    and l: "LatestIntentsByRepoAndPartition (filter (is_current lookup) rows) = (latest, pb_SupersededIDs b)"
    and stale: "pb_StaleIDs b = map si_IntentID (filter (is_stale lookup) rows)"
    and sub: "set (pb_LatestRows b) \<subseteq> set latest"
    and ready: "\<And>phase used x. sharedProjectionReadinessPhase domain = Some phase \<Longrightarrow> latest \<noteq> []
        \<Longrightarrow> readiness_used (store_sources collate) w phase latest = Inr (Some used)
        \<Longrightarrow> x \<in> set (pb_LatestRows b) \<Longrightarrow> has_phase phase used x"
    by (auto simp: sound_batch_def generations_used_def store_sources_def)
  note cur = current_prefetch [OF g]
  have here: "x = r" if "x \<in> set rows" "si_IntentID x = si_IntentID r" for x
    using same_id [OF ok [unfolded intents_ok_def], of x r] that listed r(1) by auto
  have latest: "set latest \<subseteq> {x \<in> set rows. is_current ?acc x}"
    using latest_of_sorted [OF l] cur by (auto simp: latest_of_def)
  consider "si_IntentID r \<in> set (pb_StaleIDs b)" | "si_IntentID r \<in> set (pb_SupersededIDs b)"
    | "si_IntentID r \<in> si_IntentID ` set (pb_LatestRows b)"
    using r(2) by (auto simp: processed_ids_def)
  then show ?thesis
  proof cases
    case 1
    then have "r \<in> set rows" and "is_stale ?acc r" using stale cur(2) here by auto
    then show ?thesis by (simp add: settled_def Let_def)
  next
    case 2
    have d: "distinct (map si_IntentID (filter (is_current lookup) rows))" using dist by (simp add: distinct_map_filter)
    have "set (pb_SupersededIDs b) \<subseteq> si_IntentID ` set (filter (is_current lookup) rows)"
      using latest_of_sorted [OF l] unfolding latest_of_def
      by (metis mset_map mset_sort_by set_map set_mset_mset set_mset_union Un_upper2)
    with 2 here have r': "r \<in> set (filter (is_current lookup) rows)" by auto
    from superseded_newer [OF l d r' 2] obtain x where "x \<in> set latest" "x \<noteq> r" "slice_of x = slice_of r"
      "cmp_intents r x \<le> 0" by auto
    moreover from this latest listed have "x \<in> set (sd_Intents (st_Shared w))" and "is_current ?acc x" by auto
    ultimately have "settled w domain (pb_LatestRows b) r"
      using r' cur(1) by (auto simp: settled_def Let_def)
    with r' show ?thesis by simp
  next
    case 3
    then obtain x where x: "x \<in> set (pb_LatestRows b)" "si_IntentID x = si_IntentID r" by auto
    with sub latest here have "x = r" and r': "r \<in> set rows" "is_current ?acc r" "r \<in> set (pb_LatestRows b)" by auto
    have "\<exists>keys. has_phase phase (ReadinessPrefetch (st_Phases w) keys phase) r"
      if "sharedProjectionReadinessPhase domain = Some phase" for phase
    proof (rule exI [of _ "readiness_keys latest"], rule ready [OF that _ _ r'(3)])
      show "latest \<noteq> []" using sub r'(3) by auto
    qed (simp add: readiness_used_def store_sources_def)
    with r' show ?thesis by (auto simp: settled_def Let_def)
  qed
qed

text \<open>The worker on the batch: it completes the batch's identifiers or, on an error, nothing.\<close>

lemma process_batch_effect:
  assumes "process_batch now cfg (graph_writer ew) store_mark b w = ((res, err), w')"
  obtains ids where "st_Shared w' = (st_Shared w)\<lparr>sd_Intents := complete ids now (sd_Intents (st_Shared w))\<rparr>"
    and "st_Phases w' = st_Phases w" and "ppr_LeaseAcquired res"
    and "ids = {} \<or> err = None \<and> ids = set (processed_ids b)
      \<and> (\<exists>source g. ew_Retract ew (ppc_Domain cfg) (pb_LatestRows b) source (st_Graph w) = (None, g)
           \<and> ew_Write ew (ppc_Domain cfg) (filterUpsertRows (pb_LatestRows b)) source g = (None, st_Graph w'))"
    and "err = None \<Longrightarrow> processed_ids b \<noteq> [] \<Longrightarrow> ids = set (processed_ids b)"
proof -
  note found = that
  have idle: thesis if "st_Shared w' = st_Shared w" "st_Phases w' = st_Phases w" "ppr_LeaseAcquired res"
      "err = None \<Longrightarrow> processed_ids b = []"
    using that by (intro found [of "{}"]) auto
  show thesis
  proof (cases "processed_ids b = []")
    case True
    show thesis
      by (rule idle) (use assms True in \<open>auto simp: process_batch_def processed_ids_def no_work_def\<close>)
  next
    case False
    let ?source = "if ppc_EvidenceSource cfg = [] then ''finalization/workloads'' else ppc_EvidenceSource cfg"
    obtain e1 g1 where r: "ew_Retract ew (ppc_Domain cfg) (pb_LatestRows b) ?source (st_Graph w) = (e1, g1)"
      by (cases "ew_Retract ew (ppc_Domain cfg) (pb_LatestRows b) ?source (st_Graph w)")
    obtain e2 g2 where u: "ew_Write ew (ppc_Domain cfg) (filterUpsertRows (pb_LatestRows b)) ?source g1 = (e2, g2)"
      by (cases "ew_Write ew (ppc_Domain cfg) (filterUpsertRows (pb_LatestRows b)) ?source g1")
    have ne: "\<not> (pb_LatestRows b = [] \<and> pb_StaleIDs b = [] \<and> pb_SupersededIDs b = [])"
      using False by (auto simp: processed_ids_def)
    note defs = process_batch_def graph_writer_def on_graph_def store_mark_def on_shared_def MarkIntentsCompleted_eq
      Let_def no_work_def
    show thesis
    proof (cases "e1 = None \<and> e2 = None")
      case True
      with assms r u ne False have "err = None"
        and w': "w' = w\<lparr>st_Graph := g2, st_Shared := (st_Shared w)\<lparr>sd_Intents :=
          complete (set (processed_ids b)) now (sd_Intents (st_Shared w))\<rparr>\<rparr>" and "ppr_LeaseAcquired res"
        by (auto simp: defs)
      show thesis
        by (rule found [of "set (processed_ids b)"])
          (use True r u w' \<open>err = None\<close> \<open>ppr_LeaseAcquired res\<close> in auto)
    next
      case False
      show thesis
        by (rule idle) (use False assms r u ne \<open>processed_ids b \<noteq> []\<close> in \<open>auto simp: defs split: option.splits\<close>)
    qed
  qed
qed

lemma claim_keeps_tables:
  assumes "ClaimPartitionLease now d i n p ttl db = (x, db')"
  shows "sd_Intents db' = sd_Intents db" and "sd_Acceptance db' = sd_Acceptance db"
  using assms by (auto simp: ClaimPartitionLease_def Let_def split: if_splits option.splits)

lemma release_keeps_tables:
  assumes "ReleasePartitionLease now d i n p db = (x, db')"
  shows "sd_Intents db' = sd_Intents db" and "sd_Acceptance db' = sd_Acceptance db"
  using assms by (auto simp: ReleasePartitionLease_def split: if_splits)

lemma settled_cong:
  assumes "sd_Intents (st_Shared w) = sd_Intents (st_Shared w')" and "sd_Acceptance (st_Shared w) = sd_Acceptance (st_Shared w')"
    and "st_Phases w = st_Phases w'"
  shows "settled w domain rows r = settled w' domain rows r"
proof -
  have "NewAcceptedGenerationLookup (st_Shared w) = NewAcceptedGenerationLookup (st_Shared w')"
    by (rule ext) (simp add: NewAcceptedGenerationLookup_def Acceptance_Lookup_def assms(2))
  then show ?thesis unfolding settled_def by (simp add: assms)
qed

text \<open>The cycle between the claim and the release.\<close>

lemma selected_cycle:
  assumes sel: "SelectPartitionBatch fuel (store_sources collate) canceled w domain i n limit = Some (Inr b)"
    and "1 \<le> limit" and ok: "intents_ok (st_Shared w)"
    and r: "r \<in> set (sd_Intents (st_Shared w))" "si_IntentID r \<in> set (processed_ids b)"
  shows "pending_in domain i n r \<and> settled w domain (pb_LatestRows b) r"
proof -
  from sel \<open>1 \<le> limit\<close> have "select_loop fuel (store_sources collate) canceled w domain i n limit (first_scan_limit limit n) = Some (Inr b)"
    by (simp add: SelectPartitionBatch_def Let_def)
  from select_loop_sound [OF this \<open>1 \<le> limit\<close>] obtain k where
    "b = empty_batch \<or> sound_batch (store_sources collate) w domain limit
       (RowsForPartition (ListPendingDomainIntents collate domain k (st_Shared w)) i n) b"
    by (auto simp: store_sources_def)
  moreover from r(2) have "b \<noteq> empty_batch" by (auto simp: processed_ids_def empty_batch_def)
  ultimately have b: "sound_batch (store_sources collate) w domain limit
       (RowsForPartition (ListPendingDomainIntents collate domain k (st_Shared w)) i n) b" by simp
  let ?rows = "RowsForPartition (ListPendingDomainIntents collate domain k (st_Shared w)) i n"
  have rows: "x \<in> set (sd_Intents (st_Shared w)) \<and> pending_in domain i n x" if "x \<in> set ?rows" for x
    using that list_rows_mem
    by (fastforce simp: RowsForPartition_mem ListPendingDomainIntents_def pending_in_def)
  have "distinct (map si_IntentID ?rows)"
    using list_rows_distinct ok unfolding RowsForPartition_def ListPendingDomainIntents_def intents_ok_def
    by (simp add: distinct_map_filter)
  from sound_batch_settles [OF b ok _ this r] rows show ?thesis by auto
qed

lemma selection_error_or_batch:
  assumes "1 \<le> limit" and "limit < 2 ^ 31" and "n < 2 ^ 31" and "scan_fuel \<le> fuel"
  obtains (failed) e where "SelectPartitionBatch fuel src canceled w domain i n limit = Some (Inl e)"
  | (batch) b where "SelectPartitionBatch fuel src canceled w domain i n limit = Some (Inr b)"
proof -
  have "SelectPartitionBatch fuel src canceled w domain i n limit \<noteq> None"
    by (rule selection_returns) (use assms first_scan_limit_positive [of limit n] in auto)
  then obtain out where "SelectPartitionBatch fuel src canceled w domain i n limit = Some out" by auto
  then show thesis using failed batch by (cases out) auto
qed

text \<open>
  A cycle keeps the tables but for what it completes, and gives its lease back; what it completes
  was pending in its partition and settled, the rows it wrote among them.
\<close>

definition settled_cycle ::
  "'g EdgeWriter \<Rightarrow> time \<Rightarrow> string \<Rightarrow> int \<Rightarrow> int \<Rightarrow> 'g Stores \<Rightarrow> PartitionProcessResult \<Rightarrow> error option
   \<Rightarrow> 'g Stores \<Rightarrow> bool" where
  "settled_cycle ew now domain i n w res err w' \<longleftrightarrow>
     (\<exists>ids rows. sd_Intents (st_Shared w') = complete ids now (sd_Intents (st_Shared w))
        \<and> sd_Acceptance (st_Shared w') = sd_Acceptance (st_Shared w)
        \<and> (err \<noteq> None \<longrightarrow> ids = {})
        \<and> (ids \<noteq> {} \<longrightarrow>
             (\<exists>source g. ew_Retract ew domain rows source (st_Graph w) = (None, g)
                \<and> ew_Write ew domain (filterUpsertRows rows) source g = (None, st_Graph w')))
        \<and> (\<forall>r \<in> set (sd_Intents (st_Shared w)). si_IntentID r \<in> ids
             \<longrightarrow> pending_in domain i n r \<and> settled w domain rows r))
     \<and> (ppr_LeaseAcquired res \<longrightarrow> lease_holder (st_Shared w') (domain, i, n) = None)"

lemma settled_cycle_nothing:
  assumes "sd_Intents (st_Shared w') = sd_Intents (st_Shared w)" and "sd_Acceptance (st_Shared w') = sd_Acceptance (st_Shared w)"
    and "ppr_LeaseAcquired res \<longrightarrow> lease_holder (st_Shared w') (domain, i, n) = None"
  shows "settled_cycle ew now domain i n w res err w'"
  unfolding settled_cycle_def
  by (rule conjI, rule exI [of _ "{}"], rule exI [of _ "[]"]) (use assms in simp_all)

lemma settled_cycle_batch:
  assumes "sd_Intents (st_Shared w') = complete ids now (sd_Intents (st_Shared w))"
    and "sd_Acceptance (st_Shared w') = sd_Acceptance (st_Shared w)"
    and "lease_holder (st_Shared w') (domain, i, n) = None"
    and "ids = {} \<or> err = None \<and> ids = set (processed_ids b)
      \<and> (\<exists>source g. ew_Retract ew domain (pb_LatestRows b) source (st_Graph w) = (None, g)
           \<and> ew_Write ew domain (filterUpsertRows (pb_LatestRows b)) source g = (None, st_Graph w'))"
    and "\<And>r. r \<in> set (sd_Intents (st_Shared w)) \<Longrightarrow> si_IntentID r \<in> set (processed_ids b)
      \<Longrightarrow> pending_in domain i n r \<and> settled w domain (pb_LatestRows b) r"
  shows "settled_cycle ew now domain i n w res err w'"
  unfolding settled_cycle_def
proof (intro conjI exI [of _ ids] exI [of _ "pb_LatestRows b"])
  show "\<forall>r \<in> set (sd_Intents (st_Shared w)). si_IntentID r \<in> ids
      \<longrightarrow> pending_in domain i n r \<and> settled w domain (pb_LatestRows b) r"
    using assms(4,5) by blast
qed (use assms(1-4) in auto)

lemma lease_returned:
  assumes claim: "ClaimPartitionLease clock d i n p ttl db = (Inr True, db1)"
    and "sd_Leases db2 = sd_Leases db1" and "ReleasePartitionLease clock d i n p db2 = (x, db3)"
  shows "lease_holder db3 (d, i, n) = None"
proof -
  have "fst (claim_op clock (d, i, n) p ttl db) = Inr True" using claim by (simp add: claim_op_def)
  from partition_leases.claimed [OF this]
  have "lease_holder db1 (d, i, n) = Some (p, clock + ttl)" using claim by (simp add: claim_op_def)
  then have "lease_holder db2 (d, i, n) = Some (p, clock + ttl)" by (simp add: lease_holder_def assms(2))
  moreover have "integer_fits i \<and> integer_fits n" using claim by (auto simp: ClaimPartitionLease_def Let_def split: if_splits)
  then have "fst (release_op clock (d, i, n) p db2) = None" by (simp add: release_op_def ReleasePartitionLease_def)
  ultimately have "lease_holder (snd (release_op clock (d, i, n) p db2)) (d, i, n) = None" by (rule release_op_frees)
  then show ?thesis using assms(3) by (simp add: release_op_def)
qed

lemma process_not_claimed:
  assumes "ClaimPartitionLease clock domain i n (leaseOwner cfg) (leaseTTL cfg) (st_Shared w) = (got, db)"
    and "got \<noteq> Inr True"
  shows "\<exists>res err w'. processPartition fuel collate cfg ew canceled clock now domain i n w = Some ((res, err), w')
    \<and> settled_cycle ew now domain i n w res err w'"
proof -
  have "\<exists>res err. processPartition fuel collate cfg ew canceled clock now domain i n w = Some ((res, err), w\<lparr>st_Shared := db\<rparr>)
      \<and> \<not> ppr_LeaseAcquired res"
    using assms
    by (cases got) (auto simp: processPartition_def ProcessPartitionOnce_def store_leases_def on_shared_def no_work_def)
  then show ?thesis using claim_keeps_tables [OF assms(1)] by (auto intro!: settled_cycle_nothing)
qed

lemma process_claimed:
  assumes claim: "ClaimPartitionLease clock domain i n (leaseOwner cfg) (leaseTTL cfg) (st_Shared w) = (Inr True, db)"
    and ok: "intents_ok (st_Shared w)" and "sp_BatchLimit cfg < 2 ^ 31" and "n < 2 ^ 31" and "scan_fuel \<le> fuel"
  shows "\<exists>res err w'. processPartition fuel collate cfg ew canceled clock now domain i n w = Some ((res, err), w')
    \<and> settled_cycle ew now domain i n w res err w'"
proof -
  let ?cfg = "\<lparr>ppc_Domain = domain, ppc_PartitionID = i, ppc_PartitionCount = n, ppc_LeaseOwner = leaseOwner cfg,
    ppc_LeaseTTL = leaseTTL cfg, ppc_BatchLimit = batchLimit cfg, ppc_EvidenceSource = evidenceSource cfg\<rparr>"
  let ?w1 = "w\<lparr>st_Shared := db\<rparr>"
  let ?free = "\<lambda>w. snd (on_shared (ReleasePartitionLease clock domain i n (leaseOwner cfg)) w)"
  have limit: "1 \<le> batchLimit cfg" "batchLimit cfg < 2 ^ 31"
    using assms(3) by (auto simp: batchLimit_def defaultBatchLimit_def)
  note keep = claim_keeps_tables [OF claim]
  have free: "sd_Intents (st_Shared (?free v)) = sd_Intents (st_Shared v)"
      "sd_Acceptance (st_Shared (?free v)) = sd_Acceptance (st_Shared v)" "st_Graph (?free v) = st_Graph v" for v
    using release_keeps_tables [of clock domain i n "leaseOwner cfg" "st_Shared v"]
    by (auto simp: on_shared_def split: prod.split)
  have freed: "lease_holder (st_Shared (?free v)) (domain, i, n) = None" if "sd_Leases (st_Shared v) = sd_Leases db" for v
    using lease_returned [OF claim that] by (auto simp: on_shared_def split: prod.split)
  have process: "processPartition fuel collate cfg ew canceled clock now domain i n w =
     (case SelectPartitionBatch fuel (store_sources collate) canceled ?w1 domain i n (batchLimit cfg) of
        None \<Rightarrow> None
      | Some (Inl e) \<Rightarrow> Some ((no_work True, Some (Wrap ''select batch'' e)), ?free ?w1)
      | Some (Inr b) \<Rightarrow>
          (case process_batch now ?cfg (graph_writer ew) store_mark b ?w1 of (out, w') \<Rightarrow> Some (out, ?free w')))"
    using claim limit(1)
    by (simp add: processPartition_def ProcessPartitionOnce_def store_leases_def on_shared_def Let_def
        split: option.split sum.split prod.split)
  consider (failed) e where "SelectPartitionBatch fuel (store_sources collate) canceled ?w1 domain i n (batchLimit cfg) = Some (Inl e)"
    | (batch) b where "SelectPartitionBatch fuel (store_sources collate) canceled ?w1 domain i n (batchLimit cfg) = Some (Inr b)"
    by (rule selection_error_or_batch [OF limit assms(4,5)])
  then show ?thesis
  proof cases
    case (failed e)
    have "settled_cycle ew now domain i n w (no_work True) (Some (Wrap ''select batch'' e)) (?free ?w1)"
      by (rule settled_cycle_nothing) (simp_all add: free keep freed)
    then show ?thesis using process failed by simp
  next
    case (batch b)
    obtain res err w2 where p: "process_batch now ?cfg (graph_writer ew) store_mark b ?w1 = ((res, err), w2)"
      by (metis prod.exhaust)
    obtain ids where
      s: "st_Shared w2 = db\<lparr>sd_Intents := complete ids now (sd_Intents db)\<rparr>" and
      i: "ids = {} \<or> err = None \<and> ids = set (processed_ids b)
        \<and> (\<exists>source g. ew_Retract ew domain (pb_LatestRows b) source (st_Graph w) = (None, g)
             \<and> ew_Write ew domain (filterUpsertRows (pb_LatestRows b)) source g = (None, st_Graph w2))"
    proof (rule process_batch_effect [OF p])
      fix ids
      assume a: "st_Shared w2 = (st_Shared ?w1)\<lparr>sd_Intents := complete ids now (sd_Intents (st_Shared ?w1))\<rparr>"
        and c: "ids = {} \<or> err = None \<and> ids = set (processed_ids b)
          \<and> (\<exists>source g. ew_Retract ew (ppc_Domain ?cfg) (pb_LatestRows b) source (st_Graph ?w1) = (None, g)
               \<and> ew_Write ew (ppc_Domain ?cfg) (filterUpsertRows (pb_LatestRows b)) source g = (None, st_Graph w2))"
      show thesis by (rule that [of ids]) (use a c in simp_all)
    qed
    have settles: "pending_in domain i n r \<and> settled w domain (pb_LatestRows b) r"
      if r: "r \<in> set (sd_Intents (st_Shared w))" "si_IntentID r \<in> set (processed_ids b)" for r
    proof -
      have "pending_in domain i n r \<and> settled ?w1 domain (pb_LatestRows b) r"
        by (rule selected_cycle [OF batch limit(1)]) (use r keep ok in \<open>simp_all add: intents_ok_def\<close>)
      moreover have "settled ?w1 domain (pb_LatestRows b) r = settled w domain (pb_LatestRows b) r"
        by (rule settled_cong) (simp_all add: keep)
      ultimately show ?thesis by simp
    qed
    have "settled_cycle ew now domain i n w res err (?free w2)"
    proof (rule settled_cycle_batch)
      show "sd_Intents (st_Shared (?free w2)) = complete ids now (sd_Intents (st_Shared w))"
        using s by (simp add: free keep)
      show "sd_Acceptance (st_Shared (?free w2)) = sd_Acceptance (st_Shared w)"
        using s by (simp add: free keep)
      show "lease_holder (st_Shared (?free w2)) (domain, i, n) = None"
        by (rule freed) (simp add: s)
      show "ids = {} \<or> err = None \<and> ids = set (processed_ids b)
        \<and> (\<exists>source g. ew_Retract ew domain (pb_LatestRows b) source (st_Graph w) = (None, g)
             \<and> ew_Write ew domain (filterUpsertRows (pb_LatestRows b)) source g = (None, st_Graph (?free w2)))"
        using i by (simp add: free)
    qed (rule settles)
    then show ?thesis using process batch p by simp
  qed
qed


definition example_stores :: "unit Stores" where
  "example_stores = \<lparr>st_Shared = example_shared\<lparr>sd_Intents := [example_intent ''g'']\<rparr>,
     st_Phases = \<lparr>db_Scopes = [], db_Generations = [], db_States = [], db_Repairs = []\<rparr>, st_Graph = ()\<rparr>"

definition silent_writer :: "unit EdgeWriter" where
  "silent_writer = \<lparr>ew_Retract = (\<lambda>_ _ _ g. (None, g)), ew_Write = (\<lambda>_ _ _ g. (None, g))\<rparr>"


section \<open>Replicas\<close>

lemma claim_same_owner:
  assumes "fst (claim_op now key p ttl db) = Inr True"
  shows "fst (claim_op now' key p ttl' (snd (claim_op now key p ttl db))) = Inr True"
proof -
  obtain d i n where key: "key = (d, i, n)" by (cases key)
  have fits: "integer_fits i" "integer_fits n"
    using assms by (auto simp: key claim_op_def ClaimPartitionLease_def Let_def split: if_splits)
  let ?db = "snd (claim_op now key p ttl db)"
  have "lease_holder ?db key = Some (p, now + ttl)" by (rule partition_leases.claimed [OF assms])
  then obtain r where "find (\<lambda>r. lease_key r = (d, i, n)) (sd_Leases ?db) = Some r" and "lr_Owner r = Some p"
    by (auto simp: lease_holder_def key split: option.splits)
  then show ?thesis
    using fits by (simp add: claim_op_def [of now'] key ClaimPartitionLease_def Let_def lease_free_def)
qed

text \<open>
  Two reducer processes configured from the environment present the same lease owner, so the
  lease of one does not keep the other out: whenever one has claimed a partition, the other's claim
  succeeds at once, however much of the lease's time is left.
\<close>

theorem replicas_share_lease:
  assumes "fst (claim_op now key (leaseOwner (LoadSharedProjectionConfig cpus getenv)) ttl db) = Inr True"
  shows "fst (claim_op now' key (leaseOwner (LoadSharedProjectionConfig cpus' getenv')) ttl'
      (snd (claim_op now key (leaseOwner (LoadSharedProjectionConfig cpus getenv)) ttl db))) = Inr True"
proof -
  have "leaseOwner (LoadSharedProjectionConfig c e) = ''shared-projection-runner''" for c e
    by (simp add: LoadSharedProjectionConfig_def leaseOwner_def)
  with assms show ?thesis by (simp add: claim_same_owner)
qed

theorem replicas_share_lease_witness:
  "let owner = leaseOwner (LoadSharedProjectionConfig 2 (\<lambda>_. [])); key = (''platform_infra'', 0, 8)
   in fst (claim_op 11 key owner 60 (snd (claim_op 10 key owner 60 example_shared))) = Inr True"
  using replicas_share_lease [of 10 "(''platform_infra'', 0, 8)" 2 "\<lambda>_. []" 60 example_shared 11 2 "\<lambda>_. []" 60]
  by (simp add: Let_def claim_op_def ClaimPartitionLease_def example_shared_def integer_fits_def)

section \<open>A backlog the scan cannot pass\<close>

lemma select_rows_none_current:
  assumes "\<forall>r \<in> set rows. \<not> is_current (NewAcceptedGenerationLookup (st_Shared w)) r" and "1 \<le> limit"
  shows "select_rows (store_sources collate) w domain limit rows False = Inr None"
proof -
  obtain lookup where g: "NewAcceptedGenerationPrefetch (st_Shared w) rows = Inr lookup"
    by (auto simp: NewAcceptedGenerationPrefetch_def Let_def)
  have "filter (is_current lookup) rows = []"
    using current_prefetch(1) [OF g] assms(1) by (simp add: filter_empty_conv)
  moreover have "LatestIntentsByRepoAndPartition [] = ([], [])" by (simp add: LatestIntentsByRepoAndPartition_def)
  moreover have "filterRowsByReadiness domain [] f p = Inr ([], [])" for f p
    by (simp add: filterRowsByReadiness_def split: option.split)
  ultimately show ?thesis
    using g assms(2) by (simp add: select_rows_def store_sources_def filter_authoritative)
qed

lemma listed_full:
  assumes "1 \<le> k" and "k \<le> int (length (filter wanted (sd_Intents db)))"
  shows "int (length (list_rows collate wanted k db)) = k"
  using assms by (simp add: list_rows_def min_def max_def) linarith

lemma select_loop_stuck:
  assumes rows: "\<forall>r \<in> set (sd_Intents (st_Shared w)). \<not> is_current (NewAcceptedGenerationLookup (st_Shared w)) r"
    and backlog: "maxSharedSelectionScanLimit \<le> int (length (filter (\<lambda>r. si_ProjectionDomain r = domain \<and> si_CompletedAt r = None)
       (sd_Intents (st_Shared w))))"
    and "1 \<le> limit" and "1 \<le> scan" and "scan \<le> maxSharedSelectionScanLimit" and "\<And>k. canceled k = None"
    and "select_loop fuel (store_sources collate) canceled w domain i n limit scan = Some out"
  shows "out = Inl (scan_cap_error domain)"
  using assms(4-7)
proof (induction fuel arbitrary: scan)
  case (Suc fuel)
  let ?pending = "ListPendingDomainIntents collate domain scan (st_Shared w)"
  let ?rows = "RowsForPartition ?pending i n"
  have full: "int (length ?pending) = scan"
    unfolding ListPendingDomainIntents_def by (rule listed_full) (use Suc.prems(1,2) backlog in linarith)+
  have "set ?rows \<subseteq> set (sd_Intents (st_Shared w))"
    by (auto simp: RowsForPartition_mem ListPendingDomainIntents_def dest: list_rows_mem)
  with rows have none: "select_rows (store_sources collate) w domain limit ?rows False = Inr None"
    by (intro select_rows_none_current [OF _ assms(3)]) blast
  have list: "src_ListPending (store_sources collate) w domain scan = Inr ?pending"
    by (simp add: store_sources_def)
  have step: "select_loop (Suc fuel) (store_sources collate) canceled w domain i n limit scan =
      (if maxSharedSelectionScanLimit \<le> scan then Some (Inl (scan_cap_error domain))
       else select_loop fuel (store_sources collate) canceled w domain i n limit (next_limit scan))"
    using full none by (simp add: list Suc.prems(3) Let_def)
  show ?case
  proof (cases "maxSharedSelectionScanLimit \<le> scan")
    case True
    with Suc.prems(4) show ?thesis unfolding step by simp
  next
    case False
    have "1 \<le> next_limit scan" and "next_limit scan \<le> maxSharedSelectionScanLimit"
      using next_limit_doubles [OF Suc.prems(1,2)] Suc.prems(1) by (simp_all add: maxSharedSelectionScanLimit_def)
    moreover have "select_loop fuel (store_sources collate) canceled w domain i n limit (next_limit scan) = Some out"
      using Suc.prems(4) False unfolding step by simp
    ultimately show ?thesis using Suc.IH Suc.prems(3) by blast
  qed
qed simp

text \<open>
  A domain with ten thousand pending intents none of which carries the accepted generation
  cannot drain: every cycle that gets a lease fails at the scan cap and completes nothing, so the
  stale intents that fill the scan are never retired and the next cycle finds the same rows.
\<close>

theorem stale_backlog_blocks:
  assumes "\<forall>r \<in> set (sd_Intents (st_Shared w)). \<not> is_current (NewAcceptedGenerationLookup (st_Shared w)) r"
    and "10000 \<le> length (filter (\<lambda>r. si_ProjectionDomain r = domain \<and> si_CompletedAt r = None) (sd_Intents (st_Shared w)))"
    and "fst (claim_op clock (domain, i, n) (leaseOwner cfg) (leaseTTL cfg) (st_Shared w)) = Inr True"
    and "sp_BatchLimit cfg < 2 ^ 31" and "n < 2 ^ 31" and "scan_fuel \<le> fuel"
  shows "\<exists>w'. processPartition fuel collate cfg ew (\<lambda>_. None) clock now domain i n w
      = Some ((no_work True, Some (Wrap ''select batch'' (scan_cap_error domain))), w')
    \<and> sd_Intents (st_Shared w') = sd_Intents (st_Shared w)"
proof -
  obtain db where claim: "ClaimPartitionLease clock domain i n (leaseOwner cfg) (leaseTTL cfg) (st_Shared w) = (Inr True, db)"
    using assms(3) by (cases "ClaimPartitionLease clock domain i n (leaseOwner cfg) (leaseTTL cfg) (st_Shared w)")
      (simp add: claim_op_def)
  let ?w1 = "w\<lparr>st_Shared := db\<rparr>"
  note keep = claim_keeps_tables [OF claim]
  have limit: "1 \<le> batchLimit cfg" "batchLimit cfg < 2 ^ 31"
    using assms(4) by (auto simp: batchLimit_def defaultBatchLimit_def)
  have gen: "NewAcceptedGenerationLookup db = NewAcceptedGenerationLookup (st_Shared w)"
    by (rule ext) (simp add: NewAcceptedGenerationLookup_def Acceptance_Lookup_def keep)
  have "SelectPartitionBatch fuel (store_sources collate) (\<lambda>_. None) ?w1 domain i n (batchLimit cfg) \<noteq> None"
    by (rule selection_returns) (use limit assms(5,6) first_scan_limit_positive [of "batchLimit cfg" n] in auto)
  then obtain out where out: "SelectPartitionBatch fuel (store_sources collate) (\<lambda>_. None) ?w1 domain i n (batchLimit cfg) = Some out"
    by auto
  have "out = Inl (scan_cap_error domain)"
  proof (rule select_loop_stuck)
    show "select_loop fuel (store_sources collate) (\<lambda>_. None) ?w1 domain i n (batchLimit cfg) (first_scan_limit (batchLimit cfg) n) = Some out"
      using out limit(1) by (simp add: SelectPartitionBatch_def Let_def)
    show "1 \<le> first_scan_limit (batchLimit cfg) n"
      by (rule first_scan_limit_positive) (use limit assms(5) in simp_all)
    show "first_scan_limit (batchLimit cfg) n \<le> maxSharedSelectionScanLimit" by (rule first_scan_limit_range)
  qed (use assms(1,2) limit keep in \<open>simp_all add: gen maxSharedSelectionScanLimit_def\<close>)
  with out claim limit(1) have "\<exists>w'. processPartition fuel collate cfg ew (\<lambda>_. None) clock now domain i n w
      = Some ((no_work True, Some (Wrap ''select batch'' (scan_cap_error domain))), w')
    \<and> w' = snd (on_shared (ReleasePartitionLease clock domain i n (leaseOwner cfg)) ?w1)"
    by (simp add: processPartition_def ProcessPartitionOnce_def store_leases_def on_shared_def Let_def)
  moreover have "sd_Intents (st_Shared (snd (on_shared (ReleasePartitionLease clock domain i n (leaseOwner cfg)) ?w1)))
      = sd_Intents (st_Shared w)"
    using release_keeps_tables [of clock domain i n "leaseOwner cfg" db] keep by (auto simp: on_shared_def split: prod.split)
  ultimately show ?thesis by blast
qed

definition backlog_stores :: "unit Stores" where
  "backlog_stores = example_stores\<lparr>st_Shared := example_shared
     \<lparr>sd_Intents := map (\<lambda>k. (example_intent ''old'')\<lparr>si_IntentID := show_nat k\<rparr>) [0..<10000],
      sd_Acceptance := [\<lparr>ar_ScopeID = ''s'', ar_AcceptanceUnitID = ''u'', ar_SourceRunID = ''run'',
        ar_GenerationID = ''new'', ar_AcceptedAt = 5, ar_UpdatedAt = 5\<rparr>]\<rparr>\<rparr>"

theorem stale_backlog_blocks_witness:
  "\<exists>w'. processPartition 15 compare (LoadSharedProjectionConfig 2 (\<lambda>_. [])) silent_writer (\<lambda>_. None) 3 4
      ''platform_infra'' 0 8 backlog_stores
      = Some ((no_work True, Some (Wrap ''select batch'' (scan_cap_error ''platform_infra''))), w')
    \<and> sd_Intents (st_Shared w') = sd_Intents (st_Shared backlog_stores)"
proof (rule stale_backlog_blocks)
  let ?db = "st_Shared backlog_stores"
  have trims: "trim_space ''s'' = ''s''" "trim_space ''u'' = ''u''" "trim_space ''run'' = ''run''"
    by (rule trim_space_solid, simp add: solid_simps)+
  show "\<forall>r \<in> set (sd_Intents ?db). \<not> is_current (NewAcceptedGenerationLookup ?db) r"
    by (auto simp: backlog_stores_def example_shared_def example_intent_def is_current_def accepted_generation_def
        acceptance_of_def Let_def trims NewAcceptedGenerationLookup_def Acceptance_Lookup_def acceptance_row_key_def)
  show "10000 \<le> length (filter (\<lambda>r. si_ProjectionDomain r = ''platform_infra'' \<and> si_CompletedAt r = None) (sd_Intents ?db))"
    by (simp add: backlog_stores_def example_intent_def filter_map comp_def)
  show "fst (claim_op 3 (''platform_infra'', 0, 8) (leaseOwner (LoadSharedProjectionConfig 2 (\<lambda>_. [])))
      (leaseTTL (LoadSharedProjectionConfig 2 (\<lambda>_. []))) ?db) = Inr True"
    by (simp add: backlog_stores_def example_shared_def claim_op_def ClaimPartitionLease_def Let_def integer_fits_def)
qed (simp_all add: LoadSharedProjectionConfig_def intFromEnvDefault_def defaultBatchLimit_def scan_fuel_def)

section \<open>Polling\<close>

lemma backoff_power: "0 < d \<Longrightarrow> d * 2 ^ k < 2 ^ 63 \<Longrightarrow> ((\<lambda>d. wrap64 (d * 2)) ^^ k) d = d * 2 ^ k"
proof (induction k)
  case (Suc k)
  then have ih: "((\<lambda>d. wrap64 (d * 2)) ^^ k) d = d * 2 ^ k" by simp
  have "0 < d * 2 ^ k" using Suc.prems(1) by simp
  then have "wrap64 (d * 2 ^ k * 2) = d * 2 ^ k * 2" using Suc.prems(2) by (intro wrap64_id) simp_all
  with ih show ?case by simp
qed simp

lemma empty_backoff_bounds:
  assumes "0 < d" and "d * 8 < 2 ^ 63"
  shows "min d maxSharedPollInterval \<le> empty_backoff d k \<and> empty_backoff d k \<le> maxSharedPollInterval"
proof -
  let ?k = "min k 4 - 1"
  have k: "?k \<le> 3" by simp
  have "(1::int) * 2 ^ ?k \<le> 2 ^ 3" using power_increasing [OF k, of "2::int"] by simp
  then have p: "d * 2 ^ ?k \<le> d * 8" using assms(1) by simp
  then have "((\<lambda>d. wrap64 (d * 2)) ^^ ?k) d = d * 2 ^ ?k" by (intro backoff_power) (use assms in linarith)+
  moreover have "d * 1 \<le> d * 2 ^ ?k" by (rule mult_left_mono) (use assms(1) in simp_all)
  ultimately show ?thesis by (auto simp: empty_backoff_def Let_def)
qed

end
