(* ===== verification/Correlation.thy ===== *)
theory Correlation
  imports Strings Ordering
begin

text \<open>
  \<open>go/internal/correlation\<close>: the candidates and rule packs (\<open>model\<close>, \<open>rules\<close>), the admission gates
  (\<open>admission\<close>), the engine that evaluates a pack and admits one winner per correlation key
  (\<open>engine\<close>), the counters and the text rendering of the outcome (\<open>observability.go\<close>, \<open>explain\<close>).
\<close>

section \<open>Floating-point values\<close>

text \<open>
  A confidence is a \<open>float64\<close> that the code compares and prints: a number (exactly the one the
  double denotes), an infinity or NaN, which is neither less nor greater than anything.
\<close>

datatype f64 = Num rat | PosInf | NegInf | NaN

fun f_less :: "f64 \<Rightarrow> f64 \<Rightarrow> bool" where
  "f_less (Num a) (Num b) \<longleftrightarrow> a < b"
| "f_less (Num a) PosInf \<longleftrightarrow> True"
| "f_less NegInf (Num b) \<longleftrightarrow> True"
| "f_less NegInf PosInf \<longleftrightarrow> True"
| "f_less a b \<longleftrightarrow> False"

definition f_eq :: "f64 \<Rightarrow> f64 \<Rightarrow> bool" where
  "f_eq a b \<longleftrightarrow> a = b \<and> a \<noteq> NaN"

definition f_le :: "f64 \<Rightarrow> f64 \<Rightarrow> bool" where
  "f_le a b \<longleftrightarrow> f_less a b \<or> f_eq a b"

text \<open>\<open>cmp.Compare\<close> on floats: NaN equals NaN and is below every number.\<close>

definition f_compare :: "f64 \<Rightarrow> f64 \<Rightarrow> int" where
  "f_compare a b =
     (if a = NaN then (if b = NaN then 0 else -1) else if b = NaN then 1
      else if f_less a b then -1 else if f_less b a then 1 else 0)"

definition outside_unit :: "f64 \<Rightarrow> bool" where
  "outside_unit c \<longleftrightarrow> f_less c (Num 0) \<or> f_less (Num 1) c"

section \<open>Candidates\<close>

datatype CandidateState = Rejected | Provisional | Admitted | OtherState string
datatype RejectionReason = LowConfidence | StructuralMismatch | LostTieBreak | OtherReason string

record EvidenceAtom =
  ea_ID :: string
  ea_SourceSystem :: string
  ea_EvidenceType :: string
  ea_ScopeID :: string
  ea_Key :: string
  ea_Value :: string
  ea_Confidence :: f64

record Candidate =
  ca_ID :: string
  ca_Kind :: string
  ca_CorrelationKey :: string
  ca_Confidence :: f64
  ca_State :: CandidateState
  ca_Evidence :: "EvidenceAtom list"
  ca_RejectionReasons :: "RejectionReason list"

fun CandidateState_Validate :: "CandidateState \<Rightarrow> error option" where
  "CandidateState_Validate (OtherState s) = Some (Unknown ''candidate state'' s)"
| "CandidateState_Validate _ = None"

definition EvidenceAtom_Validate :: "EvidenceAtom \<Rightarrow> error option" where
  "EvidenceAtom_Validate e = first_err
     [check (blank (ea_ID e)) (Blank ''evidence id''),
      check (blank (ea_SourceSystem e)) (Blank ''evidence source system''),
      check (blank (ea_EvidenceType e)) (Blank ''evidence type''),
      check (blank (ea_ScopeID e)) (Blank ''evidence scope id''),
      check (blank (ea_Key e)) (Blank ''evidence key''),
      check (outside_unit (ea_Confidence e)) (Msg ''evidence confidence must be within [0,1]'')]"

definition Candidate_Validate :: "Candidate \<Rightarrow> error option" where
  "Candidate_Validate c = first_err
     [check (blank (ca_ID c)) (Blank ''candidate id''),
      check (blank (ca_Kind c)) (Blank ''candidate kind''),
      check (blank (ca_CorrelationKey c)) (Blank ''candidate correlation key''),
      CandidateState_Validate (ca_State c),
      check (outside_unit (ca_Confidence c)) (Msg ''candidate confidence must be within [0,1]''),
      first_err (map EvidenceAtom_Validate (ca_Evidence c))]"

section \<open>Rule packs\<close>

datatype RuleKind = ExtractKey | Match | Admit | Derive | Explain | OtherKind string
datatype EvidenceField = FieldSourceSystem | FieldEvidenceType | FieldScopeID | FieldKey | FieldValue | OtherField string

record EvidenceSelector =
  es_Field :: EvidenceField
  es_Value :: string

record EvidenceRequirement =
  er_Name :: string
  er_MinCount :: int
  er_MatchAll :: "EvidenceSelector list"

record Rule =
  ru_Name :: string
  ru_Kind :: RuleKind
  ru_Priority :: int
  ru_MaxMatches :: int

record RulePack =
  rp_Name :: string
  rp_MinAdmissionConfidence :: f64
  rp_RequiredEvidence :: "EvidenceRequirement list"
  rp_Rules :: "Rule list"

fun RuleKind_Validate :: "RuleKind \<Rightarrow> error option" where
  "RuleKind_Validate (OtherKind s) = Some (Unknown ''rule kind'' s)"
| "RuleKind_Validate _ = None"

fun EvidenceField_Validate :: "EvidenceField \<Rightarrow> error option" where
  "EvidenceField_Validate (OtherField s) = Some (Unknown ''evidence field'' s)"
| "EvidenceField_Validate _ = None"

definition EvidenceSelector_Validate :: "EvidenceSelector \<Rightarrow> error option" where
  "EvidenceSelector_Validate s = first_err
     [EvidenceField_Validate (es_Field s), check (blank (es_Value s)) (Blank ''evidence selector value'')]"

definition EvidenceRequirement_Validate :: "EvidenceRequirement \<Rightarrow> error option" where
  "EvidenceRequirement_Validate r = first_err
     [check (blank (er_Name r)) (Blank ''evidence requirement name''),
      check (er_MinCount r \<le> 0) (NotPositive ''evidence requirement min count''),
      check (er_MatchAll r = []) (Msg ''evidence requirement must contain at least one selector''),
      first_err (map EvidenceSelector_Validate (er_MatchAll r))]"

definition Rule_Validate :: "Rule \<Rightarrow> error option" where
  "Rule_Validate r = first_err
     [check (blank (ru_Name r)) (Blank ''rule name''),
      RuleKind_Validate (ru_Kind r),
      check (ru_Priority r < 0) (Negative ''rule priority''),
      check (ru_MaxMatches r < 0) (Negative ''rule max matches'')]"

definition RulePack_Validate :: "RulePack \<Rightarrow> error option" where
  "RulePack_Validate p = first_err
     [check (blank (rp_Name p)) (Blank ''rule pack name''),
      check (outside_unit (rp_MinAdmissionConfidence p)) (Msg ''min admission confidence must be within [0,1]''),
      check (rp_Rules p = []) (Msg ''rule pack must contain at least one rule''),
      first_err (map EvidenceRequirement_Validate (rp_RequiredEvidence p)),
      first_err (map Rule_Validate (rp_Rules p))]"

section \<open>Admission\<close>

record Outcome =
  oc_MeetsConfidence :: bool
  oc_MeetsStructure :: bool

fun evidenceFieldValue :: "EvidenceAtom \<Rightarrow> EvidenceField \<Rightarrow> string" where
  "evidenceFieldValue a FieldSourceSystem = ea_SourceSystem a"
| "evidenceFieldValue a FieldEvidenceType = ea_EvidenceType a"
| "evidenceFieldValue a FieldScopeID = ea_ScopeID a"
| "evidenceFieldValue a FieldKey = ea_Key a"
| "evidenceFieldValue a FieldValue = ea_Value a"
| "evidenceFieldValue a (OtherField _) = []"

definition matchesRequirement :: "EvidenceAtom \<Rightarrow> EvidenceRequirement \<Rightarrow> bool" where
  "matchesRequirement a r \<longleftrightarrow> list_all (\<lambda>s. evidenceFieldValue a (es_Field s) = es_Value s) (er_MatchAll r)"

definition satisfiesRequirements :: "EvidenceAtom list \<Rightarrow> EvidenceRequirement list \<Rightarrow> bool" where
  "satisfiesRequirements evidence requirements \<longleftrightarrow>
     list_all (\<lambda>r. er_MinCount r \<le> int (length (filter (\<lambda>a. matchesRequirement a r) evidence))) requirements"

definition admission_Evaluate ::
  "Candidate \<Rightarrow> f64 \<Rightarrow> EvidenceRequirement list \<Rightarrow> (Candidate \<times> Outcome) result" where
  "admission_Evaluate c threshold required =
     checked (check (outside_unit threshold) (Msg ''threshold must be within [0,1]''))
       (checked (Candidate_Validate c)
         (checked (first_err (map EvidenceRequirement_Validate required))
           (let oc = \<lparr>oc_MeetsConfidence = f_le threshold (ca_Confidence c),
                      oc_MeetsStructure = satisfiesRequirements (ca_Evidence c) required\<rparr>
            in if oc_MeetsConfidence oc \<and> oc_MeetsStructure oc
               then Inr (c\<lparr>ca_State := Admitted\<rparr>, oc)
               else Inr (c\<lparr>ca_State := Rejected\<rparr>, oc))))"

section \<open>Engine\<close>

record Result =
  re_Candidate :: Candidate
  re_MatchCounts :: "(string \<times> int) list"

record Evaluation =
  ev_OrderedRuleNames :: "string list"
  ev_Results :: "Result list"

definition cmp_rules :: "Rule \<Rightarrow> Rule \<Rightarrow> int" where
  "cmp_rules l r = or_else (compare (ru_Priority l) (ru_Priority r)) (compare (ru_Name l) (ru_Name r))"

definition boundedMatchCount :: "int \<Rightarrow> int \<Rightarrow> int" where
  "boundedMatchCount maxMatches available =
     (if maxMatches \<le> 0 \<or> available \<le> maxMatches then available else maxMatches)"

text \<open>\<open>matchCounts[rule.Name] = ...\<close>: a later rule of the same name overwrites the count.\<close>

fun put_count :: "string \<Rightarrow> int \<Rightarrow> (string \<times> int) list \<Rightarrow> (string \<times> int) list" where
  "put_count k v [] = [(k, v)]"
| "put_count k v ((k', v') # m) = (if k' = k then (k, v) # m else (k', v') # put_count k v m)"

definition match_counts :: "Rule list \<Rightarrow> nat \<Rightarrow> (string \<times> int) list" where
  "match_counts rules available =
     fold (\<lambda>r m. if ru_Kind r = Match then put_count (ru_Name r) (boundedMatchCount (ru_MaxMatches r) (int available)) m
                 else m) rules []"

definition reject_reasons :: "Candidate \<Rightarrow> Outcome \<Rightarrow> RejectionReason list" where
  "reject_reasons c oc =
     (if ca_State c = Rejected \<and> \<not> oc_MeetsConfidence oc then [LowConfidence] else [])
     @ (if ca_State c = Rejected \<and> \<not> oc_MeetsStructure oc then [StructuralMismatch] else [])"

definition evaluate_one :: "RulePack \<Rightarrow> Candidate \<Rightarrow> Result result" where
  "evaluate_one pack c =
     (case admission_Evaluate c (rp_MinAdmissionConfidence pack) (rp_RequiredEvidence pack) of
        Inl e \<Rightarrow> Inl e
      | Inr (c', oc) \<Rightarrow>
          Inr \<lparr>re_Candidate = c'\<lparr>ca_RejectionReasons := ca_RejectionReasons c' @ reject_reasons c' oc\<rparr>,
               re_MatchCounts = match_counts (sort_by cmp_rules (rp_Rules pack)) (length (ca_Evidence c'))\<rparr>)"

fun evaluate_all :: "RulePack \<Rightarrow> Candidate list \<Rightarrow> Result list result" where
  "evaluate_all pack [] = Inr []"
| "evaluate_all pack (c # cs) =
     (case evaluate_one pack c of
        Inl e \<Rightarrow> Inl e
      | Inr r \<Rightarrow> (case evaluate_all pack cs of Inl e \<Rightarrow> Inl e | Inr rs \<Rightarrow> Inr (r # rs)))"

definition compareCandidates :: "Candidate \<Rightarrow> Candidate \<Rightarrow> int" where
  "compareCandidates l r =
     (if \<not> f_eq (ca_Confidence l) (ca_Confidence r) then f_compare (ca_Confidence r) (ca_Confidence l)
      else compare (ca_ID l) (ca_ID r))"

definition lose :: "Result \<Rightarrow> Result" where
  "lose r = r\<lparr>re_Candidate := (re_Candidate r)\<lparr>ca_State := Rejected,
     ca_RejectionReasons := ca_RejectionReasons (re_Candidate r) @ [LostTieBreak]\<rparr>\<rparr>"

text \<open>The loop over the indices; \<open>w\<close> is \<open>winningIndexByKey\<close>.\<close>

fun admit_loop :: "nat list \<Rightarrow> (string \<times> nat) list \<Rightarrow> Result list \<Rightarrow> Result list" where
  "admit_loop [] w rs = rs"
| "admit_loop (i # is) w rs =
     (let c = re_Candidate (rs ! i); key = ca_CorrelationKey c in
      if ca_State c \<noteq> Admitted then admit_loop is w rs
      else
        (case map_of w key of
           None \<Rightarrow> admit_loop is ((key, i) # w) rs
         | Some j \<Rightarrow>
             if compareCandidates c (re_Candidate (rs ! j)) < 0
             then admit_loop is ((key, i) # w) (rs[j := lose (rs ! j)])
             else admit_loop is w (rs[i := lose (rs ! i)])))"

definition admitWinners :: "Result list \<Rightarrow> Result list" where
  "admitWinners rs = admit_loop [0..<length rs] [] rs"

definition cmp_results :: "Result \<Rightarrow> Result \<Rightarrow> int" where
  "cmp_results l r =
     (let a = re_Candidate l; b = re_Candidate r in
      if ca_CorrelationKey a \<noteq> ca_CorrelationKey b then compare (ca_CorrelationKey a) (ca_CorrelationKey b)
      else if ca_State a \<noteq> ca_State b \<and> ca_State a = Admitted then -1
      else if ca_State a \<noteq> ca_State b \<and> ca_State b = Admitted then 1
      else compare (ca_ID a) (ca_ID b))"

definition Evaluate :: "RulePack \<Rightarrow> Candidate list \<Rightarrow> Evaluation result" where
  "Evaluate pack candidates =
     checked (RulePack_Validate pack)
       (case evaluate_all pack candidates of
          Inl e \<Rightarrow> Inl e
        | Inr rs \<Rightarrow> Inr \<lparr>ev_OrderedRuleNames = map ru_Name (sort_by cmp_rules (rp_Rules pack)),
                        ev_Results = sort_by cmp_results (admitWinners rs)\<rparr>)"

section \<open>Counters\<close>

record Summary =
  su_EvaluatedRules :: nat
  su_AdmittedCandidates :: nat
  su_RejectedCandidates :: nat
  su_ConflictCount :: nat
  su_LowConfidenceCount :: nat

definition count_reasons :: "RejectionReason \<Rightarrow> Result list \<Rightarrow> nat" where
  "count_reasons reason rs =
     sum_list (map (\<lambda>r. length (filter ((=) reason) (ca_RejectionReasons (re_Candidate r)))) rs)"

definition count_state :: "CandidateState \<Rightarrow> Result list \<Rightarrow> nat" where
  "count_state s rs = length (filter (\<lambda>r. ca_State (re_Candidate r) = s) rs)"

definition BuildSummary :: "Evaluation \<Rightarrow> Summary" where
  "BuildSummary e =
     \<lparr>su_EvaluatedRules = length (ev_OrderedRuleNames e),
      su_AdmittedCandidates = count_state Admitted (ev_Results e),
      su_RejectedCandidates = count_state Rejected (ev_Results e),
      su_ConflictCount = count_reasons LostTieBreak (ev_Results e),
      su_LowConfidenceCount = count_reasons LowConfidence (ev_Results e)\<rparr>"

section \<open>The winner of a key\<close>

lemma f_compare_comparator: "comparator f_compare"
proof
  fix x y z
  show "sgn (f_compare y x) = - sgn (f_compare x y)"
    by (cases x; cases y) (simp_all add: f_compare_def)
  show "f_compare x y \<le> 0 \<Longrightarrow> f_compare y z \<le> 0 \<Longrightarrow> f_compare x z \<le> 0"
    by (cases x; cases y; cases z) (simp_all add: f_compare_def split: if_splits)
qed

lemma f_less_irrefl: "\<not> f_less a a"
  by (cases a) simp_all

lemma f_compare_zero: "f_compare a b = 0 \<longleftrightarrow> a = b"
  by (cases a; cases b) (simp_all add: f_compare_def)

definition tie_break :: "Candidate \<Rightarrow> string" where
  "tie_break c = (if ca_Confidence c = NaN then [] else ca_ID c)"

lemma compareCandidates_lex:
  "compareCandidates = (\<lambda>l r. or_else (f_compare (ca_Confidence r) (ca_Confidence l)) (compare (tie_break l) (tie_break r)))"
proof (intro ext)
  fix l r
  show "compareCandidates l r = or_else (f_compare (ca_Confidence r) (ca_Confidence l)) (compare (tie_break l) (tie_break r))"
  proof (cases "ca_Confidence l = ca_Confidence r")
    case True
    then show ?thesis
      by (cases "ca_Confidence r = NaN")
        (simp_all add: compareCandidates_def f_eq_def tie_break_def or_else_def f_compare_def compare_def f_less_irrefl)
  next
    case False
    then have "f_compare (ca_Confidence r) (ca_Confidence l) \<noteq> 0" by (simp add: f_compare_zero)
    with False show ?thesis by (simp add: compareCandidates_def f_eq_def or_else_def)
  qed
qed

interpretation winners: comparator compareCandidates
  unfolding compareCandidates_lex
  by (rule comparator_lex, rule comparator_flip, rule comparator_via, rule f_compare_comparator, rule comparator_key)

definition admitted_at :: "Result list \<Rightarrow> nat \<Rightarrow> bool" where
  "admitted_at rs i \<longleftrightarrow> ca_State (re_Candidate (rs ! i)) = Admitted"

definition key_at :: "Result list \<Rightarrow> nat \<Rightarrow> string" where
  "key_at rs i = ca_CorrelationKey (re_Candidate (rs ! i))"

definition compare_at :: "Result list \<Rightarrow> nat \<Rightarrow> nat \<Rightarrow> int" where
  "compare_at rs i j = compareCandidates (re_Candidate (rs ! i)) (re_Candidate (rs ! j))"

text \<open>Index \<open>i\<close> keeps its place against the admitted ones of its key among the first \<open>n\<close>.\<close>

definition keeps_place :: "Result list \<Rightarrow> nat \<Rightarrow> nat \<Rightarrow> bool" where
  "keeps_place rs n i \<longleftrightarrow>
     (\<forall>j < n. j \<noteq> i \<and> admitted_at rs j \<and> key_at rs j = key_at rs i
        \<longrightarrow> (if i < j then \<not> compare_at rs j i < 0 else compare_at rs i j < 0))"

definition settled_results :: "Result list \<Rightarrow> nat \<Rightarrow> Result list" where
  "settled_results rs n =
     map (\<lambda>k. if k < n \<and> admitted_at rs k \<and> \<not> keeps_place rs n k then lose (rs ! k) else rs ! k) [0..<length rs]"

definition winners_ok :: "Result list \<Rightarrow> nat \<Rightarrow> (string \<times> nat) list \<Rightarrow> bool" where
  "winners_ok rs n w \<longleftrightarrow>
     (\<forall>key. case map_of w key of
        None \<Rightarrow> \<forall>j < n. \<not> (admitted_at rs j \<and> key_at rs j = key)
      | Some j \<Rightarrow> j < n \<and> admitted_at rs j \<and> key_at rs j = key \<and> keeps_place rs n j)"

lemma keeps_place_mono: "keeps_place rs (Suc n) i \<Longrightarrow> keeps_place rs n i"
  by (simp add: keeps_place_def)

lemma keeps_place_Suc:
  "keeps_place rs (Suc n) i \<longleftrightarrow> keeps_place rs n i
     \<and> (n \<noteq> i \<and> admitted_at rs n \<and> key_at rs n = key_at rs i
        \<longrightarrow> (if i < n then \<not> compare_at rs n i < 0 else compare_at rs i n < 0))"
  unfolding keeps_place_def All_less_Suc by blast

lemma one_keeps_place:
  assumes "keeps_place rs n i" and "keeps_place rs n j" and "i < n" and "j < n"
    and "admitted_at rs i" and "admitted_at rs j" and "key_at rs i = key_at rs j"
  shows "i = j"
proof (rule ccontr)
  assume "i \<noteq> j"
  with assms show False
    unfolding keeps_place_def by (cases "i < j") (metis not_less_iff_gr_or_eq)+
qed

lemma new_winner:
  assumes "keeps_place rs n j" and "j < n" and "admitted_at rs j" and "key_at rs n = key_at rs j"
    and "compare_at rs n j < 0"
  shows "keeps_place rs (Suc n) n"
  unfolding keeps_place_def
proof (intro allI impI)
  fix k
  assume k: "k < Suc n" and c: "k \<noteq> n \<and> admitted_at rs k \<and> key_at rs k = key_at rs n"
  then have "k < n" by simp
  have "compare_at rs n k < 0"
  proof (cases "k = j")
    case False
    have "compare_at rs j k \<le> 0"
    proof (cases "j < k")
      case True
      with assms(1,4) c \<open>k < n\<close> have "\<not> compare_at rs k j < 0" by (simp add: keeps_place_def)
      then show ?thesis using winners.cmp_less_iff by (force simp: compare_at_def)
    next
      case False
      with assms(1,4) c \<open>k < n\<close> \<open>k \<noteq> j\<close> have "compare_at rs j k < 0" by (simp add: keeps_place_def)
      then show ?thesis by simp
    qed
    then have "\<not> compare_at rs k n \<le> 0"
      using assms(5) winners.cmp_trans winners.cmp_less_iff unfolding compare_at_def by (meson linorder_not_le)
    then show ?thesis using winners.cmp_less_iff unfolding compare_at_def by (meson linorder_not_le)
  qed (use assms(5) in simp)
  with \<open>k < n\<close> show "if n < k then \<not> compare_at rs k n < 0 else compare_at rs n k < 0" by simp
qed

lemma settled_results_nth:
  "k < length rs \<Longrightarrow> settled_results rs n ! k =
     (if k < n \<and> admitted_at rs k \<and> \<not> keeps_place rs n k then lose (rs ! k) else rs ! k)"
  by (simp add: settled_results_def)

lemma length_settled_results [simp]: "length (settled_results rs n) = length rs"
  by (simp add: settled_results_def)

lemma settled_results_same:
  assumes "\<And>k. k < n \<Longrightarrow> admitted_at rs k \<Longrightarrow> keeps_place rs (Suc n) k = keeps_place rs n k"
    and "admitted_at rs n \<Longrightarrow> keeps_place rs (Suc n) n"
  shows "settled_results rs (Suc n) = settled_results rs n"
  unfolding settled_results_def using assms by (auto simp: less_Suc_eq)

lemma settled_results_update:
  assumes "j \<le> n" and "n < length rs" and "admitted_at rs j" and "\<not> keeps_place rs (Suc n) j"
    and "\<And>k. k \<le> n \<Longrightarrow> k \<noteq> j \<Longrightarrow> admitted_at rs k \<Longrightarrow> keeps_place rs (Suc n) k = (k < n \<and> keeps_place rs n k \<or> k = n)"
  shows "settled_results rs (Suc n) = (settled_results rs n)[j := lose (rs ! j)]"
proof (rule nth_equalityI)
  fix k assume k: "k < length (settled_results rs (Suc n))"
  show "settled_results rs (Suc n) ! k = (settled_results rs n)[j := lose (rs ! j)] ! k"
  proof (cases "k = j")
    case True
    with assms k show ?thesis by (simp add: settled_results_nth)
  next
    case False
    with assms(5) [of k] k show ?thesis by (auto simp: settled_results_nth less_Suc_eq_le)
  qed
qed simp

text \<open>The three ways an iteration goes.\<close>

lemma place_skip:
  assumes "\<not> admitted_at rs n"
  shows "keeps_place rs (Suc n) k = keeps_place rs n k"
  using assms by (simp add: keeps_place_Suc)

lemma place_other_key:
  assumes "key_at rs n \<noteq> key_at rs k"
  shows "keeps_place rs (Suc n) k = keeps_place rs n k"
  using assms by (simp add: keeps_place_Suc)

lemma place_among_losers:
  assumes "keeps_place rs n j" and "j < n" and "admitted_at rs j" and "key_at rs n = key_at rs j" and "k < n" and "k \<noteq> j"
    and "admitted_at rs k"
  shows "keeps_place rs (Suc n) k = keeps_place rs n k"
proof (cases "key_at rs n = key_at rs k")
  case True
  have "\<not> keeps_place rs n k"
    using one_keeps_place [OF assms(1) _ assms(2,5,3,7)] assms(4,6) True by auto
  then show ?thesis using keeps_place_mono by blast
qed (rule place_other_key)

lemma winners_ok_extend:
  assumes w: "winners_ok rs n w" and wins: "keeps_place rs (Suc n) n" and a: "admitted_at rs n"
  shows "winners_ok rs (Suc n) ((key_at rs n, n) # w)"
  unfolding winners_ok_def
proof (rule allI)
  fix key
  show "case map_of ((key_at rs n, n) # w) key of
      None \<Rightarrow> \<forall>j < Suc n. \<not> (admitted_at rs j \<and> key_at rs j = key)
    | Some j \<Rightarrow> j < Suc n \<and> admitted_at rs j \<and> key_at rs j = key \<and> keeps_place rs (Suc n) j"
  proof (cases "key = key_at rs n")
    case True
    with wins a show ?thesis by simp
  next
    case False
    with w [unfolded winners_ok_def, rule_format, of key] show ?thesis
      by (auto simp: less_Suc_eq place_other_key split: option.splits)
  qed
qed

lemma winners_ok_keep:
  assumes w: "winners_ok rs n w"
    and "admitted_at rs n \<Longrightarrow> map_of w (key_at rs n) = Some j \<and> \<not> compare_at rs n j < 0"
  shows "winners_ok rs (Suc n) w"
  unfolding winners_ok_def
proof (rule allI)
  fix key
  note wk = w [unfolded winners_ok_def, rule_format, of key]
  show "case map_of w key of
      None \<Rightarrow> \<forall>j < Suc n. \<not> (admitted_at rs j \<and> key_at rs j = key)
    | Some j \<Rightarrow> j < Suc n \<and> admitted_at rs j \<and> key_at rs j = key \<and> keeps_place rs (Suc n) j"
  proof (cases "map_of w key")
    case None
    with wk assms(2) show ?thesis by (auto simp: less_Suc_eq)
  next
    case (Some i)
    then have "keeps_place rs (Suc n) i"
      using wk assms(2) by (auto simp: keeps_place_Suc)
    with Some wk show ?thesis by simp
  qed
qed

lemma admit_step:
  assumes w: "winners_ok rs n w" and n: "n < length rs"
  shows "\<exists>w'. admit_loop (n # is) w (settled_results rs n) = admit_loop is w' (settled_results rs (Suc n))
    \<and> winners_ok rs (Suc n) w'"
proof -
  let ?s = "settled_results rs n"
  have here: "?s ! n = rs ! n" using n by (simp add: settled_results_nth)
  show ?thesis
  proof (cases "admitted_at rs n")
    case False
    have "settled_results rs (Suc n) = ?s"
      by (rule settled_results_same) (use False in \<open>simp_all add: place_skip\<close>)
    moreover have "winners_ok rs (Suc n) w" by (rule winners_ok_keep [OF w]) (use False in simp)
    ultimately show ?thesis using False here by (auto simp: Let_def admitted_at_def)
  next
    case True
    note wk = w [unfolded winners_ok_def, rule_format, of "key_at rs n"]
    show ?thesis
    proof (cases "map_of w (key_at rs n)")
      case None
      then have alone: "key_at rs k \<noteq> key_at rs n" if "k < n" "admitted_at rs k" for k using wk that by auto
      have wins: "keeps_place rs (Suc n) n" using alone by (auto simp: keeps_place_def)
      have "settled_results rs (Suc n) = ?s"
        by (rule settled_results_same) (use alone wins in \<open>metis place_other_key\<close>)+
      moreover have "winners_ok rs (Suc n) ((key_at rs n, n) # w)" by (rule winners_ok_extend [OF w wins True])
      ultimately show ?thesis using True None here by (auto simp: Let_def admitted_at_def key_at_def)
    next
      case (Some j)
      with wk have j: "j < n" "admitted_at rs j" "key_at rs n = key_at rs j" "keeps_place rs n j" by auto
      have there: "?s ! j = rs ! j" using j n by (simp add: settled_results_nth)
      show ?thesis
      proof (cases "compare_at rs n j < 0")
        case less: True
        have wins: "keeps_place rs (Suc n) n" by (rule new_winner [OF j(4,1,2,3) less])
        have "settled_results rs (Suc n) = ?s[j := lose (rs ! j)]"
        proof (rule settled_results_update)
          show "\<not> keeps_place rs (Suc n) j" using j less True by (simp add: keeps_place_Suc)
        next
          fix k assume "k \<le> n" "k \<noteq> j" "admitted_at rs k"
          then show "keeps_place rs (Suc n) k = (k < n \<and> keeps_place rs n k \<or> k = n)"
            using wins place_among_losers [OF j(4,1,2,3)] by (cases "k = n") auto
        qed (use j n in simp_all)
        moreover have "winners_ok rs (Suc n) ((key_at rs n, n) # w)" by (rule winners_ok_extend [OF w wins True])
        ultimately show ?thesis using True Some here there less
          by (auto simp: Let_def admitted_at_def key_at_def compare_at_def)
      next
        case not_less: False
        have lost: "\<not> keeps_place rs (Suc n) n"
        proof
          assume "keeps_place rs (Suc n) n"
          then show False using j not_less unfolding keeps_place_def by (drule_tac spec [of _ j]) auto
        qed
        have "settled_results rs (Suc n) = ?s[n := lose (rs ! n)]"
        proof (rule settled_results_update)
          fix k assume k: "k \<le> n" "k \<noteq> n" "admitted_at rs k"
          have "keeps_place rs (Suc n) j" using j not_less by (simp add: keeps_place_Suc)
          then have "keeps_place rs (Suc n) k = keeps_place rs n k"
            using k j place_among_losers [OF j(4,1,2,3), of k] by (cases "k = j") auto
          with k show "keeps_place rs (Suc n) k = (k < n \<and> keeps_place rs n k \<or> k = n)" by simp
        qed (use n True lost in simp_all)
        moreover have "winners_ok rs (Suc n) w" by (rule winners_ok_keep [OF w]) (use Some not_less in simp)
        ultimately show ?thesis using True Some here there not_less
          by (auto simp: Let_def admitted_at_def key_at_def compare_at_def)
      qed
    qed
  qed
qed

lemma admit_loop_settles:
  assumes "winners_ok rs n w" and "n \<le> length rs"
  shows "admit_loop [n..<length rs] w (settled_results rs n) = settled_results rs (length rs)"
  using assms
proof (induction "length rs - n" arbitrary: n w)
  case 0
  then show ?case by simp
next
  case (Suc d)
  then have n: "n < length rs" by simp
  then have upt: "[n..<length rs] = n # [Suc n..<length rs]" by (rule upt_conv_Cons)
  from admit_step [OF Suc.prems(1) n] obtain w' where
    "admit_loop (n # [Suc n..<length rs]) w (settled_results rs n) = admit_loop [Suc n..<length rs] w' (settled_results rs (Suc n))"
    and "winners_ok rs (Suc n) w'" by blast
  with Suc.hyps(1) [of "Suc n" w'] Suc.hyps(2) n upt show ?case by simp
qed

lemma admitWinners_settled: "admitWinners rs = settled_results rs (length rs)"
proof -
  have "settled_results rs 0 = rs" by (rule nth_equalityI) (simp_all add: settled_results_nth)
  moreover have "winners_ok rs 0 []" by (simp add: winners_ok_def)
  ultimately show ?thesis using admit_loop_settles [of rs 0 "[]"] by (simp add: admitWinners_def)
qed

section \<open>What an evaluation decides\<close>

definition gates :: "RulePack \<Rightarrow> Candidate \<Rightarrow> bool" where
  "gates pack c \<longleftrightarrow> f_le (rp_MinAdmissionConfidence pack) (ca_Confidence c)
     \<and> satisfiesRequirements (ca_Evidence c) (rp_RequiredEvidence pack)"

definition gated :: "RulePack \<Rightarrow> Candidate \<Rightarrow> Result" where
  "gated pack c =
     \<lparr>re_Candidate = c\<lparr>ca_State := (if gates pack c then Admitted else Rejected),
        ca_RejectionReasons := ca_RejectionReasons c
          @ (if f_le (rp_MinAdmissionConfidence pack) (ca_Confidence c) then [] else [LowConfidence])
          @ (if satisfiesRequirements (ca_Evidence c) (rp_RequiredEvidence pack) then [] else [StructuralMismatch])\<rparr>,
      re_MatchCounts = match_counts (sort_by cmp_rules (rp_Rules pack)) (length (ca_Evidence c))\<rparr>"

lemma evaluate_one_gated: "evaluate_one pack c = Inr r \<Longrightarrow> r = gated pack c"
  by (auto simp: evaluate_one_def admission_Evaluate_def gated_def gates_def reject_reasons_def Let_def
      split: sum.splits if_splits)

lemma evaluate_all_gated: "evaluate_all pack cs = Inr rs \<Longrightarrow> rs = map (gated pack) cs"
  by (induction cs arbitrary: rs) (auto dest: evaluate_one_gated split: sum.splits)

lemma evaluate_all_each: "(\<exists>rs. evaluate_all pack cs = Inr rs) \<longleftrightarrow> (\<forall>c \<in> set cs. \<exists>r. evaluate_one pack c = Inr r)"
  by (induction cs) (auto split: sum.splits)

lemma Evaluate_Inr:
  assumes "Evaluate pack cs = Inr ev"
  shows "ev_Results ev = sort_by cmp_results (settled_results (map (gated pack) cs) (length cs))"
    and "ev_OrderedRuleNames ev = map ru_Name (sort_by cmp_rules (rp_Rules pack))"
  using assms by (auto simp: Evaluate_def admitWinners_settled dest!: evaluate_all_gated split: sum.splits)

lemma winners_exist: "n \<le> length rs \<Longrightarrow> \<exists>w. winners_ok rs n w"
proof (induction n)
  case 0
  have "winners_ok rs 0 []" by (simp add: winners_ok_def)
  then show ?case by blast
next
  case (Suc n)
  then obtain w where "winners_ok rs n w" by auto
  from admit_step [OF this] Suc.prems show ?case by (metis Suc_le_eq)
qed

lemma winner_of_key:
  assumes "i < length rs" and "admitted_at rs i"
  obtains j where "j < length rs" and "admitted_at rs j" and "key_at rs j = key_at rs i" and "keeps_place rs (length rs) j"
proof -
  obtain w where w: "winners_ok rs (length rs) w" using winners_exist by blast
  from w [unfolded winners_ok_def, rule_format, of "key_at rs i"] assms show thesis
    by (auto split: option.splits intro: that)
qed

lemma keeps_place_best:
  assumes "keeps_place rs (length rs) j" and "i < length rs" and "admitted_at rs i" and "key_at rs i = key_at rs j"
  shows "compare_at rs j i \<le> 0"
proof (cases "i = j")
  case False
  with assms have "if j < i then \<not> compare_at rs i j < 0 else compare_at rs j i < 0" by (simp add: keeps_place_def)
  then show ?thesis using winners.cmp_less_iff unfolding compare_at_def by (metis linorder_not_le order_less_imp_le)
qed (simp add: compare_at_def winners.cmp_refl)

lemma gated_facts [simp]:
  "ca_CorrelationKey (re_Candidate (gated pack c)) = ca_CorrelationKey c"
  "ca_State (re_Candidate (gated pack c)) = (if gates pack c then Admitted else Rejected)"
  "compareCandidates (re_Candidate (gated pack c)) (re_Candidate (gated pack d)) = compareCandidates c d"
  "ca_ID (re_Candidate (gated pack c)) = ca_ID c"
  "ca_Confidence (re_Candidate (gated pack c)) = ca_Confidence c"
  by (simp_all add: gated_def compareCandidates_def)

lemma lose_facts [simp]:
  "ca_CorrelationKey (re_Candidate (lose r)) = ca_CorrelationKey (re_Candidate r)"
  "ca_State (re_Candidate (lose r)) = Rejected"
  "ca_ID (re_Candidate (lose r)) = ca_ID (re_Candidate r)"
  "ca_Confidence (re_Candidate (lose r)) = ca_Confidence (re_Candidate r)"
  by (simp_all add: lose_def)

lemma length_filter_sort_by: "length (filter P (sort_by cmp xs)) = length (filter P xs)"
proof -
  have "mset (filter P (sort_by cmp xs)) = mset (filter P xs)" by simp
  then show ?thesis by (rule mset_eq_length)
qed

text \<open>
  C31: an evaluation admits exactly one candidate of each correlation key that has a candidate
  passing the confidence and evidence gates, and none of the other keys; the admitted one is the
  best of the passing candidates of its key, by confidence and then by identifier.
\<close>

theorem one_winner_per_key:
  assumes "Evaluate pack cs = Inr ev"
  shows "length (filter (\<lambda>r. ca_CorrelationKey (re_Candidate r) = key \<and> ca_State (re_Candidate r) = Admitted) (ev_Results ev))
      = (if \<exists>c \<in> set cs. ca_CorrelationKey c = key \<and> gates pack c then 1 else 0)
    \<and> (\<forall>r \<in> set (ev_Results ev). ca_State (re_Candidate r) = Admitted
        \<longrightarrow> (\<exists>c \<in> set cs. ca_ID (re_Candidate r) = ca_ID c \<and> ca_CorrelationKey (re_Candidate r) = ca_CorrelationKey c
              \<and> gates pack c
              \<and> (\<forall>d \<in> set cs. gates pack d \<and> ca_CorrelationKey d = ca_CorrelationKey c \<longrightarrow> compareCandidates c d \<le> 0)))"
    (is "?one \<and> ?best")
proof
  let ?rs = "map (gated pack) cs" and ?n = "length cs"
  let ?won = "\<lambda>r. ca_CorrelationKey (re_Candidate r) = key \<and> ca_State (re_Candidate r) = Admitted"
  have adm: "admitted_at ?rs i = gates pack (cs ! i)" if "i < ?n" for i using that by (simp add: admitted_at_def)
  have keys: "key_at ?rs i = ca_CorrelationKey (cs ! i)" if "i < ?n" for i using that by (simp add: key_at_def)
  have state: "ca_State (re_Candidate (settled_results ?rs ?n ! i)) = Admitted
      \<longleftrightarrow> admitted_at ?rs i \<and> keeps_place ?rs ?n i" if "i < ?n" for i
    using that by (simp add: settled_results_nth adm)
  have same_key: "ca_CorrelationKey (re_Candidate (settled_results ?rs ?n ! i)) = ca_CorrelationKey (cs ! i)" if "i < ?n" for i
    using that by (simp add: settled_results_nth)
  have same_id: "ca_ID (re_Candidate (settled_results ?rs ?n ! i)) = ca_ID (cs ! i)" if "i < ?n" for i
    using that by (simp add: settled_results_nth)
  let ?W = "{i. i < ?n \<and> ca_CorrelationKey (cs ! i) = key \<and> admitted_at ?rs i \<and> keeps_place ?rs ?n i}"
  have "length (filter ?won (ev_Results ev)) = length (filter ?won (settled_results ?rs ?n))"
    by (simp add: Evaluate_Inr(1) [OF assms] length_filter_sort_by)
  also have "\<dots> = card ?W"
    by (simp add: length_filter_conv_card) (rule arg_cong [of _ _ card], use state same_key in auto)
  also have "card ?W = (if \<exists>c \<in> set cs. ca_CorrelationKey c = key \<and> gates pack c then 1 else 0)"
  proof (cases "\<exists>c \<in> set cs. ca_CorrelationKey c = key \<and> gates pack c")
    case True
    then obtain i where i: "i < ?n" "ca_CorrelationKey (cs ! i) = key" "gates pack (cs ! i)" by (metis in_set_conv_nth)
    then obtain j where j: "j < ?n" "admitted_at ?rs j" "key_at ?rs j = key_at ?rs i" "keeps_place ?rs ?n j"
      using winner_of_key [of i ?rs] adm by auto
    have "k = j" if "k \<in> ?W" for k
      using that j i keys one_keeps_place [of ?rs ?n k j] by simp
    moreover have "j \<in> ?W" using j i keys by simp
    ultimately have "?W = {j}" by blast
    with True show ?thesis by simp
  next
    case False
    then have "?W = {}" using adm by auto
    then show ?thesis by (simp only: if_not_P [OF False] card.empty)
  qed
  finally show ?one .
  show ?best
  proof (intro ballI impI)
    fix r assume r: "r \<in> set (ev_Results ev)" and won: "ca_State (re_Candidate r) = Admitted"
    then obtain i where i: "i < ?n" "r = settled_results ?rs ?n ! i"
      using Evaluate_Inr(1) [OF assms] by (metis length_map length_settled_results in_set_conv_nth set_sort_by)
    with won state have a: "admitted_at ?rs i" and place: "keeps_place ?rs ?n i" by auto
    have "compareCandidates (cs ! i) d \<le> 0" if "d \<in> set cs" "gates pack d" "ca_CorrelationKey d = ca_CorrelationKey (cs ! i)" for d
    proof -
      from that(1) obtain k where k: "k < ?n" "d = cs ! k" by (metis in_set_conv_nth)
      have "compare_at ?rs i k \<le> 0"
        by (rule keeps_place_best) (use k that place i adm keys in simp_all)
      then show ?thesis using k i by (simp add: compare_at_def)
    qed
    then show "\<exists>c \<in> set cs. ca_ID (re_Candidate r) = ca_ID c \<and> ca_CorrelationKey (re_Candidate r) = ca_CorrelationKey c
        \<and> gates pack c \<and> (\<forall>d \<in> set cs. gates pack d \<and> ca_CorrelationKey d = ca_CorrelationKey c \<longrightarrow> compareCandidates c d \<le> 0)"
      using i a adm same_key same_id by (intro bexI [of _ "cs ! i"]) simp_all
  qed
qed

section \<open>Order of the candidates\<close>

definition candidate_key :: "Candidate \<Rightarrow> string \<times> string" where
  "candidate_key c = (ca_CorrelationKey c, ca_ID c)"

text \<open>With distinct identifiers a candidate keeps its place iff it beats every other one of its key.\<close>

definition beaten :: "RulePack \<Rightarrow> Candidate set \<Rightarrow> Candidate \<Rightarrow> bool" where
  "beaten pack cs c \<longleftrightarrow> (\<exists>d \<in> cs. gates pack d \<and> ca_CorrelationKey d = ca_CorrelationKey c \<and> compareCandidates d c < 0)"

definition judged :: "RulePack \<Rightarrow> Candidate set \<Rightarrow> Candidate \<Rightarrow> Result" where
  "judged pack cs c = (if gates pack c \<and> beaten pack cs c then lose (gated pack c) else gated pack c)"

lemma gates_not_NaN: "gates pack c \<Longrightarrow> ca_Confidence c \<noteq> NaN"
  by (cases "rp_MinAdmissionConfidence pack") (auto simp: gates_def f_le_def f_eq_def)

lemma compare_distinct:
  assumes "gates pack c" and "ca_ID c \<noteq> ca_ID d"
  shows "compareCandidates c d \<noteq> 0"
  using assms gates_not_NaN [OF assms(1)]
  by (auto simp: compareCandidates_lex f_compare_zero tie_break_def)

lemma settled_judged:
  assumes "distinct (map candidate_key cs)"
  shows "settled_results (map (gated pack) cs) (length cs) = map (judged pack (set cs)) cs"
proof (rule nth_equalityI)
  let ?rs = "map (gated pack) cs"
  fix i assume "i < length (settled_results ?rs (length cs))"
  then have i: "i < length cs" by simp
  have "keeps_place ?rs (length cs) i \<longleftrightarrow> \<not> beaten pack (set cs) (cs ! i)" if a: "gates pack (cs ! i)"
  proof
    assume k: "keeps_place ?rs (length cs) i"
    show "\<not> beaten pack (set cs) (cs ! i)"
    proof
      assume "beaten pack (set cs) (cs ! i)"
      then obtain j where j: "j < length cs" "gates pack (cs ! j)" "ca_CorrelationKey (cs ! j) = ca_CorrelationKey (cs ! i)"
        "compareCandidates (cs ! j) (cs ! i) < 0" by (auto simp: beaten_def in_set_conv_nth)
      have "compare_at ?rs i j \<le> 0"
        by (rule keeps_place_best) (use k j i in \<open>simp_all add: admitted_at_def key_at_def\<close>)
      with j i show False using winners.cmp_less_iff [of "cs ! j" "cs ! i"] by (simp add: compare_at_def)
    qed
  next
    assume nb: "\<not> beaten pack (set cs) (cs ! i)"
    show "keeps_place ?rs (length cs) i"
      unfolding keeps_place_def
    proof (intro allI impI)
      fix j assume j: "j < length cs" and c: "j \<noteq> i \<and> admitted_at ?rs j \<and> key_at ?rs j = key_at ?rs i"
      then have g: "gates pack (cs ! j)" and k: "ca_CorrelationKey (cs ! j) = ca_CorrelationKey (cs ! i)"
        using i j by (auto simp: admitted_at_def key_at_def split: if_splits)
      have "candidate_key (cs ! j) \<noteq> candidate_key (cs ! i)"
        using assms i j c by (metis length_map nth_eq_iff_index_eq nth_map)
      with k have "ca_ID (cs ! i) \<noteq> ca_ID (cs ! j)" by (simp add: candidate_key_def)
      with a have "compareCandidates (cs ! i) (cs ! j) \<noteq> 0" by (rule compare_distinct)
      moreover have "\<not> compareCandidates (cs ! j) (cs ! i) < 0"
        using nb j g k by (auto simp: beaten_def)
      ultimately have "compareCandidates (cs ! i) (cs ! j) < 0"
        using winners.cmp_less_iff [of "cs ! j" "cs ! i"] by linarith
      then show "if i < j then \<not> compare_at ?rs j i < 0 else compare_at ?rs i j < 0"
        using i j winners.cmp_less_iff [of "cs ! j" "cs ! i"] by (simp add: compare_at_def)
    qed
  qed
  with i show "settled_results ?rs (length cs) ! i = map (judged pack (set cs)) cs ! i"
    by (auto simp: settled_results_nth judged_def admitted_at_def)
qed simp

definition result_rank :: "Result \<Rightarrow> int" where
  "result_rank r = (if ca_State (re_Candidate r) = Admitted then 0 else 1)"

text \<open>The order of the results, where only admitted and rejected ones occur.\<close>

lemma cmp_results_lex:
  "cmp_results = (\<lambda>l r. or_else (compare (ca_CorrelationKey (re_Candidate l)) (ca_CorrelationKey (re_Candidate r)))
     (or_else (compare (result_rank l) (result_rank r)) (compare (ca_ID (re_Candidate l)) (ca_ID (re_Candidate r)))))"
  by (intro ext) (auto simp: cmp_results_def Let_def or_else_def result_rank_def compare_def)

interpretation results: comparator cmp_results
  unfolding cmp_results_lex by (rule comparator_lex, rule comparator_key)+ (rule comparator_key)

lemma judged_key [simp]:
  "ca_CorrelationKey (re_Candidate (judged pack cs c)) = ca_CorrelationKey c" "ca_ID (re_Candidate (judged pack cs c)) = ca_ID c"
  by (simp_all add: judged_def)

text \<open>
  C32: an evaluation does not depend on the order of its candidates: when no two share key and
  identifier, any rearrangement of an accepted input gives the same evaluation, results in the
  same order.
\<close>

theorem evaluation_order_free:
  assumes "Evaluate pack cs = Inr ev" and "mset ds = mset cs" and "distinct (map candidate_key cs)"
  shows "Evaluate pack ds = Inr ev"
proof -
  have same: "set ds = set cs" using assms(2) by (metis set_mset_mset)
  have "mset (map candidate_key ds) = mset (map candidate_key cs)" using assms(2) by simp
  then have dist: "distinct (map candidate_key ds)" using assms(3) by (metis mset_eq_imp_distinct_iff)
  from assms(1) obtain rs where "RulePack_Validate pack = None" and "evaluate_all pack cs = Inr rs"
    by (auto simp: Evaluate_def split: sum.splits)
  then have "\<exists>rs. evaluate_all pack ds = Inr rs" using evaluate_all_each same by metis
  with \<open>RulePack_Validate pack = None\<close> obtain ev' where ev': "Evaluate pack ds = Inr ev'"
    by (auto simp: Evaluate_def)
  have "ev_Results ev' = ev_Results ev"
  proof (rule results.sort_unique)
    show "mset (ev_Results ev') = mset (ev_Results ev)"
      using assms(2) same by (simp add: Evaluate_Inr [OF ev'] Evaluate_Inr [OF assms(1)] settled_judged [OF assms(3)] settled_judged [OF dist])
    show "ordered cmp_results (ev_Results ev')" and "ordered cmp_results (ev_Results ev)"
      by (simp_all add: Evaluate_Inr [OF ev'] Evaluate_Inr [OF assms(1)] results.ordered_sort_by)
    fix x y assume "x \<in> set (ev_Results ev')" "y \<in> set (ev_Results ev')" and eq: "cmp_results x y = 0"
    then obtain c d where c: "c \<in> set ds" "x = judged pack (set ds) c" and d: "d \<in> set ds" "y = judged pack (set ds) d"
      by (auto simp: Evaluate_Inr [OF ev'] settled_judged [OF dist])
    with eq have "candidate_key c = candidate_key d"
      by (simp add: cmp_results_lex candidate_key_def)
    with dist c d have "c = d" by (metis distinct_map inj_onD)
    with c d show "x = y" by simp
  qed
  then have "ev' = ev" using Evaluate_Inr(2) [OF ev'] Evaluate_Inr(2) [OF assms(1)] by simp
  with ev' show ?thesis by simp
qed

end
