(* ===== verification/CorrelationRules.thy ===== *)
theory CorrelationRules
  imports Correlation
begin

text \<open>
  The rule packs of \<open>go/internal/correlation/rules\<close> and the text rendering of
  \<open>go/internal/correlation/explain\<close>.
\<close>

section \<open>First-party rule packs\<close>

definition rule :: "string \<Rightarrow> RuleKind \<Rightarrow> int \<Rightarrow> int \<Rightarrow> Rule" where
  "rule name kind priority maxMatches =
     \<lparr>ru_Name = name, ru_Kind = kind, ru_Priority = priority, ru_MaxMatches = maxMatches\<rparr>"

definition DockerfileRulePack :: RulePack where
  "DockerfileRulePack =
     \<lparr>rp_Name = ''dockerfile'', rp_MinAdmissionConfidence = Num (9 / 10),
      rp_RequiredEvidence = [\<lparr>er_Name = ''runtime-image'', er_MinCount = 1, er_MatchAll =
         [\<lparr>es_Field = FieldEvidenceType, es_Value = ''dockerfile''\<rparr>, \<lparr>es_Field = FieldKey, es_Value = ''image''\<rparr>]\<rparr>],
      rp_Rules =
        [rule ''extract-image-source-label'' ExtractKey 10 0,
         rule ''match-image-source-to-repository'' Match 20 4,
         rule ''derive-deployable-unit-name'' Derive 30 0,
         rule ''admit-runtime-image-candidate'' Admit 40 0,
         rule ''explain-dockerfile-correlation'' Explain 50 0]\<rparr>"

definition DockerComposeRulePack :: RulePack where
  "DockerComposeRulePack =
     \<lparr>rp_Name = ''docker_compose'', rp_MinAdmissionConfidence = Num (4 / 5),
      rp_RequiredEvidence = [\<lparr>er_Name = ''compose-service'', er_MinCount = 1, er_MatchAll =
         [\<lparr>es_Field = FieldEvidenceType, es_Value = ''docker_compose''\<rparr>, \<lparr>es_Field = FieldKey, es_Value = ''service''\<rparr>]\<rparr>],
      rp_Rules =
        [rule ''extract-compose-service-and-image-keys'' ExtractKey 10 0,
         rule ''match-compose-build-context-and-image-references'' Match 20 6,
         rule ''derive-compose-deployable-unit'' Derive 30 0,
         rule ''admit-compose-runtime-evidence'' Admit 40 0,
         rule ''explain-compose-correlation'' Explain 50 0]\<rparr>"

definition GitHubActionsRulePack :: RulePack where
  "GitHubActionsRulePack =
     \<lparr>rp_Name = ''github_actions'', rp_MinAdmissionConfidence = Num (41 / 50),
      rp_RequiredEvidence = [\<lparr>er_Name = ''workflow-repository'', er_MinCount = 1, er_MatchAll =
         [\<lparr>es_Field = FieldEvidenceType, es_Value = ''github_actions''\<rparr>, \<lparr>es_Field = FieldKey, es_Value = ''repository''\<rparr>]\<rparr>],
      rp_Rules =
        [rule ''extract-workflow-references'' ExtractKey 10 0,
         rule ''match-reusable-workflow-and-checkout-repositories'' Match 20 6,
         rule ''derive-delivery-path'' Derive 30 0,
         rule ''admit-delivery-evidence'' Admit 40 0,
         rule ''explain-github-actions-correlation'' Explain 50 0]\<rparr>"

definition JenkinsRulePack :: RulePack where
  "JenkinsRulePack =
     \<lparr>rp_Name = ''jenkins'', rp_MinAdmissionConfidence = Num (21 / 25),
      rp_RequiredEvidence = [\<lparr>er_Name = ''pipeline-repository'', er_MinCount = 1, er_MatchAll =
         [\<lparr>es_Field = FieldEvidenceType, es_Value = ''jenkins''\<rparr>, \<lparr>es_Field = FieldKey, es_Value = ''repository''\<rparr>]\<rparr>],
      rp_Rules =
        [rule ''extract-jenkins-shared-libraries'' ExtractKey 10 0,
         rule ''match-jenkins-repositories-and-pipelines'' Match 20 6,
         rule ''derive-controller-or-service-role'' Derive 30 0,
         rule ''admit-delivery-evidence'' Admit 40 0,
         rule ''explain-jenkins-correlation'' Explain 50 0]\<rparr>"

definition HelmRulePack :: RulePack where
  "HelmRulePack =
     \<lparr>rp_Name = ''helm'', rp_MinAdmissionConfidence = Num (43 / 50),
      rp_RequiredEvidence = [\<lparr>er_Name = ''release-mapping'', er_MinCount = 1, er_MatchAll =
         [\<lparr>es_Field = FieldEvidenceType, es_Value = ''helm''\<rparr>, \<lparr>es_Field = FieldKey, es_Value = ''release''\<rparr>]\<rparr>],
      rp_Rules =
        [rule ''extract-release-and-image-keys'' ExtractKey 10 0,
         rule ''match-helm-chart-and-values'' Match 20 8,
         rule ''derive-deployment-ownership-signal'' Derive 30 0,
         rule ''admit-deployment-mapping-evidence'' Admit 40 0,
         rule ''explain-helm-correlation'' Explain 50 0]\<rparr>"

definition ArgoCDRulePack :: RulePack where
  "ArgoCDRulePack =
     \<lparr>rp_Name = ''argocd'', rp_MinAdmissionConfidence = Num (9 / 10),
      rp_RequiredEvidence = [\<lparr>er_Name = ''application-mapping'', er_MinCount = 1, er_MatchAll =
         [\<lparr>es_Field = FieldEvidenceType, es_Value = ''argocd''\<rparr>, \<lparr>es_Field = FieldKey, es_Value = ''application''\<rparr>]\<rparr>],
      rp_Rules =
        [rule ''extract-application-and-destination-keys'' ExtractKey 10 0,
         rule ''match-applicationset-and-deploy-source'' Match 20 8,
         rule ''derive-platform-placement'' Derive 30 0,
         rule ''admit-controller-backed-deployment'' Admit 40 0,
         rule ''explain-argocd-correlation'' Explain 50 0]\<rparr>"

definition KustomizeRulePack :: RulePack where
  "KustomizeRulePack =
     \<lparr>rp_Name = ''kustomize'', rp_MinAdmissionConfidence = Num (83 / 100),
      rp_RequiredEvidence = [\<lparr>er_Name = ''resource-mapping'', er_MinCount = 1, er_MatchAll =
         [\<lparr>es_Field = FieldEvidenceType, es_Value = ''kustomize''\<rparr>, \<lparr>es_Field = FieldKey, es_Value = ''resource''\<rparr>]\<rparr>],
      rp_Rules =
        [rule ''extract-kustomize-resource-and-image-keys'' ExtractKey 10 0,
         rule ''match-kustomize-resources-with-app-references'' Match 20 8,
         rule ''derive-kustomize-deployment-source'' Derive 30 0,
         rule ''admit-kustomize-deployment-evidence'' Admit 40 0,
         rule ''explain-kustomize-correlation'' Explain 50 0]\<rparr>"

definition TerraformConfigRulePack :: RulePack where
  "TerraformConfigRulePack =
     \<lparr>rp_Name = ''terraform_config'', rp_MinAdmissionConfidence = Num (91 / 100),
      rp_RequiredEvidence = [\<lparr>er_Name = ''module-mapping'', er_MinCount = 1, er_MatchAll =
         [\<lparr>es_Field = FieldEvidenceType, es_Value = ''terraform_config''\<rparr>, \<lparr>es_Field = FieldKey, es_Value = ''module''\<rparr>]\<rparr>],
      rp_Rules =
        [rule ''extract-module-and-repository-keys'' ExtractKey 10 0,
         rule ''match-app-repo-module-and-config-paths'' Match 20 8,
         rule ''derive-provisioning-ownership'' Derive 30 0,
         rule ''admit-provisioning-evidence'' Admit 40 0,
         rule ''explain-terraform-correlation'' Explain 50 0]\<rparr>"

definition TerragruntRulePack :: RulePack where
  "TerragruntRulePack =
     \<lparr>rp_Name = ''terragrunt'', rp_MinAdmissionConfidence = Num (19 / 25),
      rp_RequiredEvidence = [\<lparr>er_Name = ''config-path'', er_MinCount = 1, er_MatchAll =
         [\<lparr>es_Field = FieldEvidenceType, es_Value = ''terragrunt''\<rparr>, \<lparr>es_Field = FieldKey, es_Value = ''config_path''\<rparr>]\<rparr>],
      rp_Rules =
        [rule ''extract-terragrunt-config-and-module-keys'' ExtractKey 10 0,
         rule ''match-terragrunt-dependencies-with-config-assets'' Match 20 8,
         rule ''derive-config-discovery-scope'' Derive 30 0,
         rule ''admit-config-discovery-evidence'' Admit 40 0,
         rule ''explain-terragrunt-correlation'' Explain 50 0]\<rparr>"

definition AnsibleRulePack :: RulePack where
  "AnsibleRulePack =
     \<lparr>rp_Name = ''ansible'', rp_MinAdmissionConfidence = Num (19 / 25),
      rp_RequiredEvidence = [\<lparr>er_Name = ''role-reference'', er_MinCount = 1, er_MatchAll =
         [\<lparr>es_Field = FieldEvidenceType, es_Value = ''ansible''\<rparr>, \<lparr>es_Field = FieldKey, es_Value = ''role''\<rparr>]\<rparr>],
      rp_Rules =
        [rule ''extract-ansible-role-and-inventory-keys'' ExtractKey 10 0,
         rule ''match-ansible-roles-with-config-targets'' Match 20 8,
         rule ''derive-config-discovery-scope'' Derive 30 0,
         rule ''admit-config-discovery-evidence'' Admit 40 0,
         rule ''explain-ansible-correlation'' Explain 50 0]\<rparr>"

definition CloudFormationRulePack :: RulePack where
  "CloudFormationRulePack =
     \<lparr>rp_Name = ''cloudformation'', rp_MinAdmissionConfidence = Num (79 / 100),
      rp_RequiredEvidence = [\<lparr>er_Name = ''stack-template'', er_MinCount = 1, er_MatchAll =
         [\<lparr>es_Field = FieldEvidenceType, es_Value = ''cloudformation''\<rparr>, \<lparr>es_Field = FieldKey, es_Value = ''stack''\<rparr>]\<rparr>],
      rp_Rules =
        [rule ''extract-stack-and-resource-keys'' ExtractKey 10 0,
         rule ''match-stack-outputs-and-runtime-identifiers'' Match 20 8,
         rule ''derive-cloudformation-deployable-unit'' Derive 30 0,
         rule ''admit-cloudformation-evidence'' Admit 40 0,
         rule ''explain-cloudformation-correlation'' Explain 50 0]\<rparr>"

definition ContainerRulePacks :: "RulePack list" where
  "ContainerRulePacks =
     [DockerfileRulePack, DockerComposeRulePack, GitHubActionsRulePack, JenkinsRulePack, HelmRulePack, ArgoCDRulePack, KustomizeRulePack, TerraformConfigRulePack, CloudFormationRulePack]"

definition FirstPartyRulePacks :: "RulePack list" where
  "FirstPartyRulePacks =
     [DockerfileRulePack, DockerComposeRulePack, GitHubActionsRulePack, JenkinsRulePack, HelmRulePack, ArgoCDRulePack, KustomizeRulePack, TerraformConfigRulePack, TerragruntRulePack, AnsibleRulePack, CloudFormationRulePack]"

section \<open>Rendering\<close>

text \<open>\<open>%.2f\<close>: the hundredths nearest to the value, a tie going to the even one.\<close>

definition hundredths :: "rat \<Rightarrow> int" where
  "hundredths q =
     (let n = floor (100 * q); r = 100 * q - of_int n
      in if r < 1 / 2 then n else if 1 / 2 < r then n + 1 else if even n then n else n + 1)"

definition pad2 :: "int \<Rightarrow> string" where
  "pad2 n = (if n < 10 then ''0'' else []) @ show_int n"

fun format_f64 :: "f64 \<Rightarrow> string" where
  "format_f64 (Num q) =
     (let n = hundredths (abs q)
      in (if q < 0 then ''-'' else []) @ show_int (n div 100) @ ''.'' @ pad2 (n mod 100))"
| "format_f64 PosInf = ''+Inf''"
| "format_f64 NegInf = ''-Inf''"
| "format_f64 NaN = ''NaN''"

fun state_text :: "CandidateState \<Rightarrow> string" where
  "state_text Rejected = ''rejected''"
| "state_text Provisional = ''provisional''"
| "state_text Admitted = ''admitted''"
| "state_text (OtherState s) = s"

fun reason_text :: "RejectionReason \<Rightarrow> string" where
  "reason_text LowConfidence = ''low_confidence''"
| "reason_text StructuralMismatch = ''structural_mismatch''"
| "reason_text LostTieBreak = ''lost_tie_break''"
| "reason_text (OtherReason s) = s"

definition compareEvidence :: "EvidenceAtom \<Rightarrow> EvidenceAtom \<Rightarrow> int" where
  "compareEvidence l r =
     (if ea_ID l \<noteq> ea_ID r then (if ea_ID l < ea_ID r then -1 else 1)
      else if ea_SourceSystem l \<noteq> ea_SourceSystem r then (if ea_SourceSystem l < ea_SourceSystem r then -1 else 1)
      else compare (ea_EvidenceType l) (ea_EvidenceType r))"

definition renderEvidence :: "EvidenceAtom \<Rightarrow> string" where
  "renderEvidence a =
     ''evidence id='' @ ea_ID a @ '' source='' @ ea_SourceSystem a @ '' type='' @ ea_EvidenceType a
     @ '' key='' @ ea_Key a @ '' value='' @ ea_Value a @ '' confidence='' @ format_f64 (ea_Confidence a)"

fun join_lines :: "string list \<Rightarrow> string" where
  "join_lines [] = []"
| "join_lines [s] = s"
| "join_lines (s # t # ss) = s @ [CHR 0x0A] @ join_lines (t # ss)"

definition render_lines :: "Result \<Rightarrow> string list" where
  "render_lines r =
     (let c = re_Candidate r in
      [''candidate='' @ ca_ID c @ '' kind='' @ ca_Kind c @ '' key='' @ ca_CorrelationKey c
       @ '' state='' @ state_text (ca_State c) @ '' confidence='' @ format_f64 (ca_Confidence c)]
      @ map (\<lambda>name. ''match_count rule='' @ name @ '' count=''
               @ show_int (case map_of (re_MatchCounts r) name of Some n \<Rightarrow> n | None \<Rightarrow> 0))
            (sort_by compare (map fst (re_MatchCounts r)))
      @ map (\<lambda>reason. ''rejection_reason='' @ reason) (sort_by compare (map reason_text (ca_RejectionReasons c)))
      @ map renderEvidence (sort_by compareEvidence (ca_Evidence c)))"

definition Render :: "Result \<Rightarrow> string" where
  "Render r = join_lines (render_lines r)"

section \<open>The packs are valid\<close>

lemmas pack_defs = DockerfileRulePack_def DockerComposeRulePack_def GitHubActionsRulePack_def JenkinsRulePack_def HelmRulePack_def ArgoCDRulePack_def KustomizeRulePack_def TerraformConfigRulePack_def TerragruntRulePack_def AnsibleRulePack_def CloudFormationRulePack_def

lemma packs_valid:
  "RulePack_Validate DockerfileRulePack = None"
  "RulePack_Validate DockerComposeRulePack = None"
  "RulePack_Validate GitHubActionsRulePack = None"
  "RulePack_Validate JenkinsRulePack = None"
  "RulePack_Validate HelmRulePack = None"
  "RulePack_Validate ArgoCDRulePack = None"
  "RulePack_Validate KustomizeRulePack = None"
  "RulePack_Validate TerraformConfigRulePack = None"
  "RulePack_Validate TerragruntRulePack = None"
  "RulePack_Validate AnsibleRulePack = None"
  "RulePack_Validate CloudFormationRulePack = None"
  by (simp_all add: pack_defs rule_def RulePack_Validate_def EvidenceRequirement_Validate_def EvidenceSelector_Validate_def
      Rule_Validate_def outside_unit_def solid_not_blank solid_simps)

lemma valid_candidate_evaluates:
  assumes "RulePack_Validate p = None" and "Candidate_Validate c = None"
  shows "\<exists>r. evaluate_one p c = Inr r"
  using assms by (auto simp: RulePack_Validate_def evaluate_one_def admission_Evaluate_def Let_def)

lemma valid_pack_evaluates:
  assumes "RulePack_Validate p = None" and "\<forall>c \<in> set cs. Candidate_Validate c = None"
  shows "\<exists>ev. Evaluate p cs = Inr ev"
proof -
  have "\<exists>rs. evaluate_all p cs = Inr rs"
    using evaluate_all_each valid_candidate_evaluates [OF assms(1)] assms(2) by blast
  with assms(1) show ?thesis by (auto simp: Evaluate_def)
qed

text \<open>
  every rule pack the program ships passes its own validation, so evaluating candidates
  against a shipped pack fails only on a candidate that is itself malformed.
\<close>

theorem shipped_packs_valid:
  "list_all (\<lambda>p. RulePack_Validate p = None) FirstPartyRulePacks \<and> set ContainerRulePacks \<subseteq> set FirstPartyRulePacks
    \<and> (\<forall>p \<in> set FirstPartyRulePacks. \<forall>cs. list_all (\<lambda>c. Candidate_Validate c = None) cs
         \<longrightarrow> (\<exists>ev. Evaluate p cs = Inr ev))"
proof (intro conjI ballI allI impI)
  show valid: "list_all (\<lambda>p. RulePack_Validate p = None) FirstPartyRulePacks"
    unfolding FirstPartyRulePacks_def by (simp add: packs_valid)
  show "set ContainerRulePacks \<subseteq> set FirstPartyRulePacks"
    unfolding ContainerRulePacks_def FirstPartyRulePacks_def by auto
  fix p cs assume "p \<in> set FirstPartyRulePacks" and "list_all (\<lambda>c. Candidate_Validate c = None) cs"
  with valid show "\<exists>ev. Evaluate p cs = Inr ev"
    by (intro valid_pack_evaluates) (auto simp: list_all_iff)
qed

definition example_candidate :: "string \<Rightarrow> rat \<Rightarrow> Candidate" where
  "example_candidate i q =
     \<lparr>ca_ID = i, ca_Kind = ''deployable_unit'', ca_CorrelationKey = ''api'', ca_Confidence = Num q, ca_State = Provisional,
      ca_Evidence = [\<lparr>ea_ID = ''e1'', ea_SourceSystem = ''git'', ea_EvidenceType = ''dockerfile'', ea_ScopeID = ''s'',
        ea_Key = ''image'', ea_Value = ''api:1'', ea_Confidence = Num 1\<rparr>],
      ca_RejectionReasons = []\<rparr>"

lemma example_candidate_valid:
  assumes "solid i" and "0 \<le> q" and "q \<le> 1"
  shows "Candidate_Validate (example_candidate i q) = None"
  using assms
  by (simp add: Candidate_Validate_def EvidenceAtom_Validate_def example_candidate_def outside_unit_def)
    (simp add: solid_simps)

theorem shipped_packs_valid_witness:
  "\<exists>ev. Evaluate DockerfileRulePack [example_candidate ''a'' 1, example_candidate ''b'' (1 / 2)] = Inr ev"
  using shipped_packs_valid [THEN conjunct2, THEN conjunct2, rule_format, of DockerfileRulePack
      "[example_candidate ''a'' 1, example_candidate ''b'' (1 / 2)]"]
  by (simp add: FirstPartyRulePacks_def example_candidate_valid solid_simps)

lemma example_gates:
  "gates DockerfileRulePack (example_candidate i q) \<longleftrightarrow> 9 / 10 \<le> q"
  by (auto simp: gates_def DockerfileRulePack_def example_candidate_def f_le_def f_eq_def satisfiesRequirements_def
      matchesRequirement_def)

lemma example_evaluates:
  "\<exists>ev. Evaluate DockerfileRulePack [example_candidate ''a'' (19 / 20), example_candidate ''b'' 1] = Inr ev"
  by (rule valid_pack_evaluates) (auto simp: packs_valid example_candidate_valid solid_simps)

theorem one_winner_per_key_witness:
  "\<exists>ev. Evaluate DockerfileRulePack [example_candidate ''a'' (19 / 20), example_candidate ''b'' 1] = Inr ev
    \<and> length (filter (\<lambda>r. ca_CorrelationKey (re_Candidate r) = ''api'' \<and> ca_State (re_Candidate r) = Admitted)
        (ev_Results ev)) = 1
    \<and> (\<forall>r \<in> set (ev_Results ev). ca_State (re_Candidate r) = Admitted \<longrightarrow> ca_ID (re_Candidate r) = ''b'')"
proof -
  let ?a = "example_candidate ''a'' (19 / 20)" and ?b = "example_candidate ''b'' 1"
  obtain ev where ev: "Evaluate DockerfileRulePack [?a, ?b] = Inr ev" using example_evaluates by blast
  note won = one_winner_per_key [OF ev]
  have keys: "ca_CorrelationKey ?a = ''api''" "ca_CorrelationKey ?b = ''api''" "ca_ID ?b = ''b''"
    by (simp_all add: example_candidate_def)
  have "\<not> compareCandidates ?a ?b \<le> 0"
    by (simp add: compareCandidates_def example_candidate_def f_eq_def f_compare_def)
  then have "ca_ID (re_Candidate r) = ''b''" if "r \<in> set (ev_Results ev)" "ca_State (re_Candidate r) = Admitted" for r
    using won [THEN conjunct2, rule_format, OF that] keys by (auto simp: example_gates)
  moreover have "\<exists>c \<in> set [?a, ?b]. ca_CorrelationKey c = ''api'' \<and> gates DockerfileRulePack c"
    using keys by (simp add: example_gates)
  then have "length (filter (\<lambda>r. ca_CorrelationKey (re_Candidate r) = ''api'' \<and> ca_State (re_Candidate r) = Admitted)
      (ev_Results ev)) = 1"
    by (simp only: won [of "''api''", THEN conjunct1] if_True)
  ultimately show ?thesis using ev by blast
qed

theorem evaluation_order_free_witness:
  "\<exists>ev. Evaluate DockerfileRulePack [example_candidate ''a'' (19 / 20), example_candidate ''b'' 1] = Inr ev
    \<and> Evaluate DockerfileRulePack [example_candidate ''b'' 1, example_candidate ''a'' (19 / 20)] = Inr ev"
proof -
  obtain ev where ev: "Evaluate DockerfileRulePack [example_candidate ''a'' (19 / 20), example_candidate ''b'' 1] = Inr ev"
    using example_evaluates by blast
  have "Evaluate DockerfileRulePack [example_candidate ''b'' 1, example_candidate ''a'' (19 / 20)] = Inr ev"
    by (rule evaluation_order_free [OF ev]) (simp_all add: candidate_key_def example_candidate_def add_mset_commute)
  with ev show ?thesis by blast
qed

end
