(* ===== verification/ClaimedService.thy ===== *)
theory ClaimedService
  imports ClaimStore Scope
begin

text \<open>
  \<open>go/internal/collector/claimed_service.go\<close>: the collector that works through durable claims.
  The heartbeat goroutine and the other processes' transactions run while the source collects
  and while the committer writes: each such stretch is a list of events in the order the database
  serves them. The source and the committer are parameters that act on a world of their own;
  \<open>text\<close> prints an error.
\<close>

section \<open>The service\<close>

text \<open>\<open>CollectedGeneration\<close> of \<open>service.go\<close>; \<open>cg_Facts\<close> is what its channel delivers.\<close>

record 'f CollectedGeneration =
  cg_Scope :: IngestionScope
  cg_Generation :: ScopeGeneration
  cg_Facts :: 'f
  cg_FactCount :: int

record ClaimedService =
  svc_HasControlStore :: bool
  svc_HasSource :: bool
  svc_HasCommitter :: bool
  svc_CollectorKind :: CollectorKind
  svc_CollectorInstanceID :: string
  svc_OwnerID :: string
  svc_HasClaimIDFunc :: bool
  svc_PollInterval :: duration
  svc_ClaimLeaseTTL :: duration
  svc_HeartbeatInterval :: duration

text \<open>\<open>NextClaimed\<close> fails, has nothing for the item, or yields a generation.\<close>

record ('w, 'f) Collector =
  col_NextClaimed :: "WorkItem \<Rightarrow> 'w \<Rightarrow> 'f CollectedGeneration option result \<times> 'w"
  col_Commit :: "IngestionScope \<Rightarrow> ScopeGeneration \<Rightarrow> 'f \<Rightarrow> 'w \<Rightarrow> error option \<times> 'w"
  col_ErrorText :: "error \<Rightarrow> string"

definition ClaimedService_validate :: "ClaimedService \<Rightarrow> error option" where
  "ClaimedService_validate s = first_err
     [check (\<not> svc_HasControlStore s) (Required ''claim control store''),
      check (\<not> svc_HasSource s) (Required ''claimed source''),
      check (\<not> svc_HasCommitter s) (Required ''collector committer''),
      check (blank (svc_CollectorKind s)) (Required ''collector kind''),
      check (blank (svc_CollectorInstanceID s)) (Required ''collector instance id''),
      check (blank (svc_OwnerID s)) (Required ''owner id''),
      check (\<not> svc_HasClaimIDFunc s) (Required ''claim id function''),
      check (svc_PollInterval s \<le> 0) (NotPositive ''collector poll interval''),
      check (svc_ClaimLeaseTTL s \<le> 0) (NotPositive ''claim lease TTL''),
      check (svc_HeartbeatInterval s \<le> 0) (NotPositive ''claim heartbeat interval''),
      check (svc_ClaimLeaseTTL s \<le> svc_HeartbeatInterval s)
        (Msg ''claim heartbeat interval must be less than lease TTL'')]"

definition claimMutation :: "ClaimedService \<Rightarrow> time \<Rightarrow> WorkItem \<Rightarrow> Claim \<Rightarrow> ClaimMutation" where
  "claimMutation s now item claim =
     \<lparr>mut_WorkItemID = wi_WorkItemID item, mut_ClaimID = cl_ClaimID claim,
      mut_FencingToken = cl_FencingToken claim, mut_OwnerID = cl_OwnerID claim,
      mut_ObservedAt = utc now, mut_LeaseDuration = svc_ClaimLeaseTTL s,
      mut_FailureClass = [], mut_FailureMessage = [], mut_VisibleAt = 0\<rparr>"

definition withFailure :: "(error \<Rightarrow> string) \<Rightarrow> ClaimMutation \<Rightarrow> string \<Rightarrow> error \<Rightarrow> ClaimMutation" where
  "withFailure text m failureClass e = m\<lparr>mut_FailureClass := failureClass, mut_FailureMessage := text e\<rparr>"

definition validateClaimedGeneration :: "WorkItem \<Rightarrow> 'f CollectedGeneration \<Rightarrow> error option" where
  "validateClaimedGeneration item c =
     (let sc = cg_Scope c; generation = cg_Generation c in first_err
       [check (sc_ScopeID sc \<noteq> wi_ScopeID item)
          (Fmt ''claimed scope_id %q produced scope_id %q'' [wi_ScopeID item, sc_ScopeID sc]),
        check (sc_SourceSystem sc \<noteq> wi_SourceSystem item)
          (Fmt ''claimed source_system %q produced source_system %q'' [wi_SourceSystem item, sc_SourceSystem sc]),
        check (gen_GenerationID generation \<noteq> wi_GenerationID item)
          (Fmt ''claimed generation_id %q produced generation_id %q'' [wi_GenerationID item, gen_GenerationID generation]),
        check (gen_GenerationID generation \<noteq> wi_SourceRunID item)
          (Fmt ''claimed source_run_id %q produced generation_id %q'' [wi_SourceRunID item, gen_GenerationID generation])])"

section \<open>Heartbeats in the background\<close>

text \<open>
  An event while the main goroutine is busy: the heartbeat ticker fires and reads the clock, or
  other processes change the tables. The first heartbeat that fails ends the loop and its error
  waits in the channel.
\<close>

datatype background =
    Tick time
  | Others "ControlDb \<Rightarrow> ControlDb"

definition heartbeat_tick ::
  "ControlStore \<Rightarrow> ClaimMutation \<Rightarrow> time \<Rightarrow> error option \<times> ControlDb \<Rightarrow> error option \<times> ControlDb" where
  "heartbeat_tick store m now st =
     (case fst st of
        Some e \<Rightarrow> st
      | None \<Rightarrow>
          (case HeartbeatClaim store (m\<lparr>mut_ObservedAt := utc now\<rparr>) (snd st) of
             (None, db) \<Rightarrow> (None, db)
           | (Some e, db) \<Rightarrow> (Some (Wrap ''heartbeat claimed git work item'' e), db)))"

fun in_background ::
  "ControlStore \<Rightarrow> ClaimMutation \<Rightarrow> background list \<Rightarrow> error option \<times> ControlDb \<Rightarrow> error option \<times> ControlDb" where
  "in_background store m [] st = st"
| "in_background store m (Tick now # bs) st = in_background store m bs (heartbeat_tick store m now st)"
| "in_background store m (Others f # bs) (h, db) = in_background store m bs (h, f db)"

section \<open>One claimed work item\<close>

definition failRetryable ::
  "(error \<Rightarrow> string) \<Rightarrow> ControlStore \<Rightarrow> ClaimMutation \<Rightarrow> string \<Rightarrow> error \<Rightarrow> ControlDb \<Rightarrow> error option \<times> ControlDb" where
  "failRetryable text store m failureClass e db =
     (case FailClaimRetryable store (withFailure text m failureClass e) db of
        (Some f, db') \<Rightarrow> (Some (Wrap ''retryable-fail claimed git work item'' f), db')
      | (None, db') \<Rightarrow> (Some (Wrap failureClass e), db'))"

text \<open>
  \<open>during\<close> happens while the source collects, \<open>committing\<close> while the committer writes, and
  \<open>ending\<close> between the reading of the heartbeat channel and the completion.
\<close>

record schedule =
  sch_Start :: time
  sch_During :: "background list"
  sch_Committing :: "background list"
  sch_Ending :: "background list"

definition complete_claimed :: "ControlStore \<Rightarrow> ClaimMutation \<Rightarrow> background list \<Rightarrow> error option \<times> ControlDb \<Rightarrow> error option \<times> ControlDb" where
  "complete_claimed store m ending st =
     (case fst st of
        Some e \<Rightarrow> st
      | None \<Rightarrow>
          (case CompleteClaim store m (snd (in_background store m ending st)) of
             (Some e, db) \<Rightarrow> (Some (Wrap ''complete claimed git work item'' e), db)
           | (None, db) \<Rightarrow> (None, db)))"

definition commit_claimed ::
  "('w, 'f) Collector \<Rightarrow> ControlStore \<Rightarrow> ClaimMutation \<Rightarrow> schedule \<Rightarrow> 'f CollectedGeneration
   \<Rightarrow> error option \<times> ControlDb \<Rightarrow> 'w \<Rightarrow> error option \<times> 'w \<times> ControlDb" where
  "commit_claimed col store m sch c st w =
     (case col_Commit col (cg_Scope c) (cg_Generation c) (cg_Facts c) w of
        (Some e, w') \<Rightarrow>
          (case failRetryable (col_ErrorText col) store m ''commit_failure'' e
                  (snd (in_background store m (sch_Committing sch) st)) of
             (r, db) \<Rightarrow> (r, w', db))
      | (None, w') \<Rightarrow>
          (case complete_claimed store m (sch_Ending sch) (in_background store m (sch_Committing sch) st) of
             (r, db) \<Rightarrow> (r, w', db)))"

definition settle_collected ::
  "bool \<Rightarrow> ('w, 'f) Collector \<Rightarrow> ControlStore \<Rightarrow> ClaimMutation \<Rightarrow> schedule \<Rightarrow> WorkItem
   \<Rightarrow> 'f CollectedGeneration option result \<Rightarrow> error option \<times> ControlDb \<Rightarrow> 'w \<Rightarrow> error option \<times> 'w \<times> ControlDb" where
  "settle_collected untyped col store m sch item collected st w =
     (case collected of
        Inl e \<Rightarrow>
          (case failRetryable (col_ErrorText col) store m ''collect_failure'' e (snd st) of (r, db) \<Rightarrow> (r, w, db))
      | Inr None \<Rightarrow>
          (case ReleaseClaim store m (snd st) of
             (Some e, db) \<Rightarrow> (Some (Wrap ''release claimed git work item'' e), w, db)
           | (None, db) \<Rightarrow> (None, w, db))
      | Inr (Some c) \<Rightarrow>
          (case validateClaimedGeneration item c of
             Some e \<Rightarrow>
               (case FailClaimTerminal untyped store
                       (withFailure (col_ErrorText col) m ''identity_mismatch'' e) (snd st) of
                  (Some f, db) \<Rightarrow> (Some (Wrap ''terminal-fail mismatched git claim'' f), w, db)
                | (None, db) \<Rightarrow> (Some e, w, db))
           | None \<Rightarrow> commit_claimed col store m sch c st w))"

definition processClaimed ::
  "bool \<Rightarrow> ('w, 'f) Collector \<Rightarrow> ControlStore \<Rightarrow> ClaimedService \<Rightarrow> schedule \<Rightarrow> WorkItem \<Rightarrow> Claim
   \<Rightarrow> 'w \<Rightarrow> ControlDb \<Rightarrow> error option \<times> 'w \<times> ControlDb" where
  "processClaimed untyped col store s sch item claim w db =
     (let m = claimMutation s (sch_Start sch) item claim in
      case HeartbeatClaim store m db of
        (Some e, db1) \<Rightarrow> (Some (Wrap ''heartbeat claimed git work item'' e), w, db1)
      | (None, db1) \<Rightarrow>
          (case col_NextClaimed col item w of
             (collected, w1) \<Rightarrow>
               settle_collected untyped col store m sch item collected
                 (in_background store m (sch_During sch) (None, db1)) w1))"

text \<open>One turn of \<open>Run\<close>'s loop: an error ends the service, no work means a wait.\<close>

datatype turn = Stopped error | Waited | Processed

definition run_turn ::
  "(string \<Rightarrow> string \<Rightarrow> int) \<Rightarrow> string set \<Rightarrow> bool \<Rightarrow> ('w, 'f) Collector \<Rightarrow> ControlStore \<Rightarrow> ClaimedService
   \<Rightarrow> string \<Rightarrow> time \<Rightarrow> schedule \<Rightarrow> 'w \<Rightarrow> ControlDb \<Rightarrow> turn \<times> 'w \<times> ControlDb" where
  "run_turn collate locked untyped col store s rawClaimID now sch w db =
     (let claimID = trim_space rawClaimID in
      if claimID = [] then (Stopped (Required ''claim id''), w, db)
      else case ClaimNextEligible collate locked store
          \<lparr>sel_CollectorKind = svc_CollectorKind s, sel_CollectorInstanceID = svc_CollectorInstanceID s,
           sel_OwnerID = svc_OwnerID s, sel_ClaimID = claimID\<rparr> (utc now) (svc_ClaimLeaseTTL s) db of
        Inl e \<Rightarrow> (Stopped (Wrap ''claim next git work item'' e), w, db)
      | Inr (None, db1) \<Rightarrow> (Waited, w, db1)
      | Inr (Some (item, claim), db1) \<Rightarrow>
          (case processClaimed untyped col store s sch item claim w db1 of
             (Some e, w', db') \<Rightarrow> (Stopped e, w', db')
           | (None, w', db') \<Rightarrow> (Processed, w', db')))"

section \<open>The claim while the collector works\<close>

text \<open>A heartbeat neither ends nor starts a claim, and the holder of an active claim is heard.\<close>

lemma update_rows_same_active:
  assumes "\<And>c. claim_ticket (fc c) = claim_ticket c" and "\<And>c. cr_Status (fc c) = cr_Status c"
  shows "active (update_rows fc fi db) = active db"
proof -
  have "{c \<in> fc ` set (db_Claims db). cr_Status c = ClaimStatusActive}
      = fc ` {c \<in> set (db_Claims db). cr_Status c = ClaimStatusActive}"
    using assms(2) by auto
  then show ?thesis using assms(1) by (simp add: active_def update_rows_def image_image)
qed

lemma heartbeat_update_active:
  assumes "heartbeatWorkflowClaimQuery m lease db = Inr (n, db')"
  shows "active db' = active db"
proof (cases lease)
  case None
  with assms show ?thesis by (simp add: heartbeatWorkflowClaimQuery_def split: if_splits)
next
  case (Some t)
  have "fenced_update m
     (\<lambda>c. c\<lparr>cr_HeartbeatAt := utc (mut_ObservedAt m), cr_LeaseExpiresAt := t, cr_UpdatedAt := utc (mut_ObservedAt m)\<rparr>)
     (\<lambda>i. i\<lparr>ir_LeaseExpiresAt := Some t, ir_UpdatedAt := utc (mut_ObservedAt m)\<rparr>) db = Inr (n, db')"
    using assms Some by (simp add: heartbeatWorkflowClaimQuery_def)
  then show ?thesis
    by (cases rule: fenced_update_cases) (simp_all add: update_rows_same_active claim_ticket_def)
qed

lemma HeartbeatClaim_active:
  assumes "HeartbeatClaim s m db = (e, db')"
  shows "active db' = active db"
proof (cases "effectiveClaimLeaseTTL s (mut_LeaseDuration m)")
  case (Inl f)
  with assms show ?thesis by (simp add: HeartbeatClaim_def)
next
  case (Inr ttl)
  with assms have "execClaimMutation s m heartbeatWorkflowClaimQuery (utc (mut_ObservedAt m) + ttl) db = (e, db')"
    by (simp add: HeartbeatClaim_def)
  then show ?thesis by (cases rule: execClaimMutation_cases) (auto dest: heartbeat_update_active)
qed

lemma HeartbeatClaim_ok:
  "HeartbeatClaim s m db = (e, db') \<Longrightarrow> control_ok db \<Longrightarrow> control_ok db'"
  using control.step_preserves step_mutation mutation_heartbeat by blast

lemma HeartbeatClaim_accepted:
  assumes "control_ok db" and "mutation_ticket m \<in> active db" and "requires_database s = None"
    and "validateClaimMutation m = None" and ttl: "effectiveClaimLeaseTTL s (mut_LeaseDuration m) = Inr ttl"
    and later: "0 < mut_ObservedAt m"
  shows "\<exists>d. HeartbeatClaim s m db = (None, d)"
proof -
  have "0 < ttl" using ttl by (auto simp: effectiveClaimLeaseTTL_def Let_def split: if_splits)
  with later have lease: "nullableTime (utc (mut_ObservedAt m) + ttl) = Some (mut_ObservedAt m + ttl)"
    by (simp add: nullableTime_def is_zero_def)
  have "\<exists>d i. execClaimMutation s m heartbeatWorkflowClaimQuery (utc (mut_ObservedAt m) + ttl) db = (None, d)
      \<and> item_of d (mut_WorkItemID m) = Some i \<and> True"
    unfolding execClaimMutation_def mutation_guards [OF assms(3,4)] option.case lease heartbeatWorkflowClaimQuery_def
    by (rule fenced_exec [OF assms(1,2)]) simp_all
  then show ?thesis using ttl by (auto simp: HeartbeatClaim_def)
qed

text \<open>
  What other processes may do: any run of the store. An undisturbed stretch leaves the claim
  active, and the clock reads instants after the zero time.
\<close>

definition transactions :: "background list \<Rightarrow> bool" where
  "transactions bs \<longleftrightarrow> (\<forall>f. Others f \<in> set bs \<longrightarrow> (\<forall>d. run control_step d (f d)))"

definition undisturbed :: "string \<times> string \<times> int \<times> string \<Rightarrow> background list \<Rightarrow> bool" where
  "undisturbed ticket bs \<longleftrightarrow> transactions bs \<and> (\<forall>t. Tick t \<in> set bs \<longrightarrow> 0 < t)
     \<and> (\<forall>f d. Others f \<in> set bs \<longrightarrow> ticket \<in> active d \<longrightarrow> ticket \<in> active (f d))"

fun others :: "background list \<Rightarrow> ControlDb \<Rightarrow> ControlDb" where
  "others [] db = db"
| "others (Tick t # bs) db = others bs db"
| "others (Others f # bs) db = others bs (f db)"

lemma transactions_simps [simp]:
  "transactions []" "transactions (Tick t # bs) = transactions bs"
  "transactions (Others f # bs) \<longleftrightarrow> (\<forall>d. run control_step d (f d)) \<and> transactions bs"
  by (auto simp: transactions_def)

lemma undisturbed_simps [simp]:
  "undisturbed k []" "undisturbed k (Tick t # bs) \<longleftrightarrow> 0 < t \<and> undisturbed k bs"
  "undisturbed k (Others f # bs) \<longleftrightarrow> (\<forall>d. run control_step d (f d))
     \<and> (\<forall>d. k \<in> active d \<longrightarrow> k \<in> active (f d)) \<and> undisturbed k bs"
  by (auto simp: undisturbed_def)

lemma heartbeat_tick_keeps:
  assumes "heartbeat_tick store m now (h, db) = (h', db')"
  shows "(control_ok db \<longrightarrow> control_ok db') \<and> active db' = active db"
  using assms HeartbeatClaim_ok HeartbeatClaim_active
  by (fastforce simp: heartbeat_tick_def split: option.splits prod.splits)

lemma in_background_ok:
  "transactions bs \<Longrightarrow> control_ok db \<Longrightarrow> control_ok (snd (in_background store m bs (h, db)))"
proof (induction bs arbitrary: h db)
  case (Cons b bs)
  show ?case
  proof (cases b)
    case (Tick t)
    obtain h' db' where "heartbeat_tick store m t (h, db) = (h', db')" by fastforce
    with Cons Tick heartbeat_tick_keeps [OF this] show ?thesis by simp
  next
    case (Others f)
    with Cons.prems have "transactions bs" "control_ok (f db)" using control.run_preserves by auto
    with Others Cons.IH show ?thesis by simp
  qed
qed simp

lemma in_background_undisturbed:
  assumes "undisturbed (mutation_ticket m) bs" and "control_ok db" and "mutation_ticket m \<in> active db"
    and "requires_database store = None" and "validateClaimMutation m = None"
    and "effectiveClaimLeaseTTL store (mut_LeaseDuration m) = Inr ttl"
  obtains db' where "in_background store m bs (None, db) = (None, db')" and "control_ok db'"
    and "mutation_ticket m \<in> active db'"
proof -
  have "\<exists>db'. in_background store m bs (None, db) = (None, db') \<and> control_ok db' \<and> mutation_ticket m \<in> active db'"
    using assms(1-3)
  proof (induction bs arbitrary: db)
    case (Cons b bs)
    show ?case
    proof (cases b)
      case (Tick t)
      let ?m = "m\<lparr>mut_ObservedAt := t\<rparr>"
      have "0 < t" using Cons.prems(1) Tick by simp
      then have "validateClaimMutation ?m = None" using assms(5) by (simp add: validateClaimMutation_def is_zero_def)
      with HeartbeatClaim_accepted [OF Cons.prems(2), of ?m store ttl] Cons.prems(3) assms(4,6) \<open>0 < t\<close>
      obtain d where d: "HeartbeatClaim store ?m db = (None, d)" by (auto simp: mutation_ticket_def)
      with Cons Tick HeartbeatClaim_ok [OF d] HeartbeatClaim_active [OF d] show ?thesis
        by (simp add: heartbeat_tick_def)
    next
      case (Others f)
      with Cons.prems have "control_ok (f db)" "mutation_ticket m \<in> active (f db)"
        using control.run_preserves by auto
      with Cons Others show ?thesis by simp
    qed
  qed simp
  then show thesis using that by blast
qed

text \<open>What the collector holds after \<open>ClaimNextEligible\<close>.\<close>

lemma handed_out_mutation:
  assumes ok: "control_ok db" and start: "0 < t0" and id: "\<not> blank (wi_WorkItemID item)"
    and claim: "ClaimNextEligible collate locked store sel now (svc_ClaimLeaseTTL s) db = Inr (Some (item, k), db1)"
  shows "control_ok db1 \<and> mutation_ticket (claimMutation s t0 item k) \<in> active db1 \<and> requires_database store = None
    \<and> validateClaimMutation (claimMutation s t0 item k) = None
    \<and> (\<exists>ttl. effectiveClaimLeaseTTL store (mut_LeaseDuration (claimMutation s t0 item k)) = Inr ttl)"
proof -
  obtain ttl i rest row c where q: "effectiveClaimLeaseTTL store (svc_ClaimLeaseTTL s) = Inr ttl"
      "validateClaimSelector sel = None" "row = claimed_row sel now (now + ttl) i" "c = claim_row sel now (now + ttl) row"
      "(item, k) = scanClaimedWorkflowWorkItem (row, c)" "i \<in> set (db_Items db)"
    using claim by (rule ClaimNextEligible_Some)
  have "0 \<le> ir_CurrentFencingToken i" using ok q(6) by (simp add: control_ok_def)
  with q id start have "validateClaimMutation (claimMutation s t0 item k) = None"
    by (simp add: validateClaimMutation_def claimMutation_def validateClaimSelector_def is_zero_def
        scanClaimedWorkflowWorkItem_def claim_row_def)
  moreover note handed_out_active [OF claim] control.step_preserves [OF step_claim [OF claim] ok]
  ultimately show ?thesis using q(1) by (auto simp: claimMutation_def mutation_ticket_def)
qed

lemma failRetryable_requeues:
  assumes "control_ok db" and "mutation_ticket m \<in> active db" and "requires_database store = None"
    and "validateClaimMutation m = None" and "failureClass \<noteq> []"
  shows "\<exists>d i. failRetryable text store m failureClass e db = (Some (Wrap failureClass e), d)
    \<and> item_of d (mut_WorkItemID m) = Some i \<and> ir_Status i = WorkItemStatusPending
    \<and> ir_LastFailureClass i = Some failureClass"
proof -
  let ?m = "withFailure text m failureClass e"
  have "mutation_ticket ?m = mutation_ticket m" "validateClaimMutation ?m = validateClaimMutation m"
    "mut_WorkItemID ?m = mut_WorkItemID m" "nullif (mut_FailureClass ?m) = Some failureClass"
    using assms(5) by (simp_all add: withFailure_def mutation_ticket_def validateClaimMutation_def nullif_def)
  with active_fails_retryably [of db ?m store] assms(1-4) show ?thesis
    by (auto simp: failRetryable_def)
qed

lemma mismatch_settles:
  assumes "control_ok db" and "mutation_ticket m \<in> active db" and "requires_database store = None"
    and "validateClaimMutation m = None"
  shows "\<exists>f d. FailClaimTerminal untyped store (withFailure text m failureClass e) db = (f, d)
    \<and> (if untyped then f = None \<and> (\<exists>i. item_of d (mut_WorkItemID m) = Some i \<and> ir_Status i = WorkItemStatusFailedTerminal)
       else f \<noteq> None \<and> mutation_ticket m \<in> active d)"
proof -
  let ?m = "withFailure text m failureClass e"
  have "mutation_ticket ?m = mutation_ticket m" "validateClaimMutation ?m = validateClaimMutation m"
    "mut_WorkItemID ?m = mut_WorkItemID m"
    by (simp_all add: withFailure_def mutation_ticket_def validateClaimMutation_def)
  with active_fails_terminally [of db ?m store] FailClaimTerminal_refused [of store ?m db] assms show ?thesis
    by (cases untyped) auto
qed

lemma commit_settles:
  assumes "control_ok db" and "mutation_ticket m \<in> active db" and "requires_database store = None"
    and "validateClaimMutation m = None" and ttl: "effectiveClaimLeaseTTL store (mut_LeaseDuration m) = Inr ttl"
    and committing: "undisturbed (mutation_ticket m) (sch_Committing sch)"
    and ending: "undisturbed (mutation_ticket m) (sch_Ending sch)"
    and result: "commit_claimed col store m sch c (None, db) w = (r, w', db')"
  shows "w' = snd (col_Commit col (cg_Scope c) (cg_Generation c) (cg_Facts c) w)
    \<and> (case fst (col_Commit col (cg_Scope c) (cg_Generation c) (cg_Facts c) w) of
         Some e \<Rightarrow> r = Some (Wrap ''commit_failure'' e)
           \<and> (\<exists>i. item_of db' (mut_WorkItemID m) = Some i \<and> ir_Status i = WorkItemStatusPending
               \<and> ir_LastFailureClass i = Some ''commit_failure'')
       | None \<Rightarrow> r = None
           \<and> (\<exists>i. item_of db' (mut_WorkItemID m) = Some i \<and> ir_Status i = WorkItemStatusCompleted
               \<and> ir_LastCompletedAt i = Some (mut_ObservedAt m)))"
proof -
  obtain f w2 where commit: "col_Commit col (cg_Scope c) (cg_Generation c) (cg_Facts c) w = (f, w2)" by fastforce
  obtain db2 where b1: "in_background store m (sch_Committing sch) (None, db) = (None, db2)"
      and db2: "control_ok db2" "mutation_ticket m \<in> active db2"
    using in_background_undisturbed [OF committing assms(1-5)] by blast
  obtain db3 where b2: "in_background store m (sch_Ending sch) (None, db2) = (None, db3)"
      and db3: "control_ok db3" "mutation_ticket m \<in> active db3"
    using in_background_undisturbed [OF ending db2 assms(3-5)] by blast
  show ?thesis
  proof (cases f)
    case None
    with commit result b1 b2 active_completes [OF db3 assms(3,4)] show ?thesis
      by (auto simp: commit_claimed_def complete_claimed_def)
  next
    case (Some e)
    with commit result b1 failRetryable_requeues [OF db2 assms(3,4), of "''commit_failure''" "col_ErrorText col" e]
    show ?thesis by (auto simp: commit_claimed_def)
  qed
qed

section \<open>How claimed work ends\<close>

definition whole_schedule :: "schedule \<Rightarrow> background list" where
  "whole_schedule sch = sch_During sch @ sch_Committing sch @ sch_Ending sch"

lemma undisturbed_append [simp]: "undisturbed k (xs @ ys) \<longleftrightarrow> undisturbed k xs \<and> undisturbed k ys"
  by (auto simp: undisturbed_def transactions_def)

lemma transactions_append [simp]: "transactions (xs @ ys) \<longleftrightarrow> transactions xs \<and> transactions ys"
  by (auto simp: transactions_def)


text \<open>
  What a collector whose claim has ended can still do to the tables: nothing. Only the other
  processes' transactions change them.
\<close>

lemma in_background_ended:
  assumes "transactions bs" and "control_ok db" and "mutation_ticket m \<in> issued db" and "mutation_ticket m \<notin> active db"
  shows "snd (in_background store m bs (h, db)) = others bs db \<and> control_ok (others bs db)
    \<and> mutation_ticket m \<in> issued (others bs db) \<and> mutation_ticket m \<notin> active (others bs db)"
  using assms
proof (induction bs arbitrary: h db)
  case (Cons b bs)
  show ?case
  proof (cases b)
    case (Tick t)
    obtain e d where hb: "HeartbeatClaim store (m\<lparr>mut_ObservedAt := t\<rparr>) db = (e, d)" by fastforce
    from claim_mutation_outcome [OF mutation_heartbeat [OF hb] Cons.prems(2)] Cons.prems(4)
    have "e \<noteq> None" "d = db" by (auto simp: fenced_outcome_def mutation_ticket_def)
    with hb have "snd (heartbeat_tick store m t (h, db)) = db"
      by (auto simp: heartbeat_tick_def split: option.split)
    then obtain h' where "heartbeat_tick store m t (h, db) = (h', db)" by (metis prod.collapse)
    with Cons Tick show ?thesis by simp
  next
    case (Others f)
    then have f: "run control_step db (f db)" using Cons.prems(1) by simp
    have "control_ok (f db)" "mutation_ticket m \<in> issued (f db)" "mutation_ticket m \<notin> active (f db)"
      using control.run_preserves [OF f Cons.prems(2)] control.run_issued [OF f Cons.prems(2)] Cons.prems(3)
        control.ended_stays [OF f Cons.prems(2,3,4)] by auto
    with Cons Others show ?thesis by simp
  qed
qed simp

lemma in_background_issued:
  "transactions bs \<Longrightarrow> control_ok db \<Longrightarrow> k \<in> issued db \<Longrightarrow> k \<in> issued (snd (in_background store m bs (h, db)))"
proof (induction bs arbitrary: h db)
  case (Cons b bs)
  show ?case
  proof (cases b)
    case (Tick t)
    obtain h' db' where tick: "heartbeat_tick store m t (h, db) = (h', db')" by fastforce
    have "run control_step db db'"
    proof (cases h)
      case None
      with tick have "\<exists>e. HeartbeatClaim store (m\<lparr>mut_ObservedAt := t\<rparr>) db = (e, db')"
        by (auto simp: heartbeat_tick_def split: option.splits prod.splits)
      then show ?thesis by (auto intro: run_one step_mutation mutation_heartbeat)
    next
      case (Some e)
      with tick show ?thesis by (simp add: heartbeat_tick_def run_refl)
    qed
    with Cons Tick tick control.run_preserves control.run_issued show ?thesis
      by simp blast
  next
    case (Others f)
    with Cons.prems have "run control_step db (f db)" by simp
    with Cons Others control.run_preserves control.run_issued show ?thesis by simp blast
  qed
qed simp

lemma ended_mutation_refused:
  assumes "claim_mutation m db e d" and "control_ok db" and "mutation_ticket m \<notin> active db"
  shows "(\<exists>f. e = Some f) \<and> d = db"
  using claim_mutation_outcome [OF assms(1,2)] assms(3) by (auto simp: fenced_outcome_def)

lemma failRetryable_ended:
  assumes "control_ok db" and "mutation_ticket m \<notin> active db"
  shows "\<exists>f. failRetryable text store m failureClass e db = (Some f, db)"
proof -
  let ?m = "withFailure text m failureClass e"
  obtain f d where fail: "FailClaimRetryable store ?m db = (f, d)" by fastforce
  have "mutation_ticket ?m = mutation_ticket m" by (simp add: withFailure_def mutation_ticket_def)
  with ended_mutation_refused [OF mutation_retryable [OF fail] assms(1)] assms(2) fail show ?thesis
    by (auto simp: failRetryable_def)
qed

lemma complete_claimed_ended:
  assumes "transactions bs" and "control_ok db" and "mutation_ticket m \<in> issued db" and "mutation_ticket m \<notin> active db"
  shows "\<exists>f d. complete_claimed store m bs (h, db) = (Some f, d) \<and> (d = db \<or> d = others bs db)"
proof (cases h)
  case (Some e)
  then show ?thesis by (simp add: complete_claimed_def)
next
  case None
  note bg = in_background_ended [OF assms, of store h]
  obtain f d where c: "CompleteClaim store m (others bs db) = (f, d)" by fastforce
  with ended_mutation_refused [OF mutation_complete [OF c]] bg None show ?thesis
    by (auto simp: complete_claimed_def)
qed

text \<open>
  The fence guards the claim and not the facts. A collector whose claim ended while it was
  collecting (its lease lapsed and was reaped, another took the work) can no longer complete,
  release or fail the item: it returns an error and the tables hold what the others wrote. But
  the generation it collected is committed all the same.
\<close>

theorem superseded_collector:
  assumes ok: "control_ok db" and start: "0 < sch_Start sch" and id: "\<not> blank (wi_WorkItemID item)"
    and claim: "ClaimNextEligible collate locked store sel now (svc_ClaimLeaseTTL s) db = Inr (Some (item, k), db1)"
    and trans: "transactions (whole_schedule sch)"
    and source: "col_NextClaimed col item w = (Inr (Some c), w1)" "validateClaimedGeneration item c = None"
    and beat: "HeartbeatClaim store (claimMutation s (sch_Start sch) item k) db1 = (None, db2)"
    and ended: "mutation_ticket (claimMutation s (sch_Start sch) item k) \<notin> active db3"
      "in_background store (claimMutation s (sch_Start sch) item k) (sch_During sch) (None, db2) = (h, db3)"
  shows "\<exists>e db'. processClaimed untyped col store s sch item k w db1
        = (Some e, snd (col_Commit col (cg_Scope c) (cg_Generation c) (cg_Facts c) w1), db')
      \<and> (db' = others (sch_Committing sch) db3 \<or> db' = others (sch_Committing sch @ sch_Ending sch) db3)"
proof -
  define m where "m = claimMutation s (sch_Start sch) item k"
  note base = handed_out_mutation [OF ok start id claim, folded m_def]
  note beat = beat [folded m_def] and ended = ended [folded m_def]
  have t: "transactions (sch_During sch)" "transactions (sch_Committing sch)" "transactions (sch_Ending sch)"
    using trans by (simp_all add: whole_schedule_def)
  have db2: "control_ok db2" "mutation_ticket m \<in> issued db2"
    using HeartbeatClaim_ok [OF beat] HeartbeatClaim_active [OF beat] base by (auto simp: active_def issued_def)
  have db3: "control_ok db3" using in_background_ok [OF t(1) db2(1), of store m None] ended(2) by simp
  have issued: "mutation_ticket m \<in> issued db3"
    using in_background_issued [OF t(1) db2(1,2), of store m None] ended(2) by simp
  have bg: "\<exists>h'. in_background store m (sch_Committing sch) (h, db3) = (h', others (sch_Committing sch) db3)"
    using in_background_ended [OF t(2) db3 issued ended(1), of store h] by (metis prod.collapse)
  have later: "control_ok (others (sch_Committing sch) db3)" "mutation_ticket m \<in> issued (others (sch_Committing sch) db3)"
    "mutation_ticket m \<notin> active (others (sch_Committing sch) db3)"
    using in_background_ended [OF t(2) db3 issued ended(1)] by blast+
  have app: "others (xs @ ys) d = others ys (others xs d)" for xs ys d
    by (induction xs d rule: others.induct) simp_all
  have run: "processClaimed untyped col store s sch item k w db1 = commit_claimed col store m sch c (h, db3) w1"
    using beat ended(2) source by (simp add: processClaimed_def Let_def m_def [symmetric] settle_collected_def)
  obtain h' where h': "in_background store m (sch_Committing sch) (h, db3) = (h', others (sch_Committing sch) db3)"
    using bg by blast
  obtain f w2 where commit: "col_Commit col (cg_Scope c) (cg_Generation c) (cg_Facts c) w1 = (f, w2)" by fastforce
  show ?thesis
  proof (cases f)
    case None
    with complete_claimed_ended [OF t(3) later, of store h'] h' commit show ?thesis
      unfolding run commit_claimed_def by (auto simp: app)
  next
    case (Some e)
    with failRetryable_ended [OF later(1,3), of "col_ErrorText col" store "''commit_failure''" e] h' commit show ?thesis
      unfolding run commit_claimed_def by auto
  qed
qed

section \<open>Witnesses\<close>

definition example_service :: ClaimedService where
  "example_service = \<lparr>svc_HasControlStore = True, svc_HasSource = True, svc_HasCommitter = True,
     svc_CollectorKind = ''git'', svc_CollectorInstanceID = ''git-1'', svc_OwnerID = ''host-1'',
     svc_HasClaimIDFunc = True, svc_PollInterval = seconds 1, svc_ClaimLeaseTTL = seconds 60,
     svc_HeartbeatInterval = seconds 20\<rparr>"

text \<open>A source that collects what it is asked for, and a committer that counts its commits.\<close>

definition example_generation :: "WorkItem \<Rightarrow> unit CollectedGeneration" where
  "example_generation w = \<lparr>
     cg_Scope = \<lparr>sc_ScopeID = wi_ScopeID w, sc_SourceSystem = wi_SourceSystem w, sc_ScopeKind = ''repository'',
       sc_ParentScopeID = [], sc_CollectorKind = ''git'', sc_PartitionKey = ''p'', sc_ActiveGenerationID = [],
       sc_PreviousGenerationExists = False, sc_Metadata = None\<rparr>,
     cg_Generation = \<lparr>gen_GenerationID = wi_GenerationID w, gen_ScopeID = wi_ScopeID w, gen_ObservedAt = 1,
       gen_IngestedAt = 1, gen_Status = GenerationStatusPending, gen_TriggerKind = ''snapshot'', gen_FreshnessHint = []\<rparr>,
     cg_Facts = (), cg_FactCount = 0\<rparr>"

definition example_collector :: "(nat, unit) Collector" where
  "example_collector = \<lparr>col_NextClaimed = (\<lambda>item n. (Inr (Some (example_generation item)), n)),
     col_Commit = (\<lambda>_ _ _ n. (None, Suc n)), col_ErrorText = (\<lambda>_. ''error'')\<rparr>"

lemma example_service_valid: "ClaimedService_validate example_service = None"
  by (simp add: ClaimedService_validate_def example_service_def seconds_def solid_not_blank solid_simps)

lemma example_claim:
  obtains w k where "ClaimNextEligible compare {} (NewWorkflowControlStore True) (example_selector ''claim-1'') 2
      (svc_ClaimLeaseTTL example_service) pending_db = Inr (Some (w, k), claimed_db)"
    and "wi_WorkItemID w = ''item-1''" and "wi_SourceRunID w = wi_GenerationID w"
    and "validateClaimedGeneration w (example_generation w) = None"
    and "claimMutation example_service t w k = \<lparr>mut_WorkItemID = ''item-1'', mut_ClaimID = ''claim-1'',
      mut_FencingToken = 1, mut_OwnerID = ''host-1'', mut_ObservedAt = t, mut_LeaseDuration = seconds 60,
      mut_FailureClass = [], mut_FailureMessage = [], mut_VisibleAt = 0\<rparr>"
proof -
  have "\<exists>w k. ClaimNextEligible compare {} (NewWorkflowControlStore True) (example_selector ''claim-1'') 2
      (svc_ClaimLeaseTTL example_service) pending_db = Inr (Some (w, k), claimed_db)
    \<and> wi_WorkItemID w = ''item-1'' \<and> wi_SourceRunID w = wi_GenerationID w
    \<and> cl_ClaimID k = ''claim-1'' \<and> cl_FencingToken k = 1 \<and> cl_OwnerID k = ''host-1''"
    using selector_ok(1) unfolding claimed_db_def
    by (simp add: example_eval Let_def scanClaimedWorkflowWorkItem_def example_service_def)
  then show thesis
    using that by (auto simp: claimMutation_def example_service_def validateClaimedGeneration_def Let_def example_generation_def)
qed


text \<open>While this collector works, the reaper finds the lease lapsed.\<close>

definition reap_at :: "time \<Rightarrow> ControlDb \<Rightarrow> ControlDb" where
  "reap_at now db = (case ReapExpiredClaims compare {} (NewWorkflowControlStore True) now 10 0 db of
     Inr (ks, d) \<Rightarrow> d | Inl e \<Rightarrow> db)"

lemma reap_at_run: "run control_step db (reap_at now db)"
  using run_one [of control_step db] step_reap
  by (fastforce simp: reap_at_def intro: run_refl split: sum.split)

lemma superseded_collector_witness:
  "\<exists>w k e db'. processClaimed False example_collector (NewWorkflowControlStore True) example_service
        \<lparr>sch_Start = 2, sch_During = [Others (reap_at (seconds 100))], sch_Committing = [], sch_Ending = []\<rparr>
        w k 0 claimed_db = (Some e, 1, db')"
proof -
  let ?sch = "\<lparr>sch_Start = 2, sch_During = [Others (reap_at (seconds 100))], sch_Committing = [], sch_Ending = []\<rparr>"
  obtain w k where claim: "ClaimNextEligible compare {} (NewWorkflowControlStore True) (example_selector ''claim-1'') 2
      (svc_ClaimLeaseTTL example_service) pending_db = Inr (Some (w, k), claimed_db)"
    and w: "wi_WorkItemID w = ''item-1''" "validateClaimedGeneration w (example_generation w) = None"
    and m: "claimMutation example_service 2 w k = \<lparr>mut_WorkItemID = ''item-1'', mut_ClaimID = ''claim-1'',
      mut_FencingToken = 1, mut_OwnerID = ''host-1'', mut_ObservedAt = 2, mut_LeaseDuration = seconds 60,
      mut_FailureClass = [], mut_FailureMessage = [], mut_VisibleAt = 0\<rparr>"
    using example_claim [of 2] by metis
  have "validateClaimMutation (claimMutation example_service 2 w k) = None"
    unfolding m by (simp add: validateClaimMutation_def solid_not_blank solid_simps is_zero_def)
  then have "\<exists>d. HeartbeatClaim (NewWorkflowControlStore True) (claimMutation example_service 2 w k) claimed_db = (None, d)
      \<and> active (reap_at (seconds 100) d) = {}"
    using selector_ok(1) unfolding m claimed_db_def
    by (simp add: example_eval HeartbeatClaim_def execClaimMutation_def heartbeatWorkflowClaimQuery_def nullableTime_def
        is_zero_def fenced_update_def fence_holds_def fence_matches_def validateMutationResult_def active_def reap_at_def
        ReapExpiredClaims_def reapExpiredWorkflowClaimsQuery_def expired_candidates_def expired_def expired_claim_def Let_def
        scanClaimedWorkflowWorkItem_def)
  then obtain d where d: "HeartbeatClaim (NewWorkflowControlStore True) (claimMutation example_service (sch_Start ?sch) w k) claimed_db = (None, d)"
    "active (reap_at (seconds 100) d) = {}" by auto
  have "0 < sch_Start ?sch" "\<not> blank (wi_WorkItemID w)" "transactions (whole_schedule ?sch)"
    using w reap_at_run by (simp_all add: whole_schedule_def solid_not_blank solid_simps)
  from superseded_collector [OF pending_db_ok this(1,2) claim this(3) _ w(2) d(1), where col = example_collector] d(2)
  show ?thesis by (fastforce simp: example_collector_def)
qed

end
