(* ===== verification/JsonRaw.thy ===== *)
theory JsonRaw
  imports Json
begin

text \<open>
  Decoding that keeps source text, as \<open>json.RawMessage\<close> does: the elements of an array and the
  members of an object with the raw text of each value. The readers follow those of \<open>Json\<close> and
  recurse on the same fuel.
\<close>

text \<open>The text a value takes at the head of \<open>s\<close>, without the white space before it.\<close>

definition raw_value :: "nat \<Rightarrow> nat \<Rightarrow> string \<Rightarrow> (string \<times> string) option" where
  "raw_value f d s =
     (case parse_value f d s of
        None \<Rightarrow> None
      | Some (v, r) \<Rightarrow> Some (take (length (skip_ws s) - length r) (skip_ws s), r))"

fun raw_elems :: "nat \<Rightarrow> nat \<Rightarrow> string \<Rightarrow> (string list \<times> string) option" where
  "raw_elems 0 d s = None"
| "raw_elems (Suc f) d s =
     (case raw_value f d s of
        None \<Rightarrow> None
      | Some (v, r) \<Rightarrow>
          (case skip_ws r of
             [] \<Rightarrow> None
           | e # u \<Rightarrow>
               if e = byte 93 then Some ([v], u)
               else if e = byte 44 then map_option (apfst ((#) v)) (raw_elems f d u)
               else None))"

fun raw_members :: "nat \<Rightarrow> nat \<Rightarrow> string \<Rightarrow> ((string \<times> string) list \<times> string) option" where
  "raw_members 0 d s = None"
| "raw_members (Suc f) d s =
     (case skip_ws s of
        [] \<Rightarrow> None
      | q # t \<Rightarrow>
          if q \<noteq> byte 34 then None
          else case read_string t of
                 None \<Rightarrow> None
               | Some (k, r) \<Rightarrow>
                   (case skip_ws r of
                      [] \<Rightarrow> None
                    | col # r1 \<Rightarrow>
                        if col \<noteq> byte 58 then None
                        else case raw_value f d r1 of
                               None \<Rightarrow> None
                             | Some (v, r2) \<Rightarrow>
                                 (case skip_ws r2 of
                                    [] \<Rightarrow> None
                                  | e # u \<Rightarrow>
                                      if e = byte 125 then Some ([(k, v)], u)
                                      else if e = byte 44 then
                                        map_option (apfst ((#) (k, v))) (raw_members f d u)
                                      else None)))"

text \<open>The parts of a document that is an array, or an object, of values; \<open>None\<close> for other documents.\<close>

definition document_elems :: "string \<Rightarrow> string list option" where
  "document_elems s =
     (case skip_ws s of
        [] \<Rightarrow> None
      | c # t \<Rightarrow>
          if c \<noteq> byte 91 then None
          else case skip_ws t of
                 [] \<Rightarrow> None
               | e # u \<Rightarrow> if e = byte 93 then Some [] else map_option fst (raw_elems (2 * length s + 2) 1 t))"

definition document_members :: "string \<Rightarrow> (string \<times> string) list option" where
  "document_members s =
     (case skip_ws s of
        [] \<Rightarrow> None
      | c # t \<Rightarrow>
          if c \<noteq> byte 123 then None
          else case skip_ws t of
                 [] \<Rightarrow> None
               | e # u \<Rightarrow> if e = byte 125 then Some [] else map_option fst (raw_members (2 * length s + 2) 1 t))"

end
