(* ===== verification/Coordinator.thy ===== *)
theory Coordinator
  imports RunReconciliation Fairness GoParse JsonRaw "HOL-Library.Code_Target_Numeral"
begin

text \<open>
  \<open>go/internal/coordinator/config.go\<close> and \<open>service.go\<close>: the workflow coordinator's settings, read
  from the environment (a function from names to values), and its loop. The store is the one of
  \<open>ClaimStore\<close>, \<open>CoordinatorState\<close> and \<open>RunReconciliation\<close>; an event carries the instants the
  clock shows. What the metrics are told, durations aside, is a log; the logger is not modelled.
\<close>

section \<open>Configuration\<close>

definition defaultReconcileInterval :: duration where
  "defaultReconcileInterval = seconds 30"
definition defaultClaimsEnabled :: bool where
  "defaultClaimsEnabled = False"
definition deploymentModeDark :: string where
  "deploymentModeDark = ''dark''"
definition deploymentModeActive :: string where
  "deploymentModeActive = ''active''"

record Config =
  cfg_DeploymentMode :: string
  cfg_ClaimsEnabled :: bool
  cfg_ReconcileInterval :: duration
  cfg_ReapInterval :: duration
  cfg_ClaimLeaseTTL :: duration
  cfg_HeartbeatInterval :: duration
  cfg_ExpiredClaimLimit :: int
  cfg_ExpiredClaimRequeueDelay :: duration
  cfg_CollectorInstances :: "DesiredCollectorInstance list"

definition withDefaults :: "Config \<Rightarrow> Config" where
  "withDefaults c = c\<lparr>
     cfg_DeploymentMode := (if blank (cfg_DeploymentMode c) then deploymentModeDark else cfg_DeploymentMode c),
     cfg_ReconcileInterval := (if cfg_ReconcileInterval c \<le> 0 then defaultReconcileInterval else cfg_ReconcileInterval c),
     cfg_ReapInterval := (if cfg_ReapInterval c \<le> 0 then DefaultReapInterval else cfg_ReapInterval c),
     cfg_ClaimLeaseTTL := (if cfg_ClaimLeaseTTL c \<le> 0 then DefaultClaimLeaseTTL else cfg_ClaimLeaseTTL c),
     cfg_HeartbeatInterval := (if cfg_HeartbeatInterval c \<le> 0 then DefaultHeartbeatInterval else cfg_HeartbeatInterval c),
     cfg_ExpiredClaimLimit := (if cfg_ExpiredClaimLimit c \<le> 0 then DefaultExpiredClaimLimit else cfg_ExpiredClaimLimit c),
     cfg_ExpiredClaimRequeueDelay := (if cfg_ExpiredClaimRequeueDelay c = 0 then DefaultExpiredClaimRequeueDelay
        else cfg_ExpiredClaimRequeueDelay c)\<rparr>"

definition validate_instance :: "Config \<Rightarrow> DesiredCollectorInstance \<Rightarrow> error option" where
  "validate_instance c i = first_err
     [map_option (Wrap ''workflow coordinator collector instance'') (DesiredCollectorInstance_Validate i),
      check (dci_ClaimsEnabled i \<and> \<not> cfg_ClaimsEnabled c)
        (Fmt ''collector instance %q enables claims while coordinator claims are disabled'' [dci_InstanceID i])]"

definition activeClaimCollectors :: "Config \<Rightarrow> nat" where
  "activeClaimCollectors c = length (filter (\<lambda>i. dci_Enabled i \<and> dci_ClaimsEnabled i) (cfg_CollectorInstances c))"

definition Config_Validate :: "Config \<Rightarrow> error option" where
  "Config_Validate c0 =
     (let c = withDefaults c0 in first_err
       ([check (cfg_DeploymentMode c \<noteq> deploymentModeDark \<and> cfg_DeploymentMode c \<noteq> deploymentModeActive)
           (Fmt ''workflow coordinator deployment mode %q is not supported'' [cfg_DeploymentMode c]),
         check (cfg_ReconcileInterval c \<le> 0) (NotPositive ''workflow coordinator reconcile interval''),
         check (cfg_ReapInterval c \<le> 0) (NotPositive ''workflow coordinator reap interval''),
         check (cfg_ClaimLeaseTTL c \<le> 0) (NotPositive ''workflow coordinator claim lease TTL''),
         check (cfg_HeartbeatInterval c \<le> 0) (NotPositive ''workflow coordinator heartbeat interval''),
         check (cfg_ClaimLeaseTTL c \<le> cfg_HeartbeatInterval c)
           (Msg ''workflow coordinator heartbeat interval must be less than lease TTL''),
         check (cfg_ExpiredClaimLimit c \<le> 0) (NotPositive ''workflow coordinator expired claim limit''),
         check (cfg_ExpiredClaimRequeueDelay c < 0) (Negative ''workflow coordinator expired claim requeue delay'')]
        @ map (validate_instance c) (cfg_CollectorInstances c)
        @ [check (cfg_DeploymentMode c = deploymentModeActive \<and> \<not> cfg_ClaimsEnabled c)
             (Msg ''workflow coordinator active mode requires claims enabled''),
           check (cfg_DeploymentMode c = deploymentModeActive \<and> activeClaimCollectors c = 0)
             (Msg ''workflow coordinator active mode requires at least one enabled claim-capable collector instance'')]))"

section \<open>The environment\<close>

text \<open>A value that is not blank is parsed; a parse error carries the variable's name.\<close>

definition env_value :: "(string \<Rightarrow> 'a option) \<Rightarrow> (string \<Rightarrow> string) \<Rightarrow> string \<Rightarrow> 'a \<Rightarrow> 'a result" where
  "env_value parse getenv name fallback =
     (let value = trim_space (getenv name) in
      if value = [] then Inr fallback
      else (case parse value of
              Some v \<Rightarrow> Inr v
            | None \<Rightarrow> Inl (Wrap name (Fmt ''invalid syntax'' [value]))))"

definition envInt :: "(string \<Rightarrow> string) \<Rightarrow> string \<Rightarrow> int \<Rightarrow> int result" where
  "envInt = env_value Atoi"
definition envBool :: "(string \<Rightarrow> string) \<Rightarrow> string \<Rightarrow> bool \<Rightarrow> bool result" where
  "envBool = env_value ParseBool"
definition envDuration :: "(string \<Rightarrow> string) \<Rightarrow> string \<Rightarrow> duration \<Rightarrow> duration result" where
  "envDuration = env_value ParseDuration"

record collectorInstanceConfig =
  cic_InstanceID :: string
  cic_CollectorKind :: string
  cic_Mode :: string
  cic_Enabled :: bool
  cic_Bootstrap :: bool
  cic_ClaimsEnabled :: bool
  cic_DisplayName :: string
  cic_Configuration :: string

definition zero_instance_config :: collectorInstanceConfig where
  "zero_instance_config = \<lparr>cic_InstanceID = [], cic_CollectorKind = [], cic_Mode = [], cic_Enabled = False,
     cic_Bootstrap = False, cic_ClaimsEnabled = False, cic_DisplayName = [], cic_Configuration = []\<rparr>"

text \<open>
  \<open>json.Unmarshal\<close> of one member: a value of the wrong type is an error, \<open>null\<close> leaves strings
  and booleans alone, \<open>configuration\<close> takes the text as it stands, other keys are skipped.
\<close>

definition decode_string :: "string \<Rightarrow> string \<Rightarrow> string option" where
  "decode_string old raw =
     (case parse_document raw of Some (JStr s) \<Rightarrow> Some s | Some JNull \<Rightarrow> Some old | _ \<Rightarrow> None)"

definition decode_bool :: "bool \<Rightarrow> string \<Rightarrow> bool option" where
  "decode_bool old raw =
     (case parse_document raw of Some (JBool b) \<Rightarrow> Some b | Some JNull \<Rightarrow> Some old | _ \<Rightarrow> None)"

definition decode_member :: "string \<times> string \<Rightarrow> collectorInstanceConfig \<Rightarrow> collectorInstanceConfig option" where
  "decode_member kv c =
     (let key = fold_name (fst kv); raw = snd kv in
      if key = fold_name ''instance_id'' then
        map_option (\<lambda>s. c\<lparr>cic_InstanceID := s\<rparr>) (decode_string (cic_InstanceID c) raw)
      else if key = fold_name ''collector_kind'' then
        map_option (\<lambda>s. c\<lparr>cic_CollectorKind := s\<rparr>) (decode_string (cic_CollectorKind c) raw)
      else if key = fold_name ''mode'' then
        map_option (\<lambda>s. c\<lparr>cic_Mode := s\<rparr>) (decode_string (cic_Mode c) raw)
      else if key = fold_name ''enabled'' then
        map_option (\<lambda>b. c\<lparr>cic_Enabled := b\<rparr>) (decode_bool (cic_Enabled c) raw)
      else if key = fold_name ''bootstrap'' then
        map_option (\<lambda>b. c\<lparr>cic_Bootstrap := b\<rparr>) (decode_bool (cic_Bootstrap c) raw)
      else if key = fold_name ''claims_enabled'' then
        map_option (\<lambda>b. c\<lparr>cic_ClaimsEnabled := b\<rparr>) (decode_bool (cic_ClaimsEnabled c) raw)
      else if key = fold_name ''display_name'' then
        map_option (\<lambda>s. c\<lparr>cic_DisplayName := s\<rparr>) (decode_string (cic_DisplayName c) raw)
      else if key = fold_name ''configuration'' then Some (c\<lparr>cic_Configuration := raw\<rparr>)
      else Some c)"

fun decode_members :: "(string \<times> string) list \<Rightarrow> collectorInstanceConfig \<Rightarrow> collectorInstanceConfig option" where
  "decode_members [] c = Some c"
| "decode_members (kv # kvs) c = Option.bind (decode_member kv c) (decode_members kvs)"

definition decode_instance :: "string \<Rightarrow> collectorInstanceConfig option" where
  "decode_instance raw =
     (case document_members raw of
        Some kvs \<Rightarrow> decode_members kvs zero_instance_config
      | None \<Rightarrow> if parse_document raw = Some JNull then Some zero_instance_config else None)"

definition unmarshal_instances :: "string \<Rightarrow> collectorInstanceConfig list option" where
  "unmarshal_instances raw =
     (case parse_document raw of
        None \<Rightarrow> None
      | Some v \<Rightarrow>
          (case document_elems raw of
             Some es \<Rightarrow> those (map decode_instance es)
           | None \<Rightarrow> if v = JNull then Some [] else None))"

definition CollectorMode_of :: "string \<Rightarrow> CollectorMode" where
  "CollectorMode_of s =
     (if s = ''continuous'' then CollectorModeContinuous
      else if s = ''scheduled'' then CollectorModeScheduled
      else if s = ''manual'' then CollectorModeManual
      else OtherCollectorMode s)"

definition desired_instance :: "collectorInstanceConfig \<Rightarrow> DesiredCollectorInstance" where
  "desired_instance c = \<lparr>dci_InstanceID = trim_space (cic_InstanceID c),
     dci_CollectorKind = trim_space (cic_CollectorKind c), dci_Mode = CollectorMode_of (trim_space (cic_Mode c)),
     dci_Enabled = cic_Enabled c, dci_Bootstrap = cic_Bootstrap c, dci_ClaimsEnabled = cic_ClaimsEnabled c,
     dci_DisplayName = trim_space (cic_DisplayName c),
     dci_Configuration = (if blank (cic_Configuration c) then ''{}'' else cic_Configuration c)\<rparr>"

definition parseCollectorInstances :: "string \<Rightarrow> DesiredCollectorInstance list result" where
  "parseCollectorInstances raw =
     (let trimmed = trim_space raw in
      if trimmed = [] then Inr []
      else (case unmarshal_instances trimmed of
              None \<Rightarrow> Inl (Wrap ''parse PCG_COLLECTOR_INSTANCES_JSON'' (Msg ''json''))
            | Some cs \<Rightarrow> Inr (map desired_instance cs)))"

fun and_then :: "'a result \<Rightarrow> ('a \<Rightarrow> 'b result) \<Rightarrow> 'b result" where
  "and_then (Inl e) f = Inl e"
| "and_then (Inr x) f = f x"

lemma and_then_Inr [simp]: "and_then r f = Inr y \<longleftrightarrow> (\<exists>x. r = Inr x \<and> f x = Inr y)"
  by (cases r) simp_all

definition claims_enabled_env :: "(string \<Rightarrow> string) \<Rightarrow> bool result" where
  "claims_enabled_env getenv =
     and_then (envBool getenv ''PCG_WORKFLOW_COORDINATOR_CLAIMS_ENABLED'' defaultClaimsEnabled) (\<lambda>b.
       if b then Inr True
       else envBool getenv ''PCG_WORKFLOW_COORDINATOR_ENABLE_CLAIMS'' defaultClaimsEnabled)"

definition LoadConfig :: "(string \<Rightarrow> string) \<Rightarrow> Config result" where
  "LoadConfig getenv =
     (let mode0 = trim_space (getenv ''PCG_WORKFLOW_COORDINATOR_DEPLOYMENT_MODE'');
          mode = (if mode0 = [] then deploymentModeDark else mode0) in
      and_then (claims_enabled_env getenv) (\<lambda>claims.
      and_then (envDuration getenv ''PCG_WORKFLOW_COORDINATOR_RECONCILE_INTERVAL'' defaultReconcileInterval) (\<lambda>reconcile.
      and_then (envDuration getenv ''PCG_WORKFLOW_COORDINATOR_REAP_INTERVAL'' DefaultReapInterval) (\<lambda>reap.
      and_then (envDuration getenv ''PCG_WORKFLOW_COORDINATOR_CLAIM_LEASE_TTL'' DefaultClaimLeaseTTL) (\<lambda>ttl.
      and_then (envDuration getenv ''PCG_WORKFLOW_COORDINATOR_HEARTBEAT_INTERVAL'' DefaultHeartbeatInterval) (\<lambda>heartbeat.
      and_then (envInt getenv ''PCG_WORKFLOW_COORDINATOR_EXPIRED_CLAIM_LIMIT'' DefaultExpiredClaimLimit) (\<lambda>limit.
      and_then (envDuration getenv ''PCG_WORKFLOW_COORDINATOR_EXPIRED_CLAIM_REQUEUE_DELAY'' DefaultExpiredClaimRequeueDelay) (\<lambda>delay.
      and_then (parseCollectorInstances (getenv ''PCG_COLLECTOR_INSTANCES_JSON'')) (\<lambda>instances.
        let cfg = withDefaults \<lparr>cfg_DeploymentMode = mode, cfg_ClaimsEnabled = claims,
              cfg_ReconcileInterval = reconcile, cfg_ReapInterval = reap, cfg_ClaimLeaseTTL = ttl,
              cfg_HeartbeatInterval = heartbeat, cfg_ExpiredClaimLimit = limit,
              cfg_ExpiredClaimRequeueDelay = delay, cfg_CollectorInstances = instances\<rparr>
        in checked (Config_Validate cfg) (Inr cfg))))))))))"

section \<open>The loop\<close>

datatype observation =
    ReconcileObservation string nat nat       \<comment> \<open>outcome, desired, durable\<close>
  | ReapObservation string nat                \<comment> \<open>outcome, reaped rows\<close>
  | RunReconciliationObservation string nat   \<comment> \<open>outcome, reconciled runs\<close>

record Service =
  sv_Config :: Config
  sv_HasStore :: bool
  sv_Store :: ControlStore

text \<open>What the service runs against: the collation, \<open>jsonb\<close> and the rows other transactions hold.\<close>

record Server =
  srv_collate :: "string \<Rightarrow> string \<Rightarrow> int"
  srv_jsonb :: "string \<Rightarrow> string option"
  srv_locked :: "string set"

type_synonym loop_state = "CoordinatorDb \<times> observation list"

definition runReconcile :: "Server \<Rightarrow> Service \<Rightarrow> time \<Rightarrow> loop_state \<Rightarrow> error option \<times> loop_state" where
  "runReconcile srv s now st =
     (case st of (db, obs) \<Rightarrow>
       let desired = cfg_CollectorInstances (sv_Config s) in
       case ReconcileCollectorInstances (srv_jsonb srv) (sv_Store s) (utc now) desired db of
         (Some e, db') \<Rightarrow> (Some e, db', obs @ [ReconcileObservation ''reconcile_error'' (length desired) 0])
       | (None, db') \<Rightarrow>
           (case ListCollectorInstances (srv_collate srv) (sv_Store s) db' of
              Inl e \<Rightarrow> (Some (Wrap ''list durable collector instances'' e), db',
                obs @ [ReconcileObservation ''state_read_error'' (length desired) 0])
            | Inr durable \<Rightarrow> (None, db', obs @ [ReconcileObservation ''success'' (length desired) (length durable)])))"

definition runReapExpiredClaims :: "Server \<Rightarrow> Service \<Rightarrow> time \<Rightarrow> loop_state \<Rightarrow> error option \<times> loop_state" where
  "runReapExpiredClaims srv s now st =
     (case st of (db, obs) \<Rightarrow>
       case ReapExpiredClaims (srv_collate srv) (srv_locked srv) (sv_Store s) (utc now)
              (cfg_ExpiredClaimLimit (sv_Config s)) (cfg_ExpiredClaimRequeueDelay (sv_Config s)) (cd_Control db) of
         Inl e \<Rightarrow> (Some e, db, obs @ [ReapObservation ''error'' 0])
       | Inr (claims, control) \<Rightarrow>
           (None, db\<lparr>cd_Control := control\<rparr>, obs @ [ReapObservation ''success'' (length claims)]))"

definition runWorkflowReconciliation :: "Server \<Rightarrow> Service \<Rightarrow> time \<Rightarrow> loop_state \<Rightarrow> error option \<times> loop_state" where
  "runWorkflowReconciliation srv s now st =
     (case st of (db, obs) \<Rightarrow>
       case ReconcileWorkflowRuns (srv_collate srv) (sv_Store s) (utc now) db of
         ((n, Some e), db') \<Rightarrow> (Some e, db', obs @ [RunReconciliationObservation ''error'' 0])
       | ((n, None), db') \<Rightarrow> (None, db', obs @ [RunReconciliationObservation ''success'' n]))"

text \<open>An operation, and what follows it when it succeeds; an error is wrapped and returned.\<close>

fun after_ok :: "string \<Rightarrow> error option \<times> loop_state \<Rightarrow> (loop_state \<Rightarrow> error option \<times> loop_state)
    \<Rightarrow> error option \<times> loop_state" where
  "after_ok what (Some e, st) k = (Some (Wrap what e), st)"
| "after_ok what (None, st) k = k st"

definition active_mode :: "Service \<Rightarrow> bool" where
  "active_mode s \<longleftrightarrow> cfg_DeploymentMode (sv_Config s) = deploymentModeActive"

text \<open>
  What \<open>select\<close> may deliver: the two tickers, and other processes' transactions in between.
  In dark mode the reap ticker's channel is nil and never ready.
\<close>

datatype tick =
    ReconcileTick time time
  | ReapTick time
  | Elsewhere "CoordinatorDb \<Rightarrow> CoordinatorDb"

definition on_reconcile :: "Server \<Rightarrow> Service \<Rightarrow> time \<Rightarrow> time \<Rightarrow> loop_state \<Rightarrow> error option \<times> loop_state" where
  "on_reconcile srv s t1 t2 st =
     after_ok ''reconcile collector instances'' (runReconcile srv s t1 st) (\<lambda>st.
       if active_mode s
       then after_ok ''reconcile workflow runs'' (runWorkflowReconciliation srv s t2 st) (\<lambda>st. (None, st))
       else (None, st))"

definition on_reap :: "Server \<Rightarrow> Service \<Rightarrow> time \<Rightarrow> loop_state \<Rightarrow> error option \<times> loop_state" where
  "on_reap srv s t st =
     (if active_mode s
      then after_ok ''reap expired claims'' (runReapExpiredClaims srv s t st) (\<lambda>st. (None, st))
      else (None, st))"

text \<open>The loop until the context is done (the end of the list) or an operation fails.\<close>

fun serve :: "Server \<Rightarrow> Service \<Rightarrow> tick list \<Rightarrow> loop_state \<Rightarrow> error option \<times> loop_state" where
  "serve srv s [] st = (None, st)"
| "serve srv s (ReconcileTick t1 t2 # ts) st =
     (case on_reconcile srv s t1 t2 st of (Some e, st') \<Rightarrow> (Some e, st') | (None, st') \<Rightarrow> serve srv s ts st')"
| "serve srv s (ReapTick t # ts) st =
     (case on_reap srv s t st of (Some e, st') \<Rightarrow> (Some e, st') | (None, st') \<Rightarrow> serve srv s ts st')"
| "serve srv s (Elsewhere f # ts) (db, obs) = serve srv s ts (f db, obs)"

definition initial_pass :: "Server \<Rightarrow> Service \<Rightarrow> time \<Rightarrow> time \<Rightarrow> time \<Rightarrow> loop_state \<Rightarrow> error option \<times> loop_state" where
  "initial_pass srv s t1 t2 t3 st =
     after_ok ''initial collector reconciliation'' (runReconcile srv s t1 st) (\<lambda>st.
       if active_mode s
       then after_ok ''initial expired-claim reap'' (runReapExpiredClaims srv s t2 st) (\<lambda>st.
              after_ok ''initial workflow run reconciliation'' (runWorkflowReconciliation srv s t3 st) (\<lambda>st. (None, st)))
       else (None, st))"

definition Run_service ::
  "Server \<Rightarrow> Service \<Rightarrow> time \<Rightarrow> time \<Rightarrow> time \<Rightarrow> tick list \<Rightarrow> loop_state \<Rightarrow> error option \<times> loop_state" where
  "Run_service srv s0 t1 t2 t3 ts st =
     (let s = s0\<lparr>sv_Config := withDefaults (sv_Config s0)\<rparr> in
      case first_err [check (\<not> sv_HasStore s0) (Required ''workflow coordinator store''), Config_Validate (sv_Config s)] of
        Some e \<Rightarrow> (Some e, st)
      | None \<Rightarrow>
          (case initial_pass srv s t1 t2 t3 st of
             (Some e, st') \<Rightarrow> (Some e, st')
           | (None, st') \<Rightarrow> serve srv s ts st'))"

section \<open>What a loaded configuration promises\<close>

lemma withDefaults_idem [simp]: "withDefaults (withDefaults c) = withDefaults c"
  by (simp add: withDefaults_def deploymentModeDark_def solid_not_blank solid_simps defaultReconcileInterval_def
      DefaultReapInterval_def DefaultClaimLeaseTTL_def DefaultHeartbeatInterval_def DefaultExpiredClaimLimit_def
      DefaultExpiredClaimRequeueDelay_def seconds_def)

lemma validate_instance_None [simp]:
  "validate_instance c i = None \<longleftrightarrow>
     DesiredCollectorInstance_Validate i = None \<and> (dci_ClaimsEnabled i \<longrightarrow> cfg_ClaimsEnabled c)"
  by (auto simp: validate_instance_def)

text \<open>The settings a valid configuration has, defaults filled in.\<close>

definition config_ok :: "Config \<Rightarrow> bool" where
  "config_ok c \<longleftrightarrow> cfg_DeploymentMode c \<in> {deploymentModeDark, deploymentModeActive}
     \<and> 0 < cfg_ReconcileInterval c \<and> 0 < cfg_ReapInterval c
     \<and> 0 < cfg_HeartbeatInterval c \<and> cfg_HeartbeatInterval c < cfg_ClaimLeaseTTL c
     \<and> 0 < cfg_ExpiredClaimLimit c \<and> 0 < cfg_ExpiredClaimRequeueDelay c
     \<and> (\<forall>i \<in> set (cfg_CollectorInstances c). DesiredCollectorInstance_Validate i = None
          \<and> (dci_ClaimsEnabled i \<longrightarrow> cfg_ClaimsEnabled c))
     \<and> (cfg_DeploymentMode c = deploymentModeActive \<longrightarrow> cfg_ClaimsEnabled c
          \<and> (\<exists>i \<in> set (cfg_CollectorInstances c). dci_Enabled i \<and> dci_ClaimsEnabled i))"

lemma Config_Validate_defaults:
  assumes "Config_Validate (withDefaults c) = None"
  shows "config_ok (withDefaults c)"
proof -
  have "cfg_ExpiredClaimRequeueDelay (withDefaults c) \<noteq> 0"
    by (simp add: withDefaults_def DefaultExpiredClaimRequeueDelay_def seconds_def)
  with assms show ?thesis
    by (auto simp: Config_Validate_def Let_def config_ok_def first_err_map_None activeClaimCollectors_def
        filter_empty_conv simp del: first_err.simps)
qed

definition set_and_unparsed :: "(string \<Rightarrow> string) \<Rightarrow> (string \<Rightarrow> 'a option) \<Rightarrow> string \<Rightarrow> bool" where
  "set_and_unparsed getenv parse name \<longleftrightarrow> trim_space (getenv name) \<noteq> [] \<and> parse (trim_space (getenv name)) = None"

lemma env_value_Inr:
  "env_value parse getenv name fallback = Inr v \<Longrightarrow> \<not> set_and_unparsed getenv parse name"
  by (auto simp: env_value_def set_and_unparsed_def Let_def split: option.splits if_splits)

lemma parsed_instances_trimmed:
  assumes "parseCollectorInstances raw = Inr is"
  shows "\<forall>i \<in> set is. trim_space (dci_InstanceID i) = dci_InstanceID i \<and> trim_space (dci_CollectorKind i) = dci_CollectorKind i"
proof -
  have "is = [] \<or> (\<exists>cs. is = map desired_instance cs)"
    using assms by (auto simp: parseCollectorInstances_def Let_def split: if_splits option.splits)
  then show ?thesis by (auto simp: desired_instance_def)
qed

text \<open>
  C36: A configuration that loads is fit to run: its mode is one of the two, every interval is
  positive and the heartbeat shorter than the lease, the reaper has a positive limit and delay,
  the collector instances are valid with identifiers free of surrounding space, none of them
  claims unless the coordinator does, and active mode comes with claims and a collector that uses
  them. A duration or limit that is set and does not parse is an error, never a default.
\<close>

theorem loaded_config_ok:
  assumes load: "LoadConfig getenv = Inr cfg"
  shows "config_ok cfg
    \<and> (\<forall>i \<in> set (cfg_CollectorInstances cfg). trim_space (dci_InstanceID i) = dci_InstanceID i
         \<and> trim_space (dci_CollectorKind i) = dci_CollectorKind i)
    \<and> \<not> set_and_unparsed getenv Atoi ''PCG_WORKFLOW_COORDINATOR_EXPIRED_CLAIM_LIMIT''
    \<and> list_all (\<lambda>v. \<not> set_and_unparsed getenv ParseDuration v)
        [''PCG_WORKFLOW_COORDINATOR_RECONCILE_INTERVAL'', ''PCG_WORKFLOW_COORDINATOR_REAP_INTERVAL'',
         ''PCG_WORKFLOW_COORDINATOR_CLAIM_LEASE_TTL'', ''PCG_WORKFLOW_COORDINATOR_HEARTBEAT_INTERVAL'',
         ''PCG_WORKFLOW_COORDINATOR_EXPIRED_CLAIM_REQUEUE_DELAY'']"
proof -
  obtain c where c: "cfg = withDefaults c" "Config_Validate cfg = None"
      "parseCollectorInstances (getenv ''PCG_COLLECTOR_INSTANCES_JSON'') = Inr (cfg_CollectorInstances c)"
    using load by (fastforce simp: LoadConfig_def Let_def)
  have same: "cfg_CollectorInstances cfg = cfg_CollectorInstances c" using c(1) by (simp add: withDefaults_def)
  have "\<not> set_and_unparsed getenv Atoi ''PCG_WORKFLOW_COORDINATOR_EXPIRED_CLAIM_LIMIT''
    \<and> list_all (\<lambda>v. \<not> set_and_unparsed getenv ParseDuration v)
        [''PCG_WORKFLOW_COORDINATOR_RECONCILE_INTERVAL'', ''PCG_WORKFLOW_COORDINATOR_REAP_INTERVAL'',
         ''PCG_WORKFLOW_COORDINATOR_CLAIM_LEASE_TTL'', ''PCG_WORKFLOW_COORDINATOR_HEARTBEAT_INTERVAL'',
         ''PCG_WORKFLOW_COORDINATOR_EXPIRED_CLAIM_REQUEUE_DELAY'']"
    using load by (simp only: LoadConfig_def Let_def and_then_Inr envDuration_def envInt_def list.pred_inject)
      (meson env_value_Inr)
  with Config_Validate_defaults [of c] parsed_instances_trimmed [OF c(3)] c(1,2) same show ?thesis by simp
qed

section \<open>What the loop touches\<close>

text \<open>The tables beside the collector instances.\<close>

definition other_tables :: "CoordinatorDb \<Rightarrow> ControlDb \<times> CompletenessRow list \<times> PhaseState list" where
  "other_tables db = (cd_Control db, cd_Completeness db, cd_Phases db)"

lemma runReconcile_tables:
  assumes "runReconcile srv s t (db, obs) = (e, (db', obs'))"
  shows "other_tables db' = other_tables db"
  using assms
  by (auto simp: runReconcile_def Let_def ReconcileCollectorInstances_def other_tables_def
      split: option.splits prod.splits sum.splits if_splits)

lemma runReap_tables:
  assumes "runReapExpiredClaims srv s t (db, obs) = (e, (db', obs'))"
  shows "db_Runs (cd_Control db') = db_Runs (cd_Control db) \<and> cd_Instances db' = cd_Instances db
    \<and> run control_step (cd_Control db) (cd_Control db')"
proof (cases "ReapExpiredClaims (srv_collate srv) (srv_locked srv) (sv_Store s) (utc t)
    (cfg_ExpiredClaimLimit (sv_Config s)) (cfg_ExpiredClaimRequeueDelay (sv_Config s)) (cd_Control db)")
  case (Inl f)
  with assms show ?thesis by (auto simp: runReapExpiredClaims_def run_refl)
next
  case (Inr r)
  obtain claims control where r: "r = (claims, control)" by fastforce
  have "db_Runs control = db_Runs (cd_Control db)"
    using Inr r by (auto simp: ReapExpiredClaims_def reap_eq update_rows_def)
  with Inr r assms show ?thesis
    by (auto simp: runReapExpiredClaims_def intro!: run_one intro: step_reap)
qed

lemma after_ok_cases:
  assumes "after_ok what r k = (e, st)"
  obtains (failed) f where "fst r = Some f" and "e = Some (Wrap what f)" and "st = snd r"
  | (succeeded) "fst r = None" and "k (snd r) = (e, st)"
  using assms by (cases r; cases "fst r") auto

definition others_keep :: "(ControlDb \<times> CompletenessRow list \<times> PhaseState list \<Rightarrow> bool) \<Rightarrow> tick list \<Rightarrow> bool" where
  "others_keep P ts \<longleftrightarrow>
     (\<forall>f. Elsewhere f \<in> set ts \<longrightarrow> (\<forall>db. P (other_tables db) \<longrightarrow> P (other_tables (f db))))"

lemma others_keep_simps [simp]:
  "others_keep P []" "others_keep P (ReconcileTick t1 t2 # ts) = others_keep P ts"
  "others_keep P (ReapTick t # ts) = others_keep P ts"
  "others_keep P (Elsewhere f # ts) \<longleftrightarrow> (\<forall>db. P (other_tables db) \<longrightarrow> P (other_tables (f db))) \<and> others_keep P ts"
  by (auto simp: others_keep_def)

lemma on_reconcile_dark:
  assumes "\<not> active_mode s" and "on_reconcile srv s t1 t2 (db, obs) = (e, (db', obs'))"
  shows "other_tables db' = other_tables db"
proof -
  obtain f d l where r: "runReconcile srv s t1 (db, obs) = (f, (d, l))" by (metis prod.collapse)
  with runReconcile_tables [OF r] assms show ?thesis by (cases f) (auto simp: on_reconcile_def)
qed

lemma serve_dark:
  assumes dark: "\<not> active_mode s" and result: "serve srv s ts (db, obs) = (e, (db', obs'))"
    and others: "others_keep P ts"
    and P: "P (other_tables db)"
  shows "P (other_tables db')"
  using result others P
proof (induction ts arbitrary: db obs)
  case Nil
  then show ?case by simp
next
  case (Cons tick ts)
  show ?case
  proof (cases tick)
    case (ReconcileTick t1 t2)
    obtain f d l where r: "on_reconcile srv s t1 t2 (db, obs) = (f, (d, l))" by (metis prod.collapse)
    with on_reconcile_dark [OF dark r] ReconcileTick Cons show ?thesis by (cases f) auto
  next
    case (ReapTick t)
    with dark Cons show ?thesis by (simp add: on_reap_def)
  next
    case (Elsewhere f)
    with Cons.prems have "P (other_tables (f db))" "others_keep P ts" by simp_all
    with Elsewhere Cons.prems(1) Cons.IH show ?thesis by simp
  qed
qed

text \<open>
  C35: In dark mode the coordinator is confined to the collector instances: whatever its tickers
  deliver, and whether it ends by itself or with an error, it never touches runs, work items,
  claims, completeness or phases. Whatever other processes keep true of those tables stays true.
\<close>

theorem dark_coordinator_confined:
  assumes dark: "cfg_DeploymentMode (withDefaults (sv_Config s)) = deploymentModeDark"
    and others: "others_keep P ts"
    and result: "Run_service srv s t1 t2 t3 ts (db, obs) = (e, (db', obs'))" and P: "P (other_tables db)"
  shows "P (other_tables db')"
proof -
  define s' where "s' = s\<lparr>sv_Config := withDefaults (sv_Config s)\<rparr>"
  have inactive: "\<not> active_mode s'"
    using dark by (simp add: s'_def active_mode_def deploymentModeActive_def deploymentModeDark_def)
  obtain f d l where r: "runReconcile srv s' t1 (db, obs) = (f, (d, l))" by (metis prod.collapse)
  have d: "P (other_tables d)" using runReconcile_tables [OF r] P by simp
  show ?thesis
  proof (cases "first_err [check (\<not> sv_HasStore s) (Required ''workflow coordinator store''), Config_Validate (sv_Config s')]")
    case (Some g)
    with result P show ?thesis by (simp add: Run_service_def s'_def)
  next
    case None
    with result have "(case initial_pass srv s' t1 t2 t3 (db, obs) of
        (Some e, st') \<Rightarrow> (Some e, st') | (None, st') \<Rightarrow> serve srv s' ts st') = (e, (db', obs'))"
      by (simp only: Run_service_def Let_def s'_def [symmetric] option.case)
    with r d inactive serve_dark [OF inactive _ others] show ?thesis
      by (cases f) (auto simp: initial_pass_def)
  qed
qed

text \<open>
  One unfinished run whose update time precedes its creation time keeps an active
  coordinator from running at all: every start, at any time and with any configuration, ends with
  an error in the initial pass, before the first tick, and the row survives, so the next start
  fails too.
\<close>

theorem skewed_run_stops_coordinator:
  assumes active: "cfg_DeploymentMode (withDefaults (sv_Config s)) = deploymentModeActive"
    and row: "row \<in> set (db_Runs (cd_Control db))" "unfinished row" and skew: "rr_UpdatedAt row < rr_CreatedAt row"
    and ids: "distinct (map rr_RunID (db_Runs (cd_Control db)))"
  shows "\<exists>e db' obs'. Run_service srv s t1 t2 t3 ts (db, obs) = (Some e, (db', obs'))
    \<and> row \<in> set (db_Runs (cd_Control db')) \<and> distinct (map rr_RunID (db_Runs (cd_Control db')))"
proof -
  define s' where "s' = s\<lparr>sv_Config := withDefaults (sv_Config s)\<rparr>"
  have act: "active_mode s'" using active by (simp add: s'_def active_mode_def)
  obtain e1 d1 l1 where r1: "runReconcile srv s' t1 (db, obs) = (e1, (d1, l1))" by (metis prod.collapse)
  obtain e2 d2 l2 where r2: "runReapExpiredClaims srv s' t2 (d1, l1) = (e2, (d2, l2))" by (metis prod.collapse)
  have d1: "db_Runs (cd_Control d1) = db_Runs (cd_Control db)"
    using runReconcile_tables [OF r1] by (simp add: other_tables_def)
  have d2: "db_Runs (cd_Control d2) = db_Runs (cd_Control db)" using runReap_tables [OF r2] d1 by simp
  obtain e3 d3 where r3: "ReconcileWorkflowRuns (srv_collate srv) (sv_Store s') t3 d2 = ((0, Some e3), d3)"
      and d3: "row \<in> set (db_Runs (cd_Control d3))" "distinct (map rr_RunID (db_Runs (cd_Control d3)))"
    using skewed_run_fails [of row d2 "srv_collate srv" "sv_Store s'" t3] row skew ids d2 by auto
  have "\<exists>e d l. initial_pass srv s' t1 t2 t3 (db, obs) = (Some e, (d, l))
      \<and> row \<in> set (db_Runs (cd_Control d)) \<and> distinct (map rr_RunID (db_Runs (cd_Control d)))"
  proof (cases e1)
    case (Some f)
    with r1 d1 row ids show ?thesis by (simp add: initial_pass_def)
  next
    case None
    note ok1 = this
    show ?thesis
    proof (cases e2)
      case (Some f)
      with ok1 act r1 r2 d2 row ids show ?thesis by (simp add: initial_pass_def)
    next
      case None
      with ok1 act r1 r2 r3 d3 show ?thesis by (simp add: initial_pass_def runWorkflowReconciliation_def)
    qed
  qed
  then obtain e d l where init: "initial_pass srv s' t1 t2 t3 (db, obs) = (Some e, (d, l))"
      "row \<in> set (db_Runs (cd_Control d))" "distinct (map rr_RunID (db_Runs (cd_Control d)))" by blast
  show ?thesis
  proof (cases "first_err [check (\<not> sv_HasStore s) (Required ''workflow coordinator store''), Config_Validate (sv_Config s')]")
    case (Some g)
    with row ids show ?thesis by (simp add: Run_service_def s'_def)
  next
    case None
    with init show ?thesis by (simp only: Run_service_def Let_def s'_def [symmetric] option.case prod.case) blast
  qed
qed

section \<open>Instance drift\<close>

text \<open>
  The drift the coordinator reports after a successful reconciliation is the number of
  retired instances, the rows of collectors that are no longer configured: they stay in the table,
  deactivated, and the count of durable instances includes them. So once one instance has been
  removed from the configuration, every later pass reports drift, although the active instances
  agree with it.
\<close>

theorem drift_counts_retired:
  assumes ids: "distinct (map ins_InstanceID (cd_Instances db))"
      "distinct (map (\<lambda>d. trim_space (dci_InstanceID d)) (cfg_CollectorInstances (sv_Config s)))"
    and result: "runReconcile srv s t (db, obs) = (None, (db', obs'))"
  shows "\<exists>durable. obs' = obs @ [ReconcileObservation ''success'' (length (cfg_CollectorInstances (sv_Config s))) durable]
    \<and> durable = length (cfg_CollectorInstances (sv_Config s))
        + length (filter (\<lambda>r. ins_InstanceID r \<notin>
            set (map (\<lambda>d. trim_space (dci_InstanceID d)) (cfg_CollectorInstances (sv_Config s)))) (cd_Instances db))
    \<and> durable = length (cd_Instances db')"
proof -
  let ?desired = "cfg_CollectorInstances (sv_Config s)"
  let ?names = "map (\<lambda>d. trim_space (dci_InstanceID d)) ?desired"
  obtain rows ids' where up: "upsert_instances (srv_jsonb srv) t ?desired (cd_Instances db) = (None, rows)"
      and db': "cd_Instances db' = deactivateStaleCollectorInstancesQuery t ids' rows"
    using result by (auto simp: runReconcile_def Let_def ReconcileCollectorInstances_def
        split: option.splits prod.splits sum.splits if_splits)
  obtain rs where rows: "rows = fold (upsert_row ins_InstanceID merge_instance) rs (cd_Instances db)"
      and rs: "map ins_InstanceID rs = ?names"
    using upsert_instances_rows [OF up] by (auto simp: o_def)
  have merge: "ins_InstanceID (merge_instance r q) = ins_InstanceID q" if "ins_InstanceID r = ins_InstanceID q" for r q
    using that by (simp add: merge_instance_def)
  have dist: "distinct (map ins_InstanceID rows)"
    unfolding rows by (rule upsert_rows_distinct) (simp_all add: merge ids(1))
  have keys: "set (map ins_InstanceID rows) = set (map ins_InstanceID (cd_Instances db)) \<union> set ?names"
    unfolding rows rs [symmetric] by (rule upsert_rows_keys) (simp add: merge)
  let ?retired = "filter (\<lambda>r. ins_InstanceID r \<notin> set ?names) (cd_Instances db)"
  have "length rows = card (set (map ins_InstanceID rows))"
    using distinct_card [OF dist] by simp
  also have "\<dots> = card (set ?names \<union> set (map ins_InstanceID ?retired))"
    unfolding keys by (rule arg_cong [where f = card]) force
  also have "\<dots> = card (set ?names) + card (set (map ins_InstanceID ?retired))"
    by (rule card_Un_disjoint) (force+)
  also have "\<dots> = length ?desired + length ?retired"
    using distinct_card [OF ids(2)] distinct_card [of "map ins_InstanceID ?retired"] ids(1)
    by (simp add: distinct_map_filter)
  finally have len: "length rows = length ?desired + length ?retired" .
  have "length (cd_Instances db') = length rows" by (simp add: db' deactivateStaleCollectorInstancesQuery_def)
  moreover have "obs' = obs @ [ReconcileObservation ''success'' (length ?desired) (length (cd_Instances db'))]"
    using result by (auto simp: runReconcile_def Let_def ListCollectorInstances_def checked_Inl
        split: option.splits prod.splits sum.splits)
  ultimately show ?thesis using len by simp
qed

section \<open>Witnesses\<close>

text \<open>A document with bars for its quotation marks.\<close>

definition quoted :: "string \<Rightarrow> string" where
  "quoted = map (\<lambda>c. if c = CHR ''|'' then byte 34 else c)"

definition example_env :: "string \<Rightarrow> string" where
  "example_env name =
     (if name = ''PCG_WORKFLOW_COORDINATOR_DEPLOYMENT_MODE'' then '' active''
      else if name = ''PCG_WORKFLOW_COORDINATOR_ENABLE_CLAIMS'' then ''true''
      else if name = ''PCG_WORKFLOW_COORDINATOR_REAP_INTERVAL'' then ''1m30s''
      else if name = ''PCG_COLLECTOR_INSTANCES_JSON'' then
        quoted ''[{|instance_id|:| git-1|,|collector_kind|:|git|,|mode|:|manual|,|enabled|:true,|Claims_Enabled|:true}]''
      else [])"

definition example_config :: Config where
  "example_config = \<lparr>cfg_DeploymentMode = ''active'', cfg_ClaimsEnabled = True, cfg_ReconcileInterval = seconds 30,
     cfg_ReapInterval = seconds 90, cfg_ClaimLeaseTTL = seconds 60, cfg_HeartbeatInterval = seconds 20,
     cfg_ExpiredClaimLimit = 100, cfg_ExpiredClaimRequeueDelay = seconds 5, cfg_CollectorInstances =
       [\<lparr>dci_InstanceID = ''git-1'', dci_CollectorKind = ''git'', dci_Mode = CollectorModeManual, dci_Enabled = True,
         dci_Bootstrap = False, dci_ClaimsEnabled = True, dci_DisplayName = [], dci_Configuration = ''{}''\<rparr>]\<rparr>"

lemma example_instances: "parseCollectorInstances (example_env ''PCG_COLLECTOR_INSTANCES_JSON'') =
    Inr (cfg_CollectorInstances example_config)"
  by code_simp

lemma example_claims: "claims_enabled_env example_env = Inr True"
  by code_simp

lemma example_durations:
  "envDuration example_env ''PCG_WORKFLOW_COORDINATOR_RECONCILE_INTERVAL'' defaultReconcileInterval = Inr (seconds 30)"
  "envDuration example_env ''PCG_WORKFLOW_COORDINATOR_REAP_INTERVAL'' DefaultReapInterval = Inr (seconds 90)"
  "envDuration example_env ''PCG_WORKFLOW_COORDINATOR_CLAIM_LEASE_TTL'' DefaultClaimLeaseTTL = Inr (seconds 60)"
  "envDuration example_env ''PCG_WORKFLOW_COORDINATOR_HEARTBEAT_INTERVAL'' DefaultHeartbeatInterval = Inr (seconds 20)"
  "envDuration example_env ''PCG_WORKFLOW_COORDINATOR_EXPIRED_CLAIM_REQUEUE_DELAY'' DefaultExpiredClaimRequeueDelay = Inr (seconds 5)"
  "envInt example_env ''PCG_WORKFLOW_COORDINATOR_EXPIRED_CLAIM_LIMIT'' DefaultExpiredClaimLimit = Inr 100"
  by code_simp+

lemma example_mode: "trim_space (example_env ''PCG_WORKFLOW_COORDINATOR_DEPLOYMENT_MODE'') = ''active''"
  by code_simp

lemma example_config_valid: "Config_Validate (example_config\<lparr>cfg_DeploymentMode := mode\<rparr>) = None"
  if "mode = ''active'' \<or> mode = ''dark''"
proof -
  have "DesiredCollectorInstance_Validate (hd (cfg_CollectorInstances example_config)) = None"
    by code_simp
  with that show ?thesis
    by (auto simp: Config_Validate_def Let_def withDefaults_def example_config_def activeClaimCollectors_def
        deploymentModeActive_def deploymentModeDark_def seconds_def solid_not_blank solid_simps)
qed

lemma example_env_loads: "LoadConfig example_env = Inr example_config"
proof -
  have "withDefaults \<lparr>cfg_DeploymentMode = ''active'', cfg_ClaimsEnabled = True, cfg_ReconcileInterval = seconds 30,
     cfg_ReapInterval = seconds 90, cfg_ClaimLeaseTTL = seconds 60, cfg_HeartbeatInterval = seconds 20,
     cfg_ExpiredClaimLimit = 100, cfg_ExpiredClaimRequeueDelay = seconds 5,
     cfg_CollectorInstances = cfg_CollectorInstances example_config\<rparr> = example_config"
    by (simp add: withDefaults_def example_config_def seconds_def solid_not_blank solid_simps)
  moreover have "Config_Validate example_config = None"
    using example_config_valid [of "''active''"] by (simp add: example_config_def)
  ultimately show ?thesis
    by (simp add: LoadConfig_def Let_def example_mode example_claims example_durations example_instances)
qed

lemma loaded_config_ok_witness:
  "config_ok example_config \<and> cfg_ReapInterval example_config = 90 * 10 ^ 9"
  using loaded_config_ok [OF example_env_loads] by (simp add: example_config_def seconds_def)

definition example_server :: Server where
  "example_server = \<lparr>srv_collate = compare, srv_jsonb = Some, srv_locked = {}\<rparr>"

definition example_coordinator :: "string \<Rightarrow> Service" where
  "example_coordinator mode = \<lparr>sv_Config = example_config\<lparr>cfg_DeploymentMode := mode\<rparr>, sv_HasStore = True,
     sv_Store = NewWorkflowControlStore True\<rparr>"

definition retired_row :: InstanceRow where
  "retired_row = \<lparr>ins_InstanceID = ''git-0'', ins_CollectorKind = ''git'', ins_Mode = CollectorModeManual,
     ins_Enabled = True, ins_Bootstrap = False, ins_ClaimsEnabled = True, ins_DisplayName = None,
     ins_Configuration = ''{}'', ins_LastObservedAt = 1, ins_DeactivatedAt = None, ins_CreatedAt = 1, ins_UpdatedAt = 1\<rparr>"

lemma dark_coordinator_confined_witness:
  "fst (Run_service example_server (example_coordinator ''dark'') 20 20 20 [ReconcileTick 50 50, ReapTick 60] (run_db [], [])) = None
   \<and> cd_Control (fst (snd (Run_service example_server (example_coordinator ''dark'') 20 20 20
       [ReconcileTick 50 50, ReapTick 60] (run_db [], [])))) = cd_Control (run_db [])"
proof -
  obtain e d l where run: "Run_service example_server (example_coordinator ''dark'') 20 20 20
      [ReconcileTick 50 50, ReapTick 60] (run_db [], []) = (e, (d, l))" by (metis prod.collapse)
  have mode: "cfg_DeploymentMode (withDefaults (sv_Config (example_coordinator ''dark''))) = deploymentModeDark"
    by (simp add: withDefaults_def example_coordinator_def deploymentModeDark_def)
  have "cd_Control d = cd_Control (run_db [])"
    using dark_coordinator_confined [OF mode _ run, of "\<lambda>x. x = other_tables (run_db [])"]
    by (simp add: other_tables_def)
  moreover have "fst (Run_service example_server (example_coordinator ''dark'') 20 20 20
      [ReconcileTick 50 50, ReapTick 60] (run_db [], [])) = None" by code_simp
  ultimately show ?thesis using run by simp
qed

lemma skewed_run_stops_coordinator_witness:
  "\<exists>e d l. Run_service example_server (example_coordinator ''active'') 20 20 20 []
     ((run_db [])\<lparr>cd_Control := \<lparr>db_Runs = [example_run\<lparr>rr_UpdatedAt := 5\<rparr>], db_Items = [], db_Claims = []\<rparr>\<rparr>, [])
     = (Some e, (d, l))"
proof -
  have mode: "cfg_DeploymentMode (withDefaults (sv_Config (example_coordinator ''active''))) = deploymentModeActive"
    by (simp add: withDefaults_def example_coordinator_def deploymentModeActive_def solid_not_blank solid_simps)
  show ?thesis
    using skewed_run_stops_coordinator [OF mode, of "example_run\<lparr>rr_UpdatedAt := 5\<rparr>"
      "(run_db [])\<lparr>cd_Control := \<lparr>db_Runs = [example_run\<lparr>rr_UpdatedAt := 5\<rparr>], db_Items = [], db_Claims = []\<rparr>\<rparr>"
      example_server 20 20 20 "[]" "[]"]
    by (fastforce simp: example_run_def unfinished_def)
qed

lemma drift_counts_retired_witness:
  "\<exists>d l. runReconcile example_server (example_coordinator ''active'') 20 ((run_db [])\<lparr>cd_Instances := [retired_row]\<rparr>, [])
     = (None, (d, l)) \<and> l = [ReconcileObservation ''success'' 1 2]"
proof -
  have "fst (runReconcile example_server (example_coordinator ''active'') 20
      ((run_db [])\<lparr>cd_Instances := [retired_row]\<rparr>, [])) = None" by code_simp
  then obtain d l where run: "runReconcile example_server (example_coordinator ''active'') 20
      ((run_db [])\<lparr>cd_Instances := [retired_row]\<rparr>, []) = (None, (d, l))" by (metis prod.collapse)
  have "trim_space ''git-1'' = ''git-1''" by (rule trim_space_solid) (simp add: solid_simps)
  with drift_counts_retired [OF _ _ run] run show ?thesis
    by (simp add: example_coordinator_def example_config_def retired_row_def)
qed

end
