(* ===== verification/Payload.thy ===== *)
theory Payload
  imports Json JsonEncode "HOL-Library.Code_Target_Numeral"
begin

text \<open>
  \<open>marshalPayload\<close>, \<open>sanitizeJSONB\<close> and \<open>unmarshalPayload\<close> of
  \<open>go/internal/storage/postgres/facts.go\<close>: how the maps of the facts and of the reducer intents
  become JSONB columns and come back. A Go map is the list of its members in key order; numbers
  keep their literal text (the library would read them as \<open>float64\<close>). The lemmas show that the
  encoder and the reader of \<open>Json\<close> are inverse.
\<close>

section \<open>Encoding\<close>

text \<open>\<open>json.Marshal\<close> of a decoded value; the members of a map are written in key order.\<close>

fun encode_json :: "json \<Rightarrow> string" where
  "encode_json JNull = ''null''"
| "encode_json (JBool b) = (if b then ''true'' else ''false'')"
| "encode_json (JNum lit) = lit"
| "encode_json (JStr s) = encode_string s"
| "encode_json (JArr vs) = ''['' @ join_comma (map encode_json vs) @ '']''"
| "encode_json (JObj m) = ''{'' @ join_comma (map (\<lambda>(k, text). encode_string k @ '':'' @ text)
     (sort_key fst (map (\<lambda>(k, v). (k, encode_json v)) m))) @ ''}''"

type_synonym payload = "(string \<times> json) list"

text \<open>\<open>bytes.ReplaceAll(s, p, nil)\<close> for a pattern that is not empty.\<close>

function remove_all :: "string \<Rightarrow> string \<Rightarrow> string" where
  "remove_all p [] = []"
| "remove_all p (c # cs) =
     (if p \<noteq> [] \<and> prefix p (c # cs) then remove_all p (drop (length p) (c # cs))
      else c # remove_all p cs)"
  by pat_completeness auto
termination
  by (relation "measure (\<lambda>(_, s). length s)") auto

definition nul_escape :: string where
  "nul_escape = byte 92 # ''u0000''"

definition stripped_control :: "char \<Rightarrow> bool" where
  "stripped_control c \<longleftrightarrow> (of_char c :: nat) < 32 \<and> of_char c \<notin> {9, 10, 13 :: nat}"

definition sanitizeJSONB :: "string \<Rightarrow> string" where
  "sanitizeJSONB text =
     (if list_ex stripped_control text \<or> sublist nul_escape text
      then filter (\<lambda>c. \<not> stripped_control c) (remove_all nul_escape text)
      else text)"

definition marshalPayload :: "payload \<Rightarrow> string" where
  "marshalPayload p =
     (if p = [] then ''{}''
      else (let text = sanitizeJSONB (encode_json (JObj p)) in if json_Valid text then text else ''{}''))"

section \<open>Decoding\<close>

text \<open>A JSON object read into a Go map: the last of the members with one key stays.\<close>

fun keep_last :: "(string \<times> 'a) list \<Rightarrow> (string \<times> 'a) list" where
  "keep_last [] = []"
| "keep_last ((k, v) # m) = (if k \<in> fst ` set m then keep_last m else (k, v) # keep_last m)"

fun as_go_value :: "json \<Rightarrow> json" where
  "as_go_value (JArr vs) = JArr (map as_go_value vs)"
| "as_go_value (JObj m) = JObj (sort_key fst (keep_last (map (\<lambda>(k, v). (k, as_go_value v)) m)))"
| "as_go_value v = v"

definition unmarshalPayload :: "string \<Rightarrow> payload option result" where
  "unmarshalPayload raw =
     (if raw = [] then Inr None
      else (case parse_document raw of
              None \<Rightarrow> Inl (Wrap ''decode payload json'' (Msg ''syntax error''))
            | Some JNull \<Rightarrow> Inr None
            | Some v \<Rightarrow>
                (case as_go_value v of
                   JObj p \<Rightarrow> Inr (if p = [] then None else Some p)
                 | _ \<Rightarrow> Inl (Wrap ''decode payload json'' (Msg ''cannot unmarshal'')))))"

section \<open>Strings\<close>

lemma char_eq_byte:
  assumes "n < 256"
  shows "c = byte n \<longleftrightarrow> of_char c = n"
proof
  show "of_char c = n" if "c = byte n" using that assms by (simp add: of_char_byte)
  show "c = byte n" if "of_char c = n" using that by (auto simp: byte_def)
qed

lemma literal_bytes: "CHR ''u'' = byte 117" "CHR 0x5C = byte 92" "CHR 0x22 = byte 34" "CHR ''b'' = byte 98"
  "CHR ''f'' = byte 102" "CHR ''n'' = byte 110" "CHR ''r'' = byte 114" "CHR ''t'' = byte 116"
  "CHR ''/'' = byte 47" "CHR ''0'' = byte 48" "CHR ''2'' = byte 50" "CHR ''8'' = byte 56" "CHR ''9'' = byte 57"
  "CHR '':'' = byte 58" "CHR '','' = byte 44" "CHR ''['' = byte 91" "CHR '']'' = byte 93" "CHR ''{'' = byte 123" "CHR ''}'' = byte 125"
  by (simp_all add: char_eq_byte)

lemma byte_eq [simp]: "m < 256 \<Longrightarrow> n < 256 \<Longrightarrow> byte m = byte n \<longleftrightarrow> m = n"
  by (metis of_char_byte)

lemma hex_value_digit [simp]: "n < 16 \<Longrightarrow> hex_value (hex_digit n) = Some n"
  by (auto simp: hex_digit_def hex_value_def Let_def byte_def [symmetric] of_char_byte)

lemma hex_value_zero: "hex_value (byte 48) = Some 0"
  by (simp add: hex_value_def of_char_byte)

lemma utf8_ascii [simp]: "n < 128 \<Longrightarrow> utf8 n = [byte n]"
  by (simp add: utf8_def)

lemma escape_simps:
  "escape (byte 34) = Some (byte 34)" "escape (byte 92) = Some (byte 92)" "escape (byte 98) = Some (byte 8)"
  "escape (byte 102) = Some (byte 12)" "escape (byte 110) = Some (byte 10)" "escape (byte 114) = Some (byte 13)"
  "escape (byte 116) = Some (byte 9)"
  by (simp_all add: escape_def literal_bytes)

lemma lex_plain:
  assumes "32 \<le> (of_char c :: nat)" and "c \<noteq> byte 34" and "c \<noteq> byte 92"
  shows "lex_string (Suc f) (c # t) = map_option (apfst ((#) c)) (lex_string f t)"
  using assms by simp

lemma lex_escaped:
  assumes "escape d = Some e" and "d \<noteq> byte 117"
  shows "lex_string (Suc f) (byte 92 # d # t) = map_option (apfst ((#) e)) (lex_string f t)"
  using assms by (simp add: literal_bytes of_char_byte)

lemma lex_unicode:
  assumes "hex4 u = Some (n, t)" and "n < 55296 \<or> 57343 < n"
  shows "lex_string (Suc f) (byte 92 # byte 117 # u) = map_option (apfst ((@) (utf8 n))) (lex_string f t)"
  using assms by (auto simp: literal_bytes of_char_byte)

declare lex_string.simps(2) [simp del]

lemma append_sections [simp]: "(@) [c] = (#) c" "apfst (\<lambda>a. a) = id"
  by (auto simp: fun_eq_iff)

lemma lex_escape_byte:
  assumes "b < 128"
  shows "lex_string (Suc f) (escape_byte b @ t) = map_option (apfst ((#) (byte b))) (lex_string f t)"
proof -
  have hex: "hex4 (byte 48 # byte 48 # hex_digit (b div 16) # hex_digit (b mod 16) # t) = Some (b, t)"
    using assms by (simp add: hex_value_zero)
  consider "b = 34 \<or> b = 92" | "b = 8" | "b = 12" | "b = 10" | "b = 13" | "b = 9"
    | "b \<notin> {34, 92, 8, 12, 10, 13, 9}" "b < 32 \<or> b = 60 \<or> b = 62 \<or> b = 38"
    | "b \<notin> {34, 92, 8, 12, 10, 13, 9}" "\<not> (b < 32 \<or> b = 60 \<or> b = 62 \<or> b = 38)" by auto
  then show ?thesis
  proof cases
    case 7
    then have "escape_byte b @ t = byte 92 # byte 117 # byte 48 # byte 48 # hex_digit (b div 16) # hex_digit (b mod 16) # t"
      by (simp add: escape_byte_def literal_bytes)
    moreover have "b < 55296 \<or> 57343 < b" using assms by simp
    ultimately show ?thesis using lex_unicode [OF hex] assms by simp
  next
    case 8
    then have "escape_byte b @ t = byte b # t" by (simp add: escape_byte_def byte_def)
    moreover have "byte b \<noteq> byte 34" "byte b \<noteq> byte 92" using 8 assms by simp_all
    ultimately show ?thesis using 8 assms by (simp add: of_char_byte lex_plain)
  qed (auto simp: escape_byte_def literal_bytes lex_escaped escape_simps byte_def [symmetric])
qed

lemma lex_high:
  assumes "\<forall>c \<in> set xs. 128 \<le> (of_char c :: nat)"
  shows "lex_string (length xs + f) (xs @ t) = map_option (apfst ((@) xs)) (lex_string f t)"
  using assms
proof (induction xs)
  case Nil
  then show ?case by (simp add: option.map_ident)
next
  case (Cons c xs)
  then have "c \<noteq> byte 34" "c \<noteq> byte 92" "32 \<le> (of_char c :: nat)" by (auto simp: of_char_byte)
  with Cons show ?case by (simp add: lex_plain option.map_comp o_def apfst_compose)
qed

lemma rune_length_bytes:
  assumes "rune_length bs = Some n" and "n \<noteq> 1"
  shows "n \<le> length bs \<and> 2 \<le> n \<and> n \<le> 4 \<and> (\<forall>b \<in> set (take n bs). 128 \<le> b)"
  using assms by (cases bs rule: rune_length.cases) (auto simp: continuation_def split: list.splits if_splits)

text \<open>Text that \<open>utf8.DecodeRune\<close> reads without an error to its end.\<close>

function valid_utf8 :: "string \<Rightarrow> bool" where
  "valid_utf8 [] = True"
| "valid_utf8 (c # cs) =
     (case rune_length (map of_char (c # cs)) of
        None \<Rightarrow> False
      | Some n \<Rightarrow> if n \<le> 1 then valid_utf8 cs else valid_utf8 (drop n (c # cs)))"
  by pat_completeness auto
termination
  by (relation "measure length") auto

lemma lex_string_mono_none: "lex_string f (byte 34 # t) = Some ([], t)" if "0 < f"
  using that by (cases f) (simp_all add: lex_string.simps(2))

lemma apfst_append: "map_option (apfst ((@) xs)) (Some (ys, t)) = Some (xs @ ys, t)"
  by simp

lemma rune_bytes_high:
  assumes "rune_length (map of_char s) = Some n" and "n \<noteq> 1"
  shows "n \<le> length s \<and> 2 \<le> n \<and> n \<le> 4 \<and> (\<forall>c \<in> set (take n s). 128 \<le> (of_char c :: nat))"
proof -
  have "\<forall>b \<in> set (take n (map of_char s)). 128 \<le> (b :: nat)" "n \<le> length s" "2 \<le> n" "n \<le> 4"
    using rune_length_bytes [OF assms] by auto
  then show ?thesis by (simp add: take_map)
qed

lemma rune_length_one:
  assumes "rune_length (map of_char (c # cs)) = Some n" and "n \<le> 1"
  shows "(of_char c :: nat) < 128"
proof (cases "n = 1")
  case True
  with assms(1) show ?thesis by (auto split: if_splits list.splits)
next
  case False
  with rune_bytes_high [OF assms(1)] assms(2) show ?thesis by simp
qed

lemma lex_separator:
  assumes "map of_char (take 3 s) = [226 :: nat, 128, d]" and "d = 168 \<or> d = 169"
  shows "take 3 s = utf8 (8064 + d)"
    and "hex4 (''20'' @ byte 50 # (if d = 168 then CHR ''8'' else CHR ''9'') # t) = Some (8064 + d, t)"
proof -
  have "take 3 s = map char_of (map of_char (take 3 s) :: nat list)" by (simp add: o_def)
  also have "\<dots> = [byte 226, byte 128, byte d]" by (simp add: assms(1) byte_def)
  also have "\<dots> = utf8 (8064 + d)" using assms(2) by (auto simp: utf8_def)
  finally show "take 3 s = utf8 (8064 + d)" .
  show "hex4 (''20'' @ byte 50 # (if d = 168 then CHR ''8'' else CHR ''9'') # t) = Some (8064 + d, t)"
    using assms(2) by (auto simp: hex_value_def literal_bytes of_char_byte)
qed

lemma escape_string_step:
  assumes "rune_length (map of_char (c # cs)) = Some n"
  shows "escape_string (c # cs) =
    (if n \<le> 1 then escape_byte (of_char c) @ escape_string cs
     else if map of_char (take 3 (c # cs)) = [226 :: nat, 128, 168]
     then byte 92 # byte 117 # ''20'' @ byte 50 # CHR ''8'' # escape_string (drop n (c # cs))
     else if map of_char (take 3 (c # cs)) = [226 :: nat, 128, 169]
     then byte 92 # byte 117 # ''20'' @ byte 50 # CHR ''9'' # escape_string (drop n (c # cs))
     else take n (c # cs) @ escape_string (drop n (c # cs)))"
  by (subst escape_string.simps) (simp only: assms Let_def option.case, simp add: literal_bytes)

declare escape_string.simps(2) [simp del]

text \<open>What \<open>escape_string\<close> writes, the reader reads back.\<close>

lemma lex_escape_string:
  "valid_utf8 s \<Longrightarrow> length (escape_string s) < f \<Longrightarrow> lex_string f (escape_string s @ byte 34 # t) = Some (s, t)"
proof (induction s arbitrary: f rule: valid_utf8.induct)
  case 1
  then show ?case by (simp add: lex_string_mono_none)
next
  case (2 c cs)
  from 2(3) obtain n where n: "rune_length (map of_char (c # cs)) = Some n"
    by (auto split: option.splits)
  show ?case
  proof (cases "n \<le> 1")
    case True
    have valid: "valid_utf8 cs" using 2(3) n True by simp
    have esc: "escape_string (c # cs) = escape_byte (of_char c) @ escape_string cs"
      using True by (simp only: escape_string_step [OF n] if_True)
    have "escape_byte (of_char c) \<noteq> []" by (simp add: escape_byte_def)
    then have len: "length (escape_string cs) < f - 1" "f \<noteq> 0"
      using 2(4) esc by (cases "escape_byte (of_char c)"; simp)+
    have "lex_string (f - 1) (escape_string cs @ byte 34 # t) = Some (cs, t)"
      using 2(1) [OF n True valid len(1)] .
    with lex_escape_byte [OF rune_length_one [OF n True], of "f - 1" "escape_string cs @ byte 34 # t"] len(2) esc
    show ?thesis by (simp add: byte_def)
  next
    case False
    let ?s = "c # cs"
    have high: "n \<le> length ?s" "2 \<le> n" "\<forall>x \<in> set (take n ?s). 128 \<le> (of_char x :: nat)"
      using rune_bytes_high [OF n] False by auto
    have valid: "valid_utf8 (drop n ?s)" using 2(3) n False by simp
    show ?thesis
    proof (cases "\<exists>d. map of_char (take 3 ?s) = [226 :: nat, 128, d] \<and> (d = 168 \<or> d = 169)")
      case True
      then obtain d where d: "map of_char (take 3 ?s) = [226 :: nat, 128, d]" "d = 168 \<or> d = 169"
        by (elim exE conjE) metis
      have three: "n = 3" using n d(1) by (auto split: list.splits if_splits simp: take_Suc_conv_app_nth numeral_3_eq_3)
      have esc: "escape_string ?s = byte 92 # byte 117 # ''20'' @ byte 50 # (if d = 168 then CHR ''8'' else CHR ''9'') # escape_string (drop n ?s)"
        using False d by (subst escape_string_step [OF n]) auto
      have "lex_string (f - 1) (escape_string (drop n ?s) @ byte 34 # t) = Some (drop n ?s, t)"
        using 2(2) [OF n False valid, of "f - 1"] 2(4) esc by simp
      moreover have "f = Suc (f - 1)" using 2(4) by simp
      moreover have "8064 + d < 55296 \<or> 57343 < 8064 + d" using d(2) by auto
      ultimately have "lex_string f (escape_string ?s @ byte 34 # t) = Some (utf8 (8064 + d) @ drop n ?s, t)"
        using lex_unicode [OF lex_separator(2) [OF d], of "f - 1" "escape_string (drop n ?s) @ byte 34 # t"] esc
        by simp
      then show ?thesis
        using lex_separator(1) [OF d] three by (metis append_take_drop_id)
    next
      case False
      then have esc: "escape_string ?s = take n ?s @ escape_string (drop n ?s)"
        using \<open>\<not> n \<le> 1\<close> by (subst escape_string_step [OF n]) auto
      have f: "f = length (take n ?s) + (f - n)" using high(1) 2(4) esc by simp
      have "lex_string (f - n) (escape_string (drop n ?s) @ byte 34 # t) = Some (drop n ?s, t)"
        using 2(2) [OF n \<open>\<not> n \<le> 1\<close> valid, of "f - n"] 2(4) esc high(1) by simp
      with lex_high [OF high(3), of "f - n" "escape_string (drop n ?s) @ byte 34 # t"] esc f
      show ?thesis by (metis append.assoc append_take_drop_id apfst_append)
    qed
  qed
qed

lemma read_encoded: "valid_utf8 s \<Longrightarrow> read_string (escape_string s @ byte 34 # t) = Some (s, t)"
  unfolding read_string_def by (rule lex_escape_string) simp_all

lemma encode_string_bytes: "encode_string s = byte 34 # escape_string s @ [byte 34]"
  by (simp add: encode_string_def literal_bytes)

section \<open>Numbers\<close>

text \<open>What may follow a value in a document: nothing, or a comma or closing bracket.\<close>

definition delimited :: "string \<Rightarrow> bool" where
  "delimited rest \<longleftrightarrow> rest = [] \<or> hd rest \<in> {byte 44, byte 93, byte 125}"

lemma delimited_head:
  assumes "delimited rest" and "rest \<noteq> []"
  shows "\<not> is_digit (hd rest)" and "hd rest \<noteq> CHR ''.''" and "hd rest \<noteq> CHR ''e''" and "hd rest \<noteq> CHR ''E''"
proof -
  have "of_char (hd rest) = (44 :: nat) \<or> of_char (hd rest) = (93 :: nat) \<or> of_char (hd rest) = (125 :: nat)"
    using assms by (auto simp: delimited_def of_char_byte)
  then show "\<not> is_digit (hd rest)" "hd rest \<noteq> CHR ''.''" "hd rest \<noteq> CHR ''e''" "hd rest \<noteq> CHR ''E''"
    by (auto simp: is_digit_def less_eq_char_def)
qed

lemma takeWhile_delimited:
  assumes "rest = [] \<or> \<not> P (hd rest)"
  shows "takeWhile P (s @ rest) = takeWhile P s" and "dropWhile P (s @ rest) = dropWhile P s @ rest"
  using assms by (induction s; cases rest; simp)+

lemma digits_delimited:
  assumes "delimited rest"
  shows "takeWhile is_digit (s @ rest) = takeWhile is_digit s" and "dropWhile is_digit (s @ rest) = dropWhile is_digit s @ rest"
  using takeWhile_delimited [of rest is_digit s] delimited_head(1) [OF assms] by blast+

lemma lex_int_extend: "delimited rest \<Longrightarrow> lex_int s = Some (i, r) \<Longrightarrow> lex_int (s @ rest) = Some (i, r @ rest)"
  using digits_delimited [of rest "tl s"] digits_delimited [of rest s]
  by (cases s) (auto simp: lex_int_def split: if_splits)

lemma lex_frac_extend:
  assumes "delimited rest" and "lex_frac s = Some (f, r)"
  shows "lex_frac (s @ rest) = Some (f, r @ rest)"
proof (cases s)
  case Nil
  with assms delimited_head(2) [of rest] show ?thesis by (cases rest) (auto simp: lex_frac_def)
next
  case (Cons c t)
  with assms digits_delimited [OF assms(1), of t] show ?thesis
    by (auto simp: lex_frac_def split: if_splits)
qed

lemma lex_exp_extend:
  assumes "delimited rest" and "lex_exp s = Some (e, r)"
  shows "lex_exp (s @ rest) = Some (e, r @ rest)"
proof (cases s)
  case Nil
  with assms delimited_head(3,4) [of rest] show ?thesis by (cases rest) (auto simp: lex_exp_def)
next
  case (Cons c t)
  show ?thesis
  proof (cases "c = CHR ''e'' \<or> c = CHR ''E''")
    case True
    with assms(2) Cons have "t \<noteq> []" by (auto simp: lex_exp_def Let_def split: if_splits)
    then obtain d u where t: "t = d # u" by (cases t) auto
    with assms True Cons digits_delimited [OF assms(1), of u] digits_delimited [OF assms(1), of "d # u"]
    show ?thesis by (auto simp: lex_exp_def Let_def split: if_splits)
  next
    case False
    with assms Cons show ?thesis by (auto simp: lex_exp_def)
  qed
qed

lemma lex_number_extend:
  assumes rest: "delimited rest" and "lex_number s = Some (n, r)"
  shows "lex_number (s @ rest) = Some (n, r @ rest)"
proof -
  let ?sign = "case s of [] \<Rightarrow> [] | c # _ \<Rightarrow> if c = CHR ''-'' then [c] else []"
  obtain i s1 f s2 e where parts: "lex_int (drop (length ?sign) s) = Some (i, s1)" "lex_frac s1 = Some (f, s2)"
      "lex_exp s2 = Some (e, r)" "n = ?sign @ i @ f @ e"
    using assms(2) by (auto simp: lex_number_def Let_def split: option.splits prod.splits)
  then have "s \<noteq> []" by (auto simp: lex_int_def)
  then have sign: "(case s @ rest of [] \<Rightarrow> [] | c # _ \<Rightarrow> if c = CHR ''-'' then [c] else []) = ?sign"
    and drop: "drop (length ?sign) (s @ rest) = drop (length ?sign) s @ rest"
    by (cases s; simp)+
  show ?thesis
    using lex_int_extend [OF rest parts(1)] lex_frac_extend [OF rest parts(2)] lex_exp_extend [OF rest parts(3)]
    unfolding lex_number_def sign Let_def drop by (simp add: parts(4))
qed

lemma lex_number_head:
  assumes "lex_number s = Some r"
  shows "s \<noteq> [] \<and> (hd s = CHR ''-'' \<or> is_digit (hd s))"
  using assms by (cases s) (auto simp: lex_number_def lex_int_def is_digit_def split: if_splits option.splits)

section \<open>Documents\<close>

text \<open>
  Values as decoding makes them: number literals in the syntax of JSON, text in UTF-8, the
  members of a map once each and in order.
\<close>

fun canonical :: "json \<Rightarrow> bool" where
  "canonical (JNum lit) \<longleftrightarrow> lex_number lit = Some (lit, [])"
| "canonical (JStr s) \<longleftrightarrow> valid_utf8 s"
| "canonical (JArr vs) \<longleftrightarrow> (\<forall>v \<in> set vs. canonical v)"
| "canonical (JObj m) \<longleftrightarrow> sorted (map fst m) \<and> distinct (map fst m)
     \<and> (\<forall>(k, v) \<in> set m. valid_utf8 k \<and> canonical v)"
| "canonical _ \<longleftrightarrow> True"

text \<open>How many containers are open at the innermost value.\<close>

fun nesting :: "json \<Rightarrow> nat" where
  "nesting (JArr vs) = Suc (Max (insert 0 (set (map nesting vs))))"
| "nesting (JObj m) = Suc (Max (insert 0 (set (map (\<lambda>(k, v). nesting v) m))))"
| "nesting _ = 0"

lemma nesting_arr: "v \<in> set vs \<Longrightarrow> nesting v < nesting (JArr vs)"
  by (simp add: less_Suc_eq_le)

lemma nesting_obj: "(k, v) \<in> set m \<Longrightarrow> nesting v < nesting (JObj m)"
  by (force simp: less_Suc_eq_le intro!: Max_ge)

definition encode_member :: "string \<times> json \<Rightarrow> string" where
  "encode_member kv = encode_string (fst kv) @ byte 58 # encode_json (snd kv)"

lemma encode_obj:
  assumes "sorted (map fst m)"
  shows "encode_json (JObj m) = byte 123 # join_comma (map encode_member m) @ [byte 125]"
proof -
  have "sort_key fst (map (\<lambda>(k, v). (k, encode_json v)) m) = map (\<lambda>(k, v). (k, encode_json v)) m"
    by (rule sort_key_id_if_sorted) (use assms in \<open>simp add: o_def case_prod_beta\<close>)
  then show ?thesis
    by (simp add: o_def case_prod_beta encode_member_def [abs_def] literal_bytes)
qed

lemma encode_arr: "encode_json (JArr vs) = byte 91 # join_comma (map encode_json vs) @ [byte 93]"
  by (simp add: literal_bytes)

declare encode_json.simps(5,6) [simp del] canonical.simps(4) [simp del]

lemma is_ws_byte [simp]: "n < 256 \<Longrightarrow> is_ws (byte n) \<longleftrightarrow> n \<in> {32, 9, 10, 13}"
  by (auto simp: is_ws_def)

lemma skip_ws_solid [simp]: "\<not> is_ws c \<Longrightarrow> skip_ws (c # t) = c # t"
  by (simp add: skip_ws_def)

lemma digit_byte:
  assumes "c = CHR ''-'' \<or> is_digit c"
  obtains n where "c = byte n" and "n = 45 \<or> 48 \<le> n \<and> n \<le> 57"
proof -
  have "c = byte (of_char c)" by (simp add: byte_def)
  moreover have "of_char c = (45 :: nat) \<or> 48 \<le> (of_char c :: nat) \<and> (of_char c :: nat) \<le> 57"
    using assms by (auto simp: is_digit_def less_eq_char_def)
  ultimately show thesis using that by blast
qed

lemma encode_head:
  assumes "canonical v"
  obtains n t where "encode_json v = byte n # t" and "n \<in> {34, 45, 91, 102, 110, 116, 123} \<or> 48 \<le> n \<and> n \<le> 57"
proof (cases v)
  case (JNum lit)
  then have "lit \<noteq> []" "hd lit = CHR ''-'' \<or> is_digit (hd lit)"
    using assms lex_number_head [of lit] by auto
  moreover from this(2) obtain n where "hd lit = byte n" "n = 45 \<or> 48 \<le> n \<and> n \<le> 57" by (rule digit_byte)
  ultimately show thesis using that [of n "tl lit"] JNum by (cases lit) auto
next
  case (JBool b)
  then show thesis using that [of 116] that [of 102] by (cases b) (auto simp: literal_bytes)
next
  case (JArr vs)
  then show thesis using that [of 91] by (simp add: encode_arr)
next
  case (JObj m)
  then show thesis using that [of 123] assms by (simp add: encode_obj canonical.simps(4))
qed (use that [of 110] that [of 34] in \<open>simp_all add: literal_bytes encode_string_bytes\<close>)

lemma skip_ws_encoded:
  assumes "canonical v"
  shows "skip_ws (encode_json v @ rest) = encode_json v @ rest"
  using encode_head [OF assms] by fastforce

lemma parse_elems_encoded:
  assumes "\<And>v f rest. v \<in> set vs \<Longrightarrow> delimited rest \<Longrightarrow> 2 * length (encode_json v) \<le> f
      \<Longrightarrow> parse_value f d (encode_json v @ rest) = Some (v, rest)"
    and "vs \<noteq> []" and "1 + 2 * length (join_comma (map encode_json vs)) \<le> f"
  shows "parse_elems f d (join_comma (map encode_json vs) @ byte 93 # rest) = Some (vs, rest)"
  using assms
proof (induction vs arbitrary: f)
  case (Cons v vs)
  obtain g where f: "f = Suc g" using Cons.prems(3) by (cases f) auto
  show ?case
  proof (cases vs)
    case Nil
    have "parse_value g d (encode_json v @ byte 93 # rest) = Some (v, byte 93 # rest)"
      using Cons.prems(3) Nil f by (intro Cons.prems(1)) (auto simp: delimited_def)
    with Nil f show ?thesis by simp
  next
    case (Cons w ws)
    let ?u = "join_comma (map encode_json vs) @ byte 93 # rest"
    have joined: "join_comma (map encode_json (v # vs)) = encode_json v @ byte 44 # join_comma (map encode_json vs)"
      using Cons by (simp add: literal_bytes)
    have "parse_value g d (encode_json v @ byte 44 # ?u) = Some (v, byte 44 # ?u)"
      using Cons.prems(3) f joined by (intro Cons.prems(1)) (auto simp: delimited_def)
    moreover have "parse_elems g d ?u = Some (vs, rest)"
      using Cons.prems(1,3) Cons f joined by (intro Cons.IH) auto
    ultimately show ?thesis using f joined by simp
  qed
qed simp

lemma parse_members_encoded:
  assumes "\<And>k v f rest. (k, v) \<in> set m \<Longrightarrow> delimited rest \<Longrightarrow> 2 * length (encode_json v) \<le> f
      \<Longrightarrow> parse_value f d (encode_json v @ rest) = Some (v, rest)"
    and "\<forall>(k, v) \<in> set m. valid_utf8 k"
    and "m \<noteq> []" and "1 + 2 * length (join_comma (map encode_member m)) \<le> f"
  shows "parse_members f d (join_comma (map encode_member m) @ byte 125 # rest) = Some (m, rest)"
  using assms
proof (induction m arbitrary: f)
  case (Cons kv m)
  obtain k v where kv: "kv = (k, v)" by fastforce
  obtain g where f: "f = Suc g" using Cons.prems(4) by (cases f) auto
  have key: "read_string (escape_string k @ byte 34 # t) = Some (k, t)" for t
    using Cons.prems(2) kv by (simp add: read_encoded)
  have head: "encode_member (k, v) @ t = byte 34 # escape_string k @ byte 34 # byte 58 # encode_json v @ t" for t
    by (simp add: encode_member_def encode_string_bytes)
  have size: "2 * length (encode_json v) < 2 * length (encode_member (k, v))"
    by (simp add: encode_member_def)
  show ?case
  proof (cases m)
    case Nil
    have "parse_value g d (encode_json v @ byte 125 # rest) = Some (v, byte 125 # rest)"
      using Cons.prems(4) Nil f size kv by (intro Cons.prems(1)) (auto simp: delimited_def)
    with Nil f key kv show ?thesis by (simp add: head)
  next
    case (Cons w ws)
    let ?u = "join_comma (map encode_member m) @ byte 125 # rest"
    have joined: "join_comma (map encode_member (kv # m)) = encode_member (k, v) @ byte 44 # join_comma (map encode_member m)"
      using Cons kv by (simp add: literal_bytes)
    have "parse_value g d (encode_json v @ byte 44 # ?u) = Some (v, byte 44 # ?u)"
      using Cons.prems(4) f joined size kv by (intro Cons.prems(1)) (auto simp: delimited_def)
    moreover have "parse_members g d ?u = Some (m, rest)"
      using Cons.prems(1,2,4) Cons f joined by (intro Cons.IH) auto
    ultimately show ?thesis using f joined key kv by (simp add: head)
  qed
qed simp

declare parse_value.simps(2) [simp del]

lemma parse_value_step:
  assumes "canonical v" and "encode_json v = byte n # t"
    and "n \<in> {34, 45, 91, 102, 110, 116, 123} \<or> 48 \<le> n \<and> n \<le> 57"
  shows "parse_value (Suc f) d (encode_json v @ rest) =
    (if n = 123 then
       (if max_nesting \<le> d then None
        else case skip_ws (t @ rest) of [] \<Rightarrow> None
             | e # u \<Rightarrow> if e = byte 125 then Some (JObj [], u) else map_option (apfst JObj) (parse_members f (Suc d) (t @ rest)))
     else if n = 91 then
       (if max_nesting \<le> d then None
        else case skip_ws (t @ rest) of [] \<Rightarrow> None
             | e # u \<Rightarrow> if e = byte 93 then Some (JArr [], u) else map_option (apfst JArr) (parse_elems f (Suc d) (t @ rest)))
     else if n = 34 then map_option (apfst JStr) (read_string (t @ rest))
     else if prefix ''true'' (byte n # t @ rest) then Some (JBool True, drop 3 (t @ rest))
     else if prefix ''false'' (byte n # t @ rest) then Some (JBool False, drop 4 (t @ rest))
     else if prefix ''null'' (byte n # t @ rest) then Some (JNull, drop 3 (t @ rest))
     else map_option (apfst JNum) (lex_number (byte n # t @ rest)))"
proof -
  have "skip_ws (encode_json v @ rest) = byte n # t @ rest"
    using skip_ws_encoded [OF assms(1)] assms(2) by simp
  moreover have "n < 256" using assms(3) by auto
  ultimately show ?thesis by (simp only: parse_value.simps(2) list.case) simp
qed

lemma map_option_apfst_Some [simp]: "map_option (apfst g) (Some (x, y)) = Some (g x, y)"
  by simp

lemma parse_encoded:
  assumes "canonical v" and "delimited rest" and "d + nesting v \<le> max_nesting" and "2 * length (encode_json v) \<le> f"
  shows "parse_value f d (encode_json v @ rest) = Some (v, rest)"
  using assms
proof (induction v arbitrary: f d rest)
  case (JNum lit)
  obtain n t where n: "encode_json (JNum lit) = byte n # t"
      "n \<in> {34, 45, 91, 102, 110, 116, 123} \<or> 48 \<le> n \<and> n \<le> 57"
    using JNum.prems(1) by (rule encode_head)
  have "hd lit = CHR ''-'' \<or> is_digit (hd lit)"
    using JNum.prems(1) lex_number_head [of lit] by auto
  then have "n = 45 \<or> 48 \<le> n \<and> n \<le> 57"
    using n by (elim digit_byte) auto
  moreover obtain g where "f = Suc g" using JNum.prems(4) n(1) by (cases f) auto
  moreover have "lex_number (byte n # t @ rest) = Some (lit, rest)"
    using lex_number_extend [OF JNum.prems(2), of lit lit "[]"] JNum.prems(1) n(1) by simp
  ultimately show ?case
    unfolding \<open>f = Suc g\<close> parse_value_step [OF JNum.prems(1) n] by (auto simp: literal_bytes)
next
  case (JStr s)
  have n: "encode_json (JStr s) = byte 34 # escape_string s @ [byte 34]" by (simp add: encode_string_bytes)
  obtain g where f: "f = Suc g" using JStr.prems(4) n by (cases f) auto
  have "read_string ((escape_string s @ [byte 34]) @ rest) = Some (s, rest)"
    using JStr.prems(1) by (simp add: read_encoded)
  with parse_value_step [OF JStr.prems(1) n, of g d rest] show ?case
    unfolding f by simp
next
  case (JArr vs)
  have n: "encode_json (JArr vs) = byte 91 # join_comma (map encode_json vs) @ [byte 93]" by (rule encode_arr)
  obtain g where f: "f = Suc g" using JArr.prems(4) n by (cases f) auto
  have open_: "\<not> max_nesting \<le> d" using JArr.prems(3) by simp
  show ?case
  proof (cases "vs = []")
    case True
    then show ?thesis
      unfolding f parse_value_step [OF JArr.prems(1) n, simplified] using open_ by simp
  next
    case False
    have elems: "parse_elems g (Suc d) (join_comma (map encode_json vs) @ byte 93 # rest) = Some (vs, rest)"
    proof (rule parse_elems_encoded)
      fix v f rest assume v: "v \<in> set vs" "delimited rest" "2 * length (encode_json v) \<le> f"
      have "canonical v" using JArr.prems(1) v(1) by simp
      moreover have "Suc d + nesting v \<le> max_nesting"
        using JArr.prems(3) nesting_arr [OF v(1)] by linarith
      ultimately show "parse_value f (Suc d) (encode_json v @ rest) = Some (v, rest)"
        using JArr.IH [OF v(1)] v(2,3) by blast
    qed (use False JArr.prems(4) n f in simp_all)
    obtain w ws where vs: "vs = w # ws" using False by (cases vs) auto
    have "canonical w" using JArr.prems(1) vs by simp
    then obtain k u where w: "encode_json w = byte k # u" "k \<in> {34, 45, 91, 102, 110, 116, 123} \<or> 48 \<le> k \<and> k \<le> 57"
      by (rule encode_head)
    have "\<exists>u. join_comma (map encode_json vs) = byte k # u"
      using vs w(1) by (cases ws) simp_all
    then obtain u where u: "join_comma (map encode_json vs) = byte k # u" by blast
    show ?thesis
      unfolding f parse_value_step [OF JArr.prems(1) n, simplified] using open_ elems w(2) by (auto simp: u)
  qed
next
  case (JObj m)
  have sorted: "sorted (map fst m)" and keys: "\<forall>(k, v) \<in> set m. valid_utf8 k \<and> canonical v"
    using JObj.prems(1) by (simp_all add: canonical.simps(4))
  have n: "encode_json (JObj m) = byte 123 # join_comma (map encode_member m) @ [byte 125]"
    by (rule encode_obj [OF sorted])
  obtain g where f: "f = Suc g" using JObj.prems(4) n by (cases f) auto
  have open_: "\<not> max_nesting \<le> d" using JObj.prems(3) by simp
  show ?case
  proof (cases "m = []")
    case True
    then show ?thesis
      unfolding f parse_value_step [OF JObj.prems(1) n, simplified] using open_ by simp
  next
    case False
    have members: "parse_members g (Suc d) (join_comma (map encode_member m) @ byte 125 # rest) = Some (m, rest)"
    proof (rule parse_members_encoded)
      fix k v f rest assume v: "(k, v) \<in> set m" "delimited rest" "2 * length (encode_json v) \<le> f"
      have "canonical v" using keys v(1) by auto
      moreover have "Suc d + nesting v \<le> max_nesting"
        using JObj.prems(3) nesting_obj [OF v(1)] by linarith
      moreover have "v \<in> Basic_BNFs.snds (k, v)" by simp
      ultimately show "parse_value f (Suc d) (encode_json v @ rest) = Some (v, rest)"
        using JObj.IH [OF v(1)] v(2,3) by blast
    qed (use False JObj.prems(4) n f keys in auto)
    obtain kv ws where m: "m = kv # ws" using False by (cases m) auto
    have "\<exists>u. join_comma (map encode_member m) = byte 34 # u"
      using m by (cases ws) (simp_all add: encode_member_def encode_string_bytes)
    then obtain u where u: "join_comma (map encode_member m) = byte 34 # u" by blast
    show ?thesis
      unfolding f parse_value_step [OF JObj.prems(1) n, simplified] using open_ members by (simp add: u)
  qed
next
  case JNull
  then obtain g where f: "f = Suc g" by (cases f) auto
  have n: "encode_json JNull = byte 110 # ''ull''" by (simp add: literal_bytes)
  show ?case
    using parse_value_step [OF JNull.prems(1) n, of g d rest] unfolding f n by (simp add: literal_bytes)
next
  case (JBool b)
  then obtain g where f: "f = Suc g" by (cases f) (auto split: if_splits)
  show ?case
  proof (cases b)
    case True
    then have n: "encode_json (JBool b) = byte 116 # ''rue''" by (simp add: literal_bytes)
    show ?thesis
      using parse_value_step [OF JBool.prems(1) n, of g d rest] True unfolding f n by (simp add: literal_bytes)
  next
    case False
    then have n: "encode_json (JBool b) = byte 102 # ''alse''" by (simp add: literal_bytes)
    show ?thesis
      using parse_value_step [OF JBool.prems(1) n, of g d rest] False unfolding f n by (simp add: literal_bytes)
  qed
qed

text \<open>The reader takes back what the encoder wrote.\<close>

lemma parse_document_encoded:
  assumes "canonical v" and "nesting v \<le> max_nesting"
  shows "parse_document (encode_json v) = Some v"
  using parse_encoded [of v "[]" 0 "2 * length (encode_json v) + 2"] assms
  by (simp add: parse_document_def delimited_def skip_ws_def)

section \<open>Payloads\<close>

lemma keep_last_distinct: "distinct (map fst m) \<Longrightarrow> keep_last m = m"
  by (induction m rule: keep_last.induct) auto

lemma as_go_value_canonical: "canonical v \<Longrightarrow> as_go_value v = v"
proof (induction v)
  case (JArr vs)
  then show ?case by (simp add: map_idI)
next
  case (JObj m)
  have "map (\<lambda>(k, v). (k, as_go_value v)) m = m"
    using JObj by (intro map_idI) (fastforce simp: canonical.simps(4))
  moreover have "sorted (map fst m)" "distinct (map fst m)" using JObj.prems by (simp_all add: canonical.simps(4))
  ultimately show ?case by (simp add: keep_last_distinct sort_key_id_if_sorted)
qed simp_all

lemma encoded_not_Nil: "canonical v \<Longrightarrow> encode_json v \<noteq> []"
  by (metis encode_head list.distinct(1))

text \<open>The encoder writes no control characters.\<close>

definition visible :: "string \<Rightarrow> bool" where
  "visible s \<longleftrightarrow> (\<forall>c \<in> set s. 32 \<le> (of_char c :: nat))"

lemma visible_simps [simp]:
  "visible []" "visible (c # s) \<longleftrightarrow> 32 \<le> (of_char c :: nat) \<and> visible s"
  "visible (s @ t) \<longleftrightarrow> visible s \<and> visible t"
  by (auto simp: visible_def)

lemma visible_join [simp]: "visible (join_comma ss) \<longleftrightarrow> (\<forall>s \<in> set ss. visible s)"
  by (induction ss rule: join_comma.induct) auto

lemma visible_escape_byte: "b < 128 \<Longrightarrow> visible (escape_byte b)"
  by (auto simp: escape_byte_def hex_digit_def byte_def [symmetric] of_char_byte)

lemma visible_escape_string: "valid_utf8 s \<Longrightarrow> visible (escape_string s)"
proof (induction s rule: valid_utf8.induct)
  case (2 c cs)
  then obtain n where n: "rune_length (map of_char (c # cs)) = Some n" by (auto split: option.splits)
  show ?case
  proof (cases "n \<le> 1")
    case True
    with 2 n rune_length_one [OF n True] show ?thesis
      by (simp only: escape_string_step [OF n] if_True visible_simps) (simp add: visible_escape_byte)
  next
    case False
    then have "visible (take n (c # cs))"
      using rune_bytes_high [OF n] by (force simp: visible_def)
    moreover have "visible (escape_string (drop n (c # cs)))" using 2 n False by simp
    ultimately show ?thesis
      using False by (subst escape_string_step [OF n]) (simp add: of_char_byte)
  qed
qed simp

lemma visible_digits: "visible (takeWhile is_digit s)"
  by (auto simp: visible_def is_digit_def less_eq_char_def dest: set_takeWhileD)

lemma visible_number:
  assumes "lex_number s = Some (n, r)"
  shows "visible n"
proof -
  let ?sign = "case s of [] \<Rightarrow> [] | c # _ \<Rightarrow> if c = CHR ''-'' then [c] else []"
  obtain i s1 f s2 e where parts: "lex_int (drop (length ?sign) s) = Some (i, s1)" "lex_frac s1 = Some (f, s2)"
      "lex_exp s2 = Some (e, r)" "n = ?sign @ i @ f @ e"
    using assms by (auto simp: lex_number_def Let_def split: option.splits prod.splits)
  have "visible ?sign" by (simp split: list.split)
  moreover have "visible i"
    using parts(1) by (auto simp: lex_int_def visible_digits split: list.splits if_splits simp del: takeWhile.simps)
  moreover have "visible f"
    using parts(2) by (auto simp: lex_frac_def visible_digits split: list.splits if_splits)
  moreover have "visible e"
    using parts(3) by (auto simp: lex_exp_def Let_def visible_digits is_digit_def less_eq_char_def split: list.splits if_splits)
  ultimately show ?thesis by (simp add: parts(4))
qed

lemma visible_encoded: "canonical v \<Longrightarrow> visible (encode_json v)"
proof (induction v)
  case (JObj m)
  have "visible (encode_member (k, v))" if "(k, v) \<in> set m" for k v
    using that JObj.prems JObj.IH [OF that, of v]
    by (auto simp: encode_member_def encode_string_bytes canonical.simps(4) visible_escape_string of_char_byte)
  with JObj.prems show ?case by (simp add: encode_obj canonical.simps(4) of_char_byte split_paired_all)
next
  case (JArr vs)
  then show ?case by (simp add: encode_arr of_char_byte)
qed (auto simp: visible_number encode_string_bytes visible_escape_string of_char_byte)

lemma visible_not_stripped: "visible s \<Longrightarrow> \<not> list_ex stripped_control s"
  by (fastforce simp: visible_def list_ex_iff stripped_control_def)

lemma payload_decodes:
  assumes "canonical (JObj p)" and "nesting (JObj p) \<le> max_nesting"
    and "\<not> sublist nul_escape (encode_json (JObj p))"
  shows "unmarshalPayload (marshalPayload p) = Inr (if p = [] then None else Some p)"
proof (cases "p = []")
  case True
  have "parse_document ''{}'' = Some (JObj [])"
    using parse_document_encoded [of "JObj []"] by (simp add: encode_obj canonical.simps(4) max_nesting_def literal_bytes)
  with True show ?thesis by (simp add: marshalPayload_def unmarshalPayload_def)
next
  case False
  note doc = parse_document_encoded [OF assms(1,2)]
  have "marshalPayload p = encode_json (JObj p)"
    using False doc assms(3) visible_not_stripped [OF visible_encoded [OF assms(1)]]
    by (simp add: marshalPayload_def sanitizeJSONB_def json_Valid_def Let_def)
  with doc False as_go_value_canonical [OF assms(1)] encoded_not_Nil [OF assms(1)] show ?thesis
    by (simp add: unmarshalPayload_def del: as_go_value.simps)
qed


text \<open>
  Removing the escape of NUL from the encoded bytes also hits an escaped backslash that \<open>u0000\<close>
  follows, which is how the six characters of that escape in a source file are encoded. When
  they end a string, the removal leaves an unterminated one and the whole payload is replaced by
  the empty object; elsewhere, the backslash that is left escapes the next character, so the
  stored text differs (here the backslash and the letter b become a backspace).
\<close>

theorem escaped_backslash_destroys_payload:
  "marshalPayload [(''content'', JStr nul_escape), (''path'', JStr ''a.js'')] = ''{}''
   \<and> unmarshalPayload (marshalPayload [(''content'', JStr nul_escape), (''path'', JStr ''a.js'')]) = Inr None
   \<and> unmarshalPayload (marshalPayload [(''content'', JStr (nul_escape @ ''b''))]) = Inr (Some [(''content'', JStr [byte 8])])"
  by code_simp

definition example_payload :: payload where
  "example_payload = [(''entity_key'', JStr (byte 34 # ''svc/api'' @ [byte 10, byte 195, byte 169])),
     (''tags'', JArr [JNull, JBool True, JNum ''-1.5e3'', JObj []])]"


end
