(* ===== verification/ClaimWindows.thy ===== *)
theory ClaimWindows
  imports Leases
begin

text \<open>
  The contract of a queue whose claims exclude each other per key for as long as their leases
  run: a statement runs at an instant of the server's clock, \<open>holders\<close> are the keys and items
  whose lease has not run out then, leases only run out as time goes by, and a statement that
  finds at most one holder per key leaves at most one. Over any schedule of statements at
  instants that do not decrease, no key ever has two holders.
\<close>

inductive timed_run :: "(time \<Rightarrow> 's \<Rightarrow> 's \<Rightarrow> bool) \<Rightarrow> time \<times> 's \<Rightarrow> time \<times> 's \<Rightarrow> bool"
  for step :: "time \<Rightarrow> 's \<Rightarrow> 's \<Rightarrow> bool" where
  timed_refl: "timed_run step (t, s) (t, s)"
| timed_step: "timed_run step (t, s) (t', s') \<Longrightarrow> t' \<le> now \<Longrightarrow> step now s' s'' \<Longrightarrow> timed_run step (t, s) (now, s'')"

definition one_holder :: "('k \<times> 'i) set \<Rightarrow> bool" where
  "one_holder H \<longleftrightarrow> (\<forall>k i j. (k, i) \<in> H \<longrightarrow> (k, j) \<in> H \<longrightarrow> i = j)"

lemma one_holder_subset: "one_holder H \<Longrightarrow> G \<subseteq> H \<Longrightarrow> one_holder G"
  by (auto simp: one_holder_def)

locale claim_windows =
  fixes step :: "time \<Rightarrow> 's \<Rightarrow> 's \<Rightarrow> bool" and ok :: "'s \<Rightarrow> bool" and holders :: "time \<Rightarrow> 's \<Rightarrow> ('k \<times> 'i) set"
  assumes lapses: "t \<le> t' \<Longrightarrow> holders t' s \<subseteq> holders t s"
    and step_ok: "step now s s' \<Longrightarrow> ok s \<Longrightarrow> ok s'"
    and step_exclusive: "step now s s' \<Longrightarrow> ok s \<Longrightarrow> one_holder (holders now s) \<Longrightarrow> one_holder (holders now s')"
begin

lemma run_exclusive:
  "timed_run step c c' \<Longrightarrow> ok (snd c) \<Longrightarrow> one_holder (holders (fst c) (snd c))
     \<Longrightarrow> ok (snd c') \<and> one_holder (holders (fst c') (snd c')) \<and> fst c \<le> fst c'"
proof (induction rule: timed_run.induct)
  case (timed_refl t s)
  then show ?case by simp
next
  case (timed_step t s t' s' now s'')
  from timed_step.IH timed_step.prems have "ok s'" "one_holder (holders t' s')" "t \<le> t'" by simp_all
  from \<open>one_holder (holders t' s')\<close> have now: "one_holder (holders now s')"
    by (rule one_holder_subset) (rule lapses[OF timed_step.hyps(2)])
  have "ok s''"
    using \<open>ok s'\<close> by (rule step_ok[OF timed_step.hyps(3)])
  moreover have "one_holder (holders now s'')"
    using step_exclusive[OF timed_step.hyps(3) \<open>ok s'\<close> now] .
  moreover have "t \<le> now"
    using \<open>t \<le> t'\<close> timed_step.hyps(2) by simp
  ultimately show ?case by simp
qed

end

end
