(* ===== verification/FactTables.thy ===== *)
theory FactTables
  imports ClaimWindows Sql Strings Scope WorkQueue Payload
begin

text \<open>
  The data-plane tables of \<open>go/internal/storage/postgres/schema.go\<close> and what the projector queue,
  the reducer queue and the ingestion store share: rows of \<open>ingestion_scopes\<close>, \<open>scope_generations\<close>,
  \<open>fact_records\<close> and \<open>fact_work_items\<close>, the constraints a statement must meet, and how a failure
  is recorded. Nullable columns are options, a JSONB column holds the text the server prints for it.
\<close>

section \<open>Rows\<close>

record ScopeRow =
  sw_ScopeID :: string
  sw_ScopeKind :: string
  sw_SourceSystem :: string
  sw_SourceKey :: string
  sw_ParentScopeID :: "string option"
  sw_CollectorKind :: string
  sw_PartitionKey :: string
  sw_ObservedAt :: time
  sw_IngestedAt :: time
  sw_Status :: GenerationStatus
  sw_ActiveGenerationID :: "string option"
  sw_Payload :: string

record GenerationRow =
  gw_GenerationID :: string
  gw_ScopeID :: string
  gw_TriggerKind :: string
  gw_FreshnessHint :: "string option"
  gw_ObservedAt :: time
  gw_IngestedAt :: time
  gw_Status :: GenerationStatus
  gw_ActivatedAt :: "time option"
  gw_SupersededAt :: "time option"

record FactRow =
  fw_FactID :: string
  fw_ScopeID :: string
  fw_GenerationID :: string
  fw_FactKind :: string
  fw_StableFactKey :: string
  fw_SourceSystem :: string
  fw_SourceFactKey :: string
  fw_SourceURI :: "string option"
  fw_SourceRecordID :: "string option"
  fw_ObservedAt :: time
  fw_IngestedAt :: time
  fw_IsTombstone :: bool
  fw_Payload :: string

record WorkRow =
  wr_WorkItemID :: string
  wr_ScopeID :: string
  wr_GenerationID :: string
  wr_Stage :: string
  wr_Domain :: string
  wr_ConflictDomain :: string
  wr_ConflictKey :: "string option"
  wr_Status :: QueueStatus
  wr_AttemptCount :: int
  wr_LeaseOwner :: "string option"
  wr_ClaimUntil :: "time option"
  wr_VisibleAt :: "time option"
  wr_LastAttemptAt :: "time option"
  wr_NextAttemptAt :: "time option"
  wr_FailureClass :: "string option"
  wr_FailureMessage :: "string option"
  wr_FailureDetails :: "string option"
  wr_Payload :: string
  wr_CreatedAt :: time
  wr_UpdatedAt :: time

record DataDb =
  dd_Scopes :: "ScopeRow list"
  dd_Generations :: "GenerationRow list"
  dd_Facts :: "FactRow list"
  dd_Items :: "WorkRow list"

section \<open>Constraints\<close>

text \<open>The unique indexes on the active generation of a scope, and the references.\<close>

definition active_scopes :: "DataDb \<Rightarrow> string list" where
  "active_scopes db = map gw_ScopeID (filter (\<lambda>g. gw_Status g = GenerationStatusActive) (dd_Generations db))"

definition referenced_active :: "DataDb \<Rightarrow> string list" where
  "referenced_active db = List.map_filter sw_ActiveGenerationID (dd_Scopes db)"

definition scope_ids :: "DataDb \<Rightarrow> string list" where
  "scope_ids db = map sw_ScopeID (dd_Scopes db)"

definition generation_ids :: "DataDb \<Rightarrow> string list" where
  "generation_ids db = map gw_GenerationID (dd_Generations db)"

definition constraint_error :: "DataDb \<Rightarrow> error option" where
  "constraint_error db = first_err
     [check (has_duplicate (active_scopes db))
        (Msg ''duplicate key value violates unique constraint scope_generations_active_scope_idx''),
      check (has_duplicate (referenced_active db))
        (Msg ''duplicate key value violates unique constraint ingestion_scopes_active_generation_idx''),
      check (\<not> list_all (\<lambda>g. gw_ScopeID g \<in> set (scope_ids db)) (dd_Generations db))
        (Msg ''scope_generations violates foreign key constraint''),
      check (\<not> list_all (\<lambda>f. fw_ScopeID f \<in> set (scope_ids db) \<and> fw_GenerationID f \<in> set (generation_ids db)) (dd_Facts db))
        (Msg ''fact_records violates foreign key constraint''),
      check (\<not> list_all (\<lambda>w. wr_ScopeID w \<in> set (scope_ids db) \<and> wr_GenerationID w \<in> set (generation_ids db)
                \<and> integer_fits (wr_AttemptCount w)) (dd_Items db))
        (Msg ''fact_work_items violates foreign key constraint'')]"

text \<open>A statement takes effect when the tables it leaves meet the constraints.\<close>

definition statement :: "DataDb \<Rightarrow> DataDb \<Rightarrow> error option \<times> DataDb" where
  "statement new db = (case constraint_error new of Some e \<Rightarrow> (Some e, db) | None \<Rightarrow> (None, new))"

definition data_ok :: "DataDb \<Rightarrow> bool" where
  "data_ok db \<longleftrightarrow> constraint_error db = None \<and> distinct (scope_ids db) \<and> distinct (generation_ids db)
     \<and> distinct (map wr_WorkItemID (dd_Items db)) \<and> distinct (map fw_FactID (dd_Facts db))"

lemma statement_cases:
  assumes "statement new db = (e, db')"
  obtains (refused) f where "e = Some f" and "db' = db" and "constraint_error new = Some f"
  | (applied) "e = None" and "db' = new" and "constraint_error new = None"
proof (cases "constraint_error new")
  case None
  with assms show thesis by (intro applied) (simp_all add: statement_def)
next
  case (Some f)
  with assms show thesis by (intro refused [of f]) (simp_all add: statement_def)
qed

section \<open>Work items\<close>

definition open_status :: "QueueStatus \<Rightarrow> bool" where
  "open_status s \<longleftrightarrow> s \<in> {StatusPending, StatusRetrying, StatusClaimed, StatusRunning}"

definition in_flight :: "QueueStatus \<Rightarrow> bool" where
  "in_flight s \<longleftrightarrow> s \<in> {StatusClaimed, StatusRunning}"

text \<open>Claimed or running under a lease that has not run out.\<close>

definition live :: "time \<Rightarrow> WorkRow \<Rightarrow> bool" where
  "live now w \<longleftrightarrow> in_flight (wr_Status w) \<and> (case wr_ClaimUntil w of Some t \<Rightarrow> now < t | None \<Rightarrow> False)"

text \<open>Visible, and not under a lease.\<close>

definition ready :: "time \<Rightarrow> WorkRow \<Rightarrow> bool" where
  "ready now w \<longleftrightarrow> open_status (wr_Status w)
     \<and> (case wr_VisibleAt w of Some t \<Rightarrow> t \<le> now | None \<Rightarrow> True)
     \<and> (case wr_ClaimUntil w of Some t \<Rightarrow> t \<le> now | None \<Rightarrow> True)"

definition cmp_work :: "(string \<Rightarrow> string \<Rightarrow> int) \<Rightarrow> WorkRow \<Rightarrow> WorkRow \<Rightarrow> int" where
  "cmp_work collate x y = or_else (compare (wr_UpdatedAt x) (wr_UpdatedAt y))
     (collate (wr_WorkItemID x) (wr_WorkItemID y))"

definition claimed_work :: "time \<Rightarrow> string \<Rightarrow> time \<Rightarrow> WorkRow \<Rightarrow> WorkRow" where
  "claimed_work now owner until w = w\<lparr>wr_Status := StatusClaimed, wr_AttemptCount := wr_AttemptCount w + 1,
     wr_LeaseOwner := Some owner, wr_ClaimUntil := Some until, wr_LastAttemptAt := Some now, wr_UpdatedAt := now\<rparr>"

definition settled_work :: "QueueStatus \<Rightarrow> time \<Rightarrow> WorkRow \<Rightarrow> WorkRow" where
  "settled_work status now w = w\<lparr>wr_Status := status, wr_LeaseOwner := None, wr_ClaimUntil := None,
     wr_VisibleAt := None, wr_UpdatedAt := now, wr_FailureClass := None, wr_FailureMessage := None,
     wr_FailureDetails := None\<rparr>"

definition failed_work :: "QueueStatus \<Rightarrow> time \<Rightarrow> string \<times> string \<times> string \<Rightarrow> WorkRow \<Rightarrow> WorkRow" where
  "failed_work status now failure w = (case failure of (cls, message, details) \<Rightarrow>
     w\<lparr>wr_Status := status, wr_LeaseOwner := None, wr_ClaimUntil := None, wr_VisibleAt := None,
       wr_UpdatedAt := now, wr_FailureClass := Some cls, wr_FailureMessage := Some message,
       wr_FailureDetails := Some details\<rparr>)"

definition retried_work :: "time \<Rightarrow> time \<Rightarrow> string \<times> string \<times> string \<Rightarrow> WorkRow \<Rightarrow> WorkRow" where
  "retried_work now next_at failure w =
     (failed_work StatusRetrying now failure w)\<lparr>wr_VisibleAt := Some next_at, wr_NextAttemptAt := Some next_at\<rparr>"

definition pending_again :: "time \<Rightarrow> WorkRow \<Rightarrow> WorkRow" where
  "pending_again now w = (settled_work StatusPending now w)\<lparr>wr_AttemptCount := 0, wr_VisibleAt := Some now,
     wr_NextAttemptAt := None\<rparr>"

definition leased_by :: "string \<Rightarrow> WorkRow \<Rightarrow> bool" where
  "leased_by owner w \<longleftrightarrow> wr_LeaseOwner w = Some owner \<and> in_flight (wr_Status w)"

text \<open>\<open>UPDATE fact_work_items SET ... WHERE ...\<close> and the number of rows it touched.\<close>

definition update_work :: "(WorkRow \<Rightarrow> bool) \<Rightarrow> (WorkRow \<Rightarrow> WorkRow) \<Rightarrow> DataDb \<Rightarrow> DataDb" where
  "update_work P f db = db\<lparr>dd_Items := map (\<lambda>w. if P w then f w else w) (dd_Items db)\<rparr>"

definition count_work :: "(WorkRow \<Rightarrow> bool) \<Rightarrow> DataDb \<Rightarrow> nat" where
  "count_work P db = length (filter P (dd_Items db))"

definition find_scope :: "string \<Rightarrow> DataDb \<Rightarrow> ScopeRow option" where
  "find_scope k db = find (\<lambda>s. sw_ScopeID s = k) (dd_Scopes db)"

definition find_generation :: "string \<Rightarrow> DataDb \<Rightarrow> GenerationRow option" where
  "find_generation k db = find (\<lambda>g. gw_GenerationID g = k) (dd_Generations db)"

definition find_work :: "string \<Rightarrow> DataDb \<Rightarrow> WorkRow option" where
  "find_work k db = find (\<lambda>w. wr_WorkItemID w = k) (dd_Items db)"

section \<open>Failures\<close>

text \<open>
  An error value as the queues see it: its text, whether it says it is retryable, and the class
  and details it carries when it (or what it wraps) has them.
\<close>

record Cause =
  cause_Message :: string
  cause_Retryable :: bool
  cause_Class :: "string option"
  cause_Details :: "string option"

text \<open>\<open>strings.ToValidUTF8(s, "")\<close>, then the NUL bytes removed.\<close>

function drop_invalid :: "string \<Rightarrow> string" where
  "drop_invalid [] = []"
| "drop_invalid (c # cs) =
     (case rune_length (map of_char (c # cs)) of
        None \<Rightarrow> drop_invalid cs
      | Some n \<Rightarrow> if n \<le> 1 then c # drop_invalid cs else take n (c # cs) @ drop_invalid (drop n (c # cs)))"
  by pat_completeness auto
termination
  by (relation "measure length") auto

definition sanitizeFailureText :: "string \<Rightarrow> string" where
  "sanitizeFailureText s = filter (\<lambda>c. c \<noteq> byte 0) (drop_invalid s)"

definition or_text :: "string option \<Rightarrow> string \<Rightarrow> string" where
  "or_text given fallback =
     (case given of
        Some s \<Rightarrow> if sanitizeFailureText s \<noteq> [] then sanitizeFailureText s else fallback
      | None \<Rightarrow> fallback)"

definition queueFailureMetadata :: "Cause \<Rightarrow> string \<Rightarrow> string \<times> string \<times> string" where
  "queueFailureMetadata c fallbackClass =
     (let message = sanitizeFailureText (cause_Message c)
      in (or_text (cause_Class c) fallbackClass, message, or_text (cause_Details c) message))"

section \<open>Facts of the tables\<close>

lemma data_ok_constraints:
  assumes "data_ok db"
  shows "distinct (active_scopes db)" and "distinct (referenced_active db)"
    and "\<And>g. g \<in> set (dd_Generations db) \<Longrightarrow> gw_ScopeID g \<in> set (scope_ids db)"
    and "\<And>w. w \<in> set (dd_Items db) \<Longrightarrow> wr_ScopeID w \<in> set (scope_ids db)
      \<and> wr_GenerationID w \<in> set (generation_ids db) \<and> integer_fits (wr_AttemptCount w)"
  using assms by (auto simp: data_ok_def constraint_error_def list_all_iff)

lemma work_unique:
  "data_ok db \<Longrightarrow> v \<in> set (dd_Items db) \<Longrightarrow> w \<in> set (dd_Items db) \<Longrightarrow> wr_WorkItemID v = wr_WorkItemID w \<Longrightarrow> v = w"
  by (auto simp: data_ok_def distinct_map dest: inj_onD)

lemma find_work_mem: "data_ok db \<Longrightarrow> w \<in> set (dd_Items db) \<Longrightarrow> find_work (wr_WorkItemID w) db = Some w"
  using work_unique by (cases "find_work (wr_WorkItemID w) db") (auto simp: find_work_def find_None_iff find_Some_iff)

lemma find_work_Some: "find_work k db = Some w \<Longrightarrow> w \<in> set (dd_Items db) \<and> wr_WorkItemID w = k"
  by (auto simp: find_work_def find_Some_iff)

lemma update_work_tables [simp]:
  "dd_Scopes (update_work P f db) = dd_Scopes db" "dd_Generations (update_work P f db) = dd_Generations db"
  "dd_Facts (update_work P f db) = dd_Facts db"
  "dd_Items (update_work P f db) = map (\<lambda>w. if P w then f w else w) (dd_Items db)"
  by (simp_all add: update_work_def)

text \<open>An update that keeps identifiers and references keeps the constraints.\<close>

definition keeps_work_keys :: "(WorkRow \<Rightarrow> WorkRow) \<Rightarrow> bool" where
  "keeps_work_keys f \<longleftrightarrow> (\<forall>w. wr_WorkItemID (f w) = wr_WorkItemID w \<and> wr_ScopeID (f w) = wr_ScopeID w
     \<and> wr_GenerationID (f w) = wr_GenerationID w \<and> wr_Stage (f w) = wr_Stage w \<and> wr_Domain (f w) = wr_Domain w
     \<and> wr_ConflictDomain (f w) = wr_ConflictDomain w \<and> wr_ConflictKey (f w) = wr_ConflictKey w)"

lemma keeps_work_keys_ops [simp]:
  "keeps_work_keys (claimed_work now owner until)" "keeps_work_keys (settled_work status now)"
  "keeps_work_keys (failed_work status now failure)" "keeps_work_keys (retried_work now next_at failure)"
  "keeps_work_keys (pending_again now)"
  by (auto simp: keeps_work_keys_def claimed_work_def settled_work_def failed_work_def retried_work_def
      pending_again_def split: prod.split)

lemma update_work_ok:
  assumes ok: "data_ok db" and f: "keeps_work_keys f"
    and fits: "\<And>w. w \<in> set (dd_Items db) \<Longrightarrow> P w \<Longrightarrow> integer_fits (wr_AttemptCount (f w))"
  shows "data_ok (update_work P f db)"
proof -
  have "map wr_WorkItemID (dd_Items (update_work P f db)) = map wr_WorkItemID (dd_Items db)"
    using f by (simp add: keeps_work_keys_def)
  moreover have "constraint_error (update_work P f db) = None"
    using ok f fits data_ok_constraints(4) [OF ok]
    by (auto simp: data_ok_def constraint_error_def active_scopes_def referenced_active_def scope_ids_def
        generation_ids_def list_all_iff keeps_work_keys_def)
  ultimately show ?thesis
    using ok by (simp add: data_ok_def scope_ids_def generation_ids_def del: update_work_tables(4))
qed

lemma update_work_statement:
  assumes "data_ok db" and "keeps_work_keys f"
    and "\<And>w. w \<in> set (dd_Items db) \<Longrightarrow> P w \<Longrightarrow> integer_fits (wr_AttemptCount (f w))"
  shows "statement (update_work P f db) db = (None, update_work P f db)"
  using update_work_ok [OF assms] by (simp add: statement_def data_ok_def)

lemma same_attempts [simp]:
  "wr_AttemptCount (settled_work status now w) = wr_AttemptCount w"
  "wr_AttemptCount (failed_work status now failure w) = wr_AttemptCount w"
  "wr_AttemptCount (retried_work now next_at failure w) = wr_AttemptCount w"
  "wr_AttemptCount (pending_again now w) = 0"
  by (simp_all add: settled_work_def failed_work_def retried_work_def pending_again_def split: prod.split)


section \<open>Transactions\<close>

text \<open>Statements in one transaction: the first that fails rolls the others back.\<close>

fun run_steps :: "(string \<times> (DataDb \<Rightarrow> DataDb)) list \<Rightarrow> DataDb \<Rightarrow> error option \<times> DataDb" where
  "run_steps [] db = (None, db)"
| "run_steps ((op, f) # rest) db =
     (case statement (f db) db of
        (Some e, db') \<Rightarrow> (Some (Wrap op e), db')
      | (None, db') \<Rightarrow> run_steps rest db')"

definition in_transaction :: "(DataDb \<Rightarrow> error option \<times> DataDb) \<Rightarrow> DataDb \<Rightarrow> error option \<times> DataDb" where
  "in_transaction body db = (case body db of (Some e, _) \<Rightarrow> (Some e, db) | (None, db') \<Rightarrow> (None, db'))"

section \<open>Who holds what\<close>

text \<open>The live items of a stage by the key their claims exclude each other on.\<close>

definition holders :: "string \<Rightarrow> (WorkRow \<Rightarrow> 'k) \<Rightarrow> time \<Rightarrow> DataDb \<Rightarrow> ('k \<times> string) set" where
  "holders stage key now db =
     (\<lambda>w. (key w, wr_WorkItemID w)) ` {w \<in> set (dd_Items db). wr_Stage w = stage \<and> live now w}"

lemma holdersI: "w \<in> set (dd_Items db) \<Longrightarrow> wr_Stage w = stage \<Longrightarrow> live now w \<Longrightarrow> (key w, wr_WorkItemID w) \<in> holders stage key now db"
  by (auto simp: holders_def)

lemma holdersE:
  assumes "(k, i) \<in> holders stage key now db"
  obtains w where "w \<in> set (dd_Items db)" "wr_Stage w = stage" "live now w" "key w = k" "wr_WorkItemID w = i"
  using assms by (auto simp: holders_def)

lemma live_lapses: "t \<le> t' \<Longrightarrow> live t' w \<Longrightarrow> live t w"
  by (auto simp: live_def split: option.splits)

lemma holders_lapse: "t \<le> t' \<Longrightarrow> holders stage key t' db \<subseteq> holders stage key t db"
  unfolding holders_def by (rule image_mono) (auto dest: live_lapses)

text \<open>An update adds at most the updated rows that are live after it.\<close>

lemma holders_update:
  assumes keeps: "\<And>w. wr_WorkItemID (f w) = wr_WorkItemID w \<and> wr_Stage (f w) = wr_Stage w \<and> key (f w) = key w"
  shows "holders stage key now (update_work P f db) \<subseteq> holders stage key now db
    \<union> {(key w, wr_WorkItemID w) | w. w \<in> set (dd_Items db) \<and> wr_Stage w = stage \<and> P w \<and> live now (f w)}"
proof (rule subrelI)
  fix k i assume "(k, i) \<in> holders stage key now (update_work P f db)"
  then obtain v where v: "v \<in> set (dd_Items (update_work P f db))" "wr_Stage v = stage" "live now v" "key v = k" "wr_WorkItemID v = i"
    by (rule holdersE)
  then obtain w where w: "w \<in> set (dd_Items db)" "v = (if P w then f w else w)" by auto
  show "(k, i) \<in> holders stage key now db
    \<union> {(key w, wr_WorkItemID w) | w. w \<in> set (dd_Items db) \<and> wr_Stage w = stage \<and> P w \<and> live now (f w)}"
  proof (cases "P w")
    case True
    with v w keeps [of w] show ?thesis by auto
  next
    case False
    with v w show ?thesis using holdersI [of w db stage now key] by simp
  qed
qed

lemma not_live_settled [simp]:
  "\<not> live now (settled_work StatusSucceeded t w)" "\<not> live now (failed_work StatusDeadLetter t failure w)"
  "\<not> live now (retried_work t next_at failure w)" "\<not> live now (pending_again t w)"
  by (simp_all add: live_def settled_work_def failed_work_def retried_work_def pending_again_def in_flight_def
      split: prod.split)

lemma holders_settle:
  assumes "\<And>w. wr_WorkItemID (f w) = wr_WorkItemID w \<and> wr_Stage (f w) = wr_Stage w \<and> key (f w) = key w"
    and "\<And>w. P w \<Longrightarrow> \<not> live now (f w)"
  shows "holders stage key now (update_work P f db) \<subseteq> holders stage key now db"
  using holders_update [of f key stage now P db] assms by blast

lemma holders_items: "dd_Items db' = dd_Items db \<Longrightarrow> holders stage key now db' = holders stage key now db"
  by (simp add: holders_def)

lemma one_holder_insert:
  assumes "one_holder H" and "\<And>j. (k, j) \<in> H \<Longrightarrow> j = i" and "G \<subseteq> insert (k, i) H"
  shows "one_holder G"
proof (rule one_holder_subset [OF _ assms(3)])
  show "one_holder (insert (k, i) H)"
    unfolding one_holder_def
  proof (intro allI impI)
    fix k' i' j' assume "(k', i') \<in> insert (k, i) H" "(k', j') \<in> insert (k, i) H"
    then show "i' = j'" using assms(1,2) by (auto simp: one_holder_def)
  qed
qed

lemma statement_data_ok:
  assumes "statement new db = (e, db')" and "data_ok db" and "distinct (scope_ids new)"
    and "distinct (generation_ids new)" and "distinct (map wr_WorkItemID (dd_Items new))" and "distinct (map fw_FactID (dd_Facts new))"
  shows "data_ok db'"
  using assms by (cases "constraint_error new") (auto simp: statement_def data_ok_def)

lemma update_work_ids: "keeps_work_keys f \<Longrightarrow> map wr_WorkItemID (dd_Items (update_work P f db)) = map wr_WorkItemID (dd_Items db)"
  by (simp add: keeps_work_keys_def)

lemma update_statement_ok:
  assumes "statement (update_work P f db) db = (e, db')" and "data_ok db" and "keeps_work_keys f"
  shows "data_ok db'"
proof (rule statement_data_ok [OF assms(1,2)])
  show "distinct (map wr_WorkItemID (dd_Items (update_work P f db)))"
    unfolding update_work_ids [OF assms(3)] using assms(2) by (simp add: data_ok_def)
qed (use assms(2) in \<open>simp_all add: data_ok_def scope_ids_def generation_ids_def\<close>)

text \<open>An item that is ready is not live, and a claim makes it live.\<close>

lemma ready_not_live: "ready now w \<Longrightarrow> \<not> live now w"
  by (auto simp: ready_def live_def split: option.splits)

lemma live_claimed [simp]: "live now (claimed_work now owner until w) \<longleftrightarrow> now < until"
  by (simp add: live_def claimed_work_def in_flight_def)


section \<open>Transactions keep the tables well formed\<close>

definition keeps_ids :: "(DataDb \<Rightarrow> DataDb) \<Rightarrow> bool" where
  "keeps_ids f \<longleftrightarrow> (\<forall>db. scope_ids (f db) = scope_ids db \<and> generation_ids (f db) = generation_ids db
     \<and> map wr_WorkItemID (dd_Items (f db)) = map wr_WorkItemID (dd_Items db)
     \<and> map fw_FactID (dd_Facts (f db)) = map fw_FactID (dd_Facts db))"

lemma update_settles: "(\<And>r. \<not> P (f r)) \<Longrightarrow> \<not> list_ex P (map (\<lambda>r. if P r then f r else r) rs)"
  by (auto simp: list_ex_iff)

lemma keeps_ids_update_work [simp]: "keeps_work_keys f \<Longrightarrow> keeps_ids (update_work P f)"
  by (auto simp: keeps_ids_def keeps_work_keys_def scope_ids_def generation_ids_def)

lemma keeps_idsD:
  assumes "keeps_ids f"
  shows "scope_ids (f db) = scope_ids db" and "generation_ids (f db) = generation_ids db"
    and "map wr_WorkItemID (dd_Items (f db)) = map wr_WorkItemID (dd_Items db)"
    and "map fw_FactID (dd_Facts (f db)) = map fw_FactID (dd_Facts db)"
  using assms unfolding keeps_ids_def by blast+

lemma data_ok_ids:
  assumes "data_ok db"
  shows "distinct (scope_ids db)" and "distinct (generation_ids db)"
    and "distinct (map wr_WorkItemID (dd_Items db))" and "distinct (map fw_FactID (dd_Facts db))"
  using assms unfolding data_ok_def by blast+

lemma keeps_ids_distinct:
  assumes "keeps_ids f" and "data_ok db"
  shows "distinct (scope_ids (f db))" and "distinct (generation_ids (f db))"
    and "distinct (map wr_WorkItemID (dd_Items (f db)))" and "distinct (map fw_FactID (dd_Facts (f db)))"
  unfolding keeps_idsD [OF assms(1)] by (rule data_ok_ids [OF assms(2)])+

lemma keeps_ids_statement:
  assumes "keeps_ids f" and "statement (f db) db = (e, db')" and "data_ok db"
  shows "data_ok db'"
  by (rule statement_data_ok [OF assms(2,3)]) (rule keeps_ids_distinct [OF assms(1,3)])+

lemma run_steps_ok:
  "run_steps steps db = (e, db') \<Longrightarrow> list_all (\<lambda>s. keeps_ids (snd s)) steps \<Longrightarrow> data_ok db \<Longrightarrow> data_ok db'"
proof (induction steps db rule: run_steps.induct)
  case (2 op f rest db)
  obtain e' d where d: "statement (f db) db = (e', d)" by (cases "statement (f db) db")
  have "keeps_ids f" using "2.prems"(2) by simp
  from keeps_ids_statement [OF this d "2.prems"(3)] have "data_ok d" .
  then show ?case using "2.prems" "2.IH" [OF d [symmetric]] d by (cases e') auto
qed simp

lemma in_transaction_ok:
  "in_transaction (run_steps steps) db = (e, db') \<Longrightarrow> list_all (\<lambda>s. keeps_ids (snd s)) steps \<Longrightarrow> data_ok db \<Longrightarrow> data_ok db'"
  using run_steps_ok [of steps db] by (auto simp: in_transaction_def split: prod.splits option.splits)

text \<open>A transaction that commits has run all its statements, one that does not leaves the tables.\<close>

lemma statement_None: "statement new db = (None, db') \<Longrightarrow> db' = new"
  by (auto simp: statement_def split: option.splits)

lemma statement_Some: "statement new db = (Some e, db') \<Longrightarrow> db' = db"
  by (auto simp: statement_def split: option.splits)

lemma run_steps_None: "run_steps steps db = (None, db') \<Longrightarrow> db' = fold snd steps db"
  by (induction steps db rule: run_steps.induct) (auto split: prod.splits option.splits dest: statement_None)

lemma in_transaction_cases:
  assumes "in_transaction (run_steps steps) db = (e, db')"
  shows "e = None \<and> db' = fold snd steps db \<or> e \<noteq> None \<and> db' = db"
  using assms by (auto simp: in_transaction_def split: prod.splits option.splits dest: run_steps_None)

section \<open>The active generation of a scope\<close>

lemma constraint_error_None:
  "constraint_error db = None \<longleftrightarrow> distinct (active_scopes db) \<and> distinct (referenced_active db)
     \<and> (\<forall>g \<in> set (dd_Generations db). gw_ScopeID g \<in> set (scope_ids db))
     \<and> (\<forall>f \<in> set (dd_Facts db). fw_ScopeID f \<in> set (scope_ids db) \<and> fw_GenerationID f \<in> set (generation_ids db))
     \<and> (\<forall>w \<in> set (dd_Items db). wr_ScopeID w \<in> set (scope_ids db) \<and> wr_GenerationID w \<in> set (generation_ids db)
          \<and> integer_fits (wr_AttemptCount w))"
  by (auto simp: constraint_error_def list_all_iff)

lemma distinct_active:
  assumes "distinct (generation_ids db)"
  shows "distinct (active_scopes db) \<longleftrightarrow> (\<forall>g h. g \<in> set (dd_Generations db) \<longrightarrow> h \<in> set (dd_Generations db)
     \<longrightarrow> gw_Status g = GenerationStatusActive \<longrightarrow> gw_Status h = GenerationStatusActive
     \<longrightarrow> gw_ScopeID g = gw_ScopeID h \<longrightarrow> g = h)"
proof -
  have "distinct (dd_Generations db)"
    using assms by (auto simp: generation_ids_def distinct_map)
  then show ?thesis
    by (auto simp: active_scopes_def distinct_map inj_on_def)
qed

lemma distinct_referenced:
  assumes "distinct (scope_ids db)"
  shows "distinct (referenced_active db) \<longleftrightarrow> (\<forall>s t. s \<in> set (dd_Scopes db) \<longrightarrow> t \<in> set (dd_Scopes db)
     \<longrightarrow> sw_ActiveGenerationID s \<noteq> None \<longrightarrow> sw_ActiveGenerationID s = sw_ActiveGenerationID t \<longrightarrow> s = t)"
proof -
  have "distinct (dd_Scopes db)"
    using assms by (auto simp: scope_ids_def distinct_map)
  moreover have "distinct (List.map_filter f xs) \<longleftrightarrow> (\<forall>s t. s \<in> set xs \<longrightarrow> t \<in> set xs \<longrightarrow> f s \<noteq> None \<longrightarrow> f s = f t \<longrightarrow> s = t)"
    if "distinct xs" for f :: "ScopeRow \<Rightarrow> string option" and xs
    using that by (auto simp: map_filter_def distinct_map inj_on_def)
  ultimately show ?thesis by (simp add: referenced_active_def)
qed

text \<open>A scope names a generation exactly when that generation is its active one.\<close>

definition active_matches :: "DataDb \<Rightarrow> bool" where
  "active_matches db \<longleftrightarrow> (\<forall>s \<in> set (dd_Scopes db). \<forall>i.
     sw_ActiveGenerationID s = Some i \<longleftrightarrow>
       list_ex (\<lambda>g. gw_GenerationID g = i \<and> gw_ScopeID g = sw_ScopeID s \<and> gw_Status g = GenerationStatusActive)
         (dd_Generations db))"

lemma scope_unique:
  "data_ok db \<Longrightarrow> s \<in> set (dd_Scopes db) \<Longrightarrow> t \<in> set (dd_Scopes db) \<Longrightarrow> sw_ScopeID s = sw_ScopeID t \<Longrightarrow> s = t"
  by (auto simp: data_ok_def scope_ids_def distinct_map dest: inj_onD)

lemma generation_unique:
  "data_ok db \<Longrightarrow> g \<in> set (dd_Generations db) \<Longrightarrow> h \<in> set (dd_Generations db)
     \<Longrightarrow> gw_GenerationID g = gw_GenerationID h \<Longrightarrow> g = h"
  by (auto simp: data_ok_def generation_ids_def distinct_map dest: inj_onD)

end
