(* ===== verification/ProjectorQueue.thy ===== *)
theory ProjectorQueue
  imports FactTables
begin

text \<open>
  \<open>go/internal/storage/postgres/projector_queue.go\<close>: the queue of source-local projections over
  \<open>fact_work_items\<close>. Every operation takes the instants it reads off the clock. \<open>collate\<close> is the
  collation that orders text and \<open>locked\<close> the items whose rows other transactions hold
  (\<open>SKIP LOCKED\<close>). A claim chooses on the snapshot its statement started from and writes to the
  table as it is then, so that claims which overlap can be told from claims which do not. The
  context never ends and \<open>Begin\<close> and \<open>Commit\<close> do not fail.
\<close>

section \<open>The queue\<close>

record ProjectorQueue =
  pq_HasDatabase :: bool
  pq_HasBeginner :: bool
  pq_LeaseOwner :: string
  pq_LeaseDuration :: duration
  pq_RetryDelay :: duration
  pq_MaxAttempts :: int

record ScopeGenerationWork =
  sgw_Scope :: IngestionScope
  sgw_Generation :: ScopeGeneration
  sgw_AttemptCount :: int

definition ErrProjectorClaimRejected :: error where
  "ErrProjectorClaimRejected = Msg ''projector work claim rejected''"

definition NewProjectorQueue :: "bool \<Rightarrow> string \<Rightarrow> duration \<Rightarrow> ProjectorQueue" where
  "NewProjectorQueue beginner leaseOwner leaseDuration =
     \<lparr>pq_HasDatabase = True, pq_HasBeginner = beginner, pq_LeaseOwner = leaseOwner,
      pq_LeaseDuration = leaseDuration, pq_RetryDelay = 0, pq_MaxAttempts = 0\<rparr>"

definition projector_validate :: "ProjectorQueue \<Rightarrow> error option" where
  "projector_validate q = first_err
     [check (\<not> pq_HasDatabase q) (Required ''projector queue database''),
      check (pq_LeaseOwner q = []) (Required ''projector queue lease owner''),
      check (pq_LeaseDuration q \<le> 0) (NotPositive ''projector queue lease duration'')]"

definition projector_retryDelay :: "ProjectorQueue \<Rightarrow> duration" where
  "projector_retryDelay q = (if 0 < pq_RetryDelay q then pq_RetryDelay q else seconds 30)"

definition projector_maxAttempts :: "ProjectorQueue \<Rightarrow> int" where
  "projector_maxAttempts q = (if 0 < pq_MaxAttempts q then pq_MaxAttempts q else 3)"

definition projectorWorkItemID :: "string \<Rightarrow> string \<Rightarrow> string" where
  "projectorWorkItemID scopeID generationID = ''projector_'' @ scopeID @ ''_'' @ generationID"

text \<open>
  The text members of the scope's payload; \<open>json.Unmarshal\<close> yields no \<open>fmt.Stringer\<close>, so the
  other case of the switch never applies.
\<close>

definition projectorScopeMetadata :: "string \<Rightarrow> (string \<times> string) list option" where
  "projectorScopeMetadata raw =
     (case unmarshalPayload raw of
        Inr (Some p) \<Rightarrow>
          (let texts = List.map_filter (\<lambda>(k, v). case v of JStr s \<Rightarrow> if s \<noteq> [] then Some (k, s) else None | _ \<Rightarrow> None) p
           in if texts = [] then None else Some texts)
      | _ \<Rightarrow> None)"

section \<open>Enqueue\<close>

definition projector_row :: "string \<Rightarrow> string \<Rightarrow> time \<Rightarrow> WorkRow" where
  "projector_row scopeID generationID now =
     \<lparr>wr_WorkItemID = projectorWorkItemID scopeID generationID, wr_ScopeID = scopeID,
      wr_GenerationID = generationID, wr_Stage = ''projector'', wr_Domain = ''source_local'',
      wr_ConflictDomain = ''scope'', wr_ConflictKey = None, wr_Status = StatusPending,
      wr_AttemptCount = 0, wr_LeaseOwner = None, wr_ClaimUntil = None, wr_VisibleAt = Some now,
      wr_LastAttemptAt = None, wr_NextAttemptAt = None, wr_FailureClass = None,
      wr_FailureMessage = None, wr_FailureDetails = None, wr_Payload = ''{}'',
      wr_CreatedAt = now, wr_UpdatedAt = now\<rparr>"

definition enqueueProjectorWorkQuery :: "string \<Rightarrow> string \<Rightarrow> time \<Rightarrow> DataDb \<Rightarrow> DataDb" where
  "enqueueProjectorWorkQuery scopeID generationID now db =
     db\<lparr>dd_Items := insert_row wr_WorkItemID (projector_row scopeID generationID now) (dd_Items db)\<rparr>"

definition projector_Enqueue :: "ProjectorQueue \<Rightarrow> string \<Rightarrow> string \<Rightarrow> time \<Rightarrow> DataDb \<Rightarrow> error option \<times> DataDb" where
  "projector_Enqueue q scopeID generationID now db =
     (case first_err
        [check (\<not> pq_HasDatabase q) (Required ''projector queue database''),
         check (scopeID = []) (Required ''projector queue scope_id''),
         check (generationID = []) (Required ''projector queue generation_id'')] of
        Some e \<Rightarrow> (Some e, db)
      | None \<Rightarrow>
          (case statement (enqueueProjectorWorkQuery scopeID generationID now db) db of
             (Some e, db') \<Rightarrow> (Some (Wrap ''enqueue projector work'' e), db')
           | (None, db') \<Rightarrow> (None, db')))"

section \<open>Claim\<close>

text \<open>Ready, and no other item of the scope under a live lease.\<close>

definition projector_claimable :: "time \<Rightarrow> DataDb \<Rightarrow> WorkRow \<Rightarrow> bool" where
  "projector_claimable now db work \<longleftrightarrow> wr_Stage work = ''projector'' \<and> ready now work
     \<and> \<not> list_ex (\<lambda>w. wr_Stage w = ''projector'' \<and> wr_ScopeID w = wr_ScopeID work
         \<and> wr_WorkItemID w \<noteq> wr_WorkItemID work \<and> live now w) (dd_Items db)"

definition projector_candidate ::
  "(string \<Rightarrow> string \<Rightarrow> int) \<Rightarrow> string list \<Rightarrow> time \<Rightarrow> DataDb \<Rightarrow> WorkRow option" where
  "projector_candidate collate locked now snapshot =
     (case sort_by (cmp_work collate)
         (filter (\<lambda>w. projector_claimable now snapshot w \<and> wr_WorkItemID w \<notin> set locked) (dd_Items snapshot)) of
        [] \<Rightarrow> None
      | w # _ \<Rightarrow> Some w)"

definition projector_work :: "DataDb \<Rightarrow> WorkRow \<Rightarrow> (ScopeRow \<times> bool \<times> GenerationRow \<times> int) option" where
  "projector_work db w =
     (case (find_scope (wr_ScopeID w) db, find_generation (wr_GenerationID w) db) of
        (Some s, Some g) \<Rightarrow>
          Some (s, list_ex (\<lambda>prior. gw_ScopeID prior = sw_ScopeID s \<and> gw_GenerationID prior \<noteq> wr_GenerationID w)
                     (dd_Generations db), g, wr_AttemptCount w)
      | _ \<Rightarrow> None)"

definition claimProjectorWorkQuery ::
  "(string \<Rightarrow> string \<Rightarrow> int) \<Rightarrow> string list \<Rightarrow> time \<Rightarrow> string \<Rightarrow> time \<Rightarrow> DataDb \<Rightarrow> DataDb
   \<Rightarrow> error + (ScopeRow \<times> bool \<times> GenerationRow \<times> int) option \<times> DataDb" where
  "claimProjectorWorkQuery collate locked now owner until snapshot db =
     (case projector_candidate collate locked now snapshot of
        None \<Rightarrow> Inr (None, db)
      | Some w \<Rightarrow>
          (case statement (update_work (\<lambda>v. wr_WorkItemID v = wr_WorkItemID w) (claimed_work now owner until) db) db of
             (Some e, _) \<Rightarrow> Inl e
           | (None, db') \<Rightarrow>
               Inr (Option.bind (find_work (wr_WorkItemID w) db') (projector_work snapshot), db')))"

definition scanProjectorWork :: "ScopeRow \<times> bool \<times> GenerationRow \<times> int \<Rightarrow> ScopeGenerationWork" where
  "scanProjectorWork row = (case row of (s, prior, g, attempts) \<Rightarrow>
     \<lparr>sgw_Scope = \<lparr>sc_ScopeID = sw_ScopeID s, sc_SourceSystem = sw_SourceSystem s,
        sc_ScopeKind = sw_ScopeKind s, sc_ParentScopeID = coalesce (sw_ParentScopeID s),
        sc_CollectorKind = sw_CollectorKind s, sc_PartitionKey = sw_PartitionKey s,
        sc_ActiveGenerationID = coalesce (sw_ActiveGenerationID s), sc_PreviousGenerationExists = prior,
        sc_Metadata = projectorScopeMetadata (sw_Payload s)\<rparr>,
      sgw_Generation = \<lparr>gen_GenerationID = gw_GenerationID g, gen_ScopeID = sw_ScopeID s,
        gen_ObservedAt = utc (gw_ObservedAt g), gen_IngestedAt = utc (gw_IngestedAt g),
        gen_Status = gw_Status g, gen_TriggerKind = gw_TriggerKind g,
        gen_FreshnessHint = coalesce (gw_FreshnessHint g)\<rparr>,
      sgw_AttemptCount = attempts\<rparr>)"

definition projector_Claim ::
  "(string \<Rightarrow> string \<Rightarrow> int) \<Rightarrow> string list \<Rightarrow> ProjectorQueue \<Rightarrow> time \<Rightarrow> DataDb \<Rightarrow> DataDb
   \<Rightarrow> error + ScopeGenerationWork option \<times> DataDb" where
  "projector_Claim collate locked q now snapshot db = checked (projector_validate q)
     (case claimProjectorWorkQuery collate locked now (pq_LeaseOwner q) (now + pq_LeaseDuration q) snapshot db of
        Inl e \<Rightarrow> Inl (Wrap ''claim projector work'' e)
      | Inr (row, db') \<Rightarrow> Inr (map_option scanProjectorWork row, db'))"

section \<open>Heartbeat, ack and fail\<close>

definition projector_held :: "string \<Rightarrow> string \<Rightarrow> string \<Rightarrow> WorkRow \<Rightarrow> bool" where
  "projector_held scopeID generationID owner w \<longleftrightarrow> wr_Stage w = ''projector'' \<and> wr_ScopeID w = scopeID
     \<and> wr_GenerationID w = generationID \<and> leased_by owner w"

definition work_held :: "ProjectorQueue \<Rightarrow> ScopeGenerationWork \<Rightarrow> WorkRow \<Rightarrow> bool" where
  "work_held q work = projector_held (sc_ScopeID (sgw_Scope work)) (gen_GenerationID (sgw_Generation work)) (pq_LeaseOwner q)"

definition renewed_work :: "time \<Rightarrow> time \<Rightarrow> WorkRow \<Rightarrow> WorkRow" where
  "renewed_work until now w = w\<lparr>wr_Status := StatusRunning, wr_ClaimUntil := Some until, wr_UpdatedAt := now\<rparr>"

definition projector_Heartbeat :: "ProjectorQueue \<Rightarrow> ScopeGenerationWork \<Rightarrow> time \<Rightarrow> DataDb \<Rightarrow> error option \<times> DataDb" where
  "projector_Heartbeat q work now db =
     (case projector_validate q of Some e \<Rightarrow> (Some e, db)
      | None \<Rightarrow>
          (case statement (update_work (work_held q work) (renewed_work (now + pq_LeaseDuration q) now) db) db of
             (Some e, db') \<Rightarrow> (Some (Wrap ''heartbeat projector work'' e), db')
           | (None, db') \<Rightarrow> (check (count_work (work_held q work) db = 0) ErrProjectorClaimRejected, db')))"

definition supersedeProjectorActiveGenerationQuery :: "time \<Rightarrow> string \<Rightarrow> string \<Rightarrow> DataDb \<Rightarrow> DataDb" where
  "supersedeProjectorActiveGenerationQuery now scopeID generationID db =
     db\<lparr>dd_Generations := map (\<lambda>g.
       if gw_ScopeID g = scopeID \<and> gw_GenerationID g \<noteq> generationID \<and> gw_Status g = GenerationStatusActive
       then g\<lparr>gw_Status := GenerationStatusSuperseded, gw_SupersededAt := Some now\<rparr> else g) (dd_Generations db)\<rparr>"

definition activateProjectorGenerationQuery :: "time \<Rightarrow> string \<Rightarrow> string \<Rightarrow> DataDb \<Rightarrow> DataDb" where
  "activateProjectorGenerationQuery now scopeID generationID db =
     db\<lparr>dd_Generations := map (\<lambda>g.
       if gw_ScopeID g = scopeID \<and> gw_GenerationID g = generationID
       then g\<lparr>gw_Status := GenerationStatusActive,
              gw_ActivatedAt := (case gw_ActivatedAt g of Some t \<Rightarrow> Some t | None \<Rightarrow> Some now),
              gw_SupersededAt := None\<rparr> else g) (dd_Generations db)\<rparr>"

definition updateProjectorScopeGenerationQuery :: "time \<Rightarrow> string \<Rightarrow> string \<Rightarrow> DataDb \<Rightarrow> DataDb" where
  "updateProjectorScopeGenerationQuery now scopeID generationID db =
     db\<lparr>dd_Scopes := map (\<lambda>s.
       if sw_ScopeID s = scopeID
       then s\<lparr>sw_Status := GenerationStatusActive, sw_ActiveGenerationID := Some generationID, sw_IngestedAt := now\<rparr>
       else s) (dd_Scopes db)\<rparr>"

definition ack_steps :: "ProjectorQueue \<Rightarrow> ScopeGenerationWork \<Rightarrow> time \<Rightarrow> (string \<times> (DataDb \<Rightarrow> DataDb)) list" where
  "ack_steps q work now =
     (let s = sc_ScopeID (sgw_Scope work); g = gen_GenerationID (sgw_Generation work) in
      [(''supersede active generation'', supersedeProjectorActiveGenerationQuery now s g),
       (''activate target generation'', activateProjectorGenerationQuery now s g),
       (''update scope active generation'', updateProjectorScopeGenerationQuery now s g),
       (''mark projector work succeeded'', update_work (work_held q work) (settled_work StatusSucceeded now))])"

definition projector_Ack :: "ProjectorQueue \<Rightarrow> ScopeGenerationWork \<Rightarrow> time \<Rightarrow> DataDb \<Rightarrow> error option \<times> DataDb" where
  "projector_Ack q work now db =
     (case projector_validate q of Some e \<Rightarrow> (Some e, db)
      | None \<Rightarrow>
          if \<not> pq_HasBeginner q then (Some (Msg ''projector queue database must support Begin for ack''), db)
          else (case in_transaction (run_steps (ack_steps q work now)) db of
                  (Some e, db') \<Rightarrow> (Some (Wrap ''ack projector work'' e), db')
                | (None, db') \<Rightarrow> (None, db')))"

text \<open>The three updates of \<open>failProjectorWorkQuery\<close>, all from one snapshot.\<close>

definition failed_generation :: "string \<Rightarrow> GenerationRow \<Rightarrow> GenerationRow" where
  "failed_generation generationID g =
     (if gw_GenerationID g = generationID \<and> gw_Status g \<in> {GenerationStatusPending, GenerationStatusActive}
      then g\<lparr>gw_Status := GenerationStatusFailed\<rparr> else g)"

definition failed_scope :: "time \<Rightarrow> string \<Rightarrow> string \<Rightarrow> ScopeRow \<Rightarrow> ScopeRow" where
  "failed_scope now scopeID generationID s =
     (if sw_ScopeID s \<noteq> scopeID then s
      else
        (let hit = sw_ActiveGenerationID s = Some generationID; none = sw_ActiveGenerationID s = None in
         s\<lparr>sw_Status := (if hit \<or> none then GenerationStatusFailed else sw_Status s),
           sw_ActiveGenerationID := (if hit then None else sw_ActiveGenerationID s),
           sw_IngestedAt := (if hit \<or> none then now else sw_IngestedAt s)\<rparr>))"

definition failProjectorWorkQuery ::
  "time \<Rightarrow> string \<times> string \<times> string \<Rightarrow> string \<Rightarrow> string \<Rightarrow> string \<Rightarrow> DataDb \<Rightarrow> DataDb" where
  "failProjectorWorkQuery now failure scopeID generationID owner db =
     (update_work (projector_held scopeID generationID owner) (failed_work StatusDeadLetter now failure) db)
       \<lparr>dd_Generations := map (failed_generation generationID) (dd_Generations db),
        dd_Scopes := map (failed_scope now scopeID generationID) (dd_Scopes db)\<rparr>"

text \<open>Which statement a failure runs; the retry reads the clock again.\<close>

definition fail_update :: "ProjectorQueue \<Rightarrow> ScopeGenerationWork \<Rightarrow> Cause \<Rightarrow> time \<Rightarrow> time \<Rightarrow> DataDb \<Rightarrow> DataDb" where
  "fail_update q work c now later =
     (let failure = queueFailureMetadata c ''projection_failed'' in
      if cause_Retryable c \<and> sgw_AttemptCount work < projector_maxAttempts q
      then update_work (work_held q work)
             (retried_work now (later + projector_retryDelay q) (''projection_retryable'', snd failure))
      else failProjectorWorkQuery now failure (sc_ScopeID (sgw_Scope work))
             (gen_GenerationID (sgw_Generation work)) (pq_LeaseOwner q))"

text \<open>\<open>None\<close> is the nil cause.\<close>

definition projector_Fail ::
  "ProjectorQueue \<Rightarrow> ScopeGenerationWork \<Rightarrow> Cause option \<Rightarrow> time \<Rightarrow> time \<Rightarrow> DataDb \<Rightarrow> error option \<times> DataDb" where
  "projector_Fail q work cause now later db =
     (case projector_validate q of Some e \<Rightarrow> (Some e, db)
      | None \<Rightarrow>
        (case cause of
           None \<Rightarrow> (Some (Required ''projector failure cause''), db)
         | Some c \<Rightarrow>
             (case statement (fail_update q work c now later db) db of
                (Some e, db') \<Rightarrow> (Some (Wrap ''fail projector work'' e), db')
              | (None, db') \<Rightarrow> (None, db'))))"

section \<open>The tables stay well formed\<close>

lemma renewed_work_keys [simp]: "keeps_work_keys (renewed_work until now)"
  by (simp add: keeps_work_keys_def renewed_work_def)

lemma queue_statements_keep_ids [simp]:
  "keeps_ids (supersedeProjectorActiveGenerationQuery now s g)" "keeps_ids (activateProjectorGenerationQuery now s g)"
  "keeps_ids (updateProjectorScopeGenerationQuery now s g)" "keeps_ids (failProjectorWorkQuery now failure s g owner)"
  by (auto simp: keeps_ids_def scope_ids_def generation_ids_def supersedeProjectorActiveGenerationQuery_def
      activateProjectorGenerationQuery_def updateProjectorScopeGenerationQuery_def failProjectorWorkQuery_def
      failed_generation_def failed_scope_def failed_work_def Let_def split: prod.split)

lemma ack_steps_keep_ids: "list_all (\<lambda>s. keeps_ids (snd s)) (ack_steps q work now)"
  by (simp add: ack_steps_def Let_def)

lemma projector_Enqueue_ok: "projector_Enqueue q s g now db = (e, db') \<Longrightarrow> data_ok db \<Longrightarrow> data_ok db'"
proof -
  assume enq: "projector_Enqueue q s g now db = (e, db')" and ok: "data_ok db"
  obtain f d where d: "statement (enqueueProjectorWorkQuery s g now db) db = (f, d)"
    by (cases "statement (enqueueProjectorWorkQuery s g now db) db")
  have "distinct (map wr_WorkItemID (insert_row wr_WorkItemID (projector_row s g now) (dd_Items db)))"
    by (rule insert_row_distinct) (rule data_ok_ids(3) [OF ok])
  then have "data_ok d"
    using data_ok_ids [OF ok]
    by (intro statement_data_ok [OF d ok])
      (simp_all add: enqueueProjectorWorkQuery_def scope_ids_def generation_ids_def)
  with enq ok d show "data_ok db'"
    by (auto simp: projector_Enqueue_def split: option.splits)
qed

lemma projector_Claim_ok:
  assumes "projector_Claim collate locked q now snapshot db = Inr (r, db')" and "data_ok db"
  shows "data_ok db'"
proof (cases "projector_candidate collate locked now snapshot")
  case None
  with assms show ?thesis by (auto simp: projector_Claim_def claimProjectorWorkQuery_def split: sum.splits)
next
  case (Some w)
  obtain e d where d: "statement (update_work (\<lambda>v. wr_WorkItemID v = wr_WorkItemID w)
      (claimed_work now (pq_LeaseOwner q) (now + pq_LeaseDuration q)) db) db = (e, d)"
    by (metis surj_pair)
  have "data_ok d" by (rule update_statement_ok [OF d assms(2)]) simp
  with Some d assms show ?thesis
    by (auto simp: projector_Claim_def claimProjectorWorkQuery_def split: sum.splits option.splits)
qed

lemma projector_Heartbeat_ok:
  assumes "projector_Heartbeat q work now db = (e, db')" and "data_ok db"
  shows "data_ok db'"
proof -
  obtain f d where d: "statement (update_work (work_held q work) (renewed_work (now + pq_LeaseDuration q) now) db) db = (f, d)"
    by (metis surj_pair)
  have "data_ok d" by (rule update_statement_ok [OF d assms(2)]) simp
  with d assms show ?thesis by (auto simp: projector_Heartbeat_def split: option.splits)
qed

lemma projector_Ack_ok:
  assumes "projector_Ack q work now db = (e, db')" and "data_ok db"
  shows "data_ok db'"
proof -
  obtain f d where d: "in_transaction (run_steps (ack_steps q work now)) db = (f, d)"
    by (metis surj_pair)
  have "data_ok d" by (rule in_transaction_ok [OF d ack_steps_keep_ids assms(2)])
  with d assms show ?thesis by (auto simp: projector_Ack_def split: option.splits if_splits)
qed

lemma fail_update_keeps_ids [simp]: "keeps_ids (fail_update q work c now later)"
  by (simp add: fail_update_def Let_def)

lemma projector_Fail_ok:
  assumes "projector_Fail q work cause now later db = (e, db')" and "data_ok db"
  shows "data_ok db'"
proof (cases cause)
  case None
  with assms show ?thesis by (auto simp: projector_Fail_def split: option.splits)
next
  case (Some c)
  obtain f d where d: "statement (fail_update q work c now later db) db = (f, d)" by (metis surj_pair)
  have "data_ok d" by (rule keeps_ids_statement [OF fail_update_keeps_ids d assms(2)])
  with d assms Some show ?thesis by (auto simp: projector_Fail_def split: option.splits)
qed

section \<open>One live claim per scope\<close>

text \<open>
  The statements of any number of queues, one at a time, each at an instant of the clock. A
  heartbeat is on time when the items it renews are still under their lease.
\<close>

inductive projector_step :: "(string \<Rightarrow> string \<Rightarrow> int) \<Rightarrow> time \<Rightarrow> DataDb \<Rightarrow> DataDb \<Rightarrow> bool"
  for collate :: "string \<Rightarrow> string \<Rightarrow> int" where
  step_enqueue: "projector_Enqueue q s g now db = (e, db') \<Longrightarrow> projector_step collate now db db'"
| step_claim: "projector_Claim collate locked q now db db = Inr (r, db') \<Longrightarrow> projector_step collate now db db'"
| step_heartbeat: "projector_Heartbeat q work now db = (e, db') \<Longrightarrow> list_all (live now) (filter (work_held q work) (dd_Items db))
     \<Longrightarrow> projector_step collate now db db'"
| step_ack: "projector_Ack q work now db = (e, db') \<Longrightarrow> projector_step collate now db db'"
| step_fail: "projector_Fail q work cause now later db = (e, db') \<Longrightarrow> projector_step collate now db db'"

lemma projector_step_ok: "projector_step collate now db db' \<Longrightarrow> data_ok db \<Longrightarrow> data_ok db'"
  by (induction rule: projector_step.induct)
    (auto intro: projector_Enqueue_ok projector_Claim_ok projector_Heartbeat_ok projector_Ack_ok projector_Fail_ok)

abbreviation projector_holders :: "time \<Rightarrow> DataDb \<Rightarrow> (string \<times> string) set" where
  "projector_holders \<equiv> holders ''projector'' wr_ScopeID"

lemma projector_candidate_Some:
  assumes "projector_candidate collate locked now snapshot = Some w"
  shows "w \<in> set (dd_Items snapshot)" and "projector_claimable now snapshot w" and "wr_WorkItemID w \<notin> set locked"
proof -
  let ?ws = "filter (\<lambda>w. projector_claimable now snapshot w \<and> wr_WorkItemID w \<notin> set locked) (dd_Items snapshot)"
  obtain ws where "sort_by (cmp_work collate) ?ws = w # ws"
    using assms by (auto simp: projector_candidate_def split: list.splits)
  then have "w \<in> set (sort_by (cmp_work collate) ?ws)" by (simp only: list.set_intros)
  then show "w \<in> set (dd_Items snapshot)" "projector_claimable now snapshot w" "wr_WorkItemID w \<notin> set locked"
    by simp_all
qed

lemma keeps_work_keysD:
  "keeps_work_keys f \<Longrightarrow> wr_WorkItemID (f w) = wr_WorkItemID w \<and> wr_Stage (f w) = wr_Stage w \<and> wr_ScopeID (f w) = wr_ScopeID w"
  by (simp add: keeps_work_keys_def)

lemma statement_holders:
  assumes "statement new db = (e, db')" and "holders stage key now new \<subseteq> H" and "holders stage key now db \<subseteq> H"
  shows "holders stage key now db' \<subseteq> H"
  using assms by (auto simp: statement_def split: option.splits)

lemma enqueue_holders:
  assumes "projector_Enqueue q s g now db = (e, db')"
  shows "projector_holders now' db' \<subseteq> projector_holders now' db"
proof -
  obtain f d where d: "statement (enqueueProjectorWorkQuery s g now db) db = (f, d)" by (metis surj_pair)
  have "\<not> live now' (projector_row s g now)"
    by (simp add: projector_row_def live_def in_flight_def)
  then have "projector_holders now' (enqueueProjectorWorkQuery s g now db) \<subseteq> projector_holders now' db"
    by (auto simp: enqueueProjectorWorkQuery_def insert_row_def holders_def)
  then have "projector_holders now' d \<subseteq> projector_holders now' db"
    by (rule statement_holders [OF d]) simp
  with assms d show ?thesis by (auto simp: projector_Enqueue_def split: option.splits)
qed

lemma claim_holders:
  assumes claim: "projector_Claim collate locked q now db db = Inr (r, db')" and ok: "data_ok db"
    and one: "one_holder (projector_holders now db)"
  shows "one_holder (projector_holders now db')"
proof (cases "projector_candidate collate locked now db")
  case None
  with claim one show ?thesis by (auto simp: projector_Claim_def claimProjectorWorkQuery_def split: sum.splits)
next
  case (Some w)
  let ?f = "claimed_work now (pq_LeaseOwner q) (now + pq_LeaseDuration q)"
  let ?new = "update_work (\<lambda>v. wr_WorkItemID v = wr_WorkItemID w) ?f db"
  have "statement ?new db = (None, db')"
    using Some claim by (auto simp: projector_Claim_def claimProjectorWorkQuery_def split: sum.splits prod.splits option.splits)
  then have db': "db' = ?new" by (rule statement_None)
  note c = projector_candidate_Some [OF Some]
  have "projector_holders now ?new \<subseteq> insert (wr_ScopeID w, wr_WorkItemID w) (projector_holders now db)"
    using holders_update [of ?f wr_ScopeID "''projector''" now "\<lambda>v. wr_WorkItemID v = wr_WorkItemID w" db]
      keeps_work_keysD [of ?f] work_unique [OF ok _ c(1)] by auto
  moreover have "j = wr_WorkItemID w" if j: "(wr_ScopeID w, j) \<in> projector_holders now db" for j
    using j c(2) by (elim holdersE) (auto simp: projector_claimable_def list_ex_iff)
  ultimately show ?thesis
    unfolding db' by (intro one_holder_insert [OF one])
qed


lemma heartbeat_holders:
  assumes beat: "projector_Heartbeat q work now db = (e, db')"
    and on_time: "list_all (live now) (filter (work_held q work) (dd_Items db))"
  shows "projector_holders now db' \<subseteq> projector_holders now db"
proof -
  let ?f = "renewed_work (now + pq_LeaseDuration q) now"
  obtain f d where d: "statement (update_work (work_held q work) ?f db) db = (f, d)" by (metis surj_pair)
  have "projector_holders now (update_work (work_held q work) ?f db) \<subseteq> projector_holders now db"
    using holders_update [of ?f wr_ScopeID "''projector''" now "work_held q work" db] keeps_work_keysD [of ?f] on_time
    by (auto simp: list_all_iff intro: holdersI)
  then have "projector_holders now d \<subseteq> projector_holders now db"
    by (rule statement_holders [OF d]) simp
  with beat d show ?thesis by (auto simp: projector_Heartbeat_def split: option.splits)
qed

lemma generation_steps_items [simp]:
  "dd_Items (supersedeProjectorActiveGenerationQuery now s g db) = dd_Items db"
  "dd_Items (activateProjectorGenerationQuery now s g db) = dd_Items db"
  "dd_Items (updateProjectorScopeGenerationQuery now s g db) = dd_Items db"
  by (simp_all add: supersedeProjectorActiveGenerationQuery_def activateProjectorGenerationQuery_def
      updateProjectorScopeGenerationQuery_def)

lemma ack_steps_items: "dd_Items (fold snd (ack_steps q work now) db) = dd_Items (update_work (work_held q work) (settled_work StatusSucceeded now) db)"
  by (simp add: ack_steps_def Let_def)

lemma ack_holders:
  assumes "projector_Ack q work now db = (e, db')"
  shows "projector_holders now' db' \<subseteq> projector_holders now' db"
proof -
  let ?settled = "update_work (work_held q work) (settled_work StatusSucceeded now) db"
  obtain f d where d: "in_transaction (run_steps (ack_steps q work now)) db = (f, d)" by (metis surj_pair)
  have "projector_holders now' ?settled \<subseteq> projector_holders now' db"
    by (rule holders_settle) (auto simp: keeps_work_keysD)
  moreover have "projector_holders now' (fold snd (ack_steps q work now) db) = projector_holders now' ?settled"
    by (rule holders_items) (rule ack_steps_items)
  ultimately have "projector_holders now' d \<subseteq> projector_holders now' db"
    using in_transaction_cases [OF d] by auto
  with assms d show ?thesis by (auto simp: projector_Ack_def split: option.splits if_splits)
qed

lemma fail_update_holders: "projector_holders now' (fail_update q work c now later db) \<subseteq> projector_holders now' db"
proof -
  have dead: "projector_holders now' (failProjectorWorkQuery now failure s g owner db) \<subseteq> projector_holders now' db" for failure s g owner
  proof -
    have "projector_holders now' (failProjectorWorkQuery now failure s g owner db)
        = projector_holders now' (update_work (projector_held s g owner) (failed_work StatusDeadLetter now failure) db)"
      by (rule holders_items) (simp add: failProjectorWorkQuery_def)
    also have "\<dots> \<subseteq> projector_holders now' db"
      by (rule holders_settle) (auto simp: keeps_work_keysD)
    finally show ?thesis .
  qed
  have "projector_holders now' (update_work (work_held q work) (retried_work now next_at failure) db) \<subseteq> projector_holders now' db" for next_at failure
    by (rule holders_settle) (auto simp: keeps_work_keysD)
  with dead show ?thesis by (simp add: fail_update_def Let_def)
qed

lemma fail_holders:
  assumes "projector_Fail q work cause now later db = (e, db')"
  shows "projector_holders now' db' \<subseteq> projector_holders now' db"
proof (cases cause)
  case None
  with assms show ?thesis by (auto simp: projector_Fail_def split: option.splits)
next
  case (Some c)
  obtain f d where d: "statement (fail_update q work c now later db) db = (f, d)" by (metis surj_pair)
  have "projector_holders now' d \<subseteq> projector_holders now' db"
    by (rule statement_holders [OF d fail_update_holders]) simp
  with assms d Some show ?thesis by (auto simp: projector_Fail_def split: option.splits)
qed

lemma projector_step_exclusive:
  assumes "projector_step collate now db db'" and "data_ok db" and "one_holder (projector_holders now db)"
  shows "one_holder (projector_holders now db')"
  using assms
proof (cases rule: projector_step.cases)
  case (step_enqueue q s g e)
  from assms(3) enqueue_holders [OF this] show ?thesis by (rule one_holder_subset)
next
  case (step_claim locked q r)
  from this assms(2,3) show ?thesis by (rule claim_holders)
next
  case (step_heartbeat q work e)
  from assms(3) heartbeat_holders [OF this] show ?thesis by (rule one_holder_subset)
next
  case (step_ack q work e)
  from assms(3) ack_holders [OF this] show ?thesis by (rule one_holder_subset)
next
  case (step_fail q work cause later e)
  from assms(3) fail_holders [OF this] show ?thesis by (rule one_holder_subset)
qed

interpretation pq: claim_windows "projector_step collate" data_ok projector_holders
  by unfold_locales (auto intro: holders_lapse [THEN subsetD] projector_step_ok projector_step_exclusive)

text \<open>
  C12: one projection at a time per scope. Over any schedule of enqueue, claim, heartbeat, ack and
  fail statements of any number of projector queues, one statement at a time and with heartbeats on
  time, two projector items of one scope whose leases both still run are one item.
\<close>

theorem one_projection_per_scope:
  assumes "timed_run (projector_step collate) (t, db) (t', db')" and "data_ok db"
    and "one_holder (projector_holders t db)"
    and "v \<in> set (dd_Items db')" and "w \<in> set (dd_Items db')"
    and "wr_Stage v = ''projector''" and "wr_Stage w = ''projector''" and "wr_ScopeID v = wr_ScopeID w"
    and "live t' v" and "live t' w"
  shows "v = w"
proof -
  have "data_ok db'" "one_holder (projector_holders t' db')"
    using pq.run_exclusive [OF assms(1)] assms(2,3) by simp_all
  moreover from this(2) have "wr_WorkItemID v = wr_WorkItemID w"
    using holdersI [OF assms(4,6,9), of wr_ScopeID] holdersI [OF assms(5,7,10), of wr_ScopeID] assms(8)
    unfolding one_holder_def by metis
  ultimately show ?thesis using work_unique assms(4,5) by blast
qed


section \<open>What an ack does\<close>

lemma constraints_kept:
  assumes ok: "data_ok db"
    and ids: "scope_ids X = scope_ids db" "generation_ids X = generation_ids db"
    and refs: "map gw_ScopeID (dd_Generations X) = map gw_ScopeID (dd_Generations db)" "dd_Facts X = dd_Facts db"
    and items: "\<And>w. w \<in> set (dd_Items X) \<Longrightarrow> \<exists>v \<in> set (dd_Items db). wr_ScopeID w = wr_ScopeID v
       \<and> wr_GenerationID w = wr_GenerationID v \<and> wr_AttemptCount w = wr_AttemptCount v"
    and act: "distinct (active_scopes X)" and ref: "distinct (referenced_active X)"
  shows "constraint_error X = None"
proof -
  have c: "constraint_error db = None" using ok by (simp add: data_ok_def)
  have "set (map gw_ScopeID (dd_Generations X)) \<subseteq> set (scope_ids X)"
    unfolding refs(1) ids(1) using c by (auto simp: constraint_error_None)
  then have "\<forall>g \<in> set (dd_Generations X). gw_ScopeID g \<in> set (scope_ids X)" by auto
  moreover have "\<forall>w \<in> set (dd_Items X). wr_ScopeID w \<in> set (scope_ids X) \<and> wr_GenerationID w \<in> set (generation_ids X)
      \<and> integer_fits (wr_AttemptCount w)"
  proof
    fix w assume "w \<in> set (dd_Items X)"
    then obtain v where "v \<in> set (dd_Items db)" "wr_ScopeID w = wr_ScopeID v" "wr_GenerationID w = wr_GenerationID v"
      "wr_AttemptCount w = wr_AttemptCount v" using items by blast
    with c ids show "wr_ScopeID w \<in> set (scope_ids X) \<and> wr_GenerationID w \<in> set (generation_ids X) \<and> integer_fits (wr_AttemptCount w)"
      unfolding constraint_error_None by simp
  qed
  ultimately show ?thesis
    using c ids refs(2) act ref unfolding constraint_error_None by simp
qed

definition superseded_row :: "time \<Rightarrow> string \<Rightarrow> string \<Rightarrow> GenerationRow \<Rightarrow> GenerationRow" where
  "superseded_row now s i g =
     (if gw_ScopeID g = s \<and> gw_GenerationID g \<noteq> i \<and> gw_Status g = GenerationStatusActive
      then g\<lparr>gw_Status := GenerationStatusSuperseded, gw_SupersededAt := Some now\<rparr> else g)"

definition activated_row :: "time \<Rightarrow> string \<Rightarrow> string \<Rightarrow> GenerationRow \<Rightarrow> GenerationRow" where
  "activated_row now s i g =
     (if gw_ScopeID g = s \<and> gw_GenerationID g = i
      then g\<lparr>gw_Status := GenerationStatusActive,
             gw_ActivatedAt := (case gw_ActivatedAt g of Some t \<Rightarrow> Some t | None \<Rightarrow> Some now),
             gw_SupersededAt := None\<rparr> else g)"

definition promoted_scope :: "time \<Rightarrow> string \<Rightarrow> string \<Rightarrow> ScopeRow \<Rightarrow> ScopeRow" where
  "promoted_scope now s i r =
     (if sw_ScopeID r = s
      then r\<lparr>sw_Status := GenerationStatusActive, sw_ActiveGenerationID := Some i, sw_IngestedAt := now\<rparr> else r)"

lemma ack_queries:
  "supersedeProjectorActiveGenerationQuery now s i db = db\<lparr>dd_Generations := map (superseded_row now s i) (dd_Generations db)\<rparr>"
  "activateProjectorGenerationQuery now s i db = db\<lparr>dd_Generations := map (activated_row now s i) (dd_Generations db)\<rparr>"
  "updateProjectorScopeGenerationQuery now s i db = db\<lparr>dd_Scopes := map (promoted_scope now s i) (dd_Scopes db)\<rparr>"
  by (simp_all add: supersedeProjectorActiveGenerationQuery_def activateProjectorGenerationQuery_def
      updateProjectorScopeGenerationQuery_def superseded_row_def [abs_def] activated_row_def [abs_def] promoted_scope_def [abs_def])

lemma row_keys [simp]:
  "gw_GenerationID (superseded_row now s i g) = gw_GenerationID g" "gw_ScopeID (superseded_row now s i g) = gw_ScopeID g"
  "gw_GenerationID (activated_row now s i g) = gw_GenerationID g" "gw_ScopeID (activated_row now s i g) = gw_ScopeID g"
  "sw_ScopeID (promoted_scope now s i r) = sw_ScopeID r"
  by (simp_all add: superseded_row_def activated_row_def promoted_scope_def)

lemma row_active:
  "gw_Status (superseded_row now s i g) = GenerationStatusActive \<longleftrightarrow>
     gw_Status g = GenerationStatusActive \<and> \<not> (gw_ScopeID g = s \<and> gw_GenerationID g \<noteq> i)"
  "gw_Status (activated_row now s i (superseded_row now s i g)) = GenerationStatusActive \<longleftrightarrow>
     (if gw_ScopeID g = s then gw_GenerationID g = i else gw_Status g = GenerationStatusActive)"
  by (auto simp: superseded_row_def activated_row_def)

lemma promoted_active [simp]:
  "sw_ActiveGenerationID (promoted_scope now s i r) = (if sw_ScopeID r = s then Some i else sw_ActiveGenerationID r)"
  by (simp add: promoted_scope_def)

text \<open>The tables an ack leaves.\<close>

definition acked :: "ProjectorQueue \<Rightarrow> ScopeGenerationWork \<Rightarrow> time \<Rightarrow> DataDb \<Rightarrow> DataDb" where
  "acked q work now db =
     (let s = sc_ScopeID (sgw_Scope work); i = gen_GenerationID (sgw_Generation work) in
      db\<lparr>dd_Generations := map (\<lambda>g. activated_row now s i (superseded_row now s i g)) (dd_Generations db),
         dd_Scopes := map (promoted_scope now s i) (dd_Scopes db),
         dd_Items := map (\<lambda>w. if work_held q work w then settled_work StatusSucceeded now w else w) (dd_Items db)\<rparr>)"

lemma ack_fold: "fold snd (ack_steps q work now) db = acked q work now db"
  by (simp add: ack_steps_def acked_def Let_def ack_queries update_work_def o_def)


lemma distinct_active_map:
  assumes "distinct (generation_ids db)" and "dd_Generations X = map f (dd_Generations db)"
    and "\<And>g. gw_ScopeID (f g) = gw_ScopeID g"
    and "\<And>g h. g \<in> set (dd_Generations db) \<Longrightarrow> h \<in> set (dd_Generations db) \<Longrightarrow> gw_Status (f g) = GenerationStatusActive
      \<Longrightarrow> gw_Status (f h) = GenerationStatusActive \<Longrightarrow> gw_ScopeID g = gw_ScopeID h \<Longrightarrow> g = h"
  shows "distinct (active_scopes X)"
proof -
  have "distinct (dd_Generations db)" using assms(1) by (simp add: generation_ids_def distinct_map)
  moreover have "active_scopes X = map gw_ScopeID (filter (\<lambda>g. gw_Status (f g) = GenerationStatusActive) (dd_Generations db))"
    by (simp add: active_scopes_def assms(2,3) filter_map o_def)
  ultimately show ?thesis
    using assms(4) by (simp add: distinct_map inj_on_def)
qed

lemma distinct_referenced_map:
  assumes "distinct (scope_ids db)" and "dd_Scopes X = map f (dd_Scopes db)"
    and "\<And>s t. s \<in> set (dd_Scopes db) \<Longrightarrow> t \<in> set (dd_Scopes db) \<Longrightarrow> sw_ActiveGenerationID (f s) \<noteq> None
      \<Longrightarrow> sw_ActiveGenerationID (f s) = sw_ActiveGenerationID (f t) \<Longrightarrow> s = t"
  shows "distinct (referenced_active X)"
proof -
  have "distinct (dd_Scopes db)" using assms(1) by (simp add: scope_ids_def distinct_map)
  with assms(2,3) show ?thesis
    by (auto simp: referenced_active_def map_filter_def distinct_map inj_on_def filter_map o_def)
qed

lemma ack_constraints:
  fixes now :: time
  assumes ok: "data_ok db" and matches: "active_matches db"
    and gen: "g \<in> set (dd_Generations db)" "gw_GenerationID g = i" "gw_ScopeID g = s"
  defines "X \<equiv> db\<lparr>dd_Generations := map (superseded_row now s i) (dd_Generations db)\<rparr>"
  defines "Y \<equiv> X\<lparr>dd_Generations := map (activated_row now s i) (dd_Generations X)\<rparr>"
  defines "Z \<equiv> Y\<lparr>dd_Scopes := map (promoted_scope now s i) (dd_Scopes Y)\<rparr>"
  shows "constraint_error X = None" and "constraint_error Y = None" and "constraint_error Z = None"
proof -
  note ids = data_ok_ids [OF ok]
  have old: "\<And>g h. g \<in> set (dd_Generations db) \<Longrightarrow> h \<in> set (dd_Generations db) \<Longrightarrow> gw_Status g = GenerationStatusActive
      \<Longrightarrow> gw_Status h = GenerationStatusActive \<Longrightarrow> gw_ScopeID g = gw_ScopeID h \<Longrightarrow> g = h"
    using data_ok_constraints(1) [OF ok] unfolding distinct_active [OF ids(2)] by blast
  have refs: "referenced_active X = referenced_active db" "referenced_active Y = referenced_active db"
    by (simp_all add: X_def Y_def referenced_active_def)
  have keep: "scope_ids X = scope_ids db" "scope_ids Y = scope_ids db" "scope_ids Z = scope_ids db"
    "generation_ids X = generation_ids db" "generation_ids Y = generation_ids db" "generation_ids Z = generation_ids db"
    by (simp_all add: X_def Y_def Z_def scope_ids_def generation_ids_def)
  have X: "distinct (active_scopes X)"
    by (rule distinct_active_map [OF ids(2), of _ "superseded_row now s i"]) (auto simp: X_def row_active intro: old)
  have Y: "distinct (active_scopes Y)"
    by (rule distinct_active_map [OF ids(2), of _ "\<lambda>g. activated_row now s i (superseded_row now s i g)"])
      (auto simp: X_def Y_def row_active split: if_splits intro: old generation_unique [OF ok])
  have Z: "active_scopes Z = active_scopes Y"
    by (simp add: Z_def active_scopes_def)
  have other: "sw_ScopeID t = s" if t: "t \<in> set (dd_Scopes db)" "sw_ActiveGenerationID t = Some i" for t
  proof -
    obtain h where "h \<in> set (dd_Generations db)" "gw_GenerationID h = i" "gw_ScopeID h = sw_ScopeID t"
      using matches t by (auto simp: active_matches_def list_ex_iff)
    with generation_unique [OF ok] gen show ?thesis by metis
  qed
  have "\<And>t u. t \<in> set (dd_Scopes db) \<Longrightarrow> u \<in> set (dd_Scopes db) \<Longrightarrow> sw_ActiveGenerationID t \<noteq> None
      \<Longrightarrow> sw_ActiveGenerationID t = sw_ActiveGenerationID u \<Longrightarrow> t = u"
    using data_ok_constraints(2) [OF ok] unfolding distinct_referenced [OF ids(1)] by blast
  then have R: "distinct (referenced_active Z)"
    by (intro distinct_referenced_map [OF ids(1), of _ "promoted_scope now s i"])
      (auto simp: Z_def Y_def X_def split: if_splits dest: other intro: scope_unique [OF ok])
  have same: "map gw_ScopeID (dd_Generations X) = map gw_ScopeID (dd_Generations db)"
    "map gw_ScopeID (dd_Generations Y) = map gw_ScopeID (dd_Generations db)"
    "map gw_ScopeID (dd_Generations Z) = map gw_ScopeID (dd_Generations db)"
    "dd_Facts X = dd_Facts db" "dd_Facts Y = dd_Facts db" "dd_Facts Z = dd_Facts db"
    "dd_Items X = dd_Items db" "dd_Items Y = dd_Items db" "dd_Items Z = dd_Items db"
    by (simp_all add: X_def Y_def Z_def)
  show "constraint_error X = None"
    by (rule constraints_kept [OF ok keep(1,4) same(1,4) _ X])
      (use same(7) refs(1) data_ok_constraints(2) [OF ok] in auto)
  show "constraint_error Y = None"
    by (rule constraints_kept [OF ok keep(2,5) same(2,5) _ Y])
      (use same(8) refs(2) data_ok_constraints(2) [OF ok] in auto)
  show "constraint_error Z = None"
    by (rule constraints_kept [OF ok keep(3,6) same(3,6) _ _ R])
      (use same(9) Z Y in auto)
qed


lemma statement_fits: "constraint_error new = None \<Longrightarrow> statement new db = (None, new)"
  by (simp add: statement_def)

lemma Ack_result:
  assumes ok: "data_ok db" and matches: "active_matches db" and valid: "projector_validate q = None" and "pq_HasBeginner q"
    and gen: "g \<in> set (dd_Generations db)" "gw_GenerationID g = gen_GenerationID (sgw_Generation work)"
      "gw_ScopeID g = sc_ScopeID (sgw_Scope work)"
  shows "projector_Ack q work now db = (None, acked q work now db)"
proof -
  let ?s = "sc_ScopeID (sgw_Scope work)" and ?i = "gen_GenerationID (sgw_Generation work)"
  let ?X = "db\<lparr>dd_Generations := map (superseded_row now ?s ?i) (dd_Generations db)\<rparr>"
  let ?Y = "?X\<lparr>dd_Generations := map (activated_row now ?s ?i) (dd_Generations ?X)\<rparr>"
  let ?Z = "?Y\<lparr>dd_Scopes := map (promoted_scope now ?s ?i) (dd_Scopes ?Y)\<rparr>"
  note fits = ack_constraints [OF ok matches gen, of now, THEN statement_fits]
  have "keeps_ids (\<lambda>db. updateProjectorScopeGenerationQuery now ?s ?i
      (activateProjectorGenerationQuery now ?s ?i (supersedeProjectorActiveGenerationQuery now ?s ?i db)))"
    using queue_statements_keep_ids by (simp add: keeps_ids_def)
  from keeps_ids_distinct [OF this ok] have "data_ok ?Z"
    using ack_constraints(3) [OF ok matches gen, of now] by (simp add: data_ok_def ack_queries)
  then have last: "statement (update_work (work_held q work) (settled_work StatusSucceeded now) ?Z) ?Z
      = (None, update_work (work_held q work) (settled_work StatusSucceeded now) ?Z)"
    using data_ok_constraints(4) by (intro update_work_statement) auto
  have "run_steps (ack_steps q work now) db = (None, acked q work now db)"
    using fits last ack_fold [of q work now db]
    by (simp add: ack_steps_def Let_def ack_queries)
  then show ?thesis
    using assms(3,4) by (simp add: projector_Ack_def in_transaction_def)
qed

lemma acked_matches:
  assumes ok: "data_ok db" and matches: "active_matches db"
    and gen: "g \<in> set (dd_Generations db)" "gw_GenerationID g = gen_GenerationID (sgw_Generation work)"
      "gw_ScopeID g = sc_ScopeID (sgw_Scope work)"
  shows "active_matches (acked q work now db)"
proof -
  let ?s = "sc_ScopeID (sgw_Scope work)" and ?i = "gen_GenerationID (sgw_Generation work)"
  have "sw_ActiveGenerationID (promoted_scope now ?s ?i r) = Some j \<longleftrightarrow>
      (\<exists>h \<in> set (dd_Generations db). gw_GenerationID h = j \<and> gw_ScopeID h = sw_ScopeID r
        \<and> gw_Status (activated_row now ?s ?i (superseded_row now ?s ?i h)) = GenerationStatusActive)"
    if r: "r \<in> set (dd_Scopes db)" for r j
  proof (cases "sw_ScopeID r = ?s")
    case True
    with gen show ?thesis by (auto simp: row_active)
  next
    case False
    have "(\<exists>h \<in> set (dd_Generations db). gw_GenerationID h = j \<and> gw_ScopeID h = sw_ScopeID r
        \<and> gw_Status (activated_row now ?s ?i (superseded_row now ?s ?i h)) = GenerationStatusActive)
      \<longleftrightarrow> (\<exists>h \<in> set (dd_Generations db). gw_GenerationID h = j \<and> gw_ScopeID h = sw_ScopeID r
        \<and> gw_Status h = GenerationStatusActive)"
      using False by (intro bex_cong) (auto simp: row_active)
    with matches r False show ?thesis by (simp add: active_matches_def list_ex_iff)
  qed
  then show ?thesis
    by (auto simp: active_matches_def acked_def Let_def list_ex_iff)
qed

text \<open>
  C13: an ack promotes its generation. In well-formed tables where every scope names its active
  generation, acking work whose generation belongs to its scope succeeds, and leaves well-formed
  tables where every scope still names its active generation, the work's scope that of the work and
  no other active, and exactly the items the queue holds for that work succeeded.
\<close>

theorem ack_promotes_generation:
  assumes "data_ok db" and "active_matches db" and "projector_validate q = None" and "pq_HasBeginner q"
    and "g \<in> set (dd_Generations db)" and "gw_GenerationID g = gen_GenerationID (sgw_Generation work)"
    and "gw_ScopeID g = sc_ScopeID (sgw_Scope work)"
  shows "\<exists>db'. projector_Ack q work now db = (None, db') \<and> data_ok db' \<and> active_matches db'
    \<and> (\<forall>h \<in> set (dd_Generations db'). gw_ScopeID h = gw_ScopeID g \<longrightarrow>
         (gw_Status h = GenerationStatusActive \<longleftrightarrow> gw_GenerationID h = gw_GenerationID g))
    \<and> (\<forall>s \<in> set (dd_Scopes db'). sw_ScopeID s = gw_ScopeID g \<longrightarrow> sw_ActiveGenerationID s = Some (gw_GenerationID g))
    \<and> dd_Items db' = map (\<lambda>w. if work_held q work w then settled_work StatusSucceeded now w else w) (dd_Items db)
    \<and> dd_Facts db' = dd_Facts db"
proof (intro exI conjI)
  show ack: "projector_Ack q work now db = (None, acked q work now db)"
    by (rule Ack_result) (rule assms)+
  show "data_ok (acked q work now db)"
    by (rule projector_Ack_ok [OF ack]) (rule assms)
  show "active_matches (acked q work now db)"
    by (rule acked_matches) (rule assms)+
qed (use assms(6,7) in \<open>auto simp: acked_def Let_def row_active\<close>)


text \<open>
  C14: an ack whose claim is gone still takes effect. A queue that holds no item of the work any
  more (its lease ran out and another worker took the item, or the work was settled and a newer
  generation projected since) acks it without an error, and the superseded generation is active
  again in place of the one that superseded it; no work item records it.
\<close>

theorem late_ack_reinstates_superseded:
  assumes "data_ok db" and "active_matches db" and "projector_validate q = None" and "pq_HasBeginner q"
    and "g \<in> set (dd_Generations db)" and "gw_GenerationID g = gen_GenerationID (sgw_Generation work)"
    and "gw_ScopeID g = sc_ScopeID (sgw_Scope work)" and "gw_Status g = GenerationStatusSuperseded"
    and "h \<in> set (dd_Generations db)" and "gw_ScopeID h = gw_ScopeID g" and "gw_Status h = GenerationStatusActive"
    and "\<not> list_ex (work_held q work) (dd_Items db)"
  shows "\<exists>db'. projector_Ack q work now db = (None, db') \<and> dd_Items db' = dd_Items db
    \<and> list_ex (\<lambda>r. gw_GenerationID r = gw_GenerationID g \<and> gw_Status r = GenerationStatusActive) (dd_Generations db')
    \<and> list_ex (\<lambda>r. gw_GenerationID r = gw_GenerationID h \<and> gw_Status r = GenerationStatusSuperseded) (dd_Generations db')"
proof (intro exI conjI)
  let ?s = "sc_ScopeID (sgw_Scope work)" and ?i = "gen_GenerationID (sgw_Generation work)"
  show "projector_Ack q work now db = (None, acked q work now db)"
    by (rule Ack_result) (rule assms)+
  show "dd_Items (acked q work now db) = dd_Items db"
    using assms(12) by (auto simp: acked_def Let_def list_ex_iff intro: map_idI)
  have "gw_Status (activated_row now ?s ?i (superseded_row now ?s ?i g)) = GenerationStatusActive"
    using assms(6,7) by (simp add: row_active)
  with assms(5) show "list_ex (\<lambda>r. gw_GenerationID r = gw_GenerationID g \<and> gw_Status r = GenerationStatusActive)
      (dd_Generations (acked q work now db))"
    by (auto simp: acked_def Let_def list_ex_iff)
  have "gw_GenerationID h \<noteq> ?i"
    using generation_unique [OF assms(1,5,9)] assms(6,8,11) by auto
  then have "gw_Status (activated_row now ?s ?i (superseded_row now ?s ?i h)) = GenerationStatusSuperseded"
    using assms(7,10,11) by (simp add: superseded_row_def activated_row_def)
  with assms(9) show "list_ex (\<lambda>r. gw_GenerationID r = gw_GenerationID h \<and> gw_Status r = GenerationStatusSuperseded)
      (dd_Generations (acked q work now db))"
    by (auto simp: acked_def Let_def list_ex_iff)
qed

section \<open>Claims that overlap\<close>

lemma Claim_result:
  assumes "data_ok db" and "projector_validate q = None" and "projector_candidate collate locked now snapshot = Some w"
    and "\<And>x. x \<in> set (dd_Items db) \<Longrightarrow> wr_WorkItemID x = wr_WorkItemID w \<Longrightarrow> wr_AttemptCount x < 2 ^ 31 - 1"
  defines "new \<equiv> update_work (\<lambda>v. wr_WorkItemID v = wr_WorkItemID w)
      (claimed_work now (pq_LeaseOwner q) (now + pq_LeaseDuration q)) db"
  shows "\<exists>r. projector_Claim collate locked q now snapshot db = Inr (r, new)" and "data_ok new"
proof -
  have fits: "integer_fits (wr_AttemptCount (claimed_work now (pq_LeaseOwner q) (now + pq_LeaseDuration q) x))"
    if "x \<in> set (dd_Items db)" "wr_WorkItemID x = wr_WorkItemID w" for x
    using assms(4) [OF that] data_ok_constraints(4) [OF assms(1) that(1)] by (simp add: claimed_work_def integer_fits_def)
  have "statement new db = (None, new)"
    unfolding new_def by (rule update_work_statement [OF assms(1)]) (use fits in auto)
  then show "\<exists>r. projector_Claim collate locked q now snapshot db = Inr (r, new)"
    using assms(2,3) by (simp add: projector_Claim_def claimProjectorWorkQuery_def new_def [symmetric])
  show "data_ok new"
    unfolding new_def by (rule update_work_ok [OF assms(1)]) (use fits in auto)
qed

text \<open>
  Claims that overlap can take two projections of one scope. When a second claim starts from
  the same snapshot as a first and skips the row the first has locked, the check that no other item
  of the scope is in flight does not see the first claim: both succeed, and two leases of the scope
  run at once.
\<close>

theorem overlapping_claims_share_scope:
  assumes ok: "data_ok db" and q: "projector_validate q = None" and p: "projector_validate p = None"
    and first: "projector_candidate collate [] now db = Some v"
    and second: "projector_candidate collate [wr_WorkItemID v] now db = Some w"
    and scope: "wr_ScopeID w = wr_ScopeID v" and attempts: "wr_AttemptCount v < 2 ^ 31 - 1" "wr_AttemptCount w < 2 ^ 31 - 1"
  shows "\<exists>r r' db1 db2. projector_Claim collate [] q now db db = Inr (r, db1)
    \<and> projector_Claim collate [wr_WorkItemID v] p now db db1 = Inr (r', db2)
    \<and> \<not> one_holder (projector_holders now db2)"
proof -
  let ?fq = "claimed_work now (pq_LeaseOwner q) (now + pq_LeaseDuration q)"
  let ?fp = "claimed_work now (pq_LeaseOwner p) (now + pq_LeaseDuration p)"
  let ?db1 = "update_work (\<lambda>x. wr_WorkItemID x = wr_WorkItemID v) ?fq db"
  let ?db2 = "update_work (\<lambda>x. wr_WorkItemID x = wr_WorkItemID w) ?fp ?db1"
  note v = projector_candidate_Some [OF first] and w = projector_candidate_Some [OF second]
  have ne: "wr_WorkItemID w \<noteq> wr_WorkItemID v" using w(3) by simp
  have claim1: "\<exists>r. projector_Claim collate [] q now db db = Inr (r, ?db1)" and ok1: "data_ok ?db1"
    using Claim_result [OF ok q first] work_unique [OF ok _ v(1)] attempts(1) by blast+
  have w1: "w \<in> set (dd_Items ?db1)" using w(1) ne by (auto simp: image_iff)
  have claim2: "\<exists>r. projector_Claim collate [wr_WorkItemID v] p now db ?db1 = Inr (r, ?db2)"
    using Claim_result(1) [OF ok1 p second] work_unique [OF ok1 _ w1] attempts(2) by blast
  have durations: "0 < pq_LeaseDuration q" "0 < pq_LeaseDuration p"
    using p q by (simp_all add: projector_validate_def)
  have "?fq v \<in> set (dd_Items ?db1)" using v(1) by auto
  then have "?fq v \<in> set (dd_Items ?db2)"
    using ne keeps_work_keysD [of ?fq v] by (auto simp: image_iff)
  from holdersI [OF this, of "''projector''" now wr_ScopeID]
  have "(wr_ScopeID v, wr_WorkItemID v) \<in> projector_holders now ?db2"
    using v(2) durations keeps_work_keysD [of ?fq v] by (simp add: projector_claimable_def)
  moreover have "?fp w \<in> set (dd_Items ?db2)" using w1 by auto
  from holdersI [OF this, of "''projector''" now wr_ScopeID]
  have "(wr_ScopeID v, wr_WorkItemID w) \<in> projector_holders now ?db2"
    using w(2) scope durations keeps_work_keysD [of ?fp w] by (simp add: projector_claimable_def)
  ultimately have "\<not> one_holder (projector_holders now ?db2)"
    using ne unfolding one_holder_def by metis
  with claim1 claim2 show ?thesis by blast
qed

section \<open>Examples\<close>

text \<open>A scope with two generations, the first projected and superseded, the second active.\<close>

definition example_scope_row :: "string option \<Rightarrow> ScopeRow" where
  "example_scope_row active = \<lparr>sw_ScopeID = ''scope-1'', sw_ScopeKind = ''repository'', sw_SourceSystem = ''git'',
     sw_SourceKey = ''repo-1'', sw_ParentScopeID = None, sw_CollectorKind = ''git'', sw_PartitionKey = ''repo-1'',
     sw_ObservedAt = 1, sw_IngestedAt = 1, sw_Status = GenerationStatusActive, sw_ActiveGenerationID = active,
     sw_Payload = ''{}''\<rparr>"

definition example_generation_row :: "string \<Rightarrow> GenerationStatus \<Rightarrow> GenerationRow" where
  "example_generation_row i status = \<lparr>gw_GenerationID = i, gw_ScopeID = ''scope-1'', gw_TriggerKind = ''push'',
     gw_FreshnessHint = None, gw_ObservedAt = 1, gw_IngestedAt = 1, gw_Status = status, gw_ActivatedAt = None,
     gw_SupersededAt = None\<rparr>"

definition example_tables :: "GenerationStatus \<Rightarrow> GenerationStatus \<Rightarrow> string option \<Rightarrow> WorkRow list \<Rightarrow> DataDb" where
  "example_tables old new active items = \<lparr>dd_Scopes = [example_scope_row active],
     dd_Generations = [example_generation_row ''gen-1'' old, example_generation_row ''gen-2'' new],
     dd_Facts = [], dd_Items = items\<rparr>"

definition example_queue :: "string \<Rightarrow> ProjectorQueue" where
  "example_queue owner = NewProjectorQueue True owner (seconds 60)"

definition example_work :: "string \<Rightarrow> ScopeGenerationWork" where
  "example_work generation = scanProjectorWork
     (example_scope_row None, True, example_generation_row generation GenerationStatusPending, 1)"


definition two_pending :: DataDb where
  "two_pending = example_tables GenerationStatusPending GenerationStatusPending None
     [projector_row ''scope-1'' ''gen-1'' 1, projector_row ''scope-1'' ''gen-2'' 2]"

definition claimed_by :: "string \<Rightarrow> time \<Rightarrow> WorkRow \<Rightarrow> WorkRow" where
  "claimed_by owner now = claimed_work now owner (now + seconds 60)"

definition first_claimed :: DataDb where
  "first_claimed = example_tables GenerationStatusPending GenerationStatusPending None
     [claimed_by ''worker-a'' 10 (projector_row ''scope-1'' ''gen-1'' 1), projector_row ''scope-1'' ''gen-2'' 2]"

definition both_claimed :: DataDb where
  "both_claimed = example_tables GenerationStatusPending GenerationStatusPending None
     [claimed_by ''worker-a'' 10 (projector_row ''scope-1'' ''gen-1'' 1), claimed_by ''worker-b'' 11 (projector_row ''scope-1'' ''gen-2'' 2)]"

lemmas example_defs = two_pending_def first_claimed_def both_claimed_def claimed_by_def example_tables_def
  example_scope_row_def example_generation_row_def example_queue_def example_work_def NewProjectorQueue_def
  projector_row_def projectorWorkItemID_def seconds_def claimed_work_def

lemma projector_example_ok: "data_ok two_pending" "data_ok first_claimed" "active_matches two_pending"
  by (simp_all add: data_ok_def constraint_error_def active_scopes_def referenced_active_def scope_ids_def
      generation_ids_def active_matches_def example_defs List.map_filter_simps integer_fits_def)

lemma projector_example_claims:
  "projector_Claim compare [] (example_queue ''worker-a'') 10 two_pending two_pending
     = Inr (Some (scanProjectorWork (example_scope_row None, True, example_generation_row ''gen-1'' GenerationStatusPending, 1)), first_claimed)"
  "projector_Claim compare [] (example_queue ''worker-b'') 11 first_claimed first_claimed = Inr (None, first_claimed)"
  "projector_Claim compare [''projector_scope-1_gen-1''] (example_queue ''worker-b'') 11 two_pending first_claimed
     = Inr (Some (scanProjectorWork (example_scope_row None, True, example_generation_row ''gen-2'' GenerationStatusPending, 1)), both_claimed)"
  by (simp_all add: projector_Claim_def projector_validate_def claimProjectorWorkQuery_def projector_candidate_def
      projector_claimable_def ready_def open_status_def live_def in_flight_def sort_by_def cmp_work_def compare_def or_else_def
      statement_def constraint_error_def active_scopes_def referenced_active_def scope_ids_def generation_ids_def
      find_work_def projector_work_def find_scope_def find_generation_def List.map_filter_simps integer_fits_def update_work_def example_defs)


lemma example_candidates:
  "projector_candidate compare [] 11 two_pending = Some (projector_row ''scope-1'' ''gen-1'' 1)"
  "projector_candidate compare [''projector_scope-1_gen-1''] 11 two_pending = Some (projector_row ''scope-1'' ''gen-2'' 2)"
  by (simp_all add: projector_candidate_def projector_claimable_def ready_def open_status_def live_def in_flight_def
      sort_by_def cmp_work_def compare_def or_else_def example_defs)

lemma example_queue_valid: "projector_validate (example_queue owner) = None \<longleftrightarrow> owner \<noteq> []" "pq_HasBeginner (example_queue owner)"
  by (simp_all add: projector_validate_def example_queue_def NewProjectorQueue_def seconds_def)

theorem one_projection_per_scope_witness:
  "timed_run (projector_step compare) (1, two_pending) (11, first_claimed)
     \<and> find_work ''projector_scope-1_gen-1'' first_claimed = Some (hd (dd_Items first_claimed))
     \<and> hd (dd_Items first_claimed) = claimed_by ''worker-a'' 10 (projector_row ''scope-1'' ''gen-1'' 1)"
proof -
  have claim: "projector_step compare 10 two_pending first_claimed" "projector_step compare 11 first_claimed first_claimed"
    using projector_example_claims(1,2) by (auto intro: projector_step.step_claim)
  have run: "timed_run (projector_step compare) (1, two_pending) (11, first_claimed)"
    using timed_step [OF timed_step [OF timed_refl, of 1 10 "projector_step compare" two_pending first_claimed], of 11 first_claimed] claim
    by simp
  have "projector_holders 1 two_pending = {}"
    by (auto simp: holders_def live_def in_flight_def example_defs)
  then have one: "one_holder (projector_holders 1 two_pending)" by (simp add: one_holder_def)
  have "hd (dd_Items first_claimed) = claimed_by ''worker-a'' 10 (projector_row ''scope-1'' ''gen-1'' 1)"
    by (rule one_projection_per_scope [OF run projector_example_ok(1) one])
      (simp_all add: live_def in_flight_def example_defs)
  with run show ?thesis by (simp add: find_work_def example_defs)
qed

theorem ack_promotes_generation_witness:
  "\<exists>db'. projector_Ack (example_queue ''worker-a'') (example_work ''gen-1'') 20 two_pending = (None, db') \<and> active_matches db'"
  using ack_promotes_generation [of two_pending "example_queue ''worker-a''"
      "example_generation_row ''gen-1'' GenerationStatusPending" "example_work ''gen-1''" 20]
    projector_example_ok(1,3) example_queue_valid [of "''worker-a''"]
  by (auto simp: two_pending_def example_tables_def example_generation_row_def example_work_def scanProjectorWork_def
      example_scope_row_def)

definition newer_active :: DataDb where
  "newer_active = example_tables GenerationStatusSuperseded GenerationStatusActive (Some ''gen-2'')
     [settled_work StatusSucceeded 5 (projector_row ''scope-1'' ''gen-1'' 1),
      settled_work StatusSucceeded 9 (projector_row ''scope-1'' ''gen-2'' 2)]"

theorem late_ack_reinstates_superseded_witness:
  "\<exists>db'. projector_Ack (example_queue ''worker-a'') (example_work ''gen-1'') 20 newer_active = (None, db')
     \<and> list_ex (\<lambda>r. gw_GenerationID r = ''gen-2'' \<and> gw_Status r = GenerationStatusSuperseded) (dd_Generations db')"
proof -
  have ok: "data_ok newer_active"
    by (simp add: data_ok_def constraint_error_def active_scopes_def referenced_active_def scope_ids_def
        generation_ids_def newer_active_def settled_work_def example_defs List.map_filter_simps integer_fits_def)
  have matches: "active_matches newer_active"
    by (auto simp: active_matches_def newer_active_def example_defs)
  have none: "\<not> list_ex (work_held (example_queue ''worker-a'') (example_work ''gen-1'')) (dd_Items newer_active)"
    by (simp add: newer_active_def settled_work_def work_held_def projector_held_def leased_by_def in_flight_def example_defs)
  show ?thesis
    using late_ack_reinstates_superseded [OF ok matches _ _ _ _ _ _ _ _ _ none, of
        "example_generation_row ''gen-1'' GenerationStatusSuperseded" "example_generation_row ''gen-2'' GenerationStatusActive" 20]
      example_queue_valid [of "''worker-a''"]
    by (auto simp: newer_active_def example_tables_def example_generation_row_def example_work_def scanProjectorWork_def
        example_scope_row_def)
qed

theorem overlapping_claims_share_scope_witness:
  "\<exists>r r' db1 db2. projector_Claim compare [] (example_queue ''worker-a'') 11 two_pending two_pending = Inr (r, db1)
     \<and> projector_Claim compare [''projector_scope-1_gen-1''] (example_queue ''worker-b'') 11 two_pending db1 = Inr (r', db2)
     \<and> \<not> one_holder (projector_holders 11 db2)"
  using overlapping_claims_share_scope [OF projector_example_ok(1), of "example_queue ''worker-a''" "example_queue ''worker-b''" compare 11
      "projector_row ''scope-1'' ''gen-1'' 1" "projector_row ''scope-1'' ''gen-2'' 2"]
    example_candidates example_queue_valid
  by (auto simp: projector_row_def projectorWorkItemID_def)

end
