(* ===== verification/ReducerQueue.thy ===== *)
theory ReducerQueue
  imports FactTables ReducerIntent
begin

text \<open>
  \<open>go/internal/storage/postgres/reducer_queue*.go\<close>: the queue of reducer intents over
  \<open>fact_work_items\<close>, with its claim fences, batch operations and replays. Every operation takes
  the instants it reads off the clock. \<open>jsonb\<close> is the cast of text to JSONB (the text the server
  prints for it, or a failure), \<open>collate\<close> the collation that orders text and \<open>locked\<close> the items
  whose rows other transactions hold (\<open>SKIP LOCKED\<close>). A claim's statement has run to its end
  before its rows are read, so a row that cannot be read leaves the claim standing. SQL leaves
  the order of the rows a batch claim returns open; here it is the order of the candidates.
\<close>

section \<open>The queue\<close>

record ReducerQueue =
  rq_HasDatabase :: bool
  rq_LeaseOwner :: string
  rq_LeaseDuration :: duration
  rq_RetryDelay :: duration
  rq_MaxAttempts :: int
  rq_ClaimDomain :: Domain
  rq_RequireProjectorDrainBeforeClaim :: bool
  rq_ExpectedSourceLocalProjectors :: int
  rq_SemanticEntityClaimLimit :: int

text \<open>\<open>projector.ReducerIntent\<close>: what a projection asks the reducers to do.\<close>

record EmittedIntent =
  ri_ScopeID :: string
  ri_GenerationID :: string
  ri_Domain :: Domain
  ri_EntityKey :: string
  ri_Reason :: string
  ri_FactID :: string
  ri_SourceSystem :: string

definition ErrReducerClaimRejected :: error where
  "ErrReducerClaimRejected = Msg ''reducer work claim rejected''"

definition reducerEnqueueBatchSize :: nat where
  "reducerEnqueueBatchSize = 500"

definition NewReducerQueue :: "string \<Rightarrow> duration \<Rightarrow> ReducerQueue" where
  "NewReducerQueue leaseOwner leaseDuration =
     \<lparr>rq_HasDatabase = True, rq_LeaseOwner = leaseOwner, rq_LeaseDuration = leaseDuration, rq_RetryDelay = 0,
      rq_MaxAttempts = 0, rq_ClaimDomain = [], rq_RequireProjectorDrainBeforeClaim = False,
      rq_ExpectedSourceLocalProjectors = 0, rq_SemanticEntityClaimLimit = 0\<rparr>"

definition reducer_validateDB :: "ReducerQueue \<Rightarrow> error option" where
  "reducer_validateDB q = check (\<not> rq_HasDatabase q) (Required ''reducer queue database'')"

definition reducer_validate :: "ReducerQueue \<Rightarrow> error option" where
  "reducer_validate q = first_err
     [check (\<not> rq_HasDatabase q) (Required ''reducer queue database''),
      check (rq_LeaseOwner q = []) (Required ''reducer queue lease owner''),
      check (rq_LeaseDuration q \<le> 0) (NotPositive ''reducer queue lease duration''),
      (if rq_ClaimDomain q \<noteq> [] then Domain_Validate (rq_ClaimDomain q) else None)]"

definition claimDomainFilter :: "ReducerQueue \<Rightarrow> string" where
  "claimDomainFilter q = (if rq_ClaimDomain q = [] then [] else rq_ClaimDomain q)"

definition semanticEntityClaimLimit :: "ReducerQueue \<Rightarrow> int" where
  "semanticEntityClaimLimit q =
     (if \<not> rq_RequireProjectorDrainBeforeClaim q then 0
      else if 0 < rq_SemanticEntityClaimLimit q then rq_SemanticEntityClaimLimit q
      else 1)"

definition reducer_retryDelay :: "ReducerQueue \<Rightarrow> duration" where
  "reducer_retryDelay q = (if 0 < rq_RetryDelay q then rq_RetryDelay q else seconds 30)"

definition reducer_maxAttempts :: "ReducerQueue \<Rightarrow> int" where
  "reducer_maxAttempts q = (if 0 < rq_MaxAttempts q then rq_MaxAttempts q else 3)"

section \<open>Enqueue\<close>

definition reducerConflictDomainKey :: "EmittedIntent \<Rightarrow> string \<times> string" where
  "reducerConflictDomainKey i =
     (let scopeKey = trim_space (ri_ScopeID i) in
      if ri_Domain i \<in> {DomainCodeCallMaterialization, DomainSemanticEntityMaterialization,
           DomainSQLRelationshipMaterialization, DomainInheritanceMaterialization}
      then (''code_graph'', scopeKey)
      else if ri_Domain i \<in> {DomainWorkloadIdentity, DomainDeployableUnitCorrelation, DomainCloudAssetResolution,
           DomainDeploymentMapping, DomainWorkloadMaterialization}
      then (''platform_graph'', scopeKey)
      else (''scope'', scopeKey))"

text \<open>\<open>strings.ReplaceAll(s, ":", "_")\<close>, then \<open>"/"\<close>, and \<open>strings.Join(parts, "_")\<close>.\<close>

definition underscored :: "string \<Rightarrow> string" where
  "underscored s = map (\<lambda>c. if c = CHR ''/'' then CHR ''_'' else c) (map (\<lambda>c. if c = CHR '':'' then CHR ''_'' else c) s)"

fun join_underscore :: "string list \<Rightarrow> string" where
  "join_underscore [] = []"
| "join_underscore [p] = p"
| "join_underscore (p # ps) = p @ ''_'' @ join_underscore ps"

definition reducerWorkItemID :: "EmittedIntent \<Rightarrow> string" where
  "reducerWorkItemID i = ''reducer_'' @ join_underscore
     (map underscored (filter (\<lambda>p. p \<noteq> [])
        (map trim_space [ri_ScopeID i, ri_GenerationID i, ri_Domain i, ri_EntityKey i])))"

definition reducer_payload :: "EmittedIntent \<Rightarrow> payload" where
  "reducer_payload i = [(''entity_key'', JStr (ri_EntityKey i)), (''reason'', JStr (ri_Reason i)),
     (''fact_id'', JStr (ri_FactID i)), (''source_system'', JStr (ri_SourceSystem i))]"

definition reducer_row :: "string \<Rightarrow> time \<Rightarrow> EmittedIntent \<Rightarrow> WorkRow" where
  "reducer_row doc now i =
     \<lparr>wr_WorkItemID = reducerWorkItemID i, wr_ScopeID = ri_ScopeID i, wr_GenerationID = ri_GenerationID i,
      wr_Stage = ''reducer'', wr_Domain = ri_Domain i, wr_ConflictDomain = fst (reducerConflictDomainKey i),
      wr_ConflictKey = Some (snd (reducerConflictDomainKey i)), wr_Status = StatusPending,
      wr_AttemptCount = 0, wr_LeaseOwner = None, wr_ClaimUntil = None, wr_VisibleAt = Some now,
      wr_LastAttemptAt = None, wr_NextAttemptAt = None, wr_FailureClass = None,
      wr_FailureMessage = None, wr_FailureDetails = None, wr_Payload = doc,
      wr_CreatedAt = now, wr_UpdatedAt = now\<rparr>"

text \<open>\<open>None\<close> when the cast of some payload fails.\<close>

fun reducer_rows :: "(string \<Rightarrow> string option) \<Rightarrow> time \<Rightarrow> EmittedIntent list \<Rightarrow> WorkRow list option" where
  "reducer_rows jsonb now [] = Some []"
| "reducer_rows jsonb now (i # is) =
     (case jsonb (marshalPayload (reducer_payload i)) of
        None \<Rightarrow> None
      | Some doc \<Rightarrow> map_option ((#) (reducer_row doc now i)) (reducer_rows jsonb now is))"

definition enqueueReducerBatch ::
  "(string \<Rightarrow> string option) \<Rightarrow> time \<Rightarrow> EmittedIntent list \<Rightarrow> DataDb \<Rightarrow> error option \<times> DataDb" where
  "enqueueReducerBatch jsonb now batch db =
     (if batch = [] then (None, db)
      else
        (case reducer_rows jsonb now batch of
           None \<Rightarrow> (Some (Wrap ''enqueue reducer batch'' (Msg ''invalid input syntax for type json'')), db)
         | Some rows \<Rightarrow>
             (case statement (db\<lparr>dd_Items := fold (insert_row wr_WorkItemID) rows (dd_Items db)\<rparr>) db of
                (Some e, db') \<Rightarrow> (Some (Wrap ''enqueue reducer batch'' e), db')
              | (None, db') \<Rightarrow> (None, db'))))"

text \<open>The count is the number of intents handed in, or 0 with an error.\<close>

definition reducer_Enqueue ::
  "(string \<Rightarrow> string option) \<Rightarrow> ReducerQueue \<Rightarrow> EmittedIntent list \<Rightarrow> time \<Rightarrow> DataDb \<Rightarrow> nat result \<times> DataDb" where
  "reducer_Enqueue jsonb q intents now db =
     (case reducer_validate q of Some e \<Rightarrow> (Inl e, db)
      | None \<Rightarrow>
          if intents = [] then (Inr 0, db)
          else
            (case first_err (map (\<lambda>i. Domain_Validate (ri_Domain i)) intents) of
               Some e \<Rightarrow> (Inl (Wrap ''enqueue reducer intent'' e), db)
             | None \<Rightarrow>
                 (case exec_batches reducerEnqueueBatchSize (enqueueReducerBatch jsonb now) intents db of
                    (Some e, db') \<Rightarrow> (Inl e, db')
                  | (None, db') \<Rightarrow> (Inr (length intents), db'))))"

section \<open>What may be claimed\<close>

abbreviation reducer_stage :: "WorkRow \<Rightarrow> bool" where
  "reducer_stage w \<equiv> wr_Stage w = ''reducer''"

definition semantic :: "WorkRow \<Rightarrow> bool" where
  "semantic w \<longleftrightarrow> wr_Domain w = ''semantic_entity_materialization''"

definition source_local :: "WorkRow \<Rightarrow> bool" where
  "source_local w \<longleftrightarrow> wr_Stage w = ''projector'' \<and> wr_Domain w = ''source_local''"

definition conflict_of :: "WorkRow \<Rightarrow> string \<times> string" where
  "conflict_of w = (wr_ConflictDomain w, case wr_ConflictKey w of Some k \<Rightarrow> k | None \<Rightarrow> wr_ScopeID w)"

text \<open>Ready and of the domain the queue asks for.\<close>

definition reducer_ready :: "time \<Rightarrow> string \<Rightarrow> WorkRow \<Rightarrow> bool" where
  "reducer_ready now domain w \<longleftrightarrow> reducer_stage w \<and> ready now w \<and> (domain = [] \<or> wr_Domain w = domain)"

text \<open>The number of other semantic items (\<open>except\<close> apart) under a live lease.\<close>

definition semantic_inflight :: "time \<Rightarrow> string option \<Rightarrow> DataDb \<Rightarrow> nat" where
  "semantic_inflight now except db =
     count_work (\<lambda>s. reducer_stage s \<and> semantic s \<and> except \<noteq> Some (wr_WorkItemID s) \<and> live now s) db"

text \<open>The gates of a queue that waits for the projections to drain.\<close>

definition drain_gate :: "ReducerQueue \<Rightarrow> time \<Rightarrow> DataDb \<Rightarrow> WorkRow \<Rightarrow> bool" where
  "drain_gate q now db w \<longleftrightarrow>
     (let off = \<not> rq_RequireProjectorDrainBeforeClaim q; expected = rq_ExpectedSourceLocalProjectors q in
      (off \<or> \<not> list_ex (\<lambda>p. wr_Stage p = ''projector'' \<and> wr_ScopeID p = wr_ScopeID w \<and> open_status (wr_Status p)) (dd_Items db))
      \<and> (off \<or> \<not> semantic w \<or> \<not> list_ex (\<lambda>p. source_local p \<and> open_status (wr_Status p)) (dd_Items db))
      \<and> (off \<or> \<not> semantic w \<or> expected \<le> 0
           \<or> expected \<le> int (count_work (\<lambda>p. source_local p \<and> wr_Status p = StatusSucceeded) db))
      \<and> (off \<or> \<not> semantic w \<or> int (semantic_inflight now (Some (wr_WorkItemID w)) db) < semanticEntityClaimLimit q))"

text \<open>No other reducer item with the same conflict key is under a live lease.\<close>

definition unfenced :: "time \<Rightarrow> DataDb \<Rightarrow> WorkRow \<Rightarrow> bool" where
  "unfenced now db w \<longleftrightarrow> \<not> list_ex (\<lambda>i. reducer_stage i \<and> conflict_of i = conflict_of w
     \<and> wr_WorkItemID i \<noteq> wr_WorkItemID w \<and> live now i) (dd_Items db)"

definition reducer_claimable :: "ReducerQueue \<Rightarrow> time \<Rightarrow> DataDb \<Rightarrow> WorkRow \<Rightarrow> bool" where
  "reducer_claimable q now db w \<longleftrightarrow> reducer_ready now (claimDomainFilter q) w \<and> drain_gate q now db w \<and> unfenced now db w"

text \<open>
  What a batch asks for besides: a semantic item ranks among the first ready ones that the limit
  leaves room for, and an item is the first ready one of its conflict key.
\<close>

definition semantic_rank :: "(string \<Rightarrow> string \<Rightarrow> int) \<Rightarrow> time \<Rightarrow> DataDb \<Rightarrow> WorkRow \<Rightarrow> nat" where
  "semantic_rank collate now db w =
     count_work (\<lambda>s. reducer_stage s \<and> semantic s \<and> ready now s
       \<and> (wr_UpdatedAt s < wr_UpdatedAt w \<or> wr_UpdatedAt s = wr_UpdatedAt w \<and> collate (wr_WorkItemID s) (wr_WorkItemID w) \<le> 0)) db"

definition semantic_room :: "(string \<Rightarrow> string \<Rightarrow> int) \<Rightarrow> ReducerQueue \<Rightarrow> time \<Rightarrow> DataDb \<Rightarrow> WorkRow \<Rightarrow> bool" where
  "semantic_room collate q now db w \<longleftrightarrow> \<not> rq_RequireProjectorDrainBeforeClaim q \<or> \<not> semantic w
     \<or> int (semantic_rank collate now db w) \<le> semanticEntityClaimLimit q - int (semantic_inflight now None db)"

definition first_of_key :: "(string \<Rightarrow> string \<Rightarrow> int) \<Rightarrow> ReducerQueue \<Rightarrow> time \<Rightarrow> DataDb \<Rightarrow> WorkRow \<Rightarrow> bool" where
  "first_of_key collate q now db w \<longleftrightarrow>
     (case sort_by (cmp_work collate)
         (filter (\<lambda>s. conflict_of s = conflict_of w \<and> reducer_ready now (claimDomainFilter q) s) (dd_Items db)) of
        [] \<Rightarrow> False
      | s # _ \<Rightarrow> wr_WorkItemID w = wr_WorkItemID s)"

definition claim_candidates ::
  "(string \<Rightarrow> string \<Rightarrow> int) \<Rightarrow> string list \<Rightarrow> nat \<Rightarrow> (WorkRow \<Rightarrow> bool) \<Rightarrow> DataDb \<Rightarrow> WorkRow list" where
  "claim_candidates collate locked limit P db =
     take limit (sort_by (cmp_work collate) (filter (\<lambda>w. P w \<and> wr_WorkItemID w \<notin> set locked) (dd_Items db)))"

definition batch_claimable :: "(string \<Rightarrow> string \<Rightarrow> int) \<Rightarrow> ReducerQueue \<Rightarrow> time \<Rightarrow> DataDb \<Rightarrow> WorkRow \<Rightarrow> bool" where
  "batch_claimable collate q now db w \<longleftrightarrow> reducer_claimable q now db w \<and> semantic_room collate q now db w
     \<and> first_of_key collate q now db w"

section \<open>Claim\<close>

definition payload_text :: "string \<Rightarrow> payload option \<Rightarrow> string" where
  "payload_text k p = (case map_of (case p of Some m \<Rightarrow> m | None \<Rightarrow> []) k of Some (JStr s) \<Rightarrow> s | _ \<Rightarrow> [])"

definition scanReducerIntent :: "WorkRow \<Rightarrow> Intent result" where
  "scanReducerIntent w =
     (case unmarshalPayload (wr_Payload w) of
        Inl e \<Rightarrow> Inl e
      | Inr payload \<Rightarrow>
          (case ParseDomain (wr_Domain w) of
             Inl e \<Rightarrow> Inl e
           | Inr domain \<Rightarrow>
               (let entityKey = payload_text ''entity_key'' payload; reason = payload_text ''reason'' payload;
                    factID = payload_text ''fact_id'' payload; sourceSystem = payload_text ''source_system'' payload;
                    intent = \<lparr>in_IntentID = wr_WorkItemID w, in_ScopeID = wr_ScopeID w, in_GenerationID = wr_GenerationID w,
                      in_SourceSystem = (if sourceSystem = [] then ''unknown'' else sourceSystem),
                      in_Domain = domain,
                      in_Cause = (if reason = [] then ''projector emitted shared work'' else reason),
                      in_Priority = 0, in_AttemptCount = wr_AttemptCount w,
                      in_EntityKeys = (if entityKey \<noteq> [] then [entityKey] else if factID \<noteq> [] then [factID] else []),
                      in_RelatedScopeIDs = [wr_ScopeID w], in_Status = IntentStatusClaimed,
                      in_EnqueuedAt = utc (wr_CreatedAt w),
                      in_AvailableAt = utc (case wr_VisibleAt w of Some t \<Rightarrow> t | None \<Rightarrow> wr_CreatedAt w),
                      in_ClaimedAt = None, in_CompletedAt = None, in_Failure = None\<rparr>
                in checked (Intent_Validate intent) (Inr intent))))"

text \<open>The rows in order, up to the first that cannot be read.\<close>

fun scan_intents :: "WorkRow list \<Rightarrow> Intent list result" where
  "scan_intents [] = Inr []"
| "scan_intents (w # ws) =
     (case scanReducerIntent w of
        Inl e \<Rightarrow> Inl (Wrap ''batch claim scan'' e)
      | Inr i \<Rightarrow> (case scan_intents ws of Inl e \<Rightarrow> Inl e | Inr is \<Rightarrow> Inr (i # is)))"

definition claim_update :: "time \<Rightarrow> ReducerQueue \<Rightarrow> WorkRow list \<Rightarrow> DataDb \<Rightarrow> DataDb" where
  "claim_update now q ws = update_work (\<lambda>v. wr_WorkItemID v \<in> set (map wr_WorkItemID ws))
     (claimed_work now (rq_LeaseOwner q) (now + rq_LeaseDuration q))"

definition claimed_rows :: "time \<Rightarrow> ReducerQueue \<Rightarrow> WorkRow list \<Rightarrow> WorkRow list" where
  "claimed_rows now q ws = map (claimed_work now (rq_LeaseOwner q) (now + rq_LeaseDuration q)) ws"

definition reducer_Claim ::
  "(string \<Rightarrow> string \<Rightarrow> int) \<Rightarrow> string list \<Rightarrow> ReducerQueue \<Rightarrow> time \<Rightarrow> DataDb \<Rightarrow> Intent option result \<times> DataDb" where
  "reducer_Claim collate locked q now db =
     (case reducer_validate q of Some e \<Rightarrow> (Inl e, db)
      | None \<Rightarrow>
          (let ws = claim_candidates collate locked 1 (reducer_claimable q now db) db in
           case statement (claim_update now q ws db) db of
             (Some e, db') \<Rightarrow> (Inl (Wrap ''claim reducer work'' e), db')
           | (None, db') \<Rightarrow>
               (case claimed_rows now q ws of
                  [] \<Rightarrow> (Inr None, db')
                | w # _ \<Rightarrow>
                    (case scanReducerIntent w of
                       Inl e \<Rightarrow> (Inl (Wrap ''claim reducer work'' e), db')
                     | Inr i \<Rightarrow> (Inr (Some i), db')))))"

definition ClaimBatch ::
  "(string \<Rightarrow> string \<Rightarrow> int) \<Rightarrow> string list \<Rightarrow> ReducerQueue \<Rightarrow> int \<Rightarrow> time \<Rightarrow> DataDb \<Rightarrow> Intent list result \<times> DataDb" where
  "ClaimBatch collate locked q limit now db =
     (case reducer_validate q of Some e \<Rightarrow> (Inl e, db)
      | None \<Rightarrow>
          (let n = (if limit \<le> 0 then 16 else limit);
               ws = claim_candidates collate locked (nat n) (batch_claimable collate q now db) db in
           case statement (claim_update now q ws db) db of
             (Some e, db') \<Rightarrow> (Inl (Wrap ''batch claim reducer work'' e), db')
           | (None, db') \<Rightarrow> (scan_intents (claimed_rows now q ws), db')))"


section \<open>Heartbeat, ack and fail\<close>

definition reducer_held :: "string \<Rightarrow> string \<Rightarrow> WorkRow \<Rightarrow> bool" where
  "reducer_held owner i w \<longleftrightarrow> wr_WorkItemID w = i \<and> reducer_stage w \<and> leased_by owner w"

definition extended_work :: "time \<Rightarrow> time \<Rightarrow> WorkRow \<Rightarrow> WorkRow" where
  "extended_work until now w = w\<lparr>wr_ClaimUntil := Some until, wr_UpdatedAt := now\<rparr>"

text \<open>One statement, with what the caller makes of its error.\<close>

definition run_update :: "string \<Rightarrow> (DataDb \<Rightarrow> DataDb) \<Rightarrow> DataDb \<Rightarrow> error option \<times> DataDb" where
  "run_update op f db =
     (case statement (f db) db of
        (Some e, db') \<Rightarrow> (Some (Wrap op e), db')
      | (None, db') \<Rightarrow> (None, db'))"

definition reducer_Heartbeat :: "ReducerQueue \<Rightarrow> Intent \<Rightarrow> time \<Rightarrow> DataDb \<Rightarrow> error option \<times> DataDb" where
  "reducer_Heartbeat q intent now db =
     (case reducer_validate q of Some e \<Rightarrow> (Some e, db)
      | None \<Rightarrow>
          (let held = reducer_held (rq_LeaseOwner q) (in_IntentID intent) in
           case run_update ''heartbeat reducer work'' (update_work held (extended_work (now + rq_LeaseDuration q) now)) db of
             (Some e, db') \<Rightarrow> (Some e, db')
           | (None, db') \<Rightarrow> (check (count_work held db = 0) ErrReducerClaimRejected, db')))"

definition reducer_Ack :: "ReducerQueue \<Rightarrow> Intent \<Rightarrow> time \<Rightarrow> DataDb \<Rightarrow> error option \<times> DataDb" where
  "reducer_Ack q intent now db =
     (case reducer_validate q of Some e \<Rightarrow> (Some e, db)
      | None \<Rightarrow> run_update ''ack reducer work''
          (update_work (reducer_held (rq_LeaseOwner q) (in_IntentID intent)) (settled_work StatusSucceeded now)) db)"

definition reducer_retryable :: "ReducerQueue \<Rightarrow> Cause \<Rightarrow> int \<Rightarrow> bool" where
  "reducer_retryable q cause attemptCount \<longleftrightarrow> cause_Retryable cause \<and> attemptCount < reducer_maxAttempts q"

definition reducer_failed :: "ReducerQueue \<Rightarrow> Intent \<Rightarrow> Cause \<Rightarrow> time \<Rightarrow> WorkRow \<Rightarrow> WorkRow" where
  "reducer_failed q intent cause now =
     (let failure = queueFailureMetadata cause ''reducer_failed'' in
      if reducer_retryable q cause (in_AttemptCount intent)
      then retried_work now (now + reducer_retryDelay q) (''reducer_retryable'', snd failure)
      else failed_work StatusDeadLetter now failure)"

definition failIntent :: "ReducerQueue \<Rightarrow> Intent \<Rightarrow> Cause \<Rightarrow> time \<Rightarrow> DataDb \<Rightarrow> error option \<times> DataDb" where
  "failIntent q intent cause now = run_update ''fail reducer work''
     (update_work (reducer_held (rq_LeaseOwner q) (in_IntentID intent)) (reducer_failed q intent cause now))"

definition reducer_Fail :: "ReducerQueue \<Rightarrow> Intent \<Rightarrow> Cause option \<Rightarrow> time \<Rightarrow> DataDb \<Rightarrow> error option \<times> DataDb" where
  "reducer_Fail q intent cause now db =
     (case reducer_validate q of Some e \<Rightarrow> (Some e, db)
      | None \<Rightarrow>
          (case cause of
             None \<Rightarrow> (Some (Required ''reducer failure cause''), db)
           | Some c \<Rightarrow> failIntent q intent c now db))"

definition AckBatch :: "ReducerQueue \<Rightarrow> Intent list \<Rightarrow> time \<Rightarrow> DataDb \<Rightarrow> error option \<times> DataDb" where
  "AckBatch q intents now db =
     (case reducer_validate q of Some e \<Rightarrow> (Some e, db)
      | None \<Rightarrow>
          if intents = [] then (None, db)
          else run_update ''batch ack reducer work''
            (update_work (\<lambda>w. wr_WorkItemID w \<in> set (map in_IntentID intents) \<and> reducer_stage w \<and> leased_by (rq_LeaseOwner q) w)
               (settled_work StatusSucceeded now)) db)"

text \<open>\<open>causes[i]\<close> panics (\<open>None\<close>) when there are fewer causes than intents; all items fail at one reading of the clock here.\<close>

fun fail_each :: "ReducerQueue \<Rightarrow> (Intent \<times> Cause option option) list \<Rightarrow> time \<Rightarrow> DataDb \<Rightarrow> (error option \<times> DataDb) option" where
  "fail_each q [] now db = Some (None, db)"
| "fail_each q ((intent, None) # rest) now db = None"
| "fail_each q ((intent, Some None) # rest) now db = fail_each q rest now db"
| "fail_each q ((intent, Some (Some c)) # rest) now db =
     (case failIntent q intent c now db of
        (Some e, db') \<Rightarrow> Some (Some (Wrap ''batch fail item'' e), db')
      | (None, db') \<Rightarrow> fail_each q rest now db')"

definition FailBatch :: "ReducerQueue \<Rightarrow> Intent list \<Rightarrow> Cause option list \<Rightarrow> time \<Rightarrow> DataDb \<Rightarrow> (error option \<times> DataDb) option" where
  "FailBatch q intents causes now db =
     (case reducer_validate q of Some e \<Rightarrow> Some (Some e, db)
      | None \<Rightarrow>
          if intents = [] then Some (None, db)
          else fail_each q (zip intents (map Some causes @ replicate (length intents) None)) now db)"

section \<open>Replay\<close>

definition reopen :: "string \<Rightarrow> (WorkRow \<Rightarrow> bool) \<Rightarrow> time \<Rightarrow> DataDb \<Rightarrow> bool result \<times> DataDb" where
  "reopen op P now db =
     (let succeeded = (\<lambda>w. P w \<and> reducer_stage w \<and> wr_Status w = StatusSucceeded) in
      case run_update op (update_work succeeded (pending_again now)) db of
        (Some e, db') \<Rightarrow> (Inl e, db')
      | (None, db') \<Rightarrow> (Inr (0 < count_work succeeded db), db'))"

definition ReopenSucceeded :: "ReducerQueue \<Rightarrow> string \<Rightarrow> time \<Rightarrow> DataDb \<Rightarrow> bool result \<times> DataDb" where
  "ReopenSucceeded q workItemID now db =
     (case first_err [reducer_validateDB q, check (blank workItemID) (Required ''reducer work item id'')] of
        Some e \<Rightarrow> (Inl e, db)
      | None \<Rightarrow> reopen ''reopen succeeded reducer work'' (\<lambda>w. wr_WorkItemID w = workItemID) now db)"

definition ReplayDomain :: "ReducerQueue \<Rightarrow> string \<Rightarrow> string \<Rightarrow> Domain \<Rightarrow> time \<Rightarrow> DataDb \<Rightarrow> bool result \<times> DataDb" where
  "ReplayDomain q scopeID generationID domain now db =
     (case first_err
        [reducer_validateDB q, check (blank scopeID) (Required ''reducer replay scope id''),
         check (blank generationID) (Required ''reducer replay generation id''),
         map_option (Wrap ''reducer replay domain'') (Domain_Validate domain)] of
        Some e \<Rightarrow> (Inl e, db)
      | None \<Rightarrow> reopen ''replay succeeded reducer domain''
          (\<lambda>w. wr_ScopeID w = scopeID \<and> wr_GenerationID w = generationID \<and> wr_Domain w = domain) now db)"

definition replay_intent :: "string \<Rightarrow> string \<Rightarrow> string \<Rightarrow> EmittedIntent" where
  "replay_intent scopeID generationID entityKey =
     \<lparr>ri_ScopeID = scopeID, ri_GenerationID = generationID, ri_Domain = DomainWorkloadMaterialization,
      ri_EntityKey = entityKey, ri_Reason = ''deployment mapping resolved stronger evidence'', ri_FactID = [],
      ri_SourceSystem = ''reducer''\<rparr>"

text \<open>The clock is read once for the reopening and once for the insert.\<close>

definition ReplayWorkloadMaterialization ::
  "(string \<Rightarrow> string option) \<Rightarrow> ReducerQueue \<Rightarrow> string \<Rightarrow> string \<Rightarrow> string \<Rightarrow> time \<Rightarrow> time \<Rightarrow> DataDb \<Rightarrow> bool result \<times> DataDb" where
  "ReplayWorkloadMaterialization jsonb q scopeID generationID entityKey now later db =
     (case first_err [reducer_validate q, check (blank entityKey) (Required ''workload materialization replay entity key'')] of
        Some e \<Rightarrow> (Inl e, db)
      | None \<Rightarrow>
          (let intent = replay_intent scopeID generationID entityKey in
           case ReopenSucceeded q (reducerWorkItemID intent) now db of
             (Inl e, db') \<Rightarrow> (Inl (Wrap ''schedule workload materialization replay'' e), db')
           | (Inr True, db') \<Rightarrow> (Inr True, db')
           | (Inr False, db') \<Rightarrow>
               (case enqueueReducerBatch jsonb later [intent] db' of
                  (Some e, db'') \<Rightarrow> (Inl (Wrap ''schedule workload materialization replay'' e), db'')
                | (None, db'') \<Rightarrow> (Inr True, db''))))"

definition CountInFlightByDomain :: "ReducerQueue \<Rightarrow> Domain \<Rightarrow> DataDb \<Rightarrow> nat result" where
  "CountInFlightByDomain q domain db = checked
     (first_err [reducer_validateDB q, map_option (Wrap ''count in-flight reducer work'') (Domain_Validate domain)])
     (Inr (count_work (\<lambda>w. reducer_stage w \<and> wr_Domain w = domain
        \<and> wr_Status w \<notin> {StatusSucceeded, StatusDeadLetter}) db))"

section \<open>The tables stay well formed\<close>

lemma extended_work_keys [simp]: "keeps_work_keys (extended_work until now)"
  by (simp add: keeps_work_keys_def extended_work_def)

lemma reducer_failed_keys [simp]: "keeps_work_keys (reducer_failed q intent cause now)"
  by (simp add: reducer_failed_def Let_def)

lemma run_update_ok: "run_update op f db = (e, db') \<Longrightarrow> keeps_ids f \<Longrightarrow> data_ok db \<Longrightarrow> data_ok db'"
  using keeps_ids_statement [of f db] by (auto simp: run_update_def split: prod.splits option.splits)

lemma enqueueReducerBatch_ok:
  assumes "enqueueReducerBatch jsonb now batch db = (e, db')" and "data_ok db"
  shows "data_ok db'"
proof (cases "batch = [] \<or> reducer_rows jsonb now batch = None")
  case True
  with assms show ?thesis by (auto simp: enqueueReducerBatch_def split: if_splits)
next
  case False
  then obtain rows where rows: "reducer_rows jsonb now batch = Some rows" and "batch \<noteq> []" by auto
  let ?new = "db\<lparr>dd_Items := fold (insert_row wr_WorkItemID) rows (dd_Items db)\<rparr>"
  obtain f d where d: "statement ?new db = (f, d)" by (metis surj_pair)
  have "distinct (map wr_WorkItemID (dd_Items ?new))"
    using insert_rows_distinct [OF data_ok_ids(3) [OF assms(2)]] by simp
  then have "data_ok d"
    using data_ok_ids [OF assms(2)] by (intro statement_data_ok [OF d assms(2)]) (simp_all add: scope_ids_def generation_ids_def)
  with assms rows d \<open>batch \<noteq> []\<close> show ?thesis
    by (auto simp: enqueueReducerBatch_def split: option.splits)
qed


lemma exec_enqueue_ok:
  "exec_batches n (enqueueReducerBatch jsonb now) intents db = (e, db') \<Longrightarrow> data_ok db \<Longrightarrow> data_ok db'"
  by (rule exec_batches_invariant [where P = data_ok]) (rule enqueueReducerBatch_ok)

lemma claim_update_keeps_ids [simp]: "keeps_ids (claim_update now q ws)"
  by (simp add: claim_update_def)

lemma fail_each_ok: "fail_each q pairs now db = Some (e, db') \<Longrightarrow> data_ok db \<Longrightarrow> data_ok db'"
proof (induction q pairs now db rule: fail_each.induct)
  case (4 q intent c rest now db)
  obtain f d where d: "failIntent q intent c now db = (f, d)" by (metis surj_pair)
  have "data_ok d"
    using run_update_ok [OF d [unfolded failIntent_def] _ "4.prems"(2)] by simp
  with "4.prems" "4.IH" d show ?case by (cases f) auto
qed auto

lemma reopen_tables:
  assumes "reopen op P now db = (r, db')"
  shows "db' = db \<or> db' = update_work (\<lambda>w. P w \<and> reducer_stage w \<and> wr_Status w = StatusSucceeded) (pending_again now) db"
  using assms by (auto simp: reopen_def Let_def run_update_def statement_def split: option.splits)

lemma reopen_ok: "reopen op P now db = (r, db') \<Longrightarrow> data_ok db \<Longrightarrow> data_ok db'"
proof -
  assume r: "reopen op P now db = (r, db')" and ok: "data_ok db"
  have "data_ok (update_work (\<lambda>w. P w \<and> reducer_stage w \<and> wr_Status w = StatusSucceeded) (pending_again now) db)"
    by (rule update_work_ok [OF ok]) (simp_all add: integer_fits_def)
  with reopen_tables [OF r] ok show "data_ok db'" by auto
qed

section \<open>One live claim per conflict key\<close>

text \<open>
  The statements of any number of reducer queues, one at a time, each at an instant of the clock.
  A replay of workload materialization is its reopening and its enqueue, one after the other.
\<close>

inductive reducer_step :: "(string \<Rightarrow> string \<Rightarrow> int) \<Rightarrow> time \<Rightarrow> DataDb \<Rightarrow> DataDb \<Rightarrow> bool"
  for collate :: "string \<Rightarrow> string \<Rightarrow> int" where
  step_enqueue_batch: "enqueueReducerBatch jsonb now' batch db = (e, db') \<Longrightarrow> reducer_step collate now db db'"
| step_claim: "reducer_Claim collate locked q now db = (r, db') \<Longrightarrow> reducer_step collate now db db'"
| step_claim_batch: "ClaimBatch collate locked q limit now db = (rs, db') \<Longrightarrow> reducer_step collate now db db'"
| step_heartbeat: "reducer_Heartbeat q intent now db = (e, db')
     \<Longrightarrow> list_all (live now) (filter (reducer_held (rq_LeaseOwner q) (in_IntentID intent)) (dd_Items db))
     \<Longrightarrow> reducer_step collate now db db'"
| step_ack: "reducer_Ack q intent now db = (e, db') \<Longrightarrow> reducer_step collate now db db'"
| step_ack_batch: "AckBatch q intents now db = (e, db') \<Longrightarrow> reducer_step collate now db db'"
| step_fail: "reducer_Fail q intent cause now db = (e, db') \<Longrightarrow> reducer_step collate now db db'"
| step_fail_batch: "FailBatch q intents causes now db = Some (e, db') \<Longrightarrow> reducer_step collate now db db'"
| step_reopen: "ReopenSucceeded q i now db = (r, db') \<Longrightarrow> reducer_step collate now db db'"
| step_replay: "ReplayDomain q s g d now db = (r, db') \<Longrightarrow> reducer_step collate now db db'"

abbreviation reducer_holders :: "time \<Rightarrow> DataDb \<Rightarrow> ((string \<times> string) \<times> string) set" where
  "reducer_holders \<equiv> holders ''reducer'' conflict_of"

lemma keeps_conflict:
  "keeps_work_keys f \<Longrightarrow> wr_WorkItemID (f w) = wr_WorkItemID w \<and> wr_Stage (f w) = wr_Stage w \<and> conflict_of (f w) = conflict_of w"
  by (simp add: keeps_work_keys_def conflict_of_def split: option.split)

lemma queue_candidates_mem:
  assumes "w \<in> set (claim_candidates collate locked n P db)"
  shows "w \<in> set (dd_Items db)" and "P w"
  using assms by (auto simp: claim_candidates_def dest: in_set_takeD)

lemma claim_update_holders:
  assumes ok: "data_ok db" and one: "one_holder (reducer_holders now db)"
    and ws: "set ws \<subseteq> set (dd_Items db)" and free: "\<And>w. w \<in> set ws \<Longrightarrow> reducer_claimable q now db w"
    and keys: "\<And>v w. v \<in> set ws \<Longrightarrow> w \<in> set ws \<Longrightarrow> conflict_of v = conflict_of w \<Longrightarrow> wr_WorkItemID v = wr_WorkItemID w"
  shows "one_holder (reducer_holders now (claim_update now q ws db))"
proof -
  let ?H = "reducer_holders now db" and ?W = "(\<lambda>w. (conflict_of w, wr_WorkItemID w)) ` set ws"
  have "reducer_holders now (claim_update now q ws db) \<subseteq> ?H \<union> ?W"
  proof
    fix x assume x: "x \<in> reducer_holders now (claim_update now q ws db)"
    have "x \<in> ?H \<union> {(conflict_of w, wr_WorkItemID w) | w. w \<in> set (dd_Items db) \<and> wr_Stage w = ''reducer''
        \<and> wr_WorkItemID w \<in> set (map wr_WorkItemID ws) \<and> live now (claimed_work now (rq_LeaseOwner q) (now + rq_LeaseDuration q) w)}"
      using x unfolding claim_update_def by (rule holders_update [THEN subsetD, rotated]) (rule keeps_conflict, simp)
    moreover have "w \<in> set ws" if "w \<in> set (dd_Items db)" "wr_WorkItemID w \<in> set (map wr_WorkItemID ws)" for w
      using that ws work_unique [OF ok, of w] by auto
    ultimately show "x \<in> ?H \<union> ?W" by auto
  qed
  moreover have "one_holder (?H \<union> ?W)"
    unfolding one_holder_def
  proof (intro allI impI)
    have fence: "j = wr_WorkItemID w" if "w \<in> set ws" "(conflict_of w, j) \<in> ?H" for w j
      using that(2) free [OF that(1)] by (elim holdersE) (auto simp: reducer_claimable_def unfenced_def list_ex_iff)
    have in_W: "\<exists>w \<in> set ws. k = conflict_of w \<and> j = wr_WorkItemID w" if "(k, j) \<in> ?W" for k j
      using that by auto
    fix k i j assume ij: "(k, i) \<in> ?H \<union> ?W" "(k, j) \<in> ?H \<union> ?W"
    show "i = j"
    proof (cases "(k, i) \<in> ?H")
      case True
      show ?thesis
      proof (cases "(k, j) \<in> ?H")
        case False
        with ij(2) obtain w where "w \<in> set ws" "k = conflict_of w" "j = wr_WorkItemID w" using in_W by blast
        with fence True show ?thesis by blast
      qed (use one True in \<open>unfold one_holder_def, blast\<close>)
    next
      case False
      with ij(1) obtain v where v: "v \<in> set ws" "k = conflict_of v" "i = wr_WorkItemID v" using in_W by blast
      show ?thesis
      proof (cases "(k, j) \<in> ?H")
        case True
        with fence v show ?thesis by blast
      next
        case False
        with ij(2) obtain w where w: "w \<in> set ws" "k = conflict_of w" "j = wr_WorkItemID w" using in_W by blast
        from v(2) w(2) have "conflict_of v = conflict_of w" by (rule subst)
        from keys [OF v(1) w(1) this] show ?thesis unfolding v(3) w(3) .
      qed
    qed
  qed
  ultimately show ?thesis by (rule one_holder_subset [rotated])
qed


lemma first_of_key_unique:
  "first_of_key collate q now db v \<Longrightarrow> first_of_key collate q now db w \<Longrightarrow> conflict_of v = conflict_of w
     \<Longrightarrow> wr_WorkItemID v = wr_WorkItemID w"
  by (auto simp: first_of_key_def split: list.splits)

lemma statement_tables: "statement new db = (e, db') \<Longrightarrow> db' = new \<or> db' = db"
  by (auto simp: statement_def split: option.splits)

lemma Claim_tables:
  assumes "reducer_Claim collate locked q now db = (r, db')"
  shows "db' = db \<or> db' = claim_update now q (claim_candidates collate locked 1 (reducer_claimable q now db) db) db"
proof -
  let ?ws = "claim_candidates collate locked 1 (reducer_claimable q now db) db"
  obtain e d where d: "statement (claim_update now q ?ws db) db = (e, d)" by (metis surj_pair)
  with assms have "db' = d \<or> db' = db"
    by (auto simp: reducer_Claim_def Let_def split: option.splits list.splits sum.splits)
  with statement_tables [OF d] show ?thesis by blast
qed

lemma ClaimBatch_tables:
  assumes "ClaimBatch collate locked q limit now db = (r, db')"
  shows "\<exists>n. db' = db \<or> db' = claim_update now q (claim_candidates collate locked n (batch_claimable collate q now db) db) db"
proof -
  let ?ws = "claim_candidates collate locked (nat (if limit \<le> 0 then 16 else limit)) (batch_claimable collate q now db) db"
  obtain e d where d: "statement (claim_update now q ?ws db) db = (e, d)" by (metis surj_pair)
  with assms have "db' = d \<or> db' = db"
    by (auto simp: ClaimBatch_def Let_def split: option.splits)
  with statement_tables [OF d] show ?thesis by blast
qed

lemma Claim_ok: "reducer_Claim collate locked q now db = (r, db') \<Longrightarrow> data_ok db \<Longrightarrow> data_ok db'"
  unfolding reducer_Claim_def Let_def
  using keeps_ids_statement [OF claim_update_keeps_ids]
  by (auto split: option.splits prod.splits list.splits sum.splits)

lemma ClaimBatch_ok: "ClaimBatch collate locked q limit now db = (r, db') \<Longrightarrow> data_ok db \<Longrightarrow> data_ok db'"
  unfolding ClaimBatch_def Let_def
  using keeps_ids_statement [OF claim_update_keeps_ids]
  by (auto split: option.splits prod.splits)

lemma Claim_exclusive:
  assumes "reducer_Claim collate locked q now db = (r, db')" and "data_ok db" and "one_holder (reducer_holders now db)"
  shows "one_holder (reducer_holders now db')"
proof -
  let ?ws = "claim_candidates collate locked 1 (reducer_claimable q now db) db"
  have "one_holder (reducer_holders now (claim_update now q ?ws db))"
  proof (rule claim_update_holders [OF assms(2,3)])
    fix v w assume "v \<in> set ?ws" "w \<in> set ?ws"
    moreover have "length ?ws \<le> 1" by (simp add: claim_candidates_def)
    ultimately have "v = w" by (cases ?ws) auto
    then show "wr_WorkItemID v = wr_WorkItemID w" by simp
  qed (auto dest: queue_candidates_mem)
  with Claim_tables [OF assms(1)] assms(3) show ?thesis by auto
qed

lemma ClaimBatch_exclusive:
  assumes "ClaimBatch collate locked q limit now db = (r, db')" and "data_ok db" and "one_holder (reducer_holders now db)"
  shows "one_holder (reducer_holders now db')"
proof -
  have "one_holder (reducer_holders now (claim_update now q (claim_candidates collate locked n (batch_claimable collate q now db) db) db))" for n
  proof (rule claim_update_holders [OF assms(2,3)])
    fix v w let ?ws = "claim_candidates collate locked n (batch_claimable collate q now db) db"
    assume v: "v \<in> set ?ws" and w: "w \<in> set ?ws" and same: "conflict_of v = conflict_of w"
    have "first_of_key collate q now db v" "first_of_key collate q now db w"
      using queue_candidates_mem(2) [OF v] queue_candidates_mem(2) [OF w] by (simp_all add: batch_claimable_def)
    then show "wr_WorkItemID v = wr_WorkItemID w" using same by (rule first_of_key_unique)
  qed (auto simp: batch_claimable_def dest: queue_candidates_mem)
  with ClaimBatch_tables [OF assms(1)] assms(3) show ?thesis by auto
qed


lemma settle_holders:
  assumes "run_update op (update_work P f) db = (e, db')" and "keeps_work_keys f" and "\<And>w. \<not> live now (f w)"
  shows "reducer_holders now db' \<subseteq> reducer_holders now db"
proof -
  obtain g d where d: "statement (update_work P f db) db = (g, d)" by (metis surj_pair)
  have "reducer_holders now (update_work P f db) \<subseteq> reducer_holders now db"
    by (rule holders_settle) (rule keeps_conflict [OF assms(2)], rule assms(3))
  with statement_tables [OF d] assms(1) d show ?thesis by (auto simp: run_update_def split: option.splits)
qed

lemma not_live_failed [simp]: "\<not> live now (reducer_failed q intent cause t w)"
  by (simp add: reducer_failed_def Let_def)

lemma beat_holders:
  assumes beat: "reducer_Heartbeat q intent now db = (e, db')"
    and on_time: "list_all (live now) (filter (reducer_held (rq_LeaseOwner q) (in_IntentID intent)) (dd_Items db))"
  shows "reducer_holders now db' \<subseteq> reducer_holders now db"
proof -
  let ?P = "reducer_held (rq_LeaseOwner q) (in_IntentID intent)" and ?f = "extended_work (now + rq_LeaseDuration q) now"
  have "reducer_holders now (update_work ?P ?f db) \<subseteq> reducer_holders now db"
  proof
    fix x assume "x \<in> reducer_holders now (update_work ?P ?f db)"
    then have "x \<in> reducer_holders now db \<union> {(conflict_of w, wr_WorkItemID w) | w. w \<in> set (dd_Items db)
        \<and> wr_Stage w = ''reducer'' \<and> ?P w \<and> live now (?f w)}"
      by (rule holders_update [THEN subsetD, rotated]) (rule keeps_conflict, simp)
    with on_time show "x \<in> reducer_holders now db" by (auto simp: list_all_iff intro: holdersI)
  qed
  moreover have "db' = update_work ?P ?f db \<or> db' = db"
    using beat by (auto simp: reducer_Heartbeat_def run_update_def Let_def statement_def split: option.splits)
  ultimately show ?thesis by auto
qed

lemma insert_rows_mem: "t \<in> set (fold (insert_row key) rows tab) \<Longrightarrow> t \<in> set tab \<or> t \<in> set rows"
proof (induction rows arbitrary: tab)
  case (Cons r rows)
  from Cons.IH [of "insert_row key r tab"] Cons.prems insert_row_mem [of t key r tab] show ?case by auto
qed simp

lemma reducer_rows_pending: "reducer_rows jsonb now is = Some rows \<Longrightarrow> w \<in> set rows \<Longrightarrow> wr_Status w = StatusPending"
  by (induction jsonb now "is" arbitrary: rows rule: reducer_rows.induct)
    (auto simp: reducer_row_def split: option.splits)

lemma enqueue_batch_holders:
  assumes "enqueueReducerBatch jsonb now' batch db = (e, db')"
  shows "reducer_holders now db' \<subseteq> reducer_holders now db"
proof (cases "reducer_rows jsonb now' batch")
  case None
  with assms show ?thesis by (auto simp: enqueueReducerBatch_def split: if_splits)
next
  case (Some rows)
  let ?new = "db\<lparr>dd_Items := fold (insert_row wr_WorkItemID) rows (dd_Items db)\<rparr>"
  have "reducer_holders now ?new \<subseteq> reducer_holders now db"
  proof (rule subrelI)
    fix k i assume "(k, i) \<in> reducer_holders now ?new"
    then obtain w where w: "w \<in> set (dd_Items ?new)" "reducer_stage w" "live now w" "conflict_of w = k" "wr_WorkItemID w = i"
      by (rule holdersE)
    then have "w \<in> set (dd_Items db)"
      using insert_rows_mem [of w wr_WorkItemID rows "dd_Items db"] reducer_rows_pending [OF Some, of w]
      by (auto simp: live_def in_flight_def)
    from holdersI [OF this w(2,3), of conflict_of] w(4,5) show "(k, i) \<in> reducer_holders now db" by simp
  qed
  moreover have "db' = ?new \<or> db' = db"
    using assms Some by (auto simp: enqueueReducerBatch_def statement_def split: if_splits option.splits)
  ultimately show ?thesis by auto
qed

lemma fail_each_holders: "fail_each q pairs t db = Some (e, db') \<Longrightarrow> reducer_holders now db' \<subseteq> reducer_holders now db"
proof (induction q pairs t db rule: fail_each.induct)
  case (4 q intent c rest t db)
  obtain f d where d: "failIntent q intent c t db = (f, d)" by (metis surj_pair)
  have "reducer_holders now d \<subseteq> reducer_holders now db"
    by (rule settle_holders [OF d [unfolded failIntent_def]]) simp_all
  with "4.prems" "4.IH" d show ?case by (cases f) auto
qed auto

lemma reopen_holders:
  assumes "reopen op P t db = (r, db')"
  shows "reducer_holders now db' \<subseteq> reducer_holders now db"
proof -
  have "reducer_holders now (update_work (\<lambda>w. P w \<and> reducer_stage w \<and> wr_Status w = StatusSucceeded) (pending_again t) db)
      \<subseteq> reducer_holders now db"
    by (rule holders_settle) (rule keeps_conflict, simp_all)
  with reopen_tables [OF assms] show ?thesis by auto
qed


lemma reducer_step_ok: "reducer_step collate now db db' \<Longrightarrow> data_ok db \<Longrightarrow> data_ok db'"
proof (induction rule: reducer_step.induct)
  case (step_heartbeat q intent now db e db')
  then show ?case
    using run_update_ok [of "''heartbeat reducer work''"]
    by (auto simp: reducer_Heartbeat_def Let_def split: option.splits prod.splits)
next
  case (step_ack q intent now db e db')
  then show ?case using run_update_ok by (auto simp: reducer_Ack_def split: option.splits)
next
  case (step_ack_batch q intents now db e db')
  then show ?case using run_update_ok by (auto simp: AckBatch_def split: option.splits if_splits)
next
  case (step_fail q intent cause now db e db')
  then show ?case using run_update_ok by (auto simp: reducer_Fail_def failIntent_def split: option.splits)
next
  case (step_fail_batch q intents causes now db e db')
  then show ?case using fail_each_ok by (auto simp: FailBatch_def split: option.splits if_splits)
next
  case (step_reopen q i now db r db')
  then show ?case using reopen_ok by (auto simp: ReopenSucceeded_def split: option.splits)
next
  case (step_replay q s g d now db r db')
  then show ?case using reopen_ok by (auto simp: ReplayDomain_def split: option.splits)
qed (auto intro: enqueueReducerBatch_ok Claim_ok ClaimBatch_ok)

lemma reducer_step_exclusive:
  assumes "reducer_step collate now db db'" and "data_ok db" and "one_holder (reducer_holders now db)"
  shows "one_holder (reducer_holders now db')"
  using assms(1)
proof (cases rule: reducer_step.cases)
  case (step_enqueue_batch jsonb now' batch e)
  from assms(3) enqueue_batch_holders [OF this] show ?thesis by (rule one_holder_subset)
next
  case (step_claim locked q r)
  from this assms(2,3) show ?thesis by (rule Claim_exclusive)
next
  case (step_claim_batch locked q limit rs)
  from this assms(2,3) show ?thesis by (rule ClaimBatch_exclusive)
next
  case (step_heartbeat q intent e)
  from assms(3) beat_holders [OF this] show ?thesis by (rule one_holder_subset)
next
  case (step_ack q intent e)
  then have "db' = db \<or> (\<exists>op P. run_update op (update_work P (settled_work StatusSucceeded now)) db = (e, db'))"
    by (auto simp: reducer_Ack_def split: option.splits)
  then have "reducer_holders now db' \<subseteq> reducer_holders now db" by (auto dest: settle_holders)
  with assms(3) show ?thesis by (rule one_holder_subset)
next
  case (step_ack_batch q intents e)
  then have "db' = db \<or> (\<exists>op P. run_update op (update_work P (settled_work StatusSucceeded now)) db = (e, db'))"
    by (auto simp: AckBatch_def split: option.splits if_splits)
  then have "reducer_holders now db' \<subseteq> reducer_holders now db" by (auto dest: settle_holders)
  with assms(3) show ?thesis by (rule one_holder_subset)
next
  case (step_fail q intent cause e)
  then have "db' = db \<or> (\<exists>op P c. run_update op (update_work P (reducer_failed q intent c now)) db = (e, db'))"
    by (auto simp: reducer_Fail_def failIntent_def split: option.splits)
  then have "reducer_holders now db' \<subseteq> reducer_holders now db" by (auto dest: settle_holders)
  with assms(3) show ?thesis by (rule one_holder_subset)
next
  case (step_fail_batch q intents causes e)
  then have "reducer_holders now db' \<subseteq> reducer_holders now db"
    using fail_each_holders by (fastforce simp: FailBatch_def split: option.splits if_splits)
  with assms(3) show ?thesis by (rule one_holder_subset)
next
  case (step_reopen q i r)
  then have "reducer_holders now db' \<subseteq> reducer_holders now db"
    using reopen_holders by (fastforce simp: ReopenSucceeded_def split: option.splits)
  with assms(3) show ?thesis by (rule one_holder_subset)
next
  case (step_replay q s g d r)
  then have "reducer_holders now db' \<subseteq> reducer_holders now db"
    using reopen_holders by (fastforce simp: ReplayDomain_def split: option.splits)
  with assms(3) show ?thesis by (rule one_holder_subset)
qed

interpretation rq: claim_windows "reducer_step collate" data_ok reducer_holders
  by unfold_locales (auto intro: holders_lapse [THEN subsetD] reducer_step_ok reducer_step_exclusive)

text \<open>
  C15: one reducer at a time per conflict key. Over any schedule of enqueues, single and batch claims,
  heartbeats, acks, failures and replays of any number of reducer queues, one statement at a time
  and with heartbeats on time, two reducer items with one conflict domain and key whose leases both
  still run are one item. In particular one batch never hands out two items of one key.
\<close>

theorem one_reducer_per_conflict_key:
  assumes "timed_run (reducer_step collate) (t, db) (t', db')" and "data_ok db"
    and "one_holder (reducer_holders t db)"
    and "v \<in> set (dd_Items db')" and "w \<in> set (dd_Items db')"
    and "reducer_stage v" and "reducer_stage w" and "conflict_of v = conflict_of w"
    and "live t' v" and "live t' w"
  shows "v = w"
proof -
  have ok: "data_ok db'" and one: "one_holder (reducer_holders t' db')"
    using rq.run_exclusive [OF assms(1)] assms(2,3) by simp_all
  have "wr_WorkItemID v = wr_WorkItemID w"
    using one holdersI [OF assms(4,6,9), of conflict_of] holdersI [OF assms(5,7,10), of conflict_of] assms(8)
    unfolding one_holder_def by metis
  with work_unique [OF ok assms(4,5)] show ?thesis by blast
qed


section \<open>Single and batch claims\<close>

lemma sorted_hd_least:
  assumes "comparator cmp" and "sort_by cmp xs = x # ys"
  shows "x \<in> set xs" and "y \<in> set xs \<Longrightarrow> cmp x y \<le> 0"
proof -
  have s: "set (x # ys) = set xs" using assms(2) by (metis set_sort_by)
  then show "x \<in> set xs" by auto
  show "cmp x y \<le> 0" if "y \<in> set xs"
    using comparator.ordered_hd_least [OF assms(1)] comparator.ordered_sort_by [OF assms(1), of xs] assms(2) s that by metis
qed

lemma cmp_work_comparator: "comparator collate \<Longrightarrow> comparator (cmp_work collate)"
  unfolding cmp_work_def [abs_def]
  by (rule comparator_lex [OF comparator_key]) (rule comparator_via)

lemma cmp_work_antisym:
  assumes "comparator collate" and "\<forall>a b. collate a b = 0 \<longrightarrow> a = b" and "cmp_work collate v w \<le> 0" and "cmp_work collate w v \<le> 0"
  shows "wr_WorkItemID v = wr_WorkItemID w"
proof -
  have "cmp_work collate v w = 0"
    by (rule comparator.cmp_zeroI [OF cmp_work_comparator [OF assms(1)] assms(3,4)])
  then show ?thesis using assms(2) by (simp add: cmp_work_def)
qed

lemma drain_gate_off: "\<not> rq_RequireProjectorDrainBeforeClaim q \<Longrightarrow> drain_gate q now db w"
  by (simp add: drain_gate_def)

text \<open>Where the drain gate is off, the first claimable item is the first ready one of its key.\<close>

lemma first_claimable_batch:
  assumes ok: "data_ok db" and order: "comparator collate" "\<forall>a b. collate a b = 0 \<longrightarrow> a = b"
    and off: "\<not> rq_RequireProjectorDrainBeforeClaim q"
    and m: "m \<in> set (dd_Items db)" "reducer_claimable q now db m"
    and least: "\<And>w. w \<in> set (dd_Items db) \<Longrightarrow> reducer_claimable q now db w \<Longrightarrow> cmp_work collate m w \<le> 0"
  shows "batch_claimable collate q now db m"
proof -
  let ?same = "filter (\<lambda>s. conflict_of s = conflict_of m \<and> reducer_ready now (claimDomainFilter q) s) (dd_Items db)"
  have ready_m: "reducer_ready now (claimDomainFilter q) m" and fence: "unfenced now db m"
    using m(2) by (simp_all add: reducer_claimable_def)
  then have "m \<in> set ?same" using m(1) by simp
  then obtain s ss where s: "sort_by (cmp_work collate) ?same = s # ss"
    by (cases "sort_by (cmp_work collate) ?same") (auto simp: sort_by_eq_Nil_iff filter_empty_conv)
  note cmp = cmp_work_comparator [OF order(1)]
  have s_in: "s \<in> set (dd_Items db)" "conflict_of s = conflict_of m" "reducer_ready now (claimDomainFilter q) s"
    using sorted_hd_least(1) [OF cmp s] by auto
  have "unfenced now db s"
    unfolding unfenced_def list_ex_iff
  proof
    assume "\<exists>y \<in> set (dd_Items db). reducer_stage y \<and> conflict_of y = conflict_of s
      \<and> wr_WorkItemID y \<noteq> wr_WorkItemID s \<and> live now y"
    then obtain y where y: "y \<in> set (dd_Items db)" "reducer_stage y" "conflict_of y = conflict_of m" "live now y"
      using s_in(2) by auto
    then have "wr_WorkItemID y = wr_WorkItemID m"
      using fence by (auto simp: unfenced_def list_ex_iff)
    then have "y = m" by (rule work_unique [OF ok y(1) m(1)])
    with y(4) ready_m ready_not_live show False by (auto simp: reducer_ready_def)
  qed
  then have "reducer_claimable q now db s"
    using s_in(3) off by (simp add: reducer_claimable_def drain_gate_off)
  from least [OF s_in(1) this] sorted_hd_least(2) [OF cmp s \<open>m \<in> set ?same\<close>]
  have "wr_WorkItemID m = wr_WorkItemID s"
    by (rule cmp_work_antisym [OF order])
  then have "first_of_key collate q now db m" by (simp add: first_of_key_def s)
  with m(2) off show ?thesis by (simp add: batch_claimable_def semantic_room_def)
qed

lemma candidates_agree:
  assumes ok: "data_ok db" and order: "comparator collate" "\<forall>a b. collate a b = 0 \<longrightarrow> a = b"
    and off: "\<not> rq_RequireProjectorDrainBeforeClaim q"
  shows "claim_candidates collate [] 1 (batch_claimable collate q now db) db
    = claim_candidates collate [] 1 (reducer_claimable q now db) db"
proof -
  let ?R = "filter (reducer_claimable q now db) (dd_Items db)" and ?B = "filter (batch_claimable collate q now db) (dd_Items db)"
  note cmp = cmp_work_comparator [OF order(1)]
  have sub: "batch_claimable collate q now db w \<Longrightarrow> reducer_claimable q now db w" for w
    by (simp add: batch_claimable_def)
  have "take 1 (sort_by (cmp_work collate) ?B) = take 1 (sort_by (cmp_work collate) ?R)"
  proof (cases "sort_by (cmp_work collate) ?R")
    case Nil
    then have "?R = []" by (simp add: sort_by_eq_Nil_iff)
    with sub have "?B = []" by (auto simp: filter_empty_conv)
    with Nil show ?thesis by simp
  next
    case (Cons m ms)
    have m: "m \<in> set (dd_Items db)" "reducer_claimable q now db m" using sorted_hd_least(1) [OF cmp Cons] by auto
    have "batch_claimable collate q now db m"
      by (rule first_claimable_batch [OF ok order off m]) (rule sorted_hd_least(2) [OF cmp Cons], simp)
    with m have mB: "m \<in> set ?B" by simp
    then obtain b bs where b: "sort_by (cmp_work collate) ?B = b # bs"
      by (cases "sort_by (cmp_work collate) ?B") (auto simp: sort_by_eq_Nil_iff filter_empty_conv)
    have bB: "b \<in> set (dd_Items db)" "b \<in> set ?R" using sorted_hd_least(1) [OF cmp b] sub by auto
    have "wr_WorkItemID m = wr_WorkItemID b"
      by (rule cmp_work_antisym [OF order sorted_hd_least(2) [OF cmp Cons bB(2)] sorted_hd_least(2) [OF cmp b mB]])
    then have "m = b" by (rule work_unique [OF ok m(1) bB(1)])
    with b Cons show ?thesis by simp
  qed
  then show ?thesis by (simp add: claim_candidates_def)
qed

text \<open>
  A batch of one is a claim. Where the queue does not wait for projections to drain, no row is
  locked, and the collation separates identifiers, a batch claim for one item leaves the tables a
  single claim leaves, and answers the one intent, or none, exactly when the single claim does: the
  extra conditions of the batch statement exclude nothing.
\<close>

theorem batch_of_one_is_claim:
  assumes "data_ok db" and "comparator collate" and "\<forall>a b. collate a b = 0 \<longrightarrow> a = b"
    and "\<not> rq_RequireProjectorDrainBeforeClaim q"
  shows "snd (ClaimBatch collate [] q 1 now db) = snd (reducer_Claim collate [] q now db)
    \<and> (fst (ClaimBatch collate [] q 1 now db) = Inr (case found of Some i \<Rightarrow> [i] | None \<Rightarrow> [])
      \<longleftrightarrow> fst (reducer_Claim collate [] q now db) = Inr found)"
proof (rule conjI)
  let ?ws = "claim_candidates collate [] 1 (reducer_claimable q now db) db"
  have ws: "claim_candidates collate [] 1 (batch_claimable collate q now db) db = ?ws"
    by (rule candidates_agree [OF assms])
  have "length ?ws \<le> 1" by (simp add: claim_candidates_def)
  then consider "?ws = []" | w where "?ws = [w]" by (cases ?ws) auto
  note shape = this
  show "snd (ClaimBatch collate [] q 1 now db) = snd (reducer_Claim collate [] q now db)"
    using ws by (auto simp: ClaimBatch_def reducer_Claim_def Let_def split: option.splits prod.splits list.splits sum.splits)
  show "fst (ClaimBatch collate [] q 1 now db) = Inr (case found of Some i \<Rightarrow> [i] | None \<Rightarrow> [])
      \<longleftrightarrow> fst (reducer_Claim collate [] q now db) = Inr found"
    using shape
  proof cases
    case 1
    with ws show ?thesis
      by (auto simp: ClaimBatch_def reducer_Claim_def Let_def claimed_rows_def split: option.splits prod.splits)
  next
    case (2 w)
    with ws show ?thesis
      by (auto simp: ClaimBatch_def reducer_Claim_def Let_def claimed_rows_def split: option.splits prod.splits sum.splits)
  qed
qed


section \<open>What an intent becomes\<close>

definition sorted_payload :: "EmittedIntent \<Rightarrow> payload" where
  "sorted_payload i = [(''entity_key'', JStr (ri_EntityKey i)), (''fact_id'', JStr (ri_FactID i)),
     (''reason'', JStr (ri_Reason i)), (''source_system'', JStr (ri_SourceSystem i))]"

lemma encode_reducer_payload: "encode_json (JObj (reducer_payload i)) = encode_json (JObj (sorted_payload i))"
  by (simp add: reducer_payload_def sorted_payload_def encode_json.simps(6) less_char_def less_eq_char_def)

lemma marshal_reducer_payload: "marshalPayload (reducer_payload i) = marshalPayload (sorted_payload i)"
  using encode_reducer_payload [of i] by (simp add: marshalPayload_def reducer_payload_def sorted_payload_def)

lemma payload_keys_valid: "valid_utf8 ''entity_key''" "valid_utf8 ''fact_id''" "valid_utf8 ''reason''" "valid_utf8 ''source_system''"
  by code_simp+

lemma sorted_payload_canonical:
  assumes "list_all valid_utf8 [ri_EntityKey i, ri_FactID i, ri_Reason i, ri_SourceSystem i]"
  shows "canonical (JObj (sorted_payload i))"
  using assms payload_keys_valid
  by (simp add: sorted_payload_def canonical.simps(4) less_char_def less_eq_char_def)

lemma payload_read_back:
  assumes "list_all valid_utf8 [ri_EntityKey i, ri_FactID i, ri_Reason i, ri_SourceSystem i]"
    and "\<not> sublist nul_escape (encode_json (JObj (reducer_payload i)))"
  shows "unmarshalPayload (marshalPayload (reducer_payload i)) = Inr (Some (sorted_payload i))"
proof -
  have "nesting (JObj (sorted_payload i)) \<le> max_nesting" by (simp add: sorted_payload_def max_nesting_def)
  from payload_decodes [OF sorted_payload_canonical [OF assms(1)] this] assms(2) show ?thesis
    by (simp add: encode_reducer_payload marshal_reducer_payload) (simp add: sorted_payload_def)
qed

text \<open>The intent a reducer is handed for an emitted one.\<close>

definition delivered :: "EmittedIntent \<Rightarrow> time \<Rightarrow> Intent" where
  "delivered i enqueued = \<lparr>in_IntentID = reducerWorkItemID i, in_ScopeID = ri_ScopeID i, in_GenerationID = ri_GenerationID i,
     in_SourceSystem = (if ri_SourceSystem i = [] then ''unknown'' else ri_SourceSystem i), in_Domain = ri_Domain i,
     in_Cause = (if ri_Reason i = [] then ''projector emitted shared work'' else ri_Reason i),
     in_Priority = 0, in_AttemptCount = 1,
     in_EntityKeys = (if ri_EntityKey i \<noteq> [] then [ri_EntityKey i] else if ri_FactID i \<noteq> [] then [ri_FactID i] else []),
     in_RelatedScopeIDs = [ri_ScopeID i], in_Status = IntentStatusClaimed, in_EnqueuedAt = enqueued, in_AvailableAt = enqueued,
     in_ClaimedAt = None, in_CompletedAt = None, in_Failure = None\<rparr>"

lemma scan_reads_back:
  assumes doc: "unmarshalPayload doc = Inr (Some (sorted_payload i))" and domain: "ri_Domain i \<in> set knownDomains"
    and valid: "Intent_Validate (delivered i t) = None"
  shows "scanReducerIntent (claimed_work now owner until (reducer_row doc t i)) = Inr (delivered i t)"
proof -
  have "ParseDomain (ri_Domain i) = Inr (ri_Domain i)"
    using domain known_solid [OF domain] trim_space_solid by (simp add: ParseDomain_def Let_def)
  moreover have "payload_text ''entity_key'' (Some (sorted_payload i)) = ri_EntityKey i"
    "payload_text ''reason'' (Some (sorted_payload i)) = ri_Reason i"
    "payload_text ''fact_id'' (Some (sorted_payload i)) = ri_FactID i"
    "payload_text ''source_system'' (Some (sorted_payload i)) = ri_SourceSystem i"
    by (simp_all add: payload_text_def sorted_payload_def)
  ultimately show ?thesis
    using doc valid by (simp add: scanReducerIntent_def claimed_work_def reducer_row_def delivered_def)
qed


lemma enqueue_one:
  assumes ok: "data_ok db" and q: "reducer_validate q = None" and domain: "ri_Domain i \<in> set knownDomains"
    and doc: "jsonb (marshalPayload (reducer_payload i)) = Some doc"
    and new: "reducerWorkItemID i \<notin> set (map wr_WorkItemID (dd_Items db))"
    and refs: "ri_ScopeID i \<in> set (scope_ids db)" "ri_GenerationID i \<in> set (generation_ids db)"
  shows "reducer_Enqueue jsonb q [i] t db = (Inr 1, db\<lparr>dd_Items := dd_Items db @ [reducer_row doc t i]\<rparr>)"
    and "data_ok (db\<lparr>dd_Items := dd_Items db @ [reducer_row doc t i]\<rparr>)"
proof -
  let ?row = "reducer_row doc t i" and ?new = "db\<lparr>dd_Items := dd_Items db @ [reducer_row doc t i]\<rparr>"
  have row: "wr_WorkItemID ?row = reducerWorkItemID i" by (simp add: reducer_row_def)
  have "constraint_error db = None" using ok by (simp add: data_ok_def)
  then have c: "constraint_error ?new = None"
    using refs unfolding constraint_error_None
    by (simp add: active_scopes_def referenced_active_def scope_ids_def generation_ids_def reducer_row_def integer_fits_def)
  have "distinct (map wr_WorkItemID (dd_Items ?new))"
    using data_ok_ids(3) [OF ok] new row by (simp del: distinct_map)
  with c data_ok_ids [OF ok] show "data_ok ?new"
    by (simp add: data_ok_def scope_ids_def generation_ids_def)
  have "statement (db\<lparr>dd_Items := fold (insert_row wr_WorkItemID) [?row] (dd_Items db)\<rparr>) db = (None, ?new)"
    using new row c by (simp add: statement_def insert_row_def)
  then have "enqueueReducerBatch jsonb t [i] db = (None, ?new)"
    using doc by (simp add: enqueueReducerBatch_def)
  then have "exec_batches reducerEnqueueBatchSize (enqueueReducerBatch jsonb t) [i] db = (None, ?new)"
    by (simp add: exec_batches_one reducerEnqueueBatchSize_def)
  moreover have "Domain_Validate (ri_Domain i) = None" using domain by simp
  ultimately show "reducer_Enqueue jsonb q [i] t db = (Inr 1, ?new)"
    using q by (simp add: reducer_Enqueue_def del: Domain_Validate_None)
qed



section \<open>What can go wrong\<close>

text \<open>A text that starts with a printable byte is not blank.\<close>

lemma strip_keeps_last:
  "printable c \<Longrightarrow> suffix [c] s \<Longrightarrow> suffix [c] (strip (map rev space_runes) s)"
proof (induction "map rev space_runes" s rule: strip.induct)
  case (1 s)
  show ?case
  proof (cases "leading (map rev space_runes) s")
    case None
    with "1.prems" show ?thesis by (simp add: strip_id)
  next
    case (Some r)
    then have r: "r \<in> set (map rev space_runes)" "r \<noteq> []" "prefix r s" by (auto dest: leading_SomeD)
    then have "\<not> printable (last r)" using space_runes_ends by (auto simp: last_rev)
    obtain t where t: "s = r @ t" using r(3) by (auto simp: prefix_def)
    have "t \<noteq> []"
      using t r(2) "1.prems" \<open>\<not> printable (last r)\<close> by (auto simp: suffix_def)
    then have "suffix [c] (drop (length r) s)"
      using "1.prems"(2) t by (metis append_butlast_last_id append_eq_conv_conj last_appendR last_snoc suffix_def)
    with "1.hyps" [OF Some] "1.prems"(1) Some show ?thesis by (subst strip.simps) simp
  qed
qed

lemma printable_not_blank:
  assumes "printable c"
  shows "\<not> blank (c # s)"
proof -
  have "c \<notin> set (map hd space_runes)" using assms space_runes_ends by auto
  then have "strip space_runes (c # s) = c # s" by (intro strip_id leading_None_hd) simp_all
  moreover have "suffix [c] (rev (c # s))" by (simp add: suffix_def)
  from strip_keeps_last [OF assms this] have "strip (map rev space_runes) (rev (c # s)) \<noteq> []" by auto
  ultimately show ?thesis by (simp add: blank_def trim_space_def)
qed

lemma claim_update_result:
  assumes ok: "data_ok db" and ws: "set ws \<subseteq> set (dd_Items db)" and attempts: "\<forall>w \<in> set ws. wr_AttemptCount w < 2 ^ 31 - 1"
  shows "statement (claim_update now q ws db) db = (None, claim_update now q ws db)"
  unfolding claim_update_def
proof (rule update_work_statement [OF ok])
  fix w assume w: "w \<in> set (dd_Items db)" "wr_WorkItemID w \<in> set (map wr_WorkItemID ws)"
  then obtain v where v: "v \<in> set ws" "wr_WorkItemID v = wr_WorkItemID w" by auto
  have "v = w" using ws v w(1) by (intro work_unique [OF ok]) auto
  with v attempts data_ok_constraints(4) [OF ok w(1)]
  show "integer_fits (wr_AttemptCount (claimed_work now (rq_LeaseOwner q) (now + rq_LeaseDuration q) w))"
    by (auto simp: claimed_work_def integer_fits_def)
qed simp

lemma scan_intents_unreadable:
  "w \<in> set ws \<Longrightarrow> scanReducerIntent w = Inl e \<Longrightarrow> \<exists>f. scan_intents ws = Inl f"
  by (induction ws) (auto split: sum.splits)

lemma blank_key_unreadable:
  assumes "unmarshalPayload (wr_Payload w) = Inr p" and "payload_text ''entity_key'' p = k" and "k \<noteq> []" and "blank k"
  shows "\<exists>e. scanReducerIntent w = Inl e"
proof (cases "ParseDomain (wr_Domain w)")
  case (Inl e)
  with assms(1) show ?thesis by (simp add: scanReducerIntent_def)
next
  case (Inr d)
  have "validate_entity_keys [k] \<noteq> None" using assms(4) by simp
  then have "Intent_Validate x \<noteq> None" if "in_EntityKeys x = [k]" for x
    using that by (simp add: Intent_Validate_def)
  with assms Inr show ?thesis
    by (auto simp: scanReducerIntent_def Let_def checked_Inl)
qed

text \<open>
  One unreadable item fails a whole batch, again and again. An intent with an entity key of blanks
  only is enqueued without an error, but cannot be read back as a valid intent. A batch claim that
  includes it answers an error, while every item of the batch is under lease and has an attempt
  more; since none was handed out, none is ever failed, and no attempt limit applies.
\<close>

theorem blank_key_fails_batch:
  assumes "data_ok db" and "reducer_validate q = None"
    and "claim_candidates collate locked (nat (if limit \<le> 0 then 16 else limit)) (batch_claimable collate q now db) db = ws"
    and "w \<in> set ws" and "unmarshalPayload (wr_Payload w) = Inr p" and "payload_text ''entity_key'' p = k"
    and "k \<noteq> []" and "blank k" and "\<forall>v \<in> set ws. wr_AttemptCount v < 2 ^ 31 - 1"
  shows "\<exists>e. ClaimBatch collate locked q limit now db = (Inl e, claim_update now q ws db)
    \<and> list_all (\<lambda>v. live now (claimed_work now (rq_LeaseOwner q) (now + rq_LeaseDuration q) v)) ws"
proof -
  let ?f = "claimed_work now (rq_LeaseOwner q) (now + rq_LeaseDuration q)"
  have "set ws \<subseteq> set (dd_Items db)" using assms(3) queue_candidates_mem(1) by blast
  from claim_update_result [OF assms(1) this assms(9)]
  have update: "statement (claim_update now q ws db) db = (None, claim_update now q ws db)" .
  have "unmarshalPayload (wr_Payload (?f w)) = Inr p" using assms(5) by (simp add: claimed_work_def)
  from blank_key_unreadable [OF this assms(6-8)] obtain e where "scanReducerIntent (?f w) = Inl e" ..
  moreover have "?f w \<in> set (claimed_rows now q ws)" using assms(4) by (simp add: claimed_rows_def)
  ultimately obtain e' where "scan_intents (claimed_rows now q ws) = Inl e'" using scan_intents_unreadable by blast
  with update assms(2,3) have "ClaimBatch collate locked q limit now db = (Inl e', claim_update now q ws db)"
    by (simp add: ClaimBatch_def)
  moreover have "0 < rq_LeaseDuration q" using assms(2) by (simp add: reducer_validate_def)
  ultimately show ?thesis by (simp add: list_all_iff)
qed

text \<open>
  intents whose identifiers collide are dropped. The identifier joins trimmed parts with an underscore
  and turns colons and slashes into underscores too, so different intents can have one; of two such
  intents the second is dropped without an error, and the answer counts it.
\<close>

theorem colliding_intent_dropped:
  assumes "data_ok db" and "reducer_validate q = None"
    and "ri_Domain i \<in> set knownDomains" and "ri_Domain j \<in> set knownDomains"
    and "jsonb (marshalPayload (reducer_payload i)) = Some doc" and "jsonb (marshalPayload (reducer_payload j)) = Some doc'"
    and "reducerWorkItemID i \<notin> set (map wr_WorkItemID (dd_Items db))"
    and "ri_ScopeID i \<in> set (scope_ids db)" and "ri_GenerationID i \<in> set (generation_ids db)"
    and "reducerWorkItemID j = reducerWorkItemID i"
  shows "reducer_Enqueue jsonb q [i, j] t db = (Inr 2, db\<lparr>dd_Items := dd_Items db @ [reducer_row doc t i]\<rparr>)"
proof -
  let ?new = "db\<lparr>dd_Items := dd_Items db @ [reducer_row doc t i]\<rparr>"
  have ok: "data_ok ?new" by (rule enqueue_one(2) [where q = q]) (rule assms)+
  have "fold (insert_row wr_WorkItemID) [reducer_row doc t i, reducer_row doc' t j] (dd_Items db) = dd_Items ?new"
    using assms(7,10) by (simp add: insert_row_def reducer_row_def)
  moreover have "statement ?new db = (None, ?new)" using ok by (simp add: statement_def data_ok_def)
  ultimately have "enqueueReducerBatch jsonb t [i, j] db = (None, ?new)"
    using assms(5,6) by (simp add: enqueueReducerBatch_def)
  then have "exec_batches reducerEnqueueBatchSize (enqueueReducerBatch jsonb t) [i, j] db = (None, ?new)"
    by (simp add: exec_batches.simps reducerEnqueueBatchSize_def)
  moreover have "Domain_Validate (ri_Domain i) = None" "Domain_Validate (ri_Domain j) = None" using assms(3,4) by simp_all
  ultimately show ?thesis
    using assms(2) by (simp add: reducer_Enqueue_def del: Domain_Validate_None)
qed

text \<open>
  A replay asked for while the item is in flight is lost. When the materialization of a workload has
  an item that is not succeeded (claimed and running on the older evidence, or dead), asking for
  its replay answers that it is scheduled and changes nothing.
\<close>

theorem replay_lost_unless_succeeded:
  assumes "data_ok db" and "reducer_validate q = None" and "\<not> blank entityKey"
    and "w \<in> set (dd_Items db)" and "wr_WorkItemID w = reducerWorkItemID (replay_intent scopeID generationID entityKey)"
    and "wr_Status w \<noteq> StatusSucceeded"
    and "jsonb (marshalPayload (reducer_payload (replay_intent scopeID generationID entityKey))) = Some doc"
  shows "ReplayWorkloadMaterialization jsonb q scopeID generationID entityKey now later db = (Inr True, db)"
proof -
  let ?i = "replay_intent scopeID generationID entityKey"
  let ?P = "\<lambda>v. wr_WorkItemID v = reducerWorkItemID ?i \<and> reducer_stage v \<and> wr_Status v = StatusSucceeded"
  have none: "\<not> ?P v" if "v \<in> set (dd_Items db)" for v
    using work_unique [OF assms(1) that assms(4)] assms(5,6) by auto
  then have "map (\<lambda>v. if ?P v then pending_again now v else v) (dd_Items db) = dd_Items db"
    by (intro map_idI) auto
  then have same: "update_work ?P (pending_again now) db = db" by (simp add: update_work_def)
  have zero: "count_work ?P db = 0" using none by (simp add: count_work_def filter_empty_conv)
  have stmt: "statement db db = (None, db)" using assms(1) by (simp add: statement_def data_ok_def)
  have "\<not> blank (reducerWorkItemID ?i)"
    unfolding reducerWorkItemID_def append_Cons by (rule printable_not_blank) (simp add: printable_def)
  then have "ReopenSucceeded q (reducerWorkItemID ?i) now db = (Inr False, db)"
    using assms(2) zero same stmt
    by (simp add: ReopenSucceeded_def reopen_def run_update_def reducer_validateDB_def reducer_validate_def Let_def)
  moreover have "fold (insert_row wr_WorkItemID) [reducer_row doc later ?i] (dd_Items db) = dd_Items db"
    using assms(4,5) by (force simp: insert_row_def reducer_row_def)
  then have "enqueueReducerBatch jsonb later [?i] db = (None, db)"
    using assms(7) stmt by (simp add: enqueueReducerBatch_def)
  ultimately show ?thesis
    using assms(2,3) by (simp add: ReplayWorkloadMaterialization_def)
qed


text \<open>
  A gated item holds back its conflict key in batches. When an earlier ready item of the same key
  may not be claimed because projections are not drained, a batch claim takes neither it nor an
  item behind it that a single claim would take: with the semantic materialization of a scope
  waiting for all projections, batches hand out none of the scope's code graph work.
\<close>

theorem gated_item_blocks_batch:
  assumes "data_ok db" and "comparator collate"
    and "s \<in> set (dd_Items db)" and "reducer_ready now (claimDomainFilter q) s" and "\<not> drain_gate q now db s"
    and "w \<in> set (dd_Items db)" and "reducer_claimable q now db w" and "conflict_of s = conflict_of w"
    and "cmp_work collate s w < 0"
  shows "\<not> batch_claimable collate q now db w \<and> \<not> batch_claimable collate q now db s"
proof -
  let ?same = "filter (\<lambda>x. conflict_of x = conflict_of w \<and> reducer_ready now (claimDomainFilter q) x) (dd_Items db)"
  note cmp = cmp_work_comparator [OF assms(2)]
  have "\<not> first_of_key collate q now db w"
  proof
    assume first: "first_of_key collate q now db w"
    then obtain h hs where h: "sort_by (cmp_work collate) ?same = h # hs" "wr_WorkItemID w = wr_WorkItemID h"
      by (auto simp: first_of_key_def split: list.splits)
    have "h \<in> set (dd_Items db)" using sorted_hd_least(1) [OF cmp h(1)] by simp
    then have "h = w" using work_unique [OF assms(1) _ assms(6)] h(2) by simp
    moreover have "cmp_work collate h s \<le> 0"
      by (rule sorted_hd_least(2) [OF cmp h(1)]) (use assms(3,4,8) in simp)
    ultimately show False
      using assms(9) comparator.cmp_less_iff [OF cmp, of s w] by simp
  qed
  then show ?thesis
    using assms(5) by (simp add: batch_claimable_def reducer_claimable_def)
qed

end
