(* ===== verification/QueueExamples.thy ===== *)
theory QueueExamples
  imports ProjectorQueue ReducerQueue
begin

text \<open>
  Tables with concrete rows at which the properties of the reducer queue apply.
\<close>

definition example_reducers :: ReducerQueue where
  "example_reducers = NewReducerQueue ''reducer-a'' (seconds 60)"

definition gated_reducers :: ReducerQueue where
  "gated_reducers = example_reducers\<lparr>rq_RequireProjectorDrainBeforeClaim := True, rq_ExpectedSourceLocalProjectors := 1\<rparr>"

definition example_emitted :: "Domain \<Rightarrow> string \<Rightarrow> EmittedIntent" where
  "example_emitted domain entity = \<lparr>ri_ScopeID = ''scope-1'', ri_GenerationID = ''gen-1'', ri_Domain = domain,
     ri_EntityKey = entity, ri_Reason = ''changed'', ri_FactID = ''fact-1'', ri_SourceSystem = ''git''\<rparr>"

definition code_calls :: EmittedIntent where
  "code_calls = example_emitted DomainCodeCallMaterialization ''repo-1''"

definition semantics :: EmittedIntent where
  "semantics = example_emitted DomainSemanticEntityMaterialization ''repo-1''"

definition reducer_tables :: "WorkRow list \<Rightarrow> DataDb" where
  "reducer_tables items = example_tables GenerationStatusActive GenerationStatusPending (Some ''gen-1'') items"

lemma emitted_ids:
  "reducerWorkItemID code_calls = ''reducer_scope-1_gen-1_code_call_materialization_repo-1''"
  "reducerWorkItemID semantics = ''reducer_scope-1_gen-1_semantic_entity_materialization_repo-1''"
  by (simp_all add: reducerWorkItemID_def code_calls_def semantics_def example_emitted_def domain_defs underscored_def
      trim_space_solid solid_simps)

lemma emitted_conflict: "reducerConflictDomainKey code_calls = (''code_graph'', ''scope-1'')"
  "reducerConflictDomainKey semantics = (''code_graph'', ''scope-1'')"
  by (simp_all add: reducerConflictDomainKey_def code_calls_def semantics_def example_emitted_def domain_defs
      trim_space_solid solid_simps)

lemma example_reducers_valid [simp]:
  "reducer_validate example_reducers = None" "reducer_validate gated_reducers = None"
  by (simp_all add: reducer_validate_def gated_reducers_def example_reducers_def NewReducerQueue_def seconds_def)

definition code_row :: "time \<Rightarrow> WorkRow" where
  "code_row t = reducer_row ''{}'' t code_calls"

definition semantic_row :: "time \<Rightarrow> WorkRow" where
  "semantic_row t = reducer_row ''{}'' t semantics"

lemmas reducer_example_defs = reducer_tables_def example_tables_def example_scope_row_def example_generation_row_def
  code_row_def semantic_row_def reducer_row_def

lemma reducer_tables_ok: "data_ok (reducer_tables [semantic_row 1, code_row 2])" "data_ok (reducer_tables [])"
  by (simp_all add: data_ok_def constraint_error_def active_scopes_def referenced_active_def scope_ids_def
      generation_ids_def reducer_example_defs List.map_filter_simps integer_fits_def emitted_ids)
    (simp_all add: semantics_def code_calls_def example_emitted_def)


definition semantic_claimed :: WorkRow where
  "semantic_claimed = claimed_work 10 ''reducer-a'' (10 + seconds 60) (semantic_row 1)"

lemma emitted_fields:
  "ri_ScopeID code_calls = ''scope-1''" "ri_GenerationID code_calls = ''gen-1''" "ri_Domain code_calls = DomainCodeCallMaterialization"
  "ri_ScopeID semantics = ''scope-1''" "ri_GenerationID semantics = ''gen-1''" "ri_Domain semantics = DomainSemanticEntityMaterialization"
  by (simp_all add: semantics_def code_calls_def example_emitted_def)

lemmas claim_evals = claim_candidates_def batch_claimable_def reducer_claimable_def reducer_ready_def ready_def open_status_def
  live_def in_flight_def drain_gate_def unfenced_def semantic_room_def first_of_key_def conflict_of_def claimDomainFilter_def
  sort_by_def cmp_work_def compare_def or_else_def

lemma reducer_candidates:
  "claim_candidates compare [] n (batch_claimable compare example_reducers 10 (reducer_tables [semantic_row 1, code_row 2]))
     (reducer_tables [semantic_row 1, code_row 2]) = (if n = 0 then [] else [semantic_row 1])"
  by (cases n) (simp_all add: claim_evals reducer_example_defs emitted_ids emitted_conflict emitted_fields
    example_reducers_def NewReducerQueue_def)


lemma reducer_batch:
  "\<exists>r. ClaimBatch compare [] example_reducers 8 10 (reducer_tables [semantic_row 1, code_row 2])
     = (r, reducer_tables [semantic_claimed, code_row 2])"
proof -
  have "claim_update 10 example_reducers [semantic_row 1] (reducer_tables [semantic_row 1, code_row 2])
      = reducer_tables [semantic_claimed, code_row 2]"
    by (simp add: claim_update_def update_work_def reducer_example_defs emitted_ids semantic_claimed_def
        example_reducers_def NewReducerQueue_def)
  with claim_update_result [OF reducer_tables_ok(1), of "[semantic_row 1]" 10 example_reducers]
  have "statement (claim_update 10 example_reducers [semantic_row 1] (reducer_tables [semantic_row 1, code_row 2]))
      (reducer_tables [semantic_row 1, code_row 2]) = (None, reducer_tables [semantic_claimed, code_row 2])"
    by (simp add: reducer_tables_def example_tables_def semantic_row_def reducer_row_def)
  then show ?thesis by (simp add: ClaimBatch_def reducer_candidates)
qed

theorem one_reducer_per_conflict_key_witness:
  "timed_run (reducer_step compare) (1, reducer_tables [semantic_row 1, code_row 2]) (10, reducer_tables [semantic_claimed, code_row 2])
     \<and> hd (dd_Items (reducer_tables [semantic_claimed, code_row 2])) = semantic_claimed"
proof -
  let ?db = "reducer_tables [semantic_row 1, code_row 2]" and ?db1 = "reducer_tables [semantic_claimed, code_row 2]"
  have "reducer_step compare 10 ?db ?db1"
    using reducer_batch by (auto intro: reducer_step.step_claim_batch)
  then have run: "timed_run (reducer_step compare) (1, ?db) (10, ?db1)"
    using timed_step [OF timed_refl, of 1 10 "reducer_step compare" ?db ?db1] by simp
  have "reducer_holders 1 ?db = {}"
    by (auto simp: holders_def live_def in_flight_def reducer_example_defs)
  then have one: "one_holder (reducer_holders 1 ?db)" by (simp add: one_holder_def)
  have "hd (dd_Items ?db1) = semantic_claimed"
    by (rule one_reducer_per_conflict_key [OF run reducer_tables_ok(1) one])
      (simp_all add: reducer_tables_def example_tables_def semantic_claimed_def claimed_work_def semantic_row_def
        reducer_row_def live_def in_flight_def seconds_def)
  with run show ?thesis by simp
qed

lemma compare_comparator: "comparator (compare :: string \<Rightarrow> string \<Rightarrow> int)"
  using comparator_key [of "\<lambda>s. s"] by simp

theorem batch_of_one_is_claim_witness:
  "snd (ClaimBatch compare [] example_reducers 1 10 (reducer_tables [semantic_row 1, code_row 2]))
     = snd (reducer_Claim compare [] example_reducers 10 (reducer_tables [semantic_row 1, code_row 2]))"
  using batch_of_one_is_claim [OF reducer_tables_ok(1) compare_comparator, of example_reducers 10 None]
  by (simp add: example_reducers_def NewReducerQueue_def)



text \<open>An item whose entity key is a blank, alone in its batch.\<close>

definition blank_row :: WorkRow where
  "blank_row = (semantic_row 1)\<lparr>wr_Payload := encode_json (JObj [(''entity_key'', JStr '' '')])\<rparr>"

lemma blank_candidates:
  "claim_candidates compare [] (nat 8) (batch_claimable compare example_reducers 10 (reducer_tables [blank_row])) (reducer_tables [blank_row])
     = [blank_row]"
  by (simp add: claim_evals reducer_example_defs blank_row_def emitted_ids emitted_conflict emitted_fields
    example_reducers_def NewReducerQueue_def)

lemma blank_tables_ok: "data_ok (reducer_tables [blank_row])"
  by (simp add: data_ok_def constraint_error_def active_scopes_def referenced_active_def scope_ids_def
      generation_ids_def reducer_example_defs blank_row_def List.map_filter_simps integer_fits_def emitted_ids emitted_fields)

theorem blank_key_fails_batch_witness:
  "\<exists>e. ClaimBatch compare [] example_reducers 8 10 (reducer_tables [blank_row])
     = (Inl e, claim_update 10 example_reducers [blank_row] (reducer_tables [blank_row]))"
proof -
  have payload: "unmarshalPayload (wr_Payload blank_row) = Inr (Some [(''entity_key'', JStr '' '')])"
    unfolding blank_row_def by code_simp
  have key: "payload_text ''entity_key'' (Some [(''entity_key'', JStr '' '')]) = '' ''"
    by (simp add: payload_text_def)
  have "blank '' ''" by code_simp
  from blank_key_fails_batch [OF blank_tables_ok example_reducers_valid(1) _ _ payload key _ this, of compare "[]" 8 10 "[blank_row]"]
  show ?thesis using blank_candidates by (auto simp: blank_row_def semantic_row_def reducer_row_def)
qed

text \<open>Two entities whose names differ in a colon and a slash.\<close>

theorem colliding_intent_dropped_witness:
  "example_emitted DomainOwnership ''team:api'' \<noteq> example_emitted DomainOwnership ''team/api''
   \<and> reducer_Enqueue Some example_reducers
       [example_emitted DomainOwnership ''team:api'', example_emitted DomainOwnership ''team/api''] 5 (reducer_tables [])
     = (Inr 2, reducer_tables [reducer_row (marshalPayload (reducer_payload (example_emitted DomainOwnership ''team:api''))) 5
         (example_emitted DomainOwnership ''team:api'')])"
proof -
  let ?i = "example_emitted DomainOwnership ''team:api''" and ?j = "example_emitted DomainOwnership ''team/api''"
  have ids: "reducerWorkItemID ?j = reducerWorkItemID ?i" by code_simp
  from colliding_intent_dropped [OF reducer_tables_ok(2) example_reducers_valid(1), of ?i ?j Some _ _ 5, OF _ _ refl refl _ _ _ ids]
  show ?thesis
    by (simp add: knownDomains_def reducer_tables_def example_tables_def example_scope_row_def example_generation_row_def
        scope_ids_def generation_ids_def) (simp add: example_emitted_def)
qed

definition materializing :: WorkRow where
  "materializing = claimed_work 10 ''reducer-b'' (10 + seconds 60) (reducer_row ''{}'' 1 (replay_intent ''scope-1'' ''gen-1'' ''workload-1''))"

theorem replay_lost_unless_succeeded_witness:
  "ReplayWorkloadMaterialization Some example_reducers ''scope-1'' ''gen-1'' ''workload-1'' 20 21 (reducer_tables [materializing])
     = (Inr True, reducer_tables [materializing])"
proof (rule replay_lost_unless_succeeded [OF _ example_reducers_valid(1), where w = materializing])
  show "data_ok (reducer_tables [materializing])"
    by (simp add: data_ok_def constraint_error_def active_scopes_def referenced_active_def scope_ids_def generation_ids_def
        reducer_example_defs materializing_def claimed_work_def replay_intent_def List.map_filter_simps integer_fits_def)
  show "\<not> blank ''workload-1''" by code_simp
qed (simp_all add: reducer_tables_def example_tables_def materializing_def claimed_work_def reducer_row_def)

text \<open>The semantic item waits for a first projection; the code graph item of its scope does not.\<close>

theorem gated_item_blocks_batch_witness:
  "reducer_claimable gated_reducers 10 (reducer_tables [semantic_row 1, code_row 2]) (code_row 2)
   \<and> \<not> batch_claimable compare gated_reducers 10 (reducer_tables [semantic_row 1, code_row 2]) (code_row 2)"
proof -
  let ?db = "reducer_tables [semantic_row 1, code_row 2]"
  have code: "reducer_claimable gated_reducers 10 ?db (code_row 2)"
    by (simp add: claim_evals reducer_example_defs emitted_ids emitted_conflict emitted_fields semantic_def source_local_def
      gated_reducers_def example_reducers_def NewReducerQueue_def domain_defs)
  have ready: "reducer_ready 10 (claimDomainFilter gated_reducers) (semantic_row 1)"
    by (simp add: claim_evals reducer_example_defs gated_reducers_def example_reducers_def NewReducerQueue_def)
  have gate: "\<not> drain_gate gated_reducers 10 ?db (semantic_row 1)"
    by (simp add: drain_gate_def reducer_example_defs emitted_fields semantic_def source_local_def count_work_def
      gated_reducers_def example_reducers_def NewReducerQueue_def domain_defs)
  have order: "cmp_work compare (semantic_row 1) (code_row 2) < 0" "conflict_of (semantic_row 1) = conflict_of (code_row 2)"
    by (simp_all add: claim_evals reducer_example_defs emitted_conflict)
  have "semantic_row 1 \<in> set (dd_Items ?db)" "code_row 2 \<in> set (dd_Items ?db)"
    by (simp_all add: reducer_tables_def example_tables_def)
  from gated_item_blocks_batch [OF reducer_tables_ok(1) compare_comparator this(1) ready gate this(2) code order(2,1)] code
  show ?thesis by simp
qed

end
