(* ===== verification/Recovery.thy ===== *)
theory Recovery
  imports ProjectorQueue
begin

text \<open>
  \<open>go/internal/recovery/replay.go\<close> and \<open>go/internal/storage/postgres/recovery.go\<close>: the operations an
  operator runs on the data plane, replaying failed work items and projecting the active
  generations of scopes again. \<open>collate\<close> is the collation that orders text. A stage is a string
  that the filter restricts to the two known ones; the handler's clock is an argument.
\<close>

section \<open>Filters and results\<close>

record ReplayFilter =
  rf_Stage :: string
  rf_ScopeIDs :: "string list"
  rf_FailureClass :: string
  rf_Limit :: int

record ReplayResult =
  rr_Stage :: string
  rr_Replayed :: nat
  rr_WorkItemIDs :: "string list"

record RefinalizeResult =
  rz_Enqueued :: nat
  rz_ScopeIDs :: "string list"

definition ReplayFilter_Validate :: "ReplayFilter \<Rightarrow> error option" where
  "ReplayFilter_Validate f = check (rf_Stage f \<notin> {''projector'', ''reducer''})
     (Fmt ''replay filter requires a valid stage'' [rf_Stage f])"

definition RefinalizeFilter_Validate :: "string list \<Rightarrow> error option" where
  "RefinalizeFilter_Validate scopeIDs = check (scopeIDs = [])
     (Msg ''refinalize filter requires at least one scope_id'')"

section \<open>Replay\<close>

text \<open>
  The \<open>WHERE\<close> of the four queries: with and without scopes and class. The class is tested trimmed for
  being there, and compared as it is.
\<close>

definition replayable :: "ReplayFilter \<Rightarrow> WorkRow \<Rightarrow> bool" where
  "replayable f w \<longleftrightarrow> wr_Status w \<in> {StatusDeadLetter, StatusFailed} \<and> wr_Stage w = rf_Stage f
     \<and> (rf_ScopeIDs f = [] \<or> wr_ScopeID w \<in> set (rf_ScopeIDs f))
     \<and> (blank (rf_FailureClass f) \<or> wr_FailureClass w = Some (rf_FailureClass f))"

text \<open>The identifiers the query returns, cut by the loop that reads them.\<close>

definition replayed_ids :: "(string \<Rightarrow> string \<Rightarrow> int) \<Rightarrow> ReplayFilter \<Rightarrow> DataDb \<Rightarrow> string list" where
  "replayed_ids collate f db =
     (let ids = sort_by collate (map wr_WorkItemID (filter (replayable f) (dd_Items db)))
      in if 0 < rf_Limit f then take (nat (rf_Limit f)) ids else ids)"

definition ReplayFailedWorkItems ::
  "(string \<Rightarrow> string \<Rightarrow> int) \<Rightarrow> bool \<Rightarrow> ReplayFilter \<Rightarrow> time \<Rightarrow> DataDb \<Rightarrow> ReplayResult result \<times> DataDb" where
  "ReplayFailedWorkItems collate hasDatabase f now db =
     (if \<not> hasDatabase then (Inl (Required ''recovery store database''), db)
      else
        (case statement (update_work (replayable f) (pending_again now) db) db of
           (Some e, db') \<Rightarrow> (Inl (Wrap ''replay failed work items'' e), db')
         | (None, db') \<Rightarrow>
             (let ids = replayed_ids collate f db
              in (Inr \<lparr>rr_Stage = rf_Stage f, rr_Replayed = length ids, rr_WorkItemIDs = ids\<rparr>, db'))))"

definition ReplayFailed ::
  "(string \<Rightarrow> string \<Rightarrow> int) \<Rightarrow> bool \<Rightarrow> ReplayFilter \<Rightarrow> time \<Rightarrow> DataDb \<Rightarrow> ReplayResult result \<times> DataDb" where
  "ReplayFailed collate hasDatabase f now db =
     (case ReplayFilter_Validate f of
        Some e \<Rightarrow> (Inl (Wrap ''replay failed'' e), db)
      | None \<Rightarrow> ReplayFailedWorkItems collate hasDatabase f now db)"

section \<open>Refinalize\<close>

definition refinalized_scopes :: "string list \<Rightarrow> DataDb \<Rightarrow> (string \<times> string) list" where
  "refinalized_scopes scopeIDs db = List.map_filter (\<lambda>s.
     if sw_ScopeID s \<in> set scopeIDs \<and> sw_Status s = GenerationStatusActive
     then map_option (\<lambda>g. (sw_ScopeID s, g)) (sw_ActiveGenerationID s) else None) (dd_Scopes db)"

definition refinalize_row :: "time \<Rightarrow> string \<times> string \<Rightarrow> WorkRow" where
  "refinalize_row now = (\<lambda>(s, g). (projector_row s g now)\<lparr>wr_WorkItemID := ''refinalize_'' @ s @ ''_'' @ g\<rparr>)"

text \<open>What the conflict clause writes over a row that is there; it leaves \<open>next_attempt_at\<close>.\<close>

definition merge_refinalized :: "WorkRow \<Rightarrow> WorkRow \<Rightarrow> WorkRow" where
  "merge_refinalized old excluded = old\<lparr>wr_Status := StatusPending, wr_AttemptCount := 0, wr_LeaseOwner := None,
     wr_ClaimUntil := None, wr_VisibleAt := wr_VisibleAt excluded, wr_FailureClass := None, wr_FailureMessage := None,
     wr_FailureDetails := None, wr_UpdatedAt := wr_UpdatedAt excluded\<rparr>"

definition RefinalizeScopeProjections ::
  "bool \<Rightarrow> string list \<Rightarrow> time \<Rightarrow> DataDb \<Rightarrow> RefinalizeResult result \<times> DataDb" where
  "RefinalizeScopeProjections hasDatabase scopeIDs now db =
     (if \<not> hasDatabase then (Inl (Required ''recovery store database''), db)
      else
        (let hits = refinalized_scopes scopeIDs db in
         case upsert_batch wr_WorkItemID merge_refinalized (map (refinalize_row now) hits) (dd_Items db) of
           Inl e \<Rightarrow> (Inl (Wrap ''refinalize scope projections'' e), db)
         | Inr items \<Rightarrow>
             (case statement (db\<lparr>dd_Items := items\<rparr>) db of
                (Some e, db') \<Rightarrow> (Inl (Wrap ''refinalize scope projections'' e), db')
              | (None, db') \<Rightarrow> (Inr \<lparr>rz_Enqueued = length hits, rz_ScopeIDs = map fst hits\<rparr>, db'))))"

definition Refinalize :: "bool \<Rightarrow> string list \<Rightarrow> time \<Rightarrow> DataDb \<Rightarrow> RefinalizeResult result \<times> DataDb" where
  "Refinalize hasDatabase scopeIDs now db =
     (case RefinalizeFilter_Validate scopeIDs of
        Some e \<Rightarrow> (Inl (Wrap ''refinalize'' e), db)
      | None \<Rightarrow> RefinalizeScopeProjections hasDatabase scopeIDs now db)"

section \<open>What a replay does\<close>

lemma replay_result:
  assumes "data_ok db" and "ReplayFilter_Validate f = None"
  shows "ReplayFailed collate True f now db
    = (Inr \<lparr>rr_Stage = rf_Stage f, rr_Replayed = length (replayed_ids collate f db), rr_WorkItemIDs = replayed_ids collate f db\<rparr>,
       update_work (replayable f) (pending_again now) db)"
proof -
  have "statement (update_work (replayable f) (pending_again now) db) db = (None, update_work (replayable f) (pending_again now) db)"
    by (rule update_work_statement [OF assms(1)]) (simp_all add: integer_fits_def)
  with assms(2) show ?thesis by (simp add: ReplayFailed_def ReplayFailedWorkItems_def Let_def)
qed

text \<open>
  The limit of a replay limits only its answer. Every failed item that the filter matches is
  pending again, without attempts, visible at once and free to be claimed, whatever the limit; the
  answer lists the first ones up to the limit, and counts only those.
\<close>

theorem replay_limit_ignored:
  assumes "data_ok db" and "ReplayFilter_Validate f = None" and "0 < rf_Limit f"
  shows "\<exists>res. ReplayFailed collate True f now db = (Inr res, update_work (replayable f) (pending_again now) db)
    \<and> rr_Replayed res = min (nat (rf_Limit f)) (count_work (replayable f) db)
    \<and> rr_WorkItemIDs res = take (nat (rf_Limit f)) (sort_by collate (map wr_WorkItemID (filter (replayable f) (dd_Items db))))
    \<and> count_work (\<lambda>w. replayable f w) (update_work (replayable f) (pending_again now) db) = 0"
proof -
  have "\<not> replayable f (pending_again now w)" for w
    by (simp add: replayable_def pending_again_def settled_work_def)
  then have "filter (replayable f) (map (\<lambda>w. if replayable f w then pending_again now w else w) (dd_Items db)) = []"
    by (auto simp: filter_empty_conv)
  then have "count_work (replayable f) (update_work (replayable f) (pending_again now) db) = 0"
    by (simp add: count_work_def)
  with replay_result [OF assms(1,2), of collate now] assms(3) show ?thesis
    by (simp add: replayed_ids_def Let_def count_work_def min.commute)
qed


section \<open>What a refinalization does\<close>

lemma map_filter_none: "(\<And>x. x \<in> set xs \<Longrightarrow> f x = None) \<Longrightarrow> List.map_filter f xs = []"
  by (induction xs) (auto simp: List.map_filter_simps)

lemma refinalized_one:
  assumes ok: "data_ok db" and s: "s \<in> set (dd_Scopes db)" "sw_Status s = GenerationStatusActive" "sw_ActiveGenerationID s = Some g"
  shows "refinalized_scopes [sw_ScopeID s] db = [(sw_ScopeID s, g)]"
proof -
  obtain xs ys where split: "dd_Scopes db = xs @ s # ys" using s(1) by (auto dest: split_list)
  have "distinct (map sw_ScopeID (dd_Scopes db))" using data_ok_ids(1) [OF ok] by (simp add: scope_ids_def)
  then have others: "\<forall>x \<in> set xs \<union> set ys. sw_ScopeID x \<noteq> sw_ScopeID s"
    unfolding split by (simp del: distinct_map) (metis UnE imageI)
  let ?f = "\<lambda>x. if sw_ScopeID x \<in> set [sw_ScopeID s] \<and> sw_Status x = GenerationStatusActive
     then map_option (\<lambda>i. (sw_ScopeID x, i)) (sw_ActiveGenerationID x) else None"
  have "List.map_filter ?f xs = []" "List.map_filter ?f ys = []" using others by (intro map_filter_none; auto)+
  then show ?thesis
    unfolding refinalized_scopes_def split using s(2,3) by (simp add: map_filter_def)
qed

lemma upsert_batch_one:
  assumes "key r \<in> set (map key tab)"
  shows "upsert_batch key merge [r] tab = Inr (map (\<lambda>t. if key t = key r then merge t r else t) tab)"
  using assms by (simp add: upsert_batch_def upsert_row_def)

text \<open>
  A refinalization takes a running projection away from its worker. When the item of an earlier
  refinalization of the scope is being worked on under a lease, asking again answers that it is
  enqueued and leaves it pending, with no owner and no attempts; where no other projection of the
  scope is in flight, the next claim may hand it out while the first worker still runs.
\<close>

theorem refinalize_revokes_lease:
  assumes "data_ok db" and "s \<in> set (dd_Scopes db)" and "sw_Status s = GenerationStatusActive" and "sw_ActiveGenerationID s = Some g"
    and "w \<in> set (dd_Items db)" and "wr_WorkItemID w = ''refinalize_'' @ sw_ScopeID s @ ''_'' @ g"
    and "wr_Stage w = ''projector''" and "wr_ScopeID w = sw_ScopeID s" and "live now w"
    and "\<not> list_ex (\<lambda>v. wr_Stage v = ''projector'' \<and> wr_ScopeID v = sw_ScopeID s \<and> wr_WorkItemID v \<noteq> wr_WorkItemID w \<and> live now v) (dd_Items db)"
  shows "\<exists>db' v. Refinalize True [sw_ScopeID s] now db = (Inr \<lparr>rz_Enqueued = 1, rz_ScopeIDs = [sw_ScopeID s]\<rparr>, db')
    \<and> find_work (wr_WorkItemID w) db' = Some v \<and> wr_Status v = StatusPending \<and> wr_LeaseOwner v = None
    \<and> wr_AttemptCount v = 0 \<and> projector_claimable now db' v"
proof -
  let ?r = "refinalize_row now (sw_ScopeID s, g)" and ?m = "\<lambda>v. merge_refinalized v (refinalize_row now (sw_ScopeID s, g))"
  let ?P = "\<lambda>v. wr_WorkItemID v = wr_WorkItemID w"
  have id: "wr_WorkItemID ?r = wr_WorkItemID w" using assms(6) by (simp add: refinalize_row_def)
  have keys: "keeps_work_keys ?m" by (simp add: keeps_work_keys_def merge_refinalized_def)
  have batch: "upsert_batch wr_WorkItemID merge_refinalized [?r] (dd_Items db) = Inr (dd_Items (update_work ?P ?m db))"
    using assms(5) id upsert_batch_one [of wr_WorkItemID ?r "dd_Items db" merge_refinalized] by (force simp: update_work_def)
  have zero: "integer_fits (wr_AttemptCount (?m v))" for v by (simp add: merge_refinalized_def integer_fits_def)
  note stmt = update_work_statement [OF assms(1) keys zero, where P = ?P]
  note ok' = update_work_ok [OF assms(1) keys zero, where P = ?P]
  have "Refinalize True [sw_ScopeID s] now db = (Inr \<lparr>rz_Enqueued = 1, rz_ScopeIDs = [sw_ScopeID s]\<rparr>, update_work ?P ?m db)"
    using refinalized_one [OF assms(1-4)] batch stmt
    by (simp add: Refinalize_def RefinalizeFilter_Validate_def RefinalizeScopeProjections_def update_work_def)
  moreover have in': "?m w \<in> set (dd_Items (update_work ?P ?m db))" using assms(5) by auto
  from find_work_mem [OF ok' in'] have "find_work (wr_WorkItemID w) (update_work ?P ?m db) = Some (?m w)"
    by (simp add: merge_refinalized_def)
  moreover have "wr_Status (?m w) = StatusPending" "wr_LeaseOwner (?m w) = None" "wr_AttemptCount (?m w) = 0"
    by (simp_all add: merge_refinalized_def)
  moreover have "\<not> (wr_Stage v = ''projector'' \<and> wr_ScopeID v = wr_ScopeID (?m w) \<and> wr_WorkItemID v \<noteq> wr_WorkItemID (?m w) \<and> live now v)"
    if v: "v \<in> set (dd_Items (update_work ?P ?m db))" for v
  proof -
    obtain u where u: "u \<in> set (dd_Items db)" "v = (if ?P u then ?m u else u)" using v by auto
    show ?thesis
      using u assms(8,10) by (cases "?P u") (auto simp: merge_refinalized_def list_ex_iff)
  qed
  then have "projector_claimable now (update_work ?P ?m db) (?m w)"
    using assms(7)
    by (simp add: projector_claimable_def list_ex_iff ready_def open_status_def)
      (simp add: merge_refinalized_def refinalize_row_def projector_row_def)
  ultimately show ?thesis by blast
qed


section \<open>Examples\<close>

definition dead_items :: DataDb where
  "dead_items = example_tables GenerationStatusFailed GenerationStatusFailed None
     [failed_work StatusDeadLetter 5 (''projection_failed'', ''boom'', ''boom'') (projector_row ''scope-1'' ''gen-1'' 1),
      failed_work StatusDeadLetter 6 (''projection_failed'', ''boom'', ''boom'') (projector_row ''scope-1'' ''gen-2'' 2)]"

definition replay_one :: ReplayFilter where
  "replay_one = \<lparr>rf_Stage = ''projector'', rf_ScopeIDs = [], rf_FailureClass = [], rf_Limit = 1\<rparr>"

lemma example_tables_ok:
  assumes "old \<noteq> GenerationStatusActive \<or> new \<noteq> GenerationStatusActive"
    and "list_all (\<lambda>w. wr_ScopeID w = ''scope-1'' \<and> wr_GenerationID w \<in> {''gen-1'', ''gen-2''} \<and> integer_fits (wr_AttemptCount w)) items"
    and "distinct (map wr_WorkItemID items)"
  shows "data_ok (example_tables old new active items)"
  using assms
  by (auto simp: data_ok_def constraint_error_def active_scopes_def referenced_active_def scope_ids_def
      generation_ids_def example_tables_def example_scope_row_def example_generation_row_def List.map_filter_simps list_all_iff
      split: option.splits)

theorem replay_limit_ignored_witness:
  "\<exists>res. ReplayFailed compare True replay_one 9 dead_items = (Inr res, update_work (replayable replay_one) (pending_again 9) dead_items)
     \<and> rr_Replayed res = 1 \<and> count_work (replayable replay_one) dead_items = 2
     \<and> count_work (replayable replay_one) (update_work (replayable replay_one) (pending_again 9) dead_items) = 0"
proof -
  have two: "count_work (replayable replay_one) dead_items = 2"
    by (simp add: count_work_def dead_items_def replay_one_def replayable_def failed_work_def example_defs)
  have "data_ok dead_items"
    unfolding dead_items_def
    by (rule example_tables_ok) (simp_all add: failed_work_def projector_row_def projectorWorkItemID_def integer_fits_def)
  from replay_limit_ignored [OF this, of replay_one compare 9] two show ?thesis
    by (auto simp: ReplayFilter_Validate_def replay_one_def)
qed

definition refinalizing :: DataDb where
  "refinalizing = example_tables GenerationStatusActive GenerationStatusPending (Some ''gen-1'')
     [claimed_by ''worker-a'' 10 (refinalize_row 5 (''scope-1'', ''gen-1''))]"

theorem refinalize_revokes_lease_witness:
  "\<exists>db' v. Refinalize True [''scope-1''] 20 refinalizing = (Inr \<lparr>rz_Enqueued = 1, rz_ScopeIDs = [''scope-1'']\<rparr>, db')
     \<and> find_work ''refinalize_scope-1_gen-1'' db' = Some v \<and> projector_claimable 20 db' v"
proof -
  let ?s = "example_scope_row (Some ''gen-1'')" and ?w = "claimed_by ''worker-a'' 10 (refinalize_row 5 (''scope-1'', ''gen-1''))"
  have ok: "data_ok refinalizing"
    unfolding refinalizing_def
    by (rule example_tables_ok) (simp_all add: claimed_by_def claimed_work_def refinalize_row_def projector_row_def integer_fits_def)
  have w: "wr_WorkItemID ?w = ''refinalize_scope-1_gen-1''" "wr_Stage ?w = ''projector''" "wr_ScopeID ?w = ''scope-1''" "live 20 ?w"
    by (simp_all add: claimed_by_def claimed_work_def refinalize_row_def projector_row_def live_def in_flight_def seconds_def)
  have "?s \<in> set (dd_Scopes refinalizing)" "?w \<in> set (dd_Items refinalizing)"
    by (simp_all add: refinalizing_def example_tables_def)
  from refinalize_revokes_lease [OF ok this(1) _ _ this(2), of "''gen-1''" 20] w show ?thesis
    by (simp add: example_scope_row_def refinalizing_def example_tables_def) blast
qed

end
