(* ===== verification/FactStore.thy ===== *)
theory FactStore
  imports FactTables Sha256
begin

text \<open>
  \<open>go/internal/facts/models.go\<close> and \<open>stableid.go\<close>: fact envelopes and deterministic identifiers, and
  \<open>go/internal/storage/postgres/facts.go\<close>: how envelopes are written in batches, from a slice or
  from a channel, and read back. \<open>jsonb\<close> is the cast of text to JSONB (the text the server prints
  for it, or a failure), \<open>collate\<close> the collation that orders text. A channel is the list of what the
  producer sends before it closes it; what is left of it after an early return is drained.
\<close>

section \<open>Envelopes\<close>

record Ref =
  ref_SourceSystem :: string
  ref_ScopeID :: string
  ref_GenerationID :: string
  ref_FactKey :: string
  ref_SourceURI :: string
  ref_SourceRecordID :: string

record Envelope =
  ev_FactID :: string
  ev_ScopeID :: string
  ev_GenerationID :: string
  ev_FactKind :: string
  ev_StableFactKey :: string
  ev_ObservedAt :: time
  ev_Payload :: "payload option"
  ev_IsTombstone :: bool
  ev_SourceRef :: Ref

definition Ref_ScopeGenerationKey :: "Ref \<Rightarrow> string" where
  "Ref_ScopeGenerationKey r = ref_ScopeID r @ '':'' @ ref_GenerationID r"

definition Envelope_ScopeGenerationKey :: "Envelope \<Rightarrow> string" where
  "Envelope_ScopeGenerationKey e = ev_ScopeID e @ '':'' @ ev_GenerationID e"

text \<open>\<open>cloneValue\<close> copies maps and slices, all that can be shared.\<close>

fun cloneValue :: "json \<Rightarrow> json" where
  "cloneValue (JObj m) = JObj (map (\<lambda>(k, v). (k, cloneValue v)) m)"
| "cloneValue (JArr vs) = JArr (map cloneValue vs)"
| "cloneValue v = v"

definition Envelope_Clone :: "Envelope \<Rightarrow> Envelope" where
  "Envelope_Clone e = e\<lparr>ev_Payload := map_option (map (\<lambda>(k, v). (k, cloneValue v))) (ev_Payload e)\<rparr>"

text \<open>
  An identity of JSON values (a time value in it is its RFC 3339 text, a \<open>[]string\<close> an array of texts),
  hashed with its type and written in hexadecimal.
\<close>

definition StableID :: "string \<Rightarrow> payload \<Rightarrow> string" where
  "StableID factType identity =
     hex_bytes (sha256 (encode_json (JObj [(''fact_type'', JStr factType), (''identity'', JObj identity)])))"

section \<open>Writing\<close>

definition factBatchSize :: nat where "factBatchSize = 500"

definition validateFactEnvelope :: "Envelope \<Rightarrow> error option" where
  "validateFactEnvelope e = check (is_zero (utc (ev_ObservedAt e))) (Fmt ''fact observed_at must not be zero'' [ev_FactID e])"

fun deduplicateEnvelopes :: "Envelope list \<Rightarrow> Envelope list" where
  "deduplicateEnvelopes [] = []"
| "deduplicateEnvelopes (e # es) =
     (if ev_FactID e \<in> set (map ev_FactID es) then deduplicateEnvelopes es else e # deduplicateEnvelopes es)"

definition payload_map :: "payload option \<Rightarrow> payload" where
  "payload_map p = (case p of Some m \<Rightarrow> m | None \<Rightarrow> [])"

definition fact_row :: "string \<Rightarrow> Envelope \<Rightarrow> FactRow" where
  "fact_row doc e = \<lparr>fw_FactID = ev_FactID e, fw_ScopeID = ev_ScopeID e, fw_GenerationID = ev_GenerationID e,
     fw_FactKind = ev_FactKind e, fw_StableFactKey = ev_StableFactKey e,
     fw_SourceSystem = ref_SourceSystem (ev_SourceRef e), fw_SourceFactKey = ref_FactKey (ev_SourceRef e),
     fw_SourceURI = nullif (ref_SourceURI (ev_SourceRef e)), fw_SourceRecordID = nullif (ref_SourceRecordID (ev_SourceRef e)),
     fw_ObservedAt = utc (ev_ObservedAt e), fw_IngestedAt = utc (ev_ObservedAt e),
     fw_IsTombstone = ev_IsTombstone e, fw_Payload = doc\<rparr>"

text \<open>\<open>None\<close> when the cast of some payload fails.\<close>

fun fact_rows :: "(string \<Rightarrow> string option) \<Rightarrow> Envelope list \<Rightarrow> FactRow list option" where
  "fact_rows jsonb [] = Some []"
| "fact_rows jsonb (e # es) =
     (case jsonb (marshalPayload (payload_map (ev_Payload e))) of
        None \<Rightarrow> None
      | Some doc \<Rightarrow> map_option ((#) (fact_row doc e)) (fact_rows jsonb es))"

text \<open>The conflict clause of the INSERT: the scope and the generation of a row that is there stay.\<close>

definition merge_fact :: "FactRow \<Rightarrow> FactRow \<Rightarrow> FactRow" where
  "merge_fact old excluded = excluded\<lparr>fw_FactID := fw_FactID old, fw_ScopeID := fw_ScopeID old,
     fw_GenerationID := fw_GenerationID old\<rparr>"

definition upsertFactBatch :: "(string \<Rightarrow> string option) \<Rightarrow> Envelope list \<Rightarrow> DataDb \<Rightarrow> error option \<times> DataDb" where
  "upsertFactBatch jsonb batch db =
     (if batch = [] then (None, db)
      else
        (case first_err (map validateFactEnvelope batch) of
           Some e \<Rightarrow> (Some e, db)
         | None \<Rightarrow>
             (case fact_rows jsonb batch of
                None \<Rightarrow> (Some (Wrap ''upsert fact batch'' (Msg ''invalid input syntax for type json'')), db)
              | Some rows \<Rightarrow>
                  (case upsert_batch fw_FactID merge_fact rows (dd_Facts db) of
                     Inl e \<Rightarrow> (Some (Wrap ''upsert fact batch'' e), db)
                   | Inr facts \<Rightarrow>
                       (case statement (db\<lparr>dd_Facts := facts\<rparr>) db of
                          (Some e, db') \<Rightarrow> (Some (Wrap ''upsert fact batch'' e), db')
                        | (None, db') \<Rightarrow> (None, db'))))))"

definition upsertFacts :: "(string \<Rightarrow> string option) \<Rightarrow> bool \<Rightarrow> Envelope list \<Rightarrow> DataDb \<Rightarrow> error option \<times> DataDb" where
  "upsertFacts jsonb hasDatabase envelopes db =
     (if \<not> hasDatabase then (Some (Required ''fact store database''), db)
      else exec_batches factBatchSize (upsertFactBatch jsonb) (deduplicateEnvelopes envelopes) db)"

section \<open>Streaming\<close>

record factUpsertStats =
  fu_Rows :: nat
  fu_Batches :: nat

text \<open>
  What the loop carries: the batch so far, the statistics, the tables, and the state \<open>'s\<close> that the
  callback \<open>after\<close> works on.
\<close>

type_synonym 's stream_state = "factUpsertStats \<times> DataDb \<times> 's"

definition flush_batch ::
  "(string \<Rightarrow> string option) \<Rightarrow> (Envelope list \<Rightarrow> 's \<Rightarrow> error option \<times> 's) \<Rightarrow> Envelope list \<Rightarrow> 's stream_state
   \<Rightarrow> error option \<times> 's stream_state" where
  "flush_batch jsonb after batch st = (case st of (stats, db, s) \<Rightarrow>
     (let unique = deduplicateEnvelopes batch in
      case upsertFactBatch jsonb unique db of
        (Some e, db') \<Rightarrow> (Some e, stats, db', s)
      | (None, db') \<Rightarrow>
          (let stats' = stats\<lparr>fu_Rows := fu_Rows stats + length unique, fu_Batches := fu_Batches stats + 1\<rparr> in
           case after unique s of (e, s') \<Rightarrow> (e, stats', db', s'))))"

fun stream_loop ::
  "(string \<Rightarrow> string option) \<Rightarrow> string \<Rightarrow> string \<Rightarrow> (Envelope list \<Rightarrow> 's \<Rightarrow> error option \<times> 's) \<Rightarrow> Envelope list
   \<Rightarrow> Envelope list \<Rightarrow> 's stream_state \<Rightarrow> error option \<times> 's stream_state" where
  "stream_loop jsonb scopeID generationID after batch [] st =
     (if batch = [] then (None, st) else flush_batch jsonb after batch st)"
| "stream_loop jsonb scopeID generationID after batch (e # stream) st =
     (if ev_ScopeID e \<noteq> scopeID
      then (Some (Fmt ''fact scope_id does not match scope'' [ev_FactID e, ev_ScopeID e, scopeID]), st)
      else if ev_GenerationID e \<noteq> generationID
      then (Some (Fmt ''fact generation_id does not match generation'' [ev_FactID e, ev_GenerationID e, generationID]), st)
      else if length batch + 1 \<ge> factBatchSize
      then
        (case flush_batch jsonb after (batch @ [e]) st of
           (Some f, st') \<Rightarrow> (Some f, st')
         | (None, st') \<Rightarrow> stream_loop jsonb scopeID generationID after [] stream st')
      else stream_loop jsonb scopeID generationID after (batch @ [e]) stream st)"

text \<open>\<open>None\<close> is the nil channel.\<close>

definition upsertStreamingFacts ::
  "(string \<Rightarrow> string option) \<Rightarrow> Envelope list option \<Rightarrow> string \<Rightarrow> string \<Rightarrow> (Envelope list \<Rightarrow> 's \<Rightarrow> error option \<times> 's)
   \<Rightarrow> DataDb \<Rightarrow> 's \<Rightarrow> error option \<times> 's stream_state" where
  "upsertStreamingFacts jsonb stream scopeID generationID after db s =
     (let st = (\<lparr>fu_Rows = 0, fu_Batches = 0\<rparr>, db, s) in
      case stream of
        None \<Rightarrow> (None, st)
      | Some es \<Rightarrow> stream_loop jsonb scopeID generationID after [] es st)"

section \<open>Reading\<close>

definition scanFactEnvelope :: "FactRow \<Rightarrow> Envelope result" where
  "scanFactEnvelope r =
     (case unmarshalPayload (fw_Payload r) of
        Inl e \<Rightarrow> Inl e
      | Inr payload \<Rightarrow> Inr
          \<lparr>ev_FactID = fw_FactID r, ev_ScopeID = fw_ScopeID r, ev_GenerationID = fw_GenerationID r,
           ev_FactKind = fw_FactKind r, ev_StableFactKey = fw_StableFactKey r, ev_ObservedAt = utc (fw_ObservedAt r),
           ev_Payload = payload, ev_IsTombstone = fw_IsTombstone r,
           ev_SourceRef = \<lparr>ref_SourceSystem = fw_SourceSystem r, ref_ScopeID = fw_ScopeID r, ref_GenerationID = fw_GenerationID r,
             ref_FactKey = fw_SourceFactKey r, ref_SourceURI = coalesce (fw_SourceURI r),
             ref_SourceRecordID = coalesce (fw_SourceRecordID r)\<rparr>\<rparr>)"

definition cmp_facts :: "(string \<Rightarrow> string \<Rightarrow> int) \<Rightarrow> FactRow \<Rightarrow> FactRow \<Rightarrow> int" where
  "cmp_facts collate x y = or_else (compare (fw_ObservedAt x) (fw_ObservedAt y)) (collate (fw_FactID x) (fw_FactID y))"

definition facts_of :: "(string \<Rightarrow> string \<Rightarrow> int) \<Rightarrow> string \<Rightarrow> string \<Rightarrow> DataDb \<Rightarrow> FactRow list" where
  "facts_of collate scopeID generationID db =
     sort_by (cmp_facts collate) (filter (\<lambda>f. fw_ScopeID f = scopeID \<and> fw_GenerationID f = generationID) (dd_Facts db))"

definition ListFacts ::
  "(string \<Rightarrow> string \<Rightarrow> int) \<Rightarrow> bool \<Rightarrow> string \<Rightarrow> string \<Rightarrow> DataDb \<Rightarrow> Envelope list result" where
  "ListFacts collate hasDatabase scopeID generationID db =
     (if \<not> hasDatabase then Inl (Required ''fact store database'')
      else (case scan_all scanFactEnvelope (facts_of collate scopeID generationID db) of
              Inl e \<Rightarrow> Inl (Wrap ''list facts'' e)
            | Inr es \<Rightarrow> Inr es))"

definition CountFacts :: "bool \<Rightarrow> string \<Rightarrow> string \<Rightarrow> DataDb \<Rightarrow> nat result" where
  "CountFacts hasDatabase scopeID generationID db =
     (if \<not> hasDatabase then Inl (Required ''fact store database'')
      else Inr (length (filter (\<lambda>f. fw_ScopeID f = scopeID \<and> fw_GenerationID f = generationID) (dd_Facts db))))"

section \<open>Batches\<close>

text \<open>The last of the envelopes with an identifier.\<close>

definition latest_fact :: "string \<Rightarrow> Envelope list \<Rightarrow> Envelope option" where
  "latest_fact k es = find (\<lambda>e. ev_FactID e = k) (rev es)"

definition find_fact :: "string \<Rightarrow> DataDb \<Rightarrow> FactRow option" where
  "find_fact k db = find (\<lambda>f. fw_FactID f = k) (dd_Facts db)"

lemma find_key_None: "find (\<lambda>t. key t = k) tab = None \<longleftrightarrow> k \<notin> set (map key tab)"
  by (auto simp: find_None_iff)

lemma latest_fact_Cons: "latest_fact k (e # es) =
    (case latest_fact k es of None \<Rightarrow> if ev_FactID e = k then Some e else None | Some x \<Rightarrow> Some x)"
  by (simp add: latest_fact_def find_append split: option.split)

lemma latest_fact_append: "latest_fact k (xs @ ys) = (case latest_fact k ys of None \<Rightarrow> latest_fact k xs | Some x \<Rightarrow> Some x)"
  by (simp add: latest_fact_def find_append split: option.split)

lemma latest_fact_None: "latest_fact k es = None \<longleftrightarrow> k \<notin> set (map ev_FactID es)"
  by (auto simp: latest_fact_def find_None_iff)

lemma latest_fact_mem: "latest_fact k es = Some e \<Longrightarrow> e \<in> set es \<and> ev_FactID e = k"
  using find_mem [of "\<lambda>e. ev_FactID e = k" "rev es" e] by (simp add: latest_fact_def)

lemma dedupe_ids [simp]: "set (map ev_FactID (deduplicateEnvelopes es)) = set (map ev_FactID es)"
  by (induction es) auto

lemma dedupe_subset: "set (deduplicateEnvelopes es) \<subseteq> set es"
  by (induction es) auto

lemma dedupe_distinct: "distinct (map ev_FactID (deduplicateEnvelopes es))"
proof (induction es)
  case (Cons e es)
  then show ?case using dedupe_ids [of es] by (auto simp del: dedupe_ids)
qed simp

lemma dedupe_latest: "latest_fact k (deduplicateEnvelopes es) = latest_fact k es"
proof (induction es)
  case (Cons e es)
  show ?case
  proof (cases "ev_FactID e \<in> set (map ev_FactID es)")
    case True
    then have "latest_fact k es = None \<Longrightarrow> ev_FactID e \<noteq> k" by (auto simp: latest_fact_None)
    with True Cons show ?thesis by (auto simp: latest_fact_Cons split: option.splits)
  next
    case False
    with Cons show ?thesis by (simp add: latest_fact_Cons)
  qed
qed simp

text \<open>The text of the payload column of an envelope, and the row a write leaves.\<close>

definition fact_doc :: "(string \<Rightarrow> string option) \<Rightarrow> Envelope \<Rightarrow> string option" where
  "fact_doc jsonb e = jsonb (marshalPayload (payload_map (ev_Payload e)))"

definition new_fact :: "(string \<Rightarrow> string option) \<Rightarrow> Envelope \<Rightarrow> FactRow" where
  "new_fact jsonb e = fact_row (the (fact_doc jsonb e)) e"

definition written_fact :: "(string \<Rightarrow> string option) \<Rightarrow> Envelope \<Rightarrow> FactRow option \<Rightarrow> FactRow" where
  "written_fact jsonb e old = (case old of None \<Rightarrow> new_fact jsonb e | Some t \<Rightarrow> merge_fact t (new_fact jsonb e))"

text \<open>What the store accepts of a stream.\<close>

definition storable :: "(string \<Rightarrow> string option) \<Rightarrow> Envelope \<Rightarrow> bool" where
  "storable jsonb e \<longleftrightarrow> \<not> is_zero (utc (ev_ObservedAt e)) \<and> fact_doc jsonb e \<noteq> None"

definition has_generation_row :: "string \<Rightarrow> string \<Rightarrow> DataDb \<Rightarrow> bool" where
  "has_generation_row s g db \<longleftrightarrow> s \<in> set (scope_ids db) \<and> g \<in> set (generation_ids db)"

lemma fact_rows_storable: "list_all (storable jsonb) es \<Longrightarrow> fact_rows jsonb es = Some (map (new_fact jsonb) es)"
  by (induction es) (auto simp: storable_def fact_doc_def new_fact_def)

lemma new_fact_simps [simp]: "fw_FactID (new_fact jsonb e) = ev_FactID e" "fw_ScopeID (new_fact jsonb e) = ev_ScopeID e"
  "fw_GenerationID (new_fact jsonb e) = ev_GenerationID e"
  by (simp_all add: new_fact_def fact_row_def)

lemma merge_fact_simps [simp]: "fw_FactID (merge_fact t r) = fw_FactID t" "fw_ScopeID (merge_fact t r) = fw_ScopeID t"
  "fw_GenerationID (merge_fact t r) = fw_GenerationID t" "merge_fact (merge_fact t r) r' = merge_fact t r'"
  by (simp_all add: merge_fact_def)

lemma find_new_facts: "distinct (map ev_FactID es) \<Longrightarrow>
    find (\<lambda>r. fw_FactID r = k) (map (new_fact jsonb) es) = map_option (new_fact jsonb) (latest_fact k es)"
proof (induction es)
  case (Cons e es)
  have "ev_FactID e = k \<Longrightarrow> latest_fact k es = None"
    using Cons.prems by (auto simp: latest_fact_None simp del: distinct_map)
  then have "latest_fact k (e # es) = (if ev_FactID e = k then Some e else latest_fact k es)"
    by (simp add: latest_fact_Cons split: option.split)
  with Cons show ?case by simp
qed (simp add: latest_fact_def)

text \<open>The envelopes of one generation are written from \<open>db\<close> to \<open>db'\<close>: the last one of an identifier wins.\<close>

definition facts_written :: "(string \<Rightarrow> string option) \<Rightarrow> Envelope list \<Rightarrow> DataDb \<Rightarrow> DataDb \<Rightarrow> bool" where
  "facts_written jsonb es db db' \<longleftrightarrow> data_ok db' \<and> db' = db\<lparr>dd_Facts := dd_Facts db'\<rparr>
     \<and> (\<forall>k. find_fact k db' = (case latest_fact k es of None \<Rightarrow> find_fact k db
            | Some e \<Rightarrow> Some (written_fact jsonb e (find_fact k db))))"

lemma upsertFactBatch_writes:
  assumes ok: "data_ok db" and gen: "has_generation_row s g db"
    and es: "list_all (\<lambda>e. storable jsonb e \<and> ev_ScopeID e = s \<and> ev_GenerationID e = g) es" "distinct (map ev_FactID es)"
  shows "\<exists>db'. upsertFactBatch jsonb es db = (None, db') \<and> facts_written jsonb es db db'"
proof -
  let ?rows = "map (new_fact jsonb) es" and ?tab = "dd_Facts db"
  define F where "F = fold (upsert_row fw_FactID merge_fact) ?rows ?tab"
  let ?new = "db\<lparr>dd_Facts := F\<rparr>"
  have st: "list_all (storable jsonb) es" using es(1) by (simp add: list_all_iff)
  have keys: "fw_FactID (merge_fact t r) = fw_FactID r" if "fw_FactID t = fw_FactID r" for t r using that by simp
  have ids: "map fw_FactID ?rows = map ev_FactID es" by simp
  have distinct_tab: "distinct (map fw_FactID F)"
    unfolding F_def by (rule upsert_rows_distinct) (rule keys, assumption, rule data_ok_ids(4) [OF ok])
  let ?P = "\<lambda>f. fw_ScopeID f \<in> set (scope_ids db) \<and> fw_GenerationID f \<in> set (generation_ids db)"
  have old: "\<forall>f \<in> set ?tab. ?P f" using ok by (simp add: data_ok_def constraint_error_None)
  have "\<forall>r \<in> set ?rows. ?P r" using es(1) gen by (auto simp: list_all_iff has_generation_row_def)
  with old have refs: "\<forall>f \<in> set F. ?P f"
    unfolding F_def by (intro upsert_rows_all [where P = ?P]) simp_all
  have none: "constraint_error ?new = None"
    using ok refs by (simp add: data_ok_def constraint_error_None active_scopes_def referenced_active_def scope_ids_def generation_ids_def)
  have ok': "data_ok ?new"
    unfolding data_ok_def using none distinct_tab data_ok_ids [OF ok]
    by (simp add: scope_ids_def generation_ids_def del: distinct_map)
  have found: "find_fact k ?new = (case latest_fact k es of None \<Rightarrow> find_fact k db
      | Some e \<Rightarrow> Some (written_fact jsonb e (find_fact k db)))" for k
  proof -
    have "find (\<lambda>t. fw_FactID t = k) F = (case find (\<lambda>r. fw_FactID r = k) ?rows of
        None \<Rightarrow> find (\<lambda>t. fw_FactID t = k) ?tab
      | Some r \<Rightarrow> Some (case find (\<lambda>t. fw_FactID t = k) ?tab of None \<Rightarrow> r | Some t \<Rightarrow> merge_fact t r))"
      unfolding F_def by (rule find_upsert_rows) (rule keys, assumption, simp only: ids es(2))
    then show ?thesis
      unfolding find_new_facts [OF es(2)] by (simp add: find_fact_def written_fact_def split: option.split)
  qed
  have valid: "first_err (map validateFactEnvelope es) = None"
    using st by (induction es) (simp_all add: storable_def validateFactEnvelope_def)
  have "upsertFactBatch jsonb es db = (None, ?new)"
  proof (cases "es = []")
    case False
    have "upsert_batch fw_FactID merge_fact ?rows ?tab = Inr F"
      unfolding upsert_batch_def ids F_def using es(2) by simp
    with False valid none fact_rows_storable [OF st] show ?thesis
      by (simp add: upsertFactBatch_def statement_def)
  qed (simp add: upsertFactBatch_def F_def)
  moreover have "facts_written jsonb es db ?new" using ok' found by (simp add: facts_written_def)
  ultimately show ?thesis by blast
qed

lemma facts_written_generation: "facts_written jsonb es db db' \<Longrightarrow> has_generation_row s g db' \<longleftrightarrow> has_generation_row s g db"
  unfolding facts_written_def has_generation_row_def scope_ids_def generation_ids_def
  by (metis (no_types, lifting) DataDb.select_convs(1,2) DataDb.surjective DataDb.update_convs(3))

lemma written_twice:
  assumes "ev_FactID e = ev_FactID e'" and "ev_ScopeID e = ev_ScopeID e'" and "ev_GenerationID e = ev_GenerationID e'"
  shows "written_fact jsonb e (Some (written_fact jsonb e' old)) = written_fact jsonb e old"
  using assms by (simp add: written_fact_def merge_fact_def new_fact_def fact_row_def split: option.split)

lemma facts_written_append:
  assumes "facts_written jsonb xs db d" and "facts_written jsonb ys d db'"
    and "list_all (\<lambda>e. ev_ScopeID e = s \<and> ev_GenerationID e = g) (xs @ ys)"
  shows "facts_written jsonb (xs @ ys) db db'"
proof -
  have "find_fact k db' = (case latest_fact k (xs @ ys) of None \<Rightarrow> find_fact k db
      | Some e \<Rightarrow> Some (written_fact jsonb e (find_fact k db)))" for k
  proof (cases "latest_fact k ys")
    case None
    with assms(1,2) show ?thesis by (simp add: facts_written_def latest_fact_append)
  next
    case (Some e)
    show ?thesis
    proof (cases "latest_fact k xs")
      case None
      with Some assms(1,2) show ?thesis by (simp add: facts_written_def latest_fact_append)
    next
      case (Some e')
      with \<open>latest_fact k ys = Some e\<close> have "e \<in> set ys" "e' \<in> set xs" "ev_FactID e = ev_FactID e'"
        by (auto dest: latest_fact_mem)
      then have "written_fact jsonb e (Some (written_fact jsonb e' (find_fact k db))) = written_fact jsonb e (find_fact k db)"
        using assms(3) by (intro written_twice) (auto simp: list_all_iff)
      with Some \<open>latest_fact k ys = Some e\<close> assms(1,2) show ?thesis by (simp add: facts_written_def latest_fact_append)
    qed
  qed
  moreover have "db' = db\<lparr>dd_Facts := dd_Facts db'\<rparr>"
    using assms(1,2) unfolding facts_written_def by (metis DataDb.surjective DataDb.update_convs(3))
  moreover have "data_ok db'" using assms(2) by (simp add: facts_written_def)
  ultimately show ?thesis by (simp add: facts_written_def)
qed

definition good_fact :: "(string \<Rightarrow> string option) \<Rightarrow> string \<Rightarrow> string \<Rightarrow> Envelope \<Rightarrow> bool" where
  "good_fact jsonb s g e \<longleftrightarrow> storable jsonb e \<and> ev_ScopeID e = s \<and> ev_GenerationID e = g"

lemma facts_written_dedupe: "facts_written jsonb (deduplicateEnvelopes es) db db' \<longleftrightarrow> facts_written jsonb es db db'"
  by (simp add: facts_written_def dedupe_latest)

lemma flush_batch_writes:
  assumes "data_ok db" and "has_generation_row s g db" and "list_all (good_fact jsonb s g) batch"
  shows "\<exists>stats' db'. flush_batch jsonb after batch (stats, db, w)
      = (fst (after (deduplicateEnvelopes batch) w), stats', db', snd (after (deduplicateEnvelopes batch) w))
    \<and> facts_written jsonb batch db db'"
proof -
  have "list_all (\<lambda>e. storable jsonb e \<and> ev_ScopeID e = s \<and> ev_GenerationID e = g) (deduplicateEnvelopes batch)"
    using assms(3) dedupe_subset [of batch] by (auto simp: list_all_iff good_fact_def)
  from upsertFactBatch_writes [OF assms(1,2) this dedupe_distinct] obtain d
    where d: "upsertFactBatch jsonb (deduplicateEnvelopes batch) db = (None, d)" "facts_written jsonb (deduplicateEnvelopes batch) db d"
    by blast
  then show ?thesis
    by (cases "after (deduplicateEnvelopes batch) w") (simp add: flush_batch_def Let_def facts_written_dedupe)
qed

lemma stream_loop_writes:
  assumes "stream_loop jsonb s g after batch es st = (r, st')" and "data_ok (fst (snd st))" and "has_generation_row s g (fst (snd st))"
    and "list_all (good_fact jsonb s g) (batch @ es)"
  shows "(r = None \<longrightarrow> facts_written jsonb (batch @ es) (fst (snd st)) (fst (snd st')))
    \<and> ((\<forall>u w. fst (after u w) = None) \<longrightarrow> r = None)"
  using assms
proof (induction jsonb s g after batch es st rule: stream_loop.induct)
  case (1 jsonb s g after batch st)
  obtain stats db w where st: "st = (stats, db, w)" by (cases st)
  show ?case
  proof (cases "batch = []")
    case True
    with 1 show ?thesis by (auto simp: facts_written_def latest_fact_def)
  next
    case False
    from 1 st obtain stats' db' where "flush_batch jsonb after batch st
        = (fst (after (deduplicateEnvelopes batch) w), stats', db', snd (after (deduplicateEnvelopes batch) w))"
      "facts_written jsonb batch db db'"
      using flush_batch_writes [of db s g jsonb batch after stats w] by auto
    with False 1(1) st show ?thesis by auto
  qed
next
  case (2 jsonb s g after batch e es st)
  obtain stats db w where st: "st = (stats, db, w)" by (cases st)
  have e: "ev_ScopeID e = s" "ev_GenerationID e = g" using 2(6) by (simp_all add: good_fact_def)
  show ?case
  proof (cases "factBatchSize \<le> length batch + 1")
    case True
    let ?b = "batch @ [e]"
    from 2(4-6) st obtain stats' d where d: "flush_batch jsonb after ?b st
        = (fst (after (deduplicateEnvelopes ?b) w), stats', d, snd (after (deduplicateEnvelopes ?b) w))"
      "facts_written jsonb ?b db d"
      using flush_batch_writes [of db s g jsonb ?b after stats w] by auto
    show ?thesis
    proof (cases "fst (after (deduplicateEnvelopes ?b) w)")
      case (Some f)
      with True e d 2(3) st show ?thesis by auto
    next
      case None
      let ?st = "(stats', d, snd (after (deduplicateEnvelopes ?b) w))"
      have run: "stream_loop jsonb s g after [] es ?st = (r, st')" using 2(3) e d True None by simp
      have "data_ok d" using d(2) by (simp add: facts_written_def)
      moreover have "has_generation_row s g d" using facts_written_generation [OF d(2)] 2(5) st by simp
      ultimately
      have ih: "(r = None \<longrightarrow> facts_written jsonb es d (fst (snd st'))) \<and> ((\<forall>u w. fst (after u w) = None) \<longrightarrow> r = None)"
        using 2(1) [OF _ _ _ _ _ run] 2(6) e True d None by simp
      have "list_all (\<lambda>e. ev_ScopeID e = s \<and> ev_GenerationID e = g) (?b @ es)"
        using 2(6) by (auto simp: list_all_iff good_fact_def)
      from facts_written_append [OF d(2) _ this] ih st show ?thesis by auto
    qed
  next
    case False
    then have "stream_loop jsonb s g after (batch @ [e]) es st = (r, st')" using 2(3) e by simp
    with 2(2) [OF _ _ _ this] 2(4-6) e False show ?thesis by simp
  qed
qed

section \<open>Streaming writes what single writes would\<close>

lemma single_writes:
  "data_ok db \<Longrightarrow> has_generation_row s g db \<Longrightarrow> list_all (good_fact jsonb s g) es
     \<Longrightarrow> \<exists>db'. exec_batches 1 (upsertFactBatch jsonb) es db = (None, db') \<and> facts_written jsonb es db db'"
proof (induction es arbitrary: db)
  case Nil
  then show ?case by (simp add: facts_written_def latest_fact_def)
next
  case (Cons e es)
  have "list_all (\<lambda>e. storable jsonb e \<and> ev_ScopeID e = s \<and> ev_GenerationID e = g) [e]"
    using Cons.prems(3) by (simp add: good_fact_def)
  from upsertFactBatch_writes [OF Cons.prems(1,2) this] obtain d
    where d: "upsertFactBatch jsonb [e] db = (None, d)" "facts_written jsonb [e] db d" by auto
  from Cons.IH [of d] Cons.prems d(2) obtain db'
    where r: "exec_batches 1 (upsertFactBatch jsonb) es d = (None, db')" "facts_written jsonb es d db'"
    by (auto simp: facts_written_generation) (auto simp: facts_written_def)
  have "list_all (\<lambda>e. ev_ScopeID e = s \<and> ev_GenerationID e = g) ([e] @ es)"
    using Cons.prems(3) by (auto simp: list_all_iff good_fact_def)
  from facts_written_append [OF d(2) r(2) this] r(1) d(1) show ?case
    by (simp add: exec_batches.simps)
qed

lemma mset_of_finds:
  fixes key :: "'a \<Rightarrow> 'k"
  assumes "distinct (map key xs)" and "distinct (map key ys)" and "\<And>k. find (\<lambda>x. key x = k) xs = find (\<lambda>x. key x = k) ys"
  shows "mset xs = mset ys"
proof -
  have "x \<in> set zs \<Longrightarrow> find (\<lambda>y. key y = key x) zs = Some x" if "distinct (map key zs)" for x zs
    using that
  proof (induction zs)
    case (Cons z zs)
    then show ?case
    proof (cases "x = z")
      case False
      with Cons.prems have "x \<in> set zs" "key z \<noteq> key x" by (simp_all del: distinct_map) (metis imageI)
      with Cons show ?thesis by simp
    qed simp
  qed simp
  then have find: "x \<in> set zs \<longleftrightarrow> find (\<lambda>y. key y = key x) zs = Some x" if "distinct (map key zs)" for x zs
    using that find_mem [of "\<lambda>y. key y = key x" zs x] by blast
  have "set xs = set ys" by (rule set_eqI) (simp only: find [OF assms(1)] find [OF assms(2)] assms(3))
  moreover have "distinct xs" "distinct ys" using assms(1,2) by (simp_all add: distinct_map)
  ultimately show ?thesis by (simp add: set_eq_iff_mset_eq_distinct)
qed

lemma written_facts_unique:
  assumes "facts_written jsonb es db d" and "facts_written jsonb es db d'"
  shows "mset (dd_Facts d) = mset (dd_Facts d')"
proof (rule mset_of_finds [where key = fw_FactID])
  show "distinct (map fw_FactID (dd_Facts d))" "distinct (map fw_FactID (dd_Facts d'))"
    using assms by (auto simp: facts_written_def intro: data_ok_ids(4) simp del: distinct_map)
  show "find (\<lambda>x. fw_FactID x = k) (dd_Facts d) = find (\<lambda>x. fw_FactID x = k) (dd_Facts d')" for k
    using assms by (simp add: facts_written_def find_fact_def)
qed

lemma streamed:
  assumes "data_ok db" and "has_generation_row s g db" and "list_all (good_fact jsonb s g) es" and "\<And>u w. fst (after u w) = None"
  shows "\<exists>stats db' w'. upsertStreamingFacts jsonb (Some es) s g after db w = (None, stats, db', w')
    \<and> facts_written jsonb es db db'"
proof -
  obtain r stats db' w' where run: "stream_loop jsonb s g after [] es (\<lparr>fu_Rows = 0, fu_Batches = 0\<rparr>, db, w) = (r, stats, db', w')"
    by (metis prod_cases4)
  from stream_loop_writes [OF this] assms show ?thesis
    using run by (auto simp: upsertStreamingFacts_def)
qed


section \<open>Reading back\<close>

text \<open>What comes back of an envelope: UTC, an empty payload as nil, the reference under its scope.\<close>

definition read_form :: "Envelope \<Rightarrow> Envelope" where
  "read_form e = e\<lparr>ev_ObservedAt := utc (ev_ObservedAt e),
     ev_Payload := (if payload_map (ev_Payload e) = [] then None else ev_Payload e),
     ev_SourceRef := (ev_SourceRef e)\<lparr>ref_ScopeID := ev_ScopeID e, ref_GenerationID := ev_GenerationID e\<rparr>\<rparr>"

text \<open>Payloads the column keeps: encoded without the escape of NUL, and JSONB decodes to what the text does.\<close>

definition carried :: "(string \<Rightarrow> string option) \<Rightarrow> Envelope \<Rightarrow> bool" where
  "carried jsonb e \<longleftrightarrow>
     (let m = payload_map (ev_Payload e) in
      canonical (JObj m) \<and> nesting (JObj m) \<le> max_nesting \<and> \<not> sublist nul_escape (encode_json (JObj m))
      \<and> (case jsonb (marshalPayload m) of
           None \<Rightarrow> False
         | Some doc \<Rightarrow> unmarshalPayload doc = unmarshalPayload (marshalPayload m)))"

lemma scan_new_fact:
  assumes "carried jsonb e"
  shows "scanFactEnvelope (new_fact jsonb e) = Inr (read_form e)"
proof -
  let ?m = "payload_map (ev_Payload e)"
  obtain doc where doc: "jsonb (marshalPayload ?m) = Some doc" "unmarshalPayload doc = unmarshalPayload (marshalPayload ?m)"
    using assms by (auto simp: carried_def Let_def split: option.splits)
  have "unmarshalPayload doc = Inr (if ?m = [] then None else Some ?m)"
    unfolding doc(2) by (rule payload_decodes) (use assms in \<open>auto simp: carried_def Let_def\<close>)
  with doc(1) show ?thesis
    by (cases "ev_Payload e") (simp_all add: scanFactEnvelope_def new_fact_def fact_doc_def fact_row_def read_form_def payload_map_def)
qed

lemma find_fact_mem: "data_ok db \<Longrightarrow> f \<in> set (dd_Facts db) \<longleftrightarrow> find_fact (fw_FactID f) db = Some f"
proof
  assume ok: "data_ok db" and f: "f \<in> set (dd_Facts db)"
  show "find_fact (fw_FactID f) db = Some f"
  proof (cases "find_fact (fw_FactID f) db")
    case None
    with f show ?thesis by (auto simp: find_fact_def find_None_iff)
  next
    case (Some x)
    then have "x \<in> set (dd_Facts db)" "fw_FactID x = fw_FactID f"
      using find_mem [of "\<lambda>x. fw_FactID x = fw_FactID f" "dd_Facts db" x] by (simp_all add: find_fact_def)
    moreover have "inj_on fw_FactID (set (dd_Facts db))" using data_ok_ids(4) [OF ok] by (simp add: distinct_map)
    ultimately show ?thesis using Some f by (simp add: inj_on_def)
  qed
qed (use find_mem [of "\<lambda>x. fw_FactID x = fw_FactID f" "dd_Facts db" f] in \<open>simp add: find_fact_def\<close>)

lemma latest_dedupe_mem: "e \<in> set (deduplicateEnvelopes es) \<longleftrightarrow> latest_fact (ev_FactID e) es = Some e"
proof
  assume "latest_fact (ev_FactID e) es = Some e"
  then have "latest_fact (ev_FactID e) (deduplicateEnvelopes es) = Some e" by (simp add: dedupe_latest)
  from latest_fact_mem [OF this] show "e \<in> set (deduplicateEnvelopes es)" by simp
next
  assume e: "e \<in> set (deduplicateEnvelopes es)"
  then obtain x where x: "latest_fact (ev_FactID e) (deduplicateEnvelopes es) = Some x"
    by (cases "latest_fact (ev_FactID e) (deduplicateEnvelopes es)") (auto simp: latest_fact_None simp del: dedupe_ids)
  from latest_fact_mem [OF this] e have "x = e"
    using dedupe_distinct [of es] by (auto simp: distinct_map dest: inj_onD)
  with x show "latest_fact (ev_FactID e) es = Some e" by (simp add: dedupe_latest)
qed

text \<open>The facts of a generation that had none, as \<open>ListFacts\<close> returns them.\<close>

lemma listed_facts:
  assumes written: "facts_written jsonb es db db'" and carried: "list_all (carried jsonb) es"
    and gen: "list_all (\<lambda>e. ev_ScopeID e = s \<and> ev_GenerationID e = g) es"
    and new: "list_all (\<lambda>f. fw_GenerationID f \<noteq> g \<and> fw_FactID f \<notin> set (map ev_FactID es)) (dd_Facts db)"
  shows "\<exists>xs. ListFacts collate True s g db' = Inr xs \<and> mset xs = mset (map read_form (deduplicateEnvelopes es))"
proof -
  let ?D = "deduplicateEnvelopes es" and ?R = "filter (\<lambda>f. fw_ScopeID f = s \<and> fw_GenerationID f = g) (dd_Facts db')"
  have ok: "data_ok db'" and found: "find_fact k db' = (case latest_fact k es of None \<Rightarrow> find_fact k db
      | Some e \<Rightarrow> Some (written_fact jsonb e (find_fact k db)))" for k
    using written by (simp_all add: facts_written_def)
  have fresh: "find_fact (ev_FactID e) db = None" if "e \<in> set es" for e
    using new that by (auto simp: find_fact_def find_None_iff list_all_iff)
  have "f \<in> set ?R \<longleftrightarrow> f \<in> new_fact jsonb ` set ?D" for f
  proof
    assume f: "f \<in> set ?R"
    then have ff: "find_fact (fw_FactID f) db' = Some f" using find_fact_mem [OF ok] by simp
    show "f \<in> new_fact jsonb ` set ?D"
    proof (cases "latest_fact (fw_FactID f) es")
      case None
      with ff found have "find_fact (fw_FactID f) db = Some f" by simp
      then have "f \<in> set (dd_Facts db)"
        using find_mem [of "\<lambda>x. fw_FactID x = fw_FactID f" "dd_Facts db" f] by (simp add: find_fact_def)
      with new f show ?thesis by (auto simp: list_all_iff)
    next
      case (Some e)
      from latest_fact_mem [OF Some] have e: "e \<in> set es" "ev_FactID e = fw_FactID f" by auto
      then have "f = new_fact jsonb e" using ff found Some fresh [OF e(1)] by (simp add: written_fact_def)
      moreover have "e \<in> set ?D" using Some e(2) by (simp add: latest_dedupe_mem)
      ultimately show ?thesis by blast
    qed
  next
    assume "f \<in> new_fact jsonb ` set ?D"
    then obtain e where e: "f = new_fact jsonb e" "e \<in> set ?D" by blast
    then have es: "e \<in> set es" "latest_fact (ev_FactID e) es = Some e"
      using dedupe_subset [of es] by (auto simp: latest_dedupe_mem)
    then have "find_fact (ev_FactID e) db' = Some f" using found fresh [OF es(1)] e(1) by (simp add: written_fact_def)
    then have "f \<in> set (dd_Facts db')" using e(1) find_fact_mem [OF ok, of f] by simp
    then show "f \<in> set ?R" using e(1) es(1) gen by (simp add: list_all_iff)
  qed
  then have "set ?R = set (map (new_fact jsonb) ?D)" by auto
  moreover have "distinct ?R" using data_ok_ids(4) [OF ok] by (simp add: distinct_map)
  moreover have "distinct (map (new_fact jsonb) ?D)"
    using dedupe_distinct [of es] by (auto simp: distinct_map inj_on_def dest: arg_cong [where f = fw_FactID])
  ultimately have rows: "mset ?R = mset (map (new_fact jsonb) ?D)" by (simp only: set_eq_iff_mset_eq_distinct)
  let ?rows = "facts_of collate s g db'" and ?h = "\<lambda>r. projr (scanFactEnvelope r)"
  have scan: "scanFactEnvelope (new_fact jsonb e) = Inr (read_form e)" if "e \<in> set ?D" for e
    using carried that dedupe_subset [of es] by (intro scan_new_fact) (auto simp: list_all_iff)
  have "scan_all scanFactEnvelope ?rows = Inr (map ?h ?rows)"
  proof (rule scan_all_map)
    fix r assume "r \<in> set ?rows"
    then have "r \<in> set_mset (mset ?R)" by (simp add: facts_of_def)
    then obtain e where "e \<in> set ?D" "r = new_fact jsonb e" unfolding rows by auto
    with scan show "scanFactEnvelope r = Inr (?h r)" by simp
  qed
  moreover have "mset (map ?h ?rows) = mset (map read_form ?D)"
  proof -
    have "mset (map ?h ?rows) = image_mset ?h (mset ?R)" by (simp add: facts_of_def)
    also have "\<dots> = mset (map ?h (map (new_fact jsonb) ?D))" by (simp only: rows mset_map)
    also have "map ?h (map (new_fact jsonb) ?D) = map read_form ?D" using scan by simp
    finally show ?thesis .
  qed
  ultimately show ?thesis by (simp add: ListFacts_def)
qed

section \<open>Examples\<close>

text \<open>A server that prints a document as it was written.\<close>

definition same_text :: "string \<Rightarrow> string option" where "same_text t = Some t"

definition example_fact :: "string \<Rightarrow> string \<Rightarrow> Envelope" where
  "example_fact i path = \<lparr>ev_FactID = i, ev_ScopeID = ''scope-1'', ev_GenerationID = ''gen-1'', ev_FactKind = ''file'',
     ev_StableFactKey = path, ev_ObservedAt = 7, ev_Payload = Some [(''path'', JStr path)], ev_IsTombstone = False,
     ev_SourceRef = \<lparr>ref_SourceSystem = ''git'', ref_ScopeID = ''scope-1'', ref_GenerationID = ''gen-1'', ref_FactKey = path,
       ref_SourceURI = [], ref_SourceRecordID = []\<rparr>\<rparr>"

definition example_scope :: "string option \<Rightarrow> ScopeRow" where
  "example_scope active = \<lparr>sw_ScopeID = ''scope-1'', sw_ScopeKind = ''repository'', sw_SourceSystem = ''git'', sw_SourceKey = ''repo'',
     sw_ParentScopeID = None, sw_CollectorKind = ''git'', sw_PartitionKey = ''p'', sw_ObservedAt = 1, sw_IngestedAt = 2,
     sw_Status = GenerationStatusPending, sw_ActiveGenerationID = active, sw_Payload = ''{}''\<rparr>"

definition one_generation :: DataDb where
  "one_generation = \<lparr>dd_Scopes = [example_scope None],
     dd_Generations = [\<lparr>gw_GenerationID = ''gen-1'', gw_ScopeID = ''scope-1'', gw_TriggerKind = ''push'', gw_FreshnessHint = None,
       gw_ObservedAt = 1, gw_IngestedAt = 2, gw_Status = GenerationStatusPending, gw_ActivatedAt = None, gw_SupersededAt = None\<rparr>],
     dd_Facts = [], dd_Items = []\<rparr>"

lemma one_generation_ok: "data_ok one_generation"
  by (simp add: data_ok_def constraint_error_def one_generation_def active_scopes_def referenced_active_def scope_ids_def
      generation_ids_def example_scope_def List.map_filter_simps)


end
