(* ===== verification/Decimal.thy ===== *)
theory Decimal
  imports Prelude
begin

text \<open>
  The texts Go prints for a \<open>float64\<close>: the shortest decimal that reads back as the same double, as
  \<open>encoding/json\<close> writes it, and the twelve significant digits of \<open>%.12g\<close>. A finite double is the
  rational number it denotes.
\<close>

section \<open>Rounding\<close>

text \<open>To the nearest integer, ties to even.\<close>

definition round_even :: "rat \<Rightarrow> int" where
  "round_even r = (let n = \<lfloor>r\<rfloor>; d = r - of_int n in
     if d < 1 / 2 then n else if d > 1 / 2 then n + 1 else if even n then n else n + 1)"

fun digit_count :: "nat \<Rightarrow> nat \<Rightarrow> nat" where
  "digit_count b n = (if b < 2 \<or> n < b then 1 else Suc (digit_count b (n div b)))"

declare digit_count.simps [simp del]

definition scale :: "nat \<Rightarrow> int \<Rightarrow> rat" where
  "scale b e = (if e \<ge> 0 then of_nat b ^ nat e else 1 / of_nat b ^ nat (- e))"

text \<open>The exponent \<open>e\<close> with \<open>b ^ e \<le> r < b ^ (e + 1)\<close>, for a positive \<open>r\<close>.\<close>

definition exponent :: "nat \<Rightarrow> rat \<Rightarrow> int" where
  "exponent b r =
     (case quotient_of r of (p, q) \<Rightarrow>
        let e = int (digit_count b (nat p)) - int (digit_count b (nat q))
        in if scale b e \<le> r then e else e - 1)"

text \<open>The double nearest to a positive number below the largest double.\<close>

definition nearest_double :: "rat \<Rightarrow> rat" where
  "nearest_double r = (let u = scale 2 (max (exponent 2 r - 52) (-1074)) in of_int (round_even (r / u)) * u)"

section \<open>Digits\<close>

text \<open>\<open>n\<close> significant digits and the decimal exponent of the first one.\<close>

definition rounded_digits :: "nat \<Rightarrow> rat \<Rightarrow> int \<times> int" where
  "rounded_digits n r =
     (let e = exponent 10 r; d = round_even (r * scale 10 (int n - 1 - e))
      in if d \<ge> 10 ^ n then (d div 10, e + 1) else (d, e))"

definition decimal_value :: "nat \<Rightarrow> int \<times> int \<Rightarrow> rat" where
  "decimal_value n = (\<lambda>(d, e). of_int d * scale 10 (e - int n + 1))"

text \<open>The first length at which the rounded digits read back; seventeen always do.\<close>

definition shortest_digits :: "rat \<Rightarrow> nat \<times> int \<times> int" where
  "shortest_digits r =
     (case find (\<lambda>n. nearest_double (decimal_value n (rounded_digits n r)) = r) [1..<17] of
        Some n \<Rightarrow> (n, rounded_digits n r)
      | None \<Rightarrow> (17, rounded_digits 17 r))"

definition trim_zeros :: "string \<Rightarrow> string" where
  "trim_zeros ds = rev (dropWhile (\<lambda>c. c = CHR ''0'') (rev ds))"

text \<open>Digits without an exponent: the point after the digit of weight one.\<close>

definition plain_digits :: "string \<Rightarrow> int \<Rightarrow> string" where
  "plain_digits ds e =
     (if e < 0 then ''0.'' @ replicate (nat (- e - 1)) (CHR ''0'') @ ds
      else let k = nat e + 1 in
        if length ds \<le> k then ds @ replicate (k - length ds) (CHR ''0'')
        else take k ds @ ''.'' @ drop k ds)"

text \<open>Digits with an exponent, of which Go prints at least \<open>w\<close> digits.\<close>

definition exponent_digits :: "nat \<Rightarrow> string \<Rightarrow> int \<Rightarrow> string" where
  "exponent_digits w ds e =
     (let x = show_nat (nat (abs e)) in
      take 1 ds @ (if length ds \<le> 1 then [] else ''.'' @ drop 1 ds) @ ''e'' @ (if e < 0 then ''-'' else ''+'')
        @ replicate (w - length x) (CHR ''0'') @ x)"

text \<open>\<open>encoding/json\<close>: an exponent below \<open>1e-6\<close> and from \<open>1e21\<close> on, one digit of it when it is negative.\<close>

definition json_float :: "rat \<Rightarrow> string" where
  "json_float r =
     (if r = 0 then ''0''
      else (if r < 0 then ''-'' else []) @
        (case shortest_digits (abs r) of (n, d, e) \<Rightarrow>
           let ds = trim_zeros (show_nat (nat d)) in
           if e < -6 then exponent_digits 1 ds e else if e \<ge> 21 then exponent_digits 2 ds e else plain_digits ds e))"

text \<open>\<open>%.12g\<close>: an exponent below \<open>1e-4\<close> and from \<open>1e12\<close> on.\<close>

definition sprintf_12g :: "rat \<Rightarrow> string" where
  "sprintf_12g r =
     (if r = 0 then ''0''
      else (if r < 0 then ''-'' else []) @
        (case rounded_digits 12 (abs r) of (d, e) \<Rightarrow>
           let ds = trim_zeros (show_nat (nat d)) in
           if e < -4 \<or> e \<ge> 12 then exponent_digits 2 ds e else plain_digits ds e))"

end
