(* ===== verification/Relationships.thy ===== *)
theory Relationships
  imports Sha256 Decimal Ordering Payload "HOL-Library.AList"
begin

text \<open>
  \<open>go/internal/relationships/models.go\<close> and \<open>resolver.go\<close>: evidence of relationships between repositories
  and other entities, what operators assert about them, and the resolution of both into at most one
  relationship per source, target and type. A kind, a type and a source of resolution are their
  strings; a confidence is the rational number that the double denotes (the program writes constants
  between 0 and 1); \<open>Details\<close> is a payload in which numbers are the text that \<open>encoding/json\<close> prints.
\<close>

section \<open>Values\<close>

record EvidenceFact =
  ef_EvidenceKind :: string
  ef_RelationshipType :: string
  ef_SourceRepoID :: string
  ef_TargetRepoID :: string
  ef_SourceEntityID :: string
  ef_TargetEntityID :: string
  ef_Confidence :: rat
  ef_Rationale :: string
  ef_Details :: "payload option"

record Assertion =
  as_SourceRepoID :: string
  as_TargetRepoID :: string
  as_SourceEntityID :: string
  as_TargetEntityID :: string
  as_RelationshipType :: string
  as_Decision :: string
  as_Reason :: string
  as_Actor :: string

record RelationshipCandidate =
  rc_SourceRepoID :: string
  rc_TargetRepoID :: string
  rc_SourceEntityID :: string
  rc_TargetEntityID :: string
  rc_RelationshipType :: string
  rc_Confidence :: rat
  rc_EvidenceCount :: nat
  rc_Rationale :: string
  rc_Details :: "payload option"

record ResolvedRelationship =
  rel_SourceRepoID :: string
  rel_TargetRepoID :: string
  rel_SourceEntityID :: string
  rel_TargetEntityID :: string
  rel_RelationshipType :: string
  rel_Confidence :: rat
  rel_EvidenceCount :: nat
  rel_Rationale :: string
  rel_ResolutionSource :: string
  rel_Details :: "payload option"

definition RelRunsOn :: string where "RelRunsOn = ''RUNS_ON''"
definition ResolutionSourceInferred :: string where "ResolutionSourceInferred = ''inferred''"
definition ResolutionSourceAssertion :: string where "ResolutionSourceAssertion = ''assertion''"

text \<open>\<open>json.Marshal\<close> of a map that may be nil.\<close>

definition marshal_details :: "payload option \<Rightarrow> string" where
  "marshal_details d = (case d of None \<Rightarrow> ''null'' | Some m \<Rightarrow> encode_json (JObj m))"

definition entityIdentity :: "string \<Rightarrow> string \<Rightarrow> string" where
  "entityIdentity entityID repoID = (if entityID \<noteq> [] then entityID else repoID)"

definition digest_part :: "string \<Rightarrow> string" where
  "digest_part p = (if p = [] then ''<none>'' else p)"

text \<open>\<open>digest\<close> is \<open>crypto/sha1.Sum\<close>: the digest of a text, as bytes.\<close>

definition relationshipDigest :: "(string \<Rightarrow> nat list) \<Rightarrow> string \<Rightarrow> string list \<Rightarrow> string" where
  "relationshipDigest digest kind parts =
     kind @ ''_'' @ take 16 (hex_bytes (digest (join_with [byte 10] (map digest_part parts))))"

definition ResolvedRelationshipID :: "(string \<Rightarrow> nat list) \<Rightarrow> string \<Rightarrow> ResolvedRelationship \<Rightarrow> nat \<Rightarrow> string" where
  "ResolvedRelationshipID digest generationID r ordinal = relationshipDigest digest ''resolved''
     [generationID, rel_SourceEntityID r, rel_TargetEntityID r, rel_RelationshipType r, show_nat ordinal]"

section \<open>Grouping\<close>

text \<open>\<open>entityTriple\<close>: source, target and type.\<close>

type_synonym entityTriple = "string \<times> string \<times> string"

definition cmp_triple :: "entityTriple \<Rightarrow> entityTriple \<Rightarrow> int" where
  "cmp_triple a b = or_else (compare (fst a) (fst b))
     (or_else (compare (fst (snd a)) (fst (snd b))) (compare (snd (snd a)) (snd (snd b))))"

definition dedupe_key :: "EvidenceFact \<Rightarrow> (string list \<times> rat) \<times> string \<times> string" where
  "dedupe_key f =
     (([ef_RelationshipType f, ef_EvidenceKind f, ef_SourceRepoID f, ef_TargetRepoID f, ef_SourceEntityID f,
        ef_TargetEntityID f], ef_Confidence f), ef_Rationale f, marshal_details (ef_Details f))"

definition DedupeEvidenceFacts :: "EvidenceFact list \<Rightarrow> EvidenceFact list" where
  "DedupeEvidenceFacts facts = first_of_each dedupe_key [] facts"

definition evidence_key :: "EvidenceFact \<Rightarrow> entityTriple option" where
  "evidence_key f =
     (let src = entityIdentity (ef_SourceEntityID f) (ef_SourceRepoID f);
          tgt = entityIdentity (ef_TargetEntityID f) (ef_TargetRepoID f)
      in if src = [] \<or> tgt = [] then None else Some (src, tgt, ef_RelationshipType f))"

definition assertion_key :: "Assertion \<Rightarrow> entityTriple option" where
  "assertion_key a =
     (let src = entityIdentity (as_SourceEntityID a) (as_SourceRepoID a);
          tgt = entityIdentity (as_TargetEntityID a) (as_TargetRepoID a)
      in if src = [] \<or> tgt = [] then None else Some (src, tgt, as_RelationshipType a))"

fun first_nonempty :: "string list \<Rightarrow> string" where
  "first_nonempty [] = []"
| "first_nonempty (s # ss) = (if s \<noteq> [] then s else first_nonempty ss)"

definition max_confidence :: "EvidenceFact list \<Rightarrow> rat" where
  "max_confidence facts = foldl (\<lambda>m f. if m < ef_Confidence f then ef_Confidence f else m) 0 facts"

definition evidence_preview :: "EvidenceFact \<Rightarrow> json" where
  "evidence_preview f = JObj [(''confidence'', JNum (json_float (ef_Confidence f))),
     (''details'', case ef_Details f of None \<Rightarrow> JNull | Some m \<Rightarrow> JObj m), (''kind'', JStr (ef_EvidenceKind f))]"

definition aggregateCandidate :: "entityTriple \<Rightarrow> EvidenceFact list \<Rightarrow> RelationshipCandidate" where
  "aggregateCandidate key facts =
     \<lparr>rc_SourceRepoID = first_nonempty (map ef_SourceRepoID facts),
      rc_TargetRepoID = first_nonempty (map ef_TargetRepoID facts),
      rc_SourceEntityID = fst key, rc_TargetEntityID = fst (snd key), rc_RelationshipType = snd (snd key),
      rc_Confidence = max_confidence facts, rc_EvidenceCount = length facts,
      rc_Rationale = join_with ''; '' (first_of_each id [] (filter (\<lambda>s. s \<noteq> []) (map ef_Rationale facts))),
      rc_Details = Some
        [(''evidence_kinds'', JArr (map JStr (sort_by compare (first_of_each id [] (map ef_EvidenceKind facts))))),
         (''evidence_preview'', JArr (map evidence_preview (take 5 facts)))]\<rparr>"

definition evidence_of :: "entityTriple \<Rightarrow> EvidenceFact list \<Rightarrow> EvidenceFact list" where
  "evidence_of k facts = filter (\<lambda>f. evidence_key f = Some k) facts"

definition evidence_keys :: "EvidenceFact list \<Rightarrow> entityTriple list" where
  "evidence_keys facts = sort_by cmp_triple (first_of_each id [] (List.map_filter evidence_key facts))"

definition buildCandidates :: "EvidenceFact list \<Rightarrow> RelationshipCandidate list" where
  "buildCandidates facts = map (\<lambda>k. aggregateCandidate k (evidence_of k facts)) (evidence_keys facts)"

section \<open>Assertions\<close>

text \<open>The last assertion of each triple, whatever it decides.\<close>

definition latest_assertions :: "Assertion list \<Rightarrow> (entityTriple \<times> Assertion) list" where
  "latest_assertions as =
     fold (\<lambda>a m. case assertion_key a of None \<Rightarrow> m | Some k \<Rightarrow> AList.update k a m) as []"

definition rejections :: "Assertion list \<Rightarrow> entityTriple list" where
  "rejections as = map fst (filter (\<lambda>(_, a). as_Decision a = ''reject'') (latest_assertions as))"

definition explicit_assertions :: "Assertion list \<Rightarrow> (entityTriple \<times> Assertion) list" where
  "explicit_assertions as = filter (\<lambda>(_, a). as_Decision a = ''assert'') (latest_assertions as)"

definition candidate_key :: "RelationshipCandidate \<Rightarrow> entityTriple" where
  "candidate_key c = (rc_SourceEntityID c, rc_TargetEntityID c, rc_RelationshipType c)"

definition resolved_key :: "ResolvedRelationship \<Rightarrow> entityTriple" where
  "resolved_key r = (rel_SourceEntityID r, rel_TargetEntityID r, rel_RelationshipType r)"

definition candidateToResolved :: "RelationshipCandidate \<Rightarrow> ResolvedRelationship" where
  "candidateToResolved c =
     \<lparr>rel_SourceRepoID = rc_SourceRepoID c, rel_TargetRepoID = rc_TargetRepoID c, rel_SourceEntityID = rc_SourceEntityID c,
      rel_TargetEntityID = rc_TargetEntityID c, rel_RelationshipType = rc_RelationshipType c, rel_Confidence = rc_Confidence c,
      rel_EvidenceCount = rc_EvidenceCount c, rel_Rationale = rc_Rationale c, rel_ResolutionSource = ResolutionSourceInferred,
      rel_Details = Some (case rc_Details c of None \<Rightarrow> [] | Some d \<Rightarrow> d)\<rparr>"

definition put_member :: "string \<Rightarrow> json \<Rightarrow> payload \<Rightarrow> payload" where
  "put_member k v m = sort_by (\<lambda>x y. compare (fst x) (fst y)) ((k, v) # filter (\<lambda>(k', _). k' \<noteq> k) m)"

text \<open>What an assertion makes of a relationship that the evidence resolved.\<close>

definition override_resolved :: "entityTriple \<Rightarrow> Assertion \<Rightarrow> ResolvedRelationship \<Rightarrow> ResolvedRelationship" where
  "override_resolved k a r =
     \<lparr>rel_SourceRepoID = entityIdentity (rel_SourceRepoID r) (as_SourceRepoID a),
      rel_TargetRepoID = entityIdentity (rel_TargetRepoID r) (as_TargetRepoID a),
      rel_SourceEntityID = fst k, rel_TargetEntityID = fst (snd k), rel_RelationshipType = as_RelationshipType a,
      rel_Confidence = 1, rel_EvidenceCount = rel_EvidenceCount r, rel_Rationale = as_Reason a,
      rel_ResolutionSource = ResolutionSourceAssertion,
      rel_Details = Some (put_member ''actor'' (JStr (as_Actor a)) (case rel_Details r of None \<Rightarrow> [] | Some d \<Rightarrow> d))\<rparr>"

definition asserted_resolved :: "entityTriple \<Rightarrow> Assertion \<Rightarrow> ResolvedRelationship" where
  "asserted_resolved k a =
     \<lparr>rel_SourceRepoID = as_SourceRepoID a, rel_TargetRepoID = as_TargetRepoID a,
      rel_SourceEntityID = fst k, rel_TargetEntityID = fst (snd k), rel_RelationshipType = as_RelationshipType a,
      rel_Confidence = 1, rel_EvidenceCount = 0, rel_Rationale = as_Reason a, rel_ResolutionSource = ResolutionSourceAssertion,
      rel_Details = Some [(''actor'', JStr (as_Actor a))]\<rparr>"

definition apply_assertion ::
  "entityTriple set \<Rightarrow> entityTriple \<times> Assertion \<Rightarrow> ResolvedRelationship list \<Rightarrow> ResolvedRelationship list" where
  "apply_assertion existing = (\<lambda>(k, a) resolved.
     if k \<in> existing then map (\<lambda>r. if resolved_key r = k then override_resolved k a r else r) resolved
     else resolved @ [asserted_resolved k a])"

definition applyExplicitAssertions ::
  "ResolvedRelationship list \<Rightarrow> (entityTriple \<times> Assertion) list \<Rightarrow> ResolvedRelationship list" where
  "applyExplicitAssertions resolved assertions =
     fold (apply_assertion (set (map resolved_key resolved)))
       (sort_by (\<lambda>x y. cmp_triple (fst x) (fst y)) assertions) resolved"

section \<open>Resolution\<close>

definition DefaultConfidenceThreshold :: rat where "DefaultConfidenceThreshold = 3 / 4"

text \<open>\<open>"%s|%s|%s"\<close>.\<close>

definition dedupe_text :: "ResolvedRelationship \<Rightarrow> string" where
  "dedupe_text r = rel_SourceEntityID r @ ''|'' @ rel_TargetEntityID r @ ''|'' @ rel_RelationshipType r"

definition dedupeResolved :: "ResolvedRelationship list \<Rightarrow> ResolvedRelationship list" where
  "dedupeResolved resolved = first_of_each dedupe_text [] resolved"

definition sortResolved :: "ResolvedRelationship list \<Rightarrow> ResolvedRelationship list" where
  "sortResolved resolved = sort_by (\<lambda>x y. cmp_triple (resolved_key x) (resolved_key y)) resolved"

definition promoted :: "RelationshipCandidate list \<Rightarrow> entityTriple list \<Rightarrow> rat \<Rightarrow> ResolvedRelationship list" where
  "promoted candidates rejected threshold =
     map candidateToResolved (filter (\<lambda>c. candidate_key c \<notin> set rejected \<and> \<not> rc_Confidence c < threshold) candidates)"

definition Resolve ::
  "EvidenceFact list \<Rightarrow> Assertion list \<Rightarrow> rat \<Rightarrow> RelationshipCandidate list \<times> ResolvedRelationship list" where
  "Resolve facts as threshold =
     (let th = (if threshold \<le> 0 then DefaultConfidenceThreshold else threshold);
          candidates = buildCandidates facts
      in (candidates, sortResolved (dedupeResolved
            (applyExplicitAssertions (promoted candidates (rejections as) th) (explicit_assertions as)))))"

section \<open>What the resolution decides\<close>

text \<open>The last assertion about a triple.\<close>

definition latest_assertion :: "Assertion list \<Rightarrow> entityTriple \<Rightarrow> Assertion option" where
  "latest_assertion as k = find (\<lambda>a. assertion_key a = Some k) (rev as)"

lemma latest_assertions_map: "map_of (latest_assertions as) k = latest_assertion as k"
proof (induction as rule: rev_induct)
  case Nil
  show ?case by (simp add: latest_assertions_def latest_assertion_def)
next
  case (snoc a as)
  then show ?case
    by (auto simp: latest_assertions_def latest_assertion_def update_conv' split: option.split)
qed

lemma latest_assertions_distinct: "distinct (map fst (latest_assertions as))"
proof (induction as rule: rev_induct)
  case (snoc a as)
  then show ?case
    by (auto simp: latest_assertions_def distinct_update simp del: distinct_map split: option.split)
qed (simp add: latest_assertions_def)

lemma latest_assertions_mem: "(k, a) \<in> set (latest_assertions as) \<longleftrightarrow> latest_assertion as k = Some a"
  using map_of_eq_Some_iff [OF latest_assertions_distinct] by (simp add: latest_assertions_map)

lemma latest_assertion_key: "latest_assertion as k = Some a \<Longrightarrow> assertion_key a = Some k"
  unfolding latest_assertion_def by (induction as rule: rev_induct) (auto split: if_splits)

lemma latest_assertion_mem: "latest_assertion as k = Some a \<Longrightarrow> a \<in> set as"
  unfolding latest_assertion_def by (induction as rule: rev_induct) (auto split: if_splits)

lemma rejections_iff: "k \<in> set (rejections as) \<longleftrightarrow> (\<exists>a. latest_assertion as k = Some a \<and> as_Decision a = ''reject'')"
  unfolding rejections_def set_map set_filter by (force simp: latest_assertions_mem)

lemma explicit_iff: "(k, a) \<in> set (explicit_assertions as) \<longleftrightarrow> latest_assertion as k = Some a \<and> as_Decision a = ''assert''"
  by (auto simp: explicit_assertions_def latest_assertions_mem)

lemma explicit_distinct: "distinct (map fst (explicit_assertions as))"
  using latest_assertions_distinct unfolding explicit_assertions_def by (rule distinct_map_filter)

definition supported :: "rat \<Rightarrow> EvidenceFact list \<Rightarrow> entityTriple \<Rightarrow> bool" where
  "supported th facts k \<longleftrightarrow> k \<in> set (evidence_keys facts) \<and> th \<le> max_confidence (evidence_of k facts)"

lemma set_map_filter: "set (List.map_filter g xs) = {y. \<exists>x \<in> set xs. g x = Some y}"
  by (force simp: map_filter_def)

lemma evidence_keys_iff: "k \<in> set (evidence_keys facts) \<longleftrightarrow> (\<exists>f \<in> set facts. evidence_key f = Some k)"
proof -
  have "set (evidence_keys facts) = set (List.map_filter evidence_key facts)"
    using set_map_first_of_each [of id "[]" "List.map_filter evidence_key facts"] by (simp add: evidence_keys_def)
  then show ?thesis by (simp add: set_map_filter)
qed

lemma evidence_keys_distinct: "distinct (evidence_keys facts)"
  using distinct_map_first_of_each [of id "[]" "List.map_filter evidence_key facts"] by (simp add: evidence_keys_def)

lemma candidate_key_aggregate [simp]: "candidate_key (aggregateCandidate k facts) = k"
  by (simp add: candidate_key_def aggregateCandidate_def)

lemma resolved_key_simps [simp]:
  "resolved_key (candidateToResolved c) = candidate_key c"
  "resolved_key (override_resolved k a r) = (fst k, fst (snd k), as_RelationshipType a)"
  "resolved_key (asserted_resolved k a) = (fst k, fst (snd k), as_RelationshipType a)"
  by (simp_all add: resolved_key_def candidate_key_def candidateToResolved_def override_resolved_def asserted_resolved_def)

lemma assertion_key_type: "assertion_key a = Some k \<Longrightarrow> (fst k, fst (snd k), as_RelationshipType a) = k"
  by (auto simp: assertion_key_def Let_def split: if_splits)

lemma promoted_keys: "map resolved_key (promoted (buildCandidates facts) rejected th)
    = filter (\<lambda>k. k \<notin> set rejected \<and> \<not> max_confidence (evidence_of k facts) < th) (evidence_keys facts)"
  by (simp add: promoted_def buildCandidates_def filter_map o_def) (simp add: aggregateCandidate_def)

lemma apply_keys:
  "list_all (\<lambda>(k, a). assertion_key a = Some k) L \<Longrightarrow>
   map resolved_key (fold (apply_assertion E) L rs) = map resolved_key rs @ filter (\<lambda>k. k \<notin> E) (map fst L)"
proof (induction L arbitrary: rs)
  case (Cons x L)
  obtain k a where x: "x = (k, a)" by (cases x)
  have type: "(fst k, fst (snd k), as_RelationshipType a) = k" using Cons.prems x by (simp add: assertion_key_type)
  have "map resolved_key (apply_assertion E x rs) = map resolved_key rs @ (if k \<in> E then [] else [k])"
    using type by (auto simp: x apply_assertion_def)
  with Cons x show ?case by simp
qed simp

lemma apply_mem:
  assumes "list_all (\<lambda>(k, a). assertion_key a = Some k) L" and "distinct (map fst L)"
    and "\<And>r. r \<in> set rs \<Longrightarrow> resolved_key r \<in> E \<or> resolved_key r \<notin> fst ` set L"
    and "r \<in> set (fold (apply_assertion E) L rs)"
  shows "case map_of L (resolved_key r) of None \<Rightarrow> r \<in> set rs
    | Some a \<Rightarrow> if resolved_key r \<in> E then \<exists>r0 \<in> set rs. resolved_key r0 = resolved_key r \<and> r = override_resolved (resolved_key r) a r0
        else r = asserted_resolved (resolved_key r) a"
  using assms
proof (induction L arbitrary: rs)
  case (Cons x L)
  obtain k a where x: "x = (k, a)" by (cases x)
  let ?rs = "apply_assertion E x rs"
  have type: "(fst k, fst (snd k), as_RelationshipType a) = k" using Cons.prems(1) x by (simp add: assertion_key_type)
  have fresh: "k \<notin> fst ` set L" using Cons.prems(2) x by simp
  have mem: "q \<in> set ?rs \<Longrightarrow> resolved_key q = k \<and> (if k \<in> E then \<exists>r0 \<in> set rs. resolved_key r0 = k \<and> q = override_resolved k a r0
      else q = asserted_resolved k a) \<or> resolved_key q \<noteq> k \<and> q \<in> set rs" for q
    using type Cons.prems(3) [of q] x by (auto simp: apply_assertion_def split: if_splits)
  have keys: "resolved_key q \<in> E \<or> resolved_key q \<notin> fst ` set L" if "q \<in> set ?rs" for q
    using mem [OF that] Cons.prems(3) [of q] fresh x by auto
  have ih: "case map_of L (resolved_key r) of None \<Rightarrow> r \<in> set ?rs
    | Some a \<Rightarrow> if resolved_key r \<in> E then \<exists>r0 \<in> set ?rs. resolved_key r0 = resolved_key r \<and> r = override_resolved (resolved_key r) a r0
        else r = asserted_resolved (resolved_key r) a"
    using Cons.prems by (intro Cons.IH keys) (simp_all add: x)
  show ?case
  proof (cases "map_of L (resolved_key r)")
    case None
    with ih have "r \<in> set ?rs" by simp
    from mem [OF this] None x show ?thesis by auto
  next
    case (Some b)
    then have "resolved_key r \<noteq> k" using fresh by (metis domI dom_map_of_conv_image_fst)
    with Some ih mem x show ?thesis by (auto split: if_splits) (metis mem)
  qed
qed simp

text \<open>Whether a triple is resolved, and with which confidence, number of evidence facts and source.\<close>

definition asserted :: "Assertion list \<Rightarrow> entityTriple \<Rightarrow> bool" where
  "asserted as k \<longleftrightarrow> (case latest_assertion as k of None \<Rightarrow> False | Some a \<Rightarrow> as_Decision a = ''assert'')"

definition rejected :: "Assertion list \<Rightarrow> entityTriple \<Rightarrow> bool" where
  "rejected as k \<longleftrightarrow> (case latest_assertion as k of None \<Rightarrow> False | Some a \<Rightarrow> as_Decision a = ''reject'')"

definition decided :: "EvidenceFact list \<Rightarrow> Assertion list \<Rightarrow> rat \<Rightarrow> entityTriple \<Rightarrow> bool" where
  "decided facts as th k \<longleftrightarrow> asserted as k \<or> supported th facts k \<and> \<not> rejected as k"

definition decided_view :: "EvidenceFact list \<Rightarrow> Assertion list \<Rightarrow> rat \<Rightarrow> entityTriple \<Rightarrow> rat \<times> nat \<times> string" where
  "decided_view facts as th k =
     (if asserted as k then (1, if supported th facts k then length (evidence_of k facts) else 0, ResolutionSourceAssertion)
      else (max_confidence (evidence_of k facts), length (evidence_of k facts), ResolutionSourceInferred))"

definition resolved_view :: "ResolvedRelationship \<Rightarrow> rat \<times> nat \<times> string" where
  "resolved_view r = (rel_Confidence r, rel_EvidenceCount r, rel_ResolutionSource r)"

text \<open>Identifiers that the separator of the duplicate check does not occur in.\<close>

definition plain_triple :: "entityTriple \<Rightarrow> bool" where
  "plain_triple k \<longleftrightarrow> CHR ''|'' \<notin> set (fst k) \<and> CHR ''|'' \<notin> set (fst (snd k))"

definition plain_names :: "EvidenceFact list \<Rightarrow> Assertion list \<Rightarrow> bool" where
  "plain_names facts as \<longleftrightarrow> list_all plain_triple (List.map_filter evidence_key facts @ List.map_filter assertion_key as)"

lemma plain_names_subset: "set xs \<subseteq> set facts \<Longrightarrow> plain_names facts as \<Longrightarrow> plain_names xs as"
  unfolding plain_names_def list_all_iff set_append set_map_filter by blast

lemma split_plain: "c \<notin> set a \<Longrightarrow> c \<notin> set b \<Longrightarrow> a @ c # x = b @ c # y \<longleftrightarrow> a = b \<and> x = y"
proof (induction a arbitrary: b)
  case Nil
  then show ?case by (cases b) auto
next
  case (Cons d a)
  then show ?case by (cases b) auto
qed

lemma plain_text_inj:
  assumes "plain_triple (resolved_key r)" and "plain_triple (resolved_key q)"
  shows "dedupe_text r = dedupe_text q \<longleftrightarrow> resolved_key r = resolved_key q"
  using assms by (auto simp: dedupe_text_def resolved_key_def plain_triple_def split_plain)

lemma first_of_each_id:
  "distinct (map key xs) \<Longrightarrow> set (map key xs) \<inter> set seen = {} \<Longrightarrow> first_of_each key seen xs = xs"
  by (induction xs arbitrary: seen) auto

lemma comparator_triple: "comparator cmp_triple"
  unfolding cmp_triple_def by (intro comparator_lex comparator_key)

lemma cmp_triple_zero: "cmp_triple a b = 0 \<longleftrightarrow> a = b"
  by (auto simp: cmp_triple_def prod_eq_iff)

lemma sortResolved_keys:
  assumes "distinct (map resolved_key rs)"
  shows "sorted_wrt (\<lambda>a b. cmp_triple a b < 0) (map resolved_key (sortResolved rs))"
proof -
  have le: "sorted_wrt (\<lambda>x y. cmp_triple (resolved_key x) (resolved_key y) \<le> 0) (sortResolved rs)"
    using comparator.ordered_sort_by [OF comparator_via [OF comparator_triple]] by (simp add: sortResolved_def ordered_def)
  have "distinct (map resolved_key (sortResolved rs))" using assms by (simp add: sortResolved_def)
  then have "sorted_wrt (\<lambda>x y. resolved_key x \<noteq> resolved_key y) (sortResolved rs)"
    by (simp add: sorted_wrt_iff_nth_less distinct_conv_nth del: distinct_map)
  with le have "sorted_wrt (\<lambda>x y. cmp_triple (resolved_key x) (resolved_key y) < 0) (sortResolved rs)"
    by (simp add: sorted_wrt_iff_nth_less) (metis cmp_triple_zero order_le_less)
  then show ?thesis by (simp add: sorted_wrt_map)
qed

text \<open>The relationships before they are sorted.\<close>

definition overridden :: "EvidenceFact list \<Rightarrow> Assertion list \<Rightarrow> rat \<Rightarrow> ResolvedRelationship list" where
  "overridden facts as th = applyExplicitAssertions (promoted (buildCandidates facts) (rejections as) th) (explicit_assertions as)"

lemma promoted_key_iff:
  "k \<in> set (map resolved_key (promoted (buildCandidates facts) (rejections as) th)) \<longleftrightarrow> supported th facts k \<and> \<not> rejected as k"
  unfolding promoted_keys by (auto simp: supported_def rejected_def rejections_iff split: option.splits)

lemma overridden_keys:
  "distinct (map resolved_key (overridden facts as th))
   \<and> set (map resolved_key (overridden facts as th)) = {k. decided facts as th k}"
proof -
  let ?rs = "promoted (buildCandidates facts) (rejections as) th"
  let ?L = "sort_by (\<lambda>x y. cmp_triple (fst x) (fst y)) (explicit_assertions as)"
  have L: "list_all (\<lambda>(k, a). assertion_key a = Some k) ?L"
    by (auto simp: list_all_iff explicit_iff dest: latest_assertion_key)
  have keys: "map resolved_key (overridden facts as th)
      = map resolved_key ?rs @ filter (\<lambda>k. k \<notin> set (map resolved_key ?rs)) (map fst ?L)"
    unfolding overridden_def applyExplicitAssertions_def by (rule apply_keys [OF L])
  have "k \<in> set (map fst ?L) \<longleftrightarrow> asserted as k" for k
  proof -
    have "k \<in> set (map fst ?L) \<longleftrightarrow> (\<exists>a. (k, a) \<in> set (explicit_assertions as))" by force
    then show ?thesis by (auto simp: explicit_iff asserted_def split: option.splits)
  qed
  moreover have "distinct (map fst ?L)" using explicit_distinct by (simp only: distinct_map_sort_by)
  moreover have "distinct (map resolved_key ?rs)" unfolding promoted_keys by (simp add: evidence_keys_distinct)
  ultimately show ?thesis
    unfolding keys by (auto simp: decided_def promoted_key_iff simp del: distinct_map set_map)
qed

lemma view_candidate:
  "resolved_view (candidateToResolved (aggregateCandidate k fs)) = (max_confidence fs, length fs, ResolutionSourceInferred)"
  by (simp add: resolved_view_def candidateToResolved_def aggregateCandidate_def)

lemma view_override:
  "resolved_view (override_resolved k a r) = (1, rel_EvidenceCount r, ResolutionSourceAssertion)"
  "resolved_view (asserted_resolved k a) = (1, 0, ResolutionSourceAssertion)"
  by (simp_all add: resolved_view_def override_resolved_def asserted_resolved_def)

lemma overridden_view:
  assumes "r \<in> set (overridden facts as th)"
  shows "resolved_view r = decided_view facts as th (resolved_key r)"
proof -
  let ?rs = "promoted (buildCandidates facts) (rejections as) th" and ?k = "resolved_key r"
  let ?E = "set (map resolved_key ?rs)"
  let ?L = "sort_by (\<lambda>x y. cmp_triple (fst x) (fst y)) (explicit_assertions as)"
  have L: "list_all (\<lambda>(k, a). assertion_key a = Some k) ?L"
    by (auto simp: list_all_iff explicit_iff dest: latest_assertion_key)
  have dL: "distinct (map fst ?L)" using explicit_distinct by (simp only: distinct_map_sort_by)
  have view: "resolved_view q = (max_confidence (evidence_of (resolved_key q) facts), length (evidence_of (resolved_key q) facts), ResolutionSourceInferred)"
    if "q \<in> set ?rs" for q
    using that by (auto simp: promoted_def buildCandidates_def view_candidate)
  have mem: "case map_of ?L ?k of None \<Rightarrow> r \<in> set ?rs
    | Some a \<Rightarrow> if ?k \<in> ?E then \<exists>r0 \<in> set ?rs. resolved_key r0 = ?k \<and> r = override_resolved ?k a r0 else r = asserted_resolved ?k a"
    using assms by (intro apply_mem [OF L dL]) (auto simp: overridden_def applyExplicitAssertions_def)
  have asserted: "asserted as ?k \<longleftrightarrow> map_of ?L ?k \<noteq> None"
  proof -
    have "map_of ?L ?k \<noteq> None \<longleftrightarrow> (\<exists>a. (?k, a) \<in> set (explicit_assertions as))"
      by (auto simp: map_of_eq_None_iff image_iff) force
    then show ?thesis by (auto simp: explicit_iff asserted_def split: option.splits)
  qed
  show ?thesis
  proof (cases "map_of ?L ?k")
    case None
    with mem asserted view show ?thesis by (simp add: decided_view_def)
  next
    case (Some a)
    then have "\<not> rejected as ?k" using asserted by (auto simp: asserted_def rejected_def split: option.splits)
    then have E: "?k \<in> ?E \<longleftrightarrow> supported th facts ?k" by (simp only: promoted_key_iff) simp
    show ?thesis
    proof (cases "?k \<in> ?E")
      case True
      with mem Some obtain r0 where r0: "r0 \<in> set ?rs" "resolved_key r0 = ?k" and r: "r = override_resolved ?k a r0" by auto
      have "resolved_view r = (1, rel_EvidenceCount r0, ResolutionSourceAssertion)"
        using arg_cong [OF r, of resolved_view] by (simp only: view_override)
      moreover have "rel_EvidenceCount r0 = length (evidence_of ?k facts)"
        using view [OF r0(1)] r0(2) by (simp add: resolved_view_def)
      ultimately show ?thesis using Some asserted E True by (simp add: decided_view_def)
    next
      case False
      with mem Some have r: "r = asserted_resolved ?k a" by simp
      have "resolved_view r = (1, 0, ResolutionSourceAssertion)"
        using arg_cong [OF r, of resolved_view] by (simp only: view_override)
      then show ?thesis using Some asserted E False by (simp add: decided_view_def)
    qed
  qed
qed

definition effective_threshold :: "rat \<Rightarrow> rat" where
  "effective_threshold th = (if th \<le> 0 then DefaultConfidenceThreshold else th)"

lemma decided_plain:
  assumes "plain_names facts as" and "decided facts as th k"
  shows "plain_triple k"
proof -
  have "(\<exists>f \<in> set facts. evidence_key f = Some k) \<or> (\<exists>a \<in> set as. assertion_key a = Some k)"
  proof (cases "asserted as k")
    case True
    then obtain a where a: "latest_assertion as k = Some a" by (auto simp: asserted_def split: option.splits)
    from latest_assertion_mem [OF a] latest_assertion_key [OF a] show ?thesis by blast
  next
    case False
    with assms(2) show ?thesis by (auto simp: decided_def supported_def evidence_keys_iff)
  qed
  then have "k \<in> set (List.map_filter evidence_key facts @ List.map_filter assertion_key as)"
    by (simp add: set_map_filter)
  then show ?thesis using assms(1) by (simp add: plain_names_def list_all_iff)
qed

lemma resolve_list:
  assumes "plain_names facts as"
  shows "snd (Resolve facts as threshold) = sortResolved (overridden facts as (effective_threshold threshold))"
proof -
  let ?rs = "overridden facts as (effective_threshold threshold)"
  have plain: "plain_triple (resolved_key r)" if "r \<in> set ?rs" for r
  proof -
    have "resolved_key r \<in> set (map resolved_key ?rs)" using that by simp
    then show ?thesis using overridden_keys decided_plain [OF assms] by blast
  qed
  have "distinct (map dedupe_text ?rs)"
    using overridden_keys [of facts as "effective_threshold threshold"] plain plain_text_inj
    by (auto simp: distinct_map inj_on_def)
  then have "dedupeResolved ?rs = ?rs" by (simp add: dedupeResolved_def first_of_each_id del: distinct_map)
  then show ?thesis by (simp add: Resolve_def Let_def overridden_def effective_threshold_def)
qed

lemma resolution_view:
  assumes "plain_names facts as"
  shows "sorted_wrt (\<lambda>a b. cmp_triple a b < 0) (map resolved_key (snd (Resolve facts as threshold)))"
    and "set (map resolved_key (snd (Resolve facts as threshold))) = {k. decided facts as (effective_threshold threshold) k}"
    and "\<forall>r \<in> set (snd (Resolve facts as threshold)).
      resolved_view r = decided_view facts as (effective_threshold threshold) (resolved_key r)"
proof -
  let ?rs = "overridden facts as (effective_threshold threshold)"
  show "sorted_wrt (\<lambda>a b. cmp_triple a b < 0) (map resolved_key (snd (Resolve facts as threshold)))"
    unfolding resolve_list [OF assms] using overridden_keys by (intro sortResolved_keys) blast
  have "set (sortResolved ?rs) = set ?rs" by (simp add: sortResolved_def)
  then show "set (map resolved_key (snd (Resolve facts as threshold))) = {k. decided facts as (effective_threshold threshold) k}"
    and "\<forall>r \<in> set (snd (Resolve facts as threshold)).
      resolved_view r = decided_view facts as (effective_threshold threshold) (resolved_key r)"
    unfolding resolve_list [OF assms] using overridden_keys [of facts as "effective_threshold threshold"] overridden_view
    by (simp_all only: set_map) blast+
qed

text \<open>
  C26: the resolution decides every triple of source, target and type once. A triple is resolved
  exactly when its last assertion asserts it, or when its evidence reaches the threshold and its
  last assertion does not reject it; the confidence is 1 and the source the assertion in the first
  case, and in the second the confidence is the greatest of its evidence. The result is sorted
  without duplicates. Identifiers are free of the character \<open>|\<close>.
\<close>

theorem resolution_decides:
  assumes "plain_names facts as" and "snd (Resolve facts as threshold) = res" and "effective_threshold threshold = th"
  shows "sorted_wrt (\<lambda>a b. cmp_triple a b < 0) (map resolved_key res)
    \<and> set (map resolved_key res) = {k. decided facts as th k}
    \<and> (\<forall>r \<in> set res. resolved_view r = decided_view facts as th (resolved_key r))"
  using resolution_view [OF assms(1), of threshold] assms(2,3) by blast

lemma strictly_sorted_unique:
  assumes "sorted_wrt (\<lambda>a b. cmp_triple a b < 0) xs" and "sorted_wrt (\<lambda>a b. cmp_triple a b < 0) ys" and "set xs = set ys"
  shows "xs = ys"
proof (rule comparator.sort_unique [OF comparator_triple])
  have le: "ordered cmp_triple zs" and distinct: "distinct zs"
    if "sorted_wrt (\<lambda>a b. cmp_triple a b < 0) zs" for zs
  proof -
    show "ordered cmp_triple zs"
      unfolding ordered_def by (rule sorted_wrt_mono_rel [OF _ that]) simp
    have "\<not> cmp_triple z z < 0" for z using cmp_triple_zero [of z z] by simp
    with that show "distinct zs" by (induction zs) auto
  qed
  show "ordered cmp_triple xs" "ordered cmp_triple ys" using assms(1,2) by (simp_all add: le)
  show "mset xs = mset ys" using distinct [OF assms(1)] distinct [OF assms(2)] assms(3) by (simp add: set_eq_iff_mset_eq_distinct)
qed (simp add: cmp_triple_zero)

lemma max_confidence_fold: "foldl (\<lambda>m f. if m < ef_Confidence f then ef_Confidence f else m) m fs = fold max (map ef_Confidence fs) m"
  by (induction fs arbitrary: m) (simp_all add: max_def)

lemma max_confidence_perm:
  assumes "mset fs = mset fs'"
  shows "max_confidence fs = max_confidence fs'"
proof -
  have "fold max (map ef_Confidence fs) = fold max (map ef_Confidence fs')"
    by (rule fold_multiset_equiv) (simp_all add: fun_eq_iff max.left_commute assms)
  then show ?thesis by (simp add: max_confidence_def max_confidence_fold)
qed

lemma decided_perm:
  assumes "mset facts = mset facts'"
  shows "decided facts as th = decided facts' as th" and "decided_view facts as th = decided_view facts' as th"
proof -
  have ev: "mset (evidence_of k facts) = mset (evidence_of k facts')" for k
    using assms by (simp add: evidence_of_def)
  have "set facts = set facts'" using assms by (metis set_mset_mset)
  then have "supported th facts k = supported th facts' k" for k
    using max_confidence_perm [OF ev] by (simp add: supported_def evidence_keys_iff)
  moreover have "length (evidence_of k facts) = length (evidence_of k facts')" for k using ev by (metis size_mset)
  ultimately show "decided facts as th = decided facts' as th" "decided_view facts as th = decided_view facts' as th"
    using max_confidence_perm [OF ev] by (simp_all add: fun_eq_iff decided_def decided_view_def)
qed

lemma resolve_order_free:
  assumes "plain_names facts as" and "mset facts = mset facts'"
  shows "map (\<lambda>r. (resolved_key r, resolved_view r)) (snd (Resolve facts as threshold))
    = map (\<lambda>r. (resolved_key r, resolved_view r)) (snd (Resolve facts' as threshold))"
proof -
  let ?th = "effective_threshold threshold"
  have "set facts = set facts'" using assms(2) by (metis set_mset_mset)
  then have plain: "plain_names facts' as" using assms(1) by (simp add: plain_names_def list_all_iff set_map_filter)
  have pairs: "map (\<lambda>r. (resolved_key r, resolved_view r)) (snd (Resolve fs as threshold))
      = map (\<lambda>k. (k, decided_view fs as ?th k)) (map resolved_key (snd (Resolve fs as threshold)))" if "plain_names fs as" for fs
    using resolution_view(3) [OF that, of threshold] by simp
  have "map resolved_key (snd (Resolve facts as threshold)) = map resolved_key (snd (Resolve facts' as threshold))"
    by (rule strictly_sorted_unique)
      (use resolution_view(1,2) [OF assms(1), of threshold] resolution_view(1,2) [OF plain, of threshold] decided_perm(1) [OF assms(2)]
        in \<open>simp_all only:\<close>)
  then show ?thesis unfolding pairs [OF assms(1)] pairs [OF plain] by (simp only: decided_perm(2) [OF assms(2)])
qed


section \<open>Examples\<close>

definition example_evidence :: "string \<Rightarrow> string \<Rightarrow> rat \<Rightarrow> EvidenceFact" where
  "example_evidence src tgt c = \<lparr>ef_EvidenceKind = ''HELM_CHART_REFERENCE'', ef_RelationshipType = ''DEPENDS_ON'',
     ef_SourceRepoID = src, ef_TargetRepoID = tgt, ef_SourceEntityID = [], ef_TargetEntityID = [], ef_Confidence = c,
     ef_Rationale = ''chart'', ef_Details = None\<rparr>"

definition example_assertion :: "string \<Rightarrow> string \<Rightarrow> string \<Rightarrow> Assertion" where
  "example_assertion src tgt decision = \<lparr>as_SourceRepoID = src, as_TargetRepoID = tgt, as_SourceEntityID = [],
     as_TargetEntityID = [], as_RelationshipType = ''DEPENDS_ON'', as_Decision = decision, as_Reason = ''review'', as_Actor = ''ops''\<rparr>"

lemma example_keys [simp]:
  "src \<noteq> [] \<Longrightarrow> tgt \<noteq> [] \<Longrightarrow> evidence_key (example_evidence src tgt c) = Some (src, tgt, ''DEPENDS_ON'')"
  "src \<noteq> [] \<Longrightarrow> tgt \<noteq> [] \<Longrightarrow> assertion_key (example_assertion src tgt d) = Some (src, tgt, ''DEPENDS_ON'')"
  by (simp_all add: evidence_key_def assertion_key_def example_evidence_def example_assertion_def entityIdentity_def)

text \<open>
  The duplicate check can drop a relationship. It compares source, target and type joined with
  \<open>|\<close>, so where an identifier contains that character, two different relationships that both
  reach the threshold count as one, and the second is not resolved.
\<close>

theorem separator_drops_relationship:
  "length (fst (Resolve [example_evidence ''a|b'' ''c'' (9/10), example_evidence ''a'' ''b|c'' (9/10)] [] 0)) = 2
   \<and> list_all (\<lambda>c. DefaultConfidenceThreshold \<le> rc_Confidence c)
       (fst (Resolve [example_evidence ''a|b'' ''c'' (9/10), example_evidence ''a'' ''b|c'' (9/10)] [] 0))
   \<and> map resolved_key (snd (Resolve [example_evidence ''a|b'' ''c'' (9/10), example_evidence ''a'' ''b|c'' (9/10)] [] 0))
     = [(''a'', ''b|c'', ''DEPENDS_ON'')]"
proof -
  let ?e = "[example_evidence ''a|b'' ''c'' (9/10), example_evidence ''a'' ''b|c'' (9/10)]"
  have keys: "evidence_keys ?e = [(''a'', ''b|c'', ''DEPENDS_ON''), (''a|b'', ''c'', ''DEPENDS_ON'')]"
    by (simp add: evidence_keys_def List.map_filter_simps) code_simp
  have ev: "evidence_of (''a'', ''b|c'', ''DEPENDS_ON'') ?e = [example_evidence ''a'' ''b|c'' (9/10)]"
    "evidence_of (''a|b'', ''c'', ''DEPENDS_ON'') ?e = [example_evidence ''a|b'' ''c'' (9/10)]"
    by (simp_all add: evidence_of_def)
  have conf: "max_confidence [example_evidence s t (9/10)] = 9/10" for s t
    by (simp add: max_confidence_def example_evidence_def)
  let ?c = "[aggregateCandidate (''a'', ''b|c'', ''DEPENDS_ON'') [example_evidence ''a'' ''b|c'' (9/10)],
     aggregateCandidate (''a|b'', ''c'', ''DEPENDS_ON'') [example_evidence ''a|b'' ''c'' (9/10)]]"
  have cands: "buildCandidates ?e = ?c" by (simp add: buildCandidates_def keys ev)
  have rc: "rc_Confidence (aggregateCandidate k [example_evidence s t (9/10)]) = 9/10" for k s t
    by (simp add: aggregateCandidate_def conf)
  have prom: "promoted ?c [] DefaultConfidenceThreshold = map candidateToResolved ?c"
    by (simp add: promoted_def rc DefaultConfidenceThreshold_def)
  have none: "rejections [] = []" "explicit_assertions [] = []"
    by (simp_all add: rejections_def explicit_assertions_def latest_assertions_def)
  have joined: "dedupe_text (candidateToResolved (aggregateCandidate k fs)) = fst k @ ''|'' @ fst (snd k) @ ''|'' @ snd (snd k)" for k fs
    by (simp add: dedupe_text_def candidateToResolved_def aggregateCandidate_def)
  have "snd (Resolve ?e [] 0) = [candidateToResolved (hd ?c)]"
    by (simp add: Resolve_def cands none prom applyExplicitAssertions_def dedupeResolved_def joined sortResolved_def sort_by_def)
  moreover have "fst (Resolve ?e [] 0) = ?c" by (simp add: Resolve_def cands Let_def)
  ultimately show ?thesis by (simp add: rc DefaultConfidenceThreshold_def)
qed

lemma resolution_decides_witness:
  "\<exists>res. snd (Resolve [example_evidence ''web'' ''api'' (4/5), example_evidence ''web'' ''db'' (1/2), example_evidence ''api'' ''db'' (9/10)]
      [example_assertion ''web'' ''db'' ''assert'', example_assertion ''api'' ''db'' ''assert'', example_assertion ''api'' ''db'' ''reject''] 0) = res
    \<and> (''web'', ''api'', ''DEPENDS_ON'') \<in> set (map resolved_key res)
    \<and> (''web'', ''db'', ''DEPENDS_ON'') \<in> set (map resolved_key res)
    \<and> (''api'', ''db'', ''DEPENDS_ON'') \<notin> set (map resolved_key res)"
proof -
  let ?e = "[example_evidence ''web'' ''api'' (4/5), example_evidence ''web'' ''db'' (1/2), example_evidence ''api'' ''db'' (9/10)]"
  let ?a = "[example_assertion ''web'' ''db'' ''assert'', example_assertion ''api'' ''db'' ''assert'', example_assertion ''api'' ''db'' ''reject'']"
  have plain: "plain_names ?e ?a" by (simp add: plain_names_def List.map_filter_simps plain_triple_def)
  have "effective_threshold 0 = 3/4" by (simp add: effective_threshold_def DefaultConfidenceThreshold_def)
  from resolution_decides [OF plain refl this]
  have keys: "set (map resolved_key (snd (Resolve ?e ?a 0))) = {k. decided ?e ?a (3/4) k}" by blast
  have "decided ?e ?a (3/4) (''web'', ''api'', ''DEPENDS_ON'')" "decided ?e ?a (3/4) (''web'', ''db'', ''DEPENDS_ON'')"
    "\<not> decided ?e ?a (3/4) (''api'', ''db'', ''DEPENDS_ON'')"
    by (simp_all add: decided_def asserted_def rejected_def latest_assertion_def supported_def evidence_keys_iff evidence_of_def
        max_confidence_def) (simp_all add: example_assertion_def example_evidence_def)
  then show ?thesis by (intro exI [of _ "snd (Resolve ?e ?a 0)"]) (simp only: keys mem_Collect_eq simp_thms)
qed


end
