(* ===== verification/RelationshipStore.thy ===== *)
theory RelationshipStore
  imports Relationships Sql
begin

text \<open>
  \<open>go/internal/storage/postgres/relationship_store.go\<close>, \<open>relationship_store_resolved.go\<close> and
  \<open>relationship_schema.go\<close>: the tables of relationship assertions, evidence, candidates, resolved
  relationships and their generations, and the statements on them. \<open>digest\<close> is SHA-1, \<open>jsonb\<close> the cast
  of text to JSONB, \<open>collate\<close> the collation that orders text; \<open>now\<close> is the clock of a call. Every
  statement runs on its own: an error leaves what the ones before it wrote.
\<close>

section \<open>Tables\<close>

record AssertionRow =
  ax_AssertionID :: string
  ax_SourceRepoID :: string
  ax_TargetRepoID :: string
  ax_SourceEntityID :: "string option"
  ax_TargetEntityID :: "string option"
  ax_RelationshipType :: string
  ax_Decision :: string
  ax_Reason :: string
  ax_Actor :: string
  ax_CreatedAt :: time
  ax_UpdatedAt :: time

record RelationshipGenerationRow =
  rg_GenerationID :: string
  rg_Scope :: string
  rg_RunID :: "string option"
  rg_Status :: string
  rg_CreatedAt :: time
  rg_ActivatedAt :: "time option"

record EvidenceRow =
  ew_EvidenceID :: string
  ew_GenerationID :: string
  ew_EvidenceKind :: string
  ew_RelationshipType :: string
  ew_SourceRepoID :: "string option"
  ew_TargetRepoID :: "string option"
  ew_SourceEntityID :: "string option"
  ew_TargetEntityID :: "string option"
  ew_Confidence :: rat
  ew_Rationale :: string
  ew_Details :: string
  ew_ObservedAt :: time

record CandidateRow =
  kw_CandidateID :: string
  kw_GenerationID :: string
  kw_SourceRepoID :: "string option"
  kw_TargetRepoID :: "string option"
  kw_SourceEntityID :: "string option"
  kw_TargetEntityID :: "string option"
  kw_RelationshipType :: string
  kw_Confidence :: rat
  kw_EvidenceCount :: int
  kw_Rationale :: string
  kw_Details :: string

record ResolvedRow =
  rv_ResolvedID :: string
  rv_GenerationID :: string
  rv_SourceRepoID :: "string option"
  rv_TargetRepoID :: "string option"
  rv_SourceEntityID :: "string option"
  rv_TargetEntityID :: "string option"
  rv_RelationshipType :: string
  rv_Confidence :: rat
  rv_EvidenceCount :: int
  rv_Rationale :: string
  rv_ResolutionSource :: string
  rv_Details :: string

record RelationshipDb =
  rd_Assertions :: "AssertionRow list"
  rd_Generations :: "RelationshipGenerationRow list"
  rd_Evidence :: "EvidenceRow list"
  rd_Candidates :: "CandidateRow list"
  rd_Resolved :: "ResolvedRow list"

text \<open>\<open>COALESCE(entity, repo)\<close>.\<close>

definition or_null :: "string option \<Rightarrow> string option \<Rightarrow> string option" where
  "or_null a b = (case a of Some _ \<Rightarrow> a | None \<Rightarrow> b)"

definition coalesceNullable :: "string \<Rightarrow> string \<Rightarrow> string option" where
  "coalesceNullable a b = (if a \<noteq> [] then Some a else nullif b)"

text \<open>\<open>resolved_relationships_identity_idx\<close>: unique where source and target are not NULL.\<close>

definition resolved_identity :: "ResolvedRow \<Rightarrow> (string \<times> string \<times> string \<times> string) option" where
  "resolved_identity r =
     (case (or_null (rv_SourceEntityID r) (rv_SourceRepoID r), or_null (rv_TargetEntityID r) (rv_TargetRepoID r)) of
        (Some s, Some t) \<Rightarrow> Some (rv_GenerationID r, s, t, rv_RelationshipType r)
      | _ \<Rightarrow> None)"

section \<open>Assertions\<close>

definition assertion_id :: "(string \<Rightarrow> nat list) \<Rightarrow> Assertion \<Rightarrow> string" where
  "assertion_id digest a = relationshipDigest digest ''assertion'' [as_RelationshipType a, as_SourceRepoID a, as_TargetRepoID a]"

definition assertion_row :: "(string \<Rightarrow> nat list) \<Rightarrow> time \<Rightarrow> Assertion \<Rightarrow> AssertionRow" where
  "assertion_row digest now a =
     \<lparr>ax_AssertionID = assertion_id digest a, ax_SourceRepoID = as_SourceRepoID a, ax_TargetRepoID = as_TargetRepoID a,
      ax_SourceEntityID = coalesceNullable (as_SourceEntityID a) (as_SourceRepoID a),
      ax_TargetEntityID = coalesceNullable (as_TargetEntityID a) (as_TargetRepoID a),
      ax_RelationshipType = as_RelationshipType a, ax_Decision = as_Decision a, ax_Reason = as_Reason a,
      ax_Actor = as_Actor a, ax_CreatedAt = now, ax_UpdatedAt = now\<rparr>"

definition merge_assertion :: "AssertionRow \<Rightarrow> AssertionRow \<Rightarrow> AssertionRow" where
  "merge_assertion old excluded = old\<lparr>ax_SourceEntityID := ax_SourceEntityID excluded, ax_TargetEntityID := ax_TargetEntityID excluded,
     ax_Decision := ax_Decision excluded, ax_Reason := ax_Reason excluded, ax_Actor := ax_Actor excluded,
     ax_UpdatedAt := ax_UpdatedAt excluded\<rparr>"

definition UpsertAssertions :: "(string \<Rightarrow> nat list) \<Rightarrow> Assertion list \<Rightarrow> time \<Rightarrow> RelationshipDb \<Rightarrow> RelationshipDb" where
  "UpsertAssertions digest as now db =
     db\<lparr>rd_Assertions := fold (upsert_row ax_AssertionID merge_assertion) (map (assertion_row digest now) as) (rd_Assertions db)\<rparr>"

definition scan_assertion :: "AssertionRow \<Rightarrow> Assertion" where
  "scan_assertion r =
     \<lparr>as_SourceRepoID = ax_SourceRepoID r, as_TargetRepoID = ax_TargetRepoID r,
      as_SourceEntityID = (case ax_SourceEntityID r of Some e \<Rightarrow> e | None \<Rightarrow> ax_SourceRepoID r),
      as_TargetEntityID = (case ax_TargetEntityID r of Some e \<Rightarrow> e | None \<Rightarrow> ax_TargetRepoID r),
      as_RelationshipType = ax_RelationshipType r, as_Decision = ax_Decision r, as_Reason = ax_Reason r, as_Actor = ax_Actor r\<rparr>"

text \<open>\<open>ORDER BY updated_at, created_at\<close>; rows with the same times come in the order of the table.\<close>

definition ListAssertions :: "string option \<Rightarrow> RelationshipDb \<Rightarrow> Assertion list" where
  "ListAssertions relationshipType db = map scan_assertion
     (sort_by (\<lambda>x y. or_else (compare (ax_UpdatedAt x) (ax_UpdatedAt y)) (compare (ax_CreatedAt x) (ax_CreatedAt y)))
       (filter (\<lambda>r. relationshipType \<in> {None, Some (ax_RelationshipType r)}) (rd_Assertions db)))"

section \<open>Generations\<close>

definition CreateGeneration ::
  "(string \<Rightarrow> nat list) \<Rightarrow> string \<Rightarrow> string \<Rightarrow> time \<Rightarrow> RelationshipDb \<Rightarrow> string result \<times> RelationshipDb" where
  "CreateGeneration digest scopeID runID now db =
     (let g = relationshipDigest digest ''generation'' [scopeID, runID, show_int now] in
      if g \<in> set (map rg_GenerationID (rd_Generations db))
      then (Inl (Wrap ''create generation'' (Msg ''duplicate key value violates unique constraint'')), db)
      else (Inr g, db\<lparr>rd_Generations := rd_Generations db @
        [\<lparr>rg_GenerationID = g, rg_Scope = scopeID, rg_RunID = nullif runID, rg_Status = ''pending'', rg_CreatedAt = now,
          rg_ActivatedAt = None\<rparr>]\<rparr>))"

definition superseded_others :: "string \<Rightarrow> string \<Rightarrow> RelationshipGenerationRow \<Rightarrow> RelationshipGenerationRow" where
  "superseded_others generationID scopeID g =
     (if rg_Scope g = scopeID \<and> rg_GenerationID g \<noteq> generationID \<and> rg_Status g = ''active''
      then g\<lparr>rg_Status := ''superseded''\<rparr> else g)"

definition CommitGeneration :: "string \<Rightarrow> string \<Rightarrow> time \<Rightarrow> RelationshipDb \<Rightarrow> RelationshipDb" where
  "CommitGeneration generationID scopeID now db =
     db\<lparr>rd_Generations := map (\<lambda>g. if rg_GenerationID g = generationID \<and> rg_Scope g = scopeID
       then g\<lparr>rg_Status := ''active'', rg_ActivatedAt := Some now\<rparr> else superseded_others generationID scopeID g) (rd_Generations db)\<rparr>"

definition ActivateResolutionGeneration :: "string \<Rightarrow> string \<Rightarrow> time \<Rightarrow> RelationshipDb \<Rightarrow> RelationshipDb" where
  "ActivateResolutionGeneration generationID scopeID now db =
     db\<lparr>rd_Generations := upsert_row rg_GenerationID
       (\<lambda>old excluded. old\<lparr>rg_Status := ''active'', rg_ActivatedAt := rg_ActivatedAt excluded\<rparr>)
       \<lparr>rg_GenerationID = generationID, rg_Scope = scopeID, rg_RunID = None, rg_Status = ''active'', rg_CreatedAt = now,
        rg_ActivatedAt = Some now\<rparr>
       (map (superseded_others generationID scopeID) (rd_Generations db))\<rparr>"

section \<open>Evidence\<close>

definition evidence_id :: "(string \<Rightarrow> nat list) \<Rightarrow> string \<Rightarrow> EvidenceFact \<Rightarrow> string" where
  "evidence_id digest generationID f = relationshipDigest digest ''evidence''
     [generationID, ef_EvidenceKind f, ef_RelationshipType f, ef_SourceRepoID f, ef_TargetRepoID f, ef_SourceEntityID f,
      ef_TargetEntityID f, sprintf_12g (ef_Confidence f), ef_Rationale f, marshal_details (ef_Details f)]"

definition evidence_row :: "(string \<Rightarrow> nat list) \<Rightarrow> string \<Rightarrow> time \<Rightarrow> string \<Rightarrow> EvidenceFact \<Rightarrow> EvidenceRow" where
  "evidence_row digest generationID now doc f =
     \<lparr>ew_EvidenceID = evidence_id digest generationID f, ew_GenerationID = generationID, ew_EvidenceKind = ef_EvidenceKind f,
      ew_RelationshipType = ef_RelationshipType f, ew_SourceRepoID = nullif (ef_SourceRepoID f),
      ew_TargetRepoID = nullif (ef_TargetRepoID f), ew_SourceEntityID = nullif (ef_SourceEntityID f),
      ew_TargetEntityID = nullif (ef_TargetEntityID f), ew_Confidence = ef_Confidence f, ew_Rationale = ef_Rationale f,
      ew_Details = doc, ew_ObservedAt = now\<rparr>"

fun insert_evidence ::
  "(string \<Rightarrow> nat list) \<Rightarrow> (string \<Rightarrow> string option) \<Rightarrow> string \<Rightarrow> time \<Rightarrow> EvidenceFact list \<Rightarrow> RelationshipDb
   \<Rightarrow> error option \<times> RelationshipDb" where
  "insert_evidence digest jsonb generationID now [] db = (None, db)"
| "insert_evidence digest jsonb generationID now (f # fs) db =
     (case jsonb (marshal_details (ef_Details f)) of
        None \<Rightarrow> (Some (Wrap ''insert evidence fact'' (Msg ''invalid input syntax for type json'')), db)
      | Some doc \<Rightarrow> insert_evidence digest jsonb generationID now fs
          (db\<lparr>rd_Evidence := insert_row ew_EvidenceID (evidence_row digest generationID now doc f) (rd_Evidence db)\<rparr>))"

definition UpsertEvidenceFacts ::
  "(string \<Rightarrow> nat list) \<Rightarrow> (string \<Rightarrow> string option) \<Rightarrow> string \<Rightarrow> EvidenceFact list \<Rightarrow> time \<Rightarrow> RelationshipDb
   \<Rightarrow> error option \<times> RelationshipDb" where
  "UpsertEvidenceFacts digest jsonb generationID facts now db =
     insert_evidence digest jsonb generationID now (DedupeEvidenceFacts facts) db"

text \<open>\<open>json.Unmarshal\<close> of a details column into a map: \<open>null\<close> leaves it nil.\<close>

definition unmarshal_details :: "string \<Rightarrow> payload option result" where
  "unmarshal_details raw =
     (if raw = [] then Inr None
      else (case parse_document raw of
              None \<Rightarrow> Inl (Msg ''syntax error'')
            | Some JNull \<Rightarrow> Inr None
            | Some v \<Rightarrow> (case as_go_value v of JObj p \<Rightarrow> Inr (Some p) | _ \<Rightarrow> Inl (Msg ''cannot unmarshal''))))"

definition scan_evidence :: "EvidenceRow \<Rightarrow> EvidenceFact result" where
  "scan_evidence r =
     (case unmarshal_details (ew_Details r) of
        Inl e \<Rightarrow> Inl (Wrap ''unmarshal evidence details'' e)
      | Inr d \<Rightarrow> Inr
          \<lparr>ef_EvidenceKind = ew_EvidenceKind r, ef_RelationshipType = ew_RelationshipType r,
           ef_SourceRepoID = coalesce (ew_SourceRepoID r), ef_TargetRepoID = coalesce (ew_TargetRepoID r),
           ef_SourceEntityID = coalesce (ew_SourceEntityID r), ef_TargetEntityID = coalesce (ew_TargetEntityID r),
           ef_Confidence = ew_Confidence r, ef_Rationale = ew_Rationale r, ef_Details = d\<rparr>)"

definition ListEvidenceFacts ::
  "(string \<Rightarrow> string \<Rightarrow> int) \<Rightarrow> string \<Rightarrow> RelationshipDb \<Rightarrow> EvidenceFact list result" where
  "ListEvidenceFacts collate generationID db = scan_all scan_evidence
     (sort_by (\<lambda>x y. or_else (compare (ew_ObservedAt x) (ew_ObservedAt y)) (collate (ew_EvidenceID x) (ew_EvidenceID y)))
       (filter (\<lambda>r. ew_GenerationID r = generationID) (rd_Evidence db)))"

section \<open>Candidates and resolved relationships\<close>

definition candidate_row ::
  "(string \<Rightarrow> nat list) \<Rightarrow> string \<Rightarrow> string \<Rightarrow> nat \<Rightarrow> RelationshipCandidate \<Rightarrow> CandidateRow" where
  "candidate_row digest generationID doc i c =
     \<lparr>kw_CandidateID = relationshipDigest digest ''candidate''
        [generationID, rc_SourceEntityID c, rc_TargetEntityID c, rc_RelationshipType c, show_nat i],
      kw_GenerationID = generationID, kw_SourceRepoID = nullif (rc_SourceRepoID c), kw_TargetRepoID = nullif (rc_TargetRepoID c),
      kw_SourceEntityID = nullif (rc_SourceEntityID c), kw_TargetEntityID = nullif (rc_TargetEntityID c),
      kw_RelationshipType = rc_RelationshipType c, kw_Confidence = rc_Confidence c, kw_EvidenceCount = int (rc_EvidenceCount c),
      kw_Rationale = rc_Rationale c, kw_Details = doc\<rparr>"

text \<open>The loop from the ordinal \<open>i\<close> on.\<close>

fun insert_candidates ::
  "(string \<Rightarrow> nat list) \<Rightarrow> (string \<Rightarrow> string option) \<Rightarrow> string \<Rightarrow> nat \<Rightarrow> RelationshipCandidate list \<Rightarrow> RelationshipDb
   \<Rightarrow> error option \<times> RelationshipDb" where
  "insert_candidates digest jsonb generationID i [] db = (None, db)"
| "insert_candidates digest jsonb generationID i (c # cs) db =
     (case jsonb (marshal_details (rc_Details c)) of
        None \<Rightarrow> (Some (Wrap ''insert candidate'' (Msg ''invalid input syntax for type json'')), db)
      | Some doc \<Rightarrow>
          (if \<not> integer_fits (int (rc_EvidenceCount c))
           then (Some (Wrap ''insert candidate'' (Msg ''integer out of range'')), db)
           else insert_candidates digest jsonb generationID (Suc i) cs
             (db\<lparr>rd_Candidates := insert_row kw_CandidateID (candidate_row digest generationID doc i c) (rd_Candidates db)\<rparr>)))"

definition UpsertCandidates ::
  "(string \<Rightarrow> nat list) \<Rightarrow> (string \<Rightarrow> string option) \<Rightarrow> string \<Rightarrow> RelationshipCandidate list \<Rightarrow> RelationshipDb
   \<Rightarrow> error option \<times> RelationshipDb" where
  "UpsertCandidates digest jsonb generationID cs db = insert_candidates digest jsonb generationID 0 cs db"

definition resolved_row ::
  "(string \<Rightarrow> nat list) \<Rightarrow> string \<Rightarrow> string \<Rightarrow> nat \<Rightarrow> ResolvedRelationship \<Rightarrow> ResolvedRow" where
  "resolved_row digest generationID doc i r =
     \<lparr>rv_ResolvedID = ResolvedRelationshipID digest generationID r i, rv_GenerationID = generationID,
      rv_SourceRepoID = nullif (rel_SourceRepoID r), rv_TargetRepoID = nullif (rel_TargetRepoID r),
      rv_SourceEntityID = nullif (rel_SourceEntityID r), rv_TargetEntityID = nullif (rel_TargetEntityID r),
      rv_RelationshipType = rel_RelationshipType r, rv_Confidence = rel_Confidence r, rv_EvidenceCount = int (rel_EvidenceCount r),
      rv_Rationale = rel_Rationale r, rv_ResolutionSource = rel_ResolutionSource r, rv_Details = doc\<rparr>"

text \<open>
  One INSERT: a row with the identifier makes it do nothing, one with the identity alone makes it
  fail, since the conflict clause is about the identifier.
\<close>

definition insert_resolved_row :: "ResolvedRow \<Rightarrow> RelationshipDb \<Rightarrow> error option \<times> RelationshipDb" where
  "insert_resolved_row row db =
     (if rv_ResolvedID row \<in> set (map rv_ResolvedID (rd_Resolved db)) then (None, db)
      else if resolved_identity row \<noteq> None \<and> resolved_identity row \<in> set (map resolved_identity (rd_Resolved db))
      then (Some (Msg ''duplicate key value violates unique constraint resolved_relationships_identity_idx''), db)
      else if \<not> integer_fits (rv_EvidenceCount row) then (Some (Msg ''integer out of range''), db)
      else (None, db\<lparr>rd_Resolved := rd_Resolved db @ [row]\<rparr>))"

fun insert_resolved ::
  "(string \<Rightarrow> nat list) \<Rightarrow> (string \<Rightarrow> string option) \<Rightarrow> string \<Rightarrow> nat \<Rightarrow> ResolvedRelationship list \<Rightarrow> RelationshipDb
   \<Rightarrow> error option \<times> RelationshipDb" where
  "insert_resolved digest jsonb generationID i [] db = (None, db)"
| "insert_resolved digest jsonb generationID i (r # rs) db =
     (case jsonb (marshal_details (rel_Details r)) of
        None \<Rightarrow> (Some (Wrap ''insert resolved'' (Msg ''invalid input syntax for type json'')), db)
      | Some doc \<Rightarrow>
          (case insert_resolved_row (resolved_row digest generationID doc i r) db of
             (Some e, db') \<Rightarrow> (Some (Wrap ''insert resolved'' e), db')
           | (None, db') \<Rightarrow> insert_resolved digest jsonb generationID (Suc i) rs db'))"

definition UpsertResolved ::
  "(string \<Rightarrow> nat list) \<Rightarrow> (string \<Rightarrow> string option) \<Rightarrow> string \<Rightarrow> ResolvedRelationship list \<Rightarrow> RelationshipDb
   \<Rightarrow> error option \<times> RelationshipDb" where
  "UpsertResolved digest jsonb generationID rs db = insert_resolved digest jsonb generationID 0 rs db"

definition scan_resolved :: "string \<Rightarrow> ResolvedRow \<Rightarrow> ResolvedRelationship result" where
  "scan_resolved label r =
     (case unmarshal_details (rv_Details r) of
        Inl e \<Rightarrow> Inl (Wrap label e)
      | Inr d \<Rightarrow> Inr
          \<lparr>rel_SourceRepoID = coalesce (rv_SourceRepoID r), rel_TargetRepoID = coalesce (rv_TargetRepoID r),
           rel_SourceEntityID = coalesce (or_null (rv_SourceEntityID r) (rv_SourceRepoID r)),
           rel_TargetEntityID = coalesce (or_null (rv_TargetEntityID r) (rv_TargetRepoID r)),
           rel_RelationshipType = rv_RelationshipType r, rel_Confidence = rv_Confidence r,
           rel_EvidenceCount = nat (rv_EvidenceCount r), rel_Rationale = rv_Rationale r,
           rel_ResolutionSource = rv_ResolutionSource r, rel_Details = d\<rparr>)"

text \<open>NULL sorts last.\<close>

definition cmp_nullable :: "(string \<Rightarrow> string \<Rightarrow> int) \<Rightarrow> string option \<Rightarrow> string option \<Rightarrow> int" where
  "cmp_nullable collate a b =
     (case (a, b) of (None, None) \<Rightarrow> 0 | (None, Some _) \<Rightarrow> 1 | (Some _, None) \<Rightarrow> -1 | (Some x, Some y) \<Rightarrow> collate x y)"

definition cmp_resolved :: "(string \<Rightarrow> string \<Rightarrow> int) \<Rightarrow> ResolvedRow \<Rightarrow> ResolvedRow \<Rightarrow> int" where
  "cmp_resolved collate x y =
     or_else (cmp_nullable collate (or_null (rv_SourceEntityID x) (rv_SourceRepoID x)) (or_null (rv_SourceEntityID y) (rv_SourceRepoID y)))
       (or_else (cmp_nullable collate (or_null (rv_TargetEntityID x) (rv_TargetRepoID x)) (or_null (rv_TargetEntityID y) (rv_TargetRepoID y)))
         (collate (rv_RelationshipType x) (rv_RelationshipType y)))"

text \<open>The rows whose generation is one of those that \<open>P\<close> describes.\<close>

definition resolved_where ::
  "(string \<Rightarrow> string \<Rightarrow> int) \<Rightarrow> (ResolvedRow \<Rightarrow> RelationshipGenerationRow \<Rightarrow> bool) \<Rightarrow> RelationshipDb \<Rightarrow> ResolvedRow list" where
  "resolved_where collate P db = sort_by (cmp_resolved collate)
     (filter (\<lambda>r. list_ex (\<lambda>g. rg_GenerationID g = rv_GenerationID r \<and> P r g) (rd_Generations db)) (rd_Resolved db))"

definition GetResolvedRelationships ::
  "(string \<Rightarrow> string \<Rightarrow> int) \<Rightarrow> string \<Rightarrow> RelationshipDb \<Rightarrow> ResolvedRelationship list result" where
  "GetResolvedRelationships collate scopeID db = scan_all (scan_resolved ''unmarshal resolved details'')
     (resolved_where collate (\<lambda>r g. rg_Scope g = scopeID \<and> rg_Status g = ''active'') db)"

definition GetResolvedRelationshipsForGeneration ::
  "(string \<Rightarrow> string \<Rightarrow> int) \<Rightarrow> string \<Rightarrow> string \<Rightarrow> RelationshipDb \<Rightarrow> ResolvedRelationship list result" where
  "GetResolvedRelationshipsForGeneration collate scopeID generationID db =
     scan_all (scan_resolved ''unmarshal resolved by generation details'')
       (resolved_where collate (\<lambda>r g. rg_Scope g = scopeID \<and> rg_GenerationID g = generationID) db)"

definition uniqueNonEmptyStrings :: "string list \<Rightarrow> string list" where
  "uniqueNonEmptyStrings values = first_of_each id [] (filter (\<lambda>s. s \<noteq> []) (map trim_space values))"

definition GetResolvedRelationshipsForRepos ::
  "(string \<Rightarrow> string \<Rightarrow> int) \<Rightarrow> string list \<Rightarrow> RelationshipDb \<Rightarrow> ResolvedRelationship list result" where
  "GetResolvedRelationshipsForRepos collate repoIDs db =
     (let ids = uniqueNonEmptyStrings repoIDs in
      if ids = [] then Inr []
      else scan_all (scan_resolved ''unmarshal resolved by repos details'')
        (resolved_where collate (\<lambda>r g. rg_Status g = ''active''
           \<and> (rv_SourceRepoID r \<in> Some ` set ids \<or> rv_TargetRepoID r \<in> Some ` set ids)) db))"

section \<open>Resolving a generation again\<close>

lemma insert_resolved_row_None:
  assumes "insert_resolved_row row db = (None, db')"
  shows "set (rd_Resolved db) \<subseteq> set (rd_Resolved db')"
    and "rv_ResolvedID row \<in> set (map rv_ResolvedID (rd_Resolved db)) \<or> resolved_identity row = None
      \<or> resolved_identity row \<notin> set (map resolved_identity (rd_Resolved db))"
    and "set (map rv_ResolvedID (rd_Resolved db')) \<subseteq> insert (rv_ResolvedID row) (set (map rv_ResolvedID (rd_Resolved db)))"
  using assms by (auto simp: insert_resolved_row_def simp del: set_map split_paired_All not_Some_eq split: if_splits)

lemma insert_resolved_rejects:
  assumes "x \<in> set (rd_Resolved db)" and "j < length rs"
    and "resolved_identity (resolved_row digest g [] (i + j) (rs ! j)) = resolved_identity x" and "resolved_identity x \<noteq> None"
    and "ResolvedRelationshipID digest g (rs ! j) (i + j) \<notin> set (map rv_ResolvedID (rd_Resolved db))"
    and "\<forall>k < j. ResolvedRelationshipID digest g (rs ! k) (i + k) \<noteq> ResolvedRelationshipID digest g (rs ! j) (i + j)"
  shows "fst (insert_resolved digest jsonb g i rs db) \<noteq> None"
  using assms
proof (induction rs arbitrary: i j db)
  case (Cons r rs)
  show ?case
  proof (cases "jsonb (marshal_details (rel_Details r))")
    case (Some doc)
    let ?row = "resolved_row digest g doc i r"
    obtain e d where step: "insert_resolved_row ?row db = (e, d)" by (cases "insert_resolved_row ?row db")
    show ?thesis
    proof (cases e)
      case None
      note inserted = insert_resolved_row_None [OF step [unfolded None]]
      have id: "rv_ResolvedID ?row = ResolvedRelationshipID digest g r i" by (simp add: resolved_row_def)
      show ?thesis
      proof (cases j)
        case 0
        have "resolved_identity ?row = resolved_identity (resolved_row digest g [] i r)"
          by (simp add: resolved_identity_def resolved_row_def split: option.split)
        with Cons.prems(1,3,4,5) inserted(2) id 0 have False by auto
        then show ?thesis ..
      next
        case (Suc j')
        have "fst (insert_resolved digest jsonb g (Suc i) rs d) \<noteq> None"
        proof (rule Cons.IH [of d j' "Suc i"])
          show "x \<in> set (rd_Resolved d)" using inserted(1) Cons.prems(1) by blast
          show "ResolvedRelationshipID digest g (rs ! j') (Suc i + j') \<notin> set (map rv_ResolvedID (rd_Resolved d))"
          proof -
            have "ResolvedRelationshipID digest g r i \<noteq> ResolvedRelationshipID digest g (rs ! j') (Suc i + j')"
              using Cons.prems(6) Suc by (auto dest: spec [of _ 0])
            with Cons.prems(5) inserted(3) id Suc show ?thesis by (auto simp del: set_map)
          qed
          show "\<forall>k<j'. ResolvedRelationshipID digest g (rs ! k) (Suc i + k) \<noteq> ResolvedRelationshipID digest g (rs ! j') (Suc i + j')"
            using Cons.prems(6) Suc by (auto dest: spec [of _ "Suc _"])
        qed (use Cons.prems Suc in simp_all)
        then show ?thesis using Some step None by simp
      qed
    qed (use Some step in simp)
  qed simp
qed simp

text \<open>
  Resolving a generation again fails once a relationship has moved. The identifier of a stored
  relationship contains its place in the sorted result, and the conflict clause is about that
  identifier, while a unique index covers generation, source, target and type. When a row for a
  relationship is there and the new result has it at a place for which no row has the
  identifier (a relationship sorted before it has come or gone), the INSERT fails.
\<close>

theorem moved_relationship_rejected:
  assumes "x \<in> set (rd_Resolved db)" and "j < length rs"
    and "resolved_identity (resolved_row digest g [] j (rs ! j)) = resolved_identity x" and "resolved_identity x \<noteq> None"
    and "ResolvedRelationshipID digest g (rs ! j) j \<notin> set (map rv_ResolvedID (rd_Resolved db))"
    and "\<forall>k < j. ResolvedRelationshipID digest g (rs ! k) k \<noteq> ResolvedRelationshipID digest g (rs ! j) j"
  shows "fst (UpsertResolved digest jsonb g rs db) \<noteq> None"
  unfolding UpsertResolved_def using assms by (intro insert_resolved_rejects) simp_all

section \<open>Assertions about entities\<close>

text \<open>
  A decision about two entities overwrites the one about other entities of the same repositories.
  The identifier of an assertion is made of the type and the repositories, the resolution looks
  it up by the entities; after both were recorded, the first is not listed, and the resolution
  treats its triple as undecided.
\<close>

theorem entity_assertions_collide:
  assumes "rd_Assertions db = []" and "assertion_key a = Some k" and "assertion_key b \<noteq> Some k"
    and "as_RelationshipType a = as_RelationshipType b" and "as_SourceRepoID a = as_SourceRepoID b"
    and "as_TargetRepoID a = as_TargetRepoID b"
  shows "length (ListAssertions None (UpsertAssertions digest [a, b] now db)) = 1
    \<and> latest_assertion (ListAssertions None (UpsertAssertions digest [a, b] now db)) k = None"
proof -
  have id: "assertion_id digest a = assertion_id digest b" using assms(4-6) by (simp add: assertion_id_def)
  have rows: "rd_Assertions (UpsertAssertions digest [a, b] now db)
      = [merge_assertion (assertion_row digest now a) (assertion_row digest now b)]"
    using assms(1) id by (simp add: UpsertAssertions_def upsert_row_def assertion_row_def)
  have "assertion_key (scan_assertion (merge_assertion (assertion_row digest now a) (assertion_row digest now b))) = assertion_key b"
    using assms(4-6)
    by (auto simp: assertion_key_def scan_assertion_def merge_assertion_def assertion_row_def coalesceNullable_def nullif_def
        entityIdentity_def Let_def)
  with rows assms(3) show ?thesis by (simp add: ListAssertions_def latest_assertion_def sort_by_def)
qed

section \<open>Stored evidence\<close>

text \<open>Details that the column keeps.\<close>

definition kept_details :: "(string \<Rightarrow> string option) \<Rightarrow> payload option \<Rightarrow> bool" where
  "kept_details jsonb d \<longleftrightarrow>
     (case d of None \<Rightarrow> True | Some m \<Rightarrow> canonical (JObj m) \<and> nesting (JObj m) \<le> max_nesting)
     \<and> (case jsonb (marshal_details d) of None \<Rightarrow> False
         | Some doc \<Rightarrow> unmarshal_details doc = unmarshal_details (marshal_details d))"

lemma unmarshal_marshal:
  assumes "case d of None \<Rightarrow> True | Some m \<Rightarrow> canonical (JObj m) \<and> nesting (JObj m) \<le> max_nesting"
  shows "unmarshal_details (marshal_details d) = Inr d"
proof (cases d)
  case None
  have "parse_document ''null'' = Some JNull"
    using parse_document_encoded [of JNull] by (simp add: max_nesting_def)
  with None show ?thesis by (simp add: unmarshal_details_def marshal_details_def)
next
  case (Some m)
  with assms parse_document_encoded [of "JObj m"] as_go_value_canonical [of "JObj m"] encoded_not_Nil [of "JObj m"]
  show ?thesis by (simp add: unmarshal_details_def marshal_details_def del: as_go_value.simps encode_json.simps)
qed

lemma scan_evidence_row:
  assumes "kept_details jsonb (ef_Details f)"
  shows "scan_evidence (evidence_row digest g now (the (jsonb (marshal_details (ef_Details f)))) f) = Inr f"
proof -
  from assms obtain doc where "jsonb (marshal_details (ef_Details f)) = Some doc"
    "unmarshal_details doc = Inr (ef_Details f)"
    using unmarshal_marshal [of "ef_Details f"] by (auto simp: kept_details_def split: option.splits)
  then show ?thesis by (simp add: scan_evidence_def evidence_row_def)
qed

lemma insert_evidence_rows:
  assumes "list_all (\<lambda>f. kept_details jsonb (ef_Details f)) fs"
  shows "insert_evidence digest jsonb g now fs db = (None, db\<lparr>rd_Evidence :=
    fold (insert_row ew_EvidenceID) (map (\<lambda>f. evidence_row digest g now (the (jsonb (marshal_details (ef_Details f)))) f) fs) (rd_Evidence db)\<rparr>)"
  using assms
proof (induction fs arbitrary: db)
  case (Cons f fs)
  then obtain doc where "jsonb (marshal_details (ef_Details f)) = Some doc"
    by (auto simp: kept_details_def split: option.splits)
  with Cons show ?case by simp
qed simp

lemma insert_row_fold_append:
  "distinct (map key (tab @ rows)) \<Longrightarrow> fold (insert_row key) rows tab = tab @ rows"
proof (induction rows arbitrary: tab)
  case (Cons r rows)
  then have "insert_row key r tab = tab @ [r]" by (auto simp: insert_row_def simp del: distinct_map)
  moreover have "distinct (map key ((tab @ [r]) @ rows))" using Cons.prems by (simp del: distinct_map)
  ultimately show ?case using Cons.IH [of "tab @ [r]"] by simp
qed simp

lemma stored_evidence:
  assumes kept: "list_all (\<lambda>f. kept_details jsonb (ef_Details f)) facts"
    and ids: "distinct (map (evidence_id digest g) (DedupeEvidenceFacts facts))"
    and new: "\<forall>r \<in> set (rd_Evidence db). ew_GenerationID r \<noteq> g \<and> ew_EvidenceID r \<notin> evidence_id digest g ` set facts"
    and table: "distinct (map ew_EvidenceID (rd_Evidence db))"
  shows "\<exists>db' xs. UpsertEvidenceFacts digest jsonb g facts now db = (None, db')
    \<and> ListEvidenceFacts collate g db' = Inr xs \<and> mset xs = mset (DedupeEvidenceFacts facts)"
proof -
  let ?fs = "DedupeEvidenceFacts facts"
  let ?row = "\<lambda>f. evidence_row digest g now (the (jsonb (marshal_details (ef_Details f)))) f"
  let ?db' = "db\<lparr>rd_Evidence := rd_Evidence db @ map ?row ?fs\<rparr>"
  have sub: "set ?fs \<subseteq> set facts" unfolding DedupeEvidenceFacts_def by (rule set_first_of_each)
  have kept': "list_all (\<lambda>f. kept_details jsonb (ef_Details f)) ?fs" using kept sub by (auto simp: list_all_iff)
  have id: "ew_EvidenceID (?row f) = evidence_id digest g f" "ew_GenerationID (?row f) = g" for f
    by (simp_all add: evidence_row_def)
  have "map ew_EvidenceID (map ?row ?fs) = map (evidence_id digest g) ?fs" by (simp add: id)
  moreover have "set (map ew_EvidenceID (rd_Evidence db)) \<inter> set (map (evidence_id digest g) ?fs) = {}"
    using new sub by auto
  ultimately have "distinct (map ew_EvidenceID (rd_Evidence db @ map ?row ?fs))"
    using ids table by (simp only: map_append distinct_append)
  from insert_row_fold_append [OF this] have written: "UpsertEvidenceFacts digest jsonb g facts now db = (None, ?db')"
    using insert_evidence_rows [OF kept'] by (simp add: UpsertEvidenceFacts_def)
  have "filter (\<lambda>r. ew_GenerationID r = g) (rd_Evidence ?db') = map ?row ?fs"
    using new by (simp add: filter_empty_conv filter_map o_def id)
  then have list: "ListEvidenceFacts collate g ?db' = scan_all scan_evidence
      (sort_by (\<lambda>x y. or_else (compare (ew_ObservedAt x) (ew_ObservedAt y)) (collate (ew_EvidenceID x) (ew_EvidenceID y))) (map ?row ?fs))"
    by (simp only: ListEvidenceFacts_def)
  let ?sorted = "sort_by (\<lambda>x y. or_else (compare (ew_ObservedAt x) (ew_ObservedAt y)) (collate (ew_EvidenceID x) (ew_EvidenceID y))) (map ?row ?fs)"
  have scan: "scan_evidence (?row f) = Inr f" if "f \<in> set ?fs" for f
    using kept' that by (intro scan_evidence_row) (auto simp: list_all_iff)
  have read: "scan_all scan_evidence ?sorted = Inr (map (\<lambda>r. projr (scan_evidence r)) ?sorted)"
  proof (rule scan_all_map)
    fix r assume "r \<in> set ?sorted"
    then obtain f where "f \<in> set ?fs" "r = ?row f" by (auto simp only: set_sort_by set_map)
    with scan show "scan_evidence r = Inr (projr (scan_evidence r))" by simp
  qed
  have same: "mset (map (\<lambda>r. projr (scan_evidence r)) ?sorted) = mset ?fs"
  proof -
    have "mset (map (\<lambda>r. projr (scan_evidence r)) ?sorted) = mset (map (\<lambda>r. projr (scan_evidence r)) (map ?row ?fs))"
      by (simp only: mset_map mset_sort_by)
    also have "map (\<lambda>r. projr (scan_evidence r)) (map ?row ?fs) = ?fs"
      using scan by (simp add: map_idI)
    finally show ?thesis .
  qed
  show ?thesis
    by (rule exI [of _ ?db'], rule exI [of _ "map (\<lambda>r. projr (scan_evidence r)) ?sorted"])
      (simp only: written list read same simp_thms)
qed


section \<open>Active generations\<close>

text \<open>Each scope has at most one active generation, and an identifier one row.\<close>

definition one_active_generation :: "RelationshipDb \<Rightarrow> bool" where
  "one_active_generation db \<longleftrightarrow> distinct (map rg_GenerationID (rd_Generations db))
     \<and> (\<forall>g \<in> set (rd_Generations db). \<forall>h \<in> set (rd_Generations db).
          rg_Status g = ''active'' \<longrightarrow> rg_Status h = ''active'' \<longrightarrow> rg_Scope g = rg_Scope h \<longrightarrow> g = h)"

lemma superseded_others_simps [simp]:
  "rg_GenerationID (superseded_others i s g) = rg_GenerationID g" "rg_Scope (superseded_others i s g) = rg_Scope g"
  "rg_Status (superseded_others i s g) = ''active'' \<longleftrightarrow> rg_Status g = ''active'' \<and> (rg_Scope g = s \<longrightarrow> rg_GenerationID g = i)"
  by (auto simp: superseded_others_def)

lemma superseded_same: "rg_Status (superseded_others i s g) = ''active'' \<Longrightarrow> superseded_others i s g = g"
  by (auto simp: superseded_others_def split: if_splits)

lemma generation_of: "one_active_generation db \<Longrightarrow> g \<in> set (rd_Generations db) \<Longrightarrow> h \<in> set (rd_Generations db)
    \<Longrightarrow> rg_GenerationID g = rg_GenerationID h \<Longrightarrow> g = h"
  by (auto simp: one_active_generation_def distinct_map dest: inj_onD)

lemma one_active_map:
  assumes ok: "one_active_generation db" and ids: "\<And>g. rg_GenerationID (f g) = rg_GenerationID g \<and> rg_Scope (f g) = rg_Scope g"
    and act: "\<And>g h. g \<in> set (rd_Generations db) \<Longrightarrow> h \<in> set (rd_Generations db) \<Longrightarrow> rg_Status (f g) = ''active'' \<Longrightarrow> rg_Status (f h) = ''active''
      \<Longrightarrow> rg_Scope g = rg_Scope h \<Longrightarrow> rg_GenerationID g = rg_GenerationID h \<or> rg_Status g = ''active'' \<and> rg_Status h = ''active''"
  shows "one_active_generation (db\<lparr>rd_Generations := map f (rd_Generations db)\<rparr>)"
proof -
  have "map rg_GenerationID (map f (rd_Generations db)) = map rg_GenerationID (rd_Generations db)" using ids by simp
  then have "distinct (map rg_GenerationID (map f (rd_Generations db)))" using ok by (simp only: one_active_generation_def)
  moreover have "f g = f h" if m: "g \<in> set (rd_Generations db)" "h \<in> set (rd_Generations db)"
    and a: "rg_Status (f g) = ''active''" "rg_Status (f h) = ''active''" "rg_Scope (f g) = rg_Scope (f h)" for g h
  proof -
    have "rg_Scope g = rg_Scope h" using a(3) ids by simp
    from act [OF m a(1,2) this] have "g = h"
      using generation_of [OF ok m] ok m \<open>rg_Scope g = rg_Scope h\<close> unfolding one_active_generation_def by blast
    then show ?thesis by simp
  qed
  ultimately show ?thesis by (auto simp: one_active_generation_def simp del: distinct_map map_map)
qed

lemma one_active_append:
  assumes "one_active_generation db" and "rg_GenerationID g \<notin> set (map rg_GenerationID (rd_Generations db))"
    and "rg_Status g = ''active'' \<Longrightarrow> \<forall>h \<in> set (rd_Generations db). rg_Scope h = rg_Scope g \<longrightarrow> rg_Status h \<noteq> ''active''"
  shows "one_active_generation (db\<lparr>rd_Generations := rd_Generations db @ [g]\<rparr>)"
  using assms by (auto simp: one_active_generation_def)

lemma create_one_active:
  assumes "one_active_generation db"
  shows "one_active_generation (snd (CreateGeneration digest scopeID runID now db))"
proof (cases "relationshipDigest digest ''generation'' [scopeID, runID, show_int now] \<in> set (map rg_GenerationID (rd_Generations db))")
  case False
  then show ?thesis
    unfolding CreateGeneration_def Let_def by (simp only: if_False snd_conv) (rule one_active_append [OF assms], simp_all)
qed (simp add: CreateGeneration_def assms)

lemma commit_one_active:
  assumes "one_active_generation db"
  shows "one_active_generation (CommitGeneration i s now db)"
  unfolding CommitGeneration_def
proof (rule one_active_map [OF assms])
  let ?f = "\<lambda>g. if rg_GenerationID g = i \<and> rg_Scope g = s then g\<lparr>rg_Status := ''active'', rg_ActivatedAt := Some now\<rparr>
    else superseded_others i s g"
  have mine: "rg_GenerationID g = i" if "rg_Status (?f g) = ''active''" "rg_Scope g = s" for g
    using that by (cases "rg_GenerationID g = i") auto
  have others: "rg_Status g = ''active''" if "rg_Status (?f g) = ''active''" "rg_Scope g \<noteq> s" for g
    using that by (cases "rg_GenerationID g = i") auto
  fix g h assume a: "rg_Status (?f g) = ''active''" "rg_Status (?f h) = ''active''" "rg_Scope g = rg_Scope h"
  show "rg_GenerationID g = rg_GenerationID h \<or> rg_Status g = ''active'' \<and> rg_Status h = ''active''"
  proof (cases "rg_Scope g = s")
    case True
    then show ?thesis using mine [OF a(1)] mine [OF a(2)] a(3) by metis
  next
    case False
    then show ?thesis using others [OF a(1)] others [OF a(2)] a(3) by metis
  qed
qed simp

lemma activate_one_active:
  assumes ok: "one_active_generation db" and scope: "\<forall>g \<in> set (rd_Generations db). rg_GenerationID g = i \<longrightarrow> rg_Scope g = s"
  shows "one_active_generation (ActivateResolutionGeneration i s now db)"
proof -
  let ?db = "db\<lparr>rd_Generations := map (superseded_others i s) (rd_Generations db)\<rparr>"
  have ids: "map rg_GenerationID (rd_Generations ?db) = map rg_GenerationID (rd_Generations db)" by simp
  have down: "one_active_generation ?db"
    by (rule one_active_map [OF ok]) auto
  show ?thesis
  proof (cases "i \<in> set (map rg_GenerationID (rd_Generations db))")
    case True
    let ?f = "\<lambda>g. if rg_GenerationID g = i then g\<lparr>rg_Status := ''active'', rg_ActivatedAt := Some now\<rparr> else g"
    have "ActivateResolutionGeneration i s now db = ?db\<lparr>rd_Generations := map ?f (rd_Generations ?db)\<rparr>"
      using True by (simp add: ActivateResolutionGeneration_def upsert_row_def o_def)
    moreover have "one_active_generation (?db\<lparr>rd_Generations := map ?f (rd_Generations ?db)\<rparr>)"
    proof (rule one_active_map [OF down])
      have of_scope: "rg_Status g = ''active'' \<Longrightarrow> rg_Scope g = s \<Longrightarrow> rg_GenerationID g = i"
        and scope': "rg_GenerationID g = i \<Longrightarrow> rg_Scope g = s" if g: "g \<in> set (rd_Generations ?db)" for g
      proof -
        from g obtain x where x: "x \<in> set (rd_Generations db)" "g = superseded_others i s x" by auto
        show "rg_Status g = ''active'' \<Longrightarrow> rg_Scope g = s \<Longrightarrow> rg_GenerationID g = i"
          and "rg_GenerationID g = i \<Longrightarrow> rg_Scope g = s"
          using scope x(1) unfolding x(2) superseded_others_simps by blast+
      qed
      fix g h assume m: "g \<in> set (rd_Generations ?db)" "h \<in> set (rd_Generations ?db)"
        and a: "rg_Status (?f g) = ''active''" "rg_Status (?f h) = ''active''" "rg_Scope g = rg_Scope h"
      have mine: "rg_Status v = ''active''" if "rg_Status (?f v) = ''active''" "rg_GenerationID v \<noteq> i" for v
        using that by simp
      show "rg_GenerationID g = rg_GenerationID h \<or> rg_Status g = ''active'' \<and> rg_Status h = ''active''"
      proof (cases "rg_Scope g = s")
        case True
        then have "rg_GenerationID g = i" "rg_GenerationID h = i"
          using mine [OF a(1)] mine [OF a(2)] of_scope [OF m(1)] of_scope [OF m(2)] a(3) by metis+
        then show ?thesis by simp
      next
        case False
        then show ?thesis using mine [OF a(1)] mine [OF a(2)] scope' [OF m(1)] scope' [OF m(2)] a(3) by metis
      qed
    qed simp
    ultimately show ?thesis by simp
  next
    case False
    let ?g = "\<lparr>rg_GenerationID = i, rg_Scope = s, rg_RunID = None, rg_Status = ''active'', rg_CreatedAt = now, rg_ActivatedAt = Some now\<rparr>"
    have "ActivateResolutionGeneration i s now db = ?db\<lparr>rd_Generations := rd_Generations ?db @ [?g]\<rparr>"
      using False by (simp add: ActivateResolutionGeneration_def upsert_row_def o_def)
    moreover have "one_active_generation (?db\<lparr>rd_Generations := rd_Generations ?db @ [?g]\<rparr>)"
      by (rule one_active_append [OF down]) (use False in auto)
    ultimately show ?thesis by simp
  qed
qed

text \<open>
  C30: at most one generation of resolved relationships of a scope is active. Creating, committing and
  activating a generation keep that, also when the activation is of a generation that is there;
  a generation is activated for the scope it belongs to.
\<close>

theorem one_active_resolution:
  assumes "one_active_generation db" and "\<forall>g \<in> set (rd_Generations db). rg_GenerationID g = i \<longrightarrow> rg_Scope g = s"
  shows "one_active_generation (snd (CreateGeneration digest s runID now db))
    \<and> one_active_generation (CommitGeneration i s now db)
    \<and> one_active_generation (ActivateResolutionGeneration i s now db)"
  using create_one_active [OF assms(1)] commit_one_active [OF assms(1)] activate_one_active [OF assms] by blast

section \<open>Examples\<close>

text \<open>A digest that starts with the last bytes of the text, and a server that prints a document as written.\<close>

definition tail_digest :: "string \<Rightarrow> nat list" where "tail_digest s = map of_char (rev s)"
definition printed :: "string \<Rightarrow> string option" where "printed t = Some t"

definition empty_relationships :: RelationshipDb where
  "empty_relationships = \<lparr>rd_Assertions = [], rd_Generations = [], rd_Evidence = [], rd_Candidates = [], rd_Resolved = []\<rparr>"

definition example_resolved :: "string \<Rightarrow> string \<Rightarrow> ResolvedRelationship" where
  "example_resolved src tgt = \<lparr>rel_SourceRepoID = src, rel_TargetRepoID = tgt, rel_SourceEntityID = src, rel_TargetEntityID = tgt,
     rel_RelationshipType = ''DEPENDS_ON'', rel_Confidence = 9/10, rel_EvidenceCount = 1, rel_Rationale = ''chart'',
     rel_ResolutionSource = ResolutionSourceInferred, rel_Details = None\<rparr>"

text \<open>The first resolution finds one relationship, the second also one that is sorted before it.\<close>

lemma moved_relationship_rejected_witness:
  "\<exists>db1. UpsertResolved tail_digest printed ''gen-1'' [example_resolved ''web'' ''api''] empty_relationships = (None, db1)
     \<and> fst (UpsertResolved tail_digest printed ''gen-1'' [example_resolved ''api'' ''db'', example_resolved ''web'' ''api''] db1) \<noteq> None"
proof -
  let ?r = "resolved_row tail_digest ''gen-1'' (marshal_details None) 0 (example_resolved ''web'' ''api'')"
  let ?db1 = "empty_relationships\<lparr>rd_Resolved := [?r]\<rparr>"
  have first: "UpsertResolved tail_digest printed ''gen-1'' [example_resolved ''web'' ''api''] empty_relationships = (None, ?db1)"
    by (simp add: UpsertResolved_def printed_def insert_resolved_row_def empty_relationships_def)
      (simp add: resolved_row_def example_resolved_def integer_fits_def)
  have ids: "rv_ResolvedID ?r = ResolvedRelationshipID tail_digest ''gen-1'' (example_resolved ''web'' ''api'') 0"
    by (simp add: resolved_row_def)
  have other: "ResolvedRelationshipID tail_digest ''gen-1'' (example_resolved ''web'' ''api'') 1
      \<noteq> ResolvedRelationshipID tail_digest ''gen-1'' (example_resolved ''web'' ''api'') 0"
    "ResolvedRelationshipID tail_digest ''gen-1'' (example_resolved ''api'' ''db'') 0
      \<noteq> ResolvedRelationshipID tail_digest ''gen-1'' (example_resolved ''web'' ''api'') 1"
    by code_simp+
  have "fst (UpsertResolved tail_digest printed ''gen-1'' [example_resolved ''api'' ''db'', example_resolved ''web'' ''api''] ?db1) \<noteq> None"
  proof (rule moved_relationship_rejected [where j = 1 and x = ?r])
    show "resolved_identity ?r \<noteq> None"
      by (simp add: resolved_identity_def resolved_row_def example_resolved_def or_null_def nullif_def)
    show "resolved_identity (resolved_row tail_digest ''gen-1'' [] 1 ([example_resolved ''api'' ''db'', example_resolved ''web'' ''api''] ! 1))
        = resolved_identity ?r"
      by (simp add: resolved_identity_def resolved_row_def split: option.split)
  qed (use ids other in auto)
  with first show ?thesis by blast
qed

definition entity_assertion :: "string \<Rightarrow> string \<Rightarrow> Assertion" where
  "entity_assertion entity decision = (example_assertion ''web'' ''api'' decision)\<lparr>as_SourceEntityID := entity\<rparr>"

lemma entity_assertions_collide_witness:
  "length (ListAssertions None (UpsertAssertions tail_digest [entity_assertion ''svc-1'' ''reject'', entity_assertion ''svc-2'' ''assert''] 5 empty_relationships)) = 1
   \<and> latest_assertion (ListAssertions None (UpsertAssertions tail_digest [entity_assertion ''svc-1'' ''reject'', entity_assertion ''svc-2'' ''assert''] 5
       empty_relationships)) (''svc-1'', ''api'', ''DEPENDS_ON'') = None"
  by (rule entity_assertions_collide)
    (simp_all add: empty_relationships_def assertion_key_def entity_assertion_def example_assertion_def entityIdentity_def)

lemma one_active_resolution_witness:
  "one_active_generation (ActivateResolutionGeneration ''gen-2'' ''scope-1'' 7
     (ActivateResolutionGeneration ''gen-1'' ''scope-1'' 5 empty_relationships))
   \<and> map rg_Status (rd_Generations (ActivateResolutionGeneration ''gen-2'' ''scope-1'' 7
     (ActivateResolutionGeneration ''gen-1'' ''scope-1'' 5 empty_relationships))) = [''superseded'', ''active'']"
proof -
  have db: "ActivateResolutionGeneration ''gen-1'' ''scope-1'' 5 empty_relationships
      = empty_relationships\<lparr>rd_Generations := [\<lparr>rg_GenerationID = ''gen-1'', rg_Scope = ''scope-1'', rg_RunID = None, rg_Status = ''active'',
          rg_CreatedAt = 5, rg_ActivatedAt = Some 5\<rparr>]\<rparr>" (is "_ = ?db")
    by (simp add: ActivateResolutionGeneration_def upsert_row_def empty_relationships_def)
  have "one_active_generation ?db" by (simp add: one_active_generation_def)
  from one_active_resolution [OF this, of "''gen-2''" "''scope-1''"]
  have "one_active_generation (ActivateResolutionGeneration ''gen-2'' ''scope-1'' 7 ?db)" by simp
  moreover have "map rg_Status (rd_Generations (ActivateResolutionGeneration ''gen-2'' ''scope-1'' 7 ?db)) = [''superseded'', ''active'']"
    by (simp add: ActivateResolutionGeneration_def upsert_row_def superseded_others_def)
  ultimately show ?thesis unfolding db by blast
qed


end
