(* ===== verification/CrossRepo.thy ===== *)
theory CrossRepo
  imports RelationshipStore SharedStore PhaseStore
begin

text \<open>
  \<open>go/internal/reducer/cross_repo_resolution.go\<close>, \<open>cross_repo_evidence_type.go\<close> and
  \<open>cross_repo_evidence_artifacts.go\<close>: the resolution of a generation's relationships inside the
  deployment mapping reducer, from the stored evidence to stored relationships and the intents for
  the graph. The loader, the assertions and the persister are the relationship store, the writer
  is the writer of shared intents, readiness comes from the phase store, as the reducer wires them;
  each but the first and the writer may be missing. Logging and telemetry are left out.
\<close>

section \<open>Values of details\<close>

text \<open>
  \<open>fmt.Sprint\<close> of a value; a number is the text of its literal, which is what \<open>%v\<close> prints for the
  confidences and counts that occur.
\<close>

fun join_spaces :: "string list \<Rightarrow> string" where
  "join_spaces [] = []"
| "join_spaces [s] = s"
| "join_spaces (s # ss) = s @ '' '' @ join_spaces ss"

fun sprint :: "json \<Rightarrow> string" where
  "sprint JNull = ''<nil>''"
| "sprint (JBool b) = (if b then ''true'' else ''false'')"
| "sprint (JNum lit) = lit"
| "sprint (JStr s) = s"
| "sprint (JArr vs) = ''['' @ join_spaces (map sprint vs) @ '']''"
| "sprint (JObj m) = ''map['' @ join_spaces (map (\<lambda>(k, v). k @ '':'' @ sprint v) m) @ '']''"

definition detail :: "Payload.payload option \<Rightarrow> string \<Rightarrow> json" where
  "detail d k = (case d of None \<Rightarrow> JNull | Some m \<Rightarrow> (case map_of m k of None \<Rightarrow> JNull | Some v \<Rightarrow> v))"

definition anyString :: "json \<Rightarrow> string" where
  "anyString v = (case v of JStr s \<Rightarrow> s | _ \<Rightarrow> [])"

definition is_text :: "json \<Rightarrow> bool" where
  "is_text v \<longleftrightarrow> (case v of JStr _ \<Rightarrow> True | _ \<Rightarrow> False)"

text \<open>A slice of strings (an array of texts) is taken as it is.\<close>

definition toStringSlice :: "json \<Rightarrow> string list" where
  "toStringSlice v =
     (case v of
        JArr vs \<Rightarrow> if list_all is_text vs then map anyString vs else filter (\<lambda>t. t \<noteq> [] \<and> t \<noteq> ''<nil>'') (map sprint vs)
      | _ \<Rightarrow> filter (\<lambda>t. t \<noteq> [] \<and> t \<noteq> ''<nil>'') [sprint v])"

definition objects_of :: "json \<Rightarrow> Payload.payload list" where
  "objects_of v = (case v of JArr vs \<Rightarrow> List.map_filter (\<lambda>x. case x of JObj m \<Rightarrow> Some m | _ \<Rightarrow> None) vs | _ \<Rightarrow> [])"

section \<open>Evidence types and artifacts\<close>

definition evidenceKindToType :: "(string \<times> string) list" where
  "evidenceKindToType =
    [(''TERRAFORM_APP_REPO'', ''terraform_app_repo''),
     (''TERRAFORM_APP_NAME'', ''terraform_app_name''),
     (''TERRAFORM_GITHUB_REPOSITORY'', ''terraform_github_repository''),
     (''TERRAFORM_GITHUB_ACTIONS_REPOSITORY'', ''terraform_github_actions_repository''),
     (''TERRAFORM_CONFIG_PATH'', ''terraform_config_path''),
     (''TERRAFORM_IAM_PERMISSION'', ''terraform_iam_permission''),
     (''TERRAFORM_MODULE_SOURCE'', ''terraform_module_source''),
     (''TERRAGRUNT_DEPENDENCY_CONFIG_PATH'', ''terragrunt_dependency_config_path''),
     (''TERRAGRUNT_CONFIG_ASSET_PATH'', ''terragrunt_config_asset_path''),
     (''HELM_CHART_REFERENCE'', ''helm_chart_reference''),
     (''HELM_VALUES_REFERENCE'', ''helm_values_reference''),
     (''ARGOCD_APPLICATION_SOURCE'', ''argocd_application_source''),
     (''ARGOCD_APPLICATIONSET_DISCOVERY'', ''argocd_applicationset_discovery''),
     (''ARGOCD_APPLICATIONSET_DEPLOY_SOURCE'', ''argocd_applicationset_deploy_source''),
     (''ARGOCD_DESTINATION_PLATFORM'', ''argocd_destination_platform''),
     (''GITHUB_ACTIONS_REUSABLE_WORKFLOW'', ''github_actions_reusable_workflow_ref''),
     (''GITHUB_ACTIONS_LOCAL_REUSABLE_WORKFLOW'', ''github_actions_local_reusable_workflow_ref''),
     (''GITHUB_ACTIONS_CHECKOUT_REPOSITORY'', ''github_actions_checkout_repository''),
     (''GITHUB_ACTIONS_WORKFLOW_INPUT_REPOSITORY'', ''github_actions_workflow_input_repository''),
     (''GITHUB_ACTIONS_ACTION_REPOSITORY'', ''github_actions_action_repository''),
     (''JENKINS_SHARED_LIBRARY'', ''jenkins_shared_library''),
     (''JENKINS_GITHUB_REPOSITORY'', ''jenkins_github_repository''),
     (''DOCKER_COMPOSE_BUILD_CONTEXT'', ''docker_compose_build_context''),
     (''DOCKER_COMPOSE_IMAGE'', ''docker_compose_image''),
     (''DOCKER_COMPOSE_DEPENDS_ON'', ''docker_compose_depends_on''),
     (''DOCKERFILE_SOURCE_LABEL'', ''dockerfile_source_label''),
     (''KUSTOMIZE_RESOURCE_REFERENCE'', ''kustomize_resource_reference''),
     (''KUSTOMIZE_HELM_CHART_REFERENCE'', ''kustomize_helm_chart_reference''),
     (''KUSTOMIZE_IMAGE_REFERENCE'', ''kustomize_image_reference''),
     (''ANSIBLE_ROLE_REFERENCE'', ''ansible_role_reference'')]"

definition normalizeEvidenceKind :: "string \<Rightarrow> string" where
  "normalizeEvidenceKind raw =
     (let kind = trim_space raw in
      if kind = [] then []
      else (case map_of evidenceKindToType kind of Some t \<Rightarrow> t | None \<Rightarrow> to_lower kind))"

definition firstEvidenceKindFromPreview :: "Payload.payload option \<Rightarrow> string" where
  "firstEvidenceKindFromPreview details = first_nonempty
     (map (\<lambda>m. trim_space (anyString (detail (Some m) ''kind''))) (objects_of (detail details ''evidence_preview'')))"

text \<open>A slice of strings is taken as it is, of other values only the texts that are not blank.\<close>

definition stringSliceDetail :: "Payload.payload option \<Rightarrow> string \<Rightarrow> string list" where
  "stringSliceDetail details key =
     (case detail details key of
        JArr vs \<Rightarrow> if list_all is_text vs then map anyString vs
                   else filter (\<lambda>s. s \<noteq> []) (map (\<lambda>v. trim_space (anyString v)) vs)
      | _ \<Rightarrow> [])"

definition resolvedRelationshipEvidenceType :: "ResolvedRelationship \<Rightarrow> string" where
  "resolvedRelationshipEvidenceType r =
     (let kind = firstEvidenceKindFromPreview (rel_Details r) in
      if kind \<noteq> [] then normalizeEvidenceKind kind
      else (case stringSliceDetail (rel_Details r) ''evidence_kinds'' of
              k # _ \<Rightarrow> normalizeEvidenceKind k
            | [] \<Rightarrow> []))"

definition firstArtifactString :: "Payload.payload option \<Rightarrow> string list \<Rightarrow> string" where
  "firstArtifactString details keys = first_nonempty
     (map (\<lambda>k. let v = trim_space (sprint (detail details k)) in if v = ''<nil>'' then [] else v) keys)"

definition artifactDetails :: "json \<Rightarrow> Payload.payload option" where
  "artifactDetails v = (case v of JObj m \<Rightarrow> Some m | _ \<Rightarrow> None)"

definition artifactConfidence :: "json \<Rightarrow> json" where
  "artifactConfidence v = (case v of JNum lit \<Rightarrow> JNum lit | _ \<Rightarrow> JNum ''0'')"

definition artifactFamily :: "string \<Rightarrow> string" where
  "artifactFamily kind =
     (case find (\<lambda>(p, _). prefix p kind)
        [(''ARGOCD_'', ''argocd''), (''HELM_'', ''helm''), (''KUSTOMIZE_'', ''kustomize''), (''TERRAGRUNT_'', ''terragrunt''),
         (''TERRAFORM_'', ''terraform''), (''GITHUB_ACTIONS_'', ''github_actions''), (''JENKINS_'', ''jenkins''),
         (''ANSIBLE_'', ''ansible''), (''DOCKER_COMPOSE_'', ''docker_compose''), (''DOCKERFILE_'', ''dockerfile'')] of
        Some (_, family) \<Rightarrow> family
      | None \<Rightarrow> to_lower kind)"

text \<open>\<open>strings.FieldsFunc\<close>: the maximal runs of characters that are no separators.\<close>

fun fields_by :: "(char \<Rightarrow> bool) \<Rightarrow> string \<Rightarrow> string \<Rightarrow> string list" where
  "fields_by sep field [] = (if field = [] then [] else [field])"
| "fields_by sep field (c # cs) =
     (if sep c then (if field = [] then fields_by sep [] cs else field # fields_by sep [] cs)
      else fields_by sep (field @ [c]) cs)"

definition isKnownEnvironmentToken :: "string \<Rightarrow> bool" where
  "isKnownEnvironmentToken token \<longleftrightarrow> token \<in> {''dev'', ''development'', ''test'', ''qa'', ''stage'', ''staging'', ''uat'', ''preprod'',
     ''prod'', ''production'', ''sandbox'', ''preview''}"

text \<open>The segments between slashes that are not empty.\<close>

definition environmentFromArtifactPath :: "string \<Rightarrow> string" where
  "environmentFromArtifactPath path =
     (case find (\<lambda>segment. list_ex (\<lambda>token. isKnownEnvironmentToken (to_lower token))
          (fields_by (\<lambda>c. c \<in> {CHR ''-'', CHR ''_'', CHR ''.''}) [] segment))
        (fields_by (\<lambda>c. c = CHR ''/'') [] path) of
        Some segment \<Rightarrow> segment
      | None \<Rightarrow> [])"

definition artifact_of :: "Payload.payload \<Rightarrow> json option" where
  "artifact_of item =
     (let kind = trim_space (anyString (detail (Some item) ''kind''));
          details = artifactDetails (detail (Some item) ''details'');
          path = firstArtifactString details [''path'', ''first_party_ref_path'', ''config_path'', ''file_path''];
          matchedValue = firstArtifactString details [''matched_value'', ''first_party_ref_normalized'', ''source_ref'', ''image_ref''];
          matchedAlias = firstArtifactString details [''matched_alias'', ''first_party_ref_name'', ''name''];
          runtimeKind = firstArtifactString details [''runtime_platform_kind'', ''platform_kind'']
      in if kind = [] \<or> path = [] \<and> matchedValue = [] \<and> matchedAlias = [] then None
         else Some (JObj
           ([(''artifact_family'', JStr (artifactFamily kind)),
             (''confidence'', artifactConfidence (detail (Some item) ''confidence'')),
             (''environment'', JStr (environmentFromArtifactPath path)),
             (''evidence_kind'', JStr kind),
             (''extractor'', JStr (firstArtifactString details [''extractor'', ''parser'', ''source''])),
             (''matched_alias'', JStr matchedAlias),
             (''matched_value'', JStr matchedValue),
             (''path'', JStr path)]
            @ (if runtimeKind \<noteq> [] then [(''runtime_platform_kind'', JStr runtimeKind)] else []))))"

definition resolvedRelationshipEvidenceArtifacts :: "ResolvedRelationship \<Rightarrow> json list" where
  "resolvedRelationshipEvidenceArtifacts r = List.map_filter artifact_of (objects_of (detail (rel_Details r) ''evidence_preview''))"

section \<open>Intents\<close>

text \<open>The identifier from its first \<open>repository:\<close> on, where \<open>scope:\<close> stands before that.\<close>

fun split_at_text :: "string \<Rightarrow> string \<Rightarrow> string \<Rightarrow> (string \<times> string) option" where
  "split_at_text pat before [] = (if pat = [] then Some (before, []) else None)"
| "split_at_text pat before (c # cs) =
     (if prefix pat (c # cs) then Some (before, c # cs) else split_at_text pat (before @ [c]) cs)"

definition normalizeReducerRepositoryID :: "string \<Rightarrow> string" where
  "normalizeReducerRepositoryID value =
     (let v = trim_space value in
      case split_at_text ''repository:'' [] v of
        Some (before, rest) \<Rightarrow> if before \<noteq> [] \<and> suffix ''scope:'' before then rest else v
      | None \<Rightarrow> v)"

definition normalizeRelationshipCandidates :: "RelationshipCandidate list \<Rightarrow> RelationshipCandidate list" where
  "normalizeRelationshipCandidates cs = map (\<lambda>c. c\<lparr>rc_SourceRepoID := normalizeReducerRepositoryID (rc_SourceRepoID c),
     rc_TargetRepoID := normalizeReducerRepositoryID (rc_TargetRepoID c)\<rparr>) cs"

definition normalizeResolvedRelationships :: "ResolvedRelationship list \<Rightarrow> ResolvedRelationship list" where
  "normalizeResolvedRelationships rs = map (\<lambda>r. r\<lparr>rel_SourceRepoID := normalizeReducerRepositoryID (rel_SourceRepoID r),
     rel_TargetRepoID := normalizeReducerRepositoryID (rel_TargetRepoID r)\<rparr>) rs"

definition crossRepoBackwardEvidenceReadinessKey :: "string \<Rightarrow> string \<Rightarrow> PhaseKey option" where
  "crossRepoBackwardEvidenceReadinessKey scopeID generationID =
     (let key = \<lparr>pk_ScopeID = trim_space scopeID, pk_AcceptanceUnitID = trim_space scopeID, pk_SourceRunID = trim_space generationID,
        pk_GenerationID = trim_space generationID, pk_Keyspace = KeyspaceCrossRepoEvidence\<rparr>
      in if PhaseKey_Validate key = None then Some key else None)"

definition crossRepoContributionSourceRunID :: "string \<Rightarrow> string" where
  "crossRepoContributionSourceRunID scopeID =
     (let s = trim_space scopeID in if s = [] then ''repo_dependency'' else ''repo_dependency:'' @ s)"

definition crossRepoEvidenceSource :: string where "crossRepoEvidenceSource = ''resolver/cross-repo''"

definition intent_payload :: "(string \<Rightarrow> nat list) \<Rightarrow> ResolvedRelationship \<Rightarrow> string \<Rightarrow> nat \<Rightarrow> (string \<times> any) list" where
  "intent_payload digest r generationID ordinal =
     [(''repo_id'', StrValue (rel_SourceRepoID r)), (''evidence_source'', StrValue crossRepoEvidenceSource),
      (''resolved_id'', StrValue (ResolvedRelationshipID digest generationID r ordinal)),
      (''generation_id'', StrValue generationID), (''confidence'', OtherValue (json_float (rel_Confidence r))),
      (''evidence_count'', OtherValue (show_nat (rel_EvidenceCount r))),
      (''evidence_kinds'', OtherValue (sprint (JArr (map JStr (toStringSlice (detail (rel_Details r) ''evidence_kinds'')))))),
      (''rationale'', StrValue (rel_Rationale r)), (''resolution_source'', StrValue (rel_ResolutionSource r))]
     @ (if resolvedRelationshipEvidenceType r \<noteq> [] then [(''evidence_type'', StrValue (resolvedRelationshipEvidenceType r))] else [])
     @ (if resolvedRelationshipEvidenceArtifacts r \<noteq> []
        then [(''evidence_artifacts'', OtherValue (sprint (JArr (resolvedRelationshipEvidenceArtifacts r))))] else [])"

definition buildResolvedEdgeIntentRow ::
  "(string \<Rightarrow> nat list) \<Rightarrow> ResolvedRelationship \<Rightarrow> string \<Rightarrow> string \<Rightarrow> string \<Rightarrow> nat \<Rightarrow> time \<Rightarrow> IntentRow option" where
  "buildResolvedEdgeIntentRow digest r scopeID sourceRunID generationID ordinal createdAt =
     (if rel_SourceRepoID r = [] then None
      else if (if rel_RelationshipType r = RelRunsOn then rel_TargetEntityID r else rel_TargetRepoID r) = [] then None
      else Some (BuildSharedProjectionIntent
        \<lparr>ii_ProjectionDomain = DomainRepoDependency,
         ii_PartitionKey =
           (if rel_RelationshipType r = RelRunsOn then ''runs_on:'' @ rel_SourceRepoID r @ ''->'' @ rel_TargetEntityID r
            else ''repo:'' @ rel_SourceRepoID r @ ''->'' @ rel_TargetRepoID r @ ''|'' @ rel_RelationshipType r),
         ii_ScopeID = scopeID, ii_AcceptanceUnitID = rel_SourceRepoID r, ii_RepositoryID = rel_SourceRepoID r,
         ii_SourceRunID = trim_space sourceRunID, ii_GenerationID = generationID,
         ii_Payload = Some (intent_payload digest r generationID ordinal
           @ (if rel_RelationshipType r = RelRunsOn then [(''platform_id'', StrValue (rel_TargetEntityID r))]
              else [(''target_repo_id'', StrValue (rel_TargetRepoID r))])
           @ [(''relationship_type'', StrValue (rel_RelationshipType r))]),
         ii_CreatedAt = createdAt\<rparr>))"

text \<open>The ordinal counts the relationships that give no row, too.\<close>

definition buildResolvedEdgeIntentRows ::
  "(string \<Rightarrow> nat list) \<Rightarrow> ResolvedRelationship list \<Rightarrow> string \<Rightarrow> string \<Rightarrow> string \<Rightarrow> time \<Rightarrow> IntentRow list" where
  "buildResolvedEdgeIntentRows digest resolved scopeID sourceRunID generationID now =
     List.map_filter (\<lambda>(i, r). buildResolvedEdgeIntentRow digest r scopeID sourceRunID generationID i now) (enumerate 0 resolved)"

section \<open>The handler\<close>

record CrossRepoRelationshipHandler =
  cr_HasEvidenceLoader :: bool
  cr_HasAssertions :: bool
  cr_HasPersister :: bool
  cr_HasIntentWriter :: bool
  cr_HasReadinessLookup :: bool
  cr_HasReadinessPrefetch :: bool

record CrossDb =
  cx_Relations :: RelationshipDb
  cx_Shared :: SharedDb
  cx_Phases :: PhaseDb

text \<open>What the calls need: SHA-1, the cast to JSONB, the collation, and how a payload passes through its column.\<close>

record CrossEnv =
  ce_Digest :: "string \<Rightarrow> nat list"
  ce_Jsonb :: "string \<Rightarrow> string option"
  ce_Collate :: "string \<Rightarrow> string \<Rightarrow> int"
  ce_Codec :: "SharedProjection.payload \<Rightarrow> SharedProjection.payload option"
  ce_WriterBegins :: bool

text \<open>Whether the backward evidence gate lets the resolution pass.\<close>

definition evidence_gate_open :: "CrossRepoRelationshipHandler \<Rightarrow> string \<Rightarrow> string \<Rightarrow> PhaseDb \<Rightarrow> bool" where
  "evidence_gate_open h scopeID generationID phases =
     (case crossRepoBackwardEvidenceReadinessKey scopeID generationID of
        None \<Rightarrow> True
      | Some key \<Rightarrow>
          if cr_HasReadinessPrefetch h
          then ReadinessPrefetch phases [key] PhaseBackwardEvidenceCommitted key PhaseBackwardEvidenceCommitted = (True, True)
          else if cr_HasReadinessLookup h
          then ReadinessLookup phases key PhaseBackwardEvidenceCommitted = (True, True)
          else True)"

definition persist_resolution ::
  "CrossEnv \<Rightarrow> string \<Rightarrow> string \<Rightarrow> time \<Rightarrow> RelationshipCandidate list \<Rightarrow> ResolvedRelationship list \<Rightarrow> RelationshipDb
   \<Rightarrow> error option \<times> RelationshipDb" where
  "persist_resolution env scopeID generationID now candidates resolved db =
     (case UpsertCandidates (ce_Digest env) (ce_Jsonb env) generationID candidates db of
        (Some e, db') \<Rightarrow> (Some (Wrap ''persist candidates'' e), db')
      | (None, db') \<Rightarrow>
          (case UpsertResolved (ce_Digest env) (ce_Jsonb env) generationID resolved db' of
             (Some e, db'') \<Rightarrow> (Some (Wrap ''persist resolved'' e), db'')
           | (None, db'') \<Rightarrow> (None, ActivateResolutionGeneration generationID scopeID now db'')))"

definition cross_repo_Resolve ::
  "CrossEnv \<Rightarrow> CrossRepoRelationshipHandler \<Rightarrow> string \<Rightarrow> string \<Rightarrow> time \<Rightarrow> CrossDb \<Rightarrow> nat result \<times> CrossDb" where
  "cross_repo_Resolve env h scopeID generationID now db =
     (if \<not> cr_HasEvidenceLoader h \<or> \<not> cr_HasIntentWriter h then (Inr 0, db)
      else if \<not> evidence_gate_open h scopeID generationID (cx_Phases db) then (Inr 0, db)
      else
        (case ListEvidenceFacts (ce_Collate env) generationID (cx_Relations db) of
           Inl e \<Rightarrow> (Inl (Wrap ''load evidence facts for resolution'' e), db)
         | Inr evidence \<Rightarrow>
             (if evidence = [] then (Inr 0, db)
              else
                (let assertions = (if cr_HasAssertions h then ListAssertions None (cx_Relations db) else []);
                     res = Resolve (DedupeEvidenceFacts evidence) assertions DefaultConfidenceThreshold;
                     candidates = normalizeRelationshipCandidates (fst res);
                     resolved = normalizeResolvedRelationships (snd res)
                 in case (if cr_HasPersister h
                          then persist_resolution env scopeID generationID now candidates resolved (cx_Relations db)
                          else (None, cx_Relations db)) of
                      (Some e, rel) \<Rightarrow> (Inl e, db\<lparr>cx_Relations := rel\<rparr>)
                    | (None, rel) \<Rightarrow>
                        (let db1 = db\<lparr>cx_Relations := rel\<rparr>;
                             rows = buildResolvedEdgeIntentRows (ce_Digest env) resolved scopeID
                               (crossRepoContributionSourceRunID scopeID) generationID now
                         in if rows = [] then (Inr 0, db1)
                            else
                              (case Writer_UpsertIntents (ce_Codec env) now (ce_WriterBegins env) rows (cx_Shared db1) of
                                 (Some e, sh) \<Rightarrow> (Inl (Wrap ''upsert cross-repo dependency intents'' e), db1\<lparr>cx_Shared := sh\<rparr>)
                               | (None, sh) \<Rightarrow> (Inr (length rows), db1\<lparr>cx_Shared := sh\<rparr>)))))))"

section \<open>A resolution that succeeds\<close>

lemma activated_here:
  "list_ex (\<lambda>g. rg_GenerationID g = i \<and> rg_Status g = ''active'') (rd_Generations (ActivateResolutionGeneration i s now db))"
proof (cases "i \<in> set (map rg_GenerationID (rd_Generations db))")
  case True
  then obtain g where "g \<in> set (rd_Generations db)" "rg_GenerationID g = i" by auto
  with True have "(superseded_others i s g)\<lparr>rg_Status := ''active'', rg_ActivatedAt := Some now\<rparr>
      \<in> set (rd_Generations (ActivateResolutionGeneration i s now db))"
    by (force simp: ActivateResolutionGeneration_def upsert_row_def)
  with \<open>rg_GenerationID g = i\<close> show ?thesis unfolding list_ex_iff by (intro bexI) simp_all
next
  case False
  then show ?thesis by (auto simp: ActivateResolutionGeneration_def upsert_row_def list_ex_iff)
qed

lemma persist_activates:
  "persist_resolution env s g now cs rs db = (None, db') \<Longrightarrow>
     list_ex (\<lambda>x. rg_GenerationID x = g \<and> rg_Status x = ''active'') (rd_Generations db')"
  using activated_here by (fastforce simp: persist_resolution_def split: prod.splits option.splits)

text \<open>What the handler resolves from the tables.\<close>

definition resolved_edges :: "CrossRepoRelationshipHandler \<Rightarrow> EvidenceFact list \<Rightarrow> RelationshipDb \<Rightarrow> ResolvedRelationship list" where
  "resolved_edges h evidence rel = normalizeResolvedRelationships (snd (Resolve (DedupeEvidenceFacts evidence)
     (if cr_HasAssertions h then ListAssertions None rel else []) DefaultConfidenceThreshold))"

lemma resolution_runs:
  assumes "cr_HasEvidenceLoader h" and "cr_HasIntentWriter h" and "evidence_gate_open h scopeID g (cx_Phases db)"
    and "ListEvidenceFacts (ce_Collate env) g (cx_Relations db) = Inr evidence" and "evidence \<noteq> []"
  shows "\<exists>candidates. cross_repo_Resolve env h scopeID g now db =
    (case (if cr_HasPersister h
           then persist_resolution env scopeID g now candidates (resolved_edges h evidence (cx_Relations db)) (cx_Relations db)
           else (None, cx_Relations db)) of
       (Some e, rel) \<Rightarrow> (Inl e, db\<lparr>cx_Relations := rel\<rparr>)
     | (None, rel) \<Rightarrow>
         (let rows = buildResolvedEdgeIntentRows (ce_Digest env) (resolved_edges h evidence (cx_Relations db)) scopeID
                (crossRepoContributionSourceRunID scopeID) g now
          in if rows = [] then (Inr 0, db\<lparr>cx_Relations := rel\<rparr>)
             else (case Writer_UpsertIntents (ce_Codec env) now (ce_WriterBegins env) rows (cx_Shared db) of
                     (Some e, sh) \<Rightarrow> (Inl (Wrap ''upsert cross-repo dependency intents'' e), db\<lparr>cx_Relations := rel, cx_Shared := sh\<rparr>)
                   | (None, sh) \<Rightarrow> (Inr (length rows), db\<lparr>cx_Relations := rel, cx_Shared := sh\<rparr>))))"
  using assms
  by (intro exI [of _ "normalizeRelationshipCandidates (fst (Resolve (DedupeEvidenceFacts evidence)
       (if cr_HasAssertions h then ListAssertions None (cx_Relations db) else []) DefaultConfidenceThreshold))"])
    (simp add: cross_repo_Resolve_def resolved_edges_def Let_def split: prod.split option.split)


section \<open>A resolution that is repeated\<close>

text \<open>The identifier of a relationship at a place.\<close>

definition place_id :: "(string \<Rightarrow> nat list) \<Rightarrow> string \<Rightarrow> entityTriple \<Rightarrow> nat \<Rightarrow> string" where
  "place_id digest g k i = relationshipDigest digest ''resolved'' [g, fst k, fst (snd k), snd (snd k), show_nat i]"

lemma resolved_id_place: "ResolvedRelationshipID digest g r i = place_id digest g (resolved_key r) i"
  by (simp add: ResolvedRelationshipID_def place_id_def resolved_key_def)

lemma identity_of_key:
  assumes "resolved_key r = (s, t, ty)" and "s \<noteq> []" and "t \<noteq> []"
  shows "resolved_identity (resolved_row digest g doc i r) = Some (g, s, t, ty)"
  using assms by (auto simp: resolved_identity_def resolved_row_def resolved_key_def nullif_def or_null_def)

lemma normalize_keys: "map resolved_key (normalizeResolvedRelationships rs) = map resolved_key rs"
  by (simp add: normalizeResolvedRelationships_def resolved_key_def)

lemma insert_candidates_keeps:
  "insert_candidates digest jsonb g i cs db = (e, db') \<Longrightarrow> rd_Resolved db' = rd_Resolved db \<and> rd_Generations db' = rd_Generations db"
proof (induction digest jsonb g i cs db rule: insert_candidates.induct)
  case (2 digest jsonb g i c cs db)
  then show ?case by (auto split: option.splits if_splits)
qed simp

lemma insert_resolved_row_keeps: "insert_resolved_row row db = (e, db') \<Longrightarrow> rd_Generations db' = rd_Generations db"
  by (auto simp: insert_resolved_row_def split: if_splits)

lemma insert_resolved_keeps:
  "insert_resolved digest jsonb g i rs db = (e, db') \<Longrightarrow> rd_Generations db' = rd_Generations db"
proof (induction digest jsonb g i rs db rule: insert_resolved.induct)
  case (2 digest jsonb g i r rs db)
  show ?case
  proof (cases "jsonb (marshal_details (rel_Details r))")
    case None
    with 2 show ?thesis by simp
  next
    case (Some doc)
    obtain e' d where d: "insert_resolved_row (resolved_row digest g doc i r) db = (e', d)" by fastforce
    show ?thesis
    proof (cases e')
      case None
      with "2.prems" Some d have "insert_resolved digest jsonb g (Suc i) rs d = (e, db')" by simp
      with "2.IH" [OF Some d [symmetric] None] insert_resolved_row_keeps [OF d] show ?thesis by simp
    next
      case (Some f)
      with "2.prems" \<open>jsonb (marshal_details (rel_Details r)) = Some doc\<close> d insert_resolved_row_keeps [OF d] show ?thesis by simp
    qed
  qed
qed simp

lemma persist_rejects:
  assumes "x \<in> set (rd_Resolved db)" and "j < length rs"
    and "resolved_identity (resolved_row (ce_Digest env) g [] j (rs ! j)) = resolved_identity x" and "resolved_identity x \<noteq> None"
    and "ResolvedRelationshipID (ce_Digest env) g (rs ! j) j \<notin> set (map rv_ResolvedID (rd_Resolved db))"
    and "\<forall>k < j. ResolvedRelationshipID (ce_Digest env) g (rs ! k) k \<noteq> ResolvedRelationshipID (ce_Digest env) g (rs ! j) j"
  shows "\<exists>e db'. persist_resolution env s g now cs rs db = (Some e, db') \<and> rd_Generations db' = rd_Generations db"
proof -
  obtain e d where c: "UpsertCandidates (ce_Digest env) (ce_Jsonb env) g cs db = (e, d)" by fastforce
  note kept = insert_candidates_keeps [OF c [unfolded UpsertCandidates_def]]
  obtain e' d' where r: "UpsertResolved (ce_Digest env) (ce_Jsonb env) g rs d = (e', d')" by fastforce
  have "e' \<noteq> None"
    using insert_resolved_rejects [where i = 0 and x = x and j = j and rs = rs and db = d and digest = "ce_Digest env" and g = g
        and jsonb = "ce_Jsonb env"] assms kept r
    by (simp add: UpsertResolved_def)
  with c r kept insert_resolved_keeps [OF r [unfolded UpsertResolved_def]] show ?thesis
    by (cases e) (auto simp: persist_resolution_def)
qed

text \<open>
  A generation cannot be resolved again once a relationship has moved. The identifier of a stored
  relationship contains its place in the sorted result, and the INSERT tolerates a row with the
  same identifier only, while a unique index covers generation, source, target and type. When a
  relationship of the earlier resolution comes out at a place it has no row for (new evidence or an
  assertion has put another before it, or taken one away), every repetition fails: no edge is
  emitted, and the generation is not activated. The digests of the places are different.
\<close>

theorem moved_relationship_blocks_resolution:
  assumes "cr_HasEvidenceLoader h" and "cr_HasIntentWriter h" and "cr_HasPersister h"
    and "evidence_gate_open h scopeID g (cx_Phases db)"
    and "ListEvidenceFacts (ce_Collate env) g (cx_Relations db) = Inr evidence" and "evidence \<noteq> []"
    and "map resolved_key (resolved_edges h evidence (cx_Relations db)) = keys" and "j < length keys"
    and "keys ! j = (s, t, ty)" and "s \<noteq> []" and "t \<noteq> []"
    and "x \<in> set (rd_Resolved (cx_Relations db))" and "resolved_identity x = Some (g, s, t, ty)"
    and "place_id (ce_Digest env) g (keys ! j) j \<notin> set (map rv_ResolvedID (rd_Resolved (cx_Relations db)))"
    and "\<forall>k < j. place_id (ce_Digest env) g (keys ! k) k \<noteq> place_id (ce_Digest env) g (keys ! j) j"
  shows "\<exists>e db'. cross_repo_Resolve env h scopeID g now db = (Inl e, db') \<and> cx_Shared db' = cx_Shared db
    \<and> rd_Generations (cx_Relations db') = rd_Generations (cx_Relations db)"
proof -
  let ?rs = "resolved_edges h evidence (cx_Relations db)"
  have len: "length ?rs = length keys" using assms(7) by (metis length_map)
  have key: "resolved_key (?rs ! k) = keys ! k" if "k < length keys" for k
    using assms(7) len that by (metis nth_map)
  have id: "ResolvedRelationshipID (ce_Digest env) g (?rs ! k) k = place_id (ce_Digest env) g (keys ! k) k" if "k < length keys" for k
    using key [OF that] by (simp add: resolved_id_place)
  have fails: "\<exists>e rel. persist_resolution env scopeID g now cs ?rs (cx_Relations db) = (Some e, rel)
      \<and> rd_Generations rel = rd_Generations (cx_Relations db)" for cs
  proof (rule persist_rejects [where x = x and j = j])
    show "resolved_identity (resolved_row (ce_Digest env) g [] j (?rs ! j)) = resolved_identity x"
      using identity_of_key [of "?rs ! j" s t ty] key [OF assms(8)] assms(9-11,13) by simp
    show "ResolvedRelationshipID (ce_Digest env) g (?rs ! j) j \<notin> set (map rv_ResolvedID (rd_Resolved (cx_Relations db)))"
      unfolding id [OF assms(8)] by (rule assms(14))
    show "\<forall>k<j. ResolvedRelationshipID (ce_Digest env) g (?rs ! k) k \<noteq> ResolvedRelationshipID (ce_Digest env) g (?rs ! j) j"
      using assms(8,15) by (simp add: id)
  qed (use assms(8,12,13) len in simp_all)
  obtain cs where run: "cross_repo_Resolve env h scopeID g now db =
    (case (if cr_HasPersister h
           then persist_resolution env scopeID g now cs ?rs (cx_Relations db) else (None, cx_Relations db)) of
       (Some e, rel) \<Rightarrow> (Inl e, db\<lparr>cx_Relations := rel\<rparr>)
     | (None, rel) \<Rightarrow>
         (let rows = buildResolvedEdgeIntentRows (ce_Digest env) ?rs scopeID (crossRepoContributionSourceRunID scopeID) g now
          in if rows = [] then (Inr 0, db\<lparr>cx_Relations := rel\<rparr>)
             else (case Writer_UpsertIntents (ce_Codec env) now (ce_WriterBegins env) rows (cx_Shared db) of
                     (Some e, sh) \<Rightarrow> (Inl (Wrap ''upsert cross-repo dependency intents'' e), db\<lparr>cx_Relations := rel, cx_Shared := sh\<rparr>)
                   | (None, sh) \<Rightarrow> (Inr (length rows), db\<lparr>cx_Relations := rel, cx_Shared := sh\<rparr>))))"
    using resolution_runs [OF assms(1,2,4,5,6), of now] by blast
  obtain e rel where f: "persist_resolution env scopeID g now cs ?rs (cx_Relations db) = (Some e, rel)"
    "rd_Generations rel = rd_Generations (cx_Relations db)" using fails by blast
  have "cross_repo_Resolve env h scopeID g now db = (Inl e, db\<lparr>cx_Relations := rel\<rparr>)"
    unfolding run using assms(3) f(1) by simp
  with f(2) show ?thesis by simp
qed

section \<open>Examples\<close>

definition example_env :: CrossEnv where
  "example_env = \<lparr>ce_Digest = tail_digest, ce_Jsonb = printed, ce_Collate = compare, ce_Codec = Some, ce_WriterBegins = True\<rparr>"

definition example_handler :: CrossRepoRelationshipHandler where
  "example_handler = \<lparr>cr_HasEvidenceLoader = True, cr_HasAssertions = False, cr_HasPersister = True, cr_HasIntentWriter = True,
     cr_HasReadinessLookup = False, cr_HasReadinessPrefetch = False\<rparr>"

definition example_evidence_row :: "time \<Rightarrow> EvidenceFact \<Rightarrow> EvidenceRow" where
  "example_evidence_row t f = evidence_row tail_digest ''gen-1'' t ''null'' f"

text \<open>The stored evidence, and the relationships an earlier resolution has stored.\<close>

definition example_cross :: "EvidenceFact list \<Rightarrow> ResolvedRow list \<Rightarrow> CrossDb" where
  "example_cross evidence resolved =
     \<lparr>cx_Relations = empty_relationships\<lparr>rd_Evidence := map (\<lambda>(i, f). example_evidence_row (int i) f) (enumerate 0 evidence),
        rd_Resolved := resolved\<rparr>,
      cx_Shared = \<lparr>sd_Scopes = [''scope-1''], sd_Generations = [''gen-1''], sd_Intents = [], sd_Leases = [], sd_Acceptance = []\<rparr>,
      cx_Phases = \<lparr>db_Scopes = [], db_Generations = [], db_States = [], db_Repairs = []\<rparr>\<rparr>"

lemma example_scan: "ef_Details f = None \<Longrightarrow> scan_evidence (example_evidence_row t f) = Inr f"
  using scan_evidence_row [of printed f tail_digest "''gen-1''" t]
  by (simp add: example_evidence_row_def printed_def kept_details_def marshal_details_def)

lemma example_evidence_row_simps [simp]: "ew_GenerationID (example_evidence_row t f) = ''gen-1''" "ew_ObservedAt (example_evidence_row t f) = t"
  by (simp_all add: example_evidence_row_def evidence_row_def)

lemma example_details [simp]: "ef_Details (example_evidence src tgt c) = None"
  by (simp add: example_evidence_def)

lemma example_gate: "evidence_gate_open example_handler ''scope-1'' ''gen-1'' phases"
  by (simp add: evidence_gate_open_def example_handler_def split: option.split)

lemma resolved_keys_are:
  assumes "plain_names facts as" and "{k. decided facts as (effective_threshold th) k} = set keys"
    and "sorted_wrt (\<lambda>a b. cmp_triple a b < 0) keys"
  shows "map resolved_key (snd (Resolve facts as th)) = keys"
  by (rule strictly_sorted_unique) (use resolution_view(1,2) [OF assms(1), of th] assms(2,3) in simp_all)

lemma moved_relationship_blocks_resolution_witness:
  "\<exists>e db'. cross_repo_Resolve example_env example_handler ''scope-1'' ''gen-1'' 9
      (example_cross [example_evidence ''web'' ''api'' (4/5), example_evidence ''api'' ''db'' (9/10)]
        [resolved_row tail_digest ''gen-1'' ''null'' 0 (example_resolved ''web'' ''api'')]) = (Inl e, db')
    \<and> sd_Intents (cx_Shared db') = []"
proof -
  let ?e = "[example_evidence ''web'' ''api'' (4/5), example_evidence ''api'' ''db'' (9/10)]"
  let ?x = "resolved_row tail_digest ''gen-1'' ''null'' 0 (example_resolved ''web'' ''api'')"
  let ?db = "example_cross ?e [?x]"
  let ?keys = "[(''api'', ''db'', ''DEPENDS_ON''), (''web'', ''api'', ''DEPENDS_ON'')]"
  have listed: "ListEvidenceFacts (ce_Collate example_env) ''gen-1'' (cx_Relations ?db) = Inr ?e"
    by (simp add: ListEvidenceFacts_def example_cross_def sort_by_def compare_def or_else_def example_scan)
  have dedupe: "DedupeEvidenceFacts ?e = ?e" by (simp add: DedupeEvidenceFacts_def dedupe_key_def example_evidence_def)
  have "map resolved_key (snd (Resolve ?e [] DefaultConfidenceThreshold)) = ?keys"
  proof (rule resolved_keys_are)
    show "plain_names ?e []" by (simp add: plain_names_def List.map_filter_simps plain_triple_def)
    have "effective_threshold DefaultConfidenceThreshold = 3/4" by (simp add: effective_threshold_def DefaultConfidenceThreshold_def)
    moreover have "max_confidence (evidence_of (''web'', ''api'', ''DEPENDS_ON'') ?e) = 4/5" "max_confidence (evidence_of (''api'', ''db'', ''DEPENDS_ON'') ?e) = 9/10"
      by (simp_all add: evidence_of_def max_confidence_def) (simp_all add: example_evidence_def)
    ultimately show "{k. decided ?e [] (effective_threshold DefaultConfidenceThreshold) k} = set ?keys"
      by (auto simp: decided_def asserted_def rejected_def latest_assertion_def supported_def evidence_keys_iff)
    show "sorted_wrt (\<lambda>a b. cmp_triple a b < 0) ?keys" by code_simp
  qed
  then have keys: "map resolved_key (resolved_edges example_handler ?e (cx_Relations ?db)) = ?keys"
    by (simp only: resolved_edges_def normalize_keys dedupe) (simp add: example_handler_def)
  have other: "place_id tail_digest ''gen-1'' (''web'', ''api'', ''DEPENDS_ON'') 1 \<noteq> ResolvedRelationshipID tail_digest ''gen-1'' (example_resolved ''web'' ''api'') 0"
    "place_id tail_digest ''gen-1'' (''api'', ''db'', ''DEPENDS_ON'') 0 \<noteq> place_id tail_digest ''gen-1'' (''web'', ''api'', ''DEPENDS_ON'') 1"
    by code_simp+
  have "\<exists>e db'. cross_repo_Resolve example_env example_handler ''scope-1'' ''gen-1'' 9 ?db = (Inl e, db') \<and> cx_Shared db' = cx_Shared ?db
    \<and> rd_Generations (cx_Relations db') = rd_Generations (cx_Relations ?db)"
  proof (rule moved_relationship_blocks_resolution [OF _ _ _ example_gate listed _ keys, where j = 1 and x = ?x])
    show "resolved_identity ?x = Some (''gen-1'', ''web'', ''api'', ''DEPENDS_ON'')"
      by (rule identity_of_key) (simp_all add: resolved_key_def example_resolved_def)
    show "place_id (ce_Digest example_env) ''gen-1'' (?keys ! 1) 1 \<notin> set (map rv_ResolvedID (rd_Resolved (cx_Relations ?db)))"
      using other(1) by (simp add: example_env_def example_cross_def resolved_row_def)
    show "\<forall>k<1. place_id (ce_Digest example_env) ''gen-1'' (?keys ! k) k \<noteq> place_id (ce_Digest example_env) ''gen-1'' (?keys ! 1) 1"
      using other(2) by (simp add: example_env_def)
  qed (simp_all add: example_handler_def example_cross_def)
  then show ?thesis by (auto simp: example_cross_def)
qed


end
