(* ===== verification/Ingestion.thy ===== *)
theory Ingestion
  imports FactStore ProjectorQueue ReducerQueue CrossRepo
begin

text \<open>
  The ingestion store of \<open>go/internal/storage/postgres/ingestion.go\<close>: the commit of one scope
  generation with its facts, their relationship evidence and the projector's work item in one
  transaction, the corpus-wide discovery of evidence that opens the gates of the cross-repository
  resolution, and the reopening of the reducer items that ran before it. The extractors
  (\<open>relationships.DiscoverEvidence\<close>) are a parameter; an operation reads the clock once.
\<close>

section \<open>State\<close>

record CatalogEntry =
  cat_RepoID :: string
  cat_Aliases :: "string list"

record IngestionStore =
  is_HasDatabase :: bool
  is_HasBeginner :: bool
  is_SkipRelationshipBackfill :: bool

record IngestDb =
  in_Data :: DataDb
  in_Relations :: RelationshipDb
  in_States :: "PhaseState list"

text \<open>
  What the operations call: SHA-1, the cast to JSONB, the text \<open>->>\<close> gives for a value that is no string,
  the collation, the extractors, the order in which Go ranges over a map with the given keys, and
  whether \<open>Begin\<close> and \<open>Commit\<close> succeed.
\<close>

record IngestEnv =
  ie_Digest :: "string \<Rightarrow> nat list"
  ie_Jsonb :: "string \<Rightarrow> string option"
  ie_Render :: "json \<Rightarrow> string"
  ie_Collate :: "string \<Rightarrow> string \<Rightarrow> int"
  ie_Discover :: "Envelope list \<Rightarrow> CatalogEntry list \<Rightarrow> EvidenceFact list"
  ie_Order :: "string list \<Rightarrow> string list"
  ie_Begins :: bool
  ie_Commits :: bool

section \<open>The repository catalog\<close>

fun catalogString :: "Payload.payload option \<Rightarrow> string list \<Rightarrow> string" where
  "catalogString p [] = []"
| "catalogString p (k # ks) =
     (case map_of (payload_map p) k of
        Some (JStr s) \<Rightarrow> if \<not> blank s then trim_space s else catalogString p ks
      | _ \<Rightarrow> catalogString p ks)"

definition payloadRepoID :: "Payload.payload option \<Rightarrow> string" where
  "payloadRepoID p = catalogString p [''repo_id'', ''graph_id'', ''name'']"

definition uniqueCatalogAliases :: "string list \<Rightarrow> string list" where
  "uniqueCatalogAliases values = first_of_each id [] (filter (\<lambda>s. s \<noteq> []) (map trim_space values))"

definition repositoryCatalogEntryFromPayload :: "string \<Rightarrow> CatalogEntry option" where
  "repositoryCatalogEntryFromPayload raw =
     (case unmarshal_details raw of
        Inl e \<Rightarrow> None
      | Inr p \<Rightarrow>
          (let repoID = catalogString p [''repo_id'', ''graph_id'', ''name''] in
           if blank repoID then None
           else Some \<lparr>cat_RepoID = repoID, cat_Aliases = uniqueCatalogAliases
             [repoID, catalogString p [''name'', ''repo_name''], catalogString p [''repo_slug'']]\<rparr>))"

text \<open>\<open>ORDER BY observed_at DESC, fact_id DESC\<close>.\<close>

definition newest_first :: "(string \<Rightarrow> string \<Rightarrow> int) \<Rightarrow> FactRow \<Rightarrow> FactRow \<Rightarrow> int" where
  "newest_first collate x y = cmp_facts collate y x"

definition loadRepositoryCatalog :: "(string \<Rightarrow> string \<Rightarrow> int) \<Rightarrow> DataDb \<Rightarrow> CatalogEntry list" where
  "loadRepositoryCatalog collate db = first_of_each cat_RepoID []
     (List.map_filter (\<lambda>f. repositoryCatalogEntryFromPayload (fw_Payload f))
       (sort_by (newest_first collate) (filter (\<lambda>f. fw_FactKind f = ''repository'') (dd_Facts db))))"

definition catalogRepoIDs :: "CatalogEntry list \<Rightarrow> string list" where
  "catalogRepoIDs catalog = filter (\<lambda>r. \<not> blank r) (map cat_RepoID catalog)"

section \<open>Latest generations\<close>

definition newest_generation :: "(string \<Rightarrow> string \<Rightarrow> int) \<Rightarrow> string \<Rightarrow> DataDb \<Rightarrow> string option" where
  "newest_generation collate scopeID db =
     (case sort_by (\<lambda>x y. or_else (compare (gw_IngestedAt y) (gw_IngestedAt x)) (collate (gw_GenerationID y) (gw_GenerationID x)))
         (filter (\<lambda>g. gw_ScopeID g = scopeID) (dd_Generations db)) of
        [] \<Rightarrow> None
      | g # _ \<Rightarrow> Some (gw_GenerationID g))"

definition active_generation :: "string \<Rightarrow> DataDb \<Rightarrow> string option" where
  "active_generation scopeID db =
     (case find (\<lambda>s. sw_ScopeID s = scopeID) (dd_Scopes db) of None \<Rightarrow> None | Some s \<Rightarrow> sw_ActiveGenerationID s)"

text \<open>\<open>latest_generations\<close>: the active generation of a scope, or else the newest.\<close>

definition latest_generation :: "(string \<Rightarrow> string \<Rightarrow> int) \<Rightarrow> string \<Rightarrow> DataDb \<Rightarrow> string option" where
  "latest_generation collate scopeID db =
     (if list_ex (\<lambda>g. gw_ScopeID g = scopeID) (dd_Generations db)
      then or_null (active_generation scopeID db) (newest_generation collate scopeID db) else None)"

definition latest_facts :: "(string \<Rightarrow> string \<Rightarrow> int) \<Rightarrow> DataDb \<Rightarrow> FactRow list" where
  "latest_facts collate db =
     filter (\<lambda>f. latest_generation collate (fw_ScopeID f) db = Some (fw_GenerationID f)) (dd_Facts db)"

definition loadLatestRelationshipFacts :: "(string \<Rightarrow> string \<Rightarrow> int) \<Rightarrow> DataDb \<Rightarrow> Envelope list result" where
  "loadLatestRelationshipFacts collate db = scan_all scanFactEnvelope
     (sort_by (cmp_facts collate) (filter (\<lambda>f. fw_FactKind f \<in> {''content'', ''file''}) (latest_facts collate db)))"

record RepositoryGeneration =
  rn_RepoID :: string
  rn_ScopeID :: string
  rn_GenerationID :: string

text \<open>The operator \<open>->>\<close> on a payload.\<close>

definition jsonb_field :: "(json \<Rightarrow> string) \<Rightarrow> string \<Rightarrow> string \<Rightarrow> string option" where
  "jsonb_field render doc k =
     (case parse_document doc of
        Some (JObj m) \<Rightarrow>
          (case map_of m k of None \<Rightarrow> None | Some JNull \<Rightarrow> None | Some (JStr s) \<Rightarrow> Some s | Some v \<Rightarrow> Some (render v))
      | _ \<Rightarrow> None)"

definition repository_key :: "(json \<Rightarrow> string) \<Rightarrow> FactRow \<Rightarrow> string" where
  "repository_key render f = coalesce (or_null (jsonb_field render (fw_Payload f) ''repo_id'')
     (or_null (jsonb_field render (fw_Payload f) ''graph_id'') (jsonb_field render (fw_Payload f) ''name'')))"

definition loadActiveRepositoryGenerations ::
  "(json \<Rightarrow> string) \<Rightarrow> (string \<Rightarrow> string \<Rightarrow> int) \<Rightarrow> DataDb \<Rightarrow> RepositoryGeneration list" where
  "loadActiveRepositoryGenerations render collate db =
     filter (\<lambda>r. \<not> blank (rn_RepoID r))
       (first_of_each rn_RepoID []
         (map (\<lambda>f. \<lparr>rn_RepoID = repository_key render f, rn_ScopeID = fw_ScopeID f, rn_GenerationID = fw_GenerationID f\<rparr>)
           (sort_by (\<lambda>x y. or_else (collate (repository_key render x) (repository_key render y)) (newest_first collate x y))
             (filter (\<lambda>f. fw_FactKind f = ''repository'' \<and> repository_key render f \<noteq> []) (latest_facts collate db)))))"

section \<open>Upserts\<close>

definition scopeSourceKey :: "IngestionScope \<Rightarrow> string" where
  "scopeSourceKey s =
     (case sc_Metadata s of
        None \<Rightarrow> sc_ScopeID s
      | Some m \<Rightarrow> (case map_of m ''source_key'' of
            Some k \<Rightarrow> if \<not> blank k then trim_space k else sc_ScopeID s
          | None \<Rightarrow> sc_ScopeID s))"

definition stringMapToAny :: "(string \<times> string) list option \<Rightarrow> Payload.payload" where
  "stringMapToAny m = (case m of None \<Rightarrow> []
     | Some kvs \<Rightarrow> map (\<lambda>(k, v). (k, JStr v)) (sort_by (\<lambda>x y. compare (fst x) (fst y)) kvs))"

definition activeGenerationID :: "ScopeGeneration \<Rightarrow> string option" where
  "activeGenerationID g = (if gen_Status g = GenerationStatusActive then Some (gen_GenerationID g) else None)"

definition activeTimestamp :: "ScopeGeneration \<Rightarrow> time option" where
  "activeTimestamp g = (if gen_Status g = GenerationStatusActive then Some (utc (gen_IngestedAt g)) else None)"

definition scope_row :: "string \<Rightarrow> IngestionScope \<Rightarrow> ScopeGeneration \<Rightarrow> ScopeRow" where
  "scope_row doc s g =
     \<lparr>sw_ScopeID = sc_ScopeID s, sw_ScopeKind = sc_ScopeKind s, sw_SourceSystem = sc_SourceSystem s, sw_SourceKey = scopeSourceKey s,
      sw_ParentScopeID = nullif (sc_ParentScopeID s), sw_CollectorKind = sc_CollectorKind s, sw_PartitionKey = sc_PartitionKey s,
      sw_ObservedAt = utc (gen_ObservedAt g), sw_IngestedAt = utc (gen_IngestedAt g), sw_Status = gen_Status g,
      sw_ActiveGenerationID = activeGenerationID g, sw_Payload = doc\<rparr>"

definition merge_scope :: "ScopeRow \<Rightarrow> ScopeRow \<Rightarrow> ScopeRow" where
  "merge_scope old excluded = excluded\<lparr>sw_ScopeID := sw_ScopeID old,
     sw_Status := (if sw_ActiveGenerationID old \<noteq> None \<and> sw_ActiveGenerationID excluded = None
         \<and> sw_Status excluded = GenerationStatusPending then sw_Status old else sw_Status excluded),
     sw_ActiveGenerationID := or_null (sw_ActiveGenerationID excluded) (sw_ActiveGenerationID old)\<rparr>"

definition upsertIngestionScope ::
  "(string \<Rightarrow> string option) \<Rightarrow> IngestionScope \<Rightarrow> ScopeGeneration \<Rightarrow> DataDb \<Rightarrow> error option \<times> DataDb" where
  "upsertIngestionScope jsonb s g db =
     (case jsonb (marshalPayload (stringMapToAny (MetadataCopy s))) of
        None \<Rightarrow> (Some (Msg ''invalid input syntax for type json''), db)
      | Some doc \<Rightarrow> statement (db\<lparr>dd_Scopes := upsert_row sw_ScopeID merge_scope (scope_row doc s g) (dd_Scopes db)\<rparr>) db)"

definition generation_row :: "ScopeGeneration \<Rightarrow> GenerationRow" where
  "generation_row g =
     \<lparr>gw_GenerationID = gen_GenerationID g, gw_ScopeID = gen_ScopeID g, gw_TriggerKind = gen_TriggerKind g,
      gw_FreshnessHint = nullif (gen_FreshnessHint g), gw_ObservedAt = utc (gen_ObservedAt g), gw_IngestedAt = utc (gen_IngestedAt g),
      gw_Status = gen_Status g, gw_ActivatedAt = activeTimestamp g, gw_SupersededAt = None\<rparr>"

definition merge_generation :: "GenerationRow \<Rightarrow> GenerationRow \<Rightarrow> GenerationRow" where
  "merge_generation old excluded = excluded\<lparr>gw_GenerationID := gw_GenerationID old, gw_SupersededAt := gw_SupersededAt old\<rparr>"

definition upsertScopeGeneration :: "ScopeGeneration \<Rightarrow> DataDb \<Rightarrow> error option \<times> DataDb" where
  "upsertScopeGeneration g db =
     statement (db\<lparr>dd_Generations := upsert_row gw_GenerationID merge_generation (generation_row g) (dd_Generations db)\<rparr>) db"

section \<open>The commit\<close>

definition validateGenerationInput :: "IngestionScope \<Rightarrow> ScopeGeneration \<Rightarrow> error option" where
  "validateGenerationInput s g = first_err
     [ValidateForScope g s,
      check (IsTerminal g) (Fmt ''generation must not be terminal before projection'' [gen_GenerationID g])]"

text \<open>The freshness hint of the active generation of a scope.\<close>

definition active_hint :: "string \<Rightarrow> DataDb \<Rightarrow> string option" where
  "active_hint scopeID db =
     (case active_generation scopeID db of
        None \<Rightarrow> None
      | Some g \<Rightarrow> map_option (\<lambda>r. coalesce (gw_FreshnessHint r)) (find (\<lambda>r. gw_GenerationID r = g) (dd_Generations db)))"

definition shouldSkipUnchangedGeneration :: "IngestionStore \<Rightarrow> string \<Rightarrow> string \<Rightarrow> DataDb \<Rightarrow> bool" where
  "shouldSkipUnchangedGeneration st scopeID freshnessHint db \<longleftrightarrow>
     is_HasDatabase st \<and> \<not> blank scopeID \<and> \<not> blank freshnessHint
     \<and> (case active_hint scopeID db of None \<Rightarrow> False | Some hint \<Rightarrow> trim_space hint = trim_space freshnessHint)"

text \<open>The callback after each batch of facts: the repositories it names, and its evidence.\<close>

definition collect_evidence ::
  "IngestEnv \<Rightarrow> string \<Rightarrow> CatalogEntry list \<Rightarrow> time \<Rightarrow> Envelope list \<Rightarrow> string list \<times> RelationshipDb
   \<Rightarrow> error option \<times> string list \<times> RelationshipDb" where
  "collect_evidence env generationID catalog now batch st =
     (let ids = fst st @ filter (\<lambda>r. r \<noteq> []) (map (\<lambda>e. payloadRepoID (ev_Payload e)) (filter (\<lambda>e. ev_FactKind e = ''repository'') batch));
          evidence = ie_Discover env batch catalog
      in if catalog = [] \<or> evidence = [] then (None, ids, snd st)
         else (case UpsertEvidenceFacts (ie_Digest env) (ie_Jsonb env) generationID evidence now (snd st) of
                 (Some e, rel) \<Rightarrow> (Some (Wrap ''persist relationship evidence'' e), ids, rel)
               | (None, rel) \<Rightarrow> (None, ids, rel)))"

definition filterEvidenceByTargetRepo :: "EvidenceFact list \<Rightarrow> string list \<Rightarrow> EvidenceFact list" where
  "filterEvidenceByTargetRepo evidence targetRepoIDs = filter (\<lambda>f. ef_TargetRepoID f \<in> set targetRepoIDs) evidence"

definition backfillRelationshipEvidenceForNewRepositories ::
  "IngestEnv \<Rightarrow> string \<Rightarrow> string list \<Rightarrow> string list \<Rightarrow> time \<Rightarrow> DataDb \<Rightarrow> RelationshipDb \<Rightarrow> error option \<times> RelationshipDb" where
  "backfillRelationshipEvidenceForNewRepositories env generationID known current now db rel =
     (let new = filter (\<lambda>r. r \<notin> set known) current in
      if new = [] then (None, rel)
      else
        (case loadLatestRelationshipFacts (ie_Collate env) db of
           Inl e \<Rightarrow> (Some (Wrap ''load latest facts for relationship backfill'' e), rel)
         | Inr facts \<Rightarrow>
             (let evidence = filterEvidenceByTargetRepo
                (DedupeEvidenceFacts (ie_Discover env facts (loadRepositoryCatalog (ie_Collate env) db))) new
              in if evidence = [] then (None, rel)
                 else (case UpsertEvidenceFacts (ie_Digest env) (ie_Jsonb env) generationID evidence now rel of
                         (Some e, rel') \<Rightarrow> (Some (Wrap ''persist backfilled relationship evidence'' e), rel')
                       | (None, rel') \<Rightarrow> (None, rel')))))"

text \<open>The queue the commit enqueues with: it has only the transaction and the clock.\<close>

definition ingestion_queue :: ProjectorQueue where
  "ingestion_queue = \<lparr>pq_HasDatabase = True, pq_HasBeginner = False, pq_LeaseOwner = [], pq_LeaseDuration = 0, pq_RetryDelay = 0, pq_MaxAttempts = 0\<rparr>"

text \<open>The statements of the transaction; after an error it is rolled back.\<close>

definition commit_steps ::
  "IngestEnv \<Rightarrow> IngestionStore \<Rightarrow> IngestionScope \<Rightarrow> ScopeGeneration \<Rightarrow> Envelope list option \<Rightarrow> time \<Rightarrow> IngestDb \<Rightarrow> IngestDb result" where
  "commit_steps env st s g stream now db =
     (case upsertIngestionScope (ie_Jsonb env) s g (in_Data db) of
        (Some e, _) \<Rightarrow> Inl (Wrap ''upsert ingestion scope'' e)
      | (None, d1) \<Rightarrow>
     (case upsertScopeGeneration g d1 of
        (Some e, _) \<Rightarrow> Inl (Wrap ''upsert scope generation'' e)
      | (None, d2) \<Rightarrow>
     (let catalog = loadRepositoryCatalog (ie_Collate env) d2 in
      case upsertStreamingFacts (ie_Jsonb env) stream (sc_ScopeID s) (gen_GenerationID g)
          (collect_evidence env (gen_GenerationID g) catalog now) d2 ([], in_Relations db) of
        (Some e, _) \<Rightarrow> Inl e
      | (None, _, d3, current, rel) \<Rightarrow>
     (case (if is_SkipRelationshipBackfill st then (None, rel)
            else backfillRelationshipEvidenceForNewRepositories env (gen_GenerationID g) (catalogRepoIDs catalog) current now d3 rel) of
        (Some e, _) \<Rightarrow> Inl e
      | (None, rel') \<Rightarrow>
     (case projector_Enqueue ingestion_queue (sc_ScopeID s) (gen_GenerationID g) now d3 of
        (Some e, _) \<Rightarrow> Inl e
      | (None, d4) \<Rightarrow> Inr (db\<lparr>in_Data := d4, in_Relations := rel'\<rparr>))))))"

definition CommitScopeGeneration ::
  "IngestEnv \<Rightarrow> IngestionStore \<Rightarrow> IngestionScope \<Rightarrow> ScopeGeneration \<Rightarrow> Envelope list option \<Rightarrow> time \<Rightarrow> IngestDb
   \<Rightarrow> error option \<times> IngestDb" where
  "CommitScopeGeneration env st s g stream now db =
     (case validateGenerationInput s g of
        Some e \<Rightarrow> (Some e, db)
      | None \<Rightarrow>
          (if shouldSkipUnchangedGeneration st (sc_ScopeID s) (gen_FreshnessHint g) (in_Data db) then (None, db)
           else if \<not> is_HasBeginner st then (Some (Required ''transaction beginner''), db)
           else if \<not> ie_Begins env then (Some (Wrap ''begin ingestion transaction'' (Msg ''begin failed'')), db)
           else
             (case commit_steps env st s g stream now db of
                Inl e \<Rightarrow> (Some e, db)
              | Inr db' \<Rightarrow>
                  (if ie_Commits env then (None, db')
                   else (Some (Wrap ''commit ingestion transaction'' (Msg ''commit failed'')), db)))))"

section \<open>Deferred relationship maintenance\<close>

definition phase_view :: "IngestDb \<Rightarrow> PhaseDb" where
  "phase_view db = \<lparr>db_Scopes = scope_ids (in_Data db), db_Generations = generation_ids (in_Data db), db_States = in_States db,
     db_Repairs = []\<rparr>"

definition readiness_row :: "time \<Rightarrow> RepositoryGeneration \<Rightarrow> PhaseState" where
  "readiness_row now r =
     \<lparr>ps_Key = \<lparr>pk_ScopeID = rn_ScopeID r, pk_AcceptanceUnitID = rn_ScopeID r, pk_SourceRunID = rn_GenerationID r,
        pk_GenerationID = rn_GenerationID r, pk_Keyspace = KeyspaceCrossRepoEvidence\<rparr>,
      ps_Phase = PhaseBackwardEvidenceCommitted, ps_CommittedAt = now, ps_UpdatedAt = now\<rparr>"

text \<open>The evidence of each source repository goes to the generation found for that repository.\<close>

fun persist_by_source ::
  "IngestEnv \<Rightarrow> RepositoryGeneration list \<Rightarrow> EvidenceFact list \<Rightarrow> time \<Rightarrow> string list \<Rightarrow> RelationshipDb
   \<Rightarrow> error option \<times> RelationshipDb" where
  "persist_by_source env gens evidence now [] rel = (None, rel)"
| "persist_by_source env gens evidence now (repo # repos) rel =
     (case find (\<lambda>r. rn_RepoID r = repo) gens of
        None \<Rightarrow> persist_by_source env gens evidence now repos rel
      | Some r \<Rightarrow>
          (case UpsertEvidenceFacts (ie_Digest env) (ie_Jsonb env) (rn_GenerationID r)
              (filter (\<lambda>f. ef_SourceRepoID f = repo) evidence) now rel of
             (Some e, rel') \<Rightarrow> (Some (Wrap ''persist deferred relationship evidence'' e), rel')
           | (None, rel') \<Rightarrow> persist_by_source env gens evidence now repos rel'))"

definition routed_evidence :: "EvidenceFact list \<Rightarrow> EvidenceFact list" where
  "routed_evidence facts = filter (\<lambda>f. \<not> blank (ef_SourceRepoID f) \<and> \<not> blank (ef_TargetRepoID f)) facts"

definition BackfillAllRelationshipEvidence ::
  "IngestEnv \<Rightarrow> IngestionStore \<Rightarrow> time \<Rightarrow> IngestDb \<Rightarrow> error option \<times> IngestDb" where
  "BackfillAllRelationshipEvidence env st now db =
     (if \<not> is_HasDatabase st then (Some (Required ''ingestion store db''), db)
      else
        (let catalog = loadRepositoryCatalog (ie_Collate env) (in_Data db);
             gens = loadActiveRepositoryGenerations (ie_Render env) (ie_Collate env) (in_Data db)
         in if gens = [] then (None, db)
         else
           (case loadLatestRelationshipFacts (ie_Collate env) (in_Data db) of
              Inl e \<Rightarrow> (Some (Wrap ''load latest facts for deferred relationship backfill'' e), db)
            | Inr facts \<Rightarrow>
                (let evidence = routed_evidence (DedupeEvidenceFacts (ie_Discover env facts catalog)) in
                 case persist_by_source env gens evidence now (ie_Order env (remdups (map ef_SourceRepoID evidence))) (in_Relations db) of
                   (Some e, rel) \<Rightarrow> (Some e, db\<lparr>in_Relations := rel\<rparr>)
                 | (None, rel) \<Rightarrow>
                     (let rows = map (readiness_row now)
                        (List.map_filter (\<lambda>k. find (\<lambda>r. rn_RepoID r = k) gens) (ie_Order env (map rn_RepoID gens)))
                      in case StateStore_Publish now (phase_view db) rows of
                           (Some e, p) \<Rightarrow> (Some (Wrap ''publish backward evidence readiness'' e), db\<lparr>in_Relations := rel, in_States := db_States p\<rparr>)
                         | (None, p) \<Rightarrow> (None, db\<lparr>in_Relations := rel, in_States := db_States p\<rparr>))))))"

definition listSucceededDeploymentMappingWorkItemIDs :: "(string \<Rightarrow> string \<Rightarrow> int) \<Rightarrow> DataDb \<Rightarrow> string list" where
  "listSucceededDeploymentMappingWorkItemIDs collate db = filter (\<lambda>i. \<not> blank i)
     (map wr_WorkItemID
       (sort_by (\<lambda>x y. or_else (compare (wr_UpdatedAt x) (wr_UpdatedAt y)) (collate (wr_WorkItemID x) (wr_WorkItemID y)))
         (filter (\<lambda>w. wr_Stage w = ''reducer'' \<and> wr_Domain w = ''deployment_mapping'' \<and> wr_Status w = StatusSucceeded) (dd_Items db))))"

text \<open>The queue of the reopening has the database and the clock only.\<close>

fun reopen_each :: "ReducerQueue \<Rightarrow> time \<Rightarrow> string list \<Rightarrow> DataDb \<Rightarrow> error option \<times> DataDb" where
  "reopen_each q now [] db = (None, db)"
| "reopen_each q now (i # is) db =
     (case ReopenSucceeded q i now db of
        (Inl e, db') \<Rightarrow> (Some (Wrap ''reopen deployment_mapping work items'' e), db')
      | (Inr _, db') \<Rightarrow> reopen_each q now is db')"

definition reopening_queue :: ReducerQueue where
  "reopening_queue = \<lparr>rq_HasDatabase = True, rq_LeaseOwner = [], rq_LeaseDuration = 0, rq_RetryDelay = 0, rq_MaxAttempts = 0,
     rq_ClaimDomain = [], rq_RequireProjectorDrainBeforeClaim = False, rq_ExpectedSourceLocalProjectors = 0, rq_SemanticEntityClaimLimit = 0\<rparr>"

definition ReopenDeploymentMappingWorkItems ::
  "IngestEnv \<Rightarrow> IngestionStore \<Rightarrow> time \<Rightarrow> IngestDb \<Rightarrow> error option \<times> IngestDb" where
  "ReopenDeploymentMappingWorkItems env st now db =
     (if \<not> is_HasDatabase st then (Some (Required ''ingestion store db''), db)
      else (case reopen_each reopening_queue now (listSucceededDeploymentMappingWorkItemIDs (ie_Collate env) (in_Data db)) (in_Data db) of
              (e, d) \<Rightarrow> (e, db\<lparr>in_Data := d\<rparr>)))"

section \<open>The commit keeps what it was given\<close>

lemma statement_ok:
  assumes "data_ok db" and "constraint_error new = None" and "distinct (scope_ids new)" and "distinct (generation_ids new)"
    and "dd_Items new = dd_Items db" and "dd_Facts new = dd_Facts db"
  shows "statement new db = (None, new)" and "data_ok new"
  using assms data_ok_ids [OF assms(1)] by (simp_all add: statement_def data_ok_def del: distinct_map)

lemma merge_scope_simps [simp]: "sw_ScopeID (merge_scope old r) = sw_ScopeID old"
  "sw_ActiveGenerationID (merge_scope old r) = or_null (sw_ActiveGenerationID r) (sw_ActiveGenerationID old)"
  by (simp_all add: merge_scope_def)

lemma pending_scope_row [simp]: "sw_ScopeID (scope_row doc s g) = sc_ScopeID s"
  "gen_Status g = GenerationStatusPending \<Longrightarrow> sw_ActiveGenerationID (scope_row doc s g) = None"
  by (simp_all add: scope_row_def activeGenerationID_def)

lemma or_null_None [simp]: "or_null None b = b" "or_null a None = a"
  by (simp_all add: or_null_def split: option.split)

lemma upserted_ids:
  "(\<And>t. f (merge t r) = f t) \<Longrightarrow> f r \<in> set (map f tab) \<Longrightarrow> map f (upsert_row f merge r tab) = map f tab"
  by (auto simp: upsert_row_def)

lemma upserted_scope:
  fixes tab :: "ScopeRow list" and r :: ScopeRow
  assumes "sw_ActiveGenerationID r = None"
  shows "List.map_filter sw_ActiveGenerationID (upsert_row sw_ScopeID merge_scope r tab) = List.map_filter sw_ActiveGenerationID tab"
    and "set (map sw_ScopeID (upsert_row sw_ScopeID merge_scope r tab)) = insert (sw_ScopeID r) (set (map sw_ScopeID tab))"
    and "distinct (map sw_ScopeID tab) \<Longrightarrow> distinct (map sw_ScopeID (upsert_row sw_ScopeID merge_scope r tab))"
    and "(case find (\<lambda>t. sw_ScopeID t = k) (upsert_row sw_ScopeID merge_scope r tab) of None \<Rightarrow> None | Some t \<Rightarrow> sw_ActiveGenerationID t)
      = (case find (\<lambda>t. sw_ScopeID t = k) tab of None \<Rightarrow> None | Some t \<Rightarrow> sw_ActiveGenerationID t)"
proof -
  have "List.map_filter sw_ActiveGenerationID (map (\<lambda>t. if sw_ScopeID t = k then merge_scope t r else t) xs)
      = List.map_filter sw_ActiveGenerationID xs" for xs k
    by (induction xs) (simp_all add: List.map_filter_simps assms split: option.split)
  then show "List.map_filter sw_ActiveGenerationID (upsert_row sw_ScopeID merge_scope r tab) = List.map_filter sw_ActiveGenerationID tab"
    using assms by (simp add: upsert_row_def List.map_filter_def)
  show "set (map sw_ScopeID (upsert_row sw_ScopeID merge_scope r tab)) = insert (sw_ScopeID r) (set (map sw_ScopeID tab))"
    by (subst upsert_row_keys) auto
  show "distinct (map sw_ScopeID tab) \<Longrightarrow> distinct (map sw_ScopeID (upsert_row sw_ScopeID merge_scope r tab))"
    by (rule upsert_row_distinct) simp_all
  have "find (\<lambda>t. sw_ScopeID t = k) (upsert_row sw_ScopeID merge_scope r tab) =
      (if k = sw_ScopeID r then Some (case find (\<lambda>t. sw_ScopeID t = k) tab of None \<Rightarrow> r | Some old \<Rightarrow> merge_scope old r)
       else find (\<lambda>t. sw_ScopeID t = k) tab)"
    by (rule find_upsert_row) simp
  then show "(case find (\<lambda>t. sw_ScopeID t = k) (upsert_row sw_ScopeID merge_scope r tab) of None \<Rightarrow> None | Some t \<Rightarrow> sw_ActiveGenerationID t)
      = (case find (\<lambda>t. sw_ScopeID t = k) tab of None \<Rightarrow> None | Some t \<Rightarrow> sw_ActiveGenerationID t)"
    using assms by (simp split: option.split)
qed

lemma upsertIngestionScope_pending:
  assumes ok: "data_ok db" and pending: "gen_Status g = GenerationStatusPending"
    and doc: "jsonb (marshalPayload (stringMapToAny (MetadataCopy s))) = Some doc"
  shows "\<exists>db'. upsertIngestionScope jsonb s g db = (None, db') \<and> data_ok db'
    \<and> dd_Generations db' = dd_Generations db \<and> dd_Facts db' = dd_Facts db \<and> dd_Items db' = dd_Items db
    \<and> set (scope_ids db') = insert (sc_ScopeID s) (set (scope_ids db)) \<and> (\<forall>k. active_generation k db' = active_generation k db)"
proof -
  let ?new = "db\<lparr>dd_Scopes := upsert_row sw_ScopeID merge_scope (scope_row doc s g) (dd_Scopes db)\<rparr>"
  note up = upserted_scope [of "scope_row doc s g", OF pending_scope_row(2) [OF pending], where tab = "dd_Scopes db"]
  have ids: "set (scope_ids ?new) = insert (sc_ScopeID s) (set (scope_ids db))" using up(2) by (simp add: scope_ids_def)
  have "constraint_error ?new = None"
    using ok up(1) ids by (auto simp: data_ok_def constraint_error_None active_scopes_def referenced_active_def generation_ids_def)
  from statement_ok [OF ok this] have st: "statement ?new db = (None, ?new)" "data_ok ?new"
    using data_ok_ids [OF ok] up(3) by (simp_all add: scope_ids_def generation_ids_def)
  have "active_generation k ?new = active_generation k db" for k
    using up(4) [of k] by (simp add: active_generation_def)
  with st ids doc show ?thesis by (simp add: upsertIngestionScope_def)
qed

lemma upsertScopeGeneration_new:
  assumes ok: "data_ok db" and pending: "gen_Status g = GenerationStatusPending"
    and "gen_GenerationID g \<notin> set (generation_ids db)" and "gen_ScopeID g \<in> set (scope_ids db)"
  shows "upsertScopeGeneration g db = (None, db\<lparr>dd_Generations := dd_Generations db @ [generation_row g]\<rparr>)"
    and "data_ok (db\<lparr>dd_Generations := dd_Generations db @ [generation_row g]\<rparr>)"
proof -
  let ?new = "db\<lparr>dd_Generations := dd_Generations db @ [generation_row g]\<rparr>"
  have row: "gw_GenerationID (generation_row g) = gen_GenerationID g" "gw_ScopeID (generation_row g) = gen_ScopeID g"
    "gw_Status (generation_row g) = GenerationStatusPending"
    using pending by (simp_all add: generation_row_def)
  have new: "upsert_row gw_GenerationID merge_generation (generation_row g) (dd_Generations db) = dd_Generations db @ [generation_row g]"
    using assms(3) row by (simp add: upsert_row_def generation_ids_def)
  have "constraint_error ?new = None"
    using ok row assms(4)
    by (auto simp: data_ok_def constraint_error_None active_scopes_def referenced_active_def generation_ids_def scope_ids_def)
  from statement_ok [OF ok this] show "data_ok ?new"
    "upsertScopeGeneration g db = (None, ?new)"
    unfolding upsertScopeGeneration_def new
    using data_ok_ids [OF ok] assms(3) row by (simp_all add: scope_ids_def generation_ids_def)
qed

lemma insert_evidence_written:
  "list_all (\<lambda>f. jsonb (marshal_details (ef_Details f)) \<noteq> None) fs
    \<Longrightarrow> fst (insert_evidence digest jsonb generationID now fs db) = None"
  by (induction fs arbitrary: db) (auto split: option.split)

lemma collect_evidence_ok:
  assumes "\<And>es catalog. list_all (\<lambda>f. ie_Jsonb env (marshal_details (ef_Details f)) \<noteq> None) (ie_Discover env es catalog)"
  shows "fst (collect_evidence env g catalog now batch st) = None"
proof -
  have "list_all (\<lambda>f. ie_Jsonb env (marshal_details (ef_Details f)) \<noteq> None) (DedupeEvidenceFacts (ie_Discover env batch catalog))"
    using assms [of batch catalog] set_first_of_each [of dedupe_key "[]" "ie_Discover env batch catalog"]
    by (auto simp: list_all_iff DedupeEvidenceFacts_def)
  from insert_evidence_written [OF this] show ?thesis
    by (simp add: collect_evidence_def UpsertEvidenceFacts_def Let_def split: prod.split option.split) (metis fst_conv option.distinct(1))
qed

lemma projector_Enqueue_new:
  assumes ok: "data_ok db" and "s \<noteq> []" "g \<noteq> []" and gen: "has_generation_row s g db"
    and new: "projectorWorkItemID s g \<notin> set (map wr_WorkItemID (dd_Items db))" and "pq_HasDatabase q"
  shows "projector_Enqueue q s g now db = (None, db\<lparr>dd_Items := dd_Items db @ [projector_row s g now]\<rparr>)"
    and "data_ok (db\<lparr>dd_Items := dd_Items db @ [projector_row s g now]\<rparr>)"
proof -
  let ?new = "db\<lparr>dd_Items := dd_Items db @ [projector_row s g now]\<rparr>"
  have q: "enqueueProjectorWorkQuery s g now db = ?new"
    using new by (simp add: enqueueProjectorWorkQuery_def insert_row_def projector_row_def)
  have none: "constraint_error ?new = None"
    using ok gen by (auto simp: data_ok_def constraint_error_None active_scopes_def referenced_active_def scope_ids_def generation_ids_def
        projector_row_def has_generation_row_def integer_fits_def)
  then show "projector_Enqueue q s g now db = (None, ?new)"
    using assms(2,3,6) by (simp add: projector_Enqueue_def q statement_def)
  show "data_ok ?new"
    unfolding data_ok_def using none data_ok_ids [OF ok] new
    by (simp add: scope_ids_def generation_ids_def projector_row_def)
qed

text \<open>What a commit is asked to write, and a state in which it is new.\<close>

definition committable :: "IngestEnv \<Rightarrow> IngestionScope \<Rightarrow> ScopeGeneration \<Rightarrow> Envelope list \<Rightarrow> IngestDb \<Rightarrow> bool" where
  "committable env s g es db \<longleftrightarrow> validateGenerationInput s g = None \<and> gen_Status g = GenerationStatusPending
     \<and> ie_Jsonb env (marshalPayload (stringMapToAny (MetadataCopy s))) \<noteq> None
     \<and> list_all (\<lambda>e. good_fact (ie_Jsonb env) (sc_ScopeID s) (gen_GenerationID g) e \<and> carried (ie_Jsonb env) e) es
     \<and> data_ok (in_Data db) \<and> gen_GenerationID g \<notin> set (generation_ids (in_Data db))
     \<and> projectorWorkItemID (sc_ScopeID s) (gen_GenerationID g) \<notin> set (map wr_WorkItemID (dd_Items (in_Data db)))
     \<and> list_all (\<lambda>f. fw_FactID f \<notin> set (map ev_FactID es)) (dd_Facts (in_Data db))"

lemma commit_steps_new:
  assumes new: "committable env s g es db" and skip: "is_SkipRelationshipBackfill st"
    and evidence: "\<And>es catalog. list_all (\<lambda>f. ie_Jsonb env (marshal_details (ef_Details f)) \<noteq> None) (ie_Discover env es catalog)"
  shows "\<exists>db'. commit_steps env st s g (Some es) now db = Inr db' \<and> in_States db' = in_States db \<and> data_ok (in_Data db')
    \<and> set (scope_ids (in_Data db')) = insert (sc_ScopeID s) (set (scope_ids (in_Data db)))
    \<and> dd_Generations (in_Data db') = dd_Generations (in_Data db) @ [generation_row g]
    \<and> dd_Items (in_Data db') = dd_Items (in_Data db) @ [projector_row (sc_ScopeID s) (gen_GenerationID g) now]
    \<and> (\<forall>k. active_generation k (in_Data db') = active_generation k (in_Data db))
    \<and> (\<exists>xs. ListFacts (ie_Collate env) True (sc_ScopeID s) (gen_GenerationID g) (in_Data db') = Inr xs
        \<and> mset xs = mset (map read_form (deduplicateEnvelopes es)))"
proof -
  let ?s = "sc_ScopeID s" and ?g = "gen_GenerationID g" and ?jsonb = "ie_Jsonb env"
  have ok: "data_ok (in_Data db)" and pending: "gen_Status g = GenerationStatusPending"
    and valid: "ValidateForScope g s = None" using new by (simp_all add: committable_def validateGenerationInput_def)
  obtain doc where "?jsonb (marshalPayload (stringMapToAny (MetadataCopy s))) = Some doc"
    using new by (auto simp: committable_def)
  from upsertIngestionScope_pending [where s = s and jsonb = ?jsonb and doc = doc, OF ok pending this] obtain d1
    where d1: "upsertIngestionScope ?jsonb s g (in_Data db) = (None, d1)" "data_ok d1" "dd_Generations d1 = dd_Generations (in_Data db)"
      "dd_Facts d1 = dd_Facts (in_Data db)" "dd_Items d1 = dd_Items (in_Data db)" "set (scope_ids d1) = insert ?s (set (scope_ids (in_Data db)))"
      "\<And>k. active_generation k d1 = active_generation k (in_Data db)" by blast
  have same: "gen_ScopeID g = ?s" "?s \<noteq> []" "?g \<noteq> []"
    using valid by (auto simp: ValidateForScope_None scope_ok_def generation_ok_def blank_def)
  have fresh: "?g \<notin> set (generation_ids d1)" using new d1(3) by (simp add: committable_def generation_ids_def)
  define d2 where "d2 = d1\<lparr>dd_Generations := dd_Generations d1 @ [generation_row g]\<rparr>"
  from upsertScopeGeneration_new [OF d1(2) pending fresh] d1(6) same
  have d2: "upsertScopeGeneration g d1 = (None, d2)" "data_ok d2" by (simp_all add: d2_def)
  have gen: "has_generation_row ?s ?g d2"
    using d1(6) by (simp add: has_generation_row_def d2_def scope_ids_def generation_ids_def generation_row_def)
  have facts: "list_all (good_fact ?jsonb ?s ?g) es" "list_all (carried ?jsonb) es"
    "list_all (\<lambda>e. ev_ScopeID e = ?s \<and> ev_GenerationID e = ?g) es"
    using new by (auto simp: committable_def list_all_iff good_fact_def)
  let ?after = "collect_evidence env ?g (loadRepositoryCatalog (ie_Collate env) d2) now"
  have "fst (?after u w) = None" for u w by (rule collect_evidence_ok [OF evidence])
  from streamed [where after = ?after, OF d2(2) gen facts(1) this, where w = "([], in_Relations db)"]
  obtain stats d3 w' where d3': "upsertStreamingFacts ?jsonb (Some es) ?s ?g ?after d2 ([], in_Relations db) = (None, stats, d3, w')"
    "facts_written ?jsonb es d2 d3" by blast
  then obtain current rel where d3: "upsertStreamingFacts ?jsonb (Some es) ?s ?g ?after d2 ([], in_Relations db) = (None, stats, d3, current, rel)"
    "facts_written ?jsonb es d2 d3" by (cases w') simp
  have rest: "d3 = d2\<lparr>dd_Facts := dd_Facts d3\<rparr>" "data_ok d3" using d3(2) by (simp_all add: facts_written_def)
  have "dd_Items d3 = dd_Items (in_Data db)" by (subst rest(1)) (simp add: d2_def d1)
  then have item: "projectorWorkItemID ?s ?g \<notin> set (map wr_WorkItemID (dd_Items d3))" using new by (simp add: committable_def)
  have "has_generation_row ?s ?g d3" using facts_written_generation [OF d3(2)] gen by simp
  note enq = projector_Enqueue_new [OF rest(2) same(2,3) this item, of ingestion_queue now]
  let ?d4 = "d3\<lparr>dd_Items := dd_Items d3 @ [projector_row ?s ?g now]\<rparr>"
  have scopes: "dd_Scopes d3 = dd_Scopes d1" by (subst rest(1)) (simp add: d2_def)
  have "commit_steps env st s g (Some es) now db = Inr (db\<lparr>in_Data := ?d4, in_Relations := rel\<rparr>)"
    using d1(1) d2(1) d3(1) enq(1) skip by (simp add: commit_steps_def ingestion_queue_def)
  moreover have "data_ok ?d4" using enq(2) by (simp add: ingestion_queue_def)
  moreover have "dd_Generations d3 = dd_Generations (in_Data db) @ [generation_row g]"
    by (subst rest(1)) (simp add: d2_def d1(3))
  moreover have "set (scope_ids ?d4) = insert ?s (set (scope_ids (in_Data db)))" using scopes d1(6) by (simp add: scope_ids_def)
  moreover have "active_generation k ?d4 = active_generation k (in_Data db)" for k
    using d1(7) [of k] scopes by (simp add: active_generation_def)
  moreover have "list_all (\<lambda>f. fw_GenerationID f \<noteq> ?g \<and> fw_FactID f \<notin> set (map ev_FactID es)) (dd_Facts d2)"
    using new ok d1(4) by (auto simp: committable_def d2_def list_all_iff data_ok_def constraint_error_None)
  from listed_facts [OF d3(2) facts(2,3) this, of "ie_Collate env"]
  have "\<exists>xs. ListFacts (ie_Collate env) True ?s ?g ?d4 = Inr xs \<and> mset xs = mset (map read_form (deduplicateEnvelopes es))"
    by (simp add: ListFacts_def facts_of_def)
  ultimately show ?thesis using \<open>dd_Items d3 = _\<close> by (intro exI [of _ "db\<lparr>in_Data := ?d4, in_Relations := rel\<rparr>"]) simp
qed

lemma commit_new:
  assumes "committable env s g es db" and "is_SkipRelationshipBackfill st" and "is_HasBeginner st" and "ie_Begins env" and "ie_Commits env"
    and "\<And>es catalog. list_all (\<lambda>f. ie_Jsonb env (marshal_details (ef_Details f)) \<noteq> None) (ie_Discover env es catalog)"
    and "\<not> shouldSkipUnchangedGeneration st (sc_ScopeID s) (gen_FreshnessHint g) (in_Data db)"
  shows "\<exists>db'. CommitScopeGeneration env st s g (Some es) now db = (None, db') \<and> in_States db' = in_States db \<and> data_ok (in_Data db')
    \<and> set (scope_ids (in_Data db')) = insert (sc_ScopeID s) (set (scope_ids (in_Data db)))
    \<and> dd_Generations (in_Data db') = dd_Generations (in_Data db) @ [generation_row g]
    \<and> dd_Items (in_Data db') = dd_Items (in_Data db) @ [projector_row (sc_ScopeID s) (gen_GenerationID g) now]
    \<and> (\<forall>k. active_generation k (in_Data db') = active_generation k (in_Data db))
    \<and> (\<exists>xs. ListFacts (ie_Collate env) True (sc_ScopeID s) (gen_GenerationID g) (in_Data db') = Inr xs
        \<and> mset xs = mset (map read_form (deduplicateEnvelopes es)))"
proof -
  have "validateGenerationInput s g = None" using assms(1) by (simp add: committable_def)
  with commit_steps_new [OF assms(1,2,6), of now] assms(3,4,5,7) show ?thesis by (auto simp: CommitScopeGeneration_def)
qed

lemma new_item_claimable:
  assumes "projectorWorkItemID s g \<notin> set (map wr_WorkItemID (dd_Items db))" and "dd_Items db' = dd_Items db @ [projector_row s g now]" and "now \<le> t"
  shows "projector_claimable t db' (projector_row s g now)
    \<longleftrightarrow> \<not> list_ex (\<lambda>w. wr_Stage w = ''projector'' \<and> wr_ScopeID w = s \<and> live t w) (dd_Items db)"
proof -
  let ?row = "projector_row s g now"
  have row: "wr_WorkItemID ?row = projectorWorkItemID s g" "wr_Stage ?row = ''projector''" "wr_ScopeID ?row = s" "ready t ?row"
    using assms(3) by (simp_all add: projector_row_def ready_def open_status_def)
  have "\<forall>w \<in> set (dd_Items db). wr_WorkItemID w \<noteq> projectorWorkItemID s g"
    using assms(1) unfolding set_map by (metis imageI)
  then have "list_ex (\<lambda>w. wr_Stage w = ''projector'' \<and> wr_ScopeID w = s \<and> wr_WorkItemID w \<noteq> projectorWorkItemID s g \<and> live t w) (dd_Items db)
      \<longleftrightarrow> list_ex (\<lambda>w. wr_Stage w = ''projector'' \<and> wr_ScopeID w = s \<and> live t w) (dd_Items db)"
    unfolding list_ex_iff by blast
  then show ?thesis by (simp add: projector_claimable_def row assms(2))
qed


section \<open>Readiness\<close>

lemma gate_found:
  assumes "cr_HasReadinessPrefetch h \<or> cr_HasReadinessLookup h" and "\<not> blank s" and "\<not> blank g"
  shows "evidence_gate_open h s g ph \<longleftrightarrow> phase_found ph (columns
    \<lparr>pk_ScopeID = trim_space s, pk_AcceptanceUnitID = trim_space s, pk_SourceRunID = trim_space g, pk_GenerationID = trim_space g,
     pk_Keyspace = KeyspaceCrossRepoEvidence\<rparr> PhaseBackwardEvidenceCommitted)"
proof -
  have "\<not> blank (trim_space s)" "\<not> blank (trim_space g)" "\<not> blank KeyspaceCrossRepoEvidence"
    using assms(2,3) by (simp_all add: blank_def) code_simp
  with assms(1) show ?thesis
    by (auto simp: evidence_gate_open_def crossRepoBackwardEvidenceReadinessKey_def Let_def validate_iffs phase_key_ok_def
        ReadinessLookup_def ReadinessPrefetch_def Lookup_found)
qed

lemma only_rows_published:
  assumes "StateStore_Upsert clock rows db = (e, db')" and "phase_found db' k"
  shows "phase_found db k \<or> (\<exists>s \<in> set rows. k = columns (trim_key (ps_Key s)) (trim_space (ps_Phase s)))"
proof -
  have keys: "set (map state_key (fold (upsert_row state_key merge_state) new tab))
      = set (map state_key tab) \<union> set (map state_key new)" for new tab
    by (rule upsert_rows_keys) simp
  let ?P = "\<lambda>d. phase_found d k \<longrightarrow> phase_found db k \<or> (\<exists>s \<in> set rows. k = columns (trim_key (ps_Key s)) (trim_space (ps_Phase s)))"
  have "?P db'"
  proof (rule exec_batches_invariant_on [where P = ?P and exec = "upsert_state_batch clock" and rows = rows and db = db])
    fix rs d f d' assume sub: "set rs \<subseteq> set rows" and run: "upsert_state_batch clock rs d = (f, d')" and old: "?P d"
    from run show "?P d'"
    proof (cases rule: upsert_state_batch_cases)
      case (written tab)
      then have "phase_found d' k \<longleftrightarrow> k \<in> set (map state_key (db_States d)) \<or> k \<in> set (map state_key (map (state_row clock) rs))"
        using keys [of "map (state_row clock) rs" "db_States d"] by (simp add: phase_found_def)
      then show ?thesis using old sub by (auto simp: phase_found_def state_key_def)
    qed (use old in simp)
  qed (use assms(1) in \<open>simp_all add: StateStore_Upsert_def\<close>)
  with assms(2) show ?thesis by blast
qed

text \<open>The identifiers of the stored evidence only grow, and those of what a write was given are there after it.\<close>

definition evidence_ids :: "RelationshipDb \<Rightarrow> string set" where
  "evidence_ids rel = ew_EvidenceID ` set (rd_Evidence rel)"

lemma insert_row_key: "key ` set (insert_row key r tab) = insert (key r) (key ` set tab)"
  by (auto simp: insert_row_def)

lemma insert_evidence_ids:
  "insert_evidence digest jsonb g now fs rel = (e, rel') \<Longrightarrow>
    evidence_ids rel \<subseteq> evidence_ids rel' \<and> (e = None \<longrightarrow> evidence_id digest g ` set fs \<subseteq> evidence_ids rel')"
proof (induction fs arbitrary: rel)
  case (Cons f fs)
  show ?case
  proof (cases "jsonb (marshal_details (ef_Details f))")
    case (Some doc)
    let ?rel = "rel\<lparr>rd_Evidence := insert_row ew_EvidenceID (evidence_row digest g now doc f) (rd_Evidence rel)\<rparr>"
    have "evidence_ids ?rel = insert (evidence_id digest g f) (evidence_ids rel)"
      by (simp add: evidence_ids_def insert_row_key) (simp add: evidence_row_def)
    with Cons.IH [of ?rel] Cons.prems Some show ?thesis by auto
  qed (use Cons.prems in auto)
qed simp

lemma dedupe_key_id: "dedupe_key f = dedupe_key f' \<Longrightarrow> evidence_id digest g f = evidence_id digest g f'"
  by (simp add: dedupe_key_def evidence_id_def)

lemma dedupe_evidence_ids: "evidence_id digest g ` set (DedupeEvidenceFacts fs) = evidence_id digest g ` set fs"
proof -
  have keys: "dedupe_key ` set (DedupeEvidenceFacts fs) = dedupe_key ` set fs"
    using set_map_first_of_each [of dedupe_key "[]" fs] by (simp add: DedupeEvidenceFacts_def)
  have "evidence_id digest g ` A \<subseteq> evidence_id digest g ` B" if "dedupe_key ` A \<subseteq> dedupe_key ` B" for A B
  proof (rule image_subsetI)
    fix f assume "f \<in> A"
    with that obtain f' where "f' \<in> B" "dedupe_key f = dedupe_key f'" by blast
    then show "evidence_id digest g f \<in> evidence_id digest g ` B" using dedupe_key_id by blast
  qed
  with keys show ?thesis by (metis subset_antisym subset_refl)
qed

lemma UpsertEvidenceFacts_ids:
  "UpsertEvidenceFacts digest jsonb g fs now rel = (e, rel') \<Longrightarrow>
    evidence_ids rel \<subseteq> evidence_ids rel' \<and> (e = None \<longrightarrow> evidence_id digest g ` set fs \<subseteq> evidence_ids rel')"
  using insert_evidence_ids [of digest jsonb g now "DedupeEvidenceFacts fs" rel e rel'] by (simp add: UpsertEvidenceFacts_def dedupe_evidence_ids)

lemma persist_by_source_ids:
  assumes "persist_by_source env gens evidence now repos rel = (None, rel')"
  shows "evidence_ids rel \<subseteq> evidence_ids rel' \<and> (\<forall>f r. f \<in> set evidence \<and> ef_SourceRepoID f \<in> set repos
      \<and> find (\<lambda>r. rn_RepoID r = ef_SourceRepoID f) gens = Some r \<longrightarrow> evidence_id (ie_Digest env) (rn_GenerationID r) f \<in> evidence_ids rel')"
  using assms
proof (induction repos arbitrary: rel)
  case (Cons repo repos)
  show ?case
  proof (cases "find (\<lambda>r. rn_RepoID r = repo) gens")
    case None
    with Cons.IH [of rel] Cons.prems show ?thesis by (auto simp del: find_None_iff)
  next
    case (Some r)
    let ?fs = "filter (\<lambda>f. ef_SourceRepoID f = repo) evidence"
    obtain e rel1 where one: "UpsertEvidenceFacts (ie_Digest env) (ie_Jsonb env) (rn_GenerationID r) ?fs now rel = (e, rel1)"
      by (cases "UpsertEvidenceFacts (ie_Digest env) (ie_Jsonb env) (rn_GenerationID r) ?fs now rel")
    from Cons.prems Some one have "e = None" "persist_by_source env gens evidence now repos rel1 = (None, rel')"
      by (auto split: option.splits)
    with UpsertEvidenceFacts_ids [OF one] Cons.IH [of rel1]
    have ids: "evidence_ids rel \<subseteq> evidence_ids rel1" "evidence_id (ie_Digest env) (rn_GenerationID r) ` set ?fs \<subseteq> evidence_ids rel1"
      "evidence_ids rel1 \<subseteq> evidence_ids rel'"
      and ih: "\<And>f r. f \<in> set evidence \<Longrightarrow> ef_SourceRepoID f \<in> set repos \<Longrightarrow> find (\<lambda>r. rn_RepoID r = ef_SourceRepoID f) gens = Some r
        \<Longrightarrow> evidence_id (ie_Digest env) (rn_GenerationID r) f \<in> evidence_ids rel'" by blast+
    have "evidence_id (ie_Digest env) (rn_GenerationID r') f \<in> evidence_ids rel'"
      if "f \<in> set evidence" "ef_SourceRepoID f \<in> set (repo # repos)" "find (\<lambda>r. rn_RepoID r = ef_SourceRepoID f) gens = Some r'" for f r'
    proof (cases "ef_SourceRepoID f = repo")
      case True
      with Some that have "r' = r" "f \<in> set ?fs" by simp_all
      with ids show ?thesis by blast
    qed (use that ih in simp)
    with ids show ?thesis by blast
  qed
qed simp

lemma generations_distinct: "distinct (map rn_RepoID (loadActiveRepositoryGenerations render collate db))"
  unfolding loadActiveRepositoryGenerations_def by (rule distinct_map_filter) (rule distinct_map_first_of_each)

lemma find_by_key: "distinct (map key xs) \<Longrightarrow> x \<in> set xs \<Longrightarrow> find (\<lambda>y. key y = key x) xs = Some x"
proof (induction xs)
  case (Cons y ys)
  show ?case
  proof (cases "x = y")
    case False
    with Cons.prems have x: "x \<in> set ys" by simp
    then have "key x \<in> set (map key ys)" by simp
    with Cons.prems(1) have "key y \<noteq> key x" by (auto simp del: distinct_map)
    with Cons.IH [OF _ x] Cons.prems(1) show ?thesis by simp
  qed simp
qed simp

text \<open>What a backfill that succeeds has done.\<close>

lemma backfilled:
  assumes "BackfillAllRelationshipEvidence env st now db = (None, db')" and "is_HasDatabase st"
  defines "gens \<equiv> loadActiveRepositoryGenerations (ie_Render env) (ie_Collate env) (in_Data db)"
  assumes "gens \<noteq> []"
  obtains facts rows p evidence where "loadLatestRelationshipFacts (ie_Collate env) (in_Data db) = Inr facts"
    and "evidence = routed_evidence (DedupeEvidenceFacts (ie_Discover env facts (loadRepositoryCatalog (ie_Collate env) (in_Data db))))"
    and "persist_by_source env gens evidence now (ie_Order env (remdups (map ef_SourceRepoID evidence))) (in_Relations db) = (None, in_Relations db')"
    and "rows = map (readiness_row now) (List.map_filter (\<lambda>k. find (\<lambda>r. rn_RepoID r = k) gens) (ie_Order env (map rn_RepoID gens)))"
    and "StateStore_Upsert now rows (phase_view db) = (None, p)" and "in_States db' = db_States p" and "in_Data db' = in_Data db"
  using assms unfolding BackfillAllRelationshipEvidence_def StateStore_Publish_def
  by (auto simp: Let_def split: sum.splits prod.splits option.splits)

text \<open>
  C6: a backfill that succeeds opens the gate of every repository's generation and has stored its
  evidence. For each repository with a latest generation, the cross-repository resolution of that
  generation may pass, and the evidence that the extractors find from the repository to another
  one is stored under the generation. Go ranges over the maps in any order.
\<close>

theorem backfill_opens_gates:
  assumes "BackfillAllRelationshipEvidence env st now db = (None, db')" and "is_HasDatabase st"
    and order: "\<And>ks. set (ie_Order env ks) = set ks"
    and r: "r \<in> set (loadActiveRepositoryGenerations (ie_Render env) (ie_Collate env) (in_Data db))"
    and facts: "loadLatestRelationshipFacts (ie_Collate env) (in_Data db) = Inr facts"
  shows "evidence_gate_open h (rn_ScopeID r) (rn_GenerationID r) (phase_view db')
    \<and> (\<forall>f \<in> set (ie_Discover env facts (loadRepositoryCatalog (ie_Collate env) (in_Data db))).
        ef_SourceRepoID f = rn_RepoID r \<and> \<not> blank (ef_TargetRepoID f)
        \<longrightarrow> evidence_id (ie_Digest env) (rn_GenerationID r) f \<in> evidence_ids (in_Relations db'))"
proof -
  let ?gens = "loadActiveRepositoryGenerations (ie_Render env) (ie_Collate env) (in_Data db)"
  let ?found = "ie_Discover env facts (loadRepositoryCatalog (ie_Collate env) (in_Data db))"
  have "?gens \<noteq> []" using r by auto
  from backfilled [OF assms(1,2) this] facts obtain rows p evidence
    where evidence: "evidence = routed_evidence (DedupeEvidenceFacts ?found)"
      and persisted: "persist_by_source env ?gens evidence now (ie_Order env (remdups (map ef_SourceRepoID evidence))) (in_Relations db) = (None, in_Relations db')"
      and rows: "rows = map (readiness_row now) (List.map_filter (\<lambda>k. find (\<lambda>r. rn_RepoID r = k) ?gens) (ie_Order env (map rn_RepoID ?gens)))"
      and published: "StateStore_Upsert now rows (phase_view db) = (None, p)" "in_States db' = db_States p" by (metis sum.inject(2))
  have found: "find (\<lambda>y. rn_RepoID y = rn_RepoID r) ?gens = Some r" by (rule find_by_key [OF generations_distinct r])
  have "rn_RepoID r \<in> set (ie_Order env (map rn_RepoID ?gens))" unfolding order using r by simp
  with found have "readiness_row now r \<in> set rows" unfolding rows by (auto simp: map_filter_def image_iff intro!: bexI)
  with published_phase_found [OF published(1), of "readiness_row now r"]
  have "phase_found p (columns (trim_key (ps_Key (readiness_row now r))) (trim_space PhaseBackwardEvidenceCommitted))"
    by (simp add: Lookup_found) (simp add: readiness_row_def)
  moreover have "trim_space PhaseBackwardEvidenceCommitted = PhaseBackwardEvidenceCommitted"
    "trim_space KeyspaceCrossRepoEvidence = KeyspaceCrossRepoEvidence" by code_simp+
  ultimately have ready: "phase_found (phase_view db') (columns
    \<lparr>pk_ScopeID = trim_space (rn_ScopeID r), pk_AcceptanceUnitID = trim_space (rn_ScopeID r), pk_SourceRunID = trim_space (rn_GenerationID r),
     pk_GenerationID = trim_space (rn_GenerationID r), pk_Keyspace = KeyspaceCrossRepoEvidence\<rparr> PhaseBackwardEvidenceCommitted)"
    using published(2) by (simp add: phase_found_def phase_view_def readiness_row_def trim_key_def)
  have "evidence_gate_open h (rn_ScopeID r) (rn_GenerationID r) (phase_view db')"
  proof (cases "(cr_HasReadinessPrefetch h \<or> cr_HasReadinessLookup h) \<and> \<not> blank (rn_ScopeID r) \<and> \<not> blank (rn_GenerationID r)")
    case True
    with gate_found [of h "rn_ScopeID r" "rn_GenerationID r"] ready show ?thesis by simp
  next
    case False
    then show ?thesis
      by (auto simp: evidence_gate_open_def crossRepoBackwardEvidenceReadinessKey_def Let_def validate_iffs phase_key_ok_def blank_def split: option.split)
  qed
  moreover have "evidence_id (ie_Digest env) (rn_GenerationID r) f \<in> evidence_ids (in_Relations db')"
    if f: "f \<in> set ?found" "ef_SourceRepoID f = rn_RepoID r" "\<not> blank (ef_TargetRepoID f)" for f
  proof -
    have "dedupe_key f \<in> dedupe_key ` set (DedupeEvidenceFacts ?found)"
      using f(1) set_map_first_of_each [of dedupe_key "[]" ?found] by (simp add: DedupeEvidenceFacts_def)
    then obtain f' where f': "f' \<in> set (DedupeEvidenceFacts ?found)" "dedupe_key f = dedupe_key f'" by auto
    then have same: "ef_SourceRepoID f' = rn_RepoID r" "\<not> blank (ef_TargetRepoID f')" using f(2,3) by (simp_all add: dedupe_key_def)
    have "\<not> blank (rn_RepoID r)" using r by (simp add: loadActiveRepositoryGenerations_def)
    with f'(1) same have "f' \<in> set evidence" by (simp add: evidence routed_evidence_def)
    moreover from this have "ef_SourceRepoID f' \<in> set (ie_Order env (remdups (map ef_SourceRepoID evidence)))" by (simp add: order)
    ultimately have "evidence_id (ie_Digest env) (rn_GenerationID r) f' \<in> evidence_ids (in_Relations db')"
      using persist_by_source_ids [OF persisted] found same(1) by simp
    then show ?thesis using dedupe_key_id [OF f'(2)] by simp
  qed
  ultimately show ?thesis by blast
qed

section \<open>A refreshed generation\<close>

lemma loaded_generation:
  assumes "r \<in> set (loadActiveRepositoryGenerations render collate db)"
  shows "latest_generation collate (rn_ScopeID r) db = Some (rn_GenerationID r)"
    and "\<exists>f \<in> set (dd_Facts db). fw_ScopeID f = rn_ScopeID r \<and> fw_GenerationID f = rn_GenerationID r"
proof -
  let ?rows = "map (\<lambda>f. \<lparr>rn_RepoID = repository_key render f, rn_ScopeID = fw_ScopeID f, rn_GenerationID = fw_GenerationID f\<rparr>)
    (sort_by (\<lambda>x y. or_else (collate (repository_key render x) (repository_key render y)) (newest_first collate x y))
      (filter (\<lambda>f. fw_FactKind f = ''repository'' \<and> repository_key render f \<noteq> []) (latest_facts collate db)))"
  have "r \<in> set ?rows" using assms set_first_of_each [of rn_RepoID "[]" ?rows] by (auto simp: loadActiveRepositoryGenerations_def)
  then obtain f where "f \<in> set (latest_facts collate db)" "rn_ScopeID r = fw_ScopeID f" "rn_GenerationID r = fw_GenerationID f" by auto
  then show "latest_generation collate (rn_ScopeID r) db = Some (rn_GenerationID r)"
    and "\<exists>f \<in> set (dd_Facts db). fw_ScopeID f = rn_ScopeID r \<and> fw_GenerationID f = rn_GenerationID r"
    by (auto simp: latest_facts_def)
qed

definition plain_identifiers :: "DataDb \<Rightarrow> bool" where
  "plain_identifiers db \<longleftrightarrow> list_all (\<lambda>i. trim_space i = i) (scope_ids db @ generation_ids db)"

lemma backfill_skips_refreshed:
  assumes run: "BackfillAllRelationshipEvidence env st now db = (e, db')" and ok: "data_ok (in_Data db)" and plain: "plain_identifiers (in_Data db)"
    and active: "active_generation s (in_Data db) = Some g0" and "g0 \<noteq> g" and ids: "trim_space s = s" "trim_space g = g"
    and closed: "\<not> phase_found (phase_view db) (columns \<lparr>pk_ScopeID = s, pk_AcceptanceUnitID = s, pk_SourceRunID = g, pk_GenerationID = g,
      pk_Keyspace = KeyspaceCrossRepoEvidence\<rparr> PhaseBackwardEvidenceCommitted)" (is "\<not> phase_found _ ?k")
  shows "\<not> phase_found (phase_view db') ?k"
proof
  assume found: "phase_found (phase_view db') ?k"
  let ?gens = "loadActiveRepositoryGenerations (ie_Render env) (ie_Collate env) (in_Data db)"
  let ?rows = "map (readiness_row now) (List.map_filter (\<lambda>k. find (\<lambda>r. rn_RepoID r = k) ?gens) (ie_Order env (map rn_RepoID ?gens)))"
  have "in_States db' = in_States db \<or> (\<exists>f p. StateStore_Upsert now ?rows (phase_view db) = (f, p) \<and> in_States db' = db_States p)"
    using run unfolding BackfillAllRelationshipEvidence_def StateStore_Publish_def
    by (auto simp: Let_def split: sum.splits prod.splits option.splits if_splits)
  moreover have "in_States db' \<noteq> in_States db" using found closed by (auto simp: phase_found_def phase_view_def)
  ultimately obtain f p where up: "StateStore_Upsert now ?rows (phase_view db) = (f, p)" "in_States db' = db_States p" by blast
  have "phase_found p ?k" using found up(2) by (simp add: phase_found_def phase_view_def)
  from only_rows_published [OF up(1) this] closed obtain row where
    row: "row \<in> set ?rows" "?k = columns (trim_key (ps_Key row)) (trim_space (ps_Phase row))" by blast
  then obtain r k where "find (\<lambda>r. rn_RepoID r = k) ?gens = Some r" and r: "row = readiness_row now r" by (auto simp: map_filter_def)
  then have r: "r \<in> set ?gens" "row = readiness_row now r" using find_mem [of "\<lambda>r. rn_RepoID r = k" ?gens r] by simp_all
  obtain x where x: "x \<in> set (dd_Facts (in_Data db))" "fw_ScopeID x = rn_ScopeID r" "fw_GenerationID x = rn_GenerationID r"
    using loaded_generation(2) [OF r(1)] by blast
  have "rn_ScopeID r \<in> set (scope_ids (in_Data db))" "rn_GenerationID r \<in> set (generation_ids (in_Data db))"
    using ok x unfolding data_ok_def constraint_error_None by metis+
  then have "trim_space (rn_ScopeID r) = rn_ScopeID r" "trim_space (rn_GenerationID r) = rn_GenerationID r"
    using plain by (auto simp: plain_identifiers_def list_all_iff)
  with row(2) r(2) have "rn_ScopeID r = s" "rn_GenerationID r = g" by (simp_all add: columns_inj readiness_row_def trim_key_def)
  with loaded_generation(1) [OF r(1)] active have "g0 = g" by (auto simp: latest_generation_def or_null_def split: if_splits)
  with \<open>g0 \<noteq> g\<close> show False by contradiction
qed


section \<open>Reopening\<close>

lemma update_work_twice:
  assumes "\<And>w. P w \<Longrightarrow> \<not> Q (f w)"
  shows "update_work Q f (update_work P f db) = update_work (\<lambda>w. P w \<or> Q w) f db"
  using assms by (simp add: update_work_def)

lemma reopen_each_all:
  assumes "data_ok db" and "list_all (\<lambda>i. \<not> blank i) is" and "rq_HasDatabase q"
  shows "reopen_each q now is db = (None, update_work (\<lambda>w. wr_WorkItemID w \<in> set is \<and> reducer_stage w \<and> wr_Status w = StatusSucceeded) (pending_again now) db)"
  using assms
proof (induction "is" arbitrary: db)
  case Nil
  show ?case by (simp add: update_work_def)
next
  case (Cons i "is")
  let ?P = "\<lambda>w. wr_WorkItemID w = i \<and> reducer_stage w \<and> wr_Status w = StatusSucceeded"
  let ?Q = "\<lambda>w. wr_WorkItemID w \<in> set is \<and> reducer_stage w \<and> wr_Status w = StatusSucceeded"
  let ?d = "update_work ?P (pending_again now) db"
  have "statement ?d db = (None, ?d)" by (rule update_work_statement) (simp_all add: Cons.prems integer_fits_def)
  then obtain b where one: "ReopenSucceeded q i now db = (Inr b, ?d)"
    using Cons.prems by (simp add: ReopenSucceeded_def reducer_validateDB_def reopen_def run_update_def Let_def)
  have "data_ok ?d" by (rule update_work_ok) (simp_all add: Cons.prems integer_fits_def)
  from Cons.IH [OF this] Cons.prems one
  have "reopen_each q now (i # is) db = (None, update_work ?Q (pending_again now) ?d)" by simp
  also have "update_work ?Q (pending_again now) ?d = update_work (\<lambda>w. ?P w \<or> ?Q w) (pending_again now) db"
    by (rule update_work_twice) (simp add: pending_again_def settled_work_def)
  also have "(\<lambda>w. ?P w \<or> ?Q w) = (\<lambda>w. wr_WorkItemID w \<in> set (i # is) \<and> reducer_stage w \<and> wr_Status w = StatusSucceeded)" by auto
  finally show ?case .
qed

text \<open>
  The reopening makes exactly the succeeded deployment-mapping items of reducers pending again,
  with their attempts reset, and changes no other row.
\<close>

theorem deployment_mapping_reopened:
  assumes "data_ok (in_Data db)" and "is_HasDatabase st" and "\<forall>w \<in> set (dd_Items (in_Data db)). \<not> blank (wr_WorkItemID w)"
  shows "ReopenDeploymentMappingWorkItems env st now db = (None, db\<lparr>in_Data := (in_Data db)\<lparr>dd_Items :=
      map (\<lambda>w. if reducer_stage w \<and> wr_Domain w = ''deployment_mapping'' \<and> wr_Status w = StatusSucceeded then pending_again now w else w)
        (dd_Items (in_Data db))\<rparr>\<rparr>)
    \<and> (\<forall>w. wr_Status (pending_again now w) = StatusPending \<and> wr_AttemptCount (pending_again now w) = 0)"
proof -
  let ?ids = "listSucceededDeploymentMappingWorkItemIDs (ie_Collate env) (in_Data db)"
  let ?D = "\<lambda>w. reducer_stage w \<and> wr_Domain w = ''deployment_mapping'' \<and> wr_Status w = StatusSucceeded"
  have ids: "i \<in> set ?ids \<longleftrightarrow> \<not> blank i \<and> (\<exists>w \<in> set (dd_Items (in_Data db)). wr_WorkItemID w = i \<and> ?D w)" for i
    by (auto simp: listSucceededDeploymentMappingWorkItemIDs_def)
  then have "list_all (\<lambda>i. \<not> blank i) ?ids" by (simp add: list_all_iff)
  note run = reopen_each_all [OF assms(1) this, of reopening_queue now]
  have "wr_WorkItemID w \<in> set ?ids \<longleftrightarrow> ?D w" if "w \<in> set (dd_Items (in_Data db))" "reducer_stage w" "wr_Status w = StatusSucceeded" for w
  proof -
    have "inj_on wr_WorkItemID (set (dd_Items (in_Data db)))" using data_ok_ids(3) [OF assms(1)] by (simp add: distinct_map)
    then have "v = w" if "v \<in> set (dd_Items (in_Data db))" "wr_WorkItemID v = wr_WorkItemID w" for v
      using that \<open>w \<in> set _\<close> by (simp add: inj_on_def)
    then show ?thesis using ids [of "wr_WorkItemID w"] assms(3) that by blast
  qed
  then have "map (\<lambda>w. if wr_WorkItemID w \<in> set ?ids \<and> reducer_stage w \<and> wr_Status w = StatusSucceeded then pending_again now w else w) (dd_Items (in_Data db))
      = map (\<lambda>w. if ?D w then pending_again now w else w) (dd_Items (in_Data db))"
    by (intro map_cong refl) auto
  with run assms(2) show ?thesis
    by (simp add: ReopenDeploymentMappingWorkItems_def reopening_queue_def update_work_def pending_again_def settled_work_def)
qed

section \<open>Examples\<close>

text \<open>A scope whose generation \<open>gen-0\<close> is active and names the repository \<open>web\<close>.\<close>

definition ingest_env :: IngestEnv where
  "ingest_env = \<lparr>ie_Digest = tail_digest, ie_Jsonb = same_text, ie_Render = (\<lambda>_. []), ie_Collate = compare,
     ie_Discover = (\<lambda>es catalog. if es = [] then [] else [example_evidence ''web'' ''api'' (9/10)]), ie_Order = (\<lambda>ks. ks),
     ie_Begins = True, ie_Commits = True\<rparr>"

definition ingest_store :: IngestionStore where
  "ingest_store = \<lparr>is_HasDatabase = True, is_HasBeginner = True, is_SkipRelationshipBackfill = True\<rparr>"

definition ingest_scope :: IngestionScope where
  "ingest_scope = \<lparr>sc_ScopeID = ''scope-1'', sc_SourceSystem = ''git'', sc_ScopeKind = ''repository'', sc_ParentScopeID = [],
     sc_CollectorKind = ''git'', sc_PartitionKey = ''p'', sc_ActiveGenerationID = [], sc_PreviousGenerationExists = False, sc_Metadata = None\<rparr>"

definition ingest_generation :: ScopeGeneration where
  "ingest_generation = \<lparr>gen_GenerationID = ''gen-1'', gen_ScopeID = ''scope-1'', gen_ObservedAt = 3, gen_IngestedAt = 4,
     gen_Status = GenerationStatusPending, gen_TriggerKind = ''snapshot'', gen_FreshnessHint = ''h1''\<rparr>"

definition repository_fact :: FactRow where
  "repository_fact = \<lparr>fw_FactID = ''f0'', fw_ScopeID = ''scope-1'', fw_GenerationID = ''gen-0'', fw_FactKind = ''repository'',
     fw_StableFactKey = ''web'', fw_SourceSystem = ''git'', fw_SourceFactKey = ''web'', fw_SourceURI = None, fw_SourceRecordID = None,
     fw_ObservedAt = 1, fw_IngestedAt = 1, fw_IsTombstone = False, fw_Payload = encode_json (JObj [(''repo_id'', JStr ''web'')])\<rparr>"

definition content_fact :: FactRow where
  "content_fact = repository_fact\<lparr>fw_FactID := ''f9'', fw_FactKind := ''content'', fw_Payload := ''{}''\<rparr>"

definition active_db :: IngestDb where
  "active_db = \<lparr>in_Data = \<lparr>dd_Scopes = [example_scope (Some ''gen-0'')],
     dd_Generations = [\<lparr>gw_GenerationID = ''gen-0'', gw_ScopeID = ''scope-1'', gw_TriggerKind = ''snapshot'', gw_FreshnessHint = Some ''h0'',
       gw_ObservedAt = 1, gw_IngestedAt = 2, gw_Status = GenerationStatusActive, gw_ActivatedAt = Some 2, gw_SupersededAt = None\<rparr>],
     dd_Facts = [repository_fact, content_fact], dd_Items = []\<rparr>, in_Relations = empty_relationships, in_States = []\<rparr>"

lemma active_db_ok: "data_ok (in_Data active_db)"
  by (simp add: data_ok_def constraint_error_def active_db_def active_scopes_def referenced_active_def scope_ids_def
      generation_ids_def example_scope_def List.map_filter_simps repository_fact_def content_fact_def)

lemma ingest_evidence: "list_all (\<lambda>f. ie_Jsonb ingest_env (marshal_details (ef_Details f)) \<noteq> None) (ie_Discover ingest_env es catalog)"
  by (simp add: ingest_env_def same_text_def)

lemma ingest_committable: "committable ingest_env ingest_scope ingest_generation [example_fact ''f1'' ''a.go'', example_fact ''f2'' ''b.go''] active_db"
  unfolding committable_def
proof (intro conjI)
  show "validateGenerationInput ingest_scope ingest_generation = None" by code_simp
  show "gen_Status ingest_generation = GenerationStatusPending" by (simp add: ingest_generation_def)
  show "ie_Jsonb ingest_env (marshalPayload (stringMapToAny (MetadataCopy ingest_scope))) \<noteq> None" by (simp add: ingest_env_def same_text_def)
  show "data_ok (in_Data active_db)" by (rule active_db_ok)
  have "good_fact same_text ''scope-1'' ''gen-1'' (example_fact i p)" for i p
    by (simp add: good_fact_def storable_def fact_doc_def same_text_def example_fact_def utc_def is_zero_def)
  moreover have "carried same_text (example_fact ''f1'' ''a.go'')" "carried same_text (example_fact ''f2'' ''b.go'')" by code_simp+
  ultimately show "list_all (\<lambda>e. good_fact (ie_Jsonb ingest_env) (sc_ScopeID ingest_scope) (gen_GenerationID ingest_generation) e
      \<and> carried (ie_Jsonb ingest_env) e) [example_fact ''f1'' ''a.go'', example_fact ''f2'' ''b.go'']"
    by (simp add: ingest_env_def ingest_scope_def ingest_generation_def)
qed (simp_all add: active_db_def ingest_generation_def generation_ids_def example_fact_def repository_fact_def content_fact_def)

lemma ingest_not_skipped: "\<not> shouldSkipUnchangedGeneration ingest_store (sc_ScopeID ingest_scope) (gen_FreshnessHint ingest_generation) (in_Data active_db)"
proof -
  have "active_hint ''scope-1'' (in_Data active_db) = Some ''h0''"
    by (simp add: active_hint_def active_generation_def active_db_def example_scope_def coalesce_def)
  moreover have "trim_space ''h0'' \<noteq> trim_space ''h1''" by code_simp
  ultimately show ?thesis by (simp add: shouldSkipUnchangedGeneration_def ingest_scope_def ingest_generation_def)
qed

lemma ingest_fields:
  "sc_ScopeID ingest_scope = ''scope-1''" "gen_GenerationID ingest_generation = ''gen-1''" "ie_Collate ingest_env = compare"
  "is_SkipRelationshipBackfill ingest_store" "is_HasBeginner ingest_store" "ie_Begins ingest_env" "ie_Commits ingest_env"
  "is_HasDatabase ingest_store" "dd_Items (in_Data active_db) = []" "in_States active_db = []" "ie_Order ingest_env ks = ks"
  by (simp_all add: ingest_scope_def ingest_generation_def ingest_env_def ingest_store_def active_db_def)



lemma one_web_repository:
  "loadActiveRepositoryGenerations render compare (in_Data active_db)
    = [\<lparr>rn_RepoID = ''web'', rn_ScopeID = ''scope-1'', rn_GenerationID = ''gen-0''\<rparr>]"
proof -
  have "jsonb_field render (encode_json (JObj [(''repo_id'', JStr ''web'')])) ''repo_id'' = Some ''web''"
    by (subst jsonb_field_def) code_simp
  then have key: "repository_key render repository_fact = ''web''"
    by (simp add: repository_key_def repository_fact_def or_null_def coalesce_def)
  have "latest_generation compare ''scope-1'' (in_Data active_db) = Some ''gen-0''"
    by (simp add: latest_generation_def active_generation_def active_db_def example_scope_def or_null_def)
  then have "latest_facts compare (in_Data active_db) = [repository_fact, content_fact]"
    by (simp add: latest_facts_def) (simp add: active_db_def repository_fact_def content_fact_def)
  then have rows: "filter (\<lambda>f. fw_FactKind f = ''repository'' \<and> repository_key render f \<noteq> []) (latest_facts compare (in_Data active_db)) = [repository_fact]"
    using key by (simp add: content_fact_def) (simp add: repository_fact_def)
  have "\<not> blank ''web''" by code_simp
  then show ?thesis unfolding loadActiveRepositoryGenerations_def rows
    by (simp add: sort_by_def key) (simp add: repository_fact_def)
qed

lemma one_envelope: "\<exists>e. loadLatestRelationshipFacts compare (in_Data active_db) = Inr [e]"
proof -
  have "latest_generation compare ''scope-1'' (in_Data active_db) = Some ''gen-0''"
    by (simp add: latest_generation_def active_generation_def active_db_def example_scope_def or_null_def)
  then have "latest_facts compare (in_Data active_db) = [repository_fact, content_fact]"
    by (simp add: latest_facts_def) (simp add: active_db_def repository_fact_def content_fact_def)
  then have rows: "filter (\<lambda>f. fw_FactKind f \<in> {''content'', ''file''}) (latest_facts compare (in_Data active_db)) = [content_fact]"
    by (simp add: content_fact_def) (simp add: repository_fact_def)
  have "unmarshalPayload ''{}'' = Inr None" by code_simp
  then have "\<exists>e. scanFactEnvelope content_fact = Inr e" by (simp add: scanFactEnvelope_def content_fact_def)
  then obtain e where "scanFactEnvelope content_fact = Inr e" by blast
  then show ?thesis unfolding loadLatestRelationshipFacts_def rows by (simp add: sort_by_def)
qed

lemma web_published: "\<exists>p. StateStore_Upsert 6 [readiness_row 6 \<lparr>rn_RepoID = ''web'', rn_ScopeID = ''scope-1'', rn_GenerationID = ''gen-0''\<rparr>]
    (phase_view active_db) = (None, p)"
proof -
  let ?row = "readiness_row 6 \<lparr>rn_RepoID = ''web'', rn_ScopeID = ''scope-1'', rn_GenerationID = ''gen-0''\<rparr>"
  have trims: "trim_space ''scope-1'' = ''scope-1''" "trim_space ''gen-0'' = ''gen-0''" by code_simp+
  have "PhaseKey_Validate (ps_Key ?row) = None" by code_simp
  moreover have "references_ok (phase_view active_db) (trim_key (ps_Key ?row))"
    by (simp add: references_ok_def phase_view_def trim_key_def readiness_row_def trims active_db_def scope_ids_def generation_ids_def example_scope_def)
  ultimately have "fst (upsert_state_batch 6 [?row] (phase_view active_db)) = None"
    by (simp add: upsert_state_batch_def upsert_batch_def)
  then show ?thesis
    by (auto simp: StateStore_Upsert_def graphProjectionPhaseStateBatchSize_def exec_batches.simps [of 250] split: prod.split option.split)
qed

lemma backfill_opens_gates_witness:
  "\<exists>db'. BackfillAllRelationshipEvidence ingest_env ingest_store 6 active_db = (None, db')
    \<and> evidence_gate_open (example_handler\<lparr>cr_HasReadinessLookup := True\<rparr>) ''scope-1'' ''gen-0'' (phase_view db')
    \<and> evidence_id tail_digest ''gen-0'' (example_evidence ''web'' ''api'' (9/10)) \<in> evidence_ids (in_Relations db')"
proof -
  let ?r = "\<lparr>rn_RepoID = ''web'', rn_ScopeID = ''scope-1'', rn_GenerationID = ''gen-0''\<rparr>" and ?f = "example_evidence ''web'' ''api'' (9/10)"
  obtain e where e: "loadLatestRelationshipFacts compare (in_Data active_db) = Inr [e]" using one_envelope by blast
  have env: "ie_Discover ingest_env [e] catalog = [?f]" "ie_Digest ingest_env = tail_digest" "ie_Jsonb ingest_env = same_text" for catalog
    by (simp_all add: ingest_env_def)
  have f: "ef_SourceRepoID ?f = ''web''" "ef_TargetRepoID ?f = ''api''" by (simp_all add: example_evidence_def)
  have nb: "\<not> blank ''web''" "\<not> blank ''api''" by code_simp+
  have routed: "routed_evidence (DedupeEvidenceFacts [?f]) = [?f]" by (simp add: routed_evidence_def DedupeEvidenceFacts_def f nb)
  have "fst (UpsertEvidenceFacts tail_digest same_text ''gen-0'' [?f] 6 (in_Relations active_db)) = None"
    by (simp add: UpsertEvidenceFacts_def DedupeEvidenceFacts_def same_text_def)
  then obtain rel where rel: "UpsertEvidenceFacts tail_digest same_text ''gen-0'' [?f] 6 (in_Relations active_db) = (None, rel)"
    by (metis prod.collapse)
  obtain p where p: "StateStore_Upsert 6 [readiness_row 6 ?r] (phase_view active_db) = (None, p)" using web_published by blast
  have "BackfillAllRelationshipEvidence ingest_env ingest_store 6 active_db = (None, active_db\<lparr>in_Relations := rel, in_States := db_States p\<rparr>)"
    by (simp add: BackfillAllRelationshipEvidence_def ingest_fields one_web_repository e env routed f rel StateStore_Publish_def List.map_filter_simps p)
  then obtain db' where run: "BackfillAllRelationshipEvidence ingest_env ingest_store 6 active_db = (None, db')" by blast
  have "evidence_gate_open (example_handler\<lparr>cr_HasReadinessLookup := True\<rparr>) (rn_ScopeID ?r) (rn_GenerationID ?r) (phase_view db')
    \<and> (\<forall>f \<in> set (ie_Discover ingest_env [e] (loadRepositoryCatalog (ie_Collate ingest_env) (in_Data active_db))).
        ef_SourceRepoID f = rn_RepoID ?r \<and> \<not> blank (ef_TargetRepoID f)
        \<longrightarrow> evidence_id (ie_Digest ingest_env) (rn_GenerationID ?r) f \<in> evidence_ids (in_Relations db'))"
    by (rule backfill_opens_gates [OF run]) (simp_all add: ingest_fields one_web_repository e)
  then show ?thesis using run f nb by (simp add: env)
qed

lemma deployment_mapping_reopened_witness:
  "ReopenDeploymentMappingWorkItems ingest_env ingest_store 9 (active_db\<lparr>in_Data := (in_Data active_db)\<lparr>dd_Items :=
      [(projector_row ''scope-1'' ''gen-0'' 1)\<lparr>wr_Stage := ''reducer'', wr_Domain := ''deployment_mapping'', wr_Status := StatusSucceeded\<rparr>]\<rparr>\<rparr>)
    = (None, active_db\<lparr>in_Data := (in_Data active_db)\<lparr>dd_Items := [pending_again 9
        ((projector_row ''scope-1'' ''gen-0'' 1)\<lparr>wr_Stage := ''reducer'', wr_Domain := ''deployment_mapping'', wr_Status := StatusSucceeded\<rparr>)]\<rparr>\<rparr>)"
proof -
  let ?w = "(projector_row ''scope-1'' ''gen-0'' 1)\<lparr>wr_Stage := ''reducer'', wr_Domain := ''deployment_mapping'', wr_Status := StatusSucceeded\<rparr>"
  let ?db = "active_db\<lparr>in_Data := (in_Data active_db)\<lparr>dd_Items := [?w]\<rparr>\<rparr>"
  have "data_ok (in_Data ?db)"
    using active_db_ok by (simp add: data_ok_def constraint_error_None active_scopes_def referenced_active_def scope_ids_def
        generation_ids_def projector_row_def integer_fits_def) (simp add: active_db_def example_scope_def)
  moreover have "\<not> blank (wr_WorkItemID ?w)" by code_simp
  ultimately show ?thesis
    using deployment_mapping_reopened [of ?db ingest_store ingest_env 9] ingest_fields(8) by (simp add: projector_row_def)
qed

end
