(* ===== verification/GoPath.thy ===== *)
theory GoPath
  imports Strings
begin

text \<open>
  Slash-separated paths: \<open>Clean\<close>, \<open>Dir\<close> and \<open>Base\<close> of Go's package \<open>path\<close>, on the segments between
  the slashes, and what they do below a root directory.
\<close>

text \<open>\<open>strings.Split\<close> at a one-byte separator.\<close>

fun split_on :: "char \<Rightarrow> string \<Rightarrow> string list" where
  "split_on sep [] = [[]]"
| "split_on sep (c # cs) =
     (if c = sep then [] # split_on sep cs
      else (case split_on sep cs of [] \<Rightarrow> [[c]] | s # ss \<Rightarrow> (c # s) # ss))"

abbreviation segments :: "string \<Rightarrow> string list" where
  "segments \<equiv> split_on (CHR ''/'')"

text \<open>One segment: empty ones and \<open>.\<close> vanish, \<open>..\<close> takes the last one back where there is one to take.\<close>

definition push :: "bool \<Rightarrow> string list \<Rightarrow> string \<Rightarrow> string list" where
  "push rooted st seg =
     (if seg = [] \<or> seg = ''.'' then st
      else if seg = ''..''
      then (if st \<noteq> [] \<and> last st \<noteq> ''..'' then butlast st else if rooted then st else st @ [seg])
      else st @ [seg])"

definition rooted :: "string \<Rightarrow> bool" where
  "rooted p \<longleftrightarrow> p \<noteq> [] \<and> hd p = CHR ''/''"

definition normal_segments :: "string \<Rightarrow> string list" where
  "normal_segments p = foldl (push (rooted p)) [] (segments p)"

definition path_Clean :: "string \<Rightarrow> string" where
  "path_Clean p =
     (let body = join_with ''/'' (normal_segments p)
      in if rooted p then CHR ''/'' # body else if body = [] then ''.'' else body)"

text \<open>What \<open>path.Split\<close> calls the directory: up to the last slash.\<close>

definition dir_part :: "string \<Rightarrow> string" where
  "dir_part p = rev (dropWhile (\<lambda>c. c \<noteq> CHR ''/'') (rev p))"

definition path_Dir :: "string \<Rightarrow> string" where
  "path_Dir p = path_Clean (dir_part p)"

definition path_Base :: "string \<Rightarrow> string" where
  "path_Base p =
     (if p = [] then ''.''
      else (let q = dropWhile (\<lambda>c. c = CHR ''/'') (rev p)
            in if q = [] then ''/'' else rev (takeWhile (\<lambda>c. c \<noteq> CHR ''/'') q)))"

lemma segments_nonempty [simp]: "segments p \<noteq> []"
  by (induction p) (auto split: list.split)

lemma segments_append: "segments (p @ CHR ''/'' # q) = segments p @ segments q"
  by (induction p) (auto split: list.split)

lemma segments_plain: "CHR ''/'' \<notin> set s \<Longrightarrow> segments s = [s]"
  by (induction s) auto

text \<open>No path cleans to a longer one.\<close>

abbreviation weight :: "string list \<Rightarrow> nat" where
  "weight ss \<equiv> sum_list (map (\<lambda>s. Suc (length s)) ss)"

lemma weight_segments: "weight (segments p) = length p + 1"
  by (induction p) (auto split: list.split)

lemma weight_push: "weight (push r st s) \<le> weight st + (if s = [] then 0 else length s + 1)"
proof -
  have "weight (butlast st) \<le> weight st" by (cases st rule: rev_cases) simp_all
  then show ?thesis by (auto simp: push_def)
qed

lemma weight_fold: "weight (foldl (push r) st ss) \<le> weight st + weight ss"
proof (induction ss arbitrary: st)
  case (Cons s ss)
  from Cons [of "push r st s"] weight_push [of r st s] show ?case by (simp split: if_splits)
qed simp

lemma weight_join: "ss \<noteq> [] \<Longrightarrow> length (join_with ''/'' ss) + 1 = weight ss"
  by (induction "''/''" ss rule: join_with.induct) auto

lemma length_Clean: "p \<noteq> [] \<Longrightarrow> length (path_Clean p) \<le> length p"
proof -
  assume "p \<noteq> []"
  show ?thesis
  proof (cases "rooted p")
    case True
    with \<open>p \<noteq> []\<close> obtain q where p: "p = CHR ''/'' # q" by (cases p) (auto simp: rooted_def)
    have "normal_segments p = foldl (push True) [] (segments q)" using True by (simp add: normal_segments_def) (simp add: p push_def)
    then have w: "weight (normal_segments p) \<le> length q + 1" using weight_fold [of True "[]" "segments q"] by (simp add: weight_segments)
    show ?thesis
    proof (cases "normal_segments p = []")
      case False
      with w weight_join [OF this] show ?thesis by (simp add: path_Clean_def True p Let_def)
    qed (simp add: path_Clean_def True p Let_def)
  next
    case False
    have w: "weight (normal_segments p) \<le> length p + 1"
      using weight_fold [of "rooted p" "[]" "segments p"] by (simp add: weight_segments normal_segments_def)
    show ?thesis
    proof (cases "normal_segments p = []")
      case True
      with \<open>p \<noteq> []\<close> False show ?thesis by (cases p) (auto simp: path_Clean_def Let_def)
    next
      case ne: False
      with w weight_join [OF ne] \<open>p \<noteq> []\<close> False show ?thesis by (cases p) (auto simp: path_Clean_def Let_def)
    qed
  qed
qed

lemma Clean_slash: "p \<noteq> [] \<Longrightarrow> path_Clean (p @ ''/'') = path_Clean p"
proof -
  assume "p \<noteq> []"
  then have r: "rooted (p @ ''/'') = rooted p" by (simp add: rooted_def)
  have "segments (p @ ''/'') = segments p @ [[]]" using segments_append [of p "[]"] by simp
  then have "normal_segments (p @ ''/'') = normal_segments p" by (simp add: normal_segments_def r push_def)
  then show ?thesis by (simp add: path_Clean_def r)
qed

lemma dir_part_cases: "dir_part p = [] \<or> (\<exists>q. dir_part p = q @ ''/'' \<and> length q < length p)"
proof (cases "dropWhile (\<lambda>c. c \<noteq> CHR ''/'') (rev p)")
  case (Cons c cs)
  then have "c = CHR ''/''" using hd_dropWhile [of "\<lambda>c. c \<noteq> CHR ''/''" "rev p"] by simp
  moreover have "length (c # cs) \<le> length (rev p)" using Cons length_dropWhile_le by metis
  ultimately show ?thesis using Cons by (simp add: dir_part_def)
qed (simp add: dir_part_def)

text \<open>A directory is shorter than the path, or the walk is over.\<close>

lemma Dir_shorter: "path_Dir p \<notin> {''.'', ''/''} \<Longrightarrow> length (path_Dir p) < length p"
proof -
  assume stop: "path_Dir p \<notin> {''.'', ''/''}"
  have "path_Clean [] = ''.''" "path_Clean ''/'' = ''/''"
    by (simp_all add: path_Clean_def rooted_def normal_segments_def push_def)
  with stop have parts: "dir_part p \<noteq> []" "dir_part p \<noteq> ''/''" unfolding path_Dir_def by (metis insertCI)+
  then obtain q where q: "dir_part p = q @ ''/''" "length q < length p" using dir_part_cases [of p] by blast
  with parts(2) have "q \<noteq> []" by auto
  with q have "path_Dir p = path_Clean q" by (simp add: path_Dir_def Clean_slash)
  with length_Clean [OF \<open>q \<noteq> []\<close>] q(2) show ?thesis by simp
qed

section \<open>Below a root\<close>

definition plain_segment :: "string \<Rightarrow> bool" where
  "plain_segment s \<longleftrightarrow> s \<noteq> [] \<and> CHR ''/'' \<notin> set s \<and> s \<noteq> ''.'' \<and> s \<noteq> ''..''"

definition clean_root :: "string \<Rightarrow> bool" where
  "clean_root p \<longleftrightarrow> p \<noteq> [] \<and> path_Clean p = p \<and> p \<noteq> ''.'' \<and> p \<noteq> ''/''"

definition below :: "string \<Rightarrow> string list \<Rightarrow> string" where
  "below base ss = base @ concat (map ((#) (CHR ''/'')) ss)"

lemma below_snoc: "below base (ss @ [s]) = below base ss @ CHR ''/'' # s"
  by (simp add: below_def)

lemma join_snoc: "ss \<noteq> [] \<Longrightarrow> join_with sep (ss @ [s]) = join_with sep ss @ sep @ s"
  by (induction sep ss rule: join_with.induct) auto

lemma Clean_child:
  assumes "clean_root p" and "plain_segment s"
  shows "clean_root (p @ CHR ''/'' # s)"
proof -
  let ?q = "p @ CHR ''/'' # s"
  have p: "p \<noteq> []" "path_Clean p = p" "p \<noteq> ''.''" "p \<noteq> ''/''" using assms(1) by (simp_all add: clean_root_def)
  have r: "rooted ?q = rooted p" using p(1) by (simp add: rooted_def)
  have "segments ?q = segments p @ [s]" using assms(2) by (simp add: segments_append segments_plain plain_segment_def)
  then have n: "normal_segments ?q = normal_segments p @ [s]" using assms(2) by (simp add: normal_segments_def r push_def plain_segment_def)
  have "normal_segments p \<noteq> []"
    using p by (auto simp: path_Clean_def Let_def split: if_splits)
  then have "join_with ''/'' (normal_segments ?q) = join_with ''/'' (normal_segments p) @ CHR ''/'' # s"
    by (simp add: n join_snoc)
  then have "path_Clean ?q = ?q" using p(2,3) by (auto simp: path_Clean_def r Let_def split: if_splits)
  moreover have "?q \<noteq> ''.''" "?q \<noteq> ''/''" using assms p(1) by (auto simp: plain_segment_def append_eq_Cons_conv)
  ultimately show ?thesis by (simp add: clean_root_def)
qed

lemma clean_below: "clean_root base \<Longrightarrow> list_all plain_segment ss \<Longrightarrow> clean_root (below base ss)"
  by (induction ss rule: rev_induct) (simp add: below_def, simp add: below_snoc Clean_child)

lemma Dir_child: "clean_root p \<Longrightarrow> CHR ''/'' \<notin> set s \<Longrightarrow> path_Dir (p @ CHR ''/'' # s) = p"
proof -
  assume "clean_root p" "CHR ''/'' \<notin> set s"
  then have "\<forall>c \<in> set (rev s). c \<noteq> CHR ''/''" by auto
  then have "dropWhile (\<lambda>c. c \<noteq> CHR ''/'') (rev s @ CHR ''/'' # rev p) = CHR ''/'' # rev p"
    by (subst dropWhile_append2) simp_all
  then have "dir_part (p @ CHR ''/'' # s) = p @ ''/''" by (simp add: dir_part_def)
  then show ?thesis using \<open>clean_root p\<close> by (simp add: path_Dir_def Clean_slash clean_root_def)
qed

lemma Dir_below:
  assumes "clean_root base" and "list_all plain_segment (ss @ [s])"
  shows "path_Dir (below base (ss @ [s])) = below base ss"
  using assms clean_below [of base ss] by (simp add: below_snoc Dir_child plain_segment_def)

lemma segments_below: "list_all plain_segment ss \<Longrightarrow> segments (concat (map ((#) (CHR ''/'')) ss)) = [] # ss"
proof (induction ss rule: rev_induct)
  case (snoc s ss)
  then show ?case by (simp add: segments_append segments_plain plain_segment_def)
qed simp

lemma below_inj:
  assumes "list_all plain_segment ss" and "list_all plain_segment ts" and "below base ss = below base ts"
  shows "ss = ts"
proof -
  have "concat (map ((#) (CHR ''/'')) ss) = concat (map ((#) (CHR ''/'')) ts)"
    using assms(3) unfolding below_def same_append_eq .
  then have "segments (concat (map ((#) (CHR ''/'')) ss)) = segments (concat (map ((#) (CHR ''/'')) ts))" by (rule arg_cong)
  then show ?thesis unfolding segments_below [OF assms(1)] segments_below [OF assms(2)] by simp
qed

lemma below_depth:
  assumes "list_all plain_segment (s # ss)"
  shows "length (filter (\<lambda>c. c = CHR ''/'') (tl (concat (map ((#) (CHR ''/'')) (s # ss))))) = length ss"
proof -
  have none: "filter (\<lambda>c. c = CHR ''/'') t = []" if "plain_segment t" for t
    unfolding filter_empty_conv using that by (auto simp: plain_segment_def)
  have "length (filter (\<lambda>c. c = CHR ''/'') (concat (map ((#) (CHR ''/'')) ts))) = length ts" if "list_all plain_segment ts" for ts
    using that by (induction ts) (simp_all add: none)
  with assms show ?thesis by (simp add: none)
qed

end
