(* ===== verification/FactPayload.thy ===== *)
theory FactPayload
  imports FactStore GoParse Decimal
begin

text \<open>
  \<open>go/internal/projector/payload.go\<close>, \<open>entity_metadata.go\<close> and the metadata accessors of
  \<open>semantic_entity_intents.go\<close>: how the projector reads the payload of a fact. A payload comes from
  \<open>json.Unmarshal\<close>, so of the types the switches name only texts, booleans, \<open>float64\<close> numbers, arrays
  and objects occur. A value and whether it was there are an option; \<open>or_empty\<close> is the value with the flag dropped.
\<close>

section \<open>Numbers\<close>

text \<open>The number a JSON literal denotes.\<close>

definition fraction_part :: "string \<Rightarrow> string \<times> string" where
  "fraction_part s = (if s \<noteq> [] \<and> hd s = CHR ''.'' then (takeWhile digit (tl s), dropWhile digit (tl s)) else ([], s))"

definition exponent_part :: "string \<Rightarrow> int" where
  "exponent_part s =
     (case s of
        [] \<Rightarrow> 0
      | _ # [] \<Rightarrow> 0
      | _ # c # cs \<Rightarrow>
          if c = CHR ''-'' then - digits_value 0 cs
          else if c = CHR ''+'' then digits_value 0 cs
          else digits_value 0 (c # cs))"

definition literal_value :: "string \<Rightarrow> rat" where
  "literal_value lit =
     (let negative = (lit \<noteq> [] \<and> hd lit = CHR ''-'');
          body = (if negative then tl lit else lit);
          whole = takeWhile digit body
      in case fraction_part (dropWhile digit body) of (fraction, rest) \<Rightarrow>
           let r = of_int (digits_value 0 (whole @ fraction)) * scale 10 (exponent_part rest - int (length fraction))
           in if negative then - r else r)"

definition literal_double :: "string \<Rightarrow> rat" where
  "literal_double lit =
     (let r = literal_value lit in if r = 0 then 0 else if r < 0 then - nearest_double (- r) else nearest_double r)"

text \<open>
  \<open>int(f)\<close> of a \<open>float64\<close>: towards zero. Outside the range of \<open>int\<close> the language leaves the value open;
  this is what amd64 yields.
\<close>

definition int_of_double :: "rat \<Rightarrow> int" where
  "int_of_double r =
     (let n = (if r < 0 then - \<lfloor>- r\<rfloor> else \<lfloor>r\<rfloor>) in if - (2 ^ 63) \<le> n \<and> n < 2 ^ 63 then n else - (2 ^ 63))"

section \<open>Access\<close>

definition or_empty :: "string option \<Rightarrow> string" where
  "or_empty v = (case v of Some s \<Rightarrow> s | None \<Rightarrow> [])"

definition or_zero :: "int option \<Rightarrow> int" where
  "or_zero v = (case v of Some n \<Rightarrow> n | None \<Rightarrow> 0)"

fun asString :: "json \<Rightarrow> string option" where
  "asString (JStr s) = Some s"
| "asString _ = None"

definition payloadString :: "payload \<Rightarrow> string \<Rightarrow> string option" where
  "payloadString p key =
     (case Option.bind (map_of p key) asString of
        None \<Rightarrow> None
      | Some text \<Rightarrow> (let t = trim_space text in if t = [] then None else Some t))"

definition payloadHasKey :: "payload \<Rightarrow> string \<Rightarrow> bool" where
  "payloadHasKey p key \<longleftrightarrow> map_of p key \<noteq> None"

definition payloadInt :: "payload \<Rightarrow> string \<Rightarrow> int option" where
  "payloadInt p key =
     (case map_of p key of
        Some (JNum lit) \<Rightarrow> Some (int_of_double (literal_double lit))
      | Some (JStr s) \<Rightarrow> Atoi (trim_space s)
      | _ \<Rightarrow> None)"

definition payloadIntPtr :: "payload \<Rightarrow> string \<Rightarrow> int option" where
  "payloadIntPtr p key = payloadInt p key"

definition payloadBoolPtr :: "payload \<Rightarrow> string \<Rightarrow> bool option" where
  "payloadBoolPtr p key =
     (case map_of p key of
        Some (JBool b) \<Rightarrow> Some b
      | Some (JStr s) \<Rightarrow> ParseBool (trim_space s)
      | _ \<Rightarrow> None)"

text \<open>Nil where nothing is left; the texts are kept as they are.\<close>

definition payloadAttributes :: "payload \<Rightarrow> string list \<Rightarrow> (string \<times> string) list option" where
  "payloadAttributes p excluded =
     (let attributes = [(k, text). (k, v) \<leftarrow> p, k \<notin> set excluded, text \<leftarrow> (case asString v of Some s \<Rightarrow> [s] | None \<Rightarrow> [])]
      in if attributes = [] then None else Some attributes)"

text \<open>The texts of an array, trimmed, without the blank ones; other elements are passed over.\<close>

definition payloadStringSlice :: "payload \<Rightarrow> string \<Rightarrow> string list" where
  "payloadStringSlice p key =
     (case map_of p key of
        Some (JArr vs) \<Rightarrow> filter (\<lambda>t. t \<noteq> []) (map trim_space (List.map_filter asString vs))
      | _ \<Rightarrow> [])"

section \<open>Metadata\<close>

definition metadata_object :: "payload \<Rightarrow> payload option" where
  "metadata_object p = (case map_of p ''entity_metadata'' of Some (JObj m) \<Rightarrow> Some m | _ \<Rightarrow> None)"

definition payloadMetadataString :: "payload \<Rightarrow> string \<Rightarrow> string" where
  "payloadMetadataString p key =
     (case payloadString p key of
        Some value \<Rightarrow> value
      | None \<Rightarrow> (case metadata_object p of None \<Rightarrow> [] | Some m \<Rightarrow> or_empty (payloadString m key)))"

definition payloadMetadataStringSlice :: "payload \<Rightarrow> string \<Rightarrow> string list" where
  "payloadMetadataStringSlice p key =
     (let values = payloadStringSlice p key
      in if values \<noteq> [] then values
         else (case metadata_object p of None \<Rightarrow> [] | Some m \<Rightarrow> payloadStringSlice m key))"

definition payloadMetadataBool :: "payload \<Rightarrow> string \<Rightarrow> bool" where
  "payloadMetadataBool p key =
     (case map_of p key of
        Some (JBool b) \<Rightarrow> b
      | _ \<Rightarrow> (case metadata_object p of None \<Rightarrow> False | Some m \<Rightarrow> map_of m key = Some (JBool True)))"

text \<open>Deep copies; a value that is no map and no slice is its own copy.\<close>

fun cloneAnyValue :: "json \<Rightarrow> json" where
  "cloneAnyValue (JObj m) = JObj (map (\<lambda>(k, v). (k, cloneAnyValue v)) m)"
| "cloneAnyValue (JArr vs) = JArr (map cloneAnyValue vs)"
| "cloneAnyValue v = v"

definition cloneAnyMap :: "payload \<Rightarrow> payload" where
  "cloneAnyMap m = map (\<lambda>(k, v). (k, cloneAnyValue v)) m"

definition entityPayloadReservedKeys :: "string list" where
  "entityPayloadReservedKeys =
     [''artifact_type'', ''content_body'', ''content_digest'', ''content_path'', ''end_byte'', ''end_line'',
      ''entity_id'', ''entity_kind'', ''entity_metadata'', ''entity_name'', ''entity_type'', ''graph_id'',
      ''graph_kind'', ''iac_relevant'', ''indexed_at'', ''lang'', ''language'', ''line_number'', ''name'', ''path'',
      ''relative_path'', ''repo_id'', ''source_cache'', ''sql_entity_type'', ''start_byte'', ''start_line'',
      ''template_dialect'']"

definition entityMetadataFromPayload :: "payload \<Rightarrow> payload option" where
  "entityMetadataFromPayload p =
     (case metadata_object p of
        Some (kv # m) \<Rightarrow> Some (cloneAnyMap (kv # m))
      | _ \<Rightarrow>
          (let metadata = map (\<lambda>(k, v). (k, cloneAnyValue v)) (filter (\<lambda>(k, v). k \<notin> set entityPayloadReservedKeys) p)
           in if metadata = [] then None else Some metadata))"

section \<open>Copies are the values\<close>

lemma cloneAnyValue_id [simp]: "cloneAnyValue v = v"
  by (induction v rule: cloneAnyValue.induct) (auto intro: map_idI)

lemma cloneAnyMap_id [simp]: "cloneAnyMap m = m"
  by (simp add: cloneAnyMap_def)

lemma cloneValue_id [simp]: "cloneValue v = v"
  by (induction v rule: cloneValue.induct) (auto intro: map_idI)

lemma Envelope_Clone_id [simp]: "Envelope_Clone e = e"
  by (cases "ev_Payload e") (simp_all add: Envelope_Clone_def)

lemma payloadString_nonempty [simp]: "payloadString p key \<noteq> Some []"
  by (simp add: payloadString_def Let_def split: option.split)

lemma payloadString_trimmed: "payloadString p key = Some t \<Longrightarrow> trim_space t = t"
  by (auto simp: payloadString_def Let_def split: option.splits if_splits)

lemma or_empty_simps [simp]: "or_empty (Some t) = t" "or_empty None = []"
  by (simp_all add: or_empty_def)

lemma or_zero_simps [simp]: "or_zero (Some n) = n" "or_zero None = 0"
  by (simp_all add: or_zero_def)

lemma payloadString_or_empty: "or_empty (payloadString p key) = [] \<longleftrightarrow> payloadString p key = None"
  by (cases "payloadString p key") auto

lemma fits64_range: "fits64 n = Some m \<Longrightarrow> - (2 ^ 63) \<le> m \<and> m < 2 ^ 63"
  by (simp add: fits64_def split: if_splits)

lemma Atoi_range: "Atoi s = Some n \<Longrightarrow> - (2 ^ 63) \<le> n \<and> n < 2 ^ 63"
  by (auto simp: Atoi_def bind_eq_Some_conv dest: fits64_range split: list.splits if_splits)

text \<open>Whatever a payload holds, the number read is an \<open>int\<close>.\<close>

lemma payloadInt_range: "payloadInt p key = Some n \<Longrightarrow> - (2 ^ 63) \<le> n \<and> n < 2 ^ 63"
  by (auto simp: payloadInt_def int_of_double_def Let_def dest: Atoi_range split: option.splits json.splits if_splits)

end
