(* ===== verification/Content.thy ===== *)
theory Content
  imports FactPayload Scope
begin

text \<open>
  \<open>go/internal/content/writer.go\<close>: the rows of the content store for one scope generation, the in-memory
  writer and the identifier of a content entity. The \<open>Clone\<close> methods copy maps and pointers; on values
  they are the identity. \<open>digest\<close> is \<open>blake2s.Sum256\<close>: the digest of a text, as bytes.
\<close>

record ContentRecord =
  co_Path :: string
  co_Body :: string
  co_Digest :: string
  co_Deleted :: bool
  co_Metadata :: "(string \<times> string) list option"

record ContentEntity =
  ent_EntityID :: string
  ent_Path :: string
  ent_EntityType :: string
  ent_EntityName :: string
  ent_StartLine :: int
  ent_EndLine :: int
  ent_StartByte :: "int option"
  ent_EndByte :: "int option"
  ent_Language :: string
  ent_ArtifactType :: string
  ent_TemplateDialect :: string
  ent_IACRelevant :: "bool option"
  ent_SourceCache :: string
  ent_Metadata :: "payload option"
  ent_Deleted :: bool

record ContentMaterialization =
  ctm_RepoID :: string
  ctm_ScopeID :: string
  ctm_GenerationID :: string
  ctm_SourceSystem :: string
  ctm_Records :: "ContentRecord list"
  ctm_Entities :: "ContentEntity list"

record ContentResult =
  ctr_ScopeID :: string
  ctr_GenerationID :: string
  ctr_RecordCount :: nat
  ctr_EntityCount :: nat
  ctr_DeletedCount :: nat

definition no_ContentResult :: ContentResult where
  "no_ContentResult = \<lparr>ctr_ScopeID = [], ctr_GenerationID = [], ctr_RecordCount = 0, ctr_EntityCount = 0, ctr_DeletedCount = 0\<rparr>"

definition ContentMaterialization_ScopeGenerationKey :: "ContentMaterialization \<Rightarrow> string" where
  "ContentMaterialization_ScopeGenerationKey m = ctm_ScopeID m @ '':'' @ ctm_GenerationID m"

text \<open>\<open>None\<close> is the nil writer.\<close>

definition MemoryWriter_Write ::
  "ContentMaterialization \<Rightarrow> ContentMaterialization list option \<Rightarrow> ContentResult result \<times> ContentMaterialization list option" where
  "MemoryWriter_Write m w =
     (case w of
        None \<Rightarrow> (Inl (Msg ''memory writer is nil''), None)
      | Some writes \<Rightarrow>
          (Inr \<lparr>ctr_ScopeID = ctm_ScopeID m, ctr_GenerationID = ctm_GenerationID m,
                ctr_RecordCount = length (ctm_Records m), ctr_EntityCount = length (ctm_Entities m),
                ctr_DeletedCount = length (filter co_Deleted (ctm_Records m)) + length (filter ent_Deleted (ctm_Entities m))\<rparr>,
           Some (writes @ [m])))"

definition CanonicalEntityID :: "(string \<Rightarrow> nat list) \<Rightarrow> string \<Rightarrow> string \<Rightarrow> string \<Rightarrow> string \<Rightarrow> int \<Rightarrow> string" where
  "CanonicalEntityID digest repoID relativePath entityType entityName lineNumber =
     ''content-entity:e_'' @ take 12 (hex_bytes (digest (join_with [byte 10]
       [trim_space repoID, trim_space relativePath, to_lower (trim_space entityType), trim_space entityName,
        show_int lineNumber])))"

end
