(* ===== verification/CanonicalGraph.thy ===== *)
theory CanonicalGraph
  imports GoPath Content Ordering
begin

text \<open>
  \<open>go/internal/projector/canonical.go\<close>, \<open>canonical_builder.go\<close> and \<open>stage_facts.go\<close>: the nodes and edges of the
  canonical graph that the facts of one generation ask for. \<open>digest\<close> is the digest of \<open>content.CanonicalEntityID\<close>.
\<close>

section \<open>Data\<close>

record RepositoryRow =
  rpo_RepoID :: string
  rpo_Name :: string
  rpo_Path :: string
  rpo_LocalPath :: string
  rpo_RemoteURL :: string
  rpo_RepoSlug :: string
  rpo_HasRemote :: bool

record DirectoryRow =
  dir_Path :: string
  dir_Name :: string
  dir_ParentPath :: string
  dir_RepoID :: string
  dir_Depth :: nat

record FileRow =
  fl_Path :: string
  fl_RelativePath :: string
  fl_Name :: string
  fl_Language :: string
  fl_RepoID :: string
  fl_DirPath :: string

record EntityRow =
  er_EntityID :: string
  er_Label :: string
  er_EntityName :: string
  er_FilePath :: string
  er_RelativePath :: string
  er_StartLine :: int
  er_EndLine :: int
  er_Language :: string
  er_RepoID :: string
  er_Metadata :: "payload option"

record ModuleRow =
  mo_Name :: string
  mo_Language :: string

record ImportRow =
  imp_FilePath :: string
  imp_ModuleName :: string
  imp_ImportedName :: string
  imp_Alias :: string
  imp_LineNumber :: int

record ParameterRow =
  prm_ParamName :: string
  prm_FilePath :: string
  prm_FunctionName :: string
  prm_FunctionLine :: int

record ClassMemberRow =
  cmb_ClassName :: string
  cmb_FunctionName :: string
  cmb_FilePath :: string
  cmb_FunctionLine :: int

record NestedFunctionRow =
  nf_OuterName :: string
  nf_InnerName :: string
  nf_FilePath :: string
  nf_InnerLine :: int

record CanonicalMaterialization =
  mat_ScopeID :: string
  mat_GenerationID :: string
  mat_RepoID :: string
  mat_RepoPath :: string
  mat_FirstGeneration :: bool
  mat_Repository :: "RepositoryRow option"
  mat_Directories :: "DirectoryRow list"
  mat_Files :: "FileRow list"
  mat_Entities :: "EntityRow list"
  mat_Modules :: "ModuleRow list"
  mat_Imports :: "ImportRow list"
  mat_Parameters :: "ParameterRow list"
  mat_ClassMembers :: "ClassMemberRow list"
  mat_NestedFuncs :: "NestedFunctionRow list"

definition IsEmpty :: "CanonicalMaterialization \<Rightarrow> bool" where
  "IsEmpty m \<longleftrightarrow> mat_Repository m = None \<and> mat_Directories m = [] \<and> mat_Files m = [] \<and> mat_Entities m = []"

section \<open>Labels\<close>

definition entityTypeLabelMap :: "(string \<times> string) list" where
  "entityTypeLabelMap =
     [(''function'', ''Function''), (''class'', ''Class''), (''interface'', ''Interface''), (''variable'', ''Variable''),
      (''trait'', ''Trait''), (''struct'', ''Struct''), (''enum'', ''Enum''), (''macro'', ''Macro''), (''union'', ''Union''),
      (''record'', ''Record''), (''property'', ''Property''), (''module'', ''Module''), (''parameter'', ''Parameter''),
      (''annotation'', ''Annotation''), (''typedef'', ''Typedef''), (''type_alias'', ''TypeAlias''),
      (''component'', ''Component''), (''impl_block'', ''ImplBlock''), (''protocol'', ''Protocol''),
      (''protocol_implementation'', ''ProtocolImplementation''),
      (''k8s_resource'', ''K8sResource''), (''argocd_application'', ''ArgoCDApplication''),
      (''argocd_application_set'', ''ArgoCDApplicationSet''), (''crossplane_xrd'', ''CrossplaneXRD''),
      (''crossplane_composition'', ''CrossplaneComposition''), (''crossplane_claim'', ''CrossplaneClaim''),
      (''kustomize_overlay'', ''KustomizeOverlay''), (''helm_chart'', ''HelmChart''), (''helm_values'', ''HelmValues''),
      (''terraform_resource'', ''TerraformResource''), (''terraform_module'', ''TerraformModule''),
      (''terraform_variable'', ''TerraformVariable''), (''terraform_output'', ''TerraformOutput''),
      (''terraform_datasource'', ''TerraformDataSource''), (''terraform_provider'', ''TerraformProvider''),
      (''terraform_local'', ''TerraformLocal''), (''terragrunt_config'', ''TerragruntConfig''),
      (''cloudformation_resource'', ''CloudFormationResource''),
      (''cloudformation_parameter'', ''CloudFormationParameter''), (''cloudformation_output'', ''CloudFormationOutput''),
      (''sql_table'', ''SqlTable''), (''sql_view'', ''SqlView''), (''sql_function'', ''SqlFunction''),
      (''sql_trigger'', ''SqlTrigger''), (''sql_index'', ''SqlIndex''), (''sql_column'', ''SqlColumn''),
      (''data_asset'', ''DataAsset''), (''data_column'', ''DataColumn''), (''analytics_model'', ''AnalyticsModel''),
      (''dashboard_asset'', ''DashboardAsset''), (''data_quality_check'', ''DataQualityCheck''),
      (''query_execution'', ''QueryExecution''), (''data_contract'', ''DataContract''), (''data_owner'', ''DataOwner''),
      (''terragrunt_dependency'', ''TerragruntDependency''), (''terragrunt_input'', ''TerragruntInput''),
      (''terragrunt_local'', ''TerragruntLocal''), (''type_annotation'', ''TypeAnnotation'')]"

definition entityTypeLabelValues :: "string list" where
  "entityTypeLabelValues = map snd entityTypeLabelMap"

definition EntityTypeLabel :: "string \<Rightarrow> string option" where
  "EntityTypeLabel entityType =
     (case map_of entityTypeLabelMap entityType of
        Some label \<Rightarrow> Some label
      | None \<Rightarrow> if entityType \<in> set entityTypeLabelValues then Some entityType else None)"

section \<open>Facts by kind\<close>

definition FactKindFileObserved :: string where "FactKindFileObserved = ''file''"
definition FactKindParsedEntityObserved :: string where "FactKindParsedEntityObserved = ''content_entity''"
definition FactKindRepositoryObserved :: string where "FactKindRepositoryObserved = ''repository''"

text \<open>\<open>strings.TrimSuffix(kind, "Fact")\<close>.\<close>

definition NormalizeFactKind :: "string \<Rightarrow> string" where
  "NormalizeFactKind kind = (if suffix ''Fact'' kind then take (length kind - 4) kind else kind)"

definition filterFactsByKind :: "Envelope list \<Rightarrow> string \<Rightarrow> Envelope list" where
  "filterFactsByKind envelopes kind =
     first_of_each ev_FactID [] (filter (\<lambda>e. NormalizeFactKind (ev_FactKind e) = kind) envelopes)"

definition FilterFileFacts :: "Envelope list \<Rightarrow> Envelope list" where
  "FilterFileFacts es = filterFactsByKind es FactKindFileObserved"
definition FilterEntityFacts :: "Envelope list \<Rightarrow> Envelope list" where
  "FilterEntityFacts es = filterFactsByKind es FactKindParsedEntityObserved"
definition FilterRepositoryFacts :: "Envelope list \<Rightarrow> Envelope list" where
  "FilterRepositoryFacts es = filterFactsByKind es FactKindRepositoryObserved"

definition fact_payload :: "Envelope \<Rightarrow> payload" where
  "fact_payload e = payload_map (ev_Payload e)"

text \<open>\<open>text, _ := payloadString(p, key)\<close>.\<close>

abbreviation text_of :: "payload \<Rightarrow> string \<Rightarrow> string" where
  "text_of p key \<equiv> or_empty (payloadString p key)"

abbreviation number_of :: "payload \<Rightarrow> string \<Rightarrow> int" where
  "number_of p key \<equiv> or_zero (payloadInt p key)"

section \<open>Building\<close>

definition qualifyPath :: "string \<Rightarrow> string \<Rightarrow> string" where
  "qualifyPath repoPath relativePath =
     (if repoPath = [] then relativePath
      else if relativePath = [] then repoPath
      else repoPath @ ''/'' @ relativePath)"

definition extractRepository :: "Envelope list \<Rightarrow> RepositoryRow option" where
  "extractRepository envelopes =
     (case FilterRepositoryFacts envelopes of
        [] \<Rightarrow> None
      | f # _ \<Rightarrow>
          (let p = fact_payload f;
               repoPath = text_of p ''path'';
               localPath = text_of p ''local_path'';
               remoteURL = text_of p ''remote_url''
           in Some \<lparr>rpo_RepoID = text_of p ''repo_id'', rpo_Name = text_of p ''name'',
                rpo_Path = (if repoPath = [] then localPath else repoPath), rpo_LocalPath = localPath,
                rpo_RemoteURL = remoteURL, rpo_RepoSlug = text_of p ''repo_slug'',
                rpo_HasRemote = (case payloadBoolPtr p ''has_remote'' of Some b \<Rightarrow> b | None \<Rightarrow> remoteURL \<noteq> [])\<rparr>))"

definition extract_file :: "string \<Rightarrow> string \<Rightarrow> Envelope \<Rightarrow> FileRow option" where
  "extract_file repoID repoPath f =
     (let p = fact_payload f; relativePath = text_of p ''relative_path''
      in if ev_IsTombstone f \<or> relativePath = [] then None
         else (let fullPath = qualifyPath repoPath relativePath
               in Some \<lparr>fl_Path = fullPath, fl_RelativePath = relativePath, fl_Name = path_Base relativePath,
                    fl_Language = text_of p ''language'', fl_RepoID = repoID, fl_DirPath = path_Dir fullPath\<rparr>))"

definition extractFiles :: "Envelope list \<Rightarrow> string \<Rightarrow> string \<Rightarrow> FileRow list" where
  "extractFiles envelopes repoID repoPath = List.map_filter (extract_file repoID repoPath) (FilterFileFacts envelopes)"

text \<open>\<open>strings.Count(strings.TrimPrefix(dirPath, repoPath+"/"), "/")\<close>.\<close>

definition directory_depth :: "string \<Rightarrow> string \<Rightarrow> nat" where
  "directory_depth repoPath dirPath =
     (let rel = (if prefix (repoPath @ ''/'') dirPath then drop (length repoPath + 1) dirPath else dirPath)
      in length (filter (\<lambda>c. c = CHR ''/'') rel))"

definition directory_row :: "string \<Rightarrow> string \<Rightarrow> string \<Rightarrow> DirectoryRow" where
  "directory_row repoPath repoID dirPath =
     \<lparr>dir_Path = dirPath, dir_Name = path_Base dirPath, dir_ParentPath = path_Dir dirPath, dir_RepoID = repoID,
      dir_Depth = directory_depth repoPath dirPath\<rparr>"

text \<open>The walk from a file's directory to the root; \<open>seen\<close> holds the paths of the rows in \<open>dirs\<close>.\<close>

function walk_directories :: "string \<Rightarrow> string \<Rightarrow> string \<Rightarrow> string list \<times> DirectoryRow list \<Rightarrow> string list \<times> DirectoryRow list" where
  "walk_directories repoPath repoID dirPath (seen, dirs) =
     (if dirPath = [] \<or> dirPath = repoPath \<or> dirPath = ''.'' \<or> dirPath = ''/'' \<or> dirPath \<in> set seen then (seen, dirs)
      else walk_directories repoPath repoID (path_Dir dirPath) (dirPath # seen, dirs @ [directory_row repoPath repoID dirPath]))"
  by pat_completeness auto
termination
proof (relation "measure (\<lambda>(_, _, d, _). if d \<in> {[], ''.'', ''/''} then 0 else length d + 1)", goal_cases)
  case (2 repoPath repoID dirPath seen dirs)
  then show ?case using Dir_shorter [of dirPath] by (cases "path_Dir dirPath \<in> {''.'', ''/''}") auto
qed simp

declare walk_directories.simps [simp del]

definition compare_directories :: "DirectoryRow \<Rightarrow> DirectoryRow \<Rightarrow> int" where
  "compare_directories a b = or_else (compare (dir_Depth a) (dir_Depth b)) (compare (dir_Path a) (dir_Path b))"

definition buildDirectoryChain :: "FileRow list \<Rightarrow> string \<Rightarrow> string \<Rightarrow> DirectoryRow list" where
  "buildDirectoryChain files repoPath repoID =
     sort_by compare_directories (snd (fold (\<lambda>f. walk_directories repoPath repoID (fl_DirPath f)) files ([], [])))"

definition extractEntityMetadata :: "payload \<Rightarrow> payload option" where
  "extractEntityMetadata p = (case metadata_object p of Some (kv # m) \<Rightarrow> Some (cloneAnyMap (kv # m)) | _ \<Rightarrow> None)"

definition extract_entity :: "(string \<Rightarrow> nat list) \<Rightarrow> string \<Rightarrow> string \<Rightarrow> Envelope \<Rightarrow> EntityRow option" where
  "extract_entity digest repoID repoPath f =
     (let p = fact_payload f; entityType = text_of p ''entity_type''
      in if ev_IsTombstone f \<or> entityType = [] then None
         else (case EntityTypeLabel entityType of
             None \<Rightarrow> None
           | Some label \<Rightarrow>
               if label = ''Module'' \<or> label = ''Parameter'' then None
               else (let entityName = text_of p ''entity_name'';
                         relativePath = text_of p ''relative_path'';
                         startLine = number_of p ''start_line'';
                         entityRepoID = (case payloadString p ''repo_id'' of Some r \<Rightarrow> r | None \<Rightarrow> repoID);
                         entityID = text_of p ''entity_id''
                     in Some \<lparr>er_EntityID = (if entityID = []
                                then CanonicalEntityID digest entityRepoID relativePath entityType entityName startLine
                                else entityID),
                          er_Label = label, er_EntityName = entityName, er_FilePath = qualifyPath repoPath relativePath,
                          er_RelativePath = relativePath, er_StartLine = startLine,
                          er_EndLine = number_of p ''end_line'', er_Language = text_of p ''language'',
                          er_RepoID = entityRepoID, er_Metadata = extractEntityMetadata p\<rparr>)))"

definition extractEntities :: "(string \<Rightarrow> nat list) \<Rightarrow> Envelope list \<Rightarrow> string \<Rightarrow> string \<Rightarrow> EntityRow list" where
  "extractEntities digest envelopes repoID repoPath =
     List.map_filter (extract_entity digest repoID repoPath) (FilterEntityFacts envelopes)"

definition extract_module :: "Envelope \<Rightarrow> ModuleRow option" where
  "extract_module f =
     (let p = fact_payload f; entityName = text_of p ''entity_name''
      in if ev_IsTombstone f \<or> EntityTypeLabel (text_of p ''entity_type'') \<noteq> Some ''Module'' \<or> entityName = [] then None
         else Some \<lparr>mo_Name = entityName, mo_Language = text_of p ''language''\<rparr>)"

definition extractModulesFromEntities :: "Envelope list \<Rightarrow> ModuleRow list" where
  "extractModulesFromEntities envelopes =
     first_of_each mo_Name [] (List.map_filter extract_module (FilterEntityFacts envelopes))"

section \<open>Relationship payloads\<close>

text \<open>\<open>moduleSeen\<close> holds the names of the modules of the materialization.\<close>

definition extract_import :: "Envelope \<Rightarrow> CanonicalMaterialization \<Rightarrow> CanonicalMaterialization" where
  "extract_import f m =
     (let p = fact_payload f; moduleName = text_of p ''module_name''; importedModule = text_of p ''imported_module''
      in if payloadString p ''module_name'' = None \<and> payloadString p ''imported_module'' = None then m
         else (let modName = (if moduleName = [] then importedModule else moduleName);
                   modules = (if modName \<noteq> [] \<and> modName \<notin> mo_Name ` set (mat_Modules m)
                     then mat_Modules m @ [\<lparr>mo_Name = modName, mo_Language = text_of p ''language''\<rparr>]
                     else mat_Modules m);
                   relPath = text_of p ''relative_path''
               in m\<lparr>mat_Modules := modules,
                    mat_Imports := mat_Imports m @
                      [\<lparr>imp_FilePath = (if relPath = [] then ref_SourceURI (ev_SourceRef f) else qualifyPath (mat_RepoPath m) relPath),
                        imp_ModuleName = (if importedModule = [] then moduleName else importedModule),
                        imp_ImportedName = text_of p ''imported_name'', imp_Alias = text_of p ''alias'',
                        imp_LineNumber = number_of p ''line_number''\<rparr>]\<rparr>))"

definition extract_parameter :: "Envelope \<Rightarrow> CanonicalMaterialization \<Rightarrow> CanonicalMaterialization" where
  "extract_parameter f m =
     (let p = fact_payload f
      in case payloadString p ''param_name'' of
           None \<Rightarrow> m
         | Some paramName \<Rightarrow> m\<lparr>mat_Parameters := mat_Parameters m @
             [\<lparr>prm_ParamName = paramName, prm_FilePath = qualifyPath (mat_RepoPath m) (text_of p ''relative_path''),
               prm_FunctionName = text_of p ''function_name'', prm_FunctionLine = number_of p ''function_line''\<rparr>]\<rparr>)"

definition extract_class_member :: "Envelope \<Rightarrow> CanonicalMaterialization \<Rightarrow> CanonicalMaterialization" where
  "extract_class_member f m =
     (let p = fact_payload f
      in case (payloadString p ''class_name'', payloadString p ''function_name'', payloadString p ''param_name'') of
           (Some className, Some funcName, None) \<Rightarrow> m\<lparr>mat_ClassMembers := mat_ClassMembers m @
             [\<lparr>cmb_ClassName = className, cmb_FunctionName = funcName,
               cmb_FilePath = qualifyPath (mat_RepoPath m) (text_of p ''relative_path''),
               cmb_FunctionLine = number_of p ''function_line''\<rparr>]\<rparr>
         | _ \<Rightarrow> m)"

definition extract_nested_function :: "Envelope \<Rightarrow> CanonicalMaterialization \<Rightarrow> CanonicalMaterialization" where
  "extract_nested_function f m =
     (let p = fact_payload f
      in case (payloadString p ''outer_name'', payloadString p ''inner_name'') of
           (Some outerName, Some innerName) \<Rightarrow> m\<lparr>mat_NestedFuncs := mat_NestedFuncs m @
             [\<lparr>nf_OuterName = outerName, nf_InnerName = innerName,
               nf_FilePath = qualifyPath (mat_RepoPath m) (text_of p ''relative_path''),
               nf_InnerLine = number_of p ''inner_line''\<rparr>]\<rparr>
         | _ \<Rightarrow> m)"

definition extract_relationship :: "Envelope \<Rightarrow> CanonicalMaterialization \<Rightarrow> CanonicalMaterialization" where
  "extract_relationship f m =
     (if ev_IsTombstone f then m
      else extract_nested_function f (extract_class_member f (extract_parameter f (extract_import f m))))"

definition extractRelationships :: "Envelope list \<Rightarrow> CanonicalMaterialization \<Rightarrow> CanonicalMaterialization" where
  "extractRelationships envelopes m = fold extract_relationship envelopes m"

section \<open>The materialization\<close>

text \<open>A missing key of a map, and of the nil map, reads as the empty text.\<close>

definition scope_metadata :: "IngestionScope \<Rightarrow> string \<Rightarrow> string" where
  "scope_metadata s key = or_empty (Option.bind (sc_Metadata s) (\<lambda>m. map_of m key))"

definition buildCanonicalMaterialization ::
  "(string \<Rightarrow> nat list) \<Rightarrow> IngestionScope \<Rightarrow> ScopeGeneration \<Rightarrow> Envelope list \<Rightarrow> CanonicalMaterialization" where
  "buildCanonicalMaterialization digest s g facts =
     (let mat = \<lparr>mat_ScopeID = sc_ScopeID s, mat_GenerationID = gen_GenerationID g, mat_RepoID = scope_metadata s ''repo_id'',
            mat_RepoPath = scope_metadata s ''repo_path'', mat_FirstGeneration = (\<not> HasPriorGeneration s),
            mat_Repository = None, mat_Directories = [], mat_Files = [], mat_Entities = [], mat_Modules = [],
            mat_Imports = [], mat_Parameters = [], mat_ClassMembers = [], mat_NestedFuncs = []\<rparr>
      in if facts = [] then mat
         else (let repository = extractRepository facts;
                   repoID = (case repository of Some r \<Rightarrow> if rpo_RepoID r \<noteq> [] then rpo_RepoID r else mat_RepoID mat
                     | None \<Rightarrow> mat_RepoID mat);
                   repoPath = (case repository of Some r \<Rightarrow> if rpo_Path r \<noteq> [] then rpo_Path r else mat_RepoPath mat
                     | None \<Rightarrow> mat_RepoPath mat);
                   files = extractFiles facts repoID repoPath
               in extractRelationships facts
                    (mat\<lparr>mat_RepoID := repoID, mat_RepoPath := repoPath, mat_Repository := repository, mat_Files := files,
                        mat_Directories := buildDirectoryChain files repoPath repoID,
                        mat_Entities := extractEntities digest facts repoID repoPath,
                        mat_Modules := extractModulesFromEntities facts\<rparr>)))"

section \<open>The directory chain\<close>

definition plain_relative :: "string \<Rightarrow> bool" where
  "plain_relative r \<longleftrightarrow> list_all plain_segment (segments r)"

lemma join_segments: "join_with ''/'' (segments r) = r"
proof (induction r)
  case (Cons c cs)
  then show ?case by (cases "segments cs"; cases "tl (segments cs)") (auto split: list.splits)
qed simp

lemma join_slashes: "ss \<noteq> [] \<Longrightarrow> concat (map ((#) (CHR ''/'')) ss) = CHR ''/'' # join_with ''/'' ss"
  by (induction "''/''" ss rule: join_with.induct) auto

lemma qualify_below: "repoPath \<noteq> [] \<Longrightarrow> r \<noteq> [] \<Longrightarrow> qualifyPath repoPath r = below repoPath (segments r)"
  by (simp add: qualifyPath_def below_def join_slashes join_segments)

lemma depth_below: "list_all plain_segment (ss @ [s]) \<Longrightarrow> directory_depth base (below base (ss @ [s])) = length ss"
proof -
  assume plain: "list_all plain_segment (ss @ [s])"
  obtain t ts where ts: "ss @ [s] = t # ts" by (cases "ss @ [s]") auto
  then have n: "length ts = length ss" by (metis length_append_singleton length_Cons nat.inject)
  have "prefix (base @ ''/'') (below base (t # ts))" by (simp add: below_def)
  moreover have "drop (length base + 1) (below base (t # ts)) = tl (concat (map ((#) (CHR ''/'')) (t # ts)))"
    by (simp add: below_def)
  ultimately have "directory_depth base (below base (t # ts)) = length (filter (\<lambda>c. c = CHR ''/'') (tl (concat (map ((#) (CHR ''/'')) (t # ts)))))"
    unfolding directory_depth_def Let_def by (simp only: if_True)
  also have "\<dots> = length ts" using below_depth [of t ts] plain ts by simp
  finally show ?thesis by (simp add: ts n)
qed

text \<open>What holds of the rows while the chain is built; \<open>extra\<close> is the directory the walk comes to next.\<close>

definition chain :: "string \<Rightarrow> string \<Rightarrow> string set \<Rightarrow> string set \<Rightarrow> string list \<Rightarrow> DirectoryRow list \<Rightarrow> bool" where
  "chain base repoID files extra seen dirs \<longleftrightarrow>
     set seen = dir_Path ` set dirs \<and> distinct (map dir_Path dirs) \<and>
     (\<forall>d \<in> set dirs. d = directory_row base repoID (dir_Path d) \<and>
        (\<exists>ss s. list_all plain_segment (ss @ [s]) \<and> dir_Path d = below base (ss @ [s])) \<and>
        (\<exists>f \<in> files. prefix (dir_Path d @ ''/'') f) \<and>
        dir_ParentPath d \<in> {base} \<union> extra \<union> dir_Path ` set dirs)"

lemma chain_mono: "chain base repoID files extra seen dirs \<Longrightarrow> extra \<subseteq> insert base extra' \<Longrightarrow> chain base repoID files extra' seen dirs"
  by (auto simp: chain_def)

lemma chain_seen:
  assumes "chain base repoID files {d} seen dirs" and "d \<in> set seen"
  shows "chain base repoID files {} seen dirs"
  using assms by (auto simp: chain_def)

lemma chain_row:
  assumes "chain base repoID files {d} seen dirs" and "d \<notin> set seen" and "clean_root base"
    and "list_all plain_segment (ss @ [s])" and d: "d = below base (ss @ [s])" and "f \<in> files" and "prefix (d @ ''/'') f"
  shows "chain base repoID files {below base ss} (d # seen) (dirs @ [directory_row base repoID d])"
proof -
  have "dir_ParentPath (directory_row base repoID d) = below base ss" "dir_Path (directory_row base repoID d) = d"
    using Dir_below [OF assms(3,4)] d by (simp_all add: directory_row_def)
  moreover have "\<exists>ss s. list_all plain_segment (ss @ [s]) \<and> d = below base (ss @ [s])" using assms(4) d by blast
  ultimately show ?thesis using assms(1,2,6,7) by (auto simp: chain_def)
qed

lemma walk_chain:
  assumes "clean_root base" and "f \<in> files"
  shows "list_all plain_segment ss \<Longrightarrow> prefix (below base ss @ ''/'') f \<Longrightarrow> chain base repoID files {below base ss} seen dirs \<Longrightarrow>
    walk_directories base repoID (below base ss) (seen, dirs) = (seen', dirs') \<Longrightarrow>
    chain base repoID files {} seen' dirs' \<and> set seen \<subseteq> set seen' \<and> (below base ss = base \<or> below base ss \<in> set seen')"
proof (induction ss arbitrary: seen dirs rule: rev_induct)
  case Nil
  then have "seen' = seen" "dirs' = dirs" by (simp_all add: below_def walk_directories.simps)
  with Nil.prems(3) show ?case by (auto simp: below_def elim: chain_mono)
next
  case (snoc s ss)
  let ?d = "below base (ss @ [s])"
  have clean: "clean_root ?d" by (rule clean_below [OF assms(1) snoc.prems(1)])
  have "?d \<noteq> base" by (simp add: below_def)
  show ?case
  proof (cases "?d \<in> set seen")
    case True
    then have "seen' = seen" "dirs' = dirs" using snoc.prems(4) by (simp_all add: walk_directories.simps)
    with True chain_seen [OF snoc.prems(3)] show ?thesis by simp
  next
    case False
    with clean \<open>?d \<noteq> base\<close> have "walk_directories base repoID ?d (seen, dirs) =
        walk_directories base repoID (path_Dir ?d) (?d # seen, dirs @ [directory_row base repoID ?d])"
      by (subst walk_directories.simps) (simp add: clean_root_def)
    then have walk: "walk_directories base repoID (below base ss) (?d # seen, dirs @ [directory_row base repoID ?d]) = (seen', dirs')"
      using snoc.prems(4) Dir_below [OF assms(1) snoc.prems(1)] by simp
    have "prefix (below base ss @ ''/'') f" using snoc.prems(2) by (auto simp: below_snoc prefix_def)
    moreover have "list_all plain_segment ss" using snoc.prems(1) by simp
    ultimately have "chain base repoID files {} seen' dirs' \<and> set (?d # seen) \<subseteq> set seen'"
      using snoc.IH [OF _ _ _ walk] chain_row [OF snoc.prems(3) False assms(1) snoc.prems(1) refl assms(2) snoc.prems(2)] by blast
    then show ?thesis by auto
  qed
qed

text \<open>A file row whose directory lies below the root.\<close>

definition rooted_file :: "string \<Rightarrow> FileRow \<Rightarrow> bool" where
  "rooted_file base f \<longleftrightarrow>
     (\<exists>ss. list_all plain_segment ss \<and> fl_DirPath f = below base ss \<and> prefix (below base ss @ ''/'') (fl_Path f))"

lemma fold_chain:
  assumes "clean_root base" and "\<forall>f \<in> set files. rooted_file base f" and "fl_Path ` set files \<subseteq> paths"
    and "chain base repoID paths {} seen dirs"
    and "fold (\<lambda>f. walk_directories base repoID (fl_DirPath f)) files (seen, dirs) = (seen', dirs')"
  shows "chain base repoID paths {} seen' dirs' \<and> set seen \<subseteq> set seen' \<and>
    (\<forall>f \<in> set files. fl_DirPath f = base \<or> fl_DirPath f \<in> set seen')"
  using assms
proof (induction files arbitrary: seen dirs)
  case (Cons f files)
  obtain ss where ss: "list_all plain_segment ss" "fl_DirPath f = below base ss" "prefix (below base ss @ ''/'') (fl_Path f)"
    using Cons.prems(2) by (auto simp: rooted_file_def)
  obtain seen1 dirs1 where w: "walk_directories base repoID (below base ss) (seen, dirs) = (seen1, dirs1)" by (metis surj_pair)
  have start: "chain base repoID paths {below base ss} seen dirs" using Cons.prems(4) by (rule chain_mono) simp
  have "fl_Path f \<in> paths" using Cons.prems(3) by simp
  then have 1: "chain base repoID paths {} seen1 dirs1 \<and> set seen \<subseteq> set seen1 \<and> (below base ss = base \<or> below base ss \<in> set seen1)"
    by (rule walk_chain [OF assms(1) _ ss(1,3) start w])
  have rest: "fold (\<lambda>f. walk_directories base repoID (fl_DirPath f)) files (seen1, dirs1) = (seen', dirs')"
    using Cons.prems(5) w ss(2) by simp
  have "chain base repoID paths {} seen' dirs' \<and> set seen1 \<subseteq> set seen' \<and>
      (\<forall>f \<in> set files. fl_DirPath f = base \<or> fl_DirPath f \<in> set seen')"
    using Cons.IH [OF assms(1) _ _ _ rest] Cons.prems(2,3) 1 by simp
  with 1 ss(2) show ?case by auto
qed simp

interpretation directories: comparator compare_directories
  unfolding compare_directories_def by (intro comparator_lex comparator_key)

definition chain_complete :: "string \<Rightarrow> FileRow list \<Rightarrow> DirectoryRow list \<Rightarrow> bool" where
  "chain_complete base files dirs \<longleftrightarrow>
     distinct (map dir_Path dirs) \<and>
     (\<forall>f \<in> set files. fl_DirPath f = base \<or> fl_DirPath f \<in> dir_Path ` set dirs) \<and>
     (\<forall>i < length dirs. dir_ParentPath (dirs ! i) = base \<or> (\<exists>j < i. dir_Path (dirs ! j) = dir_ParentPath (dirs ! i))) \<and>
     (\<forall>d \<in> set dirs. \<exists>f \<in> set files. prefix (dir_Path d @ ''/'') (fl_Path f))"

text \<open>The parent of a row is the root or has a smaller depth.\<close>

lemma chain_depth:
  assumes "clean_root base" and "chain base repoID files {} seen dirs" and "d \<in> set dirs" and "e \<in> set dirs"
    and "dir_ParentPath d = dir_Path e"
  shows "dir_Depth e < dir_Depth d"
proof -
  obtain ss s where d: "list_all plain_segment (ss @ [s])" "dir_Path d = below base (ss @ [s])" "d = directory_row base repoID (dir_Path d)"
    using assms(2,3) unfolding chain_def by blast
  obtain ts t where e: "list_all plain_segment (ts @ [t])" "dir_Path e = below base (ts @ [t])" "e = directory_row base repoID (dir_Path e)"
    using assms(2,4) unfolding chain_def by blast
  have depth: "dir_Depth d = length ss" "dir_Depth e = length ts"
    using arg_cong [OF d(3), of dir_Depth] arg_cong [OF e(3), of dir_Depth] depth_below [OF d(1)] depth_below [OF e(1)] d(2) e(2)
    by (simp_all add: directory_row_def)
  have "dir_ParentPath d = below base ss"
    using arg_cong [OF d(3), of dir_ParentPath] Dir_below [OF assms(1) d(1)] d(2) by (simp add: directory_row_def)
  then have "below base ss = below base (ts @ [t])" using assms(5) e(2) by simp
  moreover have "list_all plain_segment ss" using d(1) by simp
  ultimately have "ss = ts @ [t]" using below_inj e(1) by blast
  then show ?thesis by (simp add: depth)
qed

lemma buildDirectoryChain_complete:
  assumes "clean_root base" and "\<forall>f \<in> set files. rooted_file base f"
  shows "chain_complete base files (buildDirectoryChain files base repoID)"
proof -
  obtain seen rows where w: "fold (\<lambda>f. walk_directories base repoID (fl_DirPath f)) files ([], []) = (seen, rows)" by (metis surj_pair)
  let ?dirs = "sort_by compare_directories rows"
  have none: "chain base repoID (fl_Path ` set files) {} [] []" by (simp add: chain_def)
  have c: "chain base repoID (fl_Path ` set files) {} seen rows \<and> (\<forall>f \<in> set files. fl_DirPath f = base \<or> fl_DirPath f \<in> set seen)"
    using fold_chain [OF assms subset_refl none w] by blast
  then have rows: "set seen = dir_Path ` set rows" "distinct (map dir_Path rows)"
    "\<forall>d \<in> set rows. \<exists>f \<in> set files. prefix (dir_Path d @ ''/'') (fl_Path f)"
    "\<forall>d \<in> set rows. dir_ParentPath d = base \<or> dir_ParentPath d \<in> dir_Path ` set rows"
    by (auto simp: chain_def)
  have sorted: "sorted_wrt (\<lambda>x y. compare_directories x y \<le> 0) ?dirs"
    using directories.ordered_sort_by [of rows] by (simp add: ordered_def)
  have parents: "dir_ParentPath (?dirs ! i) = base \<or> (\<exists>j < i. dir_Path (?dirs ! j) = dir_ParentPath (?dirs ! i))"
    if i: "i < length ?dirs" for i
  proof (cases "dir_ParentPath (?dirs ! i) = base")
    case False
    have mem: "?dirs ! i \<in> set rows" using nth_mem [OF i] by simp
    with False rows(4) obtain e where e: "e \<in> set rows" "dir_ParentPath (?dirs ! i) = dir_Path e" by auto
    then have less: "dir_Depth e < dir_Depth (?dirs ! i)" using chain_depth [OF assms(1) _ mem e(1)] c by blast
    obtain j where j: "j < length ?dirs" "?dirs ! j = e" using e(1) by (metis in_set_conv_nth set_sort_by)
    have "\<not> i \<le> j"
    proof
      assume "i \<le> j"
      then have "i = j \<or> compare_directories (?dirs ! i) (?dirs ! j) \<le> 0"
        using sorted_wrt_nth_less [OF sorted _ j(1), of i] by (cases "i = j") auto
      with less j(2) show False by (auto simp: compare_directories_def or_else_le_iff compare_def split: if_splits)
    qed
    then have "j < i \<and> dir_Path (?dirs ! j) = dir_ParentPath (?dirs ! i)" using j(2) e(2) by simp
    then show ?thesis by blast
  qed simp
  have "distinct (map dir_Path ?dirs)" using rows(2) by (simp del: distinct_map)
  moreover have "\<forall>f \<in> set files. fl_DirPath f = base \<or> fl_DirPath f \<in> dir_Path ` set rows" using c unfolding rows(1) by blast
  ultimately show ?thesis using rows(3) parents by (simp add: chain_complete_def buildDirectoryChain_def w del: distinct_map)
qed

section \<open>What the materialization holds\<close>

lemma extract_import_fields [simp]:
  "mat_RepoPath (extract_import f m) = mat_RepoPath m"
  "mat_Files (extract_import f m) = mat_Files m"
  "mat_Directories (extract_import f m) = mat_Directories m"
  "mat_Entities (extract_import f m) = mat_Entities m"
  "mat_Repository (extract_import f m) = mat_Repository m"
  "mat_GenerationID (extract_import f m) = mat_GenerationID m"
  "mat_RepoID (extract_import f m) = mat_RepoID m"
  by (simp_all add: extract_import_def Let_def split: option.split)

lemma extract_parameter_fields [simp]:
  "mat_RepoPath (extract_parameter f m) = mat_RepoPath m"
  "mat_Files (extract_parameter f m) = mat_Files m"
  "mat_Directories (extract_parameter f m) = mat_Directories m"
  "mat_Entities (extract_parameter f m) = mat_Entities m"
  "mat_Repository (extract_parameter f m) = mat_Repository m"
  "mat_GenerationID (extract_parameter f m) = mat_GenerationID m"
  "mat_RepoID (extract_parameter f m) = mat_RepoID m"
  "mat_Modules (extract_parameter f m) = mat_Modules m"
  "mat_Imports (extract_parameter f m) = mat_Imports m"
  by (simp_all add: extract_parameter_def Let_def split: option.split)

lemma extract_class_member_fields [simp]:
  "mat_RepoPath (extract_class_member f m) = mat_RepoPath m"
  "mat_Files (extract_class_member f m) = mat_Files m"
  "mat_Directories (extract_class_member f m) = mat_Directories m"
  "mat_Entities (extract_class_member f m) = mat_Entities m"
  "mat_Repository (extract_class_member f m) = mat_Repository m"
  "mat_GenerationID (extract_class_member f m) = mat_GenerationID m"
  "mat_RepoID (extract_class_member f m) = mat_RepoID m"
  "mat_Modules (extract_class_member f m) = mat_Modules m"
  "mat_Imports (extract_class_member f m) = mat_Imports m"
  by (simp_all add: extract_class_member_def Let_def split: option.split)

lemma extract_nested_function_fields [simp]:
  "mat_RepoPath (extract_nested_function f m) = mat_RepoPath m"
  "mat_Files (extract_nested_function f m) = mat_Files m"
  "mat_Directories (extract_nested_function f m) = mat_Directories m"
  "mat_Entities (extract_nested_function f m) = mat_Entities m"
  "mat_Repository (extract_nested_function f m) = mat_Repository m"
  "mat_GenerationID (extract_nested_function f m) = mat_GenerationID m"
  "mat_RepoID (extract_nested_function f m) = mat_RepoID m"
  "mat_Modules (extract_nested_function f m) = mat_Modules m"
  "mat_Imports (extract_nested_function f m) = mat_Imports m"
  by (simp_all add: extract_nested_function_def Let_def split: option.split)

lemma extract_relationship_fields [simp]:
  "mat_RepoPath (extract_relationship f m) = mat_RepoPath m"
  "mat_Files (extract_relationship f m) = mat_Files m"
  "mat_Directories (extract_relationship f m) = mat_Directories m"
  "mat_Entities (extract_relationship f m) = mat_Entities m"
  "mat_Repository (extract_relationship f m) = mat_Repository m"
  "mat_GenerationID (extract_relationship f m) = mat_GenerationID m"
  "mat_RepoID (extract_relationship f m) = mat_RepoID m"
  by (simp_all add: extract_relationship_def)

lemma extractRelationships_fields [simp]:
  "mat_RepoPath (extractRelationships fs m) = mat_RepoPath m"
  "mat_Files (extractRelationships fs m) = mat_Files m"
  "mat_Directories (extractRelationships fs m) = mat_Directories m"
  "mat_Entities (extractRelationships fs m) = mat_Entities m"
  "mat_Repository (extractRelationships fs m) = mat_Repository m"
  "mat_GenerationID (extractRelationships fs m) = mat_GenerationID m"
  "mat_RepoID (extractRelationships fs m) = mat_RepoID m"
  unfolding extractRelationships_def by (induction fs arbitrary: m) simp_all

lemma extract_file_SomeD:
  assumes "extract_file repoID repoPath f = Some r"
  shows "fl_RelativePath r \<noteq> []" "fl_Path r = qualifyPath repoPath (fl_RelativePath r)" "fl_DirPath r = path_Dir (fl_Path r)"
  using assms by (auto simp: extract_file_def Let_def split: if_splits)

lemma extractFiles_mem:
  assumes "r \<in> set (extractFiles facts repoID repoPath)"
  obtains f where "f \<in> set (FilterFileFacts facts)" and "extract_file repoID repoPath f = Some r"
  using assms by (auto simp: extractFiles_def List.map_filter_def)

lemma extractFiles_rooted:
  assumes "clean_root base" and "r \<in> set (extractFiles facts repoID base)" and "plain_relative (fl_RelativePath r)"
  shows "rooted_file base r"
proof -
  obtain f where f: "extract_file repoID base f = Some r" using assms(2) by (rule extractFiles_mem)
  have ne: "base \<noteq> []" using assms(1) by (simp add: clean_root_def)
  obtain us u where u: "segments (fl_RelativePath r) = us @ [u]" by (metis rev_exhaust segments_nonempty)
  then have plain: "list_all plain_segment (us @ [u])" using assms(3) by (simp add: plain_relative_def)
  have path: "fl_Path r = below base (us @ [u])"
    using extract_file_SomeD [OF f] qualify_below [OF ne, of "fl_RelativePath r"] u by simp
  have "fl_DirPath r = below base us" using extract_file_SomeD(3) [OF f] Dir_below [OF assms(1) plain] path by simp
  moreover have "prefix (below base us @ ''/'') (fl_Path r)" by (simp add: path below_snoc prefix_def)
  ultimately show ?thesis using plain by (auto simp: rooted_file_def)
qed

lemma materialization_chain:
  defines "m digest s g facts \<equiv> buildCanonicalMaterialization digest s g facts"
  assumes "clean_root (mat_RepoPath (m digest s g facts))"
    and "\<forall>f \<in> set (mat_Files (m digest s g facts)). plain_relative (fl_RelativePath f)"
  shows "chain_complete (mat_RepoPath (m digest s g facts)) (mat_Files (m digest s g facts)) (mat_Directories (m digest s g facts))"
proof (cases "facts = []")
  case False
  obtain repoID where files: "mat_Files (m digest s g facts) = extractFiles facts repoID (mat_RepoPath (m digest s g facts))"
    and dirs: "mat_Directories (m digest s g facts) =
      buildDirectoryChain (mat_Files (m digest s g facts)) (mat_RepoPath (m digest s g facts)) repoID"
    using False by (simp add: m_def buildCanonicalMaterialization_def Let_def)
  show ?thesis
    unfolding dirs using assms(2,3) files by (intro buildDirectoryChain_complete) (auto intro: extractFiles_rooted)
qed (simp add: m_def buildCanonicalMaterialization_def chain_complete_def)

subsection \<open>Modules and imports\<close>

lemma modules_distinct_step:
  "distinct (map mo_Name (mat_Modules m)) \<Longrightarrow> distinct (map mo_Name (mat_Modules (extract_relationship f m)))"
  by (simp add: extract_relationship_def extract_import_def Let_def image_iff)

lemma modules_distinct:
  "distinct (map mo_Name (mat_Modules (buildCanonicalMaterialization digest s g facts)))"
proof -
  have "distinct (map mo_Name (mat_Modules (extractRelationships fs m)))" if "distinct (map mo_Name (mat_Modules m))" for fs m
    using that unfolding extractRelationships_def
    by (induction fs arbitrary: m) (simp, simp only: fold.simps o_apply modules_distinct_step)
  then show ?thesis
    by (simp add: buildCanonicalMaterialization_def Let_def extractModulesFromEntities_def distinct_map_first_of_each del: distinct_map)
qed

subsection \<open>The directories\<close>

text \<open>C34:
  The chain of directories of a projection. When the path of the repository is clean and the relative paths
  of its files are plain, every directory has one row, the directory of every file has one, or is the root,
  the parent of a row is the root or a row that stands before it, which is the order they are written in,
  and every row holds a file somewhere below it.
\<close>

theorem directories_complete:
  assumes "m = buildCanonicalMaterialization digest s g facts"
    and "clean_root (mat_RepoPath m)" and "\<forall>f \<in> set (mat_Files m). plain_relative (fl_RelativePath f)"
  shows "distinct (map dir_Path (mat_Directories m))
    \<and> (\<forall>f \<in> set (mat_Files m). fl_DirPath f = mat_RepoPath m \<or> fl_DirPath f \<in> dir_Path ` set (mat_Directories m))
    \<and> (\<forall>i < length (mat_Directories m). dir_ParentPath (mat_Directories m ! i) = mat_RepoPath m
         \<or> (\<exists>j < i. dir_Path (mat_Directories m ! j) = dir_ParentPath (mat_Directories m ! i)))
    \<and> (\<forall>d \<in> set (mat_Directories m). \<exists>f \<in> set (mat_Files m). prefix (dir_Path d @ ''/'') (fl_Path f))"
  using materialization_chain [of digest s g facts] assms(2,3) unfolding assms(1) chain_complete_def by blast

end
