(* ===== verification/SemanticIntents.thy ===== *)
theory SemanticIntents
  imports CanonicalGraph ReducerQueue
begin

text \<open>
  \<open>go/internal/projector/semantic_entity_intents.go\<close>: which content entities ask for a follow-up of the semantic
  entity reducer. The lemmas say which entities do, and that all those of one repository ask for one key.
\<close>

definition semanticEntityReducerTypes :: "string list" where
  "semanticEntityReducerTypes =
     [''Annotation'', ''Typedef'', ''TypeAlias'', ''Component'', ''Module'', ''ImplBlock'', ''Protocol'', ''ProtocolImplementation'']"

definition isTypeScriptModuleSemanticEntity :: "payload \<Rightarrow> string \<Rightarrow> bool" where
  "isTypeScriptModuleSemanticEntity p entityType \<longleftrightarrow>
     entityType = ''Module'' \<and> payloadMetadataString p ''language'' = ''typescript'' \<and>
     (payloadMetadataString p ''module_kind'' = ''namespace'' \<or>
      payloadMetadataString p ''declaration_merge_group'' \<noteq> [] \<or>
      payloadMetadataStringSlice p ''declaration_merge_kinds'' \<noteq> [])"

definition isJavaScriptCallableSemanticEntity :: "payload \<Rightarrow> string \<Rightarrow> bool" where
  "isJavaScriptCallableSemanticEntity p entityType \<longleftrightarrow>
     entityType = ''Function'' \<and> payloadMetadataString p ''language'' = ''javascript'' \<and>
     (payloadMetadataString p ''docstring'' \<noteq> [] \<or> payloadMetadataString p ''method_kind'' \<noteq> [])"

definition hasCallableSemanticMetadata :: "payload \<Rightarrow> bool" where
  "hasCallableSemanticMetadata p \<longleftrightarrow>
     list_ex (\<lambda>key. payloadMetadataString p key \<noteq> [])
       [''docstring'', ''class_context'', ''method_kind'', ''constructor_kind'', ''annotation_kind'', ''context'', ''impl_context''] \<or>
     payloadMetadataStringSlice p ''decorators'' \<noteq> [] \<or>
     payloadMetadataStringSlice p ''type_parameters'' \<noteq> [] \<or>
     payloadMetadataBool p ''async'' \<or>
     payloadMetadataBool p ''jsx_fragment_shorthand''"

definition isGoCallableSemanticEntity :: "payload \<Rightarrow> string \<Rightarrow> bool" where
  "isGoCallableSemanticEntity p entityType \<longleftrightarrow>
     entityType = ''Function'' \<and> payloadMetadataString p ''language'' = ''go'' \<and> hasCallableSemanticMetadata p"

definition isPythonCallableSemanticEntity :: "payload \<Rightarrow> string \<Rightarrow> bool" where
  "isPythonCallableSemanticEntity p entityType \<longleftrightarrow>
     entityType = ''Function'' \<and> payloadMetadataString p ''language'' = ''python'' \<and>
     (payloadMetadataString p ''semantic_kind'' = ''lambda'' \<or> payloadMetadataBool p ''async'' \<or>
      payloadMetadataStringSlice p ''decorators'' \<noteq> [])"

definition isElixirCallableSemanticEntity :: "payload \<Rightarrow> string \<Rightarrow> bool" where
  "isElixirCallableSemanticEntity p entityType \<longleftrightarrow>
     entityType = ''Function'' \<and> payloadMetadataString p ''language'' = ''elixir'' \<and>
     payloadMetadataString p ''semantic_kind'' = ''guard''"

definition isElixirModuleAttributeSemanticEntity :: "payload \<Rightarrow> string \<Rightarrow> bool" where
  "isElixirModuleAttributeSemanticEntity p entityType \<longleftrightarrow>
     entityType = ''Variable'' \<and> payloadMetadataString p ''language'' = ''elixir'' \<and>
     payloadMetadataString p ''attribute_kind'' = ''module_attribute''"

definition isTypeScriptJSXFragmentSemanticEntity :: "payload \<Rightarrow> string \<Rightarrow> bool" where
  "isTypeScriptJSXFragmentSemanticEntity p entityType \<longleftrightarrow>
     entityType = ''Function'' \<and> payloadMetadataString p ''language'' = ''tsx'' \<and>
     payloadMetadataBool p ''jsx_fragment_shorthand''"

definition isTypeScriptJSXComponentTypeAssertionSemanticEntity :: "payload \<Rightarrow> string \<Rightarrow> bool" where
  "isTypeScriptJSXComponentTypeAssertionSemanticEntity p entityType \<longleftrightarrow>
     entityType = ''Variable'' \<and> payloadMetadataString p ''language'' = ''tsx'' \<and>
     payloadMetadataString p ''component_type_assertion'' \<noteq> []"

definition semantic_entity :: "payload \<Rightarrow> string \<Rightarrow> bool" where
  "semantic_entity p entityType \<longleftrightarrow>
     entityType \<in> set semanticEntityReducerTypes \<or>
     isJavaScriptCallableSemanticEntity p entityType \<or>
     isGoCallableSemanticEntity p entityType \<or>
     isPythonCallableSemanticEntity p entityType \<or>
     isElixirCallableSemanticEntity p entityType \<or>
     isTypeScriptJSXComponentTypeAssertionSemanticEntity p entityType \<or>
     isTypeScriptJSXFragmentSemanticEntity p entityType \<or>
     isTypeScriptModuleSemanticEntity p entityType \<or>
     isElixirModuleAttributeSemanticEntity p entityType"

definition semanticEntityAcceptanceUnitKey :: "string \<Rightarrow> string" where
  "semanticEntityAcceptanceUnitKey repoID =
     (let r = trim_space repoID in if r = [] then [] else ''repo:'' @ r)"

definition buildSemanticEntityReducerIntent :: "Envelope \<Rightarrow> EmittedIntent option" where
  "buildSemanticEntityReducerIntent f =
     (if ev_FactKind f \<noteq> ''content_entity'' then None
      else (case payloadString (fact_payload f) ''entity_type'' of
          None \<Rightarrow> None
        | Some entityType \<Rightarrow>
            if \<not> semantic_entity (fact_payload f) entityType then None
            else (let repoID = trim_space (text_of (fact_payload f) ''repo_id'')
                  in if repoID = [] then None
                     else Some \<lparr>ri_ScopeID = ev_ScopeID f, ri_GenerationID = ev_GenerationID f,
                       ri_Domain = DomainSemanticEntityMaterialization,
                       ri_EntityKey = semanticEntityAcceptanceUnitKey repoID,
                       ri_Reason = ''semantic entity follow-up for '' @ entityType,
                       ri_FactID = ev_FactID f, ri_SourceSystem = ref_SourceSystem (ev_SourceRef f)\<rparr>)))"

section \<open>Which entities ask, and for what\<close>

lemma typescript_module_redundant: "isTypeScriptModuleSemanticEntity p t \<Longrightarrow> t \<in> set semanticEntityReducerTypes"
  by (simp add: isTypeScriptModuleSemanticEntity_def semanticEntityReducerTypes_def)

lemma semantic_entity_type:
  "semantic_entity p t \<Longrightarrow> t \<in> set semanticEntityReducerTypes \<or> t = ''Function'' \<or> t = ''Variable''"
  using typescript_module_redundant
  by (auto simp: semantic_entity_def isJavaScriptCallableSemanticEntity_def isGoCallableSemanticEntity_def
      isPythonCallableSemanticEntity_def isElixirCallableSemanticEntity_def isElixirModuleAttributeSemanticEntity_def
      isTypeScriptJSXFragmentSemanticEntity_def isTypeScriptJSXComponentTypeAssertionSemanticEntity_def)

lemma buildSemanticEntityReducerIntent_SomeD:
  assumes "buildSemanticEntityReducerIntent f = Some i"
  obtains repoID where "payloadString (fact_payload f) ''repo_id'' = Some repoID" and "ri_EntityKey i = ''repo:'' @ repoID"
    and "ri_Domain i = DomainSemanticEntityMaterialization" and "ri_ScopeID i = ev_ScopeID f"
    and "ri_GenerationID i = ev_GenerationID f" and "ri_FactID i = ev_FactID f"
proof -
  obtain t where "payloadString (fact_payload f) ''entity_type'' = Some t"
    using assms by (auto simp: buildSemanticEntityReducerIntent_def split: if_splits option.splits)
  with assms have i: "trim_space (text_of (fact_payload f) ''repo_id'') \<noteq> []"
      "ri_EntityKey i = semanticEntityAcceptanceUnitKey (trim_space (text_of (fact_payload f) ''repo_id''))"
      "ri_Domain i = DomainSemanticEntityMaterialization" "ri_ScopeID i = ev_ScopeID f"
      "ri_GenerationID i = ev_GenerationID f" "ri_FactID i = ev_FactID f"
    by (auto simp: buildSemanticEntityReducerIntent_def Let_def split: if_splits)
  obtain repoID where r: "payloadString (fact_payload f) ''repo_id'' = Some repoID"
    using i(1) by (cases "payloadString (fact_payload f) ''repo_id''") auto
  with i(1,2) have key: "ri_EntityKey i = ''repo:'' @ repoID"
    by (simp add: semanticEntityAcceptanceUnitKey_def Let_def payloadString_trimmed)
  show ?thesis by (rule that [OF r key i(3-6)])
qed

end
