(* ===== verification/Projection.thy ===== *)
theory Projection
  imports SemanticIntents
begin

text \<open>
  \<open>go/internal/projector/runtime.go\<close> (the pure part) and the \<open>stage_*.go\<close> files: the content rows, the canonical
  graph and the reducer intents that the facts of one generation ask for. \<open>digest\<close> is the digest of
  \<open>content.CanonicalEntityID\<close>.
\<close>

definition scopeRepoID :: "IngestionScope \<Rightarrow> string" where
  "scopeRepoID s = trim_space (scope_metadata s ''repo_id'')"

definition validateFactBoundary :: "IngestionScope \<Rightarrow> ScopeGeneration \<Rightarrow> Envelope \<Rightarrow> error option" where
  "validateFactBoundary s g f = first_err
     [check (ev_ScopeID f \<noteq> sc_ScopeID s) (Fmt ''fact scope_id does not match scope'' [ev_FactID f, ev_ScopeID f, sc_ScopeID s]),
      check (ev_GenerationID f \<noteq> gen_GenerationID g)
        (Fmt ''fact generation_id does not match generation'' [ev_FactID f, ev_GenerationID f, gen_GenerationID g])]"

definition buildContentRecord :: "Envelope \<Rightarrow> ContentRecord option" where
  "buildContentRecord f =
     (let p = fact_payload f
      in case payloadString p ''content_path'' of
           None \<Rightarrow> None
         | Some path \<Rightarrow>
             if \<not> payloadHasKey p ''content_body'' \<and> \<not> payloadHasKey p ''content_digest'' then None
             else Some \<lparr>co_Path = path, co_Body = text_of p ''content_body'', co_Digest = text_of p ''content_digest'',
               co_Deleted = ev_IsTombstone f,
               co_Metadata = payloadAttributes p [''content_path'', ''content_body'', ''content_digest'']\<rparr>)"

text \<open>\<open>if !ok { value, ok = ... }\<close>, over the keys in turn.\<close>

fun first_text :: "payload \<Rightarrow> string list \<Rightarrow> string option" where
  "first_text p [] = None"
| "first_text p (key # keys) = (case payloadString p key of Some t \<Rightarrow> Some t | None \<Rightarrow> first_text p keys)"

definition entity_start_line :: "payload \<Rightarrow> int" where
  "entity_start_line p =
     (case (case payloadInt p ''start_line'' of Some n \<Rightarrow> Some n | None \<Rightarrow> payloadInt p ''line_number'') of
        None \<Rightarrow> 1
      | Some n \<Rightarrow> if n \<le> 0 then 1 else n)"

definition entity_end_line :: "payload \<Rightarrow> int" where
  "entity_end_line p =
     (case payloadInt p ''end_line'' of
        None \<Rightarrow> entity_start_line p
      | Some n \<Rightarrow> if n < entity_start_line p then entity_start_line p else n)"

definition entity_type_of :: "Envelope \<Rightarrow> string" where
  "entity_type_of f =
     (case first_text (fact_payload f) [''entity_kind'', ''entity_type'', ''sql_entity_type''] of
        Some t \<Rightarrow> t | None \<Rightarrow> ev_FactKind f)"

definition buildContentEntityRecord :: "(string \<Rightarrow> nat list) \<Rightarrow> string \<Rightarrow> Envelope \<Rightarrow> ContentEntity option" where
  "buildContentEntityRecord digest repoID f =
     (let p = fact_payload f
      in case (first_text p [''content_path'', ''relative_path'', ''path''], first_text p [''entity_name'', ''name'']) of
           (Some relativePath, Some entityName) \<Rightarrow>
             if blank (entity_type_of f) then None
             else Some \<lparr>ent_EntityID = (case payloadString p ''entity_id'' of
                   Some i \<Rightarrow> i
                 | None \<Rightarrow> CanonicalEntityID digest repoID relativePath (entity_type_of f) entityName (entity_start_line p)),
               ent_Path = relativePath, ent_EntityType = entity_type_of f, ent_EntityName = entityName,
               ent_StartLine = entity_start_line p, ent_EndLine = entity_end_line p,
               ent_StartByte = payloadIntPtr p ''start_byte'', ent_EndByte = payloadIntPtr p ''end_byte'',
               ent_Language = or_empty (first_text p [''language'', ''lang'']), ent_ArtifactType = text_of p ''artifact_type'',
               ent_TemplateDialect = text_of p ''template_dialect'', ent_IACRelevant = payloadBoolPtr p ''iac_relevant'',
               ent_SourceCache = text_of p ''source_cache'', ent_Metadata = entityMetadataFromPayload p,
               ent_Deleted = ev_IsTombstone f\<rparr>
         | _ \<Rightarrow> None)"

definition buildReducerIntent :: "Envelope \<Rightarrow> EmittedIntent option" where
  "buildReducerIntent f =
     (let p = fact_payload f
      in case first_text p [''reducer_domain'', ''shared_domain''] of
           None \<Rightarrow> None
         | Some raw \<Rightarrow>
             (case ParseDomain raw of
                Inl e \<Rightarrow> None
              | Inr domain \<Rightarrow> Some \<lparr>ri_ScopeID = ev_ScopeID f, ri_GenerationID = ev_GenerationID f, ri_Domain = domain,
                  ri_EntityKey = text_of p ''entity_key'', ri_Reason = text_of p ''reason'', ri_FactID = ev_FactID f,
                  ri_SourceSystem = ref_SourceSystem (ev_SourceRef f)\<rparr>))"

definition compare_intents :: "EmittedIntent \<Rightarrow> EmittedIntent \<Rightarrow> int" where
  "compare_intents a b =
     or_else (compare (ri_Domain a) (ri_Domain b))
       (or_else (compare (ri_EntityKey a) (ri_EntityKey b)) (compare (ri_FactID a) (ri_FactID b)))"

record projection =
  prj_canonical :: CanonicalMaterialization
  prj_contentMaterialization :: ContentMaterialization
  prj_reducerIntents :: "EmittedIntent list"

definition option_list :: "'a option \<Rightarrow> 'a list" where
  "option_list v = (case v of Some x \<Rightarrow> [x] | None \<Rightarrow> [])"

text \<open>The intents of one fact, in the order they are appended.\<close>

definition fact_intents :: "Envelope \<Rightarrow> EmittedIntent list" where
  "fact_intents f = option_list (buildSemanticEntityReducerIntent f) @ option_list (buildReducerIntent f)"

fun project_facts ::
  "(string \<Rightarrow> nat list) \<Rightarrow> IngestionScope \<Rightarrow> ScopeGeneration \<Rightarrow> Envelope list
   \<Rightarrow> ContentMaterialization \<times> EmittedIntent list \<Rightarrow> (ContentMaterialization \<times> EmittedIntent list) result" where
  "project_facts digest s g [] st = Inr st"
| "project_facts digest s g (input # inputs) (m, intents) =
     (let f = Envelope_Clone input
      in checked (validateFactBoundary s g f)
        (project_facts digest s g inputs
          (m\<lparr>ctm_Records := ctm_Records m @ option_list (buildContentRecord f),
             ctm_Entities := ctm_Entities m @ option_list (buildContentEntityRecord digest (ctm_RepoID m) f)\<rparr>,
           intents @ fact_intents f)))"

definition buildProjection ::
  "(string \<Rightarrow> nat list) \<Rightarrow> IngestionScope \<Rightarrow> ScopeGeneration \<Rightarrow> Envelope list \<Rightarrow> projection result" where
  "buildProjection digest s g facts =
     (case project_facts digest s g facts
        (\<lparr>ctm_RepoID = scopeRepoID s, ctm_ScopeID = sc_ScopeID s, ctm_GenerationID = gen_GenerationID g,
          ctm_SourceSystem = sc_SourceSystem s, ctm_Records = [], ctm_Entities = []\<rparr>, []) of
        Inl e \<Rightarrow> Inl e
      | Inr (m, intents) \<Rightarrow> Inr \<lparr>prj_canonical = buildCanonicalMaterialization digest s g facts,
          prj_contentMaterialization = m, prj_reducerIntents = sort_by compare_intents intents\<rparr>)"

section \<open>Stages\<close>

record FileStageResult =
  fsr_ContentRecords :: "ContentRecord list"
  fsr_Entities :: "ContentEntity list"

record WorkloadStageResult =
  wsr_Intents :: "EmittedIntent list"
  wsr_RepositoryIDs :: "string list"
  wsr_SourceRunPairs :: "(string \<times> string) list"

definition ProjectEntityStage :: "(string \<Rightarrow> nat list) \<Rightarrow> string \<Rightarrow> Envelope list \<Rightarrow> ContentEntity list" where
  "ProjectEntityStage digest repoID envelopes =
     List.map_filter (buildContentEntityRecord digest repoID) (FilterEntityFacts envelopes)"

definition ProjectFileStage :: "(string \<Rightarrow> nat list) \<Rightarrow> string \<Rightarrow> Envelope list \<Rightarrow> FileStageResult" where
  "ProjectFileStage digest repoID envelopes =
     \<lparr>fsr_ContentRecords = List.map_filter buildContentRecord (FilterFileFacts envelopes),
      fsr_Entities = List.map_filter (buildContentEntityRecord digest repoID) (FilterFileFacts envelopes)\<rparr>"

definition ProjectRelationshipStage :: "Envelope list \<Rightarrow> EmittedIntent list" where
  "ProjectRelationshipStage envelopes = List.map_filter buildReducerIntent (first_of_each ev_FactID [] envelopes)"

text \<open>The repositories with an identifier, once each; a pair for those that name a source run.\<close>

definition ProjectWorkloadStage :: "Envelope list \<Rightarrow> WorkloadStageResult" where
  "ProjectWorkloadStage envelopes =
     (let repos = first_of_each (\<lambda>f. text_of (fact_payload f) ''repo_id'') []
            (filter (\<lambda>f. text_of (fact_payload f) ''repo_id'' \<noteq> []) (FilterRepositoryFacts envelopes))
      in \<lparr>wsr_Intents = List.map_filter buildReducerIntent (first_of_each ev_FactID [] envelopes),
          wsr_RepositoryIDs = map (\<lambda>f. text_of (fact_payload f) ''repo_id'') repos,
          wsr_SourceRunPairs = map (\<lambda>f. (text_of (fact_payload f) ''repo_id'', text_of (fact_payload f) ''source_run_id''))
            (filter (\<lambda>f. text_of (fact_payload f) ''source_run_id'' \<noteq> []) repos)\<rparr>)"

section \<open>What a projection holds\<close>

interpretation intents: comparator compare_intents
  unfolding compare_intents_def by (intro comparator_lex comparator_key)

lemma option_list_simps [simp]: "option_list None = []" "option_list (Some x) = [x]"
  by (simp_all add: option_list_def)

lemma validateFactBoundary_None [simp]:
  "validateFactBoundary s g f = None \<longleftrightarrow> ev_ScopeID f = sc_ScopeID s \<and> ev_GenerationID f = gen_GenerationID g"
  by (auto simp: validateFactBoundary_def)

definition in_boundary :: "IngestionScope \<Rightarrow> ScopeGeneration \<Rightarrow> Envelope list \<Rightarrow> bool" where
  "in_boundary s g fs \<longleftrightarrow> list_all (\<lambda>f. ev_ScopeID f = sc_ScopeID s \<and> ev_GenerationID f = gen_GenerationID g) fs"

lemma project_facts_within:
  "in_boundary s g fs \<Longrightarrow> project_facts digest s g fs (m, i) =
     Inr (m\<lparr>ctm_Records := ctm_Records m @ List.map_filter buildContentRecord fs,
            ctm_Entities := ctm_Entities m @ List.map_filter (buildContentEntityRecord digest (ctm_RepoID m)) fs\<rparr>,
          i @ concat (map fact_intents fs))"
proof (induction fs arbitrary: m i)
  case (Cons f fs)
  then show ?case
    by (cases "buildContentRecord f"; cases "buildContentEntityRecord digest (ctm_RepoID m) f")
      (simp_all add: in_boundary_def List.map_filter_def)
qed (simp add: List.map_filter_def)

lemma project_facts_outside:
  "\<not> in_boundary s g fs \<Longrightarrow> \<exists>e. project_facts digest s g fs (m, i) = Inl e"
proof (induction fs arbitrary: m i)
  case (Cons f fs)
  show ?case
  proof (cases "validateFactBoundary s g f")
    case None
    with Cons.prems have "\<not> in_boundary s g fs" by (auto simp: in_boundary_def)
    with None Cons.IH show ?thesis by (simp del: validateFactBoundary_None)
  qed simp
qed (simp add: in_boundary_def)

end
