(* ===== verification/ProjectorRuntime.thy ===== *)
theory ProjectorRuntime
  imports Projection PhaseStore
begin

text \<open>
  \<open>go/internal/projector/runtime.go\<close>, \<open>runtime_stages.go\<close> and \<open>retry.go\<close>: one projection of a generation, from
  its facts to the graph, the content store, the published phases and the reducer queue. What a writer
  does to the world \<open>'w\<close> is a parameter; a nil interface is \<open>None\<close>. \<open>now\<close> is what the clock shows, \<open>digest\<close> the
  digest of \<open>content.CanonicalEntityID\<close>. Tracing, metrics and logs are left out.
\<close>

section \<open>Phases\<close>

definition fact_phase :: "string \<Rightarrow> Envelope \<Rightarrow> PhaseState option" where
  "fact_phase generationID f =
     (let p = fact_payload f;
          repoID = (if text_of p ''repo_id'' = [] then text_of p ''graph_id'' else text_of p ''repo_id'');
          sourceRunID = text_of p ''source_run_id''
      in if ev_FactKind f \<noteq> ''repository'' then None
         else if blank (ev_ScopeID f) \<or> repoID = [] \<or> sourceRunID = [] \<or> blank generationID then None
         else Some \<lparr>ps_Key = \<lparr>pk_ScopeID = ev_ScopeID f, pk_AcceptanceUnitID = repoID, pk_SourceRunID = sourceRunID,
                pk_GenerationID = generationID, pk_Keyspace = KeyspaceCodeEntitiesUID\<rparr>,
              ps_Phase = PhaseCanonicalNodesCommitted, ps_CommittedAt = ev_ObservedAt f, ps_UpdatedAt = ev_ObservedAt f\<rparr>)"

definition phase_composite :: "PhaseState \<Rightarrow> string" where
  "phase_composite s = join_bar
     [pk_ScopeID (ps_Key s), pk_AcceptanceUnitID (ps_Key s), pk_SourceRunID (ps_Key s), pk_GenerationID (ps_Key s)]"

definition canonicalGraphPhaseStates :: "string \<Rightarrow> Envelope list \<Rightarrow> PhaseState list" where
  "canonicalGraphPhaseStates generationID facts =
     first_of_each phase_composite [] (List.map_filter (fact_phase generationID) facts)"

section \<open>The runtime\<close>

record 'w ProjectorRuntime =
  prt_CanonicalWriter :: "(CanonicalMaterialization \<Rightarrow> 'w \<Rightarrow> error option \<times> 'w) option"
  prt_ContentWriter :: "(ContentMaterialization \<Rightarrow> 'w \<Rightarrow> ContentResult result \<times> 'w) option"
  prt_IntentWriter :: "(EmittedIntent list \<Rightarrow> 'w \<Rightarrow> nat result \<times> 'w) option"
  prt_PhasePublisher :: "'w Publisher option"
  prt_RepairQueue :: "(PhaseRepair list \<Rightarrow> 'w \<Rightarrow> error option \<times> 'w) option"
  prt_RetryInjector :: "(IngestionScope \<Rightarrow> ScopeGeneration \<Rightarrow> 'w \<Rightarrow> error option \<times> 'w) option"
  prt_ContentBeforeCanonical :: bool

record ProjectionResult =
  prr_ScopeID :: string
  prr_GenerationID :: string
  prr_Content :: ContentResult
  prr_Intents :: nat

definition writeContentProjection :: "'w ProjectorRuntime \<Rightarrow> ContentMaterialization \<Rightarrow> 'w \<Rightarrow> ContentResult result \<times> 'w" where
  "writeContentProjection r m w =
     (if ctm_Records m = [] \<and> ctm_Entities m = [] then (Inr no_ContentResult, w)
      else (case prt_ContentWriter r of
          None \<Rightarrow> (Inl (Msg ''content writer is required when content rows are present''), w)
        | Some write \<Rightarrow>
            (case write m w of
               (Inl e, w') \<Rightarrow> (Inl (Wrap ''write content materialization'' e), w')
             | (Inr c, w') \<Rightarrow> (Inr c, w'))))"

text \<open>The error of a failed publication comes first, whatever becomes of its repairs.\<close>

definition publishCanonicalGraphPhases ::
  "'w ProjectorRuntime \<Rightarrow> time \<Rightarrow> string \<Rightarrow> Envelope list \<Rightarrow> 'w \<Rightarrow> error option \<times> 'w" where
  "publishCanonicalGraphPhases r now generationID facts w =
     (case prt_PhasePublisher r of
        None \<Rightarrow> (None, w)
      | Some publish \<Rightarrow>
          (let rows = canonicalGraphPhaseStates generationID facts
           in if rows = [] then (None, w)
              else (case publish w rows of
                  (None, w') \<Rightarrow> (None, w')
                | (Some e, w') \<Rightarrow>
                    (case prt_RepairQueue r of
                       None \<Rightarrow> (Some e, w')
                     | Some enqueue \<Rightarrow>
                         (case enqueue (repairs_from_states now rows e now) w' of
                            (None, w'') \<Rightarrow> (Some e, w'')
                          | (Some _, w'') \<Rightarrow> (Some (Wrap ''publish canonical graph phases'' e), w''))))))"

definition writeCanonicalProjection ::
  "'w ProjectorRuntime \<Rightarrow> time \<Rightarrow> string \<Rightarrow> Envelope list \<Rightarrow> CanonicalMaterialization \<Rightarrow> 'w \<Rightarrow> error option \<times> 'w" where
  "writeCanonicalProjection r now generationID facts m w =
     (if IsEmpty m then (None, w)
      else (case prt_CanonicalWriter r of
          None \<Rightarrow> (Some (Msg ''canonical writer is required when canonical data is present''), w)
        | Some write \<Rightarrow>
            (case write m w of
               (Some e, w') \<Rightarrow> (Some (Wrap ''write canonical projection'' e), w')
             | (None, w') \<Rightarrow>
                 (case publishCanonicalGraphPhases r now generationID facts w' of
                    (Some e, w'') \<Rightarrow> (Some (Wrap ''publish canonical graph phases'' e), w'')
                  | (None, w'') \<Rightarrow> (None, w'')))))"

definition enqueueIntents :: "'w ProjectorRuntime \<Rightarrow> EmittedIntent list \<Rightarrow> 'w \<Rightarrow> nat result \<times> 'w" where
  "enqueueIntents r intents w =
     (if intents = [] then (Inr 0, w)
      else (case prt_IntentWriter r of
          None \<Rightarrow> (Inl (Msg ''reducer intent writer is required when reducer intents are present''), w)
        | Some enqueue \<Rightarrow>
            (case enqueue intents w of
               (Inl e, w') \<Rightarrow> (Inl (Wrap ''enqueue reducer intents'' e), w')
             | (Inr n, w') \<Rightarrow> (Inr n, w'))))"

definition maybe_fail :: "'w ProjectorRuntime \<Rightarrow> IngestionScope \<Rightarrow> ScopeGeneration \<Rightarrow> 'w \<Rightarrow> error option \<times> 'w" where
  "maybe_fail r s g w = (case prt_RetryInjector r of None \<Rightarrow> (None, w) | Some inject \<Rightarrow> inject s g w)"

text \<open>The content rows, written before or after the graph.\<close>

definition write_stores ::
  "'w ProjectorRuntime \<Rightarrow> time \<Rightarrow> string \<Rightarrow> Envelope list \<Rightarrow> projection \<Rightarrow> 'w \<Rightarrow> ContentResult result \<times> 'w" where
  "write_stores r now generationID facts p w =
     (if prt_ContentBeforeCanonical r
      then (case writeContentProjection r (prj_contentMaterialization p) w of
          (Inl e, w1) \<Rightarrow> (Inl e, w1)
        | (Inr c, w1) \<Rightarrow>
            (case writeCanonicalProjection r now generationID facts (prj_canonical p) w1 of
               (Some e, w2) \<Rightarrow> (Inl e, w2)
             | (None, w2) \<Rightarrow> (Inr c, w2)))
      else (case writeCanonicalProjection r now generationID facts (prj_canonical p) w of
          (Some e, w1) \<Rightarrow> (Inl e, w1)
        | (None, w1) \<Rightarrow> writeContentProjection r (prj_contentMaterialization p) w1))"

definition Project ::
  "(string \<Rightarrow> nat list) \<Rightarrow> 'w ProjectorRuntime \<Rightarrow> time \<Rightarrow> IngestionScope \<Rightarrow> ScopeGeneration \<Rightarrow> Envelope list
   \<Rightarrow> 'w \<Rightarrow> ProjectionResult result \<times> 'w" where
  "Project digest r now s g facts w =
     (case ValidateForScope g s of
        Some e \<Rightarrow> (Inl e, w)
      | None \<Rightarrow>
          (case buildProjection digest s g facts of
             Inl e \<Rightarrow> (Inl e, w)
           | Inr p \<Rightarrow>
               (case maybe_fail r s g w of
                  (Some e, w1) \<Rightarrow> (Inl e, w1)
                | (None, w1) \<Rightarrow>
                    (case write_stores r now (gen_GenerationID g) facts p w1 of
                       (Inl e, w2) \<Rightarrow> (Inl e, w2)
                     | (Inr c, w2) \<Rightarrow>
                         (case enqueueIntents r (prj_reducerIntents p) w2 of
                            (Inl e, w3) \<Rightarrow> (Inl e, w3)
                          | (Inr n, w3) \<Rightarrow> (Inr \<lparr>prr_ScopeID = sc_ScopeID s, prr_GenerationID = gen_GenerationID g,
                              prr_Content = c, prr_Intents = n\<rparr>, w3))))))"

section \<open>Retries\<close>

text \<open>What an error says of itself is \<open>own\<close>; \<open>errors.As\<close> looks through the wrapping of \<open>fmt.Errorf\<close>.\<close>

definition injectedRetryableError :: "string \<Rightarrow> error" where
  "injectedRetryableError key = Fmt ''injected retryable projector failure for'' [key]"

fun IsRetryable :: "(error \<Rightarrow> bool) \<Rightarrow> error \<Rightarrow> bool" where
  "IsRetryable own (Wrap context e) = IsRetryable own e"
| "IsRetryable own (Fmt format args) = (format = ''injected retryable projector failure for'' \<or> own (Fmt format args))"
| "IsRetryable own e = own e"

definition projector_scopeGenerationKey :: "string \<Rightarrow> string \<Rightarrow> string" where
  "projector_scopeGenerationKey scopeID generationID = scopeID @ '':'' @ generationID"

fun retry_once_keys :: "string list \<Rightarrow> string list result" where
  "retry_once_keys [] = Inr []"
| "retry_once_keys (raw # raws) =
     (let key = trim_space raw
      in if key = [] then retry_once_keys raws
         else (let scopeID = takeWhile (\<lambda>c. c \<noteq> CHR '':'') key; rest = dropWhile (\<lambda>c. c \<noteq> CHR '':'') key
               in if rest = [] \<or> blank scopeID \<or> blank (tl rest) then Inl (Fmt ''invalid retry-once key'' [key])
                  else (case retry_once_keys raws of
                      Inl e \<Rightarrow> Inl e
                    | Inr keys \<Rightarrow> Inr (List.insert (projector_scopeGenerationKey (trim_space scopeID) (trim_space (tl rest))) keys))))"

text \<open>The keys that still fail; nil where there are none.\<close>

definition NewRetryOnceInjector :: "string \<Rightarrow> string list option result" where
  "NewRetryOnceInjector raw =
     (case retry_once_keys (split_on (CHR '','') (trim_space raw)) of
        Inl e \<Rightarrow> Inl e
      | Inr keys \<Rightarrow> Inr (if keys = [] then None else Some keys))"

definition RetryOnce_MaybeFail :: "IngestionScope \<Rightarrow> ScopeGeneration \<Rightarrow> string list option \<Rightarrow> error option \<times> string list option" where
  "RetryOnce_MaybeFail s g remaining =
     (case remaining of
        None \<Rightarrow> (None, None)
      | Some keys \<Rightarrow>
          (let key = projector_scopeGenerationKey (sc_ScopeID s) (gen_GenerationID g)
           in if key \<notin> set keys then (None, Some keys)
              else (Some (injectedRetryableError key), Some (removeAll key keys))))"

section \<open>The runtime of the projector\<close>

text \<open>
  What \<open>buildProjectorRuntime\<close> of \<open>cmd/projector\<close> wires: phases and repairs in their tables, intents in the
  reducer queue; the graph and the content store are the part \<open>'g\<close> of the world.
\<close>

record 'g ProjectorWorld =
  pwd_Stores :: 'g
  pwd_Phases :: PhaseDb
  pwd_Data :: DataDb

definition buildProjectorRuntime ::
  "(CanonicalMaterialization \<Rightarrow> 'g \<Rightarrow> error option \<times> 'g) \<Rightarrow> (ContentMaterialization \<Rightarrow> 'g \<Rightarrow> ContentResult result \<times> 'g)
   \<Rightarrow> (string \<Rightarrow> string option) \<Rightarrow> ReducerQueue \<Rightarrow> time
   \<Rightarrow> (IngestionScope \<Rightarrow> ScopeGeneration \<Rightarrow> 'g ProjectorWorld \<Rightarrow> error option \<times> 'g ProjectorWorld) option \<Rightarrow> 'g ProjectorWorld ProjectorRuntime" where
  "buildProjectorRuntime cw tw jsonb q clock injector =
     \<lparr>prt_CanonicalWriter = Some (\<lambda>m w. case cw m (pwd_Stores w) of (e, g) \<Rightarrow> (e, w\<lparr>pwd_Stores := g\<rparr>)),
      prt_ContentWriter = Some (\<lambda>m w. case tw m (pwd_Stores w) of (c, g) \<Rightarrow> (c, w\<lparr>pwd_Stores := g\<rparr>)),
      prt_IntentWriter = Some (\<lambda>intents w. case reducer_Enqueue jsonb q intents clock (pwd_Data w) of (n, db) \<Rightarrow> (n, w\<lparr>pwd_Data := db\<rparr>)),
      prt_PhasePublisher = Some (\<lambda>w rows. case StateStore_Publish clock (pwd_Phases w) rows of (e, db) \<Rightarrow> (e, w\<lparr>pwd_Phases := db\<rparr>)),
      prt_RepairQueue = Some (\<lambda>repairs w. case RepairQueue_Enqueue clock repairs (pwd_Phases w) of (e, db) \<Rightarrow> (e, w\<lparr>pwd_Phases := db\<rparr>)),
      prt_RetryInjector = injector, prt_ContentBeforeCanonical = False\<rparr>"

section \<open>Steps of a projection\<close>

lemma Project_okE:
  assumes "Project digest r now s g facts w = (Inr res, w')"
  obtains p w1 w2 where "buildProjection digest s g facts = Inr p" and "maybe_fail r s g w = (None, w1)"
    and "write_stores r now (gen_GenerationID g) facts p w1 = (Inr (prr_Content res), w2)"
    and "enqueueIntents r (prj_reducerIntents p) w2 = (Inr (prr_Intents res), w')"
    and "ValidateForScope g s = None" and "prr_ScopeID res = sc_ScopeID s" and "prr_GenerationID res = gen_GenerationID g"
  using assms by (auto simp: Project_def split: option.splits sum.splits prod.splits)

lemma write_stores_okE:
  assumes "write_stores r now generationID facts p w = (Inr c, w')" and "\<not> prt_ContentBeforeCanonical r"
  obtains w1 where "writeCanonicalProjection r now generationID facts (prj_canonical p) w = (None, w1)"
    and "writeContentProjection r (prj_contentMaterialization p) w1 = (Inr c, w')"
  using assms by (auto simp: write_stores_def split: option.splits sum.splits prod.splits)

lemma write_stores_firstE:
  assumes "write_stores r now generationID facts p w = (Inr c, w')" and "prt_ContentBeforeCanonical r"
  obtains w1 where "writeContentProjection r (prj_contentMaterialization p) w = (Inr c, w1)"
    and "writeCanonicalProjection r now generationID facts (prj_canonical p) w1 = (None, w')"
  using assms by (auto simp: write_stores_def split: option.splits sum.splits prod.splits)

lemma writeCanonical_okE:
  assumes "writeCanonicalProjection r now generationID facts m w = (None, w')"
  obtains "IsEmpty m" and "w' = w"
  | put w1 where "\<not> IsEmpty m" and "prt_CanonicalWriter r = Some put" and "put m w = (None, w1)"
      and "publishCanonicalGraphPhases r now generationID facts w1 = (None, w')"
  using assms by (auto simp: writeCanonicalProjection_def split: option.splits prod.splits if_splits)

lemma publish_okE:
  assumes "publishCanonicalGraphPhases r now generationID facts w = (None, w')" and "prt_PhasePublisher r = Some publish"
  obtains "canonicalGraphPhaseStates generationID facts = []" and "w' = w"
  | "publish w (canonicalGraphPhaseStates generationID facts) = (None, w')"
  using assms by (auto simp: publishCanonicalGraphPhases_def Let_def split: option.splits prod.splits if_splits)

text \<open>What a step of the runtime does not touch.\<close>

lemma writeContent_untouched:
  assumes "writeContentProjection (buildProjectorRuntime cw tw jsonb q clock injector) m w = (c, w')"
  shows "pwd_Phases w' = pwd_Phases w" "pwd_Data w' = pwd_Data w"
  using assms by (auto simp: writeContentProjection_def buildProjectorRuntime_def split: prod.splits sum.splits if_splits)

lemma writeCanonical_data:
  assumes "writeCanonicalProjection (buildProjectorRuntime cw tw jsonb q clock injector) now generationID facts m w = (e, w')"
  shows "pwd_Data w' = pwd_Data w"
  using assms
  by (auto simp: writeCanonicalProjection_def publishCanonicalGraphPhases_def buildProjectorRuntime_def Let_def
      split: prod.splits option.splits if_splits)

lemma enqueueIntents_phases:
  assumes "enqueueIntents (buildProjectorRuntime cw tw jsonb q clock injector) intents w = (n, w')"
  shows "pwd_Phases w' = pwd_Phases w" "pwd_Stores w' = pwd_Stores w"
  using assms by (auto simp: enqueueIntents_def buildProjectorRuntime_def split: prod.splits sum.splits if_splits)

text \<open>A failed or missing write of the graph leaves the phases and the queue as they were.\<close>

lemma writeCanonical_failed:
  assumes "writeCanonicalProjection (buildProjectorRuntime cw tw jsonb q clock injector) now generationID facts m w = (e, w')"
    and "fst (cw m (pwd_Stores w)) \<noteq> None"
  shows "pwd_Phases w' = pwd_Phases w"
  using assms by (auto simp: writeCanonicalProjection_def buildProjectorRuntime_def split: prod.splits option.splits if_splits)

section \<open>Enqueued intents\<close>

lemma insert_rows_present: "r \<in> set rows \<Longrightarrow> wr_WorkItemID r \<in> set (map wr_WorkItemID (fold (insert_row wr_WorkItemID) rows tab))"
proof (induction rows arbitrary: tab)
  case (Cons x rows)
  have keep: "k \<in> set (map wr_WorkItemID tab) \<Longrightarrow> k \<in> set (map wr_WorkItemID (fold (insert_row wr_WorkItemID) rows tab))" for k tab
    by (induction rows arbitrary: tab) (simp_all add: insert_row_def)
  show ?case
  proof (cases "r \<in> set rows")
    case False
    with Cons.prems have "r = x" by simp
    then have "wr_WorkItemID r \<in> set (map wr_WorkItemID (insert_row wr_WorkItemID x tab))" by (simp add: insert_row_def)
    then show ?thesis using keep by simp
  qed (use Cons.IH in simp)
qed simp

lemma reducer_rows_ids:
  "reducer_rows jsonb now intents = Some rows \<Longrightarrow> map wr_WorkItemID rows = map reducerWorkItemID intents"
  by (induction intents arbitrary: rows) (auto simp: reducer_row_def split: option.splits)

lemma insert_rows_keep:
  "k \<in> set (map wr_WorkItemID tab) \<Longrightarrow> k \<in> set (map wr_WorkItemID (fold (insert_row wr_WorkItemID) rows tab))"
  by (induction rows arbitrary: tab) (simp_all add: insert_row_def)

lemma enqueue_batch_items:
  assumes "enqueueReducerBatch jsonb now batch db = (e, db')"
  shows "k \<in> set (map wr_WorkItemID (dd_Items db)) \<Longrightarrow> k \<in> set (map wr_WorkItemID (dd_Items db'))"
    and "e = None \<Longrightarrow> i \<in> set batch \<Longrightarrow> reducerWorkItemID i \<in> set (map wr_WorkItemID (dd_Items db'))"
proof -
  have same: "fst (statement new old) = None \<and> snd (statement new old) = new \<or> fst (statement new old) \<noteq> None \<and> snd (statement new old) = old" for new old
    by (simp add: statement_def split: option.split)
  show "k \<in> set (map wr_WorkItemID (dd_Items db'))" if "k \<in> set (map wr_WorkItemID (dd_Items db))"
  proof (cases "reducer_rows jsonb now batch")
    case (Some rows)
    have "db' = db \<or> db' = db\<lparr>dd_Items := fold (insert_row wr_WorkItemID) rows (dd_Items db)\<rparr>"
      using assms Some same [of "db\<lparr>dd_Items := fold (insert_row wr_WorkItemID) rows (dd_Items db)\<rparr>" db]
      by (auto simp: enqueueReducerBatch_def split: if_splits prod.splits option.splits)
    then show ?thesis using insert_rows_keep [OF that, of rows] that by (auto simp del: set_map)
  qed (use assms that in \<open>auto simp: enqueueReducerBatch_def split: if_splits\<close>)
  assume "e = None" "i \<in> set batch"
  then obtain rows where rows: "reducer_rows jsonb now batch = Some rows"
    and db': "db' = db\<lparr>dd_Items := fold (insert_row wr_WorkItemID) rows (dd_Items db)\<rparr>"
    using assms same [of "db\<lparr>dd_Items := fold (insert_row wr_WorkItemID) (the (reducer_rows jsonb now batch)) (dd_Items db)\<rparr>" db]
    by (auto simp: enqueueReducerBatch_def split: if_splits prod.splits option.splits)
  have "reducerWorkItemID i \<in> set (map wr_WorkItemID rows)" using \<open>i \<in> set batch\<close> reducer_rows_ids [OF rows] by simp
  then obtain r where "r \<in> set rows" "wr_WorkItemID r = reducerWorkItemID i" by auto
  then show "reducerWorkItemID i \<in> set (map wr_WorkItemID (dd_Items db'))"
    using insert_rows_present [of r rows "dd_Items db"] by (simp add: db' del: set_map)
qed

lemma Enqueue_items:
  assumes "reducer_Enqueue jsonb q intents now db = (Inr n, db')" and "i \<in> set intents"
  shows "reducerWorkItemID i \<in> set (map wr_WorkItemID (dd_Items db'))" and "n = length intents"
proof -
  let ?Q = "\<lambda>i d. reducerWorkItemID i \<in> set (map wr_WorkItemID (dd_Items d))"
  have run: "exec_batches 500 (enqueueReducerBatch jsonb now) intents db = (None, db')" and n: "n = length intents"
    using assms by (auto simp: reducer_Enqueue_def reducerEnqueueBatchSize_def split: option.splits prod.splits if_splits)
  show "?Q i db'"
    by (rule exec_batches_achieves [where Q = ?Q and exec = "enqueueReducerBatch jsonb now" and n = 500])
      (use enqueue_batch_items run assms(2) in \<open>blast+ | simp\<close>)+
  show "n = length intents" by (rule n)
qed

section \<open>Published phases\<close>

lemma phases_need_repository:
  assumes "canonicalGraphPhaseStates generationID facts \<noteq> []"
  shows "\<not> IsEmpty (buildCanonicalMaterialization digest s g facts)"
proof -
  have "List.map_filter (fact_phase generationID) facts \<noteq> []"
    using assms by (auto simp: canonicalGraphPhaseStates_def)
  then obtain f where f: "f \<in> set facts" "fact_phase generationID f \<noteq> None"
    by (auto simp: List.map_filter_def filter_empty_conv)
  then have "NormalizeFactKind (ev_FactKind f) = FactKindRepositoryObserved"
    by (auto simp: fact_phase_def Let_def FactKindRepositoryObserved_def NormalizeFactKind_def suffix_def split: if_splits)
  with f(1) have "filter (\<lambda>e. NormalizeFactKind (ev_FactKind e) = FactKindRepositoryObserved) facts \<noteq> []"
    by (auto simp: filter_empty_conv)
  then have "FilterRepositoryFacts facts \<noteq> []"
    by (cases "filter (\<lambda>e. NormalizeFactKind (ev_FactKind e) = FactKindRepositoryObserved) facts")
      (simp_all add: FilterRepositoryFacts_def filterFactsByKind_def)
  then have "extractRepository facts \<noteq> None" by (auto simp: extractRepository_def Let_def split: list.split)
  moreover have "facts \<noteq> []" using f(1) by auto
  ultimately show ?thesis by (simp add: IsEmpty_def buildCanonicalMaterialization_def Let_def)
qed

abbreviation phases_ready :: "PhaseState list \<Rightarrow> PhaseDb \<Rightarrow> bool" where
  "phases_ready states db \<equiv>
     \<forall>st \<in> set states. StateStore_Lookup db (trim_key (ps_Key st)) (trim_space (ps_Phase st)) = (True, True)"

lemma writeCanonical_ready:
  assumes "writeCanonicalProjection (buildProjectorRuntime cw tw jsonb q clock injector) now generationID facts
      (buildCanonicalMaterialization digest s g facts) w = (None, w')"
  shows "phases_ready (canonicalGraphPhaseStates generationID facts) (pwd_Phases w')"
proof (cases "canonicalGraphPhaseStates generationID facts = []")
  case False
  from assms show ?thesis
  proof (cases rule: writeCanonical_okE)
    case 1
    with phases_need_repository [OF False] show ?thesis by blast
  next
    case (2 put w1)
    then have "(case StateStore_Publish clock (pwd_Phases w1) (canonicalGraphPhaseStates generationID facts) of
        (e, db) \<Rightarrow> (e, w1\<lparr>pwd_Phases := db\<rparr>)) = (None, w')"
      using False by (elim publish_okE) (simp_all add: buildProjectorRuntime_def)
    then have "StateStore_Upsert clock (canonicalGraphPhaseStates generationID facts) (pwd_Phases w1) = (None, pwd_Phases w')"
      by (auto simp: StateStore_Publish_def split: prod.splits)
    then show ?thesis using published_phase_found by blast
  qed
qed simp

text \<open>A write of the graph that is not attempted or fails leaves the phases alone.\<close>

lemma writeCanonical_phases:
  assumes "writeCanonicalProjection (buildProjectorRuntime cw tw jsonb q clock injector) now generationID facts m w = (e, w')"
    and "pwd_Phases w' \<noteq> pwd_Phases w"
  shows "\<not> IsEmpty m \<and> fst (cw m (pwd_Stores w)) = None"
proof
  show "fst (cw m (pwd_Stores w)) = None" using writeCanonical_failed [OF assms(1)] assms(2) by blast
  show "\<not> IsEmpty m" using assms by (auto simp: writeCanonicalProjection_def)
qed

lemma write_stores_phases:
  assumes "write_stores (buildProjectorRuntime cw tw jsonb q clock injector) now generationID facts p w = (c, w')"
  shows "pwd_Data w' = pwd_Data w"
    and "pwd_Phases w' \<noteq> pwd_Phases w \<Longrightarrow> \<not> IsEmpty (prj_canonical p) \<and> fst (cw (prj_canonical p) (pwd_Stores w)) = None"
proof -
  let ?r = "buildProjectorRuntime cw tw jsonb q clock injector"
  have first: "\<not> prt_ContentBeforeCanonical ?r" by (simp add: buildProjectorRuntime_def)
  obtain e w1 where w1: "writeCanonicalProjection ?r now generationID facts (prj_canonical p) w = (e, w1)" by (metis surj_pair)
  have rest: "pwd_Phases w' = pwd_Phases w1 \<and> pwd_Data w' = pwd_Data w1"
  proof (cases e)
    case None
    then have "writeContentProjection ?r (prj_contentMaterialization p) w1 = (c, w')"
      using assms first w1 by (simp add: write_stores_def)
    then show ?thesis using writeContent_untouched by blast
  qed (use assms first w1 in \<open>simp add: write_stores_def\<close>)
  show "pwd_Data w' = pwd_Data w" using rest writeCanonical_data [OF w1] by simp
  show "\<not> IsEmpty (prj_canonical p) \<and> fst (cw (prj_canonical p) (pwd_Stores w)) = None" if "pwd_Phases w' \<noteq> pwd_Phases w"
    using writeCanonical_phases [OF w1] that rest by simp
qed

lemma write_stores_ready:
  assumes "write_stores (buildProjectorRuntime cw tw jsonb q clock injector) now generationID facts p w = (Inr c, w')"
    and "prj_canonical p = buildCanonicalMaterialization digest s g facts"
  shows "phases_ready (canonicalGraphPhaseStates generationID facts) (pwd_Phases w')"
proof -
  have "\<not> prt_ContentBeforeCanonical (buildProjectorRuntime cw tw jsonb q clock injector)" by (simp add: buildProjectorRuntime_def)
  with assms(1) show ?thesis
  proof (rule write_stores_okE)
    fix w1
    assume "writeCanonicalProjection (buildProjectorRuntime cw tw jsonb q clock injector) now generationID facts (prj_canonical p) w = (None, w1)"
      and "writeContentProjection (buildProjectorRuntime cw tw jsonb q clock injector) (prj_contentMaterialization p) w1 = (Inr c, w')"
    then show ?thesis using writeCanonical_ready assms(2) writeContent_untouched(1) by metis
  qed
qed

lemma buildProjection_canonical:
  "buildProjection digest s g facts = Inr p \<Longrightarrow> prj_canonical p = buildCanonicalMaterialization digest s g facts"
  by (auto simp: buildProjection_def split: sum.splits)

lemma enqueueIntents_items:
  assumes "enqueueIntents (buildProjectorRuntime cw tw jsonb q clock injector) intents w = (Inr n, w')"
  shows "n = length intents"
    and "i \<in> set intents \<Longrightarrow> reducerWorkItemID i \<in> set (map wr_WorkItemID (dd_Items (pwd_Data w')))"
proof -
  have run: "reducer_Enqueue jsonb q intents clock (pwd_Data w) = (Inr n, pwd_Data w')" if "intents \<noteq> []"
    using assms that by (auto simp: enqueueIntents_def buildProjectorRuntime_def split: prod.splits sum.splits)
  show "reducerWorkItemID i \<in> set (map wr_WorkItemID (dd_Items (pwd_Data w')))" if "i \<in> set intents"
    using Enqueue_items(1) [OF run that] that by fastforce
  show "n = length intents"
  proof (cases intents)
    case Nil
    with assms show ?thesis by (simp add: enqueueIntents_def)
  next
    case (Cons i rest)
    then show ?thesis using Enqueue_items(2) [OF run, of i] by simp
  qed
qed

lemma projection_order:
  assumes "Project digest (buildProjectorRuntime cw tw jsonb q clock None) now s g facts w = (r, w')"
  shows "(pwd_Phases w' \<noteq> pwd_Phases w \<longrightarrow>
        \<not> IsEmpty (buildCanonicalMaterialization digest s g facts)
        \<and> fst (cw (buildCanonicalMaterialization digest s g facts) (pwd_Stores w)) = None)
    \<and> (pwd_Data w' \<noteq> pwd_Data w \<longrightarrow> phases_ready (canonicalGraphPhaseStates (gen_GenerationID g) facts) (pwd_Phases w'))
    \<and> (\<forall>res. r = Inr res \<longrightarrow>
        phases_ready (canonicalGraphPhaseStates (gen_GenerationID g) facts) (pwd_Phases w')
        \<and> (\<exists>p. buildProjection digest s g facts = Inr p \<and> prr_Intents res = length (prj_reducerIntents p)
            \<and> (\<forall>i \<in> set (prj_reducerIntents p). reducerWorkItemID i \<in> set (map wr_WorkItemID (dd_Items (pwd_Data w'))))))"
proof (cases "ValidateForScope g s = None")
  case valid: True
  let ?r = "buildProjectorRuntime cw tw jsonb q clock None"
  have quiet: "maybe_fail ?r s g w = (None, w)" by (simp add: maybe_fail_def buildProjectorRuntime_def)
  show ?thesis
  proof (cases "buildProjection digest s g facts")
    case (Inr p)
    obtain c w2 where w2: "write_stores ?r now (gen_GenerationID g) facts p w = (c, w2)" by (metis surj_pair)
    note mat = buildProjection_canonical [OF Inr]
    note before = write_stores_phases [OF w2, unfolded mat]
    show ?thesis
    proof (cases c)
      case (Inl e)
      then have "w' = w2" "r = Inl e" using assms valid quiet Inr w2 by (simp_all add: Project_def)
      with before show ?thesis by simp
    next
      case ok: (Inr cr)
      note ready = write_stores_ready [OF w2 [unfolded ok] mat]
      obtain n w3 where w3: "enqueueIntents ?r (prj_reducerIntents p) w2 = (n, w3)" by (metis surj_pair)
      have w': "w' = w3" and r: "r = Inr res \<Longrightarrow> n = Inr (prr_Intents res)" for res
        using assms valid quiet Inr w2 ok w3 by (auto simp: Project_def split: sum.splits)
      have phases: "pwd_Phases w' = pwd_Phases w2" using enqueueIntents_phases(1) [OF w3] w' by simp
      have enqueued: "prr_Intents res = length (prj_reducerIntents p)
          \<and> (\<forall>i \<in> set (prj_reducerIntents p). reducerWorkItemID i \<in> set (map wr_WorkItemID (dd_Items (pwd_Data w'))))"
        if "r = Inr res" for res
        using enqueueIntents_items [OF w3 [unfolded r [OF that]]] w' by blast
      show ?thesis using before ready enqueued Inr unfolding phases by blast
    qed
  qed (use assms valid in \<open>auto simp: Project_def\<close>)
qed (use assms in \<open>auto simp: Project_def\<close>)

text \<open>C10:
  One projection of a generation, with the phases and the reducer queue in their tables. The phase tables change
  only once the graph has been written without an error; the reducer queue changes only once every
  phase of the generation can be looked up; and a projection that returns no error has made every
  phase ready and put every reducer intent of its facts into the queue.
\<close>

theorem projection_ordered:
  assumes "Project digest (buildProjectorRuntime cw tw jsonb q clock None) now s g facts w = (r, w')"
  shows "(pwd_Phases w' \<noteq> pwd_Phases w \<longrightarrow>
        \<not> IsEmpty (buildCanonicalMaterialization digest s g facts)
        \<and> fst (cw (buildCanonicalMaterialization digest s g facts) (pwd_Stores w)) = None)
    \<and> (pwd_Data w' \<noteq> pwd_Data w \<longrightarrow> phases_ready (canonicalGraphPhaseStates (gen_GenerationID g) facts) (pwd_Phases w'))
    \<and> (\<forall>res. r = Inr res \<longrightarrow>
        phases_ready (canonicalGraphPhaseStates (gen_GenerationID g) facts) (pwd_Phases w')
        \<and> (\<exists>p. buildProjection digest s g facts = Inr p \<and> prr_Intents res = length (prj_reducerIntents p)
            \<and> (\<forall>i \<in> set (prj_reducerIntents p). reducerWorkItemID i \<in> set (map wr_WorkItemID (dd_Items (pwd_Data w'))))))"
  by (rule projection_order [OF assms])

section \<open>Examples\<close>

definition projected_scope :: IngestionScope where
  "projected_scope = \<lparr>sc_ScopeID = ''scope-1'', sc_SourceSystem = ''git'', sc_ScopeKind = ''repository'', sc_ParentScopeID = [],
     sc_CollectorKind = ''git'', sc_PartitionKey = ''p'', sc_ActiveGenerationID = [], sc_PreviousGenerationExists = False,
     sc_Metadata = None\<rparr>"

definition projected_generation :: ScopeGeneration where
  "projected_generation = \<lparr>gen_GenerationID = ''gen-1'', gen_ScopeID = ''scope-1'', gen_ObservedAt = 1, gen_IngestedAt = 2,
     gen_Status = GenerationStatusPending, gen_TriggerKind = ''snapshot'', gen_FreshnessHint = []\<rparr>"

definition repository_fact :: Envelope where
  "repository_fact = \<lparr>ev_FactID = ''f'', ev_ScopeID = ''scope-1'', ev_GenerationID = ''gen-1'', ev_FactKind = ''repository'',
     ev_StableFactKey = ''k'', ev_ObservedAt = 1,
     ev_Payload = Some [(''repo_id'', JStr ''r''),
       (''source_run_id'', JStr ''u''), (''reducer_domain'', JStr ''workload_identity'')],
     ev_IsTombstone = False, ev_SourceRef = \<lparr>ref_SourceSystem = ''git'', ref_ScopeID = ''scope-1'', ref_GenerationID = ''gen-1'',
       ref_FactKey = ''k'', ref_SourceURI = [], ref_SourceRecordID = []\<rparr>\<rparr>"

definition empty_world :: "nat ProjectorWorld" where
  "empty_world = \<lparr>pwd_Stores = 0, pwd_Phases = \<lparr>db_Scopes = [''scope-1''], db_Generations = [''gen-1''], db_States = [], db_Repairs = []\<rparr>,
     pwd_Data = one_generation\<rparr>"


definition projected_run :: "ProjectionResult result \<times> nat ProjectorWorld" where
  "projected_run = Project (\<lambda>_. [])
     (buildProjectorRuntime (\<lambda>m n. (None, n + 1)) (\<lambda>m n. (Inr no_ContentResult, n + 1)) same_text (NewReducerQueue ''o'' 1) 5 None)
     5 projected_scope projected_generation [repository_fact] empty_world"

lemma projection_ordered_witness:
  "\<exists>res w'. projected_run = (Inr res, w') \<and> prr_Intents res = 1
     \<and> canonicalGraphPhaseStates ''gen-1'' [repository_fact] \<noteq> []
     \<and> phases_ready (canonicalGraphPhaseStates ''gen-1'' [repository_fact]) (pwd_Phases w')"
proof -
  have run: "case projected_run of (Inr res, w') \<Rightarrow> prr_Intents res = 1 | _ \<Rightarrow> False" by code_simp
  have states: "canonicalGraphPhaseStates ''gen-1'' [repository_fact] \<noteq> []" by code_simp
  obtain r w' where r: "projected_run = (r, w')" by (metis surj_pair)
  with run obtain res where res: "r = Inr res" "prr_Intents res = 1" unfolding r by (cases r) auto
  have "phases_ready (canonicalGraphPhaseStates ''gen-1'' [repository_fact]) (pwd_Phases w')"
    using projection_ordered [OF r [unfolded projected_run_def]] res(1) by (simp add: projected_generation_def)
  with r res states show ?thesis by blast
qed

text \<open>An injected failure may be retried and does not come back.\<close>

lemma injected_once:
  "RetryOnce_MaybeFail s g remaining = (Some e, remaining') \<Longrightarrow>
     IsRetryable own e \<and> fst (RetryOnce_MaybeFail s g remaining') = None"
  by (auto simp: RetryOnce_MaybeFail_def injectedRetryableError_def Let_def split: option.splits if_splits)

text \<open>The directories of one file two levels down.\<close>

definition rooted_repository :: Envelope where
  "rooted_repository = repository_fact\<lparr>ev_Payload := Some [(''path'', JStr ''/shop'')]\<rparr>"

definition nested_file :: Envelope where
  "nested_file = repository_fact\<lparr>ev_FactKind := ''file'', ev_Payload := Some [(''relative_path'', JStr ''a/b/c.go'')]\<rparr>"

definition nested_materialization :: CanonicalMaterialization where
  "nested_materialization = buildCanonicalMaterialization (\<lambda>_. []) projected_scope projected_generation [rooted_repository, nested_file]"

lemma directories_complete_witness:
  "map dir_Path (mat_Directories nested_materialization) = [''/shop/a'', ''/shop/a/b'']
    \<and> (\<exists>f \<in> set (mat_Files nested_materialization). prefix ''/shop/a/b/'' (fl_Path f))"
proof -
  have dirs: "map dir_Path (mat_Directories nested_materialization) = [''/shop/a'', ''/shop/a/b'']" by code_simp
  have base: "clean_root (mat_RepoPath nested_materialization)" by code_simp
  have files: "list_all (\<lambda>f. plain_relative (fl_RelativePath f)) (mat_Files nested_materialization)" by code_simp
  have mem: "mat_Directories nested_materialization ! 1 \<in> set (mat_Directories nested_materialization)"
    using arg_cong [OF dirs, of length] by simp
  have path: "dir_Path (mat_Directories nested_materialization ! 1) = ''/shop/a/b''"
    using arg_cong [OF dirs, of "\<lambda>xs. xs ! 1"] arg_cong [OF dirs, of length] by simp
  have "\<exists>f \<in> set (mat_Files nested_materialization). prefix (dir_Path (mat_Directories nested_materialization ! 1) @ ''/'') (fl_Path f)"
    using CanonicalGraph.directories_complete [OF nested_materialization_def base] files mem unfolding list_all_iff by blast
  with dirs show ?thesis unfolding path by simp
qed

end
