(* ===== verification/ProjectorService.thy ===== *)
theory ProjectorService
  imports ProjectorRuntime ProjectorQueue
begin

text \<open>
  \<open>go/internal/projector/service.go\<close>: the loop that claims generations, loads their facts, projects them and
  settles the queue, with its heartbeats, its workers and the semaphore for large generations. What
  a client of the service does to the world \<open>'w\<close> is a parameter; the flag they get says whether
  their context has ended. Everything the scheduler, the clock and other processes decide is in a \<open>turn\<close>.
  Errors that \<open>errors.Join\<close> puts together are a list, nil is the empty one. Telemetry is left out.
\<close>

section \<open>The service\<close>

record 'w Service =
  svp_PollInterval :: duration
  svp_Claim :: "'w \<Rightarrow> ScopeGenerationWork option result \<times> 'w"
  svp_LoadFacts :: "bool \<Rightarrow> ScopeGenerationWork \<Rightarrow> 'w \<Rightarrow> Envelope list result \<times> 'w"
  svp_Project :: "bool \<Rightarrow> IngestionScope \<Rightarrow> ScopeGeneration \<Rightarrow> Envelope list \<Rightarrow> 'w \<Rightarrow> ProjectionResult result \<times> 'w"
  svp_Ack :: "ScopeGenerationWork \<Rightarrow> ProjectionResult \<Rightarrow> 'w \<Rightarrow> error option \<times> 'w"
  svp_Fail :: "ScopeGenerationWork \<Rightarrow> error \<Rightarrow> 'w \<Rightarrow> error option \<times> 'w"
  svp_Heartbeat :: "(ScopeGenerationWork \<Rightarrow> 'w \<Rightarrow> error option \<times> 'w) option"
  svp_HeartbeatInterval :: duration
  svp_Workers :: int
  svp_FactCounter :: "(bool \<Rightarrow> string \<Rightarrow> string \<Rightarrow> 'w \<Rightarrow> nat result) option"
  svp_LargeGenThreshold :: int
  svp_LargeGenMaxConcurrent :: int

definition projector_pollInterval :: "'w Service \<Rightarrow> duration" where
  "projector_pollInterval s = (if svp_PollInterval s \<le> 0 then seconds 1 else svp_PollInterval s)"

text \<open>The capacity of the semaphore; \<open>None\<close> is the nil channel.\<close>

definition InitLargeGenSemaphore :: "'w Service \<Rightarrow> nat option" where
  "InitLargeGenSemaphore s =
     (case svp_FactCounter s of
        None \<Rightarrow> None
      | Some _ \<Rightarrow> Some (nat (if svp_LargeGenMaxConcurrent s \<le> 0 then 2 else svp_LargeGenMaxConcurrent s)))"

definition largeGenThreshold :: "'w Service \<Rightarrow> int" where
  "largeGenThreshold s = (if svp_LargeGenThreshold s \<le> 0 then 10000 else svp_LargeGenThreshold s)"

text \<open>
  Whether a generation takes a slot of the semaphore; without a counter, with one that fails and for
  generations up to the threshold it does not. A slot that is not free is waited for until the context
  ends, so what is left to decide is \<open>free\<close>, whether one came free before that.
\<close>

definition wants_large_slot :: "'w Service \<Rightarrow> nat option \<Rightarrow> bool \<Rightarrow> ScopeGenerationWork \<Rightarrow> 'w \<Rightarrow> bool" where
  "wants_large_slot s sem ended work w =
     (case (svp_FactCounter s, sem) of
        (Some counter, Some capacity) \<Rightarrow>
          (case counter ended (sc_ScopeID (sgw_Scope work)) (gen_GenerationID (sgw_Generation work)) w of
             Inl _ \<Rightarrow> False
           | Inr n \<Rightarrow> largeGenThreshold s < int n)
      | _ \<Rightarrow> False)"

definition acquireLargeGenSem :: "'w Service \<Rightarrow> nat option \<Rightarrow> bool \<Rightarrow> bool \<Rightarrow> ScopeGenerationWork \<Rightarrow> 'w \<Rightarrow> bool" where
  "acquireLargeGenSem s sem ended free work w \<longleftrightarrow> wants_large_slot s sem ended work w \<and> free"

section \<open>Heartbeats\<close>

text \<open>
  The goroutine beats, has failed and waits for the end of its context, or has sent its last value. After
  a failure its context has ended too, but a tick that is pending by then may be chosen first: the
  heartbeat it sends fails with the context's error, and nil is sent in place of the failure.
\<close>

datatype heartbeat =
    Beating
  | Beat_failed error
  | Beat_ended

datatype 'w event =
    Tick
  | Others "'w \<Rightarrow> 'w"

definition beats :: "'w Service \<Rightarrow> bool" where
  "beats s \<longleftrightarrow> svp_Heartbeat s \<noteq> None \<and> 0 < svp_HeartbeatInterval s"

fun heartbeat_event :: "'w Service \<Rightarrow> ScopeGenerationWork \<Rightarrow> 'w event \<Rightarrow> heartbeat \<times> 'w \<Rightarrow> heartbeat \<times> 'w" where
  "heartbeat_event s work (Others f) (h, w) = (h, f w)"
| "heartbeat_event s work Tick (h, w) =
     (if \<not> beats s then (h, w)
      else (case h of
          Beating \<Rightarrow>
            (case the (svp_Heartbeat s) work w of
               (None, w') \<Rightarrow> (Beating, w')
             | (Some e, w') \<Rightarrow> (Beat_failed (Wrap ''heartbeat projector work'' e), w'))
        | Beat_failed _ \<Rightarrow> (Beat_ended, w)
        | Beat_ended \<Rightarrow> (Beat_ended, w)))"

definition while_busy :: "'w Service \<Rightarrow> ScopeGenerationWork \<Rightarrow> 'w event list \<Rightarrow> heartbeat \<times> 'w \<Rightarrow> heartbeat \<times> 'w" where
  "while_busy s work events st = fold (heartbeat_event s work) events st"

text \<open>What \<open>stopHeartbeat\<close> returns the first time it is called, and whether the work's context has ended.\<close>

fun stopHeartbeat :: "heartbeat \<Rightarrow> error option" where
  "stopHeartbeat (Beat_failed e) = Some e"
| "stopHeartbeat _ = None"

section \<open>One generation\<close>

text \<open>
  \<open>tn_Shutdown\<close>: the worker's context has ended when an error of the load or the projection is looked at.
\<close>

record 'w turn =
  tn_Loading :: "'w event list"
  tn_Projecting :: "'w event list"
  tn_Shutdown :: bool

text \<open>\<open>errors.Is(err, context.Canceled)\<close> or \<open>context.DeadlineExceeded\<close>.\<close>

fun context_ended :: "error \<Rightarrow> bool" where
  "context_ended (Wrap s e) = context_ended e"
| "context_ended e = (e \<in> {Msg ''context canceled'', Msg ''context deadline exceeded''})"

definition settle_failure ::
  "'w Service \<Rightarrow> 'w turn \<Rightarrow> ScopeGenerationWork \<Rightarrow> heartbeat \<Rightarrow> error \<Rightarrow> 'w \<Rightarrow> error list \<times> 'w" where
  "settle_failure s tn work h err w =
     (case stopHeartbeat h of
        Some heartbeatErr \<Rightarrow> ([err, heartbeatErr], w)
      | None \<Rightarrow>
          if tn_Shutdown tn \<and> context_ended err then ([], w)
          else (case svp_Fail s work err w of
              (Some failErr, w') \<Rightarrow> ([err, Wrap ''fail projector work'' failErr], w')
            | (None, w') \<Rightarrow> ([], w')))"

definition processWork :: "'w Service \<Rightarrow> 'w turn \<Rightarrow> ScopeGenerationWork \<Rightarrow> 'w \<Rightarrow> error list \<times> 'w" where
  "processWork s tn work w =
     (case while_busy s work (tn_Loading tn) (Beating, w) of (h1, w1) \<Rightarrow>
      case svp_LoadFacts s (h1 \<noteq> Beating \<or> tn_Shutdown tn) work w1 of
        (Inl err, w2) \<Rightarrow> settle_failure s tn work h1 err w2
      | (Inr facts, w2) \<Rightarrow>
         (case while_busy s work (tn_Projecting tn) (h1, w2) of (h2, w3) \<Rightarrow>
          case svp_Project s (h2 \<noteq> Beating \<or> tn_Shutdown tn) (sgw_Scope work) (sgw_Generation work) facts w3 of
            (Inl err, w4) \<Rightarrow> settle_failure s tn work h2 err w4
          | (Inr result, w4) \<Rightarrow>
              (case stopHeartbeat h2 of
                 Some heartbeatErr \<Rightarrow> ([heartbeatErr], w4)
               | None \<Rightarrow>
                   (case svp_Ack s work result w4 of
                      (Some e, w5) \<Rightarrow> ([Wrap ''ack projector work'' e], w5)
                    | (None, w5) \<Rightarrow> ([], w5)))))"

section \<open>The loops\<close>

text \<open>
  One round of a worker: whether its context has ended before it starts and by the time the claim
  returns, what the wait returns when there is nothing to do, and the turn of the work it claims.
\<close>

record 'w round =
  rd_Stopped :: bool
  rd_Ended :: bool
  rd_Wait :: "error option"
  rd_Turn :: "'w turn"

datatype outcome =
    Continues
  | Returns "error list"

definition projectorClaimCanceled :: "bool \<Rightarrow> error \<Rightarrow> bool" where
  "projectorClaimCanceled ended e \<longleftrightarrow> ended \<and> context_ended e"

definition worker_round :: "'w Service \<Rightarrow> 'w round \<Rightarrow> 'w \<Rightarrow> outcome \<times> 'w" where
  "worker_round s rd w =
     (case svp_Claim s w of
        (Inl e, w1) \<Rightarrow> (Returns (if projectorClaimCanceled (rd_Ended rd) e then [] else [Wrap ''claim projector work'' e]), w1)
      | (Inr None, w1) \<Rightarrow>
          (case rd_Wait rd of
             None \<Rightarrow> (Continues, w1)
           | Some e \<Rightarrow> (Returns (if context_ended e \<or> rd_Ended rd then [] else [Wrap ''wait for projector work'' e]), w1))
      | (Inr (Some work), w1) \<Rightarrow>
          (case processWork s (rd_Turn rd) work w1 of
             ([], w2) \<Rightarrow> (Continues, w2)
           | (es, w2) \<Rightarrow> (Returns es, w2)))"

text \<open>\<open>Continues\<close> at the end: the loop is still running after these rounds.\<close>

fun runSequential :: "'w Service \<Rightarrow> 'w round list \<Rightarrow> 'w \<Rightarrow> outcome \<times> 'w" where
  "runSequential s [] w = (Continues, w)"
| "runSequential s (rd # rds) w =
     (case worker_round s rd w of
        (Continues, w') \<Rightarrow> runSequential s rds w'
      | (Returns es, w') \<Rightarrow> (Returns es, w'))"

text \<open>
  The workers' rounds in the order in which they start; what the others do while one is busy is in its
  events. An error is kept and ends the shared context, and with it every worker that looks at it; the
  others may still finish the round they are in.
\<close>

record pool =
  pl_Live :: "nat list"
  pl_Errors :: "error list"
  pl_Canceled :: bool

definition pool_round :: "'w Service \<Rightarrow> nat \<times> 'w round \<Rightarrow> pool \<times> 'w \<Rightarrow> pool \<times> 'w" where
  "pool_round s step st =
     (case (step, st) of ((worker, rd), (p, w)) \<Rightarrow>
        if worker \<notin> set (pl_Live p) then (p, w)
        else if pl_Canceled p \<or> rd_Stopped rd then (p\<lparr>pl_Live := removeAll worker (pl_Live p)\<rparr>, w)
        else (case worker_round s rd w of
            (Continues, w') \<Rightarrow> (p, w')
          | (Returns es, w') \<Rightarrow>
              (p\<lparr>pl_Live := removeAll worker (pl_Live p), pl_Errors := pl_Errors p @ es,
                 pl_Canceled := (pl_Canceled p \<or> es \<noteq> [])\<rparr>, w')))"

definition runConcurrent :: "'w Service \<Rightarrow> (nat \<times> 'w round) list \<Rightarrow> 'w \<Rightarrow> pool \<times> 'w" where
  "runConcurrent s steps w =
     fold (pool_round s) steps (\<lparr>pl_Live = [0..<nat (svp_Workers s)], pl_Errors = [], pl_Canceled = False\<rparr>, w)"

section \<open>The service of the projector\<close>

text \<open>
  What \<open>buildProjectorService\<close> of \<open>cmd/projector\<close> wires, and with \<open>heartbeats\<close> the ingester: the projector queue
  as source, sink and heartbeater, the fact store, and the runtime \<open>r\<close>. \<open>cause_of\<close> is what the queue reads off an
  error, \<open>interrupted\<close> what is left of a projection whose context ends on the way.
\<close>

definition on_data :: "(DataDb \<Rightarrow> 'a \<times> DataDb) \<Rightarrow> 'g ProjectorWorld \<Rightarrow> 'a \<times> 'g ProjectorWorld" where
  "on_data f w = (case f (pwd_Data w) of (x, db) \<Rightarrow> (x, w\<lparr>pwd_Data := db\<rparr>))"

record 'g wiring =
  wg_Digest :: "string \<Rightarrow> nat list"
  wg_Runtime :: "'g ProjectorWorld ProjectorRuntime"
  wg_Interrupted :: "IngestionScope \<Rightarrow> ScopeGeneration \<Rightarrow> Envelope list \<Rightarrow> 'g ProjectorWorld \<Rightarrow> error \<times> 'g ProjectorWorld"
  wg_Queue :: ProjectorQueue
  wg_CauseOf :: "error \<Rightarrow> Cause"
  wg_Collate :: "string \<Rightarrow> string \<Rightarrow> int"
  wg_Locked :: "string list"
  wg_Clock :: time

definition claim_work :: "'g wiring \<Rightarrow> DataDb \<Rightarrow> ScopeGenerationWork option result \<times> DataDb" where
  "claim_work g db =
     (case projector_Claim (wg_Collate g) (wg_Locked g) (wg_Queue g) (wg_Clock g) db db of
        Inl e \<Rightarrow> (Inl e, db)
      | Inr (work, db') \<Rightarrow> (Inr work, db'))"

definition buildProjectorService :: "'g wiring \<Rightarrow> duration \<Rightarrow> 'g ProjectorWorld Service" where
  "buildProjectorService g heartbeats =
     \<lparr>svp_PollInterval = seconds 1,
      svp_Claim = on_data (claim_work g),
      svp_LoadFacts = (\<lambda>ended work w.
        (if ended then Inl (Msg ''context canceled'')
         else ListFacts (wg_Collate g) True (sc_ScopeID (sgw_Scope work)) (gen_GenerationID (sgw_Generation work)) (pwd_Data w), w)),
      svp_Project = (\<lambda>ended s generation facts w.
        (if ended then (case wg_Interrupted g s generation facts w of (e, w') \<Rightarrow> (Inl e, w'))
         else Project (wg_Digest g) (wg_Runtime g) (wg_Clock g) s generation facts w)),
      svp_Ack = (\<lambda>work result. on_data (projector_Ack (wg_Queue g) work (wg_Clock g))),
      svp_Fail = (\<lambda>work e. on_data (projector_Fail (wg_Queue g) work (Some (wg_CauseOf g e)) (wg_Clock g) (wg_Clock g))),
      svp_Heartbeat = (if heartbeats = 0 then None else Some (\<lambda>work. on_data (projector_Heartbeat (wg_Queue g) work (wg_Clock g)))),
      svp_HeartbeatInterval = heartbeats, svp_Workers = 1, svp_FactCounter = None, svp_LargeGenThreshold = 0,
      svp_LargeGenMaxConcurrent = 0\<rparr>"

section \<open>What becomes of claimed work\<close>

lemma settled_not_held [simp]: "\<not> work_held q work (settled_work StatusSucceeded now r)"
  "\<not> work_held q work (retried_work now later failure r)" "\<not> projector_held s g owner (failed_work status now failure r)"
  by (auto simp: work_held_def projector_held_def leased_by_def settled_work_def retried_work_def failed_work_def split: prod.split)

definition released :: "ProjectorQueue \<Rightarrow> ScopeGenerationWork \<Rightarrow> DataDb \<Rightarrow> bool" where
  "released q work db \<longleftrightarrow> \<not> list_ex (work_held q work) (dd_Items db)"

lemma Ack_released:
  assumes "projector_Ack q work now db = (None, db')"
  shows "released q work db'" and "map wr_WorkItemID (dd_Items db') = map wr_WorkItemID (dd_Items db)"
proof -
  have "run_steps (ack_steps q work now) db = (None, db')"
    using assms by (auto simp: projector_Ack_def in_transaction_def split: option.splits prod.splits if_splits)
  then have "dd_Items db' = dd_Items (update_work (work_held q work) (settled_work StatusSucceeded now) db)"
    using run_steps_None ack_steps_items by metis
  then show "released q work db'" "map wr_WorkItemID (dd_Items db') = map wr_WorkItemID (dd_Items db)"
    by (simp_all add: released_def update_settles) (simp add: settled_work_def)
qed

lemma fail_update_released: "released q work (fail_update q work c now later db)"
proof -
  have "dd_Items (failProjectorWorkQuery now failure s g owner db) =
      dd_Items (update_work (projector_held s g owner) (failed_work StatusDeadLetter now failure) db)" for failure s g owner
    by (simp add: failProjectorWorkQuery_def)
  then have dead: "\<not> list_ex (projector_held s g owner) (dd_Items (failProjectorWorkQuery now failure s g owner db))" for failure s g owner
    by (simp add: update_settles)
  show ?thesis
  proof (cases "cause_Retryable c \<and> sgw_AttemptCount work < projector_maxAttempts q")
    case False
    show ?thesis unfolding released_def fail_update_def Let_def if_not_P [OF False] work_held_def by (rule dead)
  qed (simp add: released_def fail_update_def Let_def update_settles)
qed

lemma Fail_released:
  assumes "projector_Fail q work (Some c) now later db = (None, db')"
  shows "released q work db'"
proof -
  have "statement (fail_update q work c now later db) db = (None, db')"
    using assms by (auto simp: projector_Fail_def split: option.splits prod.splits)
  then have "db' = fail_update q work c now later db" by (auto simp: statement_def split: option.splits)
  then show ?thesis by (simp add: fail_update_released)
qed

lemma on_data_okE:
  assumes "on_data f w = (x, w')"
  shows "f (pwd_Data w) = (x, pwd_Data w')" and "pwd_Phases w' = pwd_Phases w"
  using assms by (auto simp: on_data_def split: prod.splits)

text \<open>The ways in which a turn ends without an error.\<close>

lemma settle_failure_okE:
  assumes "settle_failure s tn work h err w = ([], w')"
  obtains "tn_Shutdown tn" | "svp_Fail s work err w = (None, w')"
  using assms by (auto simp: settle_failure_def split: option.splits prod.splits if_splits)

lemma processWork_okE:
  assumes "processWork s tn work w = ([], w')"
  obtains "tn_Shutdown tn"
  | err v where "svp_Fail s work err v = (None, w')"
  | ended ended' facts result w1 w2 w3 w4 where "svp_LoadFacts s ended work w1 = (Inr facts, w2)"
      and "svp_Project s ended' (sgw_Scope work) (sgw_Generation work) facts w3 = (Inr result, w4)"
      and "svp_Ack s work result w4 = (None, w')"
proof -
  obtain h1 w1 where 1: "while_busy s work (tn_Loading tn) (Beating, w) = (h1, w1)" by (metis surj_pair)
  obtain loaded w2 where 2: "svp_LoadFacts s (h1 \<noteq> Beating \<or> tn_Shutdown tn) work w1 = (loaded, w2)" by (metis surj_pair)
  show ?thesis
  proof (cases loaded)
    case (Inl err)
    then have "settle_failure s tn work h1 err w2 = ([], w')" using assms 1 2 by (simp add: processWork_def)
    then show ?thesis using that(1,2) by (rule settle_failure_okE)
  next
    case (Inr facts)
    obtain h2 w3 where 3: "while_busy s work (tn_Projecting tn) (h1, w2) = (h2, w3)" by (metis surj_pair)
    obtain res w4 where 4: "svp_Project s (h2 \<noteq> Beating \<or> tn_Shutdown tn) (sgw_Scope work) (sgw_Generation work) facts w3 = (res, w4)"
      by (metis surj_pair)
    show ?thesis
    proof (cases res)
      case (Inl err)
      then have "settle_failure s tn work h2 err w4 = ([], w')" using assms 1 2 3 4 Inr by (simp add: processWork_def)
      then show ?thesis using that(1,2) by (rule settle_failure_okE)
    next
      case ok: (Inr result)
      then have "stopHeartbeat h2 = None" and ack: "svp_Ack s work result w4 = (None, w')"
        using assms 1 2 3 4 Inr by (auto simp: processWork_def split: option.splits prod.splits)
      show ?thesis
      proof (cases "tn_Shutdown tn")
        case False
        show ?thesis by (rule that(3) [OF 2 [unfolded Inr] 4 [unfolded ok] ack])
      qed (rule that(1))
    qed
  qed
qed

text \<open>What an acknowledged generation is known to have.\<close>

definition generation_projected :: "'g wiring \<Rightarrow> ScopeGenerationWork \<Rightarrow> 'g ProjectorWorld \<Rightarrow> bool" where
  "generation_projected g work w \<longleftrightarrow>
     (\<exists>facts p db. ListFacts (wg_Collate g) True (sc_ScopeID (sgw_Scope work)) (gen_GenerationID (sgw_Generation work)) db = Inr facts
        \<and> buildProjection (wg_Digest g) (sgw_Scope work) (sgw_Generation work) facts = Inr p
        \<and> phases_ready (canonicalGraphPhaseStates (gen_GenerationID (sgw_Generation work)) facts) (pwd_Phases w)
        \<and> (\<forall>i \<in> set (prj_reducerIntents p). reducerWorkItemID i \<in> set (map wr_WorkItemID (dd_Items (pwd_Data w)))))"

lemma projected_generation:
  assumes "wg_Runtime g = buildProjectorRuntime cw tw jsonb q clock None"
    and "svp_LoadFacts (buildProjectorService g hb) ended work w1 = (Inr facts, w2)"
    and "svp_Project (buildProjectorService g hb) ended' (sgw_Scope work) (sgw_Generation work) facts w3 = (Inr result, w4)"
  shows "generation_projected g work w4"
proof -
  have facts: "ListFacts (wg_Collate g) True (sc_ScopeID (sgw_Scope work)) (gen_GenerationID (sgw_Generation work)) (pwd_Data w1) = Inr facts"
    using assms(2) by (auto simp: buildProjectorService_def split: if_splits)
  have "Project (wg_Digest g) (buildProjectorRuntime cw tw jsonb q clock None) (wg_Clock g) (sgw_Scope work) (sgw_Generation work) facts w3
      = (Inr result, w4)"
    using assms(1,3) by (auto simp: buildProjectorService_def split: if_splits prod.splits)
  from projection_order [OF this] facts show ?thesis unfolding generation_projected_def by blast
qed

lemma Ack_keeps_projected:
  assumes "generation_projected g work w" and "svp_Ack (buildProjectorService g hb) work result w = (None, w')"
  shows "generation_projected g work w' \<and> released (wg_Queue g) work (pwd_Data w')"
proof -
  have "on_data (projector_Ack (wg_Queue g) work (wg_Clock g)) w = (None, w')"
    using assms(2) by (simp add: buildProjectorService_def)
  note ack = on_data_okE [OF this]
  have "set (map wr_WorkItemID (dd_Items (pwd_Data w'))) = set (map wr_WorkItemID (dd_Items (pwd_Data w)))"
    using Ack_released(2) [OF ack(1)] by simp
  with assms(1) Ack_released(1) [OF ack(1)] ack(2) show ?thesis unfolding generation_projected_def by metis
qed


section \<open>A heartbeat error that is lost\<close>

text \<open>
  A heartbeat that fails is what the turn returns, and it ends the worker. With a second tick pending
  the error is lost: the load fails with the ended context and is recorded as a failure of the generation.
\<close>

theorem lost_heartbeat_error:
  assumes "beats s" and "svp_Heartbeat s = Some hb" and "hb work w = (Some e, w1)"
    and "svp_LoadFacts s True work w1 = (Inl (Msg ''context canceled''), w2)" and "svp_Fail s work (Msg ''context canceled'') w2 = (None, w3)"
  shows "processWork s \<lparr>tn_Loading = [Tick], tn_Projecting = [], tn_Shutdown = False\<rparr> work w
      = ([Msg ''context canceled'', Wrap ''heartbeat projector work'' e], w2)
    \<and> processWork s \<lparr>tn_Loading = [Tick, Tick], tn_Projecting = [], tn_Shutdown = False\<rparr> work w = ([], w3)"
  using assms by (simp add: processWork_def while_busy_def settle_failure_def)

section \<open>Examples\<close>

definition loaded_world :: "nat ProjectorWorld" where
  "loaded_world = empty_world\<lparr>pwd_Data := one_generation\<lparr>
     dd_Facts := [fact_row (marshalPayload (payload_map (ev_Payload repository_fact))) repository_fact],
     dd_Items := [claimed_work 3 ''projector'' 60 (projector_row ''scope-1'' ''gen-1'' 2)]\<rparr>\<rparr>"

definition example_wiring :: "nat wiring" where
  "example_wiring = \<lparr>wg_Digest = (\<lambda>_. []),
     wg_Runtime = buildProjectorRuntime (\<lambda>m n. (None, n + 1)) (\<lambda>m n. (Inr no_ContentResult, n + 1)) same_text (NewReducerQueue ''o'' 1) 5 None,
     wg_Interrupted = (\<lambda>s g fs w. (Msg ''context canceled'', w)), wg_Queue = NewProjectorQueue True ''projector'' (seconds 60),
     wg_CauseOf = (\<lambda>e. \<lparr>cause_Message = [], cause_Retryable = False, cause_Class = None, cause_Details = None\<rparr>),
     wg_Collate = compare, wg_Locked = [], wg_Clock = 5\<rparr>"

definition claimed_item :: ScopeGenerationWork where
  "claimed_item = \<lparr>sgw_Scope = projected_scope, sgw_Generation = projected_generation, sgw_AttemptCount = 1\<rparr>"

definition quiet_turn :: "nat ProjectorWorld turn" where
  "quiet_turn = \<lparr>tn_Loading = [Tick], tn_Projecting = [], tn_Shutdown = False\<rparr>"


end
