(* ===== verification/GitFacts.thy ===== *)
theory GitFacts
  imports ProjectorRuntime
begin

text \<open>
  \<open>go/internal/collector/git_fact_builder.go\<close> with \<open>buildScope\<close> and \<open>buildGeneration\<close> of \<open>git_source.go\<close>: the scope,
  the generation and the stream of facts of one snapshot of a repository. \<open>cwd\<close> is the working directory,
  \<open>disk\<close> what reading a file yields, \<open>rfc3339\<close> the text \<open>time.Format\<close> prints. A number of a payload is the
  literal \<open>encoding/json\<close> writes for it. The channel is the list of what is sent through it.
\<close>

section \<open>Paths of the file system\<close>

text \<open>\<open>filepath.Join\<close> of two elements, \<open>Abs\<close>, and \<open>Rel\<close> on Unix.\<close>

definition filepath_Join :: "string \<Rightarrow> string \<Rightarrow> string" where
  "filepath_Join a b =
     (if a = [] \<and> b = [] then [] else if a = [] then path_Clean b else if b = [] then path_Clean a else path_Clean (a @ ''/'' @ b))"

definition filepath_Abs :: "string \<Rightarrow> string \<Rightarrow> string" where
  "filepath_Abs cwd p = (if rooted p then path_Clean p else filepath_Join cwd p)"

fun strip_common :: "string list \<Rightarrow> string list \<Rightarrow> string list \<times> string list" where
  "strip_common (b # bs) (t # ts) = (if b = t then strip_common bs ts else (b # bs, t # ts))"
| "strip_common bs ts = (bs, ts)"

definition filepath_Rel :: "string \<Rightarrow> string \<Rightarrow> string option" where
  "filepath_Rel base targ =
     (if path_Clean base = path_Clean targ then Some ''.''
      else if rooted base \<noteq> rooted targ then None
      else (case strip_common (normal_segments base) (normal_segments targ) of (bs, ts) \<Rightarrow>
        if bs \<noteq> [] \<and> hd bs = ''..'' then None
        else Some (join_with ''/'' (replicate (length bs) ''..'' @ ts))))"

definition repositoryRelativePath :: "string \<Rightarrow> string \<Rightarrow> string" where
  "repositoryRelativePath repoPath filePath =
     (case filepath_Rel repoPath filePath of None \<Rightarrow> path_Base filePath | Some r \<Rightarrow> r)"

section \<open>Snapshots\<close>

record Metadata =
  md_ID :: string
  md_Name :: string
  md_RepoSlug :: string
  md_RemoteURL :: string
  md_LocalPath :: string
  md_HasRemote :: bool

record ContentFileSnapshot =
  cfs_RelativePath :: string
  cfs_Body :: string
  cfs_Digest :: string
  cfs_Language :: string
  cfs_ArtifactType :: string
  cfs_TemplateDialect :: string
  cfs_IACRelevant :: "bool option"
  cfs_CommitSHA :: string

record ContentFileMeta =
  cfm_RelativePath :: string
  cfm_Digest :: string
  cfm_Language :: string
  cfm_ArtifactType :: string
  cfm_TemplateDialect :: string
  cfm_IACRelevant :: "bool option"
  cfm_CommitSHA :: string

record ContentEntitySnapshot =
  ces_EntityID :: string
  ces_RelativePath :: string
  ces_EntityType :: string
  ces_EntityName :: string
  ces_StartLine :: int
  ces_EndLine :: int
  ces_StartByte :: "int option"
  ces_EndByte :: "int option"
  ces_Language :: string
  ces_ArtifactType :: string
  ces_TemplateDialect :: string
  ces_IACRelevant :: "bool option"
  ces_SourceCache :: string
  ces_Metadata :: payload
  ces_IndexedAt :: time

record RepositorySnapshot =
  rsn_FileCount :: nat
  rsn_ImportsMap :: "(string \<times> string list) list"
  rsn_FileData :: "payload list"
  rsn_ContentFiles :: "ContentFileSnapshot list"
  rsn_ContentEntities :: "ContentEntitySnapshot list"
  rsn_ContentFileMetas :: "ContentFileMeta list"

section \<open>Envelopes\<close>

text \<open>The first of the keys that holds a text which is not blank; unlike the projector's, the text is not trimmed.\<close>

fun collector_payloadString :: "payload \<Rightarrow> string list \<Rightarrow> string" where
  "collector_payloadString p [] = []"
| "collector_payloadString p (key # keys) =
     (case map_of p key of
        Some (JStr text) \<Rightarrow> if blank text then collector_payloadString p keys else text
      | _ \<Rightarrow> collector_payloadString p keys)"

definition payloadPath :: "string \<Rightarrow> payload \<Rightarrow> string \<Rightarrow> string" where
  "payloadPath cwd p key =
     (let value = collector_payloadString p [key] in if value = [] then [] else filepath_Abs cwd value)"

definition factEnvelope :: "string \<Rightarrow> string \<Rightarrow> string \<Rightarrow> time \<Rightarrow> string \<Rightarrow> payload \<Rightarrow> string \<Rightarrow> Envelope" where
  "factEnvelope factKind scopeID generationID observedAt factKey p sourceURI =
     \<lparr>ev_FactID = StableID ''GoGitCollectorFact''
        [(''fact_key'', JStr factKey), (''fact_kind'', JStr factKind), (''generation_id'', JStr generationID), (''scope_id'', JStr scopeID)],
      ev_ScopeID = scopeID, ev_GenerationID = generationID, ev_FactKind = factKind, ev_StableFactKey = factKey,
      ev_ObservedAt = observedAt, ev_Payload = Some p, ev_IsTombstone = False,
      ev_SourceRef = \<lparr>ref_SourceSystem = ''git'', ref_ScopeID = scopeID, ref_GenerationID = generationID, ref_FactKey = factKey,
        ref_SourceURI = sourceURI, ref_SourceRecordID = factKey\<rparr>\<rparr>"

text \<open>\<open>if value != "" { payload[key] = value }\<close>.\<close>

definition text_member :: "string \<Rightarrow> string \<Rightarrow> payload" where
  "text_member key value = (if value = [] then [] else [(key, JStr value)])"

definition number :: "int \<Rightarrow> json" where
  "number n = JNum (show_int n)"

definition repositoryFactEnvelope ::
  "string \<Rightarrow> Metadata \<Rightarrow> string \<Rightarrow> string \<Rightarrow> string \<Rightarrow> time \<Rightarrow> nat \<Rightarrow> (string \<times> string list) list \<Rightarrow> bool \<Rightarrow> Envelope" where
  "repositoryFactEnvelope repoPath repo sourceRunID scopeID generationID observedAt parsedFileCount importsMap isDependency =
     factEnvelope ''repository'' scopeID generationID observedAt (''repository:'' @ md_ID repo)
       ([(''graph_id'', JStr (md_ID repo)), (''graph_kind'', JStr ''repository''), (''name'', JStr (md_Name repo)),
         (''repo_id'', JStr (md_ID repo)), (''parsed_file_count'', JStr (show_nat parsedFileCount)),
         (''is_dependency'', JBool isDependency)]
        @ text_member ''repo_slug'' (md_RepoSlug repo) @ text_member ''remote_url'' (md_RemoteURL repo)
        @ text_member ''local_path'' (md_LocalPath repo)
        @ (if importsMap = [] then [] else [(''imports_map'', JObj (map (\<lambda>(k, ts). (k, JArr (map JStr ts))) importsMap))])
        @ (if blank sourceRunID then [] else [(''source_run_id'', JStr sourceRunID)]))
       repoPath"

definition fileFactEnvelope ::
  "string \<Rightarrow> string \<Rightarrow> string \<Rightarrow> string \<Rightarrow> string \<Rightarrow> time \<Rightarrow> payload \<Rightarrow> bool \<Rightarrow> Envelope" where
  "fileFactEnvelope cwd repoPath repoID scopeID generationID observedAt fileData isDependency =
     (let filePath = payloadPath cwd fileData ''path''; relativePath = repositoryRelativePath repoPath filePath
      in factEnvelope ''file'' scopeID generationID observedAt (''file:'' @ repoID @ '':'' @ relativePath)
           ([(''graph_id'', JStr (repoID @ '':'' @ relativePath)), (''graph_kind'', JStr ''file''), (''repo_id'', JStr repoID),
             (''relative_path'', JStr relativePath), (''parsed_file_data'', JObj fileData), (''is_dependency'', JBool isDependency)]
            @ text_member ''language'' (collector_payloadString fileData [''language'', ''lang'']))
           filePath)"

definition contentFactEnvelope ::
  "string \<Rightarrow> string \<Rightarrow> string \<Rightarrow> string \<Rightarrow> time \<Rightarrow> ContentFileSnapshot \<Rightarrow> Envelope" where
  "contentFactEnvelope repoPath repoID scopeID generationID observedAt f =
     factEnvelope ''content'' scopeID generationID observedAt (''content:'' @ repoID @ '':'' @ cfs_RelativePath f)
       ([(''content_path'', JStr (cfs_RelativePath f)), (''content_body'', JStr (cfs_Body f)),
         (''content_digest'', JStr (cfs_Digest f)), (''repo_id'', JStr repoID)]
        @ text_member ''language'' (cfs_Language f) @ text_member ''commit_sha'' (cfs_CommitSHA f)
        @ text_member ''artifact_type'' (cfs_ArtifactType f) @ text_member ''template_dialect'' (cfs_TemplateDialect f)
        @ (case cfs_IACRelevant f of None \<Rightarrow> [] | Some b \<Rightarrow> [(''iac_relevant'', JStr (if b then ''true'' else ''false''))]))
       (filepath_Join repoPath (cfs_RelativePath f))"

definition number_member :: "string \<Rightarrow> int option \<Rightarrow> payload" where
  "number_member key v = (case v of None \<Rightarrow> [] | Some n \<Rightarrow> [(key, number n)])"

definition contentEntityFactEnvelope ::
  "(time \<Rightarrow> string) \<Rightarrow> string \<Rightarrow> string \<Rightarrow> string \<Rightarrow> string \<Rightarrow> time \<Rightarrow> ContentEntitySnapshot \<Rightarrow> Envelope" where
  "contentEntityFactEnvelope rfc3339 repoPath repoID scopeID generationID observedAt e =
     factEnvelope ''content_entity'' scopeID generationID observedAt (''content_entity:'' @ ces_EntityID e)
       ([(''graph_id'', JStr (ces_EntityID e)), (''graph_kind'', JStr ''content_entity''), (''entity_id'', JStr (ces_EntityID e)),
         (''repo_id'', JStr repoID), (''relative_path'', JStr (ces_RelativePath e)), (''entity_type'', JStr (ces_EntityType e)),
         (''entity_name'', JStr (ces_EntityName e)), (''start_line'', number (ces_StartLine e)),
         (''end_line'', number (ces_EndLine e)), (''language'', JStr (ces_Language e)),
         (''source_cache'', JStr (ces_SourceCache e)), (''indexed_at'', JStr (rfc3339 (utc (ces_IndexedAt e))))]
        @ number_member ''start_byte'' (ces_StartByte e) @ number_member ''end_byte'' (ces_EndByte e)
        @ text_member ''artifact_type'' (ces_ArtifactType e) @ text_member ''template_dialect'' (ces_TemplateDialect e)
        @ (case ces_IACRelevant e of None \<Rightarrow> [] | Some b \<Rightarrow> [(''iac_relevant'', JBool b)])
        @ (if ces_Metadata e = [] then [] else [(''entity_metadata'', JObj (cloneAnyMap (ces_Metadata e)))]))
       (filepath_Join repoPath (ces_RelativePath e))"

text \<open>The seven follow-ups have one shape; \<open>prefix\<close> is what stands before the base name in the entity key.\<close>

definition followupEnvelope :: "string \<Rightarrow> string \<Rightarrow> string \<Rightarrow> string \<Rightarrow> string \<Rightarrow> string \<Rightarrow> string \<Rightarrow> time \<Rightarrow> Envelope" where
  "followupEnvelope domain keyPrefix reason repoPath repoID scopeID generationID observedAt =
     factEnvelope ''shared_followup'' scopeID generationID observedAt (''shared_followup:'' @ repoID @ '':'' @ domain)
       [(''reducer_domain'', JStr domain), (''entity_key'', JStr (keyPrefix @ '':'' @ path_Base repoPath)),
        (''reason'', JStr (''repository snapshot emitted '' @ reason @ '' follow-up'')), (''repo_id'', JStr repoID)]
       repoPath"

definition workloadIdentityFactEnvelope :: "string \<Rightarrow> string \<Rightarrow> string \<Rightarrow> string \<Rightarrow> time \<Rightarrow> Envelope" where
  "workloadIdentityFactEnvelope = followupEnvelope ''workload_identity'' ''workload'' ''shared workload identity''"

definition deployableUnitCorrelationFactEnvelope :: "string \<Rightarrow> string \<Rightarrow> string \<Rightarrow> string \<Rightarrow> time \<Rightarrow> Envelope" where
  "deployableUnitCorrelationFactEnvelope = followupEnvelope ''deployable_unit_correlation'' ''repo'' ''deployable-unit correlation''"

definition workloadMaterializationFactEnvelope :: "string \<Rightarrow> string \<Rightarrow> string \<Rightarrow> string \<Rightarrow> time \<Rightarrow> Envelope" where
  "workloadMaterializationFactEnvelope = followupEnvelope ''workload_materialization'' ''workload'' ''workload materialization''"

definition codeCallMaterializationFactEnvelope :: "string \<Rightarrow> string \<Rightarrow> string \<Rightarrow> string \<Rightarrow> time \<Rightarrow> Envelope" where
  "codeCallMaterializationFactEnvelope = followupEnvelope ''code_call_materialization'' ''repo'' ''code-call materialization''"

definition deploymentMappingFactEnvelope :: "string \<Rightarrow> string \<Rightarrow> string \<Rightarrow> string \<Rightarrow> time \<Rightarrow> Envelope" where
  "deploymentMappingFactEnvelope = followupEnvelope ''deployment_mapping'' ''deployment'' ''deployment mapping''"

definition sqlRelationshipMaterializationFactEnvelope :: "string \<Rightarrow> string \<Rightarrow> string \<Rightarrow> string \<Rightarrow> time \<Rightarrow> Envelope" where
  "sqlRelationshipMaterializationFactEnvelope = followupEnvelope ''sql_relationship_materialization'' ''sql'' ''SQL relationship materialization''"

definition inheritanceMaterializationFactEnvelope :: "string \<Rightarrow> string \<Rightarrow> string \<Rightarrow> string \<Rightarrow> time \<Rightarrow> Envelope" where
  "inheritanceMaterializationFactEnvelope = followupEnvelope ''inheritance_materialization'' ''inheritance'' ''inheritance materialization''"

section \<open>The stream\<close>

text \<open>The content files, read again where the snapshot holds only their metadata; a file that is gone is passed over.\<close>

definition reread :: "(string \<Rightarrow> string option) \<Rightarrow> string \<Rightarrow> ContentFileMeta \<Rightarrow> ContentFileSnapshot option" where
  "reread disk repoPath m =
     (case disk (filepath_Join repoPath (cfm_RelativePath m)) of
        None \<Rightarrow> None
      | Some body \<Rightarrow> Some \<lparr>cfs_RelativePath = cfm_RelativePath m, cfs_Body = body, cfs_Digest = cfm_Digest m,
          cfs_Language = cfm_Language m, cfs_ArtifactType = cfm_ArtifactType m, cfs_TemplateDialect = cfm_TemplateDialect m,
          cfs_IACRelevant = cfm_IACRelevant m, cfs_CommitSHA = cfm_CommitSHA m\<rparr>)"

definition content_snapshots :: "(string \<Rightarrow> string option) \<Rightarrow> string \<Rightarrow> RepositorySnapshot \<Rightarrow> ContentFileSnapshot list" where
  "content_snapshots disk repoPath s =
     (if rsn_ContentFileMetas s \<noteq> [] then List.map_filter (reread disk repoPath) (rsn_ContentFileMetas s) else rsn_ContentFiles s)"

definition streamFacts ::
  "string \<Rightarrow> (string \<Rightarrow> string option) \<Rightarrow> (time \<Rightarrow> string) \<Rightarrow> string \<Rightarrow> Metadata \<Rightarrow> string \<Rightarrow> string \<Rightarrow> string \<Rightarrow> time
   \<Rightarrow> RepositorySnapshot \<Rightarrow> bool \<Rightarrow> Envelope list" where
  "streamFacts cwd disk rfc3339 repoPath repo sourceRunID scopeID generationID observedAt s isDependency =
     [repositoryFactEnvelope repoPath repo sourceRunID scopeID generationID observedAt (rsn_FileCount s) (rsn_ImportsMap s) isDependency]
     @ map (\<lambda>d. fileFactEnvelope cwd repoPath (md_ID repo) scopeID generationID observedAt d isDependency) (rsn_FileData s)
     @ map (contentFactEnvelope repoPath (md_ID repo) scopeID generationID observedAt) (content_snapshots disk repoPath s)
     @ map (contentEntityFactEnvelope rfc3339 repoPath (md_ID repo) scopeID generationID observedAt) (rsn_ContentEntities s)
     @ map (\<lambda>build. build repoPath (md_ID repo) scopeID generationID observedAt)
         [workloadIdentityFactEnvelope, deployableUnitCorrelationFactEnvelope, workloadMaterializationFactEnvelope,
          codeCallMaterializationFactEnvelope, deploymentMappingFactEnvelope, sqlRelationshipMaterializationFactEnvelope,
          inheritanceMaterializationFactEnvelope]"

definition buildScope :: "Metadata \<Rightarrow> IngestionScope" where
  "buildScope repo =
     (let member = (\<lambda>key value. if value = [] then [] else [(key, value)])
      in \<lparr>sc_ScopeID = ''git-repository-scope:'' @ md_ID repo, sc_SourceSystem = ''git'', sc_ScopeKind = ''repository'',
          sc_ParentScopeID = [], sc_CollectorKind = CollectorGit, sc_PartitionKey = md_ID repo, sc_ActiveGenerationID = [],
          sc_PreviousGenerationExists = False,
          sc_Metadata = Some ([(''repo_id'', md_ID repo), (''repo_name'', md_Name repo), (''source_key'', md_ID repo)]
            @ member ''repo_slug'' (md_RepoSlug repo) @ member ''remote_url'' (md_RemoteURL repo)
            @ member ''local_path'' (md_LocalPath repo))\<rparr>)"

definition buildGeneration :: "string \<Rightarrow> string \<Rightarrow> string \<Rightarrow> time \<Rightarrow> string \<Rightarrow> ScopeGeneration" where
  "buildGeneration scopeID sourceRunID repoPath observedAt freshnessHint =
     \<lparr>gen_GenerationID = StableID ''GitRepositorySnapshot'' [(''repo_path'', JStr repoPath), (''source_run_id'', JStr sourceRunID)],
      gen_ScopeID = scopeID, gen_ObservedAt = observedAt, gen_IngestedAt = observedAt, gen_Status = GenerationStatusPending,
      gen_TriggerKind = ''snapshot'', gen_FreshnessHint = freshnessHint\<rparr>"

text \<open>What is written to the hash: the two formats of files, then entities, then imports in key order.\<close>

definition freshness_text :: "RepositorySnapshot \<Rightarrow> string" where
  "freshness_text s =
     ''v2:file_count='' @ show_nat (rsn_FileCount s) @ [byte 10]
     @ concat (map (\<lambda>(path, digest). ''file:'' @ path @ '':'' @ digest @ [byte 10])
         (if rsn_ContentFileMetas s \<noteq> [] then map (\<lambda>m. (cfm_RelativePath m, cfm_Digest m)) (rsn_ContentFileMetas s)
          else map (\<lambda>f. (cfs_RelativePath f, cfs_Digest f)) (rsn_ContentFiles s)))
     @ ''entities='' @ show_nat (length (rsn_ContentEntities s)) @ [byte 10]
     @ concat (map (\<lambda>e. ''entity:'' @ ces_RelativePath e @ '':'' @ ces_EntityType e @ '':'' @ show_int (ces_StartLine e) @ [byte 10])
         (rsn_ContentEntities s))
     @ concat (map (\<lambda>(k, ts). ''import:'' @ k @ '':'' @ concat (map (\<lambda>t. t @ '','') (sort_by compare ts)) @ [byte 10])
         (sort_key fst (rsn_ImportsMap s)))"

definition snapshotFreshnessHint :: "RepositorySnapshot \<Rightarrow> string" where
  "snapshotFreshnessHint s = ''snapshot:'' @ hex_bytes (sha256 (freshness_text s))"

record StreamedGeneration =
  sg_Scope :: IngestionScope
  sg_Generation :: ScopeGeneration
  sg_Facts :: "Envelope list"
  sg_FactCount :: nat

definition buildStreamingGeneration ::
  "string \<Rightarrow> (string \<Rightarrow> string option) \<Rightarrow> (time \<Rightarrow> string) \<Rightarrow> string \<Rightarrow> Metadata \<Rightarrow> string \<Rightarrow> time
   \<Rightarrow> RepositorySnapshot \<Rightarrow> bool \<Rightarrow> StreamedGeneration" where
  "buildStreamingGeneration cwd disk rfc3339 repoPath repo sourceRunID observedAt s isDependency =
     (let sc = buildScope repo;
          g = buildGeneration (sc_ScopeID sc) sourceRunID repoPath observedAt (snapshotFreshnessHint s);
          contentFileCount = (if rsn_ContentFileMetas s \<noteq> [] then length (rsn_ContentFileMetas s) else length (rsn_ContentFiles s))
      in \<lparr>sg_Scope = sc, sg_Generation = g,
          sg_Facts = streamFacts cwd disk rfc3339 repoPath repo sourceRunID (sc_ScopeID sc) (gen_GenerationID g) observedAt s isDependency,
          sg_FactCount = 1 + length (rsn_FileData s) + contentFileCount + length (rsn_ContentEntities s) + 2\<rparr>)"

section \<open>Numbers survive\<close>

lemma digit_of_nat: "m < 10 \<Longrightarrow> digit (char_of (48 + m)) \<and> digit_value (char_of (48 + m)) = int m"
proof -
  assume "m < 10"
  then have "(of_char (char_of (48 + m) :: char) :: nat) = 48 + m" by simp
  then have "(of_char (char_of (48 + m) :: char) :: int) = int (48 + m)" by (metis of_nat_of_char)
  with \<open>m < 10\<close> show ?thesis by (simp add: digit_def digit_value_def)
qed

lemma digits_value_append: "digits_value a (s @ [c]) = 10 * digits_value a s + digit_value c"
  by (induction s arbitrary: a) simp_all

lemma show_nat_digits: "list_all digit (show_nat n) \<and> show_nat n \<noteq> [] \<and> digits_value 0 (show_nat n) = int n"
proof (induction n rule: show_nat.induct)
  case (1 n)
  show ?case
  proof (cases "n < 10")
    case True
    then show ?thesis using digit_of_nat [of n] by (simp add: show_nat.simps [of n])
  next
    case False
    have "10 * int (n div 10) + int (n mod 10) = int n"
      by (metis mult_div_mod_eq of_nat_add of_nat_mult of_nat_numeral)
    with 1 False digit_of_nat [of "n mod 10"] show ?thesis
      by (simp add: show_nat.simps [of n] digits_value_append)
  qed
qed

lemma literal_show_nat: "literal_value (show_nat n) = of_nat n"
proof -
  have d: "\<forall>c \<in> set (show_nat n). digit c" "show_nat n \<noteq> []" "digits_value 0 (show_nat n) = int n"
    using show_nat_digits [of n] by (simp_all add: list_all_iff)
  then have "digit (hd (show_nat n))" by simp
  then have minus: "hd (show_nat n) \<noteq> CHR ''-''" by (auto simp: digit_def)
  have whole: "takeWhile digit (show_nat n) = show_nat n" "dropWhile digit (show_nat n) = []" using d(1) by simp_all
  show ?thesis
    using minus d(3)
    by (simp add: literal_value_def Let_def whole fraction_part_def exponent_part_def scale_def)
qed

lemma digit_count_bound: "n < 2 ^ k \<Longrightarrow> 0 < k \<Longrightarrow> digit_count 2 n \<le> k"
proof (induction k arbitrary: n)
  case (Suc k)
  show ?case
  proof (cases "n < 2")
    case False
    then have "digit_count 2 n = Suc (digit_count 2 (n div 2))" by (simp add: digit_count.simps [of 2 n])
    moreover have "k \<noteq> 0" using False Suc.prems(1) by (cases k) auto
    moreover have "n div 2 < 2 ^ k" using Suc.prems(1) by simp
    ultimately show ?thesis using Suc.IH [of "n div 2"] by simp
  qed (simp add: digit_count.simps [of 2 n])
qed simp

lemma nearest_double_nat:
  assumes "0 < n" and "n < 2 ^ 53"
  shows "nearest_double (of_nat n) = of_nat n"
proof -
  have q: "quotient_of (of_nat n) = (int n, 1)" by (simp add: of_nat_rat quotient_of_Fract)
  have one: "digit_count 2 (Suc 0) = 1" by (simp add: digit_count.simps)
  have "digit_count 2 n \<le> 53" using digit_count_bound [OF assms(2)] by simp
  then have "exponent 2 (of_nat n) \<le> 52"
    by (simp add: exponent_def q one Let_def)
  then have "max (exponent 2 (of_nat n) - 52) (- 1074) \<le> 0" by simp
  then obtain k where u: "scale 2 (max (exponent 2 (of_nat n) - 52) (- 1074)) = 1 / 2 ^ k"
    by (cases "max (exponent 2 (of_nat n) - 52) (- 1074) = 0") (auto simp: scale_def intro: that [of 0])
  have whole: "(of_nat n :: rat) / (1 / 2 ^ k) = of_int (int n * 2 ^ k)" by simp
  have even: "round_even (of_int z) = z" for z by (simp add: round_even_def)
  show ?thesis unfolding nearest_double_def Let_def u whole even by simp
qed

text \<open>A number below \<open>2 ^ 53\<close> that a fact carries is the number the projector reads.\<close>

lemma payloadInt_number:
  assumes "map_of p key = Some (number n)" and "0 \<le> n" and "n < 2 ^ 53"
  shows "payloadInt p key = Some n"
proof -
  have "literal_value (show_int n) = of_int n" using assms(2) by (simp add: show_int_def literal_show_nat of_nat_nat)
  moreover have "literal_double (show_int n) = of_int n"
  proof (cases "n = 0")
    case False
    then have "nearest_double (of_nat (nat n)) = of_nat (nat n)" using assms(2,3) by (intro nearest_double_nat) auto
    then show ?thesis using False assms(2) calculation by (simp add: literal_double_def Let_def of_nat_nat)
  qed (use calculation in \<open>simp add: literal_double_def\<close>)
  ultimately show ?thesis using assms by (simp add: payloadInt_def number_def int_of_double_def Let_def)
qed

section \<open>What the projector makes of the stream\<close>

lemma first_of_each_distinct: "distinct (map key xs) \<Longrightarrow> key ` set xs \<inter> set seen = {} \<Longrightarrow> first_of_each key seen xs = xs"
  by (induction xs arbitrary: seen) auto

lemma envelope_fields [simp]:
  "ev_ScopeID (factEnvelope k s g t key p uri) = s" "ev_GenerationID (factEnvelope k s g t key p uri) = g"
  "ev_FactKind (factEnvelope k s g t key p uri) = k" "ev_IsTombstone (factEnvelope k s g t key p uri) = False"
  "fact_payload (factEnvelope k s g t key p uri) = p" "ev_ObservedAt (factEnvelope k s g t key p uri) = t"
  by (simp_all add: factEnvelope_def fact_payload_def payload_map_def)

lemmas envelope_defs = repositoryFactEnvelope_def fileFactEnvelope_def contentFactEnvelope_def contentEntityFactEnvelope_def
  followupEnvelope_def workloadIdentityFactEnvelope_def deployableUnitCorrelationFactEnvelope_def
  workloadMaterializationFactEnvelope_def codeCallMaterializationFactEnvelope_def deploymentMappingFactEnvelope_def
  sqlRelationshipMaterializationFactEnvelope_def inheritanceMaterializationFactEnvelope_def

lemma streamFacts_boundary:
  assumes "f \<in> set (streamFacts cwd disk rfc repoPath repo runID s g t snap dep)"
  shows "ev_ScopeID f = s" and "ev_GenerationID f = g" and "\<not> ev_IsTombstone f"
  using assms by (auto simp: streamFacts_def envelope_defs Let_def)

text \<open>A text that survives the trimming.\<close>

definition kept :: "string \<Rightarrow> bool" where
  "kept s \<longleftrightarrow> s \<noteq> [] \<and> trim_space s = s"

lemma payloadString_kept: "map_of p key = Some (JStr s) \<Longrightarrow> kept s \<Longrightarrow> payloadString p key = Some s"
  by (simp add: payloadString_def kept_def)

definition good_entity :: "ContentEntitySnapshot \<Rightarrow> bool" where
  "good_entity e \<longleftrightarrow> kept (ces_EntityID e) \<and> kept (ces_RelativePath e) \<and> kept (ces_EntityName e) \<and> kept (ces_EntityType e)
     \<and> 0 < ces_StartLine e \<and> ces_StartLine e \<le> ces_EndLine e \<and> ces_EndLine e < 2 ^ 53"

definition graph_entity :: "ContentEntitySnapshot \<Rightarrow> bool" where
  "graph_entity e \<longleftrightarrow> (case EntityTypeLabel (ces_EntityType e) of None \<Rightarrow> False | Some l \<Rightarrow> l \<noteq> ''Module'' \<and> l \<noteq> ''Parameter'')"

lemma entity_payload:
  defines "f rfc repoPath repoID s g t e \<equiv> contentEntityFactEnvelope rfc repoPath repoID s g t e"
  assumes "good_entity e"
  shows "payloadString (fact_payload (f rfc repoPath repoID s g t e)) ''entity_id'' = Some (ces_EntityID e)"
    and "payloadString (fact_payload (f rfc repoPath repoID s g t e)) ''relative_path'' = Some (ces_RelativePath e)"
    and "payloadString (fact_payload (f rfc repoPath repoID s g t e)) ''content_path'' = None"
    and "payloadString (fact_payload (f rfc repoPath repoID s g t e)) ''entity_kind'' = None"
    and "payloadString (fact_payload (f rfc repoPath repoID s g t e)) ''entity_type'' = Some (ces_EntityType e)"
    and "payloadString (fact_payload (f rfc repoPath repoID s g t e)) ''entity_name'' = Some (ces_EntityName e)"
    and "payloadInt (fact_payload (f rfc repoPath repoID s g t e)) ''start_line'' = Some (ces_StartLine e)"
    and "payloadInt (fact_payload (f rfc repoPath repoID s g t e)) ''end_line'' = Some (ces_EndLine e)"
  using assms(2)
  by (simp_all add: f_def good_entity_def contentEntityFactEnvelope_def payloadString_kept payloadInt_number)
    (simp_all add: payloadString_def text_member_def number_member_def split: option.split)

lemma content_kind: "NormalizeFactKind ''content_entity'' = FactKindParsedEntityObserved"
  by code_simp

definition content_row_of :: "ContentEntitySnapshot \<Rightarrow> ContentEntity \<Rightarrow> bool" where
  "content_row_of e c \<longleftrightarrow> ent_EntityID c = ces_EntityID e \<and> ent_Path c = ces_RelativePath e \<and> ent_EntityType c = ces_EntityType e
     \<and> ent_EntityName c = ces_EntityName e \<and> ent_StartLine c = ces_StartLine e \<and> ent_EndLine c = ces_EndLine e"

definition graph_row_of :: "ContentEntitySnapshot \<Rightarrow> EntityRow \<Rightarrow> bool" where
  "graph_row_of e r \<longleftrightarrow> er_EntityID r = ces_EntityID e \<and> er_RelativePath r = ces_RelativePath e
     \<and> Some (er_Label r) = EntityTypeLabel (ces_EntityType e) \<and> er_EntityName r = ces_EntityName e
     \<and> er_StartLine r = ces_StartLine e \<and> er_EndLine r = ces_EndLine e"

lemma entity_content_row:
  assumes "good_entity e"
  shows "\<exists>c. buildContentEntityRecord digest repoID (contentEntityFactEnvelope rfc repoPath rid s g t e) = Some c \<and> content_row_of e c"
proof -
  let ?f = "contentEntityFactEnvelope rfc repoPath rid s g t e"
  note p = entity_payload [OF assms, of rfc repoPath rid s g t]
  have type: "entity_type_of ?f = ces_EntityType e" by (simp add: entity_type_of_def p)
  have lines: "entity_start_line (fact_payload ?f) = ces_StartLine e" "entity_end_line (fact_payload ?f) = ces_EndLine e"
    using assms by (simp_all add: entity_end_line_def entity_start_line_def p good_entity_def)
  have "\<not> blank (ces_EntityType e)" using assms by (simp add: good_entity_def kept_def blank_def)
  then show ?thesis by (simp add: buildContentEntityRecord_def Let_def p type lines content_row_of_def)
qed

lemma entity_graph_row:
  assumes "good_entity e" and "graph_entity e"
  shows "\<exists>r. extract_entity digest repoID base (contentEntityFactEnvelope rfc repoPath rid s g t e) = Some r \<and> graph_row_of e r"
proof -
  note p = entity_payload [OF assms(1), of rfc repoPath rid s g t]
  obtain l where l: "EntityTypeLabel (ces_EntityType e) = Some l" "l \<noteq> ''Module''" "l \<noteq> ''Parameter''"
    using assms(2) by (auto simp: graph_entity_def split: option.splits)
  have "ces_EntityType e \<noteq> []" "ces_EntityID e \<noteq> []" using assms(1) by (simp_all add: good_entity_def kept_def)
  moreover have "\<not> ev_IsTombstone (contentEntityFactEnvelope rfc repoPath rid s g t e)" by (simp add: contentEntityFactEnvelope_def)
  ultimately show ?thesis using l by (simp add: extract_entity_def Let_def p graph_row_of_def)
qed

definition followup_domains :: "Domain list" where
  "followup_domains = [DomainWorkloadIdentity, DomainDeployableUnitCorrelation, DomainWorkloadMaterialization,
     DomainCodeCallMaterialization, DomainDeploymentMapping, DomainSQLRelationshipMaterialization, DomainInheritanceMaterialization]"

lemma followup_intent:
  assumes "d \<in> set knownDomains"
  shows "\<exists>i. buildReducerIntent (followupEnvelope d k reason repoPath rid s g t) = Some i \<and> ri_Domain i = d
    \<and> ri_ScopeID i = s \<and> ri_GenerationID i = g"
proof -
  let ?f = "followupEnvelope d k reason repoPath rid s g t"
  have "kept d" using known_solid [OF assms] by (simp add: kept_def trim_space_solid) (simp add: solid_def)
  then have "payloadString (fact_payload ?f) ''reducer_domain'' = Some d"
    by (intro payloadString_kept) (simp_all add: followupEnvelope_def)
  moreover have "ParseDomain d = Inr d"
    using assms known_solid [OF assms] by (simp add: ParseDomain_def trim_space_solid Let_def)
  ultimately show ?thesis by (simp add: buildReducerIntent_def Let_def) (simp add: followupEnvelope_def)
qed

lemma followups_streamed:
  assumes "d \<in> set followup_domains"
  shows "\<exists>k reason. followupEnvelope d k reason repoPath (md_ID repo) s g t \<in> set (streamFacts cwd disk rfc repoPath repo runID s g t snap dep)"
  using assms
  by (auto simp: followup_domains_def domain_defs streamFacts_def workloadIdentityFactEnvelope_def deployableUnitCorrelationFactEnvelope_def
      workloadMaterializationFactEnvelope_def codeCallMaterializationFactEnvelope_def deploymentMappingFactEnvelope_def
      sqlRelationshipMaterializationFactEnvelope_def inheritanceMaterializationFactEnvelope_def)

lemma followup_known: "d \<in> set followup_domains \<Longrightarrow> d \<in> set knownDomains"
  by (auto simp: followup_domains_def knownDomains_def)

lemma map_filter_mem: "x \<in> set xs \<Longrightarrow> f x = Some y \<Longrightarrow> y \<in> set (List.map_filter f xs)"
  by (force simp: List.map_filter_def)

text \<open>What a projection is when all facts lie within the generation.\<close>

lemma buildProjection_in_boundary:
  assumes "in_boundary s g facts"
  shows "buildProjection digest s g facts = Inr
    \<lparr>prj_canonical = buildCanonicalMaterialization digest s g facts,
     prj_contentMaterialization = \<lparr>ctm_RepoID = scopeRepoID s, ctm_ScopeID = sc_ScopeID s, ctm_GenerationID = gen_GenerationID g,
       ctm_SourceSystem = sc_SourceSystem s, ctm_Records = List.map_filter buildContentRecord facts,
       ctm_Entities = List.map_filter (buildContentEntityRecord digest (scopeRepoID s)) facts\<rparr>,
     prj_reducerIntents = sort_by compare_intents (concat (map fact_intents facts))\<rparr>"
  by (simp add: buildProjection_def project_facts_within [OF assms])

lemma streamFacts_in_boundary:
  "in_boundary (buildScope repo) (buildGeneration (sc_ScopeID (buildScope repo)) runID repoPath t hint)
     (streamFacts cwd disk rfc repoPath repo runID (sc_ScopeID (buildScope repo))
       (gen_GenerationID (buildGeneration (sc_ScopeID (buildScope repo)) runID repoPath t hint)) t snap dep)"
  using streamFacts_boundary by (fastforce simp: in_boundary_def list_all_iff)

lemma stream_entities_extracted:
  assumes "distinct (map ev_FactID (filter (\<lambda>f. NormalizeFactKind (ev_FactKind f) = FactKindParsedEntityObserved) fs))"
    and "fs \<noteq> []" and "f \<in> set fs" and "ev_FactKind f = ''content_entity''"
    and "\<And>repoID base. \<exists>r. extract_entity digest repoID base f = Some r \<and> P r"
  shows "\<exists>r \<in> set (mat_Entities (buildCanonicalMaterialization digest s g fs)). P r"
proof -
  obtain repoID base where m: "mat_Entities (buildCanonicalMaterialization digest s g fs) = extractEntities digest fs repoID base"
    using assms(2) by (simp add: buildCanonicalMaterialization_def Let_def)
  have "f \<in> set (FilterEntityFacts fs)"
    using assms(3,4) first_of_each_distinct [OF assms(1), of "[]"]
    by (simp add: FilterEntityFacts_def filterFactsByKind_def content_kind)
  moreover obtain r where "extract_entity digest repoID base f = Some r" "P r" using assms(5) by blast
  ultimately show ?thesis unfolding m extractEntities_def using map_filter_mem by metis
qed

text \<open>A content record is no deletion where the fact is no tombstone.\<close>

lemma records_kept: "buildContentRecord f = Some c \<Longrightarrow> co_Deleted c = ev_IsTombstone f"
  by (auto simp: buildContentRecord_def Let_def split: option.splits if_splits)

lemma entities_kept: "buildContentEntityRecord digest repoID f = Some c \<Longrightarrow> ent_Deleted c = ev_IsTombstone f"
  by (auto simp: buildContentEntityRecord_def Let_def split: option.splits if_splits)

lemma envelope_kinds:
  "ev_FactKind (repositoryFactEnvelope a md c d e f g h i) = ''repository''"
  "ev_FactKind (fileFactEnvelope a b c d e f m i) = ''file''"
  "ev_FactKind (contentFactEnvelope a b c d f cf) = ''content''"
  "ev_FactKind (contentEntityFactEnvelope rfc a b c d f ce) = ''content_entity''"
  "ev_FactKind (followupEnvelope k l n a b c d f) = ''shared_followup''"
  by (simp_all add: envelope_defs Let_def)

lemmas followup_defs = workloadIdentityFactEnvelope_def deployableUnitCorrelationFactEnvelope_def
  workloadMaterializationFactEnvelope_def codeCallMaterializationFactEnvelope_def deploymentMappingFactEnvelope_def
  sqlRelationshipMaterializationFactEnvelope_def inheritanceMaterializationFactEnvelope_def

lemma streamFacts_kinds:
  "set (map ev_FactKind (streamFacts cwd disk rfc repoPath repo runID s g t snap dep))
     \<subseteq> {''repository'', ''file'', ''content'', ''content_entity'', ''shared_followup''}"
  unfolding streamFacts_def followup_defs map_append set_append list.map map_map o_def envelope_kinds
  by (auto simp del: char.inject)

lemma stream_kinds:
  assumes "f \<in> set (streamFacts cwd disk rfc repoPath repo runID s g t snap dep)"
  shows "NormalizeFactKind (ev_FactKind f) = FactKindParsedEntityObserved \<longleftrightarrow> ev_FactKind f = ''content_entity''"
proof -
  have other: "NormalizeFactKind k \<noteq> FactKindParsedEntityObserved" if "k \<in> {''repository'', ''file'', ''content'', ''shared_followup''}" for k
  proof -
    have "NormalizeFactKind ''repository'' \<noteq> FactKindParsedEntityObserved" "NormalizeFactKind ''file'' \<noteq> FactKindParsedEntityObserved"
      "NormalizeFactKind ''content'' \<noteq> FactKindParsedEntityObserved" "NormalizeFactKind ''shared_followup'' \<noteq> FactKindParsedEntityObserved"
      by code_simp+
    with that show ?thesis by blast
  qed
  have "ev_FactKind f = ''content_entity'' \<or> ev_FactKind f \<in> {''repository'', ''file'', ''content'', ''shared_followup''}"
    using streamFacts_kinds [of cwd disk rfc repoPath repo runID s g t snap dep] assms by (simp only: set_map) blast
  then show ?thesis
  proof
    assume "ev_FactKind f = ''content_entity''"
    then show ?thesis using content_kind by metis
  next
    assume k: "ev_FactKind f \<in> {''repository'', ''file'', ''content'', ''shared_followup''}"
    have "ev_FactKind f \<noteq> ''content_entity''" using other [OF k] content_kind by metis
    with other [OF k] show ?thesis by blast
  qed
qed

text \<open>C8:
  From the collector to the projector. Every generation the collector streams can be projected; if no two
  of its entity facts share an identifier, each entity of the snapshot whose fields are trimmed and whose
  lines are in order becomes a content row with its identifier, path, name and lines, and, unless it is a
  module, a parameter or of a type without a label, a graph row with the same ones; each of the seven
  follow-up domains gets a reducer intent; and nothing is marked as deleted.
\<close>

theorem collected_generation_projects:
  assumes "sg = buildStreamingGeneration cwd disk rfc repoPath repo runID t snap dep"
    and "distinct (map ev_FactID (filter (\<lambda>f. ev_FactKind f = ''content_entity'') (sg_Facts sg)))"
  shows "\<exists>p. buildProjection digest (sg_Scope sg) (sg_Generation sg) (sg_Facts sg) = Inr p
    \<and> (\<forall>e \<in> set (rsn_ContentEntities snap). good_entity e \<longrightarrow>
         (\<exists>c \<in> set (ctm_Entities (prj_contentMaterialization p)). content_row_of e c)
         \<and> (graph_entity e \<longrightarrow> (\<exists>r \<in> set (mat_Entities (prj_canonical p)). graph_row_of e r)))
    \<and> (\<forall>d \<in> set followup_domains. \<exists>i \<in> set (prj_reducerIntents p). ri_Domain i = d)
    \<and> \<not> list_ex co_Deleted (ctm_Records (prj_contentMaterialization p))
    \<and> \<not> list_ex ent_Deleted (ctm_Entities (prj_contentMaterialization p))"
proof -
  let ?s = "sg_Scope sg" and ?g = "sg_Generation sg" and ?fs = "sg_Facts sg"
  have scope: "?s = buildScope repo"
    and generation: "?g = buildGeneration (sc_ScopeID (buildScope repo)) runID repoPath t (snapshotFreshnessHint snap)"
    and stream: "?fs = streamFacts cwd disk rfc repoPath repo runID (sc_ScopeID ?s) (gen_GenerationID ?g) t snap dep"
    using assms(1) by (simp_all add: buildStreamingGeneration_def Let_def)
  have "in_boundary ?s ?g ?fs" unfolding stream scope generation by (rule streamFacts_in_boundary)
  note built = buildProjection_in_boundary [OF this, of digest]
  have "filter (\<lambda>f. NormalizeFactKind (ev_FactKind f) = FactKindParsedEntityObserved) ?fs = filter (\<lambda>f. ev_FactKind f = ''content_entity'') ?fs"
    by (rule filter_cong [OF refl]) (use stream_kinds stream in metis)
  with assms(2) have ids: "distinct (map ev_FactID (filter (\<lambda>f. NormalizeFactKind (ev_FactKind f) = FactKindParsedEntityObserved) ?fs))"
    by metis
  let ?entity = "contentEntityFactEnvelope rfc repoPath (md_ID repo) (sc_ScopeID ?s) (gen_GenerationID ?g) t"
  have entity: "?entity e \<in> set ?fs" if "e \<in> set (rsn_ContentEntities snap)" for e
    using that unfolding stream by (simp add: streamFacts_def)
  have rows: "\<exists>c \<in> set (List.map_filter (buildContentEntityRecord digest (scopeRepoID ?s)) ?fs). content_row_of e c"
    if "e \<in> set (rsn_ContentEntities snap)" "good_entity e" for e
    using entity_content_row [OF that(2)] map_filter_mem [OF entity [OF that(1)]] by metis
  have graph: "\<exists>r \<in> set (mat_Entities (buildCanonicalMaterialization digest ?s ?g ?fs)). graph_row_of e r"
    if "e \<in> set (rsn_ContentEntities snap)" "good_entity e" "graph_entity e" for e
  proof (rule stream_entities_extracted [OF ids _ entity [OF that(1)]])
    show "?fs \<noteq> []" unfolding stream by (simp add: streamFacts_def)
    show "ev_FactKind (?entity e) = ''content_entity''" by (simp add: contentEntityFactEnvelope_def)
  qed (rule entity_graph_row [OF that(2,3)])
  have intents: "\<exists>i \<in> set (concat (map fact_intents ?fs)). ri_Domain i = d" if d: "d \<in> set followup_domains" for d
  proof -
    obtain k reason where f: "followupEnvelope d k reason repoPath (md_ID repo) (sc_ScopeID ?s) (gen_GenerationID ?g) t \<in> set ?fs"
      using followups_streamed [OF d] unfolding stream by metis
    obtain i where i: "buildReducerIntent (followupEnvelope d k reason repoPath (md_ID repo) (sc_ScopeID ?s) (gen_GenerationID ?g) t) = Some i"
      "ri_Domain i = d"
      using followup_intent [OF followup_known [OF d]] by metis
    from i(1) have "i \<in> set (fact_intents (followupEnvelope d k reason repoPath (md_ID repo) (sc_ScopeID ?s) (gen_GenerationID ?g) t))"
      by (simp add: fact_intents_def)
    with f i(2) show ?thesis by auto
  qed
  have alive: "\<not> ev_IsTombstone f" if "f \<in> set ?fs" for f using streamFacts_boundary(3) that unfolding stream by metis
  have "\<not> list_ex co_Deleted (List.map_filter buildContentRecord ?fs)"
    using alive records_kept by (fastforce simp: list_ex_iff List.map_filter_def)
  moreover have "\<not> list_ex ent_Deleted (List.map_filter (buildContentEntityRecord digest (scopeRepoID ?s)) ?fs)"
    using alive entities_kept by (fastforce simp: list_ex_iff List.map_filter_def)
  ultimately show ?thesis using rows graph intents unfolding built by (intro exI conjI) (rule refl, simp_all)
qed

section \<open>The count and the body\<close>

text \<open>The count that goes with the stream knows two follow-ups, the stream has seven.\<close>

theorem fact_count_short:
  assumes "rsn_ContentFileMetas snap = []"
  shows "length (sg_Facts (buildStreamingGeneration cwd disk rfc repoPath repo runID t snap dep)) =
    sg_FactCount (buildStreamingGeneration cwd disk rfc repoPath repo runID t snap dep) + 5"
  using assms by (simp add: buildStreamingGeneration_def streamFacts_def content_snapshots_def Let_def)

text \<open>
  The content store gets the body of a file trimmed, under the digest of the body that was read: blank lines
  at its start are lost, and with them the lines its entities point to.
\<close>

theorem content_body_trimmed:
  assumes "kept (cfs_RelativePath f)"
  shows "\<exists>c. buildContentRecord (contentFactEnvelope repoPath rid s g t f) = Some c \<and> co_Path c = cfs_RelativePath f
    \<and> co_Body c = trim_space (cfs_Body f) \<and> co_Digest c = trim_space (cfs_Digest f)"
proof -
  let ?p = "fact_payload (contentFactEnvelope repoPath rid s g t f)"
  have "map_of ?p ''content_path'' = Some (JStr (cfs_RelativePath f))" "map_of ?p ''content_body'' = Some (JStr (cfs_Body f))"
    "map_of ?p ''content_digest'' = Some (JStr (cfs_Digest f))"
    by (simp_all add: contentFactEnvelope_def)
  then show ?thesis
    using assms by (auto simp: buildContentRecord_def Let_def payloadHasKey_def payloadString_def kept_def)
qed

section \<open>Example\<close>

definition example_repo :: Metadata where
  "example_repo = \<lparr>md_ID = ''repository:r_1'', md_Name = ''shop'', md_RepoSlug = [], md_RemoteURL = [], md_LocalPath = ''/src/shop'',
     md_HasRemote = False\<rparr>"

definition example_entity :: ContentEntitySnapshot where
  "example_entity = \<lparr>ces_EntityID = ''e1'', ces_RelativePath = ''main.go'', ces_EntityType = ''Function'', ces_EntityName = ''main'',
     ces_StartLine = 3, ces_EndLine = 5, ces_StartByte = None, ces_EndByte = None, ces_Language = ''go'', ces_ArtifactType = [],
     ces_TemplateDialect = [], ces_IACRelevant = None, ces_SourceCache = [], ces_Metadata = [], ces_IndexedAt = 7\<rparr>"

definition example_snapshot :: RepositorySnapshot where
  "example_snapshot = \<lparr>rsn_FileCount = 1, rsn_ImportsMap = [], rsn_FileData = [[(''path'', JStr ''/src/shop/main.go'')]],
     rsn_ContentFiles = [], rsn_ContentEntities = [example_entity], rsn_ContentFileMetas = []\<rparr>"

definition example_stream :: StreamedGeneration where
  "example_stream = buildStreamingGeneration ''/'' (\<lambda>_. None) (\<lambda>_. ''7'') ''/src/shop'' example_repo ''run-1'' 7 example_snapshot False"

lemma collected_generation_projects_witness:
  "\<exists>p. buildProjection (\<lambda>_. []) (sg_Scope example_stream) (sg_Generation example_stream) (sg_Facts example_stream) = Inr p
    \<and> (\<exists>r \<in> set (mat_Entities (prj_canonical p)). er_EntityID r = ''e1'' \<and> er_StartLine r = 3)
    \<and> (\<exists>i \<in> set (prj_reducerIntents p). ri_Domain i = DomainWorkloadIdentity)"
proof -
  have one: "distinct (map ev_FactID (filter (\<lambda>f. ev_FactKind f = ''content_entity'') (sg_Facts example_stream)))"
    by (simp add: example_stream_def buildStreamingGeneration_def Let_def streamFacts_def followup_defs envelope_kinds
        content_snapshots_def example_snapshot_def)
  have "good_entity example_entity"
    by (simp add: good_entity_def kept_def example_entity_def trim_space_solid solid_simps)
  moreover have "graph_entity example_entity" by code_simp
  moreover have "example_entity \<in> set (rsn_ContentEntities example_snapshot)" by (simp add: example_snapshot_def)
  moreover have "DomainWorkloadIdentity \<in> set followup_domains" by (simp add: followup_domains_def)
  ultimately obtain p r i where p: "buildProjection (\<lambda>_. []) (sg_Scope example_stream) (sg_Generation example_stream) (sg_Facts example_stream) = Inr p"
    and r: "r \<in> set (mat_Entities (prj_canonical p))" "graph_row_of example_entity r"
    and i: "i \<in> set (prj_reducerIntents p)" "ri_Domain i = DomainWorkloadIdentity"
    using collected_generation_projects [OF example_stream_def one] by metis
  have "er_EntityID r = ''e1''" "er_StartLine r = 3" using r(2) by (simp_all add: graph_row_of_def example_entity_def)
  with p r(1) i show ?thesis by blast
qed

end
