(* ===== verification/ContentStore.thy ===== *)
theory ContentStore
  imports GitFacts
begin

text \<open>
  \<open>go/internal/storage/postgres/content_writer.go\<close> and \<open>content_writer_references.go\<close>: the content store of a repository's
  files and entities over its three tables. \<open>digest1\<close> is \<open>crypto/sha1.Sum\<close>, \<open>jsonb\<close> the cast of text to JSONB (the text the
  server prints, or a failure), \<open>references\<close> what the package \<open>contentrefs\<close> finds in a body, as pairs of kind and value,
  \<open>clock\<close> what \<open>w.now\<close> returns. The statements run one by one, without a transaction; of what a statement may
  fail with, the constraints, the range of INTEGER and the cast are modelled.
\<close>

section \<open>Tables\<close>

record ContentFileRow =
  cfr_RepoID :: string
  cfr_RelativePath :: string
  cfr_CommitSHA :: "string option"
  cfr_Content :: string
  cfr_ContentHash :: string
  cfr_LineCount :: nat
  cfr_Language :: "string option"
  cfr_ArtifactType :: "string option"
  cfr_TemplateDialect :: "string option"
  cfr_IACRelevant :: "bool option"
  cfr_IndexedAt :: time

record ContentEntityRow =
  cer_EntityID :: string
  cer_RepoID :: string
  cer_RelativePath :: string
  cer_EntityType :: string
  cer_EntityName :: string
  cer_StartLine :: int
  cer_EndLine :: int
  cer_StartByte :: "int option"
  cer_EndByte :: "int option"
  cer_Language :: "string option"
  cer_ArtifactType :: "string option"
  cer_TemplateDialect :: "string option"
  cer_IACRelevant :: "bool option"
  cer_SourceCache :: string
  cer_Metadata :: string
  cer_IndexedAt :: time

record ContentReferenceRow =
  crr_RepoID :: string
  crr_Path :: string
  crr_Kind :: string
  crr_Value :: string
  crr_IndexedAt :: time

record ContentDb =
  cdb_Files :: "ContentFileRow list"
  cdb_Entities :: "ContentEntityRow list"
  cdb_References :: "ContentReferenceRow list"

definition file_key :: "ContentFileRow \<Rightarrow> string \<times> string" where
  "file_key r = (cfr_RepoID r, cfr_RelativePath r)"

definition reference_key :: "ContentReferenceRow \<Rightarrow> string \<times> string \<times> string \<times> string" where
  "reference_key r = (crr_RepoID r, crr_Path r, crr_Kind r, crr_Value r)"

definition content_ok :: "ContentDb \<Rightarrow> bool" where
  "content_ok db \<longleftrightarrow> distinct (map file_key (cdb_Files db)) \<and> distinct (map cer_EntityID (cdb_Entities db))
     \<and> distinct (map reference_key (cdb_References db))"

definition contentFileBatchSize :: nat where "contentFileBatchSize = 500"
definition contentEntityBatchSize :: nat where "contentEntityBatchSize = 300"
definition contentReferenceBatchSize :: nat where "contentReferenceBatchSize = 500"

record ContentWriter =
  cwr_HasDatabase :: bool
  cwr_EntityBatchSize :: int

definition NewContentWriter :: "bool \<Rightarrow> ContentWriter" where
  "NewContentWriter hasDatabase = \<lparr>cwr_HasDatabase = hasDatabase, cwr_EntityBatchSize = 0\<rparr>"

definition WithEntityBatchSize :: "int \<Rightarrow> ContentWriter \<Rightarrow> ContentWriter" where
  "WithEntityBatchSize n w = (if 0 < n then w\<lparr>cwr_EntityBatchSize := n\<rparr> else w)"

definition effectiveEntityBatchSize :: "ContentWriter \<Rightarrow> nat" where
  "effectiveEntityBatchSize w = (if 0 < cwr_EntityBatchSize w then nat (cwr_EntityBatchSize w) else contentEntityBatchSize)"

section \<open>Values\<close>

definition fileContentHash :: "(string \<Rightarrow> nat list) \<Rightarrow> ContentRecord \<Rightarrow> string" where
  "fileContentHash digest1 r = (if \<not> blank (co_Digest r) then co_Digest r else hex_bytes (digest1 (co_Body r)))"

definition lineCount :: "string \<Rightarrow> nat" where
  "lineCount text =
     (if text = [] then 0
      else (let n = length (filter (\<lambda>c. c = byte 10) text) in if last text = byte 10 then n else n + 1))"

definition optionalString :: "string \<Rightarrow> string option" where
  "optionalString v = nullif (trim_space v)"

definition optionalMetadataText :: "(string \<times> string) list option \<Rightarrow> string \<Rightarrow> string option" where
  "optionalMetadataText metadata key = Option.bind (Option.bind metadata (\<lambda>m. map_of m key)) optionalString"

definition optionalMetadataBool :: "(string \<times> string) list option \<Rightarrow> string \<Rightarrow> bool option result" where
  "optionalMetadataBool metadata key =
     (case optionalMetadataText metadata key of
        None \<Rightarrow> Inr None
      | Some text \<Rightarrow>
          (case ParseBool text of None \<Rightarrow> Inl (Fmt ''parse as bool'' [key, text]) | Some b \<Rightarrow> Inr (Some b)))"

definition metadataJSON :: "payload option \<Rightarrow> string" where
  "metadataJSON m = (case m of Some (kv # rest) \<Rightarrow> encode_json (JObj (kv # rest)) | _ \<Rightarrow> ''{}'')"

definition prepare_file :: "(string \<Rightarrow> nat list) \<Rightarrow> string \<Rightarrow> time \<Rightarrow> ContentRecord \<Rightarrow> ContentFileRow result" where
  "prepare_file digest1 repoID indexedAt r =
     (case optionalMetadataBool (co_Metadata r) ''iac_relevant'' of
        Inl e \<Rightarrow> Inl (Wrap ''iac_relevant metadata'' e)
      | Inr iac \<Rightarrow> Inr \<lparr>cfr_RepoID = repoID, cfr_RelativePath = co_Path r,
          cfr_CommitSHA = optionalMetadataText (co_Metadata r) ''commit_sha'', cfr_Content = co_Body r,
          cfr_ContentHash = fileContentHash digest1 r, cfr_LineCount = lineCount (co_Body r),
          cfr_Language = optionalMetadataText (co_Metadata r) ''language'',
          cfr_ArtifactType = optionalMetadataText (co_Metadata r) ''artifact_type'',
          cfr_TemplateDialect = optionalMetadataText (co_Metadata r) ''template_dialect'',
          cfr_IACRelevant = iac, cfr_IndexedAt = indexedAt\<rparr>)"

definition prepare_entity :: "string \<Rightarrow> time \<Rightarrow> ContentEntity \<Rightarrow> ContentEntityRow" where
  "prepare_entity repoID indexedAt e =
     \<lparr>cer_EntityID = ent_EntityID e, cer_RepoID = repoID, cer_RelativePath = ent_Path e, cer_EntityType = ent_EntityType e,
      cer_EntityName = ent_EntityName e, cer_StartLine = ent_StartLine e,
      cer_EndLine = (if ent_EndLine e < ent_StartLine e then ent_StartLine e else ent_EndLine e),
      cer_StartByte = ent_StartByte e, cer_EndByte = ent_EndByte e, cer_Language = optionalString (ent_Language e),
      cer_ArtifactType = optionalString (ent_ArtifactType e), cer_TemplateDialect = optionalString (ent_TemplateDialect e),
      cer_IACRelevant = ent_IACRelevant e, cer_SourceCache = trim_space (ent_SourceCache e),
      cer_Metadata = metadataJSON (ent_Metadata e), cer_IndexedAt = indexedAt\<rparr>"

definition validate_entity :: "ContentEntity \<Rightarrow> error option" where
  "validate_entity e = first_err
     [check (blank (ent_EntityID e)) (Required ''content entity id''),
      check (blank (ent_Path e)) (Required ''content entity path''),
      check (blank (ent_EntityType e)) (Fmt ''content entity type is required'' [ent_EntityID e]),
      check (blank (ent_EntityName e)) (Fmt ''content entity name is required'' [ent_EntityID e]),
      check (ent_StartLine e \<le> 0) (Fmt ''content entity start line is required'' [ent_EntityID e])]"

section \<open>Statements\<close>

definition delete_file :: "string \<Rightarrow> string \<Rightarrow> ContentDb \<Rightarrow> ContentDb" where
  "delete_file repoID path db =
     db\<lparr>cdb_Entities := filter (\<lambda>r. \<not> (cer_RepoID r = repoID \<and> cer_RelativePath r = path)) (cdb_Entities db),
        cdb_References := filter (\<lambda>r. \<not> (crr_RepoID r = repoID \<and> crr_Path r = path)) (cdb_References db),
        cdb_Files := filter (\<lambda>r. file_key r \<noteq> (repoID, path)) (cdb_Files db)\<rparr>"

definition delete_entity :: "string \<Rightarrow> string \<Rightarrow> ContentDb \<Rightarrow> ContentDb" where
  "delete_entity repoID entityID db =
     db\<lparr>cdb_Entities := filter (\<lambda>r. \<not> (cer_RepoID r = repoID \<and> cer_EntityID r = entityID)) (cdb_Entities db)\<rparr>"

text \<open>All columns but the key take the new values.\<close>

definition upsertPreparedContentReferenceBatch :: "ContentReferenceRow list \<Rightarrow> ContentDb \<Rightarrow> error option \<times> ContentDb" where
  "upsertPreparedContentReferenceBatch batch db =
     (if batch = [] then (None, db)
      else (case upsert_batch reference_key (\<lambda>old new. new) batch (cdb_References db) of
          Inl e \<Rightarrow> (Some (Wrap ''upsert content_file_references batch'' e), db)
        | Inr rows \<Rightarrow> (None, db\<lparr>cdb_References := rows\<rparr>)))"

definition contentReferencesForFiles :: "(string \<Rightarrow> (string \<times> string) list) \<Rightarrow> time \<Rightarrow> ContentFileRow list \<Rightarrow> ContentReferenceRow list" where
  "contentReferencesForFiles references indexedAt rows = concat (map (\<lambda>r. map (\<lambda>(kind, v).
     \<lparr>crr_RepoID = cfr_RepoID r, crr_Path = cfr_RelativePath r, crr_Kind = kind, crr_Value = v, crr_IndexedAt = indexedAt\<rparr>)
     (references (cfr_Content r))) rows)"

definition upsertContentReferenceBatch ::
  "(string \<Rightarrow> (string \<times> string) list) \<Rightarrow> time \<Rightarrow> ContentFileRow list \<Rightarrow> ContentDb \<Rightarrow> error option \<times> ContentDb" where
  "upsertContentReferenceBatch references indexedAt rows db =
     exec_batches contentReferenceBatchSize upsertPreparedContentReferenceBatch (contentReferencesForFiles references indexedAt rows) db"

definition deleteContentReferenceBatch :: "ContentFileRow list \<Rightarrow> ContentDb \<Rightarrow> ContentDb" where
  "deleteContentReferenceBatch batch db =
     db\<lparr>cdb_References := filter (\<lambda>r. (crr_RepoID r, crr_Path r) \<notin> file_key ` set batch) (cdb_References db)\<rparr>"

definition upsertContentFileBatch ::
  "(string \<Rightarrow> (string \<times> string) list) \<Rightarrow> time \<Rightarrow> ContentFileRow list \<Rightarrow> ContentDb \<Rightarrow> error option \<times> ContentDb" where
  "upsertContentFileBatch references indexedAt batch db =
     (if batch = [] then (None, db)
      else (let db1 = deleteContentReferenceBatch batch db in
        case upsert_batch file_key (\<lambda>old new. new) batch (cdb_Files db1) of
          Inl e \<Rightarrow> (Some (Wrap ''upsert content_files batch'' e), db1)
        | Inr rows \<Rightarrow> upsertContentReferenceBatch references indexedAt batch (db1\<lparr>cdb_Files := rows\<rparr>)))"

definition optional_fits :: "int option \<Rightarrow> bool" where
  "optional_fits v = (case v of None \<Rightarrow> True | Some n \<Rightarrow> integer_fits n)"

definition entity_fits :: "ContentEntityRow \<Rightarrow> bool" where
  "entity_fits r \<longleftrightarrow> integer_fits (cer_StartLine r) \<and> integer_fits (cer_EndLine r)
     \<and> optional_fits (cer_StartByte r) \<and> optional_fits (cer_EndByte r)"

definition cast_metadata :: "(string \<Rightarrow> string option) \<Rightarrow> ContentEntityRow \<Rightarrow> ContentEntityRow" where
  "cast_metadata jsonb r = r\<lparr>cer_Metadata := coalesce (jsonb (cer_Metadata r))\<rparr>"

definition upsertContentEntityBatch :: "(string \<Rightarrow> string option) \<Rightarrow> ContentEntityRow list \<Rightarrow> ContentDb \<Rightarrow> error option \<times> ContentDb" where
  "upsertContentEntityBatch jsonb batch db =
     (if batch = [] then (None, db)
      else if \<not> list_all (\<lambda>r. jsonb (cer_Metadata r) \<noteq> None) batch
      then (Some (Wrap ''upsert content_entities batch'' (Msg ''invalid input syntax for type json'')), db)
      else if \<not> list_all entity_fits batch
      then (Some (Wrap ''upsert content_entities batch'' (Msg ''integer out of range'')), db)
      else (case upsert_batch cer_EntityID (\<lambda>old new. new) (map (cast_metadata jsonb) batch) (cdb_Entities db) of
          Inl e \<Rightarrow> (Some (Wrap ''upsert content_entities batch'' e), db)
        | Inr rows \<Rightarrow> (None, db\<lparr>cdb_Entities := rows\<rparr>)))"

section \<open>Writing\<close>

text \<open>The records in order: tombstones delete at once, the others are prepared. With an error comes what was deleted until then.\<close>

fun write_records ::
  "(string \<Rightarrow> nat list) \<Rightarrow> string \<Rightarrow> time \<Rightarrow> ContentRecord list \<Rightarrow> ContentFileRow list \<times> nat \<times> ContentDb
   \<Rightarrow> error option \<times> ContentFileRow list \<times> nat \<times> ContentDb" where
  "write_records digest1 repoID indexedAt [] st = (None, st)"
| "write_records digest1 repoID indexedAt (r # rs) (rows, deleted, db) =
     (if blank (co_Path r) then (Some (Required ''content record path''), rows, deleted, db)
      else if co_Deleted r then write_records digest1 repoID indexedAt rs (rows, deleted + 1, delete_file repoID (co_Path r) db)
      else (case prepare_file digest1 repoID indexedAt r of
          Inl e \<Rightarrow> (Some e, rows, deleted, db)
        | Inr row \<Rightarrow> write_records digest1 repoID indexedAt rs (rows @ [row], deleted, db)))"

fun write_entities ::
  "string \<Rightarrow> time \<Rightarrow> ContentEntity list \<Rightarrow> ContentEntityRow list \<times> nat \<times> ContentDb
   \<Rightarrow> error option \<times> ContentEntityRow list \<times> nat \<times> ContentDb" where
  "write_entities repoID indexedAt [] st = (None, st)"
| "write_entities repoID indexedAt (e # es) (rows, deleted, db) =
     (case validate_entity e of
        Some err \<Rightarrow> (Some err, rows, deleted, db)
      | None \<Rightarrow>
          if ent_Deleted e then write_entities repoID indexedAt es (rows, deleted + 1, delete_entity repoID (ent_EntityID e) db)
          else write_entities repoID indexedAt es (rows @ [prepare_entity repoID indexedAt e], deleted, db))"

definition ContentWriter_Write ::
  "(string \<Rightarrow> nat list) \<Rightarrow> (string \<Rightarrow> string option) \<Rightarrow> (string \<Rightarrow> (string \<times> string) list) \<Rightarrow> ContentWriter \<Rightarrow> time
   \<Rightarrow> ContentMaterialization \<Rightarrow> ContentDb \<Rightarrow> ContentResult result \<times> ContentDb" where
  "ContentWriter_Write digest1 jsonb references w clock m db =
     (if \<not> cwr_HasDatabase w then (Inl (Required ''content writer database''), db)
      else if blank (ctm_RepoID m) then (Inl (Required ''content materialization repo_id''), db)
      else
        (case write_records digest1 (ctm_RepoID m) clock (ctm_Records m) ([], 0, db) of
           (Some e, _, _, db1) \<Rightarrow> (Inl e, db1)
         | (None, files, filesDeleted, db1) \<Rightarrow>
        (case exec_batches contentFileBatchSize (upsertContentFileBatch references clock) files db1 of
           (Some e, db2) \<Rightarrow> (Inl e, db2)
         | (None, db2) \<Rightarrow>
        (case write_entities (ctm_RepoID m) clock (ctm_Entities m) ([], filesDeleted, db2) of
           (Some e, _, _, db3) \<Rightarrow> (Inl e, db3)
         | (None, entities, deleted, db3) \<Rightarrow>
        (case exec_batches (effectiveEntityBatchSize w) (upsertContentEntityBatch jsonb) entities db3 of
           (Some e, db4) \<Rightarrow> (Inl e, db4)
         | (None, db4) \<Rightarrow>
             (Inr \<lparr>ctr_ScopeID = ctm_ScopeID m, ctr_GenerationID = ctm_GenerationID m, ctr_RecordCount = length (ctm_Records m),
                ctr_EntityCount = length (ctm_Entities m), ctr_DeletedCount = deleted\<rparr>, db4))))))"

section \<open>Keys stay unique\<close>

lemma upsert_batch_Inr: "upsert_batch key merge rows tab = Inr tab' \<longleftrightarrow> distinct (map key rows) \<and> tab' = fold (upsert_row key merge) rows tab"
  by (auto simp: upsert_batch_def)

lemma upsert_batch_distinct:
  "upsert_batch key (\<lambda>old new. new) rows tab = Inr tab' \<Longrightarrow> distinct (map key tab) \<Longrightarrow> distinct (map key tab')"
  by (auto simp: upsert_batch_Inr intro!: upsert_rows_distinct)

lemma distinct_key_filter: "distinct (map f xs) \<Longrightarrow> distinct (map f (filter P xs))"
  by (induction xs) auto

lemma delete_file_ok: "content_ok db \<Longrightarrow> content_ok (delete_file repoID path db)"
  by (simp add: content_ok_def delete_file_def distinct_key_filter)

lemma delete_entity_ok: "content_ok db \<Longrightarrow> content_ok (delete_entity repoID entityID db)"
  by (simp add: content_ok_def delete_entity_def distinct_key_filter)

lemma reference_batch_ok: "upsertPreparedContentReferenceBatch batch db = (e, db') \<Longrightarrow> content_ok db \<Longrightarrow> content_ok db'"
  by (auto simp: upsertPreparedContentReferenceBatch_def content_ok_def split: if_splits sum.splits dest: upsert_batch_distinct)

lemma references_ok: "upsertContentReferenceBatch references clock rows db = (e, db') \<Longrightarrow> content_ok db \<Longrightarrow> content_ok db'"
  unfolding upsertContentReferenceBatch_def by (rule exec_batches_invariant [where P = content_ok]) (rule reference_batch_ok)

lemma file_batch_ok:
  assumes "upsertContentFileBatch references clock batch db = (e, db')" and "content_ok db"
  shows "content_ok db'"
proof -
  have cleared: "content_ok (deleteContentReferenceBatch batch db)"
    using assms(2) by (simp add: content_ok_def deleteContentReferenceBatch_def distinct_key_filter)
  then have "content_ok (deleteContentReferenceBatch batch db\<lparr>cdb_Files := rows\<rparr>)"
    if "upsert_batch file_key (\<lambda>old new. new) batch (cdb_Files (deleteContentReferenceBatch batch db)) = Inr rows" for rows
    using upsert_batch_distinct [OF that] by (simp add: content_ok_def)
  with assms cleared show ?thesis
    by (auto simp: upsertContentFileBatch_def Let_def split: if_splits sum.splits dest: references_ok)
qed

lemma entity_batch_ok: "upsertContentEntityBatch jsonb batch db = (e, db') \<Longrightarrow> content_ok db \<Longrightarrow> content_ok db'"
  by (auto simp: upsertContentEntityBatch_def content_ok_def split: if_splits sum.splits dest: upsert_batch_distinct)

lemma write_records_ok:
  "write_records digest1 repoID clock rs (rows, n, db) = (e, rows', n', db') \<Longrightarrow> content_ok db \<Longrightarrow> content_ok db'"
  by (induction rs arbitrary: rows n db) (auto split: if_splits sum.splits intro: delete_file_ok)

lemma write_entities_ok:
  "write_entities repoID clock es (rows, n, db) = (e, rows', n', db') \<Longrightarrow> content_ok db \<Longrightarrow> content_ok db'"
  by (induction es arbitrary: rows n db) (auto split: if_splits option.splits intro: delete_entity_ok)

lemma file_batches_ok:
  "exec_batches n (upsertContentFileBatch references clock) rows db = (e, db') \<Longrightarrow> content_ok db \<Longrightarrow> content_ok db'"
  by (rule exec_batches_invariant [where P = content_ok]) (rule file_batch_ok)

lemma entity_batches_ok:
  "exec_batches n (upsertContentEntityBatch jsonb) rows db = (e, db') \<Longrightarrow> content_ok db \<Longrightarrow> content_ok db'"
  by (rule exec_batches_invariant [where P = content_ok]) (rule entity_batch_ok)

lemma write_keeps_ok:
  assumes "ContentWriter_Write digest1 jsonb references w clock m db = (r, db')" and "content_ok db"
  shows "content_ok db'"
  using assms
  by (auto simp: ContentWriter_Write_def split: if_splits prod.splits option.splits
      dest!: write_records_ok file_batches_ok write_entities_ok entity_batches_ok)

section \<open>What a write leaves\<close>

definition content_file :: "ContentDb \<Rightarrow> string \<times> string \<Rightarrow> ContentFileRow option" where
  "content_file db k = find (\<lambda>r. file_key r = k) (cdb_Files db)"

definition content_entity :: "ContentDb \<Rightarrow> string \<Rightarrow> ContentEntityRow option" where
  "content_entity db k = find (\<lambda>r. cer_EntityID r = k) (cdb_Entities db)"

definition file_references :: "ContentDb \<Rightarrow> string \<times> string \<Rightarrow> (string \<times> string) set" where
  "file_references db k = {(kind, v). (fst k, snd k, kind, v) \<in> reference_key ` set (cdb_References db)}"

text \<open>The loop over batches once more, for what holds because every statement succeeded.\<close>

lemma exec_batches_all_ok:
  "exec_batches n exec rows db = (None, db') \<Longrightarrow>
     exec_batches n (\<lambda>rs d. case exec rs d of (None, d') \<Rightarrow> (None, d') | (Some e, _) \<Rightarrow> (Some e, d)) rows db = (None, db')"
proof (induction n exec rows db rule: exec_batches.induct)
  case (1 n exec rows db)
  show ?case
  proof (cases "rows = [] \<or> n = 0")
    case True
    with "1.prems" show ?thesis by (simp add: exec_batches.simps)
  next
    case False
    obtain d where d: "exec (take n rows) db = (None, d)" "exec_batches n exec (drop n rows) d = (None, db')"
      using "1.prems" False by (subst (asm) exec_batches.simps) (auto split: prod.splits option.splits)
    have "exec_batches n (\<lambda>rs d. case exec rs d of (None, d') \<Rightarrow> (None, d') | (Some e, _) \<Rightarrow> (Some e, d)) (drop n rows) d = (None, db')"
      using False d by (intro "1.IH") auto
    with False d(1) show ?thesis by (subst exec_batches.simps) simp
  qed
qed

lemma batches_achieve:
  assumes ok: "exec_batches n exec rows db = (None, db')" and n: "0 < n" and r: "r \<in> set rows"
    and one: "\<And>rs d d' r. set rs \<subseteq> set rows \<Longrightarrow> exec rs d = (None, d') \<Longrightarrow> r \<in> set rs \<Longrightarrow> Q r d'"
    and keeps: "\<And>rs d d' r. set rs \<subseteq> set rows \<Longrightarrow> r \<in> set rows \<Longrightarrow> exec rs d = (None, d') \<Longrightarrow> Q r d \<Longrightarrow> Q r d'"
  shows "Q r db'"
proof (rule exec_batches_achieves_on [where Q = Q, OF _ _ exec_batches_all_ok [OF ok] n r])
  fix rs d d' r'
  assume "set rs \<subseteq> set rows" "(case exec rs d of (None, d') \<Rightarrow> (None, d') | (Some e, _) \<Rightarrow> (Some e, d)) = (None, d')" "r' \<in> set rs"
  then show "Q r' d'" using one [of rs d d' r'] by (auto split: prod.splits option.splits)
next
  fix rs d e d' r'
  assume "set rs \<subseteq> set rows" "r' \<in> set rows" "Q r' d"
    "(case exec rs d of (None, d') \<Rightarrow> (None, d') | (Some e, _) \<Rightarrow> (Some e, d)) = (e, d')"
  then show "Q r' d'" using keeps [of rs r' d d'] by (auto split: prod.splits option.splits)
qed

lemma batches_keep:
  assumes ok: "exec_batches n exec rows db = (None, db')"
    and keeps: "\<And>rs d d'. set rs \<subseteq> set rows \<Longrightarrow> exec rs d = (None, d') \<Longrightarrow> P d \<Longrightarrow> P d'" and "P db"
  shows "P db'"
proof (rule exec_batches_invariant_on [where P = P, OF _ exec_batches_all_ok [OF ok] assms(3)])
  fix rs d e d'
  assume "set rs \<subseteq> set rows" "P d" "(case exec rs d of (None, d') \<Rightarrow> (None, d') | (Some e, _) \<Rightarrow> (Some e, d)) = (e, d')"
  then show "P d'" using keeps [of rs d d'] by (auto split: prod.splits option.splits)
qed

text \<open>A row written with all its columns is found as it was written, and the other keys are untouched.\<close>

lemma find_written:
  assumes "distinct (map key rows)"
  shows "r \<in> set rows \<Longrightarrow> find (\<lambda>t. key t = key r) (fold (upsert_row key (\<lambda>old new. new)) rows tab) = Some r"
    and "k \<notin> key ` set rows \<Longrightarrow> find (\<lambda>t. key t = k) (fold (upsert_row key (\<lambda>old new. new)) rows tab) = find (\<lambda>t. key t = k) tab"
proof -
  note found = find_upsert_rows [of key "\<lambda>old new. new", OF _ assms]
  have pick: "r \<in> set rows \<Longrightarrow> find (\<lambda>s. key s = key r) rows = Some r"
    using assms by (induction rows) auto
  show "r \<in> set rows \<Longrightarrow> find (\<lambda>t. key t = key r) (fold (upsert_row key (\<lambda>old new. new)) rows tab) = Some r"
    using pick by (simp add: found split: option.split)
  assume "k \<notin> key ` set rows"
  then have "find (\<lambda>s. key s = k) rows = None" by (auto simp: find_None_iff)
  then show "find (\<lambda>t. key t = k) (fold (upsert_row key (\<lambda>old new. new)) rows tab) = find (\<lambda>t. key t = k) tab"
    by (simp add: found)
qed

text \<open>References: other tables stay, the keys of a batch are added.\<close>

lemma reference_batch_written:
  assumes "upsertPreparedContentReferenceBatch batch db = (None, db')"
  shows "cdb_Files db' = cdb_Files db" "cdb_Entities db' = cdb_Entities db"
    and "reference_key ` set (cdb_References db') = reference_key ` set (cdb_References db) \<union> reference_key ` set batch"
proof -
  have keys: "reference_key ` set (fold (upsert_row reference_key (\<lambda>old new. new)) batch tab)
      = reference_key ` set tab \<union> reference_key ` set batch" for tab
    using upsert_rows_keys [of reference_key "\<lambda>old new. new" batch tab] by simp
  have "batch = [] \<and> db' = db
      \<or> db' = db\<lparr>cdb_References := fold (upsert_row reference_key (\<lambda>old new. new)) batch (cdb_References db)\<rparr>"
    using assms by (auto simp: upsertPreparedContentReferenceBatch_def upsert_batch_Inr split: if_splits sum.splits)
  then show "cdb_Files db' = cdb_Files db" "cdb_Entities db' = cdb_Entities db"
    "reference_key ` set (cdb_References db') = reference_key ` set (cdb_References db) \<union> reference_key ` set batch"
    by (elim disjE; simp add: keys)+
qed

lemma reference_batches_written:
  assumes "exec_batches n upsertPreparedContentReferenceBatch rows db = (None, db')" and "0 < n"
  shows "cdb_Files db' = cdb_Files db" "cdb_Entities db' = cdb_Entities db"
    and "reference_key ` set (cdb_References db') = reference_key ` set (cdb_References db) \<union> reference_key ` set rows"
proof -
  show "cdb_Files db' = cdb_Files db"
    by (rule batches_keep [where P = "\<lambda>d. cdb_Files d = cdb_Files db", OF assms(1)]) (auto dest: reference_batch_written(1))
  show "cdb_Entities db' = cdb_Entities db"
    by (rule batches_keep [where P = "\<lambda>d. cdb_Entities d = cdb_Entities db", OF assms(1)]) (auto dest: reference_batch_written(2))
  let ?keys = "\<lambda>d. reference_key ` set (cdb_References d)"
  have "?keys db' \<subseteq> ?keys db \<union> reference_key ` set rows"
    by (rule batches_keep [where P = "\<lambda>d. ?keys d \<subseteq> ?keys db \<union> reference_key ` set rows", OF assms(1)])
      (drule reference_batch_written(3), blast, simp)
  moreover have "?keys db \<subseteq> ?keys db'"
    by (rule batches_keep [where P = "\<lambda>d. ?keys db \<subseteq> ?keys d", OF assms(1)])
      (drule reference_batch_written(3), simp add: le_supI1, simp)
  moreover have "reference_key r \<in> ?keys db'" if "r \<in> set rows" for r
    by (rule batches_achieve [where Q = "\<lambda>r d. reference_key r \<in> ?keys d", OF assms(1,2) that])
      (drule reference_batch_written(3), simp)+
  ultimately show "?keys db' = ?keys db \<union> reference_key ` set rows" by blast
qed

text \<open>Files, with their references.\<close>

lemma reference_keys_of:
  "(a, b, kind, v) \<in> reference_key ` set (contentReferencesForFiles references clock rows)
     \<longleftrightarrow> (\<exists>r \<in> set rows. file_key r = (a, b) \<and> (kind, v) \<in> set (references (cfr_Content r)))"
proof -
  have "reference_key ` set (contentReferencesForFiles references clock rows)
      = (\<Union>r \<in> set rows. (\<lambda>(kind, v). (cfr_RepoID r, cfr_RelativePath r, kind, v)) ` set (references (cfr_Content r)))"
    unfolding contentReferencesForFiles_def set_concat set_map image_Union image_image UN_simps
    by (simp add: image_image reference_key_def case_prod_beta)
  then show ?thesis by (auto simp: file_key_def)
qed

lemma key_among:
  assumes "distinct (map f rows)" and "set rs \<subseteq> set rows" and "r \<in> set rows" and "f r \<in> f ` set rs"
  shows "r \<in> set rs"
  using assms by (metis (no_types, lifting) distinct_map imageE inj_onD subsetD)

lemma file_batch_written:
  assumes "upsertContentFileBatch references clock batch db = (None, db')"
  shows "distinct (map file_key batch)" "cdb_Files db' = fold (upsert_row file_key (\<lambda>old new. new)) batch (cdb_Files db)"
    and "cdb_Entities db' = cdb_Entities db"
    and "r \<in> set batch \<Longrightarrow> file_references db' (file_key r) = set (references (cfr_Content r))"
    and "k \<notin> file_key ` set batch \<Longrightarrow> file_references db' k = file_references db k"
proof -
  let ?cleared = "deleteContentReferenceBatch batch db"
  let ?files = "fold (upsert_row file_key (\<lambda>old new. new)) batch (cdb_Files db)"
  have parts: "distinct (map file_key batch) \<and> cdb_Files db' = ?files \<and> cdb_Entities db' = cdb_Entities db
    \<and> reference_key ` set (cdb_References db') = reference_key ` set (cdb_References ?cleared)
        \<union> reference_key ` set (contentReferencesForFiles references clock batch)"
  proof (cases "batch = []")
    case True
    with assms show ?thesis
      by (simp add: upsertContentFileBatch_def deleteContentReferenceBatch_def contentReferencesForFiles_def)
  next
    case False
    have d: "distinct (map file_key batch)"
      and run: "upsertContentReferenceBatch references clock batch (?cleared\<lparr>cdb_Files := ?files\<rparr>) = (None, db')"
      using assms False
      by (auto simp: upsertContentFileBatch_def Let_def upsert_batch_Inr deleteContentReferenceBatch_def split: sum.splits)
    note run = run [unfolded upsertContentReferenceBatch_def]
    have n: "0 < contentReferenceBatchSize" by (simp add: contentReferenceBatchSize_def)
    show ?thesis
      using d reference_batches_written [OF run n] by (simp add: deleteContentReferenceBatch_def)
  qed
  then show d: "distinct (map file_key batch)" and "cdb_Files db' = ?files" and "cdb_Entities db' = cdb_Entities db"
    by simp_all
  have erased: "(a, b, kind, v) \<in> reference_key ` set (cdb_References ?cleared)
      \<longleftrightarrow> (a, b, kind, v) \<in> reference_key ` set (cdb_References db) \<and> (a, b) \<notin> file_key ` set batch" for a b kind v
    by (auto simp: deleteContentReferenceBatch_def reference_key_def)
  have keys: "(a, b, kind, v) \<in> reference_key ` set (cdb_References db') \<longleftrightarrow>
      (a, b, kind, v) \<in> reference_key ` set (cdb_References db) \<and> (a, b) \<notin> file_key ` set batch
      \<or> (\<exists>r \<in> set batch. file_key r = (a, b) \<and> (kind, v) \<in> set (references (cfr_Content r)))" for a b kind v
    by (simp only: parts Un_iff erased reference_keys_of)
  show "file_references db' (file_key r) = set (references (cfr_Content r))" if "r \<in> set batch"
  proof -
    have same: "s = r" if "s \<in> set batch" "file_key s = file_key r" for s
      using d that \<open>r \<in> set batch\<close> by (meson distinct_map inj_onD)
    have "(fst (file_key r), snd (file_key r), kind, v) \<in> reference_key ` set (cdb_References db')
        \<longleftrightarrow> (kind, v) \<in> set (references (cfr_Content r))" for kind v
      unfolding keys prod.collapse using same that by blast
    then show ?thesis by (simp only: file_references_def) auto
  qed
  show "file_references db' k = file_references db k" if "k \<notin> file_key ` set batch"
  proof -
    have "(fst k, snd k, kind, v) \<in> reference_key ` set (cdb_References db')
        \<longleftrightarrow> (fst k, snd k, kind, v) \<in> reference_key ` set (cdb_References db)" for kind v
      unfolding keys prod.collapse using that by blast
    then show ?thesis by (simp only: file_references_def)
  qed
qed

lemma file_batches_written:
  assumes "exec_batches n (upsertContentFileBatch references clock) rows db = (None, db')" and "0 < n" and "distinct (map file_key rows)"
  shows "r \<in> set rows \<Longrightarrow> content_file db' (file_key r) = Some r
      \<and> file_references db' (file_key r) = set (references (cfr_Content r))"
    and "k \<notin> file_key ` set rows \<Longrightarrow> content_file db' k = content_file db k \<and> file_references db' k = file_references db k"
    and "cdb_Entities db' = cdb_Entities db"
proof -
  let ?Q = "\<lambda>r d. content_file d (file_key r) = Some r \<and> file_references d (file_key r) = set (references (cfr_Content r))"
  have one: "?Q r d'" if "upsertContentFileBatch references clock rs d = (None, d')" "r \<in> set rs" for rs d d' r
    using file_batch_written [OF that(1)] find_written(1) [of file_key rs r] that(2) by (simp add: content_file_def)
  have other: "content_file d' k = content_file d k \<and> file_references d' k = file_references d k"
    if "upsertContentFileBatch references clock rs d = (None, d')" "k \<notin> file_key ` set rs" for rs d d' k
    using file_batch_written [OF that(1)] find_written(2) [of file_key rs k] that(2) by (simp add: content_file_def)
  show "?Q r db'" if "r \<in> set rows"
  proof (rule batches_achieve [where Q = ?Q, OF assms(1,2) that])
    fix rs d d' r
    assume sub: "set rs \<subseteq> set rows" and r: "r \<in> set rows" and run: "upsertContentFileBatch references clock rs d = (None, d')"
      and old: "?Q r d"
    with one [OF run] other [OF run] key_among [OF assms(3) sub r] show "?Q r d'" by metis
  qed (rule one)
  show "content_file db' k = content_file db k \<and> file_references db' k = file_references db k" if "k \<notin> file_key ` set rows"
  proof (rule batches_keep [where P = "\<lambda>d. content_file d k = content_file db k \<and> file_references d k = file_references db k", OF assms(1)])
    fix rs d d'
    assume sub: "set rs \<subseteq> set rows" and run: "upsertContentFileBatch references clock rs d = (None, d')"
      and old: "content_file d k = content_file db k \<and> file_references d k = file_references db k"
    have "k \<notin> file_key ` set rs" using sub that by auto
    from other [OF run this] old show "content_file d' k = content_file db k \<and> file_references d' k = file_references db k" by simp
  qed simp
  show "cdb_Entities db' = cdb_Entities db"
    by (rule batches_keep [where P = "\<lambda>d. cdb_Entities d = cdb_Entities db", OF assms(1)]) (auto dest: file_batch_written(3))
qed

text \<open>Entities.\<close>

lemma entity_batch_written:
  assumes "upsertContentEntityBatch jsonb batch db = (None, db')"
  shows "distinct (map cer_EntityID batch)"
    and "cdb_Entities db' = fold (upsert_row cer_EntityID (\<lambda>old new. new)) (map (cast_metadata jsonb) batch) (cdb_Entities db)"
    and "cdb_Files db' = cdb_Files db" "cdb_References db' = cdb_References db"
  using assms
  by (auto simp: upsertContentEntityBatch_def upsert_batch_Inr o_def cast_metadata_def split: if_splits sum.splits)

lemma entity_batches_written:
  assumes "exec_batches n (upsertContentEntityBatch jsonb) rows db = (None, db')" and "0 < n" and "distinct (map cer_EntityID rows)"
  shows "r \<in> set rows \<Longrightarrow> content_entity db' (cer_EntityID r) = Some (cast_metadata jsonb r)"
    and "k \<notin> cer_EntityID ` set rows \<Longrightarrow> content_entity db' k = content_entity db k"
    and "cdb_Files db' = cdb_Files db" "cdb_References db' = cdb_References db"
proof -
  let ?Q = "\<lambda>r d. content_entity d (cer_EntityID r) = Some (cast_metadata jsonb r)"
  have ids: "map cer_EntityID (map (cast_metadata jsonb) rs) = map cer_EntityID rs" for rs by (simp add: cast_metadata_def)
  have found: "cer_EntityID (cast_metadata jsonb r) = cer_EntityID r" for r by (simp add: cast_metadata_def)
  have one: "?Q r d'" if "upsertContentEntityBatch jsonb rs d = (None, d')" "r \<in> set rs" for rs d d' r
    using entity_batch_written [OF that(1)] find_written(1) [of cer_EntityID "map (cast_metadata jsonb) rs" "cast_metadata jsonb r"] that(2)
    unfolding ids found by (simp add: content_entity_def)
  have other: "content_entity d' k = content_entity d k"
    if "upsertContentEntityBatch jsonb rs d = (None, d')" "k \<notin> cer_EntityID ` set rs" for rs d d' k
  proof -
    have "k \<notin> cer_EntityID ` set (map (cast_metadata jsonb) rs)" using that(2) by (auto simp: found)
    with entity_batch_written [OF that(1)] find_written(2) [of cer_EntityID "map (cast_metadata jsonb) rs" k]
    show ?thesis unfolding ids by (simp add: content_entity_def)
  qed
  show "?Q r db'" if "r \<in> set rows"
  proof (rule batches_achieve [where Q = ?Q, OF assms(1,2) that])
    fix rs d d' r
    assume sub: "set rs \<subseteq> set rows" and r: "r \<in> set rows" and run: "upsertContentEntityBatch jsonb rs d = (None, d')" and old: "?Q r d"
    with one [OF run] other [OF run] key_among [OF assms(3) sub r] show "?Q r d'" by metis
  qed (rule one)
  show "content_entity db' k = content_entity db k" if "k \<notin> cer_EntityID ` set rows"
  proof (rule batches_keep [where P = "\<lambda>d. content_entity d k = content_entity db k", OF assms(1)])
    fix rs d d'
    assume sub: "set rs \<subseteq> set rows" and run: "upsertContentEntityBatch jsonb rs d = (None, d')"
      and old: "content_entity d k = content_entity db k"
    have "k \<notin> cer_EntityID ` set rs" using sub that by auto
    from other [OF run this] old show "content_entity d' k = content_entity db k" by simp
  qed simp
  show "cdb_Files db' = cdb_Files db"
    by (rule batches_keep [where P = "\<lambda>d. cdb_Files d = cdb_Files db", OF assms(1)]) (auto dest: entity_batch_written(3))
  show "cdb_References db' = cdb_References db"
    by (rule batches_keep [where P = "\<lambda>d. cdb_References d = cdb_References db", OF assms(1)]) (auto dest: entity_batch_written(4))
qed

text \<open>The two scans: what they delete and what they prepare.\<close>

abbreviation live_records :: "ContentMaterialization \<Rightarrow> ContentRecord list" where
  "live_records m \<equiv> filter (\<lambda>r. \<not> co_Deleted r) (ctm_Records m)"

abbreviation live_entities :: "ContentMaterialization \<Rightarrow> ContentEntity list" where
  "live_entities m \<equiv> filter (\<lambda>e. \<not> ent_Deleted e) (ctm_Entities m)"

definition tombstoned :: "string \<Rightarrow> ContentRecord list \<Rightarrow> (string \<times> string) set" where
  "tombstoned repoID rs = {(repoID, co_Path r) | r. r \<in> set rs \<and> co_Deleted r}"

lemma tombstoned_simps [simp]:
  "tombstoned repoID [] = {}"
  "tombstoned repoID (r # rs) = (if co_Deleted r then insert (repoID, co_Path r) (tombstoned repoID rs) else tombstoned repoID rs)"
  by (auto simp: tombstoned_def)

lemma write_records_done:
  assumes "write_records digest1 repoID clock rs (rows, n, db) = (None, rows', n', db')"
  shows "map Inr rows' = map Inr rows @ map (prepare_file digest1 repoID clock) (filter (\<lambda>r. \<not> co_Deleted r) rs)"
    and "cdb_Files db' = filter (\<lambda>t. file_key t \<notin> tombstoned repoID rs) (cdb_Files db)"
    and "cdb_References db' = filter (\<lambda>t. (crr_RepoID t, crr_Path t) \<notin> tombstoned repoID rs) (cdb_References db)"
    and "cdb_Entities db' = filter (\<lambda>t. (cer_RepoID t, cer_RelativePath t) \<notin> tombstoned repoID rs) (cdb_Entities db)"
  using assms
  by (induction rs arbitrary: rows n db)
    (auto simp: delete_file_def split: if_splits sum.splits intro!: filter_cong)

lemma write_entities_done:
  assumes "write_entities repoID clock es (rows, n, db) = (None, rows', n', db')"
  shows "rows' = rows @ map (prepare_entity repoID clock) (filter (\<lambda>e. \<not> ent_Deleted e) es)"
    and "cdb_Entities db' = filter (\<lambda>t. \<not> (cer_RepoID t = repoID \<and> (\<exists>e \<in> set es. ent_Deleted e \<and> ent_EntityID e = cer_EntityID t))) (cdb_Entities db)"
    and "cdb_Files db' = cdb_Files db" "cdb_References db' = cdb_References db"
proof -
  show "rows' = rows @ map (prepare_entity repoID clock) (filter (\<lambda>e. \<not> ent_Deleted e) es)"
    using assms by (induction es arbitrary: rows n db) (force split: if_splits option.splits)+
  show "cdb_Entities db' = filter (\<lambda>t. \<not> (cer_RepoID t = repoID \<and> (\<exists>e \<in> set es. ent_Deleted e \<and> ent_EntityID e = cer_EntityID t))) (cdb_Entities db)"
    using assms by (induction es arbitrary: rows n db)
      (auto simp: delete_entity_def split: if_splits option.splits intro!: filter_cong)
  show "cdb_Files db' = cdb_Files db" "cdb_References db' = cdb_References db"
    using assms by (induction es arbitrary: rows n db) (force simp: delete_entity_def split: if_splits option.splits)+
qed

lemma prepared_file:
  "prepare_file digest1 repoID clock r = Inr row \<Longrightarrow> file_key row = (repoID, co_Path r) \<and> cfr_Content row = co_Body r"
  by (auto simp: prepare_file_def file_key_def split: sum.splits)

lemma prepared_files:
  assumes "map Inr rows = map (prepare_file digest1 repoID clock) rs"
  shows "map file_key rows = map (\<lambda>r. (repoID, co_Path r)) rs"
    and "r \<in> set rs \<Longrightarrow> \<exists>row \<in> set rows. prepare_file digest1 repoID clock r = Inr row"
proof -
  show "map file_key rows = map (\<lambda>r. (repoID, co_Path r)) rs"
    using assms by (induction rows arbitrary: rs) (auto simp: Cons_eq_map_conv dest: prepared_file [OF sym])
  assume "r \<in> set rs"
  then have "prepare_file digest1 repoID clock r \<in> set (map Inr rows)" unfolding assms by simp
  then show "\<exists>row \<in> set rows. prepare_file digest1 repoID clock r = Inr row" by auto
qed

text \<open>A successful write, taken apart.\<close>

lemma write_stages:
  assumes "ContentWriter_Write digest1 jsonb references w clock m db = (Inr res, db')"
  obtains files n db1 db2 entities n' db3
  where "write_records digest1 (ctm_RepoID m) clock (ctm_Records m) ([], 0, db) = (None, files, n, db1)"
    and "exec_batches contentFileBatchSize (upsertContentFileBatch references clock) files db1 = (None, db2)"
    and "write_entities (ctm_RepoID m) clock (ctm_Entities m) ([], n, db2) = (None, entities, n', db3)"
    and "exec_batches (effectiveEntityBatchSize w) (upsertContentEntityBatch jsonb) entities db3 = (None, db')"
  using assms by (auto simp: ContentWriter_Write_def split: if_splits prod.splits option.splits)

lemma find_filter_None: "(\<And>t. P t \<Longrightarrow> \<not> Q t) \<Longrightarrow> find P (filter Q xs) = None"
  by (auto simp: find_None_iff)

lemma find_filter_same: "(\<And>t. P t \<Longrightarrow> Q t) \<Longrightarrow> find P (filter Q xs) = find P xs"
  by (induction xs) auto

text \<open>The files after a write.\<close>

lemma written_files:
  assumes "ContentWriter_Write digest1 jsonb references w clock m db = (Inr res, db')" and "distinct (map co_Path (live_records m))"
  shows "r \<in> set (live_records m) \<Longrightarrow> \<exists>row. prepare_file digest1 (ctm_RepoID m) clock r = Inr row
      \<and> content_file db' (ctm_RepoID m, co_Path r) = Some row
      \<and> file_references db' (ctm_RepoID m, co_Path r) = set (references (co_Body r))"
    and "k \<in> tombstoned (ctm_RepoID m) (ctm_Records m) \<Longrightarrow> k \<notin> Pair (ctm_RepoID m) ` co_Path ` set (live_records m) \<Longrightarrow>
      content_file db' k = None \<and> file_references db' k = {}"
    and "k \<notin> Pair (ctm_RepoID m) ` co_Path ` set (ctm_Records m) \<Longrightarrow>
      content_file db' k = content_file db k \<and> file_references db' k = file_references db k"
proof -
  obtain files n db1 db2 entities n' db3
    where records: "write_records digest1 (ctm_RepoID m) clock (ctm_Records m) ([], 0, db) = (None, files, n, db1)"
      and upserted: "exec_batches contentFileBatchSize (upsertContentFileBatch references clock) files db1 = (None, db2)"
      and ents: "write_entities (ctm_RepoID m) clock (ctm_Entities m) ([], n, db2) = (None, entities, n', db3)"
      and last: "exec_batches (effectiveEntityBatchSize w) (upsertContentEntityBatch jsonb) entities db3 = (None, db')"
    using write_stages [OF assms(1)] by blast
  have same: "content_file db' k = content_file db2 k" "file_references db' k = file_references db2 k" for k
  proof -
    have "cdb_Files d' = cdb_Files d \<and> cdb_References d' = cdb_References d"
      if "upsertContentEntityBatch jsonb rs d = (None, d')" for rs d d'
      using entity_batch_written(3,4) [OF that] by simp
    then have "cdb_Files db' = cdb_Files db3 \<and> cdb_References db' = cdb_References db3"
      by (intro batches_keep [where P = "\<lambda>d. cdb_Files d = cdb_Files db3 \<and> cdb_References d = cdb_References db3", OF last]) simp_all
    then show "content_file db' k = content_file db2 k" "file_references db' k = file_references db2 k"
      using write_entities_done(3,4) [OF ents] by (simp_all add: content_file_def file_references_def)
  qed
  have rows: "map Inr files = map (prepare_file digest1 (ctm_RepoID m) clock) (live_records m)"
    using write_records_done(1) [OF records] by simp
  have keys: "map file_key files = map (Pair (ctm_RepoID m)) (map co_Path (live_records m))"
    using prepared_files(1) [OF rows] by simp
  then have dist: "distinct (map file_key files)" using assms(2) by (simp only: distinct_map inj_on_def) auto
  have files_keys: "file_key ` set files = Pair (ctm_RepoID m) ` co_Path ` set (live_records m)"
    using arg_cong [OF keys, of set] by (simp only: set_map)
  have n: "0 < contentFileBatchSize" by (simp add: contentFileBatchSize_def)
  note batches = file_batches_written [OF upserted n dist]
  show "\<exists>row. prepare_file digest1 (ctm_RepoID m) clock r = Inr row \<and> content_file db' (ctm_RepoID m, co_Path r) = Some row
      \<and> file_references db' (ctm_RepoID m, co_Path r) = set (references (co_Body r))" if r: "r \<in> set (live_records m)"
  proof -
    obtain row where row: "row \<in> set files" "prepare_file digest1 (ctm_RepoID m) clock r = Inr row"
      using prepared_files(2) [OF rows r] by blast
    with prepared_file [OF row(2)] batches(1) [OF row(1)] show ?thesis by (simp add: same)
  qed
  have deleted: "content_file db1 k = None \<and> file_references db1 k = {}" if "k \<in> tombstoned (ctm_RepoID m) (ctm_Records m)" for k
  proof
    show "content_file db1 k = None"
      unfolding content_file_def write_records_done(2) [OF records] by (rule find_filter_None) (use that in simp)
    show "file_references db1 k = {}"
      using that by (cases k) (auto simp: file_references_def write_records_done(3) [OF records] reference_key_def)
  qed
  show "content_file db' k = None \<and> file_references db' k = {}"
    if "k \<in> tombstoned (ctm_RepoID m) (ctm_Records m)" "k \<notin> Pair (ctm_RepoID m) ` co_Path ` set (live_records m)"
    using batches(2) [of k] deleted [OF that(1)] that(2) unfolding same files_keys by simp
  have kept: "content_file db1 k = content_file db k \<and> file_references db1 k = file_references db k"
    if "k \<notin> tombstoned (ctm_RepoID m) (ctm_Records m)" for k
  proof
    show "content_file db1 k = content_file db k"
      unfolding content_file_def write_records_done(2) [OF records] by (rule find_filter_same) (use that in simp)
    show "file_references db1 k = file_references db k"
      using that by (cases k) (auto simp: file_references_def write_records_done(3) [OF records] reference_key_def image_iff)
  qed
  show "content_file db' k = content_file db k \<and> file_references db' k = file_references db k"
    if k: "k \<notin> Pair (ctm_RepoID m) ` co_Path ` set (ctm_Records m)"
  proof -
    have "k \<notin> tombstoned (ctm_RepoID m) (ctm_Records m)" using k by (auto simp: tombstoned_def)
    moreover have "k \<notin> file_key ` set files" unfolding files_keys using k by auto
    ultimately show ?thesis using batches(2) kept unfolding same by simp
  qed
qed

text \<open>The entities after a write.\<close>

lemma written_entities:
  assumes "ContentWriter_Write digest1 jsonb references w clock m db = (Inr res, db')" and "distinct (map ent_EntityID (live_entities m))"
  shows "e \<in> set (live_entities m) \<Longrightarrow>
      content_entity db' (ent_EntityID e) = Some (cast_metadata jsonb (prepare_entity (ctm_RepoID m) clock e))"
    and "i \<notin> ent_EntityID ` set (live_entities m) \<Longrightarrow> content_entity db' i = Some row \<Longrightarrow>
      row \<in> set (cdb_Entities db) \<and> (cer_RepoID row, cer_RelativePath row) \<notin> tombstoned (ctm_RepoID m) (ctm_Records m)
      \<and> \<not> (cer_RepoID row = ctm_RepoID m \<and> i \<in> ent_EntityID ` set (ctm_Entities m))"
    and "i \<notin> ent_EntityID ` set (ctm_Entities m) \<Longrightarrow> content_entity db i = Some row \<Longrightarrow> 
      (cer_RepoID row, cer_RelativePath row) \<notin> tombstoned (ctm_RepoID m) (ctm_Records m) \<Longrightarrow> content_entity db' i = Some row"
proof -
  obtain files n db1 db2 entities n' db3
    where records: "write_records digest1 (ctm_RepoID m) clock (ctm_Records m) ([], 0, db) = (None, files, n, db1)"
      and upserted: "exec_batches contentFileBatchSize (upsertContentFileBatch references clock) files db1 = (None, db2)"
      and ents: "write_entities (ctm_RepoID m) clock (ctm_Entities m) ([], n, db2) = (None, entities, n', db3)"
      and last: "exec_batches (effectiveEntityBatchSize w) (upsertContentEntityBatch jsonb) entities db3 = (None, db')"
    using write_stages [OF assms(1)] by blast
  have rows: "entities = map (prepare_entity (ctm_RepoID m) clock) (live_entities m)"
    using write_entities_done(1) [OF ents] by simp
  have id: "cer_EntityID (prepare_entity (ctm_RepoID m) clock e) = ent_EntityID e" for e by (simp add: prepare_entity_def)
  have dist: "distinct (map cer_EntityID entities)" using assms(2) by (simp add: rows o_def id)
  have ids: "cer_EntityID ` set entities = ent_EntityID ` set (live_entities m)"
    unfolding rows set_map image_image id ..
  have n: "0 < effectiveEntityBatchSize w" by (simp add: effectiveEntityBatchSize_def contentEntityBatchSize_def)
  note batches = entity_batches_written [OF last n dist]
  have before: "cdb_Entities db2 = cdb_Entities db1"
    by (rule batches_keep [where P = "\<lambda>d. cdb_Entities d = cdb_Entities db1", OF upserted]) (auto dest: file_batch_written(3))
  show "content_entity db' (ent_EntityID e) = Some (cast_metadata jsonb (prepare_entity (ctm_RepoID m) clock e))"
    if "e \<in> set (live_entities m)"
    using batches(1) [of "prepare_entity (ctm_RepoID m) clock e"] that unfolding id rows by simp
  let ?P = "\<lambda>t. (cer_RepoID t, cer_RelativePath t) \<notin> tombstoned (ctm_RepoID m) (ctm_Records m)"
  let ?Q = "\<lambda>t. \<not> (cer_RepoID t = ctm_RepoID m \<and> (\<exists>e \<in> set (ctm_Entities m). ent_Deleted e \<and> ent_EntityID e = cer_EntityID t))"
  have left: "content_entity db' i = find (\<lambda>t. cer_EntityID t = i) (filter ?Q (filter ?P (cdb_Entities db)))"
    if "i \<notin> ent_EntityID ` set (live_entities m)" for i
    using batches(2) that
    unfolding ids write_entities_done(2) [OF ents] before write_records_done(4) [OF records] content_entity_def by simp
  show "row \<in> set (cdb_Entities db) \<and> ?P row \<and> \<not> (cer_RepoID row = ctm_RepoID m \<and> i \<in> ent_EntityID ` set (ctm_Entities m))"
    if "i \<notin> ent_EntityID ` set (live_entities m)" "content_entity db' i = Some row"
    using find_mem [OF that(2) [unfolded left [OF that(1)]]] that(1) by auto
  show "content_entity db' i = Some row"
    if "i \<notin> ent_EntityID ` set (ctm_Entities m)" "content_entity db i = Some row" "?P row"
  proof -
    have "find P (filter ?Q (filter ?P xs)) = Some row" if "find P xs = Some row" "?P row" "?Q row" for P xs
      using that by (induction xs) (auto split: if_splits)
    moreover have "?Q row" using find_mem [OF that(2) [unfolded content_entity_def]] that(1) by (force simp: image_iff)
    moreover have "i \<notin> ent_EntityID ` set (live_entities m)" using that(1) by auto
    ultimately show ?thesis using left that(2,3) by (simp add: content_entity_def)
  qed
qed

text \<open>C11:
  What a successful write leaves in the content store, when no path and no entity is given twice among what
  is not deleted: every file given is found under its path with its columns and with exactly the references
  of its body, every deleted one is gone with its references unless it is also given, every entity given is
  found under its identifier, no entity of the repository that is deleted, alone or with its file, is found
  unless it is also given, and every other file of any repository is as it was. The keys of the three tables
  stay unique, also when the write fails on the way.
\<close>

theorem content_written:
  assumes "ContentWriter_Write digest1 jsonb references w clock m db = (r, db')" and "content_ok db"
  shows "content_ok db' \<and>
    (r = Inr res \<longrightarrow> distinct (map co_Path (live_records m)) \<longrightarrow> distinct (map ent_EntityID (live_entities m)) \<longrightarrow>
       (\<forall>c \<in> set (live_records m). \<exists>row. prepare_file digest1 (ctm_RepoID m) clock c = Inr row
          \<and> content_file db' (ctm_RepoID m, co_Path c) = Some row
          \<and> file_references db' (ctm_RepoID m, co_Path c) = set (references (co_Body c)))
     \<and> (\<forall>k \<in> tombstoned (ctm_RepoID m) (ctm_Records m) - Pair (ctm_RepoID m) ` co_Path ` set (live_records m).
          content_file db' k = None \<and> file_references db' k = {})
     \<and> (\<forall>k. k \<notin> Pair (ctm_RepoID m) ` co_Path ` set (ctm_Records m) \<longrightarrow>
          content_file db' k = content_file db k \<and> file_references db' k = file_references db k)
     \<and> (\<forall>e \<in> set (live_entities m).
          content_entity db' (ent_EntityID e) = Some (cast_metadata jsonb (prepare_entity (ctm_RepoID m) clock e)))
     \<and> (\<forall>i row. i \<notin> ent_EntityID ` set (live_entities m) \<longrightarrow> content_entity db' i = Some row \<longrightarrow>
          row \<in> set (cdb_Entities db) \<and> (cer_RepoID row, cer_RelativePath row) \<notin> tombstoned (ctm_RepoID m) (ctm_Records m)
          \<and> \<not> (cer_RepoID row = ctm_RepoID m \<and> i \<in> ent_EntityID ` set (ctm_Entities m))))"
proof (intro conjI impI)
  show "content_ok db'" by (rule write_keeps_ok [OF assms])
  assume r: "r = Inr res" and paths: "distinct (map co_Path (live_records m))" and ids: "distinct (map ent_EntityID (live_entities m))"
  note files = written_files [OF assms(1) [unfolded r] paths] and entities = written_entities [OF assms(1) [unfolded r] ids]
  show "\<forall>c \<in> set (live_records m). \<exists>row. prepare_file digest1 (ctm_RepoID m) clock c = Inr row
      \<and> content_file db' (ctm_RepoID m, co_Path c) = Some row
      \<and> file_references db' (ctm_RepoID m, co_Path c) = set (references (co_Body c))"
    by (intro ballI files(1))
  show "\<forall>k \<in> tombstoned (ctm_RepoID m) (ctm_Records m) - Pair (ctm_RepoID m) ` co_Path ` set (live_records m).
      content_file db' k = None \<and> file_references db' k = {}"
    by (intro ballI files(2)) simp_all
  show "\<forall>k. k \<notin> Pair (ctm_RepoID m) ` co_Path ` set (ctm_Records m) \<longrightarrow>
      content_file db' k = content_file db k \<and> file_references db' k = file_references db k"
    by (intro allI impI files(3))
  show "\<forall>e \<in> set (live_entities m).
      content_entity db' (ent_EntityID e) = Some (cast_metadata jsonb (prepare_entity (ctm_RepoID m) clock e))"
    by (intro ballI entities(1))
  show "\<forall>i row. i \<notin> ent_EntityID ` set (live_entities m) \<longrightarrow> content_entity db' i = Some row \<longrightarrow>
      row \<in> set (cdb_Entities db) \<and> (cer_RepoID row, cer_RelativePath row) \<notin> tombstoned (ctm_RepoID m) (ctm_Records m)
      \<and> \<not> (cer_RepoID row = ctm_RepoID m \<and> i \<in> ent_EntityID ` set (ctm_Entities m))"
    by (intro allI impI entities(2))
qed

section \<open>Removed files\<close>

text \<open>
  The collector marks nothing as deleted, so a write never removes anything: a file or an entity that is no
  longer in the repository stays in the content store, and is found there, after any number of generations.
\<close>

theorem removed_content_stays:
  assumes "sg = buildStreamingGeneration cwd disk rfc repoPath repo runID t snap dep"
    and "buildProjection digest (sg_Scope sg) (sg_Generation sg) (sg_Facts sg) = Inr p"
    and "m = prj_contentMaterialization p"
    and "ContentWriter_Write digest1 jsonb references w clock m db = (Inr res, db')"
    and "distinct (map co_Path (ctm_Records m))" and "distinct (map ent_EntityID (ctm_Entities m))"
  shows "k \<notin> co_Path ` set (ctm_Records m) \<Longrightarrow> content_file db' (rid, k) = content_file db (rid, k)"
    and "i \<notin> ent_EntityID ` set (ctm_Entities m) \<Longrightarrow> content_entity db i = Some row \<Longrightarrow> content_entity db' i = Some row"
proof -
  let ?s = "sg_Scope sg" and ?g = "sg_Generation sg" and ?fs = "sg_Facts sg"
  have scope: "?s = buildScope repo"
    and generation: "?g = buildGeneration (sc_ScopeID (buildScope repo)) runID repoPath t (snapshotFreshnessHint snap)"
    and stream: "?fs = streamFacts cwd disk rfc repoPath repo runID (sc_ScopeID ?s) (gen_GenerationID ?g) t snap dep"
    using assms(1) by (simp_all add: buildStreamingGeneration_def Let_def)
  have "in_boundary ?s ?g ?fs" unfolding stream scope generation by (rule streamFacts_in_boundary)
  note built = buildProjection_in_boundary [OF this, of digest]
  have alive: "\<not> ev_IsTombstone f" if "f \<in> set ?fs" for f using streamFacts_boundary(3) that unfolding stream by metis
  have records: "ctm_Records m = List.map_filter buildContentRecord ?fs"
    and ents: "ctm_Entities m = List.map_filter (buildContentEntityRecord digest (scopeRepoID ?s)) ?fs"
    using assms(2,3) built by auto
  have none: "\<not> co_Deleted c" if "c \<in> set (ctm_Records m)" for c
    using that alive records_kept unfolding records by (fastforce simp: List.map_filter_def)
  have none': "\<not> ent_Deleted e" if "e \<in> set (ctm_Entities m)" for e
    using that alive entities_kept unfolding ents by (fastforce simp: List.map_filter_def)
  have live: "live_records m = ctm_Records m" "live_entities m = ctm_Entities m" using none none' by (simp_all add: filter_id_conv)
  have tombs: "tombstoned (ctm_RepoID m) (ctm_Records m) = {}" using none by (auto simp: tombstoned_def)
  show "content_file db' (rid, k) = content_file db (rid, k)" if "k \<notin> co_Path ` set (ctm_Records m)"
    using written_files(3) [OF assms(4), unfolded live, OF assms(5), of "(rid, k)"] that by auto
  show "content_entity db' i = Some row" if "i \<notin> ent_EntityID ` set (ctm_Entities m)" "content_entity db i = Some row"
    using written_entities(3) [OF assms(4), unfolded live, OF assms(6) that] tombs by simp
qed

section \<open>Example\<close>

definition example_content :: ContentMaterialization where
  "example_content =
     \<lparr>ctm_RepoID = ''r'', ctm_ScopeID = ''s'', ctm_GenerationID = ''g'', ctm_SourceSystem = ''git'',
      ctm_Records =
        [\<lparr>co_Path = ''a'', co_Body = ''x'', co_Digest = ''d'', co_Deleted = False, co_Metadata = None\<rparr>,
         \<lparr>co_Path = ''b'', co_Body = [], co_Digest = [], co_Deleted = True, co_Metadata = None\<rparr>],
      ctm_Entities =
        [\<lparr>ent_EntityID = ''e'', ent_Path = ''a'', ent_EntityType = ''Function'', ent_EntityName = ''f'', ent_StartLine = 1,
          ent_EndLine = 0, ent_StartByte = None, ent_EndByte = None, ent_Language = [], ent_ArtifactType = [],
          ent_TemplateDialect = [], ent_IACRelevant = None, ent_SourceCache = [], ent_Metadata = None, ent_Deleted = False\<rparr>]\<rparr>"

definition example_store :: ContentDb where
  "example_store =
     \<lparr>cdb_Files =
        [\<lparr>cfr_RepoID = ''r'', cfr_RelativePath = ''b'', cfr_CommitSHA = None, cfr_Content = [], cfr_ContentHash = [],
          cfr_LineCount = 0, cfr_Language = None, cfr_ArtifactType = None, cfr_TemplateDialect = None, cfr_IACRelevant = None,
          cfr_IndexedAt = 1\<rparr>],
      cdb_Entities = [], cdb_References = []\<rparr>"

definition example_written :: "ContentResult result \<times> ContentDb" where
  "example_written = ContentWriter_Write (\<lambda>_. []) Some (\<lambda>_. [(''hostname'', ''h'')]) (NewContentWriter True) 2 example_content example_store"

lemma mapped_one:
  assumes "map f xs = [y]"
  obtains x where "x \<in> set xs" and "f x = y"
  using assms by (cases xs) auto

lemma content_written_witness:
  "content_file (snd example_written) (''r'', ''b'') = None
    \<and> (\<exists>row. content_file (snd example_written) (''r'', ''a'') = Some row)
    \<and> file_references (snd example_written) (''r'', ''a'') = {(''hostname'', ''h'')}
    \<and> (\<exists>row. content_entity (snd example_written) ''e'' = Some row)"
proof -
  have fine: "fst example_written = Inr \<lparr>ctr_ScopeID = ''s'', ctr_GenerationID = ''g'', ctr_RecordCount = 2, ctr_EntityCount = 1, ctr_DeletedCount = 1\<rparr>"
    by code_simp
  have ok: "content_ok example_store" by (simp add: content_ok_def example_store_def)
  have result: "ContentWriter_Write (\<lambda>_. []) Some (\<lambda>_. [(''hostname'', ''h'')]) (NewContentWriter True) 2 example_content example_store
      = (Inr \<lparr>ctr_ScopeID = ''s'', ctr_GenerationID = ''g'', ctr_RecordCount = 2, ctr_EntityCount = 1, ctr_DeletedCount = 1\<rparr>, snd example_written)"
    using fine by (metis example_written_def prod.collapse)
  have live: "map co_Path (live_records example_content) = [''a'']" "map ent_EntityID (live_entities example_content) = [''e'']"
    by (simp_all add: example_content_def)
  then have one: "distinct (map co_Path (live_records example_content))" "distinct (map ent_EntityID (live_entities example_content))"
    by (simp_all only: distinct.simps list.set) simp_all
  have repo: "ctm_RepoID example_content = ''r''" by (simp add: example_content_def)
  have gone: "(''r'', ''b'') \<in> tombstoned ''r'' (ctm_Records example_content)
      - Pair ''r'' ` co_Path ` set (live_records example_content)"
    by (simp add: example_content_def)
  note written = content_written [OF result ok, THEN conjunct2, THEN mp, OF refl, THEN mp, OF one(1), THEN mp, OF one(2), unfolded repo]
  obtain c where c: "c \<in> set (live_records example_content)" "co_Path c = ''a''" using live(1) by (rule mapped_one)
  obtain e where e: "e \<in> set (live_entities example_content)" "ent_EntityID e = ''e''" using live(2) by (rule mapped_one)
  show ?thesis
    using bspec [OF conjunct1 [OF written] c(1)] bspec [OF conjunct1 [OF conjunct2 [OF written]] gone]
      bspec [OF conjunct1 [OF conjunct2 [OF conjunct2 [OF conjunct2 [OF written]]]] e(1)] c(2) e(2)
    by auto
qed

end
