(* ===== verification/ReducerService.thy ===== *)
theory ReducerService
  imports QueueExamples ReducerRuntime
begin

text \<open>
  \<open>go/internal/reducer/service.go\<close>, \<open>service_batch.go\<close> and \<open>service_loop_config.go\<close>: the worker loops of the reducer, one
  intent at a time, in a pool of workers, and in a pool with one claimer and one acknowledger between them.
  Queue, executor and heartbeats act on a world of type \<open>'w\<close>; what they are given of their context is whether it has
  ended. Joined errors are lists. What other processes do meanwhile is part of the events.
\<close>

section \<open>Configuration\<close>

record 'w ReducerService =
  rsv_PollInterval :: duration
  rsv_Claim :: "'w \<Rightarrow> Intent option result \<times> 'w"
  rsv_Execute :: "bool \<Rightarrow> Intent \<Rightarrow> 'w \<Rightarrow> Result result \<times> 'w"
  rsv_Ack :: "bool \<Rightarrow> Intent \<Rightarrow> Result \<Rightarrow> 'w \<Rightarrow> error option \<times> 'w"
  rsv_Fail :: "bool \<Rightarrow> Intent \<Rightarrow> error list \<Rightarrow> 'w \<Rightarrow> error option \<times> 'w"
  rsv_Heartbeat :: "(bool \<Rightarrow> Intent \<Rightarrow> 'w \<Rightarrow> error option \<times> 'w) option"
  rsv_HeartbeatInterval :: duration
  rsv_ClaimBatch :: "int \<Rightarrow> 'w \<Rightarrow> Intent list result \<times> 'w"
  rsv_AckBatch :: "bool \<Rightarrow> (Intent \<times> Result) list \<Rightarrow> 'w \<Rightarrow> error option \<times> 'w"
  rsv_Workers :: nat
  rsv_BatchClaimSize :: int

definition reducer_pollInterval :: "'w ReducerService \<Rightarrow> duration" where
  "reducer_pollInterval s = (if rsv_PollInterval s \<le> 0 then seconds 1 else rsv_PollInterval s)"

definition batchClaimSize :: "'w ReducerService \<Rightarrow> nat" where
  "batchClaimSize s =
     (if 0 < rsv_BatchClaimSize s then nat (rsv_BatchClaimSize s) else max 4 (min 64 (rsv_Workers s * 4)))"

section \<open>One intent\<close>

text \<open>
  While an intent is executed its heartbeats are due, other processes act, and at its end a heartbeat may be on its
  way, whose context ends with the execution. A failed heartbeat ends the context of the execution; its error is
  replaced by that of a later one. \<open>ex_Shutdown\<close>: the worker's own context has ended when the executor returns.
\<close>

datatype 'w meanwhile =
    Beat_due
  | Meanwhile "'w \<Rightarrow> 'w"

record 'w execution =
  ex_Events :: "'w meanwhile list"
  ex_InFlight :: bool
  ex_Shutdown :: bool

definition reducer_beat :: "'w ReducerService \<Rightarrow> Intent \<Rightarrow> bool \<Rightarrow> error option \<times> 'w \<Rightarrow> error option \<times> 'w" where
  "reducer_beat s intent ended st =
     (case rsv_Heartbeat s of
        None \<Rightarrow> st
      | Some beat \<Rightarrow>
          if rsv_HeartbeatInterval s \<le> 0 then st
          else (case st of (failed, w) \<Rightarrow>
            (case beat (ended \<or> failed \<noteq> None) intent w of
               (None, w') \<Rightarrow> (failed, w')
             | (Some e, w') \<Rightarrow> (Some (Wrap ''heartbeat reducer work'' e), w'))))"

fun meanwhile_step :: "'w ReducerService \<Rightarrow> Intent \<Rightarrow> 'w meanwhile \<Rightarrow> error option \<times> 'w \<Rightarrow> error option \<times> 'w" where
  "meanwhile_step s intent Beat_due st = reducer_beat s intent False st"
| "meanwhile_step s intent (Meanwhile f) (failed, w) = (failed, f w)"

definition run_execution :: "'w ReducerService \<Rightarrow> 'w execution \<Rightarrow> Intent \<Rightarrow> 'w \<Rightarrow> Result result \<times> error option \<times> 'w" where
  "run_execution s ex intent w =
     (case fold (meanwhile_step s intent) (ex_Events ex) (None, w) of (failed, w1) \<Rightarrow>
      case rsv_Execute s (failed \<noteq> None \<or> ex_Shutdown ex) intent w1 of (r, w2) \<Rightarrow>
        (r, if ex_InFlight ex then reducer_beat s intent True (failed, w2) else (failed, w2)))"

definition optional_error :: "error option \<Rightarrow> error list" where
  "optional_error e = (case e of None \<Rightarrow> [] | Some x \<Rightarrow> [x])"

definition executeWithTelemetry :: "'w ReducerService \<Rightarrow> 'w execution \<Rightarrow> Intent \<Rightarrow> 'w \<Rightarrow> error list \<times> 'w" where
  "executeWithTelemetry s ex intent w =
     (case run_execution s ex intent w of
        (Inl err, heartbeatErr, w1) \<Rightarrow>
          (case rsv_Fail s (ex_Shutdown ex) intent (err # optional_error heartbeatErr) w1 of
             (Some failErr, w2) \<Rightarrow> (err # optional_error heartbeatErr @ [Wrap ''fail reducer work'' failErr], w2)
           | (None, w2) \<Rightarrow> ([], w2))
      | (Inr res, Some heartbeatErr, w1) \<Rightarrow> ([Wrap ''heartbeat reducer work'' heartbeatErr], w1)
      | (Inr res, None, w1) \<Rightarrow>
          (case rsv_Ack s (ex_Shutdown ex) intent res w1 of
             (Some e, w2) \<Rightarrow> ([Wrap ''ack reducer work'' e], w2)
           | (None, w2) \<Rightarrow> ([], w2)))"

text \<open>The result that stands for a failure is sent on like any other.\<close>

definition failed_result :: Result where
  "failed_result = \<lparr>res_IntentID = [], res_Domain = [], res_Status = ResultStatusFailed, res_EvidenceSummary = [],
     res_CanonicalWrites = 0, res_CompletedAt = 0\<rparr>"

definition executeAndReport :: "'w ReducerService \<Rightarrow> 'w execution \<Rightarrow> Intent \<Rightarrow> 'w \<Rightarrow> (error list + Result) \<times> 'w" where
  "executeAndReport s ex intent w =
     (case run_execution s ex intent w of
        (Inl err, heartbeatErr, w1) \<Rightarrow>
          (case rsv_Fail s (ex_Shutdown ex) intent (err # optional_error heartbeatErr) w1 of
             (Some failErr, w2) \<Rightarrow> (Inl (err # optional_error heartbeatErr @ [Wrap ''fail reducer work'' failErr]), w2)
           | (None, w2) \<Rightarrow> (Inr failed_result, w2))
      | (Inr res, Some heartbeatErr, w1) \<Rightarrow> (Inl [Wrap ''heartbeat reducer work'' heartbeatErr], w1)
      | (Inr res, None, w1) \<Rightarrow> (Inr res, w1))"

section \<open>One intent at a time\<close>

text \<open>How the wait after an empty claim returns, as the loop tells it apart.\<close>

datatype waited =
    Waited
  | Wait_ended
  | Wait_failed error

record 'w reducer_round =
  rrd_Stopped :: bool
  rrd_Wait :: waited
  rrd_Execution :: "'w execution"

datatype lane =
    Lane_runs
  | Lane_returns "error list"

definition reducer_round :: "'w ReducerService \<Rightarrow> 'w reducer_round \<Rightarrow> 'w \<Rightarrow> lane \<times> 'w" where
  "reducer_round s rd w =
     (case rsv_Claim s w of
        (Inl e, w1) \<Rightarrow> (Lane_returns [Wrap ''claim reducer work'' e], w1)
      | (Inr None, w1) \<Rightarrow>
          (case rrd_Wait rd of
             Waited \<Rightarrow> (Lane_runs, w1)
           | Wait_ended \<Rightarrow> (Lane_returns [], w1)
           | Wait_failed e \<Rightarrow> (Lane_returns [Wrap ''wait for reducer work'' e], w1))
      | (Inr (Some intent), w1) \<Rightarrow>
          (case executeWithTelemetry s (rrd_Execution rd) intent w1 of
             ([], w2) \<Rightarrow> (Lane_runs, w2)
           | (es, w2) \<Rightarrow> (Lane_returns es, w2)))"

fun reducer_sequential :: "'w ReducerService \<Rightarrow> 'w reducer_round list \<Rightarrow> 'w \<Rightarrow> lane \<times> 'w" where
  "reducer_sequential s [] w = (Lane_runs, w)"
| "reducer_sequential s (rd # rds) w =
     (case reducer_round s rd w of
        (Lane_runs, w') \<Rightarrow> reducer_sequential s rds w'
      | (Lane_returns es, w') \<Rightarrow> (Lane_returns es, w'))"

text \<open>The rounds of the workers in the order in which they start, as for the projector.\<close>

record item_pool =
  ipl_Live :: "nat list"
  ipl_Errors :: "error list"
  ipl_Canceled :: bool

definition item_pool_round :: "'w ReducerService \<Rightarrow> nat \<times> 'w reducer_round \<Rightarrow> item_pool \<times> 'w \<Rightarrow> item_pool \<times> 'w" where
  "item_pool_round s step st =
     (case (step, st) of ((worker, rd), (p, w)) \<Rightarrow>
        if worker \<notin> set (ipl_Live p) then (p, w)
        else if ipl_Canceled p \<or> rrd_Stopped rd then (p\<lparr>ipl_Live := removeAll worker (ipl_Live p)\<rparr>, w)
        else (case reducer_round s rd w of
            (Lane_runs, w') \<Rightarrow> (p, w')
          | (Lane_returns es, w') \<Rightarrow>
              (p\<lparr>ipl_Live := removeAll worker (ipl_Live p), ipl_Errors := ipl_Errors p @ es,
                 ipl_Canceled := (ipl_Canceled p \<or> es \<noteq> [])\<rparr>, w')))"

definition runPerItemConcurrent :: "'w ReducerService \<Rightarrow> (nat \<times> 'w reducer_round) list \<Rightarrow> 'w \<Rightarrow> item_pool \<times> 'w" where
  "runPerItemConcurrent s steps w =
     fold (item_pool_round s) steps (\<lparr>ipl_Live = [0..<rsv_Workers s], ipl_Errors = [], ipl_Canceled = False\<rparr>, w)"

text \<open>\<open>Run\<close> returns the first error of its lanes, in the order in which they end; any error ends them all.\<close>

definition first_lane_error :: "error option list \<Rightarrow> error option" where
  "first_lane_error ends = Option.bind (find (\<lambda>e. e \<noteq> None) ends) (\<lambda>e. e)"

section \<open>Batches\<close>

datatype batch_worker =
    Worker_starting
  | Worker_waiting
  | Worker_busy Intent
  | Worker_reporting Intent Result
  | Worker_gone

text \<open>
  The pool: the tokens in \<open>workerReady\<close>, the claimer's count of idle workers and the intents it has yet to hand over,
  the workers, what is in \<open>ackCh\<close> and what the acknowledger has collected. \<open>bt_Taken\<close> and \<open>bt_Acked\<close> are history:
  the intents claims returned and those passed to \<open>AckBatch\<close>.
\<close>

record 'w batch_pool =
  bt_Tokens :: nat
  bt_Idle :: nat
  bt_Held :: "Intent list"
  bt_Claiming :: bool
  bt_Workers :: "batch_worker list"
  bt_Channel :: "(Intent \<times> Result) list"
  bt_Pending :: "(Intent \<times> Result) list"
  bt_Acking :: bool
  bt_Errors :: "error list"
  bt_Canceled :: bool
  bt_World :: 'w
  bt_Taken :: "Intent list"
  bt_Acked :: "Intent list"

datatype 'w pool_event =
    Worker_ready nat
  | Claimer_claims waited
  | Claimer_hands nat
  | Claimer_leaves
  | Worker_runs nat "'w execution"
  | Worker_reports nat
  | Worker_leaves nat
  | Acker_collects
  | Acker_flushes
  | Acker_leaves
  | Pool_canceled
  | World_moves "'w \<Rightarrow> 'w"

definition start_pool :: "'w ReducerService \<Rightarrow> 'w \<Rightarrow> 'w batch_pool" where
  "start_pool s w =
     \<lparr>bt_Tokens = 0, bt_Idle = 0, bt_Held = [], bt_Claiming = True, bt_Workers = replicate (rsv_Workers s) Worker_starting,
      bt_Channel = [], bt_Pending = [], bt_Acking = True, bt_Errors = [], bt_Canceled = False, bt_World = w,
      bt_Taken = [], bt_Acked = []\<rparr>"

definition worker_at :: "'w batch_pool \<Rightarrow> nat \<Rightarrow> batch_worker" where
  "worker_at p i = (if i < length (bt_Workers p) then bt_Workers p ! i else Worker_gone)"

definition set_worker :: "nat \<Rightarrow> batch_worker \<Rightarrow> 'w batch_pool \<Rightarrow> 'w batch_pool" where
  "set_worker i x p = p\<lparr>bt_Workers := (bt_Workers p)[i := x]\<rparr>"

definition append_errors :: "error list \<Rightarrow> 'w batch_pool \<Rightarrow> 'w batch_pool" where
  "append_errors es p = p\<lparr>bt_Errors := bt_Errors p @ es, bt_Canceled := True\<rparr>"

definition claim_into :: "'w ReducerService \<Rightarrow> waited \<Rightarrow> 'w batch_pool \<Rightarrow> 'w batch_pool" where
  "claim_into s after p =
     (let idle = bt_Idle p + bt_Tokens p; p0 = p\<lparr>bt_Idle := idle, bt_Tokens := 0\<rparr> in
      case rsv_ClaimBatch s (int (min (batchClaimSize s) idle)) (bt_World p) of
        (Inl e, w) \<Rightarrow>
          (let p1 = p0\<lparr>bt_World := w, bt_Claiming := False\<rparr>
           in if bt_Canceled p then p1 else append_errors [Wrap ''batch claim reducer work'' e] p1)
      | (Inr [], w) \<Rightarrow>
          (case after of
             Waited \<Rightarrow> p0\<lparr>bt_World := w\<rparr>
           | Wait_ended \<Rightarrow> p0\<lparr>bt_World := w, bt_Claiming := False\<rparr>
           | Wait_failed e \<Rightarrow> append_errors [Wrap ''wait for reducer work'' e] (p0\<lparr>bt_World := w, bt_Claiming := False\<rparr>))
      | (Inr intents, w) \<Rightarrow> p0\<lparr>bt_World := w, bt_Held := intents, bt_Taken := bt_Taken p @ intents\<rparr>)"

definition flush_acks :: "'w ReducerService \<Rightarrow> 'w batch_pool \<Rightarrow> 'w batch_pool" where
  "flush_acks s p =
     (if bt_Pending p = [] then p
      else (case rsv_AckBatch s (bt_Canceled p) (bt_Pending p) (bt_World p) of (e, w) \<Rightarrow>
        let p1 = p\<lparr>bt_World := w, bt_Pending := [], bt_Acked := bt_Acked p @ map fst (bt_Pending p)\<rparr>
        in case e of
             Some err \<Rightarrow> if bt_Canceled p then p1 else append_errors [Wrap ''batch ack reducer work'' err] p1
           | None \<Rightarrow> p1))"

definition collect_ack :: "'w ReducerService \<Rightarrow> 'w batch_pool \<Rightarrow> 'w batch_pool" where
  "collect_ack s p =
     (case bt_Channel p of
        [] \<Rightarrow> p
      | a # rest \<Rightarrow>
          (let p1 = p\<lparr>bt_Channel := rest, bt_Pending := bt_Pending p @ [a]\<rparr>
           in if batchClaimSize s \<le> length (bt_Pending p1) then flush_acks s p1 else p1))"

text \<open>A step that is not possible changes nothing.\<close>

fun pool_step :: "'w ReducerService \<Rightarrow> 'w pool_event \<Rightarrow> 'w batch_pool \<Rightarrow> 'w batch_pool" where
  "pool_step s (Worker_ready i) p =
     (if worker_at p i = Worker_starting then (set_worker i Worker_waiting p)\<lparr>bt_Tokens := bt_Tokens p + 1\<rparr> else p)"
| "pool_step s (Claimer_claims after) p =
     (if bt_Claiming p \<and> bt_Held p = [] \<and> 0 < bt_Idle p + bt_Tokens p then claim_into s after p else p)"
| "pool_step s (Claimer_hands i) p =
     (case bt_Held p of
        [] \<Rightarrow> p
      | x # rest \<Rightarrow>
          if bt_Claiming p \<and> worker_at p i = Worker_waiting
          then (set_worker i (if bt_Canceled p then Worker_gone else Worker_busy x) p)\<lparr>bt_Held := rest, bt_Idle := bt_Idle p - 1\<rparr>
          else p)"
| "pool_step s Claimer_leaves p = (if bt_Canceled p then p\<lparr>bt_Claiming := False, bt_Held := []\<rparr> else p)"
| "pool_step s (Worker_runs i ex) p =
     (case worker_at p i of
        Worker_busy x \<Rightarrow>
          (case executeAndReport s ex x (bt_World p) of
             (Inl es, w) \<Rightarrow> append_errors es ((set_worker i Worker_gone p)\<lparr>bt_World := w\<rparr>)
           | (Inr r, w) \<Rightarrow> (set_worker i (Worker_reporting x r) p)\<lparr>bt_World := w\<rparr>)
      | _ \<Rightarrow> p)"
| "pool_step s (Worker_reports i) p =
     (case worker_at p i of
        Worker_reporting x r \<Rightarrow>
          if length (bt_Channel p) < 2 * batchClaimSize s
          then (set_worker i Worker_starting p)\<lparr>bt_Channel := bt_Channel p @ [(x, r)]\<rparr> else p
      | _ \<Rightarrow> p)"
| "pool_step s (Worker_leaves i) p =
     (case worker_at p i of
        Worker_busy x \<Rightarrow> p
      | Worker_waiting \<Rightarrow> if bt_Canceled p \<or> \<not> bt_Claiming p then set_worker i Worker_gone p else p
      | _ \<Rightarrow> if bt_Canceled p then set_worker i Worker_gone p else p)"
| "pool_step s Acker_collects p = (if bt_Acking p then collect_ack s p else p)"
| "pool_step s Acker_flushes p = (if bt_Acking p then flush_acks s p else p)"
| "pool_step s Acker_leaves p =
     (if bt_Acking p \<and> (bt_Canceled p \<or> (bt_Channel p = [] \<and> \<not> bt_Claiming p \<and> list_all (\<lambda>x. x = Worker_gone) (bt_Workers p)))
      then (flush_acks s p)\<lparr>bt_Acking := False\<rparr> else p)"
| "pool_step s Pool_canceled p = p\<lparr>bt_Canceled := True\<rparr>"
| "pool_step s (World_moves f) p = p\<lparr>bt_World := f (bt_World p)\<rparr>"

definition runBatchConcurrent :: "'w ReducerService \<Rightarrow> 'w pool_event list \<Rightarrow> 'w \<Rightarrow> 'w batch_pool" where
  "runBatchConcurrent s events w = fold (pool_step s) events (start_pool s w)"

section \<open>What a pool has in hand\<close>

text \<open>A sum over the workers when one of them changes.\<close>

lemma sum_list_set:
  fixes f :: "'a \<Rightarrow> 'b :: comm_monoid_add"
  shows "i < length xs \<Longrightarrow> sum_list (map f (xs[i := x])) + f (xs ! i) = sum_list (map f xs) + f x"
proof (induction xs arbitrary: i)
  case (Cons y ys)
  show ?case
  proof (cases i)
    case (Suc j)
    with Cons show ?thesis by (simp add: add.assoc)
  qed (simp add: ac_simps)
qed simp

fun worker_load :: "batch_worker \<Rightarrow> Intent multiset" where
  "worker_load (Worker_busy x) = {#x#}"
| "worker_load (Worker_reporting x r) = {#x#}"
| "worker_load _ = {#}"

definition worker_waits :: "batch_worker \<Rightarrow> nat" where
  "worker_waits x = (if x = Worker_waiting then 1 else 0)"

abbreviation waiting_workers :: "'w batch_pool \<Rightarrow> nat" where
  "waiting_workers p \<equiv> sum_list (map worker_waits (bt_Workers p))"

abbreviation workers_load :: "'w batch_pool \<Rightarrow> Intent multiset" where
  "workers_load p \<equiv> sum_list (map worker_load (bt_Workers p))"

text \<open>The intents the pool has in hand: still to be handed over, executed, or on their way to the acknowledgement.\<close>

definition in_hand :: "'w batch_pool \<Rightarrow> Intent multiset" where
  "in_hand p = mset (bt_Held p) + workers_load p + mset (map fst (bt_Channel p)) + mset (map fst (bt_Pending p))"

definition pool_inv :: "'w batch_pool \<Rightarrow> bool" where
  "pool_inv p \<longleftrightarrow> bt_Canceled p \<or>
     (mset (bt_Taken p) = in_hand p + mset (bt_Acked p)
      \<and> (bt_Claiming p \<longrightarrow> bt_Idle p + bt_Tokens p = waiting_workers p \<and> length (bt_Held p) \<le> bt_Idle p))"

lemma set_worker_simps [simp]:
  "bt_Held (set_worker i x p) = bt_Held p" "bt_Channel (set_worker i x p) = bt_Channel p"
  "bt_Pending (set_worker i x p) = bt_Pending p" "bt_Acked (set_worker i x p) = bt_Acked p"
  "bt_Taken (set_worker i x p) = bt_Taken p" "bt_Claiming (set_worker i x p) = bt_Claiming p"
  "bt_Idle (set_worker i x p) = bt_Idle p" "bt_Tokens (set_worker i x p) = bt_Tokens p"
  "bt_Canceled (set_worker i x p) = bt_Canceled p" "bt_World (set_worker i x p) = bt_World p"
  "bt_Acking (set_worker i x p) = bt_Acking p" "bt_Workers (set_worker i x p) = (bt_Workers p)[i := x]"
  by (simp_all add: set_worker_def)

lemma worker_at_in: "worker_at p i = x \<Longrightarrow> x \<noteq> Worker_gone \<Longrightarrow> i < length (bt_Workers p) \<and> bt_Workers p ! i = x"
  by (auto simp: worker_at_def split: if_splits)

lemma worker_changes:
  assumes "worker_at p i = x" and "x \<noteq> Worker_gone"
  shows "sum_list (map worker_load ((bt_Workers p)[i := y])) + worker_load x = workers_load p + worker_load y"
    and "sum_list (map worker_waits ((bt_Workers p)[i := y])) + worker_waits x = waiting_workers p + worker_waits y"
  using worker_at_in [OF assms] sum_list_set [of i "bt_Workers p" worker_load y] sum_list_set [of i "bt_Workers p" worker_waits y]
  by auto

lemma flush_acks_inv: "pool_inv p \<Longrightarrow> pool_inv (flush_acks s p)"
  by (auto simp: flush_acks_def append_errors_def pool_inv_def in_hand_def Let_def ac_simps split: option.splits prod.splits)

lemma collect_ack_inv: "pool_inv p \<Longrightarrow> pool_inv (collect_ack s p)"
proof (cases "bt_Channel p")
  case (Cons a rest)
  assume "pool_inv p"
  with Cons have "pool_inv (p\<lparr>bt_Channel := rest, bt_Pending := bt_Pending p @ [a]\<rparr>)"
    by (auto simp: pool_inv_def in_hand_def ac_simps)
  with Cons show ?thesis by (simp add: collect_ack_def Let_def flush_acks_inv)
qed (simp add: collect_ack_def)

definition claims_bounded :: "'w ReducerService \<Rightarrow> bool" where
  "claims_bounded s \<longleftrightarrow> (\<forall>n w is w'. 0 < n \<longrightarrow> rsv_ClaimBatch s (int n) w = (Inr is, w') \<longrightarrow> length is \<le> n)"

lemma batchClaimSize_pos: "0 < batchClaimSize s"
  by (auto simp: batchClaimSize_def less_max_iff_disj)

lemma claim_into_inv:
  assumes "claims_bounded s" and "pool_inv p" and "bt_Held p = []" and "bt_Claiming p" and "0 < bt_Idle p + bt_Tokens p"
  shows "pool_inv (claim_into s after p)"
proof -
  let ?n = "min (batchClaimSize s) (bt_Idle p + bt_Tokens p)"
  have n: "0 < ?n" using batchClaimSize_pos assms(5) by auto
  obtain r w where claim: "rsv_ClaimBatch s (int ?n) (bt_World p) = (r, w)" by (metis surj_pair)
  have bound: "length is \<le> bt_Idle p + bt_Tokens p" if "r = Inr is" for "is"
  proof -
    have "length is \<le> ?n" using assms(1) n claim unfolding that claims_bounded_def by blast
    then show ?thesis by simp
  qed
  show ?thesis
  proof (cases "bt_Canceled p")
    case True
    with claim show ?thesis
      by (auto simp: claim_into_def Let_def append_errors_def pool_inv_def split: sum.split list.split waited.split)
  next
    case False
    with assms(2,3,4) have old: "mset (bt_Taken p) = in_hand p + mset (bt_Acked p)" "bt_Idle p + bt_Tokens p = waiting_workers p"
      by (simp_all add: pool_inv_def)
    show ?thesis
    proof (cases r)
      case (Inl e)
      with claim False show ?thesis by (simp add: claim_into_def Let_def append_errors_def pool_inv_def)
    next
      case (Inr "is")
      show ?thesis
      proof (cases "is")
        case Nil
        with claim Inr old assms(3) show ?thesis
          by (cases after) (simp_all add: claim_into_def Let_def append_errors_def pool_inv_def in_hand_def)
      next
        case (Cons x xs)
        have "claim_into s after p = p\<lparr>bt_Idle := bt_Idle p + bt_Tokens p, bt_Tokens := 0, bt_World := w, bt_Held := is,
            bt_Taken := bt_Taken p @ is\<rparr>"
          using claim Inr Cons by (simp add: claim_into_def Let_def)
        with bound [OF Inr] old assms(3) show ?thesis by (simp add: pool_inv_def in_hand_def)
      qed
    qed
  qed
qed

lemma pool_step_inv:
  assumes "claims_bounded s" and "pool_inv p"
  shows "pool_inv (pool_step s e p)"
proof (cases "bt_Canceled p")
  case True
  have "bt_Canceled (flush_acks s q)" if "bt_Canceled q" for q
    using that by (auto simp: flush_acks_def Let_def split: option.split prod.split)
  moreover have "bt_Canceled (collect_ack s q)" if "bt_Canceled q" for q
    using that calculation by (auto simp: collect_ack_def Let_def split: list.split)
  moreover have "bt_Canceled (claim_into s after q)" if "bt_Canceled q" for q after
    using that by (auto simp: claim_into_def Let_def append_errors_def split: prod.split sum.split list.split waited.split)
  ultimately have "bt_Canceled (pool_step s e p)"
    using True by (cases e) (auto simp: append_errors_def split: list.split batch_worker.split sum.split prod.split)
  then show ?thesis by (simp add: pool_inv_def)
next
  case False
  with assms(2) have old: "mset (bt_Taken p) = in_hand p + mset (bt_Acked p)"
    and idle: "bt_Claiming p \<Longrightarrow> bt_Idle p + bt_Tokens p = waiting_workers p \<and> length (bt_Held p) \<le> bt_Idle p"
    by (simp_all add: pool_inv_def)
  show ?thesis
  proof (cases e)
    case (Worker_ready i)
    show ?thesis
    proof (cases "worker_at p i = Worker_starting")
      case True
      note w = worker_changes [OF True, of Worker_waiting]
      then show ?thesis using Worker_ready True old idle by (simp add: pool_inv_def in_hand_def worker_waits_def)
    qed (use Worker_ready assms(2) in simp)
  next
    case (Claimer_claims after)
    with claim_into_inv [OF assms, of after] assms(2) show ?thesis by simp
  next
    case (Claimer_hands i)
    show ?thesis
    proof (cases "bt_Held p \<noteq> [] \<and> bt_Claiming p \<and> worker_at p i = Worker_waiting")
      case True
      then obtain x rest where held: "bt_Held p = x # rest" by (cases "bt_Held p") auto
      note w = worker_changes [of p i Worker_waiting "Worker_busy x"]
      show ?thesis using Claimer_hands True False held w old idle
        by (auto simp: pool_inv_def in_hand_def worker_waits_def)
    qed (use Claimer_hands assms(2) in \<open>auto split: list.split\<close>)
  next
    case (Worker_runs i ex)
    show ?thesis
    proof (cases "worker_at p i")
      case (Worker_busy x)
      obtain r w where r: "executeAndReport s ex x (bt_World p) = (r, w)" by (metis surj_pair)
      show ?thesis
      proof (cases r)
        case (Inl es)
        with Worker_runs Worker_busy r show ?thesis by (simp add: append_errors_def pool_inv_def)
      next
        case (Inr res)
        have "worker_at p i \<noteq> Worker_gone" using Worker_busy by simp
        note w = worker_changes [OF refl this, of "Worker_reporting x res"]
        show ?thesis using Worker_runs Worker_busy r Inr w old idle by (simp add: pool_inv_def in_hand_def worker_waits_def)
      qed
    qed (use Worker_runs assms(2) in simp_all)
  next
    case (Worker_reports i)
    show ?thesis
    proof (cases "worker_at p i")
      case (Worker_reporting x r)
      have "worker_at p i \<noteq> Worker_gone" using Worker_reporting by simp
      note w = worker_changes [OF refl this, of Worker_starting]
      show ?thesis using Worker_reports Worker_reporting w assms(2) old idle
        by (auto simp: pool_inv_def in_hand_def worker_waits_def ac_simps)
    qed (use Worker_reports assms(2) in simp_all)
  next
    case (Worker_leaves i)
    show ?thesis
    proof (cases "worker_at p i")
      case Worker_waiting
      then have "worker_at p i \<noteq> Worker_gone" by simp
      note w = worker_changes [OF refl this, of Worker_gone]
      show ?thesis using Worker_leaves Worker_waiting False w assms(2) old
        by (auto simp: pool_inv_def in_hand_def)
    qed (use Worker_leaves assms(2) False in simp_all)
  next
    case Acker_leaves
    have "pool_inv ((flush_acks s p)\<lparr>bt_Acking := False\<rparr>)"
      using flush_acks_inv [OF assms(2), of s] by (simp add: pool_inv_def in_hand_def)
    with Acker_leaves assms(2) show ?thesis by simp
  next
    case (World_moves f)
    with old idle show ?thesis by (simp add: pool_inv_def in_hand_def)
  qed (use assms(2) False in \<open>simp_all add: collect_ack_inv flush_acks_inv pool_inv_def [of "p\<lparr>bt_Canceled := True\<rparr>"]\<close>)
qed

lemma start_pool_inv: "pool_inv (start_pool s w)"
proof -
  have "sum_list (map worker_load (replicate n Worker_starting)) = {#}" "sum_list (map worker_waits (replicate n Worker_starting)) = 0" for n
    by (induction n) (simp_all add: worker_waits_def)
  then show ?thesis by (simp add: pool_inv_def start_pool_def in_hand_def)
qed

text \<open>The steps of a pool whose claims return no more than they are asked for.\<close>

definition batch_step :: "'w ReducerService \<Rightarrow> 'w batch_pool \<Rightarrow> 'w batch_pool \<Rightarrow> bool" where
  "batch_step s p q \<longleftrightarrow> claims_bounded s \<and> (\<exists>e. q = pool_step s e p)"

interpretation batch_pool: invariant "batch_step s" pool_inv "\<lambda>p. \<exists>w. p = start_pool s w" for s :: "'w ReducerService"
  by unfold_locales (auto simp: batch_step_def intro: pool_step_inv start_pool_inv)

lemma batch_reach:
  assumes "claims_bounded s"
  shows "reach (\<lambda>p. \<exists>w. p = start_pool s w) (batch_step s) (runBatchConcurrent s events w)"
proof (induction events rule: rev_induct)
  case Nil
  show ?case by (rule reach_init) (auto simp: runBatchConcurrent_def)
next
  case (snoc e events)
  then show ?case
    by (rule reach_step) (use assms in \<open>auto simp: batch_step_def runBatchConcurrent_def\<close>)
qed

text \<open>C18:
  The pool of the reducer claims no more than its workers are waiting for, and loses nothing while it runs. With
  a source whose claims return at most what they are asked for, at every moment before the pool's context ends
  the intents that are claimed and not yet handed over are no more than the workers that wait for one, and the
  intents that claims have returned are, each as often as it was claimed, those still to be handed over, in
  execution, or on their way to the acknowledgement, and those passed to it.
\<close>

theorem batch_pool_accounts:
  assumes "claims_bounded s" and "p = runBatchConcurrent s events w" and "\<not> bt_Canceled p"
  shows "mset (bt_Taken p) = mset (bt_Held p) + workers_load p + mset (map fst (bt_Channel p)) + mset (map fst (bt_Pending p))
      + mset (bt_Acked p)
    \<and> (bt_Claiming p \<longrightarrow> length (bt_Held p) \<le> length (filter (\<lambda>x. x = Worker_waiting) (bt_Workers p)))"
proof -
  have waits: "sum_list (map worker_waits xs) = length (filter (\<lambda>x. x = Worker_waiting) xs)" for xs
    by (induction xs) (simp_all add: worker_waits_def)
  have "pool_inv p" using batch_pool.reach_holds [OF batch_reach [OF assms(1)]] assms(2) by simp
  with assms(3) show ?thesis by (auto simp: pool_inv_def in_hand_def waits)
qed

section \<open>The service of the reducer\<close>

text \<open>
  What \<open>cmd/reducer\<close> wires to the reducer queue, over a world of its tables and a rest the handlers act on.
  A statement whose context has ended fails; \<open>cause_of\<close> is what the queue reads off an error.
\<close>

definition on_queue :: "bool \<Rightarrow> string \<Rightarrow> (DataDb \<Rightarrow> error option \<times> DataDb) \<Rightarrow> DataDb \<times> 'x \<Rightarrow> error option \<times> DataDb \<times> 'x" where
  "on_queue ended op f w =
     (case w of (db, x) \<Rightarrow>
        if ended then (Some (Wrap op (Msg ''context canceled'')), db, x)
        else (case f db of (e, db') \<Rightarrow> (e, db', x)))"

definition with_tables :: "(DataDb \<Rightarrow> 'a \<times> DataDb) \<Rightarrow> DataDb \<times> 'x \<Rightarrow> 'a \<times> DataDb \<times> 'x" where
  "with_tables f w = (case w of (db, x) \<Rightarrow> (case f db of (r, db') \<Rightarrow> (r, db', x)))"

definition buildReducerService ::
  "(string \<Rightarrow> string \<Rightarrow> int) \<Rightarrow> string list \<Rightarrow> ReducerQueue \<Rightarrow> (error list \<Rightarrow> Cause) \<Rightarrow> time
   \<Rightarrow> (bool \<Rightarrow> Intent \<Rightarrow> DataDb \<times> 'x \<Rightarrow> Result result \<times> DataDb \<times> 'x) \<Rightarrow> nat \<Rightarrow> int
   \<Rightarrow> (DataDb \<times> 'x) ReducerService" where
  "buildReducerService collate locked q cause_of clock executor workers batchSize =
     \<lparr>rsv_PollInterval = seconds 1,
      rsv_Claim = with_tables (reducer_Claim collate locked q clock),
      rsv_Execute = executor,
      rsv_Ack = (\<lambda>ended intent res. on_queue ended ''ack reducer work'' (reducer_Ack q intent clock)),
      rsv_Fail = (\<lambda>ended intent es. on_queue ended ''fail reducer work'' (reducer_Fail q intent (Some (cause_of es)) clock)),
      rsv_Heartbeat = Some (\<lambda>ended intent. on_queue ended ''heartbeat reducer work'' (reducer_Heartbeat q intent clock)),
      rsv_HeartbeatInterval = rq_LeaseDuration q div 2,
      rsv_ClaimBatch = (\<lambda>n. with_tables (ClaimBatch collate locked q n clock)),
      rsv_AckBatch = (\<lambda>ended acks. on_queue ended ''batch ack reducer work'' (AckBatch q (map fst acks) clock)),
      rsv_Workers = workers, rsv_BatchClaimSize = batchSize\<rparr>"

lemma scan_intents_length: "scan_intents ws = Inr is \<Longrightarrow> length is = length ws"
  by (induction ws arbitrary: "is") (auto split: sum.splits)

lemma ClaimBatch_bounded:
  assumes "ClaimBatch collate locked q n now db = (Inr is, db')" and "0 < n"
  shows "length is \<le> nat n"
  using assms
  by (auto simp: ClaimBatch_def Let_def claimed_rows_def ReducerQueue.claim_candidates_def split: option.splits prod.splits dest!: scan_intents_length)

lemma queue_claims_bounded: "claims_bounded (buildReducerService collate locked q cause_of clock executor workers batchSize)"
  by (auto simp: claims_bounded_def buildReducerService_def with_tables_def split: prod.splits dest: ClaimBatch_bounded)

section \<open>What becomes of a claimed intent\<close>

definition intent_held :: "ReducerQueue \<Rightarrow> Intent \<Rightarrow> DataDb \<Rightarrow> bool" where
  "intent_held q intent db \<longleftrightarrow> list_ex (reducer_held (rq_LeaseOwner q) (in_IntentID intent)) (dd_Items db)"

lemma run_update_None: "run_update op f db = (None, db') \<Longrightarrow> db' = f db"
  by (auto simp: run_update_def dest: statement_None split: prod.splits option.splits)

lemma released_rows:
  "\<not> reducer_held owner i (settled_work StatusSucceeded now r)" "\<not> reducer_held owner i (reducer_failed q intent c now r)"
  by (auto simp: reducer_held_def leased_by_def settled_work_def reducer_failed_def Let_def retried_work_def failed_work_def split: prod.splits)

lemma reducer_Ack_releases: "reducer_Ack q intent now db = (None, db') \<Longrightarrow> \<not> intent_held q intent db'"
  unfolding intent_held_def reducer_Ack_def
  by (auto split: option.splits dest!: run_update_None simp: update_settles released_rows)

lemma reducer_Fail_releases: "reducer_Fail q intent (Some c) now db = (None, db') \<Longrightarrow> \<not> intent_held q intent db'"
  unfolding intent_held_def reducer_Fail_def failIntent_def
  by (auto split: option.splits dest!: run_update_None simp: update_settles released_rows)

lemma on_queue_okE:
  assumes "on_queue ended op f w = (None, w')"
  shows "f (fst w) = (None, fst w') \<and> snd w' = snd w"
  using assms by (auto simp: on_queue_def split: if_splits prod.splits)

text \<open>The ways in which the turn of an intent ends without an error.\<close>

lemma executeWithTelemetry_okE:
  assumes "executeWithTelemetry s ex intent w = ([], w')"
  obtains es v where "rsv_Fail s (ex_Shutdown ex) intent es v = (None, w')"
  | res v where "run_execution s ex intent w = (Inr res, None, v)" and "rsv_Ack s (ex_Shutdown ex) intent res v = (None, w')"
proof -
  obtain r h v where r: "run_execution s ex intent w = (r, h, v)" by (metis prod_cases3)
  show ?thesis
  proof (cases r)
    case (Inl err)
    with r assms have "rsv_Fail s (ex_Shutdown ex) intent (err # optional_error h) v = (None, w')"
      by (auto simp: executeWithTelemetry_def split: prod.splits option.splits)
    then show ?thesis by (rule that(1))
  next
    case (Inr res)
    with r assms have "h = None" and "rsv_Ack s (ex_Shutdown ex) intent res v = (None, w')"
      by (auto simp: executeWithTelemetry_def split: prod.splits option.splits)
    with r Inr show ?thesis using that(2) by blast
  qed
qed


section \<open>What goes wrong\<close>

text \<open>
  The projector tells a heartbeat that is cut off by the end of the work from one that is refused; the reducer
  does not: when the execution succeeds while a heartbeat is on its way, the turn returns the error of its
  cancelled context, the intent is not acknowledged, and the loop ends with the error.
\<close>

theorem cut_off_heartbeat_fails_turn:
  assumes "rsv_Heartbeat s = Some beat" and "0 < rsv_HeartbeatInterval s"
    and "rsv_Execute s False intent w = (Inr res, w1)" and "beat True intent w1 = (Some e, w2)"
    and "ex = \<lparr>ex_Events = [], ex_InFlight = True, ex_Shutdown = False\<rparr>"
  shows "executeWithTelemetry s ex intent w = ([Wrap ''heartbeat reducer work'' (Wrap ''heartbeat reducer work'' e)], w2)"
    and "executeWithTelemetry s (ex\<lparr>ex_InFlight := False\<rparr>) intent w =
      (case rsv_Ack s False intent res w1 of (None, w3) \<Rightarrow> ([], w3) | (Some f, w3) \<Rightarrow> ([Wrap ''ack reducer work'' f], w3))"
  using assms(1-4) unfolding assms(5)
  by (simp_all add: executeWithTelemetry_def run_execution_def reducer_beat_def split: prod.split option.split)

text \<open>
  In a batch pool an intent that failed goes on to the acknowledgement like one that succeeded. The statement
  is fenced by the owner only, and all reducers have the same: once the item is claimed again, by any of them, it
  settles it as succeeded while it is executed, and nothing executes it again.
\<close>

theorem failed_intent_acknowledged:
  assumes "executeAndReport s ex intent w = (Inr failed_result, w1)" and "worker_at p i = Worker_busy intent" and "bt_World p = w"
    and "bt_Channel p = []" and "bt_Pending p = []" and "bt_Acking p"
    and "rsv_AckBatch s (bt_Canceled p) [(intent, failed_result)] (f w1) = (None, w2)"
  shows "\<exists>q. fold (pool_step s) [Worker_runs i ex, Worker_reports i, World_moves f, Acker_collects, Acker_flushes] p = q
    \<and> bt_World q = w2 \<and> bt_Acked q = bt_Acked p @ [intent]"
proof -
  have i: "i < length (bt_Workers p)" "bt_Workers p ! i = Worker_busy intent"
    using worker_at_in [OF assms(2)] by simp_all
  let ?p1 = "(set_worker i (Worker_reporting intent failed_result) p)\<lparr>bt_World := w1\<rparr>"
  have 1: "pool_step s (Worker_runs i ex) p = ?p1" using assms(1-3) by simp
  have "worker_at ?p1 i = Worker_reporting intent failed_result" using i(1) by (simp add: worker_at_def)
  then have 2: "pool_step s (Worker_reports i) ?p1 = (set_worker i Worker_starting ?p1)\<lparr>bt_Channel := [(intent, failed_result)]\<rparr>"
    using assms(4) batchClaimSize_pos [of s] by simp
  let ?p3 = "(set_worker i Worker_starting ?p1)\<lparr>bt_Channel := [(intent, failed_result)], bt_World := f w1\<rparr>"
  have 3: "pool_step s (World_moves f) ((set_worker i Worker_starting ?p1)\<lparr>bt_Channel := [(intent, failed_result)]\<rparr>) = ?p3" by simp
  let ?p4 = "?p3\<lparr>bt_Channel := [], bt_World := w2, bt_Acked := bt_Acked p @ [intent]\<rparr>"
  have flush: "flush_acks s (?p3\<lparr>bt_Channel := [], bt_Pending := [(intent, failed_result)]\<rparr>) = ?p4"
    using assms(5,7) by (simp add: flush_acks_def Let_def)
  have "flush_acks s (pool_step s Acker_collects ?p3) = ?p4"
  proof (cases "batchClaimSize s \<le> 1")
    case True
    have "pool_step s Acker_collects ?p3 = ?p4"
      using True assms(5,6) flush by (simp add: collect_ack_def Let_def)
    then show ?thesis using assms(5) by (simp add: flush_acks_def)
  next
    case False
    have "pool_step s Acker_collects ?p3 = ?p3\<lparr>bt_Channel := [], bt_Pending := [(intent, failed_result)]\<rparr>"
      using False assms(5,6) by (simp add: collect_ack_def Let_def)
    then show ?thesis by (simp only: flush)
  qed
  moreover have "bt_Acking (pool_step s Acker_collects ?p3)"
    using assms(6) by (auto simp: collect_ack_def flush_acks_def append_errors_def Let_def split: list.split prod.split option.split)
  ultimately have "fold (pool_step s) [Worker_runs i ex, Worker_reports i, World_moves f, Acker_collects, Acker_flushes] p = ?p4"
    by (simp only: fold.simps o_apply id_apply 1 2 3) simp
  then show ?thesis by simp
qed

lemma running_again_settled:
  assumes "AckBatch q [intent] now db = (None, db')" and "w \<in> set (dd_Items db)" and "reducer_held (rq_LeaseOwner q) (in_IntentID intent) w"
  shows "settled_work StatusSucceeded now w \<in> set (dd_Items db')"
  using assms by (auto simp: AckBatch_def reducer_held_def split: option.splits dest!: run_update_None)

section \<open>Examples\<close>

definition intent_named :: "string \<Rightarrow> Intent" where
  "intent_named i = \<lparr>in_IntentID = i, in_ScopeID = ''scope-1'', in_GenerationID = ''gen-1'', in_SourceSystem = ''git'',
     in_Domain = DomainSemanticEntityMaterialization, in_Cause = ''changed'', in_Priority = 0, in_AttemptCount = 1,
     in_EntityKeys = [], in_RelatedScopeIDs = [], in_Status = IntentStatusPending, in_EnqueuedAt = 1, in_AvailableAt = 1,
     in_ClaimedAt = None, in_CompletedAt = None, in_Failure = None\<rparr>"

definition succeeded_result :: Result where
  "succeeded_result = failed_result\<lparr>res_Status := ResultStatusSucceeded\<rparr>"

definition held_row :: WorkRow where
  "held_row = claimed_work 10 ''reducer-a'' (10 + seconds 60) (semantic_row 1)"

definition settled_turn :: "error list \<times> DataDb \<times> nat" where
  "settled_turn = executeWithTelemetry
     (buildReducerService compare [] example_reducers (\<lambda>es. \<lparr>cause_Message = [], cause_Retryable = True, cause_Class = None, cause_Details = None\<rparr>) 20
       (\<lambda>ended intent (db, n). (Inr succeeded_result, db, n + 1)) 4 0)
     \<lparr>ex_Events = [Beat_due], ex_InFlight = False, ex_Shutdown = False\<rparr>
     (intent_named (wr_WorkItemID held_row)) (reducer_tables [held_row], 0)"


definition list_service :: "Intent list ReducerService" where
  "list_service = \<lparr>rsv_PollInterval = 1, rsv_Claim = (\<lambda>w. (Inr None, w)), rsv_Execute = (\<lambda>ended i w. (Inr succeeded_result, w)),
     rsv_Ack = (\<lambda>ended i r w. (None, w)), rsv_Fail = (\<lambda>ended i es w. (None, w)), rsv_Heartbeat = None, rsv_HeartbeatInterval = 0,
     rsv_ClaimBatch = (\<lambda>n w. (Inr (take (nat n) w), drop (nat n) w)), rsv_AckBatch = (\<lambda>ended acks w. (None, w)),
     rsv_Workers = 2, rsv_BatchClaimSize = 0\<rparr>"

definition example_pool :: "Intent list batch_pool" where
  "example_pool = runBatchConcurrent list_service
     [Worker_ready 0, Worker_ready 1, Claimer_claims Waited, Claimer_hands 1,
      Worker_runs 1 \<lparr>ex_Events = [], ex_InFlight = False, ex_Shutdown = False\<rparr>, Worker_reports 1, Acker_collects, Acker_flushes]
     (map intent_named [''a'', ''b'', ''c''])"

lemma batch_pool_accounts_witness:
  "bt_Taken example_pool = map intent_named [''a'', ''b''] \<and> bt_Held example_pool = [intent_named ''b'']
    \<and> bt_Acked example_pool = [intent_named ''a''] \<and> bt_Claiming example_pool
    \<and> length (bt_Held example_pool) \<le> length (filter (\<lambda>x. x = Worker_waiting) (bt_Workers example_pool))"
proof -
  have "claims_bounded list_service" by (auto simp: claims_bounded_def list_service_def)
  moreover have "\<not> bt_Canceled example_pool" "bt_Claiming example_pool" "bt_Taken example_pool = map intent_named [''a'', ''b'']"
    "bt_Held example_pool = [intent_named ''b'']" "bt_Acked example_pool = [intent_named ''a'']" by code_simp+
  ultimately show ?thesis using batch_pool_accounts [OF _ example_pool_def] by blast
qed

end
