(* ===== verification/CodeCallRunner.thy ===== *)
theory CodeCallRunner
  imports SharedRunner
begin

text \<open>
  \<open>go/internal/reducer/code_call_projection_*.go\<close>: the lane that projects the code calls of one acceptance unit at a
  time, under one lease. Reading, writing and leases act on a world of type \<open>'w\<close>. A cycle goes through numbered
  stages; what other processes and the heartbeats do before a stage, and whether the context has ended by then, is
  part of its environment. A stage whose context has ended fails. A prefetch gets its keys in the order of the rows.
\<close>

section \<open>Widening scans\<close>

text \<open>
  A scan is repeated with twice the limit until it finds what it looks for or has reached the cap. \<open>None\<close>: the
  fuel is used up.
\<close>

definition wider :: "int \<Rightarrow> int \<Rightarrow> int" where
  "wider cap limit = (let n = wrap64 (limit * 2) in if cap < n then cap else n)"

fun scan_loop :: "nat \<Rightarrow> int \<Rightarrow> error \<Rightarrow> (int \<Rightarrow> 'a option result) \<Rightarrow> int \<Rightarrow> 'a result option" where
  "scan_loop 0 cap cap_error scan limit = None"
| "scan_loop (Suc fuel) cap cap_error scan limit =
     (case scan limit of
        Inl e \<Rightarrow> Some (Inl e)
      | Inr (Some x) \<Rightarrow> Some (Inr x)
      | Inr None \<Rightarrow> if cap \<le> limit then Some (Inl cap_error) else scan_loop fuel cap cap_error scan (wider cap limit))"

lemma scan_loop_returns:
  assumes "0 < limit" and "cap \<le> 2 ^ 62" and "cap \<le> limit * 2 ^ fuel"
  shows "scan_loop (Suc fuel) cap cap_error scan limit \<noteq> None"
  using assms
proof (induction fuel arbitrary: limit)
  case (Suc fuel)
  show ?case
  proof (cases "cap \<le> limit")
    case True
    then show ?thesis by (auto split: sum.split option.split)
  next
    case False
    then have "limit * 2 < 2 ^ 63" using Suc.prems(2) by simp
    then have "wrap64 (limit * 2) = limit * 2" using Suc.prems(1) by (intro wrap64_id) auto
    then have w: "wider cap limit = min cap (limit * 2)" by (auto simp: wider_def Let_def)
    have "scan_loop (Suc fuel) cap cap_error scan (wider cap limit) \<noteq> None"
    proof (rule Suc.IH)
      show "0 < wider cap limit" using w False Suc.prems(1) by simp
      show "cap \<le> wider cap limit * 2 ^ fuel"
      proof (cases "cap \<le> limit * 2")
        case True
        have "cap * 1 \<le> cap * 2 ^ fuel" using False Suc.prems(1) by (intro mult_left_mono) auto
        with True w show ?thesis by simp
      next
        case False
        with w Suc.prems(3) show ?thesis by (simp add: mult.assoc)
      qed
    qed (rule Suc.prems(2))
    with False show ?thesis by (auto split: sum.split option.split)
  qed
qed (auto split: sum.split option.split)

text \<open>What a scan found, it found at some limit.\<close>

lemma scan_loop_found:
  "scan_loop fuel cap cap_error scan limit = Some (Inr x) \<Longrightarrow> \<exists>n. scan n = Inr (Some x)"
proof (induction fuel arbitrary: limit)
  case (Suc fuel)
  then show ?case by (auto split: sum.splits option.splits if_splits)
qed simp

section \<open>Configuration\<close>

definition defaultCodeCallLeaseOwner :: string where "defaultCodeCallLeaseOwner = ''code-call-projection-runner''"
definition maxCodeCallPollInterval :: duration where "maxCodeCallPollInterval = seconds 5"
definition DefaultCodeCallAcceptanceScanLimit :: int where "DefaultCodeCallAcceptanceScanLimit = 250000"
definition codeCallEvidenceSource :: string where "codeCallEvidenceSource = ''parser/code-calls''"
definition pythonMetaclassEvidenceSource :: string where "pythonMetaclassEvidenceSource = ''parser/python-metaclass''"

record CodeCallConfig =
  ccc_LeaseOwner :: string
  ccc_PollInterval :: duration
  ccc_LeaseTTL :: duration
  ccc_BatchLimit :: int
  ccc_AcceptanceScanLimit :: int

definition code_call_pollInterval :: "CodeCallConfig \<Rightarrow> duration" where
  "code_call_pollInterval c = (if ccc_PollInterval c \<le> 0 then defaultSharedPollInterval else ccc_PollInterval c)"

definition code_call_leaseTTL :: "CodeCallConfig \<Rightarrow> duration" where
  "code_call_leaseTTL c = (if ccc_LeaseTTL c \<le> 0 then defaultLeaseTTL else ccc_LeaseTTL c)"

definition code_call_batchLimit :: "CodeCallConfig \<Rightarrow> int" where
  "code_call_batchLimit c = (if ccc_BatchLimit c \<le> 0 then defaultBatchLimit else ccc_BatchLimit c)"

definition acceptanceScanLimit :: "CodeCallConfig \<Rightarrow> int" where
  "acceptanceScanLimit c =
     (if ccc_AcceptanceScanLimit c \<le> 0 then DefaultCodeCallAcceptanceScanLimit
      else if ccc_AcceptanceScanLimit c < code_call_batchLimit c then code_call_batchLimit c
      else ccc_AcceptanceScanLimit c)"

definition code_call_leaseOwner :: "CodeCallConfig \<Rightarrow> string" where
  "code_call_leaseOwner c = (if ccc_LeaseOwner c = [] then defaultCodeCallLeaseOwner else ccc_LeaseOwner c)"

definition leaseHeartbeatInterval :: "CodeCallConfig \<Rightarrow> duration" where
  "leaseHeartbeatInterval c = (let i = code_call_leaseTTL c div 2 in if i \<le> 0 then seconds 1 else i)"

definition codeCallPollBackoff :: "duration \<Rightarrow> nat \<Rightarrow> duration" where
  "codeCallPollBackoff base empties =
     (let b = ((\<lambda>d. wrap64 (d * 2)) ^^ (min empties 4 - 1)) base
      in if maxCodeCallPollInterval < b then maxCodeCallPollInterval else b)"

definition first_limit :: "CodeCallConfig \<Rightarrow> int" where
  "first_limit c = min (code_call_batchLimit c) (acceptanceScanLimit c)"

section \<open>Rows\<close>

definition codeCallRowPayloadString :: "IntentRow \<Rightarrow> string \<Rightarrow> string" where
  "codeCallRowPayloadString row key =
     (case payload_value (si_Payload row) key of StrValue s \<Rightarrow> trim_space s | _ \<Rightarrow> [])"

definition isCodeCallEdgeRow :: "IntentRow \<Rightarrow> bool" where
  "isCodeCallEdgeRow row \<longleftrightarrow>
     si_Payload row \<noteq> None \<and> codeCallRowPayloadString row ''action'' \<noteq> ''delete'' \<and>
     (if codeCallRowPayloadString row ''relationship_type'' = ''USES_METACLASS''
      then codeCallRowPayloadString row ''source_entity_id'' \<noteq> [] \<and> codeCallRowPayloadString row ''target_entity_id'' \<noteq> []
      else codeCallRowPayloadString row ''caller_entity_id'' \<noteq> [] \<and> codeCallRowPayloadString row ''callee_entity_id'' \<noteq> [])"

definition codeCallRowEvidenceSource :: "IntentRow \<Rightarrow> string" where
  "codeCallRowEvidenceSource row =
     (let source = trim_space (codeCallRowPayloadString row ''evidence_source'')
      in if source \<noteq> [] then source
         else if codeCallRowPayloadString row ''relationship_type'' = ''USES_METACLASS'' then pythonMetaclassEvidenceSource
         else codeCallEvidenceSource)"

definition codeCallEvidenceSources :: "string list" where
  "codeCallEvidenceSources = [codeCallEvidenceSource, pythonMetaclassEvidenceSource]"

definition uniqueRepositoryIDs :: "IntentRow list \<Rightarrow> string list" where
  "uniqueRepositoryIDs rows =
     sort_by compare (first_of_each (\<lambda>x. x) [] (filter (\<lambda>x. x \<noteq> []) (map (\<lambda>r. trim_space (si_RepositoryID r)) rows)))"

definition retract_row :: "string \<Rightarrow> IntentRow" where
  "retract_row repositoryID =
     \<lparr>si_IntentID = [], si_ProjectionDomain = [], si_PartitionKey = [], si_ScopeID = [], si_AcceptanceUnitID = [],
      si_RepositoryID = repositoryID, si_SourceRunID = [], si_GenerationID = [],
      si_Payload = Some [(''repo_id'', StrValue repositoryID)], si_CreatedAt = 0, si_CompletedAt = None\<rparr>"

definition buildCodeCallRetractRows :: "string list \<Rightarrow> IntentRow list" where
  "buildCodeCallRetractRows ids = map retract_row (filter (\<lambda>x. x \<noteq> []) (map trim_space ids))"

text \<open>The groups by evidence source, sorted by it, with the rows in their order.\<close>

definition rows_by_source :: "(IntentRow \<Rightarrow> bool) \<Rightarrow> (IntentRow \<Rightarrow> string) \<Rightarrow> IntentRow list \<Rightarrow> (string \<times> IntentRow list) list" where
  "rows_by_source wanted source_of rows =
     (let edges = filter wanted rows
      in map (\<lambda>source. (source, filter (\<lambda>r. source_of r = source) edges))
           (sort_by compare (first_of_each (\<lambda>x. x) [] (map source_of edges))))"

definition groupCodeCallUpsertRows :: "IntentRow list \<Rightarrow> (string \<times> IntentRow list) list" where
  "groupCodeCallUpsertRows rows = rows_by_source isCodeCallEdgeRow codeCallRowEvidenceSource rows"

definition acceptedGenerationID :: "IntentRow list \<Rightarrow> string" where
  "acceptedGenerationID rows =
     (case filter (\<lambda>g. g \<noteq> []) (map (\<lambda>r. trim_space (si_GenerationID r)) rows) of [] \<Rightarrow> [] | g # _ \<Rightarrow> g)"

section \<open>Selection\<close>

record CodeCallSelection =
  csel_Key :: "AcceptanceKey option"
  csel_Blocked :: nat
  csel_MaxBlockedWait :: duration

text \<open>The acceptance keys of the rows, each with its first row; the identifier of the first row without one.\<close>

definition keyless_row :: "IntentRow list \<Rightarrow> IntentRow option" where
  "keyless_row rows = find (\<lambda>r. acceptance_of r = None) rows"

definition pending_units :: "IntentRow list \<Rightarrow> (AcceptanceKey \<times> IntentRow) list" where
  "pending_units rows =
     first_of_each fst [] (List.map_filter (\<lambda>r. map_option (\<lambda>k. (k, r)) (acceptance_of r)) rows)"

definition unit_readiness_keys :: "GenerationLookup \<Rightarrow> (AcceptanceKey \<times> IntentRow) list \<Rightarrow> PhaseKey list" where
  "unit_readiness_keys lookup units =
     List.map_filter (\<lambda>(k, r). Option.bind (lookup k) (\<lambda>g. phaseKeyForAcceptance k g KeyspaceCodeEntitiesUID)) units"

fun pick_unit ::
  "GraphProjectionPhase option \<Rightarrow> GenerationLookup \<Rightarrow> ReadyLookup \<Rightarrow> time \<Rightarrow> (AcceptanceKey \<times> IntentRow) list
   \<Rightarrow> nat \<Rightarrow> duration \<Rightarrow> CodeCallSelection" where
  "pick_unit gate lookup ready now [] blocked wait =
     \<lparr>csel_Key = None, csel_Blocked = blocked, csel_MaxBlockedWait = wait\<rparr>"
| "pick_unit gate lookup ready now ((k, r) # us) blocked wait =
     (case lookup k of
        None \<Rightarrow> pick_unit gate lookup ready now us blocked wait
      | Some g \<Rightarrow>
          (case gate of
             None \<Rightarrow> \<lparr>csel_Key = Some k, csel_Blocked = blocked, csel_MaxBlockedWait = wait\<rparr>
           | Some phase \<Rightarrow>
               (case phaseKeyForAcceptance k g KeyspaceCodeEntitiesUID of
                  None \<Rightarrow> pick_unit gate lookup ready now us blocked wait
                | Some pk \<Rightarrow>
                    if ready pk phase = (True, True)
                    then \<lparr>csel_Key = Some k, csel_Blocked = blocked, csel_MaxBlockedWait = wait\<rparr>
                    else pick_unit gate lookup ready now us (Suc blocked) (max wait (maxSharedIntentWait now [r])))))"

definition select_unit_at ::
  "(string \<Rightarrow> string \<Rightarrow> int) \<Rightarrow> time \<Rightarrow> 'g Stores \<Rightarrow> int \<Rightarrow> CodeCallSelection option result" where
  "select_unit_at collate now w limit =
     (let pending = ListPendingDomainIntents collate DomainCodeCalls limit (st_Shared w) in
      if pending = [] then Inr (Some \<lparr>csel_Key = None, csel_Blocked = 0, csel_MaxBlockedWait = 0\<rparr>)
      else
        (case NewAcceptedGenerationPrefetch (st_Shared w) pending of
           Inl e \<Rightarrow> Inl (Wrap ''prefetch accepted generations'' e)
         | Inr lookup \<Rightarrow>
             (case keyless_row pending of
                Some r \<Rightarrow> Inl (Fmt ''pending code call intent is missing scope, acceptance unit, or source run'' [si_IntentID r])
              | None \<Rightarrow>
                  (let gate = sharedProjectionReadinessPhase DomainCodeCalls;
                       units = pending_units pending;
                       ready = (case gate of
                           None \<Rightarrow> ReadinessLookup (st_Phases w)
                         | Some phase \<Rightarrow> ReadinessPrefetch (st_Phases w) (unit_readiness_keys lookup units) phase);
                       sel = pick_unit gate lookup ready now units 0 0
                   in Inr (if csel_Key sel \<noteq> None \<or> int (length pending) < limit then Some sel else None)))))"

text \<open>Doublings of a positive limit that reach any cap up to \<open>2 ^ 62\<close>.\<close>

definition code_call_fuel :: nat where "code_call_fuel = 63"

definition selectAcceptanceUnitWork ::
  "(string \<Rightarrow> string \<Rightarrow> int) \<Rightarrow> CodeCallConfig \<Rightarrow> time \<Rightarrow> 'g Stores \<Rightarrow> CodeCallSelection result option" where
  "selectAcceptanceUnitWork collate c now w =
     scan_loop code_call_fuel (acceptanceScanLimit c)
       (Msg ''code call acceptance scan reached cap before locating accepted work'')
       (select_unit_at collate now w) (first_limit c)"

section \<open>The unit\<close>

definition unit_rows_at ::
  "(string \<Rightarrow> string \<Rightarrow> int) \<Rightarrow> AcceptanceKey \<Rightarrow> 'g Stores \<Rightarrow> int \<Rightarrow> IntentRow list option result" where
  "unit_rows_at collate key w limit =
     (let rows = ListPendingAcceptanceUnitIntents collate key DomainCodeCalls limit (st_Shared w)
      in Inr (if int (length rows) < limit then Some rows else None))"

definition loadAllAcceptanceUnitIntents ::
  "(string \<Rightarrow> string \<Rightarrow> int) \<Rightarrow> CodeCallConfig \<Rightarrow> AcceptanceKey \<Rightarrow> 'g Stores \<Rightarrow> IntentRow list result option" where
  "loadAllAcceptanceUnitIntents collate c key w =
     scan_loop code_call_fuel (acceptanceScanLimit c)
       (Fmt ''code call acceptance intent scan reached cap'' [ak_ScopeID key, ak_AcceptanceUnitID key, ak_SourceRunID key])
       (unit_rows_at collate key w) (first_limit c)"

definition HasCompletedAcceptanceUnitDomainIntents :: "AcceptanceKey \<Rightarrow> string \<Rightarrow> SharedDb \<Rightarrow> bool" where
  "HasCompletedAcceptanceUnitDomainIntents key domain db \<longleftrightarrow>
     list_ex (\<lambda>r. si_ScopeID r = ak_ScopeID key \<and> si_AcceptanceUnitID r = ak_AcceptanceUnitID key
       \<and> si_ProjectionDomain r = domain \<and> si_CompletedAt r \<noteq> None) (sd_Intents db)"

definition shouldSkipCodeCallRetract :: "AcceptanceKey \<Rightarrow> string list \<Rightarrow> 'g Stores \<Rightarrow> bool" where
  "shouldSkipCodeCallRetract key staleIDs w \<longleftrightarrow>
     staleIDs = [] \<and> \<not> HasCompletedAcceptanceUnitDomainIntents key DomainCodeCalls (st_Shared w)"

fun retract_sources :: "string \<Rightarrow> string \<Rightarrow> 'g EdgeWriter \<Rightarrow> IntentRow list \<Rightarrow> string list \<Rightarrow> 'g \<Rightarrow> error option \<times> 'g" where
  "retract_sources domain what ew rows [] g = (None, g)"
| "retract_sources domain what ew rows (source # sources) g =
     (case ew_Retract ew domain rows source g of
        (Some e, g') \<Rightarrow> (Some (Wrap (what @ source) e), g')
      | (None, g') \<Rightarrow> retract_sources domain what ew rows sources g')"

definition retractRepo :: "'g EdgeWriter \<Rightarrow> IntentRow list \<Rightarrow> 'g \<Rightarrow> error option \<times> 'g" where
  "retractRepo ew rows =
     retract_sources DomainCodeCalls ''retract code call edges for '' ew
       (buildCodeCallRetractRows (uniqueRepositoryIDs rows)) codeCallEvidenceSources"

fun write_groups :: "string \<Rightarrow> string \<Rightarrow> 'g EdgeWriter \<Rightarrow> (string \<times> IntentRow list) list \<Rightarrow> 'g \<Rightarrow> error option \<times> 'g" where
  "write_groups domain what ew [] g = (None, g)"
| "write_groups domain what ew ((source, rows) # groups) g =
     (case ew_Write ew domain rows source g of
        (Some e, g') \<Rightarrow> (Some (Wrap (what @ source) e), g')
      | (None, g') \<Rightarrow> write_groups domain what ew groups g')"

definition writeActiveRows :: "'g EdgeWriter \<Rightarrow> IntentRow list \<Rightarrow> 'g \<Rightarrow> error option \<times> 'g" where
  "writeActiveRows ew rows = write_groups DomainCodeCalls ''write code call edges for '' ew (groupCodeCallUpsertRows rows)"

definition written_rows :: "IntentRow list \<Rightarrow> nat" where
  "written_rows rows = sum_list (map (length \<circ> snd) (groupCodeCallUpsertRows rows))"

section \<open>One cycle\<close>

text \<open>
  What happens before a stage: the lease is claimed again by its heartbeat at some time, the context of the loop ends,
  other processes act. A heartbeat whose context has ended fails without reaching the store.
\<close>

datatype 'w lane_event =
    Lane_beat time
  | Lane_ends
  | Lane_others "'w \<Rightarrow> 'w"

record 'w lane_cycle =
  lc_World :: 'w
  lc_Ended :: bool
  lc_BeatError :: "error option"

definition claim_lane :: "CodeCallConfig \<Rightarrow> time \<Rightarrow> 'g Stores \<Rightarrow> bool result \<times> 'g Stores" where
  "claim_lane c clock =
     lm_Claim (store_leases clock) DomainCodeCalls 0 1 (code_call_leaseOwner c) (code_call_leaseTTL c)"

fun lane_step :: "CodeCallConfig \<Rightarrow> 'g Stores lane_event \<Rightarrow> 'g Stores lane_cycle \<Rightarrow> 'g Stores lane_cycle" where
  "lane_step c (Lane_beat clock) l =
     (if lc_Ended l then l\<lparr>lc_BeatError := Some (Wrap ''heartbeat code call lease'' (Msg ''context canceled''))\<rparr>
      else
        (case claim_lane c clock (lc_World l) of
           (Inl e, w) \<Rightarrow> l\<lparr>lc_World := w, lc_Ended := True, lc_BeatError := Some (Wrap ''heartbeat code call lease'' e)\<rparr>
         | (Inr False, w) \<Rightarrow>
             l\<lparr>lc_World := w, lc_Ended := True, lc_BeatError := Some (Msg ''code call partition lease heartbeat rejected'')\<rparr>
         | (Inr True, w) \<Rightarrow> l\<lparr>lc_World := w\<rparr>))"
| "lane_step c Lane_ends l = l\<lparr>lc_Ended := True\<rparr>"
| "lane_step c (Lane_others f) l = l\<lparr>lc_World := f (lc_World l)\<rparr>"

text \<open>A stage: what happens before it, then its operation unless the context has ended.\<close>

definition stage ::
  "CodeCallConfig \<Rightarrow> 'g Stores lane_event list \<Rightarrow> string \<Rightarrow> ('g Stores \<Rightarrow> 'a result \<times> 'g Stores)
   \<Rightarrow> 'g Stores lane_cycle \<Rightarrow> 'a result \<times> 'g Stores lane_cycle" where
  "stage c events what op l =
     (let l1 = fold (lane_step c) events l in
      if lc_Ended l1 then (Inl (Wrap what (Msg ''context canceled'')), l1)
      else (case op (lc_World l1) of (r, w) \<Rightarrow> (r, l1\<lparr>lc_World := w\<rparr>)))"

definition reads :: "('w \<Rightarrow> 'a result) \<Rightarrow> 'w \<Rightarrow> 'a result \<times> 'w" where
  "reads f w = (f w, w)"

definition acts :: "('w \<Rightarrow> error option \<times> 'w) \<Rightarrow> 'w \<Rightarrow> unit result \<times> 'w" where
  "acts f w = (case f w of (None, w') \<Rightarrow> (Inr (), w') | (Some e, w') \<Rightarrow> (Inl e, w'))"

definition fueled :: "'a result option \<Rightarrow> 'a option result" where
  "fueled r = (case r of None \<Rightarrow> Inr None | Some (Inl e) \<Rightarrow> Inl e | Some (Inr x) \<Rightarrow> Inr (Some x))"

type_synonym 'w lane_env = "nat \<Rightarrow> 'w lane_event list"

text \<open>The retraction and the writes for the rows of the accepted generation; without rows there is nothing to do.\<close>

definition project_unit ::
  "CodeCallConfig \<Rightarrow> 'g EdgeWriter \<Rightarrow> 'g Stores lane_env \<Rightarrow> AcceptanceKey \<Rightarrow> IntentRow list \<Rightarrow> string list
   \<Rightarrow> PartitionProcessResult \<Rightarrow> 'g Stores lane_cycle \<Rightarrow> (PartitionProcessResult \<times> error option) \<times> 'g Stores lane_cycle" where
  "project_unit c ew env key active staleIDs res l =
     (if active = [] then ((res, None), l)
      else
        (case (if staleIDs \<noteq> [] then (Inr False, l)
               else stage c (env 3) ''check completed code call projection history''
                      (reads (\<lambda>w. Inr (shouldSkipCodeCallRetract key staleIDs w))) l) of
           (Inl e, l1) \<Rightarrow> ((res, Some e), l1)
         | (Inr skip, l1) \<Rightarrow>
             (case (if skip then (Inr (), l1)
                    else stage c (env 4) ''retract code call edges'' (acts (on_graph (retractRepo ew active))) l1) of
                (Inl e, l2) \<Rightarrow> ((res, Some e), l2)
              | (Inr _, l2) \<Rightarrow>
                  (let res1 = (if skip then res else res\<lparr>ppr_RetractedRows := length active\<rparr>) in
                   case (if groupCodeCallUpsertRows active = [] then (Inr (), l2)
                         else stage c (env 5) ''write code call edges'' (acts (on_graph (writeActiveRows ew active))) l2) of
                     (Inl e, l3) \<Rightarrow> ((res1, Some e), l3)
                   | (Inr _, l3) \<Rightarrow> ((res1\<lparr>ppr_UpsertedRows := written_rows active\<rparr>, None), l3)))))"

definition mark_code_calls :: "string list \<Rightarrow> time \<Rightarrow> 'g Stores \<Rightarrow> error option \<times> 'g Stores" where
  "mark_code_calls ids now w =
     (case store_mark ids now w of (e, w') \<Rightarrow> (map_option (Wrap ''mark code call intents completed'') e, w'))"

definition process_unit_rows ::
  "CodeCallConfig \<Rightarrow> 'g EdgeWriter \<Rightarrow> 'g Stores lane_env \<Rightarrow> time \<Rightarrow> AcceptanceKey \<Rightarrow> IntentRow list
   \<Rightarrow> PartitionProcessResult \<Rightarrow> 'g Stores lane_cycle \<Rightarrow> (PartitionProcessResult \<times> error option) \<times> 'g Stores lane_cycle" where
  "process_unit_rows c ew env now key rows res l =
     (case stage c (env 2) ''prefetch accepted generations'' (reads (\<lambda>w. NewAcceptedGenerationPrefetch (st_Shared w) rows)) l of
        (Inl e, l1) \<Rightarrow> ((no_work True, Some e), l1)
      | (Inr lookup, l1) \<Rightarrow>
          (case FilterAuthoritativeIntents rows lookup of (active, staleIDs) \<Rightarrow>
             if active = [] \<and> staleIDs = [] then ((res, None), l1)
             else
               (case project_unit c ew env key active staleIDs res l1 of
                  ((res1, Some e), l2) \<Rightarrow> ((res1, Some e), l2)
                | ((res1, None), l2) \<Rightarrow>
                    (let ids = staleIDs @ map si_IntentID active in
                     case stage c (env 6) ''mark code call intents completed'' (acts (mark_code_calls ids now)) l2 of
                       (Inl e, l3) \<Rightarrow> ((res1, Some e), l3)
                     | (Inr _, l3) \<Rightarrow>
                         ((res1\<lparr>ppr_ProcessedIntents := length ids, ppr_MaxIntentWait := maxSharedIntentWait now rows\<rparr>, None), l3)))))"

definition process_selection ::
  "(string \<Rightarrow> string \<Rightarrow> int) \<Rightarrow> CodeCallConfig \<Rightarrow> 'g EdgeWriter \<Rightarrow> 'g Stores lane_env \<Rightarrow> time \<Rightarrow> 'g Stores lane_cycle
   \<Rightarrow> ((PartitionProcessResult \<times> error option) \<times> 'g Stores lane_cycle) option" where
  "process_selection collate c ew env now l =
     (case stage c (env 0) ''list pending code call intents''
             (reads (\<lambda>w. fueled (selectAcceptanceUnitWork collate c now w))) l of
        (Inl e, l1) \<Rightarrow> Some ((no_work True, Some e), l1)
      | (Inr None, l1) \<Rightarrow> None
      | (Inr (Some sel), l1) \<Rightarrow>
          (let res = (no_work True)\<lparr>ppr_BlockedReadiness := csel_Blocked sel, ppr_MaxBlockedIntentWait := csel_MaxBlockedWait sel\<rparr> in
           case csel_Key sel of
             None \<Rightarrow> Some ((res, None), l1)
           | Some key \<Rightarrow>
               (case stage c (env 1) ''list pending code call acceptance intents''
                       (reads (\<lambda>w. fueled (loadAllAcceptanceUnitIntents collate c key w))) l1 of
                  (Inl e, l2) \<Rightarrow> Some ((no_work True, Some e), l2)
                | (Inr None, l2) \<Rightarrow> None
                | (Inr (Some rows), l2) \<Rightarrow> Some (process_unit_rows c ew env now key rows res l2))))"

text \<open>
  The deferred release runs in the context of the heartbeats, which has just been ended to stop them: \<open>ctx\<close> was set to it.
\<close>

definition release_lane :: "CodeCallConfig \<Rightarrow> time \<Rightarrow> bool \<Rightarrow> 'g Stores \<Rightarrow> error option \<times> 'g Stores" where
  "release_lane c clock ended w =
     (if ended then (Some (Wrap ''release partition lease'' (Msg ''context canceled'')), w)
      else lm_Release (store_leases clock) DomainCodeCalls 0 1 (code_call_leaseOwner c) w)"

definition processOnce ::
  "(string \<Rightarrow> string \<Rightarrow> int) \<Rightarrow> CodeCallConfig \<Rightarrow> 'g EdgeWriter \<Rightarrow> 'g Stores lane_env \<Rightarrow> time \<Rightarrow> time \<Rightarrow> 'g Stores
   \<Rightarrow> ((PartitionProcessResult \<times> error list) \<times> 'g Stores) option" where
  "processOnce collate c ew env clock now w =
     (case claim_lane c clock w of
        (Inl e, w1) \<Rightarrow> Some ((no_work False, [Wrap ''claim code call lease'' e]), w1)
      | (Inr False, w1) \<Rightarrow> Some ((no_work False, []), w1)
      | (Inr True, w1) \<Rightarrow>
          (case process_selection collate c ew env now \<lparr>lc_World = w1, lc_Ended = False, lc_BeatError = None\<rparr> of
             None \<Rightarrow> None
           | Some ((res, e), l) \<Rightarrow>
               (let l1 = (fold (lane_step c) (env 7) l)\<lparr>lc_Ended := True\<rparr>;
                    l2 = fold (lane_step c) (env 8) l1;
                    errs = (case e of None \<Rightarrow> [] | Some x \<Rightarrow> [x])
                      @ (case lc_BeatError l2 of None \<Rightarrow> [] | Some x \<Rightarrow> [Wrap ''heartbeat code call lease'' x])
                in Some ((res, errs), snd (release_lane c now (lc_Ended l2) (lc_World l2))))))"

section \<open>The loop\<close>

text \<open>What the loop does after a cycle: how long it waits and its count of consecutive empty or failed cycles.\<close>

definition code_call_after_cycle ::
  "CodeCallConfig \<Rightarrow> PartitionProcessResult \<Rightarrow> error list \<Rightarrow> nat \<Rightarrow> duration option \<times> nat" where
  "code_call_after_cycle c res errs empties =
     (if errs = [] \<and> 0 < ppr_ProcessedIntents res then (None, 0)
      else if errs = [] \<and> 0 < ppr_BlockedReadiness res then (Some (code_call_pollInterval c), 0)
      else (Some (codeCallPollBackoff (code_call_pollInterval c) (Suc empties)), Suc empties))"

section \<open>Cycles return\<close>

lemma scan_limits:
  "0 < first_limit c" "acceptanceScanLimit c \<le> 2 ^ 62 \<Longrightarrow> acceptanceScanLimit c \<le> first_limit c * 2 ^ 62"
proof -
  have b: "0 < code_call_batchLimit c" by (simp add: code_call_batchLimit_def defaultBatchLimit_def)
  then have a: "0 < acceptanceScanLimit c"
    by (auto simp: acceptanceScanLimit_def DefaultCodeCallAcceptanceScanLimit_def)
  with b show pos: "0 < first_limit c" by (simp add: first_limit_def)
  assume "acceptanceScanLimit c \<le> 2 ^ 62"
  also have "1 * 2 ^ 62 \<le> first_limit c * 2 ^ 62" using pos by (intro mult_right_mono) auto
  finally show "acceptanceScanLimit c \<le> first_limit c * 2 ^ 62" by simp
qed

lemma fueled_None [simp]: "fueled r = Inr None \<longleftrightarrow> r = None"
  by (auto simp: fueled_def split: option.splits sum.splits)

text \<open>The fuel is enough for every cap up to \<open>2 ^ 62\<close>, whatever happens during the cycle.\<close>

theorem code_call_cycle_returns:
  assumes "acceptanceScanLimit c \<le> 2 ^ 62"
  shows "processOnce collate c ew env clock now w \<noteq> None"
proof -
  have fuel: "code_call_fuel = Suc 62" by (simp add: code_call_fuel_def)
  have s: "selectAcceptanceUnitWork collate c now v \<noteq> None" and l: "loadAllAcceptanceUnitIntents collate c key v \<noteq> None" for key v
    unfolding selectAcceptanceUnitWork_def loadAllAcceptanceUnitIntents_def fuel
    by (rule scan_loop_returns [OF scan_limits(1) assms scan_limits(2) [OF assms]])+
  have st: "fst (stage c events what (reads h) v) \<noteq> Inr None" if "\<And>u. h u \<noteq> Inr None"
    for events what v and h :: "'g Stores \<Rightarrow> 'y option result"
    using that by (auto simp: stage_def reads_def Let_def)
  have sel: "stage c (env 0) x (reads (\<lambda>w. fueled (selectAcceptanceUnitWork collate c now w))) v \<noteq> (Inr None, u)" for x v u
    using st [of "\<lambda>w. fueled (selectAcceptanceUnitWork collate c now w)" "env 0" x v] s by (metis fst_conv fueled_None)
  have load: "stage c (env 1) x (reads (\<lambda>w. fueled (loadAllAcceptanceUnitIntents collate c key w))) v \<noteq> (Inr None, u)" for x v u key
    using st [of "\<lambda>w. fueled (loadAllAcceptanceUnitIntents collate c key w)" "env 1" x v] l by (metis fst_conv fueled_None)
  have "process_selection collate c ew env now v \<noteq> None" for v
    using sel load by (auto simp: process_selection_def Let_def simp del: not_None_eq split: prod.splits sum.splits option.splits)
  then show ?thesis by (auto simp: processOnce_def Let_def simp del: not_None_eq split: prod.splits sum.splits bool.splits option.splits)
qed

section \<open>What is selected and loaded\<close>

definition unit_rows :: "AcceptanceKey \<Rightarrow> SharedDb \<Rightarrow> IntentRow list" where
  "unit_rows key db =
     filter (\<lambda>r. si_ScopeID r = ak_ScopeID key \<and> si_AcceptanceUnitID r = ak_AcceptanceUnitID key
       \<and> si_SourceRunID r = ak_SourceRunID key \<and> si_ProjectionDomain r = DomainCodeCalls \<and> si_CompletedAt r = None)
       (sd_Intents db)"

text \<open>A generation of a unit is accepted, and the nodes its calls join are in the graph.\<close>

definition unit_ready :: "'g Stores \<Rightarrow> AcceptanceKey \<Rightarrow> string \<Rightarrow> bool" where
  "unit_ready w key g \<longleftrightarrow>
     NewAcceptedGenerationLookup (st_Shared w) key = Some g
     \<and> (\<exists>pk keys. phaseKeyForAcceptance key g KeyspaceCodeEntitiesUID = Some pk
          \<and> ReadinessPrefetch (st_Phases w) keys PhaseCanonicalNodesCommitted pk PhaseCanonicalNodesCommitted = (True, True))"

lemma pick_unit_ready:
  assumes "csel_Key (pick_unit (Some phase) lookup ready now us b t) = Some k"
  shows "\<exists>r g pk. (k, r) \<in> set us \<and> lookup k = Some g \<and> phaseKeyForAcceptance k g KeyspaceCodeEntitiesUID = Some pk
    \<and> ready pk phase = (True, True)"
  using assms
proof (induction us arbitrary: b t)
  case (Cons u us)
  obtain k' r where u: "u = (k', r)" by (cases u)
  show ?case
  proof (cases "csel_Key (pick_unit (Some phase) lookup ready now us (Suc b) (max t (maxSharedIntentWait now [r]))) = Some k
      \<or> csel_Key (pick_unit (Some phase) lookup ready now us b t) = Some k")
    case True
    with Cons.IH show ?thesis by (meson list.set_intros(2))
  next
    case False
    with Cons.prems u show ?thesis by (auto split: option.splits if_splits)
  qed
qed simp

lemma pending_units_mem: "(k, r) \<in> set (pending_units rows) \<Longrightarrow> r \<in> set rows \<and> acceptance_of r = Some k"
  using set_first_of_each [of fst "[]" "List.map_filter (\<lambda>r. map_option (\<lambda>k. (k, r)) (acceptance_of r)) rows"]
  by (auto simp: pending_units_def List.map_filter_def)

lemma select_unit_at_key:
  assumes "select_unit_at collate now w limit = Inr (Some sel)" and "csel_Key sel = Some key"
  shows "(\<exists>r \<in> set (sd_Intents (st_Shared w)). acceptance_of r = Some key) \<and> (\<exists>g. unit_ready w key g)"
proof -
  let ?pending = "ListPendingDomainIntents collate DomainCodeCalls limit (st_Shared w)"
  have gate: "sharedProjectionReadinessPhase DomainCodeCalls = Some PhaseCanonicalNodesCommitted"
    by (simp add: sharedProjectionReadinessPhase_def)
  from assms obtain lookup where g: "NewAcceptedGenerationPrefetch (st_Shared w) ?pending = Inr lookup"
    and sel: "csel_Key (pick_unit (Some PhaseCanonicalNodesCommitted) lookup
      (ReadinessPrefetch (st_Phases w) (unit_readiness_keys lookup (pending_units ?pending)) PhaseCanonicalNodesCommitted)
      now (pending_units ?pending) 0 0) = Some key"
    by (auto simp: select_unit_at_def Let_def gate split: if_splits sum.splits option.splits)
  from pick_unit_ready [OF sel] obtain r h pk where u: "(key, r) \<in> set (pending_units ?pending)" and h: "lookup key = Some h"
    and ready: "phaseKeyForAcceptance key h KeyspaceCodeEntitiesUID = Some pk"
      "ReadinessPrefetch (st_Phases w) (unit_readiness_keys lookup (pending_units ?pending)) PhaseCanonicalNodesCommitted
        pk PhaseCanonicalNodesCommitted = (True, True)" by blast
  from pending_units_mem [OF u] have r: "r \<in> set ?pending" "acceptance_of r = Some key" by auto
  from accepted_prefetch [OF g r(1)] r(2) h have "NewAcceptedGenerationLookup (st_Shared w) key = Some h"
    by (simp add: accepted_generation_def)
  with ready have "unit_ready w key h" by (auto simp: unit_ready_def)
  moreover from r(1) have "r \<in> set (sd_Intents (st_Shared w))"
    by (auto simp: ListPendingDomainIntents_def dest: list_rows_mem)
  ultimately show ?thesis using r(2) by blast
qed

text \<open>A unit is loaded whole or not at all.\<close>

lemma loaded_whole:
  assumes "loadAllAcceptanceUnitIntents collate c key w = Some (Inr rows)"
  shows "rows = sort_by (cmp_listed collate) (unit_rows key (st_Shared w))"
proof -
  from scan_loop_found [OF assms [unfolded loadAllAcceptanceUnitIntents_def]] obtain n where
    n: "unit_rows_at collate key w n = Inr (Some rows)" by blast
  then have rows: "rows = ListPendingAcceptanceUnitIntents collate key DomainCodeCalls n (st_Shared w)" "int (length rows) < n"
    by (auto simp: unit_rows_at_def Let_def split: if_splits)
  then have "rows = take (nat n) (sort_by (cmp_listed collate) (unit_rows key (st_Shared w)))"
    by (auto simp: ListPendingAcceptanceUnitIntents_def list_rows_def unit_rows_def)
  with rows(2) show ?thesis by simp
qed

lemma acceptance_nonblank:
  "acceptance_of r = Some k \<Longrightarrow> ak_ScopeID k \<noteq> [] \<and> ak_AcceptanceUnitID k \<noteq> [] \<and> ak_SourceRunID k \<noteq> []"
  unfolding acceptance_of_def Let_def by (clarsimp split: if_split_asm simp del: append_is_Nil_conv)

lemma unit_acceptance:
  assumes "acceptance_of r0 = Some key" and "r \<in> set (unit_rows key db)"
  shows "acceptance_of r = Some key"
proof -
  from acceptance_of_trimmed [OF assms(1)] have trimmed: "trim_space (ak_ScopeID key) = ak_ScopeID key"
    "trim_space (ak_AcceptanceUnitID key) = ak_AcceptanceUnitID key" "trim_space (ak_SourceRunID key) = ak_SourceRunID key"
    by (metis AcceptanceKey.select_convs)+
  from assms(2) have "si_ScopeID r = ak_ScopeID key" "si_AcceptanceUnitID r = ak_AcceptanceUnitID key"
    "si_SourceRunID r = ak_SourceRunID key" by (simp_all add: unit_rows_def)
  then show ?thesis using acceptance_nonblank [OF assms(1)] by (simp add: acceptance_of_def Let_def trimmed)
qed

lemma unit_generations:
  assumes "NewAcceptedGenerationLookup db key = Some g" and "acceptance_of r0 = Some key"
    and "set rows \<subseteq> set (unit_rows key db')" and "NewAcceptedGenerationPrefetch db rows = Inr lookup"
  shows "FilterAuthoritativeIntents rows lookup =
    (filter (\<lambda>r. si_GenerationID r = g) rows, map si_IntentID (filter (\<lambda>r. si_GenerationID r \<noteq> g) rows))"
proof -
  have "accepted_generation (NewAcceptedGenerationLookup db) r = Some g" if "r \<in> set rows" for r
    using unit_acceptance [OF assms(2)] assms(1,3) that by (auto simp: accepted_generation_def)
  then have "is_current lookup r \<longleftrightarrow> si_GenerationID r = g" "is_stale lookup r \<longleftrightarrow> si_GenerationID r \<noteq> g" if "r \<in> set rows" for r
    using accepted_prefetch [OF assms(4) that] that by (auto simp: is_current_def is_stale_def)
  then show ?thesis by (auto simp: filter_authoritative intro!: filter_cong arg_cong [of _ _ "map si_IntentID"])
qed

section \<open>A unit is projected whole\<close>

lemma stage_quiet:
  "stage c [] what op \<lparr>lc_World = w, lc_Ended = False, lc_BeatError = b\<rparr>
   = (case op w of (r, w') \<Rightarrow> (r, \<lparr>lc_World = w', lc_Ended = False, lc_BeatError = b\<rparr>))"
  by (auto simp: stage_def Let_def split: prod.split)

text \<open>The graph when the rows of a unit have been written: after a retraction, or without one for a unit never projected.\<close>

definition unit_written :: "'g EdgeWriter \<Rightarrow> AcceptanceKey \<Rightarrow> IntentRow list \<Rightarrow> 'g Stores \<Rightarrow> 'g \<Rightarrow> bool" where
  "unit_written ew key active w g \<longleftrightarrow>
     (if active = [] then g = st_Graph w
      else \<exists>g1. (retractRepo ew active (st_Graph w) = (None, g1)
                 \<or> g1 = st_Graph w \<and> \<not> HasCompletedAcceptanceUnitDomainIntents key DomainCodeCalls (st_Shared w))
               \<and> writeActiveRows ew active g1 = (None, g))"

lemma acts_graph:
  "acts (on_graph f) w = (Inr (), w') \<longleftrightarrow> (\<exists>g. f (st_Graph w) = (None, g) \<and> w' = w\<lparr>st_Graph := g\<rparr>)"
  by (auto simp: acts_def on_graph_def split: prod.splits option.splits)

lemma project_unit_quiet:
  assumes "project_unit c ew (\<lambda>_. []) key active staleIDs res \<lparr>lc_World = w, lc_Ended = False, lc_BeatError = b\<rparr> = ((res1, None), l)"
  shows "\<exists>g. l = \<lparr>lc_World = w\<lparr>st_Graph := g\<rparr>, lc_Ended = False, lc_BeatError = b\<rparr> \<and> unit_written ew key active w g"
proof (cases "active = []")
  case True
  with assms show ?thesis by (auto simp: project_unit_def unit_written_def intro!: exI [of _ "st_Graph w"])
next
  case False
  let ?skip = "shouldSkipCodeCallRetract key staleIDs w"
  let ?ret = "acts (on_graph (retractRepo ew active)) w"
  have skip: "?skip \<Longrightarrow> \<not> HasCompletedAcceptanceUnitDomainIntents key DomainCodeCalls (st_Shared w)"
    by (simp add: shouldSkipCodeCallRetract_def)
  have noskip: "staleIDs \<noteq> [] \<Longrightarrow> \<not> ?skip" by (simp add: shouldSkipCodeCallRetract_def)
  obtain g1 where g1: "?skip \<and> g1 = st_Graph w \<or> \<not> ?skip \<and> retractRepo ew active (st_Graph w) = (None, g1)"
    and w: "(if groupCodeCallUpsertRows active = [] then (Inr (), \<lparr>lc_World = w\<lparr>st_Graph := g1\<rparr>, lc_Ended = False, lc_BeatError = b\<rparr>)
      else stage c [] ''write code call edges'' (acts (on_graph (writeActiveRows ew active)))
        \<lparr>lc_World = w\<lparr>st_Graph := g1\<rparr>, lc_Ended = False, lc_BeatError = b\<rparr>) = (Inr (), l)"
  proof (cases ?skip)
    case True
    with noskip have "staleIDs = []" by blast
    with assms False True show thesis
      by (intro that [of "st_Graph w"])
        (auto simp: project_unit_def stage_quiet reads_def Let_def split: sum.splits if_splits prod.splits)
  next
    case no: False
    have "\<exists>w1. ?ret = (Inr (), w1) \<and> (if groupCodeCallUpsertRows active = [] then (Inr (), \<lparr>lc_World = w1, lc_Ended = False, lc_BeatError = b\<rparr>)
      else stage c [] ''write code call edges'' (acts (on_graph (writeActiveRows ew active)))
        \<lparr>lc_World = w1, lc_Ended = False, lc_BeatError = b\<rparr>) = (Inr (), l)"
      using assms False no
      by (auto simp: project_unit_def stage_quiet reads_def Let_def split: sum.splits if_splits prod.splits)
    with no show thesis by (auto simp: acts_graph intro: that)
  qed
  have "\<exists>g. writeActiveRows ew active g1 = (None, g) \<and> l = \<lparr>lc_World = w\<lparr>st_Graph := g\<rparr>, lc_Ended = False, lc_BeatError = b\<rparr>"
  proof (cases "groupCodeCallUpsertRows active = []")
    case True
    with w show ?thesis by (auto simp: writeActiveRows_def)
  next
    case no: False
    with w show ?thesis by (auto simp: stage_quiet acts_graph split: prod.splits)
  qed
  with g1 skip False show ?thesis by (auto simp: unit_written_def)
qed

text \<open>What a cycle does to the tables and the graph when it completes the pending rows of a unit.\<close>

definition unit_projected ::
  "'g EdgeWriter \<Rightarrow> time \<Rightarrow> AcceptanceKey \<Rightarrow> string \<Rightarrow> IntentRow list \<Rightarrow> 'g Stores \<Rightarrow> 'g Stores \<Rightarrow> bool" where
  "unit_projected ew now key g active w w' \<longleftrightarrow>
     mset active = mset (filter (\<lambda>r. si_GenerationID r = g) (unit_rows key (st_Shared w)))
     \<and> sd_Intents (st_Shared w') = complete (si_IntentID ` set (unit_rows key (st_Shared w))) now (sd_Intents (st_Shared w))
     \<and> unit_written ew key active w (st_Graph w')"

lemma process_unit_quiet:
  assumes run: "process_unit_rows c ew (\<lambda>_. []) now key rows res \<lparr>lc_World = w, lc_Ended = False, lc_BeatError = b\<rparr> = ((res1, None), l)"
    and n: "ppr_ProcessedIntents res = 0" "0 < ppr_ProcessedIntents res1"
    and rows: "mset rows = mset (unit_rows key (st_Shared w))"
    and key: "NewAcceptedGenerationLookup (st_Shared w) key = Some g" "acceptance_of r0 = Some key"
  shows "\<exists>active. lc_BeatError l = b \<and> unit_projected ew now key g active w (lc_World l)"
proof -
  from run n obtain lookup where p: "NewAcceptedGenerationPrefetch (st_Shared w) rows = Inr lookup"
    by (auto simp: process_unit_rows_def stage_quiet reads_def no_work_def split: sum.splits)
  let ?active = "filter (\<lambda>r. si_GenerationID r = g) rows"
  let ?stale = "map si_IntentID (filter (\<lambda>r. si_GenerationID r \<noteq> g) rows)"
  let ?l = "\<lambda>w. \<lparr>lc_World = w, lc_Ended = False, lc_BeatError = b\<rparr>"
  have same: "set rows = set (unit_rows key (st_Shared w))" using rows by (metis set_mset_mset)
  have f: "FilterAuthoritativeIntents rows lookup = (?active, ?stale)"
    by (rule unit_generations [OF key equalityD1 [OF same] p])
  from run n p f obtain res2 l2 where u: "project_unit c ew (\<lambda>_. []) key ?active ?stale res (?l w) = ((res2, None), l2)"
    and m: "stage c [] ''mark code call intents completed'' (acts (mark_code_calls (?stale @ map si_IntentID ?active) now)) l2 = (Inr (), l)"
    by (auto simp: process_unit_rows_def stage_quiet reads_def Let_def no_work_def split: sum.splits prod.splits option.splits if_splits)
  from project_unit_quiet [OF u] obtain graph where l2: "l2 = ?l (w\<lparr>st_Graph := graph\<rparr>)"
    and written: "unit_written ew key ?active w graph" by blast
  have ids: "set (?stale @ map si_IntentID ?active) = si_IntentID ` set (unit_rows key (st_Shared w))"
    unfolding same [symmetric] by auto
  from m have l: "l = ?l (w\<lparr>st_Graph := graph, st_Shared := (st_Shared w)\<lparr>sd_Intents :=
      complete (set (?stale @ map si_IntentID ?active)) now (sd_Intents (st_Shared w))\<rparr>\<rparr>)"
    by (simp add: l2 stage_quiet acts_def mark_code_calls_def store_mark_def on_shared_def MarkIntentsCompleted_eq)
  have "unit_projected ew now key g ?active w (lc_World l)"
    using written rows unfolding unit_projected_def l ids by simp
  then show ?thesis using l by auto
qed

lemma claim_lane_keeps:
  assumes "claim_lane c clock w = (r, w1)"
  shows "\<exists>ls. w1 = w\<lparr>st_Shared := (st_Shared w)\<lparr>sd_Leases := ls\<rparr>\<rparr>"
proof -
  let ?claim = "ClaimPartitionLease clock DomainCodeCalls 0 1 (code_call_leaseOwner c) (code_call_leaseTTL c)"
  have "snd (?claim db) = db\<lparr>sd_Leases := sd_Leases (snd (?claim db))\<rparr>" for db
    by (simp add: ClaimPartitionLease_def Let_def split: option.split)
  then obtain ls where "snd (?claim (st_Shared w)) = (st_Shared w)\<lparr>sd_Leases := ls\<rparr>" by blast
  with assms show ?thesis
    by (auto simp: claim_lane_def store_leases_def on_shared_def split: prod.splits)
qed

lemma leases_irrelevant [simp]:
  "NewAcceptedGenerationLookup (db\<lparr>sd_Leases := ls\<rparr>) = NewAcceptedGenerationLookup db"
  "unit_rows key (db\<lparr>sd_Leases := ls\<rparr>) = unit_rows key db"
  "unit_ready (w\<lparr>st_Shared := db\<lparr>sd_Leases := ls\<rparr>\<rparr>) key g = unit_ready (w\<lparr>st_Shared := db\<rparr>) key g"
  by (auto simp: fun_eq_iff NewAcceptedGenerationLookup_def Acceptance_Lookup_def unit_rows_def unit_ready_def)

lemma projected_leases:
  "unit_projected ew now key g active (w\<lparr>st_Shared := (st_Shared w)\<lparr>sd_Leases := ls\<rparr>\<rparr>) w'
   = unit_projected ew now key g active w w'"
  by (simp add: unit_projected_def unit_written_def HasCompletedAcceptanceUnitDomainIntents_def)

text \<open>
  C22: a cycle of the code call lane that completes anything and is not interfered with completes exactly the pending
  rows of one acceptance unit, whose accepted generation has its nodes in the graph. All rows of that generation are
  written in the same cycle, after the old calls of their repositories are retracted unless the unit never completed
  before; a unit is never projected in part.
\<close>

theorem unit_projected_whole:
  assumes run: "processOnce collate c ew (\<lambda>_. []) clock now w = Some ((res, errs), w')"
    and did: "0 < ppr_ProcessedIntents res" "errs = []"
  shows "\<exists>key g active. unit_ready w key g \<and> unit_projected ew now key g active w w'"
proof -
  let ?l = "\<lambda>w. \<lparr>lc_World = w, lc_Ended = False, lc_BeatError = None\<rparr>"
  obtain ok w1 where cl: "claim_lane c clock w = (ok, w1)" by (cases "claim_lane c clock w")
  from run did cl have ok: "ok = Inr True" by (auto simp: processOnce_def no_work_def split: sum.splits bool.splits)
  from claim_lane_keeps [OF cl] obtain ls where w1: "w1 = w\<lparr>st_Shared := (st_Shared w)\<lparr>sd_Leases := ls\<rparr>\<rparr>" by blast
  from run did cl ok obtain l where sel: "process_selection collate c ew (\<lambda>_. []) now (?l w1) = Some ((res, None), l)"
    and w': "w' = lc_World l"
    by (auto simp: processOnce_def Let_def release_lane_def split: option.splits prod.splits)
  note defs = process_selection_def stage_quiet reads_def fueled_def Let_def
  from sel obtain s where s: "selectAcceptanceUnitWork collate c now w1 = Some (Inr s)"
    by (auto simp: defs split: option.splits sum.splits)
  let ?res = "(no_work True)\<lparr>ppr_BlockedReadiness := csel_Blocked s, ppr_MaxBlockedIntentWait := csel_MaxBlockedWait s\<rparr>"
  have res0: "ppr_ProcessedIntents ?res = 0" by (simp add: no_work_def)
  from sel did(1) s res0 obtain key where k: "csel_Key s = Some key" by (cases "csel_Key s") (auto simp: defs)
  from sel s k obtain rows where load: "loadAllAcceptanceUnitIntents collate c key w1 = Some (Inr rows)"
    by (auto simp: defs split: option.splits sum.splits)
  from sel s k load have unit: "process_unit_rows c ew (\<lambda>_. []) now key rows ?res (?l w1) = ((res, None), l)"
    by (simp add: defs)
  from scan_loop_found [OF s [unfolded selectAcceptanceUnitWork_def]] select_unit_at_key [OF _ k]
  obtain r0 g where r0: "acceptance_of r0 = Some key" and g: "unit_ready w1 key g" by blast
  have "mset rows = mset (unit_rows key (st_Shared w1))" using loaded_whole [OF load] by simp
  from process_unit_quiet [OF unit res0 did(1) this _ r0] g
  obtain active where "unit_projected ew now key g active w1 w'" unfolding w' unit_ready_def by blast
  with g have "unit_ready w key g \<and> unit_projected ew now key g active w w'" unfolding w1 by (simp add: projected_leases)
  then show ?thesis by blast
qed

section \<open>The calls of a repository are replaced\<close>

lemma retracted_ids: "map si_RepositoryID (buildCodeCallRetractRows (uniqueRepositoryIDs rows)) = uniqueRepositoryIDs rows"
proof -
  have "trim_space x = x \<and> x \<noteq> []" if "x \<in> set (uniqueRepositoryIDs rows)" for x
    using that set_first_of_each [of "\<lambda>x. x" "[]" "filter (\<lambda>x. x \<noteq> []) (map (\<lambda>r. trim_space (si_RepositoryID r)) rows)"]
    by (auto simp: uniqueRepositoryIDs_def)
  then have "map trim_space (uniqueRepositoryIDs rows) = uniqueRepositoryIDs rows" "filter (\<lambda>x. x \<noteq> []) (uniqueRepositoryIDs rows) = uniqueRepositoryIDs rows"
    by (auto intro!: map_idI filter_True)
  then show ?thesis by (simp add: buildCodeCallRetractRows_def retract_row_def comp_def)
qed

definition call_edge :: "IntentRow \<Rightarrow> string \<times> string \<times> payload" where
  "call_edge r = (codeCallRowEvidenceSource r, si_RepositoryID r, si_Payload r)"

lemma retract_sources_edges:
  assumes "retract_sources domain what ew rows sources g = (None, g')"
    and "\<And>source g g'. ew_Retract ew domain rows source g = (None, g')
      \<Longrightarrow> edges g' = {e \<in> edges g. \<not> (fst e = source \<and> fst (snd e) \<in> set (map si_RepositoryID rows))}"
  shows "edges g' = {e \<in> edges g. \<not> (fst e \<in> set sources \<and> fst (snd e) \<in> set (map si_RepositoryID rows))}"
  using assms(1)
proof (induction sources arbitrary: g)
  case (Cons source sources)
  then obtain g1 where "ew_Retract ew domain rows source g = (None, g1)" "retract_sources domain what ew rows sources g1 = (None, g')"
    by (auto split: prod.splits option.splits)
  with assms(2) Cons.IH show ?case by auto
qed simp

lemma write_groups_edges:
  assumes "write_groups domain what ew groups g = (None, g')"
    and "\<And>rows source g g'. ew_Write ew domain rows source g = (None, g')
      \<Longrightarrow> edges g' = edges g \<union> (\<lambda>r. (source, si_RepositoryID r, si_Payload r)) ` set rows"
  shows "edges g' = edges g \<union> (\<Union>(source, rows) \<in> set groups. (\<lambda>r. (source, si_RepositoryID r, si_Payload r)) ` set rows)"
  using assms(1)
proof (induction groups arbitrary: g)
  case (Cons group groups)
  obtain source rows where group: "group = (source, rows)" by (cases group)
  with Cons.prems obtain g1 where "ew_Write ew domain rows source g = (None, g1)" "write_groups domain what ew groups g1 = (None, g')"
    by (auto split: prod.splits option.splits)
  with assms(2) Cons.IH group show ?case by (auto 0 0 simp: Un_assoc)
qed simp

lemma union_of_groups: "(\<Union>s \<in> f ` E. (\<lambda>r. (s, h r)) ` {r. r \<in> E \<and> f r = s}) = (\<lambda>r. (f r, h r)) ` E"
proof (rule set_eqI)
  fix p
  have "p \<in> (\<Union>s \<in> f ` E. (\<lambda>r. (s, h r)) ` {r. r \<in> E \<and> f r = s}) \<longleftrightarrow> (\<exists>x \<in> E. \<exists>r \<in> E. f r = f x \<and> p = (f x, h r))" by auto
  also have "\<dots> \<longleftrightarrow> (\<exists>r \<in> E. p = (f r, h r))" by metis
  finally show "p \<in> (\<Union>s \<in> f ` E. (\<lambda>r. (s, h r)) ` {r. r \<in> E \<and> f r = s}) \<longleftrightarrow> p \<in> (\<lambda>r. (f r, h r)) ` E" by auto
qed

lemma groups_cover:
  "(\<Union>(source, rows) \<in> set (rows_by_source wanted source_of active). (\<lambda>r. (source, si_RepositoryID r, si_Payload r)) ` set rows)
   = (\<lambda>r. (source_of r, si_RepositoryID r, si_Payload r)) ` {r \<in> set active. wanted r}"
proof -
  let ?E = "{r \<in> set active. wanted r}"
  have sources: "set (first_of_each (\<lambda>x. x) [] (map source_of (filter wanted active))) = source_of ` ?E"
    using set_map_first_of_each [of "\<lambda>x. x" "[]" "map source_of (filter wanted active)"] by auto
  have "(\<Union>(source, rows) \<in> set (rows_by_source wanted source_of active). (\<lambda>r. (source, si_RepositoryID r, si_Payload r)) ` set rows)
      = (\<Union>s \<in> source_of ` ?E. (\<lambda>r. (s, si_RepositoryID r, si_Payload r)) ` {r. r \<in> ?E \<and> source_of r = s})"
    by (simp add: rows_by_source_def Let_def conj_assoc sources)
  also have "\<dots> = (\<lambda>r. (source_of r, si_RepositoryID r, si_Payload r)) ` ?E"
    by (rule union_of_groups)
  finally show ?thesis .
qed


section \<open>The lease outlives the cycle\<close>

definition keeps_leases :: "('g Stores \<Rightarrow> 'a \<times> 'g Stores) \<Rightarrow> bool" where
  "keeps_leases op \<longleftrightarrow> (\<forall>w. sd_Leases (st_Shared (snd (op w))) = sd_Leases (st_Shared w))"

definition lane_leases :: "'g Stores lane_cycle \<Rightarrow> LeaseRow list" where
  "lane_leases l = sd_Leases (st_Shared (lc_World l))"

lemma keeps_leases_ops [simp]:
  "keeps_leases (reads f)" "keeps_leases (acts (on_graph h))" "keeps_leases (acts (mark_code_calls ids now))"
  by (auto simp: keeps_leases_def reads_def acts_def on_graph_def mark_code_calls_def store_mark_def on_shared_def
      MarkIntentsCompleted_def split: prod.split option.split)

lemma stage_leases:
  "keeps_leases op \<Longrightarrow> stage c [] what op l = (r, l') \<Longrightarrow> lane_leases l' = lane_leases l"
  by (auto simp: stage_def keeps_leases_def lane_leases_def Let_def split: prod.splits if_splits dest: spec [of _ "lc_World l"])

lemma project_unit_leases:
  "project_unit c ew (\<lambda>_. []) key active staleIDs res l = (out, l') \<Longrightarrow> lane_leases l' = lane_leases l"
  by (auto simp: project_unit_def Let_def split: prod.splits sum.splits if_splits dest!: stage_leases [rotated])

lemma process_unit_leases:
  "process_unit_rows c ew (\<lambda>_. []) now key rows res l = (out, l') \<Longrightarrow> lane_leases l' = lane_leases l"
  by (auto simp: process_unit_rows_def Let_def split: prod.splits sum.splits if_splits option.splits
      dest!: stage_leases [rotated] project_unit_leases)

lemma process_selection_leases:
  "process_selection collate c ew (\<lambda>_. []) now l = Some (out, l') \<Longrightarrow> lane_leases l' = lane_leases l"
  by (auto simp: process_selection_def Let_def split: prod.splits sum.splits if_splits option.splits
      dest!: stage_leases [rotated] process_unit_leases)

text \<open>
  The lease is still held when its cycle has ended and nobody else interfered: the release runs in a context
  that is over. Another owner gets the lane only when the time to live has passed.
\<close>

theorem lease_outlives_cycle:
  assumes run: "processOnce collate c ew (\<lambda>_. []) clock now w = Some ((res, errs), w')" and held: "ppr_LeaseAcquired res"
  shows "lease_holder (st_Shared w') (DomainCodeCalls, 0, 1) = Some (code_call_leaseOwner c, clock + code_call_leaseTTL c)"
proof -
  let ?key = "(DomainCodeCalls, 0::int, 1::int)"
  have claim: "claim_lane c clock w = (case claim_op clock ?key (code_call_leaseOwner c) (code_call_leaseTTL c) (st_Shared w) of
      (x, db) \<Rightarrow> (x, w\<lparr>st_Shared := db\<rparr>))"
    by (simp add: claim_lane_def store_leases_def on_shared_def claim_op_def)
  show ?thesis
  proof (cases rule: claim_op_cases [of clock ?key "code_call_leaseOwner c" "code_call_leaseTTL c" "st_Shared w"])
    case (failed e)
    with run held claim show ?thesis by (auto simp: processOnce_def no_work_def)
  next
    case refused
    with run held claim show ?thesis by (auto simp: processOnce_def no_work_def)
  next
    case (granted db)
    let ?l = "\<lparr>lc_World = w\<lparr>st_Shared := db\<rparr>, lc_Ended = False, lc_BeatError = None\<rparr>"
    from run granted(1) claim obtain e l where "process_selection collate c ew (\<lambda>_. []) now ?l = Some ((res, e), l)" "w' = lc_World l"
      by (auto simp: processOnce_def Let_def release_lane_def split: option.splits prod.splits)
    with process_selection_leases [of collate c ew now ?l] have "sd_Leases (st_Shared w') = sd_Leases db"
      by (auto simp: lane_leases_def)
    with granted(2) show ?thesis by (simp add: lease_holder_def)
  qed
qed

section \<open>A lane at work\<close>

text \<open>Evaluation of trimming without looking for Unicode spaces where there is nothing to trim.\<close>

lemma trim_space_code [code]: "trim_space s = (if s = [] \<or> solid s then s else rev (strip (map rev space_runes) (rev (strip space_runes s))))"
  by (cases "s = [] \<or> solid s") (auto simp: trim_space_solid, simp add: trim_space_def)
definition listed_graph :: "((string \<times> string \<times> payload) list) EdgeWriter" where
  "listed_graph =
     \<lparr>ew_Retract = (\<lambda>d rows source g. (None, filter (\<lambda>e. \<not> (fst e = source \<and> fst (snd e) \<in> set (map si_RepositoryID rows))) g)),
      ew_Write = (\<lambda>d rows source g. (None, g @ map (\<lambda>r. (source, si_RepositoryID r, si_Payload r)) rows))\<rparr>"

definition example_lane_config :: CodeCallConfig where
  "example_lane_config = \<lparr>ccc_LeaseOwner = [], ccc_PollInterval = 0, ccc_LeaseTTL = 0, ccc_BatchLimit = 3, ccc_AcceptanceScanLimit = 8\<rparr>"

definition call_row :: "string \<Rightarrow> string \<Rightarrow> string \<Rightarrow> time option \<Rightarrow> IntentRow" where
  "call_row intentID gen callee completed =
     \<lparr>si_IntentID = intentID, si_ProjectionDomain = DomainCodeCalls, si_PartitionKey = ''p'', si_ScopeID = ''s'',
      si_AcceptanceUnitID = ''u'', si_RepositoryID = ''u'', si_SourceRunID = ''n'', si_GenerationID = gen,
      si_Payload = Some [(''caller_entity_id'', StrValue ''f''), (''callee_entity_id'', StrValue callee)],
      si_CreatedAt = 5, si_CompletedAt = completed\<rparr>"

definition lane_stores :: "((string \<times> string \<times> payload) list) Stores" where
  "lane_stores =
     \<lparr>st_Shared = \<lparr>sd_Scopes = [''s''], sd_Generations = [''b''], sd_Intents = [call_row ''0'' ''a'' ''g'' (Some 6), call_row ''1'' ''b'' ''h'' None, call_row ''2'' ''b'' ''k'' None],
        sd_Leases = [],
        sd_Acceptance = [\<lparr>ar_ScopeID = ''s'', ar_AcceptanceUnitID = ''u'', ar_SourceRunID = ''n'', ar_GenerationID = ''b'',
          ar_AcceptedAt = 7, ar_UpdatedAt = 7\<rparr>]\<rparr>,
      st_Phases = \<lparr>db_Scopes = [''s''], db_Generations = [''b''],
        db_States = [\<lparr>ps_Key = \<lparr>pk_ScopeID = ''s'', pk_AcceptanceUnitID = ''u'', pk_SourceRunID = ''n'', pk_GenerationID = ''b'',
          pk_Keyspace = KeyspaceCodeEntitiesUID\<rparr>, ps_Phase = PhaseCanonicalNodesCommitted, ps_CommittedAt = 8, ps_UpdatedAt = 8\<rparr>],
        db_Repairs = []\<rparr>,
      st_Graph = [(codeCallEvidenceSource, ''u'', Some [(''callee_entity_id'', StrValue ''g'')])]\<rparr>"

definition lane_run :: "(PartitionProcessResult \<times> error list) \<times> ((string \<times> string \<times> payload) list) Stores" where
  "lane_run = the (processOnce compare example_lane_config listed_graph (\<lambda>_. []) 9 10 lane_stores)"



lemma lane_run_values:
  "processOnce compare example_lane_config listed_graph (\<lambda>_. []) 9 10 lane_stores = Some ((fst (fst lane_run), []), snd lane_run)"
  "ppr_ProcessedIntents (fst (fst lane_run)) = 2" "ppr_LeaseAcquired (fst (fst lane_run))"
  "st_Graph (snd lane_run) = [call_edge (call_row ''1'' ''b'' ''h'' None), call_edge (call_row ''2'' ''b'' ''k'' None)]"
  "map si_CompletedAt (sd_Intents (st_Shared (snd lane_run))) = [Some 6, Some 10, Some 10]"
proof -
  have "processOnce compare example_lane_config listed_graph (\<lambda>_. []) 9 10 lane_stores \<noteq> None" by code_simp
  then have "processOnce compare example_lane_config listed_graph (\<lambda>_. []) 9 10 lane_stores = Some lane_run"
    by (auto simp: lane_run_def)
  moreover have "snd (fst lane_run) = []" by code_simp
  ultimately show "processOnce compare example_lane_config listed_graph (\<lambda>_. []) 9 10 lane_stores
      = Some ((fst (fst lane_run), []), snd lane_run)" by (metis prod.collapse)
qed code_simp+

lemma unit_projected_whole_witness:
  "ppr_ProcessedIntents (fst (fst lane_run)) = 2
    \<and> (\<exists>key g active. unit_ready lane_stores key g \<and> unit_projected listed_graph 10 key g active lane_stores (snd lane_run))
    \<and> map si_CompletedAt (sd_Intents (st_Shared (snd lane_run))) = [Some 6, Some 10, Some 10]"
  using unit_projected_whole [OF lane_run_values(1) _ refl] lane_run_values(2,5) by simp

lemma lease_outlives_cycle_witness:
  "lease_holder (st_Shared (snd lane_run)) (''code_calls'', 0, 1) = Some (''code-call-projection-runner'', 60000000009)"
  using lease_outlives_cycle [OF lane_run_values(1,3)]
  by (simp add: DomainCodeCalls_def code_call_leaseOwner_def code_call_leaseTTL_def example_lane_config_def defaultCodeCallLeaseOwner_def
      defaultLeaseTTL_def seconds_def)


end
