(* ===== verification/RepoDependencyRunner.thy ===== *)
theory RepoDependencyRunner
  imports CodeCallRunner ReducerQueue
begin

text \<open>
  \<open>go/internal/reducer/repo_dependency_projection_runner.go\<close>: the lane that projects the dependencies of one source
  repository at a time. It loads all intents of the repository's acceptance unit, completed ones too, replaces the
  edges of the accepted generations and asks for the workloads that rest on them to be materialized again. What the
  replay acts on is part of the world \<open>'g\<close> behind the edge writer. Cycles have the numbered stages of \<open>CodeCallRunner\<close>.
\<close>

section \<open>Configuration\<close>

definition defaultRepoDependencyLeaseOwner :: string where
  "defaultRepoDependencyLeaseOwner = ''repo-dependency-projection-runner''"
definition maxRepoDependencyPollInterval :: duration where "maxRepoDependencyPollInterval = seconds 5"
definition maxRepoDependencyAcceptanceScanLimit :: int where "maxRepoDependencyAcceptanceScanLimit = 10000"

record RepoDependencyConfig =
  rdc_LeaseOwner :: string
  rdc_PollInterval :: duration
  rdc_LeaseTTL :: duration
  rdc_BatchLimit :: int

definition repo_pollInterval :: "RepoDependencyConfig \<Rightarrow> duration" where
  "repo_pollInterval c = (if rdc_PollInterval c \<le> 0 then defaultSharedPollInterval else rdc_PollInterval c)"

definition repo_leaseTTL :: "RepoDependencyConfig \<Rightarrow> duration" where
  "repo_leaseTTL c = (if rdc_LeaseTTL c \<le> 0 then defaultLeaseTTL else rdc_LeaseTTL c)"

definition repo_batchLimit :: "RepoDependencyConfig \<Rightarrow> int" where
  "repo_batchLimit c = (if rdc_BatchLimit c \<le> 0 then defaultBatchLimit else rdc_BatchLimit c)"

definition repo_leaseOwner :: "RepoDependencyConfig \<Rightarrow> string" where
  "repo_leaseOwner c = (if rdc_LeaseOwner c = [] then defaultRepoDependencyLeaseOwner else rdc_LeaseOwner c)"

definition repo_first_limit :: "RepoDependencyConfig \<Rightarrow> int" where
  "repo_first_limit c = min (repo_batchLimit c) maxRepoDependencyAcceptanceScanLimit"

definition repoDependencyLeaseHeartbeatInterval :: "duration \<Rightarrow> duration" where
  "repoDependencyLeaseHeartbeatInterval ttl =
     (if ttl \<le> 0 then 0
      else (let i = ttl div 3 in if i \<le> 0 then ttl else if seconds 60 < i then seconds 60 else i))"

definition repoDependencyPollBackoff :: "duration \<Rightarrow> nat \<Rightarrow> duration" where
  "repoDependencyPollBackoff base empties =
     (let b = ((\<lambda>d. wrap64 (d * 2)) ^^ (min empties 4 - 1)) base
      in if maxRepoDependencyPollInterval < b then maxRepoDependencyPollInterval else b)"

section \<open>Rows\<close>

definition repoDependencyPayloadString :: "IntentRow \<Rightarrow> string \<Rightarrow> string" where
  "repoDependencyPayloadString row key =
     (case payload_value (si_Payload row) key of StrValue s \<Rightarrow> trim_space s | _ \<Rightarrow> [])"

definition repoDependencyAcceptanceUnitID :: "IntentRow \<Rightarrow> string option" where
  "repoDependencyAcceptanceUnitID row =
     (let value = trim_space (si_AcceptanceUnitID row); repo = trim_space (si_RepositoryID row) in
      if value \<noteq> [] then Some value
      else
        (case acceptance_of row of
           Some key \<Rightarrow> Some (trim_space (ak_AcceptanceUnitID key))
         | None \<Rightarrow> if repo \<noteq> [] then Some repo else None))"

definition retracting_action :: "IntentRow \<Rightarrow> bool" where
  "retracting_action row \<longleftrightarrow>
     (let action = trim_space (repoDependencyPayloadString row ''action'') in action = ''delete'' \<or> action = ''retract'')"

definition repoDependencyNeedsRetract :: "IntentRow list \<Rightarrow> string list \<Rightarrow> bool" where
  "repoDependencyNeedsRetract rows staleIDs \<longleftrightarrow> staleIDs \<noteq> [] \<or> list_ex retracting_action rows"

definition repoDependencyRowEvidenceSource :: "IntentRow \<Rightarrow> string" where
  "repoDependencyRowEvidenceSource row =
     (let source = trim_space (repoDependencyPayloadString row ''evidence_source'')
      in if source \<noteq> [] then source else defaultEvidenceSource)"

definition repoDependencyEvidenceSources :: "IntentRow list \<Rightarrow> string list" where
  "repoDependencyEvidenceSources rows =
     sort_by compare (first_of_each (\<lambda>x. x) [] (map repoDependencyRowEvidenceSource rows))"

definition isRepoDependencyUpsertRow :: "IntentRow \<Rightarrow> bool" where
  "isRepoDependencyUpsertRow row \<longleftrightarrow>
     si_Payload row \<noteq> None \<and> \<not> retracting_action row
     \<and> \<not> (trim_space (repoDependencyPayloadString row ''repo_id'') = [] \<and> trim_space (si_RepositoryID row) = [])
     \<and> (if trim_space (repoDependencyPayloadString row ''relationship_type'') = ''RUNS_ON''
        then trim_space (repoDependencyPayloadString row ''platform_id'') \<noteq> []
        else trim_space (repoDependencyPayloadString row ''target_repo_id'') \<noteq> [])"

definition groupRepoDependencyUpsertRows :: "IntentRow list \<Rightarrow> (string \<times> IntentRow list) list" where
  "groupRepoDependencyUpsertRows rows = rows_by_source isRepoDependencyUpsertRow repoDependencyRowEvidenceSource rows"

definition buildRepoDependencyRetractRows :: "string list \<Rightarrow> IntentRow list" where
  "buildRepoDependencyRetractRows ids = map retract_row (filter (\<lambda>x. x \<noteq> []) (map trim_space ids))"

section \<open>Replays\<close>

text \<open>\<open>normalizedEntityKey\<close> of \<open>deployable_unit_correlation.go\<close>: what follows the last colon, if anything does.\<close>

definition after_last_colon :: "string \<Rightarrow> string option" where
  "after_last_colon s =
     (if CHR '':'' \<in> set s then Some (rev (takeWhile (\<lambda>c. c \<noteq> CHR '':'') (rev s))) else None)"

definition normalizedEntityKey :: "string \<Rightarrow> string" where
  "normalizedEntityKey key =
     (let k = to_lower (trim_space key) in
      case after_last_colon k of
        None \<Rightarrow> k
      | Some rest \<Rightarrow> if rest = [] then k else trim_space rest)"

definition repoDependencyReplayRepoKey :: "string \<Rightarrow> string" where
  "repoDependencyReplayRepoKey repoID =
     (let id = trim_space repoID in
      if id = [] then []
      else if prefix ''repo:'' (to_lower id) then id
      else (let alias = normalizedEntityKey id in if alias \<noteq> [] then ''repo:'' @ alias else ''repo:'' @ id))"

definition repoDependencyReplayEntityKey :: "IntentRow \<Rightarrow> string" where
  "repoDependencyReplayEntityKey row =
     (let target = trim_space (repoDependencyPayloadString row ''target_repo_id'');
          repo = trim_space (si_RepositoryID row);
          repo = (if repo = [] then trim_space (repoDependencyPayloadString row ''repo_id'') else repo);
          repo = (if repo = [] then trim_space (si_AcceptanceUnitID row) else repo)
      in if to_lower (trim_space (repoDependencyPayloadString row ''relationship_type'')) = to_lower ''PROVISIONS_DEPENDENCY_FOR''
            \<and> target \<noteq> []
         then repoDependencyReplayRepoKey target
         else if repo = [] then [] else repoDependencyReplayRepoKey repo)"

type_synonym replay_request = "string \<times> string \<times> string"

definition replay_request_of :: "IntentRow \<Rightarrow> replay_request" where
  "replay_request_of row =
     (trim_space (si_ScopeID row), trim_space (si_GenerationID row), repoDependencyReplayEntityKey row)"

text \<open>Requests are the same when the texts joined with bars are.\<close>

definition replay_key :: "replay_request \<Rightarrow> string" where
  "replay_key = (\<lambda>(scope, generation, entity). scope @ ''|'' @ generation @ ''|'' @ entity)"

definition cmp_replays :: "replay_request \<Rightarrow> replay_request \<Rightarrow> int" where
  "cmp_replays x y =
     or_else (compare (fst x) (fst y)) (or_else (compare (fst (snd x)) (fst (snd y))) (compare (snd (snd x)) (snd (snd y))))"

definition repoDependencyReplayRequests :: "IntentRow list \<Rightarrow> replay_request list" where
  "repoDependencyReplayRequests rows =
     sort_by cmp_replays (first_of_each replay_key []
       (filter (\<lambda>(scope, generation, entity). scope \<noteq> [] \<and> generation \<noteq> [] \<and> entity \<noteq> []) (map replay_request_of rows)))"

type_synonym 'g replayer = "string \<Rightarrow> string \<Rightarrow> string \<Rightarrow> 'g \<Rightarrow> bool result \<times> 'g"

fun replay_all :: "'g replayer \<Rightarrow> replay_request list \<Rightarrow> 'g \<Rightarrow> error option \<times> 'g" where
  "replay_all replay [] g = (None, g)"
| "replay_all replay ((scope, generation, entity) # requests) g =
     (case replay scope generation entity g of
        (Inl e, g') \<Rightarrow> (Some e, g')
      | (Inr _, g') \<Rightarrow> replay_all replay requests g')"

definition replayWorkloadMaterialization :: "'g replayer \<Rightarrow> IntentRow list \<Rightarrow> 'g \<Rightarrow> error option \<times> 'g" where
  "replayWorkloadMaterialization replay rows = replay_all replay (repoDependencyReplayRequests rows)"

text \<open>What \<open>cmd/reducer\<close> wires: the reducer queue beside the graph.\<close>

definition queue_replayer :: "(string \<Rightarrow> string option) \<Rightarrow> ReducerQueue \<Rightarrow> time \<Rightarrow> time \<Rightarrow> (DataDb \<times> 'x) replayer" where
  "queue_replayer jsonb q now later scope generation entity w =
     (case w of (db, x) \<Rightarrow>
        (case ReplayWorkloadMaterialization jsonb q scope generation entity now later db of (r, db') \<Rightarrow> (r, db', x)))"

section \<open>Selection\<close>

definition unit_accepted :: "GenerationLookup \<Rightarrow> IntentRow \<Rightarrow> bool" where
  "unit_accepted lookup row \<longleftrightarrow>
     (case Option.bind (acceptance_of row) lookup of
        None \<Rightarrow> False
      | Some g \<Rightarrow> trim_space (si_GenerationID row) = trim_space g)"

definition pending_row_error :: "IntentRow \<Rightarrow> error option" where
  "pending_row_error row =
     (if repoDependencyAcceptanceUnitID row = None
      then Some (Fmt ''pending repo dependency intent is missing acceptance unit'' [si_IntentID row])
      else if acceptance_of row = None
      then Some (Fmt ''pending repo dependency intent is missing scope, acceptance unit, or source run'' [si_IntentID row])
      else None)"

definition accepted_unit :: "GenerationLookup \<Rightarrow> IntentRow list \<Rightarrow> string option" where
  "accepted_unit lookup pending =
     find (\<lambda>u. list_ex (\<lambda>r. repoDependencyAcceptanceUnitID r = Some u \<and> unit_accepted lookup r) pending)
       (first_of_each (\<lambda>u. u) [] (List.map_filter repoDependencyAcceptanceUnitID pending))"

definition select_repo_at ::
  "(string \<Rightarrow> string \<Rightarrow> int) \<Rightarrow> 'g Stores \<Rightarrow> int \<Rightarrow> string option option result" where
  "select_repo_at collate w limit =
     (let pending = ListPendingDomainIntents collate DomainRepoDependency limit (st_Shared w) in
      if pending = [] then Inr (Some None)
      else
        (case NewAcceptedGenerationPrefetch (st_Shared w) pending of
           Inl e \<Rightarrow> Inl (Wrap ''prefetch accepted generations'' e)
         | Inr lookup \<Rightarrow>
             (case first_err (map pending_row_error pending) of
                Some e \<Rightarrow> Inl e
              | None \<Rightarrow>
                  (let sel = accepted_unit lookup pending
                   in Inr (if sel \<noteq> None \<or> int (length pending) < limit then Some sel else None)))))"

text \<open>Doublings of a positive limit that reach \<open>maxRepoDependencyAcceptanceScanLimit\<close>.\<close>

definition repo_fuel :: nat where "repo_fuel = 15"

definition repo_selectAcceptanceUnitWork ::
  "(string \<Rightarrow> string \<Rightarrow> int) \<Rightarrow> RepoDependencyConfig \<Rightarrow> 'g Stores \<Rightarrow> string option result option" where
  "repo_selectAcceptanceUnitWork collate c w =
     scan_loop repo_fuel maxRepoDependencyAcceptanceScanLimit
       (Msg ''repo dependency acceptance scan reached cap before locating accepted work'')
       (select_repo_at collate w) (repo_first_limit c)"

definition repo_rows_at :: "(string \<Rightarrow> string \<Rightarrow> int) \<Rightarrow> string \<Rightarrow> 'g Stores \<Rightarrow> int \<Rightarrow> IntentRow list option result" where
  "repo_rows_at collate unit w limit =
     (let rows = ListAcceptanceUnitDomainIntents collate unit DomainRepoDependency limit (st_Shared w)
      in Inr (if int (length rows) < limit then Some rows else None))"

definition repo_cap_error :: "string \<Rightarrow> error" where
  "repo_cap_error unit = Fmt ''repo dependency acceptance intent scan reached cap'' [unit]"

definition repo_loadAllAcceptanceUnitIntents ::
  "(string \<Rightarrow> string \<Rightarrow> int) \<Rightarrow> RepoDependencyConfig \<Rightarrow> string \<Rightarrow> 'g Stores \<Rightarrow> IntentRow list result option" where
  "repo_loadAllAcceptanceUnitIntents collate c unit w =
     scan_loop repo_fuel maxRepoDependencyAcceptanceScanLimit (repo_cap_error unit)
       (repo_rows_at collate unit w) (repo_first_limit c)"

section \<open>Retraction and writes\<close>

definition repo_retractRepo :: "'g EdgeWriter \<Rightarrow> IntentRow list \<Rightarrow> 'g \<Rightarrow> error option \<times> 'g" where
  "repo_retractRepo ew rows g =
     (let retracts = buildRepoDependencyRetractRows (uniqueRepositoryIDs rows) in
      if retracts = [] then (None, g)
      else retract_sources DomainRepoDependency ''retract repo dependency edges for '' ew retracts
             (repoDependencyEvidenceSources rows) g)"

definition retracted_rows :: "IntentRow list \<Rightarrow> nat" where
  "retracted_rows rows =
     length (buildRepoDependencyRetractRows (uniqueRepositoryIDs rows)) * length (repoDependencyEvidenceSources rows)"

definition repo_writeActiveRows :: "'g EdgeWriter \<Rightarrow> IntentRow list \<Rightarrow> 'g \<Rightarrow> error option \<times> 'g" where
  "repo_writeActiveRows ew rows =
     write_groups DomainRepoDependency ''write repo dependency edges for '' ew (groupRepoDependencyUpsertRows rows)"

definition repo_written_rows :: "IntentRow list \<Rightarrow> nat" where
  "repo_written_rows rows = sum_list (map (length \<circ> snd) (groupRepoDependencyUpsertRows rows))"

section \<open>One cycle\<close>

text \<open>
  A failed or refused heartbeat ends the context of the work (\<open>rc_Lost\<close>) and stops the heartbeats; \<open>rc_Ended\<close> is
  the context of the loop, in which the lease is released.
\<close>

record 'w repo_cycle =
  rc_World :: 'w
  rc_Ended :: bool
  rc_Lost :: bool

definition repo_claim :: "RepoDependencyConfig \<Rightarrow> time \<Rightarrow> 'g Stores \<Rightarrow> bool result \<times> 'g Stores" where
  "repo_claim c clock = lm_Claim (store_leases clock) DomainRepoDependency 0 1 (repo_leaseOwner c) (repo_leaseTTL c)"

fun repo_step :: "RepoDependencyConfig \<Rightarrow> 'g Stores lane_event \<Rightarrow> 'g Stores repo_cycle \<Rightarrow> 'g Stores repo_cycle" where
  "repo_step c (Lane_beat clock) l =
     (if rc_Ended l \<or> rc_Lost l then l
      else
        (case repo_claim c clock (rc_World l) of
           (Inr True, w) \<Rightarrow> l\<lparr>rc_World := w\<rparr>
         | (_, w) \<Rightarrow> l\<lparr>rc_World := w, rc_Lost := True\<rparr>))"
| "repo_step c Lane_ends l = l\<lparr>rc_Ended := True\<rparr>"
| "repo_step c (Lane_others f) l = l\<lparr>rc_World := f (rc_World l)\<rparr>"

definition repo_stage ::
  "RepoDependencyConfig \<Rightarrow> 'g Stores lane_event list \<Rightarrow> string \<Rightarrow> ('g Stores \<Rightarrow> 'a result \<times> 'g Stores)
   \<Rightarrow> 'g Stores repo_cycle \<Rightarrow> 'a result \<times> 'g Stores repo_cycle" where
  "repo_stage c events what op l =
     (let l1 = fold (repo_step c) events l in
      if rc_Ended l1 \<or> rc_Lost l1 then (Inl (Wrap what (Msg ''context canceled'')), l1)
      else (case op (rc_World l1) of (r, w) \<Rightarrow> (r, l1\<lparr>rc_World := w\<rparr>)))"

definition wrapping :: "string \<Rightarrow> ('w \<Rightarrow> error option \<times> 'w) \<Rightarrow> 'w \<Rightarrow> error option \<times> 'w" where
  "wrapping what f w = (case f w of (e, w') \<Rightarrow> (map_option (Wrap what) e, w'))"

text \<open>The rows of accepted generations: retraction where it is needed, writes, replays.\<close>

definition project_repo ::
  "RepoDependencyConfig \<Rightarrow> 'g EdgeWriter \<Rightarrow> 'g replayer option \<Rightarrow> 'g Stores lane_env \<Rightarrow> IntentRow list \<Rightarrow> IntentRow list
   \<Rightarrow> string list \<Rightarrow> PartitionProcessResult \<Rightarrow> 'g Stores repo_cycle
   \<Rightarrow> (PartitionProcessResult \<times> error option) \<times> 'g Stores repo_cycle" where
  "project_repo c ew replay env rows active staleIDs res l =
     (if active = [] then ((res, None), l)
      else
        (let retracts = repoDependencyNeedsRetract rows staleIDs in
         case (if \<not> retracts then (Inr (), l)
               else repo_stage c (env 3) ''retract repo dependency edges'' (acts (on_graph (repo_retractRepo ew active))) l) of
           (Inl e, l1) \<Rightarrow> ((res, Some e), l1)
         | (Inr _, l1) \<Rightarrow>
             (let res1 = (if retracts then res\<lparr>ppr_RetractedRows := retracted_rows active\<rparr> else res) in
              case (if groupRepoDependencyUpsertRows active = [] then (Inr (), l1)
                    else repo_stage c (env 4) ''write repo dependency edges'' (acts (on_graph (repo_writeActiveRows ew active))) l1) of
                (Inl e, l2) \<Rightarrow> ((res1, Some e), l2)
              | (Inr _, l2) \<Rightarrow>
                  (let res2 = res1\<lparr>ppr_UpsertedRows := repo_written_rows active\<rparr> in
                   case (case replay of
                           None \<Rightarrow> (Inr (), l2)
                         | Some f \<Rightarrow>
                             if repoDependencyReplayRequests active = [] then (Inr (), l2)
                             else repo_stage c (env 5) ''replay workload materialization after repo dependency projection''
                                    (acts (on_graph (wrapping ''replay workload materialization after repo dependency projection''
                                      (replayWorkloadMaterialization f active)))) l2) of
                     (Inl e, l3) \<Rightarrow> ((res2, Some e), l3)
                   | (Inr _, l3) \<Rightarrow> ((res2, None), l3)))))"

definition process_repo_rows ::
  "RepoDependencyConfig \<Rightarrow> 'g EdgeWriter \<Rightarrow> 'g replayer option \<Rightarrow> 'g Stores lane_env \<Rightarrow> time \<Rightarrow> IntentRow list
   \<Rightarrow> 'g Stores repo_cycle \<Rightarrow> (PartitionProcessResult \<times> error option) \<times> 'g Stores repo_cycle" where
  "process_repo_rows c ew replay env now rows l =
     (case repo_stage c (env 2) ''prefetch accepted generations'' (reads (\<lambda>w. NewAcceptedGenerationPrefetch (st_Shared w) rows)) l of
        (Inl e, l1) \<Rightarrow> ((no_work True, Some e), l1)
      | (Inr lookup, l1) \<Rightarrow>
          (case FilterAuthoritativeIntents rows lookup of (active, staleIDs) \<Rightarrow>
             let res = (no_work True)\<lparr>ppr_StaleIntents := length staleIDs\<rparr> in
             if active = [] \<and> staleIDs = [] then ((res, None), l1)
             else
               (case project_repo c ew replay env rows active staleIDs res l1 of
                  ((res1, Some e), l2) \<Rightarrow> ((res1, Some e), l2)
                | ((res1, None), l2) \<Rightarrow>
                    (let ids = staleIDs @ map si_IntentID active in
                     case repo_stage c (env 6) ''mark repo dependency intents completed''
                            (acts (wrapping ''mark repo dependency intents completed'' (store_mark ids now))) l2 of
                       (Inl e, l3) \<Rightarrow> ((res1, Some e), l3)
                     | (Inr _, l3) \<Rightarrow> ((res1\<lparr>ppr_ProcessedIntents := length ids\<rparr>, None), l3)))))"

definition repo_cycle_work ::
  "(string \<Rightarrow> string \<Rightarrow> int) \<Rightarrow> RepoDependencyConfig \<Rightarrow> 'g EdgeWriter \<Rightarrow> 'g replayer option \<Rightarrow> 'g Stores lane_env \<Rightarrow> time
   \<Rightarrow> 'g Stores repo_cycle \<Rightarrow> ((PartitionProcessResult \<times> error option) \<times> 'g Stores repo_cycle) option" where
  "repo_cycle_work collate c ew replay env now l =
     (case repo_stage c (env 0) ''list pending repo dependency intents''
             (reads (\<lambda>w. fueled (repo_selectAcceptanceUnitWork collate c w))) l of
        (Inl e, l1) \<Rightarrow> Some ((no_work True, Some e), l1)
      | (Inr None, l1) \<Rightarrow> None
      | (Inr (Some None), l1) \<Rightarrow> Some ((no_work True, None), l1)
      | (Inr (Some (Some unit)), l1) \<Rightarrow>
          (case repo_stage c (env 1) ''list repo dependency acceptance intents''
                  (reads (\<lambda>w. fueled (repo_loadAllAcceptanceUnitIntents collate c unit w))) l1 of
             (Inl e, l2) \<Rightarrow> Some ((no_work True, Some e), l2)
           | (Inr None, l2) \<Rightarrow> None
           | (Inr (Some rows), l2) \<Rightarrow> Some (process_repo_rows c ew replay env now rows l2)))"

definition repo_release :: "RepoDependencyConfig \<Rightarrow> time \<Rightarrow> bool \<Rightarrow> 'g Stores \<Rightarrow> error option \<times> 'g Stores" where
  "repo_release c clock ended w =
     (if ended then (Some (Wrap ''release partition lease'' (Msg ''context canceled'')), w)
      else lm_Release (store_leases clock) DomainRepoDependency 0 1 (repo_leaseOwner c) w)"

definition repo_processOnce ::
  "(string \<Rightarrow> string \<Rightarrow> int) \<Rightarrow> RepoDependencyConfig \<Rightarrow> 'g EdgeWriter \<Rightarrow> 'g replayer option \<Rightarrow> 'g Stores lane_env
   \<Rightarrow> time \<Rightarrow> time \<Rightarrow> 'g Stores \<Rightarrow> ((PartitionProcessResult \<times> error option) \<times> 'g Stores) option" where
  "repo_processOnce collate c ew replay env clock now w =
     (case repo_claim c clock w of
        (Inl e, w1) \<Rightarrow> Some ((no_work False, Some (Wrap ''claim repo dependency lease'' e)), w1)
      | (Inr False, w1) \<Rightarrow> Some ((no_work False, None), w1)
      | (Inr True, w1) \<Rightarrow>
          (case repo_cycle_work collate c ew replay env now \<lparr>rc_World = w1, rc_Ended = False, rc_Lost = False\<rparr> of
             None \<Rightarrow> None
           | Some (out, l) \<Rightarrow>
               (let l1 = fold (repo_step c) (env 7) l
                in Some (out, snd (repo_release c now (rc_Ended l1) (rc_World l1))))))"

text \<open>What the loop does after a cycle: how long it waits and its count of consecutive empty or failed cycles.\<close>

definition repo_after_cycle :: "RepoDependencyConfig \<Rightarrow> PartitionProcessResult \<Rightarrow> error option \<Rightarrow> nat \<Rightarrow> duration option \<times> nat" where
  "repo_after_cycle c res err empties =
     (if err = None \<and> 0 < ppr_ProcessedIntents res then (None, 0)
      else (Some (repoDependencyPollBackoff (repo_pollInterval c) (Suc empties)), Suc empties))"

section \<open>What a cycle does\<close>

definition repo_rows :: "string \<Rightarrow> SharedDb \<Rightarrow> IntentRow list" where
  "repo_rows unit db = filter (\<lambda>r. si_AcceptanceUnitID r = unit \<and> si_ProjectionDomain r = DomainRepoDependency) (sd_Intents db)"

lemma repo_loaded_whole:
  assumes "repo_loadAllAcceptanceUnitIntents collate c unit w = Some (Inr rows)"
  shows "rows = sort_by (cmp_listed collate) (repo_rows unit (st_Shared w))"
proof -
  from scan_loop_found [OF assms [unfolded repo_loadAllAcceptanceUnitIntents_def]] obtain n where
    n: "repo_rows_at collate unit w n = Inr (Some rows)" by blast
  then have rows: "rows = ListAcceptanceUnitDomainIntents collate unit DomainRepoDependency n (st_Shared w)" "int (length rows) < n"
    by (auto simp: repo_rows_at_def Let_def split: if_splits)
  then have "rows = take (nat n) (sort_by (cmp_listed collate) (repo_rows unit (st_Shared w)))"
    by (auto simp: ListAcceptanceUnitDomainIntents_def list_rows_def repo_rows_def)
  with rows(2) show ?thesis by simp
qed

lemma repo_stage_quiet:
  "repo_stage c [] what op \<lparr>rc_World = w, rc_Ended = False, rc_Lost = False\<rparr>
   = (case op w of (r, w') \<Rightarrow> (r, \<lparr>rc_World = w', rc_Ended = False, rc_Lost = False\<rparr>))"
  by (auto simp: repo_stage_def Let_def split: prod.split)

lemma wrapping_None: "wrapping what f w = (None, w') \<longleftrightarrow> f w = (None, w')"
  by (auto simp: wrapping_def split: prod.splits)

text \<open>The graph when the rows of a unit have been written.\<close>

definition repo_written ::
  "'g EdgeWriter \<Rightarrow> 'g replayer option \<Rightarrow> IntentRow list \<Rightarrow> IntentRow list \<Rightarrow> string list \<Rightarrow> 'g \<Rightarrow> 'g \<Rightarrow> bool" where
  "repo_written ew replay rows active staleIDs g g' \<longleftrightarrow>
     (if active = [] then g' = g
      else \<exists>g1 g2. (if repoDependencyNeedsRetract rows staleIDs then repo_retractRepo ew active g = (None, g1) else g1 = g)
        \<and> repo_writeActiveRows ew active g1 = (None, g2)
        \<and> (case replay of None \<Rightarrow> g' = g2 | Some f \<Rightarrow> replayWorkloadMaterialization f active g2 = (None, g')))"

lemma repo_graph_stage:
  assumes "(if skip then (Inr (), \<lparr>rc_World = w, rc_Ended = False, rc_Lost = False\<rparr>)
      else repo_stage c [] what (acts (on_graph f)) \<lparr>rc_World = w, rc_Ended = False, rc_Lost = False\<rparr>) = (Inr x, l)"
  shows "\<exists>g. l = \<lparr>rc_World = w\<lparr>st_Graph := g\<rparr>, rc_Ended = False, rc_Lost = False\<rparr>
    \<and> (if skip then g = st_Graph w else f (st_Graph w) = (None, g))"
proof (cases skip)
  case True
  with assms show ?thesis by (auto intro!: exI [of _ "st_Graph w"])
next
  case False
  with assms show ?thesis by (auto simp: repo_stage_quiet acts_graph split: prod.splits)
qed

lemma project_repo_quiet:
  assumes run: "project_repo c ew replay (\<lambda>_. []) rows active staleIDs res \<lparr>rc_World = w, rc_Ended = False, rc_Lost = False\<rparr> = ((res1, None), l)"
  shows "\<exists>g. l = \<lparr>rc_World = w\<lparr>st_Graph := g\<rparr>, rc_Ended = False, rc_Lost = False\<rparr>
    \<and> repo_written ew replay rows active staleIDs (st_Graph w) g"
proof (cases "active = []")
  case True
  with run show ?thesis by (auto simp: project_repo_def repo_written_def intro!: exI [of _ "st_Graph w"])
next
  case False
  let ?l = "\<lambda>w. \<lparr>rc_World = w, rc_Ended = False, rc_Lost = False\<rparr>"
  let ?needs = "repoDependencyNeedsRetract rows staleIDs"
  let ?replay_text = "''replay workload materialization after repo dependency projection''"
  from run False obtain x l1 where r: "(if \<not> ?needs then (Inr (), ?l w)
      else repo_stage c [] ''retract repo dependency edges'' (acts (on_graph (repo_retractRepo ew active))) (?l w)) = (Inr x, l1)"
    by (auto simp: project_repo_def Let_def split: sum.splits prod.splits)
  from repo_graph_stage [OF r] obtain g1 where l1: "l1 = ?l (w\<lparr>st_Graph := g1\<rparr>)"
    and g1: "if \<not> ?needs then g1 = st_Graph w else repo_retractRepo ew active (st_Graph w) = (None, g1)" by blast
  from run False r obtain y l2 where u: "(if groupRepoDependencyUpsertRows active = [] then (Inr (), l1)
      else repo_stage c [] ''write repo dependency edges'' (acts (on_graph (repo_writeActiveRows ew active))) l1) = (Inr y, l2)"
    by (auto simp: project_repo_def Let_def split: sum.splits prod.splits)
  from repo_graph_stage [OF u [unfolded l1]] obtain g2 where l2: "l2 = ?l (w\<lparr>st_Graph := g2\<rparr>)"
    and g2: "repo_writeActiveRows ew active g1 = (None, g2)"
    by (auto simp: repo_writeActiveRows_def split: if_splits)
  let ?last = "case replay of None \<Rightarrow> (Inr (), l2)
      | Some f \<Rightarrow> if repoDependencyReplayRequests active = [] then (Inr (), l2)
          else repo_stage c [] ?replay_text (acts (on_graph (wrapping ?replay_text (replayWorkloadMaterialization f active)))) l2"
  from run False r u obtain z where v: "?last = (Inr z, l)"
    by (auto simp: project_repo_def Let_def split: sum.splits prod.splits)
  have "\<exists>g. l = ?l (w\<lparr>st_Graph := g\<rparr>) \<and> (case replay of None \<Rightarrow> g = g2 | Some f \<Rightarrow> replayWorkloadMaterialization f active g2 = (None, g))"
  proof (cases replay)
    case None
    with v l2 show ?thesis by auto
  next
    case (Some f)
    from v [unfolded Some option.case l2, THEN repo_graph_stage] Some show ?thesis
      by (auto simp: wrapping_None replayWorkloadMaterialization_def split: if_splits)
  qed
  then obtain g where l: "l = ?l (w\<lparr>st_Graph := g\<rparr>)"
    and g: "case replay of None \<Rightarrow> g = g2 | Some f \<Rightarrow> replayWorkloadMaterialization f active g2 = (None, g)" by blast
  from g1 have "if ?needs then repo_retractRepo ew active (st_Graph w) = (None, g1) else g1 = st_Graph w" by simp
  with g2 g False have "repo_written ew replay rows active staleIDs (st_Graph w) g" unfolding repo_written_def by auto
  with l show ?thesis by blast
qed

text \<open>The intents of a unit whose generation is the accepted one of their own run, and those overtaken by another.\<close>

definition accepted_rows :: "string \<Rightarrow> SharedDb \<Rightarrow> IntentRow set" where
  "accepted_rows unit db = {r \<in> set (repo_rows unit db). is_current (NewAcceptedGenerationLookup db) r}"

definition overtaken_rows :: "string \<Rightarrow> SharedDb \<Rightarrow> IntentRow set" where
  "overtaken_rows unit db = {r \<in> set (repo_rows unit db). is_stale (NewAcceptedGenerationLookup db) r}"

definition repo_projected ::
  "'g EdgeWriter \<Rightarrow> 'g replayer option \<Rightarrow> time \<Rightarrow> string \<Rightarrow> IntentRow list \<Rightarrow> IntentRow list \<Rightarrow> string list \<Rightarrow> 'g Stores \<Rightarrow> 'g Stores \<Rightarrow> bool" where
  "repo_projected ew replay now unit rows active staleIDs w w' \<longleftrightarrow>
     set rows = set (repo_rows unit (st_Shared w)) \<and> set active = accepted_rows unit (st_Shared w)
     \<and> set staleIDs = si_IntentID ` overtaken_rows unit (st_Shared w)
     \<and> sd_Intents (st_Shared w') =
         complete (si_IntentID ` (accepted_rows unit (st_Shared w) \<union> overtaken_rows unit (st_Shared w))) now (sd_Intents (st_Shared w))
     \<and> repo_written ew replay rows active staleIDs (st_Graph w) (st_Graph w')"

lemma process_repo_quiet:
  assumes run: "process_repo_rows c ew replay (\<lambda>_. []) now rows \<lparr>rc_World = w, rc_Ended = False, rc_Lost = False\<rparr> = ((res, None), l)"
    and n: "0 < ppr_ProcessedIntents res" and rows: "set rows = set (repo_rows unit (st_Shared w))"
  shows "\<exists>active staleIDs. \<not> rc_Ended l \<and> repo_projected ew replay now unit rows active staleIDs w (rc_World l)"
proof -
  let ?l = "\<lambda>w. \<lparr>rc_World = w, rc_Ended = False, rc_Lost = False\<rparr>"
  let ?accepted = "NewAcceptedGenerationLookup (st_Shared w)"
  let ?active = "filter (is_current ?accepted) rows" and ?stale = "map si_IntentID (filter (is_stale ?accepted) rows)"
  from run n obtain lookup where p: "NewAcceptedGenerationPrefetch (st_Shared w) rows = Inr lookup"
    by (auto simp: process_repo_rows_def repo_stage_quiet reads_def no_work_def split: sum.splits)
  have f: "FilterAuthoritativeIntents rows lookup = (?active, ?stale)"
    by (simp add: filter_authoritative current_prefetch [OF p])
  from run n p f obtain res2 res0 l2 where u: "project_repo c ew replay (\<lambda>_. []) rows ?active ?stale res0 (?l w) = ((res2, None), l2)"
    and m: "repo_stage c [] ''mark repo dependency intents completed''
      (acts (wrapping ''mark repo dependency intents completed'' (store_mark (?stale @ map si_IntentID ?active) now))) l2 = (Inr (), l)"
    by (auto simp: process_repo_rows_def repo_stage_quiet reads_def Let_def no_work_def split: sum.splits prod.splits option.splits if_splits)
  from project_repo_quiet [OF u] obtain graph where l2: "l2 = ?l (w\<lparr>st_Graph := graph\<rparr>)"
    and written: "repo_written ew replay rows ?active ?stale (st_Graph w) graph" by blast
  from m have l: "l = ?l (w\<lparr>st_Graph := graph, st_Shared := (st_Shared w)\<lparr>sd_Intents :=
      complete (set (?stale @ map si_IntentID ?active)) now (sd_Intents (st_Shared w))\<rparr>\<rparr>)"
    by (simp add: l2 repo_stage_quiet acts_def wrapping_def store_mark_def on_shared_def MarkIntentsCompleted_eq)
  have sets: "set ?active = accepted_rows unit (st_Shared w)" "set ?stale = si_IntentID ` overtaken_rows unit (st_Shared w)"
    by (auto simp: accepted_rows_def overtaken_rows_def rows)
  then have "set (?stale @ map si_IntentID ?active) = si_IntentID ` (accepted_rows unit (st_Shared w) \<union> overtaken_rows unit (st_Shared w))"
    by (simp only: set_append set_map image_Un Un_commute)
  with written sets rows have "repo_projected ew replay now unit rows ?active ?stale w (rc_World l)"
    unfolding repo_projected_def l by simp
  with l show ?thesis by auto
qed

lemma repo_claim_keeps:
  assumes "repo_claim c clock w = (r, w1)"
  shows "\<exists>ls. w1 = w\<lparr>st_Shared := (st_Shared w)\<lparr>sd_Leases := ls\<rparr>\<rparr>"
proof -
  let ?claim = "ClaimPartitionLease clock DomainRepoDependency 0 1 (repo_leaseOwner c) (repo_leaseTTL c)"
  have "snd (?claim db) = db\<lparr>sd_Leases := sd_Leases (snd (?claim db))\<rparr>" for db
    by (simp add: ClaimPartitionLease_def Let_def split: option.split)
  then obtain ls where "snd (?claim (st_Shared w)) = (st_Shared w)\<lparr>sd_Leases := ls\<rparr>" by blast
  with assms show ?thesis
    by (auto simp: repo_claim_def store_leases_def on_shared_def split: prod.splits)
qed

lemma repo_release_keeps:
  "\<exists>ls. snd (repo_release c clock ended w) = w\<lparr>st_Shared := (st_Shared w)\<lparr>sd_Leases := ls\<rparr>\<rparr>"
proof (cases ended)
  case True
  then show ?thesis by (auto simp: repo_release_def intro!: exI [of _ "sd_Leases (st_Shared w)"])
next
  case False
  then show ?thesis
    by (auto simp: repo_release_def store_leases_def on_shared_def ReleasePartitionLease_def integer_fits_def)
qed

lemma repo_leases_irrelevant [simp]:
  "repo_rows unit (db\<lparr>sd_Leases := ls\<rparr>) = repo_rows unit db"
  "accepted_rows unit (db\<lparr>sd_Leases := ls\<rparr>) = accepted_rows unit db"
  "overtaken_rows unit (db\<lparr>sd_Leases := ls\<rparr>) = overtaken_rows unit db"
  by (simp_all add: repo_rows_def accepted_rows_def overtaken_rows_def)

lemma quiet_cycle_projects:
  assumes run: "repo_processOnce collate c ew replay (\<lambda>_. []) clock now w = Some ((res, None), w')"
    and n: "0 < ppr_ProcessedIntents res"
  shows "\<exists>unit rows active staleIDs. repo_projected ew replay now unit rows active staleIDs w w'"
proof -
  let ?l = "\<lambda>w. \<lparr>rc_World = w, rc_Ended = False, rc_Lost = False\<rparr>"
  obtain ok w1 where cl: "repo_claim c clock w = (ok, w1)" by (cases "repo_claim c clock w")
  from run n cl have ok: "ok = Inr True" by (auto simp: repo_processOnce_def no_work_def split: sum.splits bool.splits)
  from repo_claim_keeps [OF cl] obtain ls where w1: "w1 = w\<lparr>st_Shared := (st_Shared w)\<lparr>sd_Leases := ls\<rparr>\<rparr>" by blast
  from run n cl ok obtain l where work: "repo_cycle_work collate c ew replay (\<lambda>_. []) now (?l w1) = Some ((res, None), l)"
    and w': "w' = snd (repo_release c now (rc_Ended l) (rc_World l))"
    by (auto simp: repo_processOnce_def Let_def split: option.splits prod.splits)
  note defs = repo_cycle_work_def repo_stage_quiet reads_def fueled_def
  from work n obtain unit where s: "repo_selectAcceptanceUnitWork collate c w1 = Some (Inr (Some unit))"
    by (auto simp: defs no_work_def split: option.splits sum.splits)
  from work s obtain rows where load: "repo_loadAllAcceptanceUnitIntents collate c unit w1 = Some (Inr rows)"
    by (auto simp: defs split: option.splits sum.splits)
  from work s load have unit: "process_repo_rows c ew replay (\<lambda>_. []) now rows (?l w1) = ((res, None), l)"
    by (simp add: defs)
  have "set rows = set (repo_rows unit (st_Shared w1))" using repo_loaded_whole [OF load] by simp
  from process_repo_quiet [OF unit n this]
  obtain active staleIDs where "repo_projected ew replay now unit rows active staleIDs w1 (rc_World l)" by blast
  moreover obtain ls' where "w' = (rc_World l)\<lparr>st_Shared := (st_Shared (rc_World l))\<lparr>sd_Leases := ls'\<rparr>\<rparr>"
    using repo_release_keeps [of c now "rc_Ended l" "rc_World l"] w' by auto
  ultimately have "repo_projected ew replay now unit rows active staleIDs w w'"
    unfolding w1 by (simp add: repo_projected_def)
  then show ?thesis by blast
qed

section \<open>The dependencies of a repository are replaced\<close>

definition dependency_edge :: "IntentRow \<Rightarrow> string \<times> string \<times> SharedProjection.payload" where
  "dependency_edge r = (repoDependencyRowEvidenceSource r, si_RepositoryID r, si_Payload r)"

lemma set_unique_repositories: "set (uniqueRepositoryIDs rows) = (trim_space \<circ> si_RepositoryID) ` set rows - {[]}"
  using set_map_first_of_each [of "\<lambda>x. x" "[]" "filter (\<lambda>x. x \<noteq> []) (map (\<lambda>r. trim_space (si_RepositoryID r)) rows)"]
  by (auto simp: uniqueRepositoryIDs_def)

lemma set_evidence_sources: "set (repoDependencyEvidenceSources rows) = repoDependencyRowEvidenceSource ` set rows"
  using set_map_first_of_each [of "\<lambda>x. x" "[]" "map repoDependencyRowEvidenceSource rows"]
  by (simp add: repoDependencyEvidenceSources_def)

lemma replay_all_keeps:
  assumes "replay_all f requests g = (None, g')" and "\<And>s x e g r g'. f s x e g = (r, g') \<Longrightarrow> edges g' = edges g"
  shows "edges g' = edges g"
  using assms(1)
proof (induction requests arbitrary: g)
  case (Cons q requests)
  obtain s x e where q: "q = (s, x, e)" by (cases q)
  with Cons.prems obtain r g1 where "f s x e g = (r, g1)" "replay_all f requests g1 = (None, g')"
    by (auto split: prod.splits sum.splits)
  with Cons.IH assms(2) show ?case by metis
qed simp

lemma repo_retracts:
  assumes "repo_retractRepo ew active g = (None, g')"
    and "\<And>rows source g g'. ew_Retract ew DomainRepoDependency rows source g = (None, g')
      \<Longrightarrow> edges g' = {e \<in> edges g. \<not> (fst e = source \<and> fst (snd e) \<in> set (map si_RepositoryID rows))}"
  shows "edges g' = {e \<in> edges g. \<not> (fst e \<in> repoDependencyRowEvidenceSource ` set active
    \<and> fst (snd e) \<in> (trim_space \<circ> si_RepositoryID) ` set active - {[]})}"
proof -
  have same: "buildRepoDependencyRetractRows ids = buildCodeCallRetractRows ids" for ids
    by (simp add: buildRepoDependencyRetractRows_def buildCodeCallRetractRows_def)
  let ?retracts = "buildCodeCallRetractRows (uniqueRepositoryIDs active)"
  show ?thesis
  proof (cases "?retracts = []")
    case True
    then have "set (uniqueRepositoryIDs active) = {}" using retracted_ids [of active] by (metis list.map_disc_iff list.set(1))
    moreover from assms(1) True have "g' = g" by (simp add: repo_retractRepo_def same)
    ultimately show ?thesis by (simp only: set_unique_repositories empty_iff simp_thms Collect_mem_eq)
  next
    case False
    with assms(1) have "retract_sources DomainRepoDependency ''retract repo dependency edges for '' ew ?retracts
      (repoDependencyEvidenceSources active) g = (None, g')" by (simp add: repo_retractRepo_def same)
    from retract_sources_edges [where edges = edges, OF this assms(2)] show ?thesis
      unfolding retracted_ids set_unique_repositories set_evidence_sources by simp
  qed
qed


section \<open>A unit that has grown too large\<close>

lemma scan_loop_capped:
  assumes "\<And>n. n \<le> cap \<Longrightarrow> scan n = Inr None" and "0 < limit" and "limit \<le> cap" and "cap \<le> 2 ^ 62" and "cap \<le> limit * 2 ^ fuel"
  shows "scan_loop (Suc fuel) cap cap_error scan limit = Some (Inl cap_error)"
  using assms(2-)
proof (induction fuel arbitrary: limit)
  case 0
  with assms(1) show ?case by simp
next
  case (Suc fuel)
  show ?case
  proof (cases "cap \<le> limit")
    case True
    with Suc.prems assms(1) show ?thesis by simp
  next
    case False
    then have "wrap64 (limit * 2) = limit * 2" using Suc.prems(1,3) by (intro wrap64_id) auto
    then have w: "wider cap limit = min cap (limit * 2)" by (auto simp: wider_def Let_def)
    have "scan_loop (Suc fuel) cap cap_error scan (wider cap limit) = Some (Inl cap_error)"
    proof (rule Suc.IH)
      show "0 < wider cap limit" using w False Suc.prems(1) by simp
      show "wider cap limit \<le> cap" using w by simp
      show "cap \<le> wider cap limit * 2 ^ fuel"
      proof (cases "cap \<le> limit * 2")
        case True
        have "cap * 1 \<le> cap * 2 ^ fuel" using False Suc.prems(1) by (intro mult_left_mono) auto
        with True w show ?thesis by simp
      next
        case False
        with w Suc.prems(4) show ?thesis by (simp add: mult.assoc)
      qed
    qed (rule Suc.prems(3))
    moreover have "scan limit = Inr None" using assms(1) Suc.prems(2) .
    ultimately show ?thesis using False by (subst scan_loop.simps) simp
  qed
qed

lemma repo_first_limit_bounds: "0 < repo_first_limit c" "repo_first_limit c \<le> 10000" "10000 \<le> repo_first_limit c * 2 ^ 14"
  by (auto simp: repo_first_limit_def repo_batchLimit_def maxRepoDependencyAcceptanceScanLimit_def defaultBatchLimit_def)

lemma full_unit_refused:
  assumes "10000 \<le> length (repo_rows unit (st_Shared w))"
  shows "repo_loadAllAcceptanceUnitIntents collate c unit w = Some (Inl (repo_cap_error unit))"
proof -
  have "repo_rows_at collate unit w n = Inr None" if "n \<le> 10000" for n
  proof -
    have "length (ListAcceptanceUnitDomainIntents collate unit DomainRepoDependency n (st_Shared w)) = nat (max n 1)"
      using assms that by (simp add: ListAcceptanceUnitDomainIntents_def list_rows_def repo_rows_def [symmetric])
    then show ?thesis by (auto simp: repo_rows_at_def Let_def)
  qed
  then have "scan_loop (Suc 14) 10000 (repo_cap_error unit) (repo_rows_at collate unit w) (repo_first_limit c)
      = Some (Inl (repo_cap_error unit))"
    by (intro scan_loop_capped) (use repo_first_limit_bounds [of c] in simp_all)
  then show ?thesis
    by (simp add: repo_loadAllAcceptanceUnitIntents_def repo_fuel_def maxRepoDependencyAcceptanceScanLimit_def)
qed

lemma accepted_by_key_leases: "accepted_by_key (db\<lparr>sd_Leases := ls\<rparr>) rows m = accepted_by_key db rows m"
  by (induction db rows m rule: accepted_by_key.induct) (simp_all add: Acceptance_Lookup_def split: option.split)

lemma prefetch_leases: "NewAcceptedGenerationPrefetch (db\<lparr>sd_Leases := ls\<rparr>) rows = NewAcceptedGenerationPrefetch db rows"
  by (simp add: NewAcceptedGenerationPrefetch_def accepted_by_key_leases)

lemma select_leases:
  "repo_selectAcceptanceUnitWork collate c (w\<lparr>st_Shared := (st_Shared w)\<lparr>sd_Leases := ls\<rparr>\<rparr>)
   = repo_selectAcceptanceUnitWork collate c w"
proof -
  have "select_repo_at collate (w\<lparr>st_Shared := (st_Shared w)\<lparr>sd_Leases := ls\<rparr>\<rparr>) = select_repo_at collate w"
    by (simp add: fun_eq_iff select_repo_at_def ListPendingDomainIntents_def list_rows_def prefetch_leases Let_def)
  then show ?thesis by (simp add: repo_selectAcceptanceUnitWork_def)
qed

text \<open>
  Completed intents count as well, and nothing deletes them: a unit that has come to ten thousand intents and is
  selected fails its cycle, which changes nothing but the lease, so it is selected again, and no other
  repository is projected any more.
\<close>

theorem grown_unit_blocks_lane:
  assumes claimed: "repo_claim c clock w = (Inr True, w1)"
    and selected: "repo_selectAcceptanceUnitWork collate c w = Some (Inr (Some unit))"
    and grown: "10000 \<le> length (repo_rows unit (st_Shared w))"
  shows "\<exists>ls. repo_processOnce collate c ew replay (\<lambda>_. []) clock now w
    = Some ((no_work True, Some (repo_cap_error unit)), w\<lparr>st_Shared := (st_Shared w)\<lparr>sd_Leases := ls\<rparr>\<rparr>)
    \<and> repo_selectAcceptanceUnitWork collate c (w\<lparr>st_Shared := (st_Shared w)\<lparr>sd_Leases := ls\<rparr>\<rparr>) = Some (Inr (Some unit))"
proof -
  from repo_claim_keeps [OF claimed] obtain ls where w1: "w1 = w\<lparr>st_Shared := (st_Shared w)\<lparr>sd_Leases := ls\<rparr>\<rparr>" by blast
  have "repo_selectAcceptanceUnitWork collate c w1 = Some (Inr (Some unit))" unfolding w1 select_leases by (rule selected)
  moreover have "repo_loadAllAcceptanceUnitIntents collate c unit w1 = Some (Inl (repo_cap_error unit))"
    by (rule full_unit_refused) (simp add: w1 grown)
  ultimately have "repo_cycle_work collate c ew replay (\<lambda>_. []) now \<lparr>rc_World = w1, rc_Ended = False, rc_Lost = False\<rparr>
      = Some ((no_work True, Some (repo_cap_error unit)), \<lparr>rc_World = w1, rc_Ended = False, rc_Lost = False\<rparr>)"
    by (simp add: repo_cycle_work_def repo_stage_quiet reads_def fueled_def)
  then have run: "repo_processOnce collate c ew replay (\<lambda>_. []) clock now w
      = Some ((no_work True, Some (repo_cap_error unit)), snd (repo_release c now False w1))"
    by (simp add: repo_processOnce_def claimed)
  obtain ls' where "snd (repo_release c now False w1) = w1\<lparr>st_Shared := (st_Shared w1)\<lparr>sd_Leases := ls'\<rparr>\<rparr>"
    using repo_release_keeps [of c now False w1] by blast
  with run selected show ?thesis by (auto simp: w1 select_leases)
qed

text \<open>Every cycle returns, whatever happens during it.\<close>

theorem repo_cycle_returns: "repo_processOnce collate c ew replay env clock now w \<noteq> None"
proof -
  have fuel: "repo_fuel = Suc 14" by (simp add: repo_fuel_def)
  have s: "repo_selectAcceptanceUnitWork collate c v \<noteq> None" and l: "repo_loadAllAcceptanceUnitIntents collate c u v \<noteq> None" for u v
    unfolding repo_selectAcceptanceUnitWork_def repo_loadAllAcceptanceUnitIntents_def fuel
    by (rule scan_loop_returns; use repo_first_limit_bounds [of c] in \<open>simp add: maxRepoDependencyAcceptanceScanLimit_def\<close>)+
  have st: "fst (repo_stage c events what (reads h) v) \<noteq> Inr None" if "\<And>u. h u \<noteq> Inr None"
    for events what v and h :: "'g Stores \<Rightarrow> 'y option result"
    using that by (auto simp: repo_stage_def reads_def Let_def)
  have sel: "repo_stage c (env 0) x (reads (\<lambda>w. fueled (repo_selectAcceptanceUnitWork collate c w))) v \<noteq> (Inr None, u)" for x v u
    using st [of "\<lambda>w. fueled (repo_selectAcceptanceUnitWork collate c w)" "env 0" x v] s by (metis fst_conv fueled_None)
  have load: "repo_stage c (env 1) x (reads (\<lambda>w. fueled (repo_loadAllAcceptanceUnitIntents collate c unit w))) v \<noteq> (Inr None, u)" for x v u unit
    using st [of "\<lambda>w. fueled (repo_loadAllAcceptanceUnitIntents collate c unit w)" "env 1" x v] l by (metis fst_conv fueled_None)
  have "repo_cycle_work collate c ew replay env now v \<noteq> None" for v
    using sel load by (auto simp: repo_cycle_work_def simp del: not_None_eq split: prod.splits sum.splits option.splits)
  then show ?thesis by (auto simp: repo_processOnce_def Let_def simp del: not_None_eq split: prod.splits sum.splits bool.splits option.splits)
qed

section \<open>A lane at work\<close>

definition dependency_row :: "string \<Rightarrow> string \<Rightarrow> string \<Rightarrow> time option \<Rightarrow> IntentRow" where
  "dependency_row intentID gen target completed =
     \<lparr>si_IntentID = intentID, si_ProjectionDomain = DomainRepoDependency, si_PartitionKey = target, si_ScopeID = ''s'',
      si_AcceptanceUnitID = ''u'', si_RepositoryID = ''u'', si_SourceRunID = ''n'', si_GenerationID = gen,
      si_Payload = Some [(''repo_id'', StrValue ''u''), (''target_repo_id'', StrValue target)],
      si_CreatedAt = 5, si_CompletedAt = completed\<rparr>"

definition dependency_stores :: "((string \<times> string \<times> SharedProjection.payload) list) Stores" where
  "dependency_stores =
     \<lparr>st_Shared = \<lparr>sd_Scopes = [''s''], sd_Generations = [''b''],
        sd_Intents = [dependency_row ''0'' ''a'' ''g'' (Some 6), dependency_row ''1'' ''b'' ''h'' None],
        sd_Leases = [],
        sd_Acceptance = [\<lparr>ar_ScopeID = ''s'', ar_AcceptanceUnitID = ''u'', ar_SourceRunID = ''n'', ar_GenerationID = ''b'',
          ar_AcceptedAt = 7, ar_UpdatedAt = 7\<rparr>]\<rparr>,
      st_Phases = \<lparr>db_Scopes = [''s''], db_Generations = [''b''], db_States = [], db_Repairs = []\<rparr>,
      st_Graph = [dependency_edge (dependency_row ''0'' ''a'' ''g'' (Some 6))]\<rparr>"

definition dependency_config :: RepoDependencyConfig where
  "dependency_config = \<lparr>rdc_LeaseOwner = [], rdc_PollInterval = 0, rdc_LeaseTTL = 0, rdc_BatchLimit = 3\<rparr>"

definition dependency_run ::
  "(PartitionProcessResult \<times> error option) \<times> ((string \<times> string \<times> SharedProjection.payload) list) Stores" where
  "dependency_run =
     the (repo_processOnce compare dependency_config listed_graph (Some (\<lambda>s x e g. (Inr True, g))) (\<lambda>_. []) 9 10 dependency_stores)"

lemma dependency_run_values:
  "repo_processOnce compare dependency_config listed_graph (Some (\<lambda>s x e g. (Inr True, g))) (\<lambda>_. []) 9 10 dependency_stores
    = Some ((fst (fst dependency_run), None), snd dependency_run)"
  "ppr_ProcessedIntents (fst (fst dependency_run)) = 2"
  "st_Graph (snd dependency_run) = [dependency_edge (dependency_row ''1'' ''b'' ''h'' None)]"
proof -
  have "repo_processOnce compare dependency_config listed_graph (Some (\<lambda>s x e g. (Inr True, g))) (\<lambda>_. []) 9 10 dependency_stores \<noteq> None"
    by code_simp
  then have "repo_processOnce compare dependency_config listed_graph (Some (\<lambda>s x e g. (Inr True, g))) (\<lambda>_. []) 9 10 dependency_stores
      = Some dependency_run" by (auto simp: dependency_run_def)
  moreover have "snd (fst dependency_run) = None" by code_simp
  ultimately show "repo_processOnce compare dependency_config listed_graph (Some (\<lambda>s x e g. (Inr True, g))) (\<lambda>_. []) 9 10 dependency_stores
      = Some ((fst (fst dependency_run), None), snd dependency_run)" by (metis prod.collapse)
qed code_simp+


end
