(* ===== verification/ReducerConfig.thy ===== *)
theory ReducerConfig
  imports RepoDependencyRunner RepairRunner ReducerService
begin

text \<open>
  \<open>go/cmd/reducer/config.go\<close> and what it calls of \<open>go/internal/runtime\<close> and \<open>go/internal/query\<close>: the settings the reducer
  process reads from its environment, the queue it builds of them, and that what is loaded is fit for use whatever
  the environment holds. \<open>cpus\<close> is \<open>runtime.NumCPU()\<close>.
\<close>

section \<open>Values of the environment\<close>

definition loadStringOrDefault :: "(string \<Rightarrow> string) \<Rightarrow> string \<Rightarrow> string \<Rightarrow> string" where
  "loadStringOrDefault getenv key fallback = (let raw = trim_space (getenv key) in if raw = [] then fallback else raw)"

definition loadDurationOrDefault :: "(string \<Rightarrow> string) \<Rightarrow> string \<Rightarrow> duration \<Rightarrow> duration" where
  "loadDurationOrDefault getenv key fallback =
     (let raw = trim_space (getenv key) in if raw = [] then fallback else positive_or fallback (ParseDuration raw))"

definition loadPositiveIntOrDefault :: "(string \<Rightarrow> string) \<Rightarrow> string \<Rightarrow> int \<Rightarrow> int" where
  "loadPositiveIntOrDefault getenv key fallback =
     (let raw = trim_space (getenv key) in if raw = [] then fallback else positive_or fallback (Atoi raw))"

text \<open>The stricter readers of the runtime package: what cannot be parsed is an error.\<close>

definition parsed_or_error :: "string \<Rightarrow> 'a option \<Rightarrow> 'a result" where
  "parsed_or_error name v = (case v of None \<Rightarrow> Inl (Msg (''parse '' @ name)) | Some x \<Rightarrow> Inr x)"

definition intEnvOrDefault :: "(string \<Rightarrow> string) \<Rightarrow> string \<Rightarrow> int \<Rightarrow> int result" where
  "intEnvOrDefault getenv name fallback =
     (let value = trim_space (getenv name) in if value = [] then Inr fallback else parsed_or_error name (Atoi value))"

definition durationEnvOrDefault :: "(string \<Rightarrow> string) \<Rightarrow> string \<Rightarrow> duration \<Rightarrow> duration result" where
  "durationEnvOrDefault getenv name fallback =
     (let value = trim_space (getenv name) in if value = [] then Inr fallback else parsed_or_error name (ParseDuration value))"

record RetryPolicyConfig =
  ry_MaxAttempts :: int
  ry_RetryDelay :: duration

definition defaultRetryMaxAttempts :: int where "defaultRetryMaxAttempts = 3"
definition defaultRetryDelay :: duration where "defaultRetryDelay = seconds 30"

definition LoadRetryPolicyConfig :: "(string \<Rightarrow> string) \<Rightarrow> string \<Rightarrow> RetryPolicyConfig result" where
  "LoadRetryPolicyConfig getenv stagePrefix =
     (let stg = trim_space stagePrefix;
          attempts = ''PCG_'' @ stg @ ''_MAX_ATTEMPTS'';
          delay = ''PCG_'' @ stg @ ''_RETRY_DELAY'' in
      if stg = [] then Inl (Required ''retry policy stage prefix'')
      else
        (case intEnvOrDefault getenv attempts defaultRetryMaxAttempts of
           Inl e \<Rightarrow> Inl e
         | Inr maxAttempts \<Rightarrow>
             (case durationEnvOrDefault getenv delay defaultRetryDelay of
                Inl e \<Rightarrow> Inl e
              | Inr pause \<Rightarrow>
                  if maxAttempts \<le> 0 then Inl (NotPositive attempts)
                  else if pause \<le> 0 then Inl (NotPositive delay)
                  else Inr \<lparr>ry_MaxAttempts = maxAttempts, ry_RetryDelay = pause\<rparr>)))"

section \<open>The backend and the profile\<close>

definition GraphBackendNeo4j :: string where "GraphBackendNeo4j = ''neo4j''"
definition GraphBackendNornicDB :: string where "GraphBackendNornicDB = ''nornicdb''"

definition LoadGraphBackend :: "(string \<Rightarrow> string) \<Rightarrow> string result" where
  "LoadGraphBackend getenv =
     (let raw = trim_space (getenv ''PCG_GRAPH_BACKEND'') in
      if raw = [] then Inr GraphBackendNornicDB
      else if raw = GraphBackendNeo4j \<or> raw = GraphBackendNornicDB then Inr raw
      else Inl (Fmt ''invalid PCG_GRAPH_BACKEND'' [raw]))"

definition ProfileLocalAuthoritative :: string where "ProfileLocalAuthoritative = ''local_authoritative''"

definition query_profiles :: "string list" where
  "query_profiles = [''local_lightweight'', ProfileLocalAuthoritative, ''local_full_stack'', ''production'']"

definition ParseQueryProfile :: "string \<Rightarrow> string result" where
  "ParseQueryProfile raw =
     (let p = trim_space raw in
      if p = [] \<or> p \<in> set query_profiles then Inr p else Inl (Fmt ''invalid query profile'' [p]))"

definition loadReducerProjectorDrainGate :: "(string \<Rightarrow> string) \<Rightarrow> string \<Rightarrow> bool result" where
  "loadReducerProjectorDrainGate getenv backend =
     (case ParseQueryProfile (getenv ''PCG_QUERY_PROFILE'') of
        Inl e \<Rightarrow> Inl e
      | Inr profile \<Rightarrow> Inr (backend = GraphBackendNornicDB \<and> profile = ProfileLocalAuthoritative))"

section \<open>The queue and its workers\<close>

text \<open>The value of a variable that holds a positive number.\<close>

definition positive_env :: "(string \<Rightarrow> string) \<Rightarrow> string \<Rightarrow> int option" where
  "positive_env getenv key =
     (let raw = trim_space (getenv key) in
      if raw = [] then None else (case Atoi raw of Some n \<Rightarrow> if 0 < n then Some n else None | None \<Rightarrow> None))"

definition loadReducerWorkerCount :: "int \<Rightarrow> (string \<Rightarrow> string) \<Rightarrow> string \<Rightarrow> int" where
  "loadReducerWorkerCount cpus getenv backend =
     (case positive_env getenv ''PCG_REDUCER_WORKERS'' of
        Some n \<Rightarrow> n
      | None \<Rightarrow>
          (let most = (if backend = GraphBackendNornicDB then 8 else 4); n = (if most < cpus then most else cpus)
           in if n < 1 then 1 else n))"

definition loadReducerBatchClaimSize :: "(string \<Rightarrow> string) \<Rightarrow> int \<Rightarrow> string \<Rightarrow> int" where
  "loadReducerBatchClaimSize getenv workers backend =
     (case positive_env getenv ''PCG_REDUCER_BATCH_CLAIM_SIZE'' of
        Some n \<Rightarrow> n
      | None \<Rightarrow>
          if backend = GraphBackendNornicDB then workers
          else (let n = wrap64 (workers * 4); n = (if 64 < n then 64 else n) in if n < 4 then 4 else n))"

definition loadReducerClaimDomain :: "(string \<Rightarrow> string) \<Rightarrow> Domain result" where
  "loadReducerClaimDomain getenv =
     (let raw = trim_space (getenv ''PCG_REDUCER_CLAIM_DOMAIN'') in if raw = [] then Inr [] else ParseDomain raw)"

definition loadReducerExpectedSourceLocalProjectors :: "(string \<Rightarrow> string) \<Rightarrow> int" where
  "loadReducerExpectedSourceLocalProjectors getenv =
     (case Atoi (trim_space (getenv ''PCG_REDUCER_EXPECTED_SOURCE_LOCAL_PROJECTORS'')) of
        None \<Rightarrow> 0 | Some n \<Rightarrow> if n \<le> 0 then 0 else n)"

definition loadReducerSemanticEntityClaimLimit :: "(string \<Rightarrow> string) \<Rightarrow> string \<Rightarrow> int" where
  "loadReducerSemanticEntityClaimLimit getenv backend =
     (case positive_env getenv ''PCG_REDUCER_SEMANTIC_ENTITY_CLAIM_LIMIT'' of
        Some n \<Rightarrow> n
      | None \<Rightarrow> if backend = GraphBackendNornicDB then 1 else 0)"

text \<open>The part of \<open>buildReducerService\<close> that sets up the queue, in its order.\<close>

definition load_reducer_queue :: "(string \<Rightarrow> string) \<Rightarrow> ReducerQueue result" where
  "load_reducer_queue getenv =
     (case LoadGraphBackend getenv of
        Inl e \<Rightarrow> Inl e
      | Inr backend \<Rightarrow>
          (case LoadRetryPolicyConfig getenv ''REDUCER'' of
             Inl e \<Rightarrow> Inl e
           | Inr retry \<Rightarrow>
               (case loadReducerProjectorDrainGate getenv backend of
                  Inl e \<Rightarrow> Inl (Wrap ''load reducer projector drain gate'' e)
                | Inr gate \<Rightarrow>
                    (case loadReducerClaimDomain getenv of
                       Inl e \<Rightarrow> Inl (Wrap ''load reducer claim domain'' e)
                     | Inr domain \<Rightarrow>
                         Inr \<lparr>rq_HasDatabase = True, rq_LeaseOwner = ''reducer'', rq_LeaseDuration = seconds 60,
                              rq_RetryDelay = ry_RetryDelay retry, rq_MaxAttempts = ry_MaxAttempts retry,
                              rq_ClaimDomain = domain, rq_RequireProjectorDrainBeforeClaim = gate,
                              rq_ExpectedSourceLocalProjectors = loadReducerExpectedSourceLocalProjectors getenv,
                              rq_SemanticEntityClaimLimit = loadReducerSemanticEntityClaimLimit getenv backend\<rparr>))))"

section \<open>The lanes\<close>

definition loadCodeCallProjectionConfig :: "(string \<Rightarrow> string) \<Rightarrow> CodeCallConfig" where
  "loadCodeCallProjectionConfig getenv =
     \<lparr>ccc_LeaseOwner = loadStringOrDefault getenv ''PCG_CODE_CALL_PROJECTION_LEASE_OWNER'' ''code-call-projection-runner'',
      ccc_PollInterval = loadDurationOrDefault getenv ''PCG_CODE_CALL_PROJECTION_POLL_INTERVAL'' 500000000,
      ccc_LeaseTTL = loadDurationOrDefault getenv ''PCG_CODE_CALL_PROJECTION_LEASE_TTL'' (seconds 60),
      ccc_BatchLimit = loadPositiveIntOrDefault getenv ''PCG_CODE_CALL_PROJECTION_BATCH_LIMIT'' 100,
      ccc_AcceptanceScanLimit =
        loadPositiveIntOrDefault getenv ''PCG_CODE_CALL_PROJECTION_ACCEPTANCE_SCAN_LIMIT'' DefaultCodeCallAcceptanceScanLimit\<rparr>"

definition loadRepoDependencyProjectionConfig :: "(string \<Rightarrow> string) \<Rightarrow> RepoDependencyConfig" where
  "loadRepoDependencyProjectionConfig getenv =
     \<lparr>rdc_LeaseOwner = loadStringOrDefault getenv ''PCG_REPO_DEPENDENCY_PROJECTION_LEASE_OWNER'' ''repo-dependency-projection-runner'',
      rdc_PollInterval = loadDurationOrDefault getenv ''PCG_REPO_DEPENDENCY_PROJECTION_POLL_INTERVAL'' 500000000,
      rdc_LeaseTTL = loadDurationOrDefault getenv ''PCG_REPO_DEPENDENCY_PROJECTION_LEASE_TTL'' (seconds 60),
      rdc_BatchLimit = loadPositiveIntOrDefault getenv ''PCG_REPO_DEPENDENCY_PROJECTION_BATCH_LIMIT'' 100\<rparr>"

definition loadCodeCallEdgeWriterTuning :: "(string \<Rightarrow> string) \<Rightarrow> int \<times> int" where
  "loadCodeCallEdgeWriterTuning getenv =
     (loadPositiveIntOrDefault getenv ''PCG_CODE_CALL_EDGE_BATCH_SIZE'' 1000,
      loadPositiveIntOrDefault getenv ''PCG_CODE_CALL_EDGE_GROUP_BATCH_SIZE'' 1)"

definition loadSharedEdgeWriterGroupTuning :: "(string \<Rightarrow> string) \<Rightarrow> int \<times> int" where
  "loadSharedEdgeWriterGroupTuning getenv =
     (loadPositiveIntOrDefault getenv ''PCG_INHERITANCE_EDGE_GROUP_BATCH_SIZE'' 1,
      loadPositiveIntOrDefault getenv ''PCG_SQL_RELATIONSHIP_EDGE_GROUP_BATCH_SIZE'' 1)"

definition loadGraphProjectionPhaseRepairConfig :: "(string \<Rightarrow> string) \<Rightarrow> RepairerConfig" where
  "loadGraphProjectionPhaseRepairConfig getenv =
     \<lparr>rc_PollInterval = loadDurationOrDefault getenv ''PCG_GRAPH_PROJECTION_REPAIR_POLL_INTERVAL'' (seconds 1),
      rc_BatchLimit = loadPositiveIntOrDefault getenv ''PCG_GRAPH_PROJECTION_REPAIR_BATCH_LIMIT'' 100,
      rc_RetryDelay = loadDurationOrDefault getenv ''PCG_GRAPH_PROJECTION_REPAIR_RETRY_DELAY'' (seconds 60)\<rparr>"

section \<open>What is loaded is fit for use\<close>

lemma positive_env_pos: "positive_env getenv key = Some n \<Longrightarrow> 0 < n"
  by (auto simp: positive_env_def Let_def split: if_splits option.splits)

lemma loadPositiveIntOrDefault_pos: "0 < fallback \<Longrightarrow> 0 < loadPositiveIntOrDefault getenv key fallback"
  by (auto simp: loadPositiveIntOrDefault_def positive_or_def Let_def split: option.split)

lemma loadDurationOrDefault_pos: "0 < fallback \<Longrightarrow> 0 < loadDurationOrDefault getenv key fallback"
  by (auto simp: loadDurationOrDefault_def positive_or_def Let_def split: option.split)

lemma loadReducerWorkerCount_pos: "0 < loadReducerWorkerCount cpus getenv backend"
  by (auto simp: loadReducerWorkerCount_def Let_def dest: positive_env_pos split: option.split)

lemma loadReducerBatchClaimSize_pos: "0 < workers \<Longrightarrow> 0 < loadReducerBatchClaimSize getenv workers backend"
  by (auto simp: loadReducerBatchClaimSize_def Let_def dest: positive_env_pos split: option.split)

lemma LoadRetryPolicyConfig_pos:
  "LoadRetryPolicyConfig getenv stagePrefix = Inr c \<Longrightarrow> 0 < ry_MaxAttempts c \<and> 0 < ry_RetryDelay c"
  by (auto simp: LoadRetryPolicyConfig_def Let_def split: if_splits sum.splits)

lemma loadReducerClaimDomain_valid:
  "loadReducerClaimDomain getenv = Inr d \<Longrightarrow> d \<noteq> [] \<Longrightarrow> Domain_Validate d = None"
  by (auto simp: loadReducerClaimDomain_def ParseDomain_def Let_def split: if_splits option.splits)

text \<open>
  Whatever the environment holds: a queue that is built passes its own validation and allows at least one attempt,
  there is at least one worker, and the claimer asks for at least one item and at most what its configuration says.
\<close>

theorem loaded_reducer_ok:
  assumes "load_reducer_queue getenv = Inr q" and "workers = loadReducerWorkerCount cpus getenv backend"
    and "batch = loadReducerBatchClaimSize getenv workers backend"
  shows "reducer_validate q = None \<and> 0 < rq_MaxAttempts q \<and> 0 < rq_RetryDelay q \<and> 0 < workers
    \<and> int (batchClaimSize (buildReducerService collate locked q cause_of clock executor (nat workers) batch)) = batch"
proof -
  from assms(1) obtain backend' retry gate d where "LoadRetryPolicyConfig getenv ''REDUCER'' = Inr retry"
    and d: "loadReducerClaimDomain getenv = Inr d"
    and q: "q = \<lparr>rq_HasDatabase = True, rq_LeaseOwner = ''reducer'', rq_LeaseDuration = seconds 60,
      rq_RetryDelay = ry_RetryDelay retry, rq_MaxAttempts = ry_MaxAttempts retry, rq_ClaimDomain = d,
      rq_RequireProjectorDrainBeforeClaim = gate,
      rq_ExpectedSourceLocalProjectors = loadReducerExpectedSourceLocalProjectors getenv,
      rq_SemanticEntityClaimLimit = loadReducerSemanticEntityClaimLimit getenv backend'\<rparr>"
    by (auto simp: load_reducer_queue_def split: sum.splits)
  with LoadRetryPolicyConfig_pos have "0 < rq_MaxAttempts q" "0 < rq_RetryDelay q" by auto
  moreover have "reducer_validate q = None"
    using loadReducerClaimDomain_valid [OF d] by (simp add: reducer_validate_def q seconds_def)
  moreover have "0 < workers" by (simp add: assms(2) loadReducerWorkerCount_pos)
  moreover from this have "0 < batch" by (simp add: assms(3) loadReducerBatchClaimSize_pos)
  then have "int (batchClaimSize (buildReducerService collate locked q cause_of clock executor (nat workers) batch)) = batch"
    by (simp add: batchClaimSize_def buildReducerService_def)
  ultimately show ?thesis by blast
qed

text \<open>
  The cycles of both lanes return under the configuration the environment gives them; for the code calls, if the cap
  it sets is at most \<open>2 ^ 62\<close>.
\<close>

theorem loaded_lanes_return:
  "repo_processOnce collate (loadRepoDependencyProjectionConfig getenv) ew replay env clock now w \<noteq> None"
  "ccc_AcceptanceScanLimit (loadCodeCallProjectionConfig getenv) \<le> 2 ^ 62
    \<Longrightarrow> ccc_BatchLimit (loadCodeCallProjectionConfig getenv) \<le> 2 ^ 62
    \<Longrightarrow> processOnce collate (loadCodeCallProjectionConfig getenv) ew env clock now w \<noteq> None"
  by (rule repo_cycle_returns, rule code_call_cycle_returns)
    (auto simp: acceptanceScanLimit_def code_call_batchLimit_def DefaultCodeCallAcceptanceScanLimit_def defaultBatchLimit_def)

end
