(* ===== verification/Spec2Isabelle.thy ===== *)
theory Spec2Isabelle
  imports Truth WorkQueue Fairness RepairRunner ReducerRuntime Progress RunReconciliation CoordinatorState
    ClaimStore SharedRunner CorrelationRules ClaimedService Coordinator Payload QueueExamples
    Recovery FactStore CrossRepo Ingestion ProjectorService ContentStore
    ReducerService CodeCallRunner RepoDependencyRunner ReducerConfig
begin

text \<open>
  A model of the core of the platform context graph, the Go program under \<open>go/internal\<close>: how
  ingestion work is planned, claimed and collected, how its facts reach the projection queues,
  and how reducers follow up on them. Collectors, projectors, reducers and the workflow
  coordinator are separate processes that meet in PostgreSQL tables; nearly all of what makes
  them correct is in the statements they run there and in the decisions they take between them.
  This development models those statements and decisions, and shows what they guarantee and
  where they do not guarantee what the code intends.

  \<^bold>\<open>Conventions.\<close> Go structs are records whose fields carry a prefix, enumerations on which the code
  switches are datatypes with a constructor for every other string, strings are byte strings,
  instants and durations are integers of nanoseconds, and a pointer or a NULL is an option.
  Errors are the values of \<open>Prelude.error\<close>; an operation returns them beside the new state. A table is the
  list of its rows, a statement takes effect as a whole or not at all. 64-bit arithmetic is written
  out where it can leave its range (\<open>Fairness\<close>). What the program calls and does not contain (the
  collation, the cast to JSONB, graph writers, collectors, clocks) is a parameter of the definitions.
  Loops over data are structural recursion, polling loops run over an explicit list of events or
  with fuel, and the properties say how much is enough.

  \<^bold>\<open>Shared theories.\<close> \<open>Prelude\<close> has errors, validators (locale \<open>validator\<close>), time and text;
  \<open>Ordering\<close> comparisons and sorting (locale \<open>comparator\<close>); \<open>Machines\<close> reachability, runs and
  invariants (locales \<open>preserved\<close>, \<open>invariant\<close>, \<open>monotone_step\<close>); \<open>Strings\<close> trimming and
  identifiers; \<open>Sql\<close> batches and upserts; \<open>Leases\<close> the contract of fenced claims (locale
  \<open>leases\<close>, interpreted in \<open>ClaimStore\<close>); \<open>ClaimWindows\<close> that of claims which exclude each
  other per key while their leases run (locale \<open>claim_windows\<close>, interpreted in \<open>ProjectorQueue\<close>);
  \<open>Json\<close>, \<open>JsonRaw\<close>, \<open>JsonEncode\<close>, \<open>GoParse\<close> and \<open>Sha256\<close> the parts of Go's standard
  library the program's values pass through.

  \<^bold>\<open>Control plane.\<close> \<open>Scope\<close> (\<open>scope/scope.go\<close>) has the lifecycle of scope generations, \<open>WorkQueue\<close>
  (\<open>queue/models.go\<close>) that of a durable work item, \<open>Workflow\<close> (\<open>workflow/types.go\<close> and its
  neighbours) the values of runs, work items and claims, \<open>Fairness\<close> (\<open>workflow/fairness.go\<close>) the smooth weighted round
  robin between collector families. \<open>ClaimStore\<close> (\<open>storage/postgres/workflow_control*.go\<close>) has every
  statement on work items and claims: at most one claim of an item is active, an ended claim is
  refused from then on, a claim handed out can be ended, an expired one is requeued.
  \<open>CoordinatorState\<close>, \<open>Progress\<close> and \<open>RunReconciliation\<close> keep the collector instances in step with
  the configuration and derive the status of a run from its items; \<open>Coordinator\<close>
  (\<open>coordinator/*.go\<close>) loads the settings and runs the loop; \<open>ClaimedService\<close>
  (\<open>collector/claimed_service.go\<close>) is the collector's side of a claim with its heartbeats.

  \<^bold>\<open>Data plane.\<close> \<open>Payload\<close> (\<open>storage/postgres/facts.go\<close>) is the encoding of payload maps into JSONB
  text and back. \<open>FactTables\<close> (\<open>schema.go\<close>) holds the tables of scopes, generations, facts and
  work items. \<open>ProjectorQueue\<close> (\<open>projector_queue.go\<close>) and \<open>ReducerQueue\<close> (\<open>reducer_queue*.go\<close>) are
  the two queues over \<open>fact_work_items\<close>: who may claim what, what an ack and a failure do, and what
  overlapping or late statements do to that. \<open>FactStore\<close> (\<open>facts/*.go\<close>, \<open>facts.go\<close>) writes fact envelopes
  in batches, from a slice or a stream, and reads them back; \<open>Ingestion\<close> (\<open>ingestion.go\<close>) commits a
  generation with its facts, evidence and work item, and maintains the evidence of the corpus; \<open>Recovery\<close> (\<open>recovery/replay.go\<close>,
  \<open>recovery.go\<close>) has the operator's replay of failed items and refinalization of scopes.

  \<^bold>\<open>From snapshots to stores.\<close> \<open>GitFacts\<close> (\<open>collector/git_fact_builder.go\<close>) streams the facts of one snapshot of a
  repository. \<open>FactPayload\<close>, \<open>CanonicalGraph\<close>, \<open>SemanticIntents\<close> and \<open>Projection\<close> (\<open>projector/payload.go\<close>,
  \<open>canonical*.go\<close>, \<open>semantic_entity_intents.go\<close>, \<open>stage_*.go\<close>, the pure part of \<open>runtime.go\<close>) turn the facts of a generation
  into graph rows, content rows and reducer intents; \<open>ProjectorRuntime\<close> (\<open>runtime.go\<close>, \<open>runtime_stages.go\<close>,
  \<open>retry.go\<close>) writes them, publishes the phases and enqueues the intents, in an order the property
  \<open>projection_ordered\<close> states; \<open>ProjectorService\<close> (\<open>service.go\<close>, \<open>cmd/projector\<close>) is the loop over the projector queue:
  claimed work is released whatever happens to it, short of an error that ends the worker.
  \<open>Content\<close> and \<open>ContentStore\<close> (\<open>content/writer.go\<close>, \<open>storage/postgres/content_writer*.go\<close>) are the rows of files and
  entities and the writer of their tables. \<open>GoPath\<close> is Go's package \<open>path\<close> on segments.

  \<^bold>\<open>Reducers.\<close> \<open>ReducerIntent\<close>, \<open>ReducerRuntime\<close> (\<open>reducer/*.go\<close>) are the intents and the in-process
  runtime; \<open>ReducerService\<close> (\<open>service*.go\<close>, \<open>cmd/reducer\<close>) the loops that claim intents, run them under heartbeats and
  acknowledge them, one at a time or in a pool whose channels are a state machine: while it runs,
  every claimed intent is in hand or has been passed to the acknowledgement; \<open>Phases\<close>, \<open>PhaseStore\<close> and \<open>RepairRunner\<close> the graph projection phases, their store and
  the repair of lost publications; \<open>SharedProjection\<close>, \<open>SharedStore\<close> and \<open>SharedRunner\<close> the shared
  projection of intents by partition under leases; \<open>CodeCallRunner\<close> (\<open>code_call_projection_*.go\<close>) the lane that
  projects the code calls of one acceptance unit at a time and in whole (its fuel of 63 doublings reaches every cap
  up to \<open>2 ^ 62\<close>, lemma \<open>scan_loop_returns\<close>), \<open>RepoDependencyRunner\<close> (\<open>repo_dependency_projection_runner.go\<close>) that
  of the dependencies of one source repository, with its replays of workloads; the cycles of both lanes return under every configuration
  \<open>ReducerConfig\<close> (\<open>cmd/reducer/config.go\<close>) loads, up to that cap; \<open>Correlation\<close> and \<open>CorrelationRules\<close>
  (\<open>correlation/*\<close>) the correlation engine and the rule packs it ships; \<open>Truth\<close> (\<open>truth/contract.go\<close>)
  the truth layers.

  \<^bold>\<open>Relationships.\<close> \<open>Relationships\<close> (\<open>relationships/models.go\<close>, \<open>resolver.go\<close>) resolves evidence and human
  assertions into one relationship per source, target and type; \<open>RelationshipStore\<close>
  (\<open>relationship_store*.go\<close>, \<open>relationship_schema.go\<close>) has the tables and statements for both and for the
  generations of the results; \<open>CrossRepo\<close> (\<open>reducer/cross_repo_*.go\<close>) is the reducer's handler that joins
  them with the evidence gate and the shared intents. \<open>Decimal\<close> is how Go prints a double.

  \<^bold>\<open>Not modelled.\<close> Collectors and parsers (files, git and grammars), the graph database behind the
  writers, the read side (HTTP and MCP queries), telemetry and process start-up. A cancelled
  context and failures of the connection appear where a component handles them and are left out
  elsewhere. What git, the parsers and the discovery make of a working copy is given as a snapshot, and what
  is found in a body as references; the extraction of evidence from file contents is not modelled.
\<close>

end
